(* ===== verification/Prelude.thy ===== *)
theory Prelude
  imports Main "HOL-Library.Word"
begin

text \<open>
  Shared vocabulary of the development: machine types, UEFI status codes, the fault
  values that stand for undefined behaviour of the C code, and the generic lemmas and
  interfaces that several components use.

  \<^item> A C function that may read or write out of bounds, dereference NULL or fail an
    \<^verbatim>\<open>ASSERT\<close> returns a value of \<open>'a res\<close>: \<open>Inl\<close> a fault, or \<open>Inr\<close> its result.
  \<^item> \<^verbatim>\<open>UINTN\<close> is 64 bits wide. Sizes, offsets and indices whose arithmetic cannot wrap are
    \<open>nat\<close>; pointers and quantities that can wrap are words.
  \<^item> \<^verbatim>\<open>EFI_STATUS\<close> is a 64-bit word whose top bit marks an error, as the UEFI specification
    encodes it.
\<close>

unbundle bit_operations_syntax

type_synonym byte = "8 word"
type_synonym UINT16 = "16 word"
type_synonym UINT32 = "32 word"
type_synonym UINT64 = "64 word"
type_synonym ptr = "64 word"
type_synonym efi_status = "64 word"

named_theorems status_defs \<open>the UEFI status codes\<close>

section \<open>Faults\<close>

datatype fault =
    OobRead       \<comment> \<open>read outside the object\<close>
  | OobWrite      \<comment> \<open>write outside the object\<close>
  | NullDeref     \<comment> \<open>NULL pointer dereferenced\<close>
  | AssertFailed  \<comment> \<open>\<^verbatim>\<open>ASSERT\<close> with a false condition\<close>
  | UseAfterFree  \<comment> \<open>access through a pointer that was freed\<close>
  | Uninitialised \<comment> \<open>use of an object that was not given a value\<close>

type_synonym 'a res = "fault + 'a"

definition bind_res :: "'a res \<Rightarrow> ('a \<Rightarrow> 'b res) \<Rightarrow> 'b res" where
  "bind_res r f = (case r of Inl e \<Rightarrow> Inl e | Inr x \<Rightarrow> f x)"

lemma bind_res_simps [simp]:
  "bind_res (Inl e) f = Inl e"
  "bind_res (Inr x) f = f x"
  by (simp_all add: bind_res_def)

lemma bind_res_InrE:
  assumes "bind_res r f = Inr y"
  obtains x where "r = Inr x" and "f x = Inr y"
  using assms by (cases r) auto

lemma bind_res_InlE:
  assumes "bind_res r k = Inl f"
  obtains "r = Inl f" | x where "r = Inr x" and "k x = Inl f"
  using assms by (cases r) auto

section \<open>UEFI status codes\<close>

definition EFI_ERROR :: "efi_status \<Rightarrow> bool" where
  "EFI_ERROR s \<longleftrightarrow> bit s 63"

definition EFI_SUCCESS :: efi_status where [status_defs]: "EFI_SUCCESS = 0"
definition EFI_INVALID_PARAMETER :: efi_status where
  [status_defs]: "EFI_INVALID_PARAMETER = 0x8000000000000002"
definition EFI_UNSUPPORTED :: efi_status where
  [status_defs]: "EFI_UNSUPPORTED = 0x8000000000000003"
definition EFI_BAD_BUFFER_SIZE :: efi_status where
  [status_defs]: "EFI_BAD_BUFFER_SIZE = 0x8000000000000004"
definition EFI_BUFFER_TOO_SMALL :: efi_status where
  [status_defs]: "EFI_BUFFER_TOO_SMALL = 0x8000000000000005"
definition EFI_NOT_READY :: efi_status where
  [status_defs]: "EFI_NOT_READY = 0x8000000000000006"
definition EFI_OUT_OF_RESOURCES :: efi_status where
  [status_defs]: "EFI_OUT_OF_RESOURCES = 0x8000000000000009"
definition EFI_VOLUME_CORRUPTED :: efi_status where
  [status_defs]: "EFI_VOLUME_CORRUPTED = 0x800000000000000A"
definition EFI_NOT_FOUND :: efi_status where
  [status_defs]: "EFI_NOT_FOUND = 0x800000000000000E"
definition EFI_ABORTED :: efi_status where
  [status_defs]: "EFI_ABORTED = 0x8000000000000015"
definition EFI_PROTOCOL_ERROR :: efi_status where
  [status_defs]: "EFI_PROTOCOL_ERROR = 0x8000000000000018"
definition EFI_INCOMPATIBLE_VERSION :: efi_status where
  [status_defs]: "EFI_INCOMPATIBLE_VERSION = 0x8000000000000019"
definition EFI_CRC_ERROR :: efi_status where
  [status_defs]: "EFI_CRC_ERROR = 0x800000000000001B"
definition EFI_COMPROMISED_DATA :: efi_status where
  [status_defs]: "EFI_COMPROMISED_DATA = 0x8000000000000021"

lemma EFI_ERROR_simps [simp]:
  "\<not> EFI_ERROR EFI_SUCCESS"
  "EFI_ERROR EFI_INVALID_PARAMETER" "EFI_ERROR EFI_UNSUPPORTED"
  "EFI_ERROR EFI_BAD_BUFFER_SIZE" "EFI_ERROR EFI_BUFFER_TOO_SMALL"
  "EFI_ERROR EFI_NOT_READY" "EFI_ERROR EFI_OUT_OF_RESOURCES"
  "EFI_ERROR EFI_VOLUME_CORRUPTED" "EFI_ERROR EFI_NOT_FOUND"
  "EFI_ERROR EFI_PROTOCOL_ERROR" "EFI_ERROR EFI_INCOMPATIBLE_VERSION"
  "EFI_ERROR EFI_CRC_ERROR" "EFI_ERROR EFI_COMPROMISED_DATA"
  "EFI_ERROR EFI_ABORTED"
  by (simp_all add: EFI_ERROR_def status_defs)

lemma EFI_ERROR_neq_success: "EFI_ERROR s \<Longrightarrow> s \<noteq> EFI_SUCCESS"
  by auto

section \<open>Byte buffers\<close>

text \<open>
  \<open>copy_at off src buf\<close> is \<^verbatim>\<open>CopyMem (buf + off, src, len)\<close> and \<open>zero_at off n buf\<close> is
  \<^verbatim>\<open>ZeroMem (buf + off, n)\<close>, both for a destination range inside the buffer.
\<close>

definition copy_at :: "nat \<Rightarrow> 'a list \<Rightarrow> 'a list \<Rightarrow> 'a list" where
  "copy_at off src buf = take off buf @ src @ drop (off + length src) buf"

definition zero_at :: "nat \<Rightarrow> nat \<Rightarrow> byte list \<Rightarrow> byte list" where
  "zero_at off n buf = copy_at off (replicate n 0) buf"

definition seg :: "nat \<Rightarrow> nat \<Rightarrow> 'a list \<Rightarrow> 'a list" where
  "seg off n buf = take n (drop off buf)"

lemma length_copy_at [simp]:
  "off + length src \<le> length buf \<Longrightarrow> length (copy_at off src buf) = length buf"
  by (simp add: copy_at_def)

lemma length_zero_at [simp]:
  "off + n \<le> length buf \<Longrightarrow> length (zero_at off n buf) = length buf"
  by (simp add: zero_at_def)

lemma nth_copy_at:
  assumes "off + length src \<le> length buf" and "i < length buf"
  shows "copy_at off src buf ! i
    = (if off \<le> i \<and> i < off + length src then src ! (i - off) else buf ! i)"
  using assms by (auto simp: copy_at_def nth_append min_def)

lemma nth_zero_at:
  assumes "off + n \<le> length buf" and "i < length buf"
  shows "zero_at off n buf ! i = (if off \<le> i \<and> i < off + n then 0 else buf ! i)"
  using assms by (auto simp: zero_at_def nth_copy_at)

lemma length_seg [simp]: "off + n \<le> length buf \<Longrightarrow> length (seg off n buf) = n"
  by (simp add: seg_def)

lemma nth_seg: "off + n \<le> length buf \<Longrightarrow> i < n \<Longrightarrow> seg off n buf ! i = buf ! (off + i)"
  by (simp add: seg_def)

lemma seg_copy_at_same:
  "off + length src \<le> length buf \<Longrightarrow> seg off (length src) (copy_at off src buf) = src"
  by (simp add: seg_def copy_at_def)

lemma seg_copy_at_other:
  assumes "off + length src \<le> length buf" and "p + n \<le> length buf"
    and "p + n \<le> off \<or> off + length src \<le> p"
  shows "seg p n (copy_at off src buf) = seg p n buf"
  using assms by (intro nth_equalityI) (auto simp: nth_seg nth_copy_at)

lemma copy_at_append:
  "n + length x + length y \<le> length C \<Longrightarrow>
    copy_at (n + length x) y (copy_at n x C) = copy_at n (x @ y) C"
  by (intro nth_equalityI) (auto simp: nth_copy_at nth_append)

section \<open>Searches\<close>

text \<open>The first result in a list of candidates.\<close>

primrec first_some :: "('a \<Rightarrow> 'b option) \<Rightarrow> 'a list \<Rightarrow> 'b option" where
  "first_some f [] = None"
| "first_some f (x # xs) = (case f x of Some y \<Rightarrow> Some y | None \<Rightarrow> first_some f xs)"

lemma first_some_None: "first_some f xs = None \<longleftrightarrow> (\<forall>x \<in> set xs. f x = None)"
  by (induction xs) (auto split: option.splits)

lemma first_some_SomeD: "first_some f xs = Some y \<Longrightarrow> \<exists>x \<in> set xs. f x = Some y"
  by (induction xs) (auto split: option.splits)

lemma first_some_append:
  "first_some f (xs @ ys) = (case first_some f xs of Some y \<Rightarrow> Some y | None \<Rightarrow> first_some f ys)"
  by (induction xs) (auto split: option.splits)

section \<open>Pointers\<close>

lemma unat_of_nat64: "n < 2 ^ 64 \<Longrightarrow> unat (of_nat n :: 64 word) = n"
  by (simp add: unat_of_nat take_bit_nat_eq_self)

lemma unat_of_nat32: "n < 2 ^ 32 \<Longrightarrow> unat (of_nat n :: 32 word) = n"
  by (simp add: unat_of_nat take_bit_nat_eq_self)

lemma unat_of_nat_less:
  fixes r :: "32 word"
  assumes "n < unat r"
  shows "unat (of_nat n :: 32 word) = n"
  using assms unsigned_less [of r, where 'a = nat] by (intro unat_of_nat32) simp

lemma unat_of_nat_shrinks:
  fixes r :: "32 word"
  shows "\<not> unat r \<le> n \<Longrightarrow> unat (of_nat n :: 32 word) < unat r"
  using unat_of_nat_less [of n r] by simp

lemma unat_add_ptr:
  fixes p :: "64 word"
  assumes "unat p + n < 2 ^ 64"
  shows "unat (p + of_nat n) = unat p + n"
proof -
  have "unat (of_nat n :: 64 word) = n" using assms by (intro unat_of_nat64) simp
  with assms show ?thesis by (simp add: unat_word_ariths(1))
qed

lemma ptr_offset:
  fixes base :: "64 word"
  shows "n < 2 ^ 64 \<Longrightarrow> unat (base + of_nat n - base) = n"
  by (simp add: unat_of_nat64)

section \<open>Bits of a byte\<close>

lemma bit_byte: "bit (b :: byte) n \<longleftrightarrow> odd (unat b div 2 ^ n)"
proof -
  have "bit b n \<longleftrightarrow> bit (unat b) n"
    by (cases "n < 8") (auto simp: bit_unsigned_iff possible_bit_def dest: bit_imp_le_length)
  then show ?thesis by (simp only: bit_iff_odd)
qed

lemma bit7: "bit (b :: byte) 7 \<longleftrightarrow> 128 \<le> unat b"
proof -
  have "odd (k div 128) \<longleftrightarrow> 128 \<le> k" if "k < 256" for k :: nat
  proof (cases "128 \<le> k")
    case True
    with that have "k div 128 = 1" by (intro div_nat_eqI) auto
    with True show ?thesis by simp
  qed simp
  moreover have "unat b < 256" using unsigned_less [of b, where ?'a = nat] by simp
  ultimately show ?thesis unfolding bit_byte by simp
qed

lemma and_eq_mask: "(b :: byte) AND c = c \<longleftrightarrow> (\<forall>n. bit c n \<longrightarrow> bit b n)"
proof
  assume "b AND c = c"
  then have "bit (b AND c) n = bit c n" for n by simp
  then show "\<forall>n. bit c n \<longrightarrow> bit b n" by (auto simp: bit_and_iff)
next
  assume "\<forall>n. bit c n \<longrightarrow> bit b n"
  then show "b AND c = c" by (intro bit_word_eqI) (auto simp: bit_and_iff)
qed

lemma byte_and_80: "(b :: byte) AND 0x80 = 0 \<longleftrightarrow> unat b < 128"
proof -
  have "b AND 0x80 = 0 \<longleftrightarrow> \<not> bit b 7" using and_exp_eq_0_iff_not_bit [of b 7] by simp
  then show ?thesis unfolding bit7 not_le .
qed

lemma byte_and_bits:
  assumes "c = 2 ^ 7 OR 2 ^ k" and "k < 7"
  shows "(b :: byte) AND c = c \<longleftrightarrow> 128 \<le> unat b \<and> odd (unat b div 2 ^ k)"
proof -
  have "bit c n \<longleftrightarrow> n = 7 \<or> n = k" for n
    using assms(2) unfolding assms(1) bit_or_iff bit_exp_iff by (auto simp: possible_bit_def)
  then have "b AND c = c \<longleftrightarrow> bit b 7 \<and> bit b k" unfolding and_eq_mask by metis
  then show ?thesis unfolding bit7 unfolding bit_byte .
qed

lemma byte_and_81: "(b :: byte) AND 0x81 = 0x81 \<longleftrightarrow> 128 \<le> unat b \<and> odd (unat b)"
  using byte_and_bits [of "0x81" 0 b] by simp

lemma byte_and_82: "(b :: byte) AND 0x82 = 0x82 \<longleftrightarrow> 128 \<le> unat b \<and> odd (unat b div 2)"
  using byte_and_bits [of "0x82" 1 b] by simp

lemma byte_and_7F: "unat ((b :: byte) AND 0x7F) = unat b mod 128"
proof -
  have "b AND 0x7F = take_bit 7 b" by (simp add: take_bit_eq_mask mask_eq_exp_minus_1)
  then have "unat (b AND 0x7F) = take_bit 7 (unat b)" by (simp only: unsigned_take_bit_eq)
  then show ?thesis by (simp add: take_bit_eq_mod)
qed

section \<open>Machines with an invariant\<close>

text \<open>
  Several components are driven by a sequence of calls. This interface collects what each
  of them proves about one call, and gives the consequences for every sequence of calls:
  \<open>step s op\<close> is \<open>None\<close> where the call faults.
\<close>

locale invariant_machine =
  fixes step :: "'s \<Rightarrow> 'op \<Rightarrow> 's option"
    and inv :: "'s \<Rightarrow> bool"
  assumes step_inv: "inv s \<Longrightarrow> step s op = Some s' \<Longrightarrow> inv s'"
begin

lemma run_inv:
  "inv s \<Longrightarrow> foldl (\<lambda>r op. Option.bind r (\<lambda>s. step s op)) (Some s) ops = Some s' \<Longrightarrow> inv s'"
proof (induction ops arbitrary: s)
  case Nil
  then show ?case by simp
next
  case (Cons op ops)
  have none: "foldl (\<lambda>r op. Option.bind r (\<lambda>s. step s op)) None xs = None" for xs
    by (induction xs) auto
  from Cons.prems(2) obtain t where t: "step s op = Some t"
    by (cases "step s op") (auto simp: none)
  with Cons show ?case by (auto intro: step_inv)
qed

end

text \<open>
  A machine that also never gets stuck on the operations its environment may issue. Restricted
  to these operations it is an invariant machine.
\<close>

locale total_machine =
  fixes step :: "'s \<Rightarrow> 'op \<Rightarrow> 's option"
    and inv :: "'s \<Rightarrow> bool"
    and ok :: "'op \<Rightarrow> bool"
  assumes step_ok: "inv s \<Longrightarrow> ok op \<Longrightarrow> \<exists>s'. step s op = Some s' \<and> inv s'"
begin

lemma run_ok:
  "inv s \<Longrightarrow> \<forall>op \<in> set ops. ok op \<Longrightarrow>
    \<exists>s'. foldl (\<lambda>r op. Option.bind r (\<lambda>s. step s op)) (Some s) ops = Some s' \<and> inv s'"
proof (induction ops arbitrary: s)
  case (Cons op ops)
  with step_ok [of s op] obtain t where "step s op = Some t" "inv t" by auto
  with Cons show ?case by simp
qed simp

end

sublocale total_machine \<subseteq> restricted: invariant_machine
  "\<lambda>s op. if ok op then step s op else None" inv
  by unfold_locales (use step_ok in \<open>force split: if_splits\<close>)

section \<open>Scratch allocators\<close>

text \<open>
  What a client of \<^verbatim>\<open>malloc\<close> and \<^verbatim>\<open>free\<close> may rely on: a non-NULL result for a positive
  size is a pointer that was not live, and becomes live; freeing a live pointer succeeds and
  makes exactly that pointer dead. \<open>live s p\<close> is the provider's own notion of a live pointer.
\<close>

locale scratch_allocator =
  fixes malloc :: "'s \<Rightarrow> nat \<Rightarrow> ('p option \<times> 's) res"
    and dealloc :: "'s \<Rightarrow> 'p option \<Rightarrow> 's res"
    and live :: "'s \<Rightarrow> 'p \<Rightarrow> bool"
    and inv :: "'s \<Rightarrow> bool"
  assumes malloc_null: "inv s \<Longrightarrow> malloc s n = Inr (None, s') \<Longrightarrow> inv s' \<and> live s' = live s"
    and malloc_fresh: "inv s \<Longrightarrow> 0 < n \<Longrightarrow> malloc s n = Inr (Some p, s') \<Longrightarrow>
          inv s' \<and> \<not> live s p \<and> live s' = (live s)(p := True)"
    and dealloc_live: "inv s \<Longrightarrow> live s p \<Longrightarrow>
          \<exists>s'. dealloc s (Some p) = Inr s' \<and> inv s' \<and> live s' = (live s)(p := False)"
begin

text \<open>Taking a scratch buffer and giving it back leaves the live pointers as they were.\<close>

lemma scratch_restores:
  assumes "inv s" and "0 < n" and "malloc s n = Inr (Some p, s')"
  shows "\<exists>s''. dealloc s' (Some p) = Inr s'' \<and> inv s'' \<and> live s'' = live s"
proof -
  from malloc_fresh [OF assms] have s': "inv s'" "\<not> live s p" "live s' = (live s)(p := True)"
    by blast+
  then have "live s' p" by simp
  with dealloc_live [OF s'(1)] obtain s'' where
    "dealloc s' (Some p) = Inr s''" "inv s''" "live s'' = (live s')(p := False)"
    by blast
  moreover have "(live s')(p := False) = live s" using s' by (auto simp: fun_eq_iff)
  ultimately show ?thesis by auto
qed

text \<open>Two blocks that are live at the same time have different addresses.\<close>

lemma malloc_distinct:
  assumes "inv s" and "0 < n" and "malloc s n = Inr (Some p, s')"
    and "0 < m" and "malloc s' m = Inr (Some q, s'')"
  shows "p \<noteq> q \<and> live s'' p \<and> live s'' q"
  using malloc_fresh [OF assms(1-3)] malloc_fresh [of s' m q s''] assms(4,5) by auto

end

end
