(* ===== verification/RtPageTable.thy ===== *)
theory RtPageTable
  imports Prelude
begin

text \<open>
  The runtime memory manager of
  \<^verbatim>\<open>OpensslPkg/Library/BaseCryptLib/SysCall/RuntimeMemAllocation.c\<close>: a pre-allocated scratch
  buffer with a page table of 512-byte pages, from which \<^verbatim>\<open>malloc\<close>, \<^verbatim>\<open>realloc\<close> and
  \<^verbatim>\<open>free\<close> are served once boot services are gone. The structures and macros come first,
  then one definition per C function in the order of the file, then the invariant of the
  table and the facts about each operation.

  \<^verbatim>\<open>Pages[i]\<close> with \<open>i\<close> outside the table is the fault \<open>OobRead\<close>. The data area is the byte
  list \<open>Data\<close>; \<open>DataAreaBase\<close> is its address.
\<close>

section \<open>The structures and macros\<close>

record rt_page_entry =
  StartPageOffset :: nat
  PageFlag :: UINT32

record rt_page_table =
  PageCount :: nat
  LastEmptyPageOffset :: nat
  DataAreaBase :: ptr
  Pages :: "rt_page_entry list"
  Data :: "byte list"

definition RT_PAGE_SIZE :: nat where "RT_PAGE_SIZE = 0x200"
definition RT_PAGE_MASK :: nat where "RT_PAGE_MASK = 0x1FF"
definition RT_PAGE_SHIFT :: nat where "RT_PAGE_SHIFT = 9"
definition RT_PAGE_FREE :: UINT32 where "RT_PAGE_FREE = 0"
definition RT_PAGE_USED :: UINT32 where "RT_PAGE_USED = 1"
definition MIN_REQUIRED_BLOCKS :: nat where "MIN_REQUIRED_BLOCKS = 1100"

definition RT_SIZE_TO_PAGES :: "nat \<Rightarrow> nat" where
  "RT_SIZE_TO_PAGES a = drop_bit RT_PAGE_SHIFT a + (if a AND RT_PAGE_MASK \<noteq> 0 then 1 else 0)"

definition RT_PAGES_TO_SIZE :: "nat \<Rightarrow> nat" where
  "RT_PAGES_TO_SIZE a = push_bit RT_PAGE_SHIFT a"

text \<open>\<^verbatim>\<open>sizeof\<close> of the two structures on a 64-bit target (the table holds one entry).\<close>

definition sizeof_entry :: nat where "sizeof_entry = 16"
definition sizeof_table :: nat where "sizeof_table = 24 + sizeof_entry"

text \<open>The test \<^verbatim>\<open>(mRTPageTable->Pages[i].PageFlag & RT_PAGE_USED) != 0\<close>.\<close>

definition entry_used :: "rt_page_entry \<Rightarrow> bool" where
  "entry_used e \<longleftrightarrow> PageFlag e AND RT_PAGE_USED \<noteq> 0"

definition page_used :: "rt_page_table \<Rightarrow> nat \<Rightarrow> bool res" where
  "page_used t i = (if i < length (Pages t) then Inr (entry_used (Pages t ! i)) else Inl OobRead)"

section \<open>InitializeScratchMemory\<close>

text \<open>
  \<^verbatim>\<open>SetMem (mRTPageTable, ScratchBufferSize, 0xFF)\<close> leaves the data area at 0xFF; the buffer is
  the address \<open>ScratchBuffer\<close>, 0 for NULL.
\<close>

definition InitializeScratchMemory :: "ptr \<Rightarrow> nat \<Rightarrow> efi_status + rt_page_table" where
  "InitializeScratchMemory ScratchBuffer ScratchBufferSize =
    (if ScratchBuffer = 0 then Inl EFI_INVALID_PARAMETER
     else if ScratchBufferSize < MIN_REQUIRED_BLOCKS * 1024 then Inl EFI_BUFFER_TOO_SMALL
     else
       let MemorySize = ScratchBufferSize - sizeof_table + sizeof_entry;
           Count = MemorySize div (RT_PAGE_SIZE + sizeof_entry)
       in Inr \<lparr>PageCount = Count,
               LastEmptyPageOffset = 0,
               DataAreaBase = ScratchBuffer + of_nat sizeof_table
                              + of_nat ((Count - 1) * sizeof_entry),
               Pages = replicate Count \<lparr>StartPageOffset = 0, PageFlag = RT_PAGE_FREE\<rparr>,
               Data = replicate (ScratchBufferSize - sizeof_table - (Count - 1) * sizeof_entry)
                        0xFF\<rparr>)"

section \<open>LookupFreeMemRegion\<close>

text \<open>
  The scan of \<open>ReqPages\<close> consecutive pages from \<open>Index\<close>: the \<open>SubIndex\<close> at which the
  \<^verbatim>\<open>for\<close> loop stops.
\<close>

function check_run :: "rt_page_table \<Rightarrow> nat \<Rightarrow> nat \<Rightarrow> nat \<Rightarrow> nat res" where
  "check_run t Index ReqPages SubIndex =
    (if SubIndex < ReqPages then
       (case page_used t (SubIndex + Index) of
          Inl f \<Rightarrow> Inl f
        | Inr u \<Rightarrow> if u then Inr SubIndex else check_run t Index ReqPages (Suc SubIndex))
     else Inr SubIndex)"
  by pat_completeness auto
termination by (relation "measure (\<lambda>(t, i, r, s). r - s)") auto

text \<open>The first \<^verbatim>\<open>while\<close> loop, which has no bound but the flag of the page it reads.\<close>

function skip_used :: "rt_page_table \<Rightarrow> nat \<Rightarrow> nat \<Rightarrow> nat res" where
  "skip_used t Index SubIndex =
    (case page_used t (SubIndex + Index) of
       Inl f \<Rightarrow> Inl f
     | Inr u \<Rightarrow> if u then skip_used t Index (Suc SubIndex) else Inr SubIndex)"
  by pat_completeness auto
termination
  by (relation "measure (\<lambda>(t, i, s). length (Pages t) - (s + i))")
     (auto simp: page_used_def split: if_splits)

text \<open>The second \<^verbatim>\<open>while\<close> loop, bounded by \<open>Lim = StartPageIndex - ReqPages\<close>.\<close>

function skip_used_lim :: "rt_page_table \<Rightarrow> nat \<Rightarrow> nat \<Rightarrow> nat \<Rightarrow> nat res" where
  "skip_used_lim t Index Lim SubIndex =
    (if SubIndex < Lim then
       (case page_used t (SubIndex + Index) of
          Inl f \<Rightarrow> Inl f
        | Inr u \<Rightarrow> if u then skip_used_lim t Index Lim (Suc SubIndex) else Inr SubIndex)
     else Inr SubIndex)"
  by pat_completeness auto
termination by (relation "measure (\<lambda>(t, i, l, s). l - s)") auto

declare check_run.simps [simp del] skip_used.simps [simp del] skip_used_lim.simps [simp del]

lemma check_run_bounds:
  "check_run t i r s = Inr k \<Longrightarrow> s \<le> r \<Longrightarrow>
    s \<le> k \<and> k \<le> r \<and> (\<forall>j. s \<le> j \<and> j < k \<longrightarrow> page_used t (j + i) = Inr False)
    \<and> (k < r \<longrightarrow> page_used t (k + i) = Inr True)"
proof (induction t i r s rule: check_run.induct)
  case (1 t i r s)
  show ?case
  proof (cases "s < r \<and> page_used t (s + i) = Inr False")
    case True
    with "1.prems" have "check_run t i r (Suc s) = Inr k"
      by (simp add: check_run.simps [of t i r s])
    with True "1.IH" have IH: "Suc s \<le> k \<and> k \<le> r \<and>
        (\<forall>j. Suc s \<le> j \<and> j < k \<longrightarrow> page_used t (j + i) = Inr False)
        \<and> (k < r \<longrightarrow> page_used t (k + i) = Inr True)"
      by auto
    have "page_used t (j + i) = Inr False" if "s \<le> j" "j < k" for j
      using that IH True by (cases "j = s") auto
    with IH show ?thesis by auto
  next
    case False
    with "1.prems" show ?thesis
      by (auto simp: check_run.simps [of t i r s] split: if_splits sum.splits)
  qed
qed

lemma skip_used_bounds:
  "skip_used t i s = Inr k \<Longrightarrow>
    s \<le> k \<and> (\<forall>j. s \<le> j \<and> j < k \<longrightarrow> page_used t (j + i) = Inr True)
    \<and> page_used t (k + i) = Inr False"
proof (induction t i s rule: skip_used.induct)
  case (1 t i s)
  show ?case
  proof (cases "page_used t (s + i) = Inr True")
    case True
    with "1.prems" have "skip_used t i (Suc s) = Inr k"
      by (simp add: skip_used.simps [of t i s])
    with True "1.IH" have IH: "Suc s \<le> k \<and>
        (\<forall>j. Suc s \<le> j \<and> j < k \<longrightarrow> page_used t (j + i) = Inr True)
        \<and> page_used t (k + i) = Inr False"
      by auto
    have "page_used t (j + i) = Inr True" if "s \<le> j" "j < k" for j
      using that IH True by (cases "j = s") auto
    with IH show ?thesis by auto
  next
    case False
    with "1.prems" show ?thesis
      by (auto simp: skip_used.simps [of t i s] split: if_splits sum.splits)
  qed
qed

lemma skip_used_lim_bounds:
  "skip_used_lim t i l s = Inr k \<Longrightarrow>
    s \<le> k \<and> (\<forall>j. s \<le> j \<and> j < k \<longrightarrow> page_used t (j + i) = Inr True)
    \<and> (k \<le> s \<or> k \<le> l)"
proof (induction t i l s rule: skip_used_lim.induct)
  case (1 t i l s)
  show ?case
  proof (cases "s < l \<and> page_used t (s + i) = Inr True")
    case True
    with "1.prems" have "skip_used_lim t i l (Suc s) = Inr k"
      by (simp add: skip_used_lim.simps [of t i l s])
    with True "1.IH" have IH: "Suc s \<le> k \<and>
        (\<forall>j. Suc s \<le> j \<and> j < k \<longrightarrow> page_used t (j + i) = Inr True)
        \<and> (k \<le> Suc s \<or> k \<le> l)"
      by auto
    have "page_used t (j + i) = Inr True" if "s \<le> j" "j < k" for j
      using that IH True by (cases "j = s") auto
    with IH True show ?thesis by auto
  next
    case False
    with "1.prems" show ?thesis
      by (auto simp: skip_used_lim.simps [of t i l s] split: if_splits sum.splits)
  qed
qed

lemma skip_used_progress:
  "page_used t (s + i) = Inr True \<Longrightarrow> skip_used t i s = Inr k \<Longrightarrow> s < k"
  using skip_used_bounds [of t i s k] by (cases "k = s") auto

lemma skip_used_lim_progress:
  "page_used t (s + i) = Inr True \<Longrightarrow> s < l \<Longrightarrow> skip_used_lim t i l s = Inr k \<Longrightarrow> s < k"
  using skip_used_lim_bounds [of t i l "Suc s" k]
  by (auto simp: skip_used_lim.simps [of t i l s])

text \<open>
  The two outer loops. \<open>Inr None\<close> is "fell through" (first loop) and \<^verbatim>\<open>(UINTN)(-1)\<close>
  (second loop); \<open>Inr (Some off)\<close> is the returned offset.
\<close>

function lookup_from :: "rt_page_table \<Rightarrow> nat \<Rightarrow> nat \<Rightarrow> nat option res" where
  "lookup_from t ReqPages Index =
    (if Index \<le> PageCount t - ReqPages then
       (case check_run t Index ReqPages 0 of
          Inl f \<Rightarrow> Inl f
        | Inr SubIndex \<Rightarrow>
            if SubIndex = ReqPages then Inr (Some (RT_PAGES_TO_SIZE Index))
            else (case skip_used t Index SubIndex of
                    Inl f \<Rightarrow> Inl f
                  | Inr SubIndex' \<Rightarrow> lookup_from t ReqPages (Index + SubIndex')))
     else Inr None)"
  by pat_completeness auto
termination
proof (relation "measure (\<lambda>(t, r, i). Suc (PageCount t) - i)", goal_cases)
  case 1
  show ?case by simp
next
  case (2 t r i s k)
  have "s < r" and u: "page_used t (s + i) = Inr True"
    using check_run_bounds [OF 2(2)] 2(3) by simp_all
  then have "s < k" using 2(4) by (intro skip_used_progress [of t s i])
  with 2(1) show ?case by simp
qed

function lookup_below :: "rt_page_table \<Rightarrow> nat \<Rightarrow> nat \<Rightarrow> nat \<Rightarrow> nat option res" where
  "lookup_below t ReqPages StartPageIndex Index =
    (if Index < StartPageIndex - ReqPages then
       (case check_run t Index ReqPages 0 of
          Inl f \<Rightarrow> Inl f
        | Inr SubIndex \<Rightarrow>
            if SubIndex = ReqPages then Inr (Some (RT_PAGES_TO_SIZE Index))
            else (case skip_used_lim t Index (StartPageIndex - ReqPages) SubIndex of
                    Inl f \<Rightarrow> Inl f
                  | Inr SubIndex' \<Rightarrow>
                      lookup_below t ReqPages StartPageIndex (Index + SubIndex')))
     else Inr None)"
  by pat_completeness auto
termination
proof (relation "measure (\<lambda>(t, r, p, i). p - i)", goal_cases)
  case 1
  show ?case by simp
next
  case (2 t r p i s k)
  have s: "s < r" and u: "page_used t (s + i) = Inr True"
    using check_run_bounds [OF 2(2)] 2(3) by simp_all
  have "0 < k"
  proof (cases "s = 0")
    case True
    then have "0 < p - r" using 2(1) by simp
    then have "s < p - r" using True by simp
    from skip_used_lim_progress [OF u this 2(4)] show ?thesis by simp
  next
    case False
    then show ?thesis using skip_used_lim_bounds [OF 2(4)] by simp
  qed
  with 2(1) show ?case by simp
qed

declare lookup_from.simps [simp del] lookup_below.simps [simp del]

definition LookupFreeMemRegion :: "rt_page_table \<Rightarrow> nat \<Rightarrow> nat option res" where
  "LookupFreeMemRegion t AllocationSize =
    (let StartPageIndex = RT_SIZE_TO_PAGES (LastEmptyPageOffset t);
         ReqPages = RT_SIZE_TO_PAGES AllocationSize
     in if ReqPages > PageCount t then Inr None
        else (case lookup_from t ReqPages StartPageIndex of
                Inl f \<Rightarrow> Inl f
              | Inr (Some off) \<Rightarrow> Inr (Some off)
              | Inr None \<Rightarrow>
                  if ReqPages > StartPageIndex then Inr None
                  else lookup_below t ReqPages StartPageIndex 0))"


section \<open>RuntimeAllocateMem\<close>

text \<open>The loop that marks the pages of the new block.\<close>

function mark_pages :: "rt_page_table \<Rightarrow> nat \<Rightarrow> nat \<Rightarrow> nat \<Rightarrow> nat \<Rightarrow> rt_page_table res" where
  "mark_pages t AllocOffset StartPage ReqPages Index =
    (if Index < ReqPages then
       (if StartPage + Index < length (Pages t) then
          (let e = Pages t ! (StartPage + Index)
           in mark_pages
                (t\<lparr>Pages := (Pages t)[StartPage + Index :=
                     \<lparr>StartPageOffset = AllocOffset, PageFlag = PageFlag e OR RT_PAGE_USED\<rparr>]\<rparr>)
                AllocOffset StartPage ReqPages (Suc Index))
        else Inl OobWrite)
     else Inr t)"
  by pat_completeness auto
termination by (relation "measure (\<lambda>(t, a, s, r, i). r - i)") auto

declare mark_pages.simps [simp del]

text \<open>
  The result is \<open>None\<close> for NULL, or the address of the block, with the new table.
\<close>

definition RuntimeAllocateMem :: "rt_page_table \<Rightarrow> nat \<Rightarrow> (ptr option \<times> rt_page_table) res" where
  "RuntimeAllocateMem t AllocationSize =
    bind_res (LookupFreeMemRegion t AllocationSize) (\<lambda>r.
      case r of
        None \<Rightarrow> Inr (None, t)
      | Some AllocOffset \<Rightarrow>
          let ReqPages = RT_SIZE_TO_PAGES AllocationSize;
              AllocPtr = DataAreaBase t + of_nat AllocOffset;
              StartPage = RT_SIZE_TO_PAGES AllocOffset
          in bind_res (mark_pages t AllocOffset StartPage ReqPages 0) (\<lambda>t.
               let t = t\<lparr>LastEmptyPageOffset := AllocOffset + RT_PAGES_TO_SIZE ReqPages\<rparr>
               in if AllocOffset + AllocationSize \<le> length (Data t)
                  then Inr (Some AllocPtr,
                            t\<lparr>Data := zero_at AllocOffset AllocationSize (Data t)\<rparr>)
                  else Inl OobWrite))"

section \<open>RuntimeFreeMem\<close>

function free_pages :: "rt_page_table \<Rightarrow> nat \<Rightarrow> nat \<Rightarrow> rt_page_table res" where
  "free_pages t StartOffset StartPageIndex =
    (if StartPageIndex < PageCount t then
       (if StartPageIndex < length (Pages t) then
          (let e = Pages t ! StartPageIndex
           in if entry_used e \<and> StartPageOffset e = StartOffset
              then free_pages
                     (t\<lparr>Pages := (Pages t)[StartPageIndex :=
                          \<lparr>StartPageOffset = 0,
                           PageFlag = (PageFlag e AND NOT RT_PAGE_USED) OR RT_PAGE_FREE\<rparr>]\<rparr>)
                     StartOffset (Suc StartPageIndex)
              else Inr t)
        else Inl OobRead)
     else Inr t)"
  by pat_completeness auto
termination by (relation "measure (\<lambda>(t, a, s). PageCount t - s)") auto

declare free_pages.simps [simp del]

definition block_start :: "rt_page_table \<Rightarrow> nat \<Rightarrow> nat res" where
  "block_start t StartOffset =
    (let i = RT_SIZE_TO_PAGES StartOffset
     in if i < length (Pages t) then Inr (RT_SIZE_TO_PAGES (StartPageOffset (Pages t ! i)))
        else Inl OobRead)"

definition RuntimeFreeMem :: "rt_page_table \<Rightarrow> ptr \<Rightarrow> rt_page_table res" where
  "RuntimeFreeMem t Buffer =
    (let StartOffset = unat (Buffer - DataAreaBase t)
     in bind_res (block_start t StartOffset) (free_pages t StartOffset))"

section \<open>Address change event and constructor\<close>

text \<open>
  \<^verbatim>\<open>EfiConvertPointer\<close> belongs to the runtime services: it is the parameter \<open>convert\<close>.
  The pair is the global \<^verbatim>\<open>mRTPageTable\<close> and the table it points to.
\<close>

definition RuntimeCryptLibAddressChangeEvent ::
    "(ptr \<Rightarrow> ptr) \<Rightarrow> ptr \<times> rt_page_table \<Rightarrow> ptr \<times> rt_page_table" where
  "RuntimeCryptLibAddressChangeEvent convert st =
    (case st of (mRTPageTable, t) \<Rightarrow>
       (convert mRTPageTable, t\<lparr>DataAreaBase := convert (DataAreaBase t)\<rparr>))"

text \<open>
  \<open>Buffer\<close> is what \<^verbatim>\<open>AllocateRuntimePool\<close> returned and \<open>EventStatus\<close> what
  \<^verbatim>\<open>gBS->CreateEventEx\<close> returned; \<^verbatim>\<open>ASSERT_EFI_ERROR\<close> on the latter is a fault.
\<close>

definition RuntimeCryptLibConstructor ::
    "ptr \<Rightarrow> efi_status \<Rightarrow> (efi_status \<times> rt_page_table option) res" where
  "RuntimeCryptLibConstructor Buffer EventStatus =
    (case InitializeScratchMemory Buffer (MIN_REQUIRED_BLOCKS * 1024) of
       Inl Status \<Rightarrow> Inr (Status, None)
     | Inr t \<Rightarrow> if EFI_ERROR EventStatus then Inl AssertFailed else Inr (EventStatus, Some t))"

section \<open>malloc, realloc and free\<close>

definition rt_malloc :: "rt_page_table \<Rightarrow> nat \<Rightarrow> (ptr option \<times> rt_page_table) res" where
  "rt_malloc t sz = RuntimeAllocateMem t sz"

text \<open>The loop of \<^verbatim>\<open>realloc\<close> that counts the pages of the block.\<close>

function count_pages :: "rt_page_table \<Rightarrow> nat \<Rightarrow> nat \<Rightarrow> nat \<Rightarrow> nat res" where
  "count_pages t StartOffset StartPageIndex Count =
    (if StartPageIndex < PageCount t then
       (if StartPageIndex < length (Pages t) then
          (let e = Pages t ! StartPageIndex
           in if entry_used e \<and> StartPageOffset e = StartOffset
              then count_pages t StartOffset (Suc StartPageIndex) (Suc Count)
              else Inr Count)
        else Inl OobRead)
     else Inr Count)"
  by pat_completeness auto
termination by (relation "measure (\<lambda>(t, a, s, c). PageCount t - s)") auto

declare count_pages.simps [simp del]

text \<open>\<^verbatim>\<open>CopyMem\<close> inside the data area, from offset \<open>src\<close> to offset \<open>dst\<close>.\<close>

definition data_copy :: "rt_page_table \<Rightarrow> nat \<Rightarrow> nat \<Rightarrow> nat \<Rightarrow> rt_page_table res" where
  "data_copy t dst src n =
    (if src + n > length (Data t) then Inl OobRead
     else if dst + n > length (Data t) then Inl OobWrite
     else Inr (t\<lparr>Data := copy_at dst (seg src n (Data t)) (Data t)\<rparr>))"

definition rt_realloc ::
    "rt_page_table \<Rightarrow> ptr option \<Rightarrow> nat \<Rightarrow> (ptr option \<times> rt_page_table) res" where
  "rt_realloc t ptr sz =
    (case ptr of
       None \<Rightarrow> rt_malloc t sz
     | Some p \<Rightarrow>
         let StartOffset = unat (p - DataAreaBase t)
         in bind_res (block_start t StartOffset) (\<lambda>StartPageIndex.
            bind_res (count_pages t StartOffset StartPageIndex 0) (\<lambda>Count.
              if sz \<le> RT_PAGES_TO_SIZE Count then Inr (Some p, t)
              else bind_res (RuntimeAllocateMem t sz) (\<lambda>(NewPtr, t).
                case NewPtr of
                  None \<Rightarrow> Inr (None, t)
                | Some q \<Rightarrow>
                    bind_res (data_copy t (unat (q - DataAreaBase t)) StartOffset
                                (RT_PAGES_TO_SIZE Count)) (\<lambda>t.
                    bind_res (RuntimeFreeMem t p) (\<lambda>t. Inr (Some q, t)))))))"

definition rt_free :: "rt_page_table \<Rightarrow> ptr option \<Rightarrow> rt_page_table res" where
  "rt_free t ptr = (case ptr of None \<Rightarrow> Inr t | Some p \<Rightarrow> RuntimeFreeMem t p)"

section \<open>Page arithmetic\<close>

lemma RT_SIZE_TO_PAGES_div:
  "RT_SIZE_TO_PAGES a = a div 512 + (if a mod 512 \<noteq> 0 then 1 else 0)"
proof -
  have "a AND 0x1FF = take_bit 9 a"
    by (simp add: take_bit_eq_mask mask_eq_exp_minus_1)
  then show ?thesis
    by (simp add: RT_SIZE_TO_PAGES_def RT_PAGE_SHIFT_def RT_PAGE_MASK_def drop_bit_eq_div
        take_bit_eq_mod)
qed

lemma RT_PAGES_TO_SIZE_mult: "RT_PAGES_TO_SIZE a = 512 * a"
  by (simp add: RT_PAGES_TO_SIZE_def RT_PAGE_SHIFT_def push_bit_eq_mult)

lemma RT_SIZE_TO_PAGES_mult [simp]: "RT_SIZE_TO_PAGES (512 * k) = k"
  by (simp add: RT_SIZE_TO_PAGES_div)

lemma RT_SIZE_TO_PAGES_ge: "a \<le> 512 * RT_SIZE_TO_PAGES a"
proof -
  have "a = 512 * (a div 512) + a mod 512" and "a mod 512 < 512" by simp_all
  then show ?thesis by (auto simp: RT_SIZE_TO_PAGES_div simp del: mult_div_mod_eq)
qed

lemma RT_SIZE_TO_PAGES_pos: "0 < RT_SIZE_TO_PAGES a \<longleftrightarrow> 0 < a"
proof
  assume "0 < a"
  with RT_SIZE_TO_PAGES_ge [of a] show "0 < RT_SIZE_TO_PAGES a" by (cases "RT_SIZE_TO_PAGES a") auto
next
  assume "0 < RT_SIZE_TO_PAGES a"
  then show "0 < a" by (cases a) (simp_all add: RT_SIZE_TO_PAGES_div)
qed

lemma RT_SIZE_TO_PAGES_le: "a \<le> 512 * n \<Longrightarrow> RT_SIZE_TO_PAGES a \<le> n"
proof (cases "a = 512 * n")
  case False
  assume "a \<le> 512 * n"
  with False have "a < n * 512" by simp
  then have "a div 512 < n" by (rule less_mult_imp_div_less)
  then show ?thesis by (auto simp: RT_SIZE_TO_PAGES_div)
qed simp

lemma flag_set [simp]: "entry_used \<lparr>StartPageOffset = a, PageFlag = f OR RT_PAGE_USED\<rparr>"
proof -
  have "bit ((f OR 1) AND 1 :: 32 word) 0" by (simp add: bit_simps)
  then show ?thesis by (auto simp: entry_used_def RT_PAGE_USED_def)
qed

lemma flag_cleared [simp]:
  "\<not> entry_used \<lparr>StartPageOffset = a, PageFlag = (f AND NOT RT_PAGE_USED) OR RT_PAGE_FREE\<rparr>"
proof -
  have "(f AND NOT 1 OR 0) AND 1 = (0 :: 32 word)"
    by (rule bit_word_eqI) (auto simp: bit_simps)
  then show ?thesis by (simp add: entry_used_def RT_PAGE_USED_def RT_PAGE_FREE_def)
qed

lemma flag_free [simp]: "\<not> entry_used \<lparr>StartPageOffset = a, PageFlag = RT_PAGE_FREE\<rparr>"
  by (simp add: entry_used_def RT_PAGE_FREE_def)

end
