(* ===== verification/RtPageTableInv.thy ===== *)
theory RtPageTableInv
  imports RtPageTable
begin

text \<open>
  What the runtime memory manager guarantees. \<open>owner t i\<close> is the abstract view of the page
  table: the offset of the block that owns page \<open>i\<close>, or \<open>None\<close> for a free page. The
  invariant \<open>rt_inv\<close> says that a block is a run of consecutive pages that starts at its own
  offset, that the pages fit the data area, and that addresses do not wrap. Each operation
  keeps it, and its effect is stated on \<open>owner\<close> and on the bytes of the data area.
\<close>

section \<open>The abstract view and the invariant\<close>

definition owner :: "rt_page_table \<Rightarrow> nat \<Rightarrow> nat option" where
  "owner t i =
    (if i < length (Pages t) \<and> entry_used (Pages t ! i)
     then Some (StartPageOffset (Pages t ! i)) else None)"

definition blocks_ok :: "rt_page_table \<Rightarrow> bool" where
  "blocks_ok t \<longleftrightarrow>
    (\<forall>i off. owner t i = Some off \<longrightarrow>
       (\<exists>s. off = 512 * s \<and> s \<le> i \<and> (\<forall>j. s \<le> j \<and> j \<le> i \<longrightarrow> owner t j = Some off)))
    \<and> (\<forall>i < length (Pages t). owner t i = None \<longrightarrow> StartPageOffset (Pages t ! i) = 0)"

definition geometry_ok :: "rt_page_table \<Rightarrow> bool" where
  "geometry_ok t \<longleftrightarrow>
    length (Pages t) = PageCount t \<and> 512 * PageCount t \<le> length (Data t)
    \<and> DataAreaBase t \<noteq> 0 \<and> unat (DataAreaBase t) + length (Data t) \<le> 2 ^ 64
    \<and> (\<exists>k \<le> PageCount t. LastEmptyPageOffset t = 512 * k)"

definition rt_inv :: "rt_page_table \<Rightarrow> bool" where
  "rt_inv t \<longleftrightarrow> geometry_ok t \<and> blocks_ok t"

lemma geometry_lengthD:
  "geometry_ok t \<Longrightarrow> length (Pages t) = PageCount t"
  "geometry_ok t \<Longrightarrow> 512 * PageCount t \<le> length (Data t)"
  by (simp_all add: geometry_ok_def)

lemma page_used_owner: "page_used t i = Inr u \<Longrightarrow> u = (owner t i \<noteq> None)"
  by (auto simp: page_used_def owner_def split: if_splits)

lemma page_used_False: "page_used t i = Inr False \<Longrightarrow> owner t i = None"
  by (auto dest: page_used_owner)

lemma page_used_True: "page_used t i = Inr True \<Longrightarrow> owner t i \<noteq> None"
  by (auto dest: page_used_owner)

lemma blocks_okE:
  assumes "blocks_ok t" and "owner t i = Some off"
  obtains s where "off = 512 * s" and "s \<le> i"
    and "\<And>j. s \<le> j \<Longrightarrow> j \<le> i \<Longrightarrow> owner t j = Some off"
  using assms unfolding blocks_ok_def by blast

lemma blocks_ok_free: "blocks_ok t \<Longrightarrow> i < length (Pages t) \<Longrightarrow> owner t i = None \<Longrightarrow>
    StartPageOffset (Pages t ! i) = 0"
  unfolding blocks_ok_def by blast

text \<open>The free runs a request could use.\<close>

definition free_run :: "rt_page_table \<Rightarrow> nat \<Rightarrow> nat \<Rightarrow> bool" where
  "free_run t s n \<longleftrightarrow> s + n \<le> PageCount t \<and> (\<forall>i \<in> {s..<s + n}. owner t i = None)"

section \<open>Lookup\<close>

lemma check_run_free_run:
  assumes "check_run t i r 0 = Inr r" and "i + r \<le> PageCount t"
  shows "free_run t i r"
proof -
  have "owner t j = None" if "i \<le> j" "j < i + r" for j
  proof -
    from check_run_bounds [OF assms(1)] that have "page_used t ((j - i) + i) = Inr False"
      by (metis le0 less_diff_conv2 add.commute)
    with that show ?thesis by (simp add: page_used_False)
  qed
  with assms(2) show ?thesis by (simp add: free_run_def)
qed

lemma lookup_from_sound:
  "lookup_from t r i = Inr (Some off) \<Longrightarrow> r \<le> PageCount t \<Longrightarrow>
    \<exists>s. i \<le> s \<and> off = 512 * s \<and> free_run t s r"
proof (induction t r i rule: lookup_from.induct)
  case (1 t r i)
  show ?case
  proof (cases "\<exists>k. check_run t i r 0 = Inr k \<and> k \<noteq> r \<and> i \<le> PageCount t - r")
    case True
    then obtain k where k: "check_run t i r 0 = Inr k" "k \<noteq> r" "i \<le> PageCount t - r" by auto
    with "1.prems" obtain k' where k': "skip_used t i k = Inr k'"
      by (auto simp: lookup_from.simps [of t r i] split: sum.splits)
    with k "1.prems" have "lookup_from t r (i + k') = Inr (Some off)"
      by (auto simp: lookup_from.simps [of t r i])
    with "1.IH" k k' "1.prems" obtain s where "i + k' \<le> s" "off = 512 * s" "free_run t s r"
      by blast
    then show ?thesis by auto
  next
    case False
    with "1.prems" have "check_run t i r 0 = Inr r" "i \<le> PageCount t - r" "off = 512 * i"
      by (auto simp: lookup_from.simps [of t r i] RT_PAGES_TO_SIZE_mult
          split: if_splits sum.splits)
    with "1.prems" check_run_free_run [of t i r] show ?thesis by auto
  qed
qed

lemma lookup_below_sound:
  "lookup_below t r p i = Inr (Some off) \<Longrightarrow> p \<le> PageCount t \<Longrightarrow>
    \<exists>s. i \<le> s \<and> off = 512 * s \<and> s + r < p \<and> free_run t s r"
proof (induction t r p i rule: lookup_below.induct)
  case (1 t r p i)
  show ?case
  proof (cases "\<exists>k. check_run t i r 0 = Inr k \<and> k \<noteq> r \<and> i < p - r")
    case True
    then obtain k where k: "check_run t i r 0 = Inr k" "k \<noteq> r" "i < p - r" by auto
    with "1.prems" obtain k' where k': "skip_used_lim t i (p - r) k = Inr k'"
      by (auto simp: lookup_below.simps [of t r p i] split: sum.splits)
    with k "1.prems" have "lookup_below t r p (i + k') = Inr (Some off)"
      by (auto simp: lookup_below.simps [of t r p i])
    with "1.IH" k k' "1.prems"
    obtain s where "i + k' \<le> s" "off = 512 * s" "s + r < p" "free_run t s r"
      by blast
    then show ?thesis by auto
  next
    case False
    with "1.prems" have "check_run t i r 0 = Inr r" "i < p - r" "off = 512 * i"
      by (auto simp: lookup_below.simps [of t r p i] RT_PAGES_TO_SIZE_mult
          split: if_splits sum.splits)
    with "1.prems" check_run_free_run [of t i r] show ?thesis by auto
  qed
qed

lemma last_empty_pages:
  "geometry_ok t \<Longrightarrow> RT_SIZE_TO_PAGES (LastEmptyPageOffset t) \<le> PageCount t"
  by (auto simp: geometry_ok_def)

lemma LookupFreeMemRegion_sound:
  assumes "geometry_ok t" and "LookupFreeMemRegion t n = Inr (Some off)"
  obtains s where "off = 512 * s" and "free_run t s (RT_SIZE_TO_PAGES n)"
  using assms lookup_from_sound [of t "RT_SIZE_TO_PAGES n"]
    lookup_below_sound [of t "RT_SIZE_TO_PAGES n"] last_empty_pages [of t]
  by (fastforce simp: LookupFreeMemRegion_def Let_def split: if_splits sum.splits option.splits)

text \<open>
  When the lookup fails, the regions it is meant to search hold no free run: the ones that
  start at or after the cursor, and the ones that end before it.
\<close>

lemma no_free_run:
  assumes "page_used t (k + i) = Inr True" and "s \<le> k + i" and "k + i < s + r"
  shows "\<not> free_run t s r"
  using assms page_used_True [of t "k + i"] by (fastforce simp: free_run_def)

lemma lookup_from_complete:
  "lookup_from t r i = Inr None \<Longrightarrow> i \<le> s \<Longrightarrow> s \<le> PageCount t - r \<Longrightarrow> \<not> free_run t s r"
proof (induction t r i rule: lookup_from.induct)
  case (1 t r i)
  from "1.prems" obtain k where k: "check_run t i r 0 = Inr k" "k \<noteq> r"
    by (auto simp: lookup_from.simps [of t r i] split: if_splits sum.splits)
  with "1.prems" obtain k' where k': "skip_used t i k = Inr k'"
    and rec: "lookup_from t r (i + k') = Inr None"
    by (auto simp: lookup_from.simps [of t r i] split: if_splits sum.splits)
  have kr: "k < r" "page_used t (k + i) = Inr True"
    using check_run_bounds [OF k(1)] k(2) by auto
  note skip = skip_used_bounds [OF k']
  show ?case
  proof (cases "i + k' \<le> s")
    case True
    with "1.IH" k k' rec "1.prems" show ?thesis by auto
  next
    case False
    show ?thesis
    proof (cases "s \<le> k + i")
      case True
      with kr "1.prems" show ?thesis by (intro no_free_run [of t k i]) auto
    next
      case False
      with \<open>\<not> i + k' \<le> s\<close> \<open>i \<le> s\<close> have "k \<le> s - i" "s - i < k'" by simp_all
      with skip have "page_used t ((s - i) + i) = Inr True" by blast
      with False kr \<open>i \<le> s\<close> show ?thesis
        by (intro no_free_run [of t "s - i" i]) simp_all
    qed
  qed
qed


lemma lookup_below_complete:
  "lookup_below t r p i = Inr None \<Longrightarrow> i \<le> s \<Longrightarrow> s < p - r \<Longrightarrow> \<not> free_run t s r"
proof (induction t r p i rule: lookup_below.induct)
  case (1 t r p i)
  from "1.prems" obtain k where k: "check_run t i r 0 = Inr k" "k \<noteq> r"
    by (auto simp: lookup_below.simps [of t r p i] split: if_splits sum.splits)
  with "1.prems" obtain k' where k': "skip_used_lim t i (p - r) k = Inr k'"
    and rec: "lookup_below t r p (i + k') = Inr None"
    by (auto simp: lookup_below.simps [of t r p i] split: if_splits sum.splits)
  have kr: "k < r" "page_used t (k + i) = Inr True"
    using check_run_bounds [OF k(1)] k(2) by auto
  note skip = skip_used_lim_bounds [OF k']
  show ?case
  proof (cases "i + k' \<le> s")
    case True
    with "1.IH" k k' rec "1.prems" show ?thesis by auto
  next
    case False
    show ?thesis
    proof (cases "s \<le> k + i")
      case True
      with kr "1.prems" show ?thesis by (intro no_free_run [of t k i]) auto
    next
      case False
      with \<open>\<not> i + k' \<le> s\<close> \<open>i \<le> s\<close> have "k \<le> s - i" "s - i < k'" by simp_all
      with skip have "page_used t ((s - i) + i) = Inr True" by blast
      with False kr \<open>i \<le> s\<close> show ?thesis
        by (intro no_free_run [of t "s - i" i]) simp_all
    qed
  qed
qed

lemma LookupFreeMemRegion_complete:
  assumes "LookupFreeMemRegion t n = Inr None"
    and "RT_SIZE_TO_PAGES (LastEmptyPageOffset t) \<le> s
         \<or> s + RT_SIZE_TO_PAGES n < RT_SIZE_TO_PAGES (LastEmptyPageOffset t)"
  shows "\<not> free_run t s (RT_SIZE_TO_PAGES n)"
proof
  let ?r = "RT_SIZE_TO_PAGES n" and ?p = "RT_SIZE_TO_PAGES (LastEmptyPageOffset t)"
  assume run: "free_run t s ?r"
  then have le: "s + ?r \<le> PageCount t" by (simp add: free_run_def)
  with assms(1) have fr: "lookup_from t ?r ?p = Inr None"
    and bl: "?r \<le> ?p \<Longrightarrow> lookup_below t ?r ?p 0 = Inr None"
    by (auto simp: LookupFreeMemRegion_def Let_def split: if_splits sum.splits option.splits)
  show False
  proof (cases "?p \<le> s")
    case True
    moreover have "s \<le> PageCount t - ?r" using le by simp
    ultimately show ?thesis using lookup_from_complete [OF fr] run by blast
  next
    case False
    with assms(2) have "s + ?r < ?p" by simp
    then have "s < ?p - ?r" and "?r \<le> ?p" by simp_all
    with lookup_below_complete [OF bl, of s] run show ?thesis by simp
  qed
qed

section \<open>Allocation\<close>

lemma owner_Pages_cong: "Pages t = Pages t' \<Longrightarrow> owner t = owner t'"
  by (auto simp: owner_def fun_eq_iff)

lemma owner_set_page:
  assumes "s < length (Pages t)"
  shows "owner (t\<lparr>Pages := (Pages t)[s := e]\<rparr>) i
    = (if i = s then (if entry_used e then Some (StartPageOffset e) else None) else owner t i)"
  using assms by (auto simp: owner_def nth_list_update)

lemma mark_pages_fields:
  "mark_pages t a s r i = Inr t' \<Longrightarrow>
    PageCount t' = PageCount t \<and> LastEmptyPageOffset t' = LastEmptyPageOffset t
    \<and> DataAreaBase t' = DataAreaBase t \<and> Data t' = Data t
    \<and> length (Pages t') = length (Pages t)"
proof (induction t a s r i rule: mark_pages.induct)
  case (1 t a s r i)
  show ?case
  proof (cases "i < r \<and> s + i < length (Pages t)")
    case True
    with "1.prems" "1.IH" show ?thesis
      by (auto simp: mark_pages.simps [of t a s r i] Let_def)
  next
    case False
    with "1.prems" show ?thesis
      by (auto simp: mark_pages.simps [of t a s r i] split: if_splits)
  qed
qed

lemma mark_pages_owner:
  "mark_pages t a s r i = Inr t' \<Longrightarrow>
    owner t' j = (if s + i \<le> j \<and> j < s + r then Some a else owner t j)
    \<and> (\<not> (s + i \<le> j \<and> j < s + r) \<longrightarrow> Pages t' ! j = Pages t ! j)"
proof (induction t a s r i rule: mark_pages.induct)
  case (1 t a s r i)
  show ?case
  proof (cases "i < r \<and> s + i < length (Pages t)")
    case True
    define u where "u = t\<lparr>Pages := (Pages t)[s + i := \<lparr>StartPageOffset = a,
      PageFlag = PageFlag (Pages t ! (s + i)) OR RT_PAGE_USED\<rparr>]\<rparr>"
    from True "1.prems" have rec: "mark_pages u a s r (Suc i) = Inr t'"
      by (simp add: mark_pages.simps [of t a s r i] Let_def u_def)
    have IH: "owner t' j = (if s + Suc i \<le> j \<and> j < s + r then Some a else owner u j)
        \<and> (\<not> (s + Suc i \<le> j \<and> j < s + r) \<longrightarrow> Pages t' ! j = Pages u ! j)"
      using "1.IH" True rec by (auto simp: u_def)
    have "owner u j = (if j = s + i then Some a else owner t j)"
      using True by (simp add: u_def owner_set_page)
    moreover have "j \<noteq> s + i \<Longrightarrow> Pages u ! j = Pages t ! j"
      by (simp add: u_def)
    ultimately show ?thesis using IH True by auto
  next
    case False
    with "1.prems" show ?thesis
      by (auto simp: mark_pages.simps [of t a s r i] split: if_splits)
  qed
qed

lemma mark_pages_total:
  "s + r \<le> length (Pages t) \<Longrightarrow> \<exists>t'. mark_pages t a s r i = Inr t'"
proof (induction t a s r i rule: mark_pages.induct)
  case (1 t a s r i)
  show ?case
  proof (cases "i < r")
    case True
    with "1.IH" "1.prems" show ?thesis
      by (auto simp: mark_pages.simps [of t a s r i] Let_def)
  next
    case False
    then show ?thesis by (simp add: mark_pages.simps [of t a s r i])
  qed
qed

text \<open>The whole effect of a successful allocation of \<open>n\<close> bytes.\<close>

definition alloc_effect ::
    "rt_page_table \<Rightarrow> nat \<Rightarrow> nat \<Rightarrow> rt_page_table \<Rightarrow> bool" where
  "alloc_effect t n s t' \<longleftrightarrow>
    free_run t s (RT_SIZE_TO_PAGES n)
    \<and> owner t' = (\<lambda>i. if s \<le> i \<and> i < s + RT_SIZE_TO_PAGES n then Some (512 * s) else owner t i)
    \<and> Data t' = zero_at (512 * s) n (Data t) \<and> 512 * s + n \<le> 512 * PageCount t
    \<and> PageCount t' = PageCount t \<and> DataAreaBase t' = DataAreaBase t
    \<and> LastEmptyPageOffset t' = 512 * (s + RT_SIZE_TO_PAGES n)
    \<and> length (Pages t') = length (Pages t)
    \<and> (\<forall>i. \<not> (s \<le> i \<and> i < s + RT_SIZE_TO_PAGES n) \<longrightarrow> Pages t' ! i = Pages t ! i)"

lemma RuntimeAllocateMem_cases:
  assumes "geometry_ok t" and "RuntimeAllocateMem t n = Inr (r, t')"
  obtains (Null) "r = None" and "t' = t" and "LookupFreeMemRegion t n = Inr None"
  | (Block) s where "r = Some (DataAreaBase t + of_nat (512 * s))" and "alloc_effect t n s t'"
      and "LookupFreeMemRegion t n = Inr (Some (512 * s))"
proof (cases "LookupFreeMemRegion t n")
  case (Inl f)
  with assms show ?thesis by (simp add: RuntimeAllocateMem_def)
next
  case (Inr o1)
  show ?thesis
  proof (cases o1)
    case None
    with Inr assms Null show ?thesis by (auto simp: RuntimeAllocateMem_def)
  next
    case (Some off)
    let ?r = "RT_SIZE_TO_PAGES n"
    from assms(1) Inr Some obtain s where off: "off = 512 * s" and run: "free_run t s ?r"
      using LookupFreeMemRegion_sound by metis
    from assms(2) Inr Some off obtain u where u: "mark_pages t (512 * s) s ?r 0 = Inr u"
      and r: "r = Some (DataAreaBase t + of_nat (512 * s))"
      and t': "t' = u\<lparr>LastEmptyPageOffset := 512 * s + 512 * ?r,
                        Data := zero_at (512 * s) n (Data u)\<rparr>"
      by (auto simp: RuntimeAllocateMem_def Let_def RT_PAGES_TO_SIZE_mult bind_res_def
          split: if_splits sum.splits)
    note f = mark_pages_fields [OF u] and w = mark_pages_owner [OF u]
    have "owner t' = owner u" by (rule owner_Pages_cong) (simp add: t')
    then have "owner t' = (\<lambda>i. if s \<le> i \<and> i < s + ?r then Some (512 * s) else owner t i)"
      using w by auto
    moreover have "512 * s + n \<le> 512 * PageCount t"
      using run RT_SIZE_TO_PAGES_ge [of n] by (simp add: free_run_def)
    ultimately have "alloc_effect t n s t'"
      using f w run by (simp add: alloc_effect_def t')
    with r Block Inr Some off show ?thesis by blast
  qed
qed

lemma RuntimeAllocateMem_total:
  assumes "geometry_ok t" and "LookupFreeMemRegion t n = Inr (Some off)"
  shows "\<exists>p t'. RuntimeAllocateMem t n = Inr (Some p, t')"
proof -
  let ?r = "RT_SIZE_TO_PAGES n"
  from assms obtain s where off: "off = 512 * s" and run: "free_run t s ?r"
    using LookupFreeMemRegion_sound by metis
  then have le: "s + ?r \<le> length (Pages t)"
    using assms(1) by (simp add: free_run_def geometry_ok_def)
  from mark_pages_total [OF this] obtain u where u: "mark_pages t (512 * s) s ?r 0 = Inr u"
    by blast
  have "512 * s + n \<le> length (Data u)"
    using mark_pages_fields [OF u] le RT_SIZE_TO_PAGES_ge [of n] assms(1)
    by (simp add: geometry_ok_def)
  with assms(2) off u show ?thesis
    by (simp add: RuntimeAllocateMem_def Let_def)
qed

lemma alloc_effect_inv:
  assumes "rt_inv t" and eff: "alloc_effect t n s t'"
  shows "rt_inv t'"
proof -
  let ?r = "RT_SIZE_TO_PAGES n"
  from assms have geo: "geometry_ok t" and blk: "blocks_ok t" by (simp_all add: rt_inv_def)
  from eff have own: "owner t' = (\<lambda>i. if s \<le> i \<and> i < s + ?r then Some (512 * s) else owner t i)"
    and free: "\<And>i. s \<le> i \<Longrightarrow> i < s + ?r \<Longrightarrow> owner t i = None"
    and pages: "\<And>i. \<not> (s \<le> i \<and> i < s + ?r) \<Longrightarrow> Pages t' ! i = Pages t ! i"
    and len: "length (Pages t') = length (Pages t)" and run: "s + ?r \<le> PageCount t"
    by (auto simp: alloc_effect_def free_run_def)
  have "512 * s + n \<le> length (Data t)"
    using eff geo by (simp add: alloc_effect_def geometry_ok_def)
  with geo eff run have "geometry_ok t'"
    by (auto simp: alloc_effect_def geometry_ok_def)
  moreover have "\<exists>k. off = 512 * k \<and> k \<le> i \<and> (\<forall>j. k \<le> j \<and> j \<le> i \<longrightarrow> owner t' j = Some off)"
    if o: "owner t' i = Some off" for i off
  proof (cases "s \<le> i \<and> i < s + ?r")
    case True
    with o show ?thesis by (intro exI [of _ s]) (auto simp: own)
  next
    case False
    with o have "owner t i = Some off" by (auto simp: own)
    from blocks_okE [OF blk this] obtain k where "off = 512 * k" "k \<le> i"
      and all: "\<And>j. k \<le> j \<Longrightarrow> j \<le> i \<Longrightarrow> owner t j = Some off"
      by blast
    moreover have "owner t' j = Some off" if "k \<le> j" "j \<le> i" for j
      using all [OF that] free [of j] by (auto simp: own)
    ultimately show ?thesis by blast
  qed
  moreover have "StartPageOffset (Pages t' ! i) = 0"
    if "i < length (Pages t')" "owner t' i = None" for i
    using that pages [of i] len blocks_ok_free [OF blk, of i]
    by (auto simp: own split: if_splits)
  ultimately show ?thesis by (auto simp: rt_inv_def blocks_ok_def)
qed

lemma RuntimeAllocateMem_inv:
  assumes "rt_inv t" and "RuntimeAllocateMem t n = Inr (r, t')"
  shows "rt_inv t'"
proof -
  from assms(1) have "geometry_ok t" by (simp add: rt_inv_def)
  from this assms(2) show ?thesis
    by (cases rule: RuntimeAllocateMem_cases) (use assms(1) alloc_effect_inv in auto)
qed

section \<open>Release\<close>

text \<open>
  \<open>run_of t off k m\<close>: the pages that the loops of \<^verbatim>\<open>RuntimeFreeMem\<close> and \<^verbatim>\<open>realloc\<close> walk,
  from page \<open>k\<close> up to the first page \<open>m\<close> that does not belong to the block at \<open>off\<close>.
\<close>

definition run_of :: "rt_page_table \<Rightarrow> nat \<Rightarrow> nat \<Rightarrow> nat \<Rightarrow> bool" where
  "run_of t off k m \<longleftrightarrow>
    k \<le> m \<and> (\<forall>j. k \<le> j \<and> j < m \<longrightarrow> owner t j = Some off) \<and> owner t m \<noteq> Some off"

lemma run_of_self: "owner t k \<noteq> Some off \<Longrightarrow> run_of t off k k"
  by (auto simp: run_of_def)

lemma run_of_extend:
  assumes "owner t k = Some off" and "run_of t off (Suc k) m"
  shows "run_of t off k m"
proof -
  have "owner t j = Some off" if "k \<le> j" "j < m" for j
    using assms that by (cases "j = k") (auto simp: run_of_def)
  with assms show ?thesis by (auto simp: run_of_def)
qed

lemma owner_Some_iff:
  "k < length (Pages t) \<Longrightarrow>
    owner t k = Some off \<longleftrightarrow> entry_used (Pages t ! k) \<and> StartPageOffset (Pages t ! k) = off"
  by (simp add: owner_def)

lemma count_pages_run:
  "length (Pages t) = PageCount t \<Longrightarrow>
    \<exists>m. run_of t off k m \<and> count_pages t off k c = Inr (c + (m - k))"
proof (induction t off k c rule: count_pages.induct)
  case (1 t off k c)
  show ?case
  proof (cases "owner t k = Some off")
    case True
    then have k: "k < length (Pages t)" by (auto simp: owner_def split: if_splits)
    with True "1.prems" have eq: "count_pages t off k c = count_pages t off (Suc k) (Suc c)"
      by (simp add: count_pages.simps [of t off k c] Let_def owner_Some_iff)
    from "1.IH" k True "1.prems" obtain m where "run_of t off (Suc k) m"
      and m: "count_pages t off (Suc k) (Suc c) = Inr (Suc c + (m - Suc k))"
      by (auto simp: owner_Some_iff)
    then have "run_of t off k m" "Suc k \<le> m"
      using True run_of_extend by (auto simp: run_of_def [of t off "Suc k"])
    with eq m show ?thesis by (intro exI [of _ m]) auto
  next
    case False
    then have "count_pages t off k c = Inr c"
      using "1.prems" by (auto simp: count_pages.simps [of t off k c] Let_def owner_def)
    with run_of_self [OF False] show ?thesis by auto
  qed
qed

definition same_frame :: "rt_page_table \<Rightarrow> rt_page_table \<Rightarrow> bool" where
  "same_frame t t' \<longleftrightarrow> PageCount t' = PageCount t \<and> Data t' = Data t
    \<and> LastEmptyPageOffset t' = LastEmptyPageOffset t \<and> DataAreaBase t' = DataAreaBase t
    \<and> length (Pages t') = length (Pages t)"

lemma free_pages_run:
  "length (Pages t) = PageCount t \<Longrightarrow>
    \<exists>m t'. run_of t off k m \<and> free_pages t off k = Inr t'
      \<and> owner t' = (\<lambda>j. if k \<le> j \<and> j < m then None else owner t j)
      \<and> (\<forall>j. k \<le> j \<and> j < m \<longrightarrow> StartPageOffset (Pages t' ! j) = 0)
      \<and> (\<forall>j. \<not> (k \<le> j \<and> j < m) \<longrightarrow> Pages t' ! j = Pages t ! j)
      \<and> same_frame t t'"
proof (induction t off k rule: free_pages.induct)
  case (1 t off k)
  show ?case
  proof (cases "owner t k = Some off")
    case True
    then have k: "k < length (Pages t)" by (auto simp: owner_def split: if_splits)
    define u where "u = t\<lparr>Pages := (Pages t)[k := \<lparr>StartPageOffset = 0,
      PageFlag = (PageFlag (Pages t ! k) AND NOT RT_PAGE_USED) OR RT_PAGE_FREE\<rparr>]\<rparr>"
    from k True "1.prems" have eq: "free_pages t off k = free_pages u off (Suc k)"
      by (simp add: free_pages.simps [of t off k] Let_def owner_Some_iff u_def)
    have own_u: "owner u j = (if j = k then None else owner t j)" for j
      using k by (simp add: u_def owner_set_page)
    from k True "1.prems" have kp: "k < PageCount t"
      "entry_used (Pages t ! k) \<and> StartPageOffset (Pages t ! k) = off"
      by (simp_all add: owner_Some_iff)
    have "length (Pages u) = PageCount u" using "1.prems" by (simp add: u_def)
    from "1.IH" [OF kp(1) k refl kp(2), folded u_def, OF this] obtain m t' where
      run: "run_of u off (Suc k) m" and ok: "free_pages u off (Suc k) = Inr t'"
      and own: "owner t' = (\<lambda>j. if Suc k \<le> j \<and> j < m then None else owner u j)"
      and zero: "\<forall>j. Suc k \<le> j \<and> j < m \<longrightarrow> StartPageOffset (Pages t' ! j) = 0"
      and same: "\<forall>j. \<not> (Suc k \<le> j \<and> j < m) \<longrightarrow> Pages t' ! j = Pages u ! j"
      and rest: "same_frame u t'"
      by blast
    have "Suc k \<le> m" using run by (simp add: run_of_def)
    have "run_of t off (Suc k) m" using run by (auto simp: run_of_def own_u split: if_splits)
    with True have "run_of t off k m" by (rule run_of_extend)
    moreover have "owner t' = (\<lambda>j. if k \<le> j \<and> j < m then None else owner t j)"
      using \<open>Suc k \<le> m\<close> by (auto simp: own own_u fun_eq_iff)
    moreover have "StartPageOffset (Pages t' ! j) = 0" if "k \<le> j" "j < m" for j
      using that zero same k by (cases "j = k") (auto simp: u_def)
    moreover have "Pages t' ! j = Pages t ! j" if "\<not> (k \<le> j \<and> j < m)" for j
      using that same \<open>Suc k \<le> m\<close> by (auto simp: u_def)
    moreover have "same_frame t t'" using rest by (simp add: same_frame_def u_def)
    moreover have "free_pages t off k = Inr t'" using ok eq by simp
    ultimately show ?thesis
      by (intro exI [of _ m] exI [of _ t'] conjI allI impI) simp_all
  next
    case False
    then have "free_pages t off k = Inr t"
      using "1.prems" by (auto simp: free_pages.simps [of t off k] Let_def owner_def)
    with run_of_self [OF False] show ?thesis
      by (intro exI [of _ k] exI [of _ t]) (auto simp: same_frame_def fun_eq_iff)
  qed
qed

text \<open>
  Where the walk starts is where the block starts, so what it visits is exactly the block.
\<close>

lemma block_start_run:
  assumes "blocks_ok t" and "block_start t off = Inr k" and "run_of t off k m"
  shows "owner t j = Some off \<longleftrightarrow> k \<le> j \<and> j < m"
proof
  assume j: "owner t j = Some off"
  from blocks_okE [OF assms(1) j] obtain s where off: "off = 512 * s" and "s \<le> j"
    and all: "\<And>i. s \<le> i \<Longrightarrow> i \<le> j \<Longrightarrow> owner t i = Some off"
    by blast
  from all \<open>s \<le> j\<close> have "owner t s = Some off" by simp
  then have "k = s"
    using assms(2) off
    by (auto simp: block_start_def Let_def owner_def split: if_splits)
  moreover have "j < m"
    using all [of m] \<open>k = s\<close> assms(3) by (auto simp: run_of_def not_less)
  ultimately show "k \<le> j \<and> j < m" using \<open>s \<le> j\<close> by simp
qed (use assms(3) in \<open>auto simp: run_of_def\<close>)

definition free_effect :: "rt_page_table \<Rightarrow> nat \<Rightarrow> rt_page_table \<Rightarrow> bool" where
  "free_effect t off t' \<longleftrightarrow>
    owner t' = (\<lambda>j. if owner t j = Some off then None else owner t j)
    \<and> same_frame t t'
    \<and> (\<forall>j. owner t j \<noteq> Some off \<longrightarrow> Pages t' ! j = Pages t ! j)
    \<and> (\<forall>j. owner t j = Some off \<longrightarrow> StartPageOffset (Pages t' ! j) = 0)"

lemma RuntimeFreeMem_cases:
  assumes "rt_inv t"
  obtains (Oob) "PageCount t \<le> RT_SIZE_TO_PAGES (unat (p - DataAreaBase t))"
      and "RuntimeFreeMem t p = Inl OobRead"
  | (Freed) t' where "RT_SIZE_TO_PAGES (unat (p - DataAreaBase t)) < PageCount t"
      and "RuntimeFreeMem t p = Inr t'"
      and "free_effect t (unat (p - DataAreaBase t)) t'"
proof -
  let ?off = "unat (p - DataAreaBase t)"
  from assms have len: "length (Pages t) = PageCount t" and blk: "blocks_ok t"
    by (simp_all add: rt_inv_def geometry_ok_def)
  show ?thesis
  proof (cases "RT_SIZE_TO_PAGES ?off < PageCount t")
    case True
    then obtain k where k: "block_start t ?off = Inr k"
      using len by (simp add: block_start_def Let_def)
    from free_pages_run [OF len, of ?off k] obtain m t' where
      run: "run_of t ?off k m" and ok: "free_pages t ?off k = Inr t'"
      and rest: "owner t' = (\<lambda>j. if k \<le> j \<and> j < m then None else owner t j)"
        "\<forall>j. k \<le> j \<and> j < m \<longrightarrow> StartPageOffset (Pages t' ! j) = 0"
        "\<forall>j. \<not> (k \<le> j \<and> j < m) \<longrightarrow> Pages t' ! j = Pages t ! j"
        "same_frame t t'"
      by blast
    have "free_effect t ?off t'"
      using rest block_start_run [OF blk k run] unfolding free_effect_def by simp
    moreover have "RuntimeFreeMem t p = Inr t'"
      using k ok by (simp add: RuntimeFreeMem_def)
    ultimately show ?thesis using True Freed by blast
  next
    case False
    with len have "RuntimeFreeMem t p = Inl OobRead"
      by (simp add: RuntimeFreeMem_def block_start_def Let_def)
    with False Oob show ?thesis by simp
  qed
qed

lemma free_effect_inv:
  assumes "rt_inv t" and eff: "free_effect t off t'"
  shows "rt_inv t'"
proof -
  from assms have geo: "geometry_ok t" and blk: "blocks_ok t" by (simp_all add: rt_inv_def)
  from eff have own: "owner t' = (\<lambda>j. if owner t j = Some off then None else owner t j)"
    and f: "PageCount t' = PageCount t" "LastEmptyPageOffset t' = LastEmptyPageOffset t"
      "DataAreaBase t' = DataAreaBase t" "Data t' = Data t"
    and len: "length (Pages t') = length (Pages t)"
    by (simp_all add: free_effect_def same_frame_def)
  have "geometry_ok t'" using geo len by (simp add: geometry_ok_def f)
  moreover have "\<exists>k. o1 = 512 * k \<and> k \<le> i \<and> (\<forall>j. k \<le> j \<and> j \<le> i \<longrightarrow> owner t' j = Some o1)"
    if o: "owner t' i = Some o1" for i o1
  proof -
    from o have i: "owner t i = Some o1" "o1 \<noteq> off" by (auto simp: own split: if_splits)
    from blocks_okE [OF blk i(1)] obtain k where "o1 = 512 * k" "k \<le> i"
      "\<And>j. k \<le> j \<Longrightarrow> j \<le> i \<Longrightarrow> owner t j = Some o1" by blast
    with i(2) show ?thesis by (auto simp: own)
  qed
  moreover have "StartPageOffset (Pages t' ! i) = 0"
    if "i < length (Pages t')" "owner t' i = None" for i
    using that eff len blocks_ok_free [OF blk, of i]
    by (cases "owner t i = Some off") (auto simp: free_effect_def own)
  ultimately show ?thesis by (auto simp: rt_inv_def blocks_ok_def)
qed

lemma RuntimeFreeMem_inv:
  assumes "rt_inv t" and "RuntimeFreeMem t p = Inr t'"
  shows "rt_inv t'"
  using assms(1) by (cases rule: RuntimeFreeMem_cases [where p = p])
    (use assms free_effect_inv in auto)

section \<open>What a lookup finds\<close>

lemma page_used_free: "i < length (Pages t) \<Longrightarrow> owner t i = None \<Longrightarrow> page_used t i = Inr False"
  by (auto simp: page_used_def owner_def split: if_splits)

lemma page_used_taken: "owner t i = Some off \<Longrightarrow> page_used t i = Inr True"
  by (auto simp: page_used_def owner_def split: if_splits)

lemma check_run_all_free:
  "s \<le> r \<Longrightarrow> (\<And>j. s \<le> j \<Longrightarrow> j < r \<Longrightarrow> page_used t (j + i) = Inr False) \<Longrightarrow>
    check_run t i r s = Inr r"
proof (induction t i r s rule: check_run.induct)
  case (1 t i r s)
  show ?case
  proof (cases "s < r")
    case True
    with "1.prems" have "page_used t (s + i) = Inr False" by simp
    with True "1.IH" [of False] "1.prems" show ?thesis
      by (simp add: check_run.simps [of t i r s])
  next
    case False
    with "1.prems" show ?thesis by (simp add: check_run.simps [of t i r r])
  qed
qed

lemma check_run_stops:
  "s \<le> k \<Longrightarrow> k < r \<Longrightarrow> (\<And>j. s \<le> j \<Longrightarrow> j < k \<Longrightarrow> page_used t (j + i) = Inr False) \<Longrightarrow>
    page_used t (k + i) = Inr True \<Longrightarrow> check_run t i r s = Inr k"
proof (induction t i r s rule: check_run.induct)
  case (1 t i r s)
  show ?case
  proof (cases "s = k")
    case True
    with "1.prems" show ?thesis by (simp add: check_run.simps [of t i r k])
  next
    case False
    with "1.prems" have "page_used t (s + i) = Inr False" "Suc s \<le> k" "s < r" by simp_all
    with "1.IH" [of False] "1.prems" show ?thesis
      by (simp add: check_run.simps [of t i r s])
  qed
qed

lemma check_run_free:
  assumes "geometry_ok t" and "free_run t i r"
  shows "check_run t i r 0 = Inr r"
proof (rule check_run_all_free)
  fix j assume "0 \<le> j" "j < r"
  with assms show "page_used t (j + i) = Inr False"
    by (intro page_used_free) (auto simp: free_run_def geometry_ok_def)
qed simp

text \<open>A free run at the cursor is taken at once.\<close>

lemma lookup_at_cursor:
  assumes "geometry_ok t" and "LastEmptyPageOffset t = 512 * c"
    and run: "free_run t c (RT_SIZE_TO_PAGES n)"
  shows "LookupFreeMemRegion t n = Inr (Some (512 * c))"
proof -
  let ?r = "RT_SIZE_TO_PAGES n"
  from run have le: "c + ?r \<le> PageCount t" by (simp add: free_run_def)
  then have "lookup_from t ?r c = Inr (Some (512 * c))"
    using check_run_free [OF assms(1) run]
    by (simp add: lookup_from.simps [of t ?r c] RT_PAGES_TO_SIZE_mult)
  with assms(2) le show ?thesis
    by (simp add: LookupFreeMemRegion_def Let_def)
qed

lemma lookup_at_start:
  assumes "geometry_ok t" and "LastEmptyPageOffset t = 512 * c"
    and "lookup_from t (RT_SIZE_TO_PAGES n) c = Inr None"
    and run: "free_run t 0 (RT_SIZE_TO_PAGES n)" and "RT_SIZE_TO_PAGES n < c"
  shows "LookupFreeMemRegion t n = Inr (Some 0)"
proof -
  let ?r = "RT_SIZE_TO_PAGES n"
  from run have le: "?r \<le> PageCount t" by (simp add: free_run_def)
  then have "lookup_below t ?r c 0 = Inr (Some 0)"
    using check_run_free [OF assms(1) run] assms(5)
    by (simp add: lookup_below.simps [of t ?r c 0] RT_PAGES_TO_SIZE_mult)
  with assms le show ?thesis by (simp add: LookupFreeMemRegion_def Let_def)
qed

text \<open>
  The unbounded \<^verbatim>\<open>while\<close> loop of the first search: over used pages up to the end of the
  table it reads \<^verbatim>\<open>Pages[PageCount]\<close>.
\<close>

lemma skip_used_overrun:
  "length (Pages t) \<le> m \<Longrightarrow> k + i \<le> m \<Longrightarrow>
    (\<And>j. k + i \<le> j \<Longrightarrow> j < length (Pages t) \<Longrightarrow> owner t j \<noteq> None) \<Longrightarrow>
    skip_used t i k = Inl OobRead"
proof (induction t i k rule: skip_used.induct)
  case (1 t i k)
  show ?case
  proof (cases "k + i < length (Pages t)")
    case True
    with "1.prems" have u: "page_used t (k + i) = Inr True"
      using page_used_taken by blast
    have "skip_used t i (Suc k) = Inl OobRead"
      using "1.IH" [OF u] "1.prems" True by simp
    with u show ?thesis by (simp add: skip_used.simps [of t i k])
  next
    case False
    then show ?thesis by (simp add: skip_used.simps [of t i k] page_used_def)
  qed
qed

lemma lookup_overrun:
  assumes geo: "geometry_ok t" and cur: "LastEmptyPageOffset t = 512 * c"
    and "c + RT_SIZE_TO_PAGES n \<le> PageCount t" and "k < RT_SIZE_TO_PAGES n"
    and free: "\<And>j. c \<le> j \<Longrightarrow> j < c + k \<Longrightarrow> owner t j = None"
    and used: "\<And>j. c + k \<le> j \<Longrightarrow> j < PageCount t \<Longrightarrow> owner t j \<noteq> None"
  shows "LookupFreeMemRegion t n = Inl OobRead"
proof -
  let ?r = "RT_SIZE_TO_PAGES n"
  have len: "length (Pages t) = PageCount t" using geo by (simp add: geometry_ok_def)
  have ck: "c + k < PageCount t" using assms(3,4) by simp
  have "check_run t c ?r 0 = Inr k"
  proof (rule check_run_stops)
    show "page_used t (k + c) = Inr True"
      using used [of "k + c"] ck page_used_taken by (auto simp: add.commute)
    show "page_used t (j + c) = Inr False" if "0 \<le> j" "j < k" for j
      using free [of "j + c"] that ck len by (intro page_used_free) auto
  qed (use assms(4) in auto)
  moreover have "skip_used t c k = Inl OobRead"
    using used ck len by (intro skip_used_overrun [of t "PageCount t"]) (auto simp: add.commute)
  ultimately have "lookup_from t ?r c = Inl OobRead"
    using assms(3,4) by (simp add: lookup_from.simps [of t ?r c])
  with cur assms(3) show ?thesis by (simp add: LookupFreeMemRegion_def Let_def)
qed

end
