(* ===== verification/RtMalloc.thy ===== *)
theory RtMalloc
  imports RtPageTableInv
begin

text \<open>
  \<^verbatim>\<open>malloc\<close>, \<^verbatim>\<open>realloc\<close> and \<^verbatim>\<open>free\<close> of the runtime memory manager as an allocator: the
  invariant over every sequence of calls, the interface \<open>scratch_allocator\<close> that clients such
  as \<^verbatim>\<open>qsort\<close> rely on with its interpretation, and the properties of the component.
\<close>

section \<open>Initialisation\<close>

lemma sizeof_simps [simp]: "sizeof_entry = 16" "sizeof_table = 40" "RT_PAGE_SIZE = 512"
  "MIN_REQUIRED_BLOCKS = 1100"
  by (simp_all add: sizeof_entry_def sizeof_table_def RT_PAGE_SIZE_def MIN_REQUIRED_BLOCKS_def)

lemma owner_init: "owner t i = None" if "Pages t = replicate n \<lparr>StartPageOffset = 0, PageFlag = RT_PAGE_FREE\<rparr>"
  using that by (auto simp: owner_def)

text \<open>The page table and the data area fit the buffer they are laid out in.\<close>

lemma scratch_layout_fits:
  fixes sz n :: nat
  assumes "1126400 \<le> sz" and "n = (sz - 40 + 16) div (512 + 16)"
  shows "2 \<le> n" and "40 + (n - 1) * 16 + 512 * n \<le> sz"
proof -
  have n: "n = (sz - 24) div 528" using assms by simp
  have le: "528 * n \<le> sz - 24" unfolding n by (rule times_div_less_eq_dividend)
  have "(1126400 - 24) div 528 \<le> (sz - 24) div 528" using assms(1) by (intro div_le_mono) simp
  then show n2: "2 \<le> n" unfolding n by simp
  then have "40 + (n - 1) * 16 = 24 + 16 * n" by (cases n) simp_all
  then show "40 + (n - 1) * 16 + 512 * n \<le> sz" using le assms(1) by simp
qed

lemma InitializeScratchMemory_inv:
  assumes ok: "InitializeScratchMemory buf sz = Inr t" and fit: "unat buf + sz \<le> 2 ^ 64"
  shows "rt_inv t" and "\<And>i. owner t i = None" and "LastEmptyPageOffset t = 0"
    and "unat (DataAreaBase t) + 512 * PageCount t \<le> unat buf + sz"
proof -
  define n where "n = (sz - 40 + 16) div (512 + 16)"
  from ok have buf: "buf \<noteq> 0" and sz: "1126400 \<le> sz"
    and base: "DataAreaBase t = buf + of_nat 40 + of_nat ((n - 1) * 16)"
    and flds: "PageCount t = n" "LastEmptyPageOffset t = 0"
      "Pages t = replicate n \<lparr>StartPageOffset = 0, PageFlag = RT_PAGE_FREE\<rparr>"
      "length (Data t) = sz - 40 - (n - 1) * 16"
    by (auto simp: InitializeScratchMemory_def Let_def n_def split: if_splits)
  from scratch_layout_fits [OF sz n_def] obtain m where
    m: "m = (n - 1) * 16" and n2: "2 \<le> n" and lay: "40 + m + 512 * n \<le> sz"
    by simp
  have "unat buf + (40 + m) < 2 ^ 64" using lay fit n2 by simp
  from unat_add_ptr [OF this] have ub: "unat (DataAreaBase t) = unat buf + 40 + m"
    unfolding base m by (simp only: of_nat_add add.assoc)
  then have "DataAreaBase t \<noteq> 0" by auto
  moreover have "unat (DataAreaBase t) + length (Data t) \<le> 2 ^ 64"
    using ub fit lay unfolding flds m [symmetric] by simp
  moreover have "512 * n \<le> length (Data t)"
    using lay unfolding flds m [symmetric] by simp
  ultimately have "geometry_ok t"
    using flds(1-3) unfolding geometry_ok_def by auto
  moreover show "owner t i = None" for i by (rule owner_init [OF flds(3)])
  ultimately show "rt_inv t"
    by (auto simp: rt_inv_def blocks_ok_def flds(3))
  show "unat (DataAreaBase t) + 512 * PageCount t \<le> unat buf + sz"
    using ub lay flds(1) by simp
  show "LastEmptyPageOffset t = 0" by (fact flds)
qed

lemma init_page_count:
  assumes "InitializeScratchMemory buf sz = Inr t"
  shows "2133 \<le> PageCount t"
proof -
  from assms have sz: "1126400 \<le> sz" and n: "PageCount t = (sz - 24) div 528"
    by (auto simp: InitializeScratchMemory_def Let_def split: if_splits)
  have "(1126400 - 24) div 528 \<le> (sz - 24) div 528" using sz by (intro div_le_mono) simp
  then show ?thesis by (simp add: n)
qed

section \<open>Pointers and offsets\<close>

lemma offset_small:
  assumes "geometry_ok t" and "s < PageCount t"
  shows "512 * s < 2 ^ 64"
  using assms by (simp add: geometry_ok_def)

lemma block_addr_neq_0:
  assumes "geometry_ok t" and "512 * s \<le> 512 * PageCount t" and "512 * s < length (Data t)"
  shows "DataAreaBase t + of_nat (512 * s) \<noteq> 0"
proof -
  have "unat (DataAreaBase t + of_nat (512 * s)) = unat (DataAreaBase t) + 512 * s"
    using assms by (intro unat_add_ptr) (simp add: geometry_ok_def)
  moreover have "0 < unat (DataAreaBase t)" using assms by (simp add: geometry_ok_def unat_gt_0)
  ultimately show ?thesis by (metis add_is_0 not_less0 unat_0)
qed

lemma rt_inv_geometry: "rt_inv t \<Longrightarrow> geometry_ok t" by (simp add: rt_inv_def)

lemma owner_less: "rt_inv t \<Longrightarrow> owner t i = Some off \<Longrightarrow> i < PageCount t"
  by (auto simp: rt_inv_def geometry_ok_def owner_def split: if_splits)

text \<open>The pointer to the block that starts at page \<open>s\<close>.\<close>

definition block_ptr :: "rt_page_table \<Rightarrow> nat \<Rightarrow> ptr" where
  "block_ptr t s = DataAreaBase t + of_nat (512 * s)"

lemma block_ptr_offset:
  assumes "rt_inv t" and "owner t s = Some (512 * s)"
  shows "unat (block_ptr t s - DataAreaBase t) = 512 * s"
  unfolding block_ptr_def
  by (rule ptr_offset) (rule offset_small [OF rt_inv_geometry [OF assms(1)] owner_less [OF assms]])

lemma free_live_block:
  assumes "rt_inv t" and "owner t s = Some (512 * s)"
  obtains t' where "RuntimeFreeMem t (block_ptr t s) = Inr t'" and "free_effect t (512 * s) t'"
  using assms(1)
proof (cases rule: RuntimeFreeMem_cases [where p = "block_ptr t s"])
  case Oob
  with owner_less [OF assms] show ?thesis by (simp add: block_ptr_offset [OF assms])
next
  case (Freed t')
  with that show ?thesis by (simp add: block_ptr_offset [OF assms])
qed

section \<open>realloc\<close>

lemma owner_Data [simp]: "owner (t\<lparr>Data := d\<rparr>) = owner t"
  by (simp add: owner_def fun_eq_iff)

lemma rt_inv_Data: "rt_inv t \<Longrightarrow> length d = length (Data t) \<Longrightarrow> rt_inv (t\<lparr>Data := d\<rparr>)"
  by (simp add: rt_inv_def geometry_ok_def blocks_ok_def)

lemma data_copy_cases:
  assumes "data_copy t dst src n = Inr t'"
  shows "t' = t\<lparr>Data := copy_at dst (seg src n (Data t)) (Data t)\<rparr>"
    and "src + n \<le> length (Data t)" and "dst + n \<le> length (Data t)"
  using assms by (auto simp: data_copy_def split: if_splits)

lemma rt_realloc_inv:
  assumes "rt_inv t" and "rt_realloc t p n = Inr (r, t')"
  shows "rt_inv t'"
proof (cases p)
  case None
  with assms show ?thesis
    by (auto simp: rt_realloc_def rt_malloc_def intro: RuntimeAllocateMem_inv)
next
  case (Some a)
  let ?off = "unat (a - DataAreaBase t)"
  from assms(2) Some obtain k c where
    "block_start t ?off = Inr k" and "count_pages t ?off k 0 = Inr c"
    and rest: "(if n \<le> RT_PAGES_TO_SIZE c then Inr (Some a, t)
         else bind_res (RuntimeAllocateMem t n) (\<lambda>(NewPtr, t).
                case NewPtr of
                  None \<Rightarrow> Inr (None, t)
                | Some q \<Rightarrow>
                    bind_res (data_copy t (unat (q - DataAreaBase t)) ?off
                                (RT_PAGES_TO_SIZE c)) (\<lambda>t.
                    bind_res (RuntimeFreeMem t a) (\<lambda>t. Inr (Some q, t))))) = Inr (r, t')"
    by (auto simp: rt_realloc_def Let_def elim!: bind_res_InrE)
  show ?thesis
  proof (cases "n \<le> RT_PAGES_TO_SIZE c")
    case True
    with rest assms(1) show ?thesis by simp
  next
    case False
    with rest obtain x u where u: "RuntimeAllocateMem t n = Inr (x, u)"
      and x: "(case x of None \<Rightarrow> Inr (None, u)
                | Some q \<Rightarrow>
                    bind_res (data_copy u (unat (q - DataAreaBase u)) ?off
                                (RT_PAGES_TO_SIZE c)) (\<lambda>t.
                    bind_res (RuntimeFreeMem t a) (\<lambda>t. Inr (Some q, t)))) = Inr (r, t')"
      by (auto elim!: bind_res_InrE)
    from assms(1) u have inv_u: "rt_inv u" by (rule RuntimeAllocateMem_inv)
    show ?thesis
    proof (cases x)
      case None
      with x inv_u show ?thesis by simp
    next
      case (Some q)
      with x obtain v where v: "data_copy u (unat (q - DataAreaBase u)) ?off
            (RT_PAGES_TO_SIZE c) = Inr v" and w: "RuntimeFreeMem v a = Inr t'"
        by (auto elim!: bind_res_InrE)
      from data_copy_cases [OF v] inv_u have "rt_inv v" by (simp add: rt_inv_Data)
      then show ?thesis using w by (rule RuntimeFreeMem_inv)
    qed
  qed
qed

section \<open>Sequences of calls\<close>

datatype rt_op = Malloc nat | Realloc "ptr option" nat | Free "ptr option"

fun rt_step :: "rt_page_table \<Rightarrow> rt_op \<Rightarrow> rt_page_table option" where
  "rt_step t (Malloc n) = (case rt_malloc t n of Inl _ \<Rightarrow> None | Inr (_, t') \<Rightarrow> Some t')"
| "rt_step t (Realloc p n) = (case rt_realloc t p n of Inl _ \<Rightarrow> None | Inr (_, t') \<Rightarrow> Some t')"
| "rt_step t (Free p) = (case rt_free t p of Inl _ \<Rightarrow> None | Inr t' \<Rightarrow> Some t')"

definition rt_run :: "rt_page_table \<Rightarrow> rt_op list \<Rightarrow> rt_page_table option" where
  "rt_run t ops = foldl (\<lambda>r op. Option.bind r (\<lambda>s. rt_step s op)) (Some t) ops"

lemma rt_free_inv: "rt_inv t \<Longrightarrow> rt_free t p = Inr t' \<Longrightarrow> rt_inv t'"
  by (auto simp: rt_free_def intro: RuntimeFreeMem_inv split: option.splits)

lemma rt_malloc_inv: "rt_inv t \<Longrightarrow> rt_malloc t n = Inr (r, t') \<Longrightarrow> rt_inv t'"
  by (auto simp: rt_malloc_def intro: RuntimeAllocateMem_inv)

interpretation rt: invariant_machine rt_step rt_inv
proof
  fix t op t'
  assume "rt_inv t" and "rt_step t op = Some t'"
  then show "rt_inv t'"
    by (cases op) (auto intro: rt_malloc_inv rt_realloc_inv rt_free_inv split: sum.splits)
qed

section \<open>The allocator interface\<close>

definition rt_live :: "rt_page_table \<Rightarrow> ptr \<Rightarrow> bool" where
  "rt_live t p \<longleftrightarrow>
    (let off = unat (p - DataAreaBase t) in owner t (off div 512) = Some off)"

lemma rt_live_block: "rt_inv t \<Longrightarrow> rt_live t p \<Longrightarrow>
    \<exists>s. p = block_ptr t s \<and> owner t s = Some (512 * s)"
proof -
  let ?off = "unat (p - DataAreaBase t)"
  assume inv: "rt_inv t" and "rt_live t p"
  then have o: "owner t (?off div 512) = Some ?off" by (simp add: rt_live_def Let_def)
  from inv have "blocks_ok t" by (simp add: rt_inv_def)
  from blocks_okE [OF this o] obtain s where s: "?off = 512 * s" by blast
  then have "p = block_ptr t s"
    unfolding block_ptr_def by (simp flip: s)
  with o s show ?thesis by auto
qed

lemma rt_live_block_ptr:
  assumes "rt_inv t" and "s < PageCount t"
  shows "rt_live t (block_ptr t s) \<longleftrightarrow> owner t s = Some (512 * s)"
proof -
  have "unat (block_ptr t s - DataAreaBase t) = 512 * s"
    unfolding block_ptr_def
    using offset_small [OF rt_inv_geometry [OF assms(1)] assms(2)] by (rule ptr_offset)
  then show ?thesis by (simp add: rt_live_def Let_def)
qed

lemma alloc_live:
  assumes inv: "rt_inv t" and eff: "alloc_effect t n s t'" and n: "0 < n"
  shows "\<not> rt_live t (block_ptr t s)" and "rt_live t' = (rt_live t)(block_ptr t s := True)"
proof -
  let ?r = "RT_SIZE_TO_PAGES n"
  have r: "0 < ?r" using n by (simp add: RT_SIZE_TO_PAGES_pos)
  from eff have base: "DataAreaBase t' = DataAreaBase t" and run: "free_run t s ?r"
    and own: "owner t' = (\<lambda>i. if s \<le> i \<and> i < s + ?r then Some (512 * s) else owner t i)"
    by (simp_all add: alloc_effect_def)
  from run r have s: "s < PageCount t" "owner t s = None" by (auto simp: free_run_def)
  then show "\<not> rt_live t (block_ptr t s)" using inv by (simp add: rt_live_block_ptr)
  have off: "unat (block_ptr t s - DataAreaBase t) = 512 * s"
    unfolding block_ptr_def
    by (rule ptr_offset) (rule offset_small [OF rt_inv_geometry [OF inv] s(1)])
  show "rt_live t' = (rt_live t)(block_ptr t s := True)"
  proof
    fix p
    show "rt_live t' p = ((rt_live t)(block_ptr t s := True)) p"
    proof (cases "p = block_ptr t s")
      case True
      with off r show ?thesis by (simp add: rt_live_def base own Let_def)
    next
      case False
      let ?o = "unat (p - DataAreaBase t)"
      have "?o \<noteq> 512 * s" using False off by (metis diff_add_cancel word_unat_eq_iff)
      moreover have "owner t (?o div 512) \<noteq> Some ?o" if "s \<le> ?o div 512" "?o div 512 < s + ?r"
        using that run by (simp add: free_run_def)
      ultimately show ?thesis using False by (auto simp: rt_live_def base own Let_def)
    qed
  qed
qed

lemma free_live:
  assumes inv: "rt_inv t" and eff: "free_effect t (512 * s) t'" and own: "owner t s = Some (512 * s)"
  shows "rt_live t' = (rt_live t)(block_ptr t s := False)"
proof
  fix p
  from eff have base: "DataAreaBase t' = DataAreaBase t"
    and own': "owner t' = (\<lambda>j. if owner t j = Some (512 * s) then None else owner t j)"
    by (simp_all add: free_effect_def same_frame_def)
  note off = block_ptr_offset [OF inv own]
  show "rt_live t' p = ((rt_live t)(block_ptr t s := False)) p"
  proof (cases "p = block_ptr t s")
    case True
    with off own show ?thesis by (simp add: rt_live_def base own' Let_def)
  next
    case False
    then have "unat (p - DataAreaBase t) \<noteq> 512 * s"
      using off by (metis diff_add_cancel word_unat_eq_iff)
    with False show ?thesis by (auto simp: rt_live_def base own' Let_def)
  qed
qed

interpretation rt_alloc: scratch_allocator rt_malloc rt_free rt_live rt_inv
proof
  fix t n t'
  assume "rt_inv t" and m: "rt_malloc t n = Inr (None, t')"
  then have "geometry_ok t" by (simp add: rt_inv_def)
  then show "rt_inv t' \<and> rt_live t' = rt_live t"
    using m \<open>rt_inv t\<close> unfolding rt_malloc_def
    by (cases rule: RuntimeAllocateMem_cases) auto
next
  fix t n p t'
  assume inv: "rt_inv t" and n: "0 < n" and m: "rt_malloc t n = Inr (Some p, t')"
  from inv have "geometry_ok t" by (simp add: rt_inv_def)
  then obtain s where "p = block_ptr t s" and "alloc_effect t n s t'"
    using m unfolding rt_malloc_def block_ptr_def
    by (cases rule: RuntimeAllocateMem_cases) auto
  with alloc_live [OF inv _ n] alloc_effect_inv [OF inv]
  show "rt_inv t' \<and> \<not> rt_live t p \<and> rt_live t' = (rt_live t)(p := True)" by blast
next
  fix t p
  assume inv: "rt_inv t" and "rt_live t p"
  then obtain s where p: "p = block_ptr t s" and own: "owner t s = Some (512 * s)"
    using rt_live_block by blast
  from free_live_block [OF inv own] obtain t' where
    "RuntimeFreeMem t p = Inr t'" and "free_effect t (512 * s) t'" using p by blast
  with free_live [OF inv _ own] free_effect_inv [OF inv] p
  show "\<exists>t'. rt_free t (Some p) = Inr t' \<and> rt_inv t' \<and> rt_live t' = (rt_live t)(p := False)"
    by (auto simp: rt_free_def)
qed

section \<open>Moving a block\<close>

lemma runs_disjoint:
  assumes "run_of t (512 * s) s (s + c)" and "0 < c" and "free_run t s' r" and "0 < r"
  shows "s + c \<le> s' \<or> s' + r \<le> s"
proof (rule ccontr)
  assume "\<not> ?thesis"
  then have j: "s \<le> max s s'" "max s s' < s + c" "s' \<le> max s s'" "max s s' < s' + r"
    using assms(2,4) by auto
  then have "owner t (max s s') = Some (512 * s)" using assms(1) unfolding run_of_def by blast
  moreover have "owner t (max s s') = None"
    using j assms(3) unfolding free_run_def by (meson atLeastLessThan_iff)
  ultimately show False by simp
qed

lemma rt_realloc_moves:
  assumes inv: "rt_inv t" and own: "owner t s = Some (512 * s)"
    and run: "run_of t (512 * s) s (s + c)" and big: "512 * c < n"
    and alloc: "RuntimeAllocateMem t n = Inr (Some q, u)"
    and copy: "data_copy u (unat (q - DataAreaBase u)) (512 * s) (512 * c) = Inr v"
    and free: "RuntimeFreeMem v (block_ptr t s) = Inr t'"
  obtains s' where "q = block_ptr t s'" and "free_run t s' (RT_SIZE_TO_PAGES n)"
    and "owner t' = (\<lambda>i. if s' \<le> i \<and> i < s' + RT_SIZE_TO_PAGES n then Some (512 * s')
           else if owner t i = Some (512 * s) then None else owner t i)"
    and "seg (512 * s') (512 * c) (Data t') = seg (512 * s) (512 * c) (Data t)"
proof -
  let ?r = "RT_SIZE_TO_PAGES n"
  from inv have geo: "geometry_ok t" by (simp add: rt_inv_def)
  then obtain s' where q: "q = block_ptr t s'" and eff: "alloc_effect t n s' u"
    using alloc unfolding block_ptr_def by (cases rule: RuntimeAllocateMem_cases) auto
  from eff have fr: "free_run t s' ?r"
    and own_u: "owner u = (\<lambda>i. if s' \<le> i \<and> i < s' + ?r then Some (512 * s') else owner t i)"
    and data_u: "Data u = zero_at (512 * s') n (Data t)" and base: "DataAreaBase u = DataAreaBase t"
    and fits: "512 * s' + n \<le> 512 * PageCount t"
    by (simp_all add: alloc_effect_def)
  have r: "0 < ?r" using big by (simp add: RT_SIZE_TO_PAGES_pos)
  have c: "0 < c" using run own by (cases c) (auto simp: run_of_def)
  have cr: "512 * c < 512 * ?r" using big RT_SIZE_TO_PAGES_ge [of n] by linarith
  note disj = runs_disjoint [OF run c fr r]
  have n: "0 < n" using big by simp
  then have s'n: "s' < PageCount t" using fits by simp
  have off: "unat (q - DataAreaBase u) = 512 * s'"
    unfolding q base block_ptr_def by (rule ptr_offset) (rule offset_small [OF geo s'n])
  note v = data_copy_cases [OF copy, unfolded off]
  have inv_v: "rt_inv v" unfolding v(1)
    using alloc_effect_inv [OF inv eff] v by (intro rt_inv_Data) simp_all
  have own_v: "owner v = owner u" unfolding v(1) by simp
  have "owner v s = Some (512 * s)" unfolding own_v own_u using disj own c by auto
  moreover have "block_ptr t s = block_ptr v s" unfolding v(1) block_ptr_def by (simp add: base)
  ultimately have eff': "free_effect v (512 * s) t'"
    using free_live_block [OF inv_v] free by (metis Inr_inject)
  have "s' \<noteq> s" using disj c r by auto
  then have "owner t' = (\<lambda>i. if s' \<le> i \<and> i < s' + ?r then Some (512 * s')
           else if owner t i = Some (512 * s) then None else owner t i)"
    using eff' unfolding free_effect_def own_v own_u by auto
  moreover have "seg (512 * s') (512 * c) (Data t') = seg (512 * s) (512 * c) (Data t)"
  proof -
    have lt: "length (Data u) = length (Data t)"
      unfolding data_u using fits geo by (intro length_zero_at) (simp add: geometry_ok_def)
    have cp: "512 * s + 512 * c \<le> length (Data u)" "512 * s' + 512 * c \<le> length (Data u)"
      using v(2,3) by simp_all
    have "Data t' = copy_at (512 * s') (seg (512 * s) (512 * c) (Data u)) (Data u)"
      using eff' unfolding free_effect_def same_frame_def v(1) by simp
    then have "seg (512 * s') (512 * c) (Data t') = seg (512 * s) (512 * c) (Data u)"
      using cp seg_copy_at_same [of "512 * s'" "seg (512 * s) (512 * c) (Data u)" "Data u"] by simp
    also have "\<dots> = seg (512 * s) (512 * c) (Data t)"
      unfolding data_u zero_at_def
      using fits geo cp(1) disj RT_SIZE_TO_PAGES_ge [of n]
      by (intro seg_copy_at_other) (auto simp: lt geometry_ok_def)
    finally show ?thesis .
  qed
  ultimately show thesis using that q fr by blast
qed

end
