(* ===== verification/RtProps.thy ===== *)
theory RtProps
  imports RtMalloc
begin

text \<open>
  The properties of the runtime memory manager, each with a witness on the small table
  \<open>rt_fresh\<close>, and the three sequences of calls on which the manager misbehaves.
\<close>

section \<open>A small table for the witnesses\<close>

definition rt_fresh :: "nat \<Rightarrow> rt_page_table" where
  "rt_fresh n = \<lparr>PageCount = n, LastEmptyPageOffset = 0, DataAreaBase = 0x1000,
     Pages = replicate n \<lparr>StartPageOffset = 0, PageFlag = RT_PAGE_FREE\<rparr>,
     Data = replicate (512 * n) 0xFF\<rparr>"

lemma owner_fresh: "owner (rt_fresh n) i = None"
  by (rule owner_init) (simp add: rt_fresh_def)

lemma rt_inv_fresh: "n \<le> 4 \<Longrightarrow> rt_inv (rt_fresh n)"
  by (auto simp: rt_inv_def geometry_ok_def blocks_ok_def owner_fresh)
     (auto simp: rt_fresh_def)

lemma malloc_fresh_table:
  assumes "0 < m" and "m \<le> 512 * n" and "n \<le> 4"
  obtains t' where "rt_malloc (rt_fresh n) m = Inr (Some (block_ptr (rt_fresh n) 0), t')"
    and "alloc_effect (rt_fresh n) m 0 t'"
proof -
  let ?t = "rt_fresh n"
  have geo: "geometry_ok ?t" using rt_inv_fresh [OF assms(3)] by (simp add: rt_inv_def)
  have "free_run ?t 0 (RT_SIZE_TO_PAGES m)"
    using RT_SIZE_TO_PAGES_le [OF assms(2)]
    by (simp add: free_run_def owner_fresh) (simp add: rt_fresh_def)
  then have l: "LookupFreeMemRegion ?t m = Inr (Some (512 * 0))"
    by (intro lookup_at_cursor [OF geo]) (simp_all add: rt_fresh_def)
  from RuntimeAllocateMem_total [OF geo l] obtain p t' where
    m: "RuntimeAllocateMem ?t m = Inr (Some p, t')" by blast
  from geo m show thesis
  proof (cases rule: RuntimeAllocateMem_cases)
    case (Block s)
    with l have "s = 0" by simp
    with Block m that show thesis by (simp add: rt_malloc_def block_ptr_def)
  qed simp
qed

section \<open>Initialisation\<close>

text \<open>\<^verbatim>\<open>InitializeScratchMemory\<close> lays the page table and the data area out inside the
  caller's buffer, whatever its size, with every page free and the invariant established.\<close>

theorem rt_init_layout:
  assumes "InitializeScratchMemory buf sz = Inr t" and "unat buf + sz \<le> 2 ^ 64"
  shows "rt_inv t \<and> (\<forall>i. owner t i = None) \<and> LastEmptyPageOffset t = 0
    \<and> unat (DataAreaBase t) + RT_PAGE_SIZE * PageCount t \<le> unat buf + sz"
  using InitializeScratchMemory_inv [OF assms] by simp

theorem rt_init_layout_witness:
  "\<exists>t. InitializeScratchMemory 0x1000 1126400 = Inr t \<and> PageCount t = 2133 \<and> rt_inv t"
proof -
  have "unat (0x1000 :: ptr) + 1126400 \<le> 2 ^ 64" by simp
  moreover obtain t where t: "InitializeScratchMemory 0x1000 1126400 = Inr t"
    and "PageCount t = 2133"
    by (simp add: InitializeScratchMemory_def Let_def)
  ultimately show ?thesis using rt_init_layout [OF t] by blast
qed

section \<open>Lookup\<close>

text \<open>\<^verbatim>\<open>LookupFreeMemRegion\<close> is sound and complete for the regions it searches: an offset
  it returns is the start of a free run of enough pages inside the table, and when it reports
  failure no free run starts at or after the cursor or ends strictly before it.\<close>

theorem rt_lookup_correct:
  assumes "rt_inv t" and "LookupFreeMemRegion t n = Inr r"
  shows "case r of
      Some off \<Rightarrow> \<exists>s. off = RT_PAGES_TO_SIZE s \<and> free_run t s (RT_SIZE_TO_PAGES n)
    | None \<Rightarrow> \<forall>s. RT_SIZE_TO_PAGES (LastEmptyPageOffset t) \<le> s
          \<or> s + RT_SIZE_TO_PAGES n < RT_SIZE_TO_PAGES (LastEmptyPageOffset t)
          \<longrightarrow> \<not> free_run t s (RT_SIZE_TO_PAGES n)"
proof (cases r)
  case None
  with assms(2) LookupFreeMemRegion_complete [of t n] show ?thesis by auto
next
  case (Some off)
  with assms LookupFreeMemRegion_sound [OF rt_inv_geometry, of t n off] show ?thesis
    by (auto simp: RT_PAGES_TO_SIZE_mult)
qed

theorem rt_lookup_correct_witness:
  "LookupFreeMemRegion (rt_fresh 4) 5000 = Inr None
    \<and> \<not> free_run (rt_fresh 4) 0 (RT_SIZE_TO_PAGES 5000)"
proof -
  have l: "LookupFreeMemRegion (rt_fresh 4) 5000 = Inr None"
    by (simp add: LookupFreeMemRegion_def RT_SIZE_TO_PAGES_div rt_fresh_def)
  have "rt_inv (rt_fresh 4)" by (rule rt_inv_fresh) simp
  moreover have "LastEmptyPageOffset (rt_fresh 4) = 0" by (simp add: rt_fresh_def)
  ultimately show ?thesis
    using rt_lookup_correct [of "rt_fresh 4", OF _ l] l by (simp add: RT_SIZE_TO_PAGES_div)
qed

section \<open>Allocation and release\<close>

text \<open>C5: a successful \<^verbatim>\<open>RuntimeAllocateMem\<close> takes free pages only, gives exactly the requested
  number of pages to the new block, leaves every other page with its owner, zeroes the
  requested bytes and touches no other byte of the data area.\<close>

theorem rt_alloc_refines:
  assumes "rt_inv t" and "RuntimeAllocateMem t n = Inr (Some p, t')"
  shows "rt_inv t' \<and> (\<exists>s. p = block_ptr t s
    \<and> (\<forall>i \<in> {s..<s + RT_SIZE_TO_PAGES n}. i < PageCount t \<and> owner t i = None)
    \<and> owner t' = (\<lambda>i. if s \<le> i \<and> i < s + RT_SIZE_TO_PAGES n
                       then Some (RT_PAGES_TO_SIZE s) else owner t i)
    \<and> seg (RT_PAGES_TO_SIZE s) n (Data t') = replicate n 0
    \<and> (\<forall>i < length (Data t). \<not> (RT_PAGES_TO_SIZE s \<le> i \<and> i < RT_PAGES_TO_SIZE s + n)
         \<longrightarrow> Data t' ! i = Data t ! i))"
proof -
  from assms(1) have geo: "geometry_ok t" by (rule rt_inv_geometry)
  then obtain s where p: "p = block_ptr t s" and eff: "alloc_effect t n s t'"
    using assms(2) unfolding block_ptr_def by (cases rule: RuntimeAllocateMem_cases) auto
  have fit: "512 * s + n \<le> length (Data t)"
    using eff geo by (simp add: alloc_effect_def geometry_ok_def)
  have data: "Data t' = zero_at (512 * s) n (Data t)" using eff by (simp add: alloc_effect_def)
  have "seg (512 * s) n (Data t') = replicate n 0"
    unfolding data zero_at_def using fit seg_copy_at_same [of "512 * s" "replicate n 0" "Data t"]
    by simp
  moreover have "\<forall>i < length (Data t). \<not> (512 * s \<le> i \<and> i < 512 * s + n)
      \<longrightarrow> Data t' ! i = Data t ! i"
    unfolding data using fit by (simp add: nth_zero_at)
  moreover have "\<forall>i \<in> {s..<s + RT_SIZE_TO_PAGES n}. i < PageCount t \<and> owner t i = None"
    using eff by (simp add: alloc_effect_def free_run_def)
  moreover have "owner t' = (\<lambda>i. if s \<le> i \<and> i < s + RT_SIZE_TO_PAGES n
                       then Some (512 * s) else owner t i)"
    using eff by (simp add: alloc_effect_def)
  ultimately show ?thesis
    using p alloc_effect_inv [OF assms(1) eff] unfolding RT_PAGES_TO_SIZE_mult
    by (intro conjI exI [of _ s]) assumption+
qed

theorem rt_alloc_refines_witness:
  "\<exists>p t'. RuntimeAllocateMem (rt_fresh 4) 600 = Inr (Some p, t') \<and> rt_inv t'"
proof -
  obtain t' where t': "rt_malloc (rt_fresh 4) 600 = Inr (Some (block_ptr (rt_fresh 4) 0), t')"
    using malloc_fresh_table [of 600 4] by auto
  then have a: "RuntimeAllocateMem (rt_fresh 4) 600 = Inr (Some (block_ptr (rt_fresh 4) 0), t')"
    by (simp add: rt_malloc_def)
  have "rt_inv (rt_fresh 4)" by (rule rt_inv_fresh) simp
  from rt_alloc_refines [OF this a] a show ?thesis by blast
qed

text \<open>C12: for every pointer, live or not, \<^verbatim>\<open>RuntimeFreeMem\<close> either reads outside the page table
  (a pointer past the data area) or releases exactly the pages owned by the block at that
  offset; a pointer that is no block start, or was freed before, changes nothing.\<close>

theorem rt_free_refines:
  assumes "rt_inv t"
  shows "case RuntimeFreeMem t p of
      Inl f \<Rightarrow> f = OobRead \<and> PageCount t \<le> RT_SIZE_TO_PAGES (unat (p - DataAreaBase t))
    | Inr t' \<Rightarrow> rt_inv t' \<and> Data t' = Data t
        \<and> owner t' = (\<lambda>i. if owner t i = Some (unat (p - DataAreaBase t)) then None
                            else owner t i)"
  using assms
proof (cases rule: RuntimeFreeMem_cases [where p = p])
  case (Freed t')
  with free_effect_inv [OF assms] show ?thesis
    by (auto simp: free_effect_def same_frame_def)
qed simp

theorem rt_free_refines_witness:
  "case RuntimeFreeMem (rt_fresh 4) 0x1200 of Inl f \<Rightarrow> False
    | Inr t' \<Rightarrow> owner t' = owner (rt_fresh 4)"
proof -
  have "rt_inv (rt_fresh 4)" by (rule rt_inv_fresh) simp
  from rt_free_refines [OF this, of "0x1200"] show ?thesis
    by (auto simp: owner_fresh RT_SIZE_TO_PAGES_div fun_eq_iff split: sum.splits)
       (simp add: rt_fresh_def)
qed

text \<open>C8: after \<^verbatim>\<open>InitializeScratchMemory\<close>, every sequence of \<^verbatim>\<open>malloc\<close>, \<^verbatim>\<open>realloc\<close> and
  \<^verbatim>\<open>free\<close> calls that does not fault keeps the page table well formed: used pages always form
  runs that start at their own block offset.\<close>

theorem rt_run_invariant:
  assumes "InitializeScratchMemory buf sz = Inr t" and "unat buf + sz \<le> 2 ^ 64"
    and "rt_run t ops = Some t'"
  shows "rt_inv t'"
  using rt.run_inv InitializeScratchMemory_inv(1) [OF assms(1,2)] assms(3)
  unfolding rt_run_def by blast

theorem rt_run_invariant_witness:
  "\<exists>t. InitializeScratchMemory 0x1000 1126400 = Inr t \<and> rt_run t [Free None] = Some t \<and> rt_inv t"
proof -
  have f: "unat (0x1000 :: ptr) + 1126400 \<le> 2 ^ 64" by simp
  obtain t where t: "InitializeScratchMemory 0x1000 1126400 = Inr t"
    by (simp add: InitializeScratchMemory_def Let_def)
  have "rt_run t [Free None] = Some t" by (simp add: rt_run_def rt_free_def)
  with rt_run_invariant [OF t f this] t show ?thesis by blast
qed

text \<open>\<^verbatim>\<open>realloc\<close> of a live block of \<open>c\<close> pages keeps the block when it is large enough, and
  otherwise moves it: the first \<open>512 c\<close> bytes of the new block are the bytes of the old one,
  the old pages are free and the new ones are owned by the result.\<close>

theorem rt_realloc_preserves:
  assumes "rt_inv t" and own: "owner t s = Some (RT_PAGES_TO_SIZE s)"
    and re: "rt_realloc t (Some (block_ptr t s)) n = Inr (Some q, t')"
  shows "\<exists>c. run_of t (RT_PAGES_TO_SIZE s) s (s + c) \<and>
    (if n \<le> RT_PAGES_TO_SIZE c then q = block_ptr t s \<and> t' = t
     else \<exists>s'. q = block_ptr t s' \<and> free_run t s' (RT_SIZE_TO_PAGES n)
       \<and> owner t' = (\<lambda>i. if s' \<le> i \<and> i < s' + RT_SIZE_TO_PAGES n then Some (RT_PAGES_TO_SIZE s')
              else if owner t i = Some (RT_PAGES_TO_SIZE s) then None else owner t i)
       \<and> seg (RT_PAGES_TO_SIZE s') (RT_PAGES_TO_SIZE c) (Data t')
           = seg (RT_PAGES_TO_SIZE s) (RT_PAGES_TO_SIZE c) (Data t))"
proof -
  note [simp] = RT_PAGES_TO_SIZE_mult
  from own have own': "owner t s = Some (512 * s)" by simp
  note off = block_ptr_offset [OF assms(1) own']
  have s: "s < length (Pages t)" using own by (auto simp: owner_def split: if_splits)
  from own' have "StartPageOffset (Pages t ! s) = 512 * s"
    by (auto simp: owner_def split: if_splits)
  with s have bs: "block_start t (512 * s) = Inr s" by (simp add: block_start_def)
  have "length (Pages t) = PageCount t" using assms(1) by (simp add: rt_inv_def geometry_ok_def)
  from count_pages_run [OF this, of "512 * s" s 0] obtain m where
    m: "run_of t (512 * s) s m" and cnt: "count_pages t (512 * s) s 0 = Inr (m - s)" by auto
  then have run: "run_of t (512 * s) s (s + (m - s))" by (simp add: run_of_def)
  show ?thesis
  proof (cases "n \<le> 512 * (m - s)")
    case True
    with off bs cnt have "rt_realloc t (Some (block_ptr t s)) n = Inr (Some (block_ptr t s), t)"
      by (simp add: rt_realloc_def Let_def)
    then have "q = block_ptr t s \<and> t' = t" using re by (metis Inr_inject Pair_inject option.inject)
    with True run show ?thesis by (intro exI [of _ "m - s"]) simp
  next
    case False
    with re off bs cnt obtain u v where u: "RuntimeAllocateMem t n = Inr (Some q, u)"
      and v: "data_copy u (unat (q - DataAreaBase u)) (512 * s) (512 * (m - s)) = Inr v"
      and w: "RuntimeFreeMem v (block_ptr t s) = Inr t'"
      by (auto simp: rt_realloc_def Let_def elim!: bind_res_InrE split: option.splits)
    from False have "512 * (m - s) < n" by simp
    from rt_realloc_moves [OF assms(1) own' run this u v w] obtain s' where
      "q = block_ptr t s'" and "free_run t s' (RT_SIZE_TO_PAGES n)"
      and "owner t' = (\<lambda>i. if s' \<le> i \<and> i < s' + RT_SIZE_TO_PAGES n then Some (512 * s')
             else if owner t i = Some (512 * s) then None else owner t i)"
      and "seg (512 * s') (512 * (m - s)) (Data t') = seg (512 * s) (512 * (m - s)) (Data t)" .
    with False run show ?thesis unfolding RT_PAGES_TO_SIZE_mult
      by (intro exI [of _ "m - s"]) auto
  qed
qed

theorem rt_realloc_preserves_witness:
  "\<exists>t p. rt_inv t \<and> rt_realloc t (Some p) 100 = Inr (Some p, t)
    \<and> (\<exists>c. run_of t 0 0 c \<and> 100 \<le> RT_PAGES_TO_SIZE c)"
proof -
  let ?t = "rt_fresh 4"
  have inv: "rt_inv ?t" by (rule rt_inv_fresh) simp
  from malloc_fresh_table [of 600 4] obtain t where
    m: "rt_malloc ?t 600 = Inr (Some (block_ptr ?t 0), t)" and eff: "alloc_effect ?t 600 0 t"
    by auto
  have inv_t: "rt_inv t" by (rule alloc_effect_inv [OF inv eff])
  have own: "owner t = (\<lambda>i. if i < 2 then Some 0 else None)"
    using eff by (auto simp: alloc_effect_def owner_fresh RT_SIZE_TO_PAGES_div)
  have n: "PageCount t = 4" "length (Pages t) = 4"
    using eff by (simp_all add: alloc_effect_def rt_fresh_def)
  have o0: "owner t 0 = Some (RT_PAGES_TO_SIZE 0)" by (simp add: own RT_PAGES_TO_SIZE_mult)
  have "unat (block_ptr t 0 - DataAreaBase t) = 0" by (simp add: block_ptr_def)
  moreover have "owner t 0 = Some 0" by (simp add: own)
  then have "StartPageOffset (Pages t ! 0) = 0" by (auto simp: owner_def split: if_splits)
  then have "block_start t 0 = Inr 0" using n by (simp add: block_start_def RT_SIZE_TO_PAGES_div)
  moreover have "\<exists>c. count_pages t 0 0 0 = Inr c \<and> 2 \<le> c"
  proof -
    obtain c where c: "run_of t 0 0 c" "count_pages t 0 0 0 = Inr (0 + (c - 0))"
      using count_pages_run [of t 0 0 0] n by auto
    then have "owner t c \<noteq> Some 0" by (simp add: run_of_def)
    then have "2 \<le> c" by (auto simp: own split: if_splits)
    with c show ?thesis by auto
  qed
  ultimately have re: "rt_realloc t (Some (block_ptr t 0)) 100 = Inr (Some (block_ptr t 0), t)"
    by (auto simp: rt_realloc_def RT_PAGES_TO_SIZE_mult)
  have small: "100 \<le> RT_PAGES_TO_SIZE c" if "run_of t 0 0 c" for c
  proof -
    from that have "owner t c \<noteq> Some 0" by (simp add: run_of_def)
    then show ?thesis by (auto simp: own RT_PAGES_TO_SIZE_mult split: if_splits)
  qed
  from rt_realloc_preserves [OF inv_t o0 re] obtain c where
    "run_of t (RT_PAGES_TO_SIZE 0) 0 (0 + c)" by blast
  then have "run_of t 0 0 c" by (simp add: RT_PAGES_TO_SIZE_mult)
  with small inv_t re show ?thesis by blast
qed

section \<open>Three ways to misuse the manager\<close>

lemma malloc_at_cursor:
  assumes "rt_inv t" and "LastEmptyPageOffset t = 512 * c"
    and "free_run t c (RT_SIZE_TO_PAGES n)"
  obtains t' where "rt_malloc t n = Inr (Some (block_ptr t c), t')" and "alloc_effect t n c t'"
proof -
  from assms(1) have geo: "geometry_ok t" by (rule rt_inv_geometry)
  note l = lookup_at_cursor [OF geo assms(2,3)]
  from RuntimeAllocateMem_total [OF geo l] obtain p t' where
    m: "RuntimeAllocateMem t n = Inr (Some p, t')" by blast
  from geo m show thesis
  proof (cases rule: RuntimeAllocateMem_cases)
    case (Block s)
    with l have "s = c" by simp
    with Block m that show thesis by (simp add: rt_malloc_def block_ptr_def)
  qed simp
qed

text \<open>\<^verbatim>\<open>malloc(0)\<close> reserves no page: when the pages at the cursor are free, it returns a
  non-NULL pointer, and the next \<^verbatim>\<open>malloc\<close> that fits there returns the very same pointer. Two
  callers then share one block, and a \<^verbatim>\<open>free\<close> by the first releases the block of the second.\<close>

theorem rt_malloc_zero_aliases:
  assumes "rt_inv t" and "LastEmptyPageOffset t = RT_PAGES_TO_SIZE c" and "0 < n"
    and "free_run t c (RT_SIZE_TO_PAGES n)"
  shows "\<exists>p t1 t2 t3. rt_malloc t 0 = Inr (Some p, t1) \<and> rt_malloc t1 n = Inr (Some p, t2)
    \<and> rt_live t2 p \<and> rt_free t2 (Some p) = Inr t3 \<and> owner t3 = owner t"
proof -
  from assms(2) have cur: "LastEmptyPageOffset t = 512 * c" by (simp add: RT_PAGES_TO_SIZE_mult)
  have le: "c + RT_SIZE_TO_PAGES n \<le> PageCount t" using assms(4) by (simp add: free_run_def)
  then have "free_run t c (RT_SIZE_TO_PAGES 0)" by (simp add: free_run_def RT_SIZE_TO_PAGES_div)
  from malloc_at_cursor [OF assms(1) cur this] obtain t1 where
    m1: "rt_malloc t 0 = Inr (Some (block_ptr t c), t1)" and e1: "alloc_effect t 0 c t1" .
  have inv1: "rt_inv t1" by (rule alloc_effect_inv [OF assms(1) e1])
  have own1: "owner t1 = owner t" and cur1: "LastEmptyPageOffset t1 = 512 * c"
    and same: "PageCount t1 = PageCount t" "DataAreaBase t1 = DataAreaBase t"
    using e1 by (auto simp: alloc_effect_def RT_SIZE_TO_PAGES_div fun_eq_iff)
  have "free_run t1 c (RT_SIZE_TO_PAGES n)" using assms(4) by (simp add: free_run_def own1 same)
  from malloc_at_cursor [OF inv1 cur1 this] obtain t2 where
    m2: "rt_malloc t1 n = Inr (Some (block_ptr t1 c), t2)" and e2: "alloc_effect t1 n c t2" .
  have p: "block_ptr t1 c = block_ptr t c" by (simp add: block_ptr_def same)
  from alloc_live [OF inv1 e2 assms(3)] have live: "rt_live t2 (block_ptr t c)" by (simp add: p)
  have inv2: "rt_inv t2" by (rule alloc_effect_inv [OF inv1 e2])
  have own2: "owner t2 = (\<lambda>i. if c \<le> i \<and> i < c + RT_SIZE_TO_PAGES n then Some (512 * c)
      else owner t i)" and p2: "block_ptr t2 c = block_ptr t c"
    using e2 unfolding alloc_effect_def own1 block_ptr_def same by simp_all
  have "0 < RT_SIZE_TO_PAGES n" using assms(3) by (simp add: RT_SIZE_TO_PAGES_pos)
  then have o2: "owner t2 c = Some (512 * c)" by (simp add: own2)
  from free_live_block [OF inv2 this] obtain t3 where
    f: "RuntimeFreeMem t2 (block_ptr t c) = Inr t3" and e3: "free_effect t2 (512 * c) t3"
    by (auto simp: p2)
  have "owner t i \<noteq> Some (512 * c)" for i
  proof
    assume i: "owner t i = Some (512 * c)"
    from assms(1) have "blocks_ok t" by (simp add: rt_inv_def)
    from blocks_okE [OF this i] have "owner t c = Some (512 * c)" by auto
    with assms(4) \<open>0 < RT_SIZE_TO_PAGES n\<close> show False by (simp add: free_run_def)
  qed
  then have "owner t3 = owner t"
    using e3 assms(4) by (auto simp: free_effect_def own2 fun_eq_iff free_run_def)
  with m1 m2 live f show ?thesis by (auto simp: p rt_free_def)
qed

theorem rt_malloc_zero_aliases_witness:
  "\<exists>p t1 t2. rt_malloc (rt_fresh 4) 0 = Inr (Some p, t1) \<and> rt_malloc t1 16 = Inr (Some p, t2)"
proof -
  have inv: "rt_inv (rt_fresh 4)" by (rule rt_inv_fresh) simp
  have cur: "LastEmptyPageOffset (rt_fresh 4) = RT_PAGES_TO_SIZE 0"
    by (simp add: rt_fresh_def RT_PAGES_TO_SIZE_mult)
  have "free_run (rt_fresh 4) 0 (RT_SIZE_TO_PAGES 16)"
    by (simp add: free_run_def owner_fresh RT_SIZE_TO_PAGES_div) (simp add: rt_fresh_def)
  from rt_malloc_zero_aliases [OF inv cur _ this] show ?thesis by auto
qed

text \<open>a table that is one free block again can be unable to serve a request for all of it:
  after \<^verbatim>\<open>malloc\<close> of every page and \<^verbatim>\<open>free\<close>, all pages are free, yet the same \<^verbatim>\<open>malloc\<close>
  returns NULL, because the second search stops one region short of the cursor.\<close>

theorem rt_full_block_lost:
  assumes "InitializeScratchMemory buf sz = Inr t" and "unat buf + sz \<le> 2 ^ 64"
    and n: "n = RT_PAGES_TO_SIZE (PageCount t)"
  shows "\<exists>p t1 t2. rt_malloc t n = Inr (Some p, t1) \<and> rt_free t1 (Some p) = Inr t2
    \<and> (\<forall>i. owner t2 i = None) \<and> rt_malloc t2 n = Inr (None, t2)"
proof -
  let ?N = "PageCount t"
  note ini = InitializeScratchMemory_inv [OF assms(1,2)]
  have pages: "RT_SIZE_TO_PAGES n = ?N" by (simp add: n RT_PAGES_TO_SIZE_mult)
  have "2 \<le> ?N" using init_page_count [OF assms(1)] by simp
  from ini have cur: "LastEmptyPageOffset t = 512 * 0"
    and run: "free_run t 0 (RT_SIZE_TO_PAGES n)" by (simp_all add: free_run_def pages)
  from malloc_at_cursor [OF ini(1) cur run] obtain t1 where
    m: "rt_malloc t n = Inr (Some (block_ptr t 0), t1)" and e1: "alloc_effect t n 0 t1" .
  have inv1: "rt_inv t1" by (rule alloc_effect_inv [OF ini(1) e1])
  have own1: "owner t1 = (\<lambda>i. if i < ?N then Some 0 else None)" and c1: "PageCount t1 = ?N"
    and b1: "block_ptr t1 0 = block_ptr t 0" and l1: "LastEmptyPageOffset t1 = 512 * ?N"
    using e1 by (auto simp: alloc_effect_def pages ini(2) block_ptr_def)
  have "owner t1 0 = Some (512 * 0)" using \<open>2 \<le> ?N\<close> by (simp add: own1)
  from free_live_block [OF inv1 this] obtain t2 where
    f: "RuntimeFreeMem t1 (block_ptr t 0) = Inr t2" and e2: "free_effect t1 (512 * 0) t2"
    by (auto simp: b1)
  have own2: "owner t2 i = None" for i using e2 by (simp add: free_effect_def own1)
  have c2: "PageCount t2 = ?N" "LastEmptyPageOffset t2 = 512 * ?N"
    using e2 by (simp_all add: free_effect_def same_frame_def c1 l1)
  have "lookup_from t2 ?N ?N = Inr None"
    using \<open>2 \<le> ?N\<close> by (simp add: lookup_from.simps [of t2 ?N ?N] c2)
  moreover have "lookup_below t2 ?N ?N 0 = Inr None"
    by (simp add: lookup_below.simps [of t2 ?N ?N 0])
  ultimately have "LookupFreeMemRegion t2 n = Inr None"
    by (simp add: LookupFreeMemRegion_def Let_def pages c2)
  then have "rt_malloc t2 n = Inr (None, t2)"
    by (simp add: rt_malloc_def RuntimeAllocateMem_def)
  with m f own2 show ?thesis by (auto simp: rt_free_def)
qed

theorem rt_full_block_lost_witness:
  "\<exists>t p t1 t2. InitializeScratchMemory 0x1000 1126400 = Inr t \<and> PageCount t = 2133
    \<and> rt_malloc t 1092096 = Inr (Some p, t1) \<and> rt_free t1 (Some p) = Inr t2
    \<and> rt_malloc t2 1092096 = Inr (None, t2)"
proof -
  have f: "unat (0x1000 :: ptr) + 1126400 \<le> 2 ^ 64" by simp
  obtain t where t: "InitializeScratchMemory 0x1000 1126400 = Inr t" and n: "PageCount t = 2133"
    by (simp add: InitializeScratchMemory_def Let_def)
  then have "1092096 = RT_PAGES_TO_SIZE (PageCount t)" by (simp add: RT_PAGES_TO_SIZE_mult)
  from rt_full_block_lost [OF t f this] t n show ?thesis by blast
qed

text \<open>five ordinary calls on a freshly initialised manager make the lookup run off the page
  table: with the tail of the table in use and the cursor inside a free gap that is too small,
  the \<^verbatim>\<open>while\<close> loop of the first search has no bound and reads \<^verbatim>\<open>Pages[PageCount]\<close>, which is
  client data.\<close>

theorem rt_lookup_overrun_reachable:
  assumes "InitializeScratchMemory buf sz = Inr t" and "unat buf + sz \<le> 2 ^ 64"
  shows "\<exists>p q r t1 t2 t3 t4. rt_malloc t 1024 = Inr (Some p, t1)
    \<and> rt_malloc t1 (RT_PAGES_TO_SIZE (PageCount t - 2)) = Inr (Some q, t2)
    \<and> rt_free t2 (Some p) = Inr t3 \<and> rt_malloc t3 1 = Inr (Some r, t4)
    \<and> rt_malloc t4 1024 = Inl OobRead"
proof -
  let ?N = "PageCount t"
  note ini = InitializeScratchMemory_inv [OF assms]
  have N: "3 \<le> ?N" using init_page_count [OF assms(1)] by simp
  then have N2: "2 + (?N - 2) = ?N" by simp
  have p2: "RT_SIZE_TO_PAGES 1024 = 2" "RT_SIZE_TO_PAGES 1 = 1"
    "RT_SIZE_TO_PAGES (Suc 0) = 1"
    "RT_SIZE_TO_PAGES (512 * (?N - 2)) = ?N - 2" by (simp_all add: RT_SIZE_TO_PAGES_div)
  from ini have cur: "LastEmptyPageOffset t = 512 * 0"
    and run: "free_run t 0 (RT_SIZE_TO_PAGES 1024)" using N by (simp_all add: free_run_def p2)
  from malloc_at_cursor [OF ini(1) cur run] obtain t1 where
    m1: "rt_malloc t 1024 = Inr (Some (block_ptr t 0), t1)" and e1: "alloc_effect t 1024 0 t1" .
  have inv1: "rt_inv t1" by (rule alloc_effect_inv [OF ini(1) e1])
  have own1: "owner t1 = (\<lambda>i. if i < 2 then Some 0 else None)" and c1: "PageCount t1 = ?N"
    and b1: "DataAreaBase t1 = DataAreaBase t" and l1: "LastEmptyPageOffset t1 = 512 * 2"
    using e1 by (auto simp: alloc_effect_def p2 ini(2))
  have "free_run t1 2 (RT_SIZE_TO_PAGES (512 * (?N - 2)))"
    using N by (simp add: free_run_def own1 c1 p2)
  from malloc_at_cursor [OF inv1 l1 this] obtain t2 where
    m2: "rt_malloc t1 (512 * (?N - 2)) = Inr (Some (block_ptr t1 2), t2)"
    and e2: "alloc_effect t1 (512 * (?N - 2)) 2 t2" .
  have inv2: "rt_inv t2" by (rule alloc_effect_inv [OF inv1 e2])
  have own2: "owner t2 = (\<lambda>i. if 2 \<le> i \<and> i < ?N then Some 1024 else if i < 2 then Some 0 else None)"
    and c2: "PageCount t2 = ?N" and b2: "block_ptr t2 0 = block_ptr t 0"
    and l2: "LastEmptyPageOffset t2 = 512 * ?N"
    using e2 unfolding alloc_effect_def p2 own1 c1 b1 block_ptr_def N2 by auto
  have "owner t2 0 = Some (512 * 0)" by (simp add: own2)
  from free_live_block [OF inv2 this] obtain t3 where
    f: "RuntimeFreeMem t2 (block_ptr t 0) = Inr t3" and e3: "free_effect t2 (512 * 0) t3"
    by (auto simp: b2)
  have inv3: "rt_inv t3" by (rule free_effect_inv [OF inv2 e3])
  have own3: "owner t3 = (\<lambda>i. if 2 \<le> i \<and> i < ?N then Some 1024 else None)"
    using e3 by (auto simp: free_effect_def own2)
  have c3: "PageCount t3 = ?N" and l3: "LastEmptyPageOffset t3 = 512 * ?N"
    using e3 by (simp_all add: free_effect_def same_frame_def c2 l2)
  have "\<not> ?N \<le> ?N - Suc 0" using N by linarith
  then have "lookup_from t3 1 ?N = Inr None"
    by (subst lookup_from.simps) (simp add: c3)
  then have lk: "LookupFreeMemRegion t3 1 = Inr (Some 0)"
    using N by (intro lookup_at_start [OF rt_inv_geometry [OF inv3] l3])
      (simp_all add: p2 free_run_def own3 c3)
  from RuntimeAllocateMem_total [OF rt_inv_geometry [OF inv3] lk] obtain r t4 where
    m4: "RuntimeAllocateMem t3 1 = Inr (Some r, t4)" by blast
  from rt_inv_geometry [OF inv3] m4 have e4: "alloc_effect t3 1 0 t4"
    by (cases rule: RuntimeAllocateMem_cases) (use lk in auto)
  have inv4: "rt_inv t4" by (rule alloc_effect_inv [OF inv3 e4])
  have own4: "owner t4 = (\<lambda>i. if i < 1 then Some 0 else if 2 \<le> i \<and> i < ?N then Some 1024 else None)"
    and c4: "PageCount t4 = ?N" and l4: "LastEmptyPageOffset t4 = 512 * 1"
    using e4 unfolding alloc_effect_def p2 own3 c3 by (auto simp: fun_eq_iff)
  have "LookupFreeMemRegion t4 1024 = Inl OobRead"
    using N by (intro lookup_overrun [OF rt_inv_geometry [OF inv4] l4, where k = 1])
      (auto simp: p2 c4 own4)
  then have "rt_malloc t4 1024 = Inl OobRead"
    by (simp add: rt_malloc_def RuntimeAllocateMem_def)
  with m1 m2 f m4 show ?thesis
    unfolding RT_PAGES_TO_SIZE_mult by (auto simp: rt_free_def rt_malloc_def)
qed

theorem rt_lookup_overrun_reachable_witness:
  "\<exists>t t4. InitializeScratchMemory 0x1000 1126400 = Inr t \<and> rt_malloc t4 1024 = Inl OobRead"
proof -
  have f: "unat (0x1000 :: ptr) + 1126400 \<le> 2 ^ 64" by simp
  obtain t where t: "InitializeScratchMemory 0x1000 1126400 = Inr t"
    by (simp add: InitializeScratchMemory_def Let_def)
  from rt_lookup_overrun_reachable [OF t f] t show ?thesis by blast
qed

end
