(* ===== verification/ProviderMsg.thy ===== *)
theory ProviderMsg
  imports Prelude
begin

text \<open>
  The message that the DXE loader and the StandaloneMM image provider exchange
  (\<^verbatim>\<open>Include/Private/OneCryptoImageProviderMessage.h\<close>), and the GUIDs both sides compare
  (\<^verbatim>\<open>Include/Guid\<close>).
\<close>

section \<open>GUIDs\<close>

record EFI_GUID =
  Data1 :: UINT32
  Data2 :: UINT16
  Data3 :: UINT16
  Data4 :: "byte list"

definition zero_guid :: EFI_GUID where
  "zero_guid = \<lparr>Data1 = 0, Data2 = 0, Data3 = 0, Data4 = replicate 8 0\<rparr>"

definition ONE_CRYPTO_BINARY_GUID :: EFI_GUID where
  "ONE_CRYPTO_BINARY_GUID = \<lparr>Data1 = 0x76ABA88D, Data2 = 0x9D16, Data3 = 0x49A2,
     Data4 = [0xAA, 0x3A, 0xDB, 0x61, 0x12, 0xFA, 0xC5, 0xCC]\<rparr>"

definition ONE_CRYPTO_CONTAINER_FV_GUID :: EFI_GUID where
  "ONE_CRYPTO_CONTAINER_FV_GUID = \<lparr>Data1 = 0x1DC82EA3, Data2 = 0xD1E9, Data3 = 0x4C10,
     Data4 = [0xA7, 0x88, 0x33, 0x5D, 0x16, 0x6E, 0x23, 0xA1]\<rparr>"

definition ONE_CRYPTO_IMAGE_PROVIDER_GUID :: EFI_GUID where
  "ONE_CRYPTO_IMAGE_PROVIDER_GUID = \<lparr>Data1 = 0x5B9B9A72, Data2 = 0xA4DF, Data3 = 0x4D57,
     Data4 = [0xA1, 0xD3, 0x3A, 0x88, 0xEF, 0xB2, 0x5B, 0x9E]\<rparr>"

section \<open>The message\<close>

definition ONE_CRYPTO_IMAGE_PROVIDER_VERSION :: UINT32 where
  "ONE_CRYPTO_IMAGE_PROVIDER_VERSION = 1"

text \<open>\<^verbatim>\<open>SIGNATURE_32 ('O', 'C', 'I', 'P')\<close>: the first character is the lowest byte.\<close>

definition SIGNATURE_32 :: "UINT32 \<Rightarrow> UINT32 \<Rightarrow> UINT32 \<Rightarrow> UINT32 \<Rightarrow> UINT32" where
  "SIGNATURE_32 a b c d = (a OR push_bit 8 b) OR push_bit 16 (c OR push_bit 8 d)"

definition ONE_CRYPTO_IMAGE_PROVIDER_SIGNATURE :: UINT32 where
  "ONE_CRYPTO_IMAGE_PROVIDER_SIGNATURE = SIGNATURE_32 0x4F 0x43 0x49 0x50"

definition ONE_CRYPTO_IMAGE_FORMAT_PE32 :: UINT32 where
  "ONE_CRYPTO_IMAGE_FORMAT_PE32 = 0"

definition ONE_CRYPTO_IMAGE_FORMAT_GUIDED_FV :: UINT32 where
  "ONE_CRYPTO_IMAGE_FORMAT_GUIDED_FV = 1"

record provider_msg =
  msg_Signature :: UINT32
  msg_Version :: UINT32
  msg_Offset :: UINT64
  msg_RequestedSize :: UINT32
  msg_ReturnedSize :: UINT32
  msg_TotalImageSize :: UINT32
  msg_Format :: UINT32
  msg_Crc32 :: UINT32
  msg_Reserved :: UINT32
  msg_Status :: UINT64
  msg_ImageGuid :: EFI_GUID
  msg_Data :: "byte list"

text \<open>
  \<^verbatim>\<open>OFFSET_OF (ONE_CRYPTO_IMAGE_PROVIDER_MSG, Data)\<close>: two \<^verbatim>\<open>UINT32\<close>, a \<^verbatim>\<open>UINT64\<close>, six
  \<^verbatim>\<open>UINT32\<close>, a \<^verbatim>\<open>UINT64\<close> and the 16 bytes of the GUID.
\<close>

definition MsgHeaderSize :: nat where
  "MsgHeaderSize = 2 * 4 + 8 + 6 * 4 + 8 + 16"

definition MAX_UINT32 :: nat where
  "MAX_UINT32 = 0xFFFFFFFF"

definition zero_msg :: "byte list \<Rightarrow> provider_msg" where
  "zero_msg data = \<lparr>msg_Signature = 0, msg_Version = 0, msg_Offset = 0, msg_RequestedSize = 0,
     msg_ReturnedSize = 0, msg_TotalImageSize = 0, msg_Format = 0, msg_Crc32 = 0,
     msg_Reserved = 0, msg_Status = 0, msg_ImageGuid = zero_guid, msg_Data = data\<rparr>"

lemma MsgHeaderSize_eq [simp]: "MsgHeaderSize = 64"
  by (simp add: MsgHeaderSize_def)

lemma signature_bytes: "ONE_CRYPTO_IMAGE_PROVIDER_SIGNATURE = 0x5049434F"
  by (simp add: ONE_CRYPTO_IMAGE_PROVIDER_SIGNATURE_def SIGNATURE_32_def)

end
