(* ===== verification/ImageProvider.thy ===== *)
theory ImageProvider
  imports ProviderMsg
begin

text \<open>
  \<^verbatim>\<open>OneCryptoLoaders/OneCryptoImageProviderMm.c\<close>: the StandaloneMM driver that finds the
  OneCrypto image in the MM firmware volumes and serves its bytes over MM communication.

  \<^item> \<open>provider_globals\<close> is the module's static state. A located image is the pair of the
    pointer and the size in C; here the pointer is its bytes (\<open>None\<close> is NULL).
  \<^item> \<open>mm_env\<close> holds the functions of FvLib, HobLib, BaseLib and StandaloneMmMemLib that the
    driver calls. An \<^verbatim>\<open>EFI_ERROR\<close> of \<^verbatim>\<open>FfsFindNextFile\<close> is \<open>None\<close>; HOB and file pointers
    are addresses, 0 is NULL.
  \<^item> The two loops end only if the firmware volume and the HOB list do, so the functions
    return options: \<open>None\<close> is a loop that does not end.
  \<^item> \<open>dbg\<close> says whether \<^verbatim>\<open>ASSERT\<close> is compiled in; without it the handler quiesces.
\<close>

section \<open>State and environment\<close>

record guid_section =
  sec_Size :: nat                    \<comment> \<open>the 24-bit size field\<close>
  sec_ExtendedSize :: UINT32         \<comment> \<open>used when the size field is 0xFFFFFF\<close>
  sec_DataOffset :: UINT16
  sec_Bytes :: "nat \<Rightarrow> byte list"    \<comment> \<open>that many bytes from the start of the section\<close>

record provider_globals =
  mOneCryptoImageData :: "byte list option"
  mOneCryptoImageSize :: nat
  mOneCryptoImageFormat :: UINT32
  mOneCryptoImageCrc32 :: UINT32
  mDispatchHandle :: "nat option"

definition initial_globals :: provider_globals where
  "initial_globals = \<lparr>mOneCryptoImageData = None, mOneCryptoImageSize = 0,
     mOneCryptoImageFormat = ONE_CRYPTO_IMAGE_FORMAT_PE32, mOneCryptoImageCrc32 = 0,
     mDispatchHandle = None\<rparr>"

datatype hob_type = HOB_FV | HOB_FV2 | HOB_FV3

record mm_env =
  FfsFindNextFile :: "ptr \<Rightarrow> ptr \<Rightarrow> ptr option"
  FileName :: "ptr \<Rightarrow> EFI_GUID"
  FfsFindPe32Data :: "ptr \<Rightarrow> efi_status \<times> byte list option"
  FfsFindGuidedSection :: "ptr \<Rightarrow> efi_status \<times> guid_section"
  GetHobList :: ptr
  GetNextHob :: "hob_type \<Rightarrow> ptr \<Rightarrow> ptr"
  GET_NEXT_HOB :: "ptr \<Rightarrow> ptr"
  HobLength :: "ptr \<Rightarrow> UINT64"
  HobBaseAddress :: "ptr \<Rightarrow> ptr"
  CalculateCrc32 :: "byte list \<Rightarrow> UINT32"
  MmCommBufferValid :: "ptr \<Rightarrow> nat \<Rightarrow> bool"

section \<open>ScanFvForOneCrypto\<close>

definition IS_SECTION2 :: "guid_section \<Rightarrow> bool" where
  "IS_SECTION2 s \<longleftrightarrow> sec_Size s = 0xFFFFFF"

definition SECTION2_SIZE :: "guid_section \<Rightarrow> nat" where
  "SECTION2_SIZE s = unat (sec_ExtendedSize s)"

definition SECTION_SIZE :: "guid_section \<Rightarrow> nat" where
  "SECTION_SIZE s = sec_Size s"

text \<open>The direct PE32 image of a file, when it is the OneCrypto file and has one.\<close>

definition direct_pe32 :: "mm_env \<Rightarrow> ptr \<Rightarrow> byte list option" where
  "direct_pe32 E FileHeader =
    (if FileName E FileHeader = ONE_CRYPTO_BINARY_GUID then
       (case FfsFindPe32Data E FileHeader of
          (Status, Some SectionData) \<Rightarrow>
            if \<not> EFI_ERROR Status \<and> length SectionData \<noteq> 0 then Some SectionData else None
        | (Status, None) \<Rightarrow> None)
     else None)"

definition container_section :: "mm_env \<Rightarrow> ptr \<Rightarrow> guid_section option" where
  "container_section E FileHeader =
    (if FileName E FileHeader = ONE_CRYPTO_CONTAINER_FV_GUID then
       (case FfsFindGuidedSection E FileHeader of
          (Status, Section) \<Rightarrow> if \<not> EFI_ERROR Status then Some Section else None)
     else None)"

text \<open>
  The \<^verbatim>\<open>while (TRUE)\<close> loop over the files: \<open>Inl\<close> the direct PE32 that makes the function
  return from inside the loop, or \<open>Inr\<close> the container section when the files are exhausted.
\<close>

partial_function (option) scan_files ::
    "mm_env \<Rightarrow> ptr \<Rightarrow> ptr \<Rightarrow> guid_section option \<Rightarrow> (byte list + guid_section option) option" where
  "scan_files E FvHeader FileHeader ContainerSection =
    (case FfsFindNextFile E FvHeader FileHeader of
       None \<Rightarrow> Some (Inr ContainerSection)
     | Some f \<Rightarrow>
         (case direct_pe32 E f of
            Some SectionData \<Rightarrow> Some (Inl SectionData)
          | None \<Rightarrow>
              scan_files E FvHeader f
                (if ContainerSection = None then container_section E f else ContainerSection)))"

definition container_usable :: "guid_section \<Rightarrow> nat option" where
  "container_usable s =
    (let DataOffset = unat (sec_DataOffset s);
         SectionSize = (if IS_SECTION2 s then SECTION2_SIZE s else SECTION_SIZE s)
     in if DataOffset < SectionSize \<and> SectionSize > 4 then Some SectionSize else None)"

definition ScanFvForOneCrypto ::
    "mm_env \<Rightarrow> provider_globals \<Rightarrow> ptr \<Rightarrow> (efi_status \<times> provider_globals) option" where
  "ScanFvForOneCrypto E g FvHeader =
    (if FvHeader = 0 then Some (EFI_INVALID_PARAMETER, g)
     else (case scan_files E FvHeader 0 None of
             None \<Rightarrow> None
           | Some (Inl SectionData) \<Rightarrow>
               Some (EFI_SUCCESS, g\<lparr>mOneCryptoImageData := Some SectionData,
                                    mOneCryptoImageSize := length SectionData,
                                    mOneCryptoImageFormat := ONE_CRYPTO_IMAGE_FORMAT_PE32\<rparr>)
           | Some (Inr None) \<Rightarrow> Some (EFI_NOT_FOUND, g)
           | Some (Inr (Some ContainerSection)) \<Rightarrow>
               (case container_usable ContainerSection of
                  Some SectionSize \<Rightarrow>
                    Some (EFI_SUCCESS,
                          g\<lparr>mOneCryptoImageData := Some (sec_Bytes ContainerSection SectionSize),
                            mOneCryptoImageSize := SectionSize,
                            mOneCryptoImageFormat := ONE_CRYPTO_IMAGE_FORMAT_GUIDED_FV\<rparr>)
                | None \<Rightarrow> Some (EFI_NOT_FOUND, g))))"

section \<open>LocateOneCryptoImage\<close>

text \<open>One of the three loops over the HOB list: the flag says whether it returned.\<close>

partial_function (option) scan_hobs ::
    "mm_env \<Rightarrow> hob_type \<Rightarrow> provider_globals \<Rightarrow> ptr \<Rightarrow> (bool \<times> provider_globals) option" where
  "scan_hobs E ty g Hob =
    (if Hob = 0 then Some (False, g)
     else if HobLength E Hob = 0 then
       scan_hobs E ty g (GetNextHob E ty (GET_NEXT_HOB E Hob))
     else Option.bind (ScanFvForOneCrypto E g (HobBaseAddress E Hob)) (\<lambda>(Status, g).
       if \<not> EFI_ERROR Status then Some (True, g)
       else scan_hobs E ty g (GetNextHob E ty (GET_NEXT_HOB E Hob))))"

definition LocateOneCryptoImage ::
    "mm_env \<Rightarrow> provider_globals \<Rightarrow> (efi_status \<times> provider_globals) option" where
  "LocateOneCryptoImage E g =
    (if mOneCryptoImageData g \<noteq> None \<and> mOneCryptoImageSize g \<noteq> 0 then Some (EFI_SUCCESS, g)
     else Option.bind (scan_hobs E HOB_FV3 g (GetNextHob E HOB_FV3 (GetHobList E))) (\<lambda>(found, g).
       if found then Some (EFI_SUCCESS, g)
       else Option.bind (scan_hobs E HOB_FV g (GetNextHob E HOB_FV (GetHobList E))) (\<lambda>(found, g).
         if found then Some (EFI_SUCCESS, g)
         else Option.bind (scan_hobs E HOB_FV2 g (GetNextHob E HOB_FV2 (GetHobList E)))
           (\<lambda>(found, g). if found then Some (EFI_SUCCESS, g) else Some (EFI_NOT_FOUND, g)))))"

section \<open>OneCryptoImageProviderHandler\<close>

text \<open>
  The reply of the handler: the status it returns, the module state, the message in the
  buffer and \<^verbatim>\<open>*CommBufferSize\<close>.
\<close>

type_synonym reply = "efi_status \<times> provider_globals \<times> provider_msg \<times> nat option"

definition quiesce ::
    "bool \<Rightarrow> provider_globals \<Rightarrow> provider_msg \<Rightarrow> nat option \<Rightarrow> reply res option" where
  "quiesce dbg g Msg CommBufferSize =
    Some (if dbg then Inl AssertFailed else Inr (EFI_SUCCESS, g, Msg, CommBufferSize))"

text \<open>The two clamps of \<^verbatim>\<open>CopySize\<close>.\<close>

definition clamp_copy :: "nat \<Rightarrow> nat \<Rightarrow> nat \<Rightarrow> nat" where
  "clamp_copy CopySize MaxPayload Remaining =
    (let CopySize = (if CopySize > MaxPayload then MaxPayload else CopySize)
     in if CopySize > Remaining then Remaining else CopySize)"

text \<open>
  The last part of the handler, from the size query on: \<open>Msg\<close> already carries the identity of
  the image, and the image is \<open>img\<close>.
\<close>

definition serve_chunk ::
    "provider_globals \<Rightarrow> byte list \<Rightarrow> provider_msg \<Rightarrow> nat \<Rightarrow> UINT64 \<Rightarrow> UINT32 \<Rightarrow> reply res" where
  "serve_chunk g img Msg InputBufferSize LocalOffset LocalRequestedSize =
    (if LocalRequestedSize = 0 then
       Inr (EFI_SUCCESS, g, Msg\<lparr>msg_Status := EFI_SUCCESS\<rparr>, Some MsgHeaderSize)
     else if unat LocalOffset > mOneCryptoImageSize g then
       Inr (EFI_SUCCESS, g, Msg\<lparr>msg_Status := EFI_INVALID_PARAMETER\<rparr>, Some MsgHeaderSize)
     else
       let MaxPayload = InputBufferSize - MsgHeaderSize;
           Remaining = mOneCryptoImageSize g - unat LocalOffset;
           CopySize = clamp_copy (unat LocalRequestedSize) MaxPayload Remaining
       in if CopySize > 0 \<and> unat LocalOffset + CopySize > length img then Inl OobRead
          else if CopySize > 0 \<and> CopySize > length (msg_Data Msg) then Inl OobWrite
          else Inr (EFI_SUCCESS, g,
                 Msg\<lparr>msg_Data := (if CopySize > 0
                       then copy_at 0 (seg (unat LocalOffset) CopySize img) (msg_Data Msg)
                       else msg_Data Msg),
                     msg_ReturnedSize := of_nat CopySize,
                     msg_Status := EFI_SUCCESS\<rparr>,
                 Some (MsgHeaderSize + CopySize)))"

definition OneCryptoImageProviderHandler ::
    "bool \<Rightarrow> mm_env \<Rightarrow> provider_globals \<Rightarrow> ptr \<Rightarrow> provider_msg \<Rightarrow> nat option \<Rightarrow> reply res option" where
  "OneCryptoImageProviderHandler dbg E g CommBuffer Msg CommBufferSize =
    (case CommBufferSize of
       None \<Rightarrow> quiesce dbg g Msg CommBufferSize
     | Some InputBufferSize \<Rightarrow>
         if CommBuffer = 0 then quiesce dbg g Msg CommBufferSize
         else if InputBufferSize < MsgHeaderSize then quiesce dbg g Msg CommBufferSize
         else if InputBufferSize - MsgHeaderSize > MAX_UINT32 then quiesce dbg g Msg CommBufferSize
         else if \<not> MmCommBufferValid E CommBuffer InputBufferSize
         then quiesce dbg g Msg CommBufferSize
         else
           let Msg = Msg\<lparr>msg_ImageGuid := zero_guid, msg_TotalImageSize := 0,
                         msg_ReturnedSize := 0, msg_Status := EFI_SUCCESS\<rparr>;
               LocalSignature = msg_Signature Msg;
               LocalVersion = msg_Version Msg;
               LocalOffset = msg_Offset Msg;
               LocalRequestedSize = msg_RequestedSize Msg
           in if LocalSignature \<noteq> ONE_CRYPTO_IMAGE_PROVIDER_SIGNATURE
                 \<or> LocalVersion \<noteq> ONE_CRYPTO_IMAGE_PROVIDER_VERSION
              then Some (Inr (EFI_SUCCESS, g, Msg\<lparr>msg_Status := EFI_INVALID_PARAMETER\<rparr>,
                              Some MsgHeaderSize))
              else Option.bind (LocateOneCryptoImage E g) (\<lambda>(Status, g).
                if EFI_ERROR Status then
                  Some (Inr (EFI_SUCCESS, g, Msg\<lparr>msg_Status := Status\<rparr>, Some MsgHeaderSize))
                else if mOneCryptoImageSize g > MAX_UINT32 then
                  Some (Inr (EFI_SUCCESS, g, Msg\<lparr>msg_Status := EFI_UNSUPPORTED\<rparr>,
                             Some MsgHeaderSize))
                else
                  (case mOneCryptoImageData g of
                     None \<Rightarrow> Some (Inl NullDeref)
                   | Some img \<Rightarrow>
                       let g = (if mOneCryptoImageCrc32 g = 0
                                then g\<lparr>mOneCryptoImageCrc32 := CalculateCrc32 E
                                         (take (mOneCryptoImageSize g) img)\<rparr>
                                else g);
                           Msg = Msg\<lparr>msg_ImageGuid := ONE_CRYPTO_BINARY_GUID,
                                     msg_TotalImageSize := of_nat (mOneCryptoImageSize g),
                                     msg_Format := mOneCryptoImageFormat g,
                                     msg_Crc32 := mOneCryptoImageCrc32 g,
                                     msg_ReturnedSize := 0\<rparr>
                       in Some (serve_chunk g img Msg InputBufferSize
                                  LocalOffset LocalRequestedSize))))"

section \<open>OneCryptoImageProviderReadyToLock and MmEntry\<close>

text \<open>
  The MM core is outside the repository. \<open>mm_core\<close> keeps what the driver's calls do to it:
  the handles on which the handler is registered and whether the ReadyToLock callback is.
  The results of the registration services are parameters of the entry point.
\<close>

record mm_core =
  core_handlers :: "nat set"
  core_notify :: bool

definition OneCryptoImageProviderReadyToLock ::
    "provider_globals \<Rightarrow> mm_core \<Rightarrow> efi_status \<times> provider_globals \<times> mm_core" where
  "OneCryptoImageProviderReadyToLock g core =
    (case mDispatchHandle g of
       None \<Rightarrow> (EFI_SUCCESS, g, core)
     | Some h \<Rightarrow>
         (EFI_SUCCESS, g\<lparr>mDispatchHandle := None\<rparr>,
          core\<lparr>core_handlers := core_handlers core - {h}\<rparr>))"

definition MmEntry ::
    "efi_status \<Rightarrow> nat \<Rightarrow> efi_status \<Rightarrow> provider_globals \<Rightarrow> mm_core
     \<Rightarrow> efi_status \<times> provider_globals \<times> mm_core" where
  "MmEntry RegisterStatus Handle NotifyStatus g core =
    (if EFI_ERROR RegisterStatus then (RegisterStatus, g, core)
     else
       let core = core\<lparr>core_handlers := insert Handle (core_handlers core)\<rparr>;
           g = g\<lparr>mDispatchHandle := Some Handle\<rparr>;
           core = (if EFI_ERROR NotifyStatus then core else core\<lparr>core_notify := True\<rparr>)
       in (EFI_SUCCESS, g, core))"

end
