(* ===== verification/ImageLocate.thy ===== *)
theory ImageLocate
  imports ImageProvider
begin

text \<open>
  The search of the image provider against its specification. A firmware volume is specified
  by the list of its files and the HOB list by the list of its HOBs of each kind; the search
  ends and returns the first image in the documented order of preference.
\<close>

section \<open>What the firmware interfaces enumerate\<close>

fun ffs_chain :: "mm_env \<Rightarrow> ptr \<Rightarrow> ptr \<Rightarrow> ptr list \<Rightarrow> bool" where
  "ffs_chain E fv f [] \<longleftrightarrow> FfsFindNextFile E fv f = None"
| "ffs_chain E fv f (x # xs) \<longleftrightarrow> FfsFindNextFile E fv f = Some x \<and> ffs_chain E fv x xs"

fun hob_chain :: "mm_env \<Rightarrow> hob_type \<Rightarrow> ptr \<Rightarrow> ptr list \<Rightarrow> bool" where
  "hob_chain E ty h [] \<longleftrightarrow> h = 0"
| "hob_chain E ty h (x # xs) \<longleftrightarrow>
    h = x \<and> x \<noteq> 0 \<and> hob_chain E ty (GetNextHob E ty (GET_NEXT_HOB E x)) xs"

definition sections_ok :: "mm_env \<Rightarrow> bool" where
  "sections_ok E \<longleftrightarrow> (\<forall>f n. length (sec_Bytes (snd (FfsFindGuidedSection E f)) n) = n)"

definition firmware_ok ::
    "mm_env \<Rightarrow> (ptr \<Rightarrow> ptr list) \<Rightarrow> (hob_type \<Rightarrow> ptr list) \<Rightarrow> bool" where
  "firmware_ok E files hobs \<longleftrightarrow>
    (\<forall>fv. ffs_chain E fv 0 (files fv)) \<and>
    (\<forall>ty. hob_chain E ty (GetNextHob E ty (GetHobList E)) (hobs ty)) \<and> sections_ok E"

section \<open>The specification of the search\<close>

definition fv_image :: "mm_env \<Rightarrow> ptr list \<Rightarrow> (byte list \<times> UINT32) option" where
  "fv_image E fs =
    (case first_some (direct_pe32 E) fs of
       Some d \<Rightarrow> Some (d, ONE_CRYPTO_IMAGE_FORMAT_PE32)
     | None \<Rightarrow>
         (case first_some (container_section E) fs of
            None \<Rightarrow> None
          | Some s \<Rightarrow> map_option (\<lambda>n. (sec_Bytes s n, ONE_CRYPTO_IMAGE_FORMAT_GUIDED_FV))
                        (container_usable s)))"

definition hob_image :: "mm_env \<Rightarrow> (ptr \<Rightarrow> ptr list) \<Rightarrow> ptr \<Rightarrow> (byte list \<times> UINT32) option" where
  "hob_image E files h =
    (if HobLength E h = 0 \<or> HobBaseAddress E h = 0 then None
     else fv_image E (files (HobBaseAddress E h)))"

definition firmware_image ::
    "mm_env \<Rightarrow> (ptr \<Rightarrow> ptr list) \<Rightarrow> (hob_type \<Rightarrow> ptr list) \<Rightarrow> (byte list \<times> UINT32) option" where
  "firmware_image E files hobs =
    first_some (hob_image E files) (hobs HOB_FV3 @ hobs HOB_FV @ hobs HOB_FV2)"

definition store_image :: "provider_globals \<Rightarrow> byte list \<times> UINT32 \<Rightarrow> provider_globals" where
  "store_image g i = g\<lparr>mOneCryptoImageData := Some (fst i),
     mOneCryptoImageSize := length (fst i), mOneCryptoImageFormat := snd i\<rparr>"

section \<open>The search of one firmware volume\<close>

lemma scan_files_spec:
  "ffs_chain E fv f fs \<Longrightarrow> scan_files E fv f cs =
    Some (case first_some (direct_pe32 E) fs of
            Some d \<Rightarrow> Inl d
          | None \<Rightarrow> Inr (case cs of Some s \<Rightarrow> Some s | None \<Rightarrow> first_some (container_section E) fs))"
proof (induction fs arbitrary: f cs)
  case Nil
  then show ?case by (subst scan_files.simps) (simp split: option.splits)
next
  case (Cons x xs)
  then show ?case
    by (subst scan_files.simps) (auto split: option.splits)
qed

lemma container_section_bytes:
  assumes "sections_ok E" and "first_some (container_section E) fs = Some s"
  shows "length (sec_Bytes s n) = n"
proof -
  from first_some_SomeD [OF assms(2)] obtain f where "container_section E f = Some s" by blast
  then have "s = snd (FfsFindGuidedSection E f)"
    by (auto simp: container_section_def split: if_splits prod.splits)
  with assms(1) show ?thesis by (simp add: sections_ok_def)
qed

lemma ScanFv_spec:
  assumes "ffs_chain E fv 0 fs" and "fv \<noteq> 0" and ok: "sections_ok E"
  shows "ScanFvForOneCrypto E g fv =
    Some (case fv_image E fs of
            Some i \<Rightarrow> (EFI_SUCCESS, store_image g i)
          | None \<Rightarrow> (EFI_NOT_FOUND, g))"
proof (cases "first_some (direct_pe32 E) fs")
  case None
  show ?thesis
  proof (cases "first_some (container_section E) fs")
    case (Some s)
    with None assms(2) container_section_bytes [OF ok Some] show ?thesis
      by (auto simp: ScanFvForOneCrypto_def scan_files_spec [OF assms(1)] fv_image_def
          store_image_def split: option.splits)
  qed (use None assms(2) in \<open>simp add: ScanFvForOneCrypto_def scan_files_spec [OF assms(1)]
         fv_image_def\<close>)
qed (use assms(2) in \<open>simp add: ScanFvForOneCrypto_def scan_files_spec [OF assms(1)]
       fv_image_def store_image_def\<close>)

section \<open>The search of the HOB list\<close>

lemma scan_hobs_spec:
  assumes files: "\<And>fv. ffs_chain E fv 0 (files fv)" and ok: "sections_ok E"
  shows "hob_chain E ty h hs \<Longrightarrow> scan_hobs E ty g h =
    Some (case first_some (hob_image E files) hs of
            Some i \<Rightarrow> (True, store_image g i)
          | None \<Rightarrow> (False, g))"
proof (induction hs arbitrary: h)
  case Nil
  then show ?case by (subst scan_hobs.simps) simp
next
  case (Cons x xs)
  then have h: "h = x" "x \<noteq> 0"
    and IH: "scan_hobs E ty g (GetNextHob E ty (GET_NEXT_HOB E x)) =
      Some (case first_some (hob_image E files) xs of
              Some i \<Rightarrow> (True, store_image g i) | None \<Rightarrow> (False, g))"
    by auto
  show ?case
  proof (cases "HobLength E x = 0 \<or> HobBaseAddress E x = 0")
    case True
    then show ?thesis
      by (subst scan_hobs.simps) (auto simp: h IH hob_image_def ScanFvForOneCrypto_def)
  next
    case False
    with ScanFv_spec [OF files [of "HobBaseAddress E x"] _ ok] show ?thesis
      by (subst scan_hobs.simps) (auto simp: h IH hob_image_def split: option.splits)
  qed
qed

lemma Locate_spec:
  assumes "firmware_ok E files hobs"
    and "mOneCryptoImageData g = None \<or> mOneCryptoImageSize g = 0"
  shows "LocateOneCryptoImage E g =
    Some (case firmware_image E files hobs of
            Some i \<Rightarrow> (EFI_SUCCESS, store_image g i)
          | None \<Rightarrow> (EFI_NOT_FOUND, g))"
proof -
  have scan: "scan_hobs E ty g (GetNextHob E ty (GetHobList E)) =
      Some (case first_some (hob_image E files) (hobs ty) of
              Some i \<Rightarrow> (True, store_image g i) | None \<Rightarrow> (False, g))" for ty g
    using assms(1) by (intro scan_hobs_spec) (auto simp: firmware_ok_def)
  show ?thesis
    using assms(2)
    by (auto simp: LocateOneCryptoImage_def scan firmware_image_def first_some_append
        split: option.splits)
qed

section \<open>The module state\<close>

text \<open>
  The image cache: no image, or a non-empty one whose size and checksum match its bytes.
\<close>

definition globals_ok :: "mm_env \<Rightarrow> provider_globals \<Rightarrow> bool" where
  "globals_ok E g \<longleftrightarrow>
    (case mOneCryptoImageData g of
       None \<Rightarrow> mOneCryptoImageSize g = 0 \<and> mOneCryptoImageCrc32 g = 0
     | Some d \<Rightarrow> d \<noteq> [] \<and> mOneCryptoImageSize g = length d
         \<and> (mOneCryptoImageCrc32 g = 0 \<or> mOneCryptoImageCrc32 g = CalculateCrc32 E d))"

lemma initial_globals_ok [simp]: "globals_ok E initial_globals"
  by (simp add: globals_ok_def initial_globals_def)

lemma direct_pe32_nonempty: "direct_pe32 E f = Some d \<Longrightarrow> d \<noteq> []"
  by (auto simp: direct_pe32_def split: if_splits prod.splits option.splits)

lemma container_usable_pos: "container_usable s = Some n \<Longrightarrow> 4 < n"
  by (auto simp: container_usable_def Let_def split: if_splits)

lemma hob_image_nonempty:
  assumes "sections_ok E" and "hob_image E files h = Some i"
  shows "fst i \<noteq> []"
proof -
  from assms(2) have i: "fv_image E (files (HobBaseAddress E h)) = Some i"
    by (simp add: hob_image_def split: if_splits)
  show ?thesis
  proof (cases "first_some (direct_pe32 E) (files (HobBaseAddress E h))")
    case (Some d)
    from first_some_SomeD [OF this] have "d \<noteq> []" by (auto dest: direct_pe32_nonempty)
    with i Some show ?thesis by (auto simp: fv_image_def)
  next
    case None
    with i obtain s n where s: "first_some (container_section E) (files (HobBaseAddress E h)) = Some s"
      and n: "container_usable s = Some n" "fst i = sec_Bytes s n"
      by (auto simp: fv_image_def split: option.splits)
    have "length (fst i) = n" using container_section_bytes [OF assms(1) s] n by simp
    with container_usable_pos [OF n(1)] show ?thesis by auto
  qed
qed

lemma firmware_image_nonempty:
  "sections_ok E \<Longrightarrow> firmware_image E files hobs = Some i \<Longrightarrow> fst i \<noteq> []"
  unfolding firmware_image_def by (blast dest: first_some_SomeD hob_image_nonempty)

lemma Locate_ok:
  assumes "firmware_ok E files hobs" and "globals_ok E g"
  obtains g' st where "LocateOneCryptoImage E g = Some (st, g')" and "globals_ok E g'"
    and "mDispatchHandle g' = mDispatchHandle g"
    and "EFI_ERROR st \<longleftrightarrow> mOneCryptoImageData g' = None"
    and "mOneCryptoImageData g \<noteq> None \<Longrightarrow> g' = g"
    and "EFI_ERROR st \<Longrightarrow> st = EFI_NOT_FOUND"
proof (cases "mOneCryptoImageData g")
  case None
  then have "LocateOneCryptoImage E g =
      Some (case firmware_image E files hobs of
            Some i \<Rightarrow> (EFI_SUCCESS, store_image g i) | None \<Rightarrow> (EFI_NOT_FOUND, g))"
    by (intro Locate_spec [OF assms(1)]) simp
  moreover have "fst i \<noteq> []" if "firmware_image E files hobs = Some i" for i
    using firmware_image_nonempty [OF _ that] assms(1) by (simp add: firmware_ok_def)
  ultimately show thesis
    using None assms(2)
    by (cases "firmware_image E files hobs")
       (auto intro!: that simp: globals_ok_def store_image_def)
next
  case (Some d)
  with assms(2) have "LocateOneCryptoImage E g = Some (EFI_SUCCESS, g)"
    by (auto simp: LocateOneCryptoImage_def globals_ok_def)
  from that [OF this assms(2)] Some show thesis by simp
qed

end
