(* ===== verification/ImageServe.thy ===== *)
theory ImageServe
  imports ImageLocate
begin

text \<open>
  The MM communication handler of the image provider: the reply to a valid request, safety for
  every request, and the life cycle of the registration as a machine with an invariant.
\<close>

section \<open>Serving one chunk\<close>

definition chunk_len :: "byte list \<Rightarrow> nat \<Rightarrow> UINT64 \<Rightarrow> UINT32 \<Rightarrow> nat" where
  "chunk_len img payload off req =
    (if unat off > length img then 0
     else min (min (unat req) payload) (length img - unat off))"

lemma chunk_len_le:
  "chunk_len img payload off req \<le> payload" "chunk_len img payload off req \<le> unat req"
  "chunk_len img payload off req \<le> length img"
  by (auto simp: chunk_len_def)

lemma chunk_len_fits:
  "unat off \<le> length img \<Longrightarrow> unat off + chunk_len img payload off req \<le> length img"
  by (auto simp: chunk_len_def)

lemma serve_chunk_eq:
  assumes "mOneCryptoImageSize g = length img" and "length (msg_Data m) = n - MsgHeaderSize"
    and "msg_ReturnedSize m = 0"
  shows "serve_chunk g img m n off req = Inr (EFI_SUCCESS, g,
    m\<lparr>msg_Status := (if req \<noteq> 0 \<and> unat off > length img then EFI_INVALID_PARAMETER else EFI_SUCCESS),
      msg_ReturnedSize := of_nat (chunk_len img (n - MsgHeaderSize) off req),
      msg_Data := copy_at 0 (seg (unat off) (chunk_len img (n - MsgHeaderSize) off req) img)
                    (msg_Data m)\<rparr>,
    Some (MsgHeaderSize + chunk_len img (n - MsgHeaderSize) off req))"
proof (cases "req \<noteq> 0 \<and> unat off \<le> length img")
  case True
  define k where "k = chunk_len img (n - MsgHeaderSize) off req"
  have k: "clamp_copy (unat req) (n - MsgHeaderSize) (length img - unat off) = k"
    using True by (auto simp: k_def chunk_len_def clamp_copy_def min_def)
  have b: "unat off + k \<le> length img" "k \<le> length (msg_Data m)"
    using True chunk_len_fits chunk_len_le(1) assms(2) by (auto simp: k_def)
  have d: "(if k > 0 then copy_at 0 (seg (unat off) k img) (msg_Data m) else msg_Data m)
    = copy_at 0 (seg (unat off) k img) (msg_Data m)"
    by (simp add: copy_at_def seg_def)
  have c: "\<not> (0 < k \<and> length img < unat off + k)" "\<not> (0 < k \<and> length (msg_Data m) < k)"
    "req \<noteq> 0" "\<not> length img < unat off" "\<not> (req \<noteq> 0 \<and> length img < unat off)"
    using b True by auto
  have m: "m\<lparr>msg_Data := x, msg_ReturnedSize := y, msg_Status := z\<rparr>
    = m\<lparr>msg_Status := z, msg_ReturnedSize := y, msg_Data := x\<rparr>" for x y z by simp
  show ?thesis
    unfolding k_def [symmetric] serve_chunk_def Let_def assms(1) k d m
    by (simp only: c if_False simp_thms)
next
  case False
  then have k: "chunk_len img (n - MsgHeaderSize) off req = 0" by (auto simp: chunk_len_def)
  have m: "m\<lparr>msg_Status := st, msg_ReturnedSize := 0, msg_Data := msg_Data m\<rparr>
    = m\<lparr>msg_Status := st\<rparr>" for st
    using assms(3) by (intro provider_msg.equality) simp_all
  show ?thesis
    using False unfolding k serve_chunk_def assms(1)
    by (cases "req = 0") (simp_all add: copy_at_def seg_def m)
qed

section \<open>The reply to a request\<close>

definition provides ::
    "mm_env \<Rightarrow> (ptr \<Rightarrow> ptr list) \<Rightarrow> (hob_type \<Rightarrow> ptr list) \<Rightarrow> byte list \<times> UINT32
     \<Rightarrow> provider_globals \<Rightarrow> bool" where
  "provides E files hobs i g \<longleftrightarrow> globals_ok E g \<and>
    (case mOneCryptoImageData g of
       None \<Rightarrow> firmware_image E files hobs = Some i
     | Some d \<Rightarrow> i = (d, mOneCryptoImageFormat g))"

text \<open>The state after a request that reached the image, and the identity part of its reply.\<close>

definition cached :: "mm_env \<Rightarrow> byte list \<times> UINT32 \<Rightarrow> provider_globals \<Rightarrow> provider_globals" where
  "cached E i g = (store_image g i)\<lparr>mOneCryptoImageCrc32 := CalculateCrc32 E (fst i)\<rparr>"

definition identify :: "mm_env \<Rightarrow> byte list \<times> UINT32 \<Rightarrow> provider_msg \<Rightarrow> provider_msg" where
  "identify E i m = m\<lparr>msg_ImageGuid := ONE_CRYPTO_BINARY_GUID,
     msg_TotalImageSize := of_nat (length (fst i)), msg_Format := snd i,
     msg_Crc32 := CalculateCrc32 E (fst i)\<rparr>"

lemma provides_Locate:
  assumes "firmware_ok E files hobs" and "provides E files hobs i g"
  shows "LocateOneCryptoImage E g = Some (EFI_SUCCESS, store_image g i)" and "fst i \<noteq> []"
    and "mOneCryptoImageCrc32 g = 0 \<or> mOneCryptoImageCrc32 g = CalculateCrc32 E (fst i)"
proof -
  have "LocateOneCryptoImage E g = Some (EFI_SUCCESS, store_image g i) \<and> fst i \<noteq> [] \<and>
    (mOneCryptoImageCrc32 g = 0 \<or> mOneCryptoImageCrc32 g = CalculateCrc32 E (fst i))"
  proof (cases "mOneCryptoImageData g")
    case None
    then show ?thesis
      using assms Locate_spec [OF assms(1), of g] firmware_image_nonempty [of E files hobs i]
      by (auto simp: provides_def firmware_ok_def globals_ok_def)
  next
    case (Some d)
    then show ?thesis
      using assms(2) by (cases g)
        (auto simp: provides_def globals_ok_def LocateOneCryptoImage_def store_image_def)
  qed
  then show "LocateOneCryptoImage E g = Some (EFI_SUCCESS, store_image g i)" "fst i \<noteq> []"
    "mOneCryptoImageCrc32 g = 0 \<or> mOneCryptoImageCrc32 g = CalculateCrc32 E (fst i)" by blast+
qed

lemma provides_cached: "fst i \<noteq> [] \<Longrightarrow> provides E files hobs i (cached E i g)"
  by (simp add: provides_def globals_ok_def cached_def store_image_def)

text \<open>What the handler checks before it touches the buffer, and the request header.\<close>

definition buffer_ok :: "mm_env \<Rightarrow> ptr \<Rightarrow> nat \<Rightarrow> bool" where
  "buffer_ok E cb n \<longleftrightarrow> cb \<noteq> 0 \<and> MsgHeaderSize \<le> n \<and> n - MsgHeaderSize \<le> MAX_UINT32
     \<and> MmCommBufferValid E cb n"

definition request_ok :: "provider_msg \<Rightarrow> bool" where
  "request_ok m \<longleftrightarrow> msg_Signature m = ONE_CRYPTO_IMAGE_PROVIDER_SIGNATURE
     \<and> msg_Version m = ONE_CRYPTO_IMAGE_PROVIDER_VERSION"

lemma handler_rejects:
  "\<not> buffer_ok E cb n \<Longrightarrow>
     OneCryptoImageProviderHandler dbg E g cb m (Some n) = quiesce dbg g m (Some n)"
  by (auto simp: OneCryptoImageProviderHandler_def buffer_ok_def)

lemma handler_bad_header:
  "buffer_ok E cb n \<Longrightarrow> \<not> request_ok m \<Longrightarrow>
     OneCryptoImageProviderHandler dbg E g cb m (Some n) =
     Some (Inr (EFI_SUCCESS, g, m\<lparr>msg_ImageGuid := zero_guid, msg_TotalImageSize := 0,
       msg_ReturnedSize := 0, msg_Status := EFI_INVALID_PARAMETER\<rparr>, Some MsgHeaderSize))"
  by (auto simp: OneCryptoImageProviderHandler_def buffer_ok_def request_ok_def Let_def)

lemma handler_not_found:
  assumes "buffer_ok E cb n" and "request_ok m"
    and "LocateOneCryptoImage E g = Some (st, g')" and "EFI_ERROR st"
  shows "OneCryptoImageProviderHandler dbg E g cb m (Some n) =
    Some (Inr (EFI_SUCCESS, g', m\<lparr>msg_ImageGuid := zero_guid, msg_TotalImageSize := 0,
       msg_ReturnedSize := 0, msg_Status := st\<rparr>, Some MsgHeaderSize))"
  using assms by (auto simp: OneCryptoImageProviderHandler_def buffer_ok_def request_ok_def Let_def)

lemma handler_too_large:
  assumes "buffer_ok E cb n" and "request_ok m" and "LocateOneCryptoImage E g = Some (EFI_SUCCESS, g')"
    and "mOneCryptoImageSize g' > MAX_UINT32"
  shows "OneCryptoImageProviderHandler dbg E g cb m (Some n) =
    Some (Inr (EFI_SUCCESS, g', m\<lparr>msg_ImageGuid := zero_guid, msg_TotalImageSize := 0,
       msg_ReturnedSize := 0, msg_Status := EFI_UNSUPPORTED\<rparr>, Some MsgHeaderSize))"
  using assms by (auto simp: OneCryptoImageProviderHandler_def buffer_ok_def request_ok_def Let_def)

lemma handler_serves:
  assumes "firmware_ok E files hobs" and "provides E files hobs i g"
    and "length (fst i) \<le> MAX_UINT32" and "buffer_ok E cb n" and "request_ok m"
    and "length (msg_Data m) = n - MsgHeaderSize"
  shows "OneCryptoImageProviderHandler dbg E g cb m (Some n) =
    Some (Inr (EFI_SUCCESS, cached E i g,
      (identify E i m)\<lparr>
        msg_Status := (if msg_RequestedSize m \<noteq> 0 \<and> unat (msg_Offset m) > length (fst i)
                       then EFI_INVALID_PARAMETER else EFI_SUCCESS),
        msg_ReturnedSize := of_nat (chunk_len (fst i) (n - MsgHeaderSize) (msg_Offset m)
                                      (msg_RequestedSize m)),
        msg_Data := copy_at 0 (seg (unat (msg_Offset m)) (chunk_len (fst i) (n - MsgHeaderSize)
                      (msg_Offset m) (msg_RequestedSize m)) (fst i)) (msg_Data m)\<rparr>,
      Some (MsgHeaderSize + chunk_len (fst i) (n - MsgHeaderSize) (msg_Offset m)
                              (msg_RequestedSize m))))"
proof -
  note loc = provides_Locate [OF assms(1,2)]
  have g: "(if mOneCryptoImageCrc32 (store_image g i) = 0
      then (store_image g i)\<lparr>mOneCryptoImageCrc32 := CalculateCrc32 E
             (take (mOneCryptoImageSize (store_image g i)) (fst i))\<rparr>
      else store_image g i) = cached E i g"
    using loc(3) by (auto simp: cached_def store_image_def)
  have f: "mOneCryptoImageSize (cached E i g) = length (fst i)"
    "mOneCryptoImageFormat (cached E i g) = snd i"
    "mOneCryptoImageCrc32 (cached E i g) = CalculateCrc32 E (fst i)"
    "mOneCryptoImageSize (store_image g i) = length (fst i)"
    "mOneCryptoImageData (store_image g i) = Some (fst i)"
    by (simp_all add: cached_def store_image_def)
  from assms(3-6) show ?thesis
    unfolding OneCryptoImageProviderHandler_def buffer_ok_def request_ok_def
    by (simp add: loc(1) Let_def g f serve_chunk_eq identify_def del: MsgHeaderSize_eq)
qed

text \<open>The same reply, read field by field.\<close>

lemma handler_reply:
  assumes "firmware_ok E files hobs" and "provides E files hobs (img, fmt) g"
    and "length img \<le> MAX_UINT32" and "buffer_ok E cb n" and "request_ok m"
    and "length (msg_Data m) = n - MsgHeaderSize" and "unat (msg_Offset m) \<le> length img"
  defines "k \<equiv> min (min (unat (msg_RequestedSize m)) (n - MsgHeaderSize))
                   (length img - unat (msg_Offset m))"
  shows "\<exists>g' m'. OneCryptoImageProviderHandler dbg E g cb m (Some n)
      = Some (Inr (EFI_SUCCESS, g', m', Some (MsgHeaderSize + k)))
    \<and> provides E files hobs (img, fmt) g'
    \<and> msg_Status m' = EFI_SUCCESS \<and> msg_ImageGuid m' = ONE_CRYPTO_BINARY_GUID
    \<and> unat (msg_TotalImageSize m') = length img \<and> msg_Format m' = fmt
    \<and> msg_Crc32 m' = CalculateCrc32 E img \<and> unat (msg_ReturnedSize m') = k
    \<and> take k (msg_Data m') = seg (unat (msg_Offset m)) k img
    \<and> drop k (msg_Data m') = drop k (msg_Data m)"
proof -
  have k: "chunk_len img (n - MsgHeaderSize) (msg_Offset m) (msg_RequestedSize m) = k"
    using assms(7) by (auto simp: chunk_len_def k_def)
  have le: "k \<le> length (msg_Data m)" "unat (msg_Offset m) + k \<le> length img"
    using assms(6,7) by (auto simp: k_def)
  have k32: "k < 2 ^ 32" "length img < 2 ^ 32"
    using le assms(3) by (auto simp: MAX_UINT32_def)
  then have u: "unat (of_nat k :: UINT32) = k" "unat (of_nat (length img) :: UINT32) = length img"
    by (simp_all add: unat_of_nat take_bit_nat_eq_self)
  have s: "length (seg (unat (msg_Offset m)) k img) = k" using le(2) by simp
  have "img \<noteq> []" using provides_Locate(2) [OF assms(1,2)] by simp
  then show ?thesis
    using handler_serves [OF assms(1,2) _ assms(4-6), of dbg, unfolded fst_conv snd_conv k]
      assms(3,7) le s
    by (simp add: u identify_def copy_at_def provides_cached)
qed

section \<open>Every request\<close>

text \<open>
  A reply stays inside the buffer that was passed in, says how long it is, and leaves the
  fields of the request and the bytes behind the payload alone.
\<close>

definition reply_fits :: "provider_msg \<Rightarrow> provider_msg \<Rightarrow> nat \<Rightarrow> nat \<Rightarrow> bool" where
  "reply_fits m m' n s \<longleftrightarrow> MsgHeaderSize \<le> s \<and> s \<le> n
     \<and> unat (msg_ReturnedSize m') = s - MsgHeaderSize
     \<and> unat (msg_ReturnedSize m') \<le> unat (msg_RequestedSize m)
     \<and> length (msg_Data m') = length (msg_Data m)
     \<and> drop (s - MsgHeaderSize) (msg_Data m') = drop (s - MsgHeaderSize) (msg_Data m)
     \<and> msg_Signature m' = msg_Signature m \<and> msg_Version m' = msg_Version m
     \<and> msg_Offset m' = msg_Offset m \<and> msg_RequestedSize m' = msg_RequestedSize m"

lemma reply_fits_header:
  assumes "MsgHeaderSize \<le> n"
  shows "reply_fits m (m\<lparr>msg_ImageGuid := zero_guid, msg_TotalImageSize := 0,
    msg_ReturnedSize := 0, msg_Status := st\<rparr>) n MsgHeaderSize"
  using assms by (simp add: reply_fits_def)

lemma reply_fits_chunk:
  fixes img :: "byte list"
  assumes "buffer_ok E cb n" and "length (msg_Data m) = n - MsgHeaderSize"
  defines "k \<equiv> chunk_len img (n - MsgHeaderSize) (msg_Offset m) (msg_RequestedSize m)"
  shows "reply_fits m ((identify E i m)\<lparr>msg_Status := st, msg_ReturnedSize := of_nat k,
    msg_Data := copy_at 0 (seg (unat (msg_Offset m)) k img) (msg_Data m)\<rparr>) n (MsgHeaderSize + k)"
proof -
  have k: "k \<le> n - MsgHeaderSize" "k \<le> unat (msg_RequestedSize m)"
    using chunk_len_le by (simp_all add: k_def)
  have n: "MsgHeaderSize \<le> n" "n - MsgHeaderSize \<le> MAX_UINT32"
    using assms(1) by (simp_all add: buffer_ok_def)
  then have "k < 2 ^ 32" using k by (simp add: MAX_UINT32_def)
  then have u: "unat (of_nat k :: UINT32) = k" by (simp add: unat_of_nat take_bit_nat_eq_self)
  have s: "length (seg (unat (msg_Offset m)) k img) = k"
    by (cases "unat (msg_Offset m) \<le> length img")
       (use chunk_len_fits [of "msg_Offset m" img] in \<open>auto simp: k_def seg_def chunk_len_def\<close>)
  with u k n assms(2) show ?thesis
    by (simp add: reply_fits_def identify_def copy_at_def)
qed

lemma globals_ok_provides:
  assumes "firmware_ok E files hobs" and "globals_ok E g"
    and "LocateOneCryptoImage E g = Some (st, g')" and "\<not> EFI_ERROR st"
  obtains i where "provides E files hobs i g"
proof (cases "mOneCryptoImageData g")
  case None
  with Locate_spec [OF assms(1), of g] assms(3,4) obtain i where "firmware_image E files hobs = Some i"
    by (auto split: option.splits)
  with None assms(2) that show thesis by (simp add: provides_def)
next
  case (Some d)
  with assms(2) that [of "(d, mOneCryptoImageFormat g)"] show thesis by (simp add: provides_def)
qed

lemma handler_accepts:
  assumes fw: "firmware_ok E files hobs" and ok: "globals_ok E g" and b: "buffer_ok E cb n"
    and len: "length (msg_Data m) = n - MsgHeaderSize"
  shows "\<exists>g' m' s. OneCryptoImageProviderHandler dbg E g cb m (Some n)
      = Some (Inr (EFI_SUCCESS, g', m', Some s))
    \<and> globals_ok E g' \<and> mDispatchHandle g' = mDispatchHandle g \<and> reply_fits m m' n s"
proof (cases "request_ok m")
  case False
  have "MsgHeaderSize \<le> n" using b by (simp add: buffer_ok_def)
  from reply_fits_header [OF this] handler_bad_header [OF b False] ok show ?thesis by blast
next
  case True
  have n: "MsgHeaderSize \<le> n" using b by (simp add: buffer_ok_def)
  from Locate_ok [OF fw ok] obtain st g' where loc: "LocateOneCryptoImage E g = Some (st, g')"
    and g': "globals_ok E g'" "mDispatchHandle g' = mDispatchHandle g" by metis
  show ?thesis
  proof (cases "EFI_ERROR st")
    case err: True
    from handler_not_found [OF b True loc err] g' reply_fits_header [OF n] show ?thesis by blast
  next
    case False
    from globals_ok_provides [OF fw ok loc False] obtain i where i: "provides E files hobs i g" .
    note pl = provides_Locate [OF fw i]
    show ?thesis
    proof (cases "length (fst i) \<le> MAX_UINT32")
      case small: True
      have "mDispatchHandle (cached E i g) = mDispatchHandle g" "globals_ok E (cached E i g)"
        using provides_cached [OF pl(2)] by (simp_all add: cached_def store_image_def provides_def)
      with handler_serves [OF fw i small b True len] reply_fits_chunk [OF b len] show ?thesis
        by blast
    next
      case big: False
      have sz: "mOneCryptoImageSize (store_image g i) > MAX_UINT32"
        using big by (simp add: store_image_def)
      have "g' = store_image g i" using loc pl(1) by simp
      with handler_too_large [OF b True pl(1) sz] g' reply_fits_header [OF n] show ?thesis by blast
    qed
  qed
qed

section \<open>The life cycle of the registration\<close>

text \<open>
  The MM core delivers a request only while a handler is registered, and signals ReadyToLock
  to a registered notification.
\<close>

datatype provider_event =
    Request ptr provider_msg "nat option"
  | ReadyToLock

fun provider_step ::
    "bool \<Rightarrow> mm_env \<Rightarrow> provider_globals \<times> mm_core \<Rightarrow> provider_event
     \<Rightarrow> (provider_globals \<times> mm_core) option" where
  "provider_step dbg E (g, core) (Request cb m n) =
    (if core_handlers core = {} then Some (g, core)
     else (case OneCryptoImageProviderHandler dbg E g cb m n of
             Some (Inr (st, g', m', n')) \<Rightarrow> Some (g', core)
           | _ \<Rightarrow> None))"
| "provider_step dbg E (g, core) ReadyToLock =
    (if core_notify core then Some (snd (OneCryptoImageProviderReadyToLock g core))
     else Some (g, core))"

definition provider_run ::
    "bool \<Rightarrow> mm_env \<Rightarrow> provider_globals \<times> mm_core \<Rightarrow> provider_event list
     \<Rightarrow> (provider_globals \<times> mm_core) option" where
  "provider_run dbg E s evs =
    foldl (\<lambda>r ev. Option.bind r (\<lambda>s. provider_step dbg E s ev)) (Some s) evs"

fun event_ok :: "mm_env \<Rightarrow> provider_event \<Rightarrow> bool" where
  "event_ok E (Request cb m n) \<longleftrightarrow>
    (case n of None \<Rightarrow> True
     | Some n \<Rightarrow> buffer_ok E cb n \<longrightarrow> length (msg_Data m) = n - MsgHeaderSize)"
| "event_ok E ReadyToLock \<longleftrightarrow> True"

definition provider_inv ::
    "mm_env \<Rightarrow> provider_globals \<times> mm_core \<Rightarrow> bool" where
  "provider_inv E s \<longleftrightarrow> globals_ok E (fst s)
     \<and> core_handlers (snd s) = set_option (mDispatchHandle (fst s))"

lemma provider_step_request:
  assumes "firmware_ok E files hobs" and "provider_inv E (g, core)" and "event_ok E (Request cb m n)"
  obtains g' where "provider_step False E (g, core) (Request cb m n) = Some (g', core)"
    and "provider_inv E (g', core)" and "mDispatchHandle g' = mDispatchHandle g"
proof (cases "core_handlers core = {} \<or> n = None \<or> \<not> buffer_ok E cb (the n)")
  case True
  then have "provider_step False E (g, core) (Request cb m n) = Some (g, core)"
    using handler_rejects [of E cb "the n" False g m]
    by (cases n) (auto simp: quiesce_def OneCryptoImageProviderHandler_def)
  with that assms(2) show thesis by blast
next
  case False
  then obtain k where n: "n = Some k" "buffer_ok E cb k" by auto
  with assms(3) have "length (msg_Data m) = k - MsgHeaderSize" by simp
  from handler_accepts [OF assms(1) _ n(2) this, of g False] assms(2) obtain g' m' s where
    h: "OneCryptoImageProviderHandler False E g cb m (Some k) = Some (Inr (EFI_SUCCESS, g', m', Some s))"
    and g': "globals_ok E g'" "mDispatchHandle g' = mDispatchHandle g"
    by (auto simp: provider_inv_def)
  have "provider_step False E (g, core) (Request cb m n) = Some (g', core)"
    using False by (simp add: n h)
  with that [of g'] g' assms(2) show thesis by (simp add: provider_inv_def)
qed

lemma provider_step_total:
  assumes "firmware_ok E files hobs" and "provider_inv E s" and "event_ok E ev"
  obtains s' where "provider_step False E s ev = Some s'" and "provider_inv E s'"
    and "core_notify (snd s') = core_notify (snd s)"
    and "mDispatchHandle (fst s) = None \<Longrightarrow> mDispatchHandle (fst s') = None"
    and "ev = ReadyToLock \<Longrightarrow> core_notify (snd s) \<Longrightarrow> mDispatchHandle (fst s') = None"
proof (cases ev)
  case (Request cb m n)
  from provider_step_request [OF assms(1), of "fst s" "snd s" cb m n] assms(2,3) Request obtain g'
    where "provider_step False E s (Request cb m n) = Some (g', snd s)"
      "provider_inv E (g', snd s)" "mDispatchHandle g' = mDispatchHandle (fst s)"
    by auto
  with Request that [of "(g', snd s)"] show thesis by simp
next
  case ReadyToLock
  obtain g core where s: "s = (g, core)" by (cases s)
  show thesis
  proof (rule that [of "if core_notify core then snd (OneCryptoImageProviderReadyToLock g core) else s"])
  qed (use assms(2) s ReadyToLock in \<open>auto simp: OneCryptoImageProviderReadyToLock_def
         provider_inv_def globals_ok_def split: option.splits\<close>)
qed

interpretation provider: total_machine "provider_step False E"
  "\<lambda>s. firmware_ok E files hobs \<and> provider_inv E s \<and> core_notify (snd s) = b" "event_ok E"
  for E files hobs b
proof (unfold_locales, goal_cases)
  case (1 s ev)
  then show ?case by (metis provider_step_total)
qed

interpretation provider_locked: total_machine "provider_step False E"
  "\<lambda>s. firmware_ok E files hobs \<and> provider_inv E s \<and> mDispatchHandle (fst s) = None" "event_ok E"
  for E files hobs
proof (unfold_locales, goal_cases)
  case (1 s ev)
  then show ?case by (metis provider_step_total)
qed

end
