(* ===== verification/ImageDemo.thy ===== *)
theory ImageDemo
  imports ImageServe
begin

text \<open>
  A small concrete firmware on which the witnesses of the provider and of the transfer evaluate.
\<close>

section \<open>A concrete firmware for the witnesses\<close>

text \<open>
  One volume at 0x1000 with two files, at 0x2000 the OneCrypto file with a three-byte PE32,
  and one FV2 HOB at 0x3000.
\<close>

definition demo_env :: mm_env where
  "demo_env = \<lparr>
     FfsFindNextFile = (\<lambda>fv f. if fv = 0x1000 \<and> f = 0 then Some 0x1800
                              else if fv = 0x1000 \<and> f = 0x1800 then Some 0x2000 else None),
     FileName = (\<lambda>f. if f = 0x2000 then ONE_CRYPTO_BINARY_GUID else zero_guid),
     FfsFindPe32Data = (\<lambda>f. if f = 0x2000 then (EFI_SUCCESS, Some [1, 2, 3])
                            else (EFI_NOT_FOUND, None)),
     FfsFindGuidedSection = (\<lambda>f. (EFI_NOT_FOUND, \<lparr>sec_Size = 0, sec_ExtendedSize = 0,
                                    sec_DataOffset = 0, sec_Bytes = (\<lambda>n. replicate n 0)\<rparr>)),
     GetHobList = 0x3000,
     GetNextHob = (\<lambda>ty h. if ty = HOB_FV2 \<and> h = 0x3000 then 0x3000 else 0),
     GET_NEXT_HOB = (\<lambda>h. h + 0x100),
     HobLength = (\<lambda>h. 0x8000),
     HobBaseAddress = (\<lambda>h. 0x1000),
     CalculateCrc32 = (\<lambda>bs. of_nat (length bs)),
     MmCommBufferValid = (\<lambda>p n. True)\<rparr>"

definition demo_files :: "ptr \<Rightarrow> ptr list" where
  "demo_files fv = (if fv = 0x1000 then [0x1800, 0x2000] else [])"

definition demo_hobs :: "hob_type \<Rightarrow> ptr list" where
  "demo_hobs ty = (if ty = HOB_FV2 then [0x3000] else [])"

lemma demo_firmware_ok: "firmware_ok demo_env demo_files demo_hobs"
proof -
  have "ffs_chain demo_env fv 0 (demo_files fv)" for fv
    by (simp add: demo_env_def demo_files_def)
  moreover have "hob_chain demo_env ty (GetNextHob demo_env ty (GetHobList demo_env)) (demo_hobs ty)" for ty
    by (simp add: demo_env_def demo_hobs_def)
  ultimately show ?thesis
    by (simp add: firmware_ok_def sections_ok_def demo_env_def)
qed

lemma demo_image:
  "firmware_image demo_env demo_files demo_hobs = Some ([1, 2, 3], ONE_CRYPTO_IMAGE_FORMAT_PE32)"
proof -
  have pe: "direct_pe32 demo_env 0x2000 = Some [1, 2, 3]" "direct_pe32 demo_env 0x1800 = None"
    by (simp_all add: direct_pe32_def demo_env_def zero_guid_def ONE_CRYPTO_BINARY_GUID_def)
  have hob: "HobLength demo_env h = 0x8000" "HobBaseAddress demo_env h = 0x1000" for h
    by (simp_all add: demo_env_def)
  have "hob_image demo_env demo_files 0x3000 = Some ([1, 2, 3], ONE_CRYPTO_IMAGE_FORMAT_PE32)"
    by (simp add: hob_image_def hob demo_files_def fv_image_def pe)
  then show ?thesis by (simp add: firmware_image_def demo_hobs_def)
qed

lemma demo_provides:
  "provides demo_env demo_files demo_hobs ([1, 2, 3], ONE_CRYPTO_IMAGE_FORMAT_PE32) initial_globals"
proof -
  have "mOneCryptoImageData initial_globals = None" by (simp add: initial_globals_def)
  then show ?thesis by (simp add: provides_def demo_image)
qed

definition demo_request :: provider_msg where
  "demo_request = (zero_msg [9, 9, 9, 9, 9])\<lparr>msg_Signature := ONE_CRYPTO_IMAGE_PROVIDER_SIGNATURE,
     msg_Version := ONE_CRYPTO_IMAGE_PROVIDER_VERSION, msg_Offset := 1, msg_RequestedSize := 7\<rparr>"

lemma demo_request_ok: "buffer_ok demo_env 0x5000 69" "request_ok demo_request"
  "length (msg_Data demo_request) = 69 - MsgHeaderSize"
  by (simp_all add: buffer_ok_def demo_env_def request_ok_def demo_request_def zero_msg_def
      MAX_UINT32_def)

end
