(* ===== verification/ImageProps.thy ===== *)
theory ImageProps
  imports ImageDemo
begin

text \<open>
  The properties of the image provider: the search order, the reply to every request, safety
  of the handler for arbitrary buffers, and the life cycle of its registration.
\<close>

section \<open>The search\<close>

text \<open>on a cold cache \<^verbatim>\<open>LocateOneCryptoImage\<close> ends and finds the first image in the
  documented order: FV3 HOBs before FV before FV2, empty volumes skipped, and inside a volume a
  direct PE32 of any file before the compressed container section.\<close>

theorem locate_first_match:
  assumes "firmware_ok E files hobs" and "mOneCryptoImageData g = None"
  shows "LocateOneCryptoImage E g =
    Some (case first_some (hob_image E files) (hobs HOB_FV3 @ hobs HOB_FV @ hobs HOB_FV2) of
            Some (d, fmt) \<Rightarrow> (EFI_SUCCESS, g\<lparr>mOneCryptoImageData := Some d,
               mOneCryptoImageSize := length d, mOneCryptoImageFormat := fmt\<rparr>)
          | None \<Rightarrow> (EFI_NOT_FOUND, g))"
  using Locate_spec [OF assms(1), of g] assms(2)
  by (simp add: firmware_image_def store_image_def split: option.splits prod.splits)

theorem locate_first_match_witness:
  "LocateOneCryptoImage demo_env initial_globals =
    Some (EFI_SUCCESS, initial_globals\<lparr>mOneCryptoImageData := Some [1, 2, 3],
      mOneCryptoImageSize := 3, mOneCryptoImageFormat := ONE_CRYPTO_IMAGE_FORMAT_PE32\<rparr>)"
proof -
  have "mOneCryptoImageData initial_globals = None" by (simp add: initial_globals_def)
  from locate_first_match [OF demo_firmware_ok this] demo_image show ?thesis
    by (simp add: firmware_image_def)
qed

section \<open>The handler\<close>

text \<open>C13: a well-formed request is answered with the identity, size, format and CRC of the
  firmware's image and with exactly the bytes at the requested offset, as many as the request,
  the buffer and the image allow; the rest of the buffer is untouched and the image cached.\<close>

theorem provider_serves_chunk:
  assumes "firmware_ok E files hobs" and "provides E files hobs (img, fmt) g"
    and "length img \<le> MAX_UINT32" and "buffer_ok E cb n" and "request_ok m"
    and "length (msg_Data m) = n - MsgHeaderSize" and "unat (msg_Offset m) \<le> length img"
  defines "k \<equiv> min (min (unat (msg_RequestedSize m)) (n - MsgHeaderSize))
                   (length img - unat (msg_Offset m))"
  shows "\<exists>g' m'. OneCryptoImageProviderHandler dbg E g cb m (Some n)
      = Some (Inr (EFI_SUCCESS, g', m', Some (MsgHeaderSize + k)))
    \<and> provides E files hobs (img, fmt) g'
    \<and> msg_Status m' = EFI_SUCCESS \<and> msg_ImageGuid m' = ONE_CRYPTO_BINARY_GUID
    \<and> unat (msg_TotalImageSize m') = length img \<and> msg_Format m' = fmt
    \<and> msg_Crc32 m' = CalculateCrc32 E img \<and> unat (msg_ReturnedSize m') = k
    \<and> take k (msg_Data m') = seg (unat (msg_Offset m)) k img
    \<and> drop k (msg_Data m') = drop k (msg_Data m)"
  unfolding k_def by (rule handler_reply [OF assms(1-7)])

theorem provider_serves_chunk_witness:
  "\<exists>g' m'. OneCryptoImageProviderHandler True demo_env initial_globals 0x5000 demo_request (Some 69)
      = Some (Inr (EFI_SUCCESS, g', m', Some 66))
    \<and> unat (msg_ReturnedSize m') = 2 \<and> take 2 (msg_Data m') = [2, 3]
    \<and> drop 2 (msg_Data m') = [9, 9, 9]"
proof -
  have l: "length [1, 2, 3 :: byte] \<le> MAX_UINT32" "unat (msg_Offset demo_request) \<le> length [1, 2, 3 :: byte]"
    by (simp_all add: MAX_UINT32_def demo_request_def)
  have k: "min (min (unat (msg_RequestedSize demo_request)) (69 - MsgHeaderSize))
      (length [1, 2, 3 :: byte] - unat (msg_Offset demo_request)) = 2"
    and o: "unat (msg_Offset demo_request) = 1" and d: "drop 2 (msg_Data demo_request) = [9, 9, 9]"
    by (simp_all add: demo_request_def zero_msg_def)
  have sg: "seg 1 2 [1, 2, 3 :: byte] = [2, 3]" by (simp add: seg_def)
  from provider_serves_chunk [OF demo_firmware_ok demo_provides l(1) demo_request_ok l(2), of True]
  obtain g' m' where "OneCryptoImageProviderHandler True demo_env initial_globals 0x5000
      demo_request (Some 69) = Some (Inr (EFI_SUCCESS, g', m', Some (MsgHeaderSize + 2)))"
    "unat (msg_ReturnedSize m') = 2" "take 2 (msg_Data m') = [2, 3]"
    "drop 2 (msg_Data m') = [9, 9, 9]"
    unfolding k unfolding o sg d by blast
  then show ?thesis by (intro exI [of _ g'] exI [of _ m']) simp
qed

text \<open>C21: for every buffer and every request, valid or not, the handler returns: it faults only
  where an \<^verbatim>\<open>ASSERT\<close> rejects the buffer in a debug build; a rejected buffer is untouched; an
  accepted one gets a reply inside it that keeps the request's fields and announces its length.\<close>

theorem provider_handler_safe:
  assumes "firmware_ok E files hobs" and "globals_ok E g"
    and "buffer_ok E cb n \<Longrightarrow> length (msg_Data m) = n - MsgHeaderSize"
  shows "case OneCryptoImageProviderHandler dbg E g cb m (Some n) of
      None \<Rightarrow> False
    | Some (Inl f) \<Rightarrow> dbg \<and> f = AssertFailed \<and> \<not> buffer_ok E cb n
    | Some (Inr (st, g', m', sz)) \<Rightarrow> st = EFI_SUCCESS \<and> globals_ok E g' \<and>
        (if buffer_ok E cb n then \<exists>s. sz = Some s \<and> reply_fits m m' n s
         else m' = m \<and> g' = g \<and> sz = Some n)"
proof (cases "buffer_ok E cb n")
  case True
  from handler_accepts [OF assms(1,2) True assms(3) [OF True], of dbg] True show ?thesis by auto
next
  case False
  with assms(2) show ?thesis by (simp add: handler_rejects [OF False] quiesce_def)
qed

theorem provider_handler_safe_witness:
  "case OneCryptoImageProviderHandler False demo_env initial_globals 0x5000 demo_request (Some 69) of
      None \<Rightarrow> False
    | Some (Inl f) \<Rightarrow> False
    | Some (Inr (st, g', m', sz)) \<Rightarrow> \<exists>s. sz = Some s \<and> reply_fits demo_request m' 69 s"
  using provider_handler_safe [OF demo_firmware_ok initial_globals_ok demo_request_ok(3), where cb = "0x5000" and dbg = False]
    demo_request_ok(1)
  by (auto split: option.splits sum.splits)

section \<open>The life cycle\<close>

text \<open>after the entry point registered the handler, requests and ReadyToLock may arrive in any
  order without a fault, and once ReadyToLock was signalled no handler is registered any more,
  whatever follows.\<close>

theorem provider_torn_down:
  assumes "firmware_ok E files hobs" and "\<not> EFI_ERROR rs" and "\<not> EFI_ERROR ns"
    and "core_handlers core = {}" and "\<forall>ev \<in> set (evs @ evs'). event_ok E ev"
  shows "\<exists>g' core'. provider_run False E (snd (MmEntry rs h ns initial_globals core))
      (evs @ ReadyToLock # evs') = Some (g', core')
    \<and> mDispatchHandle g' = None \<and> core_handlers core' = {}"
proof -
  let ?s = "snd (MmEntry rs h ns initial_globals core)"
  have inv: "provider_inv E ?s" "core_notify (snd ?s) = True"
    using assms(2-4) initial_globals_ok [of E]
    by (auto simp: MmEntry_def provider_inv_def globals_ok_def initial_globals_def)
  with assms provider.run_ok [where E = E and files = files and hobs = hobs and b = True and s = ?s and ops = evs] obtain s1 where
    s1: "provider_run False E ?s evs = Some s1" "provider_inv E s1" "core_notify (snd s1)"
    by (auto simp: provider_run_def)
  have "event_ok E ReadyToLock" by simp
  from provider_step_total [OF assms(1) s1(2) this] s1(3) obtain s2 where
    s2: "provider_step False E s1 ReadyToLock = Some s2" "provider_inv E s2"
    "mDispatchHandle (fst s2) = None" by metis
  with assms provider_locked.run_ok [where E = E and files = files and hobs = hobs and s = s2 and ops = evs'] obtain s3 where
    s3: "provider_run False E s2 evs' = Some s3" "provider_inv E s3" "mDispatchHandle (fst s3) = None"
    by (auto simp: provider_run_def)
  have "provider_run False E ?s (evs @ ReadyToLock # evs') = Some s3"
    using s1(1) s2(1) s3(1) by (simp add: provider_run_def)
  with s3 show ?thesis by (cases s3) (auto simp: provider_inv_def)
qed

theorem provider_torn_down_witness:
  "\<exists>g' core'. provider_run False demo_env (snd (MmEntry EFI_SUCCESS 7 EFI_SUCCESS initial_globals
      \<lparr>core_handlers = {}, core_notify = False\<rparr>))
      ([Request 0x5000 demo_request (Some 69)] @ ReadyToLock # [Request 0x5000 demo_request (Some 69)])
        = Some (g', core')
    \<and> mDispatchHandle g' = None \<and> core_handlers core' = {}"
  using demo_request_ok
  by (intro provider_torn_down [OF demo_firmware_ok]) auto

text \<open>the identity the provider reports is stable: any two requests served in a row, with any
  offsets and sizes, report the same total size, format, checksum and image GUID, so a receiver
  may compare chunks against the size query.\<close>

theorem provider_identity_stable:
  assumes "firmware_ok E files hobs" and "provides E files hobs (img, fmt) g"
    and "length img \<le> MAX_UINT32"
    and "buffer_ok E cb n1" and "request_ok m1" and "length (msg_Data m1) = n1 - MsgHeaderSize"
    and "buffer_ok E cb n2" and "request_ok m2" and "length (msg_Data m2) = n2 - MsgHeaderSize"
    and "OneCryptoImageProviderHandler dbg E g cb m1 (Some n1) = Some (Inr (st1, g1, r1, sz1))"
    and "OneCryptoImageProviderHandler dbg E g1 cb m2 (Some n2) = Some (Inr (st2, g2, r2, sz2))"
  shows "msg_TotalImageSize r2 = msg_TotalImageSize r1 \<and> msg_Format r2 = msg_Format r1
    \<and> msg_Crc32 r2 = msg_Crc32 r1 \<and> msg_ImageGuid r2 = msg_ImageGuid r1 \<and> g2 = g1"
proof -
  have ne: "fst (img, fmt) \<noteq> []" by (rule provides_Locate(2) [OF assms(1,2)])
  have l: "length (fst (img, fmt)) \<le> MAX_UINT32" using assms(3) by simp
  have 1: "g1 = cached E (img, fmt) g" "msg_TotalImageSize r1 = of_nat (length img)"
    "msg_Format r1 = fmt" "msg_Crc32 r1 = CalculateCrc32 E img" "msg_ImageGuid r1 = ONE_CRYPTO_BINARY_GUID"
    using assms(10) handler_serves [OF assms(1,2) l assms(4-6), of dbg] by (auto simp: identify_def)
  have "provides E files hobs (img, fmt) g1" unfolding 1 by (rule provides_cached [OF ne])
  from handler_serves [OF assms(1) this l assms(7-9), of dbg] assms(11) 1 show ?thesis
    by (auto simp: identify_def cached_def store_image_def)
qed

theorem provider_identity_stable_witness:
  "\<exists>g1 r1 g2 r2 z1 z2. OneCryptoImageProviderHandler True demo_env initial_globals 0x5000
       demo_request (Some 69) = Some (Inr (EFI_SUCCESS, g1, r1, z1))
    \<and> OneCryptoImageProviderHandler True demo_env g1 0x5000 demo_request (Some 69)
        = Some (Inr (EFI_SUCCESS, g2, r2, z2))
    \<and> msg_Crc32 r2 = msg_Crc32 r1 \<and> g2 = g1"
proof -
  let ?i = "([1, 2, 3 :: byte], ONE_CRYPTO_IMAGE_FORMAT_PE32)"
  have l: "length [1, 2, 3 :: byte] \<le> MAX_UINT32" by (simp add: MAX_UINT32_def)
  note h = handler_serves [OF demo_firmware_ok _ _ demo_request_ok, where dbg = True]
  from h [OF demo_provides] l obtain g1 r1 z1 where
    1: "OneCryptoImageProviderHandler True demo_env initial_globals 0x5000 demo_request (Some 69)
      = Some (Inr (EFI_SUCCESS, g1, r1, z1))" and g1: "g1 = cached demo_env ?i initial_globals"
    by auto
  have "provides demo_env demo_files demo_hobs ?i g1" unfolding g1 by (rule provides_cached) simp
  from h [OF this] l obtain g2 r2 z2 where
    2: "OneCryptoImageProviderHandler True demo_env g1 0x5000 demo_request (Some 69)
      = Some (Inr (EFI_SUCCESS, g2, r2, z2))" by auto
  from provider_identity_stable [OF demo_firmware_ok demo_provides l demo_request_ok demo_request_ok 1 2]
    1 2 show ?thesis by blast
qed

end
