(* ===== verification/Pool.thy ===== *)
theory Pool
  imports Prelude
begin

text \<open>
  The pool allocator of the firmware as its clients see it: \<^verbatim>\<open>AllocatePool\<close>,
  \<^verbatim>\<open>AllocateZeroPool\<close> and \<^verbatim>\<open>FreePool\<close> of the UEFI memory allocation library, which are not
  part of the repository. Whether a request succeeds is decided by the parameter
  \<open>pool_ok\<close> (the number of the request and its size); a block is identified by the number
  of the request that created it. \<^verbatim>\<open>FreePool\<close> of anything but a live block is undefined
  behaviour and so a fault: NULL, a block freed before, a block of somebody else.
\<close>

record pool =
  pool_ok :: "nat \<Rightarrow> nat \<Rightarrow> bool"
  pool_next :: nat
  pool_live :: "nat set"

definition AllocatePool :: "pool \<Rightarrow> nat \<Rightarrow> nat option \<times> pool" where
  "AllocatePool s n =
    (if pool_ok s (pool_next s) n
     then (Some (pool_next s), s\<lparr>pool_next := Suc (pool_next s),
                                 pool_live := insert (pool_next s) (pool_live s)\<rparr>)
     else (None, s\<lparr>pool_next := Suc (pool_next s)\<rparr>))"

definition FreePool :: "pool \<Rightarrow> nat option \<Rightarrow> pool res" where
  "FreePool s p =
    (case p of
       None \<Rightarrow> Inl NullDeref
     | Some b \<Rightarrow> if b \<in> pool_live s then Inr (s\<lparr>pool_live := pool_live s - {b}\<rparr>)
                else Inl UseAfterFree)"

definition pool_inv :: "pool \<Rightarrow> bool" where
  "pool_inv s \<longleftrightarrow> (\<forall>b \<in> pool_live s. b < pool_next s)"

definition empty_pool :: "(nat \<Rightarrow> nat \<Rightarrow> bool) \<Rightarrow> pool" where
  "empty_pool f = \<lparr>pool_ok = f, pool_next = 0, pool_live = {}\<rparr>"

lemma empty_pool_inv [simp]: "pool_inv (empty_pool f)"
  by (simp add: empty_pool_def pool_inv_def)

lemma AllocatePool_Some:
  assumes "AllocatePool s n = (Some b, s')" and "pool_inv s"
  shows "pool_inv s'" "b \<notin> pool_live s" "pool_live s' = insert b (pool_live s)"
    "pool_ok s' = pool_ok s"
  using assms by (auto simp: AllocatePool_def pool_inv_def less_Suc_eq split: if_splits)

lemma AllocatePool_None:
  assumes "AllocatePool s n = (None, s')" and "pool_inv s"
  shows "pool_inv s'" "pool_live s' = pool_live s" "pool_ok s' = pool_ok s"
  using assms by (auto simp: AllocatePool_def pool_inv_def less_Suc_eq split: if_splits)

lemma FreePool_live:
  assumes "b \<in> pool_live s" and "pool_inv s"
  shows "\<exists>s'. FreePool s (Some b) = Inr s' \<and> pool_inv s'
    \<and> pool_live s' = pool_live s - {b} \<and> pool_ok s' = pool_ok s"
  using assms by (simp add: FreePool_def pool_inv_def)

lemma FreePool_InrD:
  assumes "FreePool s p = Inr s'" and "pool_inv s"
  shows "pool_inv s'" "pool_ok s' = pool_ok s"
    "\<exists>b. p = Some b \<and> b \<in> pool_live s \<and> pool_live s' = pool_live s - {b}"
  using assms by (auto simp: FreePool_def pool_inv_def split: option.splits if_splits)

interpretation pool: scratch_allocator
  "\<lambda>s n. Inr (AllocatePool s n)" FreePool "\<lambda>s b. b \<in> pool_live s" pool_inv
proof (unfold_locales, goal_cases)
  case (1 s n s')
  then show ?case using AllocatePool_None [of s n s'] by simp
next
  case (2 s n p s')
  then show ?case using AllocatePool_Some [of s n p s'] by (auto simp: fun_eq_iff)
next
  case (3 s p)
  then show ?case using FreePool_live [of p s] by (auto simp: fun_eq_iff)
qed

end
