(* ===== verification/FetchFromMm.thy ===== *)
theory FetchFromMm
  imports Pool ProviderMsg
begin

text \<open>
  \<^verbatim>\<open>OneCryptoLoaders/OneCryptoLoaderDxeFromMm.c\<close>, the transfer: \<^verbatim>\<open>SendImageProviderRequest\<close>
  and \<^verbatim>\<open>FetchImageFromMm\<close>.

  \<^item> \<open>comm_buffer\<close> is the communication buffer: the MM communicate header and the provider
    message in it. Its real length is \<open>cb_size\<close>; the code tracks its own
    \<^verbatim>\<open>CommBufferAllocSize\<close>, which the transport may shrink or blow up.
  \<^item> A \<open>transport\<close> is \<^verbatim>\<open>MmComm->Communicate\<close>: from the state of the other side, the buffer and
    the size passed in, the status, the size passed out, the buffer and the new state. It is a
    parameter, and the safety results hold for every transport that writes in place.
  \<^item> A buffer of the pool is its number together with its contents.
\<close>

section \<open>The communication buffer\<close>

definition CommHeaderOverhead :: nat where
  "CommHeaderOverhead = 16 + 8"

definition ONE_CRYPTO_COMM_BUFFER_TARGET_SIZE :: nat where
  "ONE_CRYPTO_COMM_BUFFER_TARGET_SIZE = 0x30000"

record comm_buffer =
  cb_HeaderGuid :: EFI_GUID
  cb_MessageLength :: UINT64
  cb_Msg :: provider_msg

type_synonym cbuf = "(nat \<times> comm_buffer) option"
type_synonym 'w transport = "'w \<Rightarrow> comm_buffer \<Rightarrow> nat \<Rightarrow> efi_status \<times> nat \<times> comm_buffer \<times> 'w"

definition cb_size :: "comm_buffer \<Rightarrow> nat" where
  "cb_size b = CommHeaderOverhead + MsgHeaderSize + length (msg_Data (cb_Msg b))"

text \<open>\<^verbatim>\<open>AllocateZeroPool\<close> of a size that holds both headers.\<close>

definition zero_buffer :: "nat \<Rightarrow> comm_buffer" where
  "zero_buffer n = \<lparr>cb_HeaderGuid = zero_guid, cb_MessageLength = 0,
     cb_Msg = zero_msg (replicate (n - CommHeaderOverhead - MsgHeaderSize) 0)\<rparr>"

section \<open>SendImageProviderRequest\<close>

text \<open>The defensive reallocation. \<open>Inl\<close>: it failed, the old buffer is gone.\<close>

definition grow_buffer :: "pool \<Rightarrow> cbuf \<Rightarrow> nat \<Rightarrow> nat \<Rightarrow> (pool + pool \<times> cbuf \<times> nat) res" where
  "grow_buffer p CommBuffer CommBufferAllocSize CommSize =
    (if CommSize > CommBufferAllocSize then
       bind_res (FreePool p (map_option fst CommBuffer)) (\<lambda>p.
         case AllocatePool p CommSize of
           (None, p) \<Rightarrow> Inr (Inl p)
         | (Some b, p) \<Rightarrow> Inr (Inr (p, Some (b, zero_buffer CommSize), CommSize)))
     else Inr (Inr (p, CommBuffer, CommBufferAllocSize)))"

text \<open>
  \<^verbatim>\<open>ZeroMem (CommHeader, CommSize)\<close> and the fields of the request. The assignment to
  \<^verbatim>\<open>MessageLength\<close> and to the other fields lies inside the zeroed range.
\<close>

definition fill_request :: "comm_buffer \<Rightarrow> nat \<Rightarrow> UINT64 \<Rightarrow> UINT32 \<Rightarrow> comm_buffer res" where
  "fill_request b CommSize Offset ThisRequest =
    (if CommSize > cb_size b then Inl OobWrite
     else Inr \<lparr>cb_HeaderGuid = ONE_CRYPTO_IMAGE_PROVIDER_GUID,
               cb_MessageLength = of_nat (CommSize - CommHeaderOverhead),
               cb_Msg = (zero_msg (zero_at 0 (CommSize - CommHeaderOverhead - MsgHeaderSize)
                                     (msg_Data (cb_Msg b))))
                 \<lparr>msg_Signature := ONE_CRYPTO_IMAGE_PROVIDER_SIGNATURE,
                  msg_Version := ONE_CRYPTO_IMAGE_PROVIDER_VERSION,
                  msg_Offset := Offset,
                  msg_RequestedSize := ThisRequest\<rparr>\<rparr>)"

text \<open>\<^verbatim>\<open>MaxPayload\<close> of a region that holds both headers.\<close>

definition max_payload :: "nat \<Rightarrow> nat" where
  "max_payload CommSize = CommSize - CommHeaderOverhead - MsgHeaderSize"

text \<open>
  The result: the status, the state of the other side, the pool, the buffer, the new
  \<^verbatim>\<open>*CommBufferAllocSize\<close> and \<^verbatim>\<open>*MsgSize\<close> where it was written. The loop ends because each
  retry asks for less.
\<close>

type_synonym 'w sent = "efi_status \<times> 'w \<times> pool \<times> cbuf \<times> nat \<times> nat option"

function send_loop ::
    "'w transport \<Rightarrow> UINT64 \<Rightarrow> 'w \<Rightarrow> pool \<Rightarrow> cbuf \<Rightarrow> nat \<Rightarrow> UINT32 \<Rightarrow> 'w sent res" where
  "send_loop Communicate Offset w p CommBuffer CommBufferAllocSize ThisRequest =
    (let CommSize = CommHeaderOverhead + (MsgHeaderSize + unat ThisRequest) in
     case grow_buffer p CommBuffer CommBufferAllocSize CommSize of
       Inl f \<Rightarrow> Inl f
     | Inr (Inl p) \<Rightarrow> Inr (EFI_OUT_OF_RESOURCES, w, p, None, 0, None)
     | Inr (Inr (p, None, asz)) \<Rightarrow> Inl NullDeref
     | Inr (Inr (p, Some (h, b), asz)) \<Rightarrow>
         (case fill_request b CommSize Offset ThisRequest of
            Inl f \<Rightarrow> Inl f
          | Inr b \<Rightarrow>
              (case Communicate w b CommSize of
                 (Status, CommSize, b, w) \<Rightarrow>
                   if Status = EFI_BAD_BUFFER_SIZE then
                     if CommSize \<le> CommHeaderOverhead + MsgHeaderSize
                     then Inr (EFI_BAD_BUFFER_SIZE, w, p, Some (h, b), asz, None)
                     else
                       if unat ThisRequest \<le> max_payload CommSize
                       then Inr (EFI_BAD_BUFFER_SIZE, w, p, Some (h, b), CommSize, None)
                       else send_loop Communicate Offset w p (Some (h, b)) CommSize
                              (of_nat (max_payload CommSize))
                   else if EFI_ERROR Status then Inr (Status, w, p, Some (h, b), asz, None)
                   else if CommSize < CommHeaderOverhead + MsgHeaderSize
                   then Inr (EFI_PROTOCOL_ERROR, w, p, Some (h, b), asz, None)
                   else Inr (EFI_SUCCESS, w, p, Some (h, b), asz,
                             Some (CommSize - CommHeaderOverhead)))))"
  by pat_completeness auto
termination
proof (relation "measure (\<lambda>(c, off, w, p, b, a, r). unat r)", goal_cases)
  case 1
  show ?case by simp
next
  case (2 comm off w p b a r)
  then show ?case by simp (erule unat_of_nat_shrinks)
qed

declare send_loop.simps [simp del]

definition SendImageProviderRequest ::
    "'w transport \<Rightarrow> 'w \<Rightarrow> pool \<Rightarrow> cbuf \<Rightarrow> nat \<Rightarrow> UINT64 \<Rightarrow> UINT32 \<Rightarrow> 'w sent res" where
  "SendImageProviderRequest Communicate w p CommBuffer CommBufferAllocSize Offset RequestedSize =
    send_loop Communicate Offset w p CommBuffer CommBufferAllocSize RequestedSize"

section \<open>FetchImageFromMm\<close>

text \<open>
  \<^verbatim>\<open>CommBufferAllocSize - OFFSET_OF (EFI_MM_COMMUNICATE_HEADER, Data) - HeaderSize\<close>, in
  \<^verbatim>\<open>UINTN\<close> arithmetic.
\<close>

definition chunk_capacity :: "nat \<Rightarrow> nat" where
  "chunk_capacity CommBufferAllocSize =
    unat (of_nat CommBufferAllocSize - of_nat CommHeaderOverhead - of_nat MsgHeaderSize :: UINT64)"

text \<open>
  The transfer loop. \<open>LocalImage\<close> is the destination, \<open>img\<close> its contents. The result is the
  status, the other side, the pool, the communication buffer and, when the loop ran to its end,
  the contents of the destination; every error exit frees the destination first.
\<close>

type_synonym 'w fetched = "efi_status \<times> 'w \<times> pool \<times> cbuf \<times> byte list option"

definition bail :: "pool \<Rightarrow> nat \<Rightarrow> efi_status \<Rightarrow> 'w \<Rightarrow> cbuf \<Rightarrow> 'w fetched res" where
  "bail p LocalImage Status w CommBuffer =
    bind_res (FreePool p (Some LocalImage)) (\<lambda>p. Inr (Status, w, p, CommBuffer, None))"

text \<open>The checks of one reply and the copy: the new contents and the bytes received.\<close>

definition accept_chunk ::
    "comm_buffer \<Rightarrow> byte list \<Rightarrow> nat \<Rightarrow> nat \<Rightarrow> nat \<Rightarrow> (efi_status + byte list \<times> nat) res" where
  "accept_chunk b img Offset ThisChunk ExpectedTotal =
    (let Msg = cb_Msg b;
         ChunkReturnedSize = unat (msg_ReturnedSize Msg);
         ChunkStatus = msg_Status Msg
     in if EFI_ERROR ChunkStatus then Inr (Inl ChunkStatus)
        else if ChunkReturnedSize = 0 \<or> ChunkReturnedSize > ThisChunk
        then Inr (Inl EFI_PROTOCOL_ERROR)
        else if Offset + ChunkReturnedSize > ExpectedTotal then Inr (Inl EFI_PROTOCOL_ERROR)
        else if ChunkReturnedSize > length (msg_Data Msg) then Inl OobRead
        else if Offset + ChunkReturnedSize > length img then Inl OobWrite
        else Inr (Inr (copy_at Offset (take ChunkReturnedSize (msg_Data Msg)) img,
                       ChunkReturnedSize)))"

lemma accept_chunk_pos: "accept_chunk b img off c t = Inr (Inr (img', k)) \<Longrightarrow> 0 < k"
  by (auto simp: accept_chunk_def Let_def split: if_splits)

function fetch_loop ::
    "'w transport \<Rightarrow> nat \<Rightarrow> nat \<Rightarrow> 'w \<Rightarrow> pool \<Rightarrow> cbuf \<Rightarrow> nat \<Rightarrow> byte list \<Rightarrow> nat \<Rightarrow> nat \<Rightarrow> 'w fetched res"
where
  "fetch_loop Communicate LocalImage ExpectedTotal w p CommBuffer CommBufferAllocSize img Offset
      ChunkCapacity =
    (if Offset < ExpectedTotal then
       (let Remaining = ExpectedTotal - Offset;
            ThisChunk = (if Remaining < ChunkCapacity then Remaining else ChunkCapacity)
        in case SendImageProviderRequest Communicate w p CommBuffer CommBufferAllocSize
                  (of_nat Offset) (of_nat ThisChunk) of
             Inl f \<Rightarrow> Inl f
           | Inr (Status, w, p, CommBuffer, asz, MsgSize) \<Rightarrow>
               if EFI_ERROR Status then bail p LocalImage Status w CommBuffer
               else if chunk_capacity asz = 0
               then bail p LocalImage EFI_BAD_BUFFER_SIZE w CommBuffer
               else (case CommBuffer of
                       None \<Rightarrow> Inl NullDeref
                     | Some (h, b) \<Rightarrow>
                         (case accept_chunk b img Offset ThisChunk ExpectedTotal of
                            Inl f \<Rightarrow> Inl f
                          | Inr (Inl Status) \<Rightarrow> bail p LocalImage Status w CommBuffer
                          | Inr (Inr (img, ChunkReturnedSize)) \<Rightarrow>
                              fetch_loop Communicate LocalImage ExpectedTotal w p CommBuffer asz img
                                (Offset + ChunkReturnedSize) (chunk_capacity asz))))
     else Inr (EFI_SUCCESS, w, p, CommBuffer, Some img))"
  by pat_completeness auto
termination
proof (relation "measure (\<lambda>(c, l, t, w, p, b, a, i, off, cap). t - off)", goal_cases)
  case 1
  show ?case by simp
next
  case (2 comm l t w p buf a i off cap)
  then show ?case by (auto dest: accept_chunk_pos)
qed

declare fetch_loop.simps [simp del]

text \<open>
  The checks of the size query: an error status, or the expected total size, the format and the
  expected checksum.
\<close>

definition check_query :: "provider_msg \<Rightarrow> efi_status + UINT32 \<times> UINT32 \<times> UINT32" where
  "check_query Msg =
    (if EFI_ERROR (msg_Status Msg) then Inl (msg_Status Msg)
     else if msg_TotalImageSize Msg = 0 \<or> msg_ReturnedSize Msg \<noteq> 0 then Inl EFI_PROTOCOL_ERROR
     else if msg_ImageGuid Msg \<noteq> ONE_CRYPTO_BINARY_GUID then Inl EFI_COMPROMISED_DATA
     else Inr (msg_TotalImageSize Msg, msg_Format Msg, msg_Crc32 Msg))"

text \<open>
  \<open>LocateStatus\<close> is what \<^verbatim>\<open>gBS->LocateProtocol\<close> returned for the communication protocol, \<open>crc\<close>
  is \<^verbatim>\<open>CalculateCrc32\<close> and \<open>junk\<close> the contents of freshly allocated memory. The result holds
  the status, \<^verbatim>\<open>*ImageData\<close> with its contents, \<^verbatim>\<open>*ImageSize\<close>, \<^verbatim>\<open>*Format\<close>, the other side and
  the pool. The \<^verbatim>\<open>Exit\<close> block frees the communication buffer.
\<close>

type_synonym 'w image_result =
  "efi_status \<times> (nat \<times> byte list) option \<times> nat \<times> UINT32 \<times> 'w \<times> pool"

definition fetch_exit ::
    "efi_status \<Rightarrow> (nat \<times> byte list) option \<Rightarrow> nat \<Rightarrow> UINT32 \<Rightarrow> 'w \<Rightarrow> pool \<Rightarrow> cbuf
     \<Rightarrow> 'w image_result res" where
  "fetch_exit Status ImageData ImageSize Format w p CommBuffer =
    (if CommBuffer \<noteq> None
     then bind_res (FreePool p (map_option fst CommBuffer)) (\<lambda>p.
            Inr (Status, ImageData, ImageSize, Format, w, p))
     else Inr (Status, ImageData, ImageSize, Format, w, p))"

definition FetchImageFromMm ::
    "efi_status \<Rightarrow> 'w transport \<Rightarrow> (byte list \<Rightarrow> UINT32) \<Rightarrow> (nat \<Rightarrow> byte) \<Rightarrow> 'w \<Rightarrow> pool
     \<Rightarrow> 'w image_result res" where
  "FetchImageFromMm LocateStatus Communicate crc junk w p =
    (let Format = ONE_CRYPTO_IMAGE_FORMAT_PE32 in
     if EFI_ERROR LocateStatus then Inr (LocateStatus, None, 0, Format, w, p)
     else (case AllocatePool p ONE_CRYPTO_COMM_BUFFER_TARGET_SIZE of
        (None, p) \<Rightarrow> Inr (EFI_OUT_OF_RESOURCES, None, 0, Format, w, p)
      | (Some h, p) \<Rightarrow>
        (case SendImageProviderRequest Communicate w p
                (Some (h, zero_buffer ONE_CRYPTO_COMM_BUFFER_TARGET_SIZE))
                ONE_CRYPTO_COMM_BUFFER_TARGET_SIZE 0 0 of
           Inl f \<Rightarrow> Inl f
         | Inr (Status, w, p, CommBuffer, asz, MsgSize) \<Rightarrow>
             if EFI_ERROR Status then fetch_exit Status None 0 Format w p CommBuffer
             else (case CommBuffer of
                None \<Rightarrow> Inl NullDeref
              | Some (h, b) \<Rightarrow>
                (case check_query (cb_Msg b) of
                   Inl Status \<Rightarrow> fetch_exit Status None 0 Format w p CommBuffer
                 | Inr (ExpectedTotal, Format, ExpectedCrc) \<Rightarrow>
                   (case AllocatePool p (unat ExpectedTotal) of
                      (None, p) \<Rightarrow> fetch_exit EFI_OUT_OF_RESOURCES None 0 Format w p CommBuffer
                    | (Some LocalImage, p) \<Rightarrow>
                      bind_res
                        (if chunk_capacity asz = 0
                         then bail p LocalImage EFI_BAD_BUFFER_SIZE w CommBuffer
                         else fetch_loop Communicate LocalImage (unat ExpectedTotal) w p CommBuffer asz
                                (map junk [0..<unat ExpectedTotal]) 0 (chunk_capacity asz))
                        (\<lambda>(Status, w, p, CommBuffer, img).
                           case img of
                             None \<Rightarrow> fetch_exit Status None 0 Format w p CommBuffer
                           | Some img \<Rightarrow>
                               if crc img \<noteq> ExpectedCrc then
                                 bind_res (bail p LocalImage EFI_CRC_ERROR w CommBuffer)
                                   (\<lambda>(Status, w, p, CommBuffer, img).
                                      fetch_exit Status None 0 Format w p CommBuffer)
                               else fetch_exit EFI_SUCCESS (Some (LocalImage, img))
                                      (unat ExpectedTotal) Format w p CommBuffer)))))))"

end
