(* ===== verification/FetchSafe.thy ===== *)
theory FetchSafe
  imports FetchFromMm
begin

text \<open>
  The transfer against an arbitrary transport and an arbitrary peer: no fault, no leak, and
  the destination never overflows. All that is assumed of the transport is that it answers
  in the buffer it was given.
\<close>

definition comm_inplace :: "'w transport \<Rightarrow> bool" where
  "comm_inplace Communicate \<longleftrightarrow>
    (\<forall>w b n. case Communicate w b n of
       (st, n', b', w') \<Rightarrow> length (msg_Data (cb_Msg b')) = length (msg_Data (cb_Msg b)))"

lemma comm_inplaceD:
  "comm_inplace C \<Longrightarrow> C w b n = (st, n', b', w') \<Longrightarrow> cb_size b' = cb_size b"
  unfolding comm_inplace_def cb_size_def by (auto dest!: spec split: prod.splits)

section \<open>One request\<close>

lemma CommHeaderOverhead_eq [simp]: "CommHeaderOverhead = 24"
  by (simp add: CommHeaderOverhead_def)

text \<open>The request as it is sent.\<close>

definition filled :: "comm_buffer \<Rightarrow> UINT64 \<Rightarrow> UINT32 \<Rightarrow> comm_buffer" where
  "filled b off r = \<lparr>cb_HeaderGuid = ONE_CRYPTO_IMAGE_PROVIDER_GUID,
     cb_MessageLength = of_nat (64 + unat r),
     cb_Msg = (zero_msg (zero_at 0 (unat r) (msg_Data (cb_Msg b))))
       \<lparr>msg_Signature := ONE_CRYPTO_IMAGE_PROVIDER_SIGNATURE,
        msg_Version := ONE_CRYPTO_IMAGE_PROVIDER_VERSION,
        msg_Offset := off, msg_RequestedSize := r\<rparr>\<rparr>"

lemma filled_size: "88 + unat r \<le> cb_size b \<Longrightarrow> cb_size (filled b off r) = cb_size b"
  by (simp add: cb_size_def filled_def zero_msg_def)

text \<open>One round of the loop, for a request that fits the buffer.\<close>

lemma send_round:
  assumes "88 + unat r \<le> asz" and "asz \<le> cb_size b"
    and "C w (filled b off r) (88 + unat r) = (st, n, b', w')"
  shows "send_loop C off w p (Some (h, b)) asz r =
    (if st = EFI_BAD_BUFFER_SIZE then
       if n \<le> 88 then Inr (EFI_BAD_BUFFER_SIZE, w', p, Some (h, b'), asz, None)
       else if unat r \<le> max_payload n
       then Inr (EFI_BAD_BUFFER_SIZE, w', p, Some (h, b'), n, None)
       else send_loop C off w' p (Some (h, b')) n (of_nat (max_payload n))
     else if EFI_ERROR st then Inr (st, w', p, Some (h, b'), asz, None)
     else if n < 88 then Inr (EFI_PROTOCOL_ERROR, w', p, Some (h, b'), asz, None)
     else Inr (EFI_SUCCESS, w', p, Some (h, b'), asz, Some (n - 24)))"
proof -
  have g: "grow_buffer p (Some (h, b)) asz (CommHeaderOverhead + (MsgHeaderSize + unat r))
      = Inr (Inr (p, Some (h, b), asz))"
    using assms(1) by (simp add: grow_buffer_def)
  have f: "fill_request b (CommHeaderOverhead + (MsgHeaderSize + unat r)) off r
      = Inr (filled b off r)"
    using assms(1,2) by (simp add: fill_request_def filled_def)
  have c: "C w (filled b off r) (CommHeaderOverhead + (MsgHeaderSize + unat r)) = (st, n, b', w')"
    using assms(3) by simp
  show ?thesis
    by (subst send_loop.simps) (simp add: Let_def g f c del: CommHeaderOverhead_eq MsgHeaderSize_eq,
        simp)
qed

lemma send_safe:
  assumes "comm_inplace C"
  shows "88 + unat r \<le> asz \<Longrightarrow> asz \<le> cb_size b \<Longrightarrow>
    \<exists>st w' b' asz' ms. send_loop C off w p (Some (h, b)) asz r
        = Inr (st, w', p, Some (h, b'), asz', ms)
      \<and> cb_size b' = cb_size b \<and> (\<not> EFI_ERROR st \<longrightarrow> st = EFI_SUCCESS \<and> 88 \<le> asz' \<and> asz' \<le> asz)"
proof (induction "unat r" arbitrary: r asz b w rule: less_induct)
  case less
  obtain st n b' w' where c: "C w (filled b off r) (88 + unat r) = (st, n, b', w')"
    by (cases "C w (filled b off r) (88 + unat r)") auto
  have sz: "cb_size b' = cb_size b"
    using comm_inplaceD [OF assms c] filled_size less.prems by simp
  note round = send_round [where C = C and w = w and b = b and off = off and r = r and asz = asz
      and p = p and h = h, OF less.prems c]
  show ?case
  proof (cases "st = EFI_BAD_BUFFER_SIZE \<and> 88 < n \<and> \<not> unat r \<le> max_payload n")
    case True
    then have mp: "max_payload n < unat r" "88 + max_payload n = n" by (simp_all add: max_payload_def)
    have u: "unat (of_nat (max_payload n) :: 32 word) = max_payload n"
      using unat_of_nat_less [OF mp(1)] .
    have le: "n \<le> cb_size b'" "n \<le> asz" using mp less.prems sz by simp_all
    have "\<exists>st' w'' b'' asz' ms. send_loop C off w' p (Some (h, b')) n (of_nat (max_payload n))
        = Inr (st', w'', p, Some (h, b''), asz', ms)
      \<and> cb_size b'' = cb_size b' \<and> (\<not> EFI_ERROR st' \<longrightarrow> st' = EFI_SUCCESS \<and> 88 \<le> asz' \<and> asz' \<le> n)"
      using mp le by (intro less.hyps) (simp_all add: u)
    then obtain st' w'' b'' asz' ms where
      r: "send_loop C off w' p (Some (h, b')) n (of_nat (max_payload n))
        = Inr (st', w'', p, Some (h, b''), asz', ms)" "cb_size b'' = cb_size b'"
        "\<not> EFI_ERROR st' \<longrightarrow> st' = EFI_SUCCESS \<and> 88 \<le> asz' \<and> asz' \<le> n" by blast
    have "send_loop C off w p (Some (h, b)) asz r = Inr (st', w'', p, Some (h, b''), asz', ms)"
      using True r(1) round by simp
    with r sz le show ?thesis by auto
  next
    case False
    with less.prems sz show ?thesis by (auto simp: round)
  qed
qed

text \<open>A request that does not fit the tracked size first moves to a new buffer.\<close>

lemma send_regrown:
  assumes "\<not> 88 + unat r \<le> asz" and "FreePool p (Some h) = Inr p1"
    and "AllocatePool p1 (88 + unat r) = (Some h2, p2)"
  shows "send_loop C off w p (Some (h, b)) asz r
    = send_loop C off w p2 (Some (h2, zero_buffer (88 + unat r))) (88 + unat r) r"
proof -
  have g: "grow_buffer p (Some (h, b)) asz (CommHeaderOverhead + (MsgHeaderSize + unat r))
      = Inr (Inr (p2, Some (h2, zero_buffer (88 + unat r)), 88 + unat r))"
    "grow_buffer p2 (Some (h2, zero_buffer (88 + unat r))) (88 + unat r)
       (CommHeaderOverhead + (MsgHeaderSize + unat r))
      = Inr (Inr (p2, Some (h2, zero_buffer (88 + unat r)), 88 + unat r))"
    using assms by (simp_all add: grow_buffer_def)
  show ?thesis
    unfolding send_loop.simps [of C off w p "Some (h, b)" asz r]
      send_loop.simps [of C off w p2 "Some (h2, zero_buffer (88 + unat r))" "88 + unat r" r]
      Let_def g by simp
qed

lemma send_grown:
  assumes C: "comm_inplace C" and p: "pool_inv p" "h \<in> pool_live p" and fit: "\<not> 88 + unat r \<le> asz"
  shows "\<exists>st w' p' buf asz' ms. send_loop C off w p (Some (h, b)) asz r = Inr (st, w', p', buf, asz', ms)
    \<and> (case buf of
         None \<Rightarrow> st = EFI_OUT_OF_RESOURCES \<and> asz' = 0 \<and> pool_live p' = pool_live p - {h}
       | Some (h', b') \<Rightarrow> pool_live p' = insert h' (pool_live p - {h})
           \<and> (h' = h \<or> h' \<notin> pool_live p) \<and> 88 + unat r \<le> cb_size b'
           \<and> (\<not> EFI_ERROR st \<longrightarrow> st = EFI_SUCCESS \<and> asz' \<le> cb_size b'))"
proof -
  from FreePool_live [OF p(2,1)] obtain p1 where
    p1: "FreePool p (Some h) = Inr p1" "pool_inv p1" "pool_live p1 = pool_live p - {h}" by blast
  show ?thesis
  proof (cases "AllocatePool p1 (88 + unat r)")
    case (Pair ho p2)
    show ?thesis
    proof (cases ho)
      case None
      have "grow_buffer p (Some (h, b)) asz (CommHeaderOverhead + (MsgHeaderSize + unat r)) = Inr (Inl p2)"
        using fit p1(1) Pair None by (simp add: grow_buffer_def)
      then have "send_loop C off w p (Some (h, b)) asz r = Inr (EFI_OUT_OF_RESOURCES, w, p2, None, 0, None)"
        by (subst send_loop.simps) (simp add: Let_def del: CommHeaderOverhead_eq MsgHeaderSize_eq)
      with AllocatePool_None [OF Pair [unfolded None] p1(2)] p1(3) show ?thesis by simp
    next
      case (Some h2)
      note al = Pair [unfolded Some]
      have z: "cb_size (zero_buffer (88 + unat r)) = 88 + unat r"
        by (simp add: cb_size_def zero_buffer_def zero_msg_def)
      from send_safe [OF C order_refl, of r "zero_buffer (88 + unat r)" off w p2 h2] z obtain st w' b' asz' ms
        where "send_loop C off w p2 (Some (h2, zero_buffer (88 + unat r))) (88 + unat r) r
            = Inr (st, w', p2, Some (h2, b'), asz', ms)" "cb_size b' = 88 + unat r"
          "\<not> EFI_ERROR st \<longrightarrow> st = EFI_SUCCESS \<and> 88 \<le> asz' \<and> asz' \<le> 88 + unat r"
        by auto
      with AllocatePool_Some [OF al p1(2)] p1(3) show ?thesis
        by (simp add: send_regrown [OF fit p1(1) al]) blast
    qed
  qed
qed

section \<open>The transfer loop\<close>

lemma chunk_capacity_eq:
  assumes "88 \<le> asz" and "asz < 2 ^ 64"
  shows "chunk_capacity asz = asz - 88"
proof -
  have e: "(of_nat asz :: UINT64) - of_nat CommHeaderOverhead - of_nat MsgHeaderSize = of_nat (asz - 88)"
    using assms(1) by (simp add: of_nat_diff)
  have "asz - 88 < 2 ^ 64" using assms(2) by simp
  then show ?thesis unfolding chunk_capacity_def e by (rule unat_of_nat64)
qed

lemma bail_live:
  assumes "pool_inv p" and "LocalImage \<in> pool_live p"
  obtains p' where "bail p LocalImage st w buf = Inr (st, w, p', buf, None)" and "pool_inv p'"
    and "pool_live p' = pool_live p - {LocalImage}"
  using FreePool_live [OF assms(2,1)] by (auto simp: bail_def)

lemma accept_chunk_cases:
  assumes "c \<le> length (msg_Data (cb_Msg b))" and "length img = tot"
  obtains (reject) st where "accept_chunk b img off c tot = Inr (Inl st)" and "EFI_ERROR st"
  | (accept) k where "accept_chunk b img off c tot
        = Inr (Inr (copy_at off (take k (msg_Data (cb_Msg b))) img, k))"
      and "k = unat (msg_ReturnedSize (cb_Msg b))" and "0 < k" and "k \<le> c" and "off + k \<le> tot"
proof (cases "EFI_ERROR (msg_Status (cb_Msg b)) \<or> msg_ReturnedSize (cb_Msg b) = 0
    \<or> unat (msg_ReturnedSize (cb_Msg b)) > c \<or> off + unat (msg_ReturnedSize (cb_Msg b)) > tot")
  case True
  then have "\<exists>st. accept_chunk b img off c tot = Inr (Inl st) \<and> EFI_ERROR st"
    by (auto simp: accept_chunk_def Let_def unat_eq_zero)
  with reject show thesis by blast
next
  case False
  with assms show thesis
    by (intro accept [of "unat (msg_ReturnedSize (cb_Msg b))"])
       (auto simp: accept_chunk_def Let_def unat_eq_zero intro!: Nat.gr0I)
qed

definition fetch_outcome ::
    "pool \<Rightarrow> nat \<Rightarrow> nat \<Rightarrow> nat \<Rightarrow> 'w fetched res \<Rightarrow> bool" where
  "fetch_outcome p LocalImage h tot r \<longleftrightarrow>
    (\<exists>st w' p' b' img'. r = Inr (st, w', p', Some (h, b'), img') \<and> pool_inv p'
      \<and> (case img' of
           None \<Rightarrow> EFI_ERROR st \<and> pool_live p' = pool_live p - {LocalImage}
         | Some d \<Rightarrow> st = EFI_SUCCESS \<and> p' = p \<and> length d = tot))"

lemma fetch_loop_safe:
  assumes C: "comm_inplace C" and p: "pool_inv p" "LocalImage \<in> pool_live p"
  shows "length img = tot \<Longrightarrow> 88 \<le> asz \<Longrightarrow> asz \<le> cb_size b \<Longrightarrow> asz < 2 ^ 32 \<Longrightarrow>
    fetch_outcome p LocalImage h tot
      (fetch_loop C LocalImage tot w p (Some (h, b)) asz img off (chunk_capacity asz))"
proof (induction "tot - off" arbitrary: w b asz img off rule: less_induct)
  case less
  show ?case
  proof (cases "off < tot")
    case False
    then show ?thesis
      using less.prems p by (subst fetch_loop.simps) (simp add: fetch_outcome_def)
  next
    case True
    define c where "c = (if tot - off < chunk_capacity asz then tot - off else chunk_capacity asz)"
    have cap: "chunk_capacity asz = asz - 88" using less.prems by (intro chunk_capacity_eq) simp_all
    then have c: "c \<le> asz - 88" "c < 2 ^ 32" using less.prems by (auto simp: c_def)
    have u: "unat (of_nat c :: UINT32) = c" by (rule unat_of_nat32 [OF c(2)])
    have fit: "88 + unat (of_nat c :: UINT32) \<le> asz" unfolding u using c less.prems by simp
    from send_safe [OF C fit less.prems(3), of "of_nat off" w p h] obtain st w' b' asz' ms where
      s: "SendImageProviderRequest C w p (Some (h, b)) asz (of_nat off) (of_nat c)
          = Inr (st, w', p, Some (h, b'), asz', ms)" and sz: "cb_size b' = cb_size b"
      and ok: "\<not> EFI_ERROR st \<longrightarrow> st = EFI_SUCCESS \<and> 88 \<le> asz' \<and> asz' \<le> asz"
      by (auto simp: SendImageProviderRequest_def)
    note step = fetch_loop.simps [of C LocalImage tot w p "Some (h, b)" asz img off "chunk_capacity asz"]
    have bail: "fetch_outcome p LocalImage h tot (bail p LocalImage st w' (Some (h, b')))"
      if "EFI_ERROR st" for st
    proof -
      obtain p' where "bail p LocalImage st w' (Some (h, b')) = Inr (st, w', p', Some (h, b'), None)"
        "pool_inv p'" "pool_live p' = pool_live p - {LocalImage}"
        by (rule bail_live [OF p])
      with that show ?thesis by (simp add: fetch_outcome_def)
    qed
    show ?thesis
    proof (cases "EFI_ERROR st \<or> chunk_capacity asz' = 0")
      case stop: True
      then show ?thesis using True s bail by (auto simp: step c_def [symmetric] Let_def)
    next
      case go: False
      with ok have asz': "88 \<le> asz'" "asz' \<le> asz" by auto
      have "c \<le> length (msg_Data (cb_Msg b'))"
        using c(1) less.prems(3) sz by (simp add: cb_size_def)
      from this less.prems(1) show ?thesis
      proof (cases rule: accept_chunk_cases [where off = off])
        case (reject st')
        then show ?thesis using True go s bail by (auto simp: step c_def [symmetric] Let_def)
      next
        case (accept k)
        let ?img = "copy_at off (take k (msg_Data (cb_Msg b'))) img"
        have "length (take k (msg_Data (cb_Msg b'))) = k"
          using accept(4) \<open>c \<le> length _\<close> by simp
        then have "length ?img = tot" using accept(5) less.prems(1) by simp
        with accept(3) True asz' less.prems sz have
          "fetch_outcome p LocalImage h tot (fetch_loop C LocalImage tot w' p (Some (h, b')) asz'
             ?img (off + k) (chunk_capacity asz'))"
          by (intro less.hyps) simp_all
        with accept(1) True go s show ?thesis by (simp add: step c_def [symmetric] Let_def)
      qed
    qed
  qed
qed

section \<open>The whole transfer\<close>

lemma fetch_exit_live:
  assumes "pool_inv p" and "h \<in> pool_live p"
  obtains p' where "fetch_exit st d n fmt w p (Some (h, b)) = Inr (st, d, n, fmt, w, p')"
    and "pool_inv p'" and "pool_live p' = pool_live p - {h}"
  using FreePool_live [OF assms(2,1)] by (auto simp: fetch_exit_def)

lemma check_query_error: "check_query m = Inl st \<Longrightarrow> EFI_ERROR st"
  by (auto simp: check_query_def split: if_splits)

lemma check_query_pos: "check_query m = Inr (tot, fmt, c) \<Longrightarrow> 0 < unat tot"
  by (auto simp: check_query_def unat_gt_0 split: if_splits)

text \<open>
  What a call of \<^verbatim>\<open>FetchImageFromMm\<close> can come to. On success, \<open>q\<close> is the message that answered
  the size query.
\<close>

definition fetch_failed :: "pool \<Rightarrow> 'w image_result res \<Rightarrow> bool" where
  "fetch_failed p r \<longleftrightarrow> (\<exists>st fmt w' p'. r = Inr (st, None, 0, fmt, w', p')
     \<and> EFI_ERROR st \<and> pool_inv p' \<and> pool_live p' = pool_live p)"

definition fetch_succeeded ::
    "(byte list \<Rightarrow> UINT32) \<Rightarrow> pool \<Rightarrow> provider_msg \<Rightarrow> 'w image_result res \<Rightarrow> bool" where
  "fetch_succeeded crc p q r \<longleftrightarrow> (\<exists>i d fmt w' p' tot.
     r = Inr (EFI_SUCCESS, Some (i, d), length d, fmt, w', p')
     \<and> check_query q = Inr (tot, fmt, crc d) \<and> unat tot = length d \<and> 0 < length d
     \<and> pool_inv p' \<and> i \<notin> pool_live p \<and> pool_live p' = insert i (pool_live p))"

lemma fetch_failed_exit:
  assumes "pool_inv p'" and "h \<in> pool_live p'" and "pool_live p' - {h} = pool_live p"
    and "EFI_ERROR st"
  shows "fetch_failed p (fetch_exit st None 0 fmt w p' (Some (h, b)))"
proof -
  obtain p'' where "fetch_exit st None 0 fmt w p' (Some (h, b)) = Inr (st, None, 0, fmt, w, p'')"
    "pool_inv p''" "pool_live p'' = pool_live p' - {h}"
    by (rule fetch_exit_live [OF assms(1,2)])
  with assms(3,4) show ?thesis by (simp add: fetch_failed_def)
qed

lemma fetch_succeeded_exit:
  assumes "pool_inv p'" and "pool_live p' = insert i (insert h (pool_live p))"
    and "h \<notin> pool_live p" and "i \<notin> insert h (pool_live p)"
    and "check_query q = Inr (tot, fmt, crc d)" and "unat tot = length d" and "0 < length d"
  shows "fetch_succeeded crc p q
    (fetch_exit EFI_SUCCESS (Some (i, d)) (length d) fmt w p' (Some (h, b)))"
proof -
  have "h \<in> pool_live p'" using assms(2) by simp
  then obtain p'' where "fetch_exit EFI_SUCCESS (Some (i, d)) (length d) fmt w p' (Some (h, b))
      = Inr (EFI_SUCCESS, Some (i, d), length d, fmt, w, p'')"
    "pool_inv p''" "pool_live p'' = pool_live p' - {h}"
    by (rule fetch_exit_live [OF assms(1)])
  with assms show ?thesis by (auto simp: fetch_succeeded_def)
qed

text \<open>The transfer and the checksum test, from the point where the destination exists.\<close>

definition fetch_body ::
    "'w transport \<Rightarrow> (nat \<Rightarrow> byte) \<Rightarrow> nat \<Rightarrow> nat \<Rightarrow> 'w \<Rightarrow> pool \<Rightarrow> cbuf \<Rightarrow> nat \<Rightarrow> 'w fetched res" where
  "fetch_body C junk i tot w p buf asz =
    (if chunk_capacity asz = 0 then bail p i EFI_BAD_BUFFER_SIZE w buf
     else fetch_loop C i tot w p buf asz (map junk [0..<tot]) 0 (chunk_capacity asz))"

definition fetch_finish ::
    "(byte list \<Rightarrow> UINT32) \<Rightarrow> nat \<Rightarrow> UINT32 \<Rightarrow> nat \<Rightarrow> UINT32 \<Rightarrow> 'w fetched res \<Rightarrow> 'w image_result res" where
  "fetch_finish crc i c tot fmt r = bind_res r (\<lambda>(Status, w, p, CommBuffer, img).
     case img of
       None \<Rightarrow> fetch_exit Status None 0 fmt w p CommBuffer
     | Some img \<Rightarrow>
         if crc img \<noteq> c then
           bind_res (bail p i EFI_CRC_ERROR w CommBuffer)
             (\<lambda>(Status, w, p, CommBuffer, img). fetch_exit Status None 0 fmt w p CommBuffer)
         else fetch_exit EFI_SUCCESS (Some (i, img)) tot fmt w p CommBuffer)"

lemma fetch_body_outcome:
  assumes "comm_inplace C" and "pool_inv p" and "i \<in> pool_live p"
    and "88 \<le> asz" and "asz \<le> cb_size b" and "asz < 2 ^ 32"
  shows "fetch_outcome p i h tot (fetch_body C junk i tot w p (Some (h, b)) asz)"
proof (cases "chunk_capacity asz = 0")
  case True
  obtain p3 where "bail p i EFI_BAD_BUFFER_SIZE w (Some (h, b))
      = Inr (EFI_BAD_BUFFER_SIZE, w, p3, Some (h, b), None)"
    "pool_inv p3" "pool_live p3 = pool_live p - {i}"
    by (rule bail_live [OF assms(2,3)])
  with True show ?thesis by (simp add: fetch_body_def fetch_outcome_def)
next
  case False
  then show ?thesis
    using assms(4-6) by (simp add: fetch_body_def, intro fetch_loop_safe [OF assms(1-3)]) simp_all
qed

lemma fetch_finish_cases:
  assumes r: "fetch_outcome p2 i h (unat tot) r" and p: "pool_inv p2"
    and live: "pool_live p2 = insert i (insert h (pool_live p))" "h \<notin> pool_live p"
      "i \<notin> insert h (pool_live p)"
    and q: "check_query q = Inr (tot, fmt, c)"
  shows "fetch_failed p (fetch_finish crc i c (unat tot) fmt r)
    \<or> fetch_succeeded crc p q (fetch_finish crc i c (unat tot) fmt r)"
proof -
  from r obtain st w3 p3 b img where b: "r = Inr (st, w3, p3, Some (h, b), img)" "pool_inv p3"
    and img: "case img of None \<Rightarrow> EFI_ERROR st \<and> pool_live p3 = pool_live p2 - {i}
      | Some d \<Rightarrow> st = EFI_SUCCESS \<and> p3 = p2 \<and> length d = unat tot"
    by (auto simp: fetch_outcome_def)
  show ?thesis
  proof (cases img)
    case None
    with img have "fetch_failed p (fetch_exit st None 0 fmt w3 p3 (Some (h, b)))"
      using b(2) live by (intro fetch_failed_exit) auto
    then show ?thesis by (simp add: fetch_finish_def b None)
  next
    case (Some d)
    with img have p3: "p3 = p2" and d: "length d = unat tot" by auto
    show ?thesis
    proof (cases "crc d = c")
      case True
      with q have q': "check_query q = Inr (tot, fmt, crc d)" by simp
      have "fetch_succeeded crc p q
          (fetch_exit EFI_SUCCESS (Some (i, d)) (length d) fmt w3 p2 (Some (h, b)))"
        using p live check_query_pos [OF q] d by (intro fetch_succeeded_exit [where q = q and tot = tot and fmt = fmt and crc = crc and d = d]) (auto intro: q')
      then show ?thesis by (simp add: fetch_finish_def b(1) Some p3 True d)
    next
      case False
      have "i \<in> pool_live p2" using live by simp
      then obtain p4 where p4: "bail p2 i EFI_CRC_ERROR w3 (Some (h, b))
          = Inr (EFI_CRC_ERROR, w3, p4, Some (h, b), None)"
        "pool_inv p4" "pool_live p4 = pool_live p2 - {i}"
        by (rule bail_live [OF p])
      then have "fetch_failed p (fetch_exit EFI_CRC_ERROR None 0 fmt w3 p4 (Some (h, b)))"
        using live by (intro fetch_failed_exit) auto
      with False show ?thesis by (simp add: fetch_finish_def b(1) Some p3 p4(1))
    qed
  qed
qed

text \<open>The part after a successful size query.\<close>

definition fetch_rest ::
    "'w transport \<Rightarrow> (byte list \<Rightarrow> UINT32) \<Rightarrow> (nat \<Rightarrow> byte) \<Rightarrow> 'w \<Rightarrow> pool \<Rightarrow> nat \<Rightarrow> comm_buffer
     \<Rightarrow> nat \<Rightarrow> 'w image_result res" where
  "fetch_rest C crc junk w p h b asz =
    (case check_query (cb_Msg b) of
       Inl st \<Rightarrow> fetch_exit st None 0 ONE_CRYPTO_IMAGE_FORMAT_PE32 w p (Some (h, b))
     | Inr (tot, fmt, c) \<Rightarrow>
         (case AllocatePool p (unat tot) of
            (None, p) \<Rightarrow> fetch_exit EFI_OUT_OF_RESOURCES None 0 fmt w p (Some (h, b))
          | (Some i, p) \<Rightarrow> fetch_finish crc i c (unat tot) fmt
                             (fetch_body C junk i (unat tot) w p (Some (h, b)) asz)))"

lemma FetchImageFromMm_unfold:
  assumes "\<not> EFI_ERROR ls"
    and "AllocatePool p ONE_CRYPTO_COMM_BUFFER_TARGET_SIZE = (Some h, p1)"
    and "SendImageProviderRequest C w p1 (Some (h, zero_buffer ONE_CRYPTO_COMM_BUFFER_TARGET_SIZE))
           ONE_CRYPTO_COMM_BUFFER_TARGET_SIZE 0 0 = Inr (st, w1, p1, Some (h, b), asz, ms)"
  shows "FetchImageFromMm ls C crc junk w p =
    (if EFI_ERROR st then fetch_exit st None 0 ONE_CRYPTO_IMAGE_FORMAT_PE32 w1 p1 (Some (h, b))
     else fetch_rest C crc junk w1 p1 h b asz)"
  using assms
  by (simp add: FetchImageFromMm_def Let_def fetch_rest_def fetch_finish_def fetch_body_def
      split: sum.split prod.split option.split)

lemma fetch_rest_cases:
  assumes C: "comm_inplace C" and p1: "pool_inv p1" "h \<notin> pool_live p" "pool_live p1 = insert h (pool_live p)"
    and asz: "88 \<le> asz" "asz \<le> cb_size b" "asz < 2 ^ 32"
  shows "fetch_failed p (fetch_rest C crc junk w p1 h b asz)
    \<or> fetch_succeeded crc p (cb_Msg b) (fetch_rest C crc junk w p1 h b asz)"
proof (cases "check_query (cb_Msg b)")
  case (Inl st')
  then show ?thesis
    using p1 check_query_error by (auto simp: fetch_rest_def intro: fetch_failed_exit)
next
  case (Inr q)
  obtain tot fmt c where q: "check_query (cb_Msg b) = Inr (tot, fmt, c)" using Inr by (cases q) auto
  show ?thesis
  proof (cases "AllocatePool p1 (unat tot)")
    case (Pair io p2)
    show ?thesis
    proof (cases io)
      case None
      with Pair AllocatePool_None [of p1 "unat tot" p2] p1 have
        "fetch_failed p (fetch_exit EFI_OUT_OF_RESOURCES None 0 fmt w p2 (Some (h, b)))"
        by (intro fetch_failed_exit) auto
      with Pair None q show ?thesis by (simp add: fetch_rest_def)
    next
      case (Some i)
      with Pair p1 have p2: "pool_inv p2" "i \<notin> pool_live p1" "pool_live p2 = insert i (pool_live p1)"
        using AllocatePool_Some [of p1 "unat tot" i p2] by auto
      then have i: "i \<in> pool_live p2" by simp
      from fetch_finish_cases [OF fetch_body_outcome [OF C p2(1) i asz] p2(1) _ p1(2) _ q] p1 p2
        Pair Some q show ?thesis by (simp add: fetch_rest_def)
    qed
  qed
qed

lemma first_request:
  assumes "comm_inplace C"
  obtains st w1 b asz ms where
    "SendImageProviderRequest C w p (Some (h, zero_buffer ONE_CRYPTO_COMM_BUFFER_TARGET_SIZE))
       ONE_CRYPTO_COMM_BUFFER_TARGET_SIZE 0 0 = Inr (st, w1, p, Some (h, b), asz, ms)"
    and "\<not> EFI_ERROR st \<longrightarrow> st = EFI_SUCCESS \<and> 88 \<le> asz \<and> asz \<le> cb_size b \<and> asz < 2 ^ 32"
proof -
  let ?n = "ONE_CRYPTO_COMM_BUFFER_TARGET_SIZE"
  have sz: "cb_size (zero_buffer ?n) = ?n" "88 + unat (0 :: UINT32) \<le> ?n" "?n < 2 ^ 32"
    by (simp_all add: cb_size_def zero_buffer_def zero_msg_def ONE_CRYPTO_COMM_BUFFER_TARGET_SIZE_def)
  then have "?n \<le> cb_size (zero_buffer ?n)" by simp
  from send_safe [OF assms sz(2) this, of 0 w p h] sz show thesis
    by (force simp: SendImageProviderRequest_def intro: that)
qed

lemma FetchImageFromMm_cases:
  assumes C: "comm_inplace C" and p: "pool_inv p"
  shows "fetch_failed p (FetchImageFromMm ls C crc junk w p) \<or>
    (\<exists>h p1 w1 b1 asz ms. AllocatePool p ONE_CRYPTO_COMM_BUFFER_TARGET_SIZE = (Some h, p1)
      \<and> SendImageProviderRequest C w p1 (Some (h, zero_buffer ONE_CRYPTO_COMM_BUFFER_TARGET_SIZE))
          ONE_CRYPTO_COMM_BUFFER_TARGET_SIZE 0 0 = Inr (EFI_SUCCESS, w1, p1, Some (h, b1), asz, ms)
      \<and> fetch_succeeded crc p (cb_Msg b1) (FetchImageFromMm ls C crc junk w p))"
proof (cases "EFI_ERROR ls \<or> fst (AllocatePool p ONE_CRYPTO_COMM_BUFFER_TARGET_SIZE) = None")
  case True
  then show ?thesis
    using p AllocatePool_None [OF _ p]
    by (cases "AllocatePool p ONE_CRYPTO_COMM_BUFFER_TARGET_SIZE")
       (auto simp: FetchImageFromMm_def fetch_failed_def Let_def)
next
  case False
  then obtain h p1 where ls: "\<not> EFI_ERROR ls"
    and al: "AllocatePool p ONE_CRYPTO_COMM_BUFFER_TARGET_SIZE = (Some h, p1)"
    by (cases "AllocatePool p ONE_CRYPTO_COMM_BUFFER_TARGET_SIZE") auto
  note p1 = AllocatePool_Some [OF al p]
  obtain st w1 b asz ms where
    s: "SendImageProviderRequest C w p1 (Some (h, zero_buffer ONE_CRYPTO_COMM_BUFFER_TARGET_SIZE))
       ONE_CRYPTO_COMM_BUFFER_TARGET_SIZE 0 0 = Inr (st, w1, p1, Some (h, b), asz, ms)"
    and ok: "\<not> EFI_ERROR st \<longrightarrow> st = EFI_SUCCESS \<and> 88 \<le> asz \<and> asz \<le> cb_size b \<and> asz < 2 ^ 32"
    by (rule first_request [OF C, of w p1 h])
  note eq = FetchImageFromMm_unfold [OF ls al s, of crc junk]
  show ?thesis
  proof (cases "EFI_ERROR st")
    case True
    with p1 have "fetch_failed p (fetch_exit st None 0 ONE_CRYPTO_IMAGE_FORMAT_PE32 w1 p1 (Some (h, b)))"
      by (intro fetch_failed_exit) auto
    with True show ?thesis by (simp add: eq)
  next
    case False
    with ok have "88 \<le> asz" "asz \<le> cb_size b" "asz < 2 ^ 32" "st = EFI_SUCCESS" by simp_all
    from fetch_rest_cases [OF C p1(1-3) this(1-3)] al s this(4) False show ?thesis
      by (simp add: eq)
  qed
qed

end
