(* ===== verification/MmTransfer.thy ===== *)
theory MmTransfer
  imports ImageServe FetchSafe
begin

text \<open>
  The two ends of the transfer together: the DXE loader talks to the provider's handler over a
  transport with a fixed region, and receives exactly the image that the firmware holds.
\<close>

section \<open>The transport\<close>

text \<open>
  What the loader's comments say of the MM communication driver: a request larger than the
  region is refused with \<^verbatim>\<open>EFI_BAD_BUFFER_SIZE\<close> and the size of the region; a smaller one is
  dispatched on its header GUID to the registered handler, which sees the message part of the
  buffer, and the size that comes back is the handler's plus the header. \<open>addr\<close> is where the
  region lies.
\<close>

definition msg_view :: "comm_buffer \<Rightarrow> nat \<Rightarrow> provider_msg" where
  "msg_view b n = (cb_Msg b)\<lparr>msg_Data := take (n - 88) (msg_Data (cb_Msg b))\<rparr>"

definition msg_store :: "comm_buffer \<Rightarrow> provider_msg \<Rightarrow> comm_buffer" where
  "msg_store b m = b\<lparr>cb_Msg := m\<lparr>msg_Data :=
     msg_Data m @ drop (length (msg_Data m)) (msg_Data (cb_Msg b))\<rparr>\<rparr>"

definition addressed_to_provider :: "comm_buffer \<Rightarrow> nat \<Rightarrow> bool" where
  "addressed_to_provider b n \<longleftrightarrow> cb_HeaderGuid b = ONE_CRYPTO_IMAGE_PROVIDER_GUID
     \<and> unat (cb_MessageLength b) = n - 24 \<and> 88 \<le> n \<and> n \<le> cb_size b"

definition relays_to_provider ::
    "bool \<Rightarrow> mm_env \<Rightarrow> ptr \<Rightarrow> nat \<Rightarrow> provider_globals transport \<Rightarrow> bool" where
  "relays_to_provider dbg E addr region Communicate \<longleftrightarrow>
    (\<forall>g b n. (region < n \<longrightarrow> Communicate g b n = (EFI_BAD_BUFFER_SIZE, region, b, g)) \<and>
      (n \<le> region \<and> addressed_to_provider b n \<longrightarrow>
        (\<forall>st g' m' s. OneCryptoImageProviderHandler dbg E g addr (msg_view b n) (Some (n - 24))
            = Some (Inr (st, g', m', Some s))
          \<longrightarrow> Communicate g b n = (st, 24 + s, msg_store b m', g'))))"

lemma relayD:
  assumes "relays_to_provider dbg E addr region C" and "n \<le> region" and "addressed_to_provider b n"
    and "OneCryptoImageProviderHandler dbg E g addr (msg_view b n) (Some (n - 24))
        = Some (Inr (st, g', m', Some s))"
  shows "C g b n = (st, 24 + s, msg_store b m', g')"
  using assms unfolding relays_to_provider_def by blast

text \<open>A transport that does just that; every other message is answered with an error.\<close>

definition mm_transport ::
    "bool \<Rightarrow> mm_env \<Rightarrow> ptr \<Rightarrow> nat \<Rightarrow> provider_globals transport" where
  "mm_transport dbg E addr region g b n =
    (if region < n then (EFI_BAD_BUFFER_SIZE, region, b, g)
     else if addressed_to_provider b n then
       (case OneCryptoImageProviderHandler dbg E g addr (msg_view b n) (Some (n - 24)) of
          Some (Inr (st, g', m', Some s)) \<Rightarrow> (st, 24 + s, msg_store b m', g')
        | _ \<Rightarrow> (EFI_NOT_FOUND, n, b, g))
     else (EFI_NOT_FOUND, n, b, g))"

lemma mm_transport_relays: "relays_to_provider dbg E addr region (mm_transport dbg E addr region)"
  by (auto simp: relays_to_provider_def mm_transport_def)

lemma serve_chunk_length:
  assumes "serve_chunk g img m n off r = Inr (st, g', m', s)"
  shows "length (msg_Data m') = length (msg_Data m)"
proof (cases "r = 0 \<or> unat off > mOneCryptoImageSize g")
  case True
  with assms show ?thesis by (auto simp: serve_chunk_def Let_def split: if_splits)
next
  case False
  define k where "k = clamp_copy (unat r) (n - MsgHeaderSize) (mOneCryptoImageSize g - unat off)"
  from False assms show ?thesis
    by (auto simp: serve_chunk_def Let_def k_def [symmetric] split: if_splits)
qed

lemma handler_length:
  assumes "OneCryptoImageProviderHandler dbg E g cb m n = Some (Inr (st, g', m', s))"
  shows "length (msg_Data m') = length (msg_Data m)"
  using assms
  by (auto simp: OneCryptoImageProviderHandler_def quiesce_def Let_def dest!: serve_chunk_length
      split: option.splits if_splits bind_splits)

lemma mm_transport_inplace: "comm_inplace (mm_transport dbg E addr region)"
proof -
  have "length (msg_Data (cb_Msg b')) = length (msg_Data (cb_Msg b))"
    if h: "mm_transport dbg E addr region g b n = (st, n', b', g')" for g b n st n' b' g'
  proof (cases "\<exists>st g' m' s. OneCryptoImageProviderHandler dbg E g addr (msg_view b n) (Some (n - 24))
      = Some (Inr (st, g', m', Some s)) \<and> n \<le> region \<and> addressed_to_provider b n")
    case True
    then obtain st1 g1 m1 s1 where
      m: "OneCryptoImageProviderHandler dbg E g addr (msg_view b n) (Some (n - 24))
        = Some (Inr (st1, g1, m1, Some s1))" and a: "n \<le> region" "addressed_to_provider b n" by blast
    from handler_length [OF m] a(2) have "length (msg_Data m1) \<le> length (msg_Data (cb_Msg b))"
      by (simp add: msg_view_def)
    moreover have "b' = msg_store b m1" using h m a by (simp add: mm_transport_def)
    ultimately show ?thesis by (simp add: msg_store_def)
  next
    case False
    with h have "b' = b"
      by (auto simp: mm_transport_def split: if_splits option.splits sum.splits prod.splits)
    then show ?thesis by simp
  qed
  then show ?thesis unfolding comm_inplace_def by (auto split: prod.splits)
qed

section \<open>One request\<close>

text \<open>The reply that the loader finds in its buffer.\<close>

definition good_reply :: "mm_env \<Rightarrow> byte list \<Rightarrow> UINT32 \<Rightarrow> nat \<Rightarrow> nat \<Rightarrow> comm_buffer \<Rightarrow> bool" where
  "good_reply E img fmt off k b \<longleftrightarrow> msg_Status (cb_Msg b) = EFI_SUCCESS
     \<and> msg_ImageGuid (cb_Msg b) = ONE_CRYPTO_BINARY_GUID
     \<and> unat (msg_TotalImageSize (cb_Msg b)) = length img \<and> msg_Format (cb_Msg b) = fmt
     \<and> msg_Crc32 (cb_Msg b) = CalculateCrc32 E img \<and> unat (msg_ReturnedSize (cb_Msg b)) = k
     \<and> take k (msg_Data (cb_Msg b)) = seg off k img"

lemma filled_addressed:
  assumes "88 + unat r \<le> cb_size b"
  shows "addressed_to_provider (filled b off r) (88 + unat r)"
    and "msg_view (filled b off r) (88 + unat r) = (zero_msg (replicate (unat r) 0))
      \<lparr>msg_Signature := ONE_CRYPTO_IMAGE_PROVIDER_SIGNATURE,
       msg_Version := ONE_CRYPTO_IMAGE_PROVIDER_VERSION, msg_Offset := off, msg_RequestedSize := r\<rparr>"
proof -
  have "unat r < 2 ^ 32" using unsigned_less [of r, where 'a = nat] by simp
  then have "unat (of_nat (64 + unat r) :: UINT64) = 64 + unat r" by (intro unat_of_nat64) simp
  with assms show "addressed_to_provider (filled b off r) (88 + unat r)"
    using filled_size [OF assms] by (simp add: addressed_to_provider_def) (simp add: filled_def)
  show "msg_view (filled b off r) (88 + unat r) = (zero_msg (replicate (unat r) 0))
      \<lparr>msg_Signature := ONE_CRYPTO_IMAGE_PROVIDER_SIGNATURE,
       msg_Version := ONE_CRYPTO_IMAGE_PROVIDER_VERSION, msg_Offset := off, msg_RequestedSize := r\<rparr>"
    by (simp add: msg_view_def filled_def zero_msg_def zero_at_def copy_at_def)
qed

text \<open>The setting of the transfer.\<close>

definition link_ok ::
    "bool \<Rightarrow> mm_env \<Rightarrow> (ptr \<Rightarrow> ptr list) \<Rightarrow> (hob_type \<Rightarrow> ptr list) \<Rightarrow> ptr \<Rightarrow> nat \<Rightarrow> byte list
     \<Rightarrow> provider_globals transport \<Rightarrow> bool" where
  "link_ok dbg E files hobs addr region img C \<longleftrightarrow> firmware_ok E files hobs
     \<and> length img \<le> MAX_UINT32 \<and> 88 < region
     \<and> addr \<noteq> 0 \<and> (\<forall>n. MmCommBufferValid E addr n) \<and> relays_to_provider dbg E addr region C"

lemma comm_reply:
  assumes L: "link_ok dbg E files hobs addr region img C" and pr: "provides E files hobs (img, fmt) g"
    and fit: "88 + unat r \<le> region" "88 + unat r \<le> cb_size b" and off: "unat off \<le> length img"
  defines "k \<equiv> min (unat r) (length img - unat off)"
  obtains g' b' where "C g (filled b off r) (88 + unat r) = (EFI_SUCCESS, 88 + k, b', g')"
    and "provides E files hobs (img, fmt) g'" and "cb_size b' = cb_size b"
    and "good_reply E img fmt (unat off) k b'"
proof -
  let ?m = "msg_view (filled b off r) (88 + unat r)"
  note view = filled_addressed [OF fit(2), of off]
  have "unat r < 2 ^ 32" using unsigned_less [of r, where 'a = nat] by simp
  then have bo: "buffer_ok E addr (64 + unat r)"
    using L by (simp add: link_ok_def buffer_ok_def MAX_UINT32_def)
  have m: "request_ok ?m" "length (msg_Data ?m) = 64 + unat r - MsgHeaderSize"
    "msg_Offset ?m = off" "msg_RequestedSize ?m = r"
    by (simp_all add: view(2) request_ok_def zero_msg_def)
  have k: "min (min (unat (msg_RequestedSize ?m)) (64 + unat r - MsgHeaderSize))
      (length img - unat (msg_Offset ?m)) = k"
    by (simp add: m k_def)
  have fw: "firmware_ok E files hobs" "length img \<le> MAX_UINT32" "relays_to_provider dbg E addr region C"
    using L by (simp_all add: link_ok_def)
  from handler_reply [OF fw(1) pr fw(2) bo m(1,2), of dbg, unfolded k] off obtain g' m' where
    h: "OneCryptoImageProviderHandler dbg E g addr ?m (Some (64 + unat r))
        = Some (Inr (EFI_SUCCESS, g', m', Some (MsgHeaderSize + k)))"
    and g': "provides E files hobs (img, fmt) g'"
    and f: "msg_Status m' = EFI_SUCCESS" "msg_ImageGuid m' = ONE_CRYPTO_BINARY_GUID"
      "unat (msg_TotalImageSize m') = length img" "msg_Format m' = fmt"
      "msg_Crc32 m' = CalculateCrc32 E img" "unat (msg_ReturnedSize m') = k"
      "take k (msg_Data m') = seg (unat off) k img" "drop k (msg_Data m') = drop k (msg_Data ?m)"
    unfolding m(3) by auto
  have n: "88 + unat r - 24 = 64 + unat r" by simp
  note c = relayD [OF fw(3) fit(1) view(1), unfolded n, OF h]
  have kr: "k \<le> unat r" by (simp add: k_def)
  have len: "length (msg_Data m') = unat r"
  proof -
    have "length (take k (msg_Data m')) = k"
      using off by (simp only: f(7)) (simp add: k_def seg_def)
    moreover have "length (drop k (msg_Data m')) = unat r - k"
      by (simp only: f(8)) (simp add: view(2) zero_msg_def)
    ultimately show ?thesis using kr by simp
  qed
  have "length (msg_Data (cb_Msg (filled b off r))) = length (msg_Data (cb_Msg b))"
    using filled_size [OF fit(2)] by (simp add: cb_size_def)
  then have "cb_size (msg_store (filled b off r) m') = cb_size b"
    using len fit(2) by (simp add: msg_store_def cb_size_def)
  moreover have "good_reply E img fmt (unat off) k (msg_store (filled b off r) m')"
    using f kr len by (simp add: good_reply_def msg_store_def)
  ultimately show thesis using that [OF _ g'] c by simp
qed

lemma send_relay:
  assumes L: "link_ok dbg E files hobs addr region img C" and pr: "provides E files hobs (img, fmt) g"
    and fit: "88 + unat r \<le> asz" "asz \<le> cb_size b" and off: "unat off \<le> length img"
  obtains g' b' asz' ms k where
    "send_loop C off g p (Some (h, b)) asz r = Inr (EFI_SUCCESS, g', p, Some (h, b'), asz', ms)"
    and "provides E files hobs (img, fmt) g'" and "cb_size b' = cb_size b" and "asz' \<le> asz"
    and "88 < asz' \<or> asz' = asz" and "good_reply E img fmt (unat off) k b'" and "k \<le> unat r"
    and "0 < unat r \<and> unat off < length img \<longrightarrow> 0 < k" and "unat off + k \<le> length img"
proof -
  have ok: "EFI_SUCCESS \<noteq> EFI_BAD_BUFFER_SIZE" by (simp add: status_defs)
  have region: "88 < region" "relays_to_provider dbg E addr region C" using L by (simp_all add: link_ok_def)
  show thesis
  proof (cases "88 + unat r \<le> region")
    case True
    have "88 + unat r \<le> cb_size b" using fit by simp
    from comm_reply [OF L pr True this off] obtain g' b' where
      c: "C g (filled b off r) (88 + unat r)
          = (EFI_SUCCESS, 88 + min (unat r) (length img - unat off), b', g')"
      and r: "provides E files hobs (img, fmt) g'" "cb_size b' = cb_size b"
        "good_reply E img fmt (unat off) (min (unat r) (length img - unat off)) b'" .
    from send_round [where C = C and w = g and b = b and off = off and r = r and asz = asz and p = p
        and h = h, OF fit c] show thesis
      by (intro that [OF _ r(1,2) _ _ r(3)]) (use ok off in \<open>auto simp: word_gt_0_no unat_gt_0\<close>)
  next
    case False
    define r' where "r' = (of_nat (max_payload region) :: UINT32)"
    have mp: "max_payload region = region - 88" by (simp add: max_payload_def)
    have lt: "max_payload region < unat r" using False mp region(1) by simp
    then have r': "unat r' = region - 88" unfolding r'_def mp [symmetric] by (rule unat_of_nat_less)
    have c1: "C g (filled b off r) (88 + unat r) = (EFI_BAD_BUFFER_SIZE, region, filled b off r, g)"
      using region(2) False unfolding relays_to_provider_def by simp
    have sz: "cb_size (filled b off r) = cb_size b" using fit by (intro filled_size) simp
    have fit': "88 + unat r' \<le> region" "region \<le> cb_size (filled b off r)" "88 + unat r' \<le> cb_size (filled b off r)"
      using r' region False fit sz by simp_all
    from comm_reply [OF L pr fit'(1,3) off] obtain g' b' where
      c: "C g (filled (filled b off r) off r') (88 + unat r')
          = (EFI_SUCCESS, 88 + min (unat r') (length img - unat off), b', g')"
      and r: "provides E files hobs (img, fmt) g'" "cb_size b' = cb_size (filled b off r)"
        "good_reply E img fmt (unat off) (min (unat r') (length img - unat off)) b'" .
    have "send_loop C off g p (Some (h, b)) asz r
        = send_loop C off g p (Some (h, filled b off r)) region r'"
      using send_round [where C = C and w = g and b = b and off = off and r = r and asz = asz and p = p
        and h = h, OF fit c1] region lt by (simp add: r'_def)
    also have "\<dots> = Inr (EFI_SUCCESS, g', p, Some (h, b'), region,
        Some (88 + min (unat r') (length img - unat off) - 24))"
      using send_round [where C = C and w = g and b = "filled b off r" and off = off and r = r'
        and asz = region and p = p and h = h, OF fit'(1,2) c] ok by simp
    finally have s: "send_loop C off g p (Some (h, b)) asz r = Inr (EFI_SUCCESS, g', p, Some (h, b'),
        region, Some (88 + min (unat r') (length img - unat off) - 24))" .
    have "region \<le> asz" "min (unat r') (length img - unat off) \<le> unat r"
      "unat off < length img \<longrightarrow> 0 < min (unat r') (length img - unat off)"
      "unat off + min (unat r') (length img - unat off) \<le> length img"
      using fit(1) False region(1) off r' by simp_all
    with that [OF s r(1) _ _ _ r(3)] sz r(2) region(1) show thesis by simp
  qed
qed

section \<open>The loop and the whole transfer\<close>

lemma take_copy_seg:
  assumes "take off dst = take off img" and "off + k \<le> length img" and "length dst = length img"
  shows "take (off + k) (copy_at off (seg off k img) dst) = take (off + k) img"
proof -
  have "length (seg off k img) = k" using assms(2) by simp
  then have "take (off + k) (copy_at off (seg off k img) dst) = take off img @ seg off k img"
    using assms by (simp add: copy_at_def)
  then show ?thesis by (simp add: seg_def take_add)
qed

lemma accept_good:
  assumes "good_reply E img fmt off k b" and "0 < k" and "k \<le> c" and "off + k \<le> length img"
    and "k \<le> length (msg_Data (cb_Msg b))" and "length dst = length img"
  shows "accept_chunk b dst off c (length img) = Inr (Inr (copy_at off (seg off k img) dst, k))"
  using assms by (simp add: accept_chunk_def Let_def good_reply_def)

lemma fetch_loop_relay:
  assumes L: "link_ok dbg E files hobs addr region img C"
  shows "provides E files hobs (img, fmt) g \<Longrightarrow> length dst = length img \<Longrightarrow>
    take off dst = take off img \<Longrightarrow> off \<le> length img \<Longrightarrow> 88 < asz \<Longrightarrow> asz \<le> cb_size b \<Longrightarrow>
    asz < 2 ^ 32 \<Longrightarrow>
    \<exists>g' b'. fetch_loop C i (length img) g p (Some (h, b)) asz dst off (chunk_capacity asz)
        = Inr (EFI_SUCCESS, g', p, Some (h, b'), Some img)
      \<and> provides E files hobs (img, fmt) g'"
proof (induction "length img - off" arbitrary: g dst off asz b rule: less_induct)
  case less
  note step = fetch_loop.simps [of C i "length img" g p "Some (h, b)" asz dst off "chunk_capacity asz"]
  show ?case
  proof (cases "off < length img")
    case False
    then have "dst = img" using less.prems(2-4) by simp
    with False less.prems(1) show ?thesis by (subst fetch_loop.simps) simp
  next
    case True
    define c where "c = (if length img - off < chunk_capacity asz then length img - off else chunk_capacity asz)"
    have cap: "chunk_capacity asz = asz - 88" using less.prems by (intro chunk_capacity_eq) simp_all
    then have c: "0 < c" "c \<le> asz - 88" "c < 2 ^ 32" using less.prems True by (auto simp: c_def)
    have r: "unat (of_nat c :: UINT32) = c" by (rule unat_of_nat32 [OF c(3)])
    have "length img < 2 ^ 32" using L by (simp add: link_ok_def MAX_UINT32_def)
    then have o: "unat (of_nat off :: UINT64) = off" using True by (intro unat_of_nat64) simp
    have fit: "88 + unat (of_nat c :: UINT32) \<le> asz" using r c less.prems by simp
    have off: "unat (of_nat off :: UINT64) \<le> length img" using o True by simp
    from send_relay [OF L less.prems(1) fit less.prems(6) off, of p h] obtain g' b' asz' ms k where
      s: "send_loop C (of_nat off) g p (Some (h, b)) asz (of_nat c)
          = Inr (EFI_SUCCESS, g', p, Some (h, b'), asz', ms)"
      and g': "provides E files hobs (img, fmt) g'" and sz: "cb_size b' = cb_size b"
      and asz': "asz' \<le> asz" "88 < asz' \<or> asz' = asz"
      and gr: "good_reply E img fmt (unat (of_nat off :: UINT64)) k b'"
      and k0: "k \<le> unat (of_nat c :: UINT32)"
        "0 < unat (of_nat c :: UINT32) \<and> unat (of_nat off :: UINT64) < length img \<longrightarrow> 0 < k"
        "unat (of_nat off :: UINT64) + k \<le> length img" .
    from k0 True c(1) have k: "k \<le> c" "0 < k" "off + k \<le> length img" unfolding o r by simp_all
    have "k \<le> length (msg_Data (cb_Msg b'))"
      using k(1) c(2) less.prems(6) sz by (simp add: cb_size_def)
    note acc = accept_good [OF gr [unfolded o] k(2,1,3) this less.prems(2)]
    have cap': "chunk_capacity asz' \<noteq> 0"
      using asz' less.prems by (subst chunk_capacity_eq) auto
    have len: "length (copy_at off (seg off k img) dst) = length img"
      using k(3) less.prems(2) by simp
    have "\<exists>g'' b''. fetch_loop C i (length img) g' p (Some (h, b')) asz' (copy_at off (seg off k img) dst)
          (off + k) (chunk_capacity asz') = Inr (EFI_SUCCESS, g'', p, Some (h, b''), Some img)
        \<and> provides E files hobs (img, fmt) g''"
      using k True asz' less.prems sz take_copy_seg [OF less.prems(3) k(3) less.prems(2)]
      by (intro less.hyps g' len) auto
    with s acc cap' True show ?thesis
      by (simp add: step c_def [symmetric] Let_def SendImageProviderRequest_def)
  qed
qed

lemma FetchImageFromMm_relay:
  assumes L: "link_ok dbg E files hobs addr region img C"
    and pr: "provides E files hobs (img, fmt) g" and ls: "\<not> EFI_ERROR ls"
    and p: "pool_inv p" "\<forall>i n. pool_ok p i n"
  shows "\<exists>i g' p'. FetchImageFromMm ls C (CalculateCrc32 E) junk g p
      = Inr (EFI_SUCCESS, Some (i, img), length img, fmt, g', p')
    \<and> i \<notin> pool_live p \<and> pool_inv p' \<and> pool_live p' = insert i (pool_live p)
    \<and> pool_ok p' = pool_ok p"
proof -
  let ?n = "ONE_CRYPTO_COMM_BUFFER_TARGET_SIZE"
  have fw: "firmware_ok E files hobs" using L by (simp add: link_ok_def)
  have l: "length img < 2 ^ 32" using L by (simp add: link_ok_def MAX_UINT32_def)
  have ne: "img \<noteq> []" using provides_Locate(2) [OF fw pr] by simp
  obtain h p1 where al: "AllocatePool p ?n = (Some h, p1)" using p(2) by (auto simp: AllocatePool_def)
  note p1 = AllocatePool_Some [OF al p(1)]
  have n: "88 + unat (0 :: UINT32) \<le> ?n" "?n = cb_size (zero_buffer ?n)" "?n < 2 ^ 32" "88 < ?n"
    by (simp_all add: cb_size_def zero_buffer_def zero_msg_def ONE_CRYPTO_COMM_BUFFER_TARGET_SIZE_def)
  have z: "unat (0 :: UINT64) \<le> length img" "?n \<le> cb_size (zero_buffer ?n)" using n by simp_all
  from send_relay [OF L pr n(1) z(2,1), of p1 h] obtain g1 b asz ms k where
    s: "send_loop C 0 g p1 (Some (h, zero_buffer ?n)) ?n 0 = Inr (EFI_SUCCESS, g1, p1, Some (h, b), asz, ms)"
    and g1: "provides E files hobs (img, fmt) g1" and b: "cb_size b = cb_size (zero_buffer ?n)"
    and asz: "asz \<le> ?n" "88 < asz \<or> asz = ?n" and gr: "good_reply E img fmt 0 0 b"
    by (metis le_zero_eq unsigned_0)
  have q: "check_query (cb_Msg b) = Inr (of_nat (length img), fmt, CalculateCrc32 E img)"
  proof -
    have t: "msg_TotalImageSize (cb_Msg b) = of_nat (length img)"
      using gr by (intro unsigned_word_eqI [where ?'a = nat])
        (simp add: good_reply_def unat_of_nat32 [OF l])
    have "msg_TotalImageSize (cb_Msg b) \<noteq> 0" "msg_ReturnedSize (cb_Msg b) = 0"
      using gr ne by (auto simp: good_reply_def unat_eq_zero)
    with gr t show ?thesis by (simp add: check_query_def good_reply_def)
  qed
  have u: "unat (of_nat (length img) :: UINT32) = length img" by (rule unat_of_nat32 [OF l])
  obtain i p2 where al2: "AllocatePool p1 (length img) = (Some i, p2)"
    using p(2) p1(4) by (auto simp: AllocatePool_def)
  note p2 = AllocatePool_Some [OF al2 p1(1)]
  have cap: "chunk_capacity asz \<noteq> 0" using asz n by (subst chunk_capacity_eq) auto
  obtain g2 b2 where
    f: "fetch_loop C i (length img) g1 p2 (Some (h, b)) asz (map junk [0..<length img]) 0
          (chunk_capacity asz) = Inr (EFI_SUCCESS, g2, p2, Some (h, b2), Some img)"
    using fetch_loop_relay [OF L g1, of "map junk [0..<length img]" 0 asz b i p2 h] asz n b
    by auto
  have "h \<in> pool_live p2" using p1 p2 by simp
  then obtain p3 where "fetch_exit EFI_SUCCESS (Some (i, img)) (length img) fmt g2 p2 (Some (h, b2))
      = Inr (EFI_SUCCESS, Some (i, img), length img, fmt, g2, p3)"
    "pool_inv p3" "pool_live p3 = pool_live p2 - {h}"
    by (rule fetch_exit_live [OF p2(1)])
  moreover from this(1) have "pool_ok p3 = pool_ok p2"
    by (auto simp: fetch_exit_def FreePool_def split: if_splits)
  moreover have "SendImageProviderRequest C g p1 (Some (h, zero_buffer ?n)) ?n 0 0
      = Inr (EFI_SUCCESS, g1, p1, Some (h, b), asz, ms)"
    using s by (simp add: SendImageProviderRequest_def)
  ultimately show ?thesis
    using p1 p2 FetchImageFromMm_unfold [OF ls al, of C g, of EFI_SUCCESS g1 b asz ms]
    by (auto simp: fetch_rest_def q u al2 fetch_body_def cap f fetch_finish_def)
qed

end
