(* ===== verification/MmTransferProps.thy ===== *)
theory MmTransferProps
  imports MmTransfer ImageDemo
begin

text \<open>
  The properties of the transfer: what the loader gets from an honest provider, and what it
  never does whatever the provider and the transport do.
\<close>

section \<open>Concrete transports for the witnesses\<close>

text \<open>A region of 90 bytes carries two payload bytes, so the three-byte image takes two chunks.\<close>

lemma demo_link_ok:
  "link_ok False demo_env demo_files demo_hobs 0x5000 90 [1, 2, 3] (mm_transport False demo_env 0x5000 90)"
proof -
  have "\<forall>n. MmCommBufferValid demo_env 0x5000 n" by (simp add: demo_env_def)
  then show ?thesis
    by (simp add: link_ok_def demo_firmware_ok MAX_UINT32_def mm_transport_relays)
qed

text \<open>A transport that always claims a larger region, one byte short of the request.\<close>

definition rude_transport :: "unit transport" where
  "rude_transport w b n = (EFI_BAD_BUFFER_SIZE, n - 1, b, w)"

lemma rude_transport_inplace: "comm_inplace rude_transport"
  by (simp add: comm_inplace_def rude_transport_def)

lemma demo_transport_inplace: "comm_inplace (mm_transport False demo_env 0x5000 90)"
  by (rule mm_transport_inplace)

section \<open>Properties\<close>

text \<open>C6: over a transport with a fixed region, however small, that relays to the provider's
  handler, and with memory available, \<^verbatim>\<open>FetchImageFromMm\<close> succeeds and returns exactly the
  image the provider's firmware holds, with its format, in one new pool block.\<close>

theorem fetch_delivers_firmware_image:
  assumes "firmware_ok E files hobs" and "firmware_image E files hobs = Some (img, fmt)"
    and "length img \<le> MAX_UINT32" and "CommHeaderOverhead + MsgHeaderSize < region"
    and "addr \<noteq> 0" and "\<forall>n. MmCommBufferValid E addr n"
    and "relays_to_provider dbg E addr region C"
    and "\<not> EFI_ERROR ls" and "pool_inv p" and "\<forall>i n. pool_ok p i n"
  shows "\<exists>i g' p'. FetchImageFromMm ls C (CalculateCrc32 E) junk initial_globals p
      = Inr (EFI_SUCCESS, Some (i, img), length img, fmt, g', p')
    \<and> i \<notin> pool_live p \<and> pool_live p' = insert i (pool_live p)"
proof -
  have "provides E files hobs (img, fmt) initial_globals"
    using assms(2) by (simp add: provides_def) (simp add: initial_globals_def)
  moreover have "link_ok dbg E files hobs addr region img C"
    using assms by (simp add: link_ok_def)
  ultimately show ?thesis
    using FetchImageFromMm_relay [OF _ _ assms(8-10)] by blast
qed

theorem fetch_delivers_firmware_image_witness:
  "\<exists>i g' p'. FetchImageFromMm EFI_SUCCESS (mm_transport False demo_env 0x5000 90)
      (CalculateCrc32 demo_env) (\<lambda>i. 0xAF) initial_globals (empty_pool (\<lambda>i n. True))
      = Inr (EFI_SUCCESS, Some (i, [1, 2, 3]), 3, ONE_CRYPTO_IMAGE_FORMAT_PE32, g', p')
    \<and> pool_live p' = {i}"
proof -
  have v: "\<forall>n. MmCommBufferValid demo_env 0x5000 n" by (simp add: demo_env_def)
  have n: "length [1, 2, 3 :: byte] \<le> MAX_UINT32" "CommHeaderOverhead + MsgHeaderSize < 90"
    "(0x5000 :: ptr) \<noteq> 0" "\<not> EFI_ERROR EFI_SUCCESS"
    "\<forall>i n. pool_ok (empty_pool (\<lambda>i n. True)) i n" "pool_live (empty_pool (\<lambda>i n. True)) = {}"
    by (simp_all add: MAX_UINT32_def empty_pool_def)
  have l: "length [1, 2, 3 :: byte] = 3" by simp
  from fetch_delivers_firmware_image [OF demo_firmware_ok demo_image n(1,2,3) v mm_transport_relays
      n(4) empty_pool_inv n(5), where junk = "\<lambda>i. 0xAF" and dbg = False]
  show ?thesis unfolding n(6) l by blast
qed

text \<open>C11: for every transport that answers in place, every peer behind it and every pattern of
  allocation failures, \<^verbatim>\<open>FetchImageFromMm\<close> returns without a fault (no overflow of the
  reassembly buffer, no read past the communication buffer, no double free); on failure every
  block it took is free again, on success exactly the returned image is live.\<close>

theorem fetch_safe_no_leak:
  assumes "comm_inplace C" and "pool_inv p"
  shows "\<exists>st d n fmt w' p'. FetchImageFromMm ls C crc junk w p = Inr (st, d, n, fmt, w', p')
    \<and> (case d of
         None \<Rightarrow> EFI_ERROR st \<and> n = 0 \<and> pool_live p' = pool_live p
       | Some (i, img) \<Rightarrow> st = EFI_SUCCESS \<and> n = length img \<and> 0 < n
           \<and> i \<notin> pool_live p \<and> pool_live p' = insert i (pool_live p))"
  using FetchImageFromMm_cases [OF assms, of ls crc junk w]
  by (fastforce simp: fetch_failed_def fetch_succeeded_def)

theorem fetch_safe_no_leak_witness:
  "\<exists>st d n fmt w' p'. FetchImageFromMm EFI_SUCCESS rude_transport (\<lambda>d. 0) (\<lambda>i. 0) ()
      (empty_pool (\<lambda>i n. even i)) = Inr (st, d, n, fmt, w', p')
    \<and> (case d of
         None \<Rightarrow> EFI_ERROR st \<and> n = 0 \<and> pool_live p' = pool_live (empty_pool (\<lambda>i n. even i))
       | Some (i, img) \<Rightarrow> st = EFI_SUCCESS \<and> n = length img \<and> 0 < n
           \<and> i \<notin> pool_live (empty_pool (\<lambda>i n. even i))
           \<and> pool_live p' = insert i (pool_live (empty_pool (\<lambda>i n. even i))))"
  by (rule fetch_safe_no_leak [OF rude_transport_inplace]) simp

text \<open>an image is only returned after it passed the integrity checks: the reply to the size
  query carried the OneCrypto GUID and a success status, and announced exactly the length, the
  format and the CRC-32 of the returned bytes.\<close>

theorem fetch_verified:
  assumes "comm_inplace C" and "pool_inv p"
    and "FetchImageFromMm ls C crc junk w p = Inr (st, Some (i, img), n, fmt, w', p')"
  shows "\<exists>h p1 w1 b asz ms. AllocatePool p ONE_CRYPTO_COMM_BUFFER_TARGET_SIZE = (Some h, p1)
    \<and> SendImageProviderRequest C w p1 (Some (h, zero_buffer ONE_CRYPTO_COMM_BUFFER_TARGET_SIZE))
        ONE_CRYPTO_COMM_BUFFER_TARGET_SIZE 0 0 = Inr (EFI_SUCCESS, w1, p1, Some (h, b), asz, ms)
    \<and> \<not> EFI_ERROR (msg_Status (cb_Msg b)) \<and> msg_ImageGuid (cb_Msg b) = ONE_CRYPTO_BINARY_GUID
    \<and> unat (msg_TotalImageSize (cb_Msg b)) = length img \<and> msg_Format (cb_Msg b) = fmt
    \<and> msg_Crc32 (cb_Msg b) = crc img"
proof -
  have nf: "\<not> fetch_failed p (FetchImageFromMm ls C crc junk w p)"
    using assms(3) by (simp add: fetch_failed_def)
  with FetchImageFromMm_cases [OF assms(1,2)] obtain h p1 w1 b asz ms where
    s: "AllocatePool p ONE_CRYPTO_COMM_BUFFER_TARGET_SIZE = (Some h, p1)"
      "SendImageProviderRequest C w p1 (Some (h, zero_buffer ONE_CRYPTO_COMM_BUFFER_TARGET_SIZE))
         ONE_CRYPTO_COMM_BUFFER_TARGET_SIZE 0 0 = Inr (EFI_SUCCESS, w1, p1, Some (h, b), asz, ms)"
    and ok: "fetch_succeeded crc p (cb_Msg b) (FetchImageFromMm ls C crc junk w p)"
    by blast
  from ok assms(3) obtain tot where "check_query (cb_Msg b) = Inr (tot, fmt, crc img)"
    "unat tot = length img" by (auto simp: fetch_succeeded_def)
  with s show ?thesis by (auto simp: check_query_def split: if_splits)
qed

theorem fetch_verified_witness:
  "\<exists>i g' p'. FetchImageFromMm EFI_SUCCESS (mm_transport False demo_env 0x5000 90)
      (CalculateCrc32 demo_env) (\<lambda>i. 0xAF) initial_globals (empty_pool (\<lambda>i n. True))
      = Inr (EFI_SUCCESS, Some (i, [1, 2, 3]), 3, ONE_CRYPTO_IMAGE_FORMAT_PE32, g', p')
    \<and> (\<exists>h p1 w1 b asz ms. SendImageProviderRequest (mm_transport False demo_env 0x5000 90)
        initial_globals p1 (Some (h, zero_buffer ONE_CRYPTO_COMM_BUFFER_TARGET_SIZE))
        ONE_CRYPTO_COMM_BUFFER_TARGET_SIZE 0 0 = Inr (EFI_SUCCESS, w1, p1, Some (h, b), asz, ms)
      \<and> msg_Crc32 (cb_Msg b) = CalculateCrc32 demo_env [1, 2, 3])"
proof -
  have ok: "\<not> EFI_ERROR EFI_SUCCESS" "\<forall>i n. pool_ok (empty_pool (\<lambda>i n. True)) i n"
    by (simp_all add: empty_pool_def)
  have l: "length [1, 2, 3 :: byte] = 3" by simp
  obtain i g' p' where f: "FetchImageFromMm EFI_SUCCESS (mm_transport False demo_env 0x5000 90)
      (CalculateCrc32 demo_env) (\<lambda>i. 0xAF) initial_globals (empty_pool (\<lambda>i n. True))
      = Inr (EFI_SUCCESS, Some (i, [1, 2, 3]), 3, ONE_CRYPTO_IMAGE_FORMAT_PE32, g', p')"
    using FetchImageFromMm_relay [OF demo_link_ok demo_provides ok(1) empty_pool_inv ok(2),
      of "\<lambda>i. 0xAF"] unfolding l by blast
  from fetch_verified [OF demo_transport_inplace empty_pool_inv f] obtain h p1 w1 b asz ms where
    "SendImageProviderRequest (mm_transport False demo_env 0x5000 90) initial_globals p1
      (Some (h, zero_buffer ONE_CRYPTO_COMM_BUFFER_TARGET_SIZE))
      ONE_CRYPTO_COMM_BUFFER_TARGET_SIZE 0 0 = Inr (EFI_SUCCESS, w1, p1, Some (h, b), asz, ms)"
    "msg_Crc32 (cb_Msg b) = CalculateCrc32 demo_env [1, 2, 3]"
    by (elim exE conjE) (rule that)
  with f show ?thesis by blast
qed

text \<open>one request is safe for every requested size and every transport: the loop ends, the
  buffer is reallocated at most once and never used after it was freed, it always has room for
  the reply to the original request, and on success the size reported to the caller does not
  exceed the buffer.\<close>

theorem send_request_safe:
  assumes "comm_inplace C" and "pool_inv p" and "h \<in> pool_live p" and "asz \<le> cb_size b"
  shows "\<exists>st w' p' buf asz' ms. SendImageProviderRequest C w p (Some (h, b)) asz off r
      = Inr (st, w', p', buf, asz', ms)
    \<and> (case buf of
         None \<Rightarrow> st = EFI_OUT_OF_RESOURCES \<and> asz' = 0 \<and> pool_live p' = pool_live p - {h}
       | Some (h', b') \<Rightarrow> pool_live p' = insert h' (pool_live p - {h})
           \<and> (h' = h \<or> h' \<notin> pool_live p)
           \<and> CommHeaderOverhead + MsgHeaderSize + unat r \<le> cb_size b'
           \<and> (\<not> EFI_ERROR st \<longrightarrow> st = EFI_SUCCESS \<and> asz' \<le> cb_size b'))"
proof (cases "88 + unat r \<le> asz")
  case True
  from send_safe [OF assms(1) True assms(4), of off w p h] assms(3,4) True show ?thesis
    by (fastforce simp: SendImageProviderRequest_def)
next
  case False
  have hs: "CommHeaderOverhead + MsgHeaderSize + unat r = 88 + unat r" by simp
  show ?thesis
    unfolding hs SendImageProviderRequest_def by (rule send_grown [OF assms(1-3) False])
qed

theorem send_request_safe_witness:
  "\<exists>st w' p' buf asz' ms. SendImageProviderRequest rude_transport ()
      (empty_pool (\<lambda>i n. True)\<lparr>pool_next := 1, pool_live := {0}\<rparr>)
      (Some (0, zero_buffer 100)) 100 0 64 = Inr (st, w', p', buf, asz', ms)"
proof -
  let ?p = "empty_pool (\<lambda>i n. True)\<lparr>pool_next := 1, pool_live := {0}\<rparr>"
  have p: "pool_inv ?p" "0 \<in> pool_live ?p" by (simp_all add: pool_inv_def)
  have b: "100 \<le> cb_size (zero_buffer 100)" by (simp add: cb_size_def zero_buffer_def zero_msg_def)
  from send_request_safe [OF rude_transport_inplace p b, of "()" 0 64] obtain st w' p' buf asz' ms where
    "SendImageProviderRequest rude_transport () ?p (Some (0, zero_buffer 100)) 100 0 64
      = Inr (st, w', p', buf, asz', ms)" by blast
  then show ?thesis by blast
qed

end
