(* ===== verification/PeCoff.thy ===== *)
theory PeCoff
  imports Prelude
begin

text \<open>
  \<^verbatim>\<open>Library/PeCoffExtendedLib/PeCoffExtendedLib.c\<close>: the export directory of a loaded PE image
  and the search for an exported function, over the bytes of the image.

  \<^item> The image is \<open>img_Bytes\<close>, addressed from \<^verbatim>\<open>Context.ImageAddress\<close>; a read outside it is a
    fault, because the code computes addresses from fields of the image without checking them.
  \<^item> The offsets of the PE header fields are those of the PE/COFF format.
  \<^item> NULL arguments are \<open>None\<close>. \<^verbatim>\<open>AsciiStrCmp\<close> belongs to BaseLib and is a parameter: it
    gets the image, the address of one string and the other string, without its terminator.
  \<^item> \<^verbatim>\<open>DEBUG\<close> output is not modelled, except that \<^verbatim>\<open>PrintExportedFunctions\<close> returns the
    addresses of the names it prints.
\<close>

section \<open>Little-endian reads\<close>

definition read8 :: "byte list \<Rightarrow> nat \<Rightarrow> byte res" where
  "read8 m a = (if a < length m then Inr (m ! a) else Inl OobRead)"

definition read16 :: "byte list \<Rightarrow> nat \<Rightarrow> UINT16 res" where
  "read16 m a = (if a + 2 \<le> length m
     then Inr (ucast (m ! a) OR push_bit 8 (ucast (m ! (a + 1)))) else Inl OobRead)"

definition read32 :: "byte list \<Rightarrow> nat \<Rightarrow> UINT32 res" where
  "read32 m a = (if a + 4 \<le> length m
     then Inr (ucast (m ! a) OR push_bit 8 (ucast (m ! (a + 1)))
               OR push_bit 16 (ucast (m ! (a + 2))) OR push_bit 24 (ucast (m ! (a + 3))))
     else Inl OobRead)"

section \<open>The image context\<close>

record image_context =
  img_Bytes :: "byte list"
  img_Address :: ptr
  img_Machine :: UINT16
  img_PeCoffHeaderOffset :: UINT32
  img_ImageType :: UINT16

definition EFI_IMAGE_MACHINE_IA32 :: UINT16 where "EFI_IMAGE_MACHINE_IA32 = 0x014C"
definition EFI_IMAGE_MACHINE_X64 :: UINT16 where "EFI_IMAGE_MACHINE_X64 = 0x8664"
definition EFI_IMAGE_MACHINE_AARCH64 :: UINT16 where "EFI_IMAGE_MACHINE_AARCH64 = 0xAA64"
definition EFI_IMAGE_NT_SIGNATURE :: UINT32 where "EFI_IMAGE_NT_SIGNATURE = 0x00004550"
definition HDR32_MAGIC :: UINT16 where "HDR32_MAGIC = 0x10B"
definition HDR64_MAGIC :: UINT16 where "HDR64_MAGIC = 0x20B"

text \<open>Offsets from the PE signature: the optional header, and in it the two fields per format.\<close>

definition optional_header :: nat where "optional_header = 4 + 20"
definition rva_count_offset :: "bool \<Rightarrow> nat" where
  "rva_count_offset pe32 = optional_header + (if pe32 then 92 else 108)"
definition data_directory_offset :: "bool \<Rightarrow> nat" where
  "data_directory_offset pe32 = optional_header + (if pe32 then 96 else 112)"

section \<open>GetExportDirectoryInPeCoffImage\<close>

text \<open>
  The choice of the header format: \<open>Some True\<close> for PE32, \<open>Some False\<close> for PE32+, \<open>None\<close> for
  \<^verbatim>\<open>EFI_UNSUPPORTED\<close>.
\<close>

definition machine_magic :: "UINT16 \<Rightarrow> UINT16 option" where
  "machine_magic m =
    (if m = EFI_IMAGE_MACHINE_IA32 then Some HDR32_MAGIC
     else if m = EFI_IMAGE_MACHINE_X64 \<or> m = EFI_IMAGE_MACHINE_AARCH64 then Some HDR64_MAGIC
     else None)"

text \<open>The directory entry and its checks, for a PE32 or a PE32+ header at \<open>h\<close>.\<close>

definition read_directory :: "byte list \<Rightarrow> nat \<Rightarrow> bool \<Rightarrow> (efi_status \<times> UINT32 option) res" where
  "read_directory m h pe32 =
    bind_res (read32 m (h + rva_count_offset pe32)) (\<lambda>NumberOfRvaAndSizes.
      if NumberOfRvaAndSizes \<le> 0 then Inr (EFI_NOT_FOUND, None)
      else bind_res (read32 m (h + data_directory_offset pe32)) (\<lambda>VirtualAddress.
        if VirtualAddress = 0 then Inr (EFI_NOT_FOUND, None)
        else bind_res (read32 m (h + data_directory_offset pe32 + 4)) (\<lambda>Size.
          if NOT 0 - VirtualAddress < Size then Inr (EFI_UNSUPPORTED, None)
          else Inr (EFI_SUCCESS, Some VirtualAddress))))"

definition GetExportDirectoryInPeCoffImage ::
    "image_context option \<Rightarrow> (efi_status \<times> UINT32 option) res" where
  "GetExportDirectoryInPeCoffImage Ctx =
    (case Ctx of
       None \<Rightarrow> Inr (EFI_INVALID_PARAMETER, None)
     | Some Img \<Rightarrow>
         (case machine_magic (img_Machine Img) of
            None \<Rightarrow> Inr (EFI_UNSUPPORTED, None)
          | Some Magic \<Rightarrow>
              let m = img_Bytes Img;
                  h = unat (img_PeCoffHeaderOffset Img)
              in bind_res (read32 m h) (\<lambda>Signature.
                 if Signature \<noteq> EFI_IMAGE_NT_SIGNATURE then Inr (EFI_UNSUPPORTED, None)
                 else if Magic = HDR32_MAGIC then read_directory m h True
                 else bind_res (read16 m (h + optional_header)) (\<lambda>HeaderMagic.
                   if HeaderMagic = HDR64_MAGIC then read_directory m h False
                   else Inr (EFI_UNSUPPORTED, None)))))"

section \<open>The export directory\<close>

text \<open>The fields of \<^verbatim>\<open>EFI_IMAGE_EXPORT_DIRECTORY\<close> at address \<open>d\<close>.\<close>

definition NumberOfNames :: "byte list \<Rightarrow> nat \<Rightarrow> UINT32 res" where
  "NumberOfNames m d = read32 m (d + 24)"
definition AddressOfFunctions :: "byte list \<Rightarrow> nat \<Rightarrow> UINT32 res" where
  "AddressOfFunctions m d = read32 m (d + 28)"
definition AddressOfNames :: "byte list \<Rightarrow> nat \<Rightarrow> UINT32 res" where
  "AddressOfNames m d = read32 m (d + 32)"
definition AddressOfNameOrdinals :: "byte list \<Rightarrow> nat \<Rightarrow> UINT32 res" where
  "AddressOfNameOrdinals m d = read32 m (d + 36)"

section \<open>PrintExportedFunctions\<close>

function print_loop :: "byte list \<Rightarrow> nat \<Rightarrow> nat \<Rightarrow> nat \<Rightarrow> UINT32 list res" where
  "print_loop m names n Index =
    (if Index < n then
       bind_res (read32 m (names + 4 * Index)) (\<lambda>a.
         map_sum id (\<lambda>as. a # as) (print_loop m names n (Suc Index)))
     else Inr [])"
  by pat_completeness auto
termination by (relation "measure (\<lambda>(m, a, n, i). n - i)") auto

declare print_loop.simps [simp del]

definition PrintExportedFunctions ::
    "image_context option \<Rightarrow> UINT32 option \<Rightarrow> UINT32 list res" where
  "PrintExportedFunctions Ctx ExportDirectory =
    (case (Ctx, ExportDirectory) of
       (Some Img, Some d) \<Rightarrow>
         bind_res (AddressOfNames (img_Bytes Img) (unat d)) (\<lambda>names.
         bind_res (NumberOfNames (img_Bytes Img) (unat d)) (\<lambda>n.
           print_loop (img_Bytes Img) (unat names) (unat n) 0))
     | _ \<Rightarrow> Inr [])"

section \<open>FindExportedFunction\<close>

type_synonym strcmp = "byte list \<Rightarrow> nat \<Rightarrow> byte list \<Rightarrow> int res"

function find_loop ::
    "strcmp \<Rightarrow> byte list \<Rightarrow> nat \<Rightarrow> nat \<Rightarrow> nat \<Rightarrow> byte list \<Rightarrow> nat \<Rightarrow> nat
     \<Rightarrow> (efi_status \<times> UINT32 option) res" where
  "find_loop AsciiStrCmp m names ordinals functions FunctionName n Index =
    (if Index < n then
       bind_res (read32 m (names + 4 * Index)) (\<lambda>CurrentFunctionName.
       bind_res (AsciiStrCmp m (unat CurrentFunctionName) FunctionName) (\<lambda>c.
         if c = 0 then
           bind_res (read16 m (ordinals + 2 * Index)) (\<lambda>ord.
           bind_res (read32 m (functions + 4 * unat ord)) (\<lambda>f. Inr (EFI_SUCCESS, Some f)))
         else find_loop AsciiStrCmp m names ordinals functions FunctionName n (Suc Index)))
     else Inr (EFI_NOT_FOUND, None))"
  by pat_completeness auto
termination by (relation "measure (\<lambda>(c, m, a, b, d, f, n, i). n - i)") auto

declare find_loop.simps [simp del]

definition FindExportedFunction ::
    "strcmp \<Rightarrow> image_context option \<Rightarrow> UINT32 option \<Rightarrow> byte list option
     \<Rightarrow> (efi_status \<times> UINT32 option) res" where
  "FindExportedFunction AsciiStrCmp Ctx ExportDirectory FunctionName =
    (case (Ctx, ExportDirectory, FunctionName) of
       (Some Img, Some d, Some name) \<Rightarrow>
         let m = img_Bytes Img in
         bind_res (AddressOfNames m (unat d)) (\<lambda>names.
         bind_res (AddressOfNameOrdinals m (unat d)) (\<lambda>ordinals.
         bind_res (AddressOfFunctions m (unat d)) (\<lambda>functions.
         bind_res (NumberOfNames m (unat d)) (\<lambda>n.
           find_loop AsciiStrCmp m (unat names) (unat ordinals) (unat functions) name (unat n) 0))))
     | _ \<Rightarrow> Inr (EFI_INVALID_PARAMETER, None))"

end
