(* ===== verification/PeCoffProps.thy ===== *)
theory PeCoffProps
  imports PeCoff
begin

text \<open>
  The search of the export table against its specification, the checks of the directory entry,
  and what the missing bounds checks mean for a malformed image.
\<close>

section \<open>Reads in bounds\<close>

lemma read32_in: "a + 4 \<le> length m \<Longrightarrow> \<exists>v. read32 m a = Inr v"
  by (simp add: read32_def)

lemma read32_out: "length m < a + 4 \<Longrightarrow> read32 m a = Inl OobRead"
  by (simp add: read32_def)

lemma read32_fault: "read32 m a = Inl f \<Longrightarrow> f = OobRead"
  by (auto simp: read32_def split: if_splits)

lemma read16_fault: "read16 m a = Inl f \<Longrightarrow> f = OobRead"
  by (auto simp: read16_def split: if_splits)

lemma no_wrap:
  fixes va sz :: UINT32
  assumes "\<not> - 1 - va < sz"
  shows "unat va + unat sz < 4294967296"
proof -
  have "unat (- 1 - va) = unat (- 1 :: UINT32) - unat va" by (rule unat_sub) simp
  moreover have "unat (- 1 :: UINT32) = 2 ^ 32 - 1" by (simp add: unsigned_minus_1_eq_mask mask_eq_exp_minus_1)
  moreover have "unat sz \<le> unat (- 1 - va)" using assms by (simp add: word_le_nat_alt not_less)
  moreover have "unat va < 2 ^ 32" using unsigned_less [of va, where 'a = nat] by simp
  ultimately show ?thesis by simp
qed

lemma read_directory_outcome:
  "case read_directory m h pe32 of
     Inl f \<Rightarrow> f = OobRead
   | Inr (st, Some rva) \<Rightarrow> st = EFI_SUCCESS \<and> rva \<noteq> 0
       \<and> (\<exists>sz. read32 m (h + data_directory_offset pe32 + 4) = Inr sz \<and> unat rva + unat sz < 2 ^ 32)
   | Inr (st, None) \<Rightarrow> st \<in> {EFI_UNSUPPORTED, EFI_NOT_FOUND}"
  by (auto simp: read_directory_def bind_res_def no_wrap split: sum.splits dest: read32_fault)

section \<open>The specification of the search\<close>

text \<open>
  What the search relies on \<^verbatim>\<open>AsciiStrCmp\<close> for: the comparison returns, and it returns zero
  exactly for the name that is stored at the address.
\<close>

definition strcmp_ok :: "strcmp \<Rightarrow> byte list \<Rightarrow> (nat \<Rightarrow> byte list) \<Rightarrow> bool" where
  "strcmp_ok cmp m string_at \<longleftrightarrow>
    (\<forall>a name. \<exists>c. cmp m a name = Inr c \<and> (c = 0 \<longleftrightarrow> string_at a = name))"

text \<open>
  An export table inside the image: \<open>names\<close> are the addresses of the names, \<open>ordinals\<close> the
  ordinals and \<open>functions\<close> the function addresses.
\<close>

definition export_table ::
    "byte list \<Rightarrow> nat \<Rightarrow> UINT32 list \<Rightarrow> UINT16 list \<Rightarrow> (nat \<Rightarrow> UINT32) \<Rightarrow> bool" where
  "export_table m d names ordinals func \<longleftrightarrow>
    (\<exists>na oa fa n. AddressOfNames m d = Inr na \<and> AddressOfNameOrdinals m d = Inr oa
      \<and> AddressOfFunctions m d = Inr fa \<and> NumberOfNames m d = Inr n
      \<and> unat n = length names \<and> length ordinals = length names
      \<and> (\<forall>i < length names. read32 m (unat na + 4 * i) = Inr (names ! i)
           \<and> read16 m (unat oa + 2 * i) = Inr (ordinals ! i)
           \<and> read32 m (unat fa + 4 * unat (ordinals ! i)) = Inr (func (unat (ordinals ! i)))))"

text \<open>The first entry with the name, through its ordinal.\<close>

definition lookup_export ::
    "(nat \<Rightarrow> byte list) \<Rightarrow> UINT32 list \<Rightarrow> UINT16 list \<Rightarrow> (nat \<Rightarrow> UINT32) \<Rightarrow> byte list \<Rightarrow> UINT32 option"
where
  "lookup_export string_at names ordinals func name =
    map_option (\<lambda>i. func (unat (ordinals ! i)))
      (find (\<lambda>i. string_at (unat (names ! i)) = name) [0..<length names])"

lemma find_upt_step:
  "i < n \<Longrightarrow> find P [i..<n] = (if P i then Some i else find P [Suc i..<n])"
  by (simp add: upt_conv_Cons)

lemma find_loop_spec:
  assumes cmp: "strcmp_ok cmp m string_at"
    and tab: "\<forall>i < length names. read32 m (na + 4 * i) = Inr (names ! i)
           \<and> read16 m (oa + 2 * i) = Inr (ordinals ! i)
           \<and> read32 m (fa + 4 * unat (ordinals ! i)) = Inr (func (unat (ordinals ! i)))"
  shows "i \<le> length names \<Longrightarrow> find_loop cmp m na oa fa name (length names) i = Inr
    (case find (\<lambda>i. string_at (unat (names ! i)) = name) [i..<length names] of
       Some j \<Rightarrow> (EFI_SUCCESS, Some (func (unat (ordinals ! j))))
     | None \<Rightarrow> (EFI_NOT_FOUND, None))"
proof (induction "length names - i" arbitrary: i)
  case 0
  then show ?case by (subst find_loop.simps) simp
next
  case (Suc k)
  then have i: "i < length names" by simp
  from cmp obtain c where c: "cmp m (unat (names ! i)) name = Inr c"
    "c = 0 \<longleftrightarrow> string_at (unat (names ! i)) = name" unfolding strcmp_ok_def by blast
  have IH: "find_loop cmp m na oa fa name (length names) (Suc i) = Inr
      (case find (\<lambda>i. string_at (unat (names ! i)) = name) [Suc i..<length names] of
         Some j \<Rightarrow> (EFI_SUCCESS, Some (func (unat (ordinals ! j))))
       | None \<Rightarrow> (EFI_NOT_FOUND, None))"
    using Suc by simp
  show ?case
    using i tab c by (subst find_loop.simps) (simp add: find_upt_step IH)
qed

section \<open>Properties\<close>

text \<open>on an export table that lies inside the image \<^verbatim>\<open>FindExportedFunction\<close> returns the
  address of the first entry whose name is the requested one, read through its ordinal, and
  \<^verbatim>\<open>EFI_NOT_FOUND\<close> when no entry has that name.\<close>

theorem find_export_first:
  assumes "export_table (img_Bytes Img) (unat d) names ordinals func"
    and "strcmp_ok cmp (img_Bytes Img) string_at"
  shows "FindExportedFunction cmp (Some Img) (Some d) (Some name) = Inr
    (case lookup_export string_at names ordinals func name of
       Some f \<Rightarrow> (EFI_SUCCESS, Some f)
     | None \<Rightarrow> (EFI_NOT_FOUND, None))"
proof -
  from assms(1) obtain na oa fa n where
    t: "AddressOfNames (img_Bytes Img) (unat d) = Inr na"
      "AddressOfNameOrdinals (img_Bytes Img) (unat d) = Inr oa"
      "AddressOfFunctions (img_Bytes Img) (unat d) = Inr fa"
      "NumberOfNames (img_Bytes Img) (unat d) = Inr n" "unat n = length names"
    and tab: "\<forall>i < length names. read32 (img_Bytes Img) (unat na + 4 * i) = Inr (names ! i)
           \<and> read16 (img_Bytes Img) (unat oa + 2 * i) = Inr (ordinals ! i)
           \<and> read32 (img_Bytes Img) (unat fa + 4 * unat (ordinals ! i))
               = Inr (func (unat (ordinals ! i)))"
    unfolding export_table_def by blast
  from find_loop_spec [OF assms(2) tab, of 0 name] show ?thesis
    by (simp add: FindExportedFunction_def t Let_def lookup_export_def split: option.split)
qed

text \<open>A 60-byte image: the directory at 0, one name at 52 ("A"), its ordinal 0 and function 0x77.\<close>

definition demo_image_bytes :: "byte list" where
  "demo_image_bytes = replicate 24 0 @ [1,0,0,0] @ [44,0,0,0] @ [40,0,0,0] @ [48,0,0,0]
     @ [52,0,0,0] @ [0x77,0,0,0] @ [0,0] @ [0,0] @ [65,0] @ [0,0,0,0,0,0]"

definition demo_ctx :: image_context where
  "demo_ctx = \<lparr>img_Bytes = demo_image_bytes, img_Address = 0x10000,
     img_Machine = EFI_IMAGE_MACHINE_X64, img_PeCoffHeaderOffset = 0, img_ImageType = 11\<rparr>"

definition demo_string_at :: "nat \<Rightarrow> byte list" where
  "demo_string_at a = (if a = 52 then [65] else [])"

definition demo_cmp :: strcmp where
  "demo_cmp m a name = Inr (if demo_string_at a = name then 0 else 1)"

lemma demo_strcmp_ok: "strcmp_ok demo_cmp m demo_string_at"
  by (simp add: strcmp_ok_def demo_cmp_def)

lemma demo_export_table:
  "export_table (img_Bytes demo_ctx) 0 [52] [0] (\<lambda>i. 0x77)"
  by (simp add: export_table_def demo_ctx_def demo_image_bytes_def AddressOfNames_def
      AddressOfNameOrdinals_def AddressOfFunctions_def NumberOfNames_def read32_def read16_def
      nth_append nth_Cons')

theorem find_export_first_witness:
  "FindExportedFunction demo_cmp (Some demo_ctx) (Some 0) (Some [65]) = Inr (EFI_SUCCESS, Some 0x77)"
proof -
  have t: "export_table (img_Bytes demo_ctx) (unat (0 :: UINT32)) [52] [0] (\<lambda>i. 0x77)"
    using demo_export_table by simp
  from find_export_first [OF t demo_strcmp_ok, of "[65]"] show ?thesis
    by (simp add: lookup_export_def demo_string_at_def)
qed

text \<open>whatever the image contains, an export directory is only returned for a known machine
  type and a valid signature, with a nonzero address whose range does not wrap around in 32
  bits; otherwise the status is one of the documented errors, and the only fault is a read past
  the end of the image.\<close>

theorem export_directory_checked:
  "case GetExportDirectoryInPeCoffImage (Some Img) of
     Inl f \<Rightarrow> f = OobRead
   | Inr (st, Some rva) \<Rightarrow> st = EFI_SUCCESS \<and> machine_magic (img_Machine Img) \<noteq> None
       \<and> read32 (img_Bytes Img) (unat (img_PeCoffHeaderOffset Img)) = Inr EFI_IMAGE_NT_SIGNATURE
       \<and> rva \<noteq> 0 \<and> (\<exists>pe32 sz. read32 (img_Bytes Img) (unat (img_PeCoffHeaderOffset Img)
             + data_directory_offset pe32 + 4) = Inr sz \<and> unat rva + unat sz < 2 ^ 32)
   | Inr (st, None) \<Rightarrow> st \<in> {EFI_UNSUPPORTED, EFI_NOT_FOUND}"
proof (cases "machine_magic (img_Machine Img)")
  case None
  then show ?thesis by (simp add: GetExportDirectoryInPeCoffImage_def)
next
  case (Some Magic)
  let ?m = "img_Bytes Img" and ?h = "unat (img_PeCoffHeaderOffset Img)"
  show ?thesis
  proof (cases "read32 ?m ?h = Inr EFI_IMAGE_NT_SIGNATURE")
    case False
    with Some show ?thesis
      by (cases "read32 ?m ?h") (auto simp: GetExportDirectoryInPeCoffImage_def Let_def dest: read32_fault)
  next
    case sig: True
    show ?thesis
    proof (cases "Magic = HDR32_MAGIC \<or> read16 ?m (?h + optional_header) = Inr HDR64_MAGIC")
      case True
      then have "GetExportDirectoryInPeCoffImage (Some Img) = read_directory ?m ?h (Magic = HDR32_MAGIC)"
        using Some sig by (auto simp: GetExportDirectoryInPeCoffImage_def Let_def)
      with read_directory_outcome [of ?m ?h "Magic = HDR32_MAGIC"] Some sig show ?thesis
        by (auto split: sum.splits option.splits; blast)
    next
      case False
      with Some sig show ?thesis
        by (cases "read16 ?m (?h + optional_header)")
           (auto simp: GetExportDirectoryInPeCoffImage_def Let_def dest: read16_fault)
    qed
  qed
qed

text \<open>the tables are not bounds-checked against the image: a directory whose name table starts
  past the end of the image makes \<^verbatim>\<open>FindExportedFunction\<close> read outside it as soon as it
  announces one name.\<close>

theorem find_export_unchecked:
  assumes "AddressOfNames (img_Bytes Img) (unat d) = Inr na" and "length (img_Bytes Img) \<le> unat na"
    and "AddressOfNameOrdinals (img_Bytes Img) (unat d) = Inr oa"
    and "AddressOfFunctions (img_Bytes Img) (unat d) = Inr fa"
    and "NumberOfNames (img_Bytes Img) (unat d) = Inr n" and "n \<noteq> 0"
  shows "FindExportedFunction cmp (Some Img) (Some d) (Some name) = Inl OobRead"
proof -
  have "0 < unat n" using assms(6) by (simp add: unat_gt_0)
  moreover have "read32 (img_Bytes Img) (unat na + 4 * 0) = Inl OobRead"
    using assms(2) by (intro read32_out) simp
  ultimately show ?thesis
    by (simp add: FindExportedFunction_def assms Let_def find_loop.simps)
qed

theorem find_export_unchecked_witness:
  "FindExportedFunction demo_cmp (Some (demo_ctx\<lparr>img_Bytes := replicate 24 0 @ [1,0,0,0]
      @ replicate 4 0 @ [0,1,0,0] @ replicate 4 0\<rparr>)) (Some 0) (Some [65]) = Inl OobRead"
  by (rule find_export_unchecked [where na = "0x100" and oa = 0 and fa = 0 and n = 1])
     (simp_all add: AddressOfNames_def AddressOfNameOrdinals_def AddressOfFunctions_def
        NumberOfNames_def read32_def nth_append nth_Cons')

end
