(* ===== verification/CrtDeps.thy ===== *)
theory CrtDeps
  imports Prelude
begin

text \<open>
  The dependency table of the crypto binary (\<^verbatim>\<open>Include/Private/OneCryptoDependencySupport.h\<close>)
  and the libraries that go through it: \<^verbatim>\<open>OneCryptoCrtLib\<close>, \<^verbatim>\<open>RngLibOnOneCrypto\<close>,
  \<^verbatim>\<open>RealTimeClockLibOnOneCrypto\<close>, \<^verbatim>\<open>TimerLibOnOneCrypto\<close> and the three used functions of
  \<^verbatim>\<open>MemoryAllocationLibOnOneCrypto\<close>.

  \<^item> The functions in the table belong to the host: they are fields of the record, \<open>None\<close> for
    NULL, and act on the state \<open>'w\<close> of the host.
  \<^item> An out parameter is passed as the value that the pointer points to (\<open>None\<close> for a NULL
    pointer) and returned with its value after the call.
  \<^item> \<open>mCryptoDependencies\<close> is the static pointer of \<^verbatim>\<open>OneCryptoCrtLib.c\<close>, \<open>None\<close> before setup.
\<close>

section \<open>The table\<close>

record EFI_TIME =
  et_Year :: UINT16
  et_Month :: byte
  et_Day :: byte
  et_Hour :: byte
  et_Minute :: byte
  et_Second :: byte
  et_Nanosecond :: UINT32
  et_TimeZone :: UINT16
  et_Daylight :: byte

record 'w deps =
  dep_Major :: UINT16
  dep_Minor :: UINT16
  dep_Reserved :: UINT32
  dep_AllocatePool :: "(nat \<Rightarrow> 'w \<Rightarrow> ptr option \<times> 'w) option"
  dep_FreePool :: "(ptr option \<Rightarrow> 'w \<Rightarrow> 'w) option"
  dep_GetTime :: "(EFI_TIME option \<Rightarrow> 'w \<Rightarrow> efi_status \<times> EFI_TIME option \<times> 'w) option"
  dep_DebugPrint :: "(nat \<Rightarrow> string \<Rightarrow> 'w \<Rightarrow> 'w) option"
  dep_GetRandomNumber64 :: "(UINT64 option \<Rightarrow> 'w \<Rightarrow> bool \<times> UINT64 option \<times> 'w) option"
  dep_MicroSecondDelay :: "(nat \<Rightarrow> 'w \<Rightarrow> nat \<times> 'w) option"

section \<open>OneCryptoCrtLib\<close>

text \<open>The status, and the new value of \<^verbatim>\<open>mCryptoDependencies\<close>.\<close>

definition OneCryptoCrtSetup :: "'w deps option \<Rightarrow> 'w deps option \<Rightarrow> efi_status \<times> 'w deps option" where
  "OneCryptoCrtSetup mCryptoDependencies Dependencies =
    (case Dependencies of
       None \<Rightarrow> (EFI_INVALID_PARAMETER, mCryptoDependencies)
     | Some d \<Rightarrow> (EFI_SUCCESS, Some d))"

definition OneCryptoAllocatePool :: "'w deps option \<Rightarrow> nat \<Rightarrow> 'w \<Rightarrow> ptr option \<times> 'w" where
  "OneCryptoAllocatePool mCryptoDependencies AllocationSize w =
    (case Option.bind mCryptoDependencies dep_AllocatePool of
       None \<Rightarrow> (None, w)
     | Some f \<Rightarrow> f AllocationSize w)"

text \<open>\<open>zero p n\<close> is the effect of \<^verbatim>\<open>ZeroMem\<close> on the host's memory.\<close>

definition OneCryptoAllocateZeroPool ::
    "(ptr \<Rightarrow> nat \<Rightarrow> 'w \<Rightarrow> 'w) \<Rightarrow> 'w deps option \<Rightarrow> nat \<Rightarrow> 'w \<Rightarrow> ptr option \<times> 'w" where
  "OneCryptoAllocateZeroPool zero mCryptoDependencies AllocationSize w =
    (case OneCryptoAllocatePool mCryptoDependencies AllocationSize w of
       (None, w) \<Rightarrow> (None, w)
     | (Some Buffer, w) \<Rightarrow> (Some Buffer, zero Buffer AllocationSize w))"

definition OneCryptoFreePool :: "'w deps option \<Rightarrow> ptr option \<Rightarrow> 'w \<Rightarrow> 'w" where
  "OneCryptoFreePool mCryptoDependencies Buffer w =
    (case Option.bind mCryptoDependencies dep_FreePool of
       None \<Rightarrow> w
     | Some f \<Rightarrow> f Buffer w)"

definition OneCryptoGetTime ::
    "'w deps option \<Rightarrow> EFI_TIME option \<Rightarrow> 'w \<Rightarrow> efi_status \<times> EFI_TIME option \<times> 'w" where
  "OneCryptoGetTime mCryptoDependencies Time w =
    (case Option.bind mCryptoDependencies dep_GetTime of
       None \<Rightarrow> (EFI_UNSUPPORTED, Time, w)
     | Some f \<Rightarrow> f Time w)"

definition OneCryptoGetRandomNumber64 ::
    "'w deps option \<Rightarrow> UINT64 option \<Rightarrow> 'w \<Rightarrow> bool \<times> UINT64 option \<times> 'w" where
  "OneCryptoGetRandomNumber64 mCryptoDependencies Rand w =
    (case Option.bind mCryptoDependencies dep_GetRandomNumber64 of
       None \<Rightarrow> (False, Rand, w)
     | Some f \<Rightarrow> f Rand w)"

definition OneCryptoMicroSecondDelay :: "'w deps option \<Rightarrow> nat \<Rightarrow> 'w \<Rightarrow> nat \<times> 'w" where
  "OneCryptoMicroSecondDelay mCryptoDependencies MicroSeconds w =
    (case Option.bind mCryptoDependencies dep_MicroSecondDelay of
       None \<Rightarrow> (0, w)
     | Some f \<Rightarrow> f MicroSeconds w)"

text \<open>
  \<^verbatim>\<open>AsciiVSPrint\<close> into a 256-byte buffer belongs to PrintLib: \<open>format\<close> is its result for the
  size of the buffer. The host gets the finished string.
\<close>

definition OneCryptoDebugPrint ::
    "(nat \<Rightarrow> string) \<Rightarrow> 'w deps option \<Rightarrow> nat \<Rightarrow> 'w \<Rightarrow> 'w" where
  "OneCryptoDebugPrint format mCryptoDependencies ErrorLevel w =
    (case Option.bind mCryptoDependencies dep_DebugPrint of
       None \<Rightarrow> w
     | Some f \<Rightarrow> f ErrorLevel (format 256) w)"

section \<open>RngLibOnOneCrypto\<close>

definition GetRandomNumber64 ::
    "'w deps option \<Rightarrow> UINT64 option \<Rightarrow> 'w \<Rightarrow> bool \<times> UINT64 option \<times> 'w" where
  "GetRandomNumber64 m Rand w =
    (if Rand = None then (False, Rand, w) else OneCryptoGetRandomNumber64 m Rand w)"

text \<open>\<open>junk\<close> is the uninitialised local \<^verbatim>\<open>Rand64\<close>.\<close>

definition GetRandomNumber16 ::
    "UINT64 \<Rightarrow> 'w deps option \<Rightarrow> UINT16 option \<Rightarrow> 'w \<Rightarrow> bool \<times> UINT16 option \<times> 'w" where
  "GetRandomNumber16 junk m Rand w =
    (if Rand = None then (False, Rand, w)
     else (case GetRandomNumber64 m (Some junk) w of
             (ok, Rand64, w) \<Rightarrow>
               if \<not> ok then (False, Rand, w)
               else (True, map_option (\<lambda>r. ucast (r AND 0xFFFF)) Rand64, w)))"

definition GetRandomNumber32 ::
    "UINT64 \<Rightarrow> 'w deps option \<Rightarrow> UINT32 option \<Rightarrow> 'w \<Rightarrow> bool \<times> UINT32 option \<times> 'w" where
  "GetRandomNumber32 junk m Rand w =
    (if Rand = None then (False, Rand, w)
     else (case GetRandomNumber64 m (Some junk) w of
             (ok, Rand64, w) \<Rightarrow>
               if \<not> ok then (False, Rand, w)
               else (True, map_option (\<lambda>r. ucast (r AND 0xFFFFFFFF)) Rand64, w)))"

text \<open>\<open>Rand\<close> holds the two 64-bit halves.\<close>

definition GetRandomNumber128 ::
    "'w deps option \<Rightarrow> (UINT64 \<times> UINT64) option \<Rightarrow> 'w \<Rightarrow> bool \<times> (UINT64 \<times> UINT64) option \<times> 'w" where
  "GetRandomNumber128 m Rand w =
    (case Rand of
       None \<Rightarrow> (False, None, w)
     | Some (r0, r1) \<Rightarrow>
         (case GetRandomNumber64 m (Some r0) w of
            (ok0, r0', w) \<Rightarrow>
              if \<not> ok0 then (False, Some (case_option r0 id r0', r1), w)
              else (case GetRandomNumber64 m (Some r1) w of
                      (ok1, r1', w) \<Rightarrow>
                        (ok1, Some (case_option r0 id r0', case_option r1 id r1'), w))))"

definition GetRngGuid :: efi_status where
  "GetRngGuid = EFI_UNSUPPORTED"

section \<open>RealTimeClockLibOnOneCrypto\<close>

definition LibGetTime ::
    "'w deps option \<Rightarrow> EFI_TIME option \<Rightarrow> 'w \<Rightarrow> efi_status \<times> EFI_TIME option \<times> 'w" where
  "LibGetTime m Time w =
    (if Time = None then (EFI_INVALID_PARAMETER, Time, w) else OneCryptoGetTime m Time w)"

definition LibSetTime :: "EFI_TIME option \<Rightarrow> efi_status" where
  "LibSetTime Time = EFI_UNSUPPORTED"

definition LibGetWakeupTime :: "'e option \<Rightarrow> 'p option \<Rightarrow> EFI_TIME option \<Rightarrow> efi_status" where
  "LibGetWakeupTime Enabled Pending Time = EFI_UNSUPPORTED"

definition LibSetWakeupTime :: "bool \<Rightarrow> EFI_TIME option \<Rightarrow> efi_status" where
  "LibSetWakeupTime Enabled Time = EFI_UNSUPPORTED"

section \<open>TimerLibOnOneCrypto\<close>

definition MicroSecondDelay :: "'w deps option \<Rightarrow> nat \<Rightarrow> 'w \<Rightarrow> nat \<times> 'w" where
  "MicroSecondDelay m MicroSeconds w = OneCryptoMicroSecondDelay m MicroSeconds w"

definition NanoSecondDelay :: "nat \<Rightarrow> nat" where
  "NanoSecondDelay NanoSeconds = NanoSeconds"

definition GetPerformanceCounter :: UINT64 where
  "GetPerformanceCounter = 0"

text \<open>The two out parameters after the call, and the result.\<close>

definition GetPerformanceCounterProperties ::
    "UINT64 option \<Rightarrow> UINT64 option \<Rightarrow> UINT64 option \<times> UINT64 option \<times> UINT64" where
  "GetPerformanceCounterProperties StartValue EndValue =
    (map_option (\<lambda>_. 0) StartValue, map_option (\<lambda>_. 0) EndValue, 0)"

definition GetTimeInNanoSecond :: "UINT64 \<Rightarrow> UINT64" where
  "GetTimeInNanoSecond Ticks = 0"

section \<open>MemoryAllocationLibOnOneCrypto\<close>

definition lib_AllocatePool :: "'w deps option \<Rightarrow> nat \<Rightarrow> 'w \<Rightarrow> ptr option \<times> 'w" where
  "lib_AllocatePool m AllocationSize w = OneCryptoAllocatePool m AllocationSize w"

definition lib_AllocateZeroPool ::
    "(ptr \<Rightarrow> nat \<Rightarrow> 'w \<Rightarrow> 'w) \<Rightarrow> 'w deps option \<Rightarrow> nat \<Rightarrow> 'w \<Rightarrow> ptr option \<times> 'w" where
  "lib_AllocateZeroPool zero m AllocationSize w = OneCryptoAllocateZeroPool zero m AllocationSize w"

definition lib_FreePool :: "'w deps option \<Rightarrow> ptr option \<Rightarrow> 'w \<Rightarrow> 'w" where
  "lib_FreePool m Buffer w = OneCryptoFreePool m Buffer w"

text \<open>
  The unused allocation functions: an \<^verbatim>\<open>ASSERT (FALSE)\<close>, then NULL. \<open>dbg\<close> says whether asserts
  are compiled in.
\<close>

definition unused_allocation :: "bool \<Rightarrow> ptr option res" where
  "unused_allocation dbg = (if dbg then Inl AssertFailed else Inr None)"

definition AllocateRuntimePool :: "bool \<Rightarrow> nat \<Rightarrow> ptr option res" where
  "AllocateRuntimePool dbg AllocationSize = unused_allocation dbg"

definition AllocateCopyPool :: "bool \<Rightarrow> nat \<Rightarrow> ptr option \<Rightarrow> ptr option res" where
  "AllocateCopyPool dbg AllocationSize Buffer = unused_allocation dbg"

definition ReallocatePool :: "bool \<Rightarrow> nat \<Rightarrow> nat \<Rightarrow> ptr option \<Rightarrow> ptr option res" where
  "ReallocatePool dbg OldSize NewSize OldBuffer = unused_allocation dbg"

section \<open>Properties\<close>

text \<open>
  A concrete host for the witnesses: a counter whose successive values are the random numbers,
  and which runs dry after ten draws.
\<close>

definition demo_deps :: "nat deps" where
  "demo_deps = \<lparr>dep_Major = 1, dep_Minor = 0, dep_Reserved = 0,
     dep_AllocatePool = Some (\<lambda>n w. (if n \<le> 100 then Some (of_nat (0x1000 + w)) else None, w + n)),
     dep_FreePool = Some (\<lambda>p w. w), dep_GetTime = None, dep_DebugPrint = None,
     dep_GetRandomNumber64 = Some (\<lambda>r w. if w < 10 then (True, Some (0xABCD0000 + of_nat w), Suc w)
                                         else (False, r, w)),
     dep_MicroSecondDelay = None\<rparr>"

lemma ucast_low16: "(ucast (a AND 0xFFFF) :: UINT16) = of_nat (unat (a :: UINT64) mod 2 ^ 16)"
proof (rule unsigned_word_eqI [where ?'a = nat])
  have "a AND 0xFFFF = take_bit 16 a"
    by (simp add: take_bit_eq_mask mask_eq_exp_minus_1)
  then show "unat (ucast (a AND 0xFFFF) :: UINT16) = unat (of_nat (unat a mod 2 ^ 16) :: UINT16)"
    by (simp add: unsigned_ucast_eq unsigned_take_bit_eq unat_of_nat take_bit_eq_mod unat_mod_distrib)
qed

lemma ucast_low32: "(ucast (a AND 0xFFFFFFFF) :: UINT32) = of_nat (unat (a :: UINT64) mod 2 ^ 32)"
proof (rule unsigned_word_eqI [where ?'a = nat])
  have "a AND 0xFFFFFFFF = take_bit 32 a"
    by (simp add: take_bit_eq_mask mask_eq_exp_minus_1)
  then show "unat (ucast (a AND 0xFFFFFFFF) :: UINT32) = unat (of_nat (unat a mod 2 ^ 32) :: UINT32)"
    by (simp add: unsigned_ucast_eq unsigned_take_bit_eq unat_of_nat take_bit_eq_mod unat_mod_distrib)
qed

text \<open>the narrow and wide random numbers are made of 64-bit draws of the host: the 16-bit and
  32-bit numbers are one draw modulo their width, the 128-bit number is two consecutive draws,
  and when the second draw fails the caller sees FALSE with the first half already overwritten.\<close>

theorem rng_from_draws:
  assumes "dep_GetRandomNumber64 d = Some f" and "\<And>r. f (Some r) w = (True, Some a, w1)"
    and "f (Some r1) w1 = (ok, Some b, w2)"
  shows "GetRandomNumber16 junk (Some d) (Some r16) w = (True, Some (of_nat (unat a mod 2 ^ 16)), w1)
    \<and> GetRandomNumber32 junk (Some d) (Some r32) w = (True, Some (of_nat (unat a mod 2 ^ 32)), w1)
    \<and> GetRandomNumber128 (Some d) (Some (r0, r1)) w = (ok, Some (a, b), w2)"
  using assms
  by (simp add: GetRandomNumber16_def GetRandomNumber32_def GetRandomNumber128_def
      GetRandomNumber64_def OneCryptoGetRandomNumber64_def ucast_low16 ucast_low32)

theorem rng_from_draws_witness:
  "GetRandomNumber16 7 (Some demo_deps) (Some 1) 9 = (True, Some 9, 10)
    \<and> GetRandomNumber128 (Some demo_deps) (Some (3, 4)) 9 = (False, Some (0xABCD0009, 4), 10)"
proof -
  obtain f where f: "dep_GetRandomNumber64 demo_deps = Some f"
    and w: "\<And>r. f (Some r) 9 = (True, Some 0xABCD0009, 10)" "f (Some 4) 10 = (False, Some 4, 10)"
    by (simp add: demo_deps_def)
  from rng_from_draws [OF f w, of 7 1 2 3] show ?thesis by simp
qed

end
