(* ===== verification/CryptoBin.thy ===== *)
theory CryptoBin
  imports CrtDeps Pool
begin

text \<open>
  \<^verbatim>\<open>OneCryptoBin\<close>: the crypto binary's constructor of the \<^verbatim>\<open>ONE_CRYPTO_PROTOCOL\<close>, its two entry
  functions and the driver entry points that publish them.

  \<^item> The protocol structure itself is declared in a header that is not part of the repository:
    a protocol is its version and a map from member names to the functions assigned (by name),
    NULL where the map is undefined. Its size and version numbers are parameters.
  \<^item> The members are listed as the code lists them, in the order of \<^verbatim>\<open>CryptoInit\<close>.
\<close>

section \<open>CryptoInit\<close>

record protocol =
  prot_Major :: UINT16
  prot_Minor :: UINT16
  prot_members :: "string \<rightharpoonup> string"

definition zero_protocol :: protocol where
  "zero_protocol = \<lparr>prot_Major = 0, prot_Minor = 0, prot_members = Map.empty\<rparr>"

definition hmac_sha256_members :: "(string \<times> string) list" where
  "hmac_sha256_members = [
    (''HmacSha256New'', ''HmacSha256New''),
    (''HmacSha256Free'', ''HmacSha256Free''),
    (''HmacSha256SetKey'', ''HmacSha256SetKey''),
    (''HmacSha256Duplicate'', ''HmacSha256Duplicate''),
    (''HmacSha256Update'', ''HmacSha256Update''),
    (''HmacSha256Final'', ''HmacSha256Final''),
    (''HmacSha256All'', ''HmacSha256All'')]"

definition hmac_sha384_members :: "(string \<times> string) list" where
  "hmac_sha384_members = [
    (''HmacSha384New'', ''HmacSha384New''),
    (''HmacSha384Free'', ''HmacSha384Free''),
    (''HmacSha384SetKey'', ''HmacSha384SetKey''),
    (''HmacSha384Duplicate'', ''HmacSha384Duplicate''),
    (''HmacSha384Update'', ''HmacSha384Update''),
    (''HmacSha384Final'', ''HmacSha384Final''),
    (''HmacSha384All'', ''HmacSha384All'')]"

definition big_num_members :: "(string \<times> string) list" where
  "big_num_members = [
    (''BigNumInit'', ''BigNumInit''),
    (''BigNumFromBin'', ''BigNumFromBin''),
    (''BigNumToBin'', ''BigNumToBin''),
    (''BigNumFree'', ''BigNumFree''),
    (''BigNumAdd'', ''BigNumAdd''),
    (''BigNumSub'', ''BigNumSub''),
    (''BigNumMod'', ''BigNumMod''),
    (''BigNumExpMod'', ''BigNumExpMod''),
    (''BigNumInverseMod'', ''BigNumInverseMod''),
    (''BigNumDiv'', ''BigNumDiv''),
    (''BigNumMulMod'', ''BigNumMulMod''),
    (''BigNumCmp'', ''BigNumCmp''),
    (''BigNumBits'', ''BigNumBits''),
    (''BigNumBytes'', ''BigNumBytes''),
    (''BigNumIsWord'', ''BigNumIsWord''),
    (''BigNumIsOdd'', ''BigNumIsOdd''),
    (''BigNumCopy'', ''BigNumCopy''),
    (''BigNumValueOne'', ''BigNumValueOne''),
    (''BigNumRShift'', ''BigNumRShift''),
    (''BigNumConstTime'', ''BigNumConstTime''),
    (''BigNumSqrMod'', ''BigNumSqrMod''),
    (''BigNumNewContext'', ''BigNumNewContext''),
    (''BigNumContextFree'', ''BigNumContextFree''),
    (''BigNumSetUint'', ''BigNumSetUint''),
    (''BigNumAddMod'', ''BigNumAddMod'')]"

definition aes_members :: "(string \<times> string) list" where
  "aes_members = [
    (''AeadAesGcmEncrypt'', ''AeadAesGcmEncrypt''),
    (''AeadAesGcmDecrypt'', ''AeadAesGcmDecrypt''),
    (''AesGetContextSize'', ''AesGetContextSize''),
    (''AesInit'', ''AesInit''),
    (''AesCbcEncrypt'', ''AesCbcEncrypt''),
    (''AesCbcDecrypt'', ''AesCbcDecrypt'')]"

definition md5_members :: "(string \<times> string) list" where
  "md5_members = [
    (''Md5GetContextSize'', ''Md5GetContextSize''),
    (''Md5Init'', ''Md5Init''),
    (''Md5Update'', ''Md5Update''),
    (''Md5Final'', ''Md5Final''),
    (''Md5Duplicate'', ''Md5Duplicate''),
    (''Md5HashAll'', ''Md5HashAll'')]"

definition sha1_members :: "(string \<times> string) list" where
  "sha1_members = [
    (''Sha1GetContextSize'', ''Sha1GetContextSize''),
    (''Sha1Init'', ''Sha1Init''),
    (''Sha1Update'', ''Sha1Update''),
    (''Sha1Final'', ''Sha1Final''),
    (''Sha1Duplicate'', ''Sha1Duplicate''),
    (''Sha1HashAll'', ''Sha1HashAll'')]"

definition sha256_members :: "(string \<times> string) list" where
  "sha256_members = [
    (''Sha256GetContextSize'', ''Sha256GetContextSize''),
    (''Sha256Init'', ''Sha256Init''),
    (''Sha256Update'', ''Sha256Update''),
    (''Sha256Final'', ''Sha256Final''),
    (''Sha256Duplicate'', ''Sha256Duplicate''),
    (''Sha256HashAll'', ''Sha256HashAll'')]"

definition sha384_members :: "(string \<times> string) list" where
  "sha384_members = [
    (''Sha384GetContextSize'', ''Sha384GetContextSize''),
    (''Sha384Init'', ''Sha384Init''),
    (''Sha384Update'', ''Sha384Update''),
    (''Sha384Final'', ''Sha384Final''),
    (''Sha384Duplicate'', ''Sha384Duplicate''),
    (''Sha384HashAll'', ''Sha384HashAll'')]"

definition sha512_members :: "(string \<times> string) list" where
  "sha512_members = [
    (''Sha512GetContextSize'', ''Sha512GetContextSize''),
    (''Sha512Init'', ''Sha512Init''),
    (''Sha512Update'', ''Sha512Update''),
    (''Sha512Final'', ''Sha512Final''),
    (''Sha512Duplicate'', ''Sha512Duplicate''),
    (''Sha512HashAll'', ''Sha512HashAll'')]"

definition sm3_members :: "(string \<times> string) list" where
  "sm3_members = [
    (''Sm3GetContextSize'', ''Sm3GetContextSize''),
    (''Sm3Init'', ''Sm3Init''),
    (''Sm3Update'', ''Sm3Update''),
    (''Sm3Final'', ''Sm3Final''),
    (''Sm3Duplicate'', ''Sm3Duplicate''),
    (''Sm3HashAll'', ''Sm3HashAll'')]"

definition hkdf_members :: "(string \<times> string) list" where
  "hkdf_members = [
    (''HkdfSha256Expand'', ''HkdfSha256Expand''),
    (''HkdfSha256Extract'', ''HkdfSha256Extract''),
    (''HkdfSha256ExtractAndExpand'', ''HkdfSha256ExtractAndExpand''),
    (''HkdfSha384Expand'', ''HkdfSha384Expand''),
    (''HkdfSha384Extract'', ''HkdfSha384Extract''),
    (''HkdfSha384ExtractAndExpand'', ''HkdfSha384ExtractAndExpand'')]"

definition public_key_members :: "(string \<times> string) list" where
  "public_key_members = [
    (''AuthenticodeVerify'', ''AuthenticodeVerify''),
    (''DhNew'', ''DhNew''),
    (''DhFree'', ''DhFree''),
    (''DhGenerateParameter'', ''DhGenerateParameter''),
    (''DhSetParameter'', ''DhSetParameter''),
    (''DhGenerateKey'', ''DhGenerateKey''),
    (''DhComputeKey'', ''DhComputeKey''),
    (''Pkcs5HashPassword'', ''Pkcs5HashPassword''),
    (''Pkcs1v2Encrypt'', ''Pkcs1v2Encrypt''),
    (''Pkcs1v2Decrypt'', ''Pkcs1v2Decrypt''),
    (''RsaOaepEncrypt'', ''RsaOaepEncrypt''),
    (''RsaOaepDecrypt'', ''RsaOaepDecrypt''),
    (''Pkcs7GetSigners'', ''Pkcs7GetSigners''),
    (''Pkcs7FreeSigners'', ''Pkcs7FreeSigners''),
    (''Pkcs7GetCertificatesList'', ''Pkcs7GetCertificatesList''),
    (''Pkcs7Verify'', ''Pkcs7Verify''),
    (''Pkcs7Sign'', ''Pkcs7Sign''),
    (''Pkcs7Encrypt'', ''Pkcs7Encrypt''),
    (''VerifyEKUsInPkcs7Signature'', ''VerifyEKUsInPkcs7Signature''),
    (''Pkcs7GetAttachedContent'', ''Pkcs7GetAttachedContent'')]"

definition ec_basic_members :: "(string \<times> string) list" where
  "ec_basic_members = [
    (''EcGroupInit'', ''EcGroupInit''),
    (''EcGroupGetCurve'', ''EcGroupGetCurve''),
    (''EcGroupGetOrder'', ''EcGroupGetOrder''),
    (''EcGroupFree'', ''EcGroupFree''),
    (''EcPointInit'', ''EcPointInit''),
    (''EcPointDeInit'', ''EcPointDeInit''),
    (''EcPointGetAffineCoordinates'', ''EcPointGetAffineCoordinates''),
    (''EcPointSetAffineCoordinates'', ''EcPointSetAffineCoordinates''),
    (''EcPointAdd'', ''EcPointAdd''),
    (''EcPointMul'', ''EcPointMul''),
    (''EcPointInvert'', ''EcPointInvert''),
    (''EcPointIsOnCurve'', ''EcPointIsOnCurve''),
    (''EcPointIsAtInfinity'', ''EcPointIsAtInfinity''),
    (''EcPointEqual'', ''EcPointEqual''),
    (''EcPointSetCompressedCoordinates'', ''EcPointSetCompressedCoordinates'')]"

definition ecdh_members :: "(string \<times> string) list" where
  "ecdh_members = [
    (''EcNewByNid'', ''EcNewByNid''),
    (''EcFree'', ''EcFree''),
    (''EcGenerateKey'', ''EcGenerateKey''),
    (''EcGetPubKey'', ''EcGetPubKey''),
    (''EcDhComputeKey'', ''EcDhComputeKey''),
    (''EcGetPrivateKeyFromPem'', ''EcGetPrivateKeyFromPem''),
    (''EcGetPublicKeyFromX509'', ''EcGetPublicKeyFromX509''),
    (''EcDsaSign'', ''EcDsaSign''),
    (''EcDsaVerify'', ''EcDsaVerify'')]"

definition rsa_members :: "(string \<times> string) list" where
  "rsa_members = [
    (''RsaNew'', ''RsaNew''),
    (''RsaFree'', ''RsaFree''),
    (''RsaSetKey'', ''RsaSetKey''),
    (''RsaGetKey'', ''RsaGetKey''),
    (''RsaGenerateKey'', ''RsaGenerateKey''),
    (''RsaCheckKey'', ''RsaCheckKey''),
    (''RsaPkcs1Sign'', ''RsaPkcs1Sign''),
    (''RsaPkcs1Verify'', ''RsaPkcs1Verify''),
    (''RsaPssSign'', ''RsaPssSign''),
    (''RsaPssVerify'', ''RsaPssVerify''),
    (''RsaGetPrivateKeyFromPem'', ''RsaGetPrivateKeyFromPem''),
    (''RsaGetPublicKeyFromX509'', ''RsaGetPublicKeyFromX509'')]"

definition x509_members :: "(string \<times> string) list" where
  "x509_members = [
    (''X509GetSubjectName'', ''X509GetSubjectName''),
    (''X509GetCommonName'', ''X509GetCommonName''),
    (''X509GetOrganizationName'', ''X509GetOrganizationName''),
    (''X509VerifyCert'', ''X509VerifyCert''),
    (''X509ConstructCertificate'', ''X509ConstructCertificate''),
    (''X509ConstructCertificateStackV'', ''X509ConstructCertificateStackV''),
    (''X509ConstructCertificateStack'', ''X509ConstructCertificateStack''),
    (''X509Free'', ''X509Free''),
    (''X509StackFree'', ''X509StackFree''),
    (''X509GetTBSCert'', ''X509GetTBSCert''),
    (''X509GetVersion'', ''X509GetVersion''),
    (''X509GetSerialNumber'', ''X509GetSerialNumber''),
    (''X509GetIssuerName'', ''X509GetIssuerName''),
    (''X509GetSignatureAlgorithm'', ''X509GetSignatureAlgorithm''),
    (''X509GetExtensionData'', ''X509GetExtensionData''),
    (''X509GetValidity'', ''X509GetValidity''),
    (''X509FormatDateTime'', ''X509FormatDateTime''),
    (''X509GetKeyUsage'', ''X509GetKeyUsage''),
    (''X509GetExtendedKeyUsage'', ''X509GetExtendedKeyUsage''),
    (''X509VerifyCertChain'', ''X509VerifyCertChain''),
    (''X509GetCertFromCertChain'', ''X509GetCertFromCertChain''),
    (''X509GetExtendedBasicConstraints'', ''X509GetExtendedBasicConstraints''),
    (''X509CompareDateTime'', ''X509CompareDateTime''),
    (''Asn1GetTag'', ''Asn1GetTag'')]"

definition random_members :: "(string \<times> string) list" where
  "random_members = [
    (''RandomSeed'', ''RandomSeed''),
    (''RandomBytes'', ''RandomBytes'')]"

definition tls_members :: "(string \<times> string) list" where
  "tls_members = [
    (''TlsInitialize'', ''TlsInitialize''),
    (''TlsCtxFree'', ''TlsCtxFree''),
    (''TlsCtxNew'', ''TlsCtxNew''),
    (''TlsFree'', ''TlsFree''),
    (''TlsNew'', ''TlsNew''),
    (''TlsInHandshake'', ''TlsInHandshake''),
    (''TlsDoHandshake'', ''TlsDoHandshake''),
    (''TlsHandleAlert'', ''TlsHandleAlert''),
    (''TlsCloseNotify'', ''TlsCloseNotify''),
    (''TlsCtrlTrafficOut'', ''TlsCtrlTrafficOut''),
    (''TlsCtrlTrafficIn'', ''TlsCtrlTrafficIn''),
    (''TlsRead'', ''TlsRead''),
    (''TlsWrite'', ''TlsWrite''),
    (''TlsShutdown'', ''TlsShutdown''),
    (''TlsSetVersion'', ''TlsSetVersion''),
    (''TlsSetConnectionEnd'', ''TlsSetConnectionEnd''),
    (''TlsSetCipherList'', ''TlsSetCipherList''),
    (''TlsSetCompressionMethod'', ''TlsSetCompressionMethod''),
    (''TlsSetVerify'', ''TlsSetVerify''),
    (''TlsSetVerifyHost'', ''TlsSetVerifyHost''),
    (''TlsSetSessionId'', ''TlsSetSessionId''),
    (''TlsSetCaCertificate'', ''TlsSetCaCertificate''),
    (''TlsSetHostPublicCert'', ''TlsSetHostPublicCert''),
    (''TlsSetHostPrivateKeyEx'', ''TlsSetHostPrivateKeyEx''),
    (''TlsSetHostPrivateKey'', ''TlsSetHostPrivateKey''),
    (''TlsSetCertRevocationList'', ''TlsSetCertRevocationList''),
    (''TlsSetSignatureAlgoList'', ''TlsSetSignatureAlgoList''),
    (''TlsSetEcCurve'', ''TlsSetEcCurve''),
    (''TlsGetVersion'', ''TlsGetVersion''),
    (''TlsGetConnectionEnd'', ''TlsGetConnectionEnd''),
    (''TlsGetCurrentCipher'', ''TlsGetCurrentCipher''),
    (''TlsGetCurrentCompressionId'', ''TlsGetCurrentCompressionId''),
    (''TlsGetVerify'', ''TlsGetVerify''),
    (''TlsGetSessionId'', ''TlsGetSessionId''),
    (''TlsGetClientRandom'', ''TlsGetClientRandom''),
    (''TlsGetServerRandom'', ''TlsGetServerRandom''),
    (''TlsGetKeyMaterial'', ''TlsGetKeyMaterial''),
    (''TlsGetCaCertificate'', ''TlsGetCaCertificate''),
    (''TlsGetHostPublicCert'', ''TlsGetHostPublicCert''),
    (''TlsGetHostPrivateKey'', ''TlsGetHostPrivateKey''),
    (''TlsGetCertRevocationList'', ''TlsGetCertRevocationList''),
    (''TlsGetExportKey'', ''TlsGetExportKey'')]"

definition misc_members :: "(string \<times> string) list" where
  "misc_members = [
    (''ImageTimestampVerify'', ''ImageTimestampVerify''),
    (''GetCryptoProviderVersionString'', ''GetCryptoProviderVersionString'')]"

definition crypto_members :: "(string \<times> string) list" where
  "crypto_members =
     hmac_sha256_members @ hmac_sha384_members @ big_num_members @ aes_members @ md5_members
     @ sha1_members @ sha256_members @ sha384_members @ sha512_members @ sm3_members @
     hkdf_members @ public_key_members @ ec_basic_members @ ecdh_members @ rsa_members @
     x509_members @ random_members @ tls_members @ misc_members"

text \<open>The assignments, in order.\<close>

definition assign_members ::
    "(string \<times> string) list \<Rightarrow> (string \<rightharpoonup> string) \<Rightarrow> (string \<rightharpoonup> string)" where
  "assign_members xs m = foldl (\<lambda>m (member, f). m(member \<mapsto> f)) m xs"

definition CryptoInit :: "UINT16 \<times> UINT16 \<Rightarrow> protocol option \<Rightarrow> protocol option" where
  "CryptoInit version CryptoProtocol =
    map_option (\<lambda>p. p\<lparr>prot_Major := fst version, prot_Minor := snd version,
                      prot_members := assign_members crypto_members (prot_members p)\<rparr>)
      CryptoProtocol"

section \<open>NoSetupCryptoEntry and CryptoEntry\<close>

text \<open>
  The argument \<^verbatim>\<open>VOID **Crypto\<close>: \<open>None\<close> is NULL, \<open>Some None\<close> points to a NULL pointer and
  \<open>Some (Some n)\<close> to a pointer to a buffer of \<open>n\<close> bytes.

  The result: the status, \<^verbatim>\<open>*CryptoSize\<close>, the static table of the CRT library and the protocol
  that was written to the buffer. \<open>sz\<close> is \<^verbatim>\<open>sizeof (ONE_CRYPTO_PROTOCOL)\<close>.
\<close>

type_synonym 'w entry_result =
  "(efi_status \<times> UINT32 option \<times> 'w deps option \<times> protocol option) res"

definition NoSetupCryptoEntry ::
    "UINT32 \<Rightarrow> UINT16 \<times> UINT16 \<Rightarrow> 'w deps option \<Rightarrow> 'w deps option \<Rightarrow> nat option option
     \<Rightarrow> UINT32 option \<Rightarrow> 'w entry_result" where
  "NoSetupCryptoEntry sz version m Depends Crypto CryptoSize =
    (let CryptoSize = map_option (\<lambda>_. sz) CryptoSize in
     case Crypto of
       None \<Rightarrow> Inr (EFI_BUFFER_TOO_SMALL, CryptoSize, m, None)
     | Some buf \<Rightarrow>
         (case OneCryptoCrtSetup m Depends of
            (Status, m) \<Rightarrow>
              if EFI_ERROR Status then Inr (Status, CryptoSize, m, None)
              else (case buf of
                      None \<Rightarrow> Inr (EFI_INVALID_PARAMETER, CryptoSize, m, None)
                    | Some n \<Rightarrow>
                        if n < unat sz then Inl OobWrite
                        else Inr (EFI_SUCCESS, CryptoSize, m,
                                  CryptoInit version (Some zero_protocol)))))"

text \<open>\<open>InitStatus\<close> is what \<^verbatim>\<open>BaseCryptInit\<close> returned.\<close>

definition CryptoEntry ::
    "efi_status \<Rightarrow> UINT32 \<Rightarrow> UINT16 \<times> UINT16 \<Rightarrow> 'w deps option \<Rightarrow> 'w deps option
     \<Rightarrow> nat option option \<Rightarrow> UINT32 option \<Rightarrow> 'w entry_result" where
  "CryptoEntry InitStatus sz version m Depends Crypto CryptoSize =
    (if EFI_ERROR InitStatus then Inr (InitStatus, CryptoSize, m, None)
     else NoSetupCryptoEntry sz version m Depends Crypto CryptoSize)"

section \<open>The driver entry points\<close>

text \<open>
  \<^verbatim>\<open>ONE_CRYPTO_CONSTRUCTOR_PROTOCOL\<close>. \<open>cp_Entry\<close> is the constructor function, \<open>None\<close> for
  NULL; which function it is shows as \<open>'e\<close>.
\<close>

record 'e constructor_protocol =
  cp_Signature :: UINT32
  cp_Version :: UINT32
  cp_Entry :: "'e option"

definition ONE_CRYPTO_CONSTRUCTOR_PROTOCOL_SIGNATURE :: UINT32 where
  "ONE_CRYPTO_CONSTRUCTOR_PROTOCOL_SIGNATURE = 0x43454E4F"

definition ONE_CRYPTO_CONSTRUCTOR_PROTOCOL_VERSION :: UINT32 where
  "ONE_CRYPTO_CONSTRUCTOR_PROTOCOL_VERSION = 1"

text \<open>\<^verbatim>\<open>sizeof (ONE_CRYPTO_CONSTRUCTOR_PROTOCOL)\<close> on a 64-bit target.\<close>

definition sizeof_constructor :: nat where "sizeof_constructor = 16"

text \<open>
  The status, the pool, and the interface that was installed with the block that holds it.
  \<open>AllocStatus\<close> is the status of the allocation service besides the pointer, and
  \<open>InstallStatus\<close> that of the installation. \<open>entry\<close> is \<^verbatim>\<open>NoSetupCryptoEntry\<close>.
\<close>

type_synonym 'e published = "(efi_status \<times> pool \<times> (nat \<times> 'e constructor_protocol) option) res"

definition publish_constructor ::
    "efi_status \<Rightarrow> efi_status \<Rightarrow> 'e \<Rightarrow> pool \<Rightarrow> 'e published" where
  "publish_constructor AllocStatus InstallStatus entry p =
    (case AllocatePool p sizeof_constructor of
       (ProtocolInstance, p) \<Rightarrow>
         if EFI_ERROR AllocStatus \<or> ProtocolInstance = None
         then Inr (EFI_OUT_OF_RESOURCES, p, None)
         else
           let protocol = \<lparr>cp_Signature = ONE_CRYPTO_CONSTRUCTOR_PROTOCOL_SIGNATURE,
                           cp_Version = ONE_CRYPTO_CONSTRUCTOR_PROTOCOL_VERSION,
                           cp_Entry = Some entry\<rparr>
           in if EFI_ERROR InstallStatus
              then bind_res (FreePool p ProtocolInstance) (\<lambda>p. Inr (InstallStatus, p, None))
              else Inr (EFI_SUCCESS, p, Some (the ProtocolInstance, protocol)))"

definition bin_DxeEntry :: "efi_status \<Rightarrow> efi_status \<Rightarrow> 'e \<Rightarrow> pool \<Rightarrow> 'e published" where
  "bin_DxeEntry AllocStatus InstallStatus entry p =
    publish_constructor AllocStatus InstallStatus entry p"

definition bin_MmEntry :: "bool \<Rightarrow> efi_status \<Rightarrow> efi_status \<Rightarrow> 'e \<Rightarrow> pool \<Rightarrow> 'e published" where
  "bin_MmEntry HasMmSystemTable AllocStatus InstallStatus entry p =
    (if \<not> HasMmSystemTable then Inr (EFI_INVALID_PARAMETER, p, None)
     else publish_constructor AllocStatus InstallStatus entry p)"

section \<open>Lemmas\<close>

lemma assign_members_same:
  "\<forall>(a, b) \<in> set xs. a = b \<Longrightarrow>
    assign_members xs m x = (if x \<in> fst ` set xs then Some x else m x)"
proof (induction xs arbitrary: m)
  case (Cons y ys)
  then show ?case by (auto simp: assign_members_def)
qed (simp add: assign_members_def)

text \<open>Every assignment of the function is of the form \<^verbatim>\<open>Crypto->X = X\<close>.\<close>

definition same_names :: "(string \<times> string) list \<Rightarrow> bool" where
  "same_names xs = list_all (case_prod (=)) xs"

lemma same_names_append: "same_names (xs @ ys) \<longleftrightarrow> same_names xs \<and> same_names ys"
  by (simp add: same_names_def)

lemmas member_groups_defs =
  hmac_sha256_members_def hmac_sha384_members_def big_num_members_def aes_members_def
  md5_members_def sha1_members_def sha256_members_def sha384_members_def sha512_members_def
  sm3_members_def hkdf_members_def public_key_members_def ec_basic_members_def ecdh_members_def
  rsa_members_def x509_members_def random_members_def tls_members_def misc_members_def

lemma member_groups_same:
  "same_names hmac_sha256_members" "same_names hmac_sha384_members"
  "same_names big_num_members" "same_names aes_members" "same_names md5_members"
  "same_names sha1_members" "same_names sha256_members" "same_names sha384_members"
  "same_names sha512_members" "same_names sm3_members" "same_names hkdf_members"
  "same_names public_key_members" "same_names ec_basic_members" "same_names ecdh_members"
  "same_names rsa_members" "same_names x509_members" "same_names random_members"
  "same_names tls_members" "same_names misc_members"
  unfolding member_groups_defs same_names_def list.pred_inject prod.case
  by (intro conjI refl list.pred_inject(1))+

lemma crypto_members_same: "\<forall>(a, b) \<in> set crypto_members. a = b"
proof -
  have "same_names crypto_members"
    unfolding crypto_members_def same_names_append by (intro conjI member_groups_same)
  then show ?thesis by (simp add: same_names_def list_all_iff)
qed

lemma NoSetupCryptoEntry_query:
  "NoSetupCryptoEntry sz v m d None (Some x) = Inr (EFI_BUFFER_TOO_SMALL, Some sz, m, None)"
  by (simp add: NoSetupCryptoEntry_def)

lemma NoSetupCryptoEntry_construct:
  "unat sz \<le> n \<Longrightarrow> NoSetupCryptoEntry sz v m (Some d) (Some (Some n)) (Some x) =
    Inr (EFI_SUCCESS, Some sz, Some d, CryptoInit v (Some zero_protocol))"
  by (simp add: NoSetupCryptoEntry_def OneCryptoCrtSetup_def)

lemma CryptoInit_wiring:
  "\<exists>p'. CryptoInit v (Some p) = Some p' \<and> prot_Major p' = fst v \<and> prot_Minor p' = snd v
    \<and> (\<forall>x. prot_members p' x = (if x \<in> fst ` set crypto_members then Some x else prot_members p x))"
  by (simp add: CryptoInit_def assign_members_same [OF crypto_members_same])

section \<open>Properties\<close>

text \<open>\<^verbatim>\<open>CryptoInit\<close> wires every member it lists to the library function of the same name,
  whatever the structure held before, sets the version, and leaves all other members alone.\<close>

theorem crypto_init_wiring:
  "\<exists>p'. CryptoInit v (Some p) = Some p' \<and> prot_Major p' = fst v \<and> prot_Minor p' = snd v
    \<and> (\<forall>x. prot_members p' x = (if x \<in> fst ` set crypto_members then Some x else prot_members p x))"
  by (rule CryptoInit_wiring)

text \<open>the two calls of the loaders fit together: the size query changes nothing and returns the
  size, and a second call with a buffer of that size and a table succeeds without overflow,
  installs the table for the CRT library and leaves a protocol in which every listed member is
  set and every other one is NULL.\<close>

theorem crypto_entry_negotiation:
  assumes "\<not> EFI_ERROR init"
  shows "\<exists>n p. CryptoEntry init sz v m Depends None (Some 0)
      = Inr (EFI_BUFFER_TOO_SMALL, Some n, m, None)
    \<and> CryptoEntry init sz v m (Some d) (Some (Some (unat n))) (Some n)
      = Inr (EFI_SUCCESS, Some n, Some d, Some p)
    \<and> (\<forall>x. prot_members p x = (if x \<in> fst ` set crypto_members then Some x else None))"
proof -
  from CryptoInit_wiring [of v zero_protocol] obtain p where
    "CryptoInit v (Some zero_protocol) = Some p"
    "\<forall>x. prot_members p x = (if x \<in> fst ` set crypto_members then Some x else None)"
    by (auto simp: zero_protocol_def)
  with assms show ?thesis
    by (simp add: CryptoEntry_def NoSetupCryptoEntry_query NoSetupCryptoEntry_construct)
qed

theorem crypto_entry_negotiation_witness:
  "\<exists>n p. CryptoEntry EFI_SUCCESS 1720 (1, 0) (None :: nat deps option) None None (Some 0)
      = Inr (EFI_BUFFER_TOO_SMALL, Some n, None, None)
    \<and> CryptoEntry EFI_SUCCESS 1720 (1, 0) None (Some demo_deps) (Some (Some (unat n))) (Some n)
      = Inr (EFI_SUCCESS, Some n, Some demo_deps, Some p)
    \<and> (\<forall>x. prot_members p x = (if x \<in> fst ` set crypto_members then Some x else None))"
  by (rule crypto_entry_negotiation [of EFI_SUCCESS 1720 "(1, 0)" None None demo_deps]) simp

text \<open>the driver entry points never leak the constructor protocol: exactly when they succeed
  one new block is live, and it holds the installed interface with the right signature, version
  and entry function.\<close>

theorem publish_exact:
  assumes "pool_inv p" and "EFI_ERROR as \<longleftrightarrow> fst (AllocatePool p sizeof_constructor) = None"
  shows "\<exists>st p' i. bin_MmEntry True as is entry p = Inr (st, p', i) \<and> bin_DxeEntry as is entry p = Inr (st, p', i)
    \<and> (case i of
         None \<Rightarrow> EFI_ERROR st \<and> pool_live p' = pool_live p
       | Some (b, c) \<Rightarrow> st = EFI_SUCCESS \<and> b \<notin> pool_live p \<and> pool_live p' = insert b (pool_live p)
           \<and> cp_Signature c = ONE_CRYPTO_CONSTRUCTOR_PROTOCOL_SIGNATURE
           \<and> cp_Version c = ONE_CRYPTO_CONSTRUCTOR_PROTOCOL_VERSION \<and> cp_Entry c = Some entry)"
proof (cases "AllocatePool p sizeof_constructor")
  case (Pair b p1)
  show ?thesis
  proof (cases b)
    case None
    with Pair AllocatePool_None [of p sizeof_constructor p1] assms show ?thesis
      by (simp add: bin_MmEntry_def bin_DxeEntry_def publish_constructor_def)
  next
    case (Some h)
    note al = AllocatePool_Some [OF Pair [unfolded Some] assms(1)]
    then have "h \<in> pool_live p1" by simp
    from FreePool_live [OF this al(1)] al obtain p2 where
      "FreePool p1 (Some h) = Inr p2" "pool_live p2 = pool_live p" by auto
    with Pair Some assms(2) al show ?thesis
      by (cases "EFI_ERROR is")
         (simp_all add: bin_MmEntry_def bin_DxeEntry_def publish_constructor_def Let_def)
  qed
qed

theorem publish_exact_witness:
  "\<exists>st p' i. bin_MmEntry True EFI_SUCCESS EFI_NOT_FOUND () (empty_pool (\<lambda>i n. True)) = Inr (st, p', i)
    \<and> i = None \<and> pool_live p' = {}"
  using publish_exact [of "empty_pool (\<lambda>i n. True)" EFI_SUCCESS EFI_NOT_FOUND "()"]
  by (auto simp: bin_MmEntry_def publish_constructor_def Let_def AllocatePool_def empty_pool_def
      FreePool_def)

end
