(* ===== verification/LoaderDeps.thy ===== *)
theory LoaderDeps
  imports CrtDeps
begin

text \<open>
  What the loaders put into the dependency table: the lazy random number functions of
  \<^verbatim>\<open>OneCryptoLoaderDxe.c\<close> (\<^verbatim>\<open>OneCryptoLoaderDxeFromMm.c\<close> has the same one),
  \<^verbatim>\<open>OneCryptoLoaderDxeByProtocol.c\<close> and \<^verbatim>\<open>OneCryptoLoaderMm.c\<close>, the delay stub of the latter,
  and \<^verbatim>\<open>InstallSharedDependencies\<close>.

  \<^item> \<open>rng_world\<close> holds the static state of a loader: the cached protocol pointer
    (\<open>None\<close> is NULL), the flag of the MM loader, and the rest of the firmware as \<open>'w\<close>.
  \<^item> \<open>rng_env\<close> holds the firmware services: \<^verbatim>\<open>LocateProtocol\<close> gives a status, the value it
    stores to \<^verbatim>\<open>*Interface\<close> and the new firmware state; \<^verbatim>\<open>GetRNG\<close> of a protocol instance gives
    a status and the eight bytes as a number.
  \<^item> A called service may run code of the loader that faults, so \<open>rw_fault\<close> records the first
    fault of a service.
\<close>

section \<open>The lazy random number functions\<close>

record ('r, 'w) rng_world =
  mCachedRngProtocol :: "'r option"
  mMmRngInitAttempted :: bool
  rw_fault :: "fault option"
  rw_world :: 'w

record ('r, 'w) rng_env =
  LocateRngProtocol :: "'w \<Rightarrow> efi_status \<times> 'r option \<times> 'w"
  GetRNG :: "'r \<Rightarrow> UINT64 \<Rightarrow> 'w \<Rightarrow> efi_status \<times> UINT64 \<times> 'w"

type_synonym ('r, 'w) rng_result = "(bool \<times> UINT64 option \<times> ('r, 'w) rng_world) res"

text \<open>The call of \<^verbatim>\<open>GetRNG\<close> that all variants end with; \<open>old\<close> is \<^verbatim>\<open>*Rand\<close> before it.\<close>

definition draw :: "('r, 'w) rng_env \<Rightarrow> UINT64 \<Rightarrow> ('r, 'w) rng_world \<Rightarrow> ('r, 'w) rng_result" where
  "draw E old s =
    (case mCachedRngProtocol s of
       None \<Rightarrow> Inl NullDeref
     | Some r \<Rightarrow>
         (case GetRNG E r old (rw_world s) of
            (Status, new, w) \<Rightarrow> Inr (\<not> EFI_ERROR Status, Some new, s\<lparr>rw_world := w\<rparr>)))"

text \<open>\<^verbatim>\<open>gBS->LocateProtocol (&gEfiRngProtocolGuid, NULL, &mCachedRngProtocol)\<close>.\<close>

definition locate_rng ::
    "('r, 'w) rng_env \<Rightarrow> ('r, 'w) rng_world \<Rightarrow> efi_status \<times> ('r, 'w) rng_world" where
  "locate_rng E s =
    (case LocateRngProtocol E (rw_world s) of
       (Status, r, w) \<Rightarrow> (Status, s\<lparr>mCachedRngProtocol := r, rw_world := w\<rparr>))"

definition LazyPlatformGetRandomNumber64 ::
    "('r, 'w) rng_env \<Rightarrow> UINT64 option \<Rightarrow> ('r, 'w) rng_world \<Rightarrow> ('r, 'w) rng_result" where
  "LazyPlatformGetRandomNumber64 E Rand s =
    (case Rand of
       None \<Rightarrow> Inr (False, None, s)
     | Some old \<Rightarrow>
         if mCachedRngProtocol s = None then
           (case locate_rng E s of
              (Status, s) \<Rightarrow>
                if EFI_ERROR Status then Inr (False, Rand, s) else draw E old s)
         else draw E old s)"

definition ByProtocol_LazyPlatformGetRandomNumber64 ::
    "('r, 'w) rng_env \<Rightarrow> UINT64 option \<Rightarrow> ('r, 'w) rng_world \<Rightarrow> ('r, 'w) rng_result" where
  "ByProtocol_LazyPlatformGetRandomNumber64 E Rand s =
    (case Rand of
       None \<Rightarrow> Inr (False, None, s)
     | Some old \<Rightarrow>
         let s = (if mCachedRngProtocol s = None then snd (locate_rng E s) else s)
         in if mCachedRngProtocol s = None then Inr (False, Rand, s) else draw E old s)"

text \<open>\<open>dbg\<close> says whether \<^verbatim>\<open>ASSERT\<close> is compiled in.\<close>

definition LazyMmGetRandomNumber64 ::
    "bool \<Rightarrow> ('r, 'w) rng_env \<Rightarrow> UINT64 option \<Rightarrow> ('r, 'w) rng_world \<Rightarrow> ('r, 'w) rng_result" where
  "LazyMmGetRandomNumber64 dbg E Rand s =
    (case Rand of
       None \<Rightarrow> if dbg then Inl AssertFailed else Inr (False, None, s)
     | Some old \<Rightarrow>
         bind_res
           (if \<not> mMmRngInitAttempted s then
              (case locate_rng E s of
                 (Status, s) \<Rightarrow>
                   if EFI_ERROR Status then
                     (if dbg then Inl AssertFailed
                      else Inr (s\<lparr>mCachedRngProtocol := None, mMmRngInitAttempted := True\<rparr>))
                   else Inr (s\<lparr>mMmRngInitAttempted := True\<rparr>))
            else Inr s)
           (\<lambda>s. if mCachedRngProtocol s = None
                then (if dbg then Inl AssertFailed else Inr (False, Rand, s))
                else draw E old s))"

definition StubMicroSecondDelay :: "nat \<Rightarrow> nat" where
  "StubMicroSecondDelay MicroSeconds = MicroSeconds"

section \<open>InstallSharedDependencies\<close>

text \<open>
  The services of the firmware whose addresses go into the table. \<open>as_service\<close> makes a function
  of the loader a service.
\<close>

record 's host =
  host_AllocatePool :: "nat \<Rightarrow> 's \<Rightarrow> ptr option \<times> 's"
  host_FreePool :: "ptr option \<Rightarrow> 's \<Rightarrow> 's"
  host_DebugPrint :: "nat \<Rightarrow> string \<Rightarrow> 's \<Rightarrow> 's"
  host_GetTime :: "EFI_TIME option \<Rightarrow> 's \<Rightarrow> efi_status \<times> EFI_TIME option \<times> 's"
  host_Stall :: "nat \<Rightarrow> 's \<Rightarrow> nat \<times> 's"

definition as_service ::
    "(UINT64 option \<Rightarrow> ('r, 'w) rng_world \<Rightarrow> ('r, 'w) rng_result)
     \<Rightarrow> UINT64 option \<Rightarrow> ('r, 'w) rng_world \<Rightarrow> bool \<times> UINT64 option \<times> ('r, 'w) rng_world" where
  "as_service f Rand s =
    (case f Rand s of
       Inl e \<Rightarrow> (False, Rand, s\<lparr>rw_fault := Some e\<rparr>)
     | Inr x \<Rightarrow> x)"

definition ONE_CRYPTO_DEPENDENCIES_VERSION_MAJOR :: UINT16 where
  "ONE_CRYPTO_DEPENDENCIES_VERSION_MAJOR = 1"
definition ONE_CRYPTO_DEPENDENCIES_VERSION_MINOR :: UINT16 where
  "ONE_CRYPTO_DEPENDENCIES_VERSION_MINOR = 0"

definition InstallSharedDependencies ::
    "('r, 'w) rng_world host \<Rightarrow> ('r, 'w) rng_env \<Rightarrow> ('r, 'w) rng_world deps" where
  "InstallSharedDependencies H E = \<lparr>
     dep_Major = ONE_CRYPTO_DEPENDENCIES_VERSION_MAJOR,
     dep_Minor = ONE_CRYPTO_DEPENDENCIES_VERSION_MINOR,
     dep_Reserved = 0,
     dep_AllocatePool = Some (host_AllocatePool H),
     dep_FreePool = Some (host_FreePool H),
     dep_GetTime = Some (host_GetTime H),
     dep_DebugPrint = Some (host_DebugPrint H),
     dep_GetRandomNumber64 = Some (as_service (LazyPlatformGetRandomNumber64 E)),
     dep_MicroSecondDelay = Some (host_Stall H)\<rparr>"

definition ByProtocol_InstallSharedDependencies ::
    "('r, 'w) rng_world host \<Rightarrow> ('r, 'w) rng_env \<Rightarrow> ('r, 'w) rng_world deps" where
  "ByProtocol_InstallSharedDependencies H E = \<lparr>
     dep_Major = ONE_CRYPTO_DEPENDENCIES_VERSION_MAJOR,
     dep_Minor = ONE_CRYPTO_DEPENDENCIES_VERSION_MINOR,
     dep_Reserved = 0,
     dep_AllocatePool = Some (host_AllocatePool H),
     dep_FreePool = Some (host_FreePool H),
     dep_GetTime = Some (host_GetTime H),
     dep_DebugPrint = Some (host_DebugPrint H),
     dep_GetRandomNumber64 = Some (as_service (ByProtocol_LazyPlatformGetRandomNumber64 E)),
     dep_MicroSecondDelay = Some (host_Stall H)\<rparr>"

definition Mm_InstallSharedDependencies ::
    "bool \<Rightarrow> ('r, 'w) rng_world host \<Rightarrow> ('r, 'w) rng_env \<Rightarrow> ('r, 'w) rng_world deps" where
  "Mm_InstallSharedDependencies dbg H E = \<lparr>
     dep_Major = ONE_CRYPTO_DEPENDENCIES_VERSION_MAJOR,
     dep_Minor = ONE_CRYPTO_DEPENDENCIES_VERSION_MINOR,
     dep_Reserved = 0,
     dep_AllocatePool = Some (host_AllocatePool H),
     dep_FreePool = Some (host_FreePool H),
     dep_GetTime = None,
     dep_DebugPrint = Some (host_DebugPrint H),
     dep_GetRandomNumber64 = Some (as_service (LazyMmGetRandomNumber64 dbg E)),
     dep_MicroSecondDelay = Some (\<lambda>n s. (StubMicroSecondDelay n, s))\<rparr>"

end
