(* ===== verification/Loaders.thy ===== *)
theory Loaders
  imports LoaderDeps PeCoff Pool CryptoBin FetchFromMm
begin

text \<open>
  The loaders of \<^verbatim>\<open>OneCryptoLoaders\<close>: the entry points of \<^verbatim>\<open>OneCryptoLoaderDxe.c\<close>,
  \<^verbatim>\<open>OneCryptoLoaderDxeByProtocol.c\<close> and \<^verbatim>\<open>OneCryptoLoaderMm.c\<close>, with
  \<^verbatim>\<open>GetEntryFromLoadedImage\<close>.

  \<^item> \<open>loader\<close> is the static state of a loader, the pool it allocates from and what it has done to
    the firmware: the images it has loaded and the interface it has installed. The table that
    \<^verbatim>\<open>mOneCryptoDepends\<close> points to is kept with the pointer; the contents of the protocol
    buffer belong to the constructor and are part of \<open>'c\<close>.
  \<^item> An \<open>entry_fn\<close> is the constructor \<^verbatim>\<open>CryptoEntry\<close> or \<^verbatim>\<open>NoSetupCryptoEntry\<close> as the loaders see it:
    from the dependency table, the buffer that \<^verbatim>\<open>*Crypto\<close> points to with its size (\<open>None\<close> for
    \<^verbatim>\<open>Crypto == NULL\<close>), \<^verbatim>\<open>*CryptoSize\<close> and the firmware state, a status, the new \<^verbatim>\<open>*CryptoSize\<close>
    and the new state. It may fault.
  \<^item> The boot services are parameters: they act on \<open>'c\<close>.
\<close>

section \<open>State\<close>

record ('c, 'd) loader =
  ld_pool :: pool
  mOneCryptoDepends :: "(nat \<times> 'd) option"
  mOneCryptoProtocol :: "nat option"
  ld_images :: "nat set"
  ld_installed :: "nat option"
  ld_world :: 'c

type_synonym ('c, 'd) entry_fn =
  "'d \<Rightarrow> (nat \<times> nat) option \<Rightarrow> UINT32 \<Rightarrow> 'c \<Rightarrow> (efi_status \<times> UINT32 \<times> 'c) res"

type_synonym ('c, 'd) outcome = "(efi_status \<times> ('c, 'd) loader) res"

text \<open>\<^verbatim>\<open>sizeof (ONE_CRYPTO_DEPENDENCIES)\<close> on a 64-bit target.\<close>

definition sizeof_depends :: nat where "sizeof_depends = 56"

section \<open>The steps that the loaders share\<close>

text \<open>
  \<^verbatim>\<open>mOneCryptoDepends = AllocatePool (...)\<close> and \<^verbatim>\<open>InstallSharedDependencies\<close>, whose result is
  \<open>d\<close>; \<open>False\<close> when the allocation failed.
\<close>

definition allocate_depends :: "'d \<Rightarrow> ('c, 'd) loader \<Rightarrow> bool \<times> ('c, 'd) loader" where
  "allocate_depends d s =
    (case AllocatePool (ld_pool s) sizeof_depends of
       (None, p) \<Rightarrow> (False, s\<lparr>ld_pool := p, mOneCryptoDepends := None\<rparr>)
     | (Some b, p) \<Rightarrow> (True, s\<lparr>ld_pool := p, mOneCryptoDepends := Some (b, d)\<rparr>))"

definition setup_depends :: "'d \<Rightarrow> ('c, 'd) loader \<Rightarrow> bool \<times> ('c, 'd) loader" where
  "setup_depends d s = (if mOneCryptoDepends s = None then allocate_depends d s else (True, s))"

text \<open>
  The size query, the allocation of the protocol, the call of the constructor and the
  installation with the service \<open>Install\<close>.
\<close>

definition construct_protocol ::
    "(nat \<Rightarrow> 'c \<Rightarrow> efi_status \<times> 'c) \<Rightarrow> ('c, 'd) entry_fn \<Rightarrow> ('c, 'd) loader \<Rightarrow> ('c, 'd) outcome"
where
  "construct_protocol Install Entry s =
    (case mOneCryptoDepends s of
       None \<Rightarrow> Inl NullDeref
     | Some (h, d) \<Rightarrow>
         bind_res (Entry d None 0 (ld_world s)) (\<lambda>(Status, CryptoSize, w).
           let s = s\<lparr>ld_world := w\<rparr> in
           if Status \<noteq> EFI_BUFFER_TOO_SMALL \<or> CryptoSize = 0 then Inr (Status, s)
           else (case AllocatePool (ld_pool s) (unat CryptoSize) of
             (None, p) \<Rightarrow>
               Inr (EFI_OUT_OF_RESOURCES, s\<lparr>ld_pool := p, mOneCryptoProtocol := None\<rparr>)
           | (Some b, p) \<Rightarrow>
               bind_res (Entry d (Some (b, unat CryptoSize)) CryptoSize w) (\<lambda>(Status, _, w).
                 let s = s\<lparr>ld_pool := p, ld_world := w, mOneCryptoProtocol := Some b\<rparr> in
                 if EFI_ERROR Status then
                   bind_res (FreePool p (Some b)) (\<lambda>p.
                     Inr (Status, s\<lparr>ld_pool := p, mOneCryptoProtocol := None\<rparr>))
                 else (case Install b w of
                   (Status, w) \<Rightarrow>
                     let s = s\<lparr>ld_world := w\<rparr> in
                     if EFI_ERROR Status then Inr (Status, s)
                     else Inr (EFI_SUCCESS, s\<lparr>ld_installed := Some b\<rparr>))))))"

text \<open>
  The end of the \<^verbatim>\<open>Exit\<close> block: the table is freed unless the loader succeeded. The pointer
  keeps its value.
\<close>

definition release_depends :: "efi_status \<Rightarrow> ('c, 'd) loader \<Rightarrow> ('c, 'd) outcome" where
  "release_depends Status s =
    (case mOneCryptoDepends s of
       None \<Rightarrow> Inr (Status, s)
     | Some (h, d) \<Rightarrow>
         if Status \<noteq> EFI_SUCCESS
         then bind_res (FreePool (ld_pool s) (Some h)) (\<lambda>p. Inr (Status, s\<lparr>ld_pool := p\<rparr>))
         else Inr (Status, s))"

section \<open>OneCryptoLoaderMm and OneCryptoLoaderDxeByProtocol\<close>

text \<open>
  \<open>Locate\<close> is the status and the interface that \<^verbatim>\<open>MmLocateProtocol\<close> or \<^verbatim>\<open>LocateProtocol\<close> gives
  for the private protocol.
\<close>

definition constructor_entry ::
    "efi_status \<times> 'e constructor_protocol \<Rightarrow> efi_status + 'e" where
  "constructor_entry Locate =
    (case Locate of
       (Status, ConstructorProtocol) \<Rightarrow>
         if EFI_ERROR Status then Inl Status
         else if cp_Signature ConstructorProtocol \<noteq> ONE_CRYPTO_CONSTRUCTOR_PROTOCOL_SIGNATURE
         then Inl EFI_OUT_OF_RESOURCES
         else (case cp_Entry ConstructorProtocol of
                 None \<Rightarrow> Inl EFI_UNSUPPORTED
               | Some Entry \<Rightarrow> Inr Entry))"

definition LoaderMm_MmEntry ::
    "efi_status \<times> ('c, 'd) entry_fn constructor_protocol \<Rightarrow> (nat \<Rightarrow> 'c \<Rightarrow> efi_status \<times> 'c)
     \<Rightarrow> 'd \<Rightarrow> ('c, 'd) loader \<Rightarrow> ('c, 'd) outcome" where
  "LoaderMm_MmEntry Locate Install d s =
    (case constructor_entry Locate of
       Inl Status \<Rightarrow> release_depends Status s
     | Inr Entry \<Rightarrow>
         (case setup_depends d s of
            (False, s) \<Rightarrow> release_depends EFI_OUT_OF_RESOURCES s
          | (True, s) \<Rightarrow>
              bind_res (construct_protocol Install Entry s)
                (\<lambda>(Status, s). release_depends Status s)))"

definition ByProtocol_DxeEntryPoint ::
    "efi_status \<times> ('c, 'd) entry_fn constructor_protocol \<Rightarrow> (nat \<Rightarrow> 'c \<Rightarrow> efi_status \<times> 'c)
     \<Rightarrow> 'd \<Rightarrow> ('c, 'd) loader \<Rightarrow> ('c, 'd) outcome" where
  "ByProtocol_DxeEntryPoint Locate Install d s =
    (case constructor_entry Locate of
       Inl Status \<Rightarrow> release_depends Status s
     | Inr Entry \<Rightarrow>
         (case allocate_depends d s of
            (False, s) \<Rightarrow> release_depends EFI_OUT_OF_RESOURCES s
          | (True, s) \<Rightarrow>
              bind_res (construct_protocol Install Entry s)
                (\<lambda>(Status, s). release_depends Status s)))"

section \<open>OneCryptoLoaderDxe\<close>

text \<open>
  \<open>loaded_image\<close> is \<^verbatim>\<open>EFI_LOADED_IMAGE_PROTOCOL\<close>: the base address (0 is NULL) and the bytes of
  the image there. \<open>pe_env\<close> holds the PE/COFF library and BaseLib: \<^verbatim>\<open>PeCoffLoaderGetImageInfo\<close>
  gives a status and fills the machine, header offset and image type of the context.
\<close>

record loaded_image =
  li_ImageBase :: ptr
  li_Bytes :: "byte list"

record pe_env =
  PeCoffLoaderGetImageInfo :: "loaded_image \<Rightarrow> efi_status \<times> UINT16 \<times> UINT32 \<times> UINT16"
  AsciiStrCmp :: strcmp

definition EFI_IMAGE_SUBSYSTEM_EFI_BOOT_SERVICE_DRIVER :: UINT16 where
  "EFI_IMAGE_SUBSYSTEM_EFI_BOOT_SERVICE_DRIVER = 11"

text \<open>\<^verbatim>\<open>"CryptoEntry"\<close>, in ASCII.\<close>

definition EXPORTED_ENTRY_NAME :: "byte list" where
  "EXPORTED_ENTRY_NAME = [0x43, 0x72, 0x79, 0x70, 0x74, 0x6F, 0x45, 0x6E, 0x74, 0x72, 0x79]"

text \<open>
  The status and \<^verbatim>\<open>*Entry\<close>. \<open>print\<close> says whether \<^verbatim>\<open>DEBUG_CODE\<close> is compiled in, which prints
  the export table and so reads it.
\<close>

definition GetEntryFromLoadedImage ::
    "bool \<Rightarrow> pe_env \<Rightarrow> loaded_image option \<Rightarrow> (efi_status \<times> ptr option) res" where
  "GetEntryFromLoadedImage print E LoadedImage =
    (case LoadedImage of
       None \<Rightarrow> Inr (EFI_INVALID_PARAMETER, None)
     | Some li \<Rightarrow>
         if li_ImageBase li = 0 then Inr (EFI_INVALID_PARAMETER, None)
         else (case PeCoffLoaderGetImageInfo E li of
           (Status, Machine, HeaderOffset, ImageType) \<Rightarrow>
             let Img = \<lparr>img_Bytes = li_Bytes li, img_Address = li_ImageBase li,
                        img_Machine = Machine, img_PeCoffHeaderOffset = HeaderOffset,
                        img_ImageType = ImageType\<rparr>
             in if EFI_ERROR Status then Inr (Status, None)
                else if ImageType \<noteq> EFI_IMAGE_SUBSYSTEM_EFI_BOOT_SERVICE_DRIVER
                then Inr (EFI_UNSUPPORTED, None)
                else bind_res (GetExportDirectoryInPeCoffImage (Some Img)) (\<lambda>(Status, Exports).
                  if EFI_ERROR Status then Inr (Status, None)
                  else bind_res (if print then PrintExportedFunctions (Some Img) Exports else Inr [])
                    (\<lambda>_. bind_res (FindExportedFunction (AsciiStrCmp E) (Some Img) Exports
                                     (Some EXPORTED_ENTRY_NAME)) (\<lambda>(Status, RVA).
                       if EFI_ERROR Status then Inr (Status, None)
                       else Inr (Status, map_option (\<lambda>r. li_ImageBase li + ucast r) RVA))))))"

text \<open>
  The boot services of the DXE loaders. \<open>Section\<close> is what \<^verbatim>\<open>GetSectionFromAnyFv\<close> finds: a status
  and the bytes of the section, which it returns in a new block of the pool.
  \<^verbatim>\<open>LoadImage\<close> gives a status and the handle of an image it has loaded; \<^verbatim>\<open>HandleProtocol\<close> a status
  and the interface; \<open>CodeAt\<close> is the function that runs when control is transferred to an
  address.
\<close>

record ('c, 'd) dxe_env =
  Section :: "efi_status \<times> byte list"
  LoadImage :: "byte list \<Rightarrow> 'c \<Rightarrow> efi_status \<times> nat option \<times> 'c"
  HandleProtocol :: "nat option \<Rightarrow> 'c \<Rightarrow> efi_status \<times> loaded_image option \<times> 'c"
  UnloadImage :: "nat \<Rightarrow> 'c \<Rightarrow> 'c"
  InstallMultipleProtocolInterfaces :: "nat \<Rightarrow> 'c \<Rightarrow> efi_status \<times> 'c"
  CodeAt :: "ptr \<Rightarrow> ('c, 'd) entry_fn"
  PeEnv :: pe_env

definition GetSectionFromAnyFv :: "efi_status \<times> byte list \<Rightarrow> pool \<Rightarrow> efi_status \<times> nat option \<times> pool"
where
  "GetSectionFromAnyFv sec p =
    (case sec of
       (Status, bytes) \<Rightarrow>
         if EFI_ERROR Status then (Status, None, p)
         else (case AllocatePool p (length bytes) of
                 (None, p) \<Rightarrow> (EFI_OUT_OF_RESOURCES, None, p)
               | (Some b, p) \<Rightarrow> (Status, Some b, p)))"

text \<open>
  From \<^verbatim>\<open>LoadImage\<close> to the \<^verbatim>\<open>Exit\<close> label, which both DXE loaders that load an image share. The
  result holds the handle of the loaded image as well.
\<close>

definition load_and_construct ::
    "bool \<Rightarrow> ('c, 'd) dxe_env \<Rightarrow> byte list \<Rightarrow> ('c, 'd) loader
     \<Rightarrow> (efi_status \<times> nat option \<times> ('c, 'd) loader) res" where
  "load_and_construct print E SectionData s =
    (case LoadImage E SectionData (ld_world s) of
       (Status, LoadedImageHandle, w) \<Rightarrow>
         let s = s\<lparr>ld_world := w, ld_images := set_option LoadedImageHandle \<union> ld_images s\<rparr> in
         if EFI_ERROR Status then Inr (Status, LoadedImageHandle, s)
         else (case HandleProtocol E LoadedImageHandle w of
           (Status, LoadedImage, w) \<Rightarrow>
             let s = s\<lparr>ld_world := w\<rparr> in
             if EFI_ERROR Status \<or> LoadedImage = None then Inr (Status, LoadedImageHandle, s)
             else bind_res (GetEntryFromLoadedImage print (PeEnv E) LoadedImage)
               (\<lambda>(Status, Entry).
                  if EFI_ERROR Status then Inr (Status, LoadedImageHandle, s)
                  else (case Entry of
                    None \<Rightarrow> Inl NullDeref
                  | Some a \<Rightarrow>
                      map_sum id (\<lambda>(Status, s). (Status, LoadedImageHandle, s))
                        (construct_protocol (InstallMultipleProtocolInterfaces E) (CodeAt E a) s)))))"

definition LoaderDxe_DxeEntryPoint ::
    "bool \<Rightarrow> ('c, 'd) dxe_env \<Rightarrow> 'd \<Rightarrow> ('c, 'd) loader \<Rightarrow> ('c, 'd) outcome" where
  "LoaderDxe_DxeEntryPoint print E d s =
    (case setup_depends d s of
       (False, s) \<Rightarrow> Inr (EFI_OUT_OF_RESOURCES, s)
     | (True, s) \<Rightarrow>
         (case GetSectionFromAnyFv (Section E) (ld_pool s) of
            (Status, SectionData, p) \<Rightarrow>
              let s = s\<lparr>ld_pool := p\<rparr> in
              if EFI_ERROR Status then Inr (EFI_NOT_READY, s)
              else bind_res (load_and_construct print E (snd (Section E)) s) (\<lambda>(Status, _, s).
                bind_res (if SectionData \<noteq> None then FreePool (ld_pool s) SectionData
                          else Inr (ld_pool s)) (\<lambda>p.
                  release_depends Status (s\<lparr>ld_pool := p\<rparr>)))))"

end
