(* ===== verification/LoaderFromMm.thy ===== *)
theory LoaderFromMm
  imports Loaders
begin

text \<open>
  \<^verbatim>\<open>OneCryptoLoaderDxeFromMm.c\<close>: the extraction of the PE32 image from a compressed firmware
  volume and the entry point; the transfer itself is in \<open>FetchFromMm\<close>.

  \<^item> \<open>decoded\<close> is the buffer that \<^verbatim>\<open>ExtractGuidedSectionDecode\<close> leaves in \<^verbatim>\<open>Decoded\<close>: the handler
    may expand the section into the caller's buffer, or point \<^verbatim>\<open>Decoded\<close> into the section when
    there is nothing to expand. \<open>dec_Block\<close> is the block of the pool in the first case and
    \<open>None\<close> in the second.
  \<^item> \<open>guided_env\<close> holds the handler and FvLib. A section of the decoded volume is given by its
    offset in the decoded bytes, and a file by its address.
\<close>

section \<open>ExtractOneCryptoPe32FromGuidedFv\<close>

record guided_env =
  ExtractGuidedSectionGetInfo :: "byte list \<Rightarrow> efi_status \<times> UINT32 \<times> UINT32"
  ExtractGuidedSectionDecode :: "byte list \<Rightarrow> efi_status \<times> bool \<times> byte list"
  FindFfsSectionInSections :: "byte list \<Rightarrow> efi_status \<times> nat option"
  NestedNextFile :: "byte list \<Rightarrow> nat \<Rightarrow> ptr \<Rightarrow> ptr option"
  NestedFileName :: "byte list \<Rightarrow> ptr \<Rightarrow> EFI_GUID"
  NestedPe32Data :: "byte list \<Rightarrow> ptr \<Rightarrow> efi_status \<times> byte list option"

definition sizeof_EFI_GUID_DEFINED_SECTION :: nat where "sizeof_EFI_GUID_DEFINED_SECTION = 24"
definition sizeof_EFI_FIRMWARE_VOLUME_HEADER :: nat where "sizeof_EFI_FIRMWARE_VOLUME_HEADER = 64"
definition EFI_FVH_SIGNATURE :: UINT32 where "EFI_FVH_SIGNATURE = 0x4856465F"

text \<open>The fields of \<^verbatim>\<open>EFI_FIRMWARE_VOLUME_HEADER\<close> at offset \<open>fv\<close>.\<close>

definition fv_Signature :: "byte list \<Rightarrow> nat \<Rightarrow> UINT32 res" where
  "fv_Signature m fv = read32 m (fv + 40)"

definition fv_FvLength :: "byte list \<Rightarrow> nat \<Rightarrow> UINT64 res" where
  "fv_FvLength m fv =
    bind_res (read32 m (fv + 32)) (\<lambda>lo. bind_res (read32 m (fv + 36)) (\<lambda>hi.
      Inr (ucast lo OR push_bit 32 (ucast hi))))"

text \<open>\<^verbatim>\<open>IS_SECTION2\<close>: the 24-bit size field is all ones.\<close>

definition section_is_2 :: "byte list \<Rightarrow> nat \<Rightarrow> bool res" where
  "section_is_2 m a =
    bind_res (read8 m a) (\<lambda>b0. bind_res (read8 m (a + 1)) (\<lambda>b1. bind_res (read8 m (a + 2)) (\<lambda>b2.
      Inr (b0 = 0xFF \<and> b1 = 0xFF \<and> b2 = 0xFF))))"

text \<open>The offset of the header of the nested volume; \<open>Inl\<close> is \<^verbatim>\<open>EFI_VOLUME_CORRUPTED\<close>.\<close>

definition resolve_fv :: "guided_env \<Rightarrow> byte list \<Rightarrow> (efi_status + nat) res" where
  "resolve_fv E m =
    bind_res (fv_Signature m 0) (\<lambda>sig.
      if sig = EFI_FVH_SIGNATURE then Inr (Inr 0)
      else (case FindFfsSectionInSections E m of
              (Status, FvSection) \<Rightarrow>
                if EFI_ERROR Status then Inr (Inl EFI_VOLUME_CORRUPTED)
                else (case FvSection of
                        None \<Rightarrow> Inr (Inl EFI_VOLUME_CORRUPTED)
                      | Some a \<Rightarrow> bind_res (section_is_2 m a) (\<lambda>two.
                          Inr (Inr (if two then a + 8 else a + 4))))))"

text \<open>The bounds of the volume against the decoded bytes, in the order of the condition.\<close>

definition fv_in_bounds :: "byte list \<Rightarrow> nat \<Rightarrow> nat \<Rightarrow> bool res" where
  "fv_in_bounds m DecodedSize fv =
    (if fv > DecodedSize \<or> DecodedSize - fv < sizeof_EFI_FIRMWARE_VOLUME_HEADER then Inr False
     else bind_res (fv_Signature m fv) (\<lambda>sig.
       if sig \<noteq> EFI_FVH_SIGNATURE then Inr False
       else bind_res (fv_FvLength m fv) (\<lambda>len.
         Inr (\<not> unat len > DecodedSize - fv))))"

text \<open>
  The loop over the files. \<open>None\<close>: it does not end. \<open>Some None\<close>: no file matched; otherwise the
  PE32 data of the first OneCrypto file that has any.
\<close>

partial_function (option) nested_scan ::
    "guided_env \<Rightarrow> byte list \<Rightarrow> nat \<Rightarrow> ptr \<Rightarrow> byte list option option" where
  "nested_scan E m fv FileHeader =
    (case NestedNextFile E m fv FileHeader of
       None \<Rightarrow> Some None
     | Some f \<Rightarrow>
         if NestedFileName E m f \<noteq> ONE_CRYPTO_BINARY_GUID then nested_scan E m fv f
         else (case NestedPe32Data E m f of
                 (Status, Some SectionData) \<Rightarrow>
                   if \<not> EFI_ERROR Status \<and> length SectionData \<noteq> 0 then Some (Some SectionData)
                   else nested_scan E m fv f
               | (Status, None) \<Rightarrow> nested_scan E m fv f))"

text \<open>
  The \<^verbatim>\<open>Cleanup\<close> block: the result is the status, \<^verbatim>\<open>*Pe32Data\<close> with its contents, and the pool.
  \<open>Decoded\<close> is \<open>None\<close> for NULL, and \<open>Some None\<close> for a pointer into the section.
\<close>

type_synonym extracted = "(efi_status \<times> (nat \<times> byte list) option \<times> pool) res"

definition extract_cleanup ::
    "nat option option \<Rightarrow> nat option \<Rightarrow> efi_status \<Rightarrow> (nat \<times> byte list) option \<Rightarrow> pool \<Rightarrow> extracted" where
  "extract_cleanup Decoded Scratch Status Pe32Data p =
    bind_res (case Decoded of
                None \<Rightarrow> Inr p
              | Some None \<Rightarrow> Inl UseAfterFree
              | Some (Some b) \<Rightarrow> FreePool p (Some b)) (\<lambda>p.
    bind_res (if Scratch \<noteq> None then FreePool p Scratch else Inr p) (\<lambda>p.
      Inr (Status, Pe32Data, p)))"

text \<open>From the check of the decoded size to the \<^verbatim>\<open>Cleanup\<close> label: the status and the PE32 data.\<close>

definition find_nested_pe32 ::
    "guided_env \<Rightarrow> byte list \<Rightarrow> nat \<Rightarrow> (efi_status + byte list) res option" where
  "find_nested_pe32 E m DecodedSize =
    (if DecodedSize < sizeof_EFI_FIRMWARE_VOLUME_HEADER then Some (Inr (Inl EFI_VOLUME_CORRUPTED))
     else (case resolve_fv E m of
       Inl f \<Rightarrow> Some (Inl f)
     | Inr (Inl Status) \<Rightarrow> Some (Inr (Inl Status))
     | Inr (Inr fv) \<Rightarrow>
         (case fv_in_bounds m DecodedSize fv of
            Inl f \<Rightarrow> Some (Inl f)
          | Inr False \<Rightarrow> Some (Inr (Inl EFI_VOLUME_CORRUPTED))
          | Inr True \<Rightarrow>
              (case nested_scan E m fv 0 of
                 None \<Rightarrow> None
               | Some None \<Rightarrow> Some (Inr (Inl EFI_NOT_FOUND))
               | Some (Some SectionData) \<Rightarrow> Some (Inr (Inr SectionData))))))"

definition ExtractOneCryptoPe32FromGuidedFv ::
    "guided_env \<Rightarrow> (nat \<times> byte list) option \<Rightarrow> pool \<Rightarrow> extracted option" where
  "ExtractOneCryptoPe32FromGuidedFv E GuidedSection p =
    (case GuidedSection of
       None \<Rightarrow> Some (Inr (EFI_INVALID_PARAMETER, None, p))
     | Some (h, sec) \<Rightarrow>
         if length sec < sizeof_EFI_GUID_DEFINED_SECTION
         then Some (Inr (EFI_INVALID_PARAMETER, None, p))
         else (case ExtractGuidedSectionGetInfo E sec of
           (Status, DecodedSize, ScratchSize) \<Rightarrow>
             if EFI_ERROR Status \<or> DecodedSize = 0
             then Some (Inr (EFI_COMPROMISED_DATA, None, p))
             else (case AllocatePool p (unat DecodedSize) of
               (None, p) \<Rightarrow> Some (extract_cleanup None None EFI_OUT_OF_RESOURCES None p)
             | (Some d, p) \<Rightarrow>
                 (case (if ScratchSize \<noteq> 0 then AllocatePool p (unat ScratchSize) else (None, p)) of
                    (Scratch, p) \<Rightarrow>
                      if ScratchSize \<noteq> 0 \<and> Scratch = None
                      then Some (extract_cleanup (Some (Some d)) None EFI_OUT_OF_RESOURCES None p)
                      else (case ExtractGuidedSectionDecode E sec of
                        (Status, in_place, m) \<Rightarrow>
                          let Decoded = Some (if in_place then None else Some d) in
                          if EFI_ERROR Status
                          then Some (extract_cleanup Decoded Scratch EFI_COMPROMISED_DATA None p)
                          else map_option (\<lambda>r. bind_res r (\<lambda>found.
                            case found of
                              Inl Status \<Rightarrow> extract_cleanup Decoded Scratch Status None p
                            | Inr SectionData \<Rightarrow>
                                (case AllocatePool p (length SectionData) of
                                   (None, p) \<Rightarrow>
                                     extract_cleanup Decoded Scratch EFI_OUT_OF_RESOURCES None p
                                 | (Some c, p) \<Rightarrow>
                                     extract_cleanup Decoded Scratch EFI_SUCCESS
                                       (Some (c, SectionData)) p)))
                            (find_nested_pe32 E m (unat DecodedSize)))))))"

section \<open>DxeEntryPoint\<close>

text \<open>The \<^verbatim>\<open>Exit\<close> block, which unloads the image and frees the protocol on an error.\<close>

definition frommm_exit ::
    "('c, 'd) dxe_env \<Rightarrow> efi_status \<Rightarrow> nat option \<Rightarrow> nat option \<Rightarrow> ('c, 'd) loader
     \<Rightarrow> ('c, 'd) outcome" where
  "frommm_exit E Status LoadedImageHandle SectionData s =
    bind_res
      (if EFI_ERROR Status then
         bind_res (if mOneCryptoProtocol s \<noteq> None
                   then FreePool (ld_pool s) (mOneCryptoProtocol s) else Inr (ld_pool s)) (\<lambda>p.
           let s = s\<lparr>ld_pool := p, mOneCryptoProtocol := None\<rparr> in
           Inr (case LoadedImageHandle of
                  None \<Rightarrow> s
                | Some i \<Rightarrow> s\<lparr>ld_world := UnloadImage E i (ld_world s),
                              ld_images := ld_images s - {i}\<rparr>))
       else Inr s) (\<lambda>s.
    bind_res (if SectionData \<noteq> None then FreePool (ld_pool s) SectionData
              else Inr (ld_pool s)) (\<lambda>p.
    map_sum id (\<lambda>(Status, s). (Status, if Status \<noteq> EFI_SUCCESS
                                         then s\<lparr>mOneCryptoDepends := None\<rparr> else s))
      (release_depends Status (s\<lparr>ld_pool := p\<rparr>))))"

text \<open>
  \<open>Fetch\<close> is \<^verbatim>\<open>FetchImageFromMm\<close> on the firmware state and the pool. \<open>None\<close>: the search in the
  nested volume does not end.
\<close>

definition FromMm_DxeEntryPoint ::
    "('c \<Rightarrow> pool \<Rightarrow> 'c image_result res) \<Rightarrow> guided_env \<Rightarrow> ('c, 'd) dxe_env \<Rightarrow> 'd
     \<Rightarrow> ('c, 'd) loader \<Rightarrow> ('c, 'd) outcome option" where
  "FromMm_DxeEntryPoint Fetch G E d s =
    (case setup_depends d s of
       (False, s) \<Rightarrow> Some (Inr (EFI_OUT_OF_RESOURCES, s))
     | (True, s) \<Rightarrow>
         (case Fetch (ld_world s) (ld_pool s) of
            Inl f \<Rightarrow> Some (Inl f)
          | Inr (Status, SectionData, SectionSize, ImageFormat, w, p) \<Rightarrow>
              let s = s\<lparr>ld_world := w, ld_pool := p\<rparr> in
              if EFI_ERROR Status then Some (Inr (Status, s))
              else map_option (\<lambda>r. bind_res r (\<lambda>(Status, SectionData, s).
                if EFI_ERROR Status then Inr (Status, s)
                else bind_res (load_and_construct False E (case SectionData of None \<Rightarrow> []
                                                             | Some (b, bytes) \<Rightarrow> bytes) s)
                  (\<lambda>(Status, LoadedImageHandle, s).
                     frommm_exit E Status LoadedImageHandle (map_option fst SectionData) s)))
                (if ImageFormat = ONE_CRYPTO_IMAGE_FORMAT_GUIDED_FV then
                   map_option (\<lambda>r. bind_res r (\<lambda>(Status, Pe32Data, p).
                     bind_res (FreePool p (map_option fst SectionData)) (\<lambda>p.
                       Inr (Status, Pe32Data, s\<lparr>ld_pool := p\<rparr>))))
                     (ExtractOneCryptoPe32FromGuidedFv G SectionData p)
                 else Some (Inr (Status, SectionData, s)))))"

end
