(* ===== verification/LoaderSafe.thy ===== *)
theory LoaderSafe
  imports LoaderFromMm
begin

text \<open>
  The contract between the loaders and the constructor of the crypto binary, as an interface;
  what the shared steps of the loaders do with every constructor that keeps it; and the proof
  that the constructors of \<open>CryptoBin\<close> keep it.
\<close>

section \<open>Outcomes of a step\<close>

definition loader_frame :: "('c, 'd) loader \<Rightarrow> ('c, 'd) loader \<Rightarrow> bool" where
  "loader_frame s s' \<longleftrightarrow> pool_inv (ld_pool s') \<and> ld_images s' = ld_images s
    \<and> mOneCryptoDepends s' = mOneCryptoDepends s"

text \<open>The protocol is in a new block and installed; it was neither allocated nor installed; or it
  is in a new block that was not installed.\<close>

definition installed_new :: "('c, 'd) loader \<Rightarrow> ('c, 'd) loader \<Rightarrow> bool" where
  "installed_new s s' \<longleftrightarrow> (\<exists>b. b \<notin> pool_live (ld_pool s)
    \<and> pool_live (ld_pool s') = insert b (pool_live (ld_pool s))
    \<and> mOneCryptoProtocol s' = Some b \<and> ld_installed s' = Some b)"

definition not_installed :: "('c, 'd) loader \<Rightarrow> ('c, 'd) loader \<Rightarrow> bool" where
  "not_installed s s' \<longleftrightarrow> pool_live (ld_pool s') = pool_live (ld_pool s)
    \<and> ld_installed s' = ld_installed s
    \<and> (mOneCryptoProtocol s' = None \<or> mOneCryptoProtocol s' = mOneCryptoProtocol s)"

definition install_failed :: "('c, 'd) loader \<Rightarrow> ('c, 'd) loader \<Rightarrow> bool" where
  "install_failed s s' \<longleftrightarrow> (\<exists>b. b \<notin> pool_live (ld_pool s)
    \<and> pool_live (ld_pool s') = insert b (pool_live (ld_pool s))
    \<and> mOneCryptoProtocol s' = Some b \<and> ld_installed s' = ld_installed s)"

definition constructed :: "('c, 'd) loader \<Rightarrow> efi_status \<Rightarrow> ('c, 'd) loader \<Rightarrow> bool" where
  "constructed s st s' \<longleftrightarrow> loader_frame s s'
    \<and> (st = EFI_SUCCESS \<and> installed_new s s'
       \<or> EFI_ERROR st \<and> (not_installed s s' \<or> install_failed s s'))"

section \<open>The contract\<close>

locale crypto_constructor =
  fixes Entry :: "('c, 'd) entry_fn"
  assumes query_error: "\<exists>st n w'. Entry d None 0 w = Inr (st, n, w') \<and> EFI_ERROR st"
    and construct_runs: "Entry d None 0 w = Inr (EFI_BUFFER_TOO_SMALL, n, w') \<Longrightarrow> n \<noteq> 0 \<Longrightarrow>
          \<exists>st n' w''. Entry d (Some (b, unat n)) n w' = Inr (st, n', w'')"
begin

lemma construct_protocol_cases:
  assumes "pool_inv (ld_pool s)" and "mOneCryptoDepends s = Some (h, d)"
  shows "\<exists>st s'. construct_protocol I Entry s = Inr (st, s') \<and> constructed s st s'"
proof -
  from query_error [of d "ld_world s"] obtain st n w where
    q: "Entry d None 0 (ld_world s) = Inr (st, n, w)" "EFI_ERROR st" by blast
  show ?thesis
  proof (cases "st \<noteq> EFI_BUFFER_TOO_SMALL \<or> n = 0")
    case True
    with assms q show ?thesis
      by (auto simp: construct_protocol_def constructed_def loader_frame_def not_installed_def)
  next
    case False
    then have st: "st = EFI_BUFFER_TOO_SMALL" "n \<noteq> 0" by auto
    obtain r p where al: "AllocatePool (ld_pool s) (unat n) = (r, p)" by fastforce
    show ?thesis
    proof (cases r)
      case None
      with AllocatePool_None al assms(1) have
        "pool_inv p" "pool_live p = pool_live (ld_pool s)" by blast+
      with assms q st al None show ?thesis
        by (auto simp: construct_protocol_def constructed_def loader_frame_def not_installed_def)
    next
      case (Some b)
      from AllocatePool_Some [OF al [unfolded Some] assms(1)] have
        p: "pool_inv p" "b \<notin> pool_live (ld_pool s)" "pool_live p = insert b (pool_live (ld_pool s))"
        by simp_all
      from construct_runs q(1) st obtain st2 n2 w2 where
        c: "Entry d (Some (b, unat n)) n w = Inr (st2, n2, w2)" by blast
      from FreePool_live [of b p] p obtain p2 where
        f: "FreePool p (Some b) = Inr p2" "pool_inv p2" "pool_live p2 = pool_live (ld_pool s)" by auto
      obtain st3 w3 where i: "I b w2 = (st3, w3)" by fastforce
      show ?thesis
        using assms q st al Some p c f i
        by (cases "EFI_ERROR st2"; cases "EFI_ERROR st3")
          (auto simp: construct_protocol_def constructed_def loader_frame_def not_installed_def
            installed_new_def install_failed_def)
    qed
  qed
qed

end

section \<open>The constructors of the crypto binary\<close>

text \<open>
  \<^verbatim>\<open>CryptoEntry\<close> and \<^verbatim>\<open>NoSetupCryptoEntry\<close> as functions that a loader calls. The state of the
  firmware is the table that the CRT library of the binary uses, the protocol that each block
  holds, and the rest; \<open>init\<close> is \<^verbatim>\<open>BaseCryptInit\<close>.
\<close>

type_synonym 'w bin_state = "'w deps option \<times> (nat \<rightharpoonup> protocol) \<times> 'w"

definition store_protocol ::
    "(nat \<times> nat) option \<Rightarrow> UINT32 \<Rightarrow> (nat \<rightharpoonup> protocol) \<Rightarrow> 'w \<Rightarrow>
     efi_status \<times> UINT32 option \<times> 'w deps option \<times> protocol option \<Rightarrow> efi_status \<times> UINT32 \<times> 'w bin_state"
where
  "store_protocol Crypto CryptoSize bufs w r =
    (case r of (Status, sz', m, prot) \<Rightarrow>
      (Status, case_option CryptoSize id sz', m,
       case (Crypto, prot) of (Some (b, n), Some p) \<Rightarrow> bufs(b \<mapsto> p) | _ \<Rightarrow> bufs, w))"

definition nosetup_fn :: "UINT32 \<Rightarrow> UINT16 \<times> UINT16 \<Rightarrow> ('w bin_state, 'w deps) entry_fn" where
  "nosetup_fn sz v d Crypto CryptoSize c =
    (case c of (m, bufs, w) \<Rightarrow>
      map_sum id (store_protocol Crypto CryptoSize bufs w)
        (NoSetupCryptoEntry sz v m (Some d) (map_option (\<lambda>(b, n). Some n) Crypto) (Some CryptoSize)))"

definition entry_fn ::
    "('w \<Rightarrow> efi_status \<times> 'w) \<Rightarrow> UINT32 \<Rightarrow> UINT16 \<times> UINT16 \<Rightarrow> ('w bin_state, 'w deps) entry_fn" where
  "entry_fn init sz v d Crypto CryptoSize c =
    (case c of (m, bufs, w) \<Rightarrow>
      (case init w of (InitStatus, w) \<Rightarrow>
        map_sum id (store_protocol Crypto CryptoSize bufs w)
          (CryptoEntry InitStatus sz v m (Some d) (map_option (\<lambda>(b, n). Some n) Crypto)
             (Some CryptoSize))))"

lemmas constructor_defs = nosetup_fn_def entry_fn_def store_protocol_def CryptoEntry_def
  NoSetupCryptoEntry_query NoSetupCryptoEntry_construct

interpretation nosetup_entry: crypto_constructor "nosetup_fn sz v"
proof (unfold_locales, goal_cases)
  case (1 d w)
  show ?case by (cases w) (simp add: constructor_defs)
next
  case (2 d w n w' b)
  then show ?case by (cases w) (auto simp: constructor_defs)
qed

interpretation crypto_entry: crypto_constructor "entry_fn init sz v"
proof (unfold_locales, goal_cases)
  case (1 d w)
  obtain m bufs x where w: "w = (m, bufs, x)" by (cases w)
  obtain i x' where "init x = (i, x')" by fastforce
  with w show ?case by (simp add: constructor_defs)
next
  case (2 d w n w' b)
  obtain m bufs x where w: "w = (m, bufs, x)" by (cases w)
  obtain i x' where i: "init x = (i, x')" by fastforce
  obtain i2 x2 where "init x' = (i2, x2)" by fastforce
  with 2 w i show ?case by (auto simp: constructor_defs split: if_splits)
qed

end
