(* ===== verification/ExtractSafe.thy ===== *)
theory ExtractSafe
  imports LoaderFromMm
begin

text \<open>
  The extraction of the PE32 image from the compressed volume is memory safe, ends, returns the
  first OneCrypto file that has a PE32 section, and gives back every buffer it took, for every
  guided section that the handler expands into the caller's buffer.
\<close>

section \<open>The search in the nested volume\<close>

fun nested_chain :: "guided_env \<Rightarrow> byte list \<Rightarrow> nat \<Rightarrow> ptr \<Rightarrow> ptr list \<Rightarrow> bool" where
  "nested_chain E m fv f [] \<longleftrightarrow> NestedNextFile E m fv f = None"
| "nested_chain E m fv f (g # gs) \<longleftrightarrow> NestedNextFile E m fv f = Some g \<and> nested_chain E m fv g gs"

definition nested_pe32 :: "guided_env \<Rightarrow> byte list \<Rightarrow> ptr \<Rightarrow> byte list option" where
  "nested_pe32 E m f =
    (if NestedFileName E m f = ONE_CRYPTO_BINARY_GUID \<and> \<not> EFI_ERROR (fst (NestedPe32Data E m f))
        \<and> snd (NestedPe32Data E m f) \<noteq> Some [] then snd (NestedPe32Data E m f) else None)"

lemma nested_scan_step:
  "nested_scan E m fv f =
    (case NestedNextFile E m fv f of
       None \<Rightarrow> Some None
     | Some g \<Rightarrow> (case nested_pe32 E m g of
                    Some x \<Rightarrow> Some (Some x)
                  | None \<Rightarrow> nested_scan E m fv g))"
  by (subst nested_scan.simps) (auto simp: nested_pe32_def split: option.splits prod.splits)

lemma nested_scan_chain:
  "nested_chain E m fv f fs \<Longrightarrow> nested_scan E m fv f = Some (first_some (nested_pe32 E m) fs)"
  by (induction fs arbitrary: f) (simp_all add: nested_scan_step split: option.split)

text \<open>
  What the handler and FvLib promise: the section is expanded into the caller's buffer and fills
  it, a section header that is found lies inside the decoded bytes, and \<open>files\<close> lists the files
  of a volume.
\<close>

definition guided_ok :: "guided_env \<Rightarrow> (byte list \<Rightarrow> nat \<Rightarrow> ptr list) \<Rightarrow> bool" where
  "guided_ok G files \<longleftrightarrow>
    (\<forall>sec st ds ss st' ip m. ExtractGuidedSectionGetInfo G sec = (st, ds, ss)
        \<and> ExtractGuidedSectionDecode G sec = (st', ip, m)
        \<longrightarrow> \<not> ip \<and> (\<not> EFI_ERROR st \<and> \<not> EFI_ERROR st' \<longrightarrow> length m = unat ds))
    \<and> (\<forall>m st a. FindFfsSectionInSections G m = (st, Some a) \<and> \<not> EFI_ERROR st \<longrightarrow> a + 4 \<le> length m)
    \<and> (\<forall>m fv. nested_chain G m fv 0 (files m fv))"

lemma guided_ok_decode:
  assumes "guided_ok G files" and "ExtractGuidedSectionGetInfo G sec = (st, ds, ss)"
    and "ExtractGuidedSectionDecode G sec = (st', ip, m)"
  shows "\<not> ip \<and> (\<not> EFI_ERROR st \<and> \<not> EFI_ERROR st' \<longrightarrow> length m = unat ds)"
  using assms unfolding guided_ok_def by blast

lemma resolve_fv_runs:
  assumes "guided_ok G files" and "64 \<le> length m"
  shows "(\<exists>fv. resolve_fv G m = Inr (Inr fv)) \<or> resolve_fv G m = Inr (Inl EFI_VOLUME_CORRUPTED)"
proof -
  obtain sig where sig: "fv_Signature m 0 = Inr sig"
    using assms(2) by (simp add: fv_Signature_def read32_def)
  obtain st a where f: "FindFfsSectionInSections G m = (st, a)" by fastforce
  show ?thesis
  proof (cases "sig = EFI_FVH_SIGNATURE \<or> EFI_ERROR st \<or> a = None")
    case True
    with sig f show ?thesis by (auto simp: resolve_fv_def)
  next
    case False
    then obtain x where x: "a = Some x" by auto
    with assms(1) f False have "x + 4 \<le> length m" by (auto simp: guided_ok_def)
    then obtain two where "section_is_2 m x = Inr two"
      by (simp add: section_is_2_def read8_def)
    with sig f False x show ?thesis by (simp add: resolve_fv_def)
  qed
qed

lemma fv_in_bounds_runs: "\<exists>r. fv_in_bounds m (length m) fv = Inr r"
proof (cases "fv > length m \<or> length m - fv < 64")
  case True
  then have "fv_in_bounds m (length m) fv = Inr False"
    by (simp add: fv_in_bounds_def sizeof_EFI_FIRMWARE_VOLUME_HEADER_def)
  then show ?thesis by blast
next
  case False
  then have "fv + 64 \<le> length m" by arith
  then obtain sig len where "fv_Signature m fv = Inr sig" "fv_FvLength m fv = Inr len"
    by (simp add: fv_Signature_def fv_FvLength_def read32_def)
  with False show ?thesis
    by (auto simp: fv_in_bounds_def sizeof_EFI_FIRMWARE_VOLUME_HEADER_def intro: exI [of _ False])
qed

text \<open>What a successful search returns.\<close>

definition nested_image :: "guided_env \<Rightarrow> (byte list \<Rightarrow> nat \<Rightarrow> ptr list) \<Rightarrow> byte list \<Rightarrow> byte list \<Rightarrow> bool" where
  "nested_image G files m bytes \<longleftrightarrow> (\<exists>fv. resolve_fv G m = Inr (Inr fv)
    \<and> fv_in_bounds m (length m) fv = Inr True
    \<and> first_some (nested_pe32 G m) (files m fv) = Some bytes)"

lemma find_nested_pe32_cases:
  assumes "guided_ok G files"
  shows "(\<exists>st. find_nested_pe32 G m (length m) = Some (Inr (Inl st)) \<and> EFI_ERROR st)
    \<or> (\<exists>bytes. find_nested_pe32 G m (length m) = Some (Inr (Inr bytes)) \<and> nested_image G files m bytes)"
proof (cases "length m < 64")
  case True
  then show ?thesis by (simp add: find_nested_pe32_def sizeof_EFI_FIRMWARE_VOLUME_HEADER_def)
next
  case False
  with resolve_fv_runs [OF assms, of m] consider
      "resolve_fv G m = Inr (Inl EFI_VOLUME_CORRUPTED)"
    | fv where "resolve_fv G m = Inr (Inr fv)" by auto
  then show ?thesis
  proof cases
    case 1
    with False show ?thesis
      by (simp add: find_nested_pe32_def sizeof_EFI_FIRMWARE_VOLUME_HEADER_def)
  next
    case 2
    from fv_in_bounds_runs obtain r where r: "fv_in_bounds m (length m) fv = Inr r" by blast
    from assms have "nested_chain G m fv 0 (files m fv)" by (simp add: guided_ok_def)
    from nested_scan_chain [OF this] False 2 r show ?thesis
      by (cases r; cases "first_some (nested_pe32 G m) (files m fv)")
        (simp_all add: find_nested_pe32_def sizeof_EFI_FIRMWARE_VOLUME_HEADER_def nested_image_def)
  qed
qed

section \<open>The buffers\<close>

lemma extract_cleanup_live:
  assumes "pool_inv p" and "d \<in> pool_live p" and "\<And>b. scr = Some b \<Longrightarrow> b \<in> pool_live p \<and> b \<noteq> d"
  shows "\<exists>p'. extract_cleanup (Some (Some d)) scr st r p = Inr (st, r, p') \<and> pool_inv p'
    \<and> pool_live p' = pool_live p - {d} - set_option scr"
proof -
  from FreePool_live [OF assms(2,1)] obtain p1 where
    p1: "FreePool p (Some d) = Inr p1" "pool_inv p1" "pool_live p1 = pool_live p - {d}" by blast
  show ?thesis
  proof (cases scr)
    case None
    with p1 show ?thesis by (simp add: extract_cleanup_def)
  next
    case (Some b)
    with assms(3) p1 have "b \<in> pool_live p1" by auto
    from FreePool_live [OF this p1(2)] p1 Some show ?thesis by (auto simp: extract_cleanup_def)
  qed
qed

text \<open>
  A run of the function: it failed and left the live blocks as they were, or it returned a new
  block with the image.
\<close>

definition extract_good ::
    "guided_env \<Rightarrow> (byte list \<Rightarrow> nat \<Rightarrow> ptr list) \<Rightarrow> byte list \<Rightarrow> pool \<Rightarrow> extracted option \<Rightarrow> bool" where
  "extract_good G files sec p r \<longleftrightarrow> (\<exists>st d p'. r = Some (Inr (st, d, p')) \<and> pool_inv p'
    \<and> (case d of
         None \<Rightarrow> EFI_ERROR st \<and> pool_live p' = pool_live p
       | Some (c, bytes) \<Rightarrow> st = EFI_SUCCESS \<and> c \<notin> pool_live p \<and> pool_live p' = insert c (pool_live p)
           \<and> nested_image G files (snd (snd (ExtractGuidedSectionDecode G sec))) bytes))"

lemma extract_good_error:
  assumes "pool_inv p1" and "d \<in> pool_live p1" and "\<And>b. scr = Some b \<Longrightarrow> b \<in> pool_live p1 \<and> b \<noteq> d"
    and "EFI_ERROR st" and "pool_live p1 - {d} - set_option scr = pool_live p"
  shows "extract_good G files sec p (Some (extract_cleanup (Some (Some d)) scr st None p1))"
  using extract_cleanup_live [OF assms(1-3), where scr = scr and st = st and r = None] assms(4,5)
  by (auto simp: extract_good_def)


text \<open>The part after the two buffers have been taken.\<close>

definition extract_tail ::
    "guided_env \<Rightarrow> byte list \<Rightarrow> nat \<Rightarrow> nat \<Rightarrow> nat option \<Rightarrow> pool \<Rightarrow> extracted option" where
  "extract_tail E sec n d Scratch p =
    (case ExtractGuidedSectionDecode E sec of
       (Status, in_place, m) \<Rightarrow>
         let Decoded = Some (if in_place then None else Some d) in
         if EFI_ERROR Status then Some (extract_cleanup Decoded Scratch EFI_COMPROMISED_DATA None p)
         else map_option (\<lambda>r. bind_res r (\<lambda>found.
           case found of
             Inl Status \<Rightarrow> extract_cleanup Decoded Scratch Status None p
           | Inr SectionData \<Rightarrow>
               (case AllocatePool p (length SectionData) of
                  (None, p) \<Rightarrow> extract_cleanup Decoded Scratch EFI_OUT_OF_RESOURCES None p
                | (Some c, p) \<Rightarrow>
                    extract_cleanup Decoded Scratch EFI_SUCCESS (Some (c, SectionData)) p)))
           (find_nested_pe32 E m n))"

lemma extract_tail_good:
  assumes ok: "guided_ok G files" and "ExtractGuidedSectionGetInfo G sec = (st0, n, ss)"
    and "\<not> EFI_ERROR st0" and inv: "pool_inv p1" and d: "d \<in> pool_live p1"
    and scr: "\<And>b. scr = Some b \<Longrightarrow> b \<in> pool_live p1 \<and> b \<noteq> d"
    and live: "pool_live p1 - {d} - set_option scr = pool_live p"
  shows "extract_good G files sec p (extract_tail G sec (unat n) d scr p1)"
proof -
  obtain st ip m where dec: "ExtractGuidedSectionDecode G sec = (st, ip, m)"
    using prod_cases3 by blast
  have ip: "\<not> ip" and m: "\<not> EFI_ERROR st \<Longrightarrow> length m = unat n"
    using guided_ok_decode [OF ok assms(2) dec] assms(3) by auto
  note err = extract_good_error [OF inv d scr _ live]
  show ?thesis
  proof (cases "EFI_ERROR st")
    case True
    with dec ip err show ?thesis by (simp add: extract_tail_def)
  next
    case False
    with m have m: "unat n = length m" by simp
    from find_nested_pe32_cases [OF ok, of m] show ?thesis
    proof (elim disjE exE conjE)
      fix st'
      assume "find_nested_pe32 G m (length m) = Some (Inr (Inl st'))" "EFI_ERROR st'"
      with dec ip err False m show ?thesis by (simp add: extract_tail_def)
    next
      fix bytes
      assume found: "find_nested_pe32 G m (length m) = Some (Inr (Inr bytes))"
        and img: "nested_image G files m bytes"
      obtain c p2 where al: "AllocatePool p1 (length bytes) = (c, p2)" by fastforce
      show ?thesis
      proof (cases c)
        case None
        from AllocatePool_None [OF al [unfolded None] inv] have "pool_inv p2"
          "pool_live p2 = pool_live p1" by simp_all
        with extract_good_error [of p2 d scr EFI_OUT_OF_RESOURCES p G files sec] d scr live
        have "extract_good G files sec p
            (Some (extract_cleanup (Some (Some d)) scr EFI_OUT_OF_RESOURCES None p2))" by simp
        with dec ip False m found al None show ?thesis by (simp add: extract_tail_def)
      next
        case (Some x)
        from AllocatePool_Some [OF al [unfolded Some] inv] have p2: "pool_inv p2"
          "x \<notin> pool_live p1" "pool_live p2 = insert x (pool_live p1)" by simp_all
        have "\<exists>p'. extract_cleanup (Some (Some d)) scr EFI_SUCCESS (Some (x, bytes)) p2
            = Inr (EFI_SUCCESS, Some (x, bytes), p')
          \<and> pool_inv p' \<and> pool_live p' = pool_live p2 - {d} - set_option scr"
          using p2 d scr by (intro extract_cleanup_live) auto
        then obtain p' where p': "extract_cleanup (Some (Some d)) scr EFI_SUCCESS (Some (x, bytes)) p2
            = Inr (EFI_SUCCESS, Some (x, bytes), p')"
          "pool_inv p'" "pool_live p' = pool_live p2 - {d} - set_option scr" by blast
        have "pool_live p' = insert x (pool_live p)" "x \<notin> pool_live p"
          using p' p2 d scr live by auto
        with p' dec ip False m found al Some img show ?thesis
          by (simp add: extract_tail_def extract_good_def)
      qed
    qed
  qed
qed

lemma Extract_unfold:
  "ExtractOneCryptoPe32FromGuidedFv E (Some (h, sec)) p =
    (if length sec < 24 then Some (Inr (EFI_INVALID_PARAMETER, None, p))
     else (case ExtractGuidedSectionGetInfo E sec of
       (Status, n, ss) \<Rightarrow>
         if EFI_ERROR Status \<or> n = 0 then Some (Inr (EFI_COMPROMISED_DATA, None, p))
         else (case AllocatePool p (unat n) of
           (None, p) \<Rightarrow> Some (extract_cleanup None None EFI_OUT_OF_RESOURCES None p)
         | (Some d, p) \<Rightarrow>
             if ss = 0 then extract_tail E sec (unat n) d None p
             else (case AllocatePool p (unat ss) of
               (None, p) \<Rightarrow> Some (extract_cleanup (Some (Some d)) None EFI_OUT_OF_RESOURCES None p)
             | (Some b, p) \<Rightarrow> extract_tail E sec (unat n) d (Some b) p))))"
  by (auto simp: ExtractOneCryptoPe32FromGuidedFv_def extract_tail_def Let_def
      sizeof_EFI_GUID_DEFINED_SECTION_def split: prod.splits option.splits)

lemma Extract_good:
  assumes ok: "guided_ok G files" and inv: "pool_inv p"
  shows "extract_good G files sec p (ExtractOneCryptoPe32FromGuidedFv G (Some (h, sec)) p)"
proof -
  obtain st n ss where gi: "ExtractGuidedSectionGetInfo G sec = (st, n, ss)" using prod_cases3 by blast
  show ?thesis
  proof (cases "length sec < 24 \<or> EFI_ERROR st \<or> n = 0")
    case True
    with gi inv show ?thesis by (auto simp: Extract_unfold extract_good_def)
  next
    case False
    obtain d p1 where al: "AllocatePool p (unat n) = (d, p1)" by fastforce
    show ?thesis
    proof (cases d)
      case None
      with AllocatePool_None [OF al [unfolded None] inv] gi al False show ?thesis
        by (auto simp: Extract_unfold extract_good_def extract_cleanup_def)
    next
      case (Some b)
      from AllocatePool_Some [OF al [unfolded Some] inv] have p1: "pool_inv p1" "b \<notin> pool_live p"
        "pool_live p1 = insert b (pool_live p)" by simp_all
      obtain e p2 where al2: "AllocatePool p1 (unat ss) = (e, p2)" by fastforce
      consider "ss = 0" | "ss \<noteq> 0" "e = None" | f where "ss \<noteq> 0" "e = Some f" by (cases e) auto
      then show ?thesis
      proof cases
        case 1
        from extract_tail_good [OF ok gi _ p1(1), of b None p] gi al False Some 1 p1 show ?thesis
          by (simp add: Extract_unfold)
      next
        case 2
        from AllocatePool_None [OF al2 [unfolded 2] p1(1)] have "pool_inv p2"
          "pool_live p2 = pool_live p1" by simp_all
        with extract_good_error [of p2 b None EFI_OUT_OF_RESOURCES p G files sec] gi al al2 False Some 2 p1
        show ?thesis by (simp add: Extract_unfold)
      next
        case 3
        from AllocatePool_Some [OF al2 [unfolded 3] p1(1)] have p2: "pool_inv p2" "f \<notin> pool_live p1"
          "pool_live p2 = insert f (pool_live p1)" by simp_all
        have "extract_good G files sec p (extract_tail G sec (unat n) b (Some f) p2)"
          using False p1 p2 by (intro extract_tail_good [OF ok gi]) auto
        with gi al al2 False Some 3 show ?thesis by (simp add: Extract_unfold)
      qed
    qed
  qed
qed

end
