(* ===== verification/LoaderOutcome.thy ===== *)
theory LoaderOutcome
  imports LoaderSafe ExtractSafe FetchSafe PeCoffProps
begin

text \<open>
  What each loader leaves behind, for every constructor that keeps the contract and every
  firmware: the blocks of the pool, the installed interface and the loaded images.
\<close>

section \<open>The outcomes of a loader\<close>

text \<open>
  From a state without a table: the protocol is installed and both blocks live; nothing is left;
  the protocol buffer is left although it is not installed; or the table is left, with the
  pointer to it.
\<close>

definition loaded :: "'d \<Rightarrow> ('c, 'd) loader \<Rightarrow> ('c, 'd) loader \<Rightarrow> bool" where
  "loaded d s s' \<longleftrightarrow> (\<exists>h b. h \<noteq> b \<and> h \<notin> pool_live (ld_pool s) \<and> b \<notin> pool_live (ld_pool s)
    \<and> pool_live (ld_pool s') = insert b (insert h (pool_live (ld_pool s)))
    \<and> mOneCryptoDepends s' = Some (h, d) \<and> mOneCryptoProtocol s' = Some b \<and> ld_installed s' = Some b)"

definition refused :: "('c, 'd) loader \<Rightarrow> ('c, 'd) loader \<Rightarrow> bool" where
  "refused s s' \<longleftrightarrow> pool_live (ld_pool s') = pool_live (ld_pool s) \<and> ld_installed s' = ld_installed s"

definition protocol_leaked :: "('c, 'd) loader \<Rightarrow> ('c, 'd) loader \<Rightarrow> bool" where
  "protocol_leaked s s' \<longleftrightarrow> (\<exists>b. b \<notin> pool_live (ld_pool s)
    \<and> pool_live (ld_pool s') = insert b (pool_live (ld_pool s))
    \<and> mOneCryptoProtocol s' = Some b \<and> ld_installed s' = ld_installed s)"

definition table_kept :: "'d \<Rightarrow> ('c, 'd) loader \<Rightarrow> ('c, 'd) loader \<Rightarrow> bool" where
  "table_kept d s s' \<longleftrightarrow> (\<exists>h. h \<notin> pool_live (ld_pool s)
    \<and> pool_live (ld_pool s') = insert h (pool_live (ld_pool s))
    \<and> mOneCryptoDepends s' = Some (h, d) \<and> ld_installed s' = ld_installed s)"

lemmas outcome_defs = loaded_def refused_def protocol_leaked_def table_kept_def constructed_def
  loader_frame_def installed_new_def not_installed_def install_failed_def

section \<open>The dependency table\<close>

lemma allocate_depends_cases:
  assumes "pool_inv (ld_pool s)"
  shows "(\<exists>p. allocate_depends d s = (False, s\<lparr>ld_pool := p, mOneCryptoDepends := None\<rparr>)
        \<and> pool_inv p \<and> pool_live p = pool_live (ld_pool s))
    \<or> (\<exists>p h. allocate_depends d s = (True, s\<lparr>ld_pool := p, mOneCryptoDepends := Some (h, d)\<rparr>)
        \<and> pool_inv p \<and> h \<notin> pool_live (ld_pool s) \<and> pool_live p = insert h (pool_live (ld_pool s)))"
proof -
  obtain r p where al: "AllocatePool (ld_pool s) sizeof_depends = (r, p)" by fastforce
  show ?thesis
    using al assms AllocatePool_None [of "ld_pool s" sizeof_depends p]
      AllocatePool_Some [of "ld_pool s" sizeof_depends _ p]
    by (cases r) (auto simp: allocate_depends_def)
qed

lemma setup_depends_fresh: "mOneCryptoDepends s = None \<Longrightarrow> setup_depends d s = allocate_depends d s"
  by (simp add: setup_depends_def)

lemma release_depends_error:
  assumes "mOneCryptoDepends s = Some (h, d)" and "h \<in> pool_live (ld_pool s)"
    and "pool_inv (ld_pool s)" and "EFI_ERROR st"
  shows "\<exists>p. release_depends st s = Inr (st, s\<lparr>ld_pool := p\<rparr>) \<and> pool_inv p
    \<and> pool_live p = pool_live (ld_pool s) - {h}"
  using FreePool_live [OF assms(2,3)] assms(1,4)
  by (auto simp: release_depends_def dest: EFI_ERROR_neq_success)

lemma release_depends_success: "release_depends EFI_SUCCESS s = Inr (EFI_SUCCESS, s)"
  by (simp add: release_depends_def split: option.split)

text \<open>
  After the table was allocated in \<open>s1\<close> and the constructor ran, the release gives one of the
  outcomes of the loader, seen from the state \<open>s\<close> before the table was allocated.
\<close>

lemma release_after_construct:
  assumes "constructed s1 st s2" and "mOneCryptoDepends s1 = Some (h, d)"
    and "h \<notin> pool_live (ld_pool s)" and "pool_live (ld_pool s1) = insert h (pool_live (ld_pool s))"
    and "ld_installed s1 = ld_installed s"
  shows "\<exists>s'. release_depends st s2 = Inr (st, s')
    \<and> (st = EFI_SUCCESS \<and> loaded d s s' \<or> EFI_ERROR st \<and> (refused s s' \<or> protocol_leaked s s'))"
proof (cases "EFI_ERROR st")
  case True
  with assms have n: "not_installed s1 s2 \<or> install_failed s1 s2" "loader_frame s1 s2"
    by (auto simp: constructed_def)
  with assms have "mOneCryptoDepends s2 = Some (h, d)" "h \<in> pool_live (ld_pool s2)"
    "pool_inv (ld_pool s2)"
    by (auto simp: loader_frame_def not_installed_def install_failed_def)
  from release_depends_error [OF this True] obtain p where
    "release_depends st s2 = Inr (st, s2\<lparr>ld_pool := p\<rparr>)" "pool_live p = pool_live (ld_pool s2) - {h}"
    by blast
  with n True assms(3-5) show ?thesis
    by (auto simp: refused_def protocol_leaked_def not_installed_def install_failed_def)
next
  case False
  with assms have "st = EFI_SUCCESS" "installed_new s1 s2" "loader_frame s1 s2"
    by (auto simp: constructed_def)
  with assms(2-5) show ?thesis
    by (auto simp: release_depends_success loaded_def installed_new_def loader_frame_def)
qed

section \<open>The loaders that consume the constructor protocol\<close>

lemma constructor_entry_error: "constructor_entry L = Inl st \<Longrightarrow> EFI_ERROR st"
  by (auto simp: constructor_entry_def split: prod.splits if_splits option.splits)

lemma constructor_entry_Inr:
  "constructor_entry (st, c) = Inr e \<Longrightarrow> \<not> EFI_ERROR st \<and> cp_Entry c = Some e
    \<and> cp_Signature c = ONE_CRYPTO_CONSTRUCTOR_PROTOCOL_SIGNATURE"
  by (auto simp: constructor_entry_def split: if_splits option.splits)

definition protocol_loader_outcome :: "'d \<Rightarrow> ('c, 'd) loader \<Rightarrow> ('c, 'd) outcome \<Rightarrow> bool" where
  "protocol_loader_outcome d s r \<longleftrightarrow> (\<exists>st s'. r = Inr (st, s')
    \<and> (st = EFI_SUCCESS \<and> loaded d s s' \<or> EFI_ERROR st \<and> (refused s s' \<or> protocol_leaked s s')))"

lemma ByProtocol_eq_Mm:
  "mOneCryptoDepends s = None \<Longrightarrow> ByProtocol_DxeEntryPoint L I d s = LoaderMm_MmEntry L I d s"
  by (cases "constructor_entry L")
    (simp_all add: ByProtocol_DxeEntryPoint_def LoaderMm_MmEntry_def setup_depends_fresh)

context crypto_constructor
begin

lemma LoaderMm_outcome:
  assumes "pool_inv (ld_pool s)" and none: "mOneCryptoDepends s = None"
    and "\<And>e. constructor_entry L = Inr e \<Longrightarrow> e = Entry"
  shows "protocol_loader_outcome d s (LoaderMm_MmEntry L I d s)"
proof (cases "constructor_entry L")
  case (Inl st)
  with constructor_entry_error [OF Inl] none show ?thesis
    by (simp add: LoaderMm_MmEntry_def release_depends_def protocol_loader_outcome_def refused_def)
next
  case (Inr e)
  then have e: "constructor_entry L = Inr Entry" using assms(3) by simp
  from allocate_depends_cases [OF assms(1), of d] show ?thesis
  proof (elim disjE exE conjE)
    fix p
    assume "allocate_depends d s = (False, s\<lparr>ld_pool := p, mOneCryptoDepends := None\<rparr>)"
      "pool_live p = pool_live (ld_pool s)"
    with e none show ?thesis
      by (simp add: LoaderMm_MmEntry_def setup_depends_fresh release_depends_def
          protocol_loader_outcome_def refused_def)
  next
    fix p h
    let ?s1 = "s\<lparr>ld_pool := p, mOneCryptoDepends := Some (h, d)\<rparr>"
    assume al: "allocate_depends d s = (True, ?s1)" and "pool_inv p"
      and h: "h \<notin> pool_live (ld_pool s)" "pool_live p = insert h (pool_live (ld_pool s))"
    from construct_protocol_cases [of ?s1 h d I] \<open>pool_inv p\<close> obtain st s2 where
      c: "construct_protocol I Entry ?s1 = Inr (st, s2)" "constructed ?s1 st s2" by auto
    from release_after_construct [OF c(2), of h d s] h c e al none show ?thesis
      by (auto simp: LoaderMm_MmEntry_def setup_depends_fresh protocol_loader_outcome_def)
  qed
qed

end

section \<open>The loaders that load an image\<close>

lemma find_loop_Inr:
  "find_loop c m names ords fs nm n i = Inr (st, r)
    \<Longrightarrow> EFI_ERROR st \<and> r = None \<or> st = EFI_SUCCESS \<and> r \<noteq> None"
proof (induction c m names ords fs nm n i rule: find_loop.induct)
  case (1 c m names ords fs nm n i)
  show ?case
  proof (cases "i < n")
    case False
    with "1.prems" show ?thesis by (simp add: find_loop.simps)
  next
    case True
    with "1.prems" obtain a k where a: "read32 m (names + 4 * i) = Inr a" "c m (unat a) nm = Inr k"
      and rest: "(if k = 0 then
           bind_res (read16 m (ords + 2 * i)) (\<lambda>ord.
           bind_res (read32 m (fs + 4 * unat ord)) (\<lambda>f. Inr (EFI_SUCCESS, Some f)))
         else find_loop c m names ords fs nm n (Suc i)) = Inr (st, r)"
      by (subst (asm) find_loop.simps) (auto elim!: bind_res_InrE)
    show ?thesis
    proof (cases "k = 0")
      case True
      with rest show ?thesis by (auto elim!: bind_res_InrE)
    next
      case False
      with rest "1.IH" [OF \<open>i < n\<close> False] show ?thesis by simp
    qed
  qed
qed

lemma FindExportedFunction_Inr:
  "FindExportedFunction c img ex nm = Inr (st, r)
    \<Longrightarrow> EFI_ERROR st \<and> r = None \<or> st = EFI_SUCCESS \<and> r \<noteq> None"
  by (auto simp: FindExportedFunction_def Let_def elim!: bind_res_InrE dest!: find_loop_Inr
      split: option.splits)

lemma GetEntry_Inr:
  "GetEntryFromLoadedImage print E li = Inr (st, r) \<Longrightarrow> \<not> EFI_ERROR st \<Longrightarrow> r \<noteq> None"
  by (auto simp: GetEntryFromLoadedImage_def Let_def elim!: bind_res_InrE
      dest!: FindExportedFunction_Inr split: option.splits prod.splits if_splits)

text \<open>
  The firmware of a DXE loader: \<^verbatim>\<open>HandleProtocol\<close> never reports success without an interface, and
  the code at the address of the function that a loaded image exports is the constructor. The bytes
  of the images are arbitrary.
\<close>

definition dxe_ok :: "bool \<Rightarrow> ('c, 'd) dxe_env \<Rightarrow> ('c, 'd) entry_fn \<Rightarrow> bool" where
  "dxe_ok print E Entry \<longleftrightarrow>
    (\<forall>i w st w'. HandleProtocol E i w = (st, None, w') \<longrightarrow> EFI_ERROR st)
    \<and> (\<forall>i w st li w' st' a. HandleProtocol E i w = (st, Some li, w')
          \<and> GetEntryFromLoadedImage print (PeEnv E) (Some li) = Inr (st', Some a) \<longrightarrow> CodeAt E a = Entry)"

text \<open>
  The search for the export does not check the tables of the image, so it can fault on an image
  that the firmware has loaded and whose interface it has handed out.
\<close>

definition lookup_fault :: "bool \<Rightarrow> ('c, 'd) dxe_env \<Rightarrow> fault \<Rightarrow> bool" where
  "lookup_fault print E f \<longleftrightarrow> (\<exists>sec w st i w1 st1 li w2.
     LoadImage E sec w = (st, i, w1) \<and> \<not> EFI_ERROR st
     \<and> HandleProtocol E i w1 = (st1, Some li, w2) \<and> \<not> EFI_ERROR st1
     \<and> GetEntryFromLoadedImage print (PeEnv E) (Some li) = Inl f)"

lemma find_loop_fault:
  "find_loop c m names ords fs nm n i = Inl f \<Longrightarrow> f = OobRead \<or> (\<exists>a. c m a nm = Inl f)"
proof (induction c m names ords fs nm n i rule: find_loop.induct)
  case (1 c m names ords fs nm n i)
  show ?case
  proof (cases "i < n")
    case False
    with "1.prems" show ?thesis by (simp add: find_loop.simps)
  next
    case True
    with "1.prems" "1.IH" show ?thesis
      by (subst (asm) find_loop.simps)
        (auto simp: bind_res_def split: sum.splits if_splits dest: read32_fault read16_fault)
  qed
qed

lemma FindExportedFunction_fault:
  "FindExportedFunction c img ex nm = Inl f \<Longrightarrow> f = OobRead \<or> (\<exists>m a n. c m a n = Inl f)"
  by (auto simp: FindExportedFunction_def Let_def bind_res_def AddressOfNames_def
      AddressOfNameOrdinals_def AddressOfFunctions_def NumberOfNames_def
      split: option.splits sum.splits dest: read32_fault find_loop_fault)

lemma read_directory_fault: "read_directory m h pe32 = Inl f \<Longrightarrow> f = OobRead"
  using read_directory_outcome [of m h pe32] by simp

lemma GetExportDirectory_fault: "GetExportDirectoryInPeCoffImage img = Inl f \<Longrightarrow> f = OobRead"
  by (auto simp: GetExportDirectoryInPeCoffImage_def Let_def bind_res_def
      split: option.splits sum.splits if_splits
      dest: read32_fault read16_fault read_directory_fault)

lemma GetEntry_fault:
  "GetEntryFromLoadedImage False E li = Inl f \<Longrightarrow> f = OobRead \<or> (\<exists>m a n. AsciiStrCmp E m a n = Inl f)"
  unfolding GetEntryFromLoadedImage_def Let_def
  by (auto elim!: bind_res_InlE split: option.split_asm prod.split_asm if_split_asm
      dest!: GetExportDirectory_fault FindExportedFunction_fault)

lemma lookup_fault_kind:
  "lookup_fault False E f \<Longrightarrow> f = OobRead \<or> (\<exists>m a n. AsciiStrCmp (PeEnv E) m a n = Inl f)"
  unfolding lookup_fault_def by (blast dest: GetEntry_fault)

definition with_image :: "nat option \<Rightarrow> ('c, 'd) loader \<Rightarrow> ('c, 'd) loader" where
  "with_image i s = s\<lparr>ld_images := set_option i \<union> ld_images s\<rparr>"

lemma with_image_simps [simp]:
  "ld_pool (with_image i s) = ld_pool s" "mOneCryptoDepends (with_image i s) = mOneCryptoDepends s"
  "ld_installed (with_image i s) = ld_installed s"
  "mOneCryptoProtocol (with_image i s) = mOneCryptoProtocol s"
  "ld_images (with_image i s) = set_option i \<union> ld_images s"
  by (simp_all add: with_image_def)

lemma constructed_nothing:
  assumes "pool_inv (ld_pool s)" and "EFI_ERROR st"
    and "ld_pool t = ld_pool s" and "ld_images t = set_option i \<union> ld_images s"
    and "mOneCryptoDepends t = mOneCryptoDepends s" and "ld_installed t = ld_installed s"
    and "mOneCryptoProtocol t = mOneCryptoProtocol s"
  shows "constructed (with_image i s) st t"
  using assms by (simp add: constructed_def loader_frame_def not_installed_def)

text \<open>\<^verbatim>\<open>OneCryptoLoaderDxe\<close>.\<close>

definition dxe_loader_outcome :: "'d \<Rightarrow> ('c, 'd) loader \<Rightarrow> ('c, 'd) outcome \<Rightarrow> bool" where
  "dxe_loader_outcome d s r \<longleftrightarrow> (\<exists>st s'. r = Inr (st, s')
    \<and> (st = EFI_SUCCESS \<and> loaded d s s'
       \<or> EFI_ERROR st \<and> (refused s s' \<or> protocol_leaked s s')
       \<or> st = EFI_NOT_READY \<and> table_kept d s s'))"

text \<open>Freeing the section buffer \<open>b\<close>, which was taken before the image was loaded.\<close>

lemma constructed_free:
  assumes "constructed s1 st s2" and "b \<in> pool_live (ld_pool s1)"
  shows "\<exists>p. FreePool (ld_pool s2) (Some b) = Inr p
    \<and> constructed (s1\<lparr>ld_pool := (ld_pool s1)\<lparr>pool_live := pool_live (ld_pool s1) - {b}\<rparr>\<rparr>) st
        (s2\<lparr>ld_pool := p\<rparr>)"
proof -
  from assms have "b \<in> pool_live (ld_pool s2)" "pool_inv (ld_pool s2)"
    by (auto simp: constructed_def loader_frame_def installed_new_def not_installed_def
        install_failed_def)
  from FreePool_live [OF this] obtain p where
    "FreePool (ld_pool s2) (Some b) = Inr p" "pool_inv p" "pool_live p = pool_live (ld_pool s2) - {b}"
    by blast
  with assms show ?thesis
    by (auto simp: constructed_def loader_frame_def installed_new_def not_installed_def
        install_failed_def)
qed

lemma GetSection_cases:
  assumes "pool_inv p"
  shows "(\<exists>st p'. GetSectionFromAnyFv sec p = (st, None, p') \<and> EFI_ERROR st \<and> pool_inv p'
        \<and> pool_live p' = pool_live p)
    \<or> (\<exists>st b p'. GetSectionFromAnyFv sec p = (st, Some b, p') \<and> \<not> EFI_ERROR st \<and> pool_inv p'
        \<and> b \<notin> pool_live p \<and> pool_live p' = insert b (pool_live p))"
proof -
  obtain st bs where sec: "sec = (st, bs)" by fastforce
  obtain r p' where "AllocatePool p (length bs) = (r, p')" by fastforce
  with sec assms AllocatePool_None [of p "length bs" p'] AllocatePool_Some [of p "length bs" _ p']
  show ?thesis by (cases r; cases "EFI_ERROR st") (simp_all add: GetSectionFromAnyFv_def)
qed

context crypto_constructor
begin

lemma load_and_construct_cases:
  assumes ok: "dxe_ok print E Entry" and inv: "pool_inv (ld_pool s)"
    and dep: "mOneCryptoDepends s = Some (h, d)"
  shows "(\<exists>st i s'. load_and_construct print E sec s = Inr (st, i, s') \<and> constructed (with_image i s) st s')
    \<or> (\<exists>f. load_and_construct print E sec s = Inl f \<and> lookup_fault print E f)"
proof -
  obtain st i w where li: "LoadImage E sec (ld_world s) = (st, i, w)" using prod_cases3 by blast
  obtain st2 im w2 where hp: "HandleProtocol E i w = (st2, im, w2)" using prod_cases3 by blast
  show ?thesis
  proof (cases "EFI_ERROR st \<or> EFI_ERROR st2 \<or> im = None")
    case True
    with ok hp have "EFI_ERROR st \<or> EFI_ERROR st2" unfolding dxe_ok_def by blast
    with li hp inv show ?thesis
      by (cases "EFI_ERROR st") (auto simp: load_and_construct_def intro!: constructed_nothing)
  next
    case False
    then obtain x where x: "im = Some x" by auto
    consider (fault) f where "GetEntryFromLoadedImage print (PeEnv E) (Some x) = Inl f"
      | (found) st3 a where "GetEntryFromLoadedImage print (PeEnv E) (Some x) = Inr (st3, a)"
      by (cases "GetEntryFromLoadedImage print (PeEnv E) (Some x)") auto
    then show ?thesis
    proof cases
      case fault
      with li hp x False have "lookup_fault print E f" unfolding lookup_fault_def by blast
      with li hp x False fault show ?thesis by (simp add: load_and_construct_def)
    next
      case ge: found
      show ?thesis
      proof (cases "EFI_ERROR st3")
        case True
        with li hp ge x False inv show ?thesis
          by (auto simp: load_and_construct_def intro!: constructed_nothing)
      next
        case no_err: False
        with GetEntry_Inr [OF ge] obtain p where p: "a = Some p" by auto
        let ?s = "s\<lparr>ld_images := set_option i \<union> ld_images s, ld_world := w2\<rparr>"
        from ok hp x ge p have code: "CodeAt E p = Entry" unfolding dxe_ok_def by blast
        from construct_protocol_cases [of ?s h d "InstallMultipleProtocolInterfaces E"] inv dep
        obtain st4 s4 where c: "construct_protocol (InstallMultipleProtocolInterfaces E) Entry ?s
            = Inr (st4, s4)" "constructed ?s st4 s4" by auto
        from c(2) have "constructed (with_image i s) st4 s4"
          by (simp add: constructed_def loader_frame_def installed_new_def not_installed_def
              install_failed_def)
        with li hp ge x False no_err p code c(1) show ?thesis by (auto simp: load_and_construct_def)
      qed
    qed
  qed
qed

lemma LoaderDxe_outcome:
  assumes ok: "dxe_ok print E Entry" and inv: "pool_inv (ld_pool s)"
    and none: "mOneCryptoDepends s = None"
  shows "dxe_loader_outcome d s (LoaderDxe_DxeEntryPoint print E d s)
    \<or> (\<exists>f. LoaderDxe_DxeEntryPoint print E d s = Inl f \<and> lookup_fault print E f)"
  using allocate_depends_cases [OF inv, of d]
proof (elim disjE exE conjE)
  fix p
  assume "allocate_depends d s = (False, s\<lparr>ld_pool := p, mOneCryptoDepends := None\<rparr>)"
    "pool_live p = pool_live (ld_pool s)"
  with none show ?thesis
    by (simp add: LoaderDxe_DxeEntryPoint_def setup_depends_fresh dxe_loader_outcome_def refused_def)
next
  fix p h
  let ?s1 = "s\<lparr>ld_pool := p, mOneCryptoDepends := Some (h, d)\<rparr>"
  assume al: "allocate_depends d s = (True, ?s1)" and p: "pool_inv p"
    and h: "h \<notin> pool_live (ld_pool s)" "pool_live p = insert h (pool_live (ld_pool s))"
  from GetSection_cases [OF p, of "Section E"] show ?thesis
  proof (elim disjE exE conjE)
    fix st p'
    assume "GetSectionFromAnyFv (Section E) p = (st, None, p')" "EFI_ERROR st" "pool_live p' = pool_live p"
    with al h none show ?thesis
      by (auto simp: LoaderDxe_DxeEntryPoint_def setup_depends_fresh dxe_loader_outcome_def
          table_kept_def)
  next
    fix st b p'
    assume gs: "GetSectionFromAnyFv (Section E) p = (st, Some b, p')" "\<not> EFI_ERROR st" "pool_inv p'"
      and b: "b \<notin> pool_live p" "pool_live p' = insert b (pool_live p)"
    let ?s2 = "?s1\<lparr>ld_pool := p'\<rparr>"
    from load_and_construct_cases [OF ok, of ?s2 h d "snd (Section E)"] gs(3) consider
        (fault) f where "load_and_construct print E (snd (Section E)) ?s2 = Inl f" "lookup_fault print E f"
      | (constr) st2 i s3 where "load_and_construct print E (snd (Section E)) ?s2 = Inr (st2, i, s3)"
          "constructed (with_image i ?s2) st2 s3"
      by auto
    then show ?thesis
    proof cases
      case fault
      with al gs none show ?thesis by (simp add: LoaderDxe_DxeEntryPoint_def setup_depends_fresh)
    next
      case lc: constr
      from constructed_free [OF lc(2), of b] b obtain p3 where
        f: "FreePool (ld_pool s3) (Some b) = Inr p3"
          "constructed ((with_image i ?s2)\<lparr>ld_pool := p'\<lparr>pool_live := pool_live p' - {b}\<rparr>\<rparr>) st2
            (s3\<lparr>ld_pool := p3\<rparr>)" by auto
      from release_after_construct [OF f(2), of h d s] h b obtain s4 where
        "release_depends st2 (s3\<lparr>ld_pool := p3\<rparr>) = Inr (st2, s4)"
        "st2 = EFI_SUCCESS \<and> loaded d s s4 \<or> EFI_ERROR st2 \<and> (refused s s4 \<or> protocol_leaked s s4)"
        by auto
      with al gs lc f none show ?thesis
        by (auto simp: LoaderDxe_DxeEntryPoint_def setup_depends_fresh dxe_loader_outcome_def)
    qed
  qed
qed

end

end
