(* ===== verification/FromMmOutcome.thy ===== *)
theory FromMmOutcome
  imports LoaderOutcome
begin

text \<open>
  The outcome of \<^verbatim>\<open>OneCryptoLoaderDxeFromMm\<close>: unlike the other loaders it leaves nothing behind
  when anything after \<^verbatim>\<open>LoadImage\<close> fails.
\<close>

definition frommm_outcome :: "'d \<Rightarrow> ('c, 'd) loader \<Rightarrow> ('c, 'd) outcome option \<Rightarrow> bool" where
  "frommm_outcome d s r \<longleftrightarrow> (\<exists>st s'. r = Some (Inr (st, s'))
    \<and> (st = EFI_SUCCESS \<and> loaded d s s'
       \<or> EFI_ERROR st \<and> ld_images s' \<subseteq> ld_images s \<and> mOneCryptoProtocol s' = None
         \<and> (refused s s' \<and> mOneCryptoDepends s' = None \<or> table_kept d s s')))"

text \<open>The only other way out is a fault of the search for the export in an image that was loaded.\<close>

definition frommm_result ::
    "('c, 'd) dxe_env \<Rightarrow> 'd \<Rightarrow> ('c, 'd) loader \<Rightarrow> ('c, 'd) outcome option \<Rightarrow> bool" where
  "frommm_result E d s r \<longleftrightarrow> frommm_outcome d s r \<or> (\<exists>f. r = Some (Inl f) \<and> lookup_fault False E f)"

lemmas result_defs = frommm_result_def frommm_outcome_def

section \<open>The exit block\<close>

lemma free_protocol_on_error:
  assumes "constructed s1 st s2" and "EFI_ERROR st" and "mOneCryptoProtocol s1 = None"
  shows "\<exists>p. (if mOneCryptoProtocol s2 \<noteq> None then FreePool (ld_pool s2) (mOneCryptoProtocol s2)
              else Inr (ld_pool s2)) = Inr p \<and> pool_inv p \<and> pool_live p = pool_live (ld_pool s1)"
proof -
  from assms have inv: "pool_inv (ld_pool s2)" and o: "not_installed s1 s2 \<or> install_failed s1 s2"
    by (auto simp: constructed_def loader_frame_def)
  from o show ?thesis
  proof
    assume "not_installed s1 s2"
    with inv assms(3) show ?thesis by (auto simp: not_installed_def)
  next
    assume "install_failed s1 s2"
    then obtain b where b: "b \<notin> pool_live (ld_pool s1)"
      "pool_live (ld_pool s2) = insert b (pool_live (ld_pool s1))" "mOneCryptoProtocol s2 = Some b"
      by (auto simp: install_failed_def)
    then have "b \<in> pool_live (ld_pool s2)" by simp
    from FreePool_live [OF this inv] b show ?thesis by auto
  qed
qed

lemma frommm_exit_error:
  assumes c: "constructed s1 st s2" and st: "EFI_ERROR st" and "mOneCryptoProtocol s1 = None"
    and dep: "mOneCryptoDepends s1 = Some (h, d)" and i: "ld_images s1 = set_option i \<union> ld_images s"
    and live: "pool_live (ld_pool s1) = insert b (insert h (pool_live (ld_pool s)))"
    and fresh: "h \<notin> pool_live (ld_pool s)" "b \<notin> insert h (pool_live (ld_pool s))"
    and "ld_installed s1 = ld_installed s"
  shows "\<exists>s'. frommm_exit E st i (Some b) s2 = Inr (st, s') \<and> refused s s'
    \<and> mOneCryptoDepends s' = None \<and> mOneCryptoProtocol s' = None \<and> ld_images s' \<subseteq> ld_images s"
proof -
  from c st have frame: "ld_images s2 = ld_images s1" "mOneCryptoDepends s2 = Some (h, d)"
    "ld_installed s2 = ld_installed s" using dep assms(9)
    by (auto simp: constructed_def loader_frame_def not_installed_def install_failed_def)
  from free_protocol_on_error [OF c st assms(3)] obtain p where
    p: "(if mOneCryptoProtocol s2 \<noteq> None then FreePool (ld_pool s2) (mOneCryptoProtocol s2)
         else Inr (ld_pool s2)) = Inr p" "pool_inv p" "pool_live p = pool_live (ld_pool s1)" by blast
  from FreePool_live [of b p] p live obtain p2 where
    p2: "FreePool p (Some b) = Inr p2" "pool_inv p2" "pool_live p2 = pool_live p - {b}" by auto
  from p p2 live fresh have "h \<in> pool_live p2" by auto
  from FreePool_live [OF this p2(2)] obtain p3 where
    p3: "FreePool p2 (Some h) = Inr p3" "pool_live p3 = pool_live p2 - {h}" by blast
  have "pool_live p3 = pool_live (ld_pool s)" using p p2 p3 live fresh by auto
  with frame st p p2 p3 i show ?thesis
    by (cases i) (auto simp: frommm_exit_def release_depends_def refused_def Let_def
        dest: EFI_ERROR_neq_success)
qed

lemma frommm_exit_success:
  assumes c: "constructed s1 EFI_SUCCESS s2" and dep: "mOneCryptoDepends s1 = Some (h, d)"
    and live: "pool_live (ld_pool s1) = insert b (insert h (pool_live (ld_pool s)))"
    and fresh: "h \<notin> pool_live (ld_pool s)" "b \<notin> insert h (pool_live (ld_pool s))"
  shows "\<exists>s'. frommm_exit E EFI_SUCCESS i (Some b) s2 = Inr (EFI_SUCCESS, s') \<and> loaded d s s'"
proof -
  from c have new: "installed_new s1 s2" and inv: "pool_inv (ld_pool s2)"
    and d2: "mOneCryptoDepends s2 = Some (h, d)"
    using dep by (auto simp: constructed_def loader_frame_def)
  with live have "b \<in> pool_live (ld_pool s2)" by (auto simp: installed_new_def)
  from FreePool_live [OF this inv] obtain p where
    "FreePool (ld_pool s2) (Some b) = Inr p" "pool_live p = pool_live (ld_pool s2) - {b}" by blast
  with new d2 live fresh show ?thesis
    by (auto simp: frommm_exit_def release_depends_def loaded_def installed_new_def)
qed

section \<open>The entry point\<close>

text \<open>After the section was fetched, and extracted when it is a compressed volume.\<close>

definition frommm_load ::
    "('c, 'd) dxe_env \<Rightarrow> (efi_status \<times> (nat \<times> byte list) option \<times> ('c, 'd) loader) \<Rightarrow> ('c, 'd) outcome" where
  "frommm_load E r =
    (case r of (Status, SectionData, s) \<Rightarrow>
      if EFI_ERROR Status then Inr (Status, s)
      else bind_res (load_and_construct False E (case SectionData of None \<Rightarrow> []
                                                   | Some (b, bytes) \<Rightarrow> bytes) s)
        (\<lambda>(Status, LoadedImageHandle, s).
           frommm_exit E Status LoadedImageHandle (map_option fst SectionData) s))"

lemma FromMm_unfold:
  "FromMm_DxeEntryPoint Fetch G E d s =
    (case setup_depends d s of
       (False, s) \<Rightarrow> Some (Inr (EFI_OUT_OF_RESOURCES, s))
     | (True, s) \<Rightarrow>
         (case Fetch (ld_world s) (ld_pool s) of
            Inl f \<Rightarrow> Some (Inl f)
          | Inr (Status, SectionData, SectionSize, ImageFormat, w, p) \<Rightarrow>
              let s = s\<lparr>ld_world := w, ld_pool := p\<rparr> in
              if EFI_ERROR Status then Some (Inr (Status, s))
              else map_option (\<lambda>r. bind_res r (frommm_load E))
                (if ImageFormat = ONE_CRYPTO_IMAGE_FORMAT_GUIDED_FV then
                   map_option (\<lambda>r. bind_res r (\<lambda>(Status, Pe32Data, p).
                     bind_res (FreePool p (map_option fst SectionData)) (\<lambda>p.
                       Inr (Status, Pe32Data, s\<lparr>ld_pool := p\<rparr>))))
                     (ExtractOneCryptoPe32FromGuidedFv G SectionData p)
                 else Some (Inr (Status, SectionData, s)))))"
  unfolding FromMm_DxeEntryPoint_def frommm_load_def [abs_def] by (rule refl)

context crypto_constructor
begin

lemma frommm_load_outcome:
  assumes ok: "dxe_ok False E Entry" and "pool_inv (ld_pool s1)"
    and "mOneCryptoDepends s1 = Some (h, d)" and "mOneCryptoProtocol s1 = None"
    and "ld_images s1 = ld_images s" and "ld_installed s1 = ld_installed s"
    and "pool_live (ld_pool s1) = insert b (insert h (pool_live (ld_pool s)))"
    and "h \<notin> pool_live (ld_pool s)" "b \<notin> insert h (pool_live (ld_pool s))"
  shows "frommm_result E d s (Some (frommm_load E (EFI_SUCCESS, Some (b, bytes), s1)))"
  using load_and_construct_cases [OF ok assms(2,3), of bytes]
proof (elim disjE exE conjE)
  fix f
  assume "load_and_construct False E bytes s1 = Inl f" "lookup_fault False E f"
  then show ?thesis by (simp add: frommm_load_def frommm_result_def)
next
  fix st i s2
  assume lc: "load_and_construct False E bytes s1 = Inr (st, i, s2)"
    and c: "constructed (with_image i s1) st s2"
  consider "EFI_ERROR st" | "st = EFI_SUCCESS" using c by (auto simp: constructed_def)
  then show ?thesis
  proof cases
    case 1
    from frommm_exit_error [OF c 1, of h d i s b E] assms lc 1 show ?thesis
      by (auto simp: frommm_load_def result_defs)
  next
    case 2
    from frommm_exit_success [OF c [unfolded 2], of h d b s E i] assms lc 2 show ?thesis
      by (auto simp: frommm_load_def result_defs)
  qed
qed

lemma fetched_outcome:
  assumes ok: "dxe_ok False E Entry" and G: "guided_ok G files" and inv: "pool_inv (ld_pool s1)"
    and "mOneCryptoDepends s1 = Some (h, d)" and "mOneCryptoProtocol s1 = None"
    and "ld_images s1 = ld_images s" and "ld_installed s1 = ld_installed s"
    and live: "pool_live (ld_pool s1) = insert i (insert h (pool_live (ld_pool s)))"
    and fresh: "h \<notin> pool_live (ld_pool s)" "i \<notin> insert h (pool_live (ld_pool s))"
  shows "frommm_result E d s
    (map_option (\<lambda>r. bind_res r (frommm_load E))
      (map_option (\<lambda>r. bind_res r (\<lambda>(Status, Pe32Data, p).
         bind_res (FreePool p (Some i)) (\<lambda>p. Inr (Status, Pe32Data, s1\<lparr>ld_pool := p\<rparr>))))
         (ExtractOneCryptoPe32FromGuidedFv G (Some (i, sec)) (ld_pool s1))))"
proof -
  from Extract_good [OF G inv, of sec i] obtain st x p where
    e: "ExtractOneCryptoPe32FromGuidedFv G (Some (i, sec)) (ld_pool s1) = Some (Inr (st, x, p))"
      "pool_inv p" and
    x: "case x of None \<Rightarrow> EFI_ERROR st \<and> pool_live p = pool_live (ld_pool s1)
      | Some (c, bytes) \<Rightarrow> st = EFI_SUCCESS \<and> c \<notin> pool_live (ld_pool s1)
          \<and> pool_live p = insert c (pool_live (ld_pool s1))"
    by (auto simp: extract_good_def split: option.splits)
  from x live have "i \<in> pool_live p" by (auto split: option.splits)
  from FreePool_live [OF this e(2)] obtain p2 where
    f: "FreePool p (Some i) = Inr p2" "pool_inv p2" "pool_live p2 = pool_live p - {i}" by blast
  show ?thesis
  proof (cases x)
    case None
    with x live fresh f have "pool_live p2 = insert h (pool_live (ld_pool s))" by auto
    with None x e f assms(4-7) fresh show ?thesis
      by (auto simp: frommm_load_def result_defs table_kept_def)
  next
    case (Some y)
    then obtain c bytes where y: "x = Some (c, bytes)" by (cases y) auto
    with x live fresh f have c: "pool_live p2 = insert c (insert h (pool_live (ld_pool s)))"
      "c \<notin> insert h (pool_live (ld_pool s))" by auto
    from frommm_load_outcome [OF ok, of "s1\<lparr>ld_pool := p2\<rparr>" h d s c bytes] assms(4-7) f c fresh
    have "frommm_result E d s (Some (frommm_load E (EFI_SUCCESS, Some (c, bytes), s1\<lparr>ld_pool := p2\<rparr>)))"
      by simp
    with y x e f show ?thesis by simp
  qed
qed

lemma FromMm_outcome:
  assumes ok: "dxe_ok False E Entry" and G: "guided_ok G files" and C: "comm_inplace C"
    and inv: "pool_inv (ld_pool s)" and none: "mOneCryptoDepends s = None" "mOneCryptoProtocol s = None"
  shows "frommm_result E d s (FromMm_DxeEntryPoint (FetchImageFromMm ls C crc junk) G E d s)"
  using allocate_depends_cases [OF inv, of d]
proof (elim disjE exE conjE)
  fix p
  assume "allocate_depends d s = (False, s\<lparr>ld_pool := p, mOneCryptoDepends := None\<rparr>)"
    "pool_live p = pool_live (ld_pool s)"
  with none show ?thesis
    by (simp add: FromMm_unfold setup_depends_fresh result_defs refused_def)
next
  fix p h
  let ?s1 = "s\<lparr>ld_pool := p, mOneCryptoDepends := Some (h, d)\<rparr>"
  assume al: "allocate_depends d s = (True, ?s1)" and p: "pool_inv p"
    and h: "h \<notin> pool_live (ld_pool s)" "pool_live p = insert h (pool_live (ld_pool s))"
  from FetchImageFromMm_cases [OF C p, of ls crc junk "ld_world s"] consider
      "fetch_failed p (FetchImageFromMm ls C crc junk (ld_world s) p)"
    | q where "fetch_succeeded crc p q (FetchImageFromMm ls C crc junk (ld_world s) p)"
    by blast
  then show ?thesis
  proof cases
    case 1
    with al h none show ?thesis
      by (auto simp: fetch_failed_def FromMm_unfold setup_depends_fresh result_defs
          table_kept_def)
  next
    case 2
    then obtain i bytes fmt w' p' where
      f: "FetchImageFromMm ls C crc junk (ld_world s) p
        = Inr (EFI_SUCCESS, Some (i, bytes), length bytes, fmt, w', p')"
      and p': "pool_inv p'" "i \<notin> pool_live p" "pool_live p' = insert i (pool_live p)"
      unfolding fetch_succeeded_def by blast
    let ?s2 = "s\<lparr>mOneCryptoDepends := Some (h, d), ld_world := w', ld_pool := p'\<rparr>"
    from fetched_outcome [OF ok G, of ?s2 h d s i bytes]
      frommm_load_outcome [OF ok, of ?s2 h d s i bytes] p' h none al f
    show ?thesis by (simp add: FromMm_unfold setup_depends_fresh Let_def)
  qed
qed

end

end
