(* ===== verification/FetchOver.thy ===== *)
theory FetchOver
  imports MmTransfer
begin

text \<open>
  The transfer when the other side is a part of a larger state: the loader's world also has the
  CRT table and the buffers of the crypto binary, which the transport leaves alone. The transfer
  gives the same result as over the other side only.
\<close>

definition over_world :: "'w transport \<Rightarrow> ('a \<times> 'b \<times> 'w) transport" where
  "over_world C s b n =
    (case s of (m, bufs, w) \<Rightarrow> (case C w b n of (st, n, b, w) \<Rightarrow> (st, n, b, (m, bufs, w))))"

lemma over_world_eq:
  "C w b n = (st, n', b', w') \<Longrightarrow> over_world C (m, bufs, w) b n = (st, n', b', (m, bufs, w'))"
  by (simp add: over_world_def)

lemma over_world_inplace: "comm_inplace C \<Longrightarrow> comm_inplace (over_world C)"
  unfolding comm_inplace_def over_world_def by (fastforce split: prod.splits)

abbreviation sent_over :: "'a \<Rightarrow> 'b \<Rightarrow> 's \<times> 'w \<times> 'r \<Rightarrow> 's \<times> ('a \<times> 'b \<times> 'w) \<times> 'r" where
  "sent_over m bufs \<equiv> map_prod id (map_prod (\<lambda>w. (m, bufs, w)) id)"

lemma send_over:
  "send_loop (over_world C) off (m, bufs, w) p buf asz r
    = map_sum id (sent_over m bufs) (send_loop C off w p buf asz r)"
proof (induction "unat r" arbitrary: r w p buf asz rule: less_induct)
  case less
  define cs where "cs = CommHeaderOverhead + (MsgHeaderSize + unat r)"
  note step = send_loop.simps [of _ off _ p buf asz r, unfolded Let_def, folded cs_def]
  consider (fault) f where "grow_buffer p buf asz cs = Inl f"
    | (fail) q where "grow_buffer p buf asz cs = Inr (Inl q)"
    | (null) q a where "grow_buffer p buf asz cs = Inr (Inr (q, None, a))"
    | (buffer) q h b a where "grow_buffer p buf asz cs = Inr (Inr (q, Some (h, b), a))"
    by (metis old.sum.exhaust prod_cases3 not_Some_eq surj_pair)
  then show ?case
  proof cases
    case buffer
    show ?thesis
    proof (cases "fill_request b cs off r")
      case (Inl f)
      with buffer show ?thesis by (simp add: step)
    next
      case (Inr b1)
      obtain st n b2 w' where c: "C w b1 cs = (st, n, b2, w')" by (metis prod_cases4)
      note o = over_world_eq [of C, OF c, of m bufs]
      show ?thesis
      proof (cases "st = EFI_BAD_BUFFER_SIZE \<and> max_payload n < unat r")
        case True
        then have "unat (of_nat (max_payload n) :: UINT32) < unat r"
          using unat_of_nat_less [of "max_payload n" r] by simp
        from less [OF this, of w' q "Some (h, b2)" n] buffer Inr c o True show ?thesis
          by (simp add: step)
      next
        case False
        with buffer Inr c o show ?thesis by (auto simp: step)
      qed
    qed
  qed (simp_all add: step)
qed

lemma bail_over:
  "bail p i st (m, bufs, w) buf = map_sum id (sent_over m bufs) (bail p i st w buf)"
  by (cases "FreePool p (Some i)") (simp_all add: bail_def)

lemma fetch_loop_over:
  "fetch_loop (over_world C) i tot (m, bufs, w) p buf asz img off cap
    = map_sum id (sent_over m bufs) (fetch_loop C i tot w p buf asz img off cap)"
proof (induction "tot - off" arbitrary: w p buf asz img off cap rule: less_induct)
  case less
  note step = fetch_loop.simps [of _ i tot _ p buf asz img off cap] Let_def
    SendImageProviderRequest_def
  show ?case
  proof (cases "off < tot")
    case False
    then show ?thesis by (simp add: step)
  next
    case True
    define c where "c = (if tot - off < cap then tot - off else cap)"
    show ?thesis
    proof (cases "send_loop C (of_nat off) w p buf asz (of_nat c)")
      case (Inl f)
      with True show ?thesis by (simp add: step send_over c_def [symmetric])
    next
      case (Inr x)
      then obtain st w' q buf' a ms where
        s: "send_loop C (of_nat off) w p buf asz (of_nat c) = Inr (st, w', q, buf', a, ms)"
        by (metis prod_cases6)
      show ?thesis
      proof (cases "EFI_ERROR st \<or> chunk_capacity a = 0 \<or> buf' = None")
        case stop: True
        with True s show ?thesis by (auto simp: step send_over bail_over c_def [symmetric])
      next
        case False
        then obtain h b where b: "buf' = Some (h, b)" by auto
        consider (fault) f where "accept_chunk b img off c tot = Inl f"
          | (error) e where "accept_chunk b img off c tot = Inr (Inl e)"
          | (more) d k where "accept_chunk b img off c tot = Inr (Inr (d, k))"
          by (metis old.sum.exhaust surj_pair)
        then show ?thesis
        proof cases
          case more
          then have "tot - (off + k) < tot - off" using True by (auto dest: accept_chunk_pos)
          from less [OF this] more False True s b show ?thesis
            by (simp add: step send_over c_def [symmetric])
        qed (use False True s b in \<open>simp_all add: step send_over bail_over c_def [symmetric]\<close>)
      qed
    qed
  qed
qed

section \<open>The whole transfer\<close>

abbreviation fetched_over ::
    "'a \<Rightarrow> 'b \<Rightarrow> 's \<times> 'd \<times> 'n \<times> 'f \<times> 'w \<times> 'p \<Rightarrow> 's \<times> 'd \<times> 'n \<times> 'f \<times> ('a \<times> 'b \<times> 'w) \<times> 'p" where
  "fetched_over m bufs \<equiv> map_prod id (map_prod id (map_prod id (map_prod id (map_prod (\<lambda>w. (m, bufs, w)) id))))"

lemma fetch_exit_over:
  "fetch_exit st d n fmt (m, bufs, w) p buf = map_sum id (fetched_over m bufs) (fetch_exit st d n fmt w p buf)"
  by (cases "FreePool p (map_option fst buf)") (simp_all add: fetch_exit_def)

lemma fetch_body_over:
  "fetch_body (over_world C) junk i tot (m, bufs, w) p buf asz
    = map_sum id (sent_over m bufs) (fetch_body C junk i tot w p buf asz)"
  by (simp add: fetch_body_def bail_over fetch_loop_over)

lemma fetch_finish_over:
  "fetch_finish crc i c tot fmt (map_sum id (sent_over m bufs) r)
    = map_sum id (fetched_over m bufs) (fetch_finish crc i c tot fmt r)"
proof (cases r)
  case (Inr x)
  obtain st w p buf img where x: "x = (st, w, p, buf, img)" by (metis prod_cases5)
  show ?thesis
  proof (cases img)
    case None
    with Inr x show ?thesis by (simp add: fetch_finish_def fetch_exit_over)
  next
    case (Some d)
    with Inr x show ?thesis
      by (cases "FreePool p (Some i)") (simp_all add: fetch_finish_def fetch_exit_over bail_def)
  qed
qed (simp add: fetch_finish_def)

lemma fetch_rest_over:
  "fetch_rest (over_world C) crc junk (m, bufs, w) p h b asz
    = map_sum id (fetched_over m bufs) (fetch_rest C crc junk w p h b asz)"
proof (cases "check_query (cb_Msg b)")
  case (Inr x)
  obtain tot fmt c where x: "x = (tot, fmt, c)" by (metis prod_cases3)
  obtain i q where "AllocatePool p (unat tot) = (i, q)" by fastforce
  with Inr x show ?thesis
    by (cases i) (simp_all add: fetch_rest_def fetch_exit_over fetch_body_over fetch_finish_over)
qed (simp add: fetch_rest_def fetch_exit_over)

lemma FetchImageFromMm_over:
  assumes "FetchImageFromMm ls C crc junk w p = Inr (EFI_SUCCESS, Some x, n, fmt, w', p')"
    and C: "comm_inplace C" and p: "pool_inv p"
  shows "FetchImageFromMm ls (over_world C) crc junk (m, bufs, w) p
    = Inr (EFI_SUCCESS, Some x, n, fmt, (m, bufs, w'), p')"
proof -
  let ?n = ONE_CRYPTO_COMM_BUFFER_TARGET_SIZE
  from assms(1) obtain h p1 where ls: "\<not> EFI_ERROR ls" and al: "AllocatePool p ?n = (Some h, p1)"
    by (auto simp: FetchImageFromMm_def Let_def split: if_splits prod.splits option.splits)
  obtain st w1 b asz ms where s: "SendImageProviderRequest C w p1 (Some (h, zero_buffer ?n)) ?n 0 0
      = Inr (st, w1, p1, Some (h, b), asz, ms)"
    by (rule first_request [OF C, of w p1 h])
  then have "SendImageProviderRequest (over_world C) (m, bufs, w) p1 (Some (h, zero_buffer ?n)) ?n 0 0
      = Inr (st, (m, bufs, w1), p1, Some (h, b), asz, ms)"
    by (simp add: SendImageProviderRequest_def send_over)
  from FetchImageFromMm_unfold [OF ls al this, of crc junk]
    FetchImageFromMm_unfold [OF ls al s, of crc junk]
  have "FetchImageFromMm ls (over_world C) crc junk (m, bufs, w) p
    = map_sum id (fetched_over m bufs) (FetchImageFromMm ls C crc junk w p)"
    by (simp add: fetch_rest_over fetch_exit_over)
  with assms(1) show ?thesis by simp
qed

end
