(* ===== verification/LoaderProps.thy ===== *)
theory LoaderProps
  imports FromMmOutcome FetchOver MmTransferProps PeCoffProps
begin

text \<open>
  The properties of the loaders and of the table they give to the crypto binary.
\<close>

section \<open>A concrete firmware for the witnesses\<close>

definition fresh_loader :: "pool \<Rightarrow> 'c \<Rightarrow> ('c, 'd) loader" where
  "fresh_loader p w = \<lparr>ld_pool = p, mOneCryptoDepends = None, mOneCryptoProtocol = None,
     ld_images = {}, ld_installed = None, ld_world = w\<rparr>"

definition demo_constructor :: "(nat bin_state, nat deps) entry_fn constructor_protocol" where
  "demo_constructor = \<lparr>cp_Signature = ONE_CRYPTO_CONSTRUCTOR_PROTOCOL_SIGNATURE,
     cp_Version = ONE_CRYPTO_CONSTRUCTOR_PROTOCOL_VERSION, cp_Entry = Some (nosetup_fn 1720 (1, 0))\<rparr>"

text \<open>
  A loaded PE32+ image of 206 bytes: the PE signature, the optional header at 24 with one data
  directory, the export directory at 144 with one function and one name, and their tables. \<open>names\<close>
  is the address of the table of names; 188 is right. The strings are compared byte by byte.
\<close>

definition demo_pe :: "byte \<Rightarrow> byte list" where
  "demo_pe names = [0x50, 0x45, 0, 0] @ replicate 20 0 @ [0x0B, 0x02] @ replicate 106 0
     @ [1, 0, 0, 0] @ [144, 0, 0, 0] @ [62, 0, 0, 0]
     @ replicate 24 0 @ [1, 0, 0, 0] @ [184, 0, 0, 0] @ [names, 0, 0, 0] @ [192, 0, 0, 0]
     @ [0x40, 0, 0, 0] @ [194, 0, 0, 0] @ [0, 0] @ EXPORTED_ENTRY_NAME @ [0]"

fun demo_strcmp :: strcmp where
  "demo_strcmp m a [] = map_sum id uint (read8 m a)"
| "demo_strcmp m a (x # xs) = bind_res (read8 m a) (\<lambda>b.
     if b = 0 \<or> b \<noteq> x then Inr (uint b - uint x) else demo_strcmp m (a + 1) xs)"

definition demo_pe_env :: pe_env where
  "demo_pe_env = \<lparr>PeCoffLoaderGetImageInfo = (\<lambda>li. (EFI_SUCCESS, 0x8664, 0, 11)),
     AsciiStrCmp = demo_strcmp\<rparr>"

text \<open>The firmware loads only the section \<open>[1, 2, 3]\<close>, which \<open>demo_env\<close> provides, as the image \<open>m\<close>.\<close>

definition demo_entry :: "('w bin_state, 'w deps) entry_fn" where
  "demo_entry = entry_fn (\<lambda>w. (EFI_SUCCESS, w)) 1720 (1, 0)"

definition demo_dxe :: "byte list \<Rightarrow> ('w bin_state, 'w deps) dxe_env" where
  "demo_dxe m = \<lparr>Section = (EFI_SUCCESS, [1, 2, 3]),
     LoadImage = (\<lambda>bs w. if bs = [1, 2, 3] then (EFI_SUCCESS, Some 7, w) else (EFI_UNSUPPORTED, None, w)),
     HandleProtocol = (\<lambda>i w. (EFI_SUCCESS, Some \<lparr>li_ImageBase = 0x1000, li_Bytes = m\<rparr>, w)),
     UnloadImage = (\<lambda>i w. w),
     InstallMultipleProtocolInterfaces = (\<lambda>b w. (EFI_SUCCESS, w)),
     CodeAt = (\<lambda>a. if a = 0x1040 then demo_entry else (\<lambda>d c n w. Inl OobRead)),
     PeEnv = demo_pe_env\<rparr>"

text \<open>The search finds the function at the offset 0x40, and faults when the table of names is
  outside of the image.\<close>

lemma demo_lookup:
  "GetEntryFromLoadedImage False demo_pe_env (Some \<lparr>li_ImageBase = 0x1000, li_Bytes = demo_pe 188\<rparr>)
    = Inr (EFI_SUCCESS, Some 0x1040)"
  "GetEntryFromLoadedImage False demo_pe_env (Some \<lparr>li_ImageBase = 0x1000, li_Bytes = demo_pe 250\<rparr>)
    = Inl OobRead"
  by code_simp+

lemma demo_dxe_ok:
  "dxe_ok False (demo_dxe (demo_pe 188)) demo_entry" "dxe_ok False (demo_dxe (demo_pe 250)) demo_entry"
  by (auto simp: dxe_ok_def demo_dxe_def demo_lookup)

definition demo_table :: "'w deps" where
  "demo_table = \<lparr>dep_Major = 1, dep_Minor = 0, dep_Reserved = 0, dep_AllocatePool = None,
     dep_FreePool = None, dep_GetTime = None, dep_DebugPrint = None,
     dep_GetRandomNumber64 = None, dep_MicroSecondDelay = None\<rparr>"

lemma demo_load:
  assumes "pool_inv p" and "\<forall>i n. pool_ok p i n" and "b \<in> pool_live p"
    and "ld_pool s = p" and "mOneCryptoDepends s = Some (h, d)" and "ld_world s = (None, Map.empty, g)"
  shows "\<exists>s'. frommm_load (demo_dxe (demo_pe 188)) (EFI_SUCCESS, Some (b, [1, 2, 3]), s) = Inr (EFI_SUCCESS, s')"
    and "frommm_load (demo_dxe (demo_pe 250)) (EFI_SUCCESS, Some (b, [1, 2, 3]), s) = Inl OobRead"
proof -
  have "b \<noteq> pool_next p" using assms(1,3) by (auto simp: pool_inv_def)
  moreover obtain prot where "CryptoInit (1, 0) (Some zero_protocol) = Some prot"
    using CryptoInit_wiring [of "(1, 0)" zero_protocol] by (auto simp: zero_protocol_def)
  ultimately show "\<exists>s'. frommm_load (demo_dxe (demo_pe 188)) (EFI_SUCCESS, Some (b, [1, 2, 3]), s)
      = Inr (EFI_SUCCESS, s')"
    using assms by (simp add: frommm_load_def load_and_construct_def demo_dxe_def demo_lookup(1)
        construct_protocol_def demo_entry_def constructor_defs AllocatePool_def FreePool_def
        frommm_exit_def release_depends_def Let_def)
  show "frommm_load (demo_dxe (demo_pe 250)) (EFI_SUCCESS, Some (b, [1, 2, 3]), s) = Inl OobRead"
    using assms by (simp add: frommm_load_def load_and_construct_def demo_dxe_def demo_lookup(2) Let_def)
qed

text \<open>A handler that expands every section to a volume header of zeros.\<close>

definition demo_guided :: guided_env where
  "demo_guided = \<lparr>
     ExtractGuidedSectionGetInfo = (\<lambda>sec. (EFI_SUCCESS, 64, 0)),
     ExtractGuidedSectionDecode = (\<lambda>sec. (EFI_SUCCESS, False, replicate 64 0)),
     FindFfsSectionInSections = (\<lambda>m. (EFI_NOT_FOUND, None)),
     NestedNextFile = (\<lambda>m fv f. None),
     NestedFileName = (\<lambda>m f. zero_guid),
     NestedPe32Data = (\<lambda>m f. (EFI_NOT_FOUND, None))\<rparr>"

lemma demo_guided_ok: "guided_ok demo_guided (\<lambda>m fv. [])"
  by (auto simp: guided_ok_def demo_guided_def)

text \<open>The whole run, with the image that the provider's handler sends in chunks of two bytes.\<close>

definition demo_fetch ::
    "provider_globals bin_state \<Rightarrow> pool \<Rightarrow> provider_globals bin_state image_result res" where
  "demo_fetch = FetchImageFromMm EFI_SUCCESS (over_world (mm_transport False demo_env 0x5000 90))
     (CalculateCrc32 demo_env) (\<lambda>i. 0xAF)"

definition demo_fresh :: "(provider_globals bin_state, provider_globals deps) loader" where
  "demo_fresh = fresh_loader (empty_pool (\<lambda>i n. True)) (None, Map.empty, initial_globals)"

lemma demo_fetched:
  assumes "pool_inv p" and "\<forall>i n. pool_ok p i n"
  obtains b g p' where "demo_fetch (None, Map.empty, initial_globals) p
      = Inr (EFI_SUCCESS, Some (b, [1, 2, 3]), 3, ONE_CRYPTO_IMAGE_FORMAT_PE32, (None, Map.empty, g), p')"
    and "pool_inv p'" and "b \<in> pool_live p'" and "\<forall>i n. pool_ok p' i n"
proof -
  have ok: "\<not> EFI_ERROR EFI_SUCCESS" and l: "length [1, 2, 3 :: byte] = 3" by simp_all
  from FetchImageFromMm_relay [OF demo_link_ok demo_provides ok assms, of "\<lambda>i. 0xAF"] obtain b g p' where
    f: "FetchImageFromMm EFI_SUCCESS (mm_transport False demo_env 0x5000 90) (CalculateCrc32 demo_env)
        (\<lambda>i. 0xAF) initial_globals p
      = Inr (EFI_SUCCESS, Some (b, [1, 2, 3]), 3, ONE_CRYPTO_IMAGE_FORMAT_PE32, g, p')"
    and p': "pool_inv p'" "pool_live p' = insert b (pool_live p)" "pool_ok p' = pool_ok p"
    unfolding l by blast
  have "b \<in> pool_live p'" "\<forall>i n. pool_ok p' i n" using p' assms(2) by simp_all
  then show thesis
    by (rule that [unfolded demo_fetch_def,
        OF FetchImageFromMm_over [OF f demo_transport_inplace assms(1)] p'(1)])
qed

lemma demo_run:
  "\<exists>s'. FromMm_DxeEntryPoint demo_fetch demo_guided (demo_dxe (demo_pe 188)) demo_table demo_fresh
      = Some (Inr (EFI_SUCCESS, s'))"
  "FromMm_DxeEntryPoint demo_fetch demo_guided (demo_dxe (demo_pe 250)) demo_table demo_fresh
      = Some (Inl OobRead)"
proof -
  let ?p = "(empty_pool (\<lambda>i n. True))\<lparr>pool_next := 1, pool_live := {0}\<rparr>"
  have "pool_inv ?p" "\<forall>i n. pool_ok ?p i n" by (simp_all add: pool_inv_def empty_pool_def)
  from demo_fetched [OF this] obtain b g p where
    f: "demo_fetch (None, Map.empty, initial_globals) ?p
      = Inr (EFI_SUCCESS, Some (b, [1, 2, 3]), 3, ONE_CRYPTO_IMAGE_FORMAT_PE32, (None, Map.empty, g), p)"
    and p: "pool_inv p" "b \<in> pool_live p" "\<forall>i n. pool_ok p i n" .
  let ?s = "demo_fresh\<lparr>mOneCryptoDepends := Some (0, demo_table), ld_world := (None, Map.empty, g), ld_pool := p\<rparr>"
  have "ONE_CRYPTO_IMAGE_FORMAT_PE32 \<noteq> ONE_CRYPTO_IMAGE_FORMAT_GUIDED_FV"
    by (simp add: ONE_CRYPTO_IMAGE_FORMAT_PE32_def ONE_CRYPTO_IMAGE_FORMAT_GUIDED_FV_def)
  with f have run: "FromMm_DxeEntryPoint demo_fetch demo_guided E demo_table demo_fresh
      = Some (frommm_load E (EFI_SUCCESS, Some (b, [1, 2, 3]), ?s))" for E
    by (simp add: FromMm_unfold setup_depends_def allocate_depends_def demo_fresh_def fresh_loader_def
        AllocatePool_def empty_pool_def Let_def)
  note load = demo_load [OF p(1,3,2), of ?s 0 demo_table g]
  from load show "\<exists>s'. FromMm_DxeEntryPoint demo_fetch demo_guided (demo_dxe (demo_pe 188)) demo_table demo_fresh
      = Some (Inr (EFI_SUCCESS, s'))"
    "FromMm_DxeEntryPoint demo_fetch demo_guided (demo_dxe (demo_pe 250)) demo_table demo_fresh
      = Some (Inl OobRead)" by (simp_all add: run)
qed

section \<open>Properties\<close>

text \<open>C35: \<^verbatim>\<open>OneCryptoLoaderMm\<close> and \<^verbatim>\<open>OneCryptoLoaderDxeByProtocol\<close> do the same on a fresh state, never
  fault, and either return success with the protocol installed and exactly the table and the
  protocol kept, or return an error without installing anything; then no block is left, except
  that the protocol buffer is not freed when only its installation failed.\<close>

theorem protocol_loaders_outcome:
  assumes "pool_inv (ld_pool s)" and "mOneCryptoDepends s = None"
    and "cp_Entry c \<in> {None, Some (nosetup_fn sz v)}"
  shows "ByProtocol_DxeEntryPoint (ls, c) I d s = LoaderMm_MmEntry (ls, c) I d s
    \<and> protocol_loader_outcome d s (LoaderMm_MmEntry (ls, c) I d s)"
proof -
  have "e = nosetup_fn sz v" if "constructor_entry (ls, c) = Inr e" for e
    using constructor_entry_Inr [OF that] assms(3) by simp
  then show ?thesis
    using nosetup_entry.LoaderMm_outcome [OF assms(1,2)] ByProtocol_eq_Mm [OF assms(2)] by blast
qed

theorem protocol_loaders_outcome_witness:
  "protocol_loader_outcome demo_deps (fresh_loader (empty_pool (\<lambda>i n. True)) (None, Map.empty, 0))
     (LoaderMm_MmEntry (EFI_SUCCESS, demo_constructor) (\<lambda>b w. (EFI_SUCCESS, w)) demo_deps
        (fresh_loader (empty_pool (\<lambda>i n. True)) (None, Map.empty, 0)))"
proof -
  have "cp_Entry demo_constructor \<in> {None, Some (nosetup_fn 1720 (1, 0))}"
    by (simp add: demo_constructor_def)
  from protocol_loaders_outcome [OF _ _ this,
      of "fresh_loader (empty_pool (\<lambda>i n. True)) (None, Map.empty, 0)" EFI_SUCCESS
        "\<lambda>b w. (EFI_SUCCESS, w)" demo_deps]
  show ?thesis by (simp add: fresh_loader_def)
qed

text \<open>\<^verbatim>\<open>OneCryptoLoaderDxe\<close> only faults in the unchecked search for the export of an image that was
  loaded. Otherwise it frees the section buffer, and either installs the protocol, or returns an
  error without installing it. Besides the protocol buffer after a failed installation it leaves
  the table allocated when it does not find the section.\<close>

theorem dxe_loader_exact:
  assumes "dxe_ok print E (entry_fn init sz v)" and "pool_inv (ld_pool s)"
    and "mOneCryptoDepends s = None"
  shows "dxe_loader_outcome d s (LoaderDxe_DxeEntryPoint print E d s)
    \<or> (\<exists>f. LoaderDxe_DxeEntryPoint print E d s = Inl f \<and> lookup_fault print E f)"
  by (rule crypto_entry.LoaderDxe_outcome [OF assms])

theorem dxe_loader_exact_witness:
  "dxe_loader_outcome demo_deps (fresh_loader (empty_pool (\<lambda>i n. True)) (None, Map.empty, 0))
     (LoaderDxe_DxeEntryPoint False (demo_dxe (demo_pe 188)) demo_deps
        (fresh_loader (empty_pool (\<lambda>i n. True)) (None, Map.empty, 0)))
    \<or> (\<exists>f. LoaderDxe_DxeEntryPoint False (demo_dxe (demo_pe 188)) demo_deps
          (fresh_loader (empty_pool (\<lambda>i n. True)) (None, Map.empty, 0)) = Inl f
        \<and> lookup_fault False (demo_dxe (demo_pe 188) :: (nat bin_state, nat deps) dxe_env) f)"
  by (rule dxe_loader_exact [OF demo_dxe_ok(1) [unfolded demo_entry_def]]) (simp_all add: fresh_loader_def)

text \<open>C9: \<^verbatim>\<open>OneCryptoLoaderDxeFromMm\<close>, over every transport that writes in place, every peer and every
  image, ends. It installs the protocol or returns an error. After an error no image of this run
  stays loaded, the protocol pointer is NULL, and either nothing is allocated and the table pointer
  is NULL, or the fetch failed and the table is kept for the next run. The only other way out is a
  fault of the search for the export, which does not check the tables of an image that the
  firmware has loaded: a read outside of the image, or a fault of the string comparison that got
  an address from it.\<close>

theorem frommm_loader_exact:
  assumes "dxe_ok False E (entry_fn init sz v)" and "guided_ok G files" and "comm_inplace C"
    and "pool_inv (ld_pool s)" and "mOneCryptoDepends s = None" and "mOneCryptoProtocol s = None"
  shows "frommm_outcome d s (FromMm_DxeEntryPoint (FetchImageFromMm ls C crc junk) G E d s)
    \<or> (\<exists>f. FromMm_DxeEntryPoint (FetchImageFromMm ls C crc junk) G E d s = Some (Inl f)
        \<and> lookup_fault False E f \<and> (f = OobRead \<or> (\<exists>m a n. AsciiStrCmp (PeEnv E) m a n = Inl f)))"
  using crypto_entry.FromMm_outcome [OF assms, of d ls crc junk] lookup_fault_kind [of E]
  unfolding frommm_result_def by blast

theorem frommm_loader_exact_witness:
  "(\<exists>s'. FromMm_DxeEntryPoint demo_fetch demo_guided (demo_dxe (demo_pe 188)) demo_table demo_fresh
      = Some (Inr (EFI_SUCCESS, s')) \<and> loaded demo_table demo_fresh s')
    \<and> FromMm_DxeEntryPoint demo_fetch demo_guided (demo_dxe (demo_pe 250)) demo_table demo_fresh
      = Some (Inl OobRead)
    \<and> lookup_fault False (demo_dxe (demo_pe 250) :: (provider_globals bin_state, provider_globals deps) dxe_env)
        OobRead"
proof -
  have s: "pool_inv (ld_pool demo_fresh)" "mOneCryptoDepends demo_fresh = None"
    "mOneCryptoProtocol demo_fresh = None"
    by (simp_all add: demo_fresh_def fresh_loader_def)
  have C: "comm_inplace (over_world (mm_transport False demo_env 0x5000 90))"
    by (intro over_world_inplace demo_transport_inplace)
  note exact = frommm_loader_exact [OF _ demo_guided_ok C s, where ls = EFI_SUCCESS
      and crc = "CalculateCrc32 demo_env" and junk = "\<lambda>i. 0xAF" and d = demo_table, folded demo_fetch_def]
  from exact [OF demo_dxe_ok(1) [unfolded demo_entry_def]] exact [OF demo_dxe_ok(2) [unfolded demo_entry_def]]
    demo_run
  show ?thesis by (auto simp: frommm_outcome_def)
qed

text \<open>C32: with a handler that expands the section into the caller's buffer, as the comment at its call
  in the code says it does, and a library that enumerates finitely many files (\<open>guided_ok\<close>), the
  extraction from a compressed volume ends and is memory safe, for any section bytes and any
  pattern of allocation failures: it returns the PE32 section of the first OneCrypto file of the
  volume in a new block, or an error and no new block.\<close>

theorem extract_exact:
  assumes "guided_ok G files" and "pool_inv p"
  shows "\<exists>st x p'. ExtractOneCryptoPe32FromGuidedFv G (Some (h, sec)) p = Some (Inr (st, x, p'))
    \<and> (case x of
         None \<Rightarrow> EFI_ERROR st \<and> pool_live p' = pool_live p
       | Some (c, bytes) \<Rightarrow> st = EFI_SUCCESS \<and> c \<notin> pool_live p \<and> pool_live p' = insert c (pool_live p)
           \<and> nested_image G files (snd (snd (ExtractGuidedSectionDecode G sec))) bytes)"
  using Extract_good [OF assms, of sec h] unfolding extract_good_def by blast

theorem extract_exact_witness:
  "\<exists>st x p'. ExtractOneCryptoPe32FromGuidedFv demo_guided (Some (0, replicate 30 0))
      (empty_pool (\<lambda>i n. True)) = Some (Inr (st, x, p'))
    \<and> (case x of
         None \<Rightarrow> EFI_ERROR st \<and> pool_live p' = pool_live (empty_pool (\<lambda>i n. True))
       | Some (c, bytes) \<Rightarrow> st = EFI_SUCCESS \<and> c \<notin> pool_live (empty_pool (\<lambda>i n. True))
           \<and> pool_live p' = insert c (pool_live (empty_pool (\<lambda>i n. True)))
           \<and> nested_image demo_guided (\<lambda>m fv. [])
               (snd (snd (ExtractGuidedSectionDecode demo_guided (replicate 30 0)))) bytes)"
  by (rule extract_exact [OF demo_guided_ok]) simp

text \<open>the crypto binary and the MM loader fit together: when memory is available, the driver entry of the
  binary publishes its constructor, and the loader that finds it returns success with the OneCrypto
  protocol installed. The installed structure has every listed member set to the library function
  of its name and the others NULL, and the CRT library of the binary uses the table of the loader.\<close>

theorem mm_binary_to_protocol:
  assumes "pool_inv p" and "\<forall>i n. pool_ok p i n" and "0 < sz"
    and "\<forall>b c. \<exists>x. I b c = (EFI_SUCCESS, fst c, fst (snd c), x)"
  shows "\<exists>p1 b0 c s h b prot. bin_MmEntry True EFI_SUCCESS EFI_SUCCESS (nosetup_fn sz v) p
      = Inr (EFI_SUCCESS, p1, Some (b0, c))
    \<and> LoaderMm_MmEntry (EFI_SUCCESS, c) I d (fresh_loader p1 (None, Map.empty, w)) = Inr (EFI_SUCCESS, s)
    \<and> pool_live (ld_pool s) = {b0, h, b} \<union> pool_live p \<and> distinct [b0, h, b]
    \<and> ld_installed s = Some b \<and> mOneCryptoDepends s = Some (h, d)
    \<and> fst (ld_world s) = Some d \<and> fst (snd (ld_world s)) b = Some prot
    \<and> (\<forall>x. prot_members prot x = (if x \<in> fst ` set crypto_members then Some x else None))"
proof -
  let ?e = "nosetup_fn sz v" and ?w = "(None, Map.empty, w)"
  from CryptoInit_wiring [of v zero_protocol] obtain prot where
    prot: "CryptoInit v (Some zero_protocol) = Some prot"
    "\<forall>x. prot_members prot x = (if x \<in> fst ` set crypto_members then Some x else None)"
    by (auto simp: zero_protocol_def)
  have sz: "sz \<noteq> 0" using assms(3) by simp
  have q: "?e d None 0 ?w = Inr (EFI_BUFFER_TOO_SMALL, sz, ?w)"
    by (simp add: constructor_defs)
  have c: "?e d (Some (b, unat sz)) sz ?w = Inr (EFI_SUCCESS, sz, Some d, [b \<mapsto> prot], w)" for b
    using prot(1) by (simp add: constructor_defs)
  let ?n = "pool_next p"
  from assms(4) obtain x where i:
    "I (Suc (Suc ?n)) (Some d, [Suc (Suc ?n) \<mapsto> prot], w) = (EFI_SUCCESS, Some d, [Suc (Suc ?n) \<mapsto> prot], x)"
    by (metis fst_conv snd_conv)
  have fresh: "?n \<notin> pool_live p" "Suc ?n \<notin> pool_live p" "Suc (Suc ?n) \<notin> pool_live p"
    using assms(1) by (auto simp: pool_inv_def)
  note steps = bin_MmEntry_def publish_constructor_def AllocatePool_def LoaderMm_MmEntry_def
    constructor_entry_def setup_depends_def allocate_depends_def construct_protocol_def
    release_depends_def fresh_loader_def Let_def
  show ?thesis
    using assms(2) sz q c i fresh prot(2) by (auto simp: steps)
qed

theorem mm_binary_to_protocol_witness:
  "\<exists>p1 b0 c s b prot. bin_MmEntry True EFI_SUCCESS EFI_SUCCESS (nosetup_fn 1720 (1, 0))
      (empty_pool (\<lambda>i n. True)) = Inr (EFI_SUCCESS, p1, Some (b0, c))
    \<and> LoaderMm_MmEntry (EFI_SUCCESS, c) (\<lambda>b w. (EFI_SUCCESS, w)) demo_deps
        (fresh_loader p1 (None, Map.empty, 5)) = Inr (EFI_SUCCESS, s)
    \<and> ld_installed s = Some b \<and> fst (snd (ld_world s)) b = Some prot"
  using mm_binary_to_protocol [of "empty_pool (\<lambda>i n. True)" 1720 "\<lambda>b w. (EFI_SUCCESS, w)" "(1, 0)"
      demo_deps 5]
  by (fastforce simp: empty_pool_def pool_inv_def)

text \<open>the two policies for a missing random number protocol. In MM the search is made once: after it
  failed, every random number function of the crypto binary returns FALSE without touching the
  firmware, whatever the firmware offers by then. The DXE loader searches again at each call, so
  a call that finds the protocol returns its bytes and keeps the pointer.\<close>

theorem rng_one_shot_or_retry:
  assumes "mMmRngInitAttempted s" and "mCachedRngProtocol s = None"
    and "LocateRngProtocol E (rw_world s) = (EFI_SUCCESS, Some q, w1)"
    and "GetRNG E q r w1 = (st, x, w2)"
  shows "GetRandomNumber64 (Some (Mm_InstallSharedDependencies False H E)) (Some r) s = (False, Some r, s)
    \<and> GetRandomNumber32 r (Some (Mm_InstallSharedDependencies False H E)) (Some r32) s = (False, Some r32, s)
    \<and> GetRandomNumber16 r (Some (Mm_InstallSharedDependencies False H E)) (Some r16) s = (False, Some r16, s)
    \<and> GetRandomNumber128 (Some (Mm_InstallSharedDependencies False H E)) (Some (r, r1)) s
        = (False, Some (r, r1), s)
    \<and> GetRandomNumber64 (Some (InstallSharedDependencies H E)) (Some r) s
        = (\<not> EFI_ERROR st, Some x, s\<lparr>mCachedRngProtocol := Some q, rw_world := w2\<rparr>)
    \<and> GetRandomNumber64 (Some (ByProtocol_InstallSharedDependencies H E)) (Some r) s
        = (\<not> EFI_ERROR st, Some x, s\<lparr>mCachedRngProtocol := Some q, rw_world := w2\<rparr>)"
  using assms
  by (simp add: GetRandomNumber64_def GetRandomNumber32_def GetRandomNumber16_def
      GetRandomNumber128_def OneCryptoGetRandomNumber64_def Mm_InstallSharedDependencies_def
      InstallSharedDependencies_def ByProtocol_InstallSharedDependencies_def as_service_def
      LazyMmGetRandomNumber64_def LazyPlatformGetRandomNumber64_def
      ByProtocol_LazyPlatformGetRandomNumber64_def locate_rng_def draw_def Let_def)

definition demo_rng :: "(nat, nat) rng_env" where
  "demo_rng = \<lparr>LocateRngProtocol = (\<lambda>w. (EFI_SUCCESS, Some 4, w)),
     GetRNG = (\<lambda>q r w. (EFI_SUCCESS, of_nat (q + w), Suc w))\<rparr>"

definition demo_host :: "(nat, nat) rng_world host" where
  "demo_host = \<lparr>host_AllocatePool = (\<lambda>n s. (None, s)), host_FreePool = (\<lambda>p s. s),
     host_DebugPrint = (\<lambda>l m s. s), host_GetTime = (\<lambda>t s. (EFI_SUCCESS, t, s)),
     host_Stall = (\<lambda>n s. (n, s))\<rparr>"

theorem rng_one_shot_or_retry_witness:
  "GetRandomNumber64 (Some (Mm_InstallSharedDependencies False demo_host demo_rng)) (Some 1)
      \<lparr>mCachedRngProtocol = None, mMmRngInitAttempted = True, rw_fault = None, rw_world = 3\<rparr>
    = (False, Some 1, \<lparr>mCachedRngProtocol = None, mMmRngInitAttempted = True, rw_fault = None, rw_world = 3\<rparr>)
    \<and> GetRandomNumber64 (Some (InstallSharedDependencies demo_host demo_rng)) (Some 1)
      \<lparr>mCachedRngProtocol = None, mMmRngInitAttempted = True, rw_fault = None, rw_world = 3\<rparr>
    = (True, Some 7, \<lparr>mCachedRngProtocol = Some 4, mMmRngInitAttempted = True, rw_fault = None, rw_world = 4\<rparr>)"
  using rng_one_shot_or_retry
    [of "\<lparr>mCachedRngProtocol = None, mMmRngInitAttempted = True, rw_fault = None, rw_world = 3\<rparr>"
      demo_rng 4 3 1 EFI_SUCCESS 7 4 demo_host 0 0 0]
  by (simp add: demo_rng_def)

end
