(* ===== verification/Keccak.thy ===== *)
theory Keccak
  imports Prelude
begin

text \<open>
  The sponge of \<^verbatim>\<open>BaseCryptLib/Hash/CryptSha3.c\<close>, the length encodings of \<^verbatim>\<open>CryptXkcp.c\<close> and
  cSHAKE-256 of \<^verbatim>\<open>CryptCShake256.c\<close>.

  \<^item> \<^verbatim>\<open>SHA3_absorb\<close> and \<^verbatim>\<open>SHA3_squeeze\<close> belong to OpenSSL and are parameters: from the 25 words of
    the state, a buffer and the rate, the new state and the number of bytes not processed; and
    from the state, the length and the rate, the output and the new state.
  \<^item> A C buffer argument is a \<open>cdata\<close>: the bytes behind the pointer (\<open>None\<close> is NULL) and the length
    that is passed with it.
  \<^item> \<^verbatim>\<open>UINTN\<close> is 64 bits wide; a subtraction that can wrap is \<open>usub\<close>.
\<close>

section \<open>Buffers\<close>

type_synonym cdata = "byte list option \<times> nat"

definition read_data :: "cdata \<Rightarrow> byte list res" where
  "read_data d =
    (case d of
       (None, n) \<Rightarrow> if n = 0 then Inr [] else Inl NullDeref
     | (Some bs, n) \<Rightarrow> if n \<le> length bs then Inr (take n bs) else Inl OobRead)"

definition usub :: "nat \<Rightarrow> nat \<Rightarrow> nat" where
  "usub a b = unat (of_nat a - of_nat b :: UINT64)"

lemma usub_eq: "b \<le> a \<Longrightarrow> a < 2 ^ 64 \<Longrightarrow> usub a b = a - b"
  by (simp add: usub_def unat_of_nat64 flip: of_nat_diff)

section \<open>LeftEncode and RightEncode\<close>

text \<open>The loop that counts the bytes of the value.\<close>

function count_bytes :: "UINT64 \<Rightarrow> nat \<Rightarrow> nat" where
  "count_bytes ValueCopy BlockNum =
    (if ValueCopy \<noteq> 0 \<and> BlockNum < 8 then count_bytes (drop_bit 8 ValueCopy) (Suc BlockNum)
     else BlockNum)"
  by pat_completeness auto
termination by (relation "measure (\<lambda>(v, n). 8 - n)") auto

declare count_bytes.simps [simp del]

definition block_num :: "UINT64 \<Rightarrow> nat" where
  "block_num Value = (if count_bytes Value 0 = 0 then 1 else count_bytes Value 0)"

text \<open>The bytes that the second loop writes.\<close>

definition value_bytes :: "nat \<Rightarrow> UINT64 \<Rightarrow> byte list" where
  "value_bytes BlockNum Value =
    map (\<lambda>Index. ucast (drop_bit (8 * (BlockNum - Index)) Value)) [1..<BlockNum + 1]"

text \<open>The \<open>EncLen\<close> bytes that are written to \<^verbatim>\<open>EncBuf\<close>.\<close>

definition LeftEncode :: "UINT64 \<Rightarrow> byte list" where
  "LeftEncode Value = of_nat (block_num Value) # value_bytes (block_num Value) Value"

definition RightEncode :: "UINT64 \<Rightarrow> byte list" where
  "RightEncode Value = value_bytes (block_num Value) Value @ [of_nat (block_num Value)]"

section \<open>The sponge\<close>

definition KECCAK1600_WIDTH :: nat where "KECCAK1600_WIDTH = 1600"

definition sizeof_buf :: nat where "sizeof_buf = KECCAK1600_WIDTH div 8 - 32"

record Keccak1600_Ctx =
  kc_A :: "UINT64 list"
  kc_block_size :: nat
  kc_md_size :: nat
  kc_num :: nat
  kc_buf :: "byte list"
  kc_pad :: byte

type_synonym absorb_fn = "UINT64 list \<Rightarrow> byte list \<Rightarrow> nat \<Rightarrow> UINT64 list \<times> nat"
type_synonym squeeze_fn = "UINT64 list \<Rightarrow> nat \<Rightarrow> nat \<Rightarrow> byte list \<times> UINT64 list"

definition KeccakInit :: "Keccak1600_Ctx \<Rightarrow> byte \<Rightarrow> nat \<Rightarrow> nat \<Rightarrow> bool \<times> Keccak1600_Ctx" where
  "KeccakInit Context Pad BlockSize MessageDigestLen =
    (if BlockSize \<le> sizeof_buf
     then (True, Context\<lparr>kc_A := replicate 25 0, kc_num := 0, kc_block_size := BlockSize,
                         kc_md_size := MessageDigestLen, kc_pad := Pad\<rparr>)
     else (False, Context))"

text \<open>The part of \<^verbatim>\<open>Sha3Update\<close> after the intermediate buffer.\<close>

definition update_tail :: "absorb_fn \<Rightarrow> nat \<Rightarrow> Keccak1600_Ctx \<Rightarrow> byte list \<Rightarrow> Keccak1600_Ctx res" where
  "update_tail SHA3_absorb BlockSize Context Data =
    (case (if length Data \<ge> BlockSize then SHA3_absorb (kc_A Context) Data BlockSize
           else (kc_A Context, length Data)) of
       (A, Rem) \<Rightarrow>
         let Context = Context\<lparr>kc_A := A\<rparr> in
         if Rem > 0 then
           (if Rem > length Data then Inl OobRead
            else if Rem > length (kc_buf Context) then Inl OobWrite
            else Inr (Context\<lparr>kc_buf := copy_at 0 (drop (length Data - Rem) Data) (kc_buf Context),
                              kc_num := Rem\<rparr>))
         else Inr Context)"

definition Sha3Update :: "absorb_fn \<Rightarrow> Keccak1600_Ctx \<Rightarrow> cdata \<Rightarrow> Keccak1600_Ctx res" where
  "Sha3Update SHA3_absorb Context d =
    bind_res (read_data d) (\<lambda>Data.
      let BlockSize = kc_block_size Context mod 256;
          Num = kc_num Context
      in if length Data = 0 then Inr Context
         else if Num \<noteq> 0 then
           (let Rem = usub BlockSize Num in
            if length Data < Rem then
              (if Num + length Data > length (kc_buf Context) then Inl OobWrite
               else Inr (Context\<lparr>kc_buf := copy_at Num Data (kc_buf Context),
                                 kc_num := Num + length Data\<rparr>))
            else if Num + Rem > length (kc_buf Context) then Inl OobWrite
            else let buf = copy_at Num (take Rem Data) (kc_buf Context) in
                 if BlockSize > length buf then Inl OobRead
                 else update_tail SHA3_absorb BlockSize
                        (Context\<lparr>kc_buf := buf,
                                 kc_A := fst (SHA3_absorb (kc_A Context) (take BlockSize buf) BlockSize),
                                 kc_num := 0\<rparr>)
                        (drop Rem Data))
         else update_tail SHA3_absorb BlockSize Context Data)"

text \<open>The digest (\<open>None\<close> when nothing is written) and the context.\<close>

definition Sha3Final ::
    "absorb_fn \<Rightarrow> squeeze_fn \<Rightarrow> Keccak1600_Ctx \<Rightarrow> (byte list option \<times> Keccak1600_Ctx) res" where
  "Sha3Final SHA3_absorb SHA3_squeeze Context =
    (let BlockSize = kc_block_size Context;
         Num = kc_num Context
     in if kc_md_size Context = 0 then Inr (None, Context)
        else if Num + usub BlockSize Num > length (kc_buf Context) then Inl OobWrite
        else if Num \<ge> length (kc_buf Context) \<or> usub BlockSize 1 \<ge> length (kc_buf Context)
        then Inl OobWrite
        else
          let buf = zero_at Num (usub BlockSize Num) (kc_buf Context);
              buf = buf[Num := kc_pad Context];
              buf = buf[usub BlockSize 1 := buf ! usub BlockSize 1 OR 0x80];
              A = fst (SHA3_absorb (kc_A Context) (take BlockSize buf) BlockSize)
          in case SHA3_squeeze A (kc_md_size Context) BlockSize of
               (out, A) \<Rightarrow> Inr (Some out, Context\<lparr>kc_buf := buf, kc_A := A\<rparr>))"

section \<open>cSHAKE-256\<close>

definition CSHAKE256_SECURITY_STRENGTH :: nat where "CSHAKE256_SECURITY_STRENGTH = 256"
definition CSHAKE256_RATE_IN_BYTES :: nat where "CSHAKE256_RATE_IN_BYTES = 136"

text \<open>
  A sequence of updates; each \<^verbatim>\<open>Sha3Update\<close> returns 1. The context may be uninitialised memory:
  \<open>c0\<close> is its contents. An \<^verbatim>\<open>Inr None\<close> is a FALSE of the function.
\<close>

primrec updates :: "absorb_fn \<Rightarrow> Keccak1600_Ctx \<Rightarrow> cdata list \<Rightarrow> Keccak1600_Ctx res" where
  "updates ab c [] = Inr c"
| "updates ab c (d # ds) = bind_res (Sha3Update ab c d) (\<lambda>c. updates ab c ds)"

definition as_data :: "byte list \<Rightarrow> cdata" where
  "as_data bs = (Some bs, length bs)"

definition CShake256Init ::
    "absorb_fn \<Rightarrow> Keccak1600_Ctx option \<Rightarrow> nat \<Rightarrow> cdata \<Rightarrow> cdata \<Rightarrow> Keccak1600_Ctx option res" where
  "CShake256Init ab CShake256Context OutputLen Name Customization =
    (case CShake256Context of
       None \<Rightarrow> Inr None
     | Some c0 \<Rightarrow>
         let NameLen = snd Name;
             CustomizationLen = snd Customization;
             Rate = (KECCAK1600_WIDTH - CSHAKE256_SECURITY_STRENGTH * 2) div 8
         in if OutputLen = 0 \<or> NameLen \<noteq> 0 \<and> fst Name = None
               \<or> CustomizationLen \<noteq> 0 \<and> fst Customization = None
            then Inr None
            else if NameLen = 0 \<and> CustomizationLen = 0 then
              (case KeccakInit c0 0x1F Rate OutputLen of
                 (Status, c) \<Rightarrow> Inr (if Status then Some c else None))
            else
              (case KeccakInit c0 0x04 Rate OutputLen of
                 (False, c) \<Rightarrow> Inr None
               | (True, c) \<Rightarrow>
                   let EncRate = LeftEncode (of_nat CSHAKE256_RATE_IN_BYTES);
                       EncName = LeftEncode (of_nat NameLen * 8);
                       EncCustom = LeftEncode (of_nat CustomizationLen * 8);
                       AbsorbLen = unat (of_nat (length EncRate + length EncName + NameLen
                                                 + length EncCustom + CustomizationLen) :: UINT64);
                       PadLen = CSHAKE256_RATE_IN_BYTES - AbsorbLen mod CSHAKE256_RATE_IN_BYTES
                   in map_sum id Some
                        (updates ab c [as_data EncRate, as_data EncName, Name, as_data EncCustom,
                           Customization, (Some (replicate CSHAKE256_RATE_IN_BYTES 0), PadLen)])))"

definition CShake256Update ::
    "absorb_fn \<Rightarrow> Keccak1600_Ctx option \<Rightarrow> cdata \<Rightarrow> Keccak1600_Ctx option res" where
  "CShake256Update ab CShake256Context Data =
    (case CShake256Context of
       None \<Rightarrow> Inr None
     | Some c \<Rightarrow>
         if fst Data = None \<and> snd Data \<noteq> 0 then Inr None
         else map_sum id Some (Sha3Update ab c Data))"

text \<open>\<open>HashValue\<close>: whether the pointer is not NULL. The result is FALSE or the digest.\<close>

definition CShake256Final ::
    "absorb_fn \<Rightarrow> squeeze_fn \<Rightarrow> Keccak1600_Ctx option \<Rightarrow> bool \<Rightarrow> byte list option option res" where
  "CShake256Final ab sq CShake256Context HashValue =
    (case CShake256Context of
       None \<Rightarrow> Inr None
     | Some c \<Rightarrow> if \<not> HashValue then Inr None
                 else map_sum id (\<lambda>(out, c). Some out) (Sha3Final ab sq c))"

definition CShake256HashAll ::
    "absorb_fn \<Rightarrow> squeeze_fn \<Rightarrow> Keccak1600_Ctx \<Rightarrow> cdata \<Rightarrow> nat \<Rightarrow> cdata \<Rightarrow> cdata \<Rightarrow> bool
     \<Rightarrow> byte list option option res" where
  "CShake256HashAll ab sq Ctx Data OutputLen Name Customization HashValue =
    (if \<not> HashValue then Inr None
     else if fst Data = None \<and> snd Data \<noteq> 0 then Inr None
     else bind_res (CShake256Init ab (Some Ctx) OutputLen Name Customization) (\<lambda>c.
       if c = None then Inr None
       else bind_res (CShake256Update ab c Data) (\<lambda>c.
         if c = None then Inr None else CShake256Final ab sq c True)))"

end
