(* ===== verification/KeccakEncode.thy ===== *)
theory KeccakEncode
  imports Keccak
begin

text \<open>
  \<^verbatim>\<open>LeftEncode\<close> and \<^verbatim>\<open>RightEncode\<close> are the \<open>left_encode\<close> and \<open>right_encode\<close> of NIST SP 800-185: they
  stay inside the nine-byte buffers, use the fewest bytes, and can be parsed back from the
  beginning or from the end of a longer string.
\<close>

section \<open>Big-endian numbers\<close>

definition be_value :: "byte list \<Rightarrow> nat" where
  "be_value bs = foldl (\<lambda>a b. a * 256 + unat b) 0 bs"

lemma be_value_snoc: "be_value (bs @ [b]) = be_value bs * 256 + unat b"
  by (simp add: be_value_def)

definition be_bytes :: "nat \<Rightarrow> nat \<Rightarrow> byte list" where
  "be_bytes n x = map (\<lambda>i. of_nat (x div 256 ^ (n - i))) [1..<n + 1]"

lemma be_bytes_Suc: "be_bytes (Suc n) x = be_bytes n (x div 256) @ [of_nat x]"
proof -
  have "map (\<lambda>i. of_nat (x div 256 ^ (Suc n - i)) :: byte) [1..<n + 1]
      = map (\<lambda>i. of_nat (x div 256 div 256 ^ (n - i))) [1..<n + 1]"
    by (rule map_cong) (auto simp: Suc_diff_le div_mult2_eq)
  then show ?thesis by (simp add: be_bytes_def)
qed

lemma be_value_be_bytes: "be_value (be_bytes n x) = x mod 256 ^ n"
proof (induction n arbitrary: x)
  case 0
  then show ?case by (simp add: be_bytes_def be_value_def)
next
  case (Suc n)
  have "x mod (256 * 256 ^ n) = 256 * (x div 256 mod 256 ^ n) + x mod 256"
    by (rule mod_mult2_eq)
  with Suc [of "x div 256"] show ?case
    by (simp add: be_bytes_Suc be_value_snoc unat_of_nat take_bit_eq_mod mult.commute)
qed

lemma length_value_bytes [simp]: "length (value_bytes n v) = n"
  by (simp add: value_bytes_def)

lemma unat_drop_bit: "unat (drop_bit k (v :: UINT64)) = unat v div 2 ^ k"
proof -
  have "take_bit 64 (unat v) = unat v"
    using unsigned_less [of v, where ?'a = nat] by (intro take_bit_nat_eq_self) simp
  then show ?thesis unfolding unsigned_drop_bit_eq by (simp add: drop_bit_eq_div)
qed

lemma value_bytes_be: "value_bytes n v = be_bytes n (unat v)"
proof -
  have "(ucast (drop_bit k v) :: byte) = of_nat (unat v div 2 ^ k)" for k
    unfolding unat_drop_bit [symmetric] by (rule unsigned_word_eqI [where ?'a = nat])
      (simp add: unsigned_ucast_eq unat_of_nat)
  then show ?thesis
    by (simp add: value_bytes_def be_bytes_def power_mult [of 2 8, symmetric] power_mult)
qed

section \<open>The number of bytes\<close>

lemma count_bytes_bounds:
  assumes "unat v < 256 ^ (8 - n)" and "n \<le> 8"
  shows "n \<le> count_bytes v n \<and> count_bytes v n \<le> 8 \<and> unat v < 256 ^ (count_bytes v n - n)
    \<and> (n < count_bytes v n \<longrightarrow> 256 ^ (count_bytes v n - n - 1) \<le> unat v)"
  using assms
proof (induction v n rule: count_bytes.induct)
  case (1 v n)
  show ?case
  proof (cases "v \<noteq> 0 \<and> n < 8")
    case False
    with "1.prems" show ?thesis by (subst (1 2 3 4 5) count_bytes.simps) (auto simp: Suc_le_eq)
  next
    case True
    let ?w = "drop_bit 8 v"
    have w: "unat ?w = unat v div 256" by (simp add: unat_drop_bit)
    have "8 - n = Suc (8 - Suc n)" using True by arith
    then have "unat v < 256 * 256 ^ (8 - Suc n)" using "1.prems" by simp
    then have "unat ?w < 256 ^ (8 - Suc n)" unfolding w by (simp add: less_mult_imp_div_less mult.commute)
    with "1.IH" [OF True] True have ih: "Suc n \<le> count_bytes ?w (Suc n)" "count_bytes ?w (Suc n) \<le> 8"
      "unat v div 256 < 256 ^ (count_bytes ?w (Suc n) - Suc n)"
      "Suc n < count_bytes ?w (Suc n) \<longrightarrow> 256 ^ (count_bytes ?w (Suc n) - Suc n - 1) \<le> unat v div 256"
      by (simp_all add: w)
    let ?c = "count_bytes ?w (Suc n)"
    have c: "?c - n = Suc (?c - Suc n)" using ih(1) by simp
    have "unat v < 256 ^ (?c - n)"
      unfolding c using ih(3) by (simp add: div_less_iff_less_mult mult.commute)
    moreover have "256 ^ (?c - n - 1) \<le> unat v"
    proof (cases "Suc n < ?c")
      case True
      then have "?c - n - 1 = Suc (?c - Suc n - 1)" by simp
      with ih(4) True show ?thesis by (simp add: less_eq_div_iff_mult_less_eq mult.commute)
    next
      case False
      with ih(1) have "?c - n - 1 = 0" by simp
      moreover have "unat v \<noteq> 0" using True by (simp add: unat_eq_0)
      ultimately show ?thesis by simp
    qed
    ultimately show ?thesis using ih True by (subst (1 2 3 4 5) count_bytes.simps) auto
  qed
qed

lemma block_num_bounds:
  "1 \<le> block_num v" "block_num v \<le> 8" "unat v < 256 ^ block_num v"
  "1 < block_num v \<Longrightarrow> 256 ^ (block_num v - 1) \<le> unat v"
proof -
  have "unat v < 256 ^ (8 - 0)" using unsigned_less [of v, where ?'a = nat] by simp
  from count_bytes_bounds [OF this] show "1 \<le> block_num v" "block_num v \<le> 8"
    "unat v < 256 ^ block_num v" "1 < block_num v \<Longrightarrow> 256 ^ (block_num v - 1) \<le> unat v"
    by (auto simp: block_num_def Suc_le_eq)
qed

lemma be_value_value_bytes: "be_value (value_bytes (block_num v) v) = unat v"
  using block_num_bounds(3) [of v] by (simp add: value_bytes_be be_value_be_bytes)

lemma unat_block_num: "unat (of_nat (block_num v) :: byte) = block_num v"
  using block_num_bounds(2) [of v] by (simp add: unat_of_nat take_bit_eq_mod)

section \<open>Parsing\<close>

text \<open>The value and the rest of a string that begins, or ends, with an encoding.\<close>

definition left_parse :: "byte list \<Rightarrow> nat \<times> byte list" where
  "left_parse bs = (let n = unat (hd bs) in (be_value (take n (tl bs)), drop n (tl bs)))"

definition right_parse :: "byte list \<Rightarrow> nat \<times> byte list" where
  "right_parse bs = (let n = unat (last bs); k = length bs - 1 - n
                     in (be_value (drop k (butlast bs)), take k bs))"

lemma left_parse_encode: "left_parse (LeftEncode v @ rest) = (unat v, rest)"
  by (simp add: left_parse_def LeftEncode_def unat_block_num be_value_value_bytes Let_def)

lemma right_parse_encode: "right_parse (rest @ RightEncode v) = (unat v, rest)"
proof -
  have "butlast (rest @ RightEncode v) = rest @ value_bytes (block_num v) v"
    by (simp add: RightEncode_def butlast_append)
  then show ?thesis
    by (simp add: right_parse_def RightEncode_def unat_block_num be_value_value_bytes Let_def)
qed

lemma length_LeftEncode: "length (LeftEncode v) = block_num v + 1"
  by (simp add: LeftEncode_def)

lemma length_RightEncode: "length (RightEncode v) = block_num v + 1"
  by (simp add: RightEncode_def)

section \<open>Properties\<close>

text \<open>the encodings of a length stay inside the nine-byte buffers of their callers, use the fewest
  bytes possible, and are unambiguous: the value and what follows it are parsed back from the
  beginning of any string, and the value and what precedes it from the end.\<close>

theorem encode_roundtrip:
  "left_parse (LeftEncode v @ rest) = (unat v, rest)
    \<and> right_parse (rest @ RightEncode v) = (unat v, rest)
    \<and> length (LeftEncode v) \<in> {2..9} \<and> length (RightEncode v) = length (LeftEncode v)
    \<and> unat v < 256 ^ (length (LeftEncode v) - 1)
    \<and> (length (LeftEncode v) = 2 \<or> 256 ^ (length (LeftEncode v) - 2) \<le> unat v)"
  using left_parse_encode [of v rest] right_parse_encode [of rest v] block_num_bounds [of v]
  by (cases "block_num v = 1") (simp_all add: length_LeftEncode length_RightEncode)

end
