(* ===== verification/KeccakSponge.thy ===== *)
theory KeccakSponge
  imports KeccakEncode
begin

text \<open>
  The buffering of the sponge refines absorbing the whole message: a context represents the
  message that has been fed to it, whatever the sizes of the pieces.
\<close>

section \<open>The absorption function\<close>

text \<open>
  What the header of \<^verbatim>\<open>SHA3_absorb\<close> promises: it processes the largest multiple of the rate and
  returns the number of bytes left over. So absorbing can be cut at a multiple of the rate, and less
  than one block changes nothing.
\<close>

definition absorbs_blocks :: "absorb_fn \<Rightarrow> bool" where
  "absorbs_blocks ab \<longleftrightarrow>
    (\<forall>A m r. 0 < r \<longrightarrow> snd (ab A m r) = length m mod r)
    \<and> (\<forall>A x y r. 0 < r \<longrightarrow> r dvd length x \<longrightarrow> fst (ab A (x @ y) r) = fst (ab (fst (ab A x r)) y r))
    \<and> (\<forall>A x r. length x < r \<longrightarrow> fst (ab A x r) = A)"

lemma absorbs_blocksD:
  assumes "absorbs_blocks ab" and "0 < r"
  shows absorb_rem: "snd (ab A m r) = length m mod r"
    and absorb_append: "r dvd length x \<Longrightarrow> fst (ab A (x @ y) r) = fst (ab (fst (ab A x r)) y r)"
    and absorb_short: "length x < r \<Longrightarrow> fst (ab A x r) = A"
  using assms unfolding absorbs_blocks_def by blast+

text \<open>The message up to the last whole block, and the rest.\<close>

definition whole :: "nat \<Rightarrow> 'a list \<Rightarrow> 'a list" where
  "whole r m = take (length m - length m mod r) m"

definition partial :: "nat \<Rightarrow> 'a list \<Rightarrow> 'a list" where
  "partial r m = drop (length m - length m mod r) m"

lemma whole_partial: "whole r m @ partial r m = m"
  by (simp add: whole_def partial_def)

lemma length_partial [simp]: "length (partial r m) = length m mod r"
  using mod_less_eq_dividend [of "length m" r] by (simp add: partial_def del: mod_less_eq_dividend)

lemma dvd_whole: "r dvd length (whole r m)"
proof -
  have "length (whole r m) = length m - length m mod r" by (simp add: whole_def min_absorb2)
  then show ?thesis by (simp only: dvd_minus_mod)
qed

lemma absorb_whole:
  assumes "absorbs_blocks ab" and "0 < r"
  shows "fst (ab A m r) = fst (ab A (whole r m) r)"
proof -
  have "fst (ab A (whole r m @ partial r m) r) = fst (ab (fst (ab A (whole r m) r)) (partial r m) r)"
    by (rule absorb_append [OF assms dvd_whole])
  with absorb_short [OF assms, of "partial r m"] assms(2) show ?thesis by (simp add: whole_partial)
qed

section \<open>The representation\<close>

definition represents :: "absorb_fn \<Rightarrow> Keccak1600_Ctx \<Rightarrow> byte list \<Rightarrow> bool" where
  "represents ab c m \<longleftrightarrow> 0 < kc_block_size c \<and> kc_block_size c \<le> sizeof_buf
    \<and> length (kc_buf c) = sizeof_buf \<and> kc_num c = length m mod kc_block_size c
    \<and> kc_A c = fst (ab (replicate 25 0) m (kc_block_size c))
    \<and> take (kc_num c) (kc_buf c) = partial (kc_block_size c) m"

definition same_params :: "Keccak1600_Ctx \<Rightarrow> Keccak1600_Ctx \<Rightarrow> bool" where
  "same_params c c' \<longleftrightarrow> kc_block_size c' = kc_block_size c \<and> kc_md_size c' = kc_md_size c
    \<and> kc_pad c' = kc_pad c"

lemma sizeof_buf_eq: "sizeof_buf = 168"
  by (simp add: sizeof_buf_def KECCAK1600_WIDTH_def)

lemma drop_plus_append: "drop (length x + k) (x @ y) = drop k y"
  by simp

lemma take_copy_at: "off \<le> length buf \<Longrightarrow> take off (copy_at off src buf) = take off buf"
  by (simp add: copy_at_def)

lemma take_copy_at_end:
  "off + length src \<le> length buf \<Longrightarrow> take (off + length src) (copy_at off src buf) = take off buf @ src"
  by (simp add: copy_at_def)

lemma update_tail_represents:
  assumes ab: "absorbs_blocks ab" and c: "represents ab c m" and "r = kc_block_size c"
    and aligned: "r dvd length m"
  shows "\<exists>c'. update_tail ab r c d = Inr c' \<and> represents ab c' (m @ d) \<and> same_params c c'"
proof -
  have r: "0 < r" "r \<le> sizeof_buf" "length (kc_buf c) = sizeof_buf"
    using c assms(3) by (simp_all add: represents_def)
  define A where "A = (if length d \<ge> r then fst (ab (kc_A c) d r) else kc_A c)"
  have len: "(length m + length d) mod r = length d mod r" using aligned by (metis mod_add_left_eq
      dvd_imp_mod_0 add_0)
  have A: "A = fst (ab (replicate 25 0) (m @ d) r)"
    using absorb_append [OF ab r(1) aligned, of _ d] absorb_short [OF ab r(1), of d] c assms(3)
    by (simp add: A_def represents_def)
  have part: "partial r (m @ d) = partial r d"
  proof -
    have e: "length m + length d - length d mod r = length m + (length d - length d mod r)"
      by (rule diff_add_assoc) (rule mod_less_eq_dividend)
    show ?thesis unfolding partial_def length_append len e drop_plus_append by (rule refl)
  qed
  have rem: "(if length d \<ge> r then ab (kc_A c) d r else (kc_A c, length d)) = (A, length d mod r)"
    using absorb_rem [OF ab r(1), of "kc_A c" d] r(1)
    by (simp add: A_def prod_eq_iff)
  have "length d mod r < r" using r(1) by simp
  then have bound: "length d mod r \<le> length (kc_buf c)" using r by linarith
  have d: "drop (length d - length d mod r) d = partial r d" by (simp add: partial_def)
  show ?thesis
  proof (cases "length d mod r = 0")
    case True
    with rem have t: "update_tail ab r c d = Inr (c\<lparr>kc_A := A\<rparr>)"
      by (simp add: update_tail_def)
    have "kc_num c = 0" using c assms(3) aligned by (simp add: represents_def dvd_imp_mod_0)
    with t c A part True len assms(3) show ?thesis
      by (simp add: represents_def same_params_def partial_def)
  next
    case False
    let ?c = "c\<lparr>kc_A := A, kc_buf := copy_at 0 (partial r d) (kc_buf c), kc_num := length d mod r\<rparr>"
    have t: "update_tail ab r c d = Inr ?c"
      using False bound rem by (simp add: update_tail_def Let_def d not_less)
    have "take (length d mod r) (copy_at 0 (partial r d) (kc_buf c)) = partial r d"
      using take_copy_at_end [of 0 "partial r d" "kc_buf c"] bound by simp
    moreover have "length (copy_at 0 (partial r d) (kc_buf c)) = sizeof_buf"
      using bound r by simp
    ultimately have "represents ab ?c (m @ d)"
      using c A part len assms(3) by (simp add: represents_def)
    with t show ?thesis by (simp add: same_params_def)
  qed
qed

section \<open>Sha3Update\<close>

lemma represents_num_less: "represents ab c m \<Longrightarrow> kc_num c < kc_block_size c"
  by (simp add: represents_def)

lemma Sha3Update_represents:
  assumes ab: "absorbs_blocks ab" and c: "represents ab c m" and d: "read_data dat = Inr d"
  shows "\<exists>c'. Sha3Update ab c dat = Inr c' \<and> represents ab c' (m @ d) \<and> same_params c c'"
proof -
  let ?r = "kc_block_size c" and ?n = "kc_num c"
  have r: "0 < ?r" "?r \<le> 168" "length (kc_buf c) = 168" "?n < ?r"
    using c represents_num_less [OF c] by (simp_all add: represents_def sizeof_buf_eq)
  then have bs: "?r mod 256 = ?r" and sub: "usub ?r ?n = ?r - ?n" by (simp_all add: usub_eq)
  note upd = Sha3Update_def Let_def d bs sub
  consider "d = []" | "d \<noteq> []" "?n = 0" | "d \<noteq> []" "?n \<noteq> 0" "length d < ?r - ?n"
    | "d \<noteq> []" "?n \<noteq> 0" "?r - ?n \<le> length d" by linarith
  then show ?thesis
  proof cases
    case 1
    with c show ?thesis by (simp add: upd same_params_def)
  next
    case 2
    with c have "?r dvd length m" by (auto simp: represents_def)
    with update_tail_represents [OF ab c refl, of d] 2 show ?thesis by (simp add: upd)
  next
    case 3
    let ?c = "c\<lparr>kc_buf := copy_at ?n d (kc_buf c), kc_num := ?n + length d\<rparr>"
    have upd': "Sha3Update ab c dat = Inr ?c" using 3 r by (simp add: upd)
    have n: "?n = length m mod ?r" using c by (simp add: represents_def)
    have sum: "(length m + length d) mod ?r = ?n + length d"
      using 3 n by (metis less_diff_conv add.commute mod_add_left_eq mod_less)
    have le: "?n \<le> length m" using n by simp
    then have part: "partial ?r (m @ d) = partial ?r m @ d"
      using sum n by (simp add: partial_def)
    have "whole ?r (m @ d) = whole ?r m"
      using sum n le by (simp add: whole_def)
    then have "fst (ab (replicate 25 0) (m @ d) ?r) = kc_A c"
      using absorb_whole [OF ab r(1)] c by (metis represents_def)
    moreover have "take (?n + length d) (copy_at ?n d (kc_buf c)) = partial ?r m @ d"
    proof -
      have "?n + length d \<le> length (kc_buf c)" using 3 r by linarith
      moreover from c have "take ?n (kc_buf c) = partial ?r m" unfolding represents_def by blast
      ultimately show ?thesis by (simp only: take_copy_at_end)
    qed
    ultimately have "represents ab ?c (m @ d)"
      using c r sum part 3 by (simp add: represents_def sizeof_buf_eq)
    with upd' show ?thesis by (simp add: same_params_def)
  next
    case 4
    let ?x = "take (?r - ?n) d" and ?y = "drop (?r - ?n) d"
    let ?buf = "copy_at ?n ?x (kc_buf c)"
    let ?c = "c\<lparr>kc_buf := ?buf, kc_A := fst (ab (kc_A c) (take ?r ?buf) ?r), kc_num := 0\<rparr>"
    have lx: "length ?x = ?r - ?n" using 4 by simp
    have upd': "Sha3Update ab c dat = update_tail ab ?r ?c ?y" using 4 r lx by (simp add: upd)
    have block: "take ?r ?buf = partial ?r m @ ?x"
    proof -
      have "?n + length ?x \<le> length (kc_buf c)" "?r = ?n + length ?x" unfolding lx using r by linarith+
      moreover from c have "take ?n (kc_buf c) = partial ?r m" unfolding represents_def by blast
      ultimately show ?thesis by (metis take_copy_at_end)
    qed
    have "fst (ab (kc_A c) (take ?r ?buf) ?r) = fst (ab (replicate 25 0) (m @ ?x) ?r)"
      using absorb_append [OF ab r(1) dvd_whole, of "replicate 25 0" m "partial ?r m @ ?x"]
        absorb_whole [OF ab r(1), of "replicate 25 0" m] c block
      by (simp add: represents_def whole_partial flip: append_assoc)
    moreover have aligned: "?r dvd length (m @ ?x)"
    proof -
      have n: "?n = length m mod ?r" using c by (simp add: represents_def)
      have "length (m @ ?x) = (length m - length m mod ?r) + ?r"
        using lx n r(4) mod_less_eq_dividend [of "length m" ?r] by simp
      moreover have "?r dvd (length m - length m mod ?r) + ?r" by (intro dvd_add dvd_minus_mod dvd_refl)
      ultimately show ?thesis by (simp only:)
    qed
    ultimately have "represents ab ?c (m @ ?x)"
      using c r lx by (simp add: represents_def sizeof_buf_eq partial_def dvd_imp_mod_0)
    from update_tail_represents [OF ab this _ aligned, where d = ?y] upd' show ?thesis
      by (auto simp: same_params_def)
  qed
qed

lemma updates_represents:
  assumes ab: "absorbs_blocks ab"
  shows "represents ab c m \<Longrightarrow> list_all2 (\<lambda>dat d. read_data dat = Inr d) dats ds \<Longrightarrow>
    \<exists>c'. updates ab c dats = Inr c' \<and> represents ab c' (m @ concat ds) \<and> same_params c c'"
proof (induction dats arbitrary: c m ds)
  case Nil
  then show ?case by (simp add: same_params_def)
next
  case (Cons dat dats)
  from Cons.prems(2) obtain d ds' where ds: "ds = d # ds'" "read_data dat = Inr d"
    "list_all2 (\<lambda>dat d. read_data dat = Inr d) dats ds'" by (auto simp: list_all2_Cons1)
  from Sha3Update_represents [OF ab Cons.prems(1) ds(2)] obtain c1 where
    c1: "Sha3Update ab c dat = Inr c1" "represents ab c1 (m @ d)" "same_params c c1" by blast
  from Cons.IH [OF c1(2) ds(3)] c1 ds show ?case by (auto simp: same_params_def)
qed

end
