(* ===== verification/CShake.thy ===== *)
theory CShake
  imports KeccakSponge
begin

text \<open>
  cSHAKE-256 against the definition of NIST SP 800-185, over an arbitrary permutation. The
  reference works on whole messages and on natural numbers.
\<close>

section \<open>The reference\<close>

text \<open>The pad10*1 of a sponge with a domain separation byte, for a last block with \<open>n\<close> free bytes.\<close>

definition padding :: "byte \<Rightarrow> nat \<Rightarrow> byte list" where
  "padding pad n = (let z = (replicate n 0)[0 := pad] in z[n - 1 := z ! (n - 1) OR 0x80])"

definition sponge :: "absorb_fn \<Rightarrow> squeeze_fn \<Rightarrow> byte \<Rightarrow> nat \<Rightarrow> nat \<Rightarrow> byte list \<Rightarrow> byte list" where
  "sponge ab sq pad r L m =
    fst (sq (fst (ab (replicate 25 0) (m @ padding pad (r - length m mod r)) r)) L r)"

fun nbytes :: "nat \<Rightarrow> nat" where
  "nbytes n = (if n < 256 then 1 else Suc (nbytes (n div 256)))"

declare nbytes.simps [simp del]

definition left_encode :: "nat \<Rightarrow> byte list" where
  "left_encode n = of_nat (nbytes n) # be_bytes (nbytes n) n"

definition right_encode :: "nat \<Rightarrow> byte list" where
  "right_encode n = be_bytes (nbytes n) n @ [of_nat (nbytes n)]"

definition encode_string :: "byte list \<Rightarrow> byte list" where
  "encode_string s = left_encode (8 * length s) @ s"

definition bytepad :: "byte list \<Rightarrow> nat \<Rightarrow> byte list" where
  "bytepad x w = (let z = left_encode w @ x in z @ replicate ((w - length z mod w) mod w) 0)"

definition cSHAKE256 ::
    "absorb_fn \<Rightarrow> squeeze_fn \<Rightarrow> byte list \<Rightarrow> nat \<Rightarrow> byte list \<Rightarrow> byte list \<Rightarrow> byte list" where
  "cSHAKE256 ab sq X L N S =
    (if N = [] \<and> S = [] then sponge ab sq 0x1F 136 L X
     else sponge ab sq 0x04 136 L (bytepad (encode_string N @ encode_string S) 136 @ X))"

section \<open>The encodings\<close>

lemma nbytes_bounds: "1 \<le> nbytes n \<and> n < 256 ^ nbytes n \<and> (nbytes n = 1 \<or> 256 ^ (nbytes n - 1) \<le> n)"
proof (induction n rule: nbytes.induct)
  case (1 n)
  show ?case
  proof (cases "n < 256")
    case True
    then show ?thesis by (simp add: nbytes.simps)
  next
    case False
    define k where "k = nbytes (n div 256)"
    from "1.IH" [OF False] have ih: "1 \<le> k" "n div 256 < 256 ^ k" "k = 1 \<or> 256 ^ (k - 1) \<le> n div 256"
      by (simp_all add: k_def)
    have "256 ^ k = 256 * (256 ^ (k - 1) :: nat)" using ih(1) by (cases k) auto
    moreover have "256 ^ (k - 1) \<le> n div 256"
      using ih(3) False by (auto simp: Suc_le_eq div_greater_zero_iff)
    ultimately have "256 ^ k \<le> n" by (simp add: less_eq_div_iff_mult_less_eq mult.commute)
    moreover have "n < 256 ^ Suc k" using ih(2) by (simp add: div_less_iff_less_mult mult.commute)
    moreover have "nbytes n = Suc k" using False by (subst nbytes.simps) (simp add: k_def)
    ultimately show ?thesis by simp
  qed
qed

lemma block_num_nbytes: "block_num v = nbytes (unat v)"
proof (rule ccontr)
  note b = block_num_bounds [of v] and n = nbytes_bounds [of "unat v"]
  assume "block_num v \<noteq> nbytes (unat v)"
  then consider "block_num v < nbytes (unat v)" | "nbytes (unat v) < block_num v" by linarith
  then show False
  proof cases
    case 1
    then have "(256 :: nat) ^ block_num v \<le> 256 ^ (nbytes (unat v) - 1)"
      by (intro power_increasing) auto
    moreover have "256 ^ (nbytes (unat v) - 1) \<le> unat v" using 1 b(1) n by auto
    ultimately show False using b(3) by linarith
  next
    case 2
    then have "(256 :: nat) ^ nbytes (unat v) \<le> 256 ^ (block_num v - 1)"
      by (intro power_increasing) auto
    moreover have "256 ^ (block_num v - 1) \<le> unat v" using 2 n by (intro b(4)) auto
    ultimately show False using n by linarith
  qed
qed

lemma LeftEncode_eq: "n < 2 ^ 64 \<Longrightarrow> LeftEncode (of_nat n) = left_encode n"
  by (simp add: LeftEncode_def left_encode_def block_num_nbytes value_bytes_be unat_of_nat64)

lemma RightEncode_eq: "n < 2 ^ 64 \<Longrightarrow> RightEncode (of_nat n) = right_encode n"
  by (simp add: RightEncode_def right_encode_def block_num_nbytes value_bytes_be unat_of_nat64)

section \<open>Sha3Final\<close>

lemma padded_block:
  assumes "n < r" and "r \<le> length buf"
  shows "take r ((let b = (zero_at n (r - n) buf)[n := pad] in b[r - 1 := b ! (r - 1) OR 0x80]))
    = take n buf @ padding pad (r - n)"
proof -
  let ?t = "take n buf" and ?z = "replicate (r - n) (0 :: byte)" and ?w = "drop r buf"
  have lt: "length ?t = n" using assms by simp
  have r: "r - 1 = n + (r - n - 1)" using assms by simp
  have "zero_at n (r - n) buf = ?t @ ?z @ ?w" using assms by (simp add: zero_at_def copy_at_def)
  then have b: "(zero_at n (r - n) buf)[n := pad] = ?t @ ?z[0 := pad] @ ?w"
    using assms lt by (simp add: list_update_append)
  let ?z1 = "?z[0 := pad]"
  have k: "r - n - 1 < length ?z1" using assms by simp
  have "(?t @ ?z1 @ ?w) ! (n + j) = ?z1 ! j" if "j < length ?z1" for j
    using lt that by (simp add: nth_append)
  with k have "(?t @ ?z1 @ ?w) ! (r - 1) = ?z1 ! (r - n - 1)" unfolding r by blast
  moreover have "(?t @ ?z1 @ ?w)[n + j := v] = ?t @ ?z1[j := v] @ ?w" if "j < length ?z1" for j v
    using lt that by (simp add: list_update_append)
  with k have "(?t @ ?z1 @ ?w)[r - 1 := v] = ?t @ ?z1[r - n - 1 := v] @ ?w" for v
    unfolding r by blast
  ultimately show ?thesis
    using assms lt unfolding b Let_def padding_def by simp
qed

lemma Sha3Final_represents:
  assumes ab: "absorbs_blocks ab" and c: "represents ab c m" and "kc_md_size c \<noteq> 0"
  shows "\<exists>c'. Sha3Final ab sq c
    = Inr (Some (sponge ab sq (kc_pad c) (kc_block_size c) (kc_md_size c) m), c')"
proof -
  let ?r = "kc_block_size c" and ?n = "kc_num c"
  have r: "0 < ?r" "?r \<le> 168" "length (kc_buf c) = 168" "?n < ?r"
    using c represents_num_less [OF c] by (simp_all add: represents_def sizeof_buf_eq)
  then have sub: "usub ?r ?n = ?r - ?n" "usub ?r 1 = ?r - 1" by (simp_all add: usub_eq)
  define buf where "buf = (let b = (zero_at ?n (?r - ?n) (kc_buf c))[?n := kc_pad c]
                           in b[?r - 1 := b ! (?r - 1) OR 0x80])"
  let ?p = "padding (kc_pad c) (?r - length m mod ?r)"
  from c have part: "take ?n (kc_buf c) = partial ?r m" and A: "kc_A c = fst (ab (replicate 25 0) m ?r)"
    and n: "?n = length m mod ?r" unfolding represents_def by blast+
  have "take ?r buf = partial ?r m @ ?p"
    using padded_block [of ?n ?r "kc_buf c" "kc_pad c"] r part n by (simp only: buf_def)
  then have "fst (ab (kc_A c) (take ?r buf) ?r) = fst (ab (replicate 25 0) (m @ ?p) ?r)"
    using absorb_append [OF ab r(1) dvd_whole, of "replicate 25 0" m "partial ?r m @ ?p"]
      absorb_whole [OF ab r(1), of "replicate 25 0" m]
    by (simp add: A whole_partial flip: append_assoc)
  with r sub assms(3) show ?thesis
    by (simp add: Sha3Final_def Let_def sponge_def buf_def split: prod.split)
qed

section \<open>CShake256HashAll\<close>

lemma KeccakInit_represents:
  assumes "absorbs_blocks ab" and "0 < r" "r \<le> sizeof_buf" and "length (kc_buf c0) = sizeof_buf"
  shows "\<exists>c. KeccakInit c0 pad r L = (True, c) \<and> represents ab c []
    \<and> kc_block_size c = r \<and> kc_md_size c = L \<and> kc_pad c = pad"
  using assms absorb_short [OF assms(1,2), of "[]"]
  by (simp add: KeccakInit_def represents_def partial_def)

text \<open>The bytes that the initialisation absorbs before the zero padding.\<close>

definition cshake_header :: "byte list \<Rightarrow> byte list \<Rightarrow> byte list" where
  "cshake_header N S = left_encode 136 @ encode_string N @ encode_string S"

lemma read_data_length: "read_data d = Inr bs \<Longrightarrow> snd d = length bs \<and> (snd d \<noteq> 0 \<longrightarrow> fst d \<noteq> None)"
  by (auto simp: read_data_def split: prod.splits option.splits if_splits)

lemma read_as_data [simp]: "read_data (as_data bs) = Inr bs"
  by (simp add: read_data_def as_data_def)

lemma length_left_encode: "n < 2 ^ 64 \<Longrightarrow> length (left_encode n) \<le> 9"
  using block_num_bounds(2) [of "of_nat n"] by (simp add: length_LeftEncode flip: LeftEncode_eq)

definition cshake_prefix :: "byte list \<Rightarrow> byte list \<Rightarrow> byte list" where
  "cshake_prefix N S =
    (if N = [] \<and> S = [] then []
     else cshake_header N S @ replicate (136 - length (cshake_header N S) mod 136) 0)"

lemma CShake256Init_represents:
  assumes ab: "absorbs_blocks ab" and buf: "length (kc_buf c0) = sizeof_buf" and "L \<noteq> 0"
    and N: "read_data Nd = Inr N" "length N < 2 ^ 60" and S: "read_data Sd = Inr S" "length S < 2 ^ 60"
  shows "\<exists>c. CShake256Init ab (Some c0) L Nd Sd = Inr (Some c) \<and> represents ab c (cshake_prefix N S)
    \<and> kc_block_size c = 136 \<and> kc_md_size c = L
    \<and> kc_pad c = (if N = [] \<and> S = [] then 0x1F else 0x04)"
proof -
  note lens = read_data_length [OF N(1)] read_data_length [OF S(1)]
  let ?rate = "(KECCAK1600_WIDTH - CSHAKE256_SECURITY_STRENGTH * 2) div 8"
  have rate: "?rate = 136" by (simp add: KECCAK1600_WIDTH_def CSHAKE256_SECURITY_STRENGTH_def)
  have init: "\<exists>c. KeccakInit c0 pad 136 L = (True, c) \<and> represents ab c []
    \<and> kc_block_size c = 136 \<and> kc_md_size c = L \<and> kc_pad c = pad" for pad
    by (rule KeccakInit_represents [OF ab _ _ buf]) (simp_all add: sizeof_buf_eq)
  show ?thesis
  proof (cases "N = [] \<and> S = []")
    case True
    from init [of "0x1F"] obtain c where "KeccakInit c0 0x1F 136 L = (True, c)" "represents ab c []"
      "kc_block_size c = 136" "kc_md_size c = L" "kc_pad c = 0x1F" by blast
    with True lens assms(3) show ?thesis
      by (simp add: CShake256Init_def Let_def rate cshake_prefix_def)
  next
    case False
    have enc: "LeftEncode (of_nat (length N) * 8) = left_encode (8 * length N)"
      "LeftEncode (of_nat (length S) * 8) = left_encode (8 * length S)"
      "LeftEncode 136 = left_encode 136" "LeftEncode 0 = left_encode 0"
      using LeftEncode_eq [of "8 * length N"] LeftEncode_eq [of "8 * length S"] LeftEncode_eq [of 136]
        LeftEncode_eq [of 0] N S
      by (simp_all add: CSHAKE256_RATE_IN_BYTES_def mult.commute)
    let ?n = "length (left_encode 136) + length (left_encode (8 * length N)) + length N
      + length (left_encode (8 * length S)) + length S"
    have "?n < 2 ^ 64"
      using length_left_encode [of 136] length_left_encode [of "8 * length N"]
        length_left_encode [of "8 * length S"] N(2) S(2) by simp
    then have len: "unat (of_nat ?n :: UINT64) = length (cshake_header N S)"
      by (simp only: unat_of_nat64) (simp add: cshake_header_def encode_string_def)
    let ?pad = "136 - length (cshake_header N S) mod 136"
    let ?zeros = "(Some (replicate 136 (0 :: byte)), ?pad)"
    have z: "read_data ?zeros = Inr (replicate ?pad 0)" by (simp add: read_data_def min_def)
    from init [of "0x04"] obtain c1 where c1: "KeccakInit c0 0x04 136 L = (True, c1)" "represents ab c1 []"
      "kc_block_size c1 = 136" "kc_md_size c1 = L" "kc_pad c1 = 0x04" by blast
    have "list_all2 (\<lambda>dat d. read_data dat = Inr d)
        [as_data (left_encode 136), as_data (left_encode (8 * length N)), Nd,
         as_data (left_encode (8 * length S)), Sd, ?zeros]
        [left_encode 136, left_encode (8 * length N), N, left_encode (8 * length S), S, replicate ?pad 0]"
      using N(1) S(1) z by simp
    from updates_represents [OF ab c1(2) this] obtain c where
      c: "updates ab c1 [as_data (left_encode 136), as_data (left_encode (8 * length N)), Nd,
         as_data (left_encode (8 * length S)), Sd, ?zeros] = Inr c"
        "represents ab c (cshake_prefix N S)" "same_params c1 c"
      using False by (auto simp: cshake_prefix_def cshake_header_def encode_string_def)
    have "CShake256Init ab (Some c0) L Nd Sd = Inr (Some c)"
      using False lens assms(3) c1(1) c(1) len
      by (cases "N = []"; cases "S = []")
        (simp_all add: CShake256Init_def Let_def rate enc CSHAKE256_RATE_IN_BYTES_def)
    with c c1 False show ?thesis by (auto simp: same_params_def)
  qed
qed

lemma CShake256HashAll_sponge:
  assumes ab: "absorbs_blocks ab" and buf: "length (kc_buf c0) = sizeof_buf" and L: "L \<noteq> 0"
    and N: "read_data Nd = Inr N" "length N < 2 ^ 60" and S: "read_data Sd = Inr S" "length S < 2 ^ 60"
    and X: "read_data Xd = Inr X"
  shows "CShake256HashAll ab sq c0 Xd L Nd Sd True
    = Inr (Some (Some (sponge ab sq (if N = [] \<and> S = [] then 0x1F else 0x04) 136 L
                        (cshake_prefix N S @ X))))"
proof -
  from CShake256Init_represents [OF ab buf L N S] obtain c where
    c: "CShake256Init ab (Some c0) L Nd Sd = Inr (Some c)" "represents ab c (cshake_prefix N S)"
      "kc_block_size c = 136" "kc_md_size c = L"
      "kc_pad c = (if N = [] \<and> S = [] then 0x1F else 0x04)" by blast
  from Sha3Update_represents [OF ab c(2) X] obtain c2 where
    c2: "Sha3Update ab c Xd = Inr c2" "represents ab c2 (cshake_prefix N S @ X)" "same_params c c2" by blast
  with c L have "kc_md_size c2 \<noteq> 0" by (simp add: same_params_def)
  from Sha3Final_represents [OF ab c2(2) this] obtain c3 where
    "Sha3Final ab sq c2 = Inr (Some (sponge ab sq (kc_pad c2) (kc_block_size c2) (kc_md_size c2)
      (cshake_prefix N S @ X)), c3)" by blast
  with c c2 read_data_length [OF X] show ?thesis
    by (auto simp: CShake256HashAll_def CShake256Update_def CShake256Final_def same_params_def)
qed

lemma cSHAKE256_sponge:
  "cSHAKE256 ab sq X L N S =
    sponge ab sq (if N = [] \<and> S = [] then 0x1F else 0x04) 136 L
      ((if N = [] \<and> S = [] then []
        else cshake_header N S @ replicate ((136 - length (cshake_header N S) mod 136) mod 136) 0) @ X)"
  by (simp add: cSHAKE256_def bytepad_def cshake_header_def Let_def)

end
