(* ===== verification/ParallelHash.thy ===== *)
theory ParallelHash
  imports CShake Pool
begin

text \<open>
  \<^verbatim>\<open>BaseCryptLib/Hash/CryptParallelHash.c\<close>: the blocks of a message are hashed by the boot
  processor and by any number of application processors at once.

  \<^item> \<open>ph_step\<close> is one step of one processor between two accesses to a lock, as an interleaving of
    \<^verbatim>\<open>ParallelHashApExecute\<close> on the application processors with the waiting loop of
    \<^verbatim>\<open>ParallelHash256HashAll\<close> on the boot processor. \<open>H i\<close> is the result of
    \<^verbatim>\<open>CShake256HashAll\<close> for block \<open>i\<close>, \<open>None\<close> for FALSE. How the processors are started
    (\<^verbatim>\<open>DispatchBlockToAp\<close>) only decides which of them take steps.
  \<^item> The rest of \<^verbatim>\<open>ParallelHash256HashAll\<close> is a function; the contents of the result blocks when
    the loop ends are its argument.
\<close>

section \<open>The processors\<close>

datatype ap_pc = ApTry nat | ApHold nat | ApRelease nat

text \<open>The boot processor: \<open>BspRelease i j\<close> holds lock \<open>i\<close> and goes on with index \<open>j\<close>.\<close>

datatype bsp_pc = BspTry nat | BspHold nat | BspRelease nat nat | BspExit

record ph_state =
  ph_lock :: "nat \<Rightarrow> bool"
  ph_done :: "nat \<Rightarrow> bool"
  ph_result :: "nat \<Rightarrow> byte list option"
  ph_ap :: "nat \<Rightarrow> ap_pc"
  ph_bsp :: bsp_pc

definition ph_start :: ph_state where
  "ph_start = \<lparr>ph_lock = (\<lambda>_. False), ph_done = (\<lambda>_. False), ph_result = (\<lambda>_. None),
     ph_ap = (\<lambda>_. ApTry 0), ph_bsp = BspTry 0\<rparr>"

text \<open>
  A processor \<open>a\<close> in \<^verbatim>\<open>ParallelHashApExecute\<close>. The test \<^verbatim>\<open>!EFI_ERROR (Status)\<close> on the Boolean
  result holds also for FALSE, so the block counts as completed in either case.
\<close>

inductive ap_step :: "(nat \<Rightarrow> byte list option) \<Rightarrow> nat \<Rightarrow> nat \<Rightarrow> ph_state \<Rightarrow> ph_state \<Rightarrow> bool"
  for H n a where
  ap_acquire: "ph_ap s a = ApTry i \<Longrightarrow> i < n \<Longrightarrow> \<not> ph_lock s i \<Longrightarrow>
    ap_step H n a s (s\<lparr>ph_lock := (ph_lock s)(i := True), ph_ap := (ph_ap s)(a := ApHold i)\<rparr>)"
| ap_fail: "ph_ap s a = ApTry i \<Longrightarrow> i < n \<Longrightarrow> ph_lock s i \<Longrightarrow>
    ap_step H n a s (s\<lparr>ph_ap := (ph_ap s)(a := ApTry (Suc i))\<rparr>)"
| ap_completed: "ph_ap s a = ApHold i \<Longrightarrow> ph_done s i \<Longrightarrow>
    ap_step H n a s (s\<lparr>ph_ap := (ph_ap s)(a := ApRelease i)\<rparr>)"
| ap_compute: "ph_ap s a = ApHold i \<Longrightarrow> \<not> ph_done s i \<Longrightarrow>
    ap_step H n a s (s\<lparr>ph_result := (ph_result s)(i := H i), ph_done := (ph_done s)(i := True),
      ph_ap := (ph_ap s)(a := ApRelease i)\<rparr>)"
| ap_release: "ph_ap s a = ApRelease i \<Longrightarrow>
    ap_step H n a s (s\<lparr>ph_lock := (ph_lock s)(i := False), ph_ap := (ph_ap s)(a := ApTry (Suc i))\<rparr>)"

text \<open>The waiting loop: each pass starts at index 0 and is left at the first block that is not done.\<close>

inductive bsp_step :: "(nat \<Rightarrow> byte list option) \<Rightarrow> nat \<Rightarrow> ph_state \<Rightarrow> ph_state \<Rightarrow> bool" for H n where
  bsp_acquire: "ph_bsp s = BspTry i \<Longrightarrow> i < n \<Longrightarrow> \<not> ph_lock s i \<Longrightarrow>
    bsp_step H n s (s\<lparr>ph_lock := (ph_lock s)(i := True), ph_bsp := BspHold i\<rparr>)"
| bsp_fail: "ph_bsp s = BspTry i \<Longrightarrow> i < n \<Longrightarrow> ph_lock s i \<Longrightarrow>
    bsp_step H n s (s\<lparr>ph_bsp := BspTry 0\<rparr>)"
| bsp_all_completed: "ph_bsp s = BspTry i \<Longrightarrow> \<not> i < n \<Longrightarrow>
    bsp_step H n s (s\<lparr>ph_bsp := BspExit\<rparr>)"
| bsp_completed: "ph_bsp s = BspHold i \<Longrightarrow> ph_done s i \<Longrightarrow>
    bsp_step H n s (s\<lparr>ph_bsp := BspRelease i (Suc i)\<rparr>)"
| bsp_compute: "ph_bsp s = BspHold i \<Longrightarrow> \<not> ph_done s i \<Longrightarrow> H i = Some d \<Longrightarrow>
    bsp_step H n s (s\<lparr>ph_result := (ph_result s)(i := Some d), ph_done := (ph_done s)(i := True),
      ph_bsp := BspRelease i 0\<rparr>)"
| bsp_failed: "ph_bsp s = BspHold i \<Longrightarrow> \<not> ph_done s i \<Longrightarrow> H i = None \<Longrightarrow>
    bsp_step H n s (s\<lparr>ph_bsp := BspRelease i 0\<rparr>)"
| bsp_release: "ph_bsp s = BspRelease i j \<Longrightarrow>
    bsp_step H n s (s\<lparr>ph_lock := (ph_lock s)(i := False), ph_bsp := BspTry j\<rparr>)"

definition ph_step :: "(nat \<Rightarrow> byte list option) \<Rightarrow> nat \<Rightarrow> ph_state \<Rightarrow> ph_state \<Rightarrow> bool" where
  "ph_step H n s s' \<longleftrightarrow> bsp_step H n s s' \<or> (\<exists>a. ap_step H n a s s')"

section \<open>ParallelHash256HashAll\<close>

definition PARALLELHASH_CUSTOMIZATION :: "byte list" where
  "PARALLELHASH_CUSTOMIZATION =
     [0x50, 0x61, 0x72, 0x61, 0x6C, 0x6C, 0x65, 0x6C, 0x48, 0x61, 0x73, 0x68]"

definition block_count :: "nat \<Rightarrow> nat \<Rightarrow> nat" where
  "block_count InputByteLen BlockSize =
    (if InputByteLen mod BlockSize = 0 then InputByteLen div BlockSize
     else InputByteLen div BlockSize + 1)"

definition last_block_size :: "nat \<Rightarrow> nat \<Rightarrow> nat" where
  "last_block_size InputByteLen BlockSize =
    (if InputByteLen mod BlockSize = 0 then BlockSize else InputByteLen mod BlockSize)"

text \<open>The call for one block: \<open>Some\<close> the digest, or \<open>None\<close> for FALSE.\<close>

definition hash_block ::
    "absorb_fn \<Rightarrow> squeeze_fn \<Rightarrow> Keccak1600_Ctx \<Rightarrow> byte list \<Rightarrow> nat \<Rightarrow> nat \<Rightarrow> nat \<Rightarrow> byte list option res" where
  "hash_block ab sq Ctx Input BlockSize BlockResultSize Index =
    (let len = (if Index = block_count (length Input) BlockSize - 1
                then last_block_size (length Input) BlockSize else BlockSize)
     in map_sum id (\<lambda>r. case r of None \<Rightarrow> None | Some d \<Rightarrow> d)
          (CShake256HashAll ab sq Ctx (Some (drop (Index * BlockSize) Input), len) BlockResultSize
             (None, 0) (None, 0) True))"

text \<open>The size of the combined input, as \<^verbatim>\<open>UINTN\<close> arithmetic.\<close>

definition combined_size :: "nat \<Rightarrow> nat \<Rightarrow> nat \<Rightarrow> nat" where
  "combined_size BlockSize BlockNum OutputByteLen =
    unat (of_nat (length (LeftEncode (of_nat BlockSize)) + length (RightEncode (of_nat BlockNum))
                  + length (RightEncode (of_nat OutputByteLen * 8)) + BlockNum * OutputByteLen) :: UINT64)"

text \<open>\<^verbatim>\<open>CopyMem\<close> into the combined input, a fault outside it.\<close>

definition put :: "nat \<Rightarrow> byte list \<Rightarrow> byte list \<Rightarrow> byte list res" where
  "put off src buf = (if off + length src \<le> length buf then Inr (copy_at off src buf) else Inl OobWrite)"

text \<open>The \<^verbatim>\<open>Exit\<close> block. \<^verbatim>\<open>ZeroMem\<close> writes through \<^verbatim>\<open>CombinedInput\<close> before it is compared with NULL.\<close>

definition ph_exit ::
    "nat option \<Rightarrow> nat \<Rightarrow> nat option \<Rightarrow> nat option \<Rightarrow> byte list option \<Rightarrow> pool
     \<Rightarrow> (byte list option \<times> pool) res" where
  "ph_exit CombinedInput CombinedInputSize SpinLockList BlockIsCompleted r p =
    (if CombinedInput = None \<and> CombinedInputSize \<noteq> 0 then Inl NullDeref
     else bind_res (if CombinedInput \<noteq> None then FreePool p CombinedInput else Inr p) (\<lambda>p.
          bind_res (if SpinLockList \<noteq> None then FreePool p SpinLockList else Inr p) (\<lambda>p.
          bind_res (if BlockIsCompleted \<noteq> None then FreePool p BlockIsCompleted else Inr p) (\<lambda>p.
            Inr (r, p)))))"

definition ParallelHash256HashAll ::
    "absorb_fn \<Rightarrow> squeeze_fn \<Rightarrow> Keccak1600_Ctx \<Rightarrow> (nat \<Rightarrow> byte list) \<Rightarrow> pool \<Rightarrow> byte list option \<Rightarrow> nat
     \<Rightarrow> bool \<Rightarrow> nat \<Rightarrow> cdata \<Rightarrow> (byte list option \<times> pool) res" where
  "ParallelHash256HashAll ab sq Ctx Results p Input BlockSize HasOutput OutputByteLen Customization =
    (let InputByteLen = (case Input of None \<Rightarrow> 1 | Some m \<Rightarrow> length m) in
     if InputByteLen = 0 \<or> OutputByteLen = 0 \<or> BlockSize = 0 then Inr (None, p)
     else (case Input of
        None \<Rightarrow> Inr (None, p)
      | Some m \<Rightarrow>
        if \<not> HasOutput then Inr (None, p)
        else if snd Customization \<noteq> 0 \<and> fst Customization = None then Inr (None, p)
        else
          let BlockNum = block_count InputByteLen BlockSize;
              EncB = LeftEncode (of_nat BlockSize);
              EncN = RightEncode (of_nat BlockNum);
              EncL = RightEncode (of_nat OutputByteLen * 8);
              CombinedInputSize = combined_size BlockSize BlockNum OutputByteLen
          in case AllocatePool p CombinedInputSize of (CombinedInput, p) \<Rightarrow>
             case AllocatePool p BlockNum of (BlockIsCompleted, p) \<Rightarrow>
             case AllocatePool p (unat (of_nat BlockNum * 8 :: UINT64)) of (SpinLockList, p) \<Rightarrow>
               if CombinedInput = None \<or> BlockIsCompleted = None \<or> SpinLockList = None
               then ph_exit CombinedInput CombinedInputSize SpinLockList BlockIsCompleted None p
               else
                 bind_res (put 0 EncB (replicate CombinedInputSize 0)) (\<lambda>c.
                 bind_res (put (length EncB) (concat (map Results [0..<BlockNum])) c) (\<lambda>c.
                 bind_res (put (length EncB + BlockNum * OutputByteLen) EncN c) (\<lambda>c.
                 bind_res (put (length EncB + BlockNum * OutputByteLen + length EncN) EncL c) (\<lambda>c.
                 bind_res (CShake256HashAll ab sq Ctx (as_data c) OutputByteLen
                             (as_data PARALLELHASH_CUSTOMIZATION) Customization True) (\<lambda>r.
                   ph_exit CombinedInput CombinedInputSize SpinLockList BlockIsCompleted
                     (case r of None \<Rightarrow> None | Some d \<Rightarrow> d) p)))))))"

section \<open>The reference\<close>

text \<open>
  ParallelHash of NIST SP 800-185 with inner digests of \<open>inner\<close> bytes; the standard's
  ParallelHash256 has \<open>inner = 64\<close>.
\<close>

definition blocks_of :: "nat \<Rightarrow> byte list \<Rightarrow> byte list list" where
  "blocks_of B X = map (\<lambda>i. take B (drop (i * B) X)) [0..<block_count (length X) B]"

definition ParallelHash_ref ::
    "absorb_fn \<Rightarrow> squeeze_fn \<Rightarrow> nat \<Rightarrow> byte list \<Rightarrow> nat \<Rightarrow> nat \<Rightarrow> byte list \<Rightarrow> byte list" where
  "ParallelHash_ref ab sq inner X B L S =
    cSHAKE256 ab sq
      (left_encode B @ concat (map (\<lambda>b. cSHAKE256 ab sq b inner [] []) (blocks_of B X))
       @ right_encode (block_count (length X) B) @ right_encode (8 * L))
      L PARALLELHASH_CUSTOMIZATION S"

end
