(* ===== verification/ParallelHashSafe.thy ===== *)
theory ParallelHashSafe
  imports ParallelHash
begin

text \<open>
  The interleaving of the processors: mutual exclusion on the blocks, the results when the waiting
  loop ends, and that the loop can always be brought to its end.
\<close>

section \<open>The invariant\<close>

inductive_cases ap_stepE: "ap_step H n a s s'"
inductive_cases bsp_stepE: "bsp_step H n s s'"

text \<open>Processor \<open>Some a\<close>, or the boot processor \<open>None\<close>, holds the lock of block \<open>i\<close>.\<close>

definition holds :: "ph_state \<Rightarrow> nat option \<Rightarrow> nat \<Rightarrow> bool" where
  "holds s w i = (case w of
     Some a \<Rightarrow> ph_ap s a = ApHold i \<or> ph_ap s a = ApRelease i
   | None \<Rightarrow> ph_bsp s = BspHold i \<or> (\<exists>j. ph_bsp s = BspRelease i j))"

definition locks_ok :: "ph_state \<Rightarrow> bool" where
  "locks_ok s \<longleftrightarrow> (\<forall>i. ph_lock s i \<longleftrightarrow> (\<exists>w. holds s w i))
    \<and> (\<forall>w w' i. holds s w i \<longrightarrow> holds s w' i \<longrightarrow> w = w')"

definition results_ok :: "(nat \<Rightarrow> byte list option) \<Rightarrow> ph_state \<Rightarrow> bool" where
  "results_ok H s \<longleftrightarrow> (\<forall>i. ph_result s i = (if ph_done s i then H i else None))"

definition pass_ok :: "nat \<Rightarrow> ph_state \<Rightarrow> bool" where
  "pass_ok n s \<longleftrightarrow> (case ph_bsp s of
     BspTry i \<Rightarrow> \<forall>j < i. ph_done s j
   | BspHold i \<Rightarrow> i < n \<and> (\<forall>j < i. ph_done s j)
   | BspRelease i k \<Rightarrow> \<forall>j < k. ph_done s j
   | BspExit \<Rightarrow> \<forall>j < n. ph_done s j)"

definition ph_inv :: "(nat \<Rightarrow> byte list option) \<Rightarrow> nat \<Rightarrow> ph_state \<Rightarrow> bool" where
  "ph_inv H n s \<longleftrightarrow> locks_ok s \<and> results_ok H s \<and> pass_ok n s"

lemma ph_inv_start: "ph_inv H n ph_start"
  by (auto simp: ph_inv_def locks_ok_def results_ok_def pass_ok_def ph_start_def holds_def
      split: option.splits)

lemma locks_ap_step:
  assumes l: "locks_ok s" and "ap_step H n a s s'"
  shows "locks_ok s'"
  using assms(2)
proof (rule ap_stepE, goal_cases)
  case (1 i)
  then have "holds s' w j \<longleftrightarrow> holds s w j \<or> w = Some a \<and> j = i" for w j
    by (auto simp: holds_def split: option.splits)
  moreover have "\<not> holds s w i" for w using l 1 by (auto simp: locks_ok_def)
  ultimately show ?case using l 1 by (simp add: locks_ok_def)
next
  case (2 i)
  then have "holds s' w j \<longleftrightarrow> holds s w j" for w j by (auto simp: holds_def split: option.splits)
  with l 2 show ?case by (simp add: locks_ok_def)
next
  case (3 i)
  then have "holds s' w j \<longleftrightarrow> holds s w j" for w j by (auto simp: holds_def split: option.splits)
  with l 3 show ?case by (simp add: locks_ok_def)
next
  case (4 i)
  then have "holds s' w j \<longleftrightarrow> holds s w j" for w j by (auto simp: holds_def split: option.splits)
  with l 4 show ?case by (simp add: locks_ok_def)
next
  case (5 i)
  then have "holds s' w j \<longleftrightarrow> holds s w j \<and> \<not> (w = Some a \<and> j = i)" for w j
    by (auto simp: holds_def split: option.splits)
  moreover have "holds s (Some a) i" using 5 by (simp add: holds_def)
  ultimately show ?case using l 5 by (simp add: locks_ok_def) metis
qed

lemma locks_bsp_step:
  assumes l: "locks_ok s" and "bsp_step H n s s'"
  shows "locks_ok s'"
  using assms(2)
proof (rule bsp_stepE, goal_cases)
  case (1 i)
  then have "holds s' w j \<longleftrightarrow> holds s w j \<or> w = None \<and> j = i" for w j
    by (auto simp: holds_def split: option.splits)
  moreover have "\<not> holds s w i" for w using l 1 by (auto simp: locks_ok_def)
  ultimately show ?case using l 1 by (simp add: locks_ok_def)
next
  case (7 i j)
  then have "holds s' w k \<longleftrightarrow> holds s w k \<and> \<not> (w = None \<and> k = i)" for w k
    by (auto simp: holds_def split: option.splits)
  moreover have "holds s None i" using 7 by (simp add: holds_def)
  ultimately show ?case using l 7 by (simp add: locks_ok_def) metis
qed (use l in \<open>simp add: locks_ok_def holds_def cong: option.case_cong\<close>)+

lemma results_bsp_step: "results_ok H s \<Longrightarrow> bsp_step H n s s' \<Longrightarrow> results_ok H s'"
  by (elim bsp_stepE) (simp_all add: results_ok_def)

lemma results_ap_step: "results_ok H s \<Longrightarrow> ap_step H n a s s' \<Longrightarrow> results_ok H s'"
  by (elim ap_stepE) (simp_all add: results_ok_def)

lemma pass_bsp_step: "pass_ok n s \<Longrightarrow> bsp_step H n s s' \<Longrightarrow> pass_ok n s'"
  by (elim bsp_stepE) (simp_all add: pass_ok_def less_Suc_eq all_conj_distrib)

lemma pass_more_done:
  "pass_ok n s \<Longrightarrow> ph_bsp s' = ph_bsp s \<Longrightarrow> (\<And>j. ph_done s j \<Longrightarrow> ph_done s' j) \<Longrightarrow> pass_ok n s'"
  by (simp add: pass_ok_def split: bsp_pc.splits)

lemma pass_ap_step: "pass_ok n s \<Longrightarrow> ap_step H n a s s' \<Longrightarrow> pass_ok n s'"
  by (elim ap_stepE; erule pass_more_done) simp_all

lemma ph_inv_step: "ph_inv H n s \<Longrightarrow> ph_step H n s s' \<Longrightarrow> ph_inv H n s'"
  unfolding ph_inv_def ph_step_def
  by (blast intro: locks_ap_step locks_bsp_step results_ap_step results_bsp_step pass_ap_step
      pass_bsp_step)

lemma ph_inv_reachable: "(ph_step H n)\<^sup>*\<^sup>* ph_start s \<Longrightarrow> ph_inv H n s"
  by (induction rule: rtranclp_induct) (auto intro: ph_inv_start ph_inv_step)

section \<open>Progress\<close>

text \<open>A processor that holds a lock can finish with its block and release it.\<close>

lemma ap_drain:
  assumes "holds s (Some a) i"
  shows "\<exists>s'. (ph_step H n)\<^sup>*\<^sup>* s s' \<and> ph_ap s' = (ph_ap s)(a := ApTry (Suc i)) \<and> ph_bsp s' = ph_bsp s"
proof -
  have release: "\<exists>s'. (ph_step H n)\<^sup>*\<^sup>* t s' \<and> ph_ap s' = (ph_ap t)(a := ApTry (Suc i)) \<and> ph_bsp s' = ph_bsp t"
    if "ph_ap t a = ApRelease i" for t
    using ap_release [where H = H and n = n, OF that]
    by (intro exI [of _ "t\<lparr>ph_lock := (ph_lock t)(i := False), ph_ap := (ph_ap t)(a := ApTry (Suc i))\<rparr>"])
      (auto simp: ph_step_def intro!: r_into_rtranclp)
  have step: ?thesis if "ap_step H n a s t" "ph_ap t = (ph_ap s)(a := ApRelease i)" "ph_bsp t = ph_bsp s" for t
  proof -
    from that(2) have "ph_ap t a = ApRelease i" by simp
    from release [OF this] obtain s' where s': "(ph_step H n)\<^sup>*\<^sup>* t s'"
      "ph_ap s' = (ph_ap t)(a := ApTry (Suc i))" "ph_bsp s' = ph_bsp t" by blast
    have "ph_step H n s t" using that(1) by (auto simp: ph_step_def)
    with s' that show ?thesis by (intro exI [of _ s']) (auto intro: converse_rtranclp_into_rtranclp)
  qed
  from assms consider "ph_ap s a = ApRelease i" | "ph_ap s a = ApHold i" by (auto simp: holds_def)
  then show ?thesis
  proof cases
    case 1
    then show ?thesis by (rule release)
  next
    case 2
    show ?thesis
    proof (cases "ph_done s i")
      case True
      show ?thesis by (rule step [OF ap_completed [OF 2 True]]) simp_all
    next
      case False
      show ?thesis by (rule step [OF ap_compute [OF 2 False]]) simp_all
    qed
  qed
qed

definition aps_clear :: "nat \<Rightarrow> ph_state \<Rightarrow> bool" where
  "aps_clear k s \<longleftrightarrow> (\<forall>i < k. \<forall>a. \<not> holds s (Some a) i)"

lemma aps_clear_reachable:
  assumes "ph_inv H n s"
  shows "\<exists>s'. (ph_step H n)\<^sup>*\<^sup>* s s' \<and> aps_clear k s'"
proof (induction k)
  case 0
  then show ?case by (auto simp: aps_clear_def)
next
  case (Suc k)
  then obtain t where t: "(ph_step H n)\<^sup>*\<^sup>* s t" "aps_clear k t" by blast
  have inv: "ph_inv H n t" using t(1) assms by (induction rule: rtranclp_induct) (auto intro: ph_inv_step)
  show ?case
  proof (cases "\<exists>a. holds t (Some a) k")
    case False
    with t show ?thesis by (auto simp: aps_clear_def less_Suc_eq)
  next
    case True
    then obtain a where a: "holds t (Some a) k" ..
    from ap_drain [OF this] obtain s' where s': "(ph_step H n)\<^sup>*\<^sup>* t s'"
      "ph_ap s' = (ph_ap t)(a := ApTry (Suc k))" by blast
    have "holds s' (Some b) i \<longleftrightarrow> holds t (Some b) i \<and> b \<noteq> a" if "i < Suc k" for b i
      using s'(2) a that by (auto simp: holds_def)
    moreover have "b = a" if "holds t (Some b) k" for b
      using inv a that unfolding ph_inv_def locks_ok_def by blast
    ultimately have "aps_clear (Suc k) s'" using t(2) by (auto simp: aps_clear_def less_Suc_eq)
    with t(1) s'(1) show ?thesis by (blast intro: rtranclp_trans)
  qed
qed

text \<open>The boot processor alone: blocks not yet done, then the way through the pass.\<close>

definition pass_left :: "nat \<Rightarrow> bsp_pc \<Rightarrow> nat" where
  "pass_left n pc = (case pc of
     BspTry i \<Rightarrow> 3 * (n - i) + 1 | BspHold i \<Rightarrow> 3 * (n - i) | BspRelease i j \<Rightarrow> 3 * (n - j) + 2
   | BspExit \<Rightarrow> 0)"

definition bsp_left :: "nat \<Rightarrow> ph_state \<Rightarrow> nat" where
  "bsp_left n s = card {j. j < n \<and> \<not> ph_done s j} * (3 * n + 3) + pass_left n (ph_bsp s)"

lemma bsp_left_compute:
  assumes "i < n" and "\<not> ph_done s i" and "ph_bsp s = BspHold i"
    and "ph_done s' = (ph_done s)(i := True)" and "ph_bsp s' = BspRelease i 0"
  shows "bsp_left n s' < bsp_left n s"
proof -
  let ?U = "{j. j < n \<and> \<not> ph_done s j}"
  have "{j. j < n \<and> \<not> ph_done s' j} = ?U - {i}" using assms(4) by auto
  moreover have "card ?U = Suc (card (?U - {i}))"
    using assms(1,2) by (intro card.remove) auto
  moreover have "Suc (Suc (u * (3 * n + 3) + 3 * n)) < Suc u * (3 * n + 3) + k" for u k :: nat
    by simp
  ultimately show ?thesis
    using assms(3,5) by (simp only: bsp_left_def pass_left_def bsp_pc.case) simp
qed

lemma bsp_can_step:
  assumes inv: "ph_inv H n s" and clear: "aps_clear n s" and "ph_bsp s \<noteq> BspExit"
    and H: "\<And>i. i < n \<Longrightarrow> H i \<noteq> None"
  shows "\<exists>s'. bsp_step H n s s' \<and> bsp_left n s' < bsp_left n s \<and> ph_ap s' = ph_ap s"
proof (cases "ph_bsp s")
  case (BspTry i)
  show ?thesis
  proof (cases "i < n")
    case True
    have "\<not> holds s w i" for w
      using clear True BspTry by (cases w) (auto simp: aps_clear_def holds_def)
    with inv have "\<not> ph_lock s i" unfolding ph_inv_def locks_ok_def by blast
    from bsp_acquire [where H = H, OF BspTry True this] BspTry show ?thesis
      by (intro exI conjI) (assumption, simp_all add: bsp_left_def pass_left_def)
  next
    case False
    from bsp_all_completed [where H = H, OF BspTry False] BspTry show ?thesis
      by (intro exI conjI) (assumption, simp_all add: bsp_left_def pass_left_def)
  qed
next
  case (BspHold i)
  with inv have i: "i < n" by (simp add: ph_inv_def pass_ok_def)
  show ?thesis
  proof (cases "ph_done s i")
    case True
    from bsp_completed [where H = H and n = n, OF BspHold True] BspHold i show ?thesis
      by (intro exI conjI) (assumption, simp_all add: bsp_left_def pass_left_def)
  next
    case False
    from H [OF i] obtain d where d: "H i = Some d" by blast
    show ?thesis
      using bsp_compute [of s i H d n, OF BspHold False d]
      by (intro exI conjI) (assumption, rule bsp_left_compute [OF i False BspHold], simp_all)
  qed
next
  case (BspRelease i j)
  from bsp_release [where H = H and n = n, OF BspRelease] BspRelease show ?thesis
    by (intro exI conjI) (assumption, simp_all add: bsp_left_def pass_left_def)
qed (use assms(3) in simp)

lemma bsp_finishes:
  assumes "ph_inv H n s" and "aps_clear n s" and H: "\<And>i. i < n \<Longrightarrow> H i \<noteq> None"
  shows "\<exists>s'. (ph_step H n)\<^sup>*\<^sup>* s s' \<and> ph_bsp s' = BspExit \<and> ph_ap s' = ph_ap s"
  using assms(1,2)
proof (induction "bsp_left n s" arbitrary: s rule: less_induct)
  case less
  show ?case
  proof (cases "ph_bsp s = BspExit")
    case False
    from bsp_can_step [OF less.prems False H] obtain t where t: "bsp_step H n s t"
      "bsp_left n t < bsp_left n s" "ph_ap t = ph_ap s" by blast
    have "ph_step H n s t" using t(1) by (simp add: ph_step_def)
    moreover from this have "ph_inv H n t" by (rule ph_inv_step [OF less.prems(1)])
    moreover have "aps_clear n t" using less.prems(2) t(3) by (simp add: aps_clear_def holds_def)
    ultimately show ?thesis
      using less.hyps [OF t(2)] t(3) by (metis converse_rtranclp_into_rtranclp)
  qed auto
qed

lemma ph_finishes:
  assumes "ph_inv H n s" and "\<And>i. i < n \<Longrightarrow> H i \<noteq> None"
  shows "\<exists>s'. (ph_step H n)\<^sup>*\<^sup>* s s' \<and> ph_bsp s' = BspExit"
proof -
  from aps_clear_reachable [OF assms(1)] obtain t where t: "(ph_step H n)\<^sup>*\<^sup>* s t" "aps_clear n t" by blast
  from t(1) assms(1) have "ph_inv H n t" by (induction rule: rtranclp_induct) (auto intro: ph_inv_step)
  from bsp_finishes [OF this t(2) assms(2)] t(1) show ?thesis by (blast intro: rtranclp_trans)
qed

end
