(* ===== verification/HashProps.thy ===== *)
theory HashProps
  imports ParallelHashSafe
begin

text \<open>
  The properties of the sponge, of cSHAKE-256 and of ParallelHash, with a concrete absorption
  function for the witnesses.
\<close>

section \<open>A sponge for the witnesses\<close>

definition list_absorb :: absorb_fn where
  "list_absorb A m r = (A @ map ucast (take (length m - length m mod r) m), length m mod r)"

definition list_squeeze :: squeeze_fn where
  "list_squeeze A L r = (take L (map ucast (rev A) @ replicate L 0), A)"

lemma list_absorb_blocks: "absorbs_blocks list_absorb"
  unfolding absorbs_blocks_def
proof (intro conjI allI impI, goal_cases)
  case (2 A x y r)
  from 2(2) have "(length x + length y) mod r = length y mod r" "length x mod r = 0"
    by (auto elim: dvdE)
  moreover have "length y mod r \<le> length y" by simp
  ultimately show ?case by (simp add: list_absorb_def del: mod_less_eq_dividend)
qed (simp_all add: list_absorb_def)

definition blank_ctx :: Keccak1600_Ctx where
  "blank_ctx = \<lparr>kc_A = replicate 25 0, kc_block_size = 0, kc_md_size = 0, kc_num = 0,
     kc_buf = replicate sizeof_buf 0, kc_pad = 0\<rparr>"

lemma blank_ctx_buf: "length (kc_buf blank_ctx) = sizeof_buf"
  by (simp add: blank_ctx_def)

section \<open>The sponge\<close>

text \<open>C20: Hashing in pieces of any sizes, empty ones included, gives the digest of the concatenated
  message: initialisation, the updates and the finalisation all succeed, without an access outside
  the buffer, and the digest is the sponge of the padded message. The contents of the context
  before the initialisation do not matter.\<close>

theorem sha3_incremental:
  assumes ab: "absorbs_blocks ab" and buf: "length (kc_buf c0) = sizeof_buf"
    and r: "0 < r" "r \<le> sizeof_buf" and L: "L \<noteq> 0"
  shows "\<exists>c1 c2 c3. KeccakInit c0 pad r L = (True, c1) \<and> updates ab c1 (map as_data ds) = Inr c2
    \<and> Sha3Final ab sq c2 = Inr (Some (sponge ab sq pad r L (concat ds)), c3)"
proof -
  from KeccakInit_represents [OF ab r buf] obtain c1 where
    c1: "KeccakInit c0 pad r L = (True, c1)" "represents ab c1 []"
      "kc_block_size c1 = r" "kc_md_size c1 = L" "kc_pad c1 = pad" by blast
  have "list_all2 (\<lambda>dat d. read_data dat = Inr d) (map as_data ds) ds"
    by (simp add: list_all2_conv_all_nth)
  from updates_represents [OF ab c1(2) this] obtain c2 where
    c2: "updates ab c1 (map as_data ds) = Inr c2" "represents ab c2 (concat ds)" "same_params c1 c2"
    by auto
  with c1 L have "kc_md_size c2 \<noteq> 0" by (simp add: same_params_def)
  from Sha3Final_represents [OF ab c2(2) this] c1 c2 show ?thesis by (auto simp: same_params_def)
qed

theorem sha3_incremental_witness:
  "\<exists>c1 c2 c3. KeccakInit blank_ctx 0x06 4 32 = (True, c1)
    \<and> updates list_absorb c1 (map as_data [[1, 2, 3], [], [4, 5, 6, 7, 8, 9]]) = Inr c2
    \<and> Sha3Final list_absorb list_squeeze c2
      = Inr (Some (sponge list_absorb list_squeeze 0x06 4 32 (concat [[1, 2, 3], [], [4, 5, 6, 7, 8, 9]])), c3)"
  by (rule sha3_incremental [OF list_absorb_blocks blank_ctx_buf]) (simp_all add: sizeof_buf_eq)

section \<open>cSHAKE-256\<close>

lemma cshake_prefix_aligned:
  "length (cshake_header N S) mod 136 \<noteq> 0 \<Longrightarrow>
    cshake_prefix N S = (if N = [] \<and> S = [] then []
      else cshake_header N S @ replicate ((136 - length (cshake_header N S) mod 136) mod 136) 0)"
  by (simp add: cshake_prefix_def mod_less)

lemma CShake256HashAll_reference:
  assumes ab: "absorbs_blocks ab" and buf: "length (kc_buf c0) = sizeof_buf" and L: "L \<noteq> 0"
    and N: "read_data Nd = Inr N" "length N < 2 ^ 60" and S: "read_data Sd = Inr S" "length S < 2 ^ 60"
    and X: "read_data Xd = Inr X"
  shows "CShake256HashAll ab sq c0 Xd L Nd Sd True = Inr (Some (Some
    (if (N = [] \<and> S = []) \<or> length (cshake_header N S) mod 136 \<noteq> 0 then cSHAKE256 ab sq X L N S
     else sponge ab sq 0x04 136 L (cshake_header N S @ replicate 136 0 @ X))))"
proof (cases "length (cshake_header N S) mod 136 = 0")
  case True
  then show ?thesis
    by (simp add: CShake256HashAll_sponge [OF assms] cSHAKE256_def cshake_prefix_def)
next
  case False
  then show ?thesis
    by (simp add: CShake256HashAll_sponge [OF assms] cSHAKE256_sponge cshake_prefix_aligned)
qed

lemma cshake_ref_none:
  assumes "absorbs_blocks ab" and "length (kc_buf c0) = sizeof_buf" and "L \<noteq> 0" and "read_data Xd = Inr X"
  shows "CShake256HashAll ab sq c0 Xd L (None, 0) (None, 0) True
    = Inr (Some (Some (cSHAKE256 ab sq X L [] [])))"
  using CShake256HashAll_reference [OF assms(1-3) _ _ _ _ assms(4), of "(None, 0)" "[]" "(None, 0)" "[]"]
  by (simp add: read_data_def)

text \<open>C36: The one-shot function computes cSHAKE-256 of NIST SP 800-185, except where the encoded name
  and customisation fill whole blocks of 136 bytes: there the code absorbs one more block of zeros
  than bytepad has.\<close>

theorem cshake_reference:
  assumes ab: "absorbs_blocks ab" and buf: "length (kc_buf c0) = sizeof_buf" and L: "L \<noteq> 0"
    and N: "read_data Nd = Inr N" "length N < 2 ^ 60" and S: "read_data Sd = Inr S" "length S < 2 ^ 60"
    and X: "read_data Xd = Inr X"
  shows "CShake256HashAll ab sq c0 Xd L Nd Sd True = Inr (Some (Some
    (if (N = [] \<and> S = []) \<or> length (cshake_header N S) mod 136 \<noteq> 0 then cSHAKE256 ab sq X L N S
     else sponge ab sq 0x04 136 L (cshake_header N S @ replicate 136 0 @ X))))"
  by (rule CShake256HashAll_reference [OF assms])

theorem cshake_reference_witness:
  "CShake256HashAll list_absorb list_squeeze blank_ctx (as_data [1, 2, 3]) 32
      (None, 0) (as_data (replicate 129 7)) True = Inr (Some (Some
    (if ([] = ([] :: byte list) \<and> replicate 129 7 = ([] :: byte list))
        \<or> length (cshake_header [] (replicate 129 7)) mod 136 \<noteq> 0
     then cSHAKE256 list_absorb list_squeeze [1, 2, 3] 32 [] (replicate 129 7)
     else sponge list_absorb list_squeeze 0x04 136 32
            (cshake_header [] (replicate 129 7) @ replicate 136 0 @ [1, 2, 3]))))"
  by (rule cshake_reference [OF list_absorb_blocks blank_ctx_buf]) (simp_all add: read_data_def as_data_def)

text \<open>The exception is reached: without a name, by a customisation of 129 bytes.\<close>

lemma cshake_header_aligned: "length (cshake_header [] (replicate 129 s)) = 136"
  by (simp add: cshake_header_def encode_string_def left_encode_def be_bytes_def nbytes.simps)

section \<open>The processors\<close>

text \<open>However the boot processor and the application processors are interleaved, no two of them
  are in the same block at once, and when the boot processor leaves the waiting loop every block is
  completed and holds its own digest.\<close>

theorem parallel_hash_safe:
  assumes "(ph_step H n)\<^sup>*\<^sup>* ph_start s"
  shows "(holds s w i \<and> holds s w' i \<longrightarrow> w = w')
    \<and> (ph_bsp s = BspExit \<longrightarrow> (\<forall>i < n. ph_done s i \<and> ph_result s i = H i))"
  using ph_inv_reachable [OF assms]
  by (auto simp: ph_inv_def locks_ok_def results_ok_def pass_ok_def)

theorem parallel_hash_safe_witness:
  "\<exists>s. (ph_step (\<lambda>i. Some [of_nat i]) 3)\<^sup>*\<^sup>* ph_start s \<and> ph_bsp s = BspExit
    \<and> ph_done s 2 \<and> ph_result s 2 = Some [2]"
proof -
  from ph_finishes [OF ph_inv_start, of 3 "\<lambda>i. Some [of_nat i]"] obtain s where
    s: "(ph_step (\<lambda>i. Some [of_nat i]) 3)\<^sup>*\<^sup>* ph_start s" "ph_bsp s = BspExit" by auto
  from s(2) parallel_hash_safe [OF s(1), of None 0 None] have "ph_done s 2 \<and> ph_result s 2 = Some [of_nat 2]"
    by simp
  with s show ?thesis by auto
qed

text \<open>Where every block can be hashed, the waiting loop is never stuck: from every reachable
  state, whatever locks the application processors hold, some continuation ends the loop.\<close>

theorem parallel_hash_progress:
  assumes "(ph_step H n)\<^sup>*\<^sup>* ph_start s" and "\<And>i. i < n \<Longrightarrow> H i \<noteq> None"
  shows "\<exists>s'. (ph_step H n)\<^sup>*\<^sup>* s s' \<and> ph_bsp s' = BspExit"
  by (rule ph_finishes [OF ph_inv_reachable [OF assms(1)] assms(2)])

theorem parallel_hash_progress_witness:
  "\<exists>s'. (ph_step (\<lambda>i. Some [of_nat i]) 3)\<^sup>*\<^sup>* ph_start s' \<and> ph_bsp s' = BspExit"
  by (rule parallel_hash_progress [OF rtranclp.rtrancl_refl]) simp

text \<open>
  Leaving the loop does not mean that the application processors have left theirs: the boot
  processor can be done, and go on to free the locks, before an application processor has taken
  its first step.
\<close>

lemma parallel_hash_exit_early:
  "\<exists>s. (ph_step (\<lambda>_. Some d) n)\<^sup>*\<^sup>* ph_start s \<and> ph_bsp s = BspExit \<and> ph_ap s a = ApTry 0"
proof -
  let ?H = "\<lambda>_ :: nat. Some d"
  have clear: "aps_clear n ph_start" by (simp add: aps_clear_def holds_def ph_start_def)
  have "\<exists>s'. (ph_step ?H n)\<^sup>*\<^sup>* s s' \<and> ph_bsp s' = BspExit \<and> ph_ap s' = ph_ap s"
    if "ph_inv ?H n s" "aps_clear n s" for s
    by (rule bsp_finishes) (use that in auto)
  from this [OF ph_inv_start clear] show ?thesis by (auto simp: ph_start_def)
qed

section \<open>ParallelHash256HashAll\<close>

definition squeezes :: "squeeze_fn \<Rightarrow> bool" where
  "squeezes sq \<longleftrightarrow> (\<forall>A L r. length (fst (sq A L r)) = L)"

lemma list_squeezes: "squeezes list_squeeze"
  by (simp add: squeezes_def list_squeeze_def min_def)

lemma length_cSHAKE256: "squeezes sq \<Longrightarrow> length (cSHAKE256 ab sq X L N S) = L"
  by (simp add: squeezes_def cSHAKE256_def sponge_def)

lemma block_count_bounds:
  assumes "0 < B" and "X \<noteq> []" and "i < block_count (length X) B"
  shows "i * B + (if i = block_count (length X) B - 1 then last_block_size (length X) B else B) \<le> length X"
    and "take (if i = block_count (length X) B - 1 then last_block_size (length X) B else B)
           (drop (i * B) X) = take B (drop (i * B) X)"
proof -
  let ?q = "length X div B" and ?m = "length X mod B"
  have len: "length X = ?q * B + ?m" by simp
  show le: "i * B + (if i = block_count (length X) B - 1 then last_block_size (length X) B else B) \<le> length X"
  proof (cases "i < ?q")
    case True
    then have "Suc i * B \<le> ?q * B" by (intro mult_le_mono1) simp
    then have "i * B + B \<le> length X" using len unfolding mult_Suc by linarith
    moreover have "(if i = block_count (length X) B - 1 then last_block_size (length X) B else B) \<le> B"
      using assms(1) by (simp add: last_block_size_def less_imp_le)
    ultimately show ?thesis by linarith
  next
    case False
    with assms(3) have "i = ?q" "?m \<noteq> 0" by (auto simp: block_count_def split: if_splits)
    with len show ?thesis by (simp add: block_count_def last_block_size_def)
  qed
  show "take (if i = block_count (length X) B - 1 then last_block_size (length X) B else B)
      (drop (i * B) X) = take B (drop (i * B) X)"
  proof (cases "i = block_count (length X) B - 1 \<and> ?m \<noteq> 0")
    case True
    then have "i = ?q" by (simp add: block_count_def)
    moreover have "length X - ?q * B = ?m" using len by linarith
    moreover have "?m < B" using assms(1) by simp
    ultimately show ?thesis using True by (simp add: last_block_size_def)
  next
    case False
    then show ?thesis by (auto simp: last_block_size_def)
  qed
qed

lemma hash_block_reference:
  assumes ab: "absorbs_blocks ab" and buf: "length (kc_buf c0) = sizeof_buf" and "L \<noteq> 0"
    and B: "0 < B" and X: "X \<noteq> []" and i: "i < block_count (length X) B"
  shows "hash_block ab sq c0 X B L i = Inr (Some (cSHAKE256 ab sq (take B (drop (i * B) X)) L [] []))"
proof -
  let ?len = "if i = block_count (length X) B - 1 then last_block_size (length X) B else B"
  note b = block_count_bounds [OF B X i]
  have "read_data (Some (drop (i * B) X), ?len) = Inr (take B (drop (i * B) X))"
    using b by (simp add: read_data_def)
  moreover have "read_data (None, 0) = Inr []" by (simp add: read_data_def)
  ultimately show ?thesis
    using cshake_ref_none [OF ab buf \<open>L \<noteq> 0\<close>] unfolding hash_block_def Let_def by simp
qed

text \<open>The combined input holds the four parts one after the other.\<close>

lemma put_next:
  "off = length xs \<Longrightarrow> length src \<le> k \<Longrightarrow>
    put off src (xs @ replicate k 0) = Inr (xs @ src @ replicate (k - length src) 0)"
  by (simp add: put_def copy_at_def)

lemma combined_size_eq:
  assumes "B < 2 ^ 64" and "L < 2 ^ 60" and "n * L < 2 ^ 60" and "n < 2 ^ 60"
  shows "combined_size B n L
    = length (left_encode B) + length (right_encode n) + length (right_encode (8 * L)) + n * L"
    and "LeftEncode (of_nat B) = left_encode B" and "RightEncode (of_nat n) = right_encode n"
    and "RightEncode (of_nat L * 8) = right_encode (8 * L)"
proof -
  show enc: "LeftEncode (of_nat B) = left_encode B" "RightEncode (of_nat n) = right_encode n"
    "RightEncode (of_nat L * 8) = right_encode (8 * L)"
    using LeftEncode_eq [of B] RightEncode_eq [of n] RightEncode_eq [of "8 * L"] assms
    by (simp_all add: mult.commute)
  have "length (right_encode k) = length (left_encode k)" for k
    by (simp add: left_encode_def right_encode_def be_bytes_def)
  then have "length (left_encode B) + length (right_encode n) + length (right_encode (8 * L)) + n * L < 2 ^ 64"
    using length_left_encode [of B] length_left_encode [of n] length_left_encode [of "8 * L"] assms by simp
  then show "combined_size B n L
    = length (left_encode B) + length (right_encode n) + length (right_encode (8 * L)) + n * L"
    unfolding combined_size_def enc by (rule unat_of_nat64)
qed

lemma fill_combined:
  assumes "length r = k" and "z = length b + length n + length l + k"
  shows "bind_res (put 0 b (replicate z 0)) (\<lambda>c. bind_res (put (length b) r c) (\<lambda>c.
      bind_res (put (length b + k) n c) (\<lambda>c. bind_res (put (length b + k + length n) l c) f)))
    = f (b @ r @ n @ l)"
proof -
  have 1: "put 0 b (replicate z 0) = Inr (b @ replicate (z - length b) 0)"
    using put_next [of 0 "[]" b z] assms by simp
  have 2: "put (length b) r (b @ replicate (z - length b) 0) = Inr ((b @ r) @ replicate (z - length b - k) 0)"
    using put_next [of "length b" b r "z - length b"] assms by simp
  have 3: "put (length b + k) n ((b @ r) @ replicate (z - length b - k) 0)
      = Inr ((b @ r @ n) @ replicate (z - length b - k - length n) 0)"
    using put_next [of "length b + k" "b @ r" n "z - length b - k"] assms by simp
  have 4: "put (length b + k + length n) l ((b @ r @ n) @ replicate (z - length b - k - length n) 0)
      = Inr (b @ r @ n @ l)"
    using put_next [of "length b + k + length n" "b @ r @ n" l "z - length b - k - length n"] assms
    by simp
  show ?thesis by (simp only: 1 2 3 4 bind_res_simps)
qed

lemma exit_frees:
  assumes "pool_inv p" and "\<And>k m. pool_ok p k m"
  shows "\<exists>p'. (case AllocatePool p x of (a, p) \<Rightarrow> case AllocatePool p y of (b, p) \<Rightarrow>
       case AllocatePool p z of (c, p) \<Rightarrow>
         if a = None \<or> b = None \<or> c = None then ph_exit a x c b None p else ph_exit a x c b r p)
    = Inr (r, p') \<and> pool_live p' = pool_live p"
  using assms by (auto simp: AllocatePool_def ph_exit_def FreePool_def pool_inv_def)

lemma block_count_pos: "X \<noteq> [] \<Longrightarrow> 0 < B \<Longrightarrow> 0 < block_count (length X) B"
  by (auto simp: block_count_def div_greater_zero_iff dest: dvd_imp_le)

lemma length_concat_const: "(\<And>x. x \<in> set xs \<Longrightarrow> length (f x) = k) \<Longrightarrow> length (concat (map f xs)) = length xs * k"
  by (induction xs) auto

text \<open>C10: When the waiting loop has ended, in whatever order the processors did the blocks,
  \<^verbatim>\<open>ParallelHash256HashAll\<close> returns ParallelHash of NIST SP 800-185 over block digests of
  \<open>L\<close> bytes (the standard has 64), and every allocation is freed. The customisation must not fill
  whole blocks of cSHAKE.\<close>

theorem parallel_hash_reference:
  assumes ab: "absorbs_blocks ab" and sq: "squeezes sq" and buf: "length (kc_buf c0) = sizeof_buf"
    and X: "X \<noteq> []" and B: "0 < B" "B < 2 ^ 64" and L: "L \<noteq> 0" "L < 2 ^ 60"
    and n: "n = block_count (length X) B" and size: "n * L < 2 ^ 60"
    and S: "read_data Sd = Inr S" "length S < 2 ^ 60"
      "length (cshake_header PARALLELHASH_CUSTOMIZATION S) mod 136 \<noteq> 0"
    and blocks: "\<And>i. i < n \<Longrightarrow> hash_block ab sq c0 X B L i = Inr (H i)"
    and run: "(ph_step H n)\<^sup>*\<^sup>* ph_start s" "ph_bsp s = BspExit"
    and pool: "pool_inv p" "\<And>k m. pool_ok p k m"
  shows "\<exists>p'. ParallelHash256HashAll ab sq c0 (\<lambda>i. the (ph_result s i)) p (Some X) B True L Sd
      = Inr (Some (ParallelHash_ref ab sq L X B L S), p') \<and> pool_live p' = pool_live p"
proof -
  let ?D = "\<lambda>i. cSHAKE256 ab sq (take B (drop (i * B) X)) L [] []"
  have "ph_result s i = Some (?D i)" if "i < n" for i
    using ph_inv_reachable [OF run(1)] run(2) blocks [OF that] that n
      hash_block_reference [OF ab buf L(1) B(1) X, of i sq]
    by (simp add: ph_inv_def results_ok_def pass_ok_def)
  then have res: "concat (map (\<lambda>i. the (ph_result s i)) [0..<n]) = concat (map ?D [0..<n])"
    by (intro arg_cong [of _ _ concat] map_cong) auto
  have npos: "0 < n" using block_count_pos [OF X B(1)] n by simp
  with L(1) have "n \<le> n * L" by simp
  with size have "n < 2 ^ 60" by linarith
  note sz = combined_size_eq [OF B(2) L(2) size this]
  have len: "length (concat (map ?D [0..<n])) = n * L"
    by (subst length_concat_const [where k = L]) (simp_all add: length_cSHAKE256 [OF sq])
  let ?c = "left_encode B @ concat (map ?D [0..<n]) @ right_encode n @ right_encode (8 * L)"
  have "read_data (as_data PARALLELHASH_CUSTOMIZATION) = Inr PARALLELHASH_CUSTOMIZATION"
    "length PARALLELHASH_CUSTOMIZATION < 2 ^ 60" "PARALLELHASH_CUSTOMIZATION \<noteq> []"
    by (simp_all add: PARALLELHASH_CUSTOMIZATION_def)
  note final = CShake256HashAll_reference [OF ab buf L(1) this(1,2) S(1,2) read_as_data, of sq ?c] this(3)
  have hash: "CShake256HashAll ab sq c0 (as_data ?c) L (as_data PARALLELHASH_CUSTOMIZATION) Sd True
    = Inr (Some (Some (ParallelHash_ref ab sq L X B L S)))"
    using final S(3) n by (simp add: ParallelHash_ref_def blocks_of_def comp_def)
  let ?z = "combined_size B n L"
  have fill: "bind_res (put 0 (left_encode B) (replicate ?z 0)) (\<lambda>c.
      bind_res (put (length (left_encode B)) (concat (map ?D [0..<n])) c) (\<lambda>c.
      bind_res (put (length (left_encode B) + n * L) (right_encode n) c) (\<lambda>c.
      bind_res (put (length (left_encode B) + n * L + length (right_encode n)) (right_encode (8 * L)) c) f)))
    = f ?c" for f :: "byte list \<Rightarrow> (byte list option \<times> pool) res"
    by (rule fill_combined [OF len sz(1)])
  have "snd Sd \<noteq> 0 \<Longrightarrow> fst Sd \<noteq> None" using read_data_length [OF S(1)] by simp
  then have "ParallelHash256HashAll ab sq c0 (\<lambda>i. the (ph_result s i)) p (Some X) B True L Sd
    = (case AllocatePool p ?z of (a, p) \<Rightarrow> case AllocatePool p n of (b, p) \<Rightarrow>
       case AllocatePool p (unat (of_nat n * 8 :: UINT64)) of (c, p) \<Rightarrow>
         if a = None \<or> b = None \<or> c = None then ph_exit a ?z c b None p
         else ph_exit a ?z c b (Some (ParallelHash_ref ab sq L X B L S)) p)"
    using X L B fill unfolding ParallelHash256HashAll_def Let_def
    by (auto simp: n [symmetric] sz(2-4) res hash split: prod.split)
  then show ?thesis using exit_frees [OF pool] by simp
qed

lemma parallel_header_short:
  "length (cshake_header PARALLELHASH_CUSTOMIZATION []) = 18"
  by (simp add: cshake_header_def encode_string_def left_encode_def be_bytes_def nbytes.simps
      PARALLELHASH_CUSTOMIZATION_def)

theorem parallel_hash_reference_witness:
  "\<exists>s p'. (ph_step (\<lambda>i. Some (cSHAKE256 list_absorb list_squeeze (take 2 (drop (i * 2) [1, 2, 3, 4, 5])) 4 [] []))
        3)\<^sup>*\<^sup>* ph_start s \<and> ph_bsp s = BspExit
    \<and> ParallelHash256HashAll list_absorb list_squeeze blank_ctx (\<lambda>i. the (ph_result s i))
        (empty_pool (\<lambda>_ _. True)) (Some [1, 2, 3, 4, 5]) 2 True 4 (None, 0)
      = Inr (Some (ParallelHash_ref list_absorb list_squeeze 4 [1, 2, 3, 4, 5] 2 4 []), p')"
proof -
  let ?X = "[1, 2, 3, 4, 5] :: byte list"
  let ?H = "\<lambda>i. Some (cSHAKE256 list_absorb list_squeeze (take 2 (drop (i * 2) ?X)) 4 [] [])"
  from ph_finishes [OF ph_inv_start, of 3 ?H] obtain s where
    s: "(ph_step ?H 3)\<^sup>*\<^sup>* ph_start s" "ph_bsp s = BspExit" by auto
  have n: "3 = block_count (length ?X) 2" by (simp add: block_count_def)
  have blocks: "hash_block list_absorb list_squeeze blank_ctx ?X 2 4 i = Inr (?H i)" if "i < 3" for i
    by (rule hash_block_reference [OF list_absorb_blocks blank_ctx_buf]) (use that n in simp_all)
  have "\<exists>p'. ParallelHash256HashAll list_absorb list_squeeze blank_ctx (\<lambda>i. the (ph_result s i))
        (empty_pool (\<lambda>_ _. True)) (Some ?X) 2 True 4 (None, 0)
      = Inr (Some (ParallelHash_ref list_absorb list_squeeze 4 ?X 2 4 []), p')
    \<and> pool_live p' = pool_live (empty_pool (\<lambda>_ _. True))"
    by (rule parallel_hash_reference [OF list_absorb_blocks list_squeezes blank_ctx_buf _ _ _ _ _ n _ _ _ _
          blocks s])
      (simp_all add: read_data_def parallel_header_short empty_pool_def pool_inv_def)
  with s show ?thesis by blast
qed

text \<open>Out of memory. When the combined input cannot be allocated, the exit path clears a NULL
  buffer; when it can be and one of the other two blocks cannot, the function returns FALSE
  and frees what it has.\<close>

theorem parallel_hash_oom:
  assumes "X \<noteq> []" and B: "0 < B" "B < 2 ^ 64" and L: "L \<noteq> 0" "L < 2 ^ 60"
    and n: "n = block_count (length X) B" and size: "n * L < 2 ^ 60"
    and "snd Sd \<noteq> 0 \<longrightarrow> fst Sd \<noteq> None" and pool: "pool_inv p"
    and fails: "\<not> pool_ok p (pool_next p) (combined_size B n L)
      \<or> \<not> pool_ok p (pool_next p + 1) n \<or> \<not> pool_ok p (pool_next p + 2) (unat (of_nat n * 8 :: UINT64))"
  shows "if pool_ok p (pool_next p) (combined_size B n L)
    then \<exists>p'. ParallelHash256HashAll ab sq c0 R p (Some X) B True L Sd = Inr (None, p')
      \<and> pool_live p' = pool_live p
    else ParallelHash256HashAll ab sq c0 R p (Some X) B True L Sd = Inl NullDeref"
proof -
  have "0 < n" using block_count_pos assms(1) B(1) n by simp
  with L(1) have "n \<le> n * L" by simp
  with size have "n < 2 ^ 60" by linarith
  from combined_size_eq(1) [OF B(2) L(2) size this] have "combined_size B n L \<noteq> 0"
    by (simp add: left_encode_def)
  then show ?thesis
    using assms(1,8) B L fails pool unfolding ParallelHash256HashAll_def Let_def n [symmetric]
    by (auto simp: n [symmetric] AllocatePool_def ph_exit_def FreePool_def pool_inv_def)
qed

theorem parallel_hash_oom_witness:
  "ParallelHash256HashAll list_absorb list_squeeze blank_ctx (\<lambda>_. []) (empty_pool (\<lambda>_ _. False))
     (Some [1, 2, 3, 4, 5]) 2 True 4 (None, 0) = Inl NullDeref"
proof -
  have n: "3 = block_count (length ([1, 2, 3, 4, 5] :: byte list)) 2" by (simp add: block_count_def)
  from parallel_hash_oom [OF _ _ _ _ _ n, of 4 "(None, 0)" "empty_pool (\<lambda>_ _. False)" list_absorb
      list_squeeze blank_ctx "\<lambda>_. []"]
  show ?thesis by (simp add: empty_pool_def pool_inv_def)
qed

end
