(* ===== verification/CrtTime.thy ===== *)
theory CrtTime
  imports CrtDeps "HOL-Library.Signed_Division"
begin

text \<open>
  The time functions of the C run time: \<^verbatim>\<open>SysCall/TimerWrapper.c\<close> of the OpenSSL and of the
  MbedTLS library.

  \<^item> \<^verbatim>\<open>time_t\<close> is \<^verbatim>\<open>INT64\<close>: a word, read as signed.
  \<^item> \<^verbatim>\<open>DivS64x64Remainder\<close> of BaseLib is a parameter, a \<open>division\<close>: dividend and divisor to
    quotient and remainder, all \<^verbatim>\<open>INT64\<close>.
  \<^item> The allocation of \<^verbatim>\<open>gmtime\<close> (\<^verbatim>\<open>malloc\<close> there, \<^verbatim>\<open>AllocateZeroPool\<close> in the MbedTLS library)
    is a parameter over the state of the allocator.
  \<^item> A clock reading is taken from \<open>LibGetTime\<close>, the dependency table of the host; the contents
    of the uninitialised \<^verbatim>\<open>EFI_TIME\<close> variable are an argument.
\<close>

section \<open>Tables\<close>

definition SECSPERMIN :: nat where "SECSPERMIN = 60"
definition SECSPERHOUR :: nat where "SECSPERHOUR = 60 * 60"
definition SECSPERDAY :: nat where "SECSPERDAY = 24 * SECSPERHOUR"

definition CumulativeDays :: "bool \<Rightarrow> nat list" where
  "CumulativeDays leap =
    (if \<not> leap then
       [0,
        0,
        31,
        31 + 28,
        31 + 28 + 31,
        31 + 28 + 31 + 30,
        31 + 28 + 31 + 30 + 31,
        31 + 28 + 31 + 30 + 31 + 30,
        31 + 28 + 31 + 30 + 31 + 30 + 31,
        31 + 28 + 31 + 30 + 31 + 30 + 31 + 31,
        31 + 28 + 31 + 30 + 31 + 30 + 31 + 31 + 30,
        31 + 28 + 31 + 30 + 31 + 30 + 31 + 31 + 30 + 31,
        31 + 28 + 31 + 30 + 31 + 30 + 31 + 31 + 30 + 31 + 30,
        31 + 28 + 31 + 30 + 31 + 30 + 31 + 31 + 30 + 31 + 30 + 31]
     else
       [0,
        0,
        31,
        31 + 29,
        31 + 29 + 31,
        31 + 29 + 31 + 30,
        31 + 29 + 31 + 30 + 31,
        31 + 29 + 31 + 30 + 31 + 30,
        31 + 29 + 31 + 30 + 31 + 30 + 31,
        31 + 29 + 31 + 30 + 31 + 30 + 31 + 31,
        31 + 29 + 31 + 30 + 31 + 30 + 31 + 31 + 30,
        31 + 29 + 31 + 30 + 31 + 30 + 31 + 31 + 30 + 31,
        31 + 29 + 31 + 30 + 31 + 30 + 31 + 31 + 30 + 31 + 30,
        31 + 29 + 31 + 30 + 31 + 30 + 31 + 31 + 30 + 31 + 30 + 31])"

type_synonym division = "UINT64 \<Rightarrow> UINT64 \<Rightarrow> UINT64 \<times> UINT64"

definition IsLeap :: "division \<Rightarrow> UINT64 \<Rightarrow> bool" where
  "IsLeap DivS64x64Remainder timer =
    (let Remainder1 = snd (DivS64x64Remainder timer 4);
         Remainder2 = snd (DivS64x64Remainder timer 100);
         Remainder3 = snd (DivS64x64Remainder timer 400)
     in Remainder1 = 0 \<and> (Remainder2 \<noteq> 0 \<or> Remainder3 = 0))"

text \<open>The macro of the MbedTLS library, on the years that occur there (not negative).\<close>

definition Mbed_IsLeap :: "UINT64 \<Rightarrow> bool" where
  "Mbed_IsLeap y \<longleftrightarrow> y mod 4 = 0 \<and> (y mod 100 \<noteq> 0 \<or> y mod 400 = 0)"

section \<open>From a date to seconds\<close>

definition EFI_UNSPECIFIED_TIMEZONE :: UINT16 where "EFI_UNSPECIFIED_TIMEZONE = 0x07FF"

text \<open>\<^verbatim>\<open>Year != Time->Year\<close>: the loop also comes to an end, after a wrap, for a year before 1970.\<close>

function calc_years :: "(UINT64 \<Rightarrow> bool) \<Rightarrow> UINT64 \<Rightarrow> UINT64 \<Rightarrow> UINT64 \<Rightarrow> UINT64" where
  "calc_years leap TimeYear Year CalTime =
    (if Year \<noteq> TimeYear then
       calc_years leap TimeYear (Year + 1)
         (CalTime + of_nat (CumulativeDays (leap Year) ! 13 * SECSPERDAY))
     else CalTime)"
  by pat_completeness auto
termination
proof (relation "measure (\<lambda>(l, t, y, c). unat (t - y))", goal_cases)
  case (2 leap t y c)
  then have "t - y \<noteq> 0" by simp
  then have "unat (t - y - 1) < unat (t - y)" by (simp add: unat_minus_one unat_gt_0)
  then show ?case by (simp add: algebra_simps)
qed simp

declare calc_years.simps [simp del]

definition calc_time :: "(UINT64 \<Rightarrow> bool) \<Rightarrow> EFI_TIME \<Rightarrow> UINT64 res" where
  "calc_time leap Time =
    (let CalTime = calc_years leap (ucast (et_Year Time)) 1970 0;
         row = CumulativeDays (leap (ucast (et_Year Time)))
     in if unat (et_Month Time) \<ge> length row then Inl OobRead
        else Inr (CalTime
          + of_int (if et_TimeZone Time \<noteq> EFI_UNSPECIFIED_TIMEZONE then sint (et_TimeZone Time) * 60 else 0)
          + of_nat (row ! unat (et_Month Time) * SECSPERDAY)
          + of_nat ((if et_Day Time > 0 then unat (et_Day Time) - 1 else 0) * SECSPERDAY)
          + of_nat (unat (et_Hour Time) * SECSPERHOUR)
          + of_nat (unat (et_Minute Time) * 60)
          + of_nat (unat (et_Second Time))))"

definition CalculateTimeT :: "division \<Rightarrow> EFI_TIME \<Rightarrow> UINT64 res" where
  "CalculateTimeT d Time = calc_time (IsLeap d) Time"

text \<open>The result, the value written to \<^verbatim>\<open>*timer\<close> if one is written, and the host.\<close>

definition clock_seconds ::
    "(EFI_TIME \<Rightarrow> UINT64 res) \<Rightarrow> 'w deps option \<Rightarrow> EFI_TIME \<Rightarrow> 'w
     \<Rightarrow> (UINT64 \<times> EFI_TIME option \<times> 'w) res" where
  "clock_seconds calculate m junk w =
    (case LibGetTime m (Some junk) w of
       (Status, Time, w) \<Rightarrow>
         let T = case_option junk id Time
         in if EFI_ERROR Status \<or> et_Year T < 1970 then Inr (0, None, w)
            else map_sum id (\<lambda>CalTime. (CalTime, Some T, w)) (calculate T))"

definition time ::
    "division \<Rightarrow> 'w deps option \<Rightarrow> EFI_TIME \<Rightarrow> bool \<Rightarrow> 'w \<Rightarrow> (UINT64 \<times> UINT64 option \<times> 'w) res" where
  "time d m junk timer w =
    map_sum id (\<lambda>(CalTime, T, w). (CalTime, if timer \<and> T \<noteq> None then Some CalTime else None, w))
      (clock_seconds (CalculateTimeT d) m junk w)"

definition Mbed_time ::
    "'w deps option \<Rightarrow> EFI_TIME \<Rightarrow> bool \<Rightarrow> 'w \<Rightarrow> (UINT64 \<times> UINT64 option \<times> 'w) res" where
  "Mbed_time m junk timer w =
    map_sum id (\<lambda>(CalTime, T, w). (CalTime, if timer \<and> T \<noteq> None then Some CalTime else None, w))
      (clock_seconds (calc_time Mbed_IsLeap) m junk w)"

definition mbedtls_ms_time :: "'w deps option \<Rightarrow> EFI_TIME \<Rightarrow> 'w \<Rightarrow> (UINT64 \<times> 'w) res" where
  "mbedtls_ms_time m junk w =
    map_sum id (\<lambda>(CalTime, T, w).
        (case T of None \<Rightarrow> (0, w)
         | Some t \<Rightarrow> (CalTime * 1000 + of_nat (unat (et_Nanosecond t) div 1000000), w)))
      (clock_seconds (calc_time Mbed_IsLeap) m junk w)"

section \<open>From seconds to a date\<close>

record tm =
  tm_sec :: int
  tm_min :: int
  tm_hour :: int
  tm_mday :: int
  tm_mon :: int
  tm_year :: int
  tm_wday :: int
  tm_yday :: int
  tm_isdst :: int
  tm_gmtoff :: int
  tm_zone :: ptr

text \<open>The cast \<^verbatim>\<open>(int)\<close>.\<close>

definition c_int :: "UINT64 \<Rightarrow> int" where
  "c_int x = sint (ucast x :: UINT32)"

text \<open>
  The two loops of \<^verbatim>\<open>gmtime\<close>. The day number is a natural number: it is only decreased by what
  it was compared with.
\<close>

function gm_years :: "(UINT64 \<Rightarrow> bool) \<Rightarrow> nat \<Rightarrow> UINT64 \<Rightarrow> UINT64 \<Rightarrow> nat \<times> UINT64 \<times> UINT64" where
  "gm_years leap DayNo Year YearNo =
    (if DayNo > 0 then
       (let TotalDays = (if leap Year then 366 else 365)
        in if DayNo \<ge> TotalDays then gm_years leap (DayNo - TotalDays) (Year + 1) (YearNo + 1)
           else (DayNo, Year, YearNo))
     else (DayNo, Year, YearNo))"
  by pat_completeness auto
termination by (relation "measure (\<lambda>(l, n, y, k). n)") (auto split: if_splits)

declare gm_years.simps [simp del]

fun gm_month :: "bool \<Rightarrow> nat \<Rightarrow> nat \<Rightarrow> nat \<times> nat" where
  "gm_month leap DayNo MonthNo =
    (if MonthNo > 1 then
       (if DayNo \<ge> CumulativeDays leap ! MonthNo then (DayNo - CumulativeDays leap ! MonthNo, MonthNo)
        else gm_month leap DayNo (MonthNo - 1))
     else (DayNo, MonthNo))"

declare gm_month.simps [simp del]

text \<open>The fields that come from the day number.\<close>

definition gm_date :: "(UINT64 \<Rightarrow> bool) \<Rightarrow> nat \<Rightarrow> tm \<Rightarrow> tm" where
  "gm_date leap DayNo GmTime =
    (case gm_years leap DayNo 1970 0 of
       (DayNo, Year, YearNo) \<Rightarrow>
         let GmTime = GmTime\<lparr>tm_year := c_int (YearNo + (1970 - 1900)), tm_yday := c_int (of_nat DayNo)\<rparr>
         in case gm_month (leap Year) DayNo 12 of
              (DayNo, MonthNo) \<Rightarrow>
                GmTime\<lparr>tm_mon := int MonthNo - 1, tm_mday := c_int (of_nat DayNo) + 1,
                       tm_isdst := 0, tm_gmtoff := 0, tm_zone := 0\<rparr>)"

definition zero_tm :: tm where
  "zero_tm = \<lparr>tm_sec = 0, tm_min = 0, tm_hour = 0, tm_mday = 0, tm_mon = 0, tm_year = 0,
     tm_wday = 0, tm_yday = 0, tm_isdst = 0, tm_gmtoff = 0, tm_zone = 0\<rparr>"

text \<open>\<open>timer\<close>: \<open>None\<close> for NULL.\<close>

definition gmtime ::
    "division \<Rightarrow> ('s \<Rightarrow> 'p option \<times> 's) \<Rightarrow> 's \<Rightarrow> UINT64 option \<Rightarrow> ('p \<times> tm) option \<times> 's" where
  "gmtime div64 alloc s timer =
    (case timer of
       None \<Rightarrow> (None, s)
     | Some t \<Rightarrow>
         (case alloc s of
            (None, s) \<Rightarrow> (None, s)
          | (Some p, s) \<Rightarrow>
              (case div64 t (of_nat SECSPERDAY) of
                 (DayNo, DayRemainder) \<Rightarrow>
                   (Some (p, gm_date (IsLeap div64) (unat DayNo)
                      (zero_tm\<lparr>tm_sec := c_int (snd (div64 DayRemainder (of_nat SECSPERMIN))),
                         tm_min := c_int (fst (div64 (snd (div64 DayRemainder (of_nat SECSPERHOUR)))
                                                 (of_nat SECSPERMIN))),
                         tm_hour := c_int (fst (div64 DayRemainder (of_nat SECSPERHOUR))),
                         tm_wday := c_int (snd (div64 (DayNo + 4) 7))\<rparr>)), s))))"

text \<open>The copy of the MbedTLS library keeps the day and the second of the day in 16 bits.\<close>

definition Mbed_gmtime ::
    "('s \<Rightarrow> 'p option \<times> 's) \<Rightarrow> 's \<Rightarrow> UINT64 option \<Rightarrow> ('p \<times> tm) option \<times> 's" where
  "Mbed_gmtime alloc s timer =
    (case timer of
       None \<Rightarrow> (None, s)
     | Some t \<Rightarrow>
         (case alloc s of
            (None, s) \<Rightarrow> (None, s)
          | (Some p, s) \<Rightarrow>
              let DayNo = of_int (sint t sdiv int SECSPERDAY) :: UINT16;
                  DayRemainder = of_int (sint t smod int SECSPERDAY) :: UINT16
              in (Some (p, gm_date Mbed_IsLeap (unat DayNo)
                   (zero_tm\<lparr>tm_sec := int (unat DayRemainder mod SECSPERMIN),
                      tm_min := int (unat DayRemainder mod SECSPERHOUR div SECSPERMIN),
                      tm_hour := int (unat DayRemainder div SECSPERHOUR),
                      tm_wday := int ((unat DayNo + 4) mod 7)\<rparr>)), s)))"

section \<open>The other functions\<close>

definition mktime :: "division \<Rightarrow> tm \<Rightarrow> UINT64 res" where
  "mktime d t = CalculateTimeT d
    \<lparr>et_Year = of_int (tm_year t), et_Month = of_int (tm_mon t), et_Day = of_int (tm_mday t),
     et_Hour = of_int (tm_hour t), et_Minute = of_int (tm_min t), et_Second = of_int (tm_sec t),
     et_Nanosecond = 0, et_TimeZone = EFI_UNSPECIFIED_TIMEZONE, et_Daylight = 0\<rparr>"

text \<open>The product is computed in \<^verbatim>\<open>unsigned int\<close>.\<close>

definition sleep :: "'w deps option \<Rightarrow> UINT32 \<Rightarrow> 'w \<Rightarrow> nat \<times> 'w" where
  "sleep m seconds w = (0, snd (MicroSecondDelay m (unat (seconds * 1000 * 1000)) w))"

record timeval =
  tv_sec :: UINT64
  tv_usec :: UINT64

text \<open>\<^verbatim>\<open>long\<close> has 64 bits.\<close>

definition gettimeofday ::
    "division \<Rightarrow> 'w deps option \<Rightarrow> EFI_TIME \<Rightarrow> 'w \<Rightarrow> (int \<times> timeval \<times> 'w) res" where
  "gettimeofday d m junk w =
    map_sum id (\<lambda>(t, _, w). (0, \<lparr>tv_sec = t, tv_usec = 0\<rparr>, w)) (time d m junk False w)"

end
