(* ===== verification/CrtTimeProps.thy ===== *)
theory CrtTimeProps
  imports CrtTime
begin

text \<open>
  The time functions against the Gregorian calendar, which is defined here on natural numbers by
  the number of days before a year and the lengths of the months.
\<close>

section \<open>The calendar\<close>

definition gregorian_leap :: "nat \<Rightarrow> bool" where
  "gregorian_leap y \<longleftrightarrow> y mod 4 = 0 \<and> (y mod 100 \<noteq> 0 \<or> y mod 400 = 0)"

definition month_lengths :: "bool \<Rightarrow> nat list" where
  "month_lengths leap = [31, if leap then 29 else 28, 31, 30, 31, 30, 31, 31, 30, 31, 30, 31]"

text \<open>The days since 1 January 1, a Monday.\<close>

definition days_before :: "nat \<Rightarrow> nat" where
  "days_before y = 365 * (y - 1) + (y - 1) div 4 + (y - 1) div 400 - (y - 1) div 100"

definition day_of_year :: "nat \<Rightarrow> nat \<Rightarrow> nat \<Rightarrow> nat" where
  "day_of_year y m d = sum_list (take (m - 1) (month_lengths (gregorian_leap y))) + d - 1"

definition valid_date :: "nat \<Rightarrow> nat \<Rightarrow> nat \<Rightarrow> bool" where
  "valid_date y m d \<longleftrightarrow>
    1 \<le> y \<and> 1 \<le> m \<and> m \<le> 12 \<and> 1 \<le> d \<and> d \<le> month_lengths (gregorian_leap y) ! (m - 1)"

definition day_number :: "nat \<Rightarrow> nat \<Rightarrow> nat \<Rightarrow> nat" where
  "day_number y m d = days_before y + day_of_year y m d"

text \<open>Seconds since the beginning of 1970; the day of the week counts from Sunday.\<close>

definition epoch_seconds :: "nat \<Rightarrow> nat \<Rightarrow> nat \<Rightarrow> nat \<Rightarrow> nat \<Rightarrow> nat \<Rightarrow> nat" where
  "epoch_seconds y m d h mi s =
    86400 * (day_number y m d - day_number 1970 1 1) + 3600 * h + 60 * mi + s"

definition weekday :: "nat \<Rightarrow> nat \<Rightarrow> nat \<Rightarrow> nat" where
  "weekday y m d = (day_number y m d + 1) mod 7"

lemma leap_step:
  fixes a b c K :: nat
  assumes "c \<le> a" and "r100 \<Longrightarrow> r4" and "r400 \<Longrightarrow> r100"
  shows "365 + K + (a + (if r4 then 1 else 0)) + (b + (if r400 then 1 else 0))
      - (c + (if r100 then 1 else 0))
    = K + a + b - c + (if r4 \<and> (\<not> r100 \<or> r400) then 366 else 365)"
  using assms by (cases r4; cases r100; cases r400) auto

lemma days_before_Suc:
  assumes "1 \<le> y"
  shows "days_before (Suc y) = days_before y + (if gregorian_leap y then 366 else 365)"
proof -
  from assms obtain k where y: "y = Suc k" by (cases y) auto
  have le: "k div 100 \<le> k div 4" by (rule div_le_mono2) simp_all
  have m: "Suc k mod 4 = 0" if "Suc k mod 100 = 0" using that by (auto simp: dvd_def mod_eq_0_iff_dvd)
  have m': "Suc k mod 100 = 0" if "Suc k mod 400 = 0"
    using that by (auto simp: dvd_def mod_eq_0_iff_dvd)
  have "days_before (Suc y) = 365 + 365 * k
      + (k div 4 + (if Suc k mod 4 = 0 then 1 else 0)) + (k div 400 + (if Suc k mod 400 = 0 then 1 else 0))
      - (k div 100 + (if Suc k mod 100 = 0 then 1 else 0))"
    by (simp add: y days_before_def div_Suc)
  also have "\<dots> = 365 * k + k div 4 + k div 400 - k div 100
      + (if Suc k mod 4 = 0 \<and> (Suc k mod 100 \<noteq> 0 \<or> Suc k mod 400 = 0) then 366 else 365)"
    by (rule leap_step [OF le m m'])
  also have "365 * k + k div 4 + k div 400 - k div 100 = days_before y"
    by (simp add: y days_before_def)
  finally show ?thesis by (simp only: gregorian_leap_def y)
qed

lemma days_before_1970: "days_before 1970 = 719162"
  by (simp add: days_before_def)

lemma days_before_mono: "1970 \<le> y \<Longrightarrow> 719162 + 365 * (y - 1970) \<le> days_before y"
proof (induction y rule: nat_induct_at_least)
  case (Suc y)
  have "Suc y - 1970 = Suc (y - 1970)" using Suc.hyps by simp
  moreover have "365 \<le> (if gregorian_leap y then 366 else 365 :: nat)" by simp
  ultimately show ?case using Suc days_before_Suc [of y] by linarith
qed (simp add: days_before_def)

lemma day_number_epoch: "day_number 1970 1 1 = 719162"
  by (simp add: day_number_def day_of_year_def days_before_1970)

text \<open>The cumulative table is the table of month lengths.\<close>

lemma CumulativeDays_months:
  "1 \<le> m \<Longrightarrow> m \<le> 13 \<Longrightarrow> CumulativeDays l ! m = sum_list (take (m - 1) (month_lengths l))"
proof -
  have "\<forall>m \<in> set [1..<14]. CumulativeDays l ! m = sum_list (take (m - 1) (month_lengths l))"
    by (cases l) (simp_all add: CumulativeDays_def month_lengths_def upt_rec)
  then show "1 \<le> m \<Longrightarrow> m \<le> 13 \<Longrightarrow> ?thesis" by simp
qed

lemma CumulativeDays_year: "CumulativeDays l ! 13 = (if l then 366 else 365)"
  by (simp add: CumulativeDays_def)

section \<open>Leap years\<close>

text \<open>What is used of \<^verbatim>\<open>DivS64x64Remainder\<close>: division of operands that are not negative.\<close>

definition divides64 :: "division \<Rightarrow> bool" where
  "divides64 d \<longleftrightarrow> (\<forall>a b. unat a < 2 ^ 63 \<longrightarrow> unat b < 2 ^ 63 \<longrightarrow> b \<noteq> 0 \<longrightarrow> d a b = (a div b, a mod b))"

lemma divides64D: "divides64 d \<Longrightarrow> unat a < 2 ^ 63 \<Longrightarrow> unat b < 2 ^ 63 \<Longrightarrow> b \<noteq> 0 \<Longrightarrow> d a b = (a div b, a mod b)"
  by (simp add: divides64_def)

definition leap_ok :: "(UINT64 \<Rightarrow> bool) \<Rightarrow> bool" where
  "leap_ok leap \<longleftrightarrow> (\<forall>y. unat y < 2 ^ 63 \<longrightarrow> leap y = gregorian_leap (unat y))"

lemma word_mod_zero: "(y :: UINT64) mod b = 0 \<longleftrightarrow> unat y mod unat b = 0"
  by (simp add: unat_eq_0 [symmetric] unat_mod)

lemma Mbed_IsLeap_ok: "leap_ok Mbed_IsLeap"
  by (simp add: leap_ok_def Mbed_IsLeap_def gregorian_leap_def word_mod_zero)

lemma IsLeap_ok: "divides64 d \<Longrightarrow> leap_ok (IsLeap d)"
  by (auto simp: leap_ok_def IsLeap_def gregorian_leap_def word_mod_zero divides64D)

section \<open>gmtime\<close>

lemma gm_years_spec:
  "leap_ok leap \<Longrightarrow> 1970 \<le> unat Year \<Longrightarrow> unat Year + DayNo < 2 ^ 63 \<Longrightarrow> gm_years leap DayNo Year YearNo = (D, Y, N) \<Longrightarrow>
    unat Year \<le> unat Y \<and> unat Y < 2 ^ 63 \<and> N = YearNo + (Y - Year)
    \<and> days_before (unat Y) + D = days_before (unat Year) + DayNo
    \<and> D < (if gregorian_leap (unat Y) then 366 else 365)"
proof (induction leap DayNo Year YearNo arbitrary: D Y N rule: gm_years.induct)
  case (1 leap DayNo Year YearNo)
  let ?T = "if gregorian_leap (unat Year) then 366 else 365 :: nat"
  have leap: "leap Year = gregorian_leap (unat Year)" using "1.prems"(1,3) by (simp add: leap_ok_def)
  have Suc: "unat (Year + 1) = Suc (unat Year)" using unat_add_ptr [of Year 1] "1.prems"(3) by simp
  show ?case
  proof (cases "0 < DayNo \<and> ?T \<le> DayNo")
    case False
    with "1.prems" leap show ?thesis by (subst (asm) gm_years.simps) (auto simp: Let_def split: if_splits)
  next
    case True
    have "gm_years leap (DayNo - ?T) (Year + 1) (YearNo + 1) = (D, Y, N)"
      using "1.prems"(4) True leap by (subst (asm) gm_years.simps) (simp add: Let_def)
    moreover have "1970 \<le> unat (Year + 1)" "unat (Year + 1) + (DayNo - ?T) < 2 ^ 63"
      using Suc "1.prems"(2,3) True by (auto split: if_splits)
    moreover have "?T = (if leap Year then 366 else 365)" using leap by (simp only:)
    ultimately have "unat (Year + 1) \<le> unat Y \<and> unat Y < 2 ^ 63 \<and> N = (YearNo + 1) + (Y - (Year + 1))
      \<and> days_before (unat Y) + D = days_before (unat (Year + 1)) + (DayNo - ?T)
      \<and> D < (if gregorian_leap (unat Y) then 366 else 365)"
      using "1.IH" [of ?T D Y N] True "1.prems"(1) by blast
    then show ?thesis using True Suc days_before_Suc [of "unat Year"] "1.prems"(2) by simp
  qed
qed

lemma CumulativeDays_next:
  "1 \<le> m \<Longrightarrow> m \<le> 12 \<Longrightarrow> CumulativeDays l ! Suc m = CumulativeDays l ! m + month_lengths l ! (m - 1)"
proof -
  have "\<forall>m \<in> set [1..<13]. CumulativeDays l ! Suc m = CumulativeDays l ! m + month_lengths l ! (m - 1)"
    by (cases l) (simp_all add: CumulativeDays_def month_lengths_def upt_rec)
  then show "1 \<le> m \<Longrightarrow> m \<le> 12 \<Longrightarrow> ?thesis" by simp
qed

lemma gm_month_spec:
  "1 \<le> n \<Longrightarrow> n \<le> 12 \<Longrightarrow> D < CumulativeDays l ! Suc n \<Longrightarrow> gm_month l D n = (d, m) \<Longrightarrow>
    1 \<le> m \<and> m \<le> n \<and> CumulativeDays l ! m + d = D \<and> D < CumulativeDays l ! Suc m"
proof (induction l D n rule: gm_month.induct)
  case (1 l D n)
  show ?case
  proof (cases "1 < n \<and> D < CumulativeDays l ! n")
    case True
    with "1.prems" have "gm_month l D (n - 1) = (d, m)" by (subst (asm) gm_month.simps) simp
    moreover have "1 \<le> n - 1" "n - 1 \<le> 12" "Suc (n - 1) = n" using True "1.prems"(2) by linarith+
    ultimately show ?thesis using "1.IH" True by fastforce
  next
    case False
    have "CumulativeDays l ! 1 = 0" by (simp add: CumulativeDays_def)
    with False "1.prems" show ?thesis
      by (subst (asm) gm_month.simps) (auto split: if_splits simp: le_Suc_eq)
  qed
qed

text \<open>The broken-down time of a date, as the C standard describes \<^verbatim>\<open>struct tm\<close>.\<close>

definition tm_of :: "nat \<Rightarrow> nat \<Rightarrow> nat \<Rightarrow> nat \<Rightarrow> nat \<Rightarrow> nat \<Rightarrow> tm" where
  "tm_of y m d h mi s = \<lparr>tm_sec = int s, tm_min = int mi, tm_hour = int h, tm_mday = int d,
     tm_mon = int m - 1, tm_year = int y - 1900, tm_wday = int (weekday y m d),
     tm_yday = int (day_of_year y m d), tm_isdst = 0, tm_gmtoff = 0, tm_zone = 0\<rparr>"

lemma c_int_small: "n < 2 ^ 31 \<Longrightarrow> c_int (of_nat n) = int n"
  by (simp add: c_int_def unsigned_of_nat signed_of_nat signed_take_bit_int_eq_self
      take_bit_nat_eq_self)

lemma gm_date_spec:
  assumes "leap_ok leap" and "DayNo < 2 ^ 39"
  shows "\<exists>y m d. valid_date y m d \<and> 1970 \<le> y \<and> y < 2 ^ 31 \<and> day_number y m d = 719162 + DayNo
    \<and> gm_date leap DayNo tm0 = (tm_of y m d 0 0 0)
        \<lparr>tm_sec := tm_sec tm0, tm_min := tm_min tm0, tm_hour := tm_hour tm0, tm_wday := tm_wday tm0\<rparr>"
proof -
  obtain D Y N where years: "gm_years leap DayNo 1970 0 = (D, Y, N)" by (metis prod.exhaust)
  from gm_years_spec [OF assms(1) _ _ years] assms(2) have
    Y: "1970 \<le> unat Y" "unat Y < 2 ^ 63" "N = Y - 1970" "days_before (unat Y) + D = 719162 + DayNo"
      "D < (if gregorian_leap (unat Y) then 366 else 365)" by (simp_all add: days_before_1970)
  define y where "y = unat Y"
  with Y(1,4) days_before_mono [of y] assms(2) have y: "y < 2 ^ 31" by simp
  have leap: "leap Y = gregorian_leap y" using assms(1) Y(2) by (simp add: leap_ok_def y_def)
  obtain d m where month: "gm_month (gregorian_leap y) D 12 = (d, m)" by (metis prod.exhaust)
  from gm_month_spec [OF _ _ _ month] Y(5) have
    m: "1 \<le> m" "m \<le> 12" "CumulativeDays (gregorian_leap y) ! m + d = D"
      "D < CumulativeDays (gregorian_leap y) ! Suc m" by (simp_all add: CumulativeDays_year y_def)
  have d: "d < month_lengths (gregorian_leap y) ! (m - 1)"
    using CumulativeDays_next [OF m(1,2)] m(3,4) by (simp only:)
  have doy: "day_of_year y m (d + 1) = D"
    using m CumulativeDays_months [of m "gregorian_leap y"] by (simp add: day_of_year_def)
  have "N + 70 = Y - 1900" using Y(3) by simp
  also have "\<dots> = of_nat (y - 1900)" using Y(1) by (simp add: y_def of_nat_diff)
  finally have "c_int (N + 70) = int (y - 1900)" using c_int_small [of "y - 1900"] y by simp
  then have year: "c_int (N + 70) = int y - 1900" using Y(1) by (simp add: y_def of_nat_diff)
  have "D < 366" using Y(5) by (auto split: if_splits)
  with m(3) have "c_int (of_nat D) = int D" "c_int (of_nat d) = int d" by (simp_all add: c_int_small)
  then have "gm_date leap DayNo tm0 = (tm_of y m (d + 1) 0 0 0)
        \<lparr>tm_sec := tm_sec tm0, tm_min := tm_min tm0, tm_hour := tm_hour tm0, tm_wday := tm_wday tm0\<rparr>"
    using year doy by (simp add: gm_date_def years leap month tm_of_def)
  moreover have "valid_date y m (d + 1)" using Y(1) m d by (simp add: valid_date_def y_def)
  moreover have "day_number y m (d + 1) = 719162 + DayNo" using Y(4) doy by (simp add: day_number_def y_def)
  ultimately show ?thesis using Y(1) y by (intro exI [of _ y] exI [of _ m] exI [of _ "d + 1"]) (simp add: y_def)
qed

lemma c_int_unat: "unat w < 2 ^ 31 \<Longrightarrow> c_int w = int (unat w)"
  using c_int_small [of "unat w"] by simp

text \<open>The time of day, from the second of the day.\<close>

lemma gmtime_fields:
  assumes d: "divides64 d" and "alloc s = (Some p, s')" and t: "unat t < 2 ^ 55"
  shows "gmtime d alloc s (Some t) = (Some (p, gm_date (IsLeap d) (unat t div 86400)
      (zero_tm\<lparr>tm_sec := int (unat t mod 86400 mod 60), tm_min := int (unat t mod 86400 mod 3600 div 60),
         tm_hour := int (unat t mod 86400 div 3600), tm_wday := int ((unat t div 86400 + 4) mod 7)\<rparr>)), s')"
proof -
  let ?q = "t div 86400" and ?r = "t mod 86400"
  have q: "unat ?q = unat t div 86400" by (simp add: unat_div)
  have r: "unat ?r = unat t mod 86400" by (simp add: unat_mod)
  then have r': "unat ?r < 86400" by simp
  have q': "unat ?q < 2 ^ 39" using t unfolding q by (simp add: div_less_iff_less_mult)
  then have q4: "unat (?q + 4) = unat t div 86400 + 4" using unat_add_ptr [of ?q 4] q by simp
  have small: "unat (?r mod 3600) < 3600" "unat (?r mod 60) < 60" "unat ((?q + 4) mod 7) < 7"
    by (simp_all add: unat_mod)
  then have "unat (?r mod 3600 div 60) < 60" "unat (?r div 3600) < 24"
    using r' by (simp_all add: unat_div div_less_iff_less_mult)
  then show ?thesis
    using assms(2) t r' q' q4 small
    by (simp add: gmtime_def SECSPERDAY_def SECSPERHOUR_def SECSPERMIN_def divides64D [OF d] q r
        c_int_unat unat_mod unat_div)
qed

lemma time_of_day: "(t :: nat) = 86400 * (t div 86400) + 3600 * (t mod 86400 div 3600)
    + 60 * (t mod 86400 mod 3600 div 60) + t mod 86400 mod 60"
proof -
  have "t mod 86400 mod 60 = t mod 86400 mod 3600 mod 60" by (simp add: mod_mod_cancel)
  then show ?thesis using mult_div_mod_eq [of 86400 t] mult_div_mod_eq [of 3600 "t mod 86400"]
    mult_div_mod_eq [of 60 "t mod 86400 mod 3600"] by linarith
qed

lemma gmtime_spec:
  assumes d: "divides64 d" and "alloc s = (Some p, s')" and t: "unat t < 2 ^ 55"
  shows "\<exists>y m dd h mi se. gmtime d alloc s (Some t) = (Some (p, tm_of y m dd h mi se), s')
    \<and> valid_date y m dd \<and> 1970 \<le> y \<and> y < 2 ^ 31 \<and> h < 24 \<and> mi < 60 \<and> se < 60
    \<and> unat t = epoch_seconds y m dd h mi se"
proof -
  let ?h = "unat t mod 86400 div 3600" and ?mi = "unat t mod 86400 mod 3600 div 60"
    and ?se = "unat t mod 86400 mod 60" and ?wd = "(unat t div 86400 + 4) mod 7"
  have "unat t div 86400 < 2 ^ 39" using t by (simp add: div_less_iff_less_mult)
  from gm_date_spec [OF IsLeap_ok [OF d] this, of
      "zero_tm\<lparr>tm_sec := int ?se, tm_min := int ?mi, tm_hour := int ?h, tm_wday := int ?wd\<rparr>"]
  obtain y m dd where date: "valid_date y m dd" "1970 \<le> y" "y < 2 ^ 31"
      "day_number y m dd = 719162 + unat t div 86400"
    and gm: "gm_date (IsLeap d) (unat t div 86400)
        (zero_tm\<lparr>tm_sec := int ?se, tm_min := int ?mi, tm_hour := int ?h, tm_wday := int ?wd\<rparr>)
      = (tm_of y m dd 0 0 0)\<lparr>tm_sec := int ?se, tm_min := int ?mi, tm_hour := int ?h, tm_wday := int ?wd\<rparr>"
    by auto
  have "weekday y m dd = ?wd"
  proof -
    have "719162 + unat t div 86400 + 1 = unat t div 86400 + 4 + 7 * 102737" by simp
    then have "weekday y m dd = (unat t div 86400 + 4 + 7 * 102737) mod 7"
      unfolding weekday_def date(4) by (rule arg_cong)
    then show ?thesis by (simp only: mod_mult_self2)
  qed
  then have "gmtime d alloc s (Some t) = (Some (p, tm_of y m dd ?h ?mi ?se), s')"
    unfolding gmtime_fields [where alloc = alloc, OF d assms(2) t] gm by (simp add: tm_of_def)
  moreover have "unat t = epoch_seconds y m dd ?h ?mi ?se"
    unfolding epoch_seconds_def day_number_epoch date(4) using time_of_day [of "unat t"] by simp
  moreover have "?h < 24" "?mi < 60" "?se < 60" by (simp_all add: div_less_iff_less_mult)
  ultimately show ?thesis using date(1-3) by blast
qed

section \<open>CalculateTimeT\<close>

lemma calc_years_spec:
  "leap_ok leap \<Longrightarrow> 1970 \<le> unat Year \<Longrightarrow> unat Year \<le> unat T \<Longrightarrow> unat T < 2 ^ 63 \<Longrightarrow>
    days_before (unat Year) \<le> days_before (unat T)
    \<and> calc_years leap T Year c = c + of_nat ((days_before (unat T) - days_before (unat Year)) * 86400)"
proof (induction leap T Year c rule: calc_years.induct)
  case (1 leap T Year c)
  show ?case
  proof (cases "Year = T")
    case False
    with "1.prems"(3) have lt: "unat Year < unat T" using False unsigned_word_eqI [where ?'a = nat, of Year T]
      by (auto simp: le_less)
    then have Suc: "unat (Year + 1) = Suc (unat Year)" using unat_add_ptr [of Year 1] "1.prems"(4) by simp
    have leap: "leap Year = gregorian_leap (unat Year)" using "1.prems" lt by (simp add: leap_ok_def)
    let ?n = "(if gregorian_leap (unat Year) then 366 else 365) :: nat"
    have n: "CumulativeDays (leap Year) ! 13 * SECSPERDAY = ?n * 86400"
      by (simp add: CumulativeDays_year leap SECSPERDAY_def SECSPERHOUR_def)
    have "days_before (unat (Year + 1)) \<le> days_before (unat T) \<and>
      calc_years leap T (Year + 1) (c + of_nat (CumulativeDays (leap Year) ! 13 * SECSPERDAY))
      = c + of_nat (CumulativeDays (leap Year) ! 13 * SECSPERDAY)
        + of_nat ((days_before (unat T) - days_before (unat (Year + 1))) * 86400)"
      using "1.IH" [OF False] "1.prems" Suc lt by simp
    moreover have "days_before (Suc (unat Year)) = days_before (unat Year) + ?n"
      using days_before_Suc "1.prems"(2) by simp
    moreover from calculation have "(days_before (unat T) - days_before (unat Year)) * 86400
      = ?n * 86400 + (days_before (unat T) - days_before (unat (Year + 1))) * 86400"
      unfolding Suc by (simp add: algebra_simps)
    moreover from calculation have "days_before (unat Year) \<le> days_before (unat T)"
      unfolding Suc by linarith
    ultimately show ?thesis using False unfolding Suc n
      by (subst calc_years.simps) (simp only: n of_nat_add add.assoc if_True simp_thms not_False_eq_True)
  qed (simp add: calc_years.simps)
qed

lemma calc_time_spec:
  assumes leap: "leap_ok leap" and y: "1970 \<le> y" "y < 2 ^ 16" and date: "valid_date y m d"
    and "h < 256" "mi < 256" "s < 256"
    and T: "et_Year T = of_nat y" "et_Month T = of_nat m" "et_Day T = of_nat d" "et_Hour T = of_nat h"
      "et_Minute T = of_nat mi" "et_Second T = of_nat s"
  shows "calc_time leap T = Inr (of_nat (epoch_seconds y m d h mi s)
    + of_int (if et_TimeZone T = EFI_UNSPECIFIED_TIMEZONE then 0 else 60 * sint (et_TimeZone T)))"
proof -
  have uy: "unat (ucast (et_Year T) :: UINT64) = y"
    using y T(1) by (simp add: unsigned_ucast_eq unsigned_of_nat take_bit_nat_eq_self)
  have m: "1 \<le> m" "m \<le> 12" "1 \<le> d" using date by (auto simp: valid_date_def)
  have "\<forall>m \<in> set [1..<13]. month_lengths l ! (m - 1) \<le> 31" for l
    by (cases l) (simp_all add: month_lengths_def upt_rec)
  with m have "month_lengths (gregorian_leap y) ! (m - 1) \<le> 31" by simp
  with date have d: "d \<le> 31" by (simp add: valid_date_def)
  have fields: "unat (et_Month T) = m" "unat (et_Day T) = d" "unat (et_Hour T) = h"
    "unat (et_Minute T) = mi" "unat (et_Second T) = s"
    using T m d assms(5-7) by (simp_all add: unsigned_of_nat take_bit_nat_eq_self)
  let ?cd = "CumulativeDays (gregorian_leap y)"
  have row: "?cd ! m = sum_list (take (m - 1) (month_lengths (gregorian_leap y)))"
    using CumulativeDays_months m by simp
  have years: "days_before 1970 \<le> days_before y"
    "calc_years leap (ucast (et_Year T)) 1970 0 = of_nat ((days_before y - days_before 1970) * 86400)"
    using calc_years_spec [OF leap, of 1970 "ucast (et_Year T)" 0] y unfolding uy by simp_all
  have "leap (ucast (et_Year T)) = gregorian_leap y" using leap y by (simp add: leap_ok_def uy)
  moreover have "length ?cd = 14" by (simp add: CumulativeDays_def)
  moreover have "et_Day T > 0" using fields(2) m(3) by (auto simp: word_gt_0 simp flip: unat_eq_0)
  ultimately have "calc_time leap T = Inr (of_nat ((days_before y - days_before 1970) * 86400)
      + of_int (if et_TimeZone T = EFI_UNSPECIFIED_TIMEZONE then 0 else 60 * sint (et_TimeZone T))
      + of_nat (?cd ! m * 86400) + of_nat ((d - 1) * 86400) + of_nat (h * 3600) + of_nat (mi * 60) + of_nat s)"
    using m by (simp add: calc_time_def fields years(2) Let_def SECSPERDAY_def SECSPERHOUR_def)
  moreover have "epoch_seconds y m d h mi s = (days_before y - days_before 1970) * 86400 + ?cd ! m * 86400
      + (d - 1) * 86400 + h * 3600 + mi * 60 + s"
    using years(1) m(3)
    by (simp add: epoch_seconds_def day_number_epoch day_number_def day_of_year_def row
        days_before_1970 algebra_simps)
  ultimately show ?thesis by (simp only: of_nat_add ac_simps)
qed

section \<open>The properties\<close>

definition exact_div :: division where
  "exact_div a b = (a div b, a mod b)"

lemma exact_div_divides64: "divides64 exact_div"
  by (simp add: divides64_def exact_div_def)

definition one_block :: "nat \<Rightarrow> nat option \<times> nat" where
  "one_block n = (Some n, Suc n)"

lemma CalculateTimeT_spec:
  assumes "divides64 d" and "1970 \<le> y" "y < 2 ^ 16" and "valid_date y m dd"
    and "h < 256" "mi < 256" "se < 256"
    and "et_Year T = of_nat y" "et_Month T = of_nat m" "et_Day T = of_nat dd" "et_Hour T = of_nat h"
      "et_Minute T = of_nat mi" "et_Second T = of_nat se"
  shows "CalculateTimeT d T = Inr (of_nat (epoch_seconds y m dd h mi se)
    + of_int (if et_TimeZone T = EFI_UNSPECIFIED_TIMEZONE then 0 else 60 * sint (et_TimeZone T)))"
  unfolding CalculateTimeT_def by (rule calc_time_spec [OF IsLeap_ok [OF assms(1)] assms(2-)])

text \<open>C16: \<^verbatim>\<open>gmtime\<close> of the OpenSSL library is the Gregorian calendar: for every time until the year
  1141 million it returns a valid date and time of day, with the right weekday and day of the year,
  and this date is as many seconds after the beginning of 1970 as the argument says.\<close>

theorem gmtime_gregorian:
  assumes "divides64 d" and "alloc s = (Some p, s')" and "unat t < 2 ^ 55"
  shows "\<exists>y m dd h mi se. gmtime d alloc s (Some t) = (Some (p, tm_of y m dd h mi se), s')
    \<and> valid_date y m dd \<and> 1970 \<le> y \<and> y < 2 ^ 31 \<and> h < 24 \<and> mi < 60 \<and> se < 60
    \<and> unat t = epoch_seconds y m dd h mi se"
  by (rule gmtime_spec [where alloc = alloc, OF assms])

theorem gmtime_gregorian_witness:
  "\<exists>y m dd h mi se. gmtime exact_div one_block 5 (Some 1000000000)
      = (Some (5, tm_of y m dd h mi se), 6)
    \<and> valid_date y m dd \<and> 1970 \<le> y \<and> y < 2 ^ 31 \<and> h < 24 \<and> mi < 60 \<and> se < 60
    \<and> unat (1000000000 :: UINT64) = epoch_seconds y m dd h mi se"
  by (rule gmtime_gregorian [OF exact_div_divides64]) (simp_all add: one_block_def)

text \<open>\<^verbatim>\<open>gmtime\<close> and \<^verbatim>\<open>mktime\<close> of the OpenSSL library, for every time until the year 36812:
  \<^verbatim>\<open>mktime\<close> gives the time back from the fields of \<^verbatim>\<open>gmtime\<close> with the full year in place of the
  years since 1900, and the months counted from 1.\<close>

theorem gmtime_mktime:
  assumes "divides64 d" and "alloc s = (Some p, s')" and "unat t < 2 ^ 40"
  shows "\<exists>tm. gmtime d alloc s (Some t) = (Some (p, tm), s')
    \<and> mktime d (tm\<lparr>tm_year := tm_year tm + 1900, tm_mon := tm_mon tm + 1\<rparr>) = Inr t"
proof -
  from assms(3) have "unat t < 2 ^ 55" by simp
  from gmtime_spec [where alloc = alloc, OF assms(1,2) this] obtain y m dd h mi se where
    gm: "gmtime d alloc s (Some t) = (Some (p, tm_of y m dd h mi se), s')" "valid_date y m dd"
      "1970 \<le> y" "h < 24" "mi < 60" "se < 60" "unat t = epoch_seconds y m dd h mi se" by blast
  have "days_before y - 719162 \<le> day_number y m dd - 719162" by (simp add: day_number_def)
  also have "\<dots> \<le> unat t div 86400"
    unfolding gm(7) epoch_seconds_def day_number_epoch by (simp add: less_eq_div_iff_mult_less_eq)
  finally have "days_before y - 719162 \<le> unat t div 86400" .
  moreover have "unat t div 86400 < 2 ^ 24" using assms(3) by (simp add: div_less_iff_less_mult)
  ultimately have y: "y < 2 ^ 16" using days_before_mono [OF gm(3)] by simp
  have "mktime d ((tm_of y m dd h mi se)\<lparr>tm_year := int y, tm_mon := int m\<rparr>) = Inr (of_nat (unat t))"
    unfolding mktime_def using gm y
    by (subst CalculateTimeT_spec [OF assms(1), of y m dd h mi se]) (simp_all add: tm_of_def)
  with gm(1) show ?thesis by (auto simp: tm_of_def)
qed

theorem gmtime_mktime_witness:
  "\<exists>tm. gmtime exact_div one_block 5 (Some 1000000000) = (Some (5, tm), 6)
    \<and> mktime exact_div (tm\<lparr>tm_year := tm_year tm + 1900, tm_mon := tm_mon tm + 1\<rparr>) = Inr 1000000000"
  by (rule gmtime_mktime [OF exact_div_divides64]) (simp_all add: one_block_def)

lemma gm_years_step:
  "gm_years leap D Y N = (if 0 < D \<and> (if leap Y then 366 else 365) \<le> D
     then gm_years leap (D - (if leap Y then 366 else 365)) (Y + 1) (N + 1) else (D, Y, N))"
  by (subst gm_years.simps) (simp add: Let_def)

lemma gm_years_cong:
  "leap_ok leap \<Longrightarrow> leap_ok leap' \<Longrightarrow> unat Year + DayNo < 2 ^ 63 \<Longrightarrow>
    gm_years leap DayNo Year YearNo = gm_years leap' DayNo Year YearNo
    \<and> unat (fst (snd (gm_years leap DayNo Year YearNo))) < 2 ^ 63"
proof (induction leap DayNo Year YearNo rule: gm_years.induct)
  case (1 leap DayNo Year YearNo)
  let ?T = "if leap Year then 366 else 365 :: nat"
  have same: "leap Year = leap' Year" using "1.prems" by (simp add: leap_ok_def)
  have Suc: "unat (Year + 1) = Suc (unat Year)" if "0 < DayNo"
    using unat_add_ptr [of Year 1] "1.prems"(3) that by simp
  show ?case
  proof (cases "0 < DayNo \<and> ?T \<le> DayNo")
    case False
    then show ?thesis using "1.prems"(3) same
      unfolding gm_years_step [of leap DayNo] gm_years_step [of leap' DayNo] by auto
  next
    case True
    then have "unat (Year + 1) + (DayNo - ?T) < 2 ^ 63" using Suc "1.prems"(3) by (auto split: if_splits)
    then have "gm_years leap (DayNo - ?T) (Year + 1) (YearNo + 1) = gm_years leap' (DayNo - ?T) (Year + 1) (YearNo + 1)
      \<and> unat (fst (snd (gm_years leap (DayNo - ?T) (Year + 1) (YearNo + 1)))) < 2 ^ 63"
      using "1.IH" [OF _ refl] True "1.prems"(1,2) by blast
    with True same show ?thesis
      unfolding gm_years_step [of leap DayNo] gm_years_step [of leap' DayNo] by (cases "leap' Year") auto
  qed
qed

lemma gm_date_cong:
  assumes "leap_ok leap" "leap_ok leap'" and "DayNo < 2 ^ 62"
  shows "gm_date leap DayNo tm0 = gm_date leap' DayNo tm0"
proof -
  obtain D Y N where years: "gm_years leap DayNo 1970 0 = (D, Y, N)" by (metis prod.exhaust)
  with gm_years_cong [OF assms(1,2), of 1970 DayNo 0] assms(3) have
    "gm_years leap' DayNo 1970 0 = (D, Y, N)" "unat Y < 2 ^ 63" by auto
  moreover from this(2) have "leap Y = leap' Y" using assms(1,2) by (simp add: leap_ok_def)
  ultimately show ?thesis by (simp add: gm_date_def years)
qed

lemma int_sdiv: "int a sdiv int b = int (a div b)"
  by (cases "a = 0 \<or> b = 0") (auto simp: signed_divide_int_def zdiv_int)

lemma int_smod: "int a smod int b = int (a mod b)"
  by (simp add: smod_mod_positive zmod_int)

lemma unat_of_int16: "unat (of_int (int n) :: UINT16) = n mod 65536"
  by (simp add: unsigned_of_nat take_bit_eq_mod)

text \<open>\<^verbatim>\<open>gmtime\<close> of the MbedTLS library is that of the OpenSSL library at a truncated time: the
  day and the second of the day are taken modulo 65536. So the time of day is wrong from
  18:12:16 on.\<close>

theorem mbed_gmtime_truncates:
  assumes d: "divides64 d" and t: "unat t < 2 ^ 63"
  shows "Mbed_gmtime alloc s (Some t) = gmtime d alloc s
    (Some (of_nat (86400 * (unat t div 86400 mod 65536) + unat t mod 86400 mod 65536)))"
proof (cases "alloc s")
  case (Pair blk s')
  let ?a = "unat t div 86400 mod 65536" and ?b = "unat t mod 86400 mod 65536"
  define t' where "t' = 86400 * ?a + ?b"
  have b: "?b < 65536" "?a < 65536" by simp_all
  have "86400 * a + b < 2 ^ 55" if "a < 65536" "b < 65536" for a b :: nat using that by simp
  from this [OF b(2,1)] have t': "t' < 2 ^ 55" unfolding t'_def .
  then have ut: "unat (of_nat t' :: UINT64) = t'" by (simp add: unat_of_nat64)
  have "(86400 * a + b) div 86400 = a \<and> (86400 * a + b) mod 86400 = b" if "b < 65536" for a b :: nat
    using that by simp
  from this [OF b(1), of ?a] have dm: "t' div 86400 = ?a" "t' mod 86400 = ?b"
    unfolding t'_def by (rule conjunct1, rule conjunct2)
  have sint: "sint t = int (unat t)"
  proof -
    have "int (unat t) < int (2 ^ 63)" using t by (simp only: of_nat_less_iff)
    then have "uint t < 2 ^ 63" by simp
    moreover have "- (2 ^ 63) \<le> uint t" by (rule order_trans [of _ 0]) simp_all
    ultimately have "signed_take_bit 63 (uint t) = uint t" by (intro signed_take_bit_int_eq_self)
    then show ?thesis by (simp add: sint_uint)
  qed
  have q: "unat (of_int (sint t sdiv int SECSPERDAY) :: UINT16) = ?a"
    "unat (of_int (sint t smod int SECSPERDAY) :: UINT16) = ?b"
    unfolding sint SECSPERDAY_def SECSPERHOUR_def int_sdiv int_smod unat_of_int16 by simp_all
  show ?thesis
  proof (cases blk)
    case None
    with Pair show ?thesis by (simp add: Mbed_gmtime_def gmtime_def)
  next
    case (Some p)
    from gmtime_fields [where alloc = alloc, OF d] Pair Some t' ut have
      "gmtime d alloc s (Some (of_nat t')) = (Some (p, gm_date (IsLeap d) ?a
        (zero_tm\<lparr>tm_sec := int (?b mod 60), tm_min := int (?b mod 3600 div 60),
           tm_hour := int (?b div 3600), tm_wday := int ((?a + 4) mod 7)\<rparr>)), s')"
      by (simp only: dm)
    also have "\<dots> = Mbed_gmtime alloc s (Some t)"
      using Pair Some b gm_date_cong [OF IsLeap_ok [OF d] Mbed_IsLeap_ok, of ?a]
      by (simp add: Mbed_gmtime_def Let_def q SECSPERMIN_def SECSPERHOUR_def)
    finally show ?thesis by (simp add: t'_def)
  qed
qed

theorem mbed_gmtime_truncates_witness:
  "Mbed_gmtime one_block 5 (Some 1000000000) = gmtime exact_div one_block 5
    (Some (of_nat (86400 * (unat (1000000000 :: UINT64) div 86400 mod 65536)
      + unat (1000000000 :: UINT64) mod 86400 mod 65536)))"
  by (rule mbed_gmtime_truncates [OF exact_div_divides64]) simp

text \<open>The clock functions of both libraries on a good reading of the host's clock: \<^verbatim>\<open>time\<close>
  returns and stores the seconds since the beginning of 1970 in UTC, the two libraries agree,
  and \<^verbatim>\<open>mbedtls_ms_time\<close> is the same time in milliseconds.\<close>

theorem clock_time:
  assumes "divides64 d" and "1970 \<le> y" "y < 2 ^ 16" and "valid_date y m dd"
    and "h < 256" "mi < 256" "se < 256"
    and T: "et_Year T = of_nat y" "et_Month T = of_nat m" "et_Day T = of_nat dd" "et_Hour T = of_nat h"
      "et_Minute T = of_nat mi" "et_Second T = of_nat se"
    and host: "dep_GetTime host = Some f" "f (Some junk) w = (EFI_SUCCESS, Some T, w')"
    and t: "t = of_nat (epoch_seconds y m dd h mi se)
      + of_int (if et_TimeZone T = EFI_UNSPECIFIED_TIMEZONE then 0 else 60 * sint (et_TimeZone T))"
  shows "time d (Some host) junk True w = Inr (t, Some t, w')
    \<and> Mbed_time (Some host) junk True w = time d (Some host) junk True w
    \<and> mbedtls_ms_time (Some host) junk w
      = Inr (t * 1000 + of_nat (unat (et_Nanosecond T) div 1000000), w')"
proof -
  have "1970 \<le> et_Year T"
    using assms(2,3) T(1) by (simp add: word_le_nat_alt unsigned_of_nat take_bit_nat_eq_self)
  then have "\<not> et_Year T < 1970" by simp
  then show ?thesis
    using calc_time_spec [OF Mbed_IsLeap_ok assms(2-7) T] CalculateTimeT_spec [OF assms(1-7) T] host t
    by (simp add: time_def Mbed_time_def mbedtls_ms_time_def clock_seconds_def LibGetTime_def
        OneCryptoGetTime_def Let_def)
qed

definition clock_host :: "EFI_TIME \<Rightarrow> nat deps" where
  "clock_host T = \<lparr>dep_Major = 1, dep_Minor = 0, dep_Reserved = 0, dep_AllocatePool = None,
     dep_FreePool = None, dep_GetTime = Some (\<lambda>_ n. (EFI_SUCCESS, Some T, Suc n)), dep_DebugPrint = None,
     dep_GetRandomNumber64 = None, dep_MicroSecondDelay = None\<rparr>"

definition leap_day :: EFI_TIME where
  "leap_day = \<lparr>et_Year = 2024, et_Month = 2, et_Day = 29, et_Hour = 12, et_Minute = 30, et_Second = 1,
     et_Nanosecond = 5000000, et_TimeZone = 120, et_Daylight = 0\<rparr>"

theorem clock_time_witness:
  "time exact_div (Some (clock_host leap_day)) leap_day True 7
    = Inr (of_nat (epoch_seconds 2024 2 29 12 30 1) + 7200,
           Some (of_nat (epoch_seconds 2024 2 29 12 30 1) + 7200), 8)"
proof -
  have "valid_date 2024 2 29" by (simp add: valid_date_def gregorian_leap_def month_lengths_def)
  from clock_time [OF exact_div_divides64 _ _ this, of 12 30 1 leap_day "clock_host leap_day"
      "\<lambda>_ n. (EFI_SUCCESS, Some leap_day, Suc n)" leap_day 7 8, OF _ _ _ _ _ _ _ _ _ _ _ _ _ refl]
  show ?thesis by (simp add: leap_day_def clock_host_def EFI_UNSPECIFIED_TIMEZONE_def)
qed

text \<open>
  \<^verbatim>\<open>sleep\<close> multiplies in 32 bits: from 4295 seconds on it waits for less time than asked.
\<close>

lemma sleep_wraps:
  "sleep m seconds w = (0, snd (MicroSecondDelay m (unat seconds * 1000000 mod 2 ^ 32) w))"
  by (simp add: sleep_def unat_word_ariths(2) mult.assoc mod_mult_left_eq)

end
