(* ===== verification/CrtHeap.thy ===== *)
theory CrtHeap
  imports Pool
begin

text \<open>
  \<^verbatim>\<open>SysCall/BaseMemAllocation.c\<close> (the same in the OpenSSL and the MbedTLS library): \<^verbatim>\<open>malloc\<close>,
  \<^verbatim>\<open>realloc\<close> and \<^verbatim>\<open>free\<close> over the pool, with a header in front of each block.

  \<^item> A pointer of the C run time is the number of its pool block; the header lies in front of it.
    \<open>ch_head\<close> has signature and size of a header, \<open>ch_data\<close> the bytes behind it.
  \<^item> \<open>junk\<close> are the contents of a fresh block.
\<close>

definition CRYPTMEM_HEAD_SIGNATURE :: UINT32 where
  "CRYPTMEM_HEAD_SIGNATURE = 0x64686D63"

record CRYPTMEM_HEAD =
  Signature :: UINT32
  Reserved :: UINT32
  Size :: nat

definition CRYPTMEM_OVERHEAD :: nat where "CRYPTMEM_OVERHEAD = 16"

record crypt_heap =
  ch_pool :: pool
  ch_head :: "nat \<Rightarrow> CRYPTMEM_HEAD option"
  ch_data :: "nat \<Rightarrow> byte list option"

type_synonym junk = "nat \<Rightarrow> nat \<Rightarrow> byte"

definition new_head :: "nat \<Rightarrow> CRYPTMEM_HEAD" where
  "new_head sz = \<lparr>Signature = CRYPTMEM_HEAD_SIGNATURE, Reserved = 0, Size = sz\<rparr>"

definition crt_malloc :: "junk \<Rightarrow> crypt_heap \<Rightarrow> nat \<Rightarrow> (nat option \<times> crypt_heap) res" where
  "crt_malloc junk s sz =
    (let NewSize = unat (of_nat sz + of_nat CRYPTMEM_OVERHEAD :: UINT64)
     in case AllocatePool (ch_pool s) NewSize of
          (None, p) \<Rightarrow> Inr (None, s\<lparr>ch_pool := p\<rparr>)
        | (Some Data, p) \<Rightarrow>
            if NewSize < CRYPTMEM_OVERHEAD then Inl OobWrite
            else Inr (Some Data,
                   s\<lparr>ch_pool := p, ch_head := (ch_head s)(Data \<mapsto> new_head sz),
                     ch_data := (ch_data s)(Data \<mapsto> map (junk Data) [0..<sz])\<rparr>))"

definition crt_free :: "crypt_heap \<Rightarrow> nat option \<Rightarrow> crypt_heap res" where
  "crt_free s p =
    (case p of
       None \<Rightarrow> Inr s
     | Some b \<Rightarrow>
         (case ch_head s b of
            None \<Rightarrow> Inl UseAfterFree
          | Some PoolHdr \<Rightarrow>
              if Signature PoolHdr \<noteq> CRYPTMEM_HEAD_SIGNATURE then Inl AssertFailed
              else map_sum id (\<lambda>pl. s\<lparr>ch_pool := pl, ch_head := (ch_head s)(b := None),
                                      ch_data := (ch_data s)(b := None)\<rparr>)
                     (FreePool (ch_pool s) (Some b))))"

text \<open>The copy of the old contents and the release of the old block.\<close>

definition move_old :: "crypt_heap \<Rightarrow> nat \<Rightarrow> nat \<Rightarrow> nat \<Rightarrow> crypt_heap res" where
  "move_old s Data b sz =
    (case (ch_head s b, ch_data s b, ch_data s Data) of
       (Some OldPoolHdr, Some old, Some new) \<Rightarrow>
         if Signature OldPoolHdr \<noteq> CRYPTMEM_HEAD_SIGNATURE then Inl AssertFailed
         else if min (Size OldPoolHdr) sz > length old then Inl OobRead
         else if min (Size OldPoolHdr) sz > length new then Inl OobWrite
         else map_sum id
                (\<lambda>pl. s\<lparr>ch_pool := pl, ch_head := (ch_head s)(b := None),
                        ch_data := (ch_data s)(Data \<mapsto> copy_at 0 (take (min (Size OldPoolHdr) sz) old) new,
                                               b := None)\<rparr>)
                (FreePool (ch_pool s) (Some b))
     | _ \<Rightarrow> Inl UseAfterFree)"

definition crt_realloc ::
    "junk \<Rightarrow> crypt_heap \<Rightarrow> nat option \<Rightarrow> nat \<Rightarrow> (nat option \<times> crypt_heap) res" where
  "crt_realloc junk s p sz =
    (let NewSize = unat (of_nat sz + of_nat CRYPTMEM_OVERHEAD :: UINT64)
     in case AllocatePool (ch_pool s) NewSize of
          (None, pl) \<Rightarrow> Inr (None, s\<lparr>ch_pool := pl\<rparr>)
        | (Some Data, pl) \<Rightarrow>
            if NewSize < CRYPTMEM_OVERHEAD then Inl OobWrite
            else
              let s = s\<lparr>ch_pool := pl, ch_head := (ch_head s)(Data \<mapsto> new_head sz),
                        ch_data := (ch_data s)(Data \<mapsto> map (junk Data) [0..<sz])\<rparr>
              in (case p of
                    None \<Rightarrow> Inr (Some Data, s)
                  | Some b \<Rightarrow> map_sum id (\<lambda>s. (Some Data, s)) (move_old s Data b sz)))"

section \<open>The invariant\<close>

definition block_ok :: "bool \<Rightarrow> CRYPTMEM_HEAD option \<Rightarrow> byte list option \<Rightarrow> bool" where
  "block_ok live h d = (case h of
     None \<Rightarrow> \<not> live \<and> d = None
   | Some h \<Rightarrow> live \<and> Signature h = CRYPTMEM_HEAD_SIGNATURE
       \<and> (case d of None \<Rightarrow> False | Some bs \<Rightarrow> length bs = Size h))"

definition heap_inv :: "crypt_heap \<Rightarrow> bool" where
  "heap_inv s \<longleftrightarrow> pool_inv (ch_pool s)
    \<and> (\<forall>b. block_ok (b \<in> pool_live (ch_pool s)) (ch_head s b) (ch_data s b))"

definition crt_live :: "crypt_heap \<Rightarrow> nat \<Rightarrow> bool" where
  "crt_live s b \<longleftrightarrow> b \<in> pool_live (ch_pool s)"

lemma block_ok_simps [simp]:
  "block_ok live None d \<longleftrightarrow> \<not> live \<and> d = None"
  "block_ok live (Some h) None \<longleftrightarrow> False"
  "block_ok live (Some h) (Some bs)
    \<longleftrightarrow> live \<and> Signature h = CRYPTMEM_HEAD_SIGNATURE \<and> length bs = Size h"
  by (auto simp: block_ok_def)

lemma heap_inv_block: "heap_inv s \<Longrightarrow> block_ok (crt_live s b) (ch_head s b) (ch_data s b)"
  by (simp add: heap_inv_def crt_live_def)

lemma heap_inv_live:
  assumes "heap_inv s" and "crt_live s b"
  obtains h bs where "ch_head s b = Some h" "Signature h = CRYPTMEM_HEAD_SIGNATURE"
    "ch_data s b = Some bs" "length bs = Size h"
  using heap_inv_block [OF assms(1), of b] assms(2)
  by (cases "ch_head s b"; cases "ch_data s b") auto

lemma heap_inv_dead: "heap_inv s \<Longrightarrow> \<not> crt_live s b \<Longrightarrow> ch_head s b = None \<and> ch_data s b = None"
  using heap_inv_block [of s b] by (cases "ch_head s b"; cases "ch_data s b") auto

lemma heap_inv_pool: "heap_inv s \<Longrightarrow> pool_inv (ch_pool s)"
  by (simp add: heap_inv_def)

lemma crt_malloc_SomeD:
  assumes inv: "heap_inv s" and m: "crt_malloc junk s n = Inr (Some p, s')"
  shows "heap_inv s' \<and> \<not> crt_live s p \<and> crt_live s' = (crt_live s)(p := True)
    \<and> ch_data s' = (ch_data s)(p \<mapsto> map (junk p) [0..<n]) \<and> ch_head s' = (ch_head s)(p \<mapsto> new_head n)"
proof -
  from m obtain pl where pl: "AllocatePool (ch_pool s) (unat (of_nat n + of_nat CRYPTMEM_OVERHEAD :: UINT64)) = (Some p, pl)"
    "s' = s\<lparr>ch_pool := pl, ch_head := (ch_head s)(p \<mapsto> new_head n),
            ch_data := (ch_data s)(p \<mapsto> map (junk p) [0..<n])\<rparr>"
    by (auto simp: crt_malloc_def Let_def split: prod.splits option.splits if_splits)
  note a = AllocatePool_Some [OF pl(1) heap_inv_pool [OF inv]]
  have "heap_inv s'" using inv a by (auto simp: heap_inv_def pl(2) new_head_def)
  then show ?thesis using a pl(2) by (auto simp: crt_live_def fun_eq_iff)
qed

lemma crt_malloc_NoneD:
  assumes inv: "heap_inv s" and m: "crt_malloc junk s n = Inr (None, s')"
  shows "heap_inv s' \<and> crt_live s' = crt_live s \<and> ch_data s' = ch_data s \<and> ch_head s' = ch_head s"
proof -
  from m obtain pl where pl: "AllocatePool (ch_pool s) (unat (of_nat n + of_nat CRYPTMEM_OVERHEAD :: UINT64)) = (None, pl)"
    "s' = s\<lparr>ch_pool := pl\<rparr>"
    by (auto simp: crt_malloc_def Let_def split: prod.splits option.splits if_splits)
  note a = AllocatePool_None [OF pl(1) heap_inv_pool [OF inv]]
  then show ?thesis using inv by (simp add: heap_inv_def pl(2) crt_live_def fun_eq_iff)
qed

lemma crt_free_live:
  assumes inv: "heap_inv s" and p: "crt_live s p"
  shows "\<exists>s'. crt_free s (Some p) = Inr s' \<and> heap_inv s' \<and> crt_live s' = (crt_live s)(p := False)
    \<and> ch_data s' = (ch_data s)(p := None) \<and> ch_head s' = (ch_head s)(p := None)"
proof -
  from heap_inv_live [OF inv p] obtain h bs where h: "ch_head s p = Some h"
    "Signature h = CRYPTMEM_HEAD_SIGNATURE" "ch_data s p = Some bs" "length bs = Size h" by blast
  from FreePool_live [OF _ heap_inv_pool [OF inv], of p] p obtain pl where
    pl: "FreePool (ch_pool s) (Some p) = Inr pl" "pool_inv pl" "pool_live pl = pool_live (ch_pool s) - {p}"
    by (auto simp: crt_live_def)
  then show ?thesis
    using inv h by (simp add: crt_free_def heap_inv_def crt_live_def fun_eq_iff)
qed

interpretation crt_heap: scratch_allocator "crt_malloc junk" crt_free crt_live heap_inv
proof (unfold_locales, goal_cases)
  case (1 s n s')
  then show ?case using crt_malloc_NoneD by blast
next
  case (2 s n p s')
  then show ?case using crt_malloc_SomeD by blast
next
  case (3 s p)
  then show ?case using crt_free_live by blast
qed

section \<open>realloc\<close>

text \<open>\<^verbatim>\<open>realloc\<close> is \<^verbatim>\<open>malloc\<close>, a copy and \<^verbatim>\<open>free\<close>.\<close>

lemma crt_realloc_malloc:
  "crt_realloc junk s p sz = bind_res (crt_malloc junk s sz) (\<lambda>(q, s).
    case (q, p) of
      (Some Data, Some b) \<Rightarrow> map_sum id (\<lambda>s. (q, s)) (move_old s Data b sz)
    | _ \<Rightarrow> Inr (q, s))"
  by (auto simp: crt_realloc_def crt_malloc_def Let_def split: prod.split option.split)

lemma move_old_live:
  assumes inv: "heap_inv s" and b: "crt_live s b" "ch_data s b = Some old"
    and D: "D \<noteq> b" "crt_live s D" "ch_data s D = Some new" "ch_head s D = Some (new_head sz)"
  shows "\<exists>s'. move_old s D b sz = Inr s' \<and> heap_inv s' \<and> crt_live s' = (crt_live s)(b := False)
    \<and> ch_data s' = (ch_data s)(D \<mapsto> copy_at 0 (take (min (length old) sz) old) new, b := None)"
proof -
  obtain h where h: "ch_head s b = Some h" "Signature h = CRYPTMEM_HEAD_SIGNATURE" "length old = Size h"
    using heap_inv_block [OF inv, of b] b by (cases "ch_head s b") auto
  have new: "length new = sz" using heap_inv_block [OF inv, of D] D by (simp add: new_head_def)
  from FreePool_live [OF _ heap_inv_pool [OF inv], of b] b(1) obtain pl where
    pl: "FreePool (ch_pool s) (Some b) = Inr pl" "pool_inv pl" "pool_live pl = pool_live (ch_pool s) - {b}"
    by (auto simp: crt_live_def)
  let ?s' = "s\<lparr>ch_pool := pl, ch_head := (ch_head s)(b := None),
    ch_data := (ch_data s)(D \<mapsto> copy_at 0 (take (min (Size h) sz) old) new, b := None)\<rparr>"
  have "move_old s D b sz = Inr ?s'" using h new pl(1) b(2) D(3) by (simp add: move_old_def)
  moreover have "heap_inv ?s'"
    using inv D new h pl by (simp add: heap_inv_def crt_live_def new_head_def)
  moreover have "crt_live ?s' = (crt_live s)(b := False)" using pl(3) by (auto simp: crt_live_def fun_eq_iff)
  ultimately show ?thesis using h(3) by (intro exI [of _ ?s']) simp
qed

text \<open>Reallocation of a live block (or of NULL). Either there is no memory and nothing changes, or the result
  is a new block with the first bytes of the old one, as many as fit into both; the old block is
  freed and all others are as they were. It never faults, as long as the size does not wrap with
  the header.\<close>

theorem crt_realloc_preserves:
  assumes inv: "heap_inv s" and sz: "sz < 2 ^ 64 - CRYPTMEM_OVERHEAD"
    and b: "crt_live s b" "ch_data s b = Some old"
  shows "\<exists>q s'. crt_realloc junk s (Some b) sz = Inr (q, s') \<and> heap_inv s' \<and>
    (case q of
       None \<Rightarrow> crt_live s' = crt_live s \<and> ch_data s' = ch_data s
     | Some D \<Rightarrow> \<not> crt_live s D \<and> crt_live s' = (crt_live s)(D := True, b := False)
         \<and> (\<exists>bs. ch_data s' = (ch_data s)(D \<mapsto> bs, b := None) \<and> length bs = sz
              \<and> take (min (length old) sz) bs = take (min (length old) sz) old))"
proof (cases "crt_malloc junk s sz")
  case (Inl e)
  have "sz + CRYPTMEM_OVERHEAD < 2 ^ 64" using sz by linarith
  from unat_of_nat64 [OF this] have n: "unat (of_nat sz + of_nat CRYPTMEM_OVERHEAD :: UINT64) = sz + CRYPTMEM_OVERHEAD"
    by (simp only: of_nat_add)
  have "\<not> sz + CRYPTMEM_OVERHEAD < CRYPTMEM_OVERHEAD" by simp
  with Inl have False
    unfolding crt_malloc_def Let_def n by (simp split: prod.splits option.splits)
  then show ?thesis ..
next
  case (Inr r)
  then obtain q s1 where m: "crt_malloc junk s sz = Inr (q, s1)" by (cases r) auto
  show ?thesis
  proof (cases q)
    case None
    then show ?thesis using m crt_malloc_NoneD [OF inv, of junk sz s1] by (simp add: crt_realloc_malloc)
  next
    case (Some D)
    with m crt_malloc_SomeD [OF inv, of junk sz D s1] have
      s1: "heap_inv s1" "\<not> crt_live s D" "crt_live s1 = (crt_live s)(D := True)"
        "ch_data s1 = (ch_data s)(D \<mapsto> map (junk D) [0..<sz])" "ch_head s1 = (ch_head s)(D \<mapsto> new_head sz)"
      by auto
    with b have ne: "D \<noteq> b" by auto
    let ?bs = "copy_at 0 (take (min (length old) sz) old) (map (junk D) [0..<sz])"
    have "\<exists>s'. move_old s1 D b sz = Inr s' \<and> heap_inv s' \<and> crt_live s' = (crt_live s1)(b := False)
      \<and> ch_data s' = (ch_data s1)(D \<mapsto> ?bs, b := None)"
      using s1 b ne by (intro move_old_live) auto
    then obtain s' where s': "move_old s1 D b sz = Inr s'" "heap_inv s'"
      "crt_live s' = (crt_live s)(D := True, b := False)" "ch_data s' = (ch_data s)(D \<mapsto> ?bs, b := None)"
      using s1 by auto
    have "length ?bs = sz" "take (min (length old) sz) ?bs = take (min (length old) sz) old"
      by (simp_all add: copy_at_def min_def)
    with m Some s' s1(2) show ?thesis by (auto simp: crt_realloc_malloc)
  qed
qed

definition small_heap :: crypt_heap where
  "small_heap = \<lparr>ch_pool = \<lparr>pool_ok = \<lambda>_ _. True, pool_next = 1, pool_live = {0}\<rparr>,
     ch_head = [0 \<mapsto> new_head 3], ch_data = [0 \<mapsto> [1, 2, 3]]\<rparr>"

theorem crt_realloc_preserves_witness:
  "\<exists>q s'. crt_realloc (\<lambda>_ _. 0xAA) small_heap (Some 0) 2 = Inr (q, s') \<and> heap_inv s' \<and>
    (case q of
       None \<Rightarrow> crt_live s' = crt_live small_heap \<and> ch_data s' = ch_data small_heap
     | Some D \<Rightarrow> \<not> crt_live small_heap D \<and> crt_live s' = (crt_live small_heap)(D := True, 0 := False)
         \<and> (\<exists>bs. ch_data s' = (ch_data small_heap)(D \<mapsto> bs, 0 := None) \<and> length bs = 2
              \<and> take (min (length [1, 2, 3 :: byte]) 2) bs = take (min (length [1, 2, 3 :: byte]) 2) [1, 2, 3]))"
  by (rule crt_realloc_preserves)
    (simp_all add: heap_inv_def small_heap_def pool_inv_def new_head_def CRYPTMEM_OVERHEAD_def crt_live_def)

text \<open>A size that wraps with the header: the header is written past the end of the block.\<close>

lemma crt_malloc_wraps:
  assumes "2 ^ 64 - CRYPTMEM_OVERHEAD \<le> sz" "sz < 2 ^ 64" and "\<And>k n. pool_ok (ch_pool s) k n"
  shows "crt_malloc junk s sz = Inl OobWrite"
proof -
  have "unat (of_nat sz + of_nat CRYPTMEM_OVERHEAD :: UINT64) = sz + CRYPTMEM_OVERHEAD - 2 ^ 64"
    using assms(1,2) by (simp add: unat_word_ariths(1) unat_of_nat64 CRYPTMEM_OVERHEAD_def le_mod_geq)
  with assms show ?thesis by (simp add: crt_malloc_def AllocatePool_def CRYPTMEM_OVERHEAD_def)
qed

end
