(* ===== verification/CrtSort.thy ===== *)
theory CrtSort
  imports CrtHeap "HOL-Library.Multiset"
begin

text \<open>
  \<^verbatim>\<open>qsort\<close> of \<^verbatim>\<open>SysCall/CrtWrapper.c\<close> with \<^verbatim>\<open>QuickSortWorker\<close>, on the bytes of the array, and the
  same algorithm on the list of its elements, which the bytes refine.

  \<^item> \<open>cmp\<close> is the comparison function, on the bytes of two elements.
  \<^item> The scratch buffer comes from any allocator; the properties use the one of
    \<^verbatim>\<open>BaseMemAllocation.c\<close> and rest on the interface \<open>scratch_allocator\<close>.
\<close>

section \<open>The code\<close>

type_synonym compare_fn = "byte list \<Rightarrow> byte list \<Rightarrow> int"

text \<open>The loop: the next swap location, the array and the scratch buffer.\<close>

function qs_loop ::
    "compare_fn \<Rightarrow> nat \<Rightarrow> nat \<Rightarrow> nat \<Rightarrow> nat \<Rightarrow> nat \<Rightarrow> byte list \<Rightarrow> byte list \<Rightarrow> nat \<times> byte list \<times> byte list" where
  "qs_loop cmp ElementSize base Count LoopCount NextSwapLocation buf Buffer =
    (if LoopCount < Count - 1 then
       (if cmp (seg (base + LoopCount * ElementSize) ElementSize buf)
               (seg (base + (Count - 1) * ElementSize) ElementSize buf) \<le> 0
        then
          let Buffer = seg (base + NextSwapLocation * ElementSize) ElementSize buf;
              buf = copy_at (base + NextSwapLocation * ElementSize)
                      (seg (base + LoopCount * ElementSize) ElementSize buf) buf;
              buf = copy_at (base + LoopCount * ElementSize) Buffer buf
          in qs_loop cmp ElementSize base Count (LoopCount + 1) (NextSwapLocation + 1) buf Buffer
        else qs_loop cmp ElementSize base Count (LoopCount + 1) NextSwapLocation buf Buffer)
     else (NextSwapLocation, buf, Buffer))"
  by pat_completeness auto
termination by (relation "measure (\<lambda>(c, w, b, n, i, k, buf, t). n - 1 - i)") auto

declare qs_loop.simps [simp del]

lemma qs_loop_bound: "k \<le> i \<Longrightarrow> i \<le> n - 1 \<Longrightarrow> fst (qs_loop cmp w b n i k buf t) \<le> n - 1"
proof (induction cmp w b n i k buf t rule: qs_loop.induct)
  case (1 cmp w b n i k buf t)
  then show ?case by (subst qs_loop.simps) (simp add: Let_def)
qed

function QuickSortWorker ::
    "compare_fn \<Rightarrow> nat \<Rightarrow> nat \<Rightarrow> nat \<Rightarrow> byte list \<Rightarrow> byte list \<Rightarrow> byte list \<times> byte list" where
  "QuickSortWorker cmp ElementSize base Count buf Buffer =
    (if Count < 2 \<or> ElementSize < 1 then (buf, Buffer)
     else case qs_loop cmp ElementSize base Count 0 0 buf Buffer of
       (NextSwapLocation, buf, Buffer) \<Rightarrow>
         let Buffer = seg (base + (Count - 1) * ElementSize) ElementSize buf;
             buf = copy_at (base + (Count - 1) * ElementSize)
                     (seg (base + NextSwapLocation * ElementSize) ElementSize buf) buf;
             buf = copy_at (base + NextSwapLocation * ElementSize) Buffer buf
         in case QuickSortWorker cmp ElementSize base NextSwapLocation buf Buffer of
              (buf, Buffer) \<Rightarrow>
                QuickSortWorker cmp ElementSize (base + (NextSwapLocation + 1) * ElementSize)
                  (Count - NextSwapLocation - 1) buf Buffer)"
  by pat_completeness auto
termination
proof (relation "measure (\<lambda>(c, w, b, n, buf, t). n)", goal_cases)
  case (2 cmp w b n buf t x k y buf1 t1)
  from 2(2) have "fst (qs_loop cmp w b n 0 0 buf t) = x" by (metis fst_conv)
  with qs_loop_bound [of 0 0 n cmp w b buf t] 2(1) show ?case by auto
qed auto

declare QuickSortWorker.simps [simp del]

text \<open>\<^verbatim>\<open>base\<close>: \<open>None\<close> for NULL. The array may be longer than the elements that are sorted.\<close>

definition qsort_in ::
    "('s \<Rightarrow> nat \<Rightarrow> ('p option \<times> 's) res) \<Rightarrow> ('s \<Rightarrow> 'p option \<Rightarrow> 's res) \<Rightarrow> ('s \<Rightarrow> 'p \<Rightarrow> byte list)
     \<Rightarrow> compare_fn option \<Rightarrow> byte list option \<Rightarrow> nat \<Rightarrow> nat \<Rightarrow> 's \<Rightarrow> (byte list \<times> 's) res" where
  "qsort_in malloc dealloc contents compare base num width s =
    (case (base, compare) of
       (Some buf, Some cmp) \<Rightarrow>
         bind_res (malloc s width) (\<lambda>(Buffer, s).
           case Buffer of
             None \<Rightarrow> Inl AssertFailed
           | Some p \<Rightarrow>
               if num \<ge> 2 \<and> num * width > length buf then Inl OobRead
               else case QuickSortWorker cmp width 0 num buf (contents s p) of
                 (buf, _) \<Rightarrow> bind_res (dealloc s (Some p)) (\<lambda>s. Inr (buf, s)))
     | _ \<Rightarrow> Inl AssertFailed)"

definition qsort ::
    "junk \<Rightarrow> compare_fn option \<Rightarrow> byte list option \<Rightarrow> nat \<Rightarrow> nat \<Rightarrow> crypt_heap
     \<Rightarrow> (byte list \<times> crypt_heap) res" where
  "qsort junk = qsort_in (crt_malloc junk) crt_free (\<lambda>s p. case_option [] id (ch_data s p))"

section \<open>The algorithm on elements\<close>

function el_loop :: "('a \<Rightarrow> 'a \<Rightarrow> bool) \<Rightarrow> nat \<Rightarrow> nat \<Rightarrow> nat \<Rightarrow> nat \<Rightarrow> 'a list \<Rightarrow> nat \<times> 'a list" where
  "el_loop le b n i k xs =
    (if i < n - 1 then
       (if le (xs ! (b + i)) (xs ! (b + (n - 1)))
        then el_loop le b n (i + 1) (k + 1) (xs[b + k := xs ! (b + i), b + i := xs ! (b + k)])
        else el_loop le b n (i + 1) k xs)
     else (k, xs))"
  by pat_completeness auto
termination by (relation "measure (\<lambda>(l, b, n, i, k, xs). n - 1 - i)") auto

declare el_loop.simps [simp del]

lemma el_loop_bound: "k \<le> i \<Longrightarrow> i \<le> n - 1 \<Longrightarrow> fst (el_loop le b n i k xs) \<le> n - 1"
proof (induction le b n i k xs rule: el_loop.induct)
  case (1 le b n i k xs)
  then show ?case by (subst el_loop.simps) simp
qed

function el_sort :: "('a \<Rightarrow> 'a \<Rightarrow> bool) \<Rightarrow> nat \<Rightarrow> nat \<Rightarrow> 'a list \<Rightarrow> 'a list" where
  "el_sort le b n xs =
    (if n < 2 then xs
     else case el_loop le b n 0 0 xs of
       (k, xs) \<Rightarrow>
         let xs = xs[b + (n - 1) := xs ! (b + k), b + k := xs ! (b + (n - 1))]
         in el_sort le (b + (k + 1)) (n - k - 1) (el_sort le b k xs))"
  by pat_completeness auto
termination
proof (relation "measure (\<lambda>(l, b, n, xs). n)", goal_cases)
  case (2 le b n xs x y xa)
  from 2(2) have "fst (el_loop le b n 0 0 xs) = x" by (metis fst_conv)
  with el_loop_bound [of 0 0 n le b xs] 2(1) show ?case by simp
qed auto

declare el_sort.simps [simp del]

section \<open>The bytes refine the elements\<close>

definition elems :: "nat \<Rightarrow> byte list \<Rightarrow> byte list list" where
  "elems w buf = map (\<lambda>i. seg (i * w) w buf) [0..<length buf div w]"

lemma elems_length: "0 < w \<Longrightarrow> length buf = m * w \<Longrightarrow> length (elems w buf) = m"
  by (simp add: elems_def)

lemma seg_elems: "0 < w \<Longrightarrow> length buf = m * w \<Longrightarrow> i < m \<Longrightarrow> seg (i * w) w buf = elems w buf ! i"
  by (simp add: elems_def)

lemma slot_inside: "i < m \<Longrightarrow> i * w + w \<le> m * (w :: nat)"
  using mult_le_mono1 [of "Suc i" m w] by simp

lemma elems_update:
  assumes w: "0 < w" and len: "length buf = m * w" and i: "i < m" and x: "length x = w"
  shows "elems w (copy_at (i * w) x buf) = (elems w buf)[i := x]"
    and "length (copy_at (i * w) x buf) = m * w"
proof -
  have fits: "i * w + length x \<le> length buf" using slot_inside [OF i, of w] x len by simp
  then show len': "length (copy_at (i * w) x buf) = m * w" using len by simp
  show "elems w (copy_at (i * w) x buf) = (elems w buf)[i := x]"
  proof (rule nth_equalityI)
    show "length (elems w (copy_at (i * w) x buf)) = length ((elems w buf)[i := x])"
      using elems_length [OF w len] elems_length [OF w len'] by simp
    fix j assume "j < length (elems w (copy_at (i * w) x buf))"
    then have j: "j < m" using elems_length [OF w len'] by simp
    show "elems w (copy_at (i * w) x buf) ! j = (elems w buf)[i := x] ! j"
    proof (cases "j = i")
      case True
      have "elems w (copy_at (i * w) x buf) ! j = seg (j * w) w (copy_at (i * w) x buf)"
        by (simp only: seg_elems [OF w len' j])
      with True show ?thesis using seg_copy_at_same [OF fits] x elems_length [OF w len] j by simp
    next
      case False
      then have "j * w + w \<le> i * w \<or> i * w + w \<le> j * w"
        using slot_inside [of j i w] slot_inside [of i j w] by linarith
      then have "seg (j * w) w (copy_at (i * w) x buf) = seg (j * w) w buf"
        using fits slot_inside [OF j, of w] len x by (intro seg_copy_at_other) auto
      then show ?thesis using False by (simp add: seg_elems [OF w len' j] seg_elems [OF w len j])
    qed
  qed
qed

lemma elems_swap:
  assumes "0 < w" and "length buf = m * w" and "i < m" and "k < m"
  shows "elems w (copy_at (i * w) (seg (k * w) w buf) (copy_at (k * w) (seg (i * w) w buf) buf))
      = (elems w buf)[k := elems w buf ! i, i := elems w buf ! k]"
    and "length (copy_at (i * w) (seg (k * w) w buf) (copy_at (k * w) (seg (i * w) w buf) buf)) = m * w"
proof -
  have l: "length (seg (j * w) w buf) = w" if "j < m" for j
    using slot_inside [OF that, of w] assms(2) by simp
  note 1 = elems_update [OF assms(1,2,4) l [OF assms(3)]]
  note 2 = elems_update [OF assms(1) 1(2) assms(3) l [OF assms(4)]]
  show "elems w (copy_at (i * w) (seg (k * w) w buf) (copy_at (k * w) (seg (i * w) w buf) buf))
      = (elems w buf)[k := elems w buf ! i, i := elems w buf ! k]"
    unfolding 2(1) 1(1) using assms by (simp only: seg_elems)
  show "length (copy_at (i * w) (seg (k * w) w buf) (copy_at (k * w) (seg (i * w) w buf) buf)) = m * w"
    by (rule 2(2))
qed

lemma qs_loop_refines:
  assumes w: "0 < w" and le: "\<And>x y. le x y \<longleftrightarrow> cmp x y \<le> 0" and n: "0 < n" "b + n \<le> m"
  shows "length buf = m * w \<Longrightarrow> k \<le> i \<Longrightarrow> i \<le> n - 1 \<Longrightarrow>
    qs_loop cmp w (b * w) n i k buf t = (k', buf', t') \<Longrightarrow>
    length buf' = m * w \<and> el_loop le b n i k (elems w buf) = (k', elems w buf')"
proof (induction "n - 1 - i" arbitrary: i k buf t rule: less_induct)
  case less
  show ?case
  proof (cases "i < n - 1")
    case False
    with less.prems show ?thesis by (subst (asm) qs_loop.simps, subst el_loop.simps) simp
  next
    case True
    have slot: "b * w + j * w = (b + j) * w" for j by (simp add: algebra_simps)
    have idx: "b + i < m" "b + k < m" "b + (n - 1) < m" using n less.prems(2) True by linarith+
    note el = seg_elems [OF w less.prems(1) idx(1)] seg_elems [OF w less.prems(1) idx(3)]
    have dec: "n - 1 - (i + 1) < n - 1 - i" using True by linarith
    show ?thesis
    proof (cases "le (elems w buf ! (b + i)) (elems w buf ! (b + (n - 1)))")
      case False
      then have "qs_loop cmp w (b * w) n (i + 1) k buf t = (k', buf', t')"
        using less.prems(4) True el by (subst (asm) qs_loop.simps) (simp add: slot le)
      from less.hyps [OF dec less.prems(1) _ _ this] less.prems(2) True False show ?thesis
        by (subst el_loop.simps) simp
    next
      case le': True
      let ?buf = "copy_at ((b + i) * w) (seg ((b + k) * w) w buf)
        (copy_at ((b + k) * w) (seg ((b + i) * w) w buf) buf)"
      note swap = elems_swap [OF w less.prems(1) idx(1,2)]
      have "qs_loop cmp w (b * w) n (i + 1) (k + 1) ?buf (seg ((b + k) * w) w buf) = (k', buf', t')"
        using less.prems(4) True el le' by (subst (asm) qs_loop.simps) (simp add: slot le Let_def)
      from less.hyps [OF dec swap(2) _ _ this] less.prems(2) True le' show ?thesis
        by (subst el_loop.simps) (simp add: swap(1))
    qed
  qed
qed

lemma QuickSortWorker_refines:
  assumes w: "0 < w" and le: "\<And>x y. le x y \<longleftrightarrow> cmp x y \<le> 0"
  shows "length buf = m * w \<Longrightarrow> b + n \<le> m \<Longrightarrow>
    QuickSortWorker cmp w (b * w) n buf t = (buf', t') \<Longrightarrow>
    length buf' = m * w \<and> elems w buf' = el_sort le b n (elems w buf)"
proof (induction n arbitrary: b buf t buf' t' rule: less_induct)
  case (less n)
  show ?case
  proof (cases "n < 2")
    case True
    with less.prems show ?thesis by (subst (asm) QuickSortWorker.simps, subst el_sort.simps) simp
  next
    case False
    have slot: "b * w + j * w = (b + j) * w" for j by (simp add: algebra_simps)
    obtain k buf1 t1 where loop: "qs_loop cmp w (b * w) n 0 0 buf t = (k, buf1, t1)" by (metis prod.exhaust)
    from qs_loop_refines [OF w le _ less.prems(2,1) _ _ loop] False have
      el: "length buf1 = m * w" "el_loop le b n 0 0 (elems w buf) = (k, elems w buf1)" by auto
    have k: "k \<le> n - 1" using qs_loop_bound [of 0 0 n cmp w "b * w" buf t] loop by simp
    with False less.prems(2) have idx: "b + k < m" "b + (n - 1) < m" by linarith+
    let ?t = "seg ((b + (n - 1)) * w) w buf1"
    let ?buf = "copy_at ((b + k) * w) ?t (copy_at ((b + (n - 1)) * w) (seg ((b + k) * w) w buf1) buf1)"
    note swap = elems_swap [OF w el(1) idx]
    obtain buf2 t2 where left: "QuickSortWorker cmp w (b * w) k ?buf ?t = (buf2, t2)" by (metis prod.exhaust)
    have "k < n" "b + k \<le> m" using k False idx by linarith+
    from less.IH [OF this(1) swap(2) this(2) left] have
      buf2: "length buf2 = m * w" "elems w buf2 = el_sort le b k (elems w ?buf)" by blast+
    have slot': "w + (b + k) * w = b * w + (w + k * w)" by (simp add: algebra_simps)
    have "QuickSortWorker cmp w ((b + (k + 1)) * w) (n - k - 1) buf2 t2 = (buf', t')"
      using less.prems(3) False loop left w
      by (subst (asm) QuickSortWorker.simps) (simp add: Let_def slot slot')
    moreover have "n - k - 1 < n" "b + (k + 1) + (n - k - 1) \<le> m" using k False less.prems(2) by linarith+
    ultimately have "length buf' = m * w \<and> elems w buf' = el_sort le (b + (k + 1)) (n - k - 1) (elems w buf2)"
      by (intro less.IH buf2(1))
    moreover from swap(1) buf2(2) have "elems w buf2 = el_sort le b k
        ((elems w buf1)[b + (n - 1) := elems w buf1 ! (b + k), b + k := elems w buf1 ! (b + (n - 1))])"
      by (simp only:)
    ultimately show ?thesis using False by (subst el_sort.simps) (simp add: el(2) Let_def)
  qed
qed

section \<open>The elements are sorted\<close>

text \<open>Only the elements from \<open>b\<close> to \<open>b + n\<close> change, and they are permuted.\<close>

definition within :: "nat \<Rightarrow> nat \<Rightarrow> 'a list \<Rightarrow> 'a list \<Rightarrow> bool" where
  "within b n xs ys \<longleftrightarrow> mset ys = mset xs \<and> length ys = length xs
    \<and> (\<forall>j. j < b \<or> b + n \<le> j \<longrightarrow> ys ! j = xs ! j)"

lemma within_refl: "within b n xs xs"
  by (simp add: within_def)

lemma within_trans: "within b n xs ys \<Longrightarrow> within b n ys zs \<Longrightarrow> within b n xs zs"
  by (simp add: within_def)

lemma within_mono: "within b' n' xs ys \<Longrightarrow> b \<le> b' \<Longrightarrow> b' + n' \<le> b + n \<Longrightarrow> within b n xs ys"
  by (auto simp: within_def)

lemma within_swap:
  "b \<le> i \<Longrightarrow> i < b + n \<Longrightarrow> b \<le> k \<Longrightarrow> k < b + n \<Longrightarrow> b + n \<le> length xs \<Longrightarrow>
    within b n xs (xs[k := xs ! i, i := xs ! k])"
  by (auto simp: within_def mset_swap)

lemma within_seg:
  assumes "within b n xs ys" and "b + n \<le> length xs"
  shows "mset (seg b n ys) = mset (seg b n xs)"
proof -
  have split: "zs = take b zs @ seg b n zs @ drop (b + n) zs" for zs :: "'a list"
    by (metis seg_def append_take_drop_id drop_drop add.commute)
  have "take b ys = take b xs" "drop (b + n) ys = drop (b + n) xs"
    using assms by (auto simp: within_def intro!: nth_equalityI)
  then have "mset (take b xs) + (mset (seg b n ys) + mset (drop (b + n) xs))
      = mset (take b xs) + (mset (seg b n xs) + mset (drop (b + n) xs))"
    using assms(1) split [of xs] split [of ys] unfolding within_def by (metis mset_append)
  then show ?thesis by simp
qed

lemma el_loop_spec:
  "k \<le> i \<Longrightarrow> i \<le> n - 1 \<Longrightarrow> 0 < n \<Longrightarrow> b + n \<le> length xs \<Longrightarrow>
    \<forall>j < k. le (xs ! (b + j)) (xs ! (b + (n - 1))) \<Longrightarrow>
    \<forall>j. k \<le> j \<and> j < i \<longrightarrow> \<not> le (xs ! (b + j)) (xs ! (b + (n - 1))) \<Longrightarrow>
    el_loop le b n i k xs = (k', ys) \<Longrightarrow>
    within b (n - 1) xs ys \<and> k' \<le> n - 1 \<and> (\<forall>j < k'. le (ys ! (b + j)) (ys ! (b + (n - 1))))
    \<and> (\<forall>j. k' \<le> j \<and> j < n - 1 \<longrightarrow> \<not> le (ys ! (b + j)) (ys ! (b + (n - 1))))"
proof (induction le b n i k xs arbitrary: k' ys rule: el_loop.induct)
  case (1 le b n i k xs)
  show ?case
  proof (cases "i < n - 1")
    case False
    with "1.prems" show ?thesis by (subst (asm) el_loop.simps) (auto simp: within_refl)
  next
    case True
    show ?thesis
    proof (cases "le (xs ! (b + i)) (xs ! (b + (n - 1)))")
      case False
      have "el_loop le b n (i + 1) k xs = (k', ys)"
        using "1.prems"(7) True False by (subst (asm) el_loop.simps) simp
      moreover have "\<forall>j. k \<le> j \<and> j < i + 1 \<longrightarrow> \<not> le (xs ! (b + j)) (xs ! (b + (n - 1)))"
        using "1.prems"(6) False by (auto simp: less_Suc_eq)
      ultimately show ?thesis using "1.IH"(2) [OF True False] "1.prems" True by auto
    next
      case le: True
      let ?xs = "xs[b + k := xs ! (b + i), b + i := xs ! (b + k)]"
      have "el_loop le b n (i + 1) (k + 1) ?xs = (k', ys)"
        using "1.prems"(7) True le by (subst (asm) el_loop.simps) simp
      moreover have nth: "?xs ! (b + j) = (if j = i then xs ! (b + k) else if j = k then xs ! (b + i) else xs ! (b + j))"
        if "j < n" for j using that "1.prems"(1,2,4) True by (auto simp: nth_list_update)
      moreover have "\<forall>j < k + 1. le (?xs ! (b + j)) (?xs ! (b + (n - 1)))"
        using "1.prems" True le nth by (auto simp: less_Suc_eq)
      moreover have "\<forall>j. k + 1 \<le> j \<and> j < i + 1 \<longrightarrow> \<not> le (?xs ! (b + j)) (?xs ! (b + (n - 1)))"
        using "1.prems" True le nth by (auto simp: less_Suc_eq)
      ultimately have "within b (n - 1) ?xs ys \<and> k' \<le> n - 1 \<and> (\<forall>j < k'. le (ys ! (b + j)) (ys ! (b + (n - 1))))
        \<and> (\<forall>j. k' \<le> j \<and> j < n - 1 \<longrightarrow> \<not> le (ys ! (b + j)) (ys ! (b + (n - 1))))"
        using "1.IH"(1) [OF True le] "1.prems"(1-4) True by auto
      moreover have "within b (n - 1) xs ?xs"
        using "1.prems"(1-4) True by (intro within_swap) auto
      ultimately show ?thesis by (blast intro: within_trans)
    qed
  qed
qed

lemma seg_append: "seg b (m + n) xs = seg b m xs @ seg (b + m) n xs"
  by (simp add: seg_def take_add add.commute)

lemma seg_one: "b < length xs \<Longrightarrow> seg b 1 xs = [xs ! b]"
  by (simp add: seg_def Cons_nth_drop_Suc [symmetric])

lemma seg_split:
  assumes "k < n" and "b + n \<le> length xs"
  shows "seg b n xs = seg b k xs @ xs ! (b + k) # seg (b + (k + 1)) (n - k - 1) xs"
proof -
  have "seg b (k + (1 + (n - k - 1))) xs = seg b k xs @ seg (b + k) 1 xs @ seg (b + (k + 1)) (n - k - 1) xs"
    by (simp only: seg_append add.assoc)
  with assms show ?thesis by (simp add: seg_one [unfolded One_nat_def])
qed

lemma set_seg: "b + n \<le> length xs \<Longrightarrow> set (seg b n xs) = {xs ! (b + j) | j. j < n}"
  by (auto simp: set_conv_nth nth_seg) (metis nth_seg)

lemma within_outside: "within b' n' xs ys \<Longrightarrow> b + n \<le> length xs \<Longrightarrow> b + n \<le> b' \<or> b' + n' \<le> b \<Longrightarrow>
    seg b n ys = seg b n xs"
  by (rule nth_equalityI) (auto simp: within_def nth_seg)

lemma el_sort_spec:
  assumes total: "\<And>x y. le x y \<or> le y x" and trans: "\<And>x y z. le x y \<Longrightarrow> le y z \<Longrightarrow> le x z"
  shows "b + n \<le> length xs \<Longrightarrow> within b n xs (el_sort le b n xs) \<and> sorted_wrt le (seg b n (el_sort le b n xs))"
proof (induction n arbitrary: b xs rule: less_induct)
  case (less n)
  show ?case
  proof (cases "n < 2")
    case True
    then have "length (seg b n xs) < 2" using less.prems by simp
    then have "sorted_wrt le (seg b n xs)" by (cases "seg b n xs"; cases "tl (seg b n xs)") auto
    with True show ?thesis by (subst (1 2) el_sort.simps) (simp add: within_refl)
  next
    case False
    let ?l = "n - 1"
    obtain k ys where loop: "el_loop le b n 0 0 xs = (k, ys)" by (metis prod.exhaust)
    from el_loop_spec [OF _ _ _ less.prems _ _ loop] False have
      ys: "within b ?l xs ys" "k \<le> ?l" "\<forall>j < k. le (ys ! (b + j)) (ys ! (b + ?l))"
        "\<forall>j. k \<le> j \<and> j < ?l \<longrightarrow> \<not> le (ys ! (b + j)) (ys ! (b + ?l))" by auto
    have ly: "length ys = length xs" using ys(1) by (simp add: within_def)
    have k: "k < n" using ys(2) False by linarith
    define zs where "zs = ys[b + ?l := ys ! (b + k), b + k := ys ! (b + ?l)]"
    have "within b n ys zs"
      unfolding zs_def using less.prems k ly by (intro within_swap) auto
    moreover have "within b n xs ys" using ys(1) by (rule within_mono) auto
    ultimately have w1: "within b n xs zs" by (blast intro: within_trans)
    have lz: "length zs = length xs" using w1 by (simp add: within_def)
    have nth: "zs ! (b + j) = (if j = k then ys ! (b + ?l) else if j = ?l then ys ! (b + k) else ys ! (b + j))"
      if "j < n" for j using that k less.prems ly by (auto simp: zs_def nth_list_update)
    let ?p = "ys ! (b + ?l)"
    define us where "us = el_sort le b k zs"
    define vs where "vs = el_sort le (b + (k + 1)) (n - k - 1) us"
    have fit: "b + k \<le> length zs" "b + (k + 1) + (n - k - 1) \<le> length zs" using k less.prems lz by linarith+
    have us: "within b k zs us" "sorted_wrt le (seg b k us)"
      using less.IH [OF k fit(1)] by (simp_all add: us_def)
    then have lu: "length us = length zs" by (simp add: within_def)
    have dec: "n - k - 1 < n" using k by linarith
    have vs: "within (b + (k + 1)) (n - k - 1) us vs" "sorted_wrt le (seg (b + (k + 1)) (n - k - 1) vs)"
      using less.IH [OF dec, of "b + (k + 1)" us] fit(2) lu by (simp_all add: vs_def)
    have left: "seg b k vs = seg b k us" using vs(1) fit lu by (intro within_outside) auto
    have p: "vs ! (b + k) = ?p"
      using vs(1) us(1) nth [OF k] by (auto simp: within_def)
    have "set (seg b k us) = set (seg b k zs)" using within_seg [OF us(1) fit(1)] by (rule mset_eq_setD)
    then have small: "le x ?p" if "x \<in> set (seg b k us)" for x
      using that ys(2,3) k nth fit(1) by (auto simp: set_seg)
    have same: "seg (b + (k + 1)) (n - k - 1) us = seg (b + (k + 1)) (n - k - 1) zs"
      using us(1) fit by (intro within_outside) auto
    have set: "set (seg (b + (k + 1)) (n - k - 1) vs) = set (seg (b + (k + 1)) (n - k - 1) us)"
      using within_seg [OF vs(1)] fit(2) lu by (metis mset_eq_setD)
    have big: "le ?p x" if "x \<in> set (seg (b + (k + 1)) (n - k - 1) vs)" for x
    proof -
      from that same set obtain j where j: "j < n - k - 1" "x = zs ! (b + (k + 1 + j))"
        using fit(2) by (auto simp: set_seg add.assoc)
      moreover have "k + 1 + j < n" "k + 1 + j \<noteq> k" using j(1) by linarith+
      moreover have "k + 1 + j = ?l \<or> k \<le> k + 1 + j \<and> k + 1 + j < ?l" "k + 1 + j = ?l \<Longrightarrow> k < ?l"
        using j(1) by linarith+
      ultimately have "\<not> le x ?p" using nth [of "k + 1 + j"] ys(4) by (metis le_refl)
      with total show ?thesis by blast
    qed
    have "within b n zs us" "within b n us vs"
      using k by (auto intro!: within_mono [OF us(1)] within_mono [OF vs(1)])
    with w1 have "within b n xs vs" by (blast intro: within_trans)
    moreover have "seg b n vs = seg b k us @ ?p # seg (b + (k + 1)) (n - k - 1) vs"
      using seg_split [OF k, of b vs] vs(1) less.prems lu lz left p by (simp add: within_def)
    moreover have "el_sort le b n xs = vs"
      using False by (subst el_sort.simps) (simp add: loop Let_def vs_def us_def zs_def)
    moreover have "le x y" if "x \<in> set (seg b k us)" "y \<in> set (seg (b + (k + 1)) (n - k - 1) vs)" for x y
      using trans [OF small big] that by blast
    ultimately show ?thesis
      using us(2) vs(2) small big by (simp add: sorted_wrt_append)
  qed
qed

section \<open>qsort\<close>

text \<open>The call of any client of an allocator: the scratch buffer is given back.\<close>

context scratch_allocator
begin

lemma qsort_in_result:
  assumes "inv s" and "0 < width" and "malloc s width = Inr (Some p, s1)"
    and "num * width \<le> length buf"
  shows "\<exists>s'. qsort_in malloc dealloc contents (Some cmp) (Some buf) num width s
      = Inr (fst (QuickSortWorker cmp width 0 num buf (contents s1 p)), s') \<and> inv s' \<and> live s' = live s"
proof -
  from scratch_restores [OF assms(1-3)] obtain s' where
    s': "dealloc s1 (Some p) = Inr s'" "inv s'" "live s' = live s" by blast
  with assms(3,4) show ?thesis by (simp add: qsort_in_def split: prod.split)
qed

end

lemma QuickSortWorker_sorts:
  assumes w: "0 < w" and len: "length buf = m * w" and n: "n \<le> m"
    and total: "\<And>x y. cmp x y \<le> 0 \<or> cmp y x \<le> 0"
    and trans: "\<And>x y z. cmp x y \<le> 0 \<Longrightarrow> cmp y z \<le> 0 \<Longrightarrow> cmp x z \<le> 0"
  shows "let buf' = fst (QuickSortWorker cmp w 0 n buf t) in length buf' = length buf
    \<and> mset (take n (elems w buf')) = mset (take n (elems w buf))
    \<and> drop n (elems w buf') = drop n (elems w buf)
    \<and> sorted_wrt (\<lambda>x y. cmp x y \<le> 0) (take n (elems w buf'))"
proof -
  let ?le = "\<lambda>x y. cmp x y \<le> 0"
  obtain buf' t' where q: "QuickSortWorker cmp w (0 * w) n buf t = (buf', t')" by (metis prod.exhaust)
  from QuickSortWorker_refines [OF w _ len _ q, of ?le] n have
    buf': "length buf' = m * w" "elems w buf' = el_sort ?le 0 n (elems w buf)" by simp_all
  have le: "0 + n \<le> length (elems w buf)" using n elems_length [OF w len] by simp
  from el_sort_spec [OF total trans le] have
    el: "within 0 n (elems w buf) (elems w buf')" "sorted_wrt ?le (seg 0 n (elems w buf'))"
    by (simp_all add: buf'(2))
  have "drop n (elems w buf') = drop n (elems w buf)"
    using el(1) by (intro nth_equalityI) (auto simp: within_def)
  with el within_seg [OF el(1) le] q buf'(1) len show ?thesis by (simp add: seg_def)
qed

text \<open>C14: \<^verbatim>\<open>qsort\<close> with a comparison function that is a total preorder. When \<^verbatim>\<open>malloc\<close> has a scratch buffer, the first
  \<open>num\<close> elements of the array are permuted into order, the others stay, and the heap has the
  same live blocks as before.\<close>

theorem qsort_sorts:
  assumes inv: "heap_inv s" and width: "0 < width" and len: "length buf = m * width" and num: "num \<le> m"
    and total: "\<And>x y. cmp x y \<le> 0 \<or> cmp y x \<le> 0"
    and trans: "\<And>x y z. cmp x y \<le> 0 \<Longrightarrow> cmp y z \<le> 0 \<Longrightarrow> cmp x z \<le> 0"
    and malloc: "crt_malloc junk s width = Inr (Some p, s1)"
  shows "\<exists>buf' s'. qsort junk (Some cmp) (Some buf) num width s = Inr (buf', s')
    \<and> heap_inv s' \<and> crt_live s' = crt_live s \<and> length buf' = length buf
    \<and> mset (take num (elems width buf')) = mset (take num (elems width buf))
    \<and> drop num (elems width buf') = drop num (elems width buf)
    \<and> sorted_wrt (\<lambda>x y. cmp x y \<le> 0) (take num (elems width buf'))"
proof -
  have "num * width \<le> length buf" using num len by simp
  from crt_heap.qsort_in_result [OF inv width malloc this, of "\<lambda>s p. case_option [] id (ch_data s p)" cmp]
  obtain s' where q: "qsort junk (Some cmp) (Some buf) num width s
      = Inr (fst (QuickSortWorker cmp width 0 num buf (case_option [] id (ch_data s1 p))), s')"
    "heap_inv s'" "crt_live s' = crt_live s" unfolding qsort_def by blast
  have "let buf' = fst (QuickSortWorker cmp width 0 num buf (case_option [] id (ch_data s1 p))) in
      length buf' = length buf
    \<and> mset (take num (elems width buf')) = mset (take num (elems width buf))
    \<and> drop num (elems width buf') = drop num (elems width buf)
    \<and> sorted_wrt (\<lambda>x y. cmp x y \<le> 0) (take num (elems width buf'))"
    by (rule QuickSortWorker_sorts [OF width len num]) (fact total, erule (1) trans)
  with q show ?thesis unfolding Let_def by blast
qed

definition first_byte :: compare_fn where
  "first_byte x y = int (unat (hd x)) - int (unat (hd y))"

theorem qsort_sorts_witness:
  "\<exists>buf' s'. qsort (\<lambda>_ _. 0) (Some first_byte) (Some [3, 0, 1, 0, 2, 0, 9, 9]) 3 2 small_heap = Inr (buf', s')
    \<and> heap_inv s' \<and> crt_live s' = crt_live small_heap \<and> length buf' = length [3, 0, 1, 0, 2, 0, 9, 9 :: byte]
    \<and> mset (take 3 (elems 2 buf')) = mset (take 3 (elems 2 [3, 0, 1, 0, 2, 0, 9, 9]))
    \<and> drop 3 (elems 2 buf') = drop 3 (elems 2 [3, 0, 1, 0, 2, 0, 9, 9])
    \<and> sorted_wrt (\<lambda>x y. first_byte x y \<le> 0) (take 3 (elems 2 buf'))"
proof -
  have "heap_inv small_heap" by (simp add: heap_inv_def small_heap_def pool_inv_def new_head_def)
  moreover have "\<exists>s1. crt_malloc (\<lambda>_ _. 0) small_heap 2 = Inr (Some 1, s1)"
    by (simp add: crt_malloc_def AllocatePool_def small_heap_def CRYPTMEM_OVERHEAD_def)
  ultimately show ?thesis
    by (elim exE, intro qsort_sorts [where m = 4]) (auto simp: first_byte_def)
qed

end
