(* ===== verification/CrtString.thy ===== *)
theory CrtString
  imports Prelude
begin

text \<open>
  The string functions of \<^verbatim>\<open>SysCall/CrtWrapper.c\<close> with loops of their own, and the character
  classification.

  \<^item> A string argument is the list of bytes from the pointer to the end of the object; a read behind it is
    a fault. A C string in it ends at the first NUL.
  \<^item> Whether \<^verbatim>\<open>char\<close> is signed depends on the compiler: \<open>ch\<close> is its conversion to \<^verbatim>\<open>int\<close>.
  \<^item> A returned pointer is an offset from the argument, \<open>None\<close> for NULL.
\<close>

section \<open>Characters\<close>

definition tolower :: "int \<Rightarrow> int" where
  "tolower c = (if 65 \<le> c \<and> c \<le> 90 then c - (65 - 97) else c)"

definition isdigit :: "int \<Rightarrow> bool" where
  "isdigit c \<longleftrightarrow> 48 \<le> c \<and> c \<le> 57"

definition isxdigit :: "int \<Rightarrow> bool" where
  "isxdigit c \<longleftrightarrow> 48 \<le> c \<and> c \<le> 57 \<or> 97 \<le> c \<and> c \<le> 102 \<or> 65 \<le> c \<and> c \<le> 70"

definition isspace :: "int \<Rightarrow> bool" where
  "isspace c \<longleftrightarrow> c = 32"

definition isalnum :: "int \<Rightarrow> bool" where
  "isalnum c \<longleftrightarrow> 48 \<le> c \<and> c \<le> 57 \<or> 97 \<le> c \<and> c \<le> 122 \<or> 65 \<le> c \<and> c \<le> 90"

definition isupper :: "int \<Rightarrow> bool" where
  "isupper c \<longleftrightarrow> 65 \<le> c \<and> c \<le> 90"

section \<open>Scans\<close>

fun strrchr_from :: "(byte \<Rightarrow> int) \<Rightarrow> int \<Rightarrow> nat option \<Rightarrow> nat \<Rightarrow> byte list \<Rightarrow> nat option res" where
  "strrchr_from ch c save i [] = Inl OobRead"
| "strrchr_from ch c save i (b # bs) =
    (let save = (if ch b = c then Some i else save)
     in if b = 0 then Inr save else strrchr_from ch c save (Suc i) bs)"

definition strrchr :: "(byte \<Rightarrow> int) \<Rightarrow> byte list \<Rightarrow> int \<Rightarrow> nat option res" where
  "strrchr ch str c = strrchr_from ch c None 0 str"

text \<open>The body of the \<^verbatim>\<open>do\<close> loop, for a count that is not 0.\<close>

fun casecmp_loop :: "(byte \<Rightarrow> int) \<Rightarrow> byte list \<Rightarrow> byte list \<Rightarrow> nat \<Rightarrow> int res" where
  "casecmp_loop ch (a # s1) (b # s2) n =
    (let Val = tolower (ch a) - tolower (ch b)
     in if Val \<noteq> 0 then Inr Val
        else (case s1 of
                [] \<Rightarrow> Inl OobRead
              | c # _ \<Rightarrow> if c = 0 then Inr 0
                         else if n - 1 \<noteq> 0 then casecmp_loop ch s1 s2 (n - 1) else Inr 0))"
| "casecmp_loop ch s1 s2 n = Inl OobRead"

definition strncasecmp :: "(byte \<Rightarrow> int) \<Rightarrow> byte list option \<Rightarrow> byte list option \<Rightarrow> nat \<Rightarrow> int res" where
  "strncasecmp ch s1 s2 n =
    (case (s1, s2) of
       (Some s1, Some s2) \<Rightarrow> if n \<noteq> 0 then casecmp_loop ch s1 s2 n else Inr 0
     | _ \<Rightarrow> Inl AssertFailed)"

fun strpbrk_in :: "byte \<Rightarrow> byte list \<Rightarrow> bool res" where
  "strpbrk_in c [] = Inl OobRead"
| "strpbrk_in c (a # accept) =
    (if a = 0 then Inr False else if c = a then Inr True else strpbrk_in c accept)"

fun strpbrk_from :: "byte list \<Rightarrow> nat \<Rightarrow> byte list \<Rightarrow> nat option res" where
  "strpbrk_from accept i [] = Inl OobRead"
| "strpbrk_from accept i (b # bs) =
    (if b = 0 then Inr None
     else bind_res (strpbrk_in b accept) (\<lambda>t. if t then Inr (Some i) else strpbrk_from accept (Suc i) bs))"

definition strpbrk :: "byte list \<Rightarrow> byte list \<Rightarrow> nat option res" where
  "strpbrk s accept = strpbrk_from accept 0 s"

text \<open>
  \<^verbatim>\<open>strchr\<close> over \<^verbatim>\<open>AsciiStrSize\<close> and \<^verbatim>\<open>ScanMem8\<close> of the base libraries, which are parameters:
  the size of a string with its NUL, and the first offset of a byte in a buffer.
\<close>

definition strchr :: "(byte list \<Rightarrow> nat) \<Rightarrow> (byte list \<Rightarrow> byte \<Rightarrow> nat option) \<Rightarrow> byte list \<Rightarrow> byte \<Rightarrow> nat option" where
  "strchr AsciiStrSize ScanMem8 str ch = ScanMem8 (take (AsciiStrSize str) str) ch"

section \<open>Spans\<close>

text \<open>The bitmap of 32 bytes, indexed by a character: \<^verbatim>\<open>Map[c >> 3]\<close> and \<^verbatim>\<open>1 << (c & 7)\<close>.\<close>

definition map_set :: "byte list \<Rightarrow> int \<Rightarrow> byte list res" where
  "map_set Map c =
    (let i = drop_bit 3 c
     in if i < 0 \<or> i \<ge> int (length Map) then Inl OobWrite
        else Inr (Map[nat i := Map ! nat i OR push_bit (nat (c AND 7)) 1]))"

definition map_bit :: "byte list \<Rightarrow> int \<Rightarrow> bool res" where
  "map_bit Map c =
    (let i = drop_bit 3 c
     in if i < 0 \<or> i \<ge> int (length Map) then Inl OobRead
        else Inr (Map ! nat i AND push_bit (nat (c AND 7)) 1 \<noteq> 0))"

fun build_map :: "(byte \<Rightarrow> int) \<Rightarrow> byte list \<Rightarrow> byte list \<Rightarrow> byte list res" where
  "build_map ch Map [] = Inl OobRead"
| "build_map ch Map (b # s2) =
    (if b = 0 then Inr Map else bind_res (map_set Map (ch b)) (\<lambda>Map. build_map ch Map s2))"

fun count_while :: "(byte \<Rightarrow> int) \<Rightarrow> byte list \<Rightarrow> bool \<Rightarrow> nat \<Rightarrow> byte list \<Rightarrow> nat res" where
  "count_while ch Map want Count [] = Inl OobRead"
| "count_while ch Map want Count (b # s1) =
    bind_res (map_bit Map (ch b)) (\<lambda>t.
      if t = want then count_while ch Map want (Suc Count) s1 else Inr Count)"

definition strspn :: "(byte \<Rightarrow> int) \<Rightarrow> byte list \<Rightarrow> byte list \<Rightarrow> nat res" where
  "strspn ch s1 s2 =
    bind_res (build_map ch (replicate 32 0) s2) (\<lambda>Map.
      case s1 of
        [] \<Rightarrow> Inl OobRead
      | b # _ \<Rightarrow> if b \<noteq> 0 then count_while ch Map True 0 s1 else Inr 0)"

definition strcspn :: "(byte \<Rightarrow> int) \<Rightarrow> byte list \<Rightarrow> byte list \<Rightarrow> nat res" where
  "strcspn ch s1 s2 =
    bind_res (build_map ch (replicate 32 0) s2) (\<lambda>Map.
      count_while ch (Map[0 := Map ! 0 OR 1]) False 0 s1)"

section \<open>The bitmap is a set of characters\<close>

definition char_conv :: "(byte \<Rightarrow> int) \<Rightarrow> bool" where
  "char_conv ch \<longleftrightarrow> ch = uint \<or> ch = sint"

lemma char_conv_props:
  assumes "char_conv ch"
  shows "ch a = ch b \<longleftrightarrow> a = b" and "ch b = 0 \<longleftrightarrow> b = 0" and "ch b < 256"
proof -
  have u: "uint b < 256" using uint_lt2p [of b] by simp
  have s: "sint b < 256" using sint_lt [of b] by simp
  show "ch a = ch b \<longleftrightarrow> a = b"
    using assms unsigned_word_eqI [where ?'a = int, of a b] signed_word_eqI [where ?'a = int, of a b]
    by (auto simp: char_conv_def)
  show "ch b = 0 \<longleftrightarrow> b = 0"
    using assms signed_eq_0_iff [where ?'a = int, of b] by (auto simp: char_conv_def unsigned_eq_0_iff)
  show "ch b < 256" using assms u s by (auto simp: char_conv_def)
qed

definition repr_set :: "byte list \<Rightarrow> int set \<Rightarrow> bool" where
  "repr_set Map A \<longleftrightarrow> length Map = 32 \<and> A \<subseteq> {0..<256}
    \<and> (\<forall>c \<in> {0..<256}. bit (Map ! nat (drop_bit 3 c)) (nat (c AND 7)) \<longleftrightarrow> c \<in> A)"

lemma char_index:
  assumes "c \<in> {0..<256}"
  shows "0 \<le> drop_bit 3 c" "drop_bit 3 c < 32" "nat (c AND 7) < 8"
    and "c = 8 * drop_bit 3 c + (c AND 7)" "0 \<le> c AND 7"
proof -
  have d: "drop_bit 3 c = c div 8" by (simp add: drop_bit_eq_div)
  have a: "c AND 7 = c mod 8"
    using take_bit_eq_mask [of 3 c] by (simp add: take_bit_eq_mod mask_eq_exp_minus_1)
  show "0 \<le> drop_bit 3 c" "drop_bit 3 c < 32" "nat (c AND 7) < 8"
    "c = 8 * drop_bit 3 c + (c AND 7)" "0 \<le> c AND 7"
    using assms unfolding d a by auto
qed

lemma map_bit_repr:
  assumes "repr_set Map A" and "c \<in> {0..<256}"
  shows "map_bit Map c = Inr (c \<in> A)"
proof -
  have "(x :: byte) AND push_bit k 1 \<noteq> 0 \<longleftrightarrow> bit x k" if "k < 8" for x k
    using that by (simp add: and_exp_eq_0_iff_not_bit)
  then have "Map ! nat (drop_bit 3 c) AND push_bit (nat (c AND 7)) 1 \<noteq> 0 \<longleftrightarrow> c \<in> A"
    using assms char_index(3) [OF assms(2)] by (simp add: repr_set_def)
  moreover have "\<not> (drop_bit 3 c < 0 \<or> drop_bit 3 c \<ge> int (length Map))"
    using char_index(1,2) [OF assms(2)] assms(1) unfolding repr_set_def by linarith
  ultimately show ?thesis unfolding map_bit_def Let_def by (simp only: if_False)
qed

lemma map_set_repr:
  assumes r: "repr_set Map A" and c: "c \<in> {0..<256}"
  shows "\<exists>Map'. map_set Map c = Inr Map' \<and> repr_set Map' (insert c A)"
proof -
  let ?i = "nat (drop_bit 3 c)" and ?k = "nat (c AND 7)"
  let ?Map = "Map[?i := Map ! ?i OR push_bit ?k 1]"
  note ci = char_index [OF c]
  have "bit (?Map ! nat (drop_bit 3 e)) (nat (e AND 7)) \<longleftrightarrow> e \<in> insert c A" if e: "e \<in> {0..<256}" for e
  proof -
    note ei = char_index [OF e]
    have "e = c \<longleftrightarrow> nat (drop_bit 3 e) = ?i \<and> nat (e AND 7) = ?k"
      using ci ei by (metis nat_eq_iff2 nat_le_eq_zle eq_nat_nat_iff)
    moreover have "bit (Map ! nat (drop_bit 3 e)) (nat (e AND 7)) \<longleftrightarrow> e \<in> A"
      using r e by (simp add: repr_set_def)
    ultimately show ?thesis
      using ci ei r by (auto simp: repr_set_def nth_list_update bit_or_iff bit_push_bit_iff bit_1_iff bit_exp_iff)
  qed
  then have "repr_set ?Map (insert c A)" using r c by (simp add: repr_set_def)
  moreover have "map_set Map c = Inr ?Map" using ci r by (simp add: map_set_def repr_set_def Let_def)
  ultimately show ?thesis by blast
qed

lemma build_map_repr:
  assumes ch: "char_conv ch"
  shows "repr_set Map A \<Longrightarrow> 0 \<notin> set ys \<Longrightarrow> \<forall>b \<in> set ys. 0 \<le> ch b \<Longrightarrow>
    \<exists>Map'. build_map ch Map (ys @ 0 # q) = Inr Map' \<and> repr_set Map' (A \<union> ch ` set ys)"
proof (induction ys arbitrary: Map A)
  case (Cons b ys)
  have "ch b \<in> {0..<256}" using Cons.prems(3) char_conv_props(3) [OF ch] by simp
  from map_set_repr [OF Cons.prems(1) this] obtain Map1 where
    "map_set Map (ch b) = Inr Map1" "repr_set Map1 (insert (ch b) A)" by blast
  with Cons.IH [OF this(2)] Cons.prems show ?case by auto
qed simp

lemma build_map_negative:
  assumes ch: "char_conv ch"
  shows "repr_set Map A \<Longrightarrow> 0 \<notin> set ys \<Longrightarrow> \<exists>b \<in> set ys. ch b < 0 \<Longrightarrow>
    build_map ch Map (ys @ 0 # q) = Inl OobWrite"
proof (induction ys arbitrary: Map A)
  case (Cons b ys)
  show ?case
  proof (cases "ch b < 0")
    case True
    then show ?thesis using Cons.prems(2) by (simp add: map_set_def Let_def drop_bit_negative_int_iff)
  next
    case False
    then have "ch b \<in> {0..<256}" using char_conv_props(3) [OF ch] by simp
    from map_set_repr [OF Cons.prems(1) this] obtain Map1 where
      "map_set Map (ch b) = Inr Map1" "repr_set Map1 (insert (ch b) A)" by blast
    with Cons.IH [OF this(2)] Cons.prems False show ?thesis by auto
  qed
qed simp

lemma count_while_repr:
  assumes ch: "char_conv ch" and r: "repr_set Map A" and stop: "(0 \<in> A) \<noteq> want"
  shows "\<forall>b \<in> set xs. 0 \<le> ch b \<Longrightarrow>
    count_while ch Map want n (xs @ 0 # q) = Inr (n + length (takeWhile (\<lambda>b. (ch b \<in> A) = want) xs))"
proof (induction xs arbitrary: n)
  case Nil
  have "ch 0 = 0" using char_conv_props(2) [OF ch] by simp
  then show ?case using map_bit_repr [OF r, of 0] stop by simp
next
  case (Cons b xs)
  have "ch b \<in> {0..<256}" using Cons.prems char_conv_props(3) [OF ch] by simp
  from map_bit_repr [OF r this] Cons show ?case by simp
qed

section \<open>The properties\<close>

text \<open>\<^verbatim>\<open>strspn\<close> and \<^verbatim>\<open>strcspn\<close> return the length of the longest prefix of characters in, and not in, the
  second string, where all characters are not negative. With a signed \<^verbatim>\<open>char\<close> a character from 128 on
  in the second string is written outside the bitmap.\<close>

theorem span_exact:
  assumes ch: "char_conv ch" and nul: "0 \<notin> set xs" "0 \<notin> set ys"
  shows "if \<exists>b \<in> set ys. ch b < 0
    then strspn ch (xs @ 0 # p) (ys @ 0 # q) = Inl OobWrite \<and> strcspn ch (xs @ 0 # p) (ys @ 0 # q) = Inl OobWrite
    else (\<exists>b \<in> set xs. ch b < 0)
      \<or> strspn ch (xs @ 0 # p) (ys @ 0 # q) = Inr (length (takeWhile (\<lambda>b. b \<in> set ys) xs))
        \<and> strcspn ch (xs @ 0 # p) (ys @ 0 # q) = Inr (length (takeWhile (\<lambda>b. b \<notin> set ys) xs))"
proof -
  have empty: "repr_set (replicate 32 0) {}"
    using char_index by (simp add: repr_set_def nat_less_iff)
  show ?thesis
  proof (cases "\<exists>b \<in> set ys. ch b < 0")
    case True
    then show ?thesis using build_map_negative [OF ch empty nul(2)] by (simp add: strspn_def strcspn_def)
  next
    case False
    then have ge: "\<forall>b \<in> set ys. 0 \<le> ch b" by (simp add: not_less)
    from build_map_repr [OF ch empty nul(2) this] obtain Map where
      Map: "build_map ch (replicate 32 0) (ys @ 0 # q) = Inr Map" "repr_set Map (ch ` set ys)" by auto
    have mem: "ch b \<in> ch ` set ys \<longleftrightarrow> b \<in> set ys" for b
      using char_conv_props(1) [OF ch] by auto
    have "ch 0 = 0" using char_conv_props(2) [OF ch] by simp
    then have z: "0 \<notin> ch ` set ys" using mem [of 0] nul(2) by simp
    have "Map[0 := Map ! 0 OR 1] = Map[nat (drop_bit 3 0) := Map ! nat (drop_bit 3 0) OR push_bit (nat (0 AND 7)) 1]"
      by simp
    with map_set_repr [OF Map(2), of 0] have Map0: "repr_set (Map[0 := Map ! 0 OR 1]) (insert 0 (ch ` set ys))"
      by (auto simp: map_set_def Let_def split: if_splits)
    show ?thesis
    proof (cases "\<exists>b \<in> set xs. ch b < 0")
      case False
      then have ge': "\<forall>b \<in> set xs. 0 \<le> ch b" by (simp add: not_less)
      have "ch b \<noteq> 0" if "b \<in> set xs" for b using char_conv_props(2) [OF ch] that nul(1) by auto
      then have tw: "takeWhile (\<lambda>b. (ch b \<in> insert 0 (ch ` set ys)) = False) xs = takeWhile (\<lambda>b. b \<notin> set ys) xs"
        by (intro takeWhile_cong) (auto simp: mem)
      have "strspn ch (xs @ 0 # p) (ys @ 0 # q) = Inr (length (takeWhile (\<lambda>b. b \<in> set ys) xs))"
        using count_while_repr [OF ch Map(2) _ ge', of True 0 p] z nul(1) Map(1)
        by (cases xs) (auto simp: strspn_def mem)
      moreover have "strcspn ch (xs @ 0 # p) (ys @ 0 # q) = Inr (length (takeWhile (\<lambda>b. b \<notin> set ys) xs))"
        using count_while_repr [OF ch Map0 _ ge', of False 0 p] tw Map(1) by (simp add: strcspn_def)
      ultimately show ?thesis using ge by auto
    qed (use ge in \<open>auto simp: not_less\<close>)
  qed
qed

theorem span_exact_witness:
  "strspn sint [0x61, 0] [0x61, 0xE9, 0] = Inl OobWrite
    \<and> strspn uint [0x61, 0x62, 0] [0x61, 0xE9, 0] = Inr 1"
  using span_exact [of sint "[0x61]" "[0x61, 0xE9]" "[]" "[]"]
    span_exact [of uint "[0x61, 0x62]" "[0x61, 0xE9]" "[]" "[]"]
  by (simp add: char_conv_def)

lemma tolower_zero: "tolower c = tolower 0 \<longleftrightarrow> c = 0"
  by (auto simp: tolower_def)

lemma casecmp_loop_spec:
  assumes ch: "char_conv ch"
  shows "xs \<noteq> [] \<Longrightarrow> 0 \<notin> set xs \<Longrightarrow> 0 < n \<Longrightarrow> casecmp_loop ch (xs @ 0 # p) (ys @ 0 # q) n
      = Inr (case find (\<lambda>(a, b). tolower (ch a) \<noteq> tolower (ch b)) (take n (zip xs (ys @ [0]))) of
               None \<Rightarrow> 0 | Some (a, b) \<Rightarrow> tolower (ch a) - tolower (ch b))"
proof (induction xs arbitrary: ys n)
  case (Cons a xs)
  from Cons.prems(3) obtain k where n: "n = Suc k" by (cases n) auto
  have z: "ch 0 = 0" using char_conv_props(2) [OF ch] by simp
  show ?case
  proof (cases ys)
    case Nil
    have "ch a \<noteq> 0" using char_conv_props(2) [OF ch] Cons.prems(2) by auto
    with Nil n z show ?thesis by (simp add: tolower_zero)
  next
    case (Cons b ys')
    show ?thesis
    proof (cases xs)
      case Nil
      with Cons n show ?thesis by simp
    next
      case (Cons c xs')
      with \<open>ys = b # ys'\<close> n Cons.IH [of k ys'] Cons.prems(2) show ?thesis by (cases k) auto
    qed
  qed
qed simp

text \<open>\<^verbatim>\<open>strncasecmp\<close> of a first string that is not empty: the difference, ignoring case, at the
  first of its first \<open>n\<close> characters where the strings differ, and otherwise 0, also where the second string goes
  on after the end of the first. For two empty strings it reads behind their ends.\<close>

theorem strncasecmp_exact:
  assumes ch: "char_conv ch" and nul: "0 \<notin> set xs" and n: "0 < n"
  shows "(xs \<noteq> [] \<longrightarrow> strncasecmp ch (Some (xs @ 0 # p)) (Some (ys @ 0 # q)) n
      = Inr (case find (\<lambda>(a, b). tolower (ch a) \<noteq> tolower (ch b)) (take n (zip xs (ys @ [0]))) of
               None \<Rightarrow> 0 | Some (a, b) \<Rightarrow> tolower (ch a) - tolower (ch b)))
    \<and> strncasecmp ch (Some [0]) (Some [0]) n = Inl OobRead"
proof -
  have "ch 0 = 0" using char_conv_props(2) [OF ch] by simp
  then show ?thesis
    using casecmp_loop_spec [OF ch _ nul n, of p ys q] n by (simp add: strncasecmp_def tolower_def)
qed

theorem strncasecmp_exact_witness:
  "strncasecmp sint (Some [0x61, 0x62, 0]) (Some [0x41, 0x42, 0x43, 0]) 5 = Inr 0
    \<and> strncasecmp sint (Some [0]) (Some [0]) 5 = Inl OobRead"
  using strncasecmp_exact [of sint "[0x61, 0x62]" 5 "[]" "[0x41, 0x42, 0x43]" "[]"]
  by (simp add: char_conv_def tolower_def)

end
