(* ===== verification/Inet.thy ===== *)
theory Inet
  imports CrtString
begin

text \<open>
  \<^verbatim>\<open>TlsLib/SysCall/inet_pton.c\<close>: addresses in presentation format.

  \<^item> A string is the list of bytes from the pointer to the end of the object.
  \<^item> \<open>scan\<close>, the \<^verbatim>\<open>strchr\<close>, is a parameter of the loops; the properties put in the one of \<^verbatim>\<open>CrtWrapper.c\<close>.
  \<^item> \<open>Inr None\<close> is the result 0, \<open>Inr (Some bs)\<close> the result 1 with \<open>bs\<close> written to \<^verbatim>\<open>dst\<close>.
\<close>

type_synonym strchr_fn = "byte list \<Rightarrow> byte \<Rightarrow> nat option"

definition digits :: "byte list" where
  "digits = [0x30, 0x31, 0x32, 0x33, 0x34, 0x35, 0x36, 0x37, 0x38, 0x39, 0]"

definition xdigits_l :: "byte list" where
  "xdigits_l = [0x30, 0x31, 0x32, 0x33, 0x34, 0x35, 0x36, 0x37, 0x38, 0x39,
     0x61, 0x62, 0x63, 0x64, 0x65, 0x66, 0]"

definition xdigits_u :: "byte list" where
  "xdigits_u = [0x30, 0x31, 0x32, 0x33, 0x34, 0x35, 0x36, 0x37, 0x38, 0x39,
     0x41, 0x42, 0x43, 0x44, 0x45, 0x46, 0]"

definition NS_INADDRSZ :: nat where "NS_INADDRSZ = 4"
definition NS_IN6ADDRSZ :: nat where "NS_IN6ADDRSZ = 16"
definition NS_INT16SZ :: nat where "NS_INT16SZ = 2"

section \<open>inet_pton4\<close>

fun pton4_loop :: "strchr_fn \<Rightarrow> bool \<Rightarrow> nat \<Rightarrow> byte list \<Rightarrow> nat \<Rightarrow> byte list \<Rightarrow> byte list option res" where
  "pton4_loop scan saw_digit octets tmp tp [] = Inl OobRead"
| "pton4_loop scan saw_digit octets tmp tp (ch # src) =
    (if ch = 0 then (if octets < 4 then Inr None else Inr (Some tmp))
     else case scan digits ch of
       Some pch \<Rightarrow>
         if tp \<ge> length tmp then Inl OobRead
         else let new = unat (tmp ! tp) * 10 + pch
              in if new > 255 then Inr None
                 else if \<not> saw_digit then
                   (if octets + 1 > 4 then Inr None
                    else pton4_loop scan True (octets + 1) (tmp[tp := of_nat new]) tp src)
                 else pton4_loop scan saw_digit octets (tmp[tp := of_nat new]) tp src
     | None \<Rightarrow>
         if ch = 0x2E \<and> saw_digit then
           (if octets = 4 then Inr None
            else if tp + 1 \<ge> length tmp then Inl OobWrite
            else pton4_loop scan False octets (tmp[tp + 1 := 0]) (tp + 1) src)
         else Inr None)"

text \<open>\<open>junk\<close>: the contents of the local array, four bytes.\<close>

definition inet_pton4 :: "strchr_fn \<Rightarrow> byte list \<Rightarrow> byte list \<Rightarrow> byte list option res" where
  "inet_pton4 scan junk src = pton4_loop scan False 0 (junk[0 := 0]) 0 src"

section \<open>inet_pton6\<close>

text \<open>The group that is stored.\<close>

definition store16 :: "byte list \<Rightarrow> nat \<Rightarrow> nat \<Rightarrow> byte list" where
  "store16 tmp tp val = tmp[tp := of_nat (val div 256), tp + 1 := of_nat val]"

definition hex_digit :: "strchr_fn \<Rightarrow> byte \<Rightarrow> nat option" where
  "hex_digit scan ch =
    (case scan xdigits_l ch of None \<Rightarrow> scan xdigits_u ch | Some pch \<Rightarrow> Some pch)"

text \<open>The loop: \<open>Inr None\<close> for \<^verbatim>\<open>return (0)\<close>, otherwise the state after it.\<close>

fun pton6_loop ::
    "strchr_fn \<Rightarrow> byte list \<Rightarrow> byte list \<Rightarrow> bool \<Rightarrow> nat \<Rightarrow> nat \<Rightarrow> nat option \<Rightarrow> byte list \<Rightarrow> byte list
     \<Rightarrow> (bool \<times> nat \<times> nat \<times> nat option \<times> byte list) option res" where
  "pton6_loop scan junk curtok saw_xdigit val tp colonp tmp [] = Inl OobRead"
| "pton6_loop scan junk curtok saw_xdigit val tp colonp tmp (ch # src) =
    (if ch = 0 then Inr (Some (saw_xdigit, val, tp, colonp, tmp))
     else case hex_digit scan ch of
       Some pch \<Rightarrow>
         let val = val * 16 + pch
         in if val > 0xFFFF then Inr None
            else pton6_loop scan junk curtok True val tp colonp tmp src
     | None \<Rightarrow>
         if ch = 0x3A then
           (if \<not> saw_xdigit then
              (if colonp \<noteq> None then Inr None
               else pton6_loop scan junk src saw_xdigit val tp (Some tp) tmp src)
            else if tp + NS_INT16SZ > NS_IN6ADDRSZ then Inr None
            else pton6_loop scan junk src False 0 (tp + NS_INT16SZ) colonp (store16 tmp tp val) src)
         else if ch = 0x2E \<and> tp + NS_INADDRSZ \<le> NS_IN6ADDRSZ then
           bind_res (inet_pton4 scan junk curtok) (\<lambda>r.
             case r of
               None \<Rightarrow> Inr None
             | Some bs \<Rightarrow> Inr (Some (False, val, tp + NS_INADDRSZ, colonp, copy_at tp bs tmp)))
         else Inr None)"

text \<open>The shift by hand: \<open>n - i + 1\<close> iterations are left.\<close>

fun shift_loop :: "nat \<Rightarrow> nat \<Rightarrow> nat \<Rightarrow> byte list \<Rightarrow> byte list" where
  "shift_loop colonp n 0 tmp = tmp"
| "shift_loop colonp n (Suc k) tmp =
    (let i = n - k;
         tmp = tmp[NS_IN6ADDRSZ - i := tmp ! (colonp + n - i)];
         tmp = tmp[colonp + n - i := 0]
     in shift_loop colonp n k tmp)"

definition pton6_end :: "bool \<Rightarrow> nat \<Rightarrow> nat \<Rightarrow> nat option \<Rightarrow> byte list \<Rightarrow> byte list option" where
  "pton6_end saw_xdigit val tp colonp tmp =
    (if saw_xdigit \<and> tp + NS_INT16SZ > NS_IN6ADDRSZ then None
     else
       let tmp = (if saw_xdigit then store16 tmp tp val else tmp);
           tp = (if saw_xdigit then tp + NS_INT16SZ else tp)
       in case colonp of
            Some c \<Rightarrow> Some (shift_loop c (tp - c) (tp - c) tmp)
          | None \<Rightarrow> if tp \<noteq> NS_IN6ADDRSZ then None else Some tmp)"

definition inet_pton6 :: "strchr_fn \<Rightarrow> byte list \<Rightarrow> byte list \<Rightarrow> byte list option res" where
  "inet_pton6 scan junk src =
    (case src of
       [] \<Rightarrow> Inl OobRead
     | c0 # src1 \<Rightarrow>
         let start = (\<lambda>src. bind_res
               (pton6_loop scan junk src False 0 0 None (replicate NS_IN6ADDRSZ 0) src) (\<lambda>r.
                 Inr (case r of
                        None \<Rightarrow> None
                      | Some (saw_xdigit, val, tp, colonp, tmp) \<Rightarrow> pton6_end saw_xdigit val tp colonp tmp)))
         in if c0 = 0x3A then
              (case src1 of
                 [] \<Rightarrow> Inl OobRead
               | c1 # _ \<Rightarrow> if c1 \<noteq> 0x3A then Inr None else start src1)
            else start src)"

section \<open>inet_pton\<close>

definition AF_INET :: nat where "AF_INET = 2"
definition AF_INET6 :: nat where "AF_INET6 = 24"

text \<open>\<open>None\<close> is the result -1 with \<^verbatim>\<open>EAFNOSUPPORT\<close> in \<^verbatim>\<open>errno\<close>.\<close>

definition inet_pton :: "strchr_fn \<Rightarrow> byte list \<Rightarrow> nat \<Rightarrow> byte list \<Rightarrow> byte list option option res" where
  "inet_pton scan junk af src =
    (if af = AF_INET then map_sum id Some (inet_pton4 scan junk src)
     else if af = AF_INET6 then map_sum id Some (inet_pton6 scan junk src)
     else Inr None)"

section \<open>The scan for digits\<close>

text \<open>What is used of the base libraries.\<close>

definition first_index :: "byte list \<Rightarrow> byte \<Rightarrow> nat option" where
  "first_index bs v = (if v \<in> set bs then Some (length (takeWhile (\<lambda>b. b \<noteq> v) bs)) else None)"

definition base_lib :: "(byte list \<Rightarrow> nat) \<Rightarrow> (byte list \<Rightarrow> byte \<Rightarrow> nat option) \<Rightarrow> bool" where
  "base_lib AsciiStrSize ScanMem8 \<longleftrightarrow>
    (\<forall>xs q. 0 \<notin> set xs \<longrightarrow> AsciiStrSize (xs @ 0 # q) = length xs + 1) \<and> ScanMem8 = first_index"

definition digit :: "byte \<Rightarrow> nat option" where
  "digit ch = (if 0x30 \<le> ch \<and> ch \<le> 0x39 then Some (unat ch - 48) else None)"

definition hexdigit :: "byte \<Rightarrow> nat option" where
  "hexdigit ch = (if 0x30 \<le> ch \<and> ch \<le> 0x39 then Some (unat ch - 48)
     else if 0x61 \<le> ch \<and> ch \<le> 0x66 then Some (unat ch - 87)
     else if 0x41 \<le> ch \<and> ch \<le> 0x46 then Some (unat ch - 55) else None)"

definition digit_scan :: "strchr_fn \<Rightarrow> bool" where
  "digit_scan scan \<longleftrightarrow> (\<forall>ch. ch \<noteq> 0 \<longrightarrow> scan digits ch = digit ch \<and> hex_digit scan ch = hexdigit ch)"

lemma first_index_Cons:
  "first_index (b # bs) v = (if v = b then Some 0 else map_option Suc (first_index bs v))"
  by (auto simp: first_index_def)

lemma first_index_range:
  "b \<le> 256 \<Longrightarrow> first_index (map of_nat [a..<b] @ bs) v
    = (if a \<le> unat v \<and> unat v < b then Some (unat v - a) else map_option ((+) (b - a)) (first_index bs v))"
proof (induction "b - a" arbitrary: a)
  case 0
  then show ?case by (cases "first_index bs v") auto
next
  case (Suc k)
  then have ab: "a < b" "k = b - Suc a" by auto
  then have "(v = of_nat a) = (unat v = a)"
    using Suc.prems by (auto simp: unsigned_of_nat take_bit_nat_eq_self)
  moreover have "[a..<b] = a # [Suc a..<b]" using ab by (simp add: upt_rec)
  ultimately show ?case
    using Suc.hyps(1) [OF ab(2) Suc.prems] ab
    by (cases "first_index bs v") (auto simp: first_index_Cons)
qed

lemma digit_scan_strchr:
  assumes "base_lib sz sm"
  shows "digit_scan (strchr sz sm)"
proof -
  have s: "sz digits = 11" "sz xdigits_l = 17" "sz xdigits_u = 17"
  proof -
    have "sz (butlast xs @ 0 # []) = length (butlast xs) + 1" if "0 \<notin> set (butlast xs)" for xs
      using assms that unfolding base_lib_def by blast
    from this [of digits] this [of xdigits_l] this [of xdigits_u]
    show "sz digits = 11" "sz xdigits_l = 17" "sz xdigits_u = 17"
      by (simp_all add: digits_def xdigits_l_def xdigits_u_def)
  qed
  have "ch \<noteq> 0 \<longrightarrow> strchr sz sm digits ch = digit ch \<and> hex_digit (strchr sz sm) ch = hexdigit ch" for ch
  proof -
    have lists: "digits = map of_nat [48..<58] @ [0]"
      "xdigits_l = map of_nat [48..<58] @ map of_nat [97..<103] @ [0]"
      "xdigits_u = map of_nat [48..<58] @ map of_nat [65..<71] @ [0]"
      by (simp_all add: digits_def xdigits_l_def xdigits_u_def upt_rec)
    have "ch \<noteq> 0 \<longrightarrow> first_index digits ch = digit ch
      \<and> (case first_index xdigits_l ch of None \<Rightarrow> first_index xdigits_u ch | Some p \<Rightarrow> Some p) = hexdigit ch"
      unfolding lists first_index_range [OF less_imp_le, of 58, simplified]
        first_index_range [OF less_imp_le, of 103, simplified] first_index_range [OF less_imp_le, of 71, simplified]
      by (auto simp: first_index_def digit_def hexdigit_def word_le_nat_alt)
    moreover have "take 11 digits = digits" "take 17 xdigits_l = xdigits_l" "take 17 xdigits_u = xdigits_u"
      by (simp_all add: digits_def xdigits_l_def xdigits_u_def)
    ultimately show ?thesis using assms by (simp add: strchr_def hex_digit_def s base_lib_def split: option.splits)
  qed
  then show ?thesis by (simp add: digit_scan_def)
qed

section \<open>Dotted quads\<close>

text \<open>The reference: the text is split at the dots, and there are four decimal numbers up to 255.\<close>

fun split_at :: "byte \<Rightarrow> byte list \<Rightarrow> byte list list" where
  "split_at d [] = [[]]"
| "split_at d (c # cs) =
    (if c = d then [] # split_at d cs else (c # hd (split_at d cs)) # tl (split_at d cs))"

definition decimal :: "byte list \<Rightarrow> nat" where
  "decimal = foldl (\<lambda>v c. v * 10 + the (digit c)) 0"

definition octet :: "byte list \<Rightarrow> bool" where
  "octet g \<longleftrightarrow> g \<noteq> [] \<and> (\<forall>c \<in> set g. digit c \<noteq> None) \<and> decimal g \<le> 255"

definition quad :: "byte list \<Rightarrow> byte list option" where
  "quad s = (let gs = split_at 0x2E s in
    if length gs = 4 \<and> list_all octet gs then Some (map (\<lambda>g. of_nat (decimal g)) gs) else None)"

lemma split_at_nonempty: "split_at d cs \<noteq> []"
  by (induction cs) auto

lemma split_at_prefix:
  "d \<notin> set p \<Longrightarrow> split_at d (p @ cs) = (p @ hd (split_at d cs)) # tl (split_at d cs)"
  by (induction p) (auto simp: split_at_nonempty)

lemma decimal_snoc: "decimal (g @ [c]) = decimal g * 10 + the (digit c)"
  by (simp add: decimal_def)

lemma decimal_append: "decimal g \<le> decimal (g @ h)"
proof (induction h rule: rev_induct)
  case (snoc c h)
  have "decimal (g @ h) \<le> decimal ((g @ h) @ [c])" unfolding decimal_snoc by simp
  with snoc show ?case by simp
qed simp

lemma digit_dot: "digit 0x2E = None" "digit 0x3A = None" "hexdigit 0x2E = None" "hexdigit 0x3A = None"
  by (simp_all add: digit_def hexdigit_def)

text \<open>The loop with the octets \<open>done\<close> and the characters \<open>p\<close> of the current one.\<close>

lemma pton4_loop_spec:
  assumes scan: "digit_scan scan"
  shows "0 \<notin> set xs \<Longrightarrow> length tmp = 4 \<Longrightarrow> length dn \<le> 3 \<Longrightarrow> take (length dn) tmp = dn \<Longrightarrow>
    tmp ! length dn = of_nat (decimal p) \<Longrightarrow> decimal p \<le> 255 \<Longrightarrow> \<forall>c \<in> set p. digit c \<noteq> None \<Longrightarrow>
    oc = length dn + (if p = [] then 0 else 1) \<Longrightarrow>
    pton4_loop scan (p \<noteq> []) oc tmp (length dn) (xs @ 0 # q)
      = Inr (let gs = split_at 0x2E (p @ xs) in
          if length dn + length gs = 4 \<and> list_all octet gs
          then Some (dn @ map (\<lambda>g. of_nat (decimal g)) gs) else None)"
proof (induction xs arbitrary: tmp dn p oc)
  case Nil
  from Nil.prems(7) have "0x2E \<notin> set p" using digit_dot by auto
  then have gs: "split_at 0x2E p = [p]" using split_at_prefix [of "0x2E" p "[]"] by simp
  have "tmp = dn @ [of_nat (decimal p)]" if "length dn = 3"
  proof -
    have "take (Suc 3) tmp = take 3 tmp @ [tmp ! 3]"
      using Nil.prems(2) by (intro take_Suc_conv_app_nth) simp
    then show ?thesis using Nil.prems(2,4,5) that by simp
  qed
  then show ?case using Nil.prems gs by (auto simp: octet_def)
next
  case (Cons c xs)
  from Cons.prems(1) have c: "c \<noteq> 0" "0 \<notin> set xs" by auto
  with scan have sd: "scan digits c = digit c" by (simp add: digit_scan_def)
  from Cons.prems(7) have dot: "0x2E \<notin> set p" using digit_dot by auto
  show ?case
  proof (cases "digit c")
    case (Some d)
    then have "c \<noteq> 0x2E" using digit_dot by auto
    have "unat (tmp ! length dn) = decimal p"
      using Cons.prems(5,6) by (simp add: unsigned_of_nat take_bit_nat_eq_self)
    then have new: "unat (tmp ! length dn) * 10 + d = decimal (p @ [c])" using Some by (simp add: decimal_snoc)
    show ?thesis
    proof (cases "decimal (p @ [c]) > 255")
      case True
      have "split_at 0x2E (p @ c # xs) = ((p @ [c]) @ hd (split_at 0x2E xs)) # tl (split_at 0x2E xs)"
        using split_at_prefix [of "0x2E" "p @ [c]" xs] dot \<open>c \<noteq> 0x2E\<close> by simp
      moreover have "\<not> octet ((p @ [c]) @ hd (split_at 0x2E xs))"
        using True decimal_append [of "p @ [c]" "hd (split_at 0x2E xs)"] by (auto simp: octet_def)
      ultimately show ?thesis using True Cons.prems(2,3) Some c(1) sd new by simp
    next
      case False
      have "pton4_loop scan (p \<noteq> []) oc tmp (length dn) ((c # xs) @ 0 # q)
        = pton4_loop scan (p @ [c] \<noteq> []) (length dn + 1) (tmp[length dn := of_nat (decimal (p @ [c]))])
            (length dn) (xs @ 0 # q)"
        using Some False Cons.prems(2,3,8) c(1) sd new by simp
      also have "\<dots> = Inr (let gs = split_at 0x2E ((p @ [c]) @ xs) in
          if length dn + length gs = 4 \<and> list_all octet gs
          then Some (dn @ map (\<lambda>g. of_nat (decimal g)) gs) else None)"
        by (rule Cons.IH) (use Cons.prems Some False c in auto)
      finally show ?thesis by simp
    qed
  next
    case None
    show ?thesis
    proof (cases "c = 0x2E \<and> p \<noteq> []")
      case False
      have "\<not> list_all octet (split_at 0x2E (p @ c # xs))"
      proof (cases "c = 0x2E")
        case True
        with False show ?thesis by (simp add: octet_def)
      next
        case False
        with None split_at_prefix [OF dot, of "c # xs"] show ?thesis by (simp add: octet_def)
      qed
      with False None c(1) sd show ?thesis by (auto simp: Let_def)
    next
      case True
      have gs: "split_at 0x2E (p @ c # xs) = p # split_at 0x2E xs"
        using split_at_prefix [OF dot, of "c # xs"] True by simp
      have p: "octet p" using True Cons.prems(6,7) by (simp add: octet_def)
      show ?thesis
      proof (cases "length dn = 3")
        case True
        with gs None \<open>c = 0x2E \<and> p \<noteq> []\<close> c(1) sd Cons.prems(8) split_at_nonempty [of "0x2E" xs] show ?thesis
          by (auto simp: Let_def)
      next
        case False
        with Cons.prems(3) have lt: "length dn < 3" by simp
        let ?tmp = "tmp[length dn + 1 := 0]" and ?dn = "dn @ [of_nat (decimal p)]"
        have take: "take (length ?dn) ?tmp = ?dn"
          using Cons.prems(2,4,5) lt by (simp add: take_Suc_conv_app_nth)
        have "pton4_loop scan (p \<noteq> []) oc tmp (length dn) ((c # xs) @ 0 # q)
          = pton4_loop scan ([] \<noteq> ([] :: byte list)) (length ?dn) ?tmp (length ?dn) (xs @ 0 # q)"
          using True None lt Cons.prems(2,8) c(1) sd by simp
        also have "\<dots> = Inr (let gs = split_at 0x2E ([] @ xs) in
          if length ?dn + length gs = 4 \<and> list_all octet gs
          then Some (?dn @ map (\<lambda>g. of_nat (decimal g)) gs) else None)"
          by (rule Cons.IH) (use Cons.prems(2) lt c take in \<open>auto simp: decimal_def\<close>)
        finally show ?thesis using gs p by (simp add: Let_def)
      qed
    qed
  qed
qed

end
