(* ===== verification/InetProps.thy ===== *)
theory InetProps
  imports Inet
begin

text \<open>
  The properties of \<^verbatim>\<open>inet_pton\<close>: the grammar that it accepts, with its deviations, and that it stays
  within its buffers.
\<close>

section \<open>The shift\<close>

lemma zeros_update: "(replicate (Suc y) 0)[y := b] = replicate y 0 @ [b]"
  by (induction y) simp_all

lemma shift_loop_moves:
  assumes "length A = c" and "length B = n" and "c + n + Suc y = 16"
  shows "k \<le> n \<Longrightarrow> shift_loop c n k (A @ take k B @ replicate (Suc y) 0 @ drop k B)
    = A @ replicate (Suc y) 0 @ B"
proof (induction k)
  case (Suc k)
  then have k: "k < n" by simp
  let ?t = "A @ take (Suc k) B @ replicate (Suc y) 0 @ drop (Suc k) B"
  have src: "c + n - (n - k) = c + k" "NS_IN6ADDRSZ - (n - k) = c + (Suc k + y)"
    using k assms(3) by (simp_all add: NS_IN6ADDRSZ_def)
  have take: "take (Suc k) B = take k B @ [B ! k]" using k assms(2) by (simp add: take_Suc_conv_app_nth)
  have "?t ! (c + k) = B ! k" using k assms(1,2) by (simp add: nth_append)
  moreover have "?t[c + (Suc k + y) := B ! k] = A @ take (Suc k) B @ (replicate y 0 @ [B ! k]) @ drop (Suc k) B"
    using k assms(1,2) by (simp add: list_update_append zeros_update del: replicate_Suc)
  moreover have "(A @ take (Suc k) B @ (replicate y 0 @ [B ! k]) @ drop (Suc k) B)[c + k := 0]
      = A @ take k B @ replicate (Suc y) 0 @ drop k B"
    using k assms(1,2) unfolding take by (simp add: list_update_append Cons_nth_drop_Suc)
  ultimately show ?case using Suc by (simp add: src Let_def)
qed simp

lemma shift_loop_full:
  assumes "length A = c" and "length B = n" and "c + n = 16"
  shows "k \<le> n \<Longrightarrow> shift_loop c n k (A @ take k B @ replicate (n - k) 0) = A @ replicate n 0"
proof (induction k)
  case (Suc k)
  then have k: "k < n" by simp
  let ?t = "A @ take (Suc k) B @ replicate (n - Suc k) 0"
  have src: "c + n - (n - k) = c + k" "NS_IN6ADDRSZ - (n - k) = c + k"
    using k assms(3) by (simp_all add: NS_IN6ADDRSZ_def)
  have take: "take (Suc k) B = take k B @ [B ! k]" using k assms(2) by (simp add: take_Suc_conv_app_nth)
  have "n - k = Suc (n - Suc k)" using k by simp
  then have "(?t[c + k := x])[c + k := 0] = A @ take k B @ replicate (n - k) 0" for x
    using k assms(1,2) unfolding take by (simp add: list_update_append)
  then show ?case using Suc by (simp add: src Let_def)
qed simp

section \<open>Groups\<close>

definition hex_from :: "nat \<Rightarrow> byte list \<Rightarrow> nat" where
  "hex_from = foldl (\<lambda>v c. v * 16 + the (hexdigit c))"

definition group :: "byte list \<Rightarrow> bool" where
  "group g \<longleftrightarrow> g \<noteq> [] \<and> (\<forall>c \<in> set g. hexdigit c \<noteq> None) \<and> hex_from 0 g \<le> 0xFFFF"

definition group_bytes :: "byte list \<Rightarrow> byte list" where
  "group_bytes g = [of_nat (hex_from 0 g div 256), of_nat (hex_from 0 g)]"

definition groups_bytes :: "byte list list \<Rightarrow> byte list" where
  "groups_bytes gs = concat (map group_bytes gs)"

text \<open>Groups that all end in a colon, and groups with colons between them.\<close>

definition closed_text :: "byte list list \<Rightarrow> byte list" where
  "closed_text gs = concat (map (\<lambda>g. g @ [0x3A]) gs)"

definition text_of :: "byte list list \<Rightarrow> byte list" where
  "text_of gs = (if gs = [] then [] else closed_text (butlast gs) @ last gs)"

lemma hex_from_mono: "v \<le> hex_from v g"
proof (induction g arbitrary: v)
  case (Cons c g)
  have "v \<le> v * 16 + the (hexdigit c)" by simp
  also have "\<dots> \<le> hex_from v (c # g)" using Cons by (simp add: hex_from_def)
  finally show ?case .
qed (simp add: hex_from_def)

lemma length_groups_bytes: "length (groups_bytes gs) = 2 * length gs"
  by (induction gs) (simp_all add: groups_bytes_def group_bytes_def)

lemma hexdigit_zero: "hexdigit 0 = None"
  by (simp add: hexdigit_def)

lemma loop_digits:
  assumes scan: "digit_scan scan"
  shows "\<forall>c \<in> set g. hexdigit c \<noteq> None \<Longrightarrow> hex_from v g \<le> 0xFFFF \<Longrightarrow>
    pton6_loop scan junk cur saw v tp col tmp (g @ rest)
      = pton6_loop scan junk cur (saw \<or> g \<noteq> []) (hex_from v g) tp col tmp rest"
proof (induction g arbitrary: saw v)
  case (Cons c g)
  then obtain d where d: "hexdigit c = Some d" by auto
  then have "c \<noteq> 0" using hexdigit_zero by auto
  with scan d have s: "hex_digit scan c = Some d" by (simp add: digit_scan_def)
  have v: "hex_from v (c # g) = hex_from (v * 16 + d) g" by (simp add: hex_from_def d)
  with Cons.prems(2) hex_from_mono [of "v * 16 + d" g] have "\<not> v * 16 + d > 0xFFFF" by simp
  with Cons \<open>c \<noteq> 0\<close> s v show ?case by (simp add: Let_def)
qed (simp add: hex_from_def)

lemma loop_closed:
  assumes scan: "digit_scan scan"
  shows "list_all group gs \<Longrightarrow> length bs + 2 * length gs \<le> 16 \<Longrightarrow>
    \<exists>cur'. pton6_loop scan junk cur False 0 (length bs) col (bs @ replicate (16 - length bs) 0) (closed_text gs @ rest)
      = pton6_loop scan junk cur' False 0 (length bs + 2 * length gs) col
          ((bs @ groups_bytes gs) @ replicate (16 - (length bs + 2 * length gs)) 0) rest"
proof (induction gs arbitrary: bs cur)
  case Nil
  then show ?case by (auto simp: closed_text_def groups_bytes_def)
next
  case (Cons g gs)
  from Cons.prems have g: "g \<noteq> []" "\<forall>c \<in> set g. hexdigit c \<noteq> None" "hex_from 0 g \<le> 0xFFFF"
    by (auto simp: group_def)
  let ?r = "closed_text gs @ rest" and ?tmp = "bs @ replicate (16 - length bs) 0"
  have colon: "hex_digit scan 0x3A = None" using scan digit_dot by (simp add: digit_scan_def)
  have two: "16 - length bs = Suc (Suc (14 - length bs))" using Cons.prems(2) by simp
  have "pton6_loop scan junk cur False 0 (length bs) col ?tmp (closed_text (g # gs) @ rest)
    = pton6_loop scan junk cur True (hex_from 0 g) (length bs) col ?tmp (0x3A # ?r)"
    using loop_digits [OF scan g(2,3), of junk cur False "length bs" col ?tmp "0x3A # ?r"] g(1)
    by (simp add: closed_text_def)
  also have "\<dots> = pton6_loop scan junk ?r False 0 (length bs + 2) col (store16 ?tmp (length bs) (hex_from 0 g)) ?r"
    using colon Cons.prems(2) by (simp add: NS_INT16SZ_def NS_IN6ADDRSZ_def)
  also have "store16 ?tmp (length bs) (hex_from 0 g) = (bs @ group_bytes g) @ replicate (16 - (length bs + 2)) 0"
    unfolding two by (simp add: store16_def group_bytes_def list_update_append)
  finally show ?case
    using Cons.IH [of "bs @ group_bytes g" ?r] Cons.prems by (simp add: group_bytes_def groups_bytes_def)
qed

text \<open>The end of a text, after the last colon.\<close>

lemma loop_last:
  assumes scan: "digit_scan scan" and g: "group g"
  shows "pton6_loop scan junk cur False 0 tp col tmp (g @ 0 # q)
    = Inr (Some (True, hex_from 0 g, tp, col, tmp))"
proof -
  from g have "g \<noteq> []" "\<forall>c \<in> set g. hexdigit c \<noteq> None" "hex_from 0 g \<le> 0xFFFF"
    by (auto simp: group_def)
  with loop_digits [OF scan this(2,3), of junk cur False tp col tmp "0 # q"] show ?thesis by simp
qed

definition finish6 :: "nat option \<Rightarrow> nat \<Rightarrow> byte list \<Rightarrow> byte list option" where
  "finish6 col tp tmp = (case col of
     Some c \<Rightarrow> Some (shift_loop c (tp - c) (tp - c) tmp)
   | None \<Rightarrow> if tp \<noteq> 16 then None else Some tmp)"

lemma loop_text:
  assumes scan: "digit_scan scan" and gs: "list_all group gs" and fit: "length bs + 2 * length gs \<le> 16"
  shows "\<exists>saw val tp tmp. pton6_loop scan junk cur False 0 (length bs) col
        (bs @ replicate (16 - length bs) 0) (text_of gs @ 0 # q) = Inr (Some (saw, val, tp, col, tmp))
    \<and> pton6_end saw val tp col tmp = finish6 col (length bs + 2 * length gs)
        ((bs @ groups_bytes gs) @ replicate (16 - (length bs + 2 * length gs)) 0)"
proof (cases gs rule: rev_cases)
  case Nil
  then show ?thesis
    by (intro exI [of _ False] exI [of _ 0] exI [of _ "length bs"] exI [of _ "bs @ replicate (16 - length bs) 0"])
      (simp add: text_of_def groups_bytes_def pton6_end_def finish6_def NS_IN6ADDRSZ_def Let_def
        split: option.split)
next
  case (snoc gs' g)
  with gs have g: "list_all group gs'" "group g" by simp_all
  from fit snoc have fit': "length bs + 2 * length gs' \<le> 14" by simp
  let ?bs = "bs @ groups_bytes gs'"
  let ?tp = "length bs + 2 * length gs'"
  from loop_closed [OF scan g(1), of bs junk cur col "g @ 0 # q"] fit' obtain cur' where
    "pton6_loop scan junk cur False 0 (length bs) col (bs @ replicate (16 - length bs) 0)
        (closed_text gs' @ g @ 0 # q)
      = pton6_loop scan junk cur' False 0 ?tp col (?bs @ replicate (16 - ?tp) 0) (g @ 0 # q)" by auto
  then have run: "pton6_loop scan junk cur False 0 (length bs) col (bs @ replicate (16 - length bs) 0)
      (text_of gs @ 0 # q) = Inr (Some (True, hex_from 0 g, ?tp, col, ?bs @ replicate (16 - ?tp) 0))"
    using loop_last [OF scan g(2)] snoc by (simp add: text_of_def)
  have len: "length ?bs = ?tp" by (simp add: length_groups_bytes)
  have two: "16 - ?tp = Suc (Suc (14 - ?tp))" using fit' by simp
  have "store16 (?bs @ replicate (16 - ?tp) 0) (length ?bs) (hex_from 0 g)
      = (bs @ groups_bytes gs) @ replicate (14 - ?tp) 0"
    unfolding two snoc by (simp add: store16_def group_bytes_def groups_bytes_def list_update_append)
  then have "pton6_end True (hex_from 0 g) ?tp col (?bs @ replicate (16 - ?tp) 0)
    = finish6 col (length bs + 2 * length gs) ((bs @ groups_bytes gs) @ replicate (16 - (length bs + 2 * length gs)) 0)"
    using fit' snoc unfolding len
    by (simp add: pton6_end_def finish6_def NS_IN6ADDRSZ_def NS_INT16SZ_def Let_def split: option.split)
  with run show ?thesis by blast
qed

lemma group_first: "group g \<Longrightarrow> \<exists>c cs. g = c # cs \<and> c \<noteq> 0x3A"
  using digit_dot by (cases g) (auto simp: group_def)

section \<open>The properties\<close>

text \<open>\<^verbatim>\<open>inet_pton4\<close> accepts exactly four decimal numbers up to 255 with dots between them (leading zeros
  allowed), returns them, and never leaves its buffers.\<close>

theorem pton4_exact:
  assumes "base_lib sz sm" and "0 \<notin> set xs" and "length junk = 4"
  shows "inet_pton4 (strchr sz sm) junk (xs @ 0 # q) = Inr (quad xs)"
  using pton4_loop_spec [OF digit_scan_strchr [OF assms(1)] assms(2), of "junk[0 := 0]" "[]" "[]" 0 q] assms(3)
  by (simp add: inet_pton4_def quad_def decimal_def Let_def)

definition nul_size :: "byte list \<Rightarrow> nat" where
  "nul_size bs = length (takeWhile (\<lambda>b. b \<noteq> 0) bs) + 1"

lemma nul_base_lib: "base_lib nul_size first_index"
  by (auto simp: base_lib_def nul_size_def takeWhile_append)

theorem pton4_exact_witness:
  "inet_pton4 (strchr nul_size first_index) [9, 9, 9, 9] ([0x31, 0x2E, 0x32, 0x2E, 0x33, 0x2E, 0x34] @ 0 # [])
    = Inr (quad [0x31, 0x2E, 0x32, 0x2E, 0x33, 0x2E, 0x34])"
  by (rule pton4_exact [OF nul_base_lib]) simp_all

text \<open>\<^verbatim>\<open>inet_pton6\<close> on a text with ``::'': the groups before it, zeros, and the groups after it.
  Where the groups are already eight, the ones after it are lost and replaced by zeros.\<close>

theorem pton6_compressed:
  assumes lib: "base_lib sz sm" and gs: "list_all group gs1" "list_all group gs2"
    and fit: "length gs1 + length gs2 \<le> 8"
  shows "inet_pton6 (strchr sz sm) junk
      ((if gs1 = [] then [0x3A] else []) @ closed_text gs1 @ 0x3A # text_of gs2 @ 0 # q)
    = Inr (Some (groups_bytes gs1 @
        (if length gs1 + length gs2 = 8 then replicate (2 * length gs2) 0
         else replicate (16 - 2 * (length gs1 + length gs2)) 0 @ groups_bytes gs2)))"
proof -
  note scan = digit_scan_strchr [OF lib]
  let ?scan = "strchr sz sm" and ?rest = "0x3A # text_of gs2 @ 0 # q"
  let ?c = "2 * length gs1" and ?n = "2 * length gs2"
  let ?B = "groups_bytes gs1"
  have colon: "hex_digit ?scan 0x3A = None" using scan digit_dot by (simp add: digit_scan_def)
  have lenB: "length ?B = ?c" by (rule length_groups_bytes)
  from loop_closed [OF scan gs(1), of "[]" junk "closed_text gs1 @ ?rest" None ?rest] fit obtain cur where
    1: "pton6_loop ?scan junk (closed_text gs1 @ ?rest) False 0 0 None (replicate 16 0) (closed_text gs1 @ ?rest)
      = pton6_loop ?scan junk cur False 0 ?c None (?B @ replicate (16 - ?c) 0) ?rest" by auto
  have 2: "pton6_loop ?scan junk cur False 0 ?c None (?B @ replicate (16 - ?c) 0) ?rest
      = pton6_loop ?scan junk (text_of gs2 @ 0 # q) False 0 ?c (Some ?c) (?B @ replicate (16 - ?c) 0)
          (text_of gs2 @ 0 # q)"
    using colon by simp
  from loop_text [OF scan gs(2), of ?B junk "text_of gs2 @ 0 # q" "Some ?c" q] fit lenB obtain saw val tp tmp where
    3: "pton6_loop ?scan junk (text_of gs2 @ 0 # q) False 0 ?c (Some ?c) (?B @ replicate (16 - ?c) 0)
          (text_of gs2 @ 0 # q) = Inr (Some (saw, val, tp, Some ?c, tmp))"
      "pton6_end saw val tp (Some ?c) tmp
        = finish6 (Some ?c) (?c + ?n) ((?B @ groups_bytes gs2) @ replicate (16 - (?c + ?n)) 0)" by auto
  have start: "inet_pton6 ?scan junk ((if gs1 = [] then [0x3A] else []) @ closed_text gs1 @ ?rest)
    = Inr (finish6 (Some ?c) (?c + ?n) ((?B @ groups_bytes gs2) @ replicate (16 - (?c + ?n)) 0))"
  proof (cases gs1)
    case Nil
    with 1 2 3 show ?thesis by (simp add: inet_pton6_def closed_text_def NS_IN6ADDRSZ_def)
  next
    case (Cons g gs)
    with gs(1) group_first [of g] obtain c cs where "g = c # cs" "c \<noteq> 0x3A" by auto
    with 1 2 3 Cons show ?thesis by (simp add: inet_pton6_def closed_text_def NS_IN6ADDRSZ_def)
  qed
  have lenG: "length (groups_bytes gs2) = ?n" by (rule length_groups_bytes)
  have "shift_loop ?c ?n ?n ((?B @ groups_bytes gs2) @ replicate (16 - (?c + ?n)) 0)
    = ?B @ (if length gs1 + length gs2 = 8 then replicate ?n 0
         else replicate (16 - 2 * (length gs1 + length gs2)) 0 @ groups_bytes gs2)"
  proof (cases "length gs1 + length gs2 = 8")
    case True
    then have "?c + ?n = 16" by linarith
    with True shift_loop_full [OF lenB lenG this, of ?n] lenG show ?thesis by simp
  next
    case False
    with fit have y: "?c + ?n + Suc (15 - (?c + ?n)) = 16" by linarith
    moreover have "2 * (length gs1 + length gs2) = ?c + ?n" by simp
    ultimately have "16 - (?c + ?n) = Suc (15 - (?c + ?n))"
      "16 - 2 * (length gs1 + length gs2) = Suc (15 - (?c + ?n))" by linarith+
    with False shift_loop_moves [OF lenB lenG y, of ?n] lenG show ?thesis by simp
  qed
  with start show ?thesis by (simp add: finish6_def)
qed

theorem pton6_compressed_witness:
  "inet_pton6 (strchr nul_size first_index) [9, 9, 9, 9]
      ((if [[0x31]] = ([] :: byte list list) then [0x3A] else [])
       @ closed_text [[0x31]] @ 0x3A # text_of [[0x66, 0x46]] @ 0 # [])
    = Inr (Some (groups_bytes [[0x31]] @
        (if length [[0x31 :: byte]] + length [[0x66, 0x46 :: byte]] = 8
         then replicate (2 * length [[0x66, 0x46 :: byte]]) 0
         else replicate (16 - 2 * (length [[0x31 :: byte]] + length [[0x66, 0x46 :: byte]])) 0
           @ groups_bytes [[0x66, 0x46]])))"
  by (rule pton6_compressed [OF nul_base_lib])
    (simp_all add: group_def hex_from_def hexdigit_def)

text \<open>\<^verbatim>\<open>inet_pton6\<close> on eight groups with colons between them returns their bytes; also with a colon
  at the end, which is not an address.\<close>

theorem pton6_full:
  assumes lib: "base_lib sz sm" and gs: "list_all group gs" "length gs = 8"
  shows "inet_pton6 (strchr sz sm) junk (text_of gs @ 0 # q) = Inr (Some (groups_bytes gs))
    \<and> inet_pton6 (strchr sz sm) junk (closed_text gs @ 0 # q) = Inr (Some (groups_bytes gs))"
proof -
  note scan = digit_scan_strchr [OF lib]
  let ?scan = "strchr sz sm"
  obtain g1 gs' where g1: "gs = g1 # gs'" "gs' \<noteq> []" using gs(2) by (cases gs; cases "tl gs") auto
  with gs(1) group_first [of g1] obtain c cs where c: "g1 = c # cs" "c \<noteq> 0x3A" by auto
  obtain r where first: "text_of gs @ 0 # q = c # r" using c g1 by (simp add: text_of_def closed_text_def)
  obtain r' where first': "closed_text gs @ 0 # q = c # r'" using c g1 by (simp add: closed_text_def)
  from loop_text [OF scan gs(1), of "[]" junk "text_of gs @ 0 # q" None q] gs(2) obtain saw val tp tmp where
    "pton6_loop ?scan junk (text_of gs @ 0 # q) False 0 0 None (replicate 16 0) (text_of gs @ 0 # q)
      = Inr (Some (saw, val, tp, None, tmp))"
    "pton6_end saw val tp None tmp = Some (groups_bytes gs)" by (auto simp: finish6_def)
  then have "inet_pton6 ?scan junk (text_of gs @ 0 # q) = Inr (Some (groups_bytes gs))"
    using c(2) unfolding first by (simp add: inet_pton6_def NS_IN6ADDRSZ_def)
  moreover from loop_closed [OF scan gs(1), of "[]" junk "closed_text gs @ 0 # q" None "0 # q"] gs(2) obtain cur where
    "pton6_loop ?scan junk (closed_text gs @ 0 # q) False 0 0 None (replicate 16 0) (closed_text gs @ 0 # q)
      = pton6_loop ?scan junk cur False 0 16 None (groups_bytes gs) (0 # q)" by auto
  then have "inet_pton6 ?scan junk (closed_text gs @ 0 # q) = Inr (Some (groups_bytes gs))"
    using c(2) unfolding first' by (simp add: inet_pton6_def NS_IN6ADDRSZ_def pton6_end_def Let_def)
  ultimately show ?thesis ..
qed

theorem pton6_full_witness:
  "inet_pton6 (strchr nul_size first_index) [9, 9, 9, 9] (text_of (replicate 8 [0x31]) @ 0 # [])
      = Inr (Some (groups_bytes (replicate 8 [0x31])))
    \<and> inet_pton6 (strchr nul_size first_index) [9, 9, 9, 9] (closed_text (replicate 8 [0x31]) @ 0 # [])
      = Inr (Some (groups_bytes (replicate 8 [0x31])))"
  by (rule pton6_full [OF nul_base_lib]) (simp_all add: list_all_iff group_def hex_from_def hexdigit_def)

section \<open>Safety\<close>

lemma pton6_loop_safe:
  assumes lib: "base_lib sz sm" and junk: "length junk = 4"
  shows "0 \<notin> set xs \<Longrightarrow> \<exists>cs. 0 \<notin> set cs \<and> cur = cs @ 0 # q \<Longrightarrow> length tmp = 16 \<Longrightarrow> tp \<le> 16 \<Longrightarrow>
    (case col of None \<Rightarrow> True | Some c \<Rightarrow> c \<le> tp) \<Longrightarrow>
    \<exists>r. pton6_loop (strchr sz sm) junk cur saw val tp col tmp (xs @ 0 # q) = Inr r
      \<and> (case r of None \<Rightarrow> True | Some (saw', val', tp', col', tmp') \<Rightarrow>
          length tmp' = 16 \<and> tp' \<le> 16 \<and> (case col' of None \<Rightarrow> True | Some c \<Rightarrow> c \<le> tp'))"
proof (induction xs arbitrary: cur saw val tp col tmp)
  case Nil
  then show ?case by simp
next
  case (Cons ch xs)
  from Cons.prems(1) have ch: "ch \<noteq> 0" "0 \<notin> set xs" by auto
  then have cur: "\<exists>cs. 0 \<notin> set cs \<and> xs @ 0 # q = cs @ 0 # q" by blast
  show ?case
  proof (cases "hex_digit (strchr sz sm) ch")
    case (Some d)
    with Cons.IH [OF ch(2) Cons.prems(2-5)] ch(1) show ?thesis by (auto simp: Let_def)
  next
    case hex: None
    show ?thesis
    proof (cases "ch = 0x3A")
      case True
      show ?thesis
      proof (cases saw)
        case False
        with Cons.IH [OF ch(2) cur Cons.prems(3,4), of "Some tp"] hex True show ?thesis by auto
      next
        case saw: True
        show ?thesis
        proof (cases "tp + 2 \<le> 16")
          case True
          with Cons.prems(5) have "case col of None \<Rightarrow> True | Some c \<Rightarrow> c \<le> tp + 2"
            by (auto split: option.splits)
          with Cons.IH [OF ch(2) cur _ True] Cons.prems(3) hex saw True \<open>ch = 0x3A\<close> show ?thesis
            by (auto simp: NS_INT16SZ_def NS_IN6ADDRSZ_def store16_def)
        qed (use hex saw True in \<open>simp add: NS_INT16SZ_def NS_IN6ADDRSZ_def\<close>)
      qed
    next
      case False
      show ?thesis
      proof (cases "ch = 0x2E \<and> tp + 4 \<le> 16")
        case True
        from Cons.prems(2) obtain cs where cs: "0 \<notin> set cs" "cur = cs @ 0 # q" by blast
        have len: "length bs = 4" if "quad cs = Some bs" for bs
          using that by (auto simp: quad_def Let_def split: if_splits)
        from pton4_loop_spec [OF digit_scan_strchr [OF lib] cs(1), of "junk[0 := 0]" "[]" "[]" 0 q] junk cs(2) have
          "inet_pton4 (strchr sz sm) junk cur = Inr (quad cs)"
          by (simp add: inet_pton4_def quad_def decimal_def Let_def)
        with True False hex ch(1) Cons.prems(3,5) len show ?thesis
          by (auto simp: NS_INADDRSZ_def NS_IN6ADDRSZ_def split: option.splits)
      qed (use False hex ch(1) in \<open>auto simp: NS_INADDRSZ_def NS_IN6ADDRSZ_def\<close>)
    qed
  qed
qed

lemma length_shift_loop: "length (shift_loop c n k tmp) = length tmp"
  by (induction k arbitrary: tmp) (simp_all add: Let_def)

text \<open>\<^verbatim>\<open>inet_pton\<close> on any NUL-terminated text: it returns, without reading behind the NUL or leaving its
  buffers, and writes exactly 4 or 16 bytes when it returns 1.\<close>

theorem inet_pton_safe:
  assumes lib: "base_lib sz sm" and nul: "0 \<notin> set xs" and junk: "length junk = 4"
  shows "\<exists>r. inet_pton (strchr sz sm) junk af (xs @ 0 # q) = Inr r
    \<and> (case r of
         None \<Rightarrow> af \<noteq> AF_INET \<and> af \<noteq> AF_INET6
       | Some None \<Rightarrow> True
       | Some (Some bs) \<Rightarrow> length bs = (if af = AF_INET then 4 else 16))"
proof -
  have four: "\<exists>r. inet_pton4 (strchr sz sm) junk (xs @ 0 # q) = Inr r \<and> (\<forall>bs. r = Some bs \<longrightarrow> length bs = 4)"
    using pton4_loop_spec [OF digit_scan_strchr [OF lib] nul, of "junk[0 := 0]" "[]" "[]" 0 q] junk
    by (auto simp: inet_pton4_def decimal_def Let_def)
  have start: "\<exists>r. bind_res (pton6_loop (strchr sz sm) junk (ys @ 0 # q) False 0 0 None (replicate NS_IN6ADDRSZ 0)
          (ys @ 0 # q)) (\<lambda>r. Inr (case r of None \<Rightarrow> None
            | Some (saw_xdigit, val, tp, colonp, tmp) \<Rightarrow> pton6_end saw_xdigit val tp colonp tmp)) = Inr r
      \<and> (\<forall>bs. r = Some bs \<longrightarrow> length bs = 16)" if "0 \<notin> set ys" for ys
  proof -
    have "\<exists>cs. 0 \<notin> set cs \<and> ys @ 0 # q = cs @ 0 # q" using that by blast
    from pton6_loop_safe [OF lib junk that this, of "replicate NS_IN6ADDRSZ 0" 0 None False 0] obtain r where
      r: "pton6_loop (strchr sz sm) junk (ys @ 0 # q) False 0 0 None (replicate NS_IN6ADDRSZ 0) (ys @ 0 # q) = Inr r"
        "case r of None \<Rightarrow> True | Some (saw', val', tp', col', tmp') \<Rightarrow>
          length tmp' = 16 \<and> tp' \<le> 16 \<and> (case col' of None \<Rightarrow> True | Some c \<Rightarrow> c \<le> tp')"
      by (auto simp: NS_IN6ADDRSZ_def)
    then show ?thesis
      by (auto simp: pton6_end_def Let_def store16_def length_shift_loop split: option.splits if_splits)
  qed
  have six: "\<exists>r. inet_pton6 (strchr sz sm) junk (xs @ 0 # q) = Inr r \<and> (\<forall>bs. r = Some bs \<longrightarrow> length bs = 16)"
  proof (cases xs)
    case Nil
    then show ?thesis using start [of xs] by (simp add: inet_pton6_def del: pton6_loop.simps)
  next
    case (Cons c ys)
    then show ?thesis
      using start [of xs] start [of ys] nul
      by (cases ys) (auto simp: inet_pton6_def simp del: pton6_loop.simps)
  qed
  from four six show ?thesis by (auto simp: inet_pton_def AF_INET_def AF_INET6_def split: option.splits)
qed

theorem inet_pton_safe_witness:
  "\<exists>r. inet_pton (strchr nul_size first_index) [9, 9, 9, 9] 24 ([0x3A, 0x3A, 0x31, 0x2E] @ 0 # []) = Inr r
    \<and> (case r of
         None \<Rightarrow> 24 \<noteq> AF_INET \<and> 24 \<noteq> AF_INET6
       | Some None \<Rightarrow> True
       | Some (Some bs) \<Rightarrow> length bs = (if 24 = AF_INET then 4 else 16))"
  by (rule inet_pton_safe [OF nul_base_lib]) simp_all

end
