(* ===== verification/Pkcs7Parse.thy ===== *)
theory Pkcs7Parse
  imports Pool
begin

text \<open>
  The parser of PKCS#7 messages in \<^verbatim>\<open>MbedTlsPkg/Library/BaseCryptLib/Pk/CryptPkcs7VerifyCommon.c\<close>
  with the types of \<^verbatim>\<open>CryptPkcs7Internal.h\<close>.

  \<^item> MbedTLS is not part of the repository: its functions are the fields of \<open>mbedtls\<close>, an argument
    of everything here. A function with \<^verbatim>\<open>unsigned char **p\<close> gets and returns an offset; what it
    leaves in its results after an error is arbitrary, but it is a value, as the code goes on
    with it in places.
  \<^item> A pointer into the message is its offset from the start, an \<open>int\<close>, as the end that the code
    computes can lie in front of the start. Lengths are \<open>int\<close> as well; all are below
    \<open>2 ^ 32\<close>, so that no 64-bit sum of them wraps.
  \<^item> A chain of certificates is the list of its nodes, and a node on the chain stands for the
    rest of the list from there, since MbedTLS follows \<^verbatim>\<open>next\<close>.
\<close>

section \<open>The library\<close>

datatype md_type = MBEDTLS_MD_SHA1 | MBEDTLS_MD_SHA256 | MBEDTLS_MD_SHA384 | MBEDTLS_MD_SHA512

type_synonym asn1_buf = "int \<times> int"  \<comment> \<open>start and length\<close>

text \<open>
  What the code looks at in a certificate: its encoding, the extensions as a part of that, the
  issuer and the serial number. \<open>None\<close> is a NULL pointer; \<open>crt_pk\<close> is \<open>None\<close> for a key
  context that is all zeros.
\<close>

record mbedtls_x509_time =
  year :: int
  mon :: int
  day :: int
  hour :: int
  minute :: int
  sec :: int

text \<open>The fields of a certificate that \<^verbatim>\<open>CryptX509.c\<close> alone looks at; a name is a list of pairs.\<close>

type_synonym x509_name = "(byte list \<times> byte list) list"  \<comment> \<open>identifier and value\<close>

record x509_info =
  info_version :: int
  info_subject_raw :: "byte list"
  info_subject :: x509_name
  info_issuer :: x509_name
  info_sig_oid :: "byte list"
  info_valid_from :: mbedtls_x509_time
  info_valid_to :: mbedtls_x509_time
  info_key_usage :: nat

record 'pk x509_crt =
  crt_raw :: "byte list"
  crt_issuer_raw :: "byte list option"
  crt_serial :: "byte list option"
  crt_v3_ext :: asn1_buf
  crt_pk :: "'pk option"
  crt_info :: x509_info

definition zero_time :: mbedtls_x509_time where
  "zero_time = \<lparr>year = 0, mon = 0, day = 0, hour = 0, minute = 0, sec = 0\<rparr>"

definition blank_info :: x509_info where
  "blank_info = \<lparr>info_version = 0, info_subject_raw = [], info_subject = [], info_issuer = [],
                 info_sig_oid = [], info_valid_from = zero_time, info_valid_to = zero_time,
                 info_key_usage = 0\<rparr>"

definition blank_crt :: "'pk x509_crt" where
  "blank_crt = \<lparr>crt_raw = [], crt_issuer_raw = None, crt_serial = None, crt_v3_ext = (0, 0),
                crt_pk = None, crt_info = blank_info\<rparr>"

text \<open>
  \<open>mbedtls_asn1_get_tag\<close> gets the message, pointer, end, the value of the length before the call
  and the tag. \<open>mbedtls_x509_crt_parse\<close> and \<open>mbedtls_x509_crt_parse_der\<close> get the bytes of the
  encoding. \<open>mbedtls_x509_crt_verify\<close> is \<^verbatim>\<open>mbedtls_x509_crt_verify_with_profile\<close> with the profile
  of the file: trusted chain, whether a revocation list is given, chain to verify.
  \<open>mbedtls_calloc_ok\<close> says whether the request for the n-th further node succeeds, and
  \<open>sha1_enabled\<close> that \<^verbatim>\<open>DISABLE_SHA1_DEPRECATED_INTERFACES\<close> is not defined.
\<close>

record 'pk mbedtls =
  mbedtls_asn1_get_tag :: "byte list \<Rightarrow> int \<Rightarrow> int \<Rightarrow> int \<Rightarrow> byte \<Rightarrow> int \<times> int \<times> int"
  mbedtls_asn1_get_int :: "byte list \<Rightarrow> int \<Rightarrow> int \<Rightarrow> int \<times> int \<times> int"
  mbedtls_asn1_get_alg_null :: "byte list \<Rightarrow> int \<Rightarrow> int \<Rightarrow> int \<times> int \<times> asn1_buf"
  mbedtls_x509_get_name :: "byte list \<Rightarrow> int \<Rightarrow> int \<Rightarrow> int \<times> int"
  mbedtls_x509_get_serial :: "byte list \<Rightarrow> int \<Rightarrow> int \<Rightarrow> int \<times> int \<times> asn1_buf"
  mbedtls_x509_crt_parse :: "byte list \<Rightarrow> int \<times> 'pk x509_crt"
  mbedtls_x509_crt_parse_der :: "byte list \<Rightarrow> int \<times> 'pk x509_crt"
  mbedtls_x509_crt_verify :: "'pk x509_crt list \<Rightarrow> bool \<Rightarrow> 'pk x509_crt list \<Rightarrow> int"
  mbedtls_md :: "md_type \<Rightarrow> byte list \<Rightarrow> byte list option"
  mbedtls_md_get_size :: "md_type \<Rightarrow> nat"
  mbedtls_pk_verify :: "'pk option \<Rightarrow> md_type \<Rightarrow> byte list \<Rightarrow> byte list \<Rightarrow> int"
  mbedtls_calloc_ok :: "nat \<Rightarrow> bool"
  sha1_enabled :: bool

definition MBEDTLS_ASN1_BOOLEAN :: byte where "MBEDTLS_ASN1_BOOLEAN = 0x01"
definition MBEDTLS_ASN1_INTEGER :: byte where "MBEDTLS_ASN1_INTEGER = 0x02"
definition MBEDTLS_ASN1_OCTET_STRING :: byte where "MBEDTLS_ASN1_OCTET_STRING = 0x04"
definition MBEDTLS_ASN1_OID :: byte where "MBEDTLS_ASN1_OID = 0x06"
definition ASN1_SEQUENCE :: byte where "ASN1_SEQUENCE = 0x30"  \<comment> \<open>with \<^verbatim>\<open>MBEDTLS_ASN1_CONSTRUCTED\<close>\<close>
definition ASN1_SET :: byte where "ASN1_SET = 0x31"
definition ASN1_CONTEXT :: byte where "ASN1_CONTEXT = 0xA0"

lemmas asn1_tags = MBEDTLS_ASN1_BOOLEAN_def MBEDTLS_ASN1_INTEGER_def
  MBEDTLS_ASN1_OCTET_STRING_def MBEDTLS_ASN1_OID_def ASN1_SEQUENCE_def ASN1_SET_def ASN1_CONTEXT_def

definition MBEDTLS_OID_PKCS7 :: "byte list" where
  "MBEDTLS_OID_PKCS7 = [0x2A, 0x86, 0x48, 0x86, 0xF7, 0x0D, 0x01, 0x07]"

definition MBEDTLS_OID_PKCS7_DATA :: "byte list" where
  "MBEDTLS_OID_PKCS7_DATA = MBEDTLS_OID_PKCS7 @ [1]"
definition MBEDTLS_OID_PKCS7_SIGNED_DATA :: "byte list" where
  "MBEDTLS_OID_PKCS7_SIGNED_DATA = MBEDTLS_OID_PKCS7 @ [2]"
definition MBEDTLS_OID_PKCS7_ENVELOPED_DATA :: "byte list" where
  "MBEDTLS_OID_PKCS7_ENVELOPED_DATA = MBEDTLS_OID_PKCS7 @ [3]"
definition MBEDTLS_OID_PKCS7_SIGNED_AND_ENVELOPED_DATA :: "byte list" where
  "MBEDTLS_OID_PKCS7_SIGNED_AND_ENVELOPED_DATA = MBEDTLS_OID_PKCS7 @ [4]"
definition MBEDTLS_OID_PKCS7_DIGESTED_DATA :: "byte list" where
  "MBEDTLS_OID_PKCS7_DIGESTED_DATA = MBEDTLS_OID_PKCS7 @ [5]"
definition MBEDTLS_OID_PKCS7_ENCRYPTED_DATA :: "byte list" where
  "MBEDTLS_OID_PKCS7_ENCRYPTED_DATA = MBEDTLS_OID_PKCS7 @ [6]"

lemmas pkcs7_oids = MBEDTLS_OID_PKCS7_def MBEDTLS_OID_PKCS7_DATA_def
  MBEDTLS_OID_PKCS7_SIGNED_DATA_def MBEDTLS_OID_PKCS7_ENVELOPED_DATA_def
  MBEDTLS_OID_PKCS7_SIGNED_AND_ENVELOPED_DATA_def MBEDTLS_OID_PKCS7_DIGESTED_DATA_def
  MBEDTLS_OID_PKCS7_ENCRYPTED_DATA_def

definition MBEDTLS_OID_DIGEST_ALG_SHA1 :: "byte list" where
  "MBEDTLS_OID_DIGEST_ALG_SHA1 = [0x2B, 0x0E, 0x03, 0x02, 0x1A]"
definition MBEDTLS_OID_DIGEST_ALG_SHA256 :: "byte list" where
  "MBEDTLS_OID_DIGEST_ALG_SHA256 = [0x60, 0x86, 0x48, 0x01, 0x65, 0x03, 0x04, 0x02, 0x01]"
definition MBEDTLS_OID_DIGEST_ALG_SHA384 :: "byte list" where
  "MBEDTLS_OID_DIGEST_ALG_SHA384 = [0x60, 0x86, 0x48, 0x01, 0x65, 0x03, 0x04, 0x02, 0x02]"
definition MBEDTLS_OID_DIGEST_ALG_SHA512 :: "byte list" where
  "MBEDTLS_OID_DIGEST_ALG_SHA512 = [0x60, 0x86, 0x48, 0x01, 0x65, 0x03, 0x04, 0x02, 0x03]"

section \<open>Reading the message\<close>

definition bytes :: "byte list \<Rightarrow> int \<Rightarrow> int \<Rightarrow> byte list res" where
  "bytes m p n = (if 0 \<le> p \<and> 0 \<le> n \<and> p + n \<le> int (length m) then Inr (seg (nat p) (nat n) m)
                  else Inl OobRead)"

definition buf_bytes :: "byte list \<Rightarrow> asn1_buf \<Rightarrow> byte list res" where
  "buf_bytes m b = bytes m (fst b) (snd b)"

text \<open>The test of a buffer against a constant whose length is compared first.\<close>

definition oid_is :: "byte list \<Rightarrow> asn1_buf \<Rightarrow> byte list \<Rightarrow> bool res" where
  "oid_is m b oid =
    (if snd b = int (length oid) then bind_res (buf_bytes m b) (\<lambda>x. Inr (x = oid)) else Inr False)"

text \<open>
  \<^verbatim>\<open>CompareMem (Buf.p, OID, Buf.len) == 0\<close> with the length of the buffer: the object of the
  string literal has its characters and a NUL.
\<close>

definition oid_prefix :: "byte list \<Rightarrow> asn1_buf \<Rightarrow> byte list \<Rightarrow> bool res" where
  "oid_prefix m b oid =
    bind_res (buf_bytes m b) (\<lambda>x.
      if snd b > int (length oid + 1) then Inl OobRead
      else Inr (x = take (nat (snd b)) (oid @ [0])))"

section \<open>The parts of a message\<close>

definition MbedTlsPkcs7GetNextContentLen ::
    "'pk mbedtls \<Rightarrow> byte list \<Rightarrow> int \<Rightarrow> int \<Rightarrow> int \<Rightarrow> int \<times> int \<times> int" where
  "MbedTlsPkcs7GetNextContentLen L m Ptr End Len =
    mbedtls_asn1_get_tag L m Ptr End Len ASN1_CONTEXT"

definition MbedTlsPkcs7GetVersion ::
    "'pk mbedtls \<Rightarrow> byte list \<Rightarrow> int \<Rightarrow> int \<Rightarrow> int \<times> int \<times> int" where
  "MbedTlsPkcs7GetVersion L m Ptr End = mbedtls_asn1_get_int L m Ptr End"

text \<open>\<open>None\<close>: the buffer is not written.\<close>

definition Pkcs7GetContentInfoType ::
    "'pk mbedtls \<Rightarrow> byte list \<Rightarrow> int \<Rightarrow> int \<Rightarrow> int \<times> int \<times> asn1_buf option" where
  "Pkcs7GetContentInfoType L m Ptr End =
    (case mbedtls_asn1_get_tag L m Ptr End 0 ASN1_SEQUENCE of
       (Ret, Ptr, Len) \<Rightarrow>
         if Ret \<noteq> 0 then (Ret, Ptr, None)
         else (case mbedtls_asn1_get_tag L m Ptr End Len MBEDTLS_ASN1_OID of
                 (Ret, Ptr, Len) \<Rightarrow> (Ret, Ptr, if Ret = 0 then Some (Ptr, Len) else None)))"

definition MbedTlsPkcs7GetDigestAlgorithm ::
    "'pk mbedtls \<Rightarrow> byte list \<Rightarrow> int \<Rightarrow> int \<Rightarrow> int \<times> int \<times> asn1_buf" where
  "MbedTlsPkcs7GetDigestAlgorithm L m Ptr End = mbedtls_asn1_get_alg_null L m Ptr End"

definition MbedTlsPkcs7GetDigestAlgorithmSet ::
    "'pk mbedtls \<Rightarrow> byte list \<Rightarrow> int \<Rightarrow> int \<Rightarrow> int \<times> int \<times> asn1_buf option" where
  "MbedTlsPkcs7GetDigestAlgorithmSet L m Ptr End =
    (case mbedtls_asn1_get_tag L m Ptr End 0 ASN1_SET of
       (Ret, Ptr, Len) \<Rightarrow>
         if Ret \<noteq> 0 then (Ret, Ptr, None)
         else (case mbedtls_asn1_get_alg_null L m Ptr (Ptr + Len) of
                 (Ret, Ptr, Alg) \<Rightarrow> (Ret, Ptr, if Ret = 0 then Some Alg else None)))"

definition MbedTlsPkcs7GetCertificates ::
    "'pk mbedtls \<Rightarrow> byte list \<Rightarrow> int \<Rightarrow> int \<Rightarrow> (int \<times> 'pk x509_crt) res" where
  "MbedTlsPkcs7GetCertificates L m Ptr Plen =
    bind_res (bytes m Ptr Plen) (\<lambda>der. Inr (mbedtls_x509_crt_parse L der))"

definition Pkcs7GetSignature ::
    "'pk mbedtls \<Rightarrow> byte list \<Rightarrow> int \<Rightarrow> int \<Rightarrow> int \<times> asn1_buf" where
  "Pkcs7GetSignature L m Ptr End =
    (case mbedtls_asn1_get_tag L m Ptr End 0 MBEDTLS_ASN1_OCTET_STRING of
       (Ret, Ptr, Len) \<Rightarrow> (Ret, (Ptr, Len)))"

section \<open>The signer\<close>

text \<open>The parsed issuer name is not looked at again and is left out; \<^verbatim>\<open>Next\<close> is the list.\<close>

record signer_info =
  si_Version :: int
  si_Serial :: asn1_buf
  si_IssuerRaw :: asn1_buf
  si_AlgIdentifier :: asn1_buf
  si_SigAlgIdentifier :: asn1_buf
  si_AuthAttr :: "asn1_buf option"
  si_Sig :: asn1_buf

text \<open>The optional attributes: the buffer, and the pointer behind them.\<close>

definition get_auth_attr ::
    "'pk mbedtls \<Rightarrow> byte list \<Rightarrow> int \<Rightarrow> int \<Rightarrow> int \<Rightarrow> asn1_buf option \<times> int" where
  "get_auth_attr L m Ptr EndSet Len =
    (case mbedtls_asn1_get_tag L m Ptr EndSet Len ASN1_CONTEXT of
       (Ret, TempP, Len) \<Rightarrow>
         if Ret = 0 then (Some (Ptr, Len + (TempP - Ptr)), TempP + Len) else (None, Ptr))"

text \<open>From the digest algorithm of the signer on: \<open>Inl\<close> the error, or \<open>Inr\<close> the signer.\<close>

definition signer_tail ::
    "'pk mbedtls \<Rightarrow> byte list \<Rightarrow> int \<Rightarrow> int \<Rightarrow> int \<Rightarrow> int \<Rightarrow> int \<Rightarrow> asn1_buf \<Rightarrow> asn1_buf
     \<Rightarrow> int + signer_info" where
  "signer_tail L m Ptr End EndSet Len Version Issuer Serial =
    (case MbedTlsPkcs7GetDigestAlgorithm L m Ptr EndSet of
       (Ret, Ptr, Alg) \<Rightarrow>
         if Ret \<noteq> 0 then Inl Ret
         else (case get_auth_attr L m Ptr EndSet Len of
           (AuthAttr, Ptr) \<Rightarrow>
             (case MbedTlsPkcs7GetDigestAlgorithm L m Ptr EndSet of
                (Ret, Ptr, SigAlg) \<Rightarrow>
                  if Ret \<noteq> 0 then Inl Ret
                  else (case Pkcs7GetSignature L m Ptr End of
                    (Ret, Sig) \<Rightarrow>
                      if Ret \<noteq> 0 then Inl Ret
                      else Inr \<lparr>si_Version = Version, si_Serial = Serial, si_IssuerRaw = Issuer,
                                si_AlgIdentifier = Alg, si_SigAlgIdentifier = SigAlg,
                                si_AuthAttr = AuthAttr, si_Sig = Sig\<rparr>))))"

text \<open>The version, the issuer and the serial number in front of it.\<close>

definition signer_head ::
    "'pk mbedtls \<Rightarrow> byte list \<Rightarrow> int \<Rightarrow> int \<Rightarrow> int
     \<Rightarrow> int + (int \<times> int \<times> int \<times> asn1_buf \<times> asn1_buf)" where
  "signer_head L m Ptr EndSet Len =
    (case mbedtls_asn1_get_int L m Ptr EndSet of
       (Ret, Ptr, Version) \<Rightarrow>
         if Ret \<noteq> 0 then Inl Ret
         else (case mbedtls_asn1_get_tag L m Ptr EndSet Len ASN1_SEQUENCE of
           (Ret, Ptr, Len) \<Rightarrow>
             if Ret \<noteq> 0 then Inl Ret
             else (case mbedtls_asn1_get_tag L m Ptr EndSet Len ASN1_SEQUENCE of
               (Ret, Ptr', Len) \<Rightarrow>
                 if Ret \<noteq> 0 then Inl Ret
                 else (case mbedtls_x509_get_name L m Ptr' (Ptr' + Len) of
                   (Ret, Ptr') \<Rightarrow>
                     if Ret \<noteq> 0 then Inl Ret
                     else (case mbedtls_x509_get_serial L m Ptr' EndSet of
                       (Ret, Ptr'', Serial) \<Rightarrow>
                         if Ret \<noteq> 0 then Inl Ret
                         else Inr (Ptr'', Len, Version, (Ptr, Ptr' - Ptr), Serial))))))"

definition MbedTlsPkcs7GetSignersInfoSet ::
    "'pk mbedtls \<Rightarrow> byte list \<Rightarrow> int \<Rightarrow> int \<Rightarrow> int + signer_info" where
  "MbedTlsPkcs7GetSignersInfoSet L m Ptr End =
    (case mbedtls_asn1_get_tag L m Ptr End 0 ASN1_SET of
       (Ret, Ptr, Len) \<Rightarrow>
         if Ret \<noteq> 0 then Inl Ret
         else let EndSet = Ptr + Len in
           (case mbedtls_asn1_get_tag L m Ptr EndSet Len ASN1_SEQUENCE of
              (Ret, Ptr, Len) \<Rightarrow>
                if Ret \<noteq> 0 then Inl Ret
                else (case signer_head L m Ptr EndSet Len of
                        Inl Ret \<Rightarrow> Inl Ret
                      | Inr (Ptr, Len, Version, Issuer, Serial) \<Rightarrow>
                          signer_tail L m Ptr End EndSet Len Version Issuer Serial)))"

section \<open>The signed data\<close>

text \<open>\<open>sd_certs\<close> is the chain \<^verbatim>\<open>Certificates\<close>, \<open>sd_signers\<close> the chain \<^verbatim>\<open>SignerInfos\<close>.\<close>

record 'pk signed_data =
  sd_certs :: "'pk x509_crt list"
  sd_signers :: "signer_info list"

definition supported_digest :: "'pk mbedtls \<Rightarrow> byte list \<Rightarrow> asn1_buf \<Rightarrow> bool res" where
  "supported_digest L m Alg =
    bind_res (if sha1_enabled L then oid_is m Alg MBEDTLS_OID_DIGEST_ALG_SHA1 else Inr False) (\<lambda>b.
    if b then Inr True else bind_res (oid_is m Alg MBEDTLS_OID_DIGEST_ALG_SHA256) (\<lambda>b.
    if b then Inr True else bind_res (oid_is m Alg MBEDTLS_OID_DIGEST_ALG_SHA384) (\<lambda>b.
    if b then Inr True else oid_is m Alg MBEDTLS_OID_DIGEST_ALG_SHA512)))"

text \<open>
  Where the certificates start and how long they are: \<^verbatim>\<open>Ret\<close>, \<^verbatim>\<open>Ptr\<close> and \<^verbatim>\<open>Len\<close> in front of the
  loop. After an error the three keep what they have, and the code still goes to the loop.
\<close>

definition find_certificates ::
    "'pk mbedtls \<Rightarrow> byte list \<Rightarrow> int \<Rightarrow> int \<Rightarrow> int \<Rightarrow> int \<times> int \<times> int" where
  "find_certificates L m Ptr End Len =
    (case Pkcs7GetContentInfoType L m Ptr End of
       (Ret, Ptr, None) \<Rightarrow> (Ret, Ptr, Len)
     | (Ret, Ptr, Some Oid) \<Rightarrow>
         (case MbedTlsPkcs7GetNextContentLen L m (Ptr + snd Oid) End Len of
            (Ret, Ptr, Len) \<Rightarrow>
              (case MbedTlsPkcs7GetNextContentLen L m (Ptr + Len) End 0 of
                 (Ret2, CertP, CertLen) \<Rightarrow>
                   if Ret2 = 0 then (Ret, CertP, CertLen) else (Ret, Ptr, Len))))"

definition signed_data_head ::
    "'pk mbedtls \<Rightarrow> byte list \<Rightarrow> int \<Rightarrow> int \<Rightarrow> (int \<times> int \<times> int) res" where
  "signed_data_head L m Ptr End =
    (case mbedtls_asn1_get_tag L m Ptr End 0 ASN1_SEQUENCE of
       (Ret, Ptr, Len) \<Rightarrow>
         if Ret \<noteq> 0 then Inr (Ret, Ptr, Len)
         else (case MbedTlsPkcs7GetVersion L m Ptr End of
           (Ret, Ptr, Version) \<Rightarrow>
             if Ret \<noteq> 0 then Inr (Ret, Ptr, Len)
             else if Version \<noteq> 1 then Inr (- 1, Ptr, Len)
             else (case MbedTlsPkcs7GetDigestAlgorithmSet L m Ptr End of
               (Ret, Ptr, None) \<Rightarrow> Inr (Ret, Ptr, Len)
             | (Ret, Ptr, Some Alg) \<Rightarrow>
                 bind_res (supported_digest L m Alg) (\<lambda>ok.
                   if \<not> ok then Inr (- 1, Ptr, Len)
                   else Inr (find_certificates L m Ptr End Len)))))"

text \<open>
  The loop over the certificates. \<open>MoreCert\<close> says that the pointer is not NULL. The result has
  whether the code jumped to \<^verbatim>\<open>Out\<close>, \<^verbatim>\<open>Ret\<close>, \<^verbatim>\<open>TotalCertLen\<close>, the parsed certificates and
  \<open>MoreCert\<close>; \<open>None\<close>: the loop does not end.
\<close>

partial_function (option) cert_loop ::
    "'pk mbedtls \<Rightarrow> byte list \<Rightarrow> int \<Rightarrow> int \<Rightarrow> int \<Rightarrow> int \<Rightarrow> int \<Rightarrow> 'pk x509_crt list \<Rightarrow> bool
     \<Rightarrow> (bool \<times> int \<times> int \<times> 'pk x509_crt list \<times> bool) res option" where
  "cert_loop L m End Len Ret TotalCertLen CertP certs MoreCert =
    (if \<not> TotalCertLen < Len then Some (Inr (False, Ret, TotalCertLen, certs, MoreCert))
     else (case mbedtls_asn1_get_tag L m CertP End 0 ASN1_SEQUENCE of
       (Ret, CertP', CertLen) \<Rightarrow>
         if Ret \<noteq> 0 then Some (Inr (True, Ret, TotalCertLen, certs, MoreCert))
         else let CertLen = CertLen + (CertP' - CertP) in
           if \<not> MoreCert then Some (Inl NullDeref)
           else (case MbedTlsPkcs7GetCertificates L m CertP CertLen of
                   Inl f \<Rightarrow> Some (Inl f)
                 | Inr (Ret, crt) \<Rightarrow>
                     if Ret \<noteq> 0
                     then Some (Inr (True, Ret, TotalCertLen + CertLen, certs, MoreCert))
                     else cert_loop L m End Len Ret (TotalCertLen + CertLen) (CertP + CertLen)
                            (certs @ [crt]) (mbedtls_calloc_ok L (length certs)))))"

declare cert_loop.simps [code]

text \<open>
  The loop that cuts the chain behind the last certificate: \<open>c\<close> is \<^verbatim>\<open>CertNum\<close>, \<open>i\<close> the index of
  \<^verbatim>\<open>LastCert\<close>.
\<close>

primrec cut_chain :: "nat \<Rightarrow> nat \<Rightarrow> 'a list \<Rightarrow> 'a list" where
  "cut_chain 0 i chain = chain"
| "cut_chain (Suc c) i chain = (if c = 0 then take (Suc i) chain else cut_chain c (Suc i) chain)"

definition cert_chain :: "'pk x509_crt list \<Rightarrow> bool \<Rightarrow> 'pk x509_crt list" where
  "cert_chain certs MoreCert =
    (let CertNum = of_nat (length certs) :: byte
     in cut_chain (unat CertNum) 0 (certs @ (if MoreCert then [blank_crt] else [])))"

text \<open>\<open>Inl\<close> is a non-zero \<^verbatim>\<open>Ret\<close>.\<close>

definition Pkcs7GetSignedData ::
    "'pk mbedtls \<Rightarrow> byte list \<Rightarrow> int \<Rightarrow> int \<Rightarrow> (int + 'pk signed_data) res option" where
  "Pkcs7GetSignedData L m Buffer BufferLen =
    (let End = Buffer + BufferLen in
     case signed_data_head L m Buffer End of
       Inl f \<Rightarrow> Some (Inl f)
     | Inr (Ret, Ptr, Len) \<Rightarrow>
         map_option (\<lambda>r. bind_res r (\<lambda>(out, Ret, TotalCertLen, certs, MoreCert).
           if out then Inr (Inl Ret)
           else if TotalCertLen \<noteq> Len then Inr (Inl (- 1))
           else if Ret \<noteq> 0 then Inr (Inl Ret)
           else (case MbedTlsPkcs7GetSignersInfoSet L m (Ptr + Len) End of
                   Inl Ret \<Rightarrow> Inr (Inl Ret)
                 | Inr si \<Rightarrow> Inr (Inr \<lparr>sd_certs = cert_chain certs MoreCert, sd_signers = [si]\<rparr>))))
           (cert_loop L m End Len Ret 0 Ptr [] True))"

definition excluded_content :: "byte list \<Rightarrow> asn1_buf \<Rightarrow> bool res" where
  "excluded_content m Oid =
    bind_res (oid_prefix m Oid MBEDTLS_OID_PKCS7_DATA) (\<lambda>b.
    if b then Inr True else bind_res (oid_prefix m Oid MBEDTLS_OID_PKCS7_ENCRYPTED_DATA) (\<lambda>b.
    if b then Inr True else bind_res (oid_prefix m Oid MBEDTLS_OID_PKCS7_ENVELOPED_DATA) (\<lambda>b.
    if b then Inr True
    else bind_res (oid_prefix m Oid MBEDTLS_OID_PKCS7_SIGNED_AND_ENVELOPED_DATA) (\<lambda>b.
    if b then Inr True else oid_prefix m Oid MBEDTLS_OID_PKCS7_DIGESTED_DATA))))"

definition MbedtlsPkcs7ParseDer ::
    "'pk mbedtls \<Rightarrow> byte list \<Rightarrow> int \<Rightarrow> (int + 'pk signed_data) res option" where
  "MbedtlsPkcs7ParseDer L m BufferLen =
    (case Pkcs7GetContentInfoType L m 0 BufferLen of
       (Ret, Ptr, None) \<Rightarrow> Some (Inr (Inl Ret))
     | (Ret, Ptr, Some Oid) \<Rightarrow>
         (case excluded_content m Oid of
            Inl f \<Rightarrow> Some (Inl f)
          | Inr True \<Rightarrow> Some (Inr (Inl (- 1)))
          | Inr False \<Rightarrow>
              (case oid_prefix m Oid MBEDTLS_OID_PKCS7_SIGNED_DATA of
                 Inl f \<Rightarrow> Some (Inl f)
               | Inr False \<Rightarrow> Some (Inr (Inl (- 1)))
               | Inr True \<Rightarrow>
                   (case MbedTlsPkcs7GetNextContentLen L m (Ptr + snd Oid) BufferLen 0 of
                      (Ret, Ptr, Len) \<Rightarrow>
                        if Ret \<noteq> 0 then Some (Inr (Inl Ret))
                        else Pkcs7GetSignedData L m Ptr Len))))"

end
