(* ===== verification/Pkcs7Verify.thy ===== *)
theory Pkcs7Verify
  imports Pkcs7Parse
begin

text \<open>
  The verification of PKCS#7 messages in \<^verbatim>\<open>MbedTlsPkg/Library/BaseCryptLib/Pk/CryptPkcs7VerifyCommon.c\<close>:
  the signature, the search of the signer's certificate, the chain, the wrapping into a
  \<^verbatim>\<open>ContentInfo\<close>, \<^verbatim>\<open>Pkcs7Verify\<close> and \<^verbatim>\<open>Pkcs7GetSigners\<close>.

  A certificate of the message is its index in the chain. The first byte of the attributes,
  which the code overwrites for the time of the hashing, is changed in the hashed bytes only.
\<close>

definition MBEDTLS_MD_MAX_SIZE :: nat where "MBEDTLS_MD_MAX_SIZE = 64"
definition INT_MAX :: nat where "INT_MAX = 2147483647"

section \<open>The signature\<close>

text \<open>\<^verbatim>\<open>mbedtls_md\<close> into the buffer \<^verbatim>\<open>Hash\<close>; its result is not looked at.\<close>

definition md_into :: "'pk mbedtls \<Rightarrow> md_type \<Rightarrow> byte list \<Rightarrow> byte list \<Rightarrow> byte list res" where
  "md_into L t data Hash =
    (case mbedtls_md L t data of
       None \<Rightarrow> Inr Hash
     | Some d \<Rightarrow> if length d > length Hash then Inl OobWrite else Inr (copy_at 0 d Hash))"

definition auth_into ::
    "'pk mbedtls \<Rightarrow> byte list \<Rightarrow> signer_info \<Rightarrow> md_type \<Rightarrow> byte list \<Rightarrow> byte list res" where
  "auth_into L m si t Hash =
    (case si_AuthAttr si of
       None \<Rightarrow> Inr Hash
     | Some b \<Rightarrow> bind_res (buf_bytes m b) (\<lambda>a.
         if a = [] then Inl OobWrite else md_into L t (ASN1_SET # tl a) Hash))"

definition try_md ::
    "'pk mbedtls \<Rightarrow> byte list \<Rightarrow> signer_info \<Rightarrow> 'pk x509_crt \<Rightarrow> byte list \<Rightarrow> md_type \<Rightarrow> int res" where
  "try_md L m si Cert Data t =
    bind_res (md_into L t Data (replicate MBEDTLS_MD_MAX_SIZE 0)) (\<lambda>Hash.
    bind_res (auth_into L m si t Hash) (\<lambda>Hash.
    bind_res (buf_bytes m (si_Sig si)) (\<lambda>Sig.
      Inr (mbedtls_pk_verify L (crt_pk Cert) t (take (mbedtls_md_get_size L t) Hash) Sig))))"

text \<open>The algorithms in the order of the code; the result is 0 or the last \<^verbatim>\<open>Ret\<close>.\<close>

definition md_types :: "'pk mbedtls \<Rightarrow> md_type list" where
  "md_types L = (if sha1_enabled L then [MBEDTLS_MD_SHA1] else [])
     @ [MBEDTLS_MD_SHA256, MBEDTLS_MD_SHA384, MBEDTLS_MD_SHA512]"

primrec try_mds :: "(md_type \<Rightarrow> int res) \<Rightarrow> md_type list \<Rightarrow> int \<Rightarrow> int res" where
  "try_mds f [] Ret = Inr Ret"
| "try_mds f (t # ts) Ret = bind_res (f t) (\<lambda>Ret. if Ret = 0 then Inr 0 else try_mds f ts Ret)"

definition MbedtlsPkcs7SignedDataVerifySigners ::
    "'pk mbedtls \<Rightarrow> byte list \<Rightarrow> signer_info \<Rightarrow> 'pk x509_crt \<Rightarrow> byte list \<Rightarrow> int res" where
  "MbedtlsPkcs7SignedDataVerifySigners L m si Cert Data =
    try_mds (try_md L m si Cert Data) (md_types L) 0"

section \<open>The certificates\<close>

definition same_bytes :: "byte list \<Rightarrow> byte list \<Rightarrow> asn1_buf \<Rightarrow> bool res" where
  "same_bytes m x b =
    (if int (length x) = snd b then bind_res (buf_bytes m b) (\<lambda>y. Inr (x = y)) else Inr False)"

text \<open>\<open>i\<close> is the index of the certificate at the head of the list.\<close>

primrec find_signer :: "byte list \<Rightarrow> signer_info \<Rightarrow> nat \<Rightarrow> 'pk x509_crt list \<Rightarrow> nat option res" where
  "find_signer m si i [] = Inr None"
| "find_signer m si i (Cert # Certs) =
    (case (crt_serial Cert, crt_issuer_raw Cert) of
       (Some serial, Some issuer) \<Rightarrow>
         bind_res (same_bytes m issuer (si_IssuerRaw si)) (\<lambda>b.
         bind_res (if b then same_bytes m serial (si_Serial si) else Inr False) (\<lambda>b.
           if b then Inr (Some i) else find_signer m si (Suc i) Certs))
     | _ \<Rightarrow> Inr None)"

definition MbedTlsPkcs7FindSignerCert ::
    "byte list \<Rightarrow> signer_info \<Rightarrow> 'pk x509_crt list \<Rightarrow> nat option res" where
  "MbedTlsPkcs7FindSignerCert m si Certs = find_signer m si 0 Certs"

text \<open>\<open>crl\<close> says that the (empty) revocation list of the message is given.\<close>

definition MbedTlsPkcs7VerifyCert ::
    "'pk mbedtls \<Rightarrow> 'pk x509_crt list \<Rightarrow> bool \<Rightarrow> 'pk x509_crt list \<Rightarrow> bool" where
  "MbedTlsPkcs7VerifyCert L Ca crl End = (mbedtls_x509_crt_verify L Ca crl End = 0)"

text \<open>The loop over \<^verbatim>\<open>AllCert\<close>: the index of \<^verbatim>\<open>InterCert\<close>, for \<^verbatim>\<open>End\<close> at index \<open>i\<close>.\<close>

definition inter_cert :: "'pk mbedtls \<Rightarrow> 'pk x509_crt list \<Rightarrow> nat \<Rightarrow> nat option" where
  "inter_cert L Certs i =
    find (\<lambda>j. Suc j = i \<and> MbedTlsPkcs7VerifyCert L (drop j Certs) False (drop i Certs))
      [0..<length Certs]"

lemma inter_cert_Some: "inter_cert L Certs i = Some j \<longleftrightarrow>
    Suc j = i \<and> j < length Certs \<and> MbedTlsPkcs7VerifyCert L (drop j Certs) False (drop i Certs)"
proof
  assume "inter_cert L Certs i = Some j"
  then show "Suc j = i \<and> j < length Certs
      \<and> MbedTlsPkcs7VerifyCert L (drop j Certs) False (drop i Certs)"
    by (auto simp: inter_cert_def find_Some_iff)
next
  assume j: "Suc j = i \<and> j < length Certs
      \<and> MbedTlsPkcs7VerifyCert L (drop j Certs) False (drop i Certs)"
  then have "\<forall>k<j. [0..<length Certs] ! k \<noteq> j" and "[0..<length Certs] ! j = j" by simp_all
  with j show "inter_cert L Certs i = Some j"
    by (auto simp: inter_cert_def find_Some_iff simp del: nth_upt intro!: exI [of _ j])
qed

function MbedTlsPkcs7VerifyCertChain ::
    "'pk mbedtls \<Rightarrow> 'pk x509_crt list \<Rightarrow> 'pk x509_crt \<Rightarrow> nat \<Rightarrow> bool" where
  "MbedTlsPkcs7VerifyCertChain L Certs Ca i =
    (case inter_cert L Certs i of
       None \<Rightarrow> False
     | Some InterCert \<Rightarrow>
         if MbedTlsPkcs7VerifyCert L [Ca] True (drop InterCert Certs) then True
         else MbedTlsPkcs7VerifyCertChain L Certs Ca InterCert)"
  by pat_completeness auto
termination by (relation "measure (\<lambda>(L, Certs, Ca, i). i)") (auto simp: inter_cert_Some)

declare MbedTlsPkcs7VerifyCertChain.simps [simp del]

section \<open>The signed data\<close>

primrec any_cert_signs ::
    "'pk mbedtls \<Rightarrow> byte list \<Rightarrow> signer_info \<Rightarrow> byte list \<Rightarrow> 'pk x509_crt list \<Rightarrow> bool res" where
  "any_cert_signs L m si Data [] = Inr False"
| "any_cert_signs L m si Data (Cert # Certs) =
    bind_res (MbedtlsPkcs7SignedDataVerifySigners L m si Cert Data) (\<lambda>Ret.
      if Ret = 0 then Inr True else any_cert_signs L m si Data Certs)"

text \<open>One signer: whether the function returns \<^verbatim>\<open>TRUE\<close> here.\<close>

definition verify_signer ::
    "'pk mbedtls \<Rightarrow> byte list \<Rightarrow> 'pk x509_crt list \<Rightarrow> 'pk x509_crt \<Rightarrow> byte list \<Rightarrow> signer_info
     \<Rightarrow> bool res" where
  "verify_signer L m Certs TrustCert Data si =
    bind_res (MbedTlsPkcs7FindSignerCert m si Certs) (\<lambda>Cert.
      case Cert of
        None \<Rightarrow> Inr False
      | Some i \<Rightarrow>
          if MbedTlsPkcs7VerifyCert L [TrustCert] True (drop i Certs)
             \<or> MbedTlsPkcs7VerifyCertChain L Certs TrustCert i
          then any_cert_signs L m si Data Certs else Inr False)"

primrec verify_signers ::
    "(signer_info \<Rightarrow> bool res) \<Rightarrow> signer_info list \<Rightarrow> bool \<Rightarrow> bool res" where
  "verify_signers f [] Result = Inr Result"
| "verify_signers f (si # sis) Result =
    bind_res (f si) (\<lambda>b. if b then Inr True else verify_signers f sis False)"

definition MbedTlsPkcs7SignedDataVerify ::
    "'pk mbedtls \<Rightarrow> byte list \<Rightarrow> 'pk signed_data \<Rightarrow> 'pk x509_crt \<Rightarrow> byte list \<Rightarrow> bool res" where
  "MbedTlsPkcs7SignedDataVerify L m Pkcs7 TrustCert Data =
    verify_signers (verify_signer L m (sd_certs Pkcs7) TrustCert Data) (sd_signers Pkcs7) True"

section \<open>Wrapping\<close>

definition byte_at :: "byte list \<Rightarrow> nat \<Rightarrow> byte res" where
  "byte_at m i = (if i < length m then Inr (m ! i) else Inl OobRead)"

definition byte_is :: "byte list \<Rightarrow> nat \<Rightarrow> byte \<Rightarrow> bool res" where
  "byte_is m i x = bind_res (byte_at m i) (\<lambda>y. Inr (y = x))"

text \<open>The condition \<open>a && b\<close>.\<close>

definition and_res :: "bool res \<Rightarrow> bool res \<Rightarrow> bool res" where
  "and_res a b = bind_res a (\<lambda>x. if x then b else Inr False)"

definition is_wrapped :: "byte list \<Rightarrow> bool res" where
  "is_wrapped P7Data =
    and_res (byte_is P7Data 4 MBEDTLS_ASN1_OID) (and_res (byte_is P7Data 5 9)
   (and_res (bind_res (bytes P7Data 6 9) (\<lambda>x. Inr (x = MBEDTLS_OID_PKCS7_SIGNED_DATA)))
   (and_res (byte_is P7Data 15 ASN1_CONTEXT) (byte_is P7Data 16 0x82))))"

text \<open>The two bytes of \<^verbatim>\<open>(UINT16)n\<close>, the high one first.\<close>

definition be16 :: "nat \<Rightarrow> byte list" where
  "be16 n = (let w = of_nat n :: UINT16 in [ucast (drop_bit 8 w), ucast (w AND 0xFF)])"

definition wrap_header :: "nat \<Rightarrow> byte list" where
  "wrap_header P7Length =
    [ASN1_SEQUENCE, 0x82] @ be16 (P7Length + 19 - 4) @ [MBEDTLS_ASN1_OID, 9]
    @ MBEDTLS_OID_PKCS7_SIGNED_DATA @ [ASN1_CONTEXT, 0x82] @ be16 P7Length"

text \<open>
  Status, \<^verbatim>\<open>WrapFlag\<close>, \<^verbatim>\<open>WrapData\<close> (its pool block, when it is not the input, and its bytes), and
  the pool.
\<close>

definition WrapPkcs7Data ::
    "pool \<Rightarrow> byte list \<Rightarrow> (bool \<times> bool \<times> (nat option \<times> byte list) \<times> pool) res" where
  "WrapPkcs7Data p P7Data =
    bind_res (is_wrapped P7Data) (\<lambda>Wrapped.
      if Wrapped then Inr (True, True, (None, P7Data), p)
      else (case AllocatePool p (length P7Data + 19) of
              (None, p) \<Rightarrow> Inr (False, False, (None, []), p)
            | (Some b, p) \<Rightarrow>
                Inr (True, False, (Some b, wrap_header (length P7Data) @ P7Data), p)))"

section \<open>Pkcs7Verify\<close>

definition int32 :: "nat \<Rightarrow> int" where
  "int32 n = sint (of_nat n :: 32 word)"

lemma int32_le: "int32 n \<le> int n"
  by (simp add: int32_def signed_of_nat signed_take_bit_int_less_eq_self_iff)

definition Pkcs7Verify ::
    "'pk mbedtls \<Rightarrow> pool \<Rightarrow> byte list option \<Rightarrow> byte list option \<Rightarrow> byte list option
     \<Rightarrow> (bool \<times> pool) res option" where
  "Pkcs7Verify L p P7Data TrustedCert InData =
    (case (P7Data, TrustedCert, InData) of
       (Some P7Data, Some TrustedCert, Some InData) \<Rightarrow>
         if length P7Data > INT_MAX \<or> length TrustedCert > INT_MAX \<or> length InData > INT_MAX
         then Some (Inr (False, p))
         else (case WrapPkcs7Data p P7Data of
           Inl f \<Rightarrow> Some (Inl f)
         | Inr (Status, Wrapped, (b, WrapData), p) \<Rightarrow>
             if \<not> Status then Some (Inr (False, p))
             else map_option (\<lambda>r. bind_res r (\<lambda>parsed.
               case parsed of
                 Inl Ret \<Rightarrow> Inr (False, p)
               | Inr Pkcs7 \<Rightarrow>
                   (case mbedtls_x509_crt_parse_der L TrustedCert of
                      (Ret, Crt) \<Rightarrow>
                        if Ret \<noteq> 0 then Inr (False, p)
                        else bind_res (MbedTlsPkcs7SignedDataVerify L WrapData Pkcs7 Crt InData)
                               (\<lambda>Status. Inr (Status, p)))))
               (MbedtlsPkcs7ParseDer L WrapData (int32 (length WrapData))))
     | _ \<Rightarrow> Some (Inr (False, p)))"

end
