(* ===== verification/Pkcs7Signers.thy ===== *)
theory Pkcs7Signers
  imports Pkcs7Verify
begin

text \<open>
  \<^verbatim>\<open>Pkcs7GetSigners\<close> of \<^verbatim>\<open>CryptPkcs7VerifyCommon.c\<close>: the certificates of the signers as a stack
  of counted entries.
\<close>

definition le32 :: "UINT32 \<Rightarrow> byte list" where
  "le32 w = [ucast w, ucast (drop_bit 8 w), ucast (drop_bit 16 w), ucast (drop_bit 24 w)]"

type_synonym cert_buf = "(nat \<times> byte list) option"  \<comment> \<open>pool block and bytes\<close>

text \<open>The contents of the new buffer: the old one, the length and the certificate.\<close>

definition stack_put :: "cert_buf \<Rightarrow> nat \<Rightarrow> byte list \<Rightarrow> byte list res" where
  "stack_put OldBuf OldSize raw =
    bind_res (let z = replicate (OldSize + length raw + 4) 0 in
              case OldBuf of
                None \<Rightarrow> Inr z
              | Some (b, old) \<Rightarrow>
                  if OldSize > length old then Inl OobRead else Inr (copy_at 0 (take OldSize old) z))
      (\<lambda>buf. Inr (copy_at (OldSize + 4) raw (copy_at OldSize (le32 (of_nat (length raw))) buf)))"

text \<open>
  The loop over the signers: \<open>Inl\<close> is the jump to \<^verbatim>\<open>_Exit\<close> with \<^verbatim>\<open>CertBuf\<close> and \<^verbatim>\<open>OldBuf\<close>, \<open>Inr\<close>
  has \<^verbatim>\<open>BufferSize\<close>, \<^verbatim>\<open>OldSize\<close>, \<^verbatim>\<open>CertBuf\<close> and \<^verbatim>\<open>Index\<close>.
\<close>

primrec collect_signers ::
    "byte list \<Rightarrow> 'pk x509_crt list \<Rightarrow> signer_info list \<Rightarrow> nat \<Rightarrow> nat \<Rightarrow> cert_buf \<Rightarrow> byte \<Rightarrow> pool
     \<Rightarrow> (cert_buf \<times> cert_buf \<times> pool + nat \<times> nat \<times> cert_buf \<times> byte \<times> pool) res" where
  "collect_signers m Certs [] BufferSize OldSize CertBuf Index p =
    Inr (Inr (BufferSize, OldSize, CertBuf, Index, p))"
| "collect_signers m Certs (si # sis) BufferSize OldSize CertBuf Index p =
    bind_res (MbedTlsPkcs7FindSignerCert m si Certs) (\<lambda>Cert.
      case Cert of
        None \<Rightarrow> Inr (Inl (CertBuf, None, p))
      | Some i \<Rightarrow>
          let raw = crt_raw (Certs ! i); OldBuf = CertBuf; OldSize = BufferSize;
              BufferSize = OldSize + length raw + 4
          in case AllocatePool p BufferSize of
               (None, p) \<Rightarrow> Inr (Inl (None, OldBuf, p))
             | (Some b, p) \<Rightarrow>
                 bind_res (stack_put OldBuf OldSize raw) (\<lambda>buf.
                 bind_res (case OldBuf of None \<Rightarrow> Inr p | Some (a, old) \<Rightarrow> FreePool p (Some a)) (\<lambda>p.
                   collect_signers m Certs sis BufferSize OldSize (Some (b, buf)) (Index + 1) p)))"

text \<open>The outputs: \<open>None\<close> is one that is not written, \<open>Some None\<close> is NULL.\<close>

record signers_out =
  CertStack :: "cert_buf option"
  StackLength :: "nat option"
  TrustedCertOut :: "cert_buf option"
  CertLength :: "nat option"

definition no_out :: signers_out where
  "no_out = \<lparr>CertStack = None, StackLength = None, TrustedCertOut = None, CertLength = None\<rparr>"

text \<open>The code at \<^verbatim>\<open>_Exit\<close> with \<^verbatim>\<open>Status\<close> false.\<close>

definition signers_exit ::
    "signers_out \<Rightarrow> cert_buf \<Rightarrow> cert_buf \<Rightarrow> pool \<Rightarrow> (bool \<times> signers_out \<times> pool) res" where
  "signers_exit out CertBuf OldBuf p =
    bind_res (case CertBuf of
                None \<Rightarrow> Inr (out, p)
              | Some (b, x) \<Rightarrow> bind_res (FreePool p (Some b)) (\<lambda>p. Inr (out\<lparr>CertStack := Some None\<rparr>, p)))
      (\<lambda>(out, p).
    bind_res (case OldBuf of None \<Rightarrow> Inr p | Some (b, x) \<Rightarrow> FreePool p (Some b)) (\<lambda>p.
      Inr (False, out, p)))"

definition signers_result ::
    "nat \<Rightarrow> nat \<Rightarrow> cert_buf \<Rightarrow> byte \<Rightarrow> pool \<Rightarrow> (bool \<times> signers_out \<times> pool) res" where
  "signers_result BufferSize OldSize CertBuf Index p =
    (case CertBuf of
       None \<Rightarrow> signers_exit no_out None None p
     | Some (b, x) \<Rightarrow>
         let x = x[0 := Index]; Len = BufferSize - OldSize - 4
         in case AllocatePool p Len of
              (None, p) \<Rightarrow>
                signers_exit (no_out\<lparr>CertLength := Some Len, TrustedCertOut := Some None\<rparr>)
                  (Some (b, x)) None p
            | (Some t, p) \<Rightarrow>
                if OldSize + 4 + Len > length x then Inl OobRead
                else Inr (True, \<lparr>CertStack = Some (Some (b, x)), StackLength = Some BufferSize,
                       TrustedCertOut = Some (Some (t, seg (OldSize + 4) Len x)),
                       CertLength = Some Len\<rparr>, p))"

text \<open>\<open>outs\<close>: none of the four pointers for the results is NULL.\<close>

definition Pkcs7GetSigners ::
    "'pk mbedtls \<Rightarrow> pool \<Rightarrow> byte list option \<Rightarrow> bool \<Rightarrow> (bool \<times> signers_out \<times> pool) res option" where
  "Pkcs7GetSigners L p P7Data outs =
    (case P7Data of
       None \<Rightarrow> Some (Inr (False, no_out, p))
     | Some P7Data \<Rightarrow>
         if \<not> outs \<or> length P7Data > INT_MAX then Some (Inr (False, no_out, p))
         else (case WrapPkcs7Data p P7Data of
           Inl f \<Rightarrow> Some (Inl f)
         | Inr (Status, Wrapped, (b, WrapData), p) \<Rightarrow>
             if \<not> Status then Some (Inr (False, no_out, p))
             else map_option (\<lambda>r. bind_res r (\<lambda>parsed.
               case parsed of
                 Inl Ret \<Rightarrow> signers_exit no_out None None p
               | Inr Pkcs7 \<Rightarrow>
                   bind_res (collect_signers WrapData (sd_certs Pkcs7) (sd_signers Pkcs7) 1 1 None 0 p)
                     (\<lambda>c. case c of
                        Inl (CertBuf, OldBuf, p) \<Rightarrow> signers_exit no_out CertBuf OldBuf p
                      | Inr (BufferSize, OldSize, CertBuf, Index, p) \<Rightarrow>
                          signers_result BufferSize OldSize CertBuf Index p)))
               (MbedtlsPkcs7ParseDer L WrapData (int32 (length WrapData)))))"

definition Pkcs7FreeSigners :: "pool \<Rightarrow> nat option \<Rightarrow> pool res" where
  "Pkcs7FreeSigners p Certs = (case Certs of None \<Rightarrow> Inr p | Some b \<Rightarrow> FreePool p (Some b))"

text \<open>\<^verbatim>\<open>ASSERT (FALSE)\<close> is only there in a debug build.\<close>

definition Pkcs7GetCertificatesList :: "bool \<Rightarrow> bool res" where
  "Pkcs7GetCertificatesList dbg = (if dbg then Inl AssertFailed else Inr False)"

end
