(* ===== verification/Pkcs7Safe.thy ===== *)
theory Pkcs7Safe
  imports Pkcs7Signers
begin

text \<open>
  The parser and the verification over every library that keeps to its documentation: they
  end, stay inside the message, and the buffers of the signer lie in it.
\<close>

section \<open>What is relied on\<close>

text \<open>
  An ASN.1 function that succeeds has moved the pointer over at least one byte, and what it found
  lies in front of the end it was given; a length is not negative. The documentation leaves the pointer undefined after an
  error; as the code goes on with it, the last conjunct asks that it has not moved backwards.
\<close>

definition element_ok :: "int \<Rightarrow> int \<Rightarrow> int \<Rightarrow> int \<times> int \<times> int \<Rightarrow> bool" where
  "element_ok p e n r = (case r of (Ret, p', n') \<Rightarrow>
     (0 \<le> n \<longrightarrow> 0 \<le> n') \<and> (Ret = 0 \<longrightarrow> p < p' \<and> 0 \<le> n' \<and> p' + n' \<le> e) \<and> (Ret \<noteq> 0 \<longrightarrow> p \<le> p'))"

definition value_ok :: "int \<Rightarrow> int \<Rightarrow> int \<times> int \<times> 'a \<Rightarrow> bool" where
  "value_ok p e r = (case r of (Ret, p', v) \<Rightarrow> p \<le> p' \<and> (Ret = 0 \<longrightarrow> p' \<le> e))"

definition value_in :: "int \<Rightarrow> int \<Rightarrow> int \<times> int \<times> asn1_buf \<Rightarrow> bool" where
  "value_in p e r = (value_ok p e r \<and> (case r of (Ret, p', b) \<Rightarrow>
     Ret = 0 \<longrightarrow> p \<le> fst b \<and> 0 \<le> snd b \<and> fst b + snd b \<le> p'))"

definition moved_ok :: "int \<Rightarrow> int \<Rightarrow> int \<times> int \<Rightarrow> bool" where
  "moved_ok p e r = (case r of (Ret, p') \<Rightarrow> Ret = 0 \<longrightarrow> p \<le> p' \<and> p' \<le> e)"

definition asn1_ok :: "'pk mbedtls \<Rightarrow> bool" where
  "asn1_ok L \<longleftrightarrow>
     (\<forall>m p e n t. element_ok p e n (mbedtls_asn1_get_tag L m p e n t))
   \<and> (\<forall>m p e. value_ok p e (mbedtls_asn1_get_int L m p e))
   \<and> (\<forall>m p e. value_in p e (mbedtls_asn1_get_alg_null L m p e))
   \<and> (\<forall>m p e. moved_ok p e (mbedtls_x509_get_name L m p e))
   \<and> (\<forall>m p e. value_in p e (mbedtls_x509_get_serial L m p e))"

lemma get_tag_ok:
  assumes "asn1_ok L" and "mbedtls_asn1_get_tag L m p e n t = (Ret, p', n')"
  shows "Ret = 0 \<Longrightarrow> p < p' \<and> 0 \<le> n' \<and> p' + n' \<le> e" "p \<le> p'" "0 \<le> n \<Longrightarrow> 0 \<le> n'"
proof -
  have "element_ok p e n (mbedtls_asn1_get_tag L m p e n t)" using assms(1) by (simp add: asn1_ok_def)
  then show "Ret = 0 \<Longrightarrow> p < p' \<and> 0 \<le> n' \<and> p' + n' \<le> e" "p \<le> p'" "0 \<le> n \<Longrightarrow> 0 \<le> n'"
    by (auto simp: element_ok_def assms(2))
qed

lemma get_int_ok:
  assumes "asn1_ok L" and "mbedtls_asn1_get_int L m p e = (Ret, p', v)"
  shows "p \<le> p'" "Ret = 0 \<Longrightarrow> p' \<le> e"
proof -
  have "value_ok p e (mbedtls_asn1_get_int L m p e)" using assms(1) by (simp add: asn1_ok_def)
  then show "p \<le> p'" "Ret = 0 \<Longrightarrow> p' \<le> e" by (auto simp: value_ok_def assms(2))
qed

lemma get_alg_ok:
  assumes "asn1_ok L" and "mbedtls_asn1_get_alg_null L m p e = (Ret, p', b)"
  shows "p \<le> p'" "Ret = 0 \<Longrightarrow> p' \<le> e \<and> p \<le> fst b \<and> 0 \<le> snd b \<and> fst b + snd b \<le> p'"
proof -
  have "value_in p e (mbedtls_asn1_get_alg_null L m p e)" using assms(1) by (simp add: asn1_ok_def)
  then show "p \<le> p'" "Ret = 0 \<Longrightarrow> p' \<le> e \<and> p \<le> fst b \<and> 0 \<le> snd b \<and> fst b + snd b \<le> p'"
    by (auto simp: value_in_def value_ok_def assms(2))
qed

lemma get_name_ok:
  assumes "asn1_ok L" and "mbedtls_x509_get_name L m p e = (Ret, p')"
  shows "Ret = 0 \<Longrightarrow> p \<le> p' \<and> p' \<le> e"
proof -
  have "moved_ok p e (mbedtls_x509_get_name L m p e)" using assms(1) by (simp add: asn1_ok_def)
  then show "Ret = 0 \<Longrightarrow> p \<le> p' \<and> p' \<le> e" by (simp add: moved_ok_def assms(2))
qed

lemma get_serial_ok:
  assumes "asn1_ok L" and "mbedtls_x509_get_serial L m p e = (Ret, p', b)"
  shows "Ret = 0 \<Longrightarrow> p \<le> p' \<and> p' \<le> e \<and> p \<le> fst b \<and> 0 \<le> snd b \<and> fst b + snd b \<le> p'"
proof -
  have "value_in p e (mbedtls_x509_get_serial L m p e)" using assms(1) by (simp add: asn1_ok_def)
  then show "Ret = 0 \<Longrightarrow> p \<le> p' \<and> p' \<le> e \<and> p \<le> fst b \<and> 0 \<le> snd b \<and> fst b + snd b \<le> p'"
    by (auto simp: value_in_def value_ok_def assms(2))
qed

section \<open>Buffers inside the message\<close>

definition buf_in :: "byte list \<Rightarrow> asn1_buf \<Rightarrow> bool" where
  "buf_in m b \<longleftrightarrow> 0 \<le> fst b \<and> 0 \<le> snd b \<and> fst b + snd b \<le> int (length m)"

definition buf_val :: "byte list \<Rightarrow> asn1_buf \<Rightarrow> byte list" where
  "buf_val m b = seg (nat (fst b)) (nat (snd b)) m"

lemma buf_bytes_in: "buf_in m b \<Longrightarrow> buf_bytes m b = Inr (buf_val m b)"
  by (simp add: buf_in_def buf_bytes_def bytes_def buf_val_def)

lemma length_buf_val: "buf_in m b \<Longrightarrow> int (length (buf_val m b)) = snd b"
  by (auto simp: buf_in_def buf_val_def seg_def min_def)

lemma oid_is_in: "buf_in m b \<Longrightarrow> oid_is m b oid = Inr (buf_val m b = oid)"
  by (auto simp: oid_is_def buf_bytes_in dest: length_buf_val [of m b])

lemma same_bytes_in: "buf_in m b \<Longrightarrow> same_bytes m x b = Inr (x = buf_val m b)"
  by (auto simp: same_bytes_def buf_bytes_in length_buf_val)

definition si_ok :: "byte list \<Rightarrow> signer_info \<Rightarrow> bool" where
  "si_ok m si \<longleftrightarrow> buf_in m (si_Serial si) \<and> buf_in m (si_IssuerRaw si) \<and> buf_in m (si_Sig si)
    \<and> (\<forall>b. si_AuthAttr si = Some b \<longrightarrow> buf_in m b \<and> 0 < snd b)"


section \<open>The loop over the certificates\<close>

definition calloc_all :: "'pk mbedtls \<Rightarrow> bool" where
  "calloc_all L \<longleftrightarrow> (\<forall>n. mbedtls_calloc_ok L n)"

lemma cert_loop_ends:
  assumes L: "asn1_ok L" and m: "End \<le> int (length m)" and p: "0 \<le> CertP" and t: "0 \<le> Tot"
  shows "\<exists>r. cert_loop L m End Len Ret Tot CertP certs MoreCert = Some r
    \<and> (\<forall>f. r = Inl f \<longrightarrow> f = NullDeref \<and> \<not> (MoreCert \<and> calloc_all L))
    \<and> (\<forall>out Ret' Tot' certs' M'. r = Inr (out, Ret', Tot', certs', M') \<longrightarrow> Tot \<le> Tot')"
  using p t
proof (induction "nat (End - CertP)" arbitrary: CertP Ret Tot certs MoreCert rule: less_induct)
  case less
  obtain Ret1 p1 n1 where tag: "mbedtls_asn1_get_tag L m CertP End 0 ASN1_SEQUENCE = (Ret1, p1, n1)"
    by (cases "mbedtls_asn1_get_tag L m CertP End 0 ASN1_SEQUENCE") auto
  note ok = get_tag_ok(1) [OF L tag]
  consider "\<not> Tot < Len" | "Tot < Len" "Ret1 \<noteq> 0" | "Tot < Len" "Ret1 = 0" "\<not> MoreCert"
    | "Tot < Len" "Ret1 = 0" "MoreCert" by blast
  then show ?case
  proof cases
    case 4
    let ?n = "n1 + (p1 - CertP)"
    have in_m: "CertP + ?n \<le> End" "0 < ?n" using ok [OF 4(2)] by linarith+
    then have b: "bytes m CertP ?n = Inr (seg (nat CertP) (nat ?n) m)"
      using m less.prems(1) by (simp add: bytes_def)
    obtain Ret2 crt where crt: "mbedtls_x509_crt_parse L (seg (nat CertP) (nat ?n) m) = (Ret2, crt)"
      by (cases "mbedtls_x509_crt_parse L (seg (nat CertP) (nat ?n) m)") auto
    show ?thesis
    proof (cases "Ret2 = 0")
      case False
      then show ?thesis using 4 tag crt in_m less.prems
        by (subst cert_loop.simps) (simp add: MbedTlsPkcs7GetCertificates_def b)
    next
      case True
      have smaller: "nat (End - (CertP + ?n)) < nat (End - CertP)" using in_m by simp
      obtain r where r: "cert_loop L m End Len 0 (Tot + ?n) (CertP + ?n) (certs @ [crt])
            (mbedtls_calloc_ok L (length certs)) = Some r"
        "\<forall>f. r = Inl f \<longrightarrow> f = NullDeref \<and> \<not> (mbedtls_calloc_ok L (length certs) \<and> calloc_all L)"
        "\<forall>out Ret' Tot' certs' M'. r = Inr (out, Ret', Tot', certs', M') \<longrightarrow> Tot + ?n \<le> Tot'"
        using less.hyps [OF smaller, of "Tot + ?n" 0 "certs @ [crt]"
          "mbedtls_calloc_ok L (length certs)"] less.prems in_m by force
      have "cert_loop L m End Len Ret Tot CertP certs MoreCert = Some r"
        using 4 tag crt True r(1)
        by (subst cert_loop.simps) (simp add: MbedTlsPkcs7GetCertificates_def b)
      then show ?thesis using r(2,3) in_m by (fastforce simp: calloc_all_def)
    qed
  qed (subst cert_loop.simps, use tag in \<open>simp\<close>)+
qed

section \<open>The signer\<close>

lemma get_auth_attr_ok:
  assumes "asn1_ok L" and "get_auth_attr L m p e n = (b, p')" and "0 \<le> p" and "p \<le> e"
    and "e \<le> int (length m)"
  shows "p \<le> p' \<and> p' \<le> e \<and> (\<forall>x. b = Some x \<longrightarrow> buf_in m x \<and> 0 < snd x)"
  using assms(2-) get_tag_ok(1) [OF assms(1), of m p e n ASN1_CONTEXT]
  by (fastforce simp: get_auth_attr_def buf_in_def split: prod.splits if_splits)

lemma signer_tail_ok:
  assumes L: "asn1_ok L" and r: "signer_tail L m p End e n v Issuer Serial = Inr si"
    and p: "0 \<le> p" "e \<le> int (length m)" "End \<le> int (length m)"
    and b: "buf_in m Issuer" "buf_in m Serial"
  shows "si_ok m si"
proof -
  obtain p1 Alg where a1: "mbedtls_asn1_get_alg_null L m p e = (0, p1, Alg)"
    using r by (auto simp: signer_tail_def MbedTlsPkcs7GetDigestAlgorithm_def
        split: prod.splits if_splits)
  obtain A p2 where a2: "get_auth_attr L m p1 e n = (A, p2)"
    by (cases "get_auth_attr L m p1 e n") auto
  obtain p3 SigAlg where a3: "mbedtls_asn1_get_alg_null L m p2 e = (0, p3, SigAlg)"
    using r a1 a2 by (auto simp: signer_tail_def MbedTlsPkcs7GetDigestAlgorithm_def
        split: prod.splits if_splits)
  obtain p4 n4 where a4: "mbedtls_asn1_get_tag L m p3 End 0 MBEDTLS_ASN1_OCTET_STRING = (0, p4, n4)"
    using r a1 a2 a3 by (auto simp: signer_tail_def MbedTlsPkcs7GetDigestAlgorithm_def
        Pkcs7GetSignature_def split: prod.splits if_splits)
  have si: "si_Serial si = Serial" "si_IssuerRaw si = Issuer" "si_AuthAttr si = A" "si_Sig si = (p4, n4)"
    using r a1 a2 a3 a4 by (auto simp: signer_tail_def MbedTlsPkcs7GetDigestAlgorithm_def
        Pkcs7GetSignature_def)
  have p1: "p \<le> p1" "p1 \<le> e" using get_alg_ok [OF L a1] by auto
  then have p2: "p1 \<le> p2" "\<forall>x. A = Some x \<longrightarrow> buf_in m x \<and> 0 < snd x"
    using get_auth_attr_ok [OF L a2] p by auto
  have p3: "p2 \<le> p3" using get_alg_ok(1) [OF L a3] .
  have "buf_in m (p4, n4)"
    using get_tag_ok(1) [OF L a4] p p1 p2(1) p3 by (simp add: buf_in_def)
  then show ?thesis using b p2(2) by (simp add: si_ok_def si)
qed

lemma signer_head_ok:
  assumes L: "asn1_ok L" and r: "signer_head L m p e n = Inr (p', n', v, Issuer, Serial)"
    and p: "0 \<le> p" "e \<le> int (length m)"
  shows "p \<le> p' \<and> p' \<le> e \<and> buf_in m Issuer \<and> buf_in m Serial"
proof -
  obtain p1 v1 where a1: "mbedtls_asn1_get_int L m p e = (0, p1, v1)"
    using r by (auto simp: signer_head_def split: prod.splits if_splits)
  obtain p2 n2 where a2: "mbedtls_asn1_get_tag L m p1 e n ASN1_SEQUENCE = (0, p2, n2)"
    using r a1 by (auto simp: signer_head_def split: prod.splits if_splits)
  obtain p3 n3 where a3: "mbedtls_asn1_get_tag L m p2 e n2 ASN1_SEQUENCE = (0, p3, n3)"
    using r a1 a2 by (auto simp: signer_head_def split: prod.splits if_splits)
  obtain p4 where a4: "mbedtls_x509_get_name L m p3 (p3 + n3) = (0, p4)"
    using r a1 a2 a3 by (auto simp: signer_head_def split: prod.splits if_splits)
  obtain p5 b5 where a5: "mbedtls_x509_get_serial L m p4 e = (0, p5, b5)"
    using r a1 a2 a3 a4 by (auto simp: signer_head_def split: prod.splits if_splits)
  have eqs: "p' = p5" "Issuer = (p2, p4 - p2)" "Serial = b5"
    using r a1 a2 a3 a4 a5 by (auto simp: signer_head_def)
  have "p \<le> p1" using get_int_ok(1) [OF L a1] .
  moreover have "p1 < p2" using get_tag_ok(1) [OF L a2] by simp
  moreover have "p2 < p3" "0 \<le> n3" "p3 + n3 \<le> e" using get_tag_ok(1) [OF L a3] by simp_all
  moreover have "p3 \<le> p4" "p4 \<le> p3 + n3" using get_name_ok [OF L a4] by simp_all
  moreover have "p4 \<le> p5 \<and> p5 \<le> e \<and> p4 \<le> fst b5 \<and> 0 \<le> snd b5 \<and> fst b5 + snd b5 \<le> p5"
    using get_serial_ok [OF L a5] by simp
  ultimately show ?thesis using p by (simp add: eqs buf_in_def)
qed

lemma get_signers_ok:
  assumes L: "asn1_ok L" and r: "MbedTlsPkcs7GetSignersInfoSet L m p End = Inr si"
    and p: "0 \<le> p" "End \<le> int (length m)"
  shows "si_ok m si"
proof -
  obtain p1 n1 where a1: "mbedtls_asn1_get_tag L m p End 0 ASN1_SET = (0, p1, n1)"
    using r by (auto simp: MbedTlsPkcs7GetSignersInfoSet_def Let_def split: prod.splits if_splits)
  obtain p2 n2 where a2: "mbedtls_asn1_get_tag L m p1 (p1 + n1) n1 ASN1_SEQUENCE = (0, p2, n2)"
    using r a1 by (auto simp: MbedTlsPkcs7GetSignersInfoSet_def Let_def split: prod.splits if_splits)
  obtain p3 n3 v Issuer Serial
    where a3: "signer_head L m p2 (p1 + n1) n2 = Inr (p3, n3, v, Issuer, Serial)"
    using r a1 a2 by (auto simp: MbedTlsPkcs7GetSignersInfoSet_def Let_def split: sum.splits)
  have a4: "signer_tail L m p3 End (p1 + n1) n3 v Issuer Serial = Inr si"
    using r a1 a2 a3 by (simp add: MbedTlsPkcs7GetSignersInfoSet_def Let_def)
  have "p < p1" "p1 + n1 \<le> End" using get_tag_ok(1) [OF L a1] by simp_all
  moreover have "p1 < p2" using get_tag_ok(1) [OF L a2] by simp
  ultimately have e: "0 \<le> p2" "p1 + n1 \<le> int (length m)" using p by simp_all
  with signer_head_ok [OF L a3] have "p2 \<le> p3" "buf_in m Issuer" "buf_in m Serial" by simp_all
  with e p show ?thesis by (intro signer_tail_ok [OF L a4]) simp_all
qed


section \<open>The message\<close>

lemma get_content_info_ok:
  assumes L: "asn1_ok L" and r: "Pkcs7GetContentInfoType L m p e = (Ret, p', Oid)"
  shows "p \<le> p'" "Oid = Some b \<Longrightarrow> Ret = 0 \<and> p \<le> fst b \<and> 0 \<le> snd b \<and> fst b + snd b \<le> e \<and> fst b = p'"
    "Oid = None \<longleftrightarrow> Ret \<noteq> 0"
proof -
  obtain Ret1 p1 n1 where a1: "mbedtls_asn1_get_tag L m p e 0 ASN1_SEQUENCE = (Ret1, p1, n1)"
    by (cases "mbedtls_asn1_get_tag L m p e 0 ASN1_SEQUENCE") auto
  obtain Ret2 p2 n2 where a2: "mbedtls_asn1_get_tag L m p1 e n1 MBEDTLS_ASN1_OID = (Ret2, p2, n2)"
    by (cases "mbedtls_asn1_get_tag L m p1 e n1 MBEDTLS_ASN1_OID") auto
  note ok = get_tag_ok [OF L a1] get_tag_ok [OF L a2]
  from r a1 a2 ok show "p \<le> p'" "Oid = None \<longleftrightarrow> Ret \<noteq> 0"
    by (auto simp: Pkcs7GetContentInfoType_def split: if_splits)
  show "Oid = Some b \<Longrightarrow> Ret = 0 \<and> p \<le> fst b \<and> 0 \<le> snd b \<and> fst b + snd b \<le> e \<and> fst b = p'"
    using r a1 a2 ok by (auto simp: Pkcs7GetContentInfoType_def split: if_splits)
qed

lemma get_digest_set_ok:
  assumes L: "asn1_ok L" and r: "MbedTlsPkcs7GetDigestAlgorithmSet L m p e = (Ret, p', Alg)"
    and p: "0 \<le> p" "e \<le> int (length m)"
  shows "p \<le> p'" "Alg = Some b \<Longrightarrow> Ret = 0 \<and> p' \<le> e \<and> buf_in m b" "Alg = None \<longleftrightarrow> Ret \<noteq> 0"
proof -
  obtain Ret1 p1 n1 where a1: "mbedtls_asn1_get_tag L m p e 0 ASN1_SET = (Ret1, p1, n1)"
    by (cases "mbedtls_asn1_get_tag L m p e 0 ASN1_SET") auto
  obtain Ret2 p2 b2 where a2: "mbedtls_asn1_get_alg_null L m p1 (p1 + n1) = (Ret2, p2, b2)"
    by (cases "mbedtls_asn1_get_alg_null L m p1 (p1 + n1)") auto
  note ok = get_tag_ok [OF L a1] get_alg_ok [OF L a2]
  from r a1 a2 ok show "p \<le> p'" "Alg = None \<longleftrightarrow> Ret \<noteq> 0"
    by (auto simp: MbedTlsPkcs7GetDigestAlgorithmSet_def split: if_splits)
  show "Alg = Some b \<Longrightarrow> Ret = 0 \<and> p' \<le> e \<and> buf_in m b"
    using r a1 a2 ok p by (auto simp: MbedTlsPkcs7GetDigestAlgorithmSet_def buf_in_def split: if_splits)
qed

lemma find_certificates_ok:
  assumes L: "asn1_ok L" and r: "find_certificates L m p e n = (Ret, p', n')" and n: "0 \<le> n"
  shows "p \<le> p'"
proof -
  obtain Ret1 p1 Oid where a1: "Pkcs7GetContentInfoType L m p e = (Ret1, p1, Oid)"
    by (cases "Pkcs7GetContentInfoType L m p e") auto
  note ok = get_content_info_ok [OF L a1]
  show ?thesis
  proof (cases Oid)
    case None
    then show ?thesis using r a1 ok by (simp add: find_certificates_def)
  next
    case (Some b)
    obtain Ret2 p2 n2 where a2: "mbedtls_asn1_get_tag L m (p1 + snd b) e n ASN1_CONTEXT = (Ret2, p2, n2)"
      by (cases "mbedtls_asn1_get_tag L m (p1 + snd b) e n ASN1_CONTEXT") auto
    obtain Ret3 p3 n3 where a3: "mbedtls_asn1_get_tag L m (p2 + n2) e 0 ASN1_CONTEXT = (Ret3, p3, n3)"
      by (cases "mbedtls_asn1_get_tag L m (p2 + n2) e 0 ASN1_CONTEXT") auto
    have p2: "p \<le> p2" using ok(1) ok(2) [OF Some] get_tag_ok(2) [OF L a2] by linarith
    show ?thesis using r p2 get_tag_ok(2) [OF L a3] get_tag_ok(3) [OF L a2 n]
      by (auto simp: find_certificates_def a1 Some MbedTlsPkcs7GetNextContentLen_def a2 a3
          split: if_splits)
  qed
qed

lemma supported_digest_in:
  "buf_in m b \<Longrightarrow> \<exists>ok. supported_digest L m b = Inr ok"
  by (auto simp: supported_digest_def oid_is_in)

lemma signed_data_head_ok:
  assumes L: "asn1_ok L" and p: "0 \<le> p" "e \<le> int (length m)"
  shows "\<exists>Ret p' n. signed_data_head L m p e = Inr (Ret, p', n) \<and> p \<le> p'"
proof -
  obtain Ret1 p1 n1 where a1: "mbedtls_asn1_get_tag L m p e 0 ASN1_SEQUENCE = (Ret1, p1, n1)"
    by (cases "mbedtls_asn1_get_tag L m p e 0 ASN1_SEQUENCE") auto
  obtain Ret2 p2 v where a2: "mbedtls_asn1_get_int L m p1 e = (Ret2, p2, v)"
    by (cases "mbedtls_asn1_get_int L m p1 e") auto
  obtain Ret3 p3 Alg where a3: "MbedTlsPkcs7GetDigestAlgorithmSet L m p2 e = (Ret3, p3, Alg)"
    by (cases "MbedTlsPkcs7GetDigestAlgorithmSet L m p2 e") auto
  have p1: "p \<le> p1" using get_tag_ok(2) [OF L a1] .
  have p2: "p1 \<le> p2" using get_int_ok(1) [OF L a2] .
  have p2': "0 \<le> p2" using p p1 p2 by linarith
  note dig = get_digest_set_ok [OF L a3 p2' p(2)]
  show ?thesis
  proof (cases Alg)
    case None
    then show ?thesis using p1 p2 dig(1)
      by (simp add: signed_data_head_def a1 a2 a3 MbedTlsPkcs7GetVersion_def)
  next
    case (Some b)
    obtain ok where ok: "supported_digest L m b = Inr ok"
      using supported_digest_in dig(2) [OF Some] by blast
    obtain Ret4 p4 n4 where a4: "find_certificates L m p3 e n1 = (Ret4, p4, n4)"
      by (cases "find_certificates L m p3 e n1") auto
    show ?thesis using p1 p2 dig(1) find_certificates_ok [OF L a4 get_tag_ok(3) [OF L a1 order_refl]]
      by (simp add: signed_data_head_def a1 a2 a3 a4 ok Some MbedTlsPkcs7GetVersion_def)
  qed
qed

text \<open>What is known of every parsed message.\<close>

definition sd_ok :: "byte list \<Rightarrow> 'pk signed_data \<Rightarrow> bool" where
  "sd_ok m sd \<longleftrightarrow> (\<exists>si. sd_signers sd = [si] \<and> si_ok m si)"

lemma get_signed_data_ok:
  assumes L: "asn1_ok L" and p: "0 \<le> Buffer" "Buffer + BufferLen \<le> int (length m)"
  shows "\<exists>r. Pkcs7GetSignedData L m Buffer BufferLen = Some r
    \<and> (\<forall>f. r = Inl f \<longrightarrow> f = NullDeref \<and> \<not> calloc_all L) \<and> (\<forall>sd. r = Inr (Inr sd) \<longrightarrow> sd_ok m sd)"
proof -
  obtain Ret p1 n where h: "signed_data_head L m Buffer (Buffer + BufferLen) = Inr (Ret, p1, n)"
      "Buffer \<le> p1"
    using signed_data_head_ok [OF L p] by blast
  then have p1: "0 \<le> p1" using p by linarith
  obtain r where r: "cert_loop L m (Buffer + BufferLen) n Ret 0 p1 [] True = Some r"
    "\<forall>f. r = Inl f \<longrightarrow> f = NullDeref \<and> \<not> calloc_all L"
    "\<forall>out Ret' Tot' certs' M'. r = Inr (out, Ret', Tot', certs', M') \<longrightarrow> 0 \<le> Tot'"
    using cert_loop_ends [OF L p(2) p1, of 0 n Ret "[]" True] by auto
  show ?thesis
  proof (cases r)
    case (Inl f)
    then show ?thesis using h r by (simp add: Pkcs7GetSignedData_def)
  next
    case (Inr x)
    obtain out Ret' Tot certs M where x: "x = (out, Ret', Tot, certs, M)" by (cases x) auto
    have "0 \<le> Tot" using r(3) Inr x by blast
    moreover have "si_ok m si"
      if "Tot = n" "0 \<le> Tot" "MbedTlsPkcs7GetSignersInfoSet L m (p1 + n) (Buffer + BufferLen) = Inr si"
      for si
      using get_signers_ok [OF L that(3)] that p1 p by simp
    ultimately show ?thesis
      by (auto simp: Pkcs7GetSignedData_def h r(1) Inr x sd_ok_def split: sum.splits)
  qed
qed

text \<open>The content type is longer than the constants with which it is compared.\<close>

definition long_oid :: "'pk mbedtls \<Rightarrow> byte list \<Rightarrow> int \<Rightarrow> bool" where
  "long_oid L m n = (case Pkcs7GetContentInfoType L m 0 n of
     (Ret, p, None) \<Rightarrow> False | (Ret, p, Some Oid) \<Rightarrow> snd Oid > 10)"

lemma oid_prefix_in:
  "buf_in m b \<Longrightarrow> length oid = 9 \<Longrightarrow>
    oid_prefix m b oid = (if snd b > 10 then Inl OobRead
                          else Inr (buf_val m b = take (nat (snd b)) (oid @ [0])))"
  by (simp add: oid_prefix_def buf_bytes_in)

lemma excluded_content_in:
  "buf_in m b \<Longrightarrow> excluded_content m b = Inl f \<longleftrightarrow> snd b > 10 \<and> f = OobRead"
  by (auto simp: excluded_content_def oid_prefix_in pkcs7_oids)

lemma parse_der_ok:
  assumes L: "asn1_ok L" and n: "n \<le> int (length m)"
  shows "\<exists>r. MbedtlsPkcs7ParseDer L m n = Some r
    \<and> (\<forall>f. r = Inl f \<longrightarrow> f = OobRead \<and> long_oid L m n \<or> f = NullDeref \<and> \<not> calloc_all L)
    \<and> (\<forall>sd. r = Inr (Inr sd) \<longrightarrow> sd_ok m sd)"
proof -
  obtain Ret p1 Oid where a1: "Pkcs7GetContentInfoType L m 0 n = (Ret, p1, Oid)"
    by (cases "Pkcs7GetContentInfoType L m 0 n") auto
  note ok = get_content_info_ok [OF L a1]
  show ?thesis
  proof (cases Oid)
    case None
    then show ?thesis by (simp add: MbedtlsPkcs7ParseDer_def a1)
  next
    case (Some b)
    have b: "buf_in m b" using ok(2) [OF Some] n by (simp add: buf_in_def)
    obtain Ret2 p2 n2 where a2: "mbedtls_asn1_get_tag L m (p1 + snd b) n 0 ASN1_CONTEXT = (Ret2, p2, n2)"
      by (cases "mbedtls_asn1_get_tag L m (p1 + snd b) n 0 ASN1_CONTEXT") auto
    have p2: "0 \<le> p2" "Ret2 = 0 \<Longrightarrow> p2 + n2 \<le> int (length m)"
      using ok(1) ok(2) [OF Some] get_tag_ok [OF L a2] n by linarith+
    have oid: "oid_prefix m b MBEDTLS_OID_PKCS7_SIGNED_DATA = Inl f \<longleftrightarrow> snd b > 10 \<and> f = OobRead" for f
      by (auto simp: oid_prefix_in b pkcs7_oids)
    have signed: "\<exists>r. Pkcs7GetSignedData L m p2 n2 = Some r
        \<and> (\<forall>f. r = Inl f \<longrightarrow> f = OobRead \<and> 10 < snd b \<or> f = NullDeref \<and> \<not> calloc_all L)
        \<and> (\<forall>sd. r = Inr (Inr sd) \<longrightarrow> sd_ok m sd)" if "Ret2 = 0"
      using get_signed_data_ok [OF L p2(1) p2(2) [OF that]] by blast
    show ?thesis
    proof (cases "excluded_content m b")
      case (Inl f)
      with excluded_content_in [OF b, of f] have "snd b > 10" "f = OobRead" by simp_all
      with Inl show ?thesis by (simp add: MbedtlsPkcs7ParseDer_def long_oid_def a1 Some)
    next
      case (Inr x)
      then show ?thesis using oid signed
        by (auto simp: MbedtlsPkcs7ParseDer_def long_oid_def a1 Some MbedTlsPkcs7GetNextContentLen_def a2
            split: sum.splits bool.splits)
    qed
  qed
qed

lemma parsed_signer:
  assumes "asn1_ok L" and "n \<le> int (length m)" and "MbedtlsPkcs7ParseDer L m n = Some (Inr (Inr sd))"
  obtains si where "sd_signers sd = [si]" and "si_ok m si"
proof -
  have "sd_ok m sd" using parse_der_ok [OF assms(1,2)] assms(3) by (metis option.inject)
  then show thesis using that by (auto simp: sd_ok_def)
qed

end
