(* ===== verification/Pkcs7Accept.thy ===== *)
theory Pkcs7Accept
  imports Pkcs7Safe
begin

text \<open>
  When \<^verbatim>\<open>MbedTlsPkcs7SignedDataVerify\<close> accepts: the signature, the signer's certificate and the
  chain as conditions on the parsed message.
\<close>

section \<open>The signature\<close>

text \<open>The hash functions give a digest of their documented size.\<close>

definition md_ok :: "'pk mbedtls \<Rightarrow> bool" where
  "md_ok L \<longleftrightarrow> (\<forall>t d. \<exists>h. mbedtls_md L t d = Some h \<and> length h = mbedtls_md_get_size L t
                       \<and> length h \<le> MBEDTLS_MD_MAX_SIZE)"

definition md_val :: "'pk mbedtls \<Rightarrow> md_type \<Rightarrow> byte list \<Rightarrow> byte list" where
  "md_val L t d = the (mbedtls_md L t d)"

lemma md_val_ok:
  assumes "md_ok L"
  shows "mbedtls_md L t d = Some (md_val L t d)" "length (md_val L t d) = mbedtls_md_get_size L t"
    "mbedtls_md_get_size L t \<le> MBEDTLS_MD_MAX_SIZE"
proof -
  obtain h where "mbedtls_md L t d = Some h" "length h = mbedtls_md_get_size L t"
      "length h \<le> MBEDTLS_MD_MAX_SIZE"
    using assms unfolding md_ok_def by blast
  then show "mbedtls_md L t d = Some (md_val L t d)" "length (md_val L t d) = mbedtls_md_get_size L t"
    "mbedtls_md_get_size L t \<le> MBEDTLS_MD_MAX_SIZE" by (simp_all add: md_val_def)
qed

text \<open>The bytes that a signature covers: the attributes where there are any, and only they.\<close>

definition signed_bytes :: "byte list \<Rightarrow> signer_info \<Rightarrow> byte list \<Rightarrow> byte list" where
  "signed_bytes m si Data =
    (case si_AuthAttr si of None \<Rightarrow> Data | Some b \<Rightarrow> ASN1_SET # tl (buf_val m b))"

lemma md_into_ok:
  "md_ok L \<Longrightarrow> length Hash = MBEDTLS_MD_MAX_SIZE \<Longrightarrow>
    md_into L t d Hash = Inr (md_val L t d @ drop (mbedtls_md_get_size L t) Hash)"
  using md_val_ok(3) [of L t] by (simp add: md_into_def md_val_ok copy_at_def not_less)

lemma try_md_exact:
  assumes "md_ok L" and "si_ok m si"
  shows "try_md L m si Cert Data t = Inr (mbedtls_pk_verify L (crt_pk Cert) t
    (md_val L t (signed_bytes m si Data)) (buf_val m (si_Sig si)))"
proof -
  have ne: "buf_val m b \<noteq> []" if "si_AuthAttr si = Some b" for b
    using length_buf_val [of m b] assms(2) that by (auto simp: si_ok_def)
  show ?thesis
  proof (cases "si_AuthAttr si")
    case None
    then show ?thesis using assms
      by (simp add: try_md_def md_into_ok auth_into_def buf_bytes_in si_ok_def signed_bytes_def md_val_ok)
  next
    case (Some b)
    then show ?thesis using assms ne [OF Some]
      by (simp add: try_md_def md_into_ok auth_into_def buf_bytes_in si_ok_def signed_bytes_def md_val_ok)
  qed
qed

lemma try_mds_Inr:
  assumes "\<forall>t \<in> set ts. f t = Inr (g t)" and "ts \<noteq> []"
  shows "\<exists>r. try_mds f ts Ret = Inr r \<and> (r = 0 \<longleftrightarrow> (\<exists>t \<in> set ts. g t = 0))"
  using assms
proof (induction ts arbitrary: Ret)
  case (Cons t ts)
  then show ?case by (cases "ts = []") auto
qed simp

text \<open>Whether the key of a certificate verifies the signature with one of the algorithms.\<close>

definition cert_signs :: "'pk mbedtls \<Rightarrow> byte list \<Rightarrow> signer_info \<Rightarrow> byte list \<Rightarrow> 'pk x509_crt \<Rightarrow> bool" where
  "cert_signs L m si Data Cert \<longleftrightarrow> (\<exists>t \<in> set (md_types L).
     mbedtls_pk_verify L (crt_pk Cert) t (md_val L t (signed_bytes m si Data)) (buf_val m (si_Sig si)) = 0)"

lemma verify_signers_exact:
  assumes "md_ok L" and "si_ok m si"
  shows "\<exists>r. MbedtlsPkcs7SignedDataVerifySigners L m si Cert Data = Inr r
    \<and> (r = 0 \<longleftrightarrow> cert_signs L m si Data Cert)"
  unfolding MbedtlsPkcs7SignedDataVerifySigners_def cert_signs_def
  by (rule try_mds_Inr) (simp_all add: try_md_exact [OF assms] md_types_def)

lemma any_cert_signs_exact:
  assumes "md_ok L" and "si_ok m si"
  shows "any_cert_signs L m si Data Certs = Inr (\<exists>Cert \<in> set Certs. cert_signs L m si Data Cert)"
proof (induction Certs)
  case (Cons Cert Certs)
  obtain r where "MbedtlsPkcs7SignedDataVerifySigners L m si Cert Data = Inr r"
      "r = 0 \<longleftrightarrow> cert_signs L m si Data Cert"
    using verify_signers_exact [OF assms] by blast
  with Cons show ?case by auto
qed simp

section \<open>The signer's certificate\<close>

definition is_signer :: "byte list \<Rightarrow> signer_info \<Rightarrow> 'pk x509_crt \<Rightarrow> bool" where
  "is_signer m si Cert \<longleftrightarrow> crt_issuer_raw Cert = Some (buf_val m (si_IssuerRaw si))
    \<and> crt_serial Cert = Some (buf_val m (si_Serial si))"

definition filled :: "'pk x509_crt \<Rightarrow> bool" where
  "filled Cert \<longleftrightarrow> crt_serial Cert \<noteq> None \<and> crt_issuer_raw Cert \<noteq> None"

definition signer_at :: "byte list \<Rightarrow> signer_info \<Rightarrow> 'pk x509_crt list \<Rightarrow> nat \<Rightarrow> bool" where
  "signer_at m si Certs i \<longleftrightarrow> i < length Certs \<and> is_signer m si (Certs ! i)
    \<and> (\<forall>j<i. filled (Certs ! j) \<and> \<not> is_signer m si (Certs ! j))"

lemma signer_at_unique: "signer_at m si Certs i \<Longrightarrow> signer_at m si Certs j \<Longrightarrow> i = j"
  unfolding signer_at_def by (metis linorder_neqE_nat)

lemma find_signer_step:
  assumes "si_ok m si"
  shows "find_signer m si i (Cert # Certs) =
    (if \<not> filled Cert then Inr None
     else if is_signer m si Cert then Inr (Some i) else find_signer m si (Suc i) Certs)"
  using assms by (auto simp: filled_def is_signer_def si_ok_def same_bytes_in split: option.splits)

lemma find_signer_exact:
  assumes "si_ok m si"
  shows "\<exists>r. find_signer m si i Certs = Inr r \<and>
    (\<forall>k. r = Some k \<longleftrightarrow> i \<le> k \<and> signer_at m si Certs (k - i))"
proof (induction Certs arbitrary: i)
  case Nil
  then show ?case by (simp add: signer_at_def)
next
  case (Cons Cert Certs)
  obtain r where r: "find_signer m si (Suc i) Certs = Inr r"
    "\<forall>k. r = Some k \<longleftrightarrow> Suc i \<le> k \<and> signer_at m si Certs (k - Suc i)" using Cons.IH by blast
  have filled: "filled Cert" if "is_signer m si Cert"
    using that by (simp add: filled_def is_signer_def)
  have zero: "signer_at m si (Cert # Certs) 0 \<longleftrightarrow> is_signer m si Cert"
    by (simp add: signer_at_def)
  have suc: "signer_at m si (Cert # Certs) (Suc n)
      \<longleftrightarrow> filled Cert \<and> \<not> is_signer m si Cert \<and> signer_at m si Certs n" for n
    by (auto simp: signer_at_def All_less_Suc2)
  have split: "i \<le> k \<and> signer_at m si (Cert # Certs) (k - i) \<longleftrightarrow>
      k = i \<and> is_signer m si Cert \<or> Suc i \<le> k \<and> filled Cert \<and> \<not> is_signer m si Cert
        \<and> signer_at m si Certs (k - Suc i)" for k
  proof (cases "k \<le> i")
    case True
    then show ?thesis using zero by auto
  next
    case False
    then have "k - i = Suc (k - Suc i)" by simp
    with False show ?thesis by (simp add: suc)
  qed
  show ?case using r filled
    by (auto simp: find_signer_step [OF assms] split simp del: find_signer.simps)
qed

section \<open>The chain\<close>

text \<open>The certificate at \<open>j\<close>, with those behind it, vouches for the next one.\<close>

definition issued :: "'pk mbedtls \<Rightarrow> 'pk x509_crt list \<Rightarrow> nat \<Rightarrow> bool" where
  "issued L Certs j \<longleftrightarrow> mbedtls_x509_crt_verify L (drop j Certs) False (drop (Suc j) Certs) = 0"

definition trusted :: "'pk mbedtls \<Rightarrow> 'pk x509_crt \<Rightarrow> 'pk x509_crt list \<Rightarrow> nat \<Rightarrow> bool" where
  "trusted L Ca Certs k \<longleftrightarrow> mbedtls_x509_crt_verify L [Ca] True (drop k Certs) = 0"

lemma chain_step:
  assumes "i < length Certs"
  shows "MbedTlsPkcs7VerifyCertChain L Certs Ca i \<longleftrightarrow>
    (\<exists>j. i = Suc j \<and> issued L Certs j \<and> (trusted L Ca Certs j \<or> MbedTlsPkcs7VerifyCertChain L Certs Ca j))"
proof (cases "inter_cert L Certs i")
  case None
  have "\<not> issued L Certs j" if "i = Suc j" for j
    using inter_cert_Some [of L Certs i j] None assms that
    by (simp add: MbedTlsPkcs7VerifyCert_def issued_def)
  then show ?thesis using None
    by (subst MbedTlsPkcs7VerifyCertChain.simps) auto
next
  case (Some j)
  then show ?thesis using inter_cert_Some [of L Certs i j]
    by (subst MbedTlsPkcs7VerifyCertChain.simps)
       (auto simp: MbedTlsPkcs7VerifyCert_def issued_def trusted_def)
qed

lemma chain_exact:
  "i < length Certs \<Longrightarrow> MbedTlsPkcs7VerifyCertChain L Certs Ca i \<longleftrightarrow>
    (\<exists>k<i. trusted L Ca Certs k \<and> (\<forall>j. k \<le> j \<and> j < i \<longrightarrow> issued L Certs j))"
proof (induction i)
  case 0
  then show ?case by (simp add: chain_step)
next
  case (Suc i)
  then have IH: "MbedTlsPkcs7VerifyCertChain L Certs Ca i \<longleftrightarrow>
      (\<exists>k<i. trusted L Ca Certs k \<and> (\<forall>j. k \<le> j \<and> j < i \<longrightarrow> issued L Certs j))" by simp
  have last: "(\<forall>j. k \<le> j \<and> j < Suc i \<longrightarrow> issued L Certs j) \<longleftrightarrow>
      (\<forall>j. k \<le> j \<and> j < i \<longrightarrow> issued L Certs j) \<and> issued L Certs i" if "k \<le> i" for k
    using that by (auto simp: less_Suc_eq)
  have "(\<exists>k<Suc i. trusted L Ca Certs k \<and> (\<forall>j. k \<le> j \<and> j < Suc i \<longrightarrow> issued L Certs j)) \<longleftrightarrow>
      issued L Certs i \<and> (trusted L Ca Certs i
        \<or> (\<exists>k<i. trusted L Ca Certs k \<and> (\<forall>j. k \<le> j \<and> j < i \<longrightarrow> issued L Certs j)))"
    using last by (force simp: less_Suc_eq_le le_less)
  then show ?case by (simp add: chain_step [OF Suc.prems] IH)
qed

section \<open>Acceptance\<close>

text \<open>
  The signer's certificate is there, a chain of neighbours leads from a trusted certificate to
  it, and the key of some certificate of the message verifies the signature.
\<close>

definition accepts :: "'pk mbedtls \<Rightarrow> byte list \<Rightarrow> 'pk x509_crt list \<Rightarrow> signer_info \<Rightarrow> 'pk x509_crt
    \<Rightarrow> byte list \<Rightarrow> bool" where
  "accepts L m Certs si Ca Data \<longleftrightarrow>
    (\<exists>i. signer_at m si Certs i
       \<and> (\<exists>k\<le>i. trusted L Ca Certs k \<and> (\<forall>j. k \<le> j \<and> j < i \<longrightarrow> issued L Certs j)))
    \<and> (\<exists>Cert \<in> set Certs. cert_signs L m si Data Cert)"

lemma verify_signer_exact:
  assumes "md_ok L" and "si_ok m si"
  shows "verify_signer L m Certs Ca Data si = Inr (accepts L m Certs si Ca Data)"
proof -
  obtain r where r: "MbedTlsPkcs7FindSignerCert m si Certs = Inr r"
    "\<forall>k. r = Some k \<longleftrightarrow> signer_at m si Certs k"
    using find_signer_exact [OF assms(2), of 0 Certs] by (auto simp: MbedTlsPkcs7FindSignerCert_def)
  show ?thesis
  proof (cases r)
    case None
    then show ?thesis using r by (auto simp: verify_signer_def accepts_def)
  next
    case (Some i)
    then have i: "signer_at m si Certs i" using r(2) by simp
    then have n: "i < length Certs" by (simp add: signer_at_def)
    have ex: "(\<exists>i. signer_at m si Certs i \<and> P i) \<longleftrightarrow> P i" for P
      using i signer_at_unique by metis
    have "(\<exists>k\<le>i. trusted L Ca Certs k \<and> (\<forall>j. k \<le> j \<and> j < i \<longrightarrow> issued L Certs j)) \<longleftrightarrow>
        trusted L Ca Certs i \<or> MbedTlsPkcs7VerifyCertChain L Certs Ca i"
      unfolding chain_exact [OF n] by (force simp: le_less)
    then show ?thesis
      by (simp add: verify_signer_def r(1) Some accepts_def ex any_cert_signs_exact [OF assms]
          MbedTlsPkcs7VerifyCert_def trusted_def)
  qed
qed

lemma signed_data_verify_exact:
  assumes "md_ok L" and "si_ok m si" and "sd_signers sd = [si]"
  shows "MbedTlsPkcs7SignedDataVerify L m sd Ca Data = Inr (accepts L m (sd_certs sd) si Ca Data)"
  by (simp add: MbedTlsPkcs7SignedDataVerify_def assms(3) verify_signer_exact [OF assms(1,2)])

end
