(* ===== verification/Pkcs7Demo.thy ===== *)
theory Pkcs7Demo
  imports Pkcs7Accept
begin

text \<open>
  A concrete library and messages on which the witnesses evaluate: DER with lengths of one byte
  or of two, a checksum for a hash, and keys whose signature of a digest adds the key to it.
\<close>

definition demo_tag :: "byte list \<Rightarrow> int \<Rightarrow> int \<Rightarrow> int \<Rightarrow> byte \<Rightarrow> int \<times> int \<times> int" where
  "demo_tag m p e n t =
    (if p < 0 \<or> e > int (length m) \<or> p + 2 > e \<or> m ! nat p \<noteq> t then (- 1, p, n)
     else let l = uint (m ! nat (p + 1)) in
       if l < 128 then if p + 2 + l \<le> e then (0, p + 2, l) else (- 1, p, n)
       else if l = 0x82 \<and> p + 4 \<le> e then
         let l = 256 * uint (m ! nat (p + 2)) + uint (m ! nat (p + 3)) in
         if p + 4 + l \<le> e then (0, p + 4, l) else (- 1, p, n)
       else (- 1, p, n))"

definition demo_int :: "byte list \<Rightarrow> int \<Rightarrow> int \<Rightarrow> int \<times> int \<times> int" where
  "demo_int m p e =
    (case demo_tag m p e 0 MBEDTLS_ASN1_INTEGER of
       (Ret, p', n) \<Rightarrow> if Ret = 0 \<and> n = 1 then (0, p' + 1, uint (m ! nat p')) else (- 1, p, 0))"

definition demo_alg :: "byte list \<Rightarrow> int \<Rightarrow> int \<Rightarrow> int \<times> int \<times> asn1_buf" where
  "demo_alg m p e =
    (case demo_tag m p e 0 ASN1_SEQUENCE of
       (Ret, p1, n1) \<Rightarrow>
         if Ret \<noteq> 0 then (- 1, p, (0, 0))
         else (case demo_tag m p1 (p1 + n1) 0 MBEDTLS_ASN1_OID of
                 (Ret, p2, n2) \<Rightarrow>
                   if Ret \<noteq> 0 then (- 1, p, (0, 0)) else (0, p1 + n1, (p2, n2))))"

definition demo_serial :: "byte list \<Rightarrow> int \<Rightarrow> int \<Rightarrow> int \<times> int \<times> asn1_buf" where
  "demo_serial m p e =
    (case demo_tag m p e 0 MBEDTLS_ASN1_INTEGER of
       (Ret, p', n) \<Rightarrow> if Ret = 0 then (0, p' + n, (p', n)) else (- 1, p, (0, 0)))"

text \<open>A certificate is a sequence of a name of one letter, a serial number and a key.\<close>

definition demo_crt :: "byte list \<Rightarrow> int \<times> byte x509_crt" where
  "demo_crt der =
    (if length der \<noteq> 7 then (- 1, blank_crt)
     else (0, \<lparr>crt_raw = der, crt_issuer_raw = Some (seg 2 3 der), crt_serial = Some [der ! 5],
               crt_v3_ext = (0, 0), crt_pk = Some (der ! 6), crt_info = blank_info\<rparr>))"

text \<open>The issuer of a key is the key plus one.\<close>

definition demo_verify :: "byte x509_crt list \<Rightarrow> bool \<Rightarrow> byte x509_crt list \<Rightarrow> int" where
  "demo_verify ca crl chain =
    (case (ca, chain) of
       (c # cs, d # ds) \<Rightarrow> if crt_pk c = map_option ((+) 1) (crt_pk d) then 0 else - 1
     | _ \<Rightarrow> - 1)"

definition demo_pk :: "byte option \<Rightarrow> md_type \<Rightarrow> byte list \<Rightarrow> byte list \<Rightarrow> int" where
  "demo_pk k t h s = (case k of None \<Rightarrow> - 1 | Some k \<Rightarrow> if s = map ((+) k) h then 0 else - 1)"

definition demo :: "byte mbedtls" where
  "demo = \<lparr>mbedtls_asn1_get_tag = demo_tag, mbedtls_asn1_get_int = demo_int,
     mbedtls_asn1_get_alg_null = demo_alg,
     mbedtls_x509_get_name = (\<lambda>m p e. if p \<le> e then (0, e) else (- 1, p)),
     mbedtls_x509_get_serial = demo_serial, mbedtls_x509_crt_parse = demo_crt,
     mbedtls_x509_crt_parse_der = demo_crt, mbedtls_x509_crt_verify = demo_verify,
     mbedtls_md = (\<lambda>t d. Some [sum_list d]), mbedtls_md_get_size = (\<lambda>t. 1),
     mbedtls_pk_verify = demo_pk, mbedtls_calloc_ok = (\<lambda>n. True), sha1_enabled = False\<rparr>"

lemma demo_tag_ok: "element_ok p e n (demo_tag m p e n t)"
  by (auto simp: element_ok_def demo_tag_def Let_def)

lemma demo_asn1_ok: "asn1_ok demo"
proof -
  have i: "value_ok p e (demo_int m p e)" for m p e
    using demo_tag_ok [of p e 0 m MBEDTLS_ASN1_INTEGER]
    by (auto simp: value_ok_def demo_int_def element_ok_def split: prod.splits)
  have a: "value_in p e (demo_alg m p e)" for m p e
  proof -
    obtain Ret1 p1 n1 where 1: "demo_tag m p e 0 ASN1_SEQUENCE = (Ret1, p1, n1)"
      by (cases "demo_tag m p e 0 ASN1_SEQUENCE") auto
    obtain Ret2 p2 n2 where 2: "demo_tag m p1 (p1 + n1) 0 MBEDTLS_ASN1_OID = (Ret2, p2, n2)"
      by (cases "demo_tag m p1 (p1 + n1) 0 MBEDTLS_ASN1_OID") auto
    show ?thesis
      using demo_tag_ok [of p e 0 m ASN1_SEQUENCE] demo_tag_ok [of p1 "p1 + n1" 0 m MBEDTLS_ASN1_OID]
      by (auto simp: value_in_def value_ok_def demo_alg_def element_ok_def 1 2)
  qed
  have s: "value_in p e (demo_serial m p e)" for m p e
    using demo_tag_ok [of p e 0 m MBEDTLS_ASN1_INTEGER]
    by (auto simp: value_in_def value_ok_def demo_serial_def element_ok_def split: prod.splits)
  show ?thesis
    by (auto simp: asn1_ok_def demo_def demo_tag_ok i a s moved_ok_def)
qed

lemma demo_md_ok: "md_ok demo"
  by (simp add: md_ok_def demo_def MBEDTLS_MD_MAX_SIZE_def)

lemma demo_calloc: "calloc_all demo"
  by (simp add: calloc_all_def demo_def)

section \<open>Messages\<close>

text \<open>An element with a length of one byte.\<close>

definition der :: "byte \<Rightarrow> byte list \<Rightarrow> byte list" where
  "der t x = [t, of_nat (length x)] @ x"

definition demo_cert :: "byte \<Rightarrow> byte \<Rightarrow> byte list" where
  "demo_cert serial key = der ASN1_SEQUENCE (der ASN1_SEQUENCE [0x41] @ [serial, key])"

definition demo_sha256 :: "byte list" where
  "demo_sha256 = der ASN1_SEQUENCE (der MBEDTLS_ASN1_OID MBEDTLS_OID_DIGEST_ALG_SHA256)"

text \<open>The signer with serial number 7; \<open>attrs\<close> are the encoded attributes or empty.\<close>

definition demo_signer :: "byte list \<Rightarrow> byte \<Rightarrow> byte list" where
  "demo_signer attrs sig =
    der ASN1_SET (der ASN1_SEQUENCE (der MBEDTLS_ASN1_INTEGER [1]
      @ der ASN1_SEQUENCE (der ASN1_SEQUENCE [0x41] @ der MBEDTLS_ASN1_INTEGER [7])
      @ demo_sha256 @ attrs @ demo_sha256 @ der MBEDTLS_ASN1_OCTET_STRING [sig]))"

text \<open>Signed data of a version, without content, with two certificates.\<close>

definition demo_p7 :: "byte list \<Rightarrow> byte \<Rightarrow> byte list" where
  "demo_p7 attrs sig =
    der ASN1_SEQUENCE (der MBEDTLS_ASN1_INTEGER [1] @ der ASN1_SET demo_sha256
      @ der ASN1_SEQUENCE (der MBEDTLS_ASN1_OID MBEDTLS_OID_PKCS7_DATA)
      @ der ASN1_CONTEXT (demo_cert 3 0x11 @ demo_cert 7 0x10)
      @ demo_signer attrs sig)"

definition demo_root :: "byte list" where "demo_root = demo_cert 1 0x12"

definition demo_msg :: "byte list" where
  "demo_msg = demo_p7 (der ASN1_CONTEXT [5, 6]) 0x4E"

text \<open>The message in its \<^verbatim>\<open>ContentInfo\<close>, and what the parser finds in it.\<close>

definition demo_W :: "byte list" where
  "demo_W = wrap_header (length demo_msg) @ demo_msg"

definition demo_certs :: "byte x509_crt list" where
  "demo_certs =
    [\<lparr>crt_raw = demo_cert 3 0x11, crt_issuer_raw = Some [0x30, 1, 0x41], crt_serial = Some [3],
      crt_v3_ext = (0, 0), crt_pk = Some 0x11, crt_info = blank_info\<rparr>,
     \<lparr>crt_raw = demo_cert 7 0x10, crt_issuer_raw = Some [0x30, 1, 0x41], crt_serial = Some [7],
      crt_v3_ext = (0, 0), crt_pk = Some 0x10, crt_info = blank_info\<rparr>]"

definition demo_si :: signer_info where
  "demo_si = \<lparr>si_Version = 1, si_Serial = (82, 1), si_IssuerRaw = (77, 3),
     si_AlgIdentifier = (87, 9), si_SigAlgIdentifier = (104, 9), si_AuthAttr = Some (96, 4),
     si_Sig = (115, 1)\<rparr>"

definition demo_sd :: "byte signed_data" where
  "demo_sd = \<lparr>sd_certs = demo_certs, sd_signers = [demo_si]\<rparr>"

definition demo_pool :: pool where "demo_pool = empty_pool (\<lambda>n k. True)"

lemma demo_int32: "int32 (length demo_W) = 116"
  by code_simp

lemma demo_parse: "MbedtlsPkcs7ParseDer demo demo_W (int32 (length demo_W)) = Some (Inr (Inr demo_sd))"
  unfolding demo_int32 by code_simp

lemma demo_wrap: "WrapPkcs7Data demo_pool demo_msg = Inr (True, False, (Some 0, demo_W),
    demo_pool\<lparr>pool_next := 1, pool_live := {0}\<rparr>)"
proof -
  have "is_wrapped demo_msg = Inr False" by code_simp
  then show ?thesis
    by (simp add: WrapPkcs7Data_def demo_W_def AllocatePool_def demo_pool_def empty_pool_def)
qed

lemma demo_root_parse: "mbedtls_x509_crt_parse_der demo demo_root =
    (0, \<lparr>crt_raw = demo_root, crt_issuer_raw = Some [0x30, 1, 0x41], crt_serial = Some [1],
         crt_v3_ext = (0, 0), crt_pk = Some 0x12, crt_info = blank_info\<rparr>)"
  by code_simp

lemma demo_len: "length demo_msg \<le> INT_MAX" "length demo_root \<le> INT_MAX"
proof -
  have "length demo_msg = 97" and "length demo_root = 7" by code_simp+
  then show "length demo_msg \<le> INT_MAX" "length demo_root \<le> INT_MAX"
    by (simp_all add: INT_MAX_def)
qed

lemma demo_accepts:
  "MbedTlsPkcs7SignedDataVerify demo demo_W demo_sd (snd (mbedtls_x509_crt_parse_der demo demo_root)) [1, 2, 3]
    = Inr True"
  by code_simp

end
