(* ===== verification/Pkcs7Props.thy ===== *)
theory Pkcs7Props
  imports Pkcs7Demo
begin

text \<open>
  The properties of the PKCS#7 verification of the MbedTLS library.
\<close>

section \<open>Wrapping\<close>

lemma length_be16 [simp]: "length (be16 n) = 2"
  by (simp add: be16_def Let_def)

lemma length_wrap_header [simp]: "length (wrap_header n) = 19"
  by (simp add: wrap_header_def pkcs7_oids)

lemma and_res_simps [simp]:
  "and_res (Inr True) b = b" "and_res (Inr False) b = Inr False"
  by (simp_all add: and_res_def)

lemma byte_is_in: "i < length m \<Longrightarrow> byte_is m i x = Inr (m ! i = x)"
  by (simp add: byte_is_def byte_at_def)

lemma and_res_Inr: "and_res (Inr x) (Inr y) = Inr (x \<and> y)"
  by (simp add: and_res_def)

lemma is_wrapped_in:
  "17 \<le> length m \<Longrightarrow> is_wrapped m = Inr (m ! 4 = MBEDTLS_ASN1_OID \<and> m ! 5 = 9
    \<and> seg 6 9 m = MBEDTLS_OID_PKCS7_SIGNED_DATA \<and> m ! 15 = ASN1_CONTEXT \<and> m ! 16 = 0x82)"
  by (simp add: is_wrapped_def byte_is_in bytes_def and_res_Inr)

lemma is_wrapped_fault: "is_wrapped m = Inl f \<Longrightarrow> f = OobRead"
  by (auto simp: is_wrapped_def and_res_def byte_is_def byte_at_def bytes_def bind_res_def
      split: sum.splits if_splits)

lemma wrap_header_at:
  "wrap_header n = [ASN1_SEQUENCE, 0x82, hd (be16 (n + 15)), last (be16 (n + 15)), MBEDTLS_ASN1_OID, 9,
     0x2A, 0x86, 0x48, 0x86, 0xF7, 0x0D, 0x01, 0x07, 0x02, ASN1_CONTEXT, 0x82,
     hd (be16 n), last (be16 n)]"
  by (simp add: wrap_header_def pkcs7_oids be16_def Let_def add.commute)

lemma wrap_is_wrapped: "is_wrapped (wrap_header n @ P7Data) = Inr True"
  by (subst is_wrapped_in) (simp_all add: wrap_header_at seg_def pkcs7_oids)

definition be16_val :: "byte list \<Rightarrow> nat" where
  "be16_val x = 256 * unat (x ! 0) + unat (x ! 1)"

lemma unat_byte: "unat (ucast (w :: UINT16) :: byte) = unat w mod 256"
  by (simp add: unsigned_ucast_eq take_bit_eq_mod)

lemma be16_val: "be16_val (be16 n) = n mod 65536"
proof -
  define w :: UINT16 where "w = of_nat n"
  have n: "unat w = n mod 65536" by (simp add: w_def unat_of_nat take_bit_eq_mod)
  have mask: "w AND 0xFF = take_bit 8 w" by (simp add: take_bit_eq_mask mask_eq_exp_minus_1)
  have lo: "unat (w AND 0xFF) = unat w mod 256"
    unfolding mask unsigned_take_bit_eq by (simp add: take_bit_eq_mod)
  have "take_bit LENGTH(16) (unat w) = unat w" using n by (simp add: take_bit_eq_mod)
  then have hi: "unat (drop_bit 8 w) = unat w div 256"
    unfolding unsigned_drop_bit_eq by (simp add: drop_bit_eq_div)
  have "unat w div 256 < 256" unfolding n by (simp add: less_mult_imp_div_less)
  then show ?thesis
    by (simp add: be16_val_def be16_def Let_def w_def [symmetric] unat_byte lo hi n [symmetric])
qed

text \<open>The two cases of a call whose input is long enough and whose allocation succeeds.\<close>

lemma WrapPkcs7Data_True:
  assumes "WrapPkcs7Data p P7Data = Inr (True, Wrapped, (b, W), p')"
  shows "is_wrapped P7Data = Inr Wrapped"
    "Wrapped \<Longrightarrow> b = None \<and> W = P7Data \<and> p' = p"
    "\<not> Wrapped \<Longrightarrow> (\<exists>a. b = Some a \<and> AllocatePool p (length P7Data + 19) = (Some a, p'))
      \<and> W = wrap_header (length P7Data) @ P7Data"
  using assms by (auto simp: WrapPkcs7Data_def elim!: bind_res_InrE split: if_splits prod.splits option.splits)

text \<open>C37: \<^verbatim>\<open>WrapPkcs7Data\<close> gives a \<^verbatim>\<open>ContentInfo\<close>: a message that is not wrapped gets the header of
  19 bytes, whose two lengths are those of what follows as long as they fit into 16 bits, and are
  cut to 16 bits otherwise; behind it is the message. Wrapping the result again changes nothing.
\<close>

theorem pkcs7_wrap_roundtrip:
  assumes "WrapPkcs7Data p P7Data = Inr (True, False, (b, W), p')"
  shows "W ! 0 = 0x30 \<and> W ! 1 = 0x82 \<and> be16_val (seg 2 2 W) = (length W - 4) mod 65536
      \<and> seg 4 2 W = [0x06, 9] \<and> seg 6 9 W = MBEDTLS_OID_PKCS7_SIGNED_DATA
      \<and> seg 15 2 W = [0xA0, 0x82] \<and> be16_val (seg 17 2 W) = length P7Data mod 65536
      \<and> drop 19 W = P7Data \<and> WrapPkcs7Data q W = Inr (True, True, (None, W), q)"
proof -
  have W: "W = wrap_header (length P7Data) @ P7Data" using WrapPkcs7Data_True(3) [OF assms] by simp
  have pair: "[hd (be16 n), last (be16 n)] = be16 n" for n
    by (simp add: be16_def Let_def)
  have "WrapPkcs7Data q W = Inr (True, True, (None, W), q)"
    unfolding W by (simp add: WrapPkcs7Data_def wrap_is_wrapped)
  then show ?thesis
    unfolding W by (simp add: wrap_header_at seg_def pkcs7_oids asn1_tags pair be16_val add.commute)
qed

theorem pkcs7_wrap_roundtrip_witness:
  "be16_val (seg 2 2 demo_W) = (length demo_W - 4) mod 65536
    \<and> WrapPkcs7Data demo_pool demo_W = Inr (True, True, (None, demo_W), demo_pool)"
  using pkcs7_wrap_roundtrip [OF demo_wrap, of demo_pool] by blast


section \<open>Verification\<close>

lemma Pkcs7Verify_unfold:
  assumes "WrapPkcs7Data p P7Data = Inr (True, Wrapped, (b, W), p')"
    and "length P7Data \<le> INT_MAX" "length T \<le> INT_MAX" "length D \<le> INT_MAX"
  shows "Pkcs7Verify L p (Some P7Data) (Some T) (Some D) =
    map_option (\<lambda>r. bind_res r (\<lambda>parsed.
      case parsed of
        Inl Ret \<Rightarrow> Inr (False, p')
      | Inr Pkcs7 \<Rightarrow>
          (case mbedtls_x509_crt_parse_der L T of
             (Ret, Crt) \<Rightarrow>
               if Ret \<noteq> 0 then Inr (False, p')
               else bind_res (MbedTlsPkcs7SignedDataVerify L W Pkcs7 Crt D) (\<lambda>Status. Inr (Status, p')))))
    (MbedtlsPkcs7ParseDer L W (int32 (length W)))"
  using assms by (simp add: Pkcs7Verify_def not_less)

text \<open>C1: \<^verbatim>\<open>Pkcs7Verify\<close> accepts exactly when the certificate with the issuer and serial number of the
  signer is in the message, a chain of neighbouring certificates leads from one that the trusted
  certificate vouches for to it, and the key of any certificate of the message, not just that one,
  verifies the signature of the attributes or, where there are none, of the data.
\<close>

theorem pkcs7_verify_exact:
  assumes "asn1_ok L" and "md_ok L"
    and wrap: "WrapPkcs7Data p P7Data = Inr (True, Wrapped, (b, W), p')"
    and len: "length P7Data \<le> INT_MAX" "length T \<le> INT_MAX" "length D \<le> INT_MAX"
    and parse: "MbedtlsPkcs7ParseDer L W (int32 (length W)) = Some (Inr (Inr sd))"
    and crt: "mbedtls_x509_crt_parse_der L T = (0, Crt)"
  shows "\<exists>si. sd_signers sd = [si] \<and>
    Pkcs7Verify L p (Some P7Data) (Some T) (Some D) = Some (Inr (
      (\<exists>i. signer_at W si (sd_certs sd) i
         \<and> (\<exists>k\<le>i. trusted L Crt (sd_certs sd) k \<and> (\<forall>j. k \<le> j \<and> j < i \<longrightarrow> issued L (sd_certs sd) j)))
      \<and> (\<exists>Cert \<in> set (sd_certs sd). cert_signs L W si D Cert), p'))"
proof -
  obtain si where si: "sd_signers sd = [si]" "si_ok W si"
    by (rule parsed_signer [OF assms(1) int32_le parse])
  show ?thesis
    using signed_data_verify_exact [OF assms(2) si(2) si(1), of Crt D]
    by (simp add: Pkcs7Verify_unfold [OF wrap len] parse crt si(1) accepts_def)
qed

text \<open>The message of \<open>Pkcs7Demo\<close> is accepted.\<close>

theorem pkcs7_verify_exact_witness:
  "\<exists>q. Pkcs7Verify demo demo_pool (Some demo_msg) (Some demo_root) (Some [1, 2, 3]) = Some (Inr (True, q))"
proof -
  let ?Crt = "snd (mbedtls_x509_crt_parse_der demo demo_root)"
  have len: "length [1, 2, 3 :: byte] \<le> INT_MAX" by (simp add: INT_MAX_def)
  have crt: "mbedtls_x509_crt_parse_der demo demo_root = (0, ?Crt)" by (simp add: demo_root_parse)
  have "si_ok demo_W demo_si"
    by (rule parsed_signer [OF demo_asn1_ok int32_le demo_parse]) (simp add: demo_sd_def)
  then have "accepts demo demo_W (sd_certs demo_sd) demo_si ?Crt [1, 2, 3]"
    using signed_data_verify_exact [OF demo_md_ok, of demo_W demo_si demo_sd ?Crt "[1, 2, 3]"] demo_accepts
    by (simp add: demo_sd_def)
  then show ?thesis
    using pkcs7_verify_exact [OF demo_asn1_ok demo_md_ok demo_wrap demo_len len demo_parse crt]
    by (auto simp: accepts_def demo_sd_def)
qed

lemma verify_ignores_data:
  assumes "asn1_ok L" and "md_ok L"
    and "WrapPkcs7Data p P7Data = Inr (True, Wrapped, (b, W), p')"
    and "MbedtlsPkcs7ParseDer L W (int32 (length W)) = Some (Inr (Inr sd))"
    and "\<forall>si \<in> set (sd_signers sd). si_AuthAttr si \<noteq> None"
    and "length P7Data \<le> INT_MAX" and "length T \<le> INT_MAX"
    and "length D \<le> INT_MAX" and "length D' \<le> INT_MAX"
  shows "Pkcs7Verify L p (Some P7Data) (Some T) (Some D) = Pkcs7Verify L p (Some P7Data) (Some T) (Some D')"
proof -
  obtain si where si: "sd_signers sd = [si]" "si_ok W si"
    by (rule parsed_signer [OF assms(1) int32_le assms(4)])
  have "signed_bytes W si D = signed_bytes W si D'"
    using assms(5) si(1) by (auto simp: signed_bytes_def)
  then have "MbedTlsPkcs7SignedDataVerify L W sd Crt D = MbedTlsPkcs7SignedDataVerify L W sd Crt D'"
    for Crt
    by (simp add: signed_data_verify_exact [OF assms(2) si(2) si(1)] accepts_def cert_signs_def)
  then show ?thesis
    by (simp add: Pkcs7Verify_unfold [OF assms(3,6,7,8)] Pkcs7Verify_unfold [OF assms(3,6,7,9)] assms(4)
      split: prod.splits)
qed

text \<open>C2: A message whose signer has authenticated attributes is accepted for every data or for none:
  the digest of the data among the attributes is never compared.
\<close>

theorem pkcs7_content_unbound:
  assumes "asn1_ok L" and "md_ok L"
    and "WrapPkcs7Data p P7Data = Inr (True, Wrapped, (b, W), p')"
    and "MbedtlsPkcs7ParseDer L W (int32 (length W)) = Some (Inr (Inr sd))"
    and "\<forall>si \<in> set (sd_signers sd). si_AuthAttr si \<noteq> None"
    and "length P7Data \<le> INT_MAX" and "length T \<le> INT_MAX"
    and "length D \<le> INT_MAX" and "length D' \<le> INT_MAX"
  shows "Pkcs7Verify L p (Some P7Data) (Some T) (Some D) = Pkcs7Verify L p (Some P7Data) (Some T) (Some D')"
  by (rule verify_ignores_data [OF assms])

theorem pkcs7_content_unbound_witness:
  "Pkcs7Verify demo demo_pool (Some demo_msg) (Some demo_root) (Some [1, 2, 3])
    = Pkcs7Verify demo demo_pool (Some demo_msg) (Some demo_root) (Some [])"
proof -
  have len: "length [1, 2, 3 :: byte] \<le> INT_MAX" "length ([] :: byte list) \<le> INT_MAX"
    by (simp_all add: INT_MAX_def)
  have attrs: "\<forall>si \<in> set (sd_signers demo_sd). si_AuthAttr si \<noteq> None"
    by (simp add: demo_sd_def demo_si_def)
  show ?thesis
    by (rule pkcs7_content_unbound [OF demo_asn1_ok demo_md_ok demo_wrap demo_parse attrs demo_len len])
qed

text \<open>The message that is parsed.\<close>

definition wrapped :: "byte list \<Rightarrow> byte list" where
  "wrapped P7Data = (if is_wrapped P7Data = Inr True then P7Data
                     else wrap_header (length P7Data) @ P7Data)"

text \<open>C7: \<^verbatim>\<open>Pkcs7Verify\<close> ends for every message and every library that keeps to its documentation, and
  the only faults are reads behind a message of less than 17 bytes and behind the constants for
  the content type, and a failed allocation of a certificate that is not the last one.
\<close>

theorem pkcs7_verify_ends:
  assumes "asn1_ok L" and "md_ok L"
  shows "\<exists>r. Pkcs7Verify L p P7Data TrustedCert InData = Some r \<and>
    (\<forall>f. r = Inl f \<longrightarrow> (\<exists>m. P7Data = Some m \<and>
      (f = OobRead \<and> (length m < 17 \<or> long_oid L (wrapped m) (int32 (length (wrapped m))))
       \<or> f = NullDeref \<and> \<not> calloc_all L)))"
proof (cases "\<exists>m T D. P7Data = Some m \<and> TrustedCert = Some T \<and> InData = Some D
    \<and> length m \<le> INT_MAX \<and> length T \<le> INT_MAX \<and> length D \<le> INT_MAX")
  case False
  then show ?thesis
    by (auto simp: Pkcs7Verify_def not_less not_le split: option.splits)
next
  case True
  then obtain m T D where args: "P7Data = Some m" "TrustedCert = Some T" "InData = Some D"
    and len: "length m \<le> INT_MAX" "length T \<le> INT_MAX" "length D \<le> INT_MAX" by blast
  show ?thesis
  proof (cases "WrapPkcs7Data p m")
    case (Inl f)
    then have "is_wrapped m = Inl f" by (cases "is_wrapped m") (auto simp: WrapPkcs7Data_def split: if_splits prod.splits option.splits)
    moreover from this have "length m < 17" using is_wrapped_in [of m] by (cases "17 \<le> length m") auto
    ultimately show ?thesis using Inl len is_wrapped_fault [of m f]
      by (auto simp: args Pkcs7Verify_def not_less)
  next
    case (Inr x)
    then obtain S w b W p' where x: "WrapPkcs7Data p m = Inr (S, w, (b, W), p')" by (cases x) auto
    show ?thesis
    proof (cases S)
      case False
      then show ?thesis using x len by (auto simp: args Pkcs7Verify_def not_less)
    next
      case True
      with x have xT: "WrapPkcs7Data p m = Inr (True, w, (b, W), p')" by simp
      have W: "W = wrapped m"
        using WrapPkcs7Data_True [OF xT] by (cases w) (auto simp: wrapped_def)
      obtain r where r: "MbedtlsPkcs7ParseDer L W (int32 (length W)) = Some r"
        "\<forall>f. r = Inl f \<longrightarrow> f = OobRead \<and> long_oid L W (int32 (length W)) \<or> f = NullDeref \<and> \<not> calloc_all L"
        "\<forall>sd. r = Inr (Inr sd) \<longrightarrow> sd_ok W sd"
        using parse_der_ok [OF assms(1) int32_le] by blast
      have verify: "\<exists>ok. MbedTlsPkcs7SignedDataVerify L W sd Crt D = Inr ok" if "r = Inr (Inr sd)" for sd Crt
        using r(3) that signed_data_verify_exact [OF assms(2)] by (auto simp: sd_ok_def)
      show ?thesis
      proof (cases r)
        case (Inl f)
        then show ?thesis using r(1,2)
          by (auto simp: args Pkcs7Verify_unfold [OF xT len] W [symmetric])
      next
        case (Inr parsed)
        obtain Ret Crt where crt: "mbedtls_x509_crt_parse_der L T = (Ret, Crt)"
          by (cases "mbedtls_x509_crt_parse_der L T") auto
        show ?thesis
        proof (cases parsed)
          case (Inl Ret)
          then show ?thesis using r(1) Inr by (simp add: args Pkcs7Verify_unfold [OF xT len])
        next
          case (Inr sd)
          with \<open>r = Inr parsed\<close> obtain ok where "MbedTlsPkcs7SignedDataVerify L W sd Crt D = Inr ok"
            using verify by blast
          with Inr \<open>r = Inr parsed\<close> show ?thesis using r(1) crt
            by (simp add: args Pkcs7Verify_unfold [OF xT len])
        qed
      qed
    qed
  qed
qed

theorem pkcs7_verify_ends_witness:
  "\<exists>r. Pkcs7Verify demo demo_pool (Some [1, 2, 3]) (Some []) (Some []) = Some r \<and>
    (\<forall>f. r = Inl f \<longrightarrow> f = OobRead)"
  using pkcs7_verify_ends [OF demo_asn1_ok demo_md_ok, of demo_pool "Some [1, 2, 3]" "Some []" "Some []"]
    demo_calloc by auto


section \<open>The buffer of the wrapped message\<close>

text \<open>The buffer that \<^verbatim>\<open>Pkcs7Verify\<close> allocates for the \<^verbatim>\<open>ContentInfo\<close> of a message that is not
  wrapped is never freed, whatever the result.
\<close>

theorem pkcs7_verify_leaks:
  assumes "pool_inv p" and "WrapPkcs7Data p P7Data = Inr (True, False, (b, W), p1)"
    and "length P7Data \<le> INT_MAX" and "length T \<le> INT_MAX" and "length D \<le> INT_MAX"
    and "Pkcs7Verify L p (Some P7Data) (Some T) (Some D) = Some (Inr (ok, p'))"
  shows "\<exists>a. b = Some a \<and> a \<notin> pool_live p \<and> pool_live p' = insert a (pool_live p)"
proof -
  obtain a where a: "b = Some a" "AllocatePool p (length P7Data + 19) = (Some a, p1)"
    using WrapPkcs7Data_True(3) [OF assms(2)] by auto
  have "p' = p1"
    using assms(6) by (auto simp: Pkcs7Verify_unfold [OF assms(2-5)] elim!: bind_res_InrE
        split: sum.splits prod.splits if_splits)
  then show ?thesis using a AllocatePool_Some [OF a(2) assms(1)] by simp
qed

theorem pkcs7_verify_leaks_witness:
  "\<exists>ok p'. Pkcs7Verify demo demo_pool (Some demo_msg) (Some [1]) (Some [2]) = Some (Inr (ok, p'))
    \<and> pool_live p' = insert 0 (pool_live demo_pool)"
proof -
  have len: "length [1 :: byte] \<le> INT_MAX" "length [2 :: byte] \<le> INT_MAX"
    by (simp_all add: INT_MAX_def)
  have inv: "pool_inv demo_pool" by (simp add: demo_pool_def)
  have "fst (mbedtls_x509_crt_parse_der demo [1]) \<noteq> 0" by code_simp
  then have "Pkcs7Verify demo demo_pool (Some demo_msg) (Some [1]) (Some [2])
      = Some (Inr (False, demo_pool\<lparr>pool_next := 1, pool_live := {0}\<rparr>))"
    by (auto simp: Pkcs7Verify_unfold [OF demo_wrap demo_len(1) len] demo_parse split: prod.splits)
  with pkcs7_verify_leaks [OF inv demo_wrap demo_len(1) len this] show ?thesis by auto
qed

section \<open>Errors and certificates in the parser\<close>

text \<open>An error in front of the certificates is forgotten: a message with another version than 1
  is parsed like any other when certificates of exactly the length of its \<^verbatim>\<open>SEQUENCE\<close> follow the
  version.
\<close>

theorem pkcs7_early_error_lost:
  assumes "mbedtls_asn1_get_tag L m Buffer (Buffer + n) 0 ASN1_SEQUENCE = (0, p1, Len)"
    and "mbedtls_asn1_get_int L m p1 (Buffer + n) = (0, p2, Version)" and "Version \<noteq> 1"
    and "cert_loop L m (Buffer + n) Len (- 1) 0 p2 [] True = Some (Inr (False, 0, Len, certs, MoreCert))"
    and "MbedTlsPkcs7GetSignersInfoSet L m (p2 + Len) (Buffer + n) = Inr si"
  shows "Pkcs7GetSignedData L m Buffer n
    = Some (Inr (Inr \<lparr>sd_certs = cert_chain certs MoreCert, sd_signers = [si]\<rparr>))"
  using assms by (simp add: Pkcs7GetSignedData_def signed_data_head_def MbedTlsPkcs7GetVersion_def)

text \<open>A message with version 2, whose certificates reach beyond the \<^verbatim>\<open>SEQUENCE\<close>.\<close>

definition demo_version2 :: "byte list" where
  "demo_version2 = [ASN1_SEQUENCE, 14] @ der MBEDTLS_ASN1_INTEGER [2] @ demo_cert 3 0x11
     @ demo_cert 7 0x10 @ demo_signer [] 0x16"

theorem pkcs7_early_error_lost_witness:
  "Pkcs7GetSignedData demo demo_version2 0 63 = Some (Inr (Inr
    \<lparr>sd_certs = cert_chain demo_certs True,
     sd_signers = [\<lparr>si_Version = 1, si_Serial = (33, 1), si_IssuerRaw = (28, 3),
       si_AlgIdentifier = (38, 9), si_SigAlgIdentifier = (51, 9), si_AuthAttr = None,
       si_Sig = (62, 1)\<rparr>]\<rparr>))"
  by (rule pkcs7_early_error_lost [where ?p1.0 = 2 and Len = 14 and ?p2.0 = 5 and Version = 2]) code_simp+

lemma cut_chain_take: "cut_chain c i chain = (if c = 0 then chain else take (i + c) chain)"
  by (induction c arbitrary: i) auto

text \<open>The counter of the certificates has 8 bits: up to 255 certificates make up the chain, a
  multiple of 256 leaves the empty last node on it, and from 257 on only the remainder of the
  certificates is kept.
\<close>

theorem pkcs7_chain_cut:
  shows "cert_chain certs MoreCert =
    (if length certs mod 256 = 0 then certs @ (if MoreCert then [blank_crt] else [])
     else take (length certs mod 256) certs)"
proof -
  have "unat (of_nat (length certs) :: byte) = length certs mod 256"
    by (simp add: unat_of_nat take_bit_eq_mod)
  moreover have "length certs mod 256 \<le> length certs" by simp
  ultimately show ?thesis by (simp add: cert_chain_def Let_def cut_chain_take)
qed

section \<open>Pkcs7GetSigners\<close>

lemma length_le32 [simp]: "length (le32 w) = 4"
  by (simp add: le32_def)

lemma stack_put_first:
  "stack_put None 1 raw = Inr (0 # le32 (of_nat (length raw)) @ raw)"
  by (simp add: stack_put_def Let_def copy_at_def le32_def)

lemma collect_one:
  assumes "MbedTlsPkcs7FindSignerCert m si Certs = Inr (Some i)" and "raw = crt_raw (Certs ! i)"
  shows "collect_signers m Certs [si] 1 1 None 0 p =
    (case AllocatePool p (length raw + 5) of
       (None, p) \<Rightarrow> Inr (Inl (None, None, p))
     | (Some b, p) \<Rightarrow>
         Inr (Inr (length raw + 5, 1, Some (b, 0 # le32 (of_nat (length raw)) @ raw), 1, p)))"
proof -
  have size: "1 + length raw + 4 = length raw + 5" by simp
  show ?thesis
    unfolding collect_signers.simps assms(1) bind_res_simps option.case Let_def
      assms(2) [symmetric] size stack_put_first
    by (simp add: stack_put_first split: prod.splits option.splits)
qed

declare collect_signers.simps [simp del]

lemma signers_exit_none: "signers_exit out None None p = Inr (False, out, p)"
  by (simp add: signers_exit_def)

text \<open>The stack of one signer, with its pool block.\<close>

lemma signers_result_one:
  assumes "pool_inv p" and "a \<in> pool_live p" and "x = 0 # le32 (of_nat (length raw)) @ raw"
  shows "\<exists>ok out q. signers_result (length raw + 5) 1 (Some (a, x)) 1 p = Inr (ok, out, q) \<and>
    (if ok then CertStack out = Some (Some (a, 1 # le32 (of_nat (length raw)) @ raw))
        \<and> StackLength out = Some (length raw + 5) \<and> CertLength out = Some (length raw)
        \<and> (\<exists>t. TrustedCertOut out = Some (Some (t, raw)) \<and> t \<notin> pool_live p
             \<and> pool_live q = insert t (pool_live p))
     else pool_live q = pool_live p - {a} \<and> CertStack out = Some None \<and> TrustedCertOut out = Some None)"
proof (cases "AllocatePool p (length raw)")
  case (Pair t q)
  show ?thesis
  proof (cases t)
    case None
    have q: "pool_inv q" "pool_live q = pool_live p" using AllocatePool_None [of p "length raw" q] Pair None assms(1) by auto
    then obtain q' where "FreePool q (Some a) = Inr q'" "pool_live q' = pool_live p - {a}"
      using FreePool_live [of a q] assms(2) by auto
    then show ?thesis using Pair None
      by (simp add: signers_result_def Let_def signers_exit_def no_out_def ex_bool_eq)
  next
    case (Some b)
    have "b \<notin> pool_live p" "pool_live q = insert b (pool_live p)"
      using AllocatePool_Some [of p "length raw" b q] Pair Some assms(1) by auto
    then show ?thesis using Pair Some assms(3)
      by (simp add: signers_result_def Let_def seg_def le32_def ex_bool_eq)
  qed
qed

text \<open>\<^verbatim>\<open>Pkcs7GetSigners\<close> of a message that parses returns the count 1, the length and the bytes of
  the certificate of the signer and a copy of it, in two fresh blocks, or fails and leaves no block
  but the wrapped message behind; when it runs out of memory in the middle, the outputs are NULL.
\<close>

theorem pkcs7_get_signers:
  assumes "asn1_ok L" and "pool_inv p" and "length P7Data \<le> INT_MAX"
    and wrap: "WrapPkcs7Data p P7Data = Inr (True, Wrapped, (b, W), p1)"
    and parse: "MbedtlsPkcs7ParseDer L W (int32 (length W)) = Some (Inr (Inr sd))"
  shows "\<exists>si ok out q. sd_signers sd = [si]
    \<and> Pkcs7GetSigners L p (Some P7Data) True = Some (Inr (ok, out, q)) \<and>
    (if ok then \<exists>i a t raw. signer_at W si (sd_certs sd) i \<and> raw = crt_raw (sd_certs sd ! i)
        \<and> CertStack out = Some (Some (a, 1 # le32 (of_nat (length raw)) @ raw))
        \<and> StackLength out = Some (length raw + 5)
        \<and> TrustedCertOut out = Some (Some (t, raw)) \<and> CertLength out = Some (length raw)
        \<and> a \<noteq> t \<and> a \<notin> pool_live p1 \<and> t \<notin> pool_live p1
        \<and> pool_live q = insert t (insert a (pool_live p1))
     else pool_live q = pool_live p1
        \<and> (out = no_out \<or> CertStack out = Some None \<and> TrustedCertOut out = Some None))"
proof -
  obtain si where si: "sd_signers sd = [si]" "si_ok W si"
    by (rule parsed_signer [OF assms(1) int32_le parse])
  have p1: "pool_inv p1"
    using WrapPkcs7Data_True(2,3) [OF wrap] assms(2) AllocatePool_Some by (cases Wrapped) auto
  obtain r where r: "MbedTlsPkcs7FindSignerCert W si (sd_certs sd) = Inr r"
    "\<forall>k. r = Some k \<longleftrightarrow> signer_at W si (sd_certs sd) k"
    using find_signer_exact [OF si(2), of 0 "sd_certs sd"] by (auto simp: MbedTlsPkcs7FindSignerCert_def)
  have "\<not> INT_MAX < length P7Data" using assms(3) by simp
  note unfold = Pkcs7GetSigners_def wrap parse si(1) r(1) this
  show ?thesis
  proof (cases r)
    case None
    then show ?thesis by (simp add: unfold signers_exit_none si(1) ex_bool_eq collect_signers.simps)
  next
    case (Some i)
    let ?raw = "crt_raw (sd_certs sd ! i)"
    have i: "signer_at W si (sd_certs sd) i" using r(2) Some by blast
    show ?thesis
    proof (cases "AllocatePool p1 (length ?raw + 5)")
      case (Pair a p2)
      show ?thesis
      proof (cases a)
        case None
        have "pool_live p2 = pool_live p1"
          using AllocatePool_None(2) [of p1 "length ?raw + 5" p2] p1 Pair None by simp
        moreover have "collect_signers W (sd_certs sd) [si] 1 1 None 0 p1 = Inr (Inl (None, None, p2))"
          using Pair None r(1) Some by (simp only: collect_one [OF _ refl] prod.case option.case)
        ultimately show ?thesis
          by (simp add: unfold signers_exit_none si(1) ex_bool_eq)
      next
        case A: (Some a')
        have p2: "pool_inv p2" "a' \<notin> pool_live p1" "pool_live p2 = insert a' (pool_live p1)"
          using AllocatePool_Some [of p1 "length ?raw + 5" a' p2] p1 Pair A by simp_all
        obtain ok out q where res:
          "signers_result (length ?raw + 5) 1
             (Some (a', 0 # le32 (of_nat (length ?raw)) @ ?raw)) 1 p2 = Inr (ok, out, q)"
          "if ok then CertStack out = Some (Some (a', 1 # le32 (of_nat (length ?raw)) @ ?raw))
              \<and> StackLength out = Some (length ?raw + 5) \<and> CertLength out = Some (length ?raw)
              \<and> (\<exists>t. TrustedCertOut out = Some (Some (t, ?raw)) \<and> t \<notin> pool_live p2
                   \<and> pool_live q = insert t (pool_live p2))
           else pool_live q = pool_live p2 - {a'} \<and> CertStack out = Some None
              \<and> TrustedCertOut out = Some None"
          using signers_result_one [OF p2(1) _ refl, of a' ?raw] p2(3) by auto
        have "collect_signers W (sd_certs sd) [si] 1 1 None 0 p1
            = Inr (Inr (length ?raw + 5, 1, Some (a', 0 # le32 (of_nat (length ?raw)) @ ?raw), 1, p2))"
          using Pair A r(1) Some by (simp only: collect_one [OF _ refl] prod.case option.case)
        then have "Pkcs7GetSigners L p (Some P7Data) True = Some (Inr (ok, out, q))"
          using res(1) by (simp add: unfold)
        then show ?thesis using res(2) p2 i si(1) by (cases ok) auto
      qed
    qed
  qed
qed

theorem pkcs7_get_signers_witness:
  "\<exists>si ok out q. sd_signers demo_sd = [si]
    \<and> Pkcs7GetSigners demo demo_pool (Some demo_msg) True = Some (Inr (ok, out, q))"
proof -
  have inv: "pool_inv demo_pool" by (simp add: demo_pool_def)
  show ?thesis
    using pkcs7_get_signers [OF demo_asn1_ok inv demo_len(1) demo_wrap demo_parse] by blast
qed

end
