(* ===== verification/Authenticode.thy ===== *)
theory Authenticode
  imports Pkcs7Props
begin

text \<open>
  \<^verbatim>\<open>AuthenticodeVerify\<close> of both libraries (\<^verbatim>\<open>BaseCryptLib/Pk/CryptAuthenticode.c\<close>): the digest in the
  content of the signature is compared with the hash of the image, and the rest is left to
  \<^verbatim>\<open>Pkcs7Verify\<close>. They share the code for the length of the content; that of MbedTLS walks through
  the message itself, that of OpenSSL gets the content from \<^verbatim>\<open>d2i_PKCS7\<close>, a parameter.
\<close>

definition mSpcIndirectOidValue :: "byte list" where
  "mSpcIndirectOidValue = [0x2B, 0x06, 0x01, 0x04, 0x01, 0x82, 0x37, 0x02, 0x01, 0x04]"

section \<open>The content\<close>

definition byte_of :: "byte list \<Rightarrow> int \<Rightarrow> byte res" where
  "byte_of m p = bind_res (bytes m p 1) (\<lambda>x. Inr (hd x))"

text \<open>
  \<^verbatim>\<open>ContentSize\<close> and where the content starts, for the \<^verbatim>\<open>SEQUENCE\<close> at \<open>p\<close>; \<open>None\<close> is the jump to
  \<^verbatim>\<open>_Exit\<close>.
\<close>

definition content_size :: "byte list \<Rightarrow> int \<Rightarrow> (int \<times> int) option res" where
  "content_size m p =
    bind_res (byte_of m (p + 1)) (\<lambda>Asn1Byte.
      if Asn1Byte AND 0x80 = 0 then Inr (Some (uint (Asn1Byte AND 0x7F), p + 2))
      else if Asn1Byte AND 0x81 = 0x81 then
        bind_res (byte_of m (p + 2)) (\<lambda>b. Inr (Some (uint b, p + 3)))
      else if Asn1Byte AND 0x82 = 0x82 then
        bind_res (byte_of m (p + 2)) (\<lambda>b. bind_res (byte_of m (p + 3)) (\<lambda>c.
          Inr (Some (256 * uint b + uint c, p + 4))))
      else Inr None)"

section \<open>MbedTLS\<close>

text \<open>One call of \<^verbatim>\<open>mbedtls_asn1_get_tag\<close> whose failure ends the function.\<close>

definition expect_tag :: "'pk mbedtls \<Rightarrow> byte list \<Rightarrow> int \<Rightarrow> int \<Rightarrow> int \<Rightarrow> byte \<Rightarrow> (int \<times> int) option" where
  "expect_tag L m Ptr End ObjLen t =
    (case mbedtls_asn1_get_tag L m Ptr End ObjLen t of
       (Ret, Ptr, ObjLen) \<Rightarrow> if Ret \<noteq> 0 then None else Some (Ptr, ObjLen))"

text \<open>Up to the content type: its start, its length, and the end of the content.\<close>

definition find_content_type :: "'pk mbedtls \<Rightarrow> byte list \<Rightarrow> int \<Rightarrow> (int \<times> int \<times> int) option" where
  "find_content_type L m End =
    Option.bind (expect_tag L m 0 End 0 ASN1_SEQUENCE) (\<lambda>(Ptr, ObjLen).
    Option.bind (expect_tag L m Ptr End ObjLen MBEDTLS_ASN1_OID) (\<lambda>(Ptr, ObjLen).
    Option.bind (expect_tag L m (Ptr + ObjLen) End ObjLen ASN1_CONTEXT) (\<lambda>(Ptr, ObjLen).
    let End = Ptr + ObjLen in
    Option.bind (expect_tag L m Ptr End ObjLen ASN1_SEQUENCE) (\<lambda>(Ptr, ObjLen).
    Option.bind (expect_tag L m Ptr End ObjLen MBEDTLS_ASN1_INTEGER) (\<lambda>(Ptr, ObjLen).
    Option.bind (expect_tag L m (Ptr + ObjLen) End ObjLen ASN1_SET) (\<lambda>(Ptr, ObjLen).
    Option.bind (expect_tag L m (Ptr + ObjLen) End ObjLen ASN1_SEQUENCE) (\<lambda>(Ptr, ObjLen).
    let End = Ptr + ObjLen in
    Option.bind (expect_tag L m Ptr End ObjLen MBEDTLS_ASN1_OID) (\<lambda>(Ptr, ObjLen).
      Some (Ptr, ObjLen, End)))))))))"

text \<open>
  The content of a message that carries one of the right type: \<open>None\<close> when the function returns
  \<^verbatim>\<open>FALSE\<close>.
\<close>

definition find_content :: "'pk mbedtls \<Rightarrow> byte list \<Rightarrow> int \<Rightarrow> (int \<times> int) option res" where
  "find_content L m Len =
    (case find_content_type L m Len of
       None \<Rightarrow> Inr None
     | Some (Ptr, ObjLen, End) \<Rightarrow>
         if ObjLen \<noteq> 10 then Inr None
         else bind_res (bytes m Ptr 10) (\<lambda>SpcIndirectDataOid.
           if SpcIndirectDataOid \<noteq> mSpcIndirectOidValue then Inr None
           else (case expect_tag L m (Ptr + ObjLen) End ObjLen ASN1_CONTEXT of
                   None \<Rightarrow> Inr None
                 | Some (Ptr, ObjLen) \<Rightarrow> content_size m Ptr)))"

text \<open>
  The data that \<^verbatim>\<open>Pkcs7Verify\<close> gets must lie in the message; this is a condition of its own only
  for an empty hash.
\<close>

definition AuthenticodeVerify ::
    "'pk mbedtls \<Rightarrow> pool \<Rightarrow> byte list option \<Rightarrow> byte list option \<Rightarrow> byte list option
     \<Rightarrow> (bool \<times> pool) res option" where
  "AuthenticodeVerify L p AuthData TrustedCert ImageHash =
    (case (AuthData, TrustedCert, ImageHash) of
       (Some m, Some T, Some h) \<Rightarrow>
         if length m > INT_MAX \<or> length T > INT_MAX \<or> length h > INT_MAX \<or> length m \<le> length h
         then Some (Inr (False, p))
         else (case find_content L m (int (length m)) of
                 Inl f \<Rightarrow> Some (Inl f)
               | Inr None \<Rightarrow> Some (Inr (False, p))
               | Inr (Some (ContentSize, Start)) \<Rightarrow>
                   if ContentSize < int (length h) then Some (Inr (False, p))
                   else (case bytes m (Start + ContentSize - int (length h)) (int (length h)) of
                           Inl f \<Rightarrow> Some (Inl f)
                         | Inr x \<Rightarrow>
                             if x \<noteq> h then Some (Inr (False, p))
                             else (case bytes m Start ContentSize of
                                     Inl f \<Rightarrow> Some (Inl f)
                                   | Inr Data \<Rightarrow> Pkcs7Verify L p (Some m) (Some T) (Some Data))))
     | _ \<Rightarrow> Some (Inr (False, p)))"

section \<open>OpenSSL\<close>

text \<open>
  What the code asks the decoded structure: \<^verbatim>\<open>PKCS7_type_is_signed\<close>, \<^verbatim>\<open>PKCS7_get_detached\<close>, the
  content type (\<open>None\<close> is NULL), and the bytes of its string. \<open>ossl_Pkcs7Verify\<close> is the verification
  of message, certificate and data.
\<close>

record pkcs7_view =
  p7_signed :: bool
  p7_detached :: bool
  p7_content_type :: "byte list option"
  p7_content :: "byte list"

record openssl =
  d2i_PKCS7 :: "byte list \<Rightarrow> pkcs7_view option"
  ossl_Pkcs7Verify :: "byte list \<Rightarrow> byte list \<Rightarrow> byte list \<Rightarrow> bool"

definition ossl_compare ::
    "openssl \<Rightarrow> byte list \<Rightarrow> byte list \<Rightarrow> byte list \<Rightarrow> byte list \<Rightarrow> bool res" where
  "ossl_compare S m T h str =
    bind_res (content_size str 0) (\<lambda>c. case c of
      None \<Rightarrow> Inr False
    | Some (ContentSize, Start) \<Rightarrow>
        bind_res (bytes str (Start + ContentSize - int (length h)) (int (length h))) (\<lambda>x.
          if x \<noteq> h then Inr False
          else bind_res (bytes str Start ContentSize) (\<lambda>Data. Inr (ossl_Pkcs7Verify S m T Data))))"

definition ossl_AuthenticodeVerify ::
    "openssl \<Rightarrow> byte list option \<Rightarrow> byte list option \<Rightarrow> byte list option \<Rightarrow> bool res" where
  "ossl_AuthenticodeVerify S AuthData TrustedCert ImageHash =
    (case (AuthData, TrustedCert, ImageHash) of
       (Some m, Some T, Some h) \<Rightarrow>
         if length m > INT_MAX \<or> length T > INT_MAX \<or> length h > INT_MAX then Inr False
         else (case d2i_PKCS7 S m of
                 None \<Rightarrow> Inr False
               | Some P7 \<Rightarrow>
                   if \<not> p7_signed P7 \<or> p7_detached P7 then Inr False
                   else (case p7_content_type P7 of
                           None \<Rightarrow> Inr False
                         | Some Oid \<Rightarrow>
                             if Oid \<noteq> mSpcIndirectOidValue then Inr False
                             else ossl_compare S m T h (p7_content P7)))
     | _ \<Rightarrow> Inr False)"

section \<open>The length of the content\<close>

lemma byte_of_in: "0 \<le> p \<Longrightarrow> p < int (length m) \<Longrightarrow> byte_of m p = Inr (m ! nat p)"
  by (simp add: byte_of_def bytes_def seg_def hd_drop_conv_nth)

lemma int_unat: "int (unat (b :: byte)) = uint b"
  by simp

text \<open>The length of the content is read by the low bits of its first byte only: an odd byte
  above 128 is taken for a length in one byte, an even one with bit 1 for a length in two, whatever
  number of length bytes it announces (0x81 and 0x82 are those that DER would give these).\<close>

theorem authenticode_length:
  assumes "0 \<le> p" and "p + 3 < int (length m)"
  shows "content_size m p = Inr (let b = unat (m ! nat (p + 1)) in
    if b < 128 then Some (int b, p + 2)
    else if odd b then Some (int (unat (m ! nat (p + 2))), p + 3)
    else if odd (b div 2)
      then Some (256 * int (unat (m ! nat (p + 2))) + int (unat (m ! nat (p + 3))), p + 4)
    else None)"
proof -
  let ?b = "m ! nat (p + 1)"
  have len: "uint (?b AND 0x7F) = uint ?b" if "unat ?b < 128"
    unfolding int_unat [symmetric] byte_and_7F using that by (simp only: mod_less)
  have reads: "byte_of m (p + 1) = Inr ?b" "byte_of m (p + 2) = Inr (m ! nat (p + 2))"
    "byte_of m (p + 3) = Inr (m ! nat (p + 3))" using assms by (simp_all add: byte_of_in)
  show ?thesis
    unfolding content_size_def reads bind_res_simps byte_and_80 byte_and_81 byte_and_82
      Let_def int_unat not_less [of "unat ?b" 128, symmetric]
    by (cases "unat ?b < 128"; cases "even (unat ?b)"; cases "even (unat ?b div 2)";
        simp only: if_True if_False len not_False_eq_True not_True_eq_False simp_thms)
qed

theorem authenticode_length_witness:
  "content_size [0x30, 0x83, 5, 0] 0 = Inr (Some (5, 3))"
  using authenticode_length [of 0 "[0x30, 0x83, 5, 0]"] by simp

section \<open>Acceptance\<close>

lemma bytes_Inr: "bytes m p n = Inr x \<longleftrightarrow>
    0 \<le> p \<and> 0 \<le> n \<and> p + n \<le> int (length m) \<and> x = seg (nat p) (nat n) m"
  by (auto simp: bytes_def)

lemma bytes_length: "bytes m p n = Inr x \<Longrightarrow> int (length x) = n"
  by (auto simp: bytes_Inr)

lemma bytes_suffix:
  assumes "bytes m s n = Inr D" and "int k \<le> n"
  shows "bytes m (s + n - int k) (int k) = Inr (drop (length D - k) D)"
proof -
  have D: "0 \<le> s" "0 \<le> n" "s + n \<le> int (length m)" "D = seg (nat s) (nat n) m"
    using assms(1) by (simp_all add: bytes_Inr)
  have len: "length D = nat n" using bytes_length [OF assms(1)] by simp
  have at: "nat (s + n - int k) = nat s + (nat n - k)" using D assms(2) by simp
  have k: "k \<le> nat n" using assms(2) by simp
  have "drop (length D - k) D = drop (nat n - k) (take (nat n) (drop (nat s) m))"
    unfolding len by (simp add: D(4) seg_def)
  also have "\<dots> = take k (drop (nat s + (nat n - k)) m)"
    using k by (simp add: drop_take add.commute)
  finally have "drop (length D - k) D = take k (drop (nat s + (nat n - k)) m)" .
  then show ?thesis using D assms(2) by (simp add: bytes_Inr at seg_def)
qed

lemma ends_with: "length h \<le> length D \<Longrightarrow> drop (length D - length h) D = h \<longleftrightarrow> (\<exists>x. D = x @ h)"
  by (metis append_eq_conv_conj append_take_drop_id diff_diff_cancel length_append length_drop add_diff_cancel_right')

text \<open>The two reads of the content.\<close>

lemma authenticode_step:
  assumes "length m \<le> INT_MAX" and "length T \<le> INT_MAX" and "length h < length m"
    and "find_content L m (int (length m)) = Inr (Some (n, s))" and "bytes m s n = Inr D"
  shows "AuthenticodeVerify L p (Some m) (Some T) (Some h) =
    (if \<exists>x. D = x @ h then Pkcs7Verify L p (Some m) (Some T) (Some D) else Some (Inr (False, p)))"
proof (cases "n < int (length h)")
  case True
  then have "\<nexists>x. D = x @ h" using bytes_length [OF assms(5)] by auto
  then show ?thesis using True assms by (simp add: AuthenticodeVerify_def)
next
  case False
  then have n: "int (length h) \<le> n" by simp
  then have "length h \<le> length D" using bytes_length [OF assms(5)] by simp
  then show ?thesis using False assms bytes_suffix [OF assms(5) n]
    by (simp add: AuthenticodeVerify_def not_less not_le ends_with)
qed

text \<open>\<^verbatim>\<open>AuthenticodeVerify\<close> accepts a signature exactly when it carries a content of the
  Authenticode type that ends with the hash of the image, and \<^verbatim>\<open>Pkcs7Verify\<close> accepts the
  signature for this content.\<close>

theorem authenticode_exact:
  "AuthenticodeVerify L p (Some m) (Some T) (Some h) = Some (Inr (True, p')) \<longleftrightarrow>
    length m \<le> INT_MAX \<and> length T \<le> INT_MAX \<and> length h < length m \<and>
    (\<exists>n s D. find_content L m (int (length m)) = Inr (Some (n, s)) \<and> bytes m s n = Inr D
      \<and> (\<exists>x. D = x @ h) \<and> Pkcs7Verify L p (Some m) (Some T) (Some D) = Some (Inr (True, p')))"
  (is "?l \<longleftrightarrow> ?r")
proof
  assume ?r
  then show ?l by (auto simp: authenticode_step)
next
  assume l: ?l
  then have len: "length m \<le> INT_MAX" "length T \<le> INT_MAX" "length h < length m"
    by (auto simp: AuthenticodeVerify_def split: if_splits)
  obtain n s where c: "find_content L m (int (length m)) = Inr (Some (n, s))"
    using l by (auto simp: AuthenticodeVerify_def split: if_splits sum.splits option.splits)
  obtain D where "bytes m s n = Inr D"
    using l c by (auto simp: AuthenticodeVerify_def split: if_splits sum.splits)
  with l c len show ?r by (auto simp: authenticode_step split: if_splits)
qed

text \<open>A signature with attributes, whose content ends with the bytes 2 and 3.\<close>

definition demo_signed :: "byte list \<Rightarrow> byte list" where
  "demo_signed content =
    der ASN1_SEQUENCE (der MBEDTLS_ASN1_INTEGER [1] @ der ASN1_SET demo_sha256
      @ der ASN1_SEQUENCE (der MBEDTLS_ASN1_OID mSpcIndirectOidValue
          @ der ASN1_CONTEXT (der ASN1_SEQUENCE content))
      @ der ASN1_CONTEXT (demo_cert 3 0x11 @ demo_cert 7 0x10)
      @ demo_signer (der ASN1_CONTEXT [5, 6]) 0x4E)"

definition demo_auth :: "byte list \<Rightarrow> byte list" where
  "demo_auth content = wrap_header (length (demo_signed content)) @ demo_signed content"

text \<open>C3: For a signature with authenticated attributes \<^verbatim>\<open>AuthenticodeVerify\<close> compares the hash with
  the end of the content, and then \<^verbatim>\<open>Pkcs7Verify\<close> gives the result that it gives for no data at
  all: the signature does not cover the content.\<close>

theorem authenticode_hash_unsigned:
  assumes "asn1_ok L" and "md_ok L"
    and "WrapPkcs7Data p m = Inr (True, Wrapped, (b, W), p')"
    and "MbedtlsPkcs7ParseDer L W (int32 (length W)) = Some (Inr (Inr sd))"
    and "\<forall>si \<in> set (sd_signers sd). si_AuthAttr si \<noteq> None"
    and "length m \<le> INT_MAX" and "length T \<le> INT_MAX" and "length h < length m"
    and "find_content L m (int (length m)) = Inr (Some (n, s))" and "bytes m s n = Inr D"
  shows "AuthenticodeVerify L p (Some m) (Some T) (Some h) =
    (if \<exists>x. D = x @ h then Pkcs7Verify L p (Some m) (Some T) (Some []) else Some (Inr (False, p)))"
proof -
  have D: "length D \<le> INT_MAX" using assms(6,10) by (auto simp: bytes_Inr seg_def)
  have "Pkcs7Verify L p (Some m) (Some T) (Some D) = Pkcs7Verify L p (Some m) (Some T) (Some [])"
    by (rule verify_ignores_data [OF assms(1-7) D]) (simp add: INT_MAX_def)
  then show ?thesis by (simp add: authenticode_step [OF assms(6-10)])
qed

text \<open>The same signature is looked at for two contents with different digests.\<close>

theorem authenticode_hash_unsigned_witness:
  "AuthenticodeVerify demo demo_pool (Some (demo_auth [1, 2, 3])) (Some demo_root) (Some [2, 3])
    = Pkcs7Verify demo demo_pool (Some (demo_auth [1, 2, 3])) (Some demo_root) (Some [])
  \<and> AuthenticodeVerify demo demo_pool (Some (demo_auth [1, 7, 7])) (Some demo_root) (Some [7, 7])
    = Pkcs7Verify demo demo_pool (Some (demo_auth [1, 7, 7])) (Some demo_root) (Some [])"
proof -
  let ?sd = "\<lparr>sd_certs = demo_certs, sd_signers = [\<lparr>si_Version = 1, si_Serial = (90, 1),
     si_IssuerRaw = (85, 3), si_AlgIdentifier = (95, 9), si_SigAlgIdentifier = (112, 9),
     si_AuthAttr = Some (104, 4), si_Sig = (123, 1)\<rparr>]\<rparr>"
  have main: "AuthenticodeVerify demo demo_pool (Some (demo_auth c)) (Some demo_root) (Some h)
      = Pkcs7Verify demo demo_pool (Some (demo_auth c)) (Some demo_root) (Some [])"
    if "length (demo_auth c) = 124" "is_wrapped (demo_auth c) = Inr True" "h = drop 1 c" "length c = 3"
      "MbedtlsPkcs7ParseDer demo (demo_auth c) (int32 124) = Some (Inr (Inr ?sd))"
      "find_content demo (demo_auth c) 124 = Inr (Some (3, 57))" "bytes (demo_auth c) 57 3 = Inr c" for c h
  proof -
    have wrap: "WrapPkcs7Data demo_pool (demo_auth c)
        = Inr (True, True, (None, demo_auth c), demo_pool)"
      by (simp add: WrapPkcs7Data_def that(2))
    have parse: "MbedtlsPkcs7ParseDer demo (demo_auth c) (int32 (length (demo_auth c)))
        = Some (Inr (Inr ?sd))" by (simp only: that(1,5))
    have attrs: "\<forall>si \<in> set (sd_signers ?sd). si_AuthAttr si \<noteq> None" by simp
    have len: "length (demo_auth c) \<le> INT_MAX" "length h < length (demo_auth c)"
      using that(1,3,4) by (simp_all add: INT_MAX_def)
    have find: "find_content demo (demo_auth c) (int (length (demo_auth c))) = Inr (Some (3, 57))"
      using that(1,6) by simp
    have ends: "\<exists>x. c = x @ h" unfolding that(3) by (metis append_take_drop_id)
    show ?thesis
      using authenticode_hash_unsigned [OF demo_asn1_ok demo_md_ok wrap parse attrs len(1) demo_len(2)
          len(2) find that(7)] ends by simp
  qed
  show ?thesis
  proof
    show "AuthenticodeVerify demo demo_pool (Some (demo_auth [1, 2, 3])) (Some demo_root) (Some [2, 3])
        = Pkcs7Verify demo demo_pool (Some (demo_auth [1, 2, 3])) (Some demo_root) (Some [])"
      by (rule main) code_simp+
    show "AuthenticodeVerify demo demo_pool (Some (demo_auth [1, 7, 7])) (Some demo_root) (Some [7, 7])
        = Pkcs7Verify demo demo_pool (Some (demo_auth [1, 7, 7])) (Some demo_root) (Some [])"
      by (rule main) code_simp+
  qed
qed

section \<open>The bounds of OpenSSL's variant\<close>

text \<open>\<^verbatim>\<open>AuthenticodeVerify\<close> of the OpenSSL library compares the hash with the bytes in front of the
  end of the content without asking whether there are that many: it reads in front of the decoded
  string when the hash is longer than the content with its header, behind it when the content
  claims to be longer than the string, and takes the bytes of the header for digest bytes in
  between.\<close>

theorem ossl_authenticode_exact:
  assumes "length m \<le> INT_MAX" and "length T \<le> INT_MAX" and "length h \<le> INT_MAX"
    and "d2i_PKCS7 S m = Some P7" and "p7_signed P7" and "\<not> p7_detached P7"
    and "p7_content_type P7 = Some mSpcIndirectOidValue"
    and "content_size (p7_content P7) 0 = Inr (Some (n, s))"
  shows "ossl_AuthenticodeVerify S (Some m) (Some T) (Some h) =
    (if s + n < int (length h) \<or> s + n > int (length (p7_content P7)) then Inl OobRead
     else Inr ((\<exists>x. take (nat (s + n)) (p7_content P7) = x @ h)
       \<and> ossl_Pkcs7Verify S m T (seg (nat s) (nat n) (p7_content P7))))"
proof -
  let ?str = "p7_content P7" and ?h = "int (length h)"
  have pos: "0 \<le> s" "0 \<le> n"
    using assms(8) by (auto simp: content_size_def elim!: bind_res_InrE split: if_splits)
  have start: "ossl_AuthenticodeVerify S (Some m) (Some T) (Some h) = ossl_compare S m T h ?str"
    using assms by (simp add: ossl_AuthenticodeVerify_def not_less)
  show ?thesis
  proof (cases "s + n < ?h \<or> s + n > int (length ?str)")
    case True
    then have "bytes ?str (s + n - ?h) ?h = Inl OobRead" by (auto simp: bytes_def)
    then show ?thesis using True by (simp add: start ossl_compare_def assms(8))
  next
    case False
    then have all: "bytes ?str 0 (s + n) = Inr (take (nat (s + n)) ?str)"
      using pos by (simp add: bytes_def seg_def)
    have h: "?h \<le> s + n" using False by simp
    have cmp: "bytes ?str (s + n - ?h) ?h
        = Inr (drop (length (take (nat (s + n)) ?str) - length h) (take (nat (s + n)) ?str))"
      using bytes_suffix [OF all h] by simp
    have "length h \<le> length (take (nat (s + n)) ?str)"
      using bytes_length [OF all] h by simp
    note ends = ends_with [OF this]
    have data: "bytes ?str s n = Inr (seg (nat s) (nat n) ?str)" using pos False by (simp add: bytes_def)
    show ?thesis using False
      by (simp only: start ossl_compare_def assms(8) bind_res_simps option.case prod.case cmp ends data
          if_False simp_thms) simp
  qed
qed

text \<open>A hash of 4 bytes against a content of one byte.\<close>

theorem ossl_authenticode_exact_witness:
  "ossl_AuthenticodeVerify
     \<lparr>d2i_PKCS7 = (\<lambda>m. Some \<lparr>p7_signed = True, p7_detached = False,
        p7_content_type = Some mSpcIndirectOidValue, p7_content = [0x30, 1, 9]\<rparr>),
      ossl_Pkcs7Verify = (\<lambda>m T D. True)\<rparr> (Some []) (Some []) (Some [0, 0, 0, 0]) = Inl OobRead"
proof -
  have "content_size [0x30, 1, 9] 0 = Inr (Some (1, 2))" by code_simp
  then show ?thesis
    using ossl_authenticode_exact [where m = "[]" and T = "[]" and h = "[0, 0, 0, 0]" and n = 1 and s = 2
        and S = "\<lparr>d2i_PKCS7 = (\<lambda>m. Some \<lparr>p7_signed = True, p7_detached = False,
            p7_content_type = Some mSpcIndirectOidValue, p7_content = [0x30, 1, 9]\<rparr>),
          ossl_Pkcs7Verify = (\<lambda>m T D. True)\<rparr>"]
    by (simp add: INT_MAX_def)
qed

end
