(* ===== verification/Eku.thy ===== *)
theory Eku
  imports Pkcs7Verify
begin

text \<open>
  \<^verbatim>\<open>MbedTlsPkg/Library/BaseCryptLib/Pk/CryptPkcs7VerifyEku.c\<close>: whether the usages that a caller
  requires are among the extended key usages of the certificate of a signature.

  The conversion of an object identifier from text writes a buffer of 20 bytes. A certificate is
  read through its encoding and the range of its extensions; the functions of MbedTLS are the
  parameters of \<open>Pkcs7Parse\<close>. What MbedTLS allocates for a certificate is not followed.
\<close>

definition EkuOID :: "byte list" where "EkuOID = [0x55, 0x1D, 0x25]"
definition gOidBasicConstraints :: "byte list" where "gOidBasicConstraints = [0x55, 0x1D, 0x13]"
definition gBasicConstraintsCase1 :: "byte list" where "gBasicConstraintsCase1 = [0x30, 0]"
definition gBasicConstraintsCase2 :: "byte list" where
  "gBasicConstraintsCase2 = [0x30, 6, 1, 1, 0xFF, 2, 1, 0]"

section \<open>Object identifiers from text\<close>

text \<open>The text with its NUL is \<open>m\<close>; 46 is the dot and 48 the digit 0.\<close>

function scan_arc :: "byte list \<Rightarrow> nat \<Rightarrow> UINT16 \<Rightarrow> UINT64 \<Rightarrow> (nat \<times> UINT16 \<times> UINT64) res" where
  "scan_arc m Ptr Index EKUsSize =
    (if length m \<le> Ptr then Inl OobRead
     else if m ! Ptr = 46 \<or> m ! Ptr = 0 then Inr (Ptr, Index, EKUsSize)
     else scan_arc m (Suc Ptr) (Index + 1) (EKUsSize - 1))"
  by pat_completeness auto
termination by (relation "measure (\<lambda>(m, Ptr, i, n). length m - Ptr)") auto

declare scan_arc.simps [simp del]

lemma scan_arc_bounds: "scan_arc m Ptr i n = Inr (Ptr', i', n') \<Longrightarrow> Ptr \<le> Ptr' \<and> Ptr' < length m"
proof (induction m Ptr i n rule: scan_arc.induct)
  case (1 m Ptr i n)
  then show ?case by (subst (asm) (2) scan_arc.simps) (auto split: if_splits)
qed

primrec arc_value :: "byte list \<Rightarrow> nat \<Rightarrow> nat \<Rightarrow> UINT32 \<Rightarrow> UINT32" where
  "arc_value m Ptr 0 Data = Data"
| "arc_value m Ptr (Suc k) Data = arc_value m Ptr k (10 * Data + (ucast (m ! (Ptr - Suc k)) - 48))"

definition write_oid :: "byte list \<Rightarrow> nat \<Rightarrow> byte \<Rightarrow> byte list res" where
  "write_oid CheckOid i x = (if i < length CheckOid then Inr (CheckOid[i := x]) else Inl OobWrite)"

definition put_arc :: "UINT32 \<Rightarrow> byte list \<Rightarrow> byte \<Rightarrow> (byte list \<times> byte) res" where
  "put_arc Data CheckOid OidIndex =
    (if Data < 128 then
       bind_res (write_oid CheckOid (unat OidIndex) (ucast Data)) (\<lambda>o1. Inr (o1, OidIndex + 1))
     else
       bind_res (write_oid CheckOid (unat OidIndex + 1) (ucast (Data AND 0xFF))) (\<lambda>o1.
       bind_res (write_oid o1 (unat OidIndex)
           (ucast (drop_bit 8 (push_bit 1 (Data AND 0xFF00) OR 0x8000) AND 0xFF))) (\<lambda>o2.
         Inr (o2, OidIndex + 2))))"

function oid_loop :: "byte list \<Rightarrow> nat \<Rightarrow> UINT64 \<Rightarrow> byte list \<Rightarrow> byte \<Rightarrow> (byte list \<times> byte) res" where
  "oid_loop m Ptr EKUsSize CheckOid OidIndex =
    (if EKUsSize = 0 then Inr (CheckOid, OidIndex)
     else (case scan_arc m Ptr 0 EKUsSize of
             Inl f \<Rightarrow> Inl f
           | Inr (Ptr', Index, Size') \<Rightarrow>
               (case put_arc (arc_value m Ptr' (unat Index) 0) CheckOid OidIndex of
                  Inl f \<Rightarrow> Inl f
                | Inr (CheckOid, OidIndex) \<Rightarrow>
                    if Size' = 0 then Inr (CheckOid, OidIndex)
                    else oid_loop m (Suc Ptr') (Size' - 1) CheckOid OidIndex)))"
  by pat_completeness auto
termination
  by (relation "measure (\<lambda>(m, Ptr, n, c, i). length m - Ptr)")
     (auto dest!: scan_arc_bounds [OF sym] scan_arc_bounds)

declare oid_loop.simps [simp del]

definition GetOidFromTxt :: "byte list \<Rightarrow> byte list \<Rightarrow> (byte list \<times> byte) res" where
  "GetOidFromTxt txt CheckOid =
    (let m = txt @ [0] in
     if length m \<le> 2 then Inl OobRead
     else bind_res (write_oid CheckOid 0 ((m ! 0 - 48) * 40 + (m ! 2 - 48))) (\<lambda>CheckOid.
       oid_loop m 4 (of_nat (length txt) - 4) CheckOid 1))"

section \<open>Extensions\<close>

text \<open>
  \<^verbatim>\<open>CompareMem (Ptr, Oid, OidSize)\<close> with the size of the constant, whatever the length of the
  identifier in the certificate.
\<close>

definition same_oid :: "byte list \<Rightarrow> int \<Rightarrow> byte list \<Rightarrow> bool res" where
  "same_oid m Ptr Oid = bind_res (bytes m Ptr (int (length Oid))) (\<lambda>x. Inr (x = Oid))"

text \<open>Behind the matching identifier: the value of the extension.\<close>

definition extension_value ::
    "'pk mbedtls \<Rightarrow> byte list \<Rightarrow> int \<Rightarrow> int \<Rightarrow> int \<Rightarrow> int \<times> int \<times> int" where
  "extension_value L m Ptr End ObjLen =
    (case mbedtls_asn1_get_tag L m (Ptr + ObjLen) End ObjLen MBEDTLS_ASN1_BOOLEAN of
       (Ret, Ptr, ObjLen) \<Rightarrow>
         mbedtls_asn1_get_tag L m (if Ret = 0 then Ptr + ObjLen else Ptr) End ObjLen
           MBEDTLS_ASN1_OCTET_STRING)"

text \<open>
  The body of the loop behind the header of one extension: \<open>Inl\<close> is what the function returns,
  \<open>Inr\<close> the length with which the loop goes on.
\<close>

definition extension_body ::
    "'pk mbedtls \<Rightarrow> byte list \<Rightarrow> int \<Rightarrow> int \<Rightarrow> int \<Rightarrow> byte list \<Rightarrow> asn1_buf option res + int" where
  "extension_body L m Ptr End ObjLen Oid =
    (case mbedtls_asn1_get_tag L m Ptr End ObjLen MBEDTLS_ASN1_OID of
       (Ret, Ptr, ObjLen) \<Rightarrow>
         if Ret \<noteq> 0 then Inr ObjLen
         else (case same_oid m Ptr Oid of
                 Inl f \<Rightarrow> Inl (Inl f)
               | Inr same \<Rightarrow>
                   if \<not> same then Inr ObjLen
                   else (case extension_value L m Ptr End ObjLen of
                           (Ret, Ptr, ObjLen) \<Rightarrow>
                             if Ret = 0 then Inl (Inr (Some (Ptr, ObjLen))) else Inr ObjLen)))"

text \<open>\<open>None\<close>: the loop does not end; \<open>Inr None\<close>: no extension matches.\<close>

partial_function (option) InternalX509FindExtensionData ::
    "'pk mbedtls \<Rightarrow> byte list \<Rightarrow> int \<Rightarrow> int \<Rightarrow> int \<Rightarrow> byte list \<Rightarrow> asn1_buf option res option" where
  "InternalX509FindExtensionData L m ExtensionPtr End ObjLen Oid =
    (case mbedtls_asn1_get_tag L m ExtensionPtr End ObjLen ASN1_SEQUENCE of
       (Ret, Ptr, FindExtensionLen) \<Rightarrow>
         if Ret \<noteq> 0 then Some (Inr None)
         else (case extension_body L m Ptr End FindExtensionLen Oid of
                 Inl r \<Rightarrow> Some r
               | Inr ObjLen \<Rightarrow>
                   InternalX509FindExtensionData L m (Ptr + FindExtensionLen) End ObjLen Oid))"

declare InternalX509FindExtensionData.simps [code]

text \<open>
  Status, \<^verbatim>\<open>*ExtensionDataSize\<close> and the bytes that are copied; \<open>buf\<close> says that \<^verbatim>\<open>ExtensionData\<close> is
  not NULL, and \<open>ExtSize\<close> is the size that the caller gives.
\<close>

definition GetExtensionData ::
    "'pk mbedtls \<Rightarrow> 'pk x509_crt \<Rightarrow> byte list \<Rightarrow> bool \<Rightarrow> int \<Rightarrow> (bool \<times> int \<times> byte list) res option" where
  "GetExtensionData L Cert Oid buf ExtSize =
    (let m = crt_raw Cert; End = fst (crt_v3_ext Cert) + snd (crt_v3_ext Cert) in
     case mbedtls_asn1_get_tag L m (fst (crt_v3_ext Cert)) End 0 ASN1_SEQUENCE of
       (Ret, Ptr, ObjLen) \<Rightarrow>
         if Ret \<noteq> 0 then Some (Inr (False, 0, []))
         else map_option (\<lambda>r. bind_res r (\<lambda>found.
           case found of
             None \<Rightarrow> Inr (False, 0, [])
           | Some (Ptr, ObjLen) \<Rightarrow>
               if ExtSize < ObjLen then Inr (False, ObjLen, [])
               else if \<not> buf then Inr (False, ExtSize, [])
               else bind_res (bytes m Ptr ObjLen) (\<lambda>x. Inr (True, ObjLen, x))))
           (InternalX509FindExtensionData L m Ptr End ObjLen Oid))"

section \<open>IsEkuInCertificate\<close>

text \<open>The loop over the positions, for an identifier that is not longer than the buffer.\<close>

function eku_search :: "byte list \<Rightarrow> byte list \<Rightarrow> nat \<Rightarrow> bool" where
  "eku_search Buffer EKU Index =
    (if length Buffer < Index + length EKU then False
     else if seg Index (length EKU) Buffer = EKU then
       Index = length Buffer - length EKU \<or> Buffer ! (Index + length EKU) = 0x06
     else eku_search Buffer EKU (Suc Index))"
  by pat_completeness auto
termination by (relation "measure (\<lambda>(b, e, i). Suc (length b) - i)") auto

declare eku_search.simps [simp del]

text \<open>
  For a longer identifier \<^verbatim>\<open>Len - EkuLen\<close> wraps, and the first comparison reads behind the buffer.
\<close>

definition IsEkuInCertificate ::
    "'pk mbedtls \<Rightarrow> 'pk x509_crt \<Rightarrow> byte list \<Rightarrow> pool \<Rightarrow> (efi_status \<times> pool) res option" where
  "IsEkuInCertificate L Cert EKU p =
    Option.bind (GetExtensionData L Cert EkuOID False 0) (\<lambda>r. case r of
      Inl f \<Rightarrow> Some (Inl f)
    | Inr (Ret, Len, x) \<Rightarrow>
        if Len = 0 then Some (Inr (EFI_NOT_FOUND, p))
        else (case AllocatePool p (nat Len) of
                (None, p) \<Rightarrow> Some (Inr (EFI_NOT_FOUND, p))
              | (Some b, p) \<Rightarrow>
                  map_option (\<lambda>r. bind_res r (\<lambda>(Ret, Len, Buffer).
                    bind_res (if Len = 0 \<or> \<not> Ret then Inr EFI_NOT_FOUND
                              else if length Buffer < length EKU then Inl OobRead
                              else Inr (if eku_search Buffer EKU 0 then EFI_SUCCESS else EFI_NOT_FOUND))
                      (\<lambda>Status. bind_res (FreePool p (Some b)) (\<lambda>p. Inr (Status, p)))))
                    (GetExtensionData L Cert EkuOID True Len)))"

section \<open>CheckEKUs\<close>

text \<open>
  The loop over the required identifiers: \<^verbatim>\<open>Status\<close>, \<^verbatim>\<open>NumEkusFound\<close> and the pool. \<open>CheckOid\<close> is the
  buffer on the stack, with whatever it holds at first.
\<close>

primrec eku_loop ::
    "'pk mbedtls \<Rightarrow> 'pk x509_crt \<Rightarrow> bool \<Rightarrow> byte list list \<Rightarrow> efi_status \<Rightarrow> nat \<Rightarrow> byte list \<Rightarrow> pool
     \<Rightarrow> (efi_status \<times> nat \<times> pool) res option" where
  "eku_loop L Cert RequireAll [] Status NumEkusFound CheckOid p = Some (Inr (Status, NumEkusFound, p))"
| "eku_loop L Cert RequireAll (txt # txts) Status NumEkusFound CheckOid p =
    (case GetOidFromTxt txt CheckOid of
       Inl f \<Rightarrow> Some (Inl f)
     | Inr (CheckOid, OidLen) \<Rightarrow>
         Option.bind (IsEkuInCertificate L Cert (take (unat OidLen) CheckOid) p) (\<lambda>r. case r of
           Inl f \<Rightarrow> Some (Inl f)
         | Inr (Status, p) \<Rightarrow>
             if Status = EFI_SUCCESS then
               if \<not> RequireAll then Some (Inr (Status, NumEkusFound + 1, p))
               else eku_loop L Cert RequireAll txts Status (NumEkusFound + 1) CheckOid p
             else Some (Inr (Status, NumEkusFound, p))))"

definition CheckEKUs ::
    "'pk mbedtls \<Rightarrow> byte list \<Rightarrow> 'pk x509_crt \<Rightarrow> byte list list \<Rightarrow> bool \<Rightarrow> pool
     \<Rightarrow> (efi_status \<times> pool) res option" where
  "CheckEKUs L CheckOid Cert RequiredEKUs RequireAll p =
    (if RequiredEKUs = [] then
       Some (Inr (if RequireAll then EFI_SUCCESS else EFI_INVALID_PARAMETER, p))
     else map_option (\<lambda>r. bind_res r (\<lambda>(Status, NumEkusFound, p).
       Inr (if RequireAll \<and> NumEkusFound = length RequiredEKUs then EFI_SUCCESS else Status, p)))
       (eku_loop L Cert RequireAll RequiredEKUs EFI_SUCCESS 0 CheckOid p))"

section \<open>IsCertSignerCert\<close>

text \<open>
  Whether the bytes from \<open>Start\<close> to \<open>End\<close> are a certificate that is not the one of an authority.
\<close>

definition IsCertSignerCert ::
    "'pk mbedtls \<Rightarrow> byte list \<Rightarrow> int \<Rightarrow> int \<Rightarrow> pool \<Rightarrow> (bool \<times> pool) res option" where
  "IsCertSignerCert L m Start End p =
    (case bytes m Start (End - Start) of
       Inl f \<Rightarrow> Some (Inl f)
     | Inr x \<Rightarrow>
         (case mbedtls_x509_crt_parse_der L x of
            (Ret, Cert) \<Rightarrow>
              if Ret \<noteq> 0 then Some (Inr (False, p))
              else Option.bind (GetExtensionData L Cert gOidBasicConstraints False 0) (\<lambda>r. case r of
                Inl f \<Rightarrow> Some (Inl f)
              | Inr (Status, Len, x) \<Rightarrow>
                  if Len = 0 then Some (Inr (True, p))
                  else (case AllocatePool p (nat Len) of
                          (None, p) \<Rightarrow> Some (Inr (False, p))
                        | (Some b, p) \<Rightarrow>
                            map_option (\<lambda>r. bind_res r (\<lambda>(Status, Len, Buffer).
                              bind_res (FreePool p (Some b)) (\<lambda>p.
                                Inr (Len = 0 \<or> Status \<and> (Buffer = gBasicConstraintsCase1
                                                         \<or> Buffer = gBasicConstraintsCase2), p))))
                              (GetExtensionData L Cert gOidBasicConstraints True Len)))))"

section \<open>VerifyEKUsInPkcs7Signature\<close>

text \<open>
  The elements in front of the certificates, up to the end of the first one: \<^verbatim>\<open>Ptr\<close>, \<^verbatim>\<open>End\<close>,
  \<^verbatim>\<open>ObjLen\<close> and \<^verbatim>\<open>OldEnd\<close>, which is the start of the header of all certificates. \<open>None\<close> is
  \<^verbatim>\<open>return FALSE\<close>.
\<close>

definition eku_head ::
    "'pk mbedtls \<Rightarrow> byte list \<Rightarrow> int \<Rightarrow> (int \<times> int \<times> int \<times> int) option" where
  "eku_head L m End =
    (case mbedtls_asn1_get_tag L m 0 End 0 ASN1_SEQUENCE of
       (Ret, Ptr, ObjLen) \<Rightarrow> if Ret \<noteq> 0 then None
     else (case mbedtls_asn1_get_tag L m Ptr End ObjLen MBEDTLS_ASN1_INTEGER of
       (Ret, Ptr, ObjLen) \<Rightarrow> if Ret \<noteq> 0 then None
     else (case mbedtls_asn1_get_tag L m (Ptr + ObjLen) End ObjLen ASN1_SET of
       (Ret, Ptr, ObjLen) \<Rightarrow> if Ret \<noteq> 0 then None
     else (case mbedtls_asn1_get_tag L m (Ptr + ObjLen) End ObjLen ASN1_SEQUENCE of
       (Ret, Ptr, ObjLen) \<Rightarrow> if Ret \<noteq> 0 then None
     else let OldEnd = Ptr + ObjLen in
          (case mbedtls_asn1_get_tag L m OldEnd End ObjLen ASN1_CONTEXT of
       (Ret, Ptr, ObjLen) \<Rightarrow> if Ret \<noteq> 0 then None
     else let End = Ptr + ObjLen in
          (case mbedtls_asn1_get_tag L m Ptr End ObjLen ASN1_SEQUENCE of
       (Ret, Ptr, ObjLen) \<Rightarrow> if Ret \<noteq> 0 then None
     else Some (Ptr + ObjLen, End, ObjLen, OldEnd)))))))"

text \<open>
  The body of the loop. \<open>Inl\<close>: the loop is left, with \<^verbatim>\<open>Ptr\<close>, \<^verbatim>\<open>ObjLen\<close> and \<^verbatim>\<open>OldEnd\<close> or, for
  \<open>None\<close>, with \<^verbatim>\<open>return FALSE\<close>; \<open>Inr\<close>: the next \<^verbatim>\<open>Ptr\<close> and \<^verbatim>\<open>ObjLen\<close>.
\<close>

definition signer_step ::
    "'pk mbedtls \<Rightarrow> byte list \<Rightarrow> int \<Rightarrow> int \<Rightarrow> int \<Rightarrow> int \<Rightarrow> pool
     \<Rightarrow> (((int \<times> int \<times> int) option \<times> pool) res + int \<times> int \<times> pool) option" where
  "signer_step L m End Ptr ObjLen OldEnd p =
    map_option (\<lambda>r. case r of
        Inl f \<Rightarrow> Inl (Inl f)
      | Inr (signer, p) \<Rightarrow>
          if signer then Inl (Inr (Some (Ptr, ObjLen, OldEnd), p))
          else (case mbedtls_asn1_get_tag L m Ptr End ObjLen ASN1_SEQUENCE of
                  (Ret, Ptr, ObjLen) \<Rightarrow>
                    if Ret \<noteq> 0 then Inl (Inr (None, p)) else Inr (Ptr + ObjLen, ObjLen, p)))
      (IsCertSignerCert L m OldEnd Ptr p)"

partial_function (option) signer_loop ::
    "'pk mbedtls \<Rightarrow> byte list \<Rightarrow> int \<Rightarrow> int \<Rightarrow> int \<Rightarrow> int \<Rightarrow> pool
     \<Rightarrow> ((int \<times> int \<times> int) option \<times> pool) res option" where
  "signer_loop L m End Ptr ObjLen OldEnd p =
    (if \<not> Ptr < End then Some (Inr (Some (Ptr, ObjLen, OldEnd), p))
     else Option.bind (signer_step L m End Ptr ObjLen OldEnd p) (\<lambda>s. case s of
            Inl r \<Rightarrow> Some r
          | Inr (Next, ObjLen, p) \<Rightarrow> signer_loop L m End Next ObjLen Ptr p))"

declare signer_loop.simps [code]

text \<open>
  Behind the loop: the certificate is what lies between \<^verbatim>\<open>OldEnd\<close> and \<^verbatim>\<open>End\<close>. \<^verbatim>\<open>return FALSE\<close> is
  the status 0.
\<close>

definition check_last ::
    "'pk mbedtls \<Rightarrow> byte list \<Rightarrow> byte list \<Rightarrow> int \<Rightarrow> byte list list \<Rightarrow> bool
     \<Rightarrow> (int \<times> int \<times> int) option \<Rightarrow> pool \<Rightarrow> (efi_status \<times> pool) res option" where
  "check_last L CheckOid m End RequiredEKUs RequireAll found p =
    (case found of
       None \<Rightarrow> Some (Inr (0, p))
     | Some (Ptr, ObjLen, OldEnd) \<Rightarrow>
         if Ptr \<noteq> End then Some (Inr (0, p))
         else (case bytes m OldEnd (ObjLen + (End - ObjLen - OldEnd)) of
                 Inl f \<Rightarrow> Some (Inl f)
               | Inr x \<Rightarrow>
                   (case mbedtls_x509_crt_parse_der L x of
                      (Ret, Cert) \<Rightarrow>
                        if Ret \<noteq> 0 then Some (Inr (0, p))
                        else CheckEKUs L CheckOid Cert RequiredEKUs RequireAll p)))"

text \<open>
  The message is all of the buffer; \<open>CheckOid\<close> is what the buffer of \<^verbatim>\<open>CheckEKUs\<close> holds at first.
\<close>

definition VerifyEKUsInPkcs7Signature ::
    "'pk mbedtls \<Rightarrow> byte list \<Rightarrow> pool \<Rightarrow> byte list option \<Rightarrow> byte list list option \<Rightarrow> bool
     \<Rightarrow> (efi_status \<times> pool) res option" where
  "VerifyEKUsInPkcs7Signature L CheckOid p Pkcs7Signature RequiredEKUs RequireAll =
    (case (Pkcs7Signature, RequiredEKUs) of
       (Some m, Some ekus) \<Rightarrow>
         (case eku_head L m (int32 (length m)) of
            None \<Rightarrow> Some (Inr (0, p))
          | Some (Ptr, End, ObjLen, OldEnd) \<Rightarrow>
              Option.bind (signer_loop L m End Ptr ObjLen OldEnd p) (\<lambda>r. case r of
                Inl f \<Rightarrow> Some (Inl f)
              | Inr (found, p) \<Rightarrow> check_last L CheckOid m End ekus RequireAll found p))
     | _ \<Rightarrow> Some (Inr (EFI_INVALID_PARAMETER, p)))"

end
