(* ===== verification/EkuOid.thy ===== *)
theory EkuOid
  imports Eku
begin

text \<open>
  What \<open>GetOidFromTxt\<close> makes of the text of an object identifier, against the encoding of DER.
\<close>

section \<open>Text and encoding\<close>

text \<open>Decimal digits, and the text \<open>a.b.v.w...\<close> whose first two numbers have one digit.\<close>

fun dec :: "nat \<Rightarrow> byte list" where
  "dec n = (if n < 10 then [48 + of_nat n] else dec (n div 10) @ [48 + of_nat (n mod 10)])"

declare dec.simps [simp del]

definition oid_text :: "nat \<Rightarrow> nat \<Rightarrow> nat list \<Rightarrow> byte list" where
  "oid_text a b vs = [48 + of_nat a, 46, 48 + of_nat b] @ concat (map (\<lambda>v. 46 # dec v) vs)"

text \<open>DER: seven bits in each byte, the most significant ones first, bit 7 in all but the last.\<close>

fun base128 :: "nat \<Rightarrow> byte list" where
  "base128 n = (if n = 0 then [] else base128 (n div 128) @ [0x80 + of_nat (n mod 128)])"

declare base128.simps [simp del]

definition der_arc :: "nat \<Rightarrow> byte list" where
  "der_arc v = base128 (v div 128) @ [of_nat (v mod 128)]"

text \<open>What the code writes for a number.\<close>

definition arc_code :: "nat \<Rightarrow> byte list" where
  "arc_code v = (if v < 128 then [of_nat v]
                 else [of_nat (128 + (v div 256) mod 64 * 2), of_nat (v mod 256)])"

section \<open>One number\<close>

lemma dec_digits: "set (dec n) \<subseteq> (\<lambda>d. 48 + of_nat d) ` {..<10}"
proof (induction n rule: dec.induct)
  case (1 n)
  then show ?case by (subst dec.simps) auto
qed

lemma dec_char: "c \<in> set (dec n) \<Longrightarrow> c \<noteq> 46 \<and> c \<noteq> 0"
proof -
  assume "c \<in> set (dec n)"
  then obtain d where "d < 10" and c: "c = 48 + of_nat d" using dec_digits [of n] by auto
  then have "uint c = 48 + int d" by (simp add: uint_word_ariths take_bit_eq_mod unsigned_of_nat)
  then show ?thesis by auto
qed

lemma dec_length: "n < 10 ^ Suc k \<Longrightarrow> length (dec n) \<le> Suc k"
proof (induction k arbitrary: n)
  case 0
  then show ?case by (subst dec.simps) simp
next
  case (Suc k)
  have "n div 10 < 10 ^ Suc k" using Suc.prems by (simp add: less_mult_imp_div_less mult.commute)
  from Suc.IH [OF this] show ?case by (subst dec.simps) simp
qed

lemma scan_arc_dec:
  assumes "\<forall>c \<in> set ds. c \<noteq> 46 \<and> c \<noteq> 0" and "c = 46 \<or> c = 0"
  shows "scan_arc (pre @ ds @ c # post) (length pre) Index n
    = Inr (length pre + length ds, Index + of_nat (length ds), n - of_nat (length ds))"
  using assms(1)
proof (induction ds arbitrary: pre Index n)
  case Nil
  then show ?case using assms(2) by (subst scan_arc.simps) simp
next
  case (Cons d ds)
  have "scan_arc ((pre @ [d]) @ ds @ c # post) (length (pre @ [d])) (Index + 1) (n - 1)
    = Inr (length (pre @ [d]) + length ds, Index + 1 + of_nat (length ds), n - 1 - of_nat (length ds))"
    using Cons.prems by (intro Cons.IH) simp
  then show ?case using Cons.prems
    by (subst scan_arc.simps) (simp add: algebra_simps)
qed

lemma arc_value_append:
  "arc_value (pre @ ds @ post) (length pre + length ds) (length ds) D
    = foldl (\<lambda>v c. 10 * v + (ucast c - 48)) D ds"
proof (induction ds arbitrary: pre D)
  case Nil
  then show ?case by simp
next
  case (Cons d ds)
  have "arc_value ((pre @ [d]) @ ds @ post) (length (pre @ [d]) + length ds) (length ds)
      (10 * D + (ucast d - 48))
    = foldl (\<lambda>v c. 10 * v + (ucast c - 48)) (10 * D + (ucast d - 48)) ds"
    by (rule Cons.IH)
  then show ?case by (simp add: nth_append)
qed

lemma digit_value: "d < 10 \<Longrightarrow> ucast (48 + of_nat d :: byte) - 48 = (of_nat d :: UINT32)"
proof -
  assume "d < 10"
  then have "uint (48 + of_nat d :: byte) = 48 + int d"
    by (simp add: uint_word_ariths take_bit_eq_mod unsigned_of_nat)
  then have "(ucast (48 + of_nat d :: byte) :: UINT32) = of_int (48 + int d)"
    by (simp only: ucast_eq)
  then show ?thesis by simp
qed

lemma foldl_dec: "foldl (\<lambda>v c. 10 * v + (ucast c - 48)) (0 :: UINT32) (dec n) = of_nat n"
proof (induction n rule: dec.induct)
  case (1 n)
  show ?case
  proof (cases "n < 10")
    case True
    then show ?thesis by (subst dec.simps) (simp add: digit_value)
  next
    case False
    have "10 * of_nat (n div 10) + of_nat (n mod 10) = (of_nat (10 * (n div 10) + n mod 10) :: UINT32)"
      by (simp only: of_nat_add of_nat_mult of_nat_numeral)
    then show ?thesis using 1 [OF False] False
      by (subst dec.simps) (simp add: digit_value)
  qed
qed


text \<open>One turn of the loop on the digits of a number.\<close>

lemma arc_turn:
  fixes pre post :: "byte list"
  assumes "c = 46 \<or> c = 0" and "v < 2 ^ 32"
  defines "m \<equiv> pre @ dec v @ c # post"
  shows "\<exists>Index. scan_arc m (length pre) 0 n
      = Inr (length pre + length (dec v), Index, n - of_nat (length (dec v)))
    \<and> arc_value m (length pre + length (dec v)) (unat Index) 0 = of_nat v"
proof -
  have "length (dec v) \<le> Suc 9" using assms(2) by (intro dec_length) simp
  then have "unat (of_nat (length (dec v)) :: UINT16) = length (dec v)"
    by (simp add: unsigned_of_nat take_bit_eq_mod)
  moreover have "scan_arc m (length pre) 0 n = Inr (length pre + length (dec v),
      0 + of_nat (length (dec v)), n - of_nat (length (dec v)))"
    unfolding m_def using dec_char assms(1) by (intro scan_arc_dec) blast+
  ultimately show ?thesis
    using arc_value_append [of pre "dec v" "c # post" 0] by (simp add: m_def foldl_dec)
qed

lemma length_arc_code: "length (arc_code v) \<in> {1, 2}"
  by (simp add: arc_code_def)

lemma unat_eqI: "unat x = unat y \<Longrightarrow> x = y"
  by (simp add: word_unat_eq_iff)

lemma two_bytes:
  assumes "v < 2 ^ 32"
  defines "D \<equiv> of_nat v :: UINT32"
  shows "D < 128 \<longleftrightarrow> v < 128" and "(ucast D :: byte) = of_nat v"
    and "(ucast (D AND 0xFF) :: byte) = of_nat (v mod 256)"
    and "(ucast (drop_bit 8 (push_bit 1 (D AND 0xFF00) OR 0x8000) AND 0xFF) :: byte)
      = of_nat (128 + (v div 256) mod 64 * 2)"
proof -
  have u: "unat D = v" using assms(1) by (simp add: D_def unsigned_of_nat take_bit_eq_mod)
  show "D < 128 \<longleftrightarrow> v < 128" by (simp add: word_less_nat_alt u)
  show 1: "(ucast D :: byte) = of_nat v"
    by (rule unat_eqI)
      (simp add: unsigned_ucast_eq u unsigned_of_nat take_bit_eq_mod)
  have "(ucast (D AND 0xFF) :: byte) = ucast D"
    by (rule bit_word_eqI) (auto simp: bit_simps numeral_eq_Suc less_Suc_eq)
  also have "\<dots> = of_nat (v mod 256)"
    unfolding 1 by (rule unat_eqI) (simp add: unsigned_of_nat take_bit_eq_mod)
  finally show "(ucast (D AND 0xFF) :: byte) = of_nat (v mod 256)" .
  show "(ucast (drop_bit 8 (push_bit 1 (D AND 0xFF00) OR 0x8000) AND 0xFF) :: byte)
      = of_nat (128 + (v div 256) mod 64 * 2)"
  proof -
    define w :: byte where "w = ucast (drop_bit 8 D)"
    have w: "w = of_nat (v div 256)"
      by (rule unat_eqI)
        (simp add: w_def unsigned_ucast_eq unat_div drop_bit_eq_div u unsigned_of_nat take_bit_eq_mod)
    have "(ucast (drop_bit 8 (push_bit 1 (D AND 0xFF00) OR 0x8000) AND 0xFF) :: byte)
      = 128 OR push_bit 1 (w AND 63)"
      by (rule bit_word_eqI) (auto simp del: push_bit_Suc simp: w_def bit_simps numeral_eq_Suc less_Suc_eq)
    also have "\<dots> = 128 + push_bit 1 (w AND 63)"
      by (rule disjunctive_add_eq_or [symmetric]) (rule bit_word_eqI, auto simp del: push_bit_Suc simp: bit_simps numeral_eq_Suc less_Suc_eq)
    also have "w AND 63 = w AND mask 6" by (simp add: mask_eq_exp_minus_1)
    also have "\<dots> = of_nat (v div 256 mod 64)"
      by (rule unat_eqI)
        (simp add: w unat_mod unsigned_of_nat take_bit_eq_mod mod_mod_cancel flip: take_bit_eq_mask)
    finally show ?thesis by (simp add: push_bit_eq_mult)
  qed
qed


lemma put_arc_code:
  assumes "v < 2 ^ 32" and "unat i + length (arc_code v) \<le> length C"
    and "length C < 256"
  shows "put_arc (of_nat v) C i = Inr (copy_at (unat i) (arc_code v) C, i + of_nat (length (arc_code v)))"
proof -
  note tb = two_bytes [OF assms(1)]
  show ?thesis
  proof (cases "v < 128")
    case True
    then have "unat i < length C" using assms(2) by (simp add: arc_code_def)
    then show ?thesis using True
      by (simp add: put_arc_def tb arc_code_def write_oid_def copy_at_def upd_conv_take_nth_drop)
  next
    case False
    then have i: "Suc (unat i) < length C" using assms(2) by (simp add: arc_code_def)
    then have "C[Suc (unat i) := y, unat i := x] = copy_at (unat i) [x, y] C" for x y
      by (intro nth_equalityI) (auto simp: nth_copy_at nth_list_update nth_Cons')
    then show ?thesis using False i unfolding put_arc_def tb
      by (simp add: arc_code_def write_oid_def)
  qed
qed


section \<open>The whole text\<close>

definition arcs_text :: "nat list \<Rightarrow> byte list" where
  "arcs_text vs = concat (map (\<lambda>v. 46 # dec v) vs)"

definition arcs_code :: "nat list \<Rightarrow> byte list" where
  "arcs_code vs = concat (map arc_code vs)"

lemma arcs_simps [simp]:
  "arcs_text [] = []" "arcs_text (v # vs) = 46 # dec v @ arcs_text vs"
  "arcs_code [] = []" "arcs_code (v # vs) = arc_code v @ arcs_code vs"
  by (simp_all add: arcs_text_def arcs_code_def)

text \<open>A turn of the outer loop: the digits of the first number are read.\<close>

lemma oid_turn:
  fixes pre :: "byte list"
  assumes v: "v < 2 ^ 32" and len: "length (arcs_text (v # vs)) < 2 ^ 64"
  defines "m \<equiv> pre @ arcs_text (v # vs) @ [0]"
  shows "of_nat (length (arcs_text (v # vs))) - 1 \<noteq> (0 :: UINT64)"
    and "\<exists>Index. scan_arc m (length pre + 1) 0 (of_nat (length (arcs_text (v # vs))) - 1)
        = Inr (length pre + 1 + length (dec v), Index, of_nat (length (arcs_text vs)))
      \<and> arc_value m (length pre + 1 + length (dec v)) (unat Index) 0 = of_nat v"
    and "vs \<noteq> [] \<Longrightarrow> of_nat (length (arcs_text vs)) \<noteq> (0 :: UINT64)"
proof -
  obtain c rest where c: "arcs_text vs @ [0] = c # rest" "c = 46 \<or> c = 0"
    by (cases vs) auto
  have m: "m = (pre @ [46]) @ dec v @ c # rest" using c(1) by (simp add: m_def)
  have dec: "0 < length (dec v)" by (subst dec.simps) simp
  let ?k = "length (arcs_text vs)"
  have k: "of_nat (length (arcs_text (v # vs))) - 1 = (of_nat (length (dec v) + ?k) :: UINT64)"
    by simp
  show "of_nat (length (arcs_text (v # vs))) - 1 \<noteq> (0 :: UINT64)"
    unfolding k word_of_nat_eq_0_iff using dec len by (auto dest!: dvd_imp_le)
  show "\<exists>Index. scan_arc m (length pre + 1) 0 (of_nat (length (arcs_text (v # vs))) - 1)
        = Inr (length pre + 1 + length (dec v), Index, of_nat (length (arcs_text vs)))
      \<and> arc_value m (length pre + 1 + length (dec v)) (unat Index) 0 = of_nat v"
    unfolding k using arc_turn [OF c(2) v, of "pre @ [46]" rest "of_nat (length (dec v) + ?k)"]
    unfolding m by (auto simp: add.assoc)
  show "vs \<noteq> [] \<Longrightarrow> of_nat (length (arcs_text vs)) \<noteq> (0 :: UINT64)"
    unfolding word_of_nat_eq_0_iff using len by (cases vs) (auto dest!: dvd_imp_le)
qed

lemma put_arc_index:
  fixes i :: byte
  assumes "unat i + length (arc_code v) \<le> n" and "n < 256"
  shows "unat (i + of_nat (length (arc_code v))) = unat i + length (arc_code v)"
  using assms by (simp add: unat_word_ariths unsigned_of_nat take_bit_eq_mod mod_simps)

lemma oid_loop_text:
  assumes "\<forall>v \<in> set vs. v < 2 ^ 32" and "vs \<noteq> []"
    and "unat i + length (arcs_code vs) \<le> length C" and "length C < 256"
    and "length (arcs_text vs) < 2 ^ 64"
  shows "oid_loop (pre @ arcs_text vs @ [0]) (length pre + 1) (of_nat (length (arcs_text vs)) - 1) C i
    = Inr (copy_at (unat i) (arcs_code vs) C, i + of_nat (length (arcs_code vs)))"
  using assms
proof (induction vs arbitrary: pre i C)
  case Nil
  then show ?case by simp
next
  case (Cons v vs)
  have v: "v < 2 ^ 32" using Cons.prems(1) by simp
  note turn = oid_turn(1,3) [OF v Cons.prems(5)] oid_turn(2) [OF v Cons.prems(5), of pre]
  let ?C = "copy_at (unat i) (arc_code v) C" and ?i = "i + of_nat (length (arc_code v))"
  have len: "unat i + length (arc_code v) \<le> length C" using Cons.prems(3) by simp
  have put: "put_arc (of_nat v) C i = Inr (?C, ?i)"
    using put_arc_code [OF v len] Cons.prems(4) by simp
  have i: "unat ?i = unat i + length (arc_code v)" using put_arc_index len Cons.prems(4) by simp
  show ?case
  proof (cases "vs = []")
    case True
    then show ?thesis using turn put by (subst oid_loop.simps) auto
  next
    case False
    have "oid_loop ((pre @ 46 # dec v) @ arcs_text vs @ [0]) (length (pre @ 46 # dec v) + 1)
        (of_nat (length (arcs_text vs)) - 1) ?C ?i
      = Inr (copy_at (unat ?i) (arcs_code vs) ?C, ?i + of_nat (length (arcs_code vs)))"
      using Cons.prems False i by (intro Cons.IH) (auto simp: len)
    moreover have "copy_at (unat ?i) (arcs_code vs) ?C = copy_at (unat i) (arcs_code (v # vs)) C"
      using Cons.prems(3) unfolding i by (simp add: copy_at_append add.assoc)
    ultimately show ?thesis using turn put False
      by (subst oid_loop.simps) (auto simp: add.assoc)
  qed
qed

lemma put_arc_overflow:
  assumes "v < 2 ^ 32" and "length C < unat i + length (arc_code v)"
  shows "put_arc (of_nat v) C i = Inl OobWrite"
proof -
  note tb = two_bytes [OF assms(1)]
  show ?thesis using assms(2) unfolding put_arc_def tb
    by (auto simp: arc_code_def write_oid_def split: if_splits)
qed

lemma oid_loop_overflow:
  assumes "\<forall>v \<in> set vs. v < 2 ^ 32" and "vs \<noteq> []"
    and "unat i \<le> length C" and "length C < unat i + length (arcs_code vs)" and "length C < 256"
    and "length (arcs_text vs) < 2 ^ 64"
  shows "oid_loop (pre @ arcs_text vs @ [0]) (length pre + 1) (of_nat (length (arcs_text vs)) - 1) C i
    = Inl OobWrite"
  using assms
proof (induction vs arbitrary: pre i C)
  case Nil
  then show ?case by simp
next
  case (Cons v vs)
  have v: "v < 2 ^ 32" using Cons.prems(1) by simp
  note turn = oid_turn(1,3) [OF v Cons.prems(6)] oid_turn(2) [OF v Cons.prems(6), of pre]
  show ?case
  proof (cases "length C < unat i + length (arc_code v)")
    case True
    then show ?thesis using turn put_arc_overflow [OF v True] by (subst oid_loop.simps) auto
  next
    case False
    then have len: "unat i + length (arc_code v) \<le> length C" by simp
    let ?C = "copy_at (unat i) (arc_code v) C" and ?i = "i + of_nat (length (arc_code v))"
    have i: "unat ?i = unat i + length (arc_code v)" using put_arc_index len Cons.prems(5) by simp
    have put: "put_arc (of_nat v) C i = Inr (?C, ?i)" using put_arc_code [OF v len] Cons.prems(5) by simp
    have ne: "vs \<noteq> []" using False Cons.prems(4) by auto
    have "oid_loop ((pre @ 46 # dec v) @ arcs_text vs @ [0]) (length (pre @ 46 # dec v) + 1)
        (of_nat (length (arcs_text vs)) - 1) ?C ?i = Inl OobWrite"
      using Cons.prems ne i by (intro Cons.IH) (auto simp: len)
    then show ?thesis using turn put ne by (subst oid_loop.simps) auto
  qed
qed


lemma GetOidFromTxt_text:
  assumes "a \<le> 2" and "b < 10" and "\<forall>v \<in> set vs. v < 2 ^ 32" and "vs \<noteq> []"
    and "C \<noteq> []" and "length C < 256" and "length (arcs_text vs) < 2 ^ 64"
  shows "GetOidFromTxt (oid_text a b vs) C
    = (if 1 + length (arcs_code vs) \<le> length C
       then Inr (copy_at 0 (of_nat (40 * a + b) # arcs_code vs) C, of_nat (1 + length (arcs_code vs)))
       else Inl OobWrite)"
proof -
  let ?x = "of_nat (40 * a + b) :: byte"
  define pre :: "byte list" where "pre = [48 + of_nat a, 46, 48 + of_nat b]"
  obtain v vs' where vs: "vs = v # vs'" using assms(4) by (cases vs) auto
  have m: "oid_text a b vs @ [0] = pre @ arcs_text vs @ [0]"
    by (simp add: oid_text_def pre_def arcs_text_def)
  have lt: "length (oid_text a b vs) = 3 + length (arcs_text vs)"
    by (simp add: oid_text_def arcs_text_def)
  have x: "((pre @ arcs_text vs @ [0]) ! 0 - 48) * 40 + ((pre @ arcs_text vs @ [0]) ! 2 - 48) = ?x"
    by (simp add: pre_def algebra_simps)
  have pre4: "length pre + 1 = 4" by (simp add: pre_def)
  let ?C = "C[0 := ?x]"
  have C: "?C = copy_at 0 [?x] C" using assms(5) by (cases C) (simp_all add: copy_at_def)
  have go: "GetOidFromTxt (oid_text a b vs) C
      = oid_loop (pre @ arcs_text vs @ [0]) (length pre + 1) (of_nat (length (arcs_text vs)) - 1) ?C 1"
    using assms(5) unfolding GetOidFromTxt_def Let_def m lt x
    by (simp only: pre4) (simp add: write_oid_def pre_def vs)
  show ?thesis
  proof (cases "1 + length (arcs_code vs) \<le> length C")
    case True
    have "oid_loop (pre @ arcs_text vs @ [0]) (length pre + 1) (of_nat (length (arcs_text vs)) - 1) ?C 1
      = Inr (copy_at (unat (1 :: byte)) (arcs_code vs) ?C, 1 + of_nat (length (arcs_code vs)))"
      using assms True by (intro oid_loop_text) auto
    then show ?thesis using True copy_at_append [of 0 "[?x]" "arcs_code vs" C]
      unfolding go C by simp
  next
    case False
    have "oid_loop (pre @ arcs_text vs @ [0]) (length pre + 1) (of_nat (length (arcs_text vs)) - 1) ?C 1
      = Inl OobWrite"
      using assms False by (intro oid_loop_overflow) (auto simp: Suc_le_eq)
    then show ?thesis using False unfolding go by simp
  qed
qed

section \<open>Against DER\<close>

lemma base128_step:
  "base128 0 = []" "0 < n \<Longrightarrow> base128 n = base128 (n div 128) @ [0x80 + of_nat (n mod 128)]"
  by (subst base128.simps, simp)+

lemma der_arc_short: "v < 128 \<Longrightarrow> der_arc v = [of_nat v]"
  by (simp add: der_arc_def base128_step)

lemma der_arc_two:
  "128 \<le> v \<Longrightarrow> v < 16384 \<Longrightarrow> der_arc v = [0x80 + of_nat (v div 128), of_nat (v mod 128)]"
proof -
  assume v: "128 \<le> v" "v < 16384"
  then have "v div 128 < 128" "0 < v div 128" by (auto simp: less_mult_imp_div_less)
  then show ?thesis by (simp add: der_arc_def base128_step)
qed

lemma der_arc_long: "16384 \<le> v \<Longrightarrow> 2 < length (der_arc v)"
proof -
  assume v: "16384 \<le> v"
  define w where "w = v div 128"
  have w: "0 < w" "0 < w div 128" using v by (simp_all add: w_def div_greater_zero_iff div_mult2_eq [symmetric])
  show ?thesis unfolding der_arc_def w_def [symmetric] base128_step(2) [OF w(1)] base128_step(2) [OF w(2)]
    by simp
qed

lemma length_arc_code_le: "length (arc_code v) \<le> length (der_arc v)"
  using der_arc_long [of v] der_arc_two [of v] der_arc_short [of v]
  by (cases "v < 128"; cases "v < 16384") (auto simp: arc_code_def)

definition coded_ok :: "nat \<Rightarrow> bool" where
  "coded_ok v \<longleftrightarrow> v < 128 \<or> v < 16384 \<and> even (v div 128)"

lemma byte_of_nat_eq: "x < 256 \<Longrightarrow> y < 256 \<Longrightarrow> (of_nat x :: byte) = of_nat y \<longleftrightarrow> x = y"
  by (auto simp: word_unat_eq_iff unsigned_of_nat take_bit_eq_mod)

lemma arc_code_der: "arc_code v = der_arc v \<longleftrightarrow> coded_ok v"
proof -
  consider "v < 128" | "128 \<le> v" "v < 16384" | "16384 \<le> v" by linarith
  then show ?thesis
  proof cases
    case 1
    then show ?thesis by (simp add: arc_code_def der_arc_short coded_ok_def)
  next
    case 2
    have q: "v div 128 < 128" using 2 by (simp add: less_mult_imp_div_less)
    have h: "128 + v div 256 mod 64 * 2 < 256" "128 + v div 128 < 256" using q by simp_all
    have "arc_code v = der_arc v \<longleftrightarrow>
        (of_nat (128 + v div 256 mod 64 * 2) :: byte) = of_nat (128 + v div 128)
        \<and> (of_nat (v mod 256) :: byte) = of_nat (v mod 128)"
      using 2 by (simp add: arc_code_def der_arc_two)
    also have "\<dots> \<longleftrightarrow> v div 256 mod 64 * 2 = v div 128 \<and> v mod 256 = v mod 128"
      using h by (subst (1 2) byte_of_nat_eq) (auto intro: less_trans [OF mod_less_divisor])
    also have "v div 256 = v div 128 div 2" by (simp flip: div_mult2_eq)
    also have "v mod 256 = 128 * (v div 128 mod 2) + v mod 128" using mod_mult2_eq [of v 128 2] by simp
    also have "v div 128 div 2 mod 64 = v div 128 div 2" using q by simp
    also have "v div 128 div 2 * 2 = v div 128 \<and> 128 * (v div 128 mod 2) + v mod 128 = v mod 128
        \<longleftrightarrow> even (v div 128)" by (auto simp: even_iff_mod_2_eq_zero)
    finally show ?thesis using 2 by (simp add: coded_ok_def)
  next
    case 3
    then show ?thesis using der_arc_long [of v] length_arc_code [of v]
      by (auto simp: coded_ok_def)
  qed
qed

lemma arcs_code_der:
  "arcs_code vs = concat (map der_arc vs) \<longleftrightarrow> (\<forall>v \<in> set vs. coded_ok v)"
proof (induction vs)
  case Nil
  then show ?case by simp
next
  case (Cons v vs)
  have le: "length (arcs_code us) \<le> length (concat (map der_arc us))" for us
    using length_arc_code_le by (induction us) (auto intro: add_mono)
  have "arc_code v @ arcs_code vs = der_arc v @ concat (map der_arc vs)
      \<longleftrightarrow> arc_code v = der_arc v \<and> arcs_code vs = concat (map der_arc vs)"
  proof
    assume eq: "arc_code v @ arcs_code vs = der_arc v @ concat (map der_arc vs)"
    then have "length (arc_code v) + length (arcs_code vs)
        = length (der_arc v) + length (concat (map der_arc vs))"
      by (metis length_append)
    then have "length (arc_code v) = length (der_arc v)"
      using length_arc_code_le [of v] le [of vs] by linarith
    then show "arc_code v = der_arc v \<and> arcs_code vs = concat (map der_arc vs)" using eq by simp
  qed auto
  then show ?case by (simp add: arc_code_der Cons.IH)
qed

end
