(* ===== verification/EkuDemo.thy ===== *)
theory EkuDemo
  imports Eku Pkcs7Demo
begin

text \<open>
  A concrete library and signatures for the extended key usages: a certificate is a sequence of
  the sequence of its extensions.
\<close>

definition eku_crt :: "byte list \<Rightarrow> int \<times> byte x509_crt" where
  "eku_crt x =
    (if length x < 2 \<or> hd x \<noteq> ASN1_SEQUENCE \<or> length x \<noteq> 2 + unat (x ! 1) then (- 1, blank_crt)
     else (0, blank_crt\<lparr>crt_raw := x, crt_v3_ext := (2, int (length x) - 2)\<rparr>))"

definition eku_demo :: "byte mbedtls" where
  "eku_demo = demo\<lparr>mbedtls_x509_crt_parse_der := eku_crt\<rparr>"

definition eku_ext :: "byte list \<Rightarrow> byte list \<Rightarrow> byte list" where
  "eku_ext oid x = der ASN1_SEQUENCE (der MBEDTLS_ASN1_OID oid @ der MBEDTLS_ASN1_OCTET_STRING x)"

definition eku_cert :: "byte list \<Rightarrow> byte list" where
  "eku_cert exts = der ASN1_SEQUENCE (der ASN1_SEQUENCE exts)"

definition eku_msg :: "byte list \<Rightarrow> byte list" where
  "eku_msg certs = der ASN1_SEQUENCE (der MBEDTLS_ASN1_INTEGER [1] @ der ASN1_SET []
     @ der ASN1_SEQUENCE [] @ der ASN1_CONTEXT certs)"

definition demo_usage :: "byte list" where
  "demo_usage = der ASN1_SEQUENCE (der MBEDTLS_ASN1_OID [43, 6, 1, 4])"

text \<open>A certificate with the usage 1.3.6.1.4, and one of an authority.\<close>

definition leaf_cert :: "byte list" where
  "leaf_cert = eku_cert (eku_ext EkuOID demo_usage)"

definition ca_cert :: "byte list" where
  "ca_cert = eku_cert (eku_ext gOidBasicConstraints [0x30, 3, 1, 1, 0xFF])"

definition leaf_crt :: "byte x509_crt" where
  "leaf_crt = blank_crt\<lparr>crt_raw := leaf_cert, crt_v3_ext := (2, int (length leaf_cert) - 2)\<rparr>"

lemma eku_demo_simps [simp]:
  "mbedtls_asn1_get_tag eku_demo = demo_tag" "mbedtls_x509_crt_parse_der eku_demo = eku_crt"
  by (simp_all add: eku_demo_def demo_def)

lemma eku_demo_asn1_ok: "asn1_ok eku_demo"
  using demo_asn1_ok by (simp add: asn1_ok_def eku_demo_def)

lemma eku_crt_leaf: "eku_crt leaf_cert = (0, leaf_crt)"
  by code_simp

lemma leaf_usage:
  "fst (crt_v3_ext leaf_crt) = 2" "snd (crt_v3_ext leaf_crt) = 19" "crt_raw leaf_crt = leaf_cert"
  "demo_tag leaf_cert 2 21 0 ASN1_SEQUENCE = (0, 4, 17)"
  "InternalX509FindExtensionData eku_demo leaf_cert 4 21 17 EkuOID = Some (Inr (Some (13, 8)))"
  "bytes leaf_cert 13 8 = Inr demo_usage"
  by code_simp+

lemma ca_constraints:
  "eku_crt ca_cert = (0, blank_crt\<lparr>crt_raw := ca_cert, crt_v3_ext := (2, 16)\<rparr>)"
  "GetExtensionData eku_demo (blank_crt\<lparr>crt_raw := ca_cert, crt_v3_ext := (2, 16)\<rparr>)
     gOidBasicConstraints False 0 = Some (Inr (False, 5, []))"
  "GetExtensionData eku_demo (blank_crt\<lparr>crt_raw := ca_cert, crt_v3_ext := (2, 16)\<rparr>)
     gOidBasicConstraints True 5 = Some (Inr (True, 5, [0x30, 3, 1, 1, 0xFF]))"
  by code_simp+

text \<open>Signatures with one certificate, and with three of which the one in the middle is an authority's.\<close>

definition msg_one :: "byte list" where "msg_one = eku_msg ca_cert"
definition msg_three :: "byte list" where "msg_three = eku_msg (ca_cert @ ca_cert @ leaf_cert)"

lemma msg_one_head:
  "int32 (length msg_one) = 29" "eku_head eku_demo msg_one 29 = Some (29, 29, 16, 9)"
  by code_simp+

lemma msg_three_head:
  "int32 (length msg_three) = 68" "eku_head eku_demo msg_three 68 = Some (29, 68, 16, 9)"
  "bytes msg_three 47 21 = Inr leaf_cert" "bytes msg_three 29 18 = Inr ca_cert"
  by code_simp+

lemma msg_three_certs:
  "demo_tag msg_three 29 68 n ASN1_SEQUENCE = (0, 31, 16)"
  "demo_tag msg_three 47 68 n ASN1_SEQUENCE = (0, 49, 19)"
proof -
  have "msg_three ! 29 = ASN1_SEQUENCE" "msg_three ! 30 = 16" "msg_three ! 47 = ASN1_SEQUENCE"
    "msg_three ! 48 = 19" "length msg_three = 68"
    by code_simp+
  then show "demo_tag msg_three 29 68 n ASN1_SEQUENCE = (0, 31, 16)"
    "demo_tag msg_three 47 68 n ASN1_SEQUENCE = (0, 49, 19)"
    by (simp_all add: demo_tag_def)
qed

end
