(* ===== verification/EkuProps.thy ===== *)
theory EkuProps
  imports EkuOid EkuDemo
begin

text \<open>
  The properties of \<^verbatim>\<open>VerifyEKUsInPkcs7Signature\<close> and of its parts: the encoding of the identifiers,
  the search for them, the certificate that is looked at, the results, and that it ends.
\<close>

section \<open>The encoding of an identifier\<close>

text \<open>For the text of an identifier whose first two numbers have one digit, \<^verbatim>\<open>GetOidFromTxt\<close> writes
  one or two bytes for each number, and overflows the buffer of 20 bytes when they do not fit. What
  it writes is the DER encoding exactly when each further number is below 128, or below 16384 with
  bit 7 clear.
\<close>

theorem oid_text_encoding:
  assumes "a \<le> 2" and "b < 10" and "\<forall>v \<in> set vs. v < 2 ^ 32" and "vs \<noteq> []"
    and "length C = 20" and "length (oid_text a b vs) < 2 ^ 64"
  shows "GetOidFromTxt (oid_text a b vs) C
      = (if 1 + length (arcs_code vs) \<le> 20
         then Inr (copy_at 0 (of_nat (40 * a + b) # arcs_code vs) C, of_nat (1 + length (arcs_code vs)))
         else Inl OobWrite)
    \<and> (arcs_code vs = concat (map der_arc vs) \<longleftrightarrow> (\<forall>v \<in> set vs. v < 128 \<or> v < 16384 \<and> even (v div 128)))"
proof -
  have "length (arcs_text vs) < 2 ^ 64" using assms(6) by (simp add: oid_text_def arcs_text_def)
  moreover have "C \<noteq> []" using assms(5) by auto
  ultimately show ?thesis
    using GetOidFromTxt_text [OF assms(1-4), of C] assms(5) by (simp add: arcs_code_der coded_ok_def)
qed

theorem oid_text_encoding_witness:
  "GetOidFromTxt (oid_text 1 3 [6, 1, 4, 1, 311]) (replicate 20 0)
    = Inr (copy_at 0 [43, 6, 1, 4, 1, 0x82, 0x37] (replicate 20 0), 7)
   \<and> GetOidFromTxt (oid_text 1 3 [128]) (replicate 20 0) = Inr (copy_at 0 [43, 0x80, 0x80] (replicate 20 0), 3)
   \<and> der_arc 128 = [0x81, 0]"
proof -
  have "length (dec 311) = 3" "length (dec 128) = 3" "length (dec 6) = 1" "length (dec 1) = 1" "length (dec 4) = 1"
    by (simp_all add: dec.simps)
  then have len: "length (oid_text 1 3 [6, 1, 4, 1, 311]) < 2 ^ 64" "length (oid_text 1 3 [128]) < 2 ^ 64"
    by (simp_all add: oid_text_def)
  show ?thesis
    using oid_text_encoding [of 1 3 "[6, 1, 4, 1, 311]" "replicate 20 0"]
      oid_text_encoding [of 1 3 "[128]" "replicate 20 0"] len
    by (simp add: arcs_code_def arc_code_def der_arc_two)
qed

section \<open>The search in the extension\<close>

text \<open>The first place at which the identifier occurs is at the end or in front of a byte 6.\<close>

definition first_at :: "byte list \<Rightarrow> byte list \<Rightarrow> nat \<Rightarrow> bool" where
  "first_at x e i \<longleftrightarrow> i + length e \<le> length x \<and> seg i (length e) x = e
    \<and> (\<forall>j < i. seg j (length e) x \<noteq> e)"

definition eku_present :: "byte list \<Rightarrow> byte list \<Rightarrow> bool" where
  "eku_present x e \<longleftrightarrow>
    (\<exists>i \<le> length x. first_at x e i \<and> (i + length e = length x \<or> x ! (i + length e) = 0x06))"

lemma eku_search_exact:
  assumes "\<forall>j < k. seg j (length e) x \<noteq> e"
  shows "eku_search x e k \<longleftrightarrow> (\<exists>i \<ge> k. first_at x e i
    \<and> (i + length e = length x \<or> x ! (i + length e) = 0x06))"
  using assms
proof (induction x e k rule: eku_search.induct)
  case (1 x e k)
  show ?case
  proof (cases "length x < k + length e")
    case True
    then show ?thesis by (subst eku_search.simps) (auto simp: first_at_def)
  next
    case False
    show ?thesis
    proof (cases "seg k (length e) x = e")
      case True
      then have "first_at x e i \<longleftrightarrow> i = k" if "k \<le> i" for i
        using that False 1(2) by (auto simp: first_at_def le_less)
      then show ?thesis using True False by (subst eku_search.simps) auto
    next
      case ne: False
      have "\<forall>j < Suc k. seg j (length e) x \<noteq> e" using 1(2) ne by (auto simp: less_Suc_eq)
      note 1(1) [OF False ne this]
      moreover have "\<not> first_at x e k" using ne by (simp add: first_at_def)
      then have "(\<exists>i \<ge> k. first_at x e i \<and> Q i) \<longleftrightarrow> (\<exists>i \<ge> Suc k. first_at x e i \<and> Q i)" for Q
        by (metis Suc_leD le_antisym not_less_eq_eq)
      ultimately show ?thesis using False ne by (subst eku_search.simps) simp
    qed
  qed
qed

lemma eku_search_present: "eku_search x e 0 \<longleftrightarrow> eku_present x e"
proof -
  have "first_at x e i \<Longrightarrow> i \<le> length x" for i by (simp add: first_at_def)
  then show ?thesis by (auto simp: eku_search_exact eku_present_def)
qed

section \<open>Extensions\<close>

definition extension_is :: "'pk mbedtls \<Rightarrow> 'pk x509_crt \<Rightarrow> byte list \<Rightarrow> byte list \<Rightarrow> bool" where
  "extension_is L Cert Oid x \<longleftrightarrow> (\<exists>End p n q.
     End = fst (crt_v3_ext Cert) + snd (crt_v3_ext Cert)
   \<and> mbedtls_asn1_get_tag L (crt_raw Cert) (fst (crt_v3_ext Cert)) End 0 ASN1_SEQUENCE = (0, p, n)
   \<and> InternalX509FindExtensionData L (crt_raw Cert) p End n Oid = Some (Inr (Some (q, int (length x))))
   \<and> bytes (crt_raw Cert) q (int (length x)) = Inr x)"

lemma GetExtensionData_is:
  assumes "extension_is L Cert Oid x" and "x \<noteq> []"
  shows "GetExtensionData L Cert Oid False 0 = Some (Inr (False, int (length x), []))"
    and "GetExtensionData L Cert Oid True (int (length x)) = Some (Inr (True, int (length x), x))"
  using assms by (auto simp: extension_is_def GetExtensionData_def)

definition alloc_all :: "pool \<Rightarrow> bool" where
  "alloc_all p \<longleftrightarrow> (\<forall>k n. pool_ok p k n)"

lemma alloc_free:
  assumes "alloc_all p" and "pool_inv p"
  shows "\<exists>b p1 p2. AllocatePool p n = (Some b, p1) \<and> FreePool p1 (Some b) = Inr p2
    \<and> alloc_all p2 \<and> pool_inv p2 \<and> pool_live p2 = pool_live p"
  using assms by (auto simp: alloc_all_def AllocatePool_def FreePool_def pool_inv_def)

lemma IsEkuInCertificate_is:
  assumes "extension_is L Cert EkuOID x" and "x \<noteq> []" and "length e \<le> length x"
    and "alloc_all p" and "pool_inv p"
  shows "\<exists>p'. IsEkuInCertificate L Cert e p
      = Some (Inr (if eku_present x e then EFI_SUCCESS else EFI_NOT_FOUND, p'))
    \<and> alloc_all p' \<and> pool_inv p' \<and> pool_live p' = pool_live p"
proof -
  obtain b p1 p2 where "AllocatePool p (length x) = (Some b, p1)" "FreePool p1 (Some b) = Inr p2"
    and "alloc_all p2" "pool_inv p2" "pool_live p2 = pool_live p"
    using alloc_free [OF assms(4,5)] by metis
  then show ?thesis using assms(2,3) GetExtensionData_is [OF assms(1,2)]
    by (simp add: IsEkuInCertificate_def eku_search_present)
qed

section \<open>The required identifiers\<close>

text \<open>The identifier \<open>y\<close> is what \<open>GetOidFromTxt\<close> makes of the text in any buffer of 20 bytes.\<close>

definition text_oid :: "byte list \<Rightarrow> byte list \<Rightarrow> bool" where
  "text_oid t y \<longleftrightarrow> length y \<le> 20 \<and> (\<forall>C. length C = 20 \<longrightarrow>
     (\<exists>C'. GetOidFromTxt t C = Inr (C', of_nat (length y)) \<and> length C' = 20 \<and> take (length y) C' = y))"

lemma text_oid_text:
  assumes "a \<le> 2" and "b < 10" and "\<forall>v \<in> set vs. v < 2 ^ 32" and "vs \<noteq> []"
    and "length (arcs_text vs) < 2 ^ 64" and "1 + length (arcs_code vs) \<le> 20"
  shows "text_oid (oid_text a b vs) (of_nat (40 * a + b) # arcs_code vs)"
  unfolding text_oid_def
proof (intro conjI allI impI)
  show "length (of_nat (40 * a + b) # arcs_code vs :: byte list) \<le> 20" using assms(6) by simp
  fix C :: "byte list"
  assume C: "length C = 20"
  then have "C \<noteq> []" by auto
  with C show "\<exists>C'. GetOidFromTxt (oid_text a b vs) C
      = Inr (C', of_nat (length (of_nat (40 * a + b) # arcs_code vs :: byte list))) \<and> length C' = 20
    \<and> take (length (of_nat (40 * a + b) # arcs_code vs :: byte list)) C' = of_nat (40 * a + b) # arcs_code vs"
    using GetOidFromTxt_text [OF assms(1-4), of C] assms(5,6)
    by (simp add: copy_at_def)
qed

lemma eku_loop_step:
  assumes "text_oid t y" and "length y \<le> length x" and "length C = 20"
    and "extension_is L Cert EkuOID x" and "x \<noteq> []" and "alloc_all p" and "pool_inv p"
  shows "\<exists>C' p'. length C' = 20 \<and> alloc_all p' \<and> pool_inv p' \<and> pool_live p' = pool_live p \<and>
    eku_loop L Cert req (t # ts) S n C p =
      (if eku_present x y then
         if \<not> req then Some (Inr (EFI_SUCCESS, n + 1, p'))
         else eku_loop L Cert req ts EFI_SUCCESS (n + 1) C' p'
       else Some (Inr (EFI_NOT_FOUND, n, p')))"
proof -
  obtain C' where C': "GetOidFromTxt t C = Inr (C', of_nat (length y))" "length C' = 20"
      "take (length y) C' = y" and y: "length y \<le> 20"
    using assms(1,3) unfolding text_oid_def by blast
  have "unat (of_nat (length y) :: byte) = length y"
    using y by (simp add: unsigned_of_nat take_bit_eq_mod)
  moreover obtain p' where "IsEkuInCertificate L Cert y p
      = Some (Inr (if eku_present x y then EFI_SUCCESS else EFI_NOT_FOUND, p'))"
    "alloc_all p'" "pool_inv p'" "pool_live p' = pool_live p"
    using IsEkuInCertificate_is [OF assms(4,5,2,6,7)] by blast
  ultimately show ?thesis using C'
    by (intro exI [of _ C'] exI [of _ p']) (simp add: status_defs)
qed

lemma eku_loop_all:
  assumes "\<forall>t \<in> set ts. text_oid t (oid t) \<and> length (oid t) \<le> length x" and "length C = 20"
    and "extension_is L Cert EkuOID x" and "x \<noteq> []" and "alloc_all p" and "pool_inv p"
  shows "\<exists>k p'. eku_loop L Cert True ts EFI_SUCCESS n C p = Some (Inr
      (if \<forall>t \<in> set ts. eku_present x (oid t) then EFI_SUCCESS else EFI_NOT_FOUND, n + k, p'))
    \<and> pool_live p' = pool_live p \<and> (k = length ts \<longleftrightarrow> (\<forall>t \<in> set ts. eku_present x (oid t)))"
  using assms(1,2,5,6)
proof (induction ts arbitrary: n C p)
  case Nil
  then show ?case by auto
next
  case (Cons t ts)
  then have t: "text_oid t (oid t)" "length (oid t) \<le> length x" by simp_all
  obtain C' p' where *: "length C' = 20" "alloc_all p'" "pool_inv p'" "pool_live p' = pool_live p"
    "eku_loop L Cert True (t # ts) EFI_SUCCESS n C p = (if eku_present x (oid t) then
       eku_loop L Cert True ts EFI_SUCCESS (n + 1) C' p'
       else Some (Inr (EFI_NOT_FOUND, n, p')))"
    using eku_loop_step [OF t Cons.prems(2) assms(3,4) Cons.prems(3,4), where req = True and n = n and ts = ts and S = EFI_SUCCESS]
    by (auto simp del: eku_loop.simps)
  show ?case
  proof (cases "eku_present x (oid t)")
    case True
    obtain k p'' where "eku_loop L Cert True ts EFI_SUCCESS (n + 1) C' p' = Some (Inr
        (if \<forall>t \<in> set ts. eku_present x (oid t) then EFI_SUCCESS else EFI_NOT_FOUND, n + 1 + k, p''))"
      "pool_live p'' = pool_live p'" "k = length ts \<longleftrightarrow> (\<forall>t \<in> set ts. eku_present x (oid t))"
      using Cons.IH [OF _ *(1-3), of "n + 1"] Cons.prems(1) by auto
    then show ?thesis using * True
      by (intro exI [of _ "Suc k"] exI [of _ p'']) (simp del: eku_loop.simps)
  next
    case False
    then show ?thesis using *
      by (intro exI [of _ 0] exI [of _ p']) (simp del: eku_loop.simps)
  qed
qed

text \<open>C23: With \<^verbatim>\<open>RequireAllPresent\<close>, \<^verbatim>\<open>CheckEKUs\<close> succeeds exactly when each required usage is present;
  without it, exactly when the first of them is present, whatever the others are. A usage counts as
  present when the first place at which its bytes occur in the extension is at the end of the
  extension or is followed by a byte 6.
\<close>

theorem check_ekus_exact:
  assumes "extension_is L Cert EkuOID x" and "x \<noteq> []" and "alloc_all p" and "pool_inv p"
    and "\<forall>t \<in> set ts. text_oid t (oid t) \<and> length (oid t) \<le> length x" and "ts \<noteq> []"
    and "length C = 20"
  shows "\<exists>p'. CheckEKUs L C Cert ts req p = Some (Inr
      (if (if req then \<forall>t \<in> set ts. eku_present x (oid t) else eku_present x (oid (hd ts)))
       then EFI_SUCCESS else EFI_NOT_FOUND, p'))
    \<and> pool_live p' = pool_live p"
proof (cases req)
  case True
  then show ?thesis using eku_loop_all [OF assms(5,7,1-4), of 0] assms(6)
    by (auto simp: CheckEKUs_def status_defs split: if_splits)
next
  case False
  obtain t ts' where ts: "ts = t # ts'" using assms(6) by (cases ts) auto
  have t: "text_oid t (oid t)" "length (oid t) \<le> length x" using assms(5) ts by simp_all
  show ?thesis
    using eku_loop_step [OF t assms(7,1-4), where req = False and n = 0 and ts = ts' and S = EFI_SUCCESS]
      False by (auto simp: CheckEKUs_def ts simp del: eku_loop.simps)
qed

text \<open>The certificate has the usage 1.3.6.1.4, which is the second one that is asked for.\<close>

lemma leaf_extension: "extension_is eku_demo leaf_crt EkuOID demo_usage"
  using leaf_usage by (auto simp: extension_is_def demo_usage_def der_def)

lemma demo_texts:
  "text_oid (oid_text 1 3 [6, 1, 4]) [43, 6, 1, 4]" "text_oid (oid_text 1 3 [6, 1, 5]) [43, 6, 1, 5]"
  using text_oid_text [of 1 3 "[6, 1, 4]"] text_oid_text [of 1 3 "[6, 1, 5]"]
  by (simp_all add: arcs_code_def arc_code_def dec.simps)

lemma demo_present:
  "eku_present demo_usage [43, 6, 1, 4]" "\<not> eku_present demo_usage [43, 6, 1, 5]"
  unfolding eku_search_present [symmetric] by code_simp+

theorem check_ekus_exact_witness:
  "\<exists>p'. CheckEKUs eku_demo (replicate 20 0) leaf_crt [oid_text 1 3 [6, 1, 5], oid_text 1 3 [6, 1, 4]] False demo_pool
    = Some (Inr (EFI_NOT_FOUND, p'))"
proof -
  let ?t = "oid_text 1 3 [6, 1, 5]" and ?u = "oid_text 1 3 [6, 1, 4]"
  define oid where "oid t = (if t = ?t then [43, 6, 1, 5] else [43, 6, 1, 4 :: byte])" for t
  have "?u \<noteq> ?t" by (simp add: oid_text_def dec.simps)
  then have "\<forall>t \<in> set [?t, ?u]. text_oid t (oid t) \<and> length (oid t) \<le> length demo_usage"
    using demo_texts by (simp add: oid_def demo_usage_def der_def)
  from check_ekus_exact [OF leaf_extension _ _ _ this, of demo_pool "replicate 20 0" False]
  show ?thesis using demo_present(2)
    by (auto simp: oid_def demo_usage_def der_def alloc_all_def demo_pool_def empty_pool_def pool_inv_def)
qed

section \<open>The certificate that is checked\<close>

text \<open>
  What MbedTLS documents: an element is read only when its tag is the wanted one, and a
  certificate starts with the tag of a sequence.
\<close>

definition tag_checked :: "'pk mbedtls \<Rightarrow> bool" where
  "tag_checked L \<longleftrightarrow> (\<forall>m p e n t p' n'. 0 \<le> p \<longrightarrow>
     mbedtls_asn1_get_tag L m p e n t = (0, p', n') \<longrightarrow> nat p < length m \<and> m ! nat p = t)"

definition sequence_only :: "'pk mbedtls \<Rightarrow> bool" where
  "sequence_only L \<longleftrightarrow>
    (\<forall>x. x \<noteq> [] \<longrightarrow> hd x \<noteq> ASN1_SEQUENCE \<longrightarrow> fst (mbedtls_x509_crt_parse_der L x) \<noteq> 0)"

text \<open>The certificates behind the first one: \<open>qs\<close> are their ends, the last one is \<open>End\<close>.\<close>

fun cert_list :: "'pk mbedtls \<Rightarrow> byte list \<Rightarrow> int \<Rightarrow> int list \<Rightarrow> int \<Rightarrow> bool" where
  "cert_list L m End [] Ptr \<longleftrightarrow> Ptr = End"
| "cert_list L m End (q # qs) Ptr \<longleftrightarrow> Ptr < End
     \<and> (\<forall>n. \<exists>p k. mbedtls_asn1_get_tag L m Ptr End n ASN1_SEQUENCE = (0, p, k) \<and> p + k = q)
     \<and> cert_list L m End qs q"

text \<open>The result of \<open>IsCertSignerCert\<close> while the pool has memory.\<close>

definition good_pool :: "pool \<Rightarrow> bool" where
  "good_pool p \<longleftrightarrow> alloc_all p \<and> pool_inv p"

definition signer_is :: "'pk mbedtls \<Rightarrow> byte list \<Rightarrow> bool \<Rightarrow> int \<times> int \<Rightarrow> bool" where
  "signer_is L m v r \<longleftrightarrow> (\<forall>p. good_pool p \<longrightarrow>
     (\<exists>p'. good_pool p' \<and> IsCertSignerCert L m (fst r) (snd r) p = Some (Inr (v, p'))))"

lemma signer_isD:
  assumes "signer_is L m v (a, b)" and "good_pool p"
  obtains p' where "good_pool p'" and "IsCertSignerCert L m a b p = Some (Inr (v, p'))"
  using assms unfolding signer_is_def by auto

lemma signer_loop_turn:
  assumes "cert_list L m End (q # qs) Ptr" and "signer_is L m False (OldEnd, Ptr)" and "good_pool p"
  obtains k p' where "good_pool p'" and
    "signer_loop L m End Ptr n OldEnd p = signer_loop L m End q k Ptr p'"
proof -
  obtain p' where p': "good_pool p'" "IsCertSignerCert L m OldEnd Ptr p = Some (Inr (False, p'))"
    using assms(2,3) by (rule signer_isD)
  obtain pe k where "mbedtls_asn1_get_tag L m Ptr End n ASN1_SEQUENCE = (0, pe, k)" "pe + k = q"
    using assms(1) by (auto dest: spec [of _ n])
  then have "signer_loop L m End Ptr n OldEnd p = signer_loop L m End q k Ptr p'"
    using assms(1) p' by (subst signer_loop.simps) (simp add: signer_step_def)
  then show thesis using that p'(1) by blast
qed

lemma signer_loop_skip:
  assumes "cert_list L m End qs Ptr" and "good_pool p"
    and "\<forall>r \<in> set (zip (OldEnd # Ptr # qs) (butlast (Ptr # qs))). signer_is L m False r"
  shows "\<exists>k p'. good_pool p' \<and> signer_loop L m End Ptr n OldEnd p
    = Some (Inr (Some (End, k, last (OldEnd # butlast (Ptr # qs))), p'))"
  using assms
proof (induction qs arbitrary: Ptr n OldEnd p)
  case Nil
  then show ?case by (subst signer_loop.simps) simp
next
  case (Cons q qs)
  have s: "signer_is L m False (OldEnd, Ptr)" using Cons.prems(3) by simp
  obtain k p' where "good_pool p'" and
    "signer_loop L m End Ptr n OldEnd p = signer_loop L m End q k Ptr p'"
    using Cons.prems(1) s Cons.prems(2) by (rule signer_loop_turn)
  moreover have "\<forall>r \<in> set (zip (Ptr # q # qs) (butlast (q # qs))). signer_is L m False r"
    using Cons.prems(3) by simp
  moreover have "cert_list L m End qs q" using Cons.prems(1) by simp
  ultimately show ?case using Cons.IH [of q p' Ptr k] by simp
qed

lemma signer_loop_stop:
  assumes "cert_list L m End qs Ptr" and "good_pool p"
    and "\<forall>r \<in> set (zip (OldEnd # Ptr # qs) (butlast (Ptr # qs))). \<exists>v. signer_is L m v r"
    and "\<exists>r \<in> set (zip (OldEnd # Ptr # qs) (butlast (Ptr # qs))). signer_is L m True r"
  shows "\<exists>q k a p'. q < End \<and> signer_loop L m End Ptr n OldEnd p = Some (Inr (Some (q, k, a), p'))"
  using assms
proof (induction qs arbitrary: Ptr n OldEnd p)
  case Nil
  then show ?case by simp
next
  case (Cons q qs)
  show ?case
  proof (cases "signer_is L m True (OldEnd, Ptr)")
    case True
    then obtain p' where "IsCertSignerCert L m OldEnd Ptr p = Some (Inr (True, p'))"
      using Cons.prems(2) by (rule signer_isD)
    then show ?thesis using Cons.prems(1) by (subst signer_loop.simps) (simp add: signer_step_def)
  next
    case False
    then have s: "signer_is L m False (OldEnd, Ptr)" using Cons.prems(3) by (auto simp: ex_bool_eq)
    obtain k p' where "good_pool p'" and
      "signer_loop L m End Ptr n OldEnd p = signer_loop L m End q k Ptr p'"
      using Cons.prems(1) s Cons.prems(2) by (rule signer_loop_turn)
    then show ?thesis using Cons.IH [of q p' Ptr k] Cons.prems False by simp
  qed
qed

lemma eku_head_SomeE:
  assumes "eku_head L m e = Some (Ptr, End, n, OldEnd)"
  obtains p1 n1 p2 n2 p3 n3 p4 n4 p5 n5 p6 where
    "mbedtls_asn1_get_tag L m 0 e 0 ASN1_SEQUENCE = (0, p1, n1)"
    "mbedtls_asn1_get_tag L m p1 e n1 MBEDTLS_ASN1_INTEGER = (0, p2, n2)"
    "mbedtls_asn1_get_tag L m (p2 + n2) e n2 ASN1_SET = (0, p3, n3)"
    "mbedtls_asn1_get_tag L m (p3 + n3) e n3 ASN1_SEQUENCE = (0, p4, n4)"
    "mbedtls_asn1_get_tag L m (p4 + n4) e n4 ASN1_CONTEXT = (0, p5, n5)"
    "mbedtls_asn1_get_tag L m p5 (p5 + n5) n5 ASN1_SEQUENCE = (0, p6, n)"
    "OldEnd = p4 + n4" "End = p5 + n5" "Ptr = p6 + n"
  using assms unfolding eku_head_def Let_def
  by (auto split: prod.splits if_splits)

lemma eku_head_bounds:
  assumes "asn1_ok L" and "eku_head L m e = Some (Ptr, End, n, OldEnd)"
  shows "0 \<le> OldEnd \<and> OldEnd < Ptr \<and> Ptr \<le> End \<and> End \<le> e \<and> 0 \<le> n \<and>
    (\<exists>n0 p k. mbedtls_asn1_get_tag L m OldEnd e n0 ASN1_CONTEXT = (0, p, k))"
  using assms(2)
proof (rule eku_head_SomeE, goal_cases)
  case (1 p1 n1 p2 n2 p3 n3 p4 n4 p5 n5 p6)
  note ok = get_tag_ok(1) [OF assms(1) _ refl]
  show ?case
    using 1 ok [OF 1(1)] ok [OF 1(2)] ok [OF 1(3)] ok [OF 1(4)] ok [OF 1(5)] ok [OF 1(6)] by auto
qed

text \<open>The header in front of the first certificate is taken for a part of it, which makes it no
  certificate.\<close>

lemma header_range:
  assumes "asn1_ok L" and "tag_checked L" and "sequence_only L"
    and "eku_head L m e = Some (Ptr, End, n, OldEnd)" and "OldEnd < b" and "b \<le> int (length m)"
  shows "\<exists>x. bytes m OldEnd (b - OldEnd) = Inr x \<and> fst (mbedtls_x509_crt_parse_der L x) \<noteq> 0"
proof -
  note h = eku_head_bounds [OF assms(1,4)]
  then have m: "nat OldEnd < length m" "m ! nat OldEnd = ASN1_CONTEXT"
    using assms(2) unfolding tag_checked_def by blast+
  let ?x = "seg (nat OldEnd) (nat (b - OldEnd)) m"
  have "?x \<noteq> []" "hd ?x = ASN1_CONTEXT"
    using m assms(5,6) by (auto simp: seg_def hd_drop_conv_nth)
  then have "fst (mbedtls_x509_crt_parse_der L ?x) \<noteq> 0"
    using assms(3) unfolding sequence_only_def by (auto simp: asn1_tags)
  then show ?thesis using h assms(5,6) by (simp add: bytes_def)
qed

lemma header_no_signer:
  assumes "asn1_ok L" and "tag_checked L" and "sequence_only L"
    and "eku_head L m e = Some (Ptr, End, n, OldEnd)" and "e \<le> int (length m)"
  shows "signer_is L m False (OldEnd, Ptr)"
proof -
  have "OldEnd < Ptr" "Ptr \<le> int (length m)" using eku_head_bounds [OF assms(1,4)] assms(5) by auto
  then show ?thesis using header_range [OF assms(1-4)]
    by (fastforce simp: signer_is_def IsCertSignerCert_def split: prod.split)
qed

text \<open>C22: A signature with two or more certificates is judged by the usages of the last one alone, when
  no certificate between the first and the last is a signer certificate: the first certificate is
  never looked at.
\<close>

theorem eku_checks_last:
  assumes "asn1_ok L" and "tag_checked L" and "sequence_only L" and "good_pool p"
    and "eku_head L m (int32 (length m)) = Some (Ptr, End, n, OldEnd)"
    and "cert_list L m End qs Ptr" and "qs \<noteq> []"
    and "\<forall>r \<in> set (zip (Ptr # qs) (butlast qs)). signer_is L m False r"
    and "s = last (Ptr # butlast qs)"
    and "bytes m s (End - s) = Inr x" and "mbedtls_x509_crt_parse_der L x = (0, Cert)"
  shows "\<exists>p'. good_pool p' \<and> VerifyEKUsInPkcs7Signature L C p (Some m) (Some ekus) req
    = CheckEKUs L C Cert ekus req p'"
proof -
  have "\<forall>r \<in> set (zip (OldEnd # Ptr # qs) (butlast (Ptr # qs))). signer_is L m False r"
    using header_no_signer [OF assms(1-3,5) int32_le] assms(7,8) by simp
  from signer_loop_skip [OF assms(6,4) this, of n] obtain k p' where "good_pool p'"
    "signer_loop L m End Ptr n OldEnd p = Some (Inr (Some (End, k, s), p'))"
    using assms(7,9) by (cases qs) auto
  then show ?thesis using assms(10,11)
    by (auto simp: VerifyEKUsInPkcs7Signature_def assms(5) check_last_def)
qed

lemma eku_demo_ok: "tag_checked eku_demo" "sequence_only eku_demo" "good_pool demo_pool"
  by (auto simp: tag_checked_def sequence_only_def demo_tag_def eku_crt_def good_pool_def alloc_all_def
      demo_pool_def empty_pool_def pool_inv_def Let_def split: if_splits)

lemma msg_three_list: "cert_list eku_demo msg_three 68 [47, 68] 29"
  by (simp add: msg_three_certs)

lemma msg_three_ca: "signer_is eku_demo msg_three False (29, 47)"
proof -
  have "\<exists>p'. good_pool p' \<and> IsCertSignerCert eku_demo msg_three 29 47 p = Some (Inr (False, p'))"
    if gp: "good_pool p" for p
  proof -
    obtain b p1 p2 where "AllocatePool p 5 = (Some b, p1)" "FreePool p1 (Some b) = Inr p2"
      "alloc_all p2" "pool_inv p2"
      using alloc_free [of p 5] gp unfolding good_pool_def by blast
    then show ?thesis
      by (auto simp: IsCertSignerCert_def msg_three_head ca_constraints good_pool_def
          gBasicConstraintsCase1_def gBasicConstraintsCase2_def)
  qed
  then show ?thesis by (simp add: signer_is_def)
qed

theorem eku_checks_last_witness:
  "\<exists>p'. VerifyEKUsInPkcs7Signature eku_demo (replicate 20 0) demo_pool (Some msg_three)
      (Some [oid_text 1 3 [6, 1, 4]]) True
    = CheckEKUs eku_demo (replicate 20 0) leaf_crt [oid_text 1 3 [6, 1, 4]] True p'"
  using eku_checks_last [OF eku_demo_asn1_ok eku_demo_ok, of msg_three 29 68 16 9 "[47, 68]" 47 leaf_cert
      leaf_crt "replicate 20 0" "[oid_text 1 3 [6, 1, 4]]" True]
    msg_three_head msg_three_list msg_three_ca eku_crt_leaf by auto

text \<open>C4: A signature with a single certificate, or with a signer certificate between the first and the
  last one, is accepted whatever usages are required: the failure is reported as
  \<^verbatim>\<open>FALSE\<close>, which is \<^verbatim>\<open>EFI_SUCCESS\<close>.
\<close>

theorem eku_accepts_unchecked:
  assumes "asn1_ok L" and "tag_checked L" and "sequence_only L" and "good_pool p"
    and "eku_head L m (int32 (length m)) = Some (Ptr, End, n, OldEnd)"
    and "cert_list L m End qs Ptr"
    and "\<forall>r \<in> set (zip (Ptr # qs) (butlast qs)). \<exists>v. signer_is L m v r"
    and "qs = [] \<or> (\<exists>r \<in> set (zip (Ptr # qs) (butlast qs)). signer_is L m True r)"
  shows "\<exists>p'. VerifyEKUsInPkcs7Signature L C p (Some m) (Some ekus) req = Some (Inr (EFI_SUCCESS, p'))"
proof (cases "qs = []")
  case True
  note h = eku_head_bounds [OF assms(1,5)]
  have "End = Ptr" using assms(6) True by simp
  moreover obtain x where "bytes m OldEnd (End - OldEnd) = Inr x"
      "fst (mbedtls_x509_crt_parse_der L x) \<noteq> 0"
    using header_range [OF assms(1-3,5), of End] h int32_le [of "length m"] \<open>End = Ptr\<close> by auto
  ultimately show ?thesis
    by (auto simp: VerifyEKUsInPkcs7Signature_def assms(5) signer_loop.simps check_last_def
        EFI_SUCCESS_def split: prod.split)
next
  case False
  have hs: "signer_is L m False (OldEnd, Ptr)"
    by (rule header_no_signer [OF assms(1-3,5) int32_le])
  have b: "butlast (Ptr # qs) = Ptr # butlast qs" using False by simp
  obtain q k a p' where "q < End" "signer_loop L m End Ptr n OldEnd p = Some (Inr (Some (q, k, a), p'))"
    using signer_loop_stop [OF assms(6,4), of OldEnd n] hs assms(7,8) False unfolding b by auto
  then show ?thesis
    by (auto simp: VerifyEKUsInPkcs7Signature_def assms(5) check_last_def EFI_SUCCESS_def)
qed

theorem eku_accepts_unchecked_witness:
  "\<exists>p'. VerifyEKUsInPkcs7Signature eku_demo (replicate 20 0) demo_pool (Some msg_one)
      (Some [oid_text 1 3 [6, 1, 4]]) True = Some (Inr (EFI_SUCCESS, p'))"
  using eku_accepts_unchecked [OF eku_demo_asn1_ok eku_demo_ok, of msg_one 29 29 16 9 "[]"]
    msg_one_head by auto

text \<open>A signature in a \<^verbatim>\<open>ContentInfo\<close>, the form that \<^verbatim>\<open>Pkcs7Verify\<close> recognises as wrapped, is
  accepted whatever usages are required: its second element is not the version that is expected.
\<close>

theorem eku_accepts_wrapped:
  assumes "tag_checked L" and "is_wrapped m = Inr True"
    and "\<forall>R q k. mbedtls_asn1_get_tag L m 0 (int32 (length m)) 0 ASN1_SEQUENCE = (R, q, k) \<longrightarrow> q = 4"
  shows "VerifyEKUsInPkcs7Signature L C p (Some m) (Some ekus) req = Some (Inr (EFI_SUCCESS, p))"
proof -
  have "m ! 4 = MBEDTLS_ASN1_OID"
    using assms(2) by (auto simp: is_wrapped_def and_res_def byte_is_def byte_at_def bind_res_def
        split: if_splits sum.splits)
  have "fst (mbedtls_asn1_get_tag L m 4 e n MBEDTLS_ASN1_INTEGER) \<noteq> 0" for e n
  proof -
    obtain R q k where eq: "mbedtls_asn1_get_tag L m 4 e n MBEDTLS_ASN1_INTEGER = (R, q, k)"
      by (cases "mbedtls_asn1_get_tag L m 4 e n MBEDTLS_ASN1_INTEGER") auto
    have "R = 0 \<Longrightarrow> m ! nat 4 = MBEDTLS_ASN1_INTEGER"
      using assms(1) eq unfolding tag_checked_def by (metis zero_le_numeral)
    then show ?thesis using \<open>m ! 4 = MBEDTLS_ASN1_OID\<close> unfolding eq by (auto simp: asn1_tags)
  qed
  then have "eku_head L m (int32 (length m)) = None"
    using assms(3) by (auto simp: eku_head_def split: prod.split) (metis fst_conv)
  then show ?thesis by (simp add: VerifyEKUsInPkcs7Signature_def EFI_SUCCESS_def)
qed

theorem eku_accepts_wrapped_witness:
  "VerifyEKUsInPkcs7Signature eku_demo (replicate 20 0) demo_pool (Some demo_W)
    (Some [oid_text 1 3 [6, 1, 4]]) True = Some (Inr (EFI_SUCCESS, demo_pool))"
proof -
  have "is_wrapped demo_W = Inr True" "demo_tag demo_W 0 (int32 (length demo_W)) 0 ASN1_SEQUENCE = (0, 4, 112)"
    by code_simp+
  then show ?thesis using eku_accepts_wrapped [OF eku_demo_ok(1), of demo_W] by auto
qed

end
