(* ===== verification/EkuSafe.thy ===== *)
theory EkuSafe
  imports EkuProps
begin

text \<open>
  \<^verbatim>\<open>VerifyEKUsInPkcs7Signature\<close> ends, gives back the memory that it takes, and its faults.
\<close>

text \<open>MbedTLS puts the extensions inside the encoding that it keeps.\<close>

definition extensions_ok :: "'pk x509_crt \<Rightarrow> bool" where
  "extensions_ok Cert \<longleftrightarrow> 0 \<le> fst (crt_v3_ext Cert) \<and> 0 \<le> snd (crt_v3_ext Cert)
     \<and> fst (crt_v3_ext Cert) + snd (crt_v3_ext Cert) \<le> int (length (crt_raw Cert))"

definition parse_der_ok :: "'pk mbedtls \<Rightarrow> bool" where
  "parse_der_ok L \<longleftrightarrow>
    (\<forall>x Cert. mbedtls_x509_crt_parse_der L x = (0, Cert) \<longrightarrow> extensions_ok Cert)"

section \<open>Extensions\<close>

lemma extension_body_ok:
  assumes "asn1_ok L" and "0 \<le> p" and "0 \<le> n"
  shows "(\<forall>f. extension_body L m p e n Oid = Inl (Inl f) \<longrightarrow> f = OobRead)
    \<and> (\<forall>q k. extension_body L m p e n Oid = Inl (Inr (Some (q, k))) \<longrightarrow> 0 \<le> q \<and> 0 \<le> k \<and> q + k \<le> e)
    \<and> extension_body L m p e n Oid \<noteq> Inl (Inr None)
    \<and> (\<forall>k. extension_body L m p e n Oid = Inr k \<longrightarrow> 0 \<le> k)"
proof -
  obtain R1 p1 n1 where 1: "mbedtls_asn1_get_tag L m p e n MBEDTLS_ASN1_OID = (R1, p1, n1)"
    by (cases "mbedtls_asn1_get_tag L m p e n MBEDTLS_ASN1_OID") auto
  obtain R2 p2 n2 where 2: "mbedtls_asn1_get_tag L m (p1 + n1) e n1 MBEDTLS_ASN1_BOOLEAN = (R2, p2, n2)"
    by (cases "mbedtls_asn1_get_tag L m (p1 + n1) e n1 MBEDTLS_ASN1_BOOLEAN") auto
  let ?p = "if R2 = 0 then p2 + n2 else p2"
  obtain R3 p3 n3 where 3: "mbedtls_asn1_get_tag L m ?p e n2 MBEDTLS_ASN1_OCTET_STRING = (R3, p3, n3)"
    by (cases "mbedtls_asn1_get_tag L m ?p e n2 MBEDTLS_ASN1_OCTET_STRING") auto
  show ?thesis
    using get_tag_ok [OF assms(1) 1] get_tag_ok [OF assms(1) 2] get_tag_ok [OF assms(1) 3] assms(2,3)
    by (auto simp: extension_body_def extension_value_def 1 2 3 same_oid_def bytes_def
        split: sum.splits if_splits)
qed

lemma find_ends:
  assumes "asn1_ok L" and "0 \<le> p" and "0 \<le> n"
  shows "\<exists>r. InternalX509FindExtensionData L m p e n Oid = Some r \<and> (\<forall>f. r = Inl f \<longrightarrow> f = OobRead)
    \<and> (\<forall>q k. r = Inr (Some (q, k)) \<longrightarrow> 0 \<le> q \<and> 0 \<le> k \<and> q + k \<le> e)"
  using assms(2,3)
proof (induction "nat (e - p)" arbitrary: p n rule: less_induct)
  case less
  obtain R1 p1 n1 where 1: "mbedtls_asn1_get_tag L m p e n ASN1_SEQUENCE = (R1, p1, n1)"
    by (cases "mbedtls_asn1_get_tag L m p e n ASN1_SEQUENCE") auto
  note t = get_tag_ok [OF assms(1) 1]
  show ?case
  proof (cases "R1 = 0")
    case False
    then show ?thesis by (subst InternalX509FindExtensionData.simps) (simp add: 1)
  next
    case True
    then have p1: "p < p1" "0 \<le> n1" "p1 + n1 \<le> e" using t(1) by auto
    then have "0 \<le> p1" using less.prems by simp
    note b = extension_body_ok [OF assms(1) this p1(2), of m e Oid]
    show ?thesis
    proof (cases "extension_body L m p1 e n1 Oid")
      case (Inl r)
      then show ?thesis using b True
        by (subst InternalX509FindExtensionData.simps) (cases r, auto simp: 1)
    next
      case (Inr k)
      then have "0 \<le> k" using b by simp
      have "nat (e - (p1 + n1)) < nat (e - p)" using p1 by simp
      from less.hyps [OF this _ \<open>0 \<le> k\<close>] show ?thesis using \<open>0 \<le> p1\<close> p1 True Inr
        by (subst InternalX509FindExtensionData.simps) (simp add: 1)
    qed
  qed
qed

lemma GetExtensionData_ends:
  assumes "asn1_ok L" and "extensions_ok Cert" and "0 \<le> sz"
  shows "\<exists>r. GetExtensionData L Cert Oid buf sz = Some r \<and> (\<forall>f. r = Inl f \<longrightarrow> f = OobRead)
    \<and> (\<forall>ok n x. r = Inr (ok, n, x) \<longrightarrow> 0 \<le> n)"
proof -
  let ?m = "crt_raw Cert" and ?s = "fst (crt_v3_ext Cert)"
  let ?e = "?s + snd (crt_v3_ext Cert)"
  obtain R p n where 1: "mbedtls_asn1_get_tag L ?m ?s ?e 0 ASN1_SEQUENCE = (R, p, n)"
    by (cases "mbedtls_asn1_get_tag L ?m ?s ?e 0 ASN1_SEQUENCE") auto
  note t = get_tag_ok [OF assms(1) 1]
  show ?thesis
  proof (cases "R = 0")
    case False
    then show ?thesis by (simp add: GetExtensionData_def 1)
  next
    case True
    then have "0 \<le> p" "0 \<le> n" using t assms(2) by (auto simp: extensions_ok_def)
    then obtain r where "InternalX509FindExtensionData L ?m p ?e n Oid = Some r"
      "\<forall>f. r = Inl f \<longrightarrow> f = OobRead" "\<forall>q k. r = Inr (Some (q, k)) \<longrightarrow> 0 \<le> q \<and> 0 \<le> k \<and> q + k \<le> ?e"
      using find_ends [OF assms(1), of p n ?m ?e Oid] by auto
    then show ?thesis using True assms(3)
      by (cases r) (auto simp: GetExtensionData_def 1 bytes_def bind_res_def split: option.splits sum.splits if_splits)
  qed
qed

text \<open>A block that is taken and given back around a computation without the pool.\<close>

definition tidy :: "pool \<Rightarrow> ('a \<times> pool) res option \<Rightarrow> bool" where
  "tidy p r \<longleftrightarrow> (\<exists>s. r = Some s \<and> (\<forall>f. s = Inl f \<longrightarrow> f = OobRead)
     \<and> (\<forall>v p'. s = Inr (v, p') \<longrightarrow> pool_inv p' \<and> pool_live p' = pool_live p))"

lemma tidy_alloc:
  assumes "pool_inv p" and "AllocatePool p n = (Some b, p1)"
  shows "\<exists>p2. FreePool p1 (Some b) = Inr p2 \<and> pool_inv p2 \<and> pool_live p2 = pool_live p"
  using AllocatePool_Some [OF assms(2,1)] FreePool_live [of b p1] by auto

text \<open>
  Both users of \<open>GetExtensionData\<close> ask for the length, take a block, read the extension and give
  the block back.
\<close>

definition with_extension ::
    "'pk mbedtls \<Rightarrow> 'pk x509_crt \<Rightarrow> byte list \<Rightarrow> 'a \<Rightarrow> 'a \<Rightarrow> (bool \<Rightarrow> int \<Rightarrow> byte list \<Rightarrow> 'a res)
     \<Rightarrow> pool \<Rightarrow> ('a \<times> pool) res option" where
  "with_extension L Cert Oid absent nomem f p =
    Option.bind (GetExtensionData L Cert Oid False 0) (\<lambda>r. case r of
      Inl e \<Rightarrow> Some (Inl e)
    | Inr (ok, n, x) \<Rightarrow>
        if n = 0 then Some (Inr (absent, p))
        else (case AllocatePool p (nat n) of
                (None, p) \<Rightarrow> Some (Inr (nomem, p))
              | (Some b, p) \<Rightarrow>
                  map_option (\<lambda>r. bind_res r (\<lambda>(ok, n, x). bind_res (f ok n x)
                    (\<lambda>v. bind_res (FreePool p (Some b)) (\<lambda>p. Inr (v, p)))))
                    (GetExtensionData L Cert Oid True n)))"

lemma IsEkuInCertificate_with:
  "IsEkuInCertificate L Cert e p = with_extension L Cert EkuOID EFI_NOT_FOUND EFI_NOT_FOUND
    (\<lambda>ok n x. if n = 0 \<or> \<not> ok then Inr EFI_NOT_FOUND
              else if length x < length e then Inl OobRead
              else Inr (if eku_search x e 0 then EFI_SUCCESS else EFI_NOT_FOUND)) p"
  by (simp add: IsEkuInCertificate_def with_extension_def)

lemma IsCertSignerCert_with:
  "IsCertSignerCert L m a b p =
    (case bytes m a (b - a) of
       Inl f \<Rightarrow> Some (Inl f)
     | Inr x \<Rightarrow> (case mbedtls_x509_crt_parse_der L x of (R, Cert) \<Rightarrow>
         if R \<noteq> 0 then Some (Inr (False, p))
         else with_extension L Cert gOidBasicConstraints True False
           (\<lambda>ok n x. Inr (n = 0 \<or> ok \<and> (x = gBasicConstraintsCase1 \<or> x = gBasicConstraintsCase2))) p))"
  unfolding IsCertSignerCert_def with_extension_def bind_res_simps(2) ..

lemma with_extension_tidy:
  assumes "asn1_ok L" and "extensions_ok Cert" and "pool_inv p"
    and f: "\<And>ok n x e. f ok n x = Inl e \<Longrightarrow> e = OobRead"
  shows "tidy p (with_extension L Cert Oid absent nomem f p)"
proof -
  obtain r where r: "GetExtensionData L Cert Oid False 0 = Some r" "\<forall>e. r = Inl e \<longrightarrow> e = OobRead"
    "\<forall>ok n x. r = Inr (ok, n, x) \<longrightarrow> 0 \<le> n"
    using GetExtensionData_ends [OF assms(1,2), of 0 Oid False] by auto
  show ?thesis
  proof (cases "\<exists>ok n x. r = Inr (ok, n, x) \<and> n \<noteq> 0")
    case False
    then show ?thesis using r assms(3)
      by (cases r) (auto simp: with_extension_def tidy_def split: prod.splits)
  next
    case True
    then obtain ok n x where n: "r = Inr (ok, n, x)" "n \<noteq> 0" "0 \<le> n" using r(3) by blast
    obtain b p1 where a: "AllocatePool p (nat n) = (b, p1)" by (cases "AllocatePool p (nat n)") auto
    obtain r' where r': "GetExtensionData L Cert Oid True n = Some r'" "\<forall>e. r' = Inl e \<longrightarrow> e = OobRead"
      using GetExtensionData_ends [OF assms(1,2) n(3), of Oid True] by auto
    show ?thesis
    proof (cases b)
      case None
      then show ?thesis using r n a AllocatePool_None [of p "nat n" p1] assms(3)
        by (auto simp: with_extension_def tidy_def)
    next
      case (Some b')
      then obtain p2 where "FreePool p1 (Some b') = Inr p2" "pool_inv p2" "pool_live p2 = pool_live p"
        using tidy_alloc [OF assms(3)] a by blast
      then show ?thesis using r n a Some r'
        by (cases r') (auto simp: with_extension_def tidy_def bind_res_def dest: f
            split: prod.splits sum.splits)
    qed
  qed
qed

lemma IsEkuInCertificate_tidy:
  assumes "asn1_ok L" and "extensions_ok Cert" and "pool_inv p"
  shows "tidy p (IsEkuInCertificate L Cert e p)"
  unfolding IsEkuInCertificate_with
  using assms by (rule with_extension_tidy) (auto split: if_splits)

lemma tidy_Some [simp]: "pool_inv p \<Longrightarrow> tidy p (Some (Inr (v, p)))"
  by (simp add: tidy_def)

lemma IsCertSignerCert_tidy:
  assumes "asn1_ok L" and "parse_der_ok L" and "pool_inv p"
  shows "tidy p (IsCertSignerCert L m a b p)"
proof -
  have "tidy p (Some (Inl OobRead))" by (simp add: tidy_def)
  moreover have "tidy p (with_extension L Cert Oid absent nomem (\<lambda>ok n x. Inr (f ok n x)) p)"
    if "extensions_ok Cert" for Cert Oid and absent nomem :: bool and f
    using assms(1) that assms(3) by (rule with_extension_tidy) simp
  ultimately show ?thesis using assms(2,3)
    by (auto simp: IsCertSignerCert_with parse_der_ok_def bytes_def split: sum.splits prod.splits if_splits)
qed

section \<open>The identifiers\<close>

lemma scan_arc_fault: "scan_arc m q i n = Inl f \<Longrightarrow> f = OobRead"
proof (induction m q i n rule: scan_arc.induct)
  case (1 m q i n)
  then show ?case by (subst (asm) (2) scan_arc.simps) (auto split: if_splits)
qed

lemma put_arc_result:
  "put_arc D C i = Inl f \<Longrightarrow> f = OobWrite"
  "put_arc D C i = Inr (C', j) \<Longrightarrow> length C' = length C"
  by (auto simp: put_arc_def write_oid_def bind_res_def split: if_splits sum.splits)

lemma oid_loop_result:
  "(\<forall>f. oid_loop m q n C i = Inl f \<longrightarrow> f = OobRead \<or> f = OobWrite)
    \<and> (\<forall>C' j. oid_loop m q n C i = Inr (C', j) \<longrightarrow> length C' = length C)"
proof (induction m q n C i rule: oid_loop.induct)
  case (1 m q n C i)
  show ?case
    using 1 scan_arc_fault [of m q 0 n] put_arc_result
    by (subst (1 2) oid_loop.simps) (force split: sum.splits prod.splits)
qed

lemma GetOidFromTxt_result:
  "GetOidFromTxt t C = Inl f \<Longrightarrow> f = OobRead \<or> f = OobWrite"
  "GetOidFromTxt t C = Inr (C', j) \<Longrightarrow> length C' = length C"
  using oid_loop_result
  by (force simp: GetOidFromTxt_def Let_def write_oid_def bind_res_def split: if_splits sum.splits)+

text \<open>The buffer for an identifier overflows for a text of the list.\<close>

definition overflows :: "byte list list \<Rightarrow> bool" where
  "overflows ts \<longleftrightarrow> (\<exists>t \<in> set ts. \<exists>C. length C = 20 \<and> GetOidFromTxt t C = Inl OobWrite)"

text \<open>It ends, its faults are such an overflow or a read, and it gives back what it takes.\<close>

definition ends :: "byte list list \<Rightarrow> pool \<Rightarrow> ('a \<times> pool) res option \<Rightarrow> bool" where
  "ends ts p r \<longleftrightarrow> (\<exists>s. r = Some s
     \<and> (\<forall>f. s = Inl f \<longrightarrow> f = OobRead \<or> f = OobWrite \<and> overflows ts)
     \<and> (\<forall>v p'. s = Inr (v, p') \<longrightarrow> pool_inv p' \<and> pool_live p' = pool_live p))"

lemma tidy_ends: "tidy p r \<Longrightarrow> ends ts p r"
  by (auto simp: tidy_def ends_def)

lemma ends_mono: "ends ts p r \<Longrightarrow> set ts \<subseteq> set us \<Longrightarrow> pool_live p = pool_live q \<Longrightarrow> ends us q r"
  by (fastforce simp: ends_def overflows_def)

lemma eku_loop_ends:
  assumes "asn1_ok L" and "extensions_ok Cert" and "pool_inv p" and "length C = 20"
  shows "ends ts p (map_option (\<lambda>r. bind_res r (\<lambda>(S, n, p). Inr ((S, n), p)))
    (eku_loop L Cert req ts S n C p))"
  using assms(3,4)
proof (induction ts arbitrary: S n C p)
  case Nil
  then show ?case by (simp add: ends_def)
next
  case (Cons t ts)
  show ?case
  proof (cases "GetOidFromTxt t C")
    case (Inl f)
    then show ?thesis using Cons.prems GetOidFromTxt_result(1) [of t C f]
      by (auto simp: ends_def overflows_def)
  next
    case (Inr x)
    obtain C' i where x: "x = (C', i)" by (cases x)
    have C': "length C' = 20" using GetOidFromTxt_result(2) [of t C C' i] Inr x Cons.prems by simp
    let ?i = "IsEkuInCertificate L Cert (take (unat i) C') p"
    have tidy: "tidy p ?i" using assms(1,2) Cons.prems(1) by (rule IsEkuInCertificate_tidy)
    then obtain r where r: "?i = Some r" by (auto simp: tidy_def)
    show ?thesis
    proof (cases r)
      case (Inl f)
      then show ?thesis using tidy r Inr x by (auto simp: tidy_def ends_def)
    next
      case r': (Inr y)
      obtain S' p' where y: "y = (S', p')" by (cases y)
      have p': "pool_inv p'" "pool_live p' = pool_live p" using tidy r r' y by (auto simp: tidy_def)
      have "ends (t # ts) p (map_option (\<lambda>r. bind_res r (\<lambda>(S, n, p). Inr ((S, n), p)))
          (eku_loop L Cert req ts S' k C' p'))" for k
        by (rule ends_mono [OF Cons.IH [OF p'(1) C'] _ p'(2)]) auto
      then show ?thesis using Inr x r r' y p' by (auto simp: ends_def)
    qed
  qed
qed

lemma CheckEKUs_ends:
  assumes "asn1_ok L" and "extensions_ok Cert" and "pool_inv p" and "length C = 20"
  shows "ends ts p (CheckEKUs L C Cert ts req p)"
proof (cases "ts = []")
  case True
  then show ?thesis using assms(3) by (simp add: CheckEKUs_def ends_def)
next
  case False
  obtain r where "eku_loop L Cert req ts EFI_SUCCESS 0 C p = Some r"
    using eku_loop_ends [OF assms, of ts req EFI_SUCCESS 0] by (auto simp: ends_def)
  then show ?thesis using eku_loop_ends [OF assms, of ts req EFI_SUCCESS 0] False
    by (cases r) (auto simp: CheckEKUs_def ends_def)
qed

section \<open>The whole function\<close>

lemma signer_loop_ends:
  assumes "asn1_ok L" and "parse_der_ok L" and "pool_inv p"
  shows "tidy p (signer_loop L m End Ptr n OldEnd p)"
  using assms(3)
proof (induction "nat (End - Ptr)" arbitrary: Ptr n OldEnd p rule: less_induct)
  case less
  show ?case
  proof (cases "Ptr < End")
    case False
    then show ?thesis using less.prems by (subst signer_loop.simps) simp
  next
    case True
    have t: "tidy p (IsCertSignerCert L m OldEnd Ptr p)"
      using assms(1,2) less.prems by (rule IsCertSignerCert_tidy)
    then obtain r where r: "IsCertSignerCert L m OldEnd Ptr p = Some r" by (auto simp: tidy_def)
    show ?thesis
    proof (cases r)
      case (Inl f)
      then show ?thesis using t True r
        by (subst signer_loop.simps) (simp add: signer_step_def tidy_def)
    next
      case (Inr y)
      obtain v p' where y: "y = (v, p')" by (cases y)
      have p': "pool_inv p'" "pool_live p' = pool_live p" using t r Inr y by (auto simp: tidy_def)
      obtain R q k where tag: "mbedtls_asn1_get_tag L m Ptr End n ASN1_SEQUENCE = (R, q, k)"
        by (cases "mbedtls_asn1_get_tag L m Ptr End n ASN1_SEQUENCE") auto
      show ?thesis
      proof (cases "v \<or> R \<noteq> 0")
        case True
        then show ?thesis using \<open>Ptr < End\<close> r Inr y p' tag
          by (subst signer_loop.simps) (auto simp: signer_step_def tidy_def)
      next
        case False
        then have "nat (End - (q + k)) < nat (End - Ptr)"
          using get_tag_ok [OF assms(1) tag] \<open>Ptr < End\<close> by auto
        from less.hyps [OF this p'(1)] show ?thesis using \<open>Ptr < End\<close> r Inr y p' tag False
          by (subst signer_loop.simps) (auto simp: signer_step_def tidy_def)
      qed
    qed
  qed
qed

lemma check_last_ends:
  assumes "asn1_ok L" and "parse_der_ok L" and "pool_inv p" and "length C = 20"
  shows "ends ts p (check_last L C m End ts req found p)"
proof -
  have "ends ts p (CheckEKUs L C Cert ts req p)" if "mbedtls_x509_crt_parse_der L x = (0, Cert)" for x Cert
    using assms that CheckEKUs_ends by (fastforce simp: parse_der_ok_def)
  moreover have "ends ts p (Some (Inr (0 :: efi_status, p)))" using assms(3) by (simp add: ends_def)
  moreover have "ends ts p (Some (Inl OobRead :: (efi_status \<times> pool) res))" by (simp add: ends_def)
  ultimately show ?thesis
    by (auto simp: check_last_def bytes_def split: option.split prod.split)
qed

text \<open>C24: \<^verbatim>\<open>VerifyEKUsInPkcs7Signature\<close> ends for every message and every library that keeps to its
  documentation. It frees the buffers that it allocates. Its only fault besides reads outside a
  buffer is the overflow of the 20 bytes for an identifier.
\<close>

theorem eku_verify_ends:
  assumes "asn1_ok L" and "parse_der_ok L" and "pool_inv p" and "length C = 20"
  shows "\<exists>r. VerifyEKUsInPkcs7Signature L C p (Some m) (Some ts) req = Some r
    \<and> (\<forall>f. r = Inl f \<longrightarrow> f = OobRead \<or> f = OobWrite \<and> overflows ts)
    \<and> (\<forall>Status p'. r = Inr (Status, p') \<longrightarrow> pool_live p' = pool_live p)"
proof (cases "eku_head L m (int32 (length m))")
  case None
  then show ?thesis by (simp add: VerifyEKUsInPkcs7Signature_def)
next
  case (Some h)
  obtain Ptr End n OldEnd where h: "h = (Ptr, End, n, OldEnd)" by (cases h)
  have t: "tidy p (signer_loop L m End Ptr n OldEnd p)"
    using assms(1-3) by (rule signer_loop_ends)
  then obtain r where r: "signer_loop L m End Ptr n OldEnd p = Some r" by (auto simp: tidy_def)
  show ?thesis
  proof (cases r)
    case (Inl f)
    then show ?thesis using t r Some h by (auto simp: VerifyEKUsInPkcs7Signature_def tidy_def)
  next
    case (Inr y)
    obtain found p' where y: "y = (found, p')" by (cases y)
    have p': "pool_inv p'" "pool_live p' = pool_live p" using t r Inr y by (auto simp: tidy_def)
    show ?thesis using check_last_ends [OF assms(1,2) p'(1) assms(4), of ts m End req found] p'(2)
      by (auto simp: VerifyEKUsInPkcs7Signature_def Some h r Inr y ends_def)
  qed
qed

theorem eku_verify_ends_witness:
  "\<exists>r. VerifyEKUsInPkcs7Signature eku_demo (replicate 20 0) demo_pool (Some msg_three) (Some [[49, 46, 51]]) True
    = Some r \<and> r \<noteq> Inl UseAfterFree"
proof -
  have "parse_der_ok eku_demo"
    by (auto simp: parse_der_ok_def eku_crt_def extensions_ok_def split: if_splits)
  then show ?thesis
    using eku_verify_ends [OF eku_demo_asn1_ok, of demo_pool "replicate 20 0" msg_three "[[49, 46, 51]]" True]
    by (auto simp: demo_pool_def)
qed

end
