(* ===== verification/X509.thy ===== *)
theory X509
  imports Eku
begin

text \<open>
  \<^verbatim>\<open>MbedTlsPkg/Library/BaseCryptLib/Pk/CryptX509.c\<close>: objects and stacks of certificates, the fields
  of a certificate, chains of encoded certificates, and date and time.

  A buffer that a caller gives for a result is a list, whose length is what may be written, or
  \<open>None\<close> for NULL; the size that is passed along with it is a number of its own. \<open>None\<close> for a size
  is a NULL pointer to it.
\<close>

text \<open>
  What only this file uses of MbedTLS: the verification with the profile of this file, the search
  in a name, whether a key is an RSA key, the results of setting the padding of a new RSA context
  and of copying a key to it, and the sizes of its structures.
\<close>

record 'pk x509_lib =
  x509_verify :: "'pk x509_crt list \<Rightarrow> 'pk x509_crt list \<Rightarrow> int"
  mbedtls_asn1_find_named_data :: "x509_name \<Rightarrow> byte list \<Rightarrow> byte list option"
  mbedtls_pk_is_rsa :: "'pk option \<Rightarrow> bool"
  mbedtls_rsa_set_padding :: int
  mbedtls_rsa_copy :: "'pk option \<Rightarrow> int"
  sizeof_x509_crt :: nat
  sizeof_rsa_context :: nat

definition OID_commonName :: "byte list" where "OID_commonName = [0x55, 0x04, 0x03]"
definition OID_organizationName :: "byte list" where "OID_organizationName = [0x55, 0x04, 0x0A]"
definition OID_extKeyUsage :: "byte list" where "OID_extKeyUsage = [0x55, 0x1D, 0x25]"
definition OID_BasicConstraints :: "byte list" where "OID_BasicConstraints = [0x55, 0x1D, 0x13]"

section \<open>Objects and stacks\<close>

text \<open>The chains that live in blocks of the pool.\<close>

record 'pk x509_heap =
  x_pool :: pool
  x_chain :: "nat \<Rightarrow> 'pk x509_crt list option"

definition x_alloc :: "'pk x509_heap \<Rightarrow> nat \<Rightarrow> nat option \<times> 'pk x509_heap" where
  "x_alloc s n =
    (case AllocatePool (x_pool s) n of
       (None, p) \<Rightarrow> (None, s\<lparr>x_pool := p\<rparr>)
     | (Some b, p) \<Rightarrow> (Some b, s\<lparr>x_pool := p, x_chain := (x_chain s)(b := Some [])\<rparr>))"

definition x_free :: "'pk x509_heap \<Rightarrow> nat \<Rightarrow> 'pk x509_heap res" where
  "x_free s b = bind_res (FreePool (x_pool s) (Some b))
     (\<lambda>p. Inr (s\<lparr>x_pool := p, x_chain := (x_chain s)(b := None)\<rparr>))"

text \<open>\<^verbatim>\<open>mbedtls_x509_crt_parse_der\<close> adds to the chain, \<^verbatim>\<open>mbedtls_x509_crt_free\<close> empties it.\<close>

definition x_parse ::
    "'pk mbedtls \<Rightarrow> 'pk x509_heap \<Rightarrow> nat \<Rightarrow> byte list \<Rightarrow> (int \<times> 'pk x509_heap) res" where
  "x_parse L s b Cert =
    (case x_chain s b of
       None \<Rightarrow> Inl UseAfterFree
     | Some Chain \<Rightarrow>
         (case mbedtls_x509_crt_parse_der L Cert of
            (Ret, Crt) \<Rightarrow>
              Inr (Ret, if Ret = 0 then s\<lparr>x_chain := (x_chain s)(b := Some (Chain @ [Crt]))\<rparr> else s)))"

definition x_empty :: "'pk x509_heap \<Rightarrow> nat \<Rightarrow> 'pk x509_heap res" where
  "x_empty s b =
    (case x_chain s b of
       None \<Rightarrow> Inl UseAfterFree
     | Some Chain \<Rightarrow> Inr (s\<lparr>x_chain := (x_chain s)(b := Some [])\<rparr>))"

text \<open>The result, what is stored in \<^verbatim>\<open>*SingleX509Cert\<close> if anything is, and the state.\<close>

definition X509ConstructCertificate ::
    "'pk mbedtls \<Rightarrow> 'pk x509_lib \<Rightarrow> 'pk x509_heap \<Rightarrow> byte list option \<Rightarrow> bool
     \<Rightarrow> (bool \<times> nat option \<times> 'pk x509_heap) res" where
  "X509ConstructCertificate L V s Cert SingleX509Cert =
    (case Cert of
       None \<Rightarrow> Inr (False, None, s)
     | Some x \<Rightarrow>
         if \<not> SingleX509Cert \<or> x = [] then Inr (False, None, s)
         else (case x_alloc s (sizeof_x509_crt V) of
                 (None, s) \<Rightarrow> Inr (False, None, s)
               | (Some b, s) \<Rightarrow>
                   bind_res (x_parse L s b x) (\<lambda>(Ret, s).
                     if Ret = 0 then Inr (True, Some b, s)
                     else bind_res (x_empty s b) (\<lambda>s. bind_res (x_free s b) (\<lambda>s.
                       Inr (False, Some b, s))))))"

text \<open>
  The loop over the arguments, a certificate or NULL each; a certificate of size 0 ends it as well.
\<close>

primrec stack_loop ::
    "'pk mbedtls \<Rightarrow> nat \<Rightarrow> byte list option list \<Rightarrow> 'pk x509_heap \<Rightarrow> (int \<times> 'pk x509_heap) res" where
  "stack_loop L b [] s = Inl OobRead"
| "stack_loop L b (Cert # Args) s =
    (case Cert of
       None \<Rightarrow> Inr (0, s)
     | Some x \<Rightarrow>
         if x = [] then Inr (0, s)
         else bind_res (x_parse L s b x) (\<lambda>(Ret, s).
                if Ret \<noteq> 0 then Inr (Ret, s) else stack_loop L b Args s))"

text \<open>\<open>X509Stack\<close> is \<open>None\<close> for NULL, otherwise what it points to; the result has its new value.\<close>

definition X509ConstructCertificateStackV ::
    "'pk mbedtls \<Rightarrow> 'pk x509_lib \<Rightarrow> 'pk x509_heap \<Rightarrow> nat option option \<Rightarrow> byte list option list
     \<Rightarrow> (bool \<times> nat option option \<times> 'pk x509_heap) res" where
  "X509ConstructCertificateStackV L V s X509Stack Args =
    (case X509Stack of
       None \<Rightarrow> Inr (False, None, s)
     | Some Stack \<Rightarrow>
         (case (case Stack of
                  Some b \<Rightarrow> (Some b, None, s)
                | None \<Rightarrow> (case x_alloc s (sizeof_x509_crt V) of (Crt, s) \<Rightarrow> (Crt, Crt, s))) of
            (None, Crt, s) \<Rightarrow> Inr (False, Some None, s)
          | (Some b, Crt, s) \<Rightarrow>
              bind_res (stack_loop L b Args s) (\<lambda>(Ret, s).
                if Ret = 0 then Inr (True, Some (Some b), s)
                else (case Crt of
                        None \<Rightarrow> Inr (False, Some (Some b), s)
                      | Some c \<Rightarrow>
                          bind_res (x_empty s c) (\<lambda>s. bind_res (x_free s c) (\<lambda>s.
                            Inr (False, Some None, s)))))))"

definition X509Free :: "'pk x509_heap \<Rightarrow> nat option \<Rightarrow> 'pk x509_heap res" where
  "X509Free s X509Cert =
    (case X509Cert of
       None \<Rightarrow> Inr s
     | Some b \<Rightarrow> bind_res (x_empty s b) (\<lambda>s. x_free s b))"

definition X509StackFree :: "'pk x509_heap \<Rightarrow> nat option \<Rightarrow> 'pk x509_heap res" where
  "X509StackFree s X509Stack =
    (case X509Stack of
       None \<Rightarrow> Inr s
     | Some b \<Rightarrow> x_empty s b)"

section \<open>Fields of a certificate\<close>

text \<open>The parsed certificate, if it parses; it is freed on every path.\<close>

definition parse_crt :: "'pk mbedtls \<Rightarrow> byte list \<Rightarrow> 'pk x509_crt option" where
  "parse_crt L Cert =
    (case mbedtls_x509_crt_parse_der L Cert of (Ret, Crt) \<Rightarrow> if Ret = 0 then Some Crt else None)"

text \<open>\<^verbatim>\<open>CopyMem\<close> to a buffer that may be NULL, which leaves it out.\<close>

definition copy_out :: "byte list option \<Rightarrow> byte list \<Rightarrow> byte list option res" where
  "copy_out buf x =
    (case buf of
       None \<Rightarrow> Inr None
     | Some y \<Rightarrow> if length x \<le> length y then Inr (Some (copy_at 0 x y)) else Inl OobWrite)"

definition X509GetSubjectName ::
    "'pk mbedtls \<Rightarrow> byte list option \<Rightarrow> byte list option \<Rightarrow> nat option
     \<Rightarrow> (bool \<times> byte list option \<times> nat option) res" where
  "X509GetSubjectName L Cert CertSubject SubjectSize =
    (case Option.bind Cert (parse_crt L) of
       None \<Rightarrow> Inr (False, CertSubject, SubjectSize)
     | Some Crt \<Rightarrow>
         let x = info_subject_raw (crt_info Crt) in
         bind_res (copy_out CertSubject x) (\<lambda>CertSubject.
           if SubjectSize = None then Inl NullDeref
           else Inr (True, CertSubject, Some (length x))))"

definition InternalX509GetNIDName ::
    "'pk x509_lib \<Rightarrow> x509_name \<Rightarrow> byte list \<Rightarrow> byte list option \<Rightarrow> nat option
     \<Rightarrow> (efi_status \<times> byte list option \<times> nat option) res" where
  "InternalX509GetNIDName V Name Oid CommonName CommonNameSize =
    (case mbedtls_asn1_find_named_data V Name Oid of
       None \<Rightarrow> Inr (EFI_NOT_FOUND, CommonName, CommonNameSize)
     | Some val \<Rightarrow>
         (case CommonNameSize of
            None \<Rightarrow> Inl NullDeref
          | Some n \<Rightarrow>
              if n \<le> length val then Inr (EFI_BUFFER_TOO_SMALL, CommonName, Some (length val + 1))
              else bind_res (copy_out CommonName (val @ [0])) (\<lambda>CommonName.
                     Inr (EFI_SUCCESS, CommonName, Some (length val + 1)))))"

text \<open>A certificate of NULL gives \<^verbatim>\<open>FALSE\<close>, which is 0.\<close>

definition InternalX509GetSubjectNIDName ::
    "'pk mbedtls \<Rightarrow> 'pk x509_lib \<Rightarrow> byte list option \<Rightarrow> byte list \<Rightarrow> byte list option \<Rightarrow> nat option
     \<Rightarrow> (efi_status \<times> byte list option \<times> nat option) res" where
  "InternalX509GetSubjectNIDName L V Cert Oid CommonName CommonNameSize =
    (case Cert of
       None \<Rightarrow> Inr (0, CommonName, CommonNameSize)
     | Some x \<Rightarrow>
         (case parse_crt L x of
            None \<Rightarrow> Inr (EFI_INVALID_PARAMETER, CommonName, CommonNameSize)
          | Some Crt \<Rightarrow>
              InternalX509GetNIDName V (info_subject (crt_info Crt)) Oid CommonName CommonNameSize))"

definition InternalX509GetIssuerNIDName ::
    "'pk mbedtls \<Rightarrow> 'pk x509_lib \<Rightarrow> byte list option \<Rightarrow> byte list \<Rightarrow> byte list option \<Rightarrow> nat option
     \<Rightarrow> (efi_status \<times> byte list option \<times> nat option) res" where
  "InternalX509GetIssuerNIDName L V Cert Oid CommonName CommonNameSize =
    (case Cert of
       None \<Rightarrow> Inr (0, CommonName, CommonNameSize)
     | Some x \<Rightarrow>
         (case parse_crt L x of
            None \<Rightarrow> Inr (EFI_INVALID_PARAMETER, CommonName, CommonNameSize)
          | Some Crt \<Rightarrow>
              InternalX509GetNIDName V (info_issuer (crt_info Crt)) Oid CommonName CommonNameSize))"

definition X509GetCommonName where
  "X509GetCommonName L V Cert = InternalX509GetSubjectNIDName L V Cert OID_commonName"
definition X509GetOrganizationName where
  "X509GetOrganizationName L V Cert = InternalX509GetSubjectNIDName L V Cert OID_organizationName"
definition X509GetIssuerCommonName where
  "X509GetIssuerCommonName L V Cert = InternalX509GetIssuerNIDName L V Cert OID_commonName"
definition X509GetIssuerOrganizationName where
  "X509GetIssuerOrganizationName L V Cert = InternalX509GetIssuerNIDName L V Cert OID_organizationName"

text \<open>The version as a \<^verbatim>\<open>UINTN\<close>, for a pointer to it that is not NULL.\<close>

definition X509GetVersion :: "'pk mbedtls \<Rightarrow> byte list option \<Rightarrow> (bool \<times> UINT64 option)" where
  "X509GetVersion L Cert =
    (case Option.bind Cert (parse_crt L) of
       None \<Rightarrow> (False, None)
     | Some Crt \<Rightarrow> (True, Some (of_int (info_version (crt_info Crt) - 1))))"

definition X509GetSerialNumber ::
    "'pk mbedtls \<Rightarrow> byte list option \<Rightarrow> byte list option \<Rightarrow> nat option
     \<Rightarrow> (bool \<times> byte list option \<times> nat option) res" where
  "X509GetSerialNumber L Cert SerialNumber SerialNumberSize =
    (case Option.bind Cert (parse_crt L) of
       None \<Rightarrow> Inr (False, SerialNumber, SerialNumberSize)
     | Some Crt \<Rightarrow>
         let x = (case crt_serial Crt of None \<Rightarrow> [] | Some x \<Rightarrow> x) in
         (case SerialNumberSize of
            None \<Rightarrow> Inl NullDeref
          | Some n \<Rightarrow>
              if n \<le> length x then Inr (False, SerialNumber, Some (length x + 1))
              else bind_res (copy_out SerialNumber (x @ [0])) (\<lambda>SerialNumber.
                     Inr (True, SerialNumber, Some (length x + 1)))))"

definition X509GetIssuerName ::
    "'pk mbedtls \<Rightarrow> byte list option \<Rightarrow> byte list option \<Rightarrow> nat option
     \<Rightarrow> (bool \<times> byte list option \<times> nat option) res" where
  "X509GetIssuerName L Cert CertIssuer CertIssuerSize =
    (case Option.bind Cert (parse_crt L) of
       None \<Rightarrow> Inr (False, CertIssuer, CertIssuerSize)
     | Some Crt \<Rightarrow>
         let x = (case crt_issuer_raw Crt of None \<Rightarrow> [] | Some x \<Rightarrow> x) in
         (case CertIssuerSize of
            None \<Rightarrow> Inl NullDeref
          | Some n \<Rightarrow>
              if n < length x then Inr (False, CertIssuer, Some (length x))
              else bind_res (copy_out CertIssuer x) (\<lambda>CertIssuer.
                     Inr (True, CertIssuer, Some (length x)))))"

definition X509GetSignatureAlgorithm ::
    "'pk mbedtls \<Rightarrow> byte list option \<Rightarrow> byte list option \<Rightarrow> nat option
     \<Rightarrow> (bool \<times> byte list option \<times> nat option) res" where
  "X509GetSignatureAlgorithm L Cert Oid OidSize =
    (if Cert = None \<or> Cert = Some [] \<or> OidSize = None then Inr (False, Oid, OidSize)
     else (case Option.bind Cert (parse_crt L) of
             None \<Rightarrow> Inr (False, Oid, OidSize)
           | Some Crt \<Rightarrow>
               let x = info_sig_oid (crt_info Crt) in
               if the OidSize < length x then
                 Inr (False, Oid, Some (case crt_serial Crt of None \<Rightarrow> 0 | Some y \<Rightarrow> length y))
               else bind_res (copy_out Oid x) (\<lambda>Oid. Inr (True, Oid, Some (length x)))))"

definition X509GetKeyUsage :: "'pk mbedtls \<Rightarrow> byte list option \<Rightarrow> bool \<times> nat option" where
  "X509GetKeyUsage L Cert =
    (case Option.bind Cert (parse_crt L) of
       None \<Rightarrow> (False, None)
     | Some Crt \<Rightarrow> (True, Some (info_key_usage (crt_info Crt))))"

text \<open>
  The RSA key: the result, the context and the pool. \<open>RsaNew\<close> keeps the block when the padding
  cannot be set.
\<close>

definition RsaNew :: "'pk x509_lib \<Rightarrow> pool \<Rightarrow> nat option \<times> pool" where
  "RsaNew V p =
    (case AllocatePool p (sizeof_rsa_context V) of
       (None, p) \<Rightarrow> (None, p)
     | (Some b, p) \<Rightarrow> (if mbedtls_rsa_set_padding V \<noteq> 0 then None else Some b, p))"

definition RsaFree :: "pool \<Rightarrow> nat option \<Rightarrow> pool res" where
  "RsaFree p RsaContext = (if RsaContext = None then Inr p else FreePool p RsaContext)"

definition RsaGetPublicKeyFromX509 ::
    "'pk mbedtls \<Rightarrow> 'pk x509_lib \<Rightarrow> pool \<Rightarrow> byte list \<Rightarrow> (bool \<times> nat option \<times> pool) res" where
  "RsaGetPublicKeyFromX509 L V p Cert =
    (case parse_crt L Cert of
       None \<Rightarrow> Inr (False, None, p)
     | Some Crt \<Rightarrow>
         if \<not> mbedtls_pk_is_rsa V (crt_pk Crt) then Inr (False, None, p)
         else (case RsaNew V p of
                 (None, p) \<Rightarrow> Inr (False, None, p)
               | (Some b, p) \<Rightarrow>
                   if mbedtls_rsa_copy V (crt_pk Crt) \<noteq> 0 then
                     bind_res (RsaFree p (Some b)) (\<lambda>p. Inr (False, None, p))
                   else Inr (True, Some b, p)))"

text \<open>Elliptic curves are not supported.\<close>

definition EcGetPublicKeyFromX509 :: "byte list option \<Rightarrow> bool res" where
  "EcGetPublicKeyFromX509 Cert = Inl AssertFailed"

section \<open>Extensions\<close>

definition Asn1GetTag ::
    "'pk mbedtls \<Rightarrow> byte list \<Rightarrow> int \<Rightarrow> int \<Rightarrow> int \<Rightarrow> byte \<Rightarrow> bool \<times> int \<times> int" where
  "Asn1GetTag L m Ptr End Length Tag =
    (case mbedtls_asn1_get_tag L m Ptr End Length Tag of (Ret, Ptr, Length) \<Rightarrow> (Ret = 0, Ptr, Length))"

text \<open>
  \<^verbatim>\<open>InternalX509FindExtensionData\<close> is the function of \<^verbatim>\<open>CryptPkcs7VerifyEku.c\<close> with a status for its
  result, \<open>None\<close> for \<^verbatim>\<open>RETURN_INVALID_PARAMETER\<close>.
\<close>

definition x509_FindExtensionData ::
    "'pk mbedtls \<Rightarrow> byte list \<Rightarrow> int \<Rightarrow> int \<Rightarrow> int \<Rightarrow> byte list \<Rightarrow> asn1_buf option res option" where
  "x509_FindExtensionData L m Start End ObjLen Oid = InternalX509FindExtensionData L m Start End ObjLen Oid"

text \<open>
  What follows the search; the variable \<open>Status\<close> is still \<^verbatim>\<open>FALSE\<close> when it is tested.
\<close>

definition extension_out ::
    "byte list \<Rightarrow> asn1_buf option \<Rightarrow> byte list option \<Rightarrow> nat
     \<Rightarrow> (bool \<times> byte list option \<times> nat option) res" where
  "extension_out m found ExtensionData ExtensionDataSize =
    (let Status = False in
     if \<not> Status then Inr (True, ExtensionData, Some 0)
     else (case found of
             None \<Rightarrow> Inr (Status, ExtensionData, Some ExtensionDataSize)
           | Some (Ptr, ObjLen) \<Rightarrow>
               if int ExtensionDataSize < ObjLen then Inr (False, ExtensionData, Some (nat ObjLen))
               else if ExtensionData = None then Inl NullDeref
               else bind_res (bytes m Ptr ObjLen) (\<lambda>x. bind_res (copy_out ExtensionData x) (\<lambda>y.
                      Inr (True, y, Some (nat ObjLen))))))"

definition X509GetExtensionData ::
    "'pk mbedtls \<Rightarrow> byte list option \<Rightarrow> byte list option \<Rightarrow> byte list option \<Rightarrow> nat option
     \<Rightarrow> (bool \<times> byte list option \<times> nat option) res option" where
  "X509GetExtensionData L Cert Oid ExtensionData ExtensionDataSize =
    (case (Cert, Oid, ExtensionDataSize) of
       (Some x, Some oid, Some n) \<Rightarrow>
         if x = [] \<or> oid = [] then Some (Inr (False, ExtensionData, Some 0))
         else (case parse_crt L x of
                 None \<Rightarrow> Some (Inr (False, ExtensionData, Some n))
               | Some Crt \<Rightarrow>
                   let m = crt_raw Crt; End = fst (crt_v3_ext Crt) + snd (crt_v3_ext Crt) in
                   (case mbedtls_asn1_get_tag L m (fst (crt_v3_ext Crt)) End 0 ASN1_SEQUENCE of
                      (Ret, Ptr, ObjLen) \<Rightarrow>
                        if Ret \<noteq> 0 then Some (Inr (False, ExtensionData, Some n))
                        else map_option (\<lambda>r. bind_res r (\<lambda>found. extension_out m found ExtensionData n))
                               (x509_FindExtensionData L m Ptr End ObjLen oid)))
     | _ \<Rightarrow> Some (Inr (False, ExtensionData, map_option (\<lambda>n. 0) ExtensionDataSize)))"

definition X509GetExtendedKeyUsage where
  "X509GetExtendedKeyUsage L Cert Usage UsageSize =
    (if Cert = None \<or> Cert = Some [] \<or> UsageSize = None then Some (Inr (False, Usage, UsageSize))
     else X509GetExtensionData L Cert (Some OID_extKeyUsage) Usage UsageSize)"

definition X509GetExtendedBasicConstraints where
  "X509GetExtendedBasicConstraints L Cert BasicConstraints BasicConstraintsSize =
    (if Cert = None \<or> Cert = Some [] \<or> BasicConstraintsSize = None
     then Some (Inr (False, BasicConstraints, BasicConstraintsSize))
     else X509GetExtensionData L Cert (Some OID_BasicConstraints) BasicConstraints BasicConstraintsSize)"

end
