(* ===== verification/X509Chain.thy ===== *)
theory X509Chain
  imports X509 Pkcs7Safe
begin

text \<open>
  Chains of encoded certificates in one buffer, and the part of a certificate that is signed
  (\<^verbatim>\<open>CryptX509.c\<close> of MbedTLS).
\<close>

section \<open>Verification\<close>

definition X509VerifyCert ::
    "'pk mbedtls \<Rightarrow> 'pk x509_lib \<Rightarrow> byte list option \<Rightarrow> byte list option \<Rightarrow> bool" where
  "X509VerifyCert L V Cert CACert =
    (case (Cert, CACert) of
       (Some x, Some y) \<Rightarrow>
         (case mbedtls_x509_crt_parse_der L y of
            (Ret, Ca) \<Rightarrow>
              if Ret \<noteq> 0 then False
              else (case mbedtls_x509_crt_parse_der L x of
                      (Ret, End) \<Rightarrow> if Ret \<noteq> 0 then False else x509_verify V [End] [Ca] = 0))
     | _ \<Rightarrow> False)"

text \<open>The loop, with the preceding certificate, the position of the current one and \<^verbatim>\<open>VerifyFlag\<close>.\<close>

partial_function (option) verify_loop ::
    "'pk mbedtls \<Rightarrow> 'pk x509_lib \<Rightarrow> byte list \<Rightarrow> byte list option \<Rightarrow> int \<Rightarrow> bool \<Rightarrow> bool res option" where
  "verify_loop L V m PrecedingCert Current VerifyFlag =
    (case mbedtls_asn1_get_tag L m Current (int (length m)) 0 ASN1_SEQUENCE of
       (Ret, TmpPtr, Asn1Len) \<Rightarrow>
         if Ret \<noteq> 0 then Some (Inr VerifyFlag)
         else (case bytes m Current (Asn1Len + (TmpPtr - Current)) of
                 Inl f \<Rightarrow> Some (Inl f)
               | Inr x \<Rightarrow>
                   if \<not> X509VerifyCert L V (Some x) PrecedingCert then Some (Inr False)
                   else verify_loop L V m (Some x) (Current + (Asn1Len + (TmpPtr - Current))) True))"

declare verify_loop.simps [code]

definition X509VerifyCertChain ::
    "'pk mbedtls \<Rightarrow> 'pk x509_lib \<Rightarrow> byte list option \<Rightarrow> byte list \<Rightarrow> bool res option" where
  "X509VerifyCertChain L V RootCert CertChain = verify_loop L V CertChain RootCert 0 False"

section \<open>One certificate of a chain\<close>

text \<open>Start and length of the certificate, \<open>None\<close> for \<^verbatim>\<open>FALSE\<close>.\<close>

partial_function (option) cert_at_loop ::
    "'pk mbedtls \<Rightarrow> byte list \<Rightarrow> int \<Rightarrow> int \<Rightarrow> int \<Rightarrow> int \<Rightarrow> asn1_buf option option" where
  "cert_at_loop L m CertIndex Current CurrentIndex CurrentCertLen =
    (case mbedtls_asn1_get_tag L m Current (int (length m)) 0 ASN1_SEQUENCE of
       (Ret, TmpPtr, Asn1Len) \<Rightarrow>
         if Ret \<noteq> 0 then
           Some (if CertIndex = - 1 \<and> 0 \<le> CurrentIndex
                 then Some (Current - CurrentCertLen, CurrentCertLen) else None)
         else if CurrentIndex + 1 = CertIndex then
           Some (Some (Current, Asn1Len + (TmpPtr - Current)))
         else cert_at_loop L m CertIndex (Current + (Asn1Len + (TmpPtr - Current)))
                (CurrentIndex + 1) (Asn1Len + (TmpPtr - Current)))"

declare cert_at_loop.simps [code]

definition X509GetCertFromCertChain ::
    "'pk mbedtls \<Rightarrow> byte list option \<Rightarrow> int \<Rightarrow> asn1_buf option option" where
  "X509GetCertFromCertChain L CertChain CertIndex =
    (case CertChain of
       None \<Rightarrow> Some None
     | Some m \<Rightarrow> if CertIndex < - 1 then Some None else cert_at_loop L m CertIndex 0 (- 1) 0)"

definition X509GetTBSCert :: "'pk mbedtls \<Rightarrow> byte list option \<Rightarrow> asn1_buf option" where
  "X509GetTBSCert L Cert =
    (case Cert of
       None \<Rightarrow> None
     | Some m \<Rightarrow>
         if length m > INT_MAX then None
         else (case mbedtls_asn1_get_tag L m 0 (int (length m)) 0 ASN1_SEQUENCE of
                 (Ret, Temp, Length) \<Rightarrow>
                   if Ret \<noteq> 0 then None
                   else (case mbedtls_asn1_get_tag L m Temp (Temp + Length) Length ASN1_SEQUENCE of
                           (Ret, Ptr, Length) \<Rightarrow>
                             if Ret \<noteq> 0 then None else Some (Temp, Length + (Ptr - Temp)))))"

section \<open>The certificates of a chain\<close>

text \<open>
  The elements that follow each other from a position on, as start and length, up to the first
  place where there is none.
\<close>

inductive chain_at :: "'pk mbedtls \<Rightarrow> byte list \<Rightarrow> int \<Rightarrow> asn1_buf list \<Rightarrow> bool" for L m where
  stop: "mbedtls_asn1_get_tag L m p (int (length m)) 0 ASN1_SEQUENCE = (Ret, q, n) \<Longrightarrow> Ret \<noteq> 0
    \<Longrightarrow> chain_at L m p []"
| element: "mbedtls_asn1_get_tag L m p (int (length m)) 0 ASN1_SEQUENCE = (0, q, n)
    \<Longrightarrow> chain_at L m (p + (n + (q - p))) es \<Longrightarrow> chain_at L m p ((p, n + (q - p)) # es)"

inductive_cases chain_at_NilE: "chain_at L m p []"
inductive_cases chain_at_ConsE: "chain_at L m p (e # es)"

lemma chain_at_exists:
  assumes "asn1_ok L"
  shows "\<exists>es. chain_at L m p es"
proof (induction "nat (int (length m) - p)" arbitrary: p rule: less_induct)
  case less
  obtain R q n where t: "mbedtls_asn1_get_tag L m p (int (length m)) 0 ASN1_SEQUENCE = (R, q, n)"
    by (cases "mbedtls_asn1_get_tag L m p (int (length m)) 0 ASN1_SEQUENCE") auto
  show ?case
  proof (cases "R = 0")
    case False
    then show ?thesis using t chain_at.stop by blast
  next
    case True
    then have "p < q" "0 \<le> n" "q + n \<le> int (length m)" using get_tag_ok [OF assms t] by auto
    then have "nat (int (length m) - (p + (n + (q - p)))) < nat (int (length m) - p)" by auto
    from less.hyps [OF this] t True show ?thesis by (auto dest: chain_at.element)
  qed
qed

lemma chain_at_inside:
  assumes "asn1_ok L" and "chain_at L m p es" and "0 \<le> p" and "(a, n) \<in> set es"
  shows "p \<le> a \<and> 0 < n \<and> a + n \<le> int (length m)"
  using assms(2-4)
proof (induction rule: chain_at.induct)
  case (stop p Ret q n)
  then show ?case by simp
next
  case (element p q k es)
  then show ?case using get_tag_ok(1) [OF assms(1) element.hyps(1)] by auto
qed

lemma bytes_inside:
  "0 \<le> a \<Longrightarrow> 0 \<le> n \<Longrightarrow> a + n \<le> int (length m) \<Longrightarrow> bytes m a n = Inr (seg (nat a) (nat n) m)"
  by (simp add: bytes_def)

definition cert_bytes :: "byte list \<Rightarrow> asn1_buf \<Rightarrow> byte list" where
  "cert_bytes m e = seg (nat (fst e)) (nat (snd e)) m"

text \<open>Each certificate is verified with the one in front of it as the trusted one.\<close>

fun links_ok :: "'pk mbedtls \<Rightarrow> 'pk x509_lib \<Rightarrow> byte list option \<Rightarrow> byte list list \<Rightarrow> bool" where
  "links_ok L V Root [] \<longleftrightarrow> True"
| "links_ok L V Root (x # xs) \<longleftrightarrow> X509VerifyCert L V (Some x) Root \<and> links_ok L V (Some x) xs"

lemma verify_loop_chain:
  assumes "asn1_ok L" and "chain_at L m p es" and "0 \<le> p"
  shows "verify_loop L V m Root p flag
    = Some (Inr (if es = [] then flag else links_ok L V Root (map (cert_bytes m) es)))"
  using assms(2,3)
proof (induction arbitrary: Root flag rule: chain_at.induct)
  case (stop p Ret q n)
  then show ?case by (subst verify_loop.simps) simp
next
  case (element p q n es)
  note t = get_tag_ok(1) [OF assms(1) element.hyps(1)]
  then have p: "0 \<le> p + (n + (q - p))" "p + (n + (q - p)) \<le> int (length m)" "0 \<le> n + (q - p)"
    using element.prems by auto
  let ?x = "cert_bytes m (p, n + (q - p))"
  have x: "bytes m p (n + (q - p)) = Inr ?x"
    using p element.prems by (simp add: bytes_inside cert_bytes_def)
  show ?case using element.IH [OF p(1), of "Some ?x" True] element.hyps(1) x
    by (subst verify_loop.simps) simp
qed

lemma cert_at_loop_chain:
  assumes "chain_at L m p es" and "- 1 \<le> i" and "i = - 1 \<or> k < i" and "- 1 \<le> k"
  shows "cert_at_loop L m i p k l = Some
    (if i = - 1 then (if es \<noteq> [] then Some (last es) else if 0 \<le> k then Some (p - l, l) else None)
     else if nat (i - k - 1) < length es then Some (es ! nat (i - k - 1)) else None)"
  using assms
proof (induction arbitrary: k l rule: chain_at.induct)
  case (stop p Ret q n)
  then show ?case by (subst cert_at_loop.simps) simp
next
  case (element p q n es)
  show ?case
  proof (cases "k + 1 = i")
    case True
    then show ?thesis using element by (subst cert_at_loop.simps) simp
  next
    case False
    have "nat (i - k - 1) = Suc (nat (i - (k + 1) - 1))" if "i \<noteq> - 1"
      using that False element.prems by simp
    then show ?thesis using element.IH [of "k + 1" "n + (q - p)"] element.hyps(1) element.prems False
      by (subst cert_at_loop.simps) auto
  qed
qed

end
