(* ===== verification/OsslX509.thy ===== *)
theory OsslX509
  imports X509Chain
begin

text \<open>
  \<^verbatim>\<open>OpensslPkg/Library/BaseCryptLib/Pk/CryptX509.c\<close>, but for the functions on dates, which are single
  calls, and the two that copy a public key. OpenSSL is not part of the repository: a certificate
  is a value of the type \<open>'x\<close>, and the functions of OpenSSL are the fields of \<open>x509_ossl\<close>.
  OpenSSL's objects are freed on every path.

  \<^item> \<open>ASN1_get_object\<close> gets the buffer, a position, the number of bytes left, and the length, tag
    and class from before the call, which it may leave alone; the result has the flags, position,
    length, tag and class. A \<^verbatim>\<open>long\<close> and an \<^verbatim>\<open>int\<close> are an \<open>int\<close> here, as no value is out of range.
  \<^item> \<open>name_entry\<close> is the entry of a name for an identifier as UTF-8: \<open>None\<close> when there is none,
    \<open>Some None\<close> when it cannot be converted.
  \<^item> \<open>EVP_add_digests_ok\<close> says whether the three digests can be registered; \<open>X509_verify_cert\<close> stands
    for the verification of the first certificate with the second one as the only trusted one.
  \<^item> \<open>sk_X509_push_ok\<close> says whether the stack can take another certificate at this length.
\<close>

record 'x x509_ossl =
  d2i_X509 :: "byte list \<Rightarrow> 'x option"
  ASN1_get_object :: "byte list \<Rightarrow> int \<Rightarrow> int \<Rightarrow> int \<Rightarrow> int \<Rightarrow> int \<Rightarrow> int \<times> int \<times> int \<times> int \<times> int"
  X509_get_subject_name :: "'x \<Rightarrow> byte list option"
  name_entry :: "'x \<Rightarrow> int \<Rightarrow> byte list option option"
  X509_get_version :: "'x \<Rightarrow> int"
  X509_get_serialNumber :: "'x \<Rightarrow> byte list option"
  signature_oid :: "'x \<Rightarrow> byte list option"
  X509_get0_extensions :: "'x \<Rightarrow> (byte list \<times> byte list) option list"
  X509_get_key_usage :: "'x \<Rightarrow> UINT64"
  EVP_add_digests_ok :: bool
  X509_verify_cert :: "'x \<Rightarrow> 'x \<Rightarrow> bool"
  sk_X509_new_ok :: bool
  sk_X509_push_ok :: "nat \<Rightarrow> bool"

definition V_ASN1_UNDEF :: int where "V_ASN1_UNDEF = - 1"
definition V_ASN1_SEQUENCE :: int where "V_ASN1_SEQUENCE = 16"
definition NID_undef :: UINT64 where "NID_undef = 0"
definition NID_commonName :: int where "NID_commonName = 13"
definition NID_organizationName :: int where "NID_organizationName = 17"

definition mOidExtKeyUsage :: "byte list" where "mOidExtKeyUsage = [0x55, 0x1D, 0x25]"
definition mOidBasicConstraints :: "byte list" where "mOidBasicConstraints = [0x55, 0x1D, 0x13]"

section \<open>Objects and stacks\<close>

definition ossl_X509ConstructCertificate :: "'x x509_ossl \<Rightarrow> byte list option \<Rightarrow> 'x option" where
  "ossl_X509ConstructCertificate Q Cert =
    (case Cert of None \<Rightarrow> None | Some x \<Rightarrow> if length x > INT_MAX then None else d2i_X509 Q x)"

text \<open>The loop: \<^verbatim>\<open>Status\<close> and the stack.\<close>

primrec ossl_stack_loop :: "'x x509_ossl \<Rightarrow> byte list option list \<Rightarrow> 'x list \<Rightarrow> (bool \<times> 'x list) res" where
  "ossl_stack_loop Q [] Sk = Inl OobRead"
| "ossl_stack_loop Q (Cert # Args) Sk =
    (case Cert of
       None \<Rightarrow> Inr (True, Sk)
     | Some x \<Rightarrow>
         if x = [] then Inr (False, Sk)
         else (case ossl_X509ConstructCertificate Q Cert of
                 None \<Rightarrow> Inr (False, Sk)
               | Some c \<Rightarrow> ossl_stack_loop Q Args
                   (if sk_X509_push_ok Q (length Sk) then Sk @ [c] else Sk)))"

text \<open>
  \<open>X509Stack\<close>: \<open>None\<close> for NULL, else the stack that it points to, if there is one; so is the result.
\<close>

definition ossl_X509ConstructCertificateStackV ::
    "'x x509_ossl \<Rightarrow> 'x list option option \<Rightarrow> byte list option list \<Rightarrow> (bool \<times> 'x list option option) res" where
  "ossl_X509ConstructCertificateStackV Q X509Stack Args =
    (case X509Stack of
       None \<Rightarrow> Inr (False, None)
     | Some Stack \<Rightarrow>
         if Stack = None \<and> \<not> sk_X509_new_ok Q then Inr (False, Some None)
         else bind_res (ossl_stack_loop Q Args (case Stack of None \<Rightarrow> [] | Some xs \<Rightarrow> xs))
                (\<lambda>(Status, Sk).
                  Inr (Status, if \<not> Status \<and> Stack = None then Some None else Some (Some Sk))))"

section \<open>Fields of a certificate\<close>

definition ossl_X509GetSubjectName ::
    "'x x509_ossl \<Rightarrow> byte list option \<Rightarrow> byte list option \<Rightarrow> nat option
     \<Rightarrow> (bool \<times> byte list option \<times> nat option) res" where
  "ossl_X509GetSubjectName Q Cert CertSubject SubjectSize =
    (if Cert = None \<or> SubjectSize = None then Inr (False, CertSubject, SubjectSize)
     else (case ossl_X509ConstructCertificate Q Cert of
             None \<Rightarrow> Inr (False, CertSubject, SubjectSize)
           | Some X509Cert \<Rightarrow>
               (case X509_get_subject_name Q X509Cert of
                  None \<Rightarrow> Inr (False, CertSubject, SubjectSize)
                | Some name \<Rightarrow>
                    if the SubjectSize < length name then Inr (False, CertSubject, Some (length name))
                    else bind_res (copy_out CertSubject name) (\<lambda>buf.
                           Inr (CertSubject \<noteq> None, buf, Some (length name))))))"

definition ossl_X509GetIssuerName ::
    "'x x509_ossl \<Rightarrow> byte list option \<Rightarrow> byte list option \<Rightarrow> nat option
     \<Rightarrow> (bool \<times> byte list option \<times> nat option) res" where
  "ossl_X509GetIssuerName Q Cert CertIssuer CertIssuerSize =
    (if Cert = None \<or> CertIssuerSize = None then Inr (False, CertIssuer, CertIssuerSize)
     else (case ossl_X509ConstructCertificate Q Cert of
             None \<Rightarrow> Inr (False, CertIssuer, CertIssuerSize)
           | Some X509Cert \<Rightarrow>
               (case X509_get_subject_name Q X509Cert of
                  None \<Rightarrow> Inr (False, CertIssuer, CertIssuerSize)
                | Some name \<Rightarrow>
                    if the CertIssuerSize < length name then Inr (False, CertIssuer, Some (length name))
                    else bind_res (copy_out CertIssuer name) (\<lambda>buf.
                           Inr (CertIssuer \<noteq> None, buf, Some (length name))))))"

definition ossl_InternalX509GetNIDName ::
    "'x x509_ossl \<Rightarrow> byte list option \<Rightarrow> int \<Rightarrow> byte list option \<Rightarrow> nat option
     \<Rightarrow> (efi_status \<times> byte list option \<times> nat option) res" where
  "ossl_InternalX509GetNIDName Q Cert Request_NID CommonName CommonNameSize =
    (case (Cert, CommonNameSize) of
       (Some x, Some n) \<Rightarrow>
         if length x > INT_MAX \<or> CommonName \<noteq> None \<and> n = 0 then
           Inr (EFI_INVALID_PARAMETER, CommonName, CommonNameSize)
         else (case ossl_X509ConstructCertificate Q Cert of
                 None \<Rightarrow> Inr (EFI_INVALID_PARAMETER, CommonName, CommonNameSize)
               | Some X509Cert \<Rightarrow>
                   if X509_get_subject_name Q X509Cert = None then
                     Inr (EFI_INVALID_PARAMETER, CommonName, CommonNameSize)
                   else (case name_entry Q X509Cert Request_NID of
                           None \<Rightarrow> Inr (EFI_NOT_FOUND, CommonName, Some 0)
                         | Some utf8 \<Rightarrow>
                             (case utf8 of
                                None \<Rightarrow> Inr (EFI_INVALID_PARAMETER, CommonName, Some 0)
                              | Some UTF8Name \<Rightarrow>
                                  if CommonName = None then
                                    Inr (EFI_BUFFER_TOO_SMALL, None, Some (length UTF8Name + 1))
                                  else let k = min (length UTF8Name) (n - 1) in
                                    bind_res (copy_out CommonName (take k UTF8Name @ [0])) (\<lambda>buf.
                                      Inr (EFI_SUCCESS, buf, Some (k + 1))))))
     | _ \<Rightarrow> Inr (EFI_INVALID_PARAMETER, CommonName, CommonNameSize))"

definition ossl_X509GetCommonName where
  "ossl_X509GetCommonName Q Cert = ossl_InternalX509GetNIDName Q Cert NID_commonName"
definition ossl_X509GetOrganizationName where
  "ossl_X509GetOrganizationName Q Cert = ossl_InternalX509GetNIDName Q Cert NID_organizationName"

definition ossl_X509GetVersion :: "'x x509_ossl \<Rightarrow> byte list option \<Rightarrow> bool \<times> UINT64 option" where
  "ossl_X509GetVersion Q Cert =
    (case ossl_X509ConstructCertificate Q Cert of
       None \<Rightarrow> (False, None)
     | Some X509Cert \<Rightarrow> (True, Some (of_int (X509_get_version Q X509Cert))))"

text \<open>\<^verbatim>\<open>Status\<close> is \<^verbatim>\<open>TRUE\<close> from the construction on.\<close>

definition ossl_X509GetSerialNumber ::
    "'x x509_ossl \<Rightarrow> byte list option \<Rightarrow> byte list option \<Rightarrow> nat option
     \<Rightarrow> (bool \<times> byte list option \<times> nat option) res" where
  "ossl_X509GetSerialNumber Q Cert SerialNumber SerialNumberSize =
    (case (Cert, SerialNumberSize) of
       (Some x, Some n) \<Rightarrow>
         (case ossl_X509ConstructCertificate Q Cert of
            None \<Rightarrow> Inr (False, SerialNumber, Some 0)
          | Some X509Cert \<Rightarrow>
              (case X509_get_serialNumber Q X509Cert of
                 None \<Rightarrow> Inr (False, SerialNumber, Some 0)
               | Some data \<Rightarrow>
                   if n < length data then Inr (False, SerialNumber, Some (length data))
                   else bind_res (copy_out SerialNumber data) (\<lambda>buf.
                          Inr (True, buf, Some (length data)))))
     | _ \<Rightarrow> Inr (False, SerialNumber, SerialNumberSize))"

definition ossl_X509GetSignatureAlgorithm ::
    "'x x509_ossl \<Rightarrow> byte list option \<Rightarrow> byte list option \<Rightarrow> nat option
     \<Rightarrow> (bool \<times> byte list option \<times> nat option) res" where
  "ossl_X509GetSignatureAlgorithm Q Cert Oid OidSize =
    (case (Cert, OidSize) of
       (Some x, Some n) \<Rightarrow>
         if x = [] then Inr (False, Oid, OidSize)
         else (case ossl_X509ConstructCertificate Q Cert of
                 None \<Rightarrow> Inr (False, Oid, OidSize)
               | Some X509Cert \<Rightarrow>
                   (case signature_oid Q X509Cert of
                      None \<Rightarrow> Inr (False, Oid, Some 0)
                    | Some data \<Rightarrow>
                        if n < length data then Inr (False, Oid, Some (length data))
                        else bind_res (copy_out Oid data) (\<lambda>buf. Inr (True, buf, Some (length data)))))
     | _ \<Rightarrow> Inr (False, Oid, OidSize))"

definition ossl_X509GetKeyUsage :: "'x x509_ossl \<Rightarrow> byte list option \<Rightarrow> bool \<times> UINT64 option" where
  "ossl_X509GetKeyUsage Q Cert =
    (case ossl_X509ConstructCertificate Q Cert of
       None \<Rightarrow> (False, None)
     | Some X509Cert \<Rightarrow>
         let Usage = X509_get_key_usage Q X509Cert in (Usage \<noteq> NID_undef, Some Usage))"

section \<open>Extensions\<close>

text \<open>An extension that lacks its identifier or its data is \<open>None\<close>. The data of the match, if any.\<close>

primrec ossl_find_extension :: "(byte list \<times> byte list) option list \<Rightarrow> byte list \<Rightarrow> byte list option" where
  "ossl_find_extension [] Oid = None"
| "ossl_find_extension (Ext # Exts) Oid =
    (case Ext of
       None \<Rightarrow> ossl_find_extension Exts Oid
     | Some e \<Rightarrow>
         if length Oid = length (fst e) \<and> fst e = Oid then Some (snd e)
         else ossl_find_extension Exts Oid)"

definition ossl_X509GetExtensionData ::
    "'x x509_ossl \<Rightarrow> byte list option \<Rightarrow> byte list option \<Rightarrow> byte list option \<Rightarrow> nat option
     \<Rightarrow> (bool \<times> byte list option \<times> nat option) res" where
  "ossl_X509GetExtensionData Q Cert Oid ExtensionData ExtensionDataSize =
    (case (Cert, Oid, ExtensionDataSize) of
       (Some x, Some oid, Some n) \<Rightarrow>
         if x = [] \<or> oid = [] then Inr (False, ExtensionData, ExtensionDataSize)
         else (case ossl_X509ConstructCertificate Q Cert of
                 None \<Rightarrow> Inr (False, ExtensionData, Some 0)
               | Some X509Cert \<Rightarrow>
                   let Exts = X509_get0_extensions Q X509Cert in
                   if Exts = [] then Inr (True, ExtensionData, Some 0)
                   else (case ossl_find_extension Exts oid of
                           None \<Rightarrow> Inr (True, ExtensionData, Some 0)
                         | Some oct \<Rightarrow>
                             if n < length oct then Inr (False, ExtensionData, Some (length oct))
                             else if ExtensionData = None \<and> oct \<noteq> [] then Inl NullDeref
                             else bind_res (copy_out ExtensionData oct) (\<lambda>buf.
                                    Inr (True, buf, Some (length oct)))))
     | _ \<Rightarrow> Inr (False, ExtensionData, ExtensionDataSize))"

definition ossl_X509GetExtendedKeyUsage where
  "ossl_X509GetExtendedKeyUsage Q Cert = ossl_X509GetExtensionData Q Cert (Some mOidExtKeyUsage)"

definition ossl_X509GetExtendedBasicConstraints where
  "ossl_X509GetExtendedBasicConstraints Q Cert BasicConstraints BasicConstraintsSize =
    (if Cert = None \<or> Cert = Some [] \<or> BasicConstraintsSize = None
     then Inr (False, BasicConstraints, BasicConstraintsSize)
     else ossl_X509GetExtensionData Q Cert (Some mOidBasicConstraints) BasicConstraints BasicConstraintsSize)"

section \<open>Encoded certificates\<close>

definition ossl_X509VerifyCert :: "'x x509_ossl \<Rightarrow> byte list option \<Rightarrow> byte list option \<Rightarrow> bool" where
  "ossl_X509VerifyCert Q Cert CACert =
    (if Cert = None \<or> CACert = None then False
     else if \<not> EVP_add_digests_ok Q then False
     else (case (ossl_X509ConstructCertificate Q Cert, ossl_X509ConstructCertificate Q CACert) of
             (Some x, Some y) \<Rightarrow> X509_verify_cert Q x y
           | _ \<Rightarrow> False))"

definition ossl_X509GetTBSCert :: "'x x509_ossl \<Rightarrow> byte list option \<Rightarrow> asn1_buf option" where
  "ossl_X509GetTBSCert Q Cert =
    (case Cert of
       None \<Rightarrow> None
     | Some m \<Rightarrow>
         if length m > INT_MAX then None
         else (case ASN1_get_object Q m 0 (int (length m)) 0 V_ASN1_UNDEF 0 of
                 (Flags, TBSCert, Length, Asn1Tag, ObjClass) \<Rightarrow>
                   if bit Flags 7 \<or> Asn1Tag \<noteq> V_ASN1_SEQUENCE then None
                   else (case ASN1_get_object Q m TBSCert Length Length Asn1Tag ObjClass of
                           (Flags, Temp, Length, Asn1Tag, ObjClass) \<Rightarrow>
                             if bit Flags 7 \<or> Asn1Tag \<noteq> V_ASN1_SEQUENCE then None
                             else Some (TBSCert, Length + (Temp - TBSCert)))))"

text \<open>
  The loops over a chain; \<open>Len\<close>, \<open>Tag\<close> and \<open>Cls\<close> are the variables that \<open>ASN1_get_object\<close> sets,
  of which the last two are not initialised at first. \<^verbatim>\<open>X509VerifyCert\<close> gets the range of the
  certificate as a pointer and a \<^verbatim>\<open>UINTN\<close>, so a negative length is a huge one. It returns FALSE
  without a look at the bytes when there is no preceding certificate, when the digests cannot be
  registered, and, in \<^verbatim>\<open>X509ConstructCertificate\<close>, when the length is above \<open>INT_MAX\<close>; after these
  checks the range goes to \<^verbatim>\<open>d2i_X509\<close>, and one that leaves the buffer is a read out of bounds.
\<close>

definition refused_unread :: "'x x509_ossl \<Rightarrow> int \<Rightarrow> byte list option \<Rightarrow> bool" where
  "refused_unread Q CertSize CACert \<longleftrightarrow>
    CACert = None \<or> \<not> EVP_add_digests_ok Q \<or> CertSize < 0 \<or> int INT_MAX < CertSize"

partial_function (option) ossl_verify_loop ::
    "'x x509_ossl \<Rightarrow> byte list \<Rightarrow> byte list option \<Rightarrow> int \<Rightarrow> int \<Rightarrow> int \<Rightarrow> int \<Rightarrow> bool \<Rightarrow> bool res option" where
  "ossl_verify_loop Q m PrecedingCert Current Len Tag Cls VerifyFlag =
    (case ASN1_get_object Q m Current (int (length m) - Current) Len Tag Cls of
       (Ret, TmpPtr, Length, Asn1Tag, ObjClass) \<Rightarrow>
         if Asn1Tag \<noteq> V_ASN1_SEQUENCE \<or> Ret = 0x80 then Some (Inr VerifyFlag)
         else if refused_unread Q (TmpPtr - Current + Length) PrecedingCert then Some (Inr False)
         else (case bytes m Current (TmpPtr - Current + Length) of
                 Inl f \<Rightarrow> Some (Inl f)
               | Inr x \<Rightarrow>
                   if \<not> ossl_X509VerifyCert Q (Some x) PrecedingCert then Some (Inr False)
                   else ossl_verify_loop Q m (Some x) (Current + (TmpPtr - Current + Length))
                          Length Asn1Tag ObjClass True))"

declare ossl_verify_loop.simps [code]

definition ossl_X509VerifyCertChain ::
    "'x x509_ossl \<Rightarrow> int \<Rightarrow> int \<Rightarrow> byte list option \<Rightarrow> byte list \<Rightarrow> bool res option" where
  "ossl_X509VerifyCertChain Q Tag Cls RootCert CertChain =
    ossl_verify_loop Q CertChain RootCert 0 0 Tag Cls False"

partial_function (option) ossl_cert_at_loop ::
    "'x x509_ossl \<Rightarrow> byte list \<Rightarrow> int \<Rightarrow> int \<Rightarrow> int \<Rightarrow> int \<Rightarrow> int \<Rightarrow> int \<Rightarrow> int \<Rightarrow> asn1_buf option option" where
  "ossl_cert_at_loop Q m CertIndex Current CurrentIndex CurrentCertLen Len Tag Cls =
    (case ASN1_get_object Q m Current (int (length m) - Current) Len Tag Cls of
       (Ret, TmpPtr, Asn1Len, Asn1Tag, ObjClass) \<Rightarrow>
         if Asn1Tag \<noteq> V_ASN1_SEQUENCE \<or> Ret = 0x80 then
           Some (if CertIndex = - 1 \<and> 0 \<le> CurrentIndex
                 then Some (Current - CurrentCertLen, CurrentCertLen) else None)
         else if CurrentIndex + 1 = CertIndex then
           Some (Some (Current, TmpPtr - Current + Asn1Len))
         else ossl_cert_at_loop Q m CertIndex (Current + (TmpPtr - Current + Asn1Len))
                (CurrentIndex + 1) (TmpPtr - Current + Asn1Len) Asn1Len Asn1Tag ObjClass)"

declare ossl_cert_at_loop.simps [code]

definition ossl_X509GetCertFromCertChain ::
    "'x x509_ossl \<Rightarrow> int \<Rightarrow> int \<Rightarrow> byte list option \<Rightarrow> int \<Rightarrow> asn1_buf option option" where
  "ossl_X509GetCertFromCertChain Q Tag Cls CertChain CertIndex =
    (case CertChain of
       None \<Rightarrow> Some None
     | Some m \<Rightarrow>
         if CertIndex < - 1 then Some None
         else ossl_cert_at_loop Q m CertIndex 0 (- 1) 0 0 Tag Cls)"

text \<open>The result, \<^verbatim>\<open>*Ptr\<close>, and \<^verbatim>\<open>*Length\<close> when it is set; \<open>l\<close>, \<open>t\<close>, \<open>c\<close> are uninitialised.\<close>

definition ossl_Asn1GetTag ::
    "'x x509_ossl \<Rightarrow> int \<Rightarrow> int \<Rightarrow> int \<Rightarrow> byte list \<Rightarrow> int \<Rightarrow> int \<Rightarrow> byte \<Rightarrow> bool \<times> int \<times> int option" where
  "ossl_Asn1GetTag Q l t c m Ptr End Tag =
    (case ASN1_get_object Q m Ptr (End - Ptr) l t c of
       (Flags, Ptr', ObjLength, ObjTag, ObjCls) \<Rightarrow>
         if \<not> bit Flags 7 \<and> ObjTag = uint (Tag AND 0x1F) \<and> ObjCls = uint (Tag AND 0xC0)
         then (True, Ptr', Some ObjLength) else (False, Ptr, None))"

end
