(* ===== verification/X509Time.thy ===== *)
theory X509Time
  imports X509 CrtString "HOL-Library.List_Lexorder"
begin

text \<open>
  Date and time of \<^verbatim>\<open>CryptX509.c\<close> (MbedTLS): the validity of a certificate, the conversion of text,
  and the comparison. A \<^verbatim>\<open>DateTime\<close> buffer is the time that it holds, or \<open>None\<close> for NULL; \<open>ch\<close> is
  the value of a \<^verbatim>\<open>CHAR8\<close> (signed or unsigned). No value here leaves the range of an \<^verbatim>\<open>int\<close>.
\<close>

definition sizeof_time :: nat where "sizeof_time = 24"  \<comment> \<open>six \<^verbatim>\<open>int\<close>\<close>

text \<open>Status, and the two times with their sizes.\<close>

definition X509GetValidity ::
    "'pk mbedtls \<Rightarrow> byte list option \<Rightarrow> mbedtls_x509_time option \<Rightarrow> nat
     \<Rightarrow> mbedtls_x509_time option \<Rightarrow> nat
     \<Rightarrow> bool \<times> mbedtls_x509_time option \<times> nat \<times> mbedtls_x509_time option \<times> nat" where
  "X509GetValidity L Cert From FromSize To ToSize =
    (case Option.bind Cert (parse_crt L) of
       None \<Rightarrow> (False, From, FromSize, To, ToSize)
     | Some Crt \<Rightarrow>
         if FromSize < sizeof_time then (False, From, sizeof_time, To, ToSize)
         else let From = map_option (\<lambda>t. info_valid_from (crt_info Crt)) From in
           if ToSize < sizeof_time then (False, From, sizeof_time, To, sizeof_time)
           else (True, From, sizeof_time,
                 map_option (\<lambda>t. info_valid_to (crt_info Crt)) To, sizeof_time))"

definition InternalX509CheckTime :: "mbedtls_x509_time \<Rightarrow> mbedtls_x509_time \<Rightarrow> int" where
  "InternalX509CheckTime Before After =
    (if year Before > year After then 1
     else if year Before = year After \<and> mon Before > mon After then 1
     else if year Before = year After \<and> mon Before = mon After \<and> day Before > day After then 1
     else if year Before = year After \<and> mon Before = mon After \<and> day Before = day After
       \<and> hour Before > hour After then 1
     else if year Before = year After \<and> mon Before = mon After \<and> day Before = day After
       \<and> hour Before = hour After \<and> minute Before > minute After then 1
     else if year Before = year After \<and> mon Before = mon After \<and> day Before = day After
       \<and> hour Before = hour After \<and> minute Before = minute After \<and> sec Before > sec After then 1
     else 0)"

definition X509CompareDateTime ::
    "mbedtls_x509_time option \<Rightarrow> mbedtls_x509_time option \<Rightarrow> int" where
  "X509CompareDateTime DateTime1 DateTime2 =
    (case (DateTime1, DateTime2) of
       (Some t1, Some t2) \<Rightarrow>
         if t2 = t1 then 0 else if InternalX509CheckTime t1 t2 = 0 then - 1 else 1
     | _ \<Rightarrow> - 2)"

text \<open>The characters from \<open>PStart\<close> to \<open>PEnd\<close>; \<open>m\<close> is the text with its NUL.\<close>

function atoi_loop :: "(byte \<Rightarrow> int) \<Rightarrow> byte list \<Rightarrow> nat \<Rightarrow> nat \<Rightarrow> int \<Rightarrow> int res" where
  "atoi_loop ch m Ptr PEnd Knum =
    (if Ptr < PEnd then
       if Ptr < length m then atoi_loop ch m (Suc Ptr) PEnd (Knum * 8 + Knum * 2 + ch (m ! Ptr) - 48)
       else Inl OobRead
     else Inr Knum)"
  by pat_completeness auto
termination by (relation "measure (\<lambda>(c, m, p, e, k). e - p)") auto

declare atoi_loop.simps [simp del]

definition InternalAtoI :: "(byte \<Rightarrow> int) \<Rightarrow> byte list \<Rightarrow> nat \<Rightarrow> nat \<Rightarrow> int res" where
  "InternalAtoI ch m PStart PEnd = atoi_loop ch m PStart PEnd 0"

definition X509SetDateTime ::
    "(byte \<Rightarrow> int) \<Rightarrow> byte list \<Rightarrow> mbedtls_x509_time option \<Rightarrow> nat
     \<Rightarrow> (efi_status \<times> mbedtls_x509_time option \<times> nat) res" where
  "X509SetDateTime ch DateTimeStr DateTime DateTimeSize =
    (let m = DateTimeStr @ [0] in
     bind_res (InternalAtoI ch m 0 4) (\<lambda>Year.
     bind_res (InternalAtoI ch m 4 6) (\<lambda>Month.
     bind_res (InternalAtoI ch m 6 8) (\<lambda>Day.
     bind_res (InternalAtoI ch m 8 10) (\<lambda>Hour.
     bind_res (InternalAtoI ch m 10 12) (\<lambda>Minute.
     bind_res (InternalAtoI ch m 12 14) (\<lambda>Second.
       let Dt = \<lparr>year = Year, mon = Month, day = Day, hour = Hour, minute = Minute, sec = Second\<rparr> in
       if DateTimeSize < sizeof_time then Inr (EFI_BUFFER_TOO_SMALL, DateTime, sizeof_time)
       else Inr (EFI_SUCCESS, map_option (\<lambda>t. Dt) DateTime, sizeof_time))))))))"

text \<open>\<open>dig i\<close> is \<^verbatim>\<open>DateTimeStr[i] - '0'\<close>.\<close>

definition X509FormatDateTime ::
    "(byte \<Rightarrow> int) \<Rightarrow> byte list \<Rightarrow> mbedtls_x509_time option \<Rightarrow> nat
     \<Rightarrow> (bool \<times> mbedtls_x509_time option) res" where
  "X509FormatDateTime ch DateTimeStr DateTime DateTimeSize =
    (let m = DateTimeStr @ [0]; dig = (\<lambda>i. ch (m ! i) - 48) in
     if DateTimeSize < sizeof_time then Inr (False, DateTime)
     else if DateTime = None then Inr (False, DateTime)
     else if length m < 14 then Inl OobRead
     else Inr (True, Some
       \<lparr>year = dig 0 * 1000 + dig 1 * 100 + dig 2 * 10 + dig 3 * 1,
        mon = dig 4 * 10 + dig 5 * 1, day = dig 6 * 10 + dig 7 * 1,
        hour = dig 8 * 10 + dig 9 * 1, minute = dig 10 * 10 + dig 11 * 1,
        sec = dig 12 * 10 + dig 13 * 1\<rparr>))"

section \<open>Comparison\<close>

text \<open>Times are ordered by their fields, from the year down to the second.\<close>

definition time_list :: "'a mbedtls_x509_time_scheme \<Rightarrow> int list" where
  "time_list t = [year t, mon t, day t, hour t, minute t, sec t]"

lemma time_list_eq:
  "time_list a = time_list b \<Longrightarrow> mbedtls_x509_time.more a = mbedtls_x509_time.more b \<Longrightarrow> a = b"
  by (cases a; cases b) (simp add: time_list_def)

instantiation mbedtls_x509_time_ext :: (linorder) linorder
begin

definition less_eq_mbedtls_x509_time_ext ::
    "'a mbedtls_x509_time_scheme \<Rightarrow> 'a mbedtls_x509_time_scheme \<Rightarrow> bool" where
  "less_eq_mbedtls_x509_time_ext a b \<longleftrightarrow> time_list a < time_list b
     \<or> time_list a = time_list b \<and> mbedtls_x509_time.more a \<le> mbedtls_x509_time.more b"

definition less_mbedtls_x509_time_ext ::
    "'a mbedtls_x509_time_scheme \<Rightarrow> 'a mbedtls_x509_time_scheme \<Rightarrow> bool" where
  "less_mbedtls_x509_time_ext a b \<longleftrightarrow> time_list a < time_list b
     \<or> time_list a = time_list b \<and> mbedtls_x509_time.more a < mbedtls_x509_time.more b"

instance
proof (standard, goal_cases)
  case (1 x y)
  then show ?case by (auto simp: less_eq_mbedtls_x509_time_ext_def less_mbedtls_x509_time_ext_def)
next
  case (2 x)
  then show ?case by (simp add: less_eq_mbedtls_x509_time_ext_def)
next
  case (3 x y z)
  then show ?case by (auto simp: less_eq_mbedtls_x509_time_ext_def)
next
  case (4 x y)
  then show ?case by (auto simp: less_eq_mbedtls_x509_time_ext_def intro: time_list_eq)
next
  case (5 x y)
  then show ?case by (auto simp: less_eq_mbedtls_x509_time_ext_def)
qed

end

lemma time_less: "(a :: mbedtls_x509_time) < b \<longleftrightarrow> time_list a < time_list b"
  by (simp add: less_mbedtls_x509_time_ext_def)

lemma CheckTime_less: "InternalX509CheckTime a b = (if b < a then 1 else 0)"
  by (auto simp: InternalX509CheckTime_def time_less time_list_def)

text \<open>\<^verbatim>\<open>X509CompareDateTime\<close> is the order of times from the year down to the second.
\<close>

theorem compare_datetime_exact:
  "X509CompareDateTime a b = (case (a, b) of
     (Some s, Some t) \<Rightarrow> if s = t then 0 else if s < t then - 1 else 1
   | _ \<Rightarrow> - 2)"
  by (auto simp: X509CompareDateTime_def CheckTime_less split: option.splits)

section \<open>Text\<close>

lemma atoi_step:
  "p < e \<Longrightarrow> p < length m \<Longrightarrow> atoi_loop ch m p e k = atoi_loop ch m (Suc p) e (k * 8 + k * 2 + ch (m ! p) - 48)"
  "\<not> p < e \<Longrightarrow> atoi_loop ch m p e k = Inr k"
  by (subst atoi_loop.simps, simp)+

lemma atoi_digits:
  "i + 1 < length m \<Longrightarrow> InternalAtoI ch m i (i + 2) = Inr ((ch (m ! i) - 48) * 10 + (ch (m ! (i + 1)) - 48) * 1)"
  "m \<noteq> [] \<Longrightarrow> 3 < length m \<Longrightarrow> InternalAtoI ch m 0 4 = Inr ((ch (m ! 0) - 48) * 1000 + (ch (m ! 1) - 48) * 100
    + (ch (m ! 2) - 48) * 10 + (ch (m ! 3) - 48) * 1)"
  by (simp_all add: InternalAtoI_def atoi_step numeral_eq_Suc)

text \<open>\<^verbatim>\<open>X509SetDateTime\<close> and \<^verbatim>\<open>X509FormatDateTime\<close> read every text of at least 14 characters alike,
  whatever the characters are; none of them is checked.
\<close>

lemma set_format_text:
  assumes "13 \<le> length DateTimeStr" and "sizeof_time \<le> n"
  shows "\<exists>Dt. X509SetDateTime ch DateTimeStr (Some t) n = Inr (EFI_SUCCESS, Some Dt, sizeof_time)
    \<and> X509FormatDateTime ch DateTimeStr (Some t) n = Inr (True, Some Dt)"
proof -
  let ?m = "DateTimeStr @ [0]"
  have len: "14 \<le> length ?m" using assms(1) by simp
  then show ?thesis
    using atoi_digits(1) [of 4 ?m ch] atoi_digits(1) [of 6 ?m ch] atoi_digits(1) [of 8 ?m ch]
      atoi_digits(1) [of 10 ?m ch] atoi_digits(1) [of 12 ?m ch] atoi_digits(2) [of ?m ch] assms(2)
    by (simp add: X509SetDateTime_def X509FormatDateTime_def Let_def)
qed

text \<open>A time of four and of two digits as text.\<close>

definition digit_of :: "int \<Rightarrow> byte" where
  "digit_of k = 48 + of_int k"

definition two_digits :: "int \<Rightarrow> byte list" where
  "two_digits k = [digit_of (k div 10), digit_of (k mod 10)]"

definition time_text :: "mbedtls_x509_time \<Rightarrow> byte list" where
  "time_text t = two_digits (year t div 100) @ two_digits (year t mod 100) @ two_digits (mon t)
     @ two_digits (day t) @ two_digits (hour t) @ two_digits (minute t) @ two_digits (sec t)"

lemma digit_of_value:
  assumes "char_conv ch" and "0 \<le> k" and "k < 10"
  shows "ch (digit_of k) = 48 + k"
proof -
  have u: "uint (digit_of k) = 48 + k"
    using assms(2,3) by (simp add: digit_of_def uint_word_ariths take_bit_eq_mod uint_word_of_int)
  then have "sint (digit_of k) = 48 + k"
    using assms(2,3) by (simp add: sint_uint signed_take_bit_int_eq_self)
  with u show ?thesis using assms(1) by (auto simp: char_conv_def)
qed

definition fields_fit :: "mbedtls_x509_time \<Rightarrow> bool" where
  "fields_fit t \<longleftrightarrow> 0 \<le> year t \<and> year t < 10000 \<and> (\<forall>k \<in> {mon t, day t, hour t, minute t, sec t}. 0 \<le> k \<and> k < 100)"

lemma format_list:
  "X509FormatDateTime ch (a # b # c # d # e # f # g # h # i # j # k # l # m # n # rest) (Some u) sz =
    (if sz < sizeof_time then Inr (False, Some u)
     else Inr (True, Some \<lparr>year = (ch a - 48) * 1000 + (ch b - 48) * 100 + (ch c - 48) * 10 + (ch d - 48) * 1,
       mon = (ch e - 48) * 10 + (ch f - 48) * 1, day = (ch g - 48) * 10 + (ch h - 48) * 1,
       hour = (ch i - 48) * 10 + (ch j - 48) * 1, minute = (ch k - 48) * 10 + (ch l - 48) * 1,
       sec = (ch m - 48) * 10 + (ch n - 48) * 1\<rparr>))"
  by (simp add: X509FormatDateTime_def Let_def)

text \<open>The text of a time is read back as that time, by both functions.
\<close>

theorem datetime_roundtrip:
  assumes "char_conv ch" and "fields_fit t" and "sizeof_time \<le> n"
  shows "X509SetDateTime ch (time_text t @ rest) (Some u) n = Inr (EFI_SUCCESS, Some t, sizeof_time)
    \<and> X509FormatDateTime ch (time_text t @ rest) (Some u) n = Inr (True, Some t)"
proof -
  have two: "ch (digit_of (k div 10)) - 48 = k div 10" "ch (digit_of (k mod 10)) - 48 = k mod 10"
    if "0 \<le> k" "k < 100" for k
    using that by (simp_all add: digit_of_value [OF assms(1)])
  have sum: "k div 10 * 10 + k mod 10 * 1 = k" for k :: int by simp
  have four: "year t div 100 div 10 * 1000 + year t div 100 mod 10 * 100
    + year t mod 100 div 10 * 10 + year t mod 100 mod 10 * 1 = year t" by presburger
  have y: "0 \<le> year t div 100" "year t div 100 < 100" "0 \<le> year t mod 100" "year t mod 100 < 100"
    using assms(2) by (auto simp: fields_fit_def)
  have r: "0 \<le> mon t" "mon t < 100" "0 \<le> day t" "day t < 100" "0 \<le> hour t" "hour t < 100"
    "0 \<le> minute t" "minute t < 100" "0 \<le> sec t" "sec t < 100"
    using assms(2) by (auto simp: fields_fit_def)
  have "X509FormatDateTime ch (time_text t @ rest) (Some u) n = Inr (True, Some t)"
    using assms(3) unfolding time_text_def two_digits_def append_Cons append_Nil format_list
    by (simp only: two [OF y(1,2)] two [OF y(3,4)] two [OF r(1,2)] two [OF r(3,4)] two [OF r(5,6)]
        two [OF r(7,8)] two [OF r(9,10)] sum four not_less if_False) simp
  then show ?thesis
    using set_format_text [of "time_text t @ rest" n ch u] assms(3)
    by (simp add: time_text_def two_digits_def)
qed

text \<open>The thirteenth month is accepted.\<close>

definition odd_time :: mbedtls_x509_time where
  "odd_time = \<lparr>year = 2024, mon = 13, day = 31, hour = 25, minute = 0, sec = 59\<rparr>"

theorem datetime_roundtrip_witness:
  "X509SetDateTime sint (time_text odd_time @ [0x5A]) (Some zero_time) 24 = Inr (EFI_SUCCESS, Some odd_time, 24)
   \<and> time_text odd_time = map (\<lambda>c. of_nat c) [50, 48, 50, 52, 49, 51, 51, 49, 50, 53, 48, 48, 53, 57]"
proof -
  have "fields_fit odd_time" by (simp add: fields_fit_def odd_time_def)
  then show ?thesis
    using datetime_roundtrip [of sint odd_time 24 "[0x5A]" zero_time]
    by (simp add: char_conv_def sizeof_time_def time_text_def two_digits_def digit_of_def odd_time_def)
qed

end
