(* ===== verification/X509Props.thy ===== *)
theory X509Props
  imports X509Chain X509Time EkuDemo
begin

text \<open>
  The properties of \<^verbatim>\<open>CryptX509.c\<close> (MbedTLS): what the extension getters deliver, which chains are
  verified, which certificate of a chain is found, and the life cycle of objects and stacks.
\<close>

section \<open>A concrete library\<close>

definition x509_demo :: "byte x509_lib" where
  "x509_demo = \<lparr>x509_verify = (\<lambda>chain ca. demo_verify ca False chain),
     mbedtls_asn1_find_named_data = map_of, mbedtls_pk_is_rsa = (\<lambda>k. k \<noteq> None),
     mbedtls_rsa_set_padding = 0, mbedtls_rsa_copy = (\<lambda>k. 0),
     sizeof_x509_crt = 600, sizeof_rsa_context = 200\<rparr>"

definition demo_heap :: "byte x509_heap" where
  "demo_heap = \<lparr>x_pool = demo_pool, x_chain = (\<lambda>b. None)\<rparr>"

text \<open>Two certificates, of which the first one issued the second one, and two bytes.\<close>

definition demo_chain :: "byte list" where
  "demo_chain = demo_cert 7 0x11 @ demo_cert 8 0x10 @ [9, 9]"

section \<open>Extensions\<close>

text \<open>C15: \<^verbatim>\<open>X509GetExtensionData\<close> never delivers an extension: it leaves the buffer as it is, and
  when it returns \<^verbatim>\<open>TRUE\<close> the size is 0. It returns \<^verbatim>\<open>TRUE\<close> for every certificate with a list of
  extensions, whether the extension is there or not.
\<close>

theorem x509_extension_never:
  assumes "X509GetExtensionData L Cert Oid buf n = Some (Inr (ok, buf', n'))"
  shows "buf' = buf \<and> (ok \<longrightarrow> n' = Some 0)
    \<and> (ok \<longleftrightarrow> (\<exists>x oid. Cert = Some x \<and> Oid = Some oid \<and> x \<noteq> [] \<and> oid \<noteq> [] \<and> n \<noteq> None
         \<and> (\<exists>Crt. parse_crt L x = Some Crt \<and> (\<exists>p k. mbedtls_asn1_get_tag L (crt_raw Crt) (fst (crt_v3_ext Crt))
               (fst (crt_v3_ext Crt) + snd (crt_v3_ext Crt)) 0 ASN1_SEQUENCE = (0, p, k)))))"
  using assms
  by (auto simp: X509GetExtensionData_def extension_out_def Let_def elim!: bind_res_InrE
      split: option.splits if_splits prod.splits)

theorem x509_extension_never_witness:
  "X509GetExtendedKeyUsage eku_demo (Some leaf_cert) (Some (replicate 10 0)) (Some 10)
    = Some (Inr (True, Some (replicate 10 0), Some 0))"
proof -
  obtain ok b n where r: "X509GetExtensionData eku_demo (Some leaf_cert) (Some OID_extKeyUsage)
      (Some (replicate 10 0)) (Some 10) = Some (Inr (ok, b, n))"
    using leaf_usage eku_crt_leaf
    by (auto simp: X509GetExtensionData_def parse_crt_def leaf_cert_def eku_cert_def der_def
        OID_extKeyUsage_def EkuOID_def x509_FindExtensionData_def extension_out_def)
  from x509_extension_never [OF r] r show ?thesis
    using leaf_usage eku_crt_leaf
    by (auto simp: X509GetExtendedKeyUsage_def parse_crt_def leaf_cert_def eku_cert_def der_def
        OID_extKeyUsage_def)
qed

section \<open>Chains\<close>

lemma chain_at_unique: "chain_at L m p es \<Longrightarrow> chain_at L m p es' \<Longrightarrow> es = es'"
proof (induction arbitrary: es' rule: chain_at.induct)
  case (stop p Ret q n)
  then show ?case by (auto elim: chain_at.cases)
next
  case (element p q n es)
  from element.prems element.hyps(1) show ?case
    by (cases rule: chain_at.cases) (auto dest: element.IH [simplified])
qed

text \<open>C33: \<^verbatim>\<open>X509VerifyCertChain\<close> ends, and accepts a buffer exactly when there is a certificate at its
  start and each certificate that follows another is verified with the one in front of it as
  the trusted one. What follows the last well-formed element is ignored.
\<close>

theorem x509_chain_verified:
  assumes "asn1_ok L"
  shows "\<exists>es. chain_at L m 0 es \<and> X509VerifyCertChain L V Root m
    = Some (Inr (es \<noteq> [] \<and> links_ok L V Root (map (cert_bytes m) es)))"
proof -
  obtain es where es: "chain_at L m 0 es" using chain_at_exists [OF assms] by blast
  then show ?thesis using verify_loop_chain [OF assms es]
    by (intro exI [of _ es]) (simp add: X509VerifyCertChain_def)
qed

lemma demo_chain_at: "chain_at demo demo_chain 0 [(0, 7), (7, 7)]"
proof -
  have "mbedtls_asn1_get_tag demo demo_chain 0 (int (length demo_chain)) 0 ASN1_SEQUENCE = (0, 2, 5)"
    "mbedtls_asn1_get_tag demo demo_chain 7 (int (length demo_chain)) 0 ASN1_SEQUENCE = (0, 9, 5)"
    "mbedtls_asn1_get_tag demo demo_chain 14 (int (length demo_chain)) 0 ASN1_SEQUENCE = (- 1, 14, 0)"
    by code_simp+
  then show ?thesis
    using chain_at.stop [of demo demo_chain 14 "- 1" 14 0] chain_at.element [of demo demo_chain 7 9 5 "[]"]
      chain_at.element [of demo demo_chain 0 2 5 "[(7, 7)]"] by simp
qed

theorem x509_chain_verified_witness:
  "X509VerifyCertChain demo x509_demo (Some (demo_cert 1 0x12)) demo_chain = Some (Inr True)"
proof -
  have "links_ok demo x509_demo (Some (demo_cert 1 0x12)) (map (cert_bytes demo_chain) [(0, 7), (7, 7)])"
    by code_simp
  then show ?thesis
    using x509_chain_verified [OF demo_asn1_ok, of demo_chain x509_demo "Some (demo_cert 1 0x12)"] demo_chain_at
    by (auto dest: chain_at_unique)
qed

text \<open>\<^verbatim>\<open>X509GetCertFromCertChain\<close> gives the certificate of the index, or the last one for the
  index -1, and fails when there is none; what it gives lies inside the buffer.
\<close>

theorem x509_cert_at:
  assumes "asn1_ok L" and "- 1 \<le> i"
  shows "\<exists>es. chain_at L m 0 es \<and> X509GetCertFromCertChain L (Some m) i = Some
      (if i = - 1 then (if es = [] then None else Some (last es))
       else if nat i < length es then Some (es ! nat i) else None)
    \<and> (\<forall>(a, n) \<in> set es. 0 \<le> a \<and> 0 < n \<and> a + n \<le> int (length m))"
proof -
  obtain es where es: "chain_at L m 0 es" using chain_at_exists [OF assms(1)] by blast
  then show ?thesis
    using cert_at_loop_chain [OF es assms(2), of "- 1" 0] chain_at_inside [OF assms(1) es] assms(2)
    by (intro exI [of _ es]) (auto simp: X509GetCertFromCertChain_def)
qed

theorem x509_cert_at_witness:
  "X509GetCertFromCertChain demo (Some demo_chain) 1 = Some (Some (7, 7))"
  using x509_cert_at [OF demo_asn1_ok, of 1 demo_chain] demo_chain_at
  by (auto dest: chain_at_unique)

section \<open>Names\<close>

text \<open>\<^verbatim>\<open>X509GetSubjectName\<close> copies the whole subject whatever size it is told: it overflows every
  buffer that is shorter than the subject, and it reports success otherwise.
\<close>

theorem subject_name_unchecked:
  "X509GetSubjectName L Cert (Some buf) (Some n) =
    (case Option.bind Cert (parse_crt L) of
       None \<Rightarrow> Inr (False, Some buf, Some n)
     | Some Crt \<Rightarrow>
         if length buf < length (info_subject_raw (crt_info Crt)) then Inl OobWrite
         else Inr (True, Some (copy_at 0 (info_subject_raw (crt_info Crt)) buf),
                   Some (length (info_subject_raw (crt_info Crt)))))"
  by (auto simp: X509GetSubjectName_def copy_out_def Let_def split: option.split)

section \<open>Objects and stacks\<close>

definition heap_ok :: "'pk x509_heap \<Rightarrow> bool" where
  "heap_ok s \<longleftrightarrow> pool_inv (x_pool s) \<and> (\<forall>b. x_chain s b \<noteq> None \<longrightarrow> b \<in> pool_live (x_pool s))"

lemma x_alloc_None:
  assumes "x_alloc s n = (None, s')" and "heap_ok s"
  shows "heap_ok s'" "pool_live (x_pool s') = pool_live (x_pool s)" "x_chain s' = x_chain s"
  using assms AllocatePool_None [of "x_pool s" n "x_pool s'"]
  by (auto simp: x_alloc_def heap_ok_def split: prod.splits option.splits)

lemma x_alloc_Some:
  assumes "x_alloc s n = (Some b, s')" and "heap_ok s"
  shows "heap_ok s'" "b \<notin> pool_live (x_pool s)" "pool_live (x_pool s') = insert b (pool_live (x_pool s))"
    "x_chain s' = (x_chain s)(b := Some [])"
  using assms AllocatePool_Some [of "x_pool s" n b "x_pool s'"]
  by (auto simp: x_alloc_def heap_ok_def split: prod.splits option.splits if_splits)

lemma x_free_live:
  assumes "heap_ok s" and "b \<in> pool_live (x_pool s)"
  shows "\<exists>s'. x_free s b = Inr s' \<and> heap_ok s' \<and> pool_live (x_pool s') = pool_live (x_pool s) - {b}
    \<and> x_chain s' = (x_chain s)(b := None)"
  using assms FreePool_live [of b "x_pool s"] by (auto simp: x_free_def heap_ok_def)

text \<open>\<^verbatim>\<open>X509ConstructCertificate\<close> gives a new object with the certificate, and leaks nothing when
  the certificate does not parse; but then the caller's pointer is left pointing to the freed object.
\<close>

theorem construct_certificate:
  assumes "heap_ok s" and "x \<noteq> []"
    and "X509ConstructCertificate L V s (Some x) True = Inr (ok, Some b, s')"
  shows "b \<notin> pool_live (x_pool s) \<and>
    (case parse_crt L x of
       Some Crt \<Rightarrow> ok \<and> x_chain s' = (x_chain s)(b := Some [Crt])
         \<and> pool_live (x_pool s') = insert b (pool_live (x_pool s))
     | None \<Rightarrow> \<not> ok \<and> x_chain s' b = None \<and> pool_live (x_pool s') = pool_live (x_pool s))"
proof -
  obtain s1 where a: "x_alloc s (sizeof_x509_crt V) = (Some b, s1)"
    using assms(2,3) by (auto simp: X509ConstructCertificate_def elim!: bind_res_InrE
        split: prod.splits option.splits if_splits)
  note al = x_alloc_Some [OF a assms(1)]
  have c: "x_chain s1 b = Some []" using al(4) by simp
  have live: "b \<in> pool_live (x_pool s1)" using al(3) by simp
  have ok1: "heap_ok (s1\<lparr>x_chain := (x_chain s1)(b := Some [])\<rparr>)"
    using al(1) live by (auto simp: heap_ok_def)
  obtain s2 where f: "x_free (s1\<lparr>x_chain := (x_chain s1)(b := Some [])\<rparr>) b = Inr s2"
    "pool_live (x_pool s2) = pool_live (x_pool s1) - {b}" "x_chain s2 b = None"
    using x_free_live [OF ok1, of b] live by auto
  show ?thesis using assms(2,3) al c f
    by (auto simp: X509ConstructCertificate_def a x_parse_def x_empty_def parse_crt_def
        split: prod.splits if_splits)
qed

theorem construct_certificate_witness:
  "\<exists>s. X509ConstructCertificate demo x509_demo demo_heap (Some [1]) True = Inr (False, Some 0, s)
    \<and> x_chain s 0 = None \<and> pool_live (x_pool s) = {}"
proof -
  have h: "heap_ok demo_heap" by (simp add: heap_ok_def demo_heap_def demo_pool_def)
  obtain s where "X509ConstructCertificate demo x509_demo demo_heap (Some [1]) True = Inr (False, Some 0, s)"
    by (simp add: X509ConstructCertificate_def x_alloc_def AllocatePool_def demo_heap_def demo_pool_def
        empty_pool_def x_parse_def demo_def demo_crt_def x_empty_def x_free_def FreePool_def)
  then show ?thesis using construct_certificate [OF h, of "[1]" demo x509_demo False 0 s]
    by (simp add: parse_crt_def demo_def demo_crt_def demo_heap_def demo_pool_def empty_pool_def)
qed

lemma x_empty_free:
  assumes "heap_ok s" and "x_chain s b \<noteq> None"
  shows "\<exists>s1 s2. x_empty s b = Inr s1 \<and> x_free s1 b = Inr s2 \<and> heap_ok s2
    \<and> pool_live (x_pool s1) = pool_live (x_pool s)
    \<and> pool_live (x_pool s2) = pool_live (x_pool s) - {b} \<and> x_chain s2 = (x_chain s)(b := None)"
proof -
  let ?s1 = "s\<lparr>x_chain := (x_chain s)(b := Some [])\<rparr>"
  have b: "b \<in> pool_live (x_pool s)" using assms by (auto simp: heap_ok_def)
  then have "heap_ok ?s1" using assms(1) by (auto simp: heap_ok_def)
  from x_free_live [OF this, of b] b show ?thesis using assms(2) by (auto simp: x_empty_def)
qed

text \<open>
  What the loop over the arguments amounts to: whether all certificates up to the end of the list
  parse, and those that are parsed; \<open>None\<close> when the list has no end.
\<close>

fun stack_spec :: "'pk mbedtls \<Rightarrow> byte list option list \<Rightarrow> (bool \<times> 'pk x509_crt list) option" where
  "stack_spec L [] = None"
| "stack_spec L (Cert # Args) =
    (if Cert = None \<or> Cert = Some [] then Some (True, [])
     else (case parse_crt L (the Cert) of
             None \<Rightarrow> Some (False, [])
           | Some c \<Rightarrow> map_option (\<lambda>(ok, cs). (ok, c # cs)) (stack_spec L Args)))"

lemma stack_loop_spec:
  assumes "x_chain s b = Some Chain"
  shows "case stack_spec L Args of
      None \<Rightarrow> stack_loop L b Args s = Inl OobRead
    | Some (ok, cs) \<Rightarrow> \<exists>Ret s'. stack_loop L b Args s = Inr (Ret, s') \<and> (Ret = 0 \<longleftrightarrow> ok)
        \<and> x_pool s' = x_pool s \<and> x_chain s' = (x_chain s)(b := Some (Chain @ cs))"
  using assms
proof (induction Args arbitrary: s Chain)
  case Nil
  then show ?case by simp
next
  case (Cons Cert Args)
  show ?case
  proof (cases "Cert = None \<or> Cert = Some []")
    case True
    then show ?thesis using Cons.prems by (auto simp: fun_upd_idem)
  next
    case False
    then obtain x where x: "Cert = Some x" "x \<noteq> []" by auto
    obtain Ret Crt where p: "mbedtls_x509_crt_parse_der L x = (Ret, Crt)"
      by (cases "mbedtls_x509_crt_parse_der L x") auto
    show ?thesis
    proof (cases "Ret = 0")
      case False
      then show ?thesis using x p Cons.prems
        by (auto simp: parse_crt_def x_parse_def fun_upd_idem)
    next
      case True
      let ?s = "s\<lparr>x_chain := (x_chain s)(b := Some (Chain @ [Crt]))\<rparr>"
      have "stack_loop L b (Cert # Args) s = stack_loop L b Args ?s"
        using x p True Cons.prems by (simp add: x_parse_def)
      moreover have "stack_spec L (Cert # Args)
          = map_option (\<lambda>(ok, cs). (ok, Crt # cs)) (stack_spec L Args)"
        using x p True by (simp add: parse_crt_def)
      moreover have "x_chain ?s b = Some (Chain @ [Crt])" by simp
      note Cons.IH [OF this]
      ultimately show ?thesis
        by (auto simp: fun_eq_iff simp del: stack_loop.simps stack_spec.simps split: option.splits)
    qed
  qed
qed

text \<open>A stack that \<^verbatim>\<open>X509ConstructCertificateStackV\<close> makes holds the certificates up to the end of the
  list, in order. When a certificate does not parse there is no stack and no block is left. A
  stack that was made is not given back by \<^verbatim>\<open>X509StackFree\<close>, which keeps its block, but by
  \<^verbatim>\<open>X509Free\<close>.
\<close>

theorem stack_life:
  assumes "heap_ok s" and "stack_spec L Args = Some (good, cs)"
    and "X509ConstructCertificateStackV L V s (Some None) Args = Inr (ok, stack, s')"
  shows "(case stack of
      Some (Some b) \<Rightarrow> ok \<and> good \<and> b \<notin> pool_live (x_pool s) \<and> x_chain s' = (x_chain s)(b := Some cs)
        \<and> (\<exists>s2. X509StackFree s' (Some b) = Inr s2 \<and> pool_live (x_pool s2) = insert b (pool_live (x_pool s)))
        \<and> (\<exists>s3. X509Free s' (Some b) = Inr s3 \<and> pool_live (x_pool s3) = pool_live (x_pool s))
    | _ \<Rightarrow> \<not> ok \<and> pool_live (x_pool s') = pool_live (x_pool s))"
proof -
  obtain b s1 where a: "x_alloc s (sizeof_x509_crt V) = (b, s1)"
    by (cases "x_alloc s (sizeof_x509_crt V)") auto
  show ?thesis
  proof (cases b)
    case None
    then show ?thesis using assms(3) a x_alloc_None [of s _ s1] assms(1)
      by (auto simp: X509ConstructCertificateStackV_def)
  next
    case (Some c)
    note al = x_alloc_Some [OF a [unfolded Some] assms(1)]
    then have "x_chain s1 c = Some []" by simp
    from stack_loop_spec [OF this, of L Args] obtain Ret s2 where
      l: "stack_loop L c Args s1 = Inr (Ret, s2)" "Ret = 0 \<longleftrightarrow> good" "x_pool s2 = x_pool s1"
        "x_chain s2 = (x_chain s)(c := Some cs)"
      using assms(2) al(4) by auto
    have "heap_ok s2" using al l by (auto simp: heap_ok_def split: if_splits)
    from x_empty_free [OF this, of c] obtain s3 s4 where
      f: "x_empty s2 c = Inr s3" "x_free s3 c = Inr s4" "pool_live (x_pool s3) = pool_live (x_pool s2)"
        "pool_live (x_pool s4) = pool_live (x_pool s2) - {c}"
      using l(4) by auto
    show ?thesis
      using assms(3) a Some l f al
      by (auto simp: X509ConstructCertificateStackV_def X509StackFree_def X509Free_def split: if_splits)
  qed
qed

theorem stack_life_witness:
  "\<exists>s s2. X509ConstructCertificateStackV demo x509_demo demo_heap (Some None) [Some (demo_cert 7 0x11), None]
      = Inr (True, Some (Some 0), s)
    \<and> X509StackFree s (Some 0) = Inr s2 \<and> pool_live (x_pool s2) = {0}"
proof -
  let ?c = "demo_cert 7 0x11"
  have h: "heap_ok demo_heap" by (simp add: heap_ok_def demo_heap_def demo_pool_def)
  obtain c where c: "demo_crt ?c = (0, c)" "?c \<noteq> []" by (simp add: demo_crt_def demo_cert_def der_def)
  obtain s where s: "X509ConstructCertificateStackV demo x509_demo demo_heap (Some None) [Some ?c, None]
      = Inr (True, Some (Some 0), s)"
    using c by (simp add: X509ConstructCertificateStackV_def x_alloc_def AllocatePool_def demo_heap_def
        demo_pool_def empty_pool_def x_parse_def demo_def)
  have "stack_spec demo [Some ?c, None] = Some (True, [c])"
    using c by (simp add: parse_crt_def demo_def)
  from stack_life [OF h this s] s show ?thesis by (auto simp: demo_heap_def demo_pool_def empty_pool_def)
qed

end
