(* ===== verification/OsslX509Props.thy ===== *)
theory OsslX509Props
  imports OsslX509 X509Props
begin

text \<open>
  The properties of \<^verbatim>\<open>CryptX509.c\<close> over OpenSSL.
\<close>

section \<open>A concrete library\<close>

text \<open>Lengths of one byte; like OpenSSL it sets the position and the length of what is too long.\<close>

definition demo_get_object ::
    "byte list \<Rightarrow> int \<Rightarrow> int \<Rightarrow> int \<Rightarrow> int \<Rightarrow> int \<Rightarrow> int \<times> int \<times> int \<times> int \<times> int" where
  "demo_get_object m p k l t c =
    (if k < 2 \<or> p < 0 \<or> p + 2 > int (length m) then (0x80, p, l, t, c)
     else let b = m ! nat p; n = uint (m ! nat (p + 1)) in
       (uint (b AND 0x20) + (if n > k - 2 then 0x80 else 0), p + 2, n, uint (b AND 0x1F), uint (b AND 0xC0)))"

text \<open>The certificates of \<open>demo\<close>, with two extensions each.\<close>

definition ossl_demo :: "byte x509_crt x509_ossl" where
  "ossl_demo = \<lparr>d2i_X509 = parse_crt demo, ASN1_get_object = demo_get_object,
     X509_get_subject_name = crt_issuer_raw, name_entry = (\<lambda>x n. Some (crt_issuer_raw x)),
     X509_get_version = (\<lambda>x. 2), X509_get_serialNumber = crt_serial, signature_oid = crt_issuer_raw,
     X509_get0_extensions = (\<lambda>x. [Some (mOidBasicConstraints, [0x30, 0]), None, Some (mOidExtKeyUsage, [1, 2])]),
     X509_get_key_usage = (\<lambda>x. 1), EVP_add_digests_ok = True,
     X509_verify_cert = (\<lambda>x y. x509_verify x509_demo [x] [y] = 0),
     sk_X509_new_ok = True, sk_X509_push_ok = (\<lambda>n. True)\<rparr>"

lemma ossl_demo_construct:
  "ossl_X509ConstructCertificate ossl_demo None = None"
  "ossl_X509ConstructCertificate ossl_demo (Some x) = parse_crt demo x"
  "EVP_add_digests_ok ossl_demo"
  "X509_verify_cert ossl_demo c d \<longleftrightarrow> x509_verify x509_demo [c] [d] = 0"
  by (simp_all add: ossl_X509ConstructCertificate_def ossl_demo_def parse_crt_def demo_def demo_crt_def
      INT_MAX_def)

section \<open>Names and extensions\<close>

text \<open>\<^verbatim>\<open>X509GetIssuerName\<close> of OpenSSL gives the name of the subject, for every certificate.
\<close>

theorem ossl_issuer_is_subject:
  "ossl_X509GetIssuerName Q Cert buf n = ossl_X509GetSubjectName Q Cert buf n"
  by (simp add: ossl_X509GetIssuerName_def ossl_X509GetSubjectName_def)

lemma ossl_find_extension_map_of:
  "ossl_find_extension Exts oid = map_of (List.map_filter (\<lambda>e. e) Exts) oid"
  by (induction Exts) (auto simp: map_filter_simps split: option.splits)

text \<open>\<^verbatim>\<open>X509GetExtensionData\<close> of OpenSSL delivers the data of the first extension with the
  identifier when the buffer is large enough, the size that is needed otherwise, and size 0 with
  success when there is no such extension.
\<close>

theorem ossl_extension_exact:
  assumes "x \<noteq> []" and "oid \<noteq> []" and "ossl_X509ConstructCertificate Q (Some x) = Some c"
    and "n \<le> length buf"
  shows "ossl_X509GetExtensionData Q (Some x) (Some oid) (Some buf) (Some n) =
    (case map_of (List.map_filter (\<lambda>e. e) (X509_get0_extensions Q c)) oid of
       None \<Rightarrow> Inr (True, Some buf, Some 0)
     | Some d \<Rightarrow> if n < length d then Inr (False, Some buf, Some (length d))
                 else Inr (True, Some (copy_at 0 d buf), Some (length d)))"
  using assms
  by (auto simp: ossl_X509GetExtensionData_def Let_def ossl_find_extension_map_of copy_out_def
      map_filter_simps split: option.split)

theorem ossl_extension_exact_witness:
  "ossl_X509GetExtensionData ossl_demo (Some (demo_cert 7 0x11)) (Some mOidExtKeyUsage) (Some [0, 0, 0]) (Some 3)
    = Inr (True, Some [1, 2, 0], Some 2)"
proof -
  obtain c where "parse_crt demo (demo_cert 7 0x11) = Some c" "demo_cert 7 0x11 \<noteq> []"
    by (simp add: parse_crt_def demo_def demo_crt_def demo_cert_def der_def)
  then show ?thesis
    using ossl_extension_exact [of "demo_cert 7 0x11" mOidExtKeyUsage ossl_demo c 3 "[0, 0, 0]"]
    by (simp add: ossl_demo_construct)
       (simp add: ossl_demo_def map_filter_simps mOidExtKeyUsage_def mOidBasicConstraints_def copy_at_def)
qed

section \<open>Chains\<close>

text \<open>C34: A certificate whose length goes beyond the end of the chain is not recognised as an error: the
  flags of OpenSSL then have the bit for a constructed element as well, and the code only compares
  them with \<^verbatim>\<open>0x80\<close>. \<^verbatim>\<open>X509GetCertFromCertChain\<close> gives a range outside of the buffer. With a root
  certificate, digests that can be registered and a length of at most \<open>INT_MAX\<close>,
  \<^verbatim>\<open>X509VerifyCertChain\<close> hands that range to the decoder, which is a read behind the buffer; in all
  other cases \<^verbatim>\<open>X509VerifyCert\<close> and \<^verbatim>\<open>X509ConstructCertificate\<close> refuse it before they read and the
  result is FALSE.
\<close>

theorem ossl_chain_overrun:
  assumes "ASN1_get_object Q m 0 (int (length m)) 0 Tag Cls = (0xA0, q, n, V_ASN1_SEQUENCE, c)"
    and "int (length m) < q + n"
  shows "ossl_X509GetCertFromCertChain Q Tag Cls (Some m) 0 = Some (Some (0, q + n))
    \<and> ossl_X509VerifyCertChain Q Tag Cls Root m =
        Some (if Root \<noteq> None \<and> EVP_add_digests_ok Q \<and> q + n \<le> int INT_MAX then Inl OobRead
              else Inr False)"
proof -
  have "0 \<le> q + n" using assms(2) by linarith
  then show ?thesis using assms
    by (simp add: ossl_X509GetCertFromCertChain_def ossl_X509VerifyCertChain_def refused_unread_def
        ossl_cert_at_loop.simps [of Q m] ossl_verify_loop.simps [of Q m] bytes_def)
qed

theorem ossl_chain_overrun_witness:
  "ossl_X509GetCertFromCertChain ossl_demo 0 0 (Some [0x30, 100, 1]) 0 = Some (Some (0, 102))
    \<and> ossl_X509VerifyCertChain ossl_demo 0 0 (Some (demo_cert 1 0x12)) [0x30, 100, 1] = Some (Inl OobRead)
    \<and> ossl_X509VerifyCertChain ossl_demo 0 0 None [0x30, 100, 1] = Some (Inr False)"
proof -
  have "ASN1_get_object ossl_demo [0x30, 100, 1] 0 (int (length [0x30, 100, 1 :: byte])) 0 0 0
    = (0xA0, 2, 100, V_ASN1_SEQUENCE, 0)" by code_simp
  note overrun = ossl_chain_overrun [OF this]
  show ?thesis
    using overrun [of "Some (demo_cert 1 0x12)"] overrun [of None]
    by (simp add: ossl_demo_construct INT_MAX_def)
qed

text \<open>
  The decoders of the two libraries agree on a buffer: they find the same elements, and both
  refuse the rest in a way that the code recognises.
\<close>

definition decoders_agree :: "'x x509_ossl \<Rightarrow> 'pk mbedtls \<Rightarrow> byte list \<Rightarrow> bool" where
  "decoders_agree Q L m \<longleftrightarrow> (\<forall>p l t c.
     case mbedtls_asn1_get_tag L m p (int (length m)) 0 ASN1_SEQUENCE of (Ret, q, n) \<Rightarrow>
     case ASN1_get_object Q m p (int (length m) - p) l t c of (Flags, q', n', t', c') \<Rightarrow>
       if Ret = 0 then q' = q \<and> n' = n \<and> t' = V_ASN1_SEQUENCE \<and> Flags \<noteq> 0x80
       else t' \<noteq> V_ASN1_SEQUENCE \<or> Flags = 0x80)"

lemma agree_cases:
  assumes "decoders_agree Q L m"
  shows "mbedtls_asn1_get_tag L m p (int (length m)) 0 ASN1_SEQUENCE = (0, q, n) \<Longrightarrow>
      \<exists>F c'. ASN1_get_object Q m p (int (length m) - p) l t c = (F, q, n, V_ASN1_SEQUENCE, c') \<and> F \<noteq> 0x80"
    and "mbedtls_asn1_get_tag L m p (int (length m)) 0 ASN1_SEQUENCE = (R, q, n) \<Longrightarrow> R \<noteq> 0 \<Longrightarrow>
      \<exists>F q' n' t' c'. ASN1_get_object Q m p (int (length m) - p) l t c = (F, q', n', t', c')
        \<and> (t' \<noteq> V_ASN1_SEQUENCE \<or> F = 0x80)"
  using assms [unfolded decoders_agree_def, rule_format, of p l t c] by (auto split: prod.splits)

lemma cert_at_loops_agree:
  assumes "decoders_agree Q L m" and "chain_at L m p es"
  shows "ossl_cert_at_loop Q m i p k l n t c = cert_at_loop L m i p k l"
  using assms(2)
proof (induction arbitrary: k l n t c rule: chain_at.induct)
  case (stop p Ret q e)
  then show ?case using agree_cases(2) [OF assms(1) stop, of n t c]
    by (subst ossl_cert_at_loop.simps, subst cert_at_loop.simps) auto
next
  case (element p q e es)
  then show ?case using agree_cases(1) [OF assms(1) element.hyps(1), of n t c]
    by (subst ossl_cert_at_loop.simps, subst cert_at_loop.simps) (auto simp: algebra_simps)
qed

lemma refused_unread_False:
  assumes "refused_unread Q n CACert" and "int (length x) = n"
  shows "\<not> ossl_X509VerifyCert Q (Some x) CACert"
  using assms by (auto simp: refused_unread_def ossl_X509VerifyCert_def ossl_X509ConstructCertificate_def)

lemma verify_loops_agree:
  assumes "asn1_ok L" and "decoders_agree Q L m" and "chain_at L m p es" and "0 \<le> p"
    and "\<And>x y. ossl_X509VerifyCert Q x y = X509VerifyCert L V x y"
  shows "ossl_verify_loop Q m Root p n t c flag = verify_loop L V m Root p flag"
  using assms(3,4)
proof (induction arbitrary: Root n t c flag rule: chain_at.induct)
  case (stop p Ret q e)
  then show ?case using agree_cases(2) [OF assms(2) stop(1,2), of n t c]
    by (subst ossl_verify_loop.simps, subst verify_loop.simps) auto
next
  case (element p q e es)
  have b: "p < q" "0 \<le> e" "q + e \<le> int (length m)"
    using get_tag_ok(1) [OF assms(1) element.hyps(1)] by simp_all
  with element.prems obtain x where x: "bytes m p (q - p + e) = Inr x" by (simp add: bytes_def)
  from agree_cases(1) [OF assms(2) element.hyps(1), of n t c] obtain F c' where
    o: "ASN1_get_object Q m p (int (length m) - p) n t c = (F, q, e, V_ASN1_SEQUENCE, c')" "F \<noteq> 0x80"
    by blast
  from x have "int (length x) = q - p + e" by (auto simp: bytes_def seg_def split: if_splits)
  from refused_unread_False [OF _ this, of Q Root]
  have "ossl_verify_loop Q m Root p n t c flag =
    (if \<not> ossl_X509VerifyCert Q (Some x) Root then Some (Inr False)
     else ossl_verify_loop Q m (Some x) (p + (q - p + e)) e V_ASN1_SEQUENCE c' True)"
    by (subst ossl_verify_loop.simps) (auto simp: o x)
  moreover have "verify_loop L V m Root p flag =
    (if \<not> X509VerifyCert L V (Some x) Root then Some (Inr False)
     else verify_loop L V m (Some x) (p + (q - p + e)) True)"
    using x by (subst verify_loop.simps) (simp add: element.hyps(1) algebra_simps)
  moreover have "0 \<le> p + (e + (q - p))" using b element.prems by simp
  ultimately show ?case using element.IH by (simp add: assms(5) algebra_simps)
qed

text \<open>On a buffer on which the decoders agree, the two libraries find the same certificates and, when
  they verify single certificates alike, accept the same chains.
\<close>

theorem x509_backends_agree:
  assumes "asn1_ok L" and "decoders_agree Q L m"
    and "\<And>x y. ossl_X509VerifyCert Q x y = X509VerifyCert L V x y"
  shows "ossl_X509GetCertFromCertChain Q t c (Some m) i = X509GetCertFromCertChain L (Some m) i
    \<and> ossl_X509VerifyCertChain Q t c Root m = X509VerifyCertChain L V Root m"
proof -
  obtain es where es: "chain_at L m 0 es" using chain_at_exists [OF assms(1)] by blast
  then show ?thesis
    using cert_at_loops_agree [OF assms(2) es] verify_loops_agree [OF assms(1,2) es _ assms(3)]
    by (simp add: ossl_X509GetCertFromCertChain_def X509GetCertFromCertChain_def
        ossl_X509VerifyCertChain_def X509VerifyCertChain_def)
qed

lemma demo_decoders_agree: "decoders_agree ossl_demo demo demo_chain"
proof -
  let ?ok = "\<lambda>p l t c. case demo_tag demo_chain p 16 0 ASN1_SEQUENCE of (Ret, q, n) \<Rightarrow>
     case demo_get_object demo_chain p (16 - p) l t c of (Flags, q', n', t', c') \<Rightarrow>
       if Ret = 0 then q' = q \<and> n' = n \<and> t' = V_ASN1_SEQUENCE \<and> Flags \<noteq> 0x80
       else t' \<noteq> V_ASN1_SEQUENCE \<or> Flags = 0x80"
  have len: "length demo_chain = 16" by code_simp
  have out: "?ok p l t c" if "p < 0 \<or> 14 < p" for p l t c
    using that by (auto simp: demo_tag_def demo_get_object_def len)
  have bs: "demo_chain = [0x30, 5, 0x30, 1, 0x41, 7, 0x11, 0x30, 5, 0x30, 1, 0x41, 8, 0x10, 9, 9]"
    by code_simp
  have "?ok p l t c" if "p \<in> {0, 1, 2, 3, 4, 5, 6, 7, 8, 9, 10, 11, 12, 13, 14}" for p l t c
    using that by (auto simp: demo_tag_def demo_get_object_def asn1_tags V_ASN1_SEQUENCE_def bs Let_def)
  moreover have "p \<in> {0, 1, 2, 3, 4, 5, 6, 7, 8, 9, 10, 11, 12, 13, 14}" if "0 \<le> p" "p \<le> 14" for p :: int
    using that by simp presburger
  ultimately have "?ok p l t c" for p l t c using out [of p l t c] by (meson not_le)
  then show ?thesis by (simp add: decoders_agree_def len) (simp add: demo_def ossl_demo_def)
qed

theorem x509_backends_agree_witness:
  "ossl_X509VerifyCertChain ossl_demo 0 0 (Some (demo_cert 1 0x12)) demo_chain
    = X509VerifyCertChain demo x509_demo (Some (demo_cert 1 0x12)) demo_chain"
proof -
  have "ossl_X509VerifyCert ossl_demo x y = X509VerifyCert demo x509_demo x y" for x y
    by (cases x; cases y) (auto simp: ossl_X509VerifyCert_def X509VerifyCert_def ossl_demo_construct
        parse_crt_def split: prod.splits option.splits)
  from x509_backends_agree [OF demo_asn1_ok demo_decoders_agree this] show ?thesis by blast
qed

end
