(* ===== verification/Tls.thy ===== *)
theory Tls
  imports Pool Inet
begin

text \<open>
  TLS connections: \<^verbatim>\<open>OpensslPkg/Library/TlsLib/TlsInit.c\<close> and \<^verbatim>\<open>TlsProcess.c\<close>.

  \<^item> OpenSSL is not part of the repository. Its state is the type variable \<open>'s\<close>, its objects are
    pointers with 0 for NULL, and its functions are the fields of \<open>ssl_objects\<close> and \<open>ssl_io\<close>.
  \<^item> \<open>tls_connection\<close> is the structure of \<^verbatim>\<open>InternalTlsLib.h\<close> with its own address. The argument
    \<^verbatim>\<open>Tls\<close> is \<open>None\<close> for NULL.
  \<^item> A buffer that is read or written is a list of bytes, \<open>None\<close> for NULL. A result through a
    pointer is part of the result.
\<close>

section \<open>Connections\<close>

record tls_connection =
  tls_addr :: ptr
  tls_Ssl :: ptr
  tls_InBio :: ptr
  tls_OutBio :: ptr

text \<open>The test \<^verbatim>\<open>(TlsConn == NULL) || (TlsConn->Ssl == NULL)\<close>.\<close>

definition ssl_of :: "tls_connection option \<Rightarrow> ptr option" where
  "ssl_of Tls = (case Tls of
     None \<Rightarrow> None
   | Some c \<Rightarrow> if tls_Ssl c = 0 then None else Some (tls_Ssl c))"

text \<open>
  The calls that create, connect and free objects. \<open>BIO_new\<close> is \<^verbatim>\<open>BIO_new (BIO_s_mem ())\<close>,
  \<open>SSL_CTX_new\<close> is \<^verbatim>\<open>SSL_CTX_new (SSLv23_client_method ())\<close> and \<open>SSL_set_info_callback\<close> has the
  argument NULL.
\<close>

record 's ssl_objects =
  OPENSSL_init_ssl :: "'s \<Rightarrow> int \<times> 's"
  OPENSSL_malloc :: "'s \<Rightarrow> ptr \<times> 's"
  OPENSSL_free :: "ptr \<Rightarrow> 's \<Rightarrow> 's"
  SSL_CTX_new :: "'s \<Rightarrow> ptr \<times> 's"
  SSL_CTX_free :: "ptr \<Rightarrow> 's \<Rightarrow> 's"
  SSL_CTX_set_options :: "ptr \<Rightarrow> UINT32 \<Rightarrow> 's \<Rightarrow> 's"
  SSL_CTX_set_min_proto_version :: "ptr \<Rightarrow> UINT16 \<Rightarrow> 's \<Rightarrow> 's"
  SSL_new :: "ptr \<Rightarrow> 's \<Rightarrow> ptr \<times> 's"
  SSL_free :: "ptr \<Rightarrow> 's \<Rightarrow> 's"
  SSL_set_security_level :: "ptr \<Rightarrow> int \<Rightarrow> 's \<Rightarrow> 's"
  SSL_set_info_callback :: "ptr \<Rightarrow> 's \<Rightarrow> 's"
  BIO_new :: "'s \<Rightarrow> ptr \<times> 's"
  BIO_set_mem_eof_return :: "ptr \<Rightarrow> int \<Rightarrow> 's \<Rightarrow> 's"
  SSL_set_bio :: "ptr \<Rightarrow> ptr \<Rightarrow> ptr \<Rightarrow> 's \<Rightarrow> 's"
  SSL_get_SSL_CTX :: "ptr \<Rightarrow> 's \<Rightarrow> ptr"
  SSL_CTX_get_cert_store :: "ptr \<Rightarrow> 's \<Rightarrow> ptr"
  X509_STORE_new :: "'s \<Rightarrow> ptr \<times> 's"
  X509_STORE_free :: "ptr \<Rightarrow> 's \<Rightarrow> 's"
  SSL_CTX_set1_verify_cert_store :: "ptr \<Rightarrow> ptr \<Rightarrow> 's \<Rightarrow> 's"
  X509_STORE_set_flags :: "ptr \<Rightarrow> UINT32 \<Rightarrow> 's \<Rightarrow> 's"

definition SSL_OP_NO_SSLv3 :: UINT32 where "SSL_OP_NO_SSLv3 = 0x02000000"
definition X509_V_FLAG_PARTIAL_CHAIN :: UINT32 where "X509_V_FLAG_PARTIAL_CHAIN = 0x80000"

section \<open>Creation\<close>

text \<open>\<open>RandomSeed\<close> is the function of \<^verbatim>\<open>BaseCryptLib\<close>, called with NULL and 0.\<close>

definition TlsInitialize :: "'s ssl_objects \<Rightarrow> ('s \<Rightarrow> bool \<times> 's) \<Rightarrow> 's \<Rightarrow> bool \<times> 's" where
  "TlsInitialize L RandomSeed s =
    (case OPENSSL_init_ssl L s of (Ret, s) \<Rightarrow> if Ret \<noteq> 1 then (False, s) else RandomSeed s)"

definition TlsCtxFree :: "'s ssl_objects \<Rightarrow> ptr \<Rightarrow> 's \<Rightarrow> 's" where
  "TlsCtxFree L TlsCtx s = (if TlsCtx = 0 then s else SSL_CTX_free L TlsCtx s)"

definition proto_version :: "byte \<Rightarrow> byte \<Rightarrow> UINT16" where
  "proto_version MajorVer MinorVer = push_bit 8 (ucast MajorVer) OR ucast MinorVer"

definition TlsCtxNew :: "'s ssl_objects \<Rightarrow> byte \<Rightarrow> byte \<Rightarrow> 's \<Rightarrow> ptr \<times> 's" where
  "TlsCtxNew L MajorVer MinorVer s =
    (case SSL_CTX_new L s of (TlsCtx, s) \<Rightarrow>
       if TlsCtx = 0 then (0, s)
       else
         let s = SSL_CTX_set_options L TlsCtx SSL_OP_NO_SSLv3 s;
             s = SSL_CTX_set_min_proto_version L TlsCtx (proto_version MajorVer MinorVer) s
         in (TlsCtx, s))"

definition TlsFree :: "'s ssl_objects \<Rightarrow> tls_connection option \<Rightarrow> 's \<Rightarrow> 's" where
  "TlsFree L Tls s = (case Tls of
     None \<Rightarrow> s
   | Some c \<Rightarrow>
       let s = (if tls_Ssl c \<noteq> 0 then SSL_free L (tls_Ssl c) s else s)
       in OPENSSL_free L (tls_addr c) s)"

text \<open>The last part of \<^verbatim>\<open>TlsNew\<close>: the store of certificates.\<close>

definition TlsNew_store :: "'s ssl_objects \<Rightarrow> tls_connection \<Rightarrow> 's \<Rightarrow> tls_connection option \<times> 's" where
  "TlsNew_store L c s =
    (let SslCtx = SSL_get_SSL_CTX L (tls_Ssl c) s;
         X509Store = SSL_CTX_get_cert_store L SslCtx s
     in if X509Store = 0 then
          (case X509_STORE_new L s of (X509Store, s) \<Rightarrow>
             if X509Store = 0 then (None, TlsFree L (Some c) s)
             else
               let s = SSL_CTX_set1_verify_cert_store L SslCtx X509Store s;
                   s = X509_STORE_free L X509Store s;
                   s = X509_STORE_set_flags L X509Store X509_V_FLAG_PARTIAL_CHAIN s
               in (Some c, s))
        else (Some c, X509_STORE_set_flags L X509Store X509_V_FLAG_PARTIAL_CHAIN s))"

text \<open>\<open>c\<close> collects the fields; what is in \<^verbatim>\<open>InBio\<close> and \<^verbatim>\<open>OutBio\<close> before they are set is not read.\<close>

definition TlsNew :: "'s ssl_objects \<Rightarrow> ptr \<Rightarrow> 's \<Rightarrow> (tls_connection option \<times> 's) res" where
  "TlsNew L TlsCtx s =
    (case OPENSSL_malloc L s of (TlsConn, s) \<Rightarrow>
       if TlsConn = 0 then Inr (None, s) else
       let c = \<lparr>tls_addr = TlsConn, tls_Ssl = 0, tls_InBio = 0, tls_OutBio = 0\<rparr> in
       case SSL_new L TlsCtx s of (Ssl, s) \<Rightarrow>
       let c = c\<lparr>tls_Ssl := Ssl\<rparr> in
       if Ssl = 0 then Inr (None, TlsFree L (Some c) s) else
       let s = SSL_set_security_level L Ssl 3 s;
           s = SSL_set_info_callback L Ssl s in
       case BIO_new L s of (InBio, s) \<Rightarrow>
       let c = c\<lparr>tls_InBio := InBio\<rparr> in
       if InBio = 0 then Inr (None, TlsFree L (Some c) s) else
       let s = BIO_set_mem_eof_return L InBio (-1) s in
       case BIO_new L s of (OutBio, s) \<Rightarrow>
       let c = c\<lparr>tls_OutBio := OutBio\<rparr> in
       if OutBio = 0 then Inr (None, TlsFree L (Some c) s) else
       let s = BIO_set_mem_eof_return L OutBio (-1) s in
       if tls_Ssl c = 0 \<or> tls_InBio c = 0 \<or> tls_OutBio c = 0 then Inl AssertFailed else
       let s = SSL_set_bio L Ssl InBio OutBio s
       in Inr (TlsNew_store L c s))"

section \<open>Packets\<close>

text \<open>
  \<open>BIO_write\<close> gets the bytes that it reads from the buffer; \<open>BIO_read\<close> and \<open>SSL_read\<close> get the size
  and give the result with the bytes that they write. \<open>ERR_get_error_all\<close> takes the oldest error
  out of the queue of OpenSSL, 0 when there is none.
\<close>

record 's ssl_io =
  SSL_is_init_finished :: "ptr \<Rightarrow> 's \<Rightarrow> bool"
  SSL_set_connect_state :: "ptr \<Rightarrow> 's \<Rightarrow> 's"
  SSL_do_handshake :: "ptr \<Rightarrow> 's \<Rightarrow> int \<times> 's"
  SSL_get_error :: "ptr \<Rightarrow> int \<Rightarrow> 's \<Rightarrow> int"
  ERR_get_error_all :: "'s \<Rightarrow> UINT64 \<times> 's"
  BIO_ctrl_pending :: "ptr \<Rightarrow> 's \<Rightarrow> UINT64"
  BIO_write :: "ptr \<Rightarrow> byte list \<Rightarrow> 's \<Rightarrow> int \<times> 's"
  BIO_read :: "ptr \<Rightarrow> UINT32 \<Rightarrow> 's \<Rightarrow> int \<times> byte list \<times> 's"
  SSL_read :: "ptr \<Rightarrow> UINT32 \<Rightarrow> 's \<Rightarrow> int \<times> byte list \<times> 's"
  SSL_write :: "ptr \<Rightarrow> byte list \<Rightarrow> 's \<Rightarrow> int \<times> 's"
  SSL_set_quiet_shutdown :: "ptr \<Rightarrow> int \<Rightarrow> 's \<Rightarrow> 's"
  SSL_shutdown :: "ptr \<Rightarrow> 's \<Rightarrow> int \<times> 's"
  SSL_clear :: "ptr \<Rightarrow> 's \<Rightarrow> int \<times> 's"
  io_malloc :: "'s \<Rightarrow> ptr \<times> 's"
  io_free :: "ptr \<Rightarrow> 's \<Rightarrow> 's"

definition SSL_ERROR_SSL :: int where "SSL_ERROR_SSL = 1"
definition SSL_ERROR_SYSCALL :: int where "SSL_ERROR_SYSCALL = 5"
definition SSL_ERROR_ZERO_RETURN :: int where "SSL_ERROR_ZERO_RETURN = 6"
definition MAX_BUFFER_SIZE :: UINT32 where "MAX_BUFFER_SIZE = 32768"

text \<open>The range of a buffer that a call reads, and the buffer after a call that wrote to it.\<close>

definition read_range :: "byte list option \<Rightarrow> nat \<Rightarrow> byte list res" where
  "read_range buf n = (case buf of
     None \<Rightarrow> if n = 0 then Inr [] else Inl NullDeref
   | Some bs \<Rightarrow> if n \<le> length bs then Inr (take n bs) else Inl OobRead)"

definition from_buffer :: "byte list option \<Rightarrow> UINT32 \<Rightarrow> byte list res" where
  "from_buffer buf n = read_range buf (unat n)"

definition into_buffer :: "byte list option \<Rightarrow> byte list \<Rightarrow> byte list option res" where
  "into_buffer buf bs = (case buf of
     None \<Rightarrow> if bs = [] then Inr None else Inl NullDeref
   | Some old \<Rightarrow> if length bs \<le> length old then Inr (Some (copy_at 0 bs old)) else Inl OobWrite)"

definition TlsInHandshake :: "'s ssl_io \<Rightarrow> tls_connection option \<Rightarrow> 's \<Rightarrow> bool" where
  "TlsInHandshake L Tls s = (case ssl_of Tls of
     None \<Rightarrow> False
   | Some ssl \<Rightarrow> \<not> SSL_is_init_finished L ssl s)"

text \<open>Status, buffer, size and the state of OpenSSL after a call that builds a packet.\<close>

type_synonym 's packet_out = "efi_status \<times> byte list option \<times> UINT64 option \<times> 's"

text \<open>The end of the three functions that deliver a packet.\<close>

definition deliver ::
    "'s ssl_io \<Rightarrow> ptr \<Rightarrow> UINT64 \<Rightarrow> byte list option \<Rightarrow> UINT64 \<Rightarrow> 's \<Rightarrow> 's packet_out res" where
  "deliver L OutBio PendingBufferSize BufferOut out_size s =
    (if PendingBufferSize > out_size then
       Inr (EFI_BUFFER_TOO_SMALL, BufferOut, Some PendingBufferSize, s)
     else if PendingBufferSize > 0 then
       (case BIO_read L OutBio (ucast PendingBufferSize) s of (Ret, bs, s) \<Rightarrow>
          bind_res (into_buffer BufferOut bs) (\<lambda>BufferOut.
          Inr (EFI_SUCCESS, BufferOut, Some (word_of_int Ret), s)))
     else Inr (EFI_SUCCESS, BufferOut, Some 0, s))"

text \<open>
  The arguments of \<^verbatim>\<open>TlsDoHandshake\<close> and \<^verbatim>\<open>TlsHandleAlert\<close>: the connection and the size of the
  output, or \<open>None\<close> when they are rejected. \<^verbatim>\<open>TlsCloseNotify\<close> has no input.
\<close>

definition check_out ::
    "tls_connection option \<Rightarrow> byte list option \<Rightarrow> UINT64 option \<Rightarrow> (tls_connection \<times> UINT64) option" where
  "check_out Tls BufferOut BufferOutSize =
    (case (Tls, BufferOutSize) of
       (Some c, Some out_size) \<Rightarrow>
         if tls_Ssl c = 0 \<or> tls_InBio c = 0 \<or> tls_OutBio c = 0 \<or> BufferOut = None \<and> out_size \<noteq> 0 then None
         else Some (c, out_size)
     | _ \<Rightarrow> None)"

definition check_in_out ::
    "tls_connection option \<Rightarrow> byte list option \<Rightarrow> UINT64 \<Rightarrow> byte list option \<Rightarrow> UINT64 option
     \<Rightarrow> (tls_connection \<times> UINT64) option" where
  "check_in_out Tls BufferIn BufferInSize BufferOut BufferOutSize =
    (if BufferIn = None \<and> BufferInSize \<noteq> 0 \<or> BufferIn \<noteq> None \<and> BufferInSize = 0 then None
     else check_out Tls BufferOut BufferOutSize)"

text \<open>The handshake itself: \<^verbatim>\<open>Ret\<close> and \<^verbatim>\<open>PendingBufferSize\<close> after the first conditional.\<close>

definition handshake_step ::
    "'s ssl_io \<Rightarrow> tls_connection \<Rightarrow> byte list option \<Rightarrow> UINT64 \<Rightarrow> 's \<Rightarrow> (int \<times> UINT64 \<times> 's) res" where
  "handshake_step L c BufferIn BufferInSize s =
    (let pending = BIO_ctrl_pending L (tls_OutBio c) s in
     if BufferIn = None \<and> BufferInSize = 0 then
       if pending = 0 then
         (case SSL_do_handshake L (tls_Ssl c) (SSL_set_connect_state L (tls_Ssl c) s) of (Ret, s) \<Rightarrow>
            Inr (Ret, BIO_ctrl_pending L (tls_OutBio c) s, s))
       else Inr (1, pending, s)
     else
       if pending = 0 then
         bind_res (from_buffer BufferIn (ucast BufferInSize)) (\<lambda>bs.
           case BIO_write L (tls_InBio c) bs s of (_, s) \<Rightarrow>
           case SSL_do_handshake L (tls_Ssl c) s of (Ret, s) \<Rightarrow>
             Inr (Ret, BIO_ctrl_pending L (tls_OutBio c) s, s))
       else Inr (1, pending, s))"

text \<open>The loop inside \<^verbatim>\<open>DEBUG_CODE\<close>; \<open>None\<close> when the queue of errors never gets empty.\<close>

partial_function (option) drain_errors :: "'s ssl_io \<Rightarrow> 's \<Rightarrow> 's option" where
  "drain_errors L s =
    (case ERR_get_error_all L s of (ErrorCode, s') \<Rightarrow>
       if ErrorCode = 0 then Some s' else drain_errors L s')"

declare drain_errors.simps [code]

text \<open>\<open>debug\<close>: whether the build has \<^verbatim>\<open>DEBUG_CODE\<close>.\<close>

definition TlsDoHandshake ::
    "'s ssl_io \<Rightarrow> bool \<Rightarrow> tls_connection option \<Rightarrow> byte list option \<Rightarrow> UINT64 \<Rightarrow> byte list option
     \<Rightarrow> UINT64 option \<Rightarrow> 's \<Rightarrow> 's packet_out res option" where
  "TlsDoHandshake L debug Tls BufferIn BufferInSize BufferOut BufferOutSize s =
    (case check_in_out Tls BufferIn BufferInSize BufferOut BufferOutSize of
       None \<Rightarrow> Some (Inr (EFI_INVALID_PARAMETER, BufferOut, BufferOutSize, s))
     | Some (c, out_size) \<Rightarrow>
         (case handshake_step L c BufferIn BufferInSize s of
            Inl e \<Rightarrow> Some (Inl e)
          | Inr (Ret, pending, s) \<Rightarrow>
              if Ret < 1 \<and> SSL_get_error L (tls_Ssl c) Ret s
                   \<in> {SSL_ERROR_SSL, SSL_ERROR_SYSCALL, SSL_ERROR_ZERO_RETURN} then
                map_option (\<lambda>s. Inr (EFI_ABORTED, BufferOut, BufferOutSize, s))
                  (if debug then drain_errors L s else Some s)
              else Some (deliver L (tls_OutBio c) pending BufferOut out_size s)))"

definition TlsHandleAlert ::
    "'s ssl_io \<Rightarrow> tls_connection option \<Rightarrow> byte list option \<Rightarrow> UINT64 \<Rightarrow> byte list option
     \<Rightarrow> UINT64 option \<Rightarrow> 's \<Rightarrow> 's packet_out res" where
  "TlsHandleAlert L Tls BufferIn BufferInSize BufferOut BufferOutSize s =
    (case check_in_out Tls BufferIn BufferInSize BufferOut BufferOutSize of
       None \<Rightarrow> Inr (EFI_INVALID_PARAMETER, BufferOut, BufferOutSize, s)
     | Some (c, out_size) \<Rightarrow>
         let pending = BIO_ctrl_pending L (tls_OutBio c) s in
         if pending = 0 \<and> BufferIn \<noteq> None \<and> BufferInSize \<noteq> 0 then
           bind_res (from_buffer BufferIn (ucast BufferInSize)) (\<lambda>bs.
             case BIO_write L (tls_InBio c) bs s of (Ret, s) \<Rightarrow>
             if Ret \<noteq> sint BufferInSize then Inr (EFI_ABORTED, BufferOut, BufferOutSize, s) else
             case io_malloc L s of (TempBuffer, s) \<Rightarrow>
             case SSL_read L (tls_Ssl c) MAX_BUFFER_SIZE s of (_, bs, s) \<Rightarrow>
             if TempBuffer = 0 \<and> bs \<noteq> [] then Inl NullDeref else
             let s = io_free L TempBuffer s
             in deliver L (tls_OutBio c) (BIO_ctrl_pending L (tls_OutBio c) s) BufferOut out_size s)
         else deliver L (tls_OutBio c) pending BufferOut out_size s)"

definition TlsCloseNotify ::
    "'s ssl_io \<Rightarrow> tls_connection option \<Rightarrow> byte list option \<Rightarrow> UINT64 option \<Rightarrow> 's \<Rightarrow> 's packet_out res" where
  "TlsCloseNotify L Tls Buffer BufferSize s =
    (case check_out Tls Buffer BufferSize of
       None \<Rightarrow> Inr (EFI_INVALID_PARAMETER, Buffer, BufferSize, s)
     | Some (c, out_size) \<Rightarrow>
         let pending = BIO_ctrl_pending L (tls_OutBio c) s in
         if pending = 0 then
           (case SSL_shutdown L (tls_Ssl c) s of (_, s) \<Rightarrow>
              deliver L (tls_OutBio c) (BIO_ctrl_pending L (tls_OutBio c) s) Buffer out_size s)
         else deliver L (tls_OutBio c) pending Buffer out_size s)"

section \<open>Data\<close>

text \<open>The result -1 of the code stands for a missing connection.\<close>

definition TlsCtrlTrafficOut ::
    "'s ssl_io \<Rightarrow> tls_connection option \<Rightarrow> byte list option \<Rightarrow> UINT64 \<Rightarrow> 's \<Rightarrow> (int \<times> byte list option \<times> 's) res" where
  "TlsCtrlTrafficOut L Tls Buffer BufferSize s = (case Tls of
     None \<Rightarrow> Inr (-1, Buffer, s)
   | Some c \<Rightarrow>
       if tls_OutBio c = 0 then Inr (-1, Buffer, s)
       else case BIO_read L (tls_OutBio c) (ucast BufferSize) s of (Ret, bs, s) \<Rightarrow>
         bind_res (into_buffer Buffer bs) (\<lambda>Buffer. Inr (Ret, Buffer, s)))"

definition TlsCtrlTrafficIn ::
    "'s ssl_io \<Rightarrow> tls_connection option \<Rightarrow> byte list option \<Rightarrow> UINT64 \<Rightarrow> 's \<Rightarrow> (int \<times> 's) res" where
  "TlsCtrlTrafficIn L Tls Buffer BufferSize s = (case Tls of
     None \<Rightarrow> Inr (-1, s)
   | Some c \<Rightarrow>
       if tls_InBio c = 0 then Inr (-1, s)
       else bind_res (from_buffer Buffer (ucast BufferSize)) (\<lambda>bs. Inr (BIO_write L (tls_InBio c) bs s)))"

definition TlsRead ::
    "'s ssl_io \<Rightarrow> tls_connection option \<Rightarrow> byte list option \<Rightarrow> UINT64 \<Rightarrow> 's \<Rightarrow> (int \<times> byte list option \<times> 's) res" where
  "TlsRead L Tls Buffer BufferSize s = (case ssl_of Tls of
     None \<Rightarrow> Inr (-1, Buffer, s)
   | Some ssl \<Rightarrow> case SSL_read L ssl (ucast BufferSize) s of (Ret, bs, s) \<Rightarrow>
       bind_res (into_buffer Buffer bs) (\<lambda>Buffer. Inr (Ret, Buffer, s)))"

definition TlsWrite ::
    "'s ssl_io \<Rightarrow> tls_connection option \<Rightarrow> byte list option \<Rightarrow> UINT64 \<Rightarrow> 's \<Rightarrow> (int \<times> 's) res" where
  "TlsWrite L Tls Buffer BufferSize s = (case ssl_of Tls of
     None \<Rightarrow> Inr (-1, s)
   | Some ssl \<Rightarrow> bind_res (from_buffer Buffer (ucast BufferSize)) (\<lambda>bs. Inr (SSL_write L ssl bs s)))"

definition TlsShutdown :: "'s ssl_io \<Rightarrow> tls_connection option \<Rightarrow> 's \<Rightarrow> efi_status \<times> 's" where
  "TlsShutdown L Tls s = (case ssl_of Tls of
     None \<Rightarrow> (EFI_INVALID_PARAMETER, s)
   | Some ssl \<Rightarrow>
       let s = SSL_set_quiet_shutdown L ssl 1 s;
           s = snd (SSL_shutdown L ssl s)
       in case SSL_clear L ssl s of (Ret, s) \<Rightarrow>
            (if Ret = 1 then EFI_SUCCESS else EFI_PROTOCOL_ERROR, s))"

end
