(* ===== verification/TlsConfig.thy ===== *)
theory TlsConfig
  imports Tls
begin

text \<open>
  The settings of a connection: \<^verbatim>\<open>OpensslPkg/Library/TlsLib/TlsConfig.c\<close>. The functions of OpenSSL are
  the fields of \<open>ssl_config\<close>, \<open>ssl_certs\<close> and \<open>ssl_query\<close>; \<open>pool_junk n\<close> is what a block of \<open>n\<close>
  bytes holds when it has been allocated. A C string is given to OpenSSL as its buffer.
\<close>

section \<open>Settings\<close>

text \<open>A cipher with its number of the IANA registry, the identifier of OpenSSL and its name without NUL.\<close>

record cipher =
  protocol_id :: UINT16
  cipher_id :: UINT32
  cipher_name :: "byte list"

record 's ssl_config =
  SSL_set_min_proto_version :: "ptr \<Rightarrow> UINT16 \<Rightarrow> 's \<Rightarrow> 's"
  SSL_set_max_proto_version :: "ptr \<Rightarrow> UINT16 \<Rightarrow> 's \<Rightarrow> 's"
  SSL_get_ciphers :: "ptr \<Rightarrow> 's \<Rightarrow> cipher list option"
  SSL_set_cipher_list :: "ptr \<Rightarrow> byte list \<Rightarrow> 's \<Rightarrow> int \<times> 's"
  COMP_zlib :: ptr
  SSL_COMP_add_compression_method :: "byte \<Rightarrow> ptr \<Rightarrow> 's \<Rightarrow> int \<times> 's"
  SSL_set_verify :: "ptr \<Rightarrow> UINT32 \<Rightarrow> 's \<Rightarrow> 's"
  SSL_set_tlsext_host_name :: "ptr \<Rightarrow> byte list option \<Rightarrow> 's \<Rightarrow> int \<times> 's"
  SSL_set_hostflags :: "ptr \<Rightarrow> UINT32 \<Rightarrow> 's \<Rightarrow> 's"
  SSL_get0_param :: "ptr \<Rightarrow> 's \<Rightarrow> ptr"
  X509_VERIFY_PARAM_set1_ip :: "ptr \<Rightarrow> byte list \<Rightarrow> 's \<Rightarrow> int \<times> 's"
  X509_VERIFY_PARAM_set1_host :: "ptr \<Rightarrow> byte list \<Rightarrow> 's \<Rightarrow> int \<times> 's"
  SSL_CTX_set_tlsext_servername_callback :: "ptr \<Rightarrow> 's \<Rightarrow> UINT32 \<times> 's"
  SSL_CTX_set_tlsext_servername_arg :: "ptr \<Rightarrow> nat \<Rightarrow> 's \<Rightarrow> UINT32 \<times> 's"
  SSL_get_session :: "ptr \<Rightarrow> 's \<Rightarrow> ptr"
  SSL_SESSION_set1_id :: "ptr \<Rightarrow> byte list \<Rightarrow> 's \<Rightarrow> int \<times> 's"
  SSL_set1_sigalgs_list :: "ptr \<Rightarrow> byte list \<Rightarrow> 's \<Rightarrow> int \<times> 's"
  SSL_set1_curves :: "ptr \<Rightarrow> int list \<Rightarrow> 's \<Rightarrow> int \<times> 's"
  EC_KEY_new_by_curve_name :: "int \<Rightarrow> 's \<Rightarrow> ptr \<times> 's"
  SSL_set_tmp_ecdh :: "ptr \<Rightarrow> ptr \<Rightarrow> 's \<Rightarrow> int \<times> 's"
  EC_KEY_free :: "ptr \<Rightarrow> 's \<Rightarrow> 's"
  cfg_security_level :: "ptr \<Rightarrow> byte \<Rightarrow> 's \<Rightarrow> 's"
  pool_junk :: "nat \<Rightarrow> byte list"

definition TLS1_VERSION :: UINT16 where "TLS1_VERSION = 0x0301"
definition TLS1_1_VERSION :: UINT16 where "TLS1_1_VERSION = 0x0302"
definition TLS1_2_VERSION :: UINT16 where "TLS1_2_VERSION = 0x0303"

definition TlsSetVersion ::
    "'s ssl_config \<Rightarrow> tls_connection option \<Rightarrow> byte \<Rightarrow> byte \<Rightarrow> 's \<Rightarrow> efi_status \<times> 's" where
  "TlsSetVersion L Tls MajorVer MinorVer s = (case ssl_of Tls of
     None \<Rightarrow> (EFI_INVALID_PARAMETER, s)
   | Some ssl \<Rightarrow>
       let v = proto_version MajorVer MinorVer in
       if v = TLS1_VERSION then
         (EFI_SUCCESS, SSL_set_max_proto_version L ssl TLS1_VERSION
                         (SSL_set_min_proto_version L ssl TLS1_VERSION s))
       else if v = TLS1_1_VERSION then
         (EFI_SUCCESS, SSL_set_max_proto_version L ssl TLS1_1_VERSION
                         (SSL_set_min_proto_version L ssl TLS1_1_VERSION s))
       else if v = TLS1_2_VERSION then
         (EFI_SUCCESS, SSL_set_max_proto_version L ssl TLS1_2_VERSION
                         (SSL_set_min_proto_version L ssl TLS1_2_VERSION s))
       else (EFI_UNSUPPORTED, s))"

definition TlsSetConnectionEnd ::
    "'s ssl_io \<Rightarrow> tls_connection option \<Rightarrow> bool \<Rightarrow> 's \<Rightarrow> efi_status \<times> 's" where
  "TlsSetConnectionEnd L Tls IsServer s = (case ssl_of Tls of
     None \<Rightarrow> (EFI_INVALID_PARAMETER, s)
   | Some ssl \<Rightarrow>
       if \<not> IsServer then (EFI_SUCCESS, SSL_set_connect_state L ssl s) else (EFI_UNSUPPORTED, s))"

section \<open>The list of ciphers\<close>

text \<open>\<^verbatim>\<open>SafeUintnAdd\<close> and \<^verbatim>\<open>SafeUintnMult\<close> of the base library.\<close>

definition SafeUintnAdd :: "nat \<Rightarrow> nat \<Rightarrow> nat option" where
  "SafeUintnAdd a b = (if a + b < 2 ^ 64 then Some (a + b) else None)"

definition SafeUintnMult :: "nat \<Rightarrow> nat \<Rightarrow> nat option" where
  "SafeUintnMult a b = (if a * b < 2 ^ 64 then Some (a * b) else None)"

text \<open>
  The first loop: \<open>k\<close> identifiers are left, \<open>cap\<close> is the number of elements of the array
  \<^verbatim>\<open>MappedCipher\<close>, whose used part is \<open>mapped\<close>. \<open>Inr (Inl s)\<close> leaves the loop with the status \<open>s\<close>.
\<close>

fun map_ciphers ::
    "cipher list \<Rightarrow> UINT16 list \<Rightarrow> nat \<Rightarrow> nat \<Rightarrow> nat \<Rightarrow> cipher list \<Rightarrow> nat
     \<Rightarrow> (efi_status + cipher list \<times> nat) res" where
  "map_ciphers stack ids cap 0 index mapped n = Inr (Inr (mapped, n))"
| "map_ciphers stack ids cap (Suc k) index mapped n =
    (if stack \<noteq> [] \<and> length ids \<le> index then Inl OobRead else
     case find (\<lambda>c. ids ! index = protocol_id c) stack of
       None \<Rightarrow> map_ciphers stack ids cap k (Suc index) mapped n
     | Some c \<Rightarrow>
         (case (if length mapped > 0 then SafeUintnAdd n 1 else Some n) of
            None \<Rightarrow> Inr (Inl EFI_OUT_OF_RESOURCES)
          | Some n \<Rightarrow>
              (case SafeUintnAdd n (length (cipher_name c)) of
                 None \<Rightarrow> Inr (Inl EFI_OUT_OF_RESOURCES)
               | Some n \<Rightarrow>
                   if cap \<le> length mapped then Inl OobWrite
                   else map_ciphers stack ids cap k (Suc index) (mapped @ [c]) n)))"

text \<open>Bytes written at a position of a buffer; the result is the position after them.\<close>

definition put_bytes :: "byte list \<Rightarrow> nat \<times> byte list \<Rightarrow> (nat \<times> byte list) res" where
  "put_bytes bs pb =
    (if fst pb + length bs \<le> length (snd pb) then Inr (fst pb + length bs, copy_at (fst pb) bs (snd pb))
     else Inl OobWrite)"

fun fill_ciphers :: "cipher list \<Rightarrow> nat \<Rightarrow> nat \<times> byte list \<Rightarrow> (nat \<times> byte list) res" where
  "fill_ciphers [] index pb = Inr pb"
| "fill_ciphers (c # cs) index pb =
    bind_res (if index > 0 then put_bytes [0x3A] pb else Inr pb) (\<lambda>pb.
    bind_res (put_bytes (cipher_name c) pb) (\<lambda>pb.
    fill_ciphers cs (Suc index) pb))"

text \<open>The position after the loop that logs the string in pieces of 79 characters.\<close>

function log_pieces :: "nat \<Rightarrow> nat \<Rightarrow> nat" where
  "log_pieces full pos =
    (if pos < full then log_pieces full (pos + (if full - pos > 79 then 79 else full - pos)) else pos)"
  by pat_completeness auto

termination by (relation "measure (\<lambda>(full, pos). full - pos)") auto

declare log_pieces.simps [simp del]

text \<open>From the allocation of \<^verbatim>\<open>CipherString\<close> to the label \<^verbatim>\<open>FreeMappedCipher\<close>.\<close>

definition set_cipher_string ::
    "'s ssl_config \<Rightarrow> ptr \<Rightarrow> cipher list \<Rightarrow> nat \<Rightarrow> pool \<Rightarrow> 's \<Rightarrow> (efi_status \<times> pool \<times> 's) res" where
  "set_cipher_string L ssl mapped CipherStringSize p s =
    (case AllocatePool p CipherStringSize of (CipherString, p) \<Rightarrow>
       if CipherString = None then Inr (EFI_OUT_OF_RESOURCES, p, s) else
       bind_res (fill_ciphers mapped 0 (0, pool_junk L CipherStringSize)) (\<lambda>pb.
       bind_res (put_bytes [0] pb) (\<lambda>(pos, buf).
       if pos \<noteq> CipherStringSize then Inl AssertFailed else
       if Suc (log_pieces (CipherStringSize - 1) 0) \<noteq> CipherStringSize then Inl AssertFailed else
       case SSL_set_cipher_list L ssl buf s of (Ret, s) \<Rightarrow>
       bind_res (FreePool p CipherString) (\<lambda>p.
       Inr (if Ret \<le> 0 then EFI_UNSUPPORTED else EFI_SUCCESS, p, s)))))"

definition TlsSetCipherList ::
    "'s ssl_config \<Rightarrow> tls_connection option \<Rightarrow> UINT16 list option \<Rightarrow> UINT64 \<Rightarrow> pool \<Rightarrow> 's
     \<Rightarrow> (efi_status \<times> pool \<times> 's) res" where
  "TlsSetCipherList L Tls CipherId CipherNum p s =
    (case (ssl_of Tls, CipherId) of
       (Some ssl, Some ids) \<Rightarrow>
         (case SafeUintnMult (unat CipherNum) 8 of
            None \<Rightarrow> Inr (EFI_OUT_OF_RESOURCES, p, s)
          | Some MappedCipherBytes \<Rightarrow>
              case AllocatePool p MappedCipherBytes of (MappedCipher, p) \<Rightarrow>
              if MappedCipher = None then Inr (EFI_OUT_OF_RESOURCES, p, s) else
              bind_res
                (case SSL_get_ciphers L ssl s of
                   None \<Rightarrow> Inr (Inr ([], 0))
                 | Some stack \<Rightarrow> map_ciphers stack ids (MappedCipherBytes div 8) (unat CipherNum) 0 [] 0)
                (\<lambda>r.
              bind_res
                (case r of
                   Inl st \<Rightarrow> Inr (st, p, s)
                 | Inr (mapped, n) \<Rightarrow>
                     if length mapped = 0 then Inr (EFI_UNSUPPORTED, p, s) else
                     case SafeUintnAdd n 1 of
                       None \<Rightarrow> Inr (EFI_OUT_OF_RESOURCES, p, s)
                     | Some n \<Rightarrow> set_cipher_string L ssl mapped n p s)
                (\<lambda>(st, p, s).
              bind_res (FreePool p MappedCipher) (\<lambda>p. Inr (st, p, s)))))
     | _ \<Rightarrow> Inr (EFI_INVALID_PARAMETER, p, s))"

section \<open>The list of signature algorithms\<close>

definition ascii :: "string \<Rightarrow> byte list" where
  "ascii = map of_char"

definition TlsHashAlgoToName :: "byte list option list" where
  "TlsHashAlgoToName = [None, Some (ascii ''MD5''), Some (ascii ''SHA1''), Some (ascii ''SHA224''),
     Some (ascii ''SHA256''), Some (ascii ''SHA384''), Some (ascii ''SHA512'')]"

definition TlsSignatureAlgoToName :: "byte list option list" where
  "TlsSignatureAlgoToName = [None, Some (ascii ''RSA''), Some (ascii ''DSA''), Some (ascii ''ECDSA'')]"

text \<open>The name for a number; \<open>None\<close> for a number outside of the table and for one without a name.\<close>

definition algo_name :: "byte list option list \<Rightarrow> byte \<Rightarrow> byte list option" where
  "algo_name tbl b = (if unat b \<ge> length tbl then None else tbl ! unat b)"

text \<open>The two loops over the pairs of \<open>list\<close>; \<open>Inr None\<close> is \<^verbatim>\<open>EFI_INVALID_PARAMETER\<close>.\<close>

function sigalg_size :: "byte list \<Rightarrow> nat \<Rightarrow> nat \<Rightarrow> nat \<Rightarrow> nat option res" where
  "sigalg_size lst n index acc =
    (if index < n then
       if length lst \<le> index then Inl OobRead else
       case algo_name TlsHashAlgoToName (lst ! index) of
         None \<Rightarrow> Inr None
       | Some hash \<Rightarrow>
           let acc = acc + (length hash + 1) in
           if length lst \<le> index + 1 then Inl OobRead else
           case algo_name TlsSignatureAlgoToName (lst ! (index + 1)) of
             None \<Rightarrow> Inr None
           | Some sig \<Rightarrow> sigalg_size lst n (index + 2) (acc + (length sig + 1))
     else Inr (Some acc))"
  by pat_completeness auto

termination by (relation "measure (\<lambda>(lst, n, index, acc). n - index)") auto

function sigalg_fill :: "byte list \<Rightarrow> nat \<Rightarrow> nat \<Rightarrow> nat \<times> byte list \<Rightarrow> (nat \<times> byte list) res" where
  "sigalg_fill lst n index pb =
    (if index < n then
       if length lst \<le> index + 1 then Inl OobRead else
       case (algo_name TlsHashAlgoToName (lst ! index), algo_name TlsSignatureAlgoToName (lst ! (index + 1))) of
         (Some hash, Some sig) \<Rightarrow>
           bind_res (put_bytes hash pb) (\<lambda>pb.
           bind_res (put_bytes [0x2B] pb) (\<lambda>pb.
           bind_res (put_bytes sig pb) (\<lambda>pb.
           bind_res (put_bytes [0x3A] pb) (\<lambda>pb.
           sigalg_fill lst n (index + 2) pb))))
       | _ \<Rightarrow> Inl NullDeref
     else Inr pb)"
  by pat_completeness auto

termination by (relation "measure (\<lambda>(lst, n, index, pb). n - index)") auto

declare sigalg_size.simps [simp del] sigalg_fill.simps [simp del]

definition TlsSetSignatureAlgoList ::
    "'s ssl_config \<Rightarrow> tls_connection option \<Rightarrow> byte list option \<Rightarrow> UINT64 \<Rightarrow> pool \<Rightarrow> 's
     \<Rightarrow> (efi_status \<times> pool \<times> 's) res" where
  "TlsSetSignatureAlgoList L Tls Data DataSize p s =
    (case (ssl_of Tls, Data) of
       (Some ssl, Some bs) \<Rightarrow>
         if DataSize < 3 \<or> DataSize mod 2 = 0 then Inr (EFI_INVALID_PARAMETER, p, s) else
         if bs = [] then Inl OobRead else
         if ucast (hd bs) \<noteq> DataSize - 1 then Inr (EFI_INVALID_PARAMETER, p, s) else
         let lst = tl bs; n = unat (hd bs) in
         bind_res (sigalg_size lst n 0 0) (\<lambda>r.
         case r of
           None \<Rightarrow> Inr (EFI_INVALID_PARAMETER, p, s)
         | Some SignAlgoStrSize \<Rightarrow>
             if SignAlgoStrSize = 0 then Inr (EFI_UNSUPPORTED, p, s) else
             case AllocatePool p SignAlgoStrSize of (SignAlgoStr, p) \<Rightarrow>
             if SignAlgoStr = None then Inr (EFI_OUT_OF_RESOURCES, p, s) else
             bind_res (sigalg_fill lst n 0 (0, pool_junk L SignAlgoStrSize)) (\<lambda>(pos, buf).
             bind_res (if 0 < pos then put_bytes [0] (pos - 1, buf) else Inl OobWrite) (\<lambda>(_, buf).
             case SSL_set1_sigalgs_list L ssl buf s of (Ret, s) \<Rightarrow>
             bind_res (FreePool p SignAlgoStr) (\<lambda>p.
             Inr (if Ret < 1 then EFI_INVALID_PARAMETER else EFI_SUCCESS, p, s)))))
     | _ \<Rightarrow> Inr (EFI_INVALID_PARAMETER, p, s))"

end
