(* ===== verification/TlsStrings.thy ===== *)
theory TlsStrings
  imports TlsConfig InetProps
begin

text \<open>
  The strings that \<^verbatim>\<open>TlsSetCipherList\<close> and \<^verbatim>\<open>TlsSetSignatureAlgoList\<close> give to OpenSSL: what is in
  them, that they fill their buffers exactly, and that both functions free what they allocate.
\<close>

section \<open>Writing to a buffer\<close>

lemma put_bytes_append: "bind_res (put_bytes a pb) (put_bytes b) = put_bytes (a @ b) pb"
  by (auto simp: put_bytes_def copy_at_append add.assoc)

lemma put_bytes_Nil: "fst pb \<le> length (snd pb) \<Longrightarrow> put_bytes [] pb = Inr pb"
  by (cases pb) (simp add: put_bytes_def copy_at_def)

lemma put_bytes_inside: "put_bytes a pb = Inr pb' \<Longrightarrow> fst pb' \<le> length (snd pb')"
  by (auto simp: put_bytes_def split: if_splits)

lemma put_bytes_all: "length buf = length bs \<Longrightarrow> put_bytes bs (0, buf) = Inr (length bs, bs)"
  by (simp add: put_bytes_def copy_at_def)

lemma bind_put_cong:
  assumes "\<And>pb'. fst pb' \<le> length (snd pb') \<Longrightarrow> f pb' = g pb'"
  shows "bind_res (put_bytes a pb) f = bind_res (put_bytes a pb) g"
  using assms put_bytes_inside [of a pb] by (cases "put_bytes a pb") auto

section \<open>Texts with colons\<close>

lemma length_text_snoc:
  "length (text_of (gs @ [g])) = length (text_of gs) + (if gs = [] then 0 else 1) + length g"
proof (cases gs rule: rev_cases)
  case (snoc hs h)
  then show ?thesis by (simp add: text_of_def closed_text_def butlast_append)
qed (simp add: text_of_def closed_text_def)

lemma text_prefix_shorter: "length (text_of gs) \<le> length (text_of (gs @ hs))"
proof (induction hs rule: rev_induct)
  case (snoc h hs)
  have "length (text_of (gs @ hs)) \<le> length (text_of ((gs @ hs) @ [h]))" unfolding length_text_snoc by simp
  with snoc show ?case by simp
qed simp

lemma text_Cons: "text_of (g # gs) = g @ concat (map (\<lambda>h. 0x3A # h) gs)"
proof (induction gs arbitrary: g)
  case (Cons h gs)
  then show ?case by (simp add: text_of_def closed_text_def)
qed (simp add: text_of_def closed_text_def)

lemma split_text:
  "gs \<noteq> [] \<Longrightarrow> \<forall>g \<in> set gs. 0x3A \<notin> set g \<Longrightarrow> split_at 0x3A (text_of gs) = gs"
proof (induction gs)
  case (Cons g gs)
  show ?case
  proof (cases gs)
    case Nil
    then have "split_at 0x3A (text_of (g # gs)) = split_at 0x3A (g @ [])"
      by (simp add: text_of_def closed_text_def)
    then show ?thesis using Nil Cons.prems split_at_prefix [of "0x3A" g "[]"] by simp
  next
    case (Cons h hs)
    have "text_of (g # gs) = g @ 0x3A # text_of gs" unfolding Cons text_Cons by simp
    moreover have "split_at 0x3A (text_of gs) = gs" using Cons Cons.IH Cons.prems by simp
    ultimately show ?thesis using split_at_prefix [of "0x3A" g "0x3A # text_of gs"] Cons.prems by simp
  qed
qed simp

section \<open>The list of ciphers\<close>

text \<open>The ciphers that are found: the first of the stack for each identifier, in the order of the caller.\<close>

definition known_ciphers :: "cipher list \<Rightarrow> UINT16 list \<Rightarrow> cipher list" where
  "known_ciphers stack ids = List.map_filter (\<lambda>i. find (\<lambda>c. i = protocol_id c) stack) ids"

definition cipher_text :: "cipher list \<Rightarrow> byte list" where
  "cipher_text cs = text_of (map cipher_name cs)"

lemma map_ciphers_exact:
  "index + k \<le> length ids \<Longrightarrow> length mapped + k \<le> cap \<Longrightarrow> n = length (cipher_text mapped) \<Longrightarrow> n < 2 ^ 64 \<Longrightarrow>
    map_ciphers stack ids cap k index mapped n =
      (let cs = mapped @ known_ciphers stack (take k (drop index ids)) in
       Inr (if length (cipher_text cs) < 2 ^ 64 then Inr (cs, length (cipher_text cs)) else Inl EFI_OUT_OF_RESOURCES))"
proof (induction k arbitrary: index mapped n)
  case 0
  then show ?case by (simp add: known_ciphers_def List.map_filter_simps)
next
  case (Suc k)
  from Suc.prems(1) have drop: "take (Suc k) (drop index ids) = ids ! index # take k (drop (Suc index) ids)"
    by (simp add: Cons_nth_drop_Suc [symmetric])
  let ?rest = "known_ciphers stack (take k (drop (Suc index) ids))"
  show ?case
  proof (cases "find (\<lambda>c. ids ! index = protocol_id c) stack")
    case None
    then have "known_ciphers stack (take (Suc k) (drop index ids)) = ?rest"
      unfolding drop by (simp add: known_ciphers_def List.map_filter_simps)
    with Suc None show ?thesis by simp
  next
    case (Some c)
    then have all: "known_ciphers stack (take (Suc k) (drop index ids)) = c # ?rest"
      unfolding drop by (simp add: known_ciphers_def List.map_filter_simps)
    have one: "length (cipher_text (mapped @ [c]))
        = n + (if mapped = [] then 0 else 1) + length (cipher_name c)"
      using Suc.prems(3) by (simp add: cipher_text_def length_text_snoc)
    have mono: "length (cipher_text (mapped @ [c])) \<le> length (cipher_text (mapped @ c # ?rest))"
      using text_prefix_shorter [of "map cipher_name (mapped @ [c])" "map cipher_name ?rest"]
      by (simp add: cipher_text_def)
    show ?thesis
    proof (cases "length (cipher_text (mapped @ [c])) < 2 ^ 64")
      case True
      have "map_ciphers stack ids cap (Suc k) index mapped n
          = map_ciphers stack ids cap k (Suc index) (mapped @ [c]) (length (cipher_text (mapped @ [c])))"
        using Suc.prems(1,2) Some True one by (auto simp: SafeUintnAdd_def)
      with Suc.IH [of "Suc index" "mapped @ [c]", OF _ _ refl True] Suc.prems(1,2) all show ?thesis
        by (simp add: Let_def)
    next
      case False
      then have "map_ciphers stack ids cap (Suc k) index mapped n = Inr (Inl EFI_OUT_OF_RESOURCES)"
        using Suc.prems(1,2) Some one by (auto simp: SafeUintnAdd_def)
      moreover from False mono have "\<not> length (cipher_text (mapped @ c # ?rest)) < 2 ^ 64" by linarith
      ultimately show ?thesis by (simp add: all Let_def)
    qed
  qed
qed

lemma fill_later:
  "0 < index \<Longrightarrow> fst pb \<le> length (snd pb) \<Longrightarrow>
    fill_ciphers cs index pb = put_bytes (concat (map (\<lambda>c. 0x3A # cipher_name c) cs)) pb"
proof (induction cs arbitrary: index pb)
  case Nil
  then show ?case by (simp add: put_bytes_Nil)
next
  case (Cons c cs)
  let ?tail = "concat (map (\<lambda>c. 0x3A # cipher_name c) cs)"
  have "fill_ciphers (c # cs) index pb
      = bind_res (put_bytes [0x3A] pb) (\<lambda>pb. bind_res (put_bytes (cipher_name c) pb) (put_bytes ?tail))"
    using Cons.prems Cons.IH [of "Suc index"] by (auto intro!: bind_put_cong)
  then show ?case using put_bytes_append [of "[0x3A]" pb "cipher_name c @ ?tail"] by (simp add: put_bytes_append)
qed

lemma fill_all: "cs \<noteq> [] \<Longrightarrow> fill_ciphers cs 0 pb = put_bytes (cipher_text cs) pb"
proof (cases cs)
  case (Cons c cs')
  then have "fill_ciphers cs 0 pb
      = bind_res (put_bytes (cipher_name c) pb) (put_bytes (concat (map (\<lambda>c. 0x3A # cipher_name c) cs')))"
    using fill_later [of "Suc 0" _ cs'] by (auto intro!: bind_put_cong)
  with Cons show ?thesis by (simp add: put_bytes_append cipher_text_def text_Cons map_map comp_def)
qed simp

lemma log_pieces_end: "pos \<le> full \<Longrightarrow> log_pieces full pos = full"
proof (induction full pos rule: log_pieces.induct)
  case (1 full pos)
  then show ?case by (subst log_pieces.simps) auto
qed

text \<open>The allocation, the string, the call of OpenSSL and the release.\<close>

definition cipher_call :: "'s ssl_config \<Rightarrow> ptr \<Rightarrow> cipher list \<Rightarrow> 's \<Rightarrow> efi_status \<times> 's" where
  "cipher_call L ssl cs s =
    (case SSL_set_cipher_list L ssl (cipher_text cs @ [0]) s of (Ret, s') \<Rightarrow>
       (if Ret \<le> 0 then EFI_UNSUPPORTED else EFI_SUCCESS, s'))"

lemma set_cipher_string_exact:
  assumes inv: "pool_inv p" and cs: "cs \<noteq> []" and junk: "\<And>n. length (pool_junk L n) = n"
    and n: "n = length (cipher_text cs) + 1"
  shows "\<exists>st p' s'. set_cipher_string L ssl cs n p s = Inr (st, p', s')
    \<and> pool_inv p' \<and> pool_live p' = pool_live p \<and> pool_ok p' = pool_ok p
    \<and> (st, s') = (if pool_ok p (pool_next p) n then cipher_call L ssl cs s else (EFI_OUT_OF_RESOURCES, s))"
proof (cases "pool_ok p (pool_next p) n")
  case True
  then obtain b q where alloc: "AllocatePool p n = (Some b, q)" by (simp add: AllocatePool_def)
  note q = AllocatePool_Some [OF alloc inv]
  from q FreePool_live [of b q] obtain p' where
    p': "FreePool q (Some b) = Inr p'" "pool_inv p'" "pool_live p' = pool_live q - {b}" "pool_ok p' = pool_ok q"
    by auto
  have "bind_res (fill_ciphers cs 0 (0, pool_junk L n)) (put_bytes [0]) = Inr (n, cipher_text cs @ [0])"
    unfolding fill_all [OF cs] put_bytes_append using put_bytes_all [of "pool_junk L n" "cipher_text cs @ [0]"]
    by (simp add: junk n)
  then obtain pb where "fill_ciphers cs 0 (0, pool_junk L n) = Inr pb"
    "put_bytes [0] pb = Inr (n, cipher_text cs @ [0])" by (rule bind_res_InrE)
  moreover have "Suc (log_pieces (n - 1) 0) = n" by (simp add: log_pieces_end n)
  ultimately have "set_cipher_string L ssl cs n p s
      = (case cipher_call L ssl cs s of (st, s') \<Rightarrow> Inr (st, p', s'))"
    by (simp add: set_cipher_string_def alloc p'(1) cipher_call_def split: prod.splits)
  with True q p' show ?thesis by (cases "cipher_call L ssl cs s") auto
qed (use inv in \<open>simp add: set_cipher_string_def AllocatePool_def pool_inv_def less_Suc_eq\<close>)

text \<open>The whole function, for a connection and a list of identifiers.\<close>

text \<open>C17: \<^verbatim>\<open>TlsSetCipherList\<close> neither faults nor leaks. It gives OpenSSL the names of the ciphers that
  it knows, in the order of the caller and with colons between them, or it reports that there is
  none; \<^verbatim>\<open>EFI_OUT_OF_RESOURCES\<close> comes with no effect, and only when an allocation fails or a size
  does not fit.\<close>

theorem tls_cipher_list_exact:
  fixes L :: "'s ssl_config" and ids :: "UINT16 list" and CipherNum :: UINT64
  defines "cs ssl s \<equiv> known_ciphers (case SSL_get_ciphers L ssl s of None \<Rightarrow> [] | Some stack \<Rightarrow> stack)
      (take (unat CipherNum) ids)"
  assumes inv: "pool_inv p" and ssl: "ssl_of Tls = Some ssl" and ids: "unat CipherNum \<le> length ids"
    and junk: "\<forall>n. length (pool_junk L n) = n"
  shows "\<exists>st p' s'. TlsSetCipherList L Tls (Some ids) CipherNum p s = Inr (st, p', s')
    \<and> pool_live p' = pool_live p
    \<and> (st \<noteq> EFI_OUT_OF_RESOURCES \<longrightarrow>
        (st, s') = (if cs ssl s = [] then (EFI_UNSUPPORTED, s) else cipher_call L ssl (cs ssl s) s))
    \<and> (st = EFI_OUT_OF_RESOURCES \<longrightarrow> s' = s \<and>
        ((\<exists>i n. \<not> pool_ok p i n) \<or> 2 ^ 61 \<le> unat CipherNum \<or> 2 ^ 64 \<le> length (cipher_text (cs ssl s)) + 1))"
proof (cases "unat CipherNum * 8 < 2 ^ 64")
  case False
  then show ?thesis by (simp add: TlsSetCipherList_def ssl SafeUintnMult_def EFI_OUT_OF_RESOURCES_def)
next
  case small: True
  let ?m = "unat CipherNum * 8" and ?cs = "cs ssl s"
  show ?thesis
  proof (cases "pool_ok p (pool_next p) ?m")
    case False
    then show ?thesis using small
      by (auto simp: TlsSetCipherList_def ssl SafeUintnMult_def AllocatePool_def)
  next
    case True
    then obtain b q where alloc: "AllocatePool p ?m = (Some b, q)" by (simp add: AllocatePool_def)
    note q = AllocatePool_Some [OF alloc inv]
    from q FreePool_live [of b q] obtain q' where
      q': "FreePool q (Some b) = Inr q'" "pool_live q' = pool_live q - {b}" by auto
    have map: "(case SSL_get_ciphers L ssl s of
           None \<Rightarrow> Inr (Inr ([], 0))
         | Some stack \<Rightarrow> map_ciphers stack ids (?m div 8) (unat CipherNum) 0 [] 0)
       = Inr (if length (cipher_text ?cs) < 2 ^ 64 then Inr (?cs, length (cipher_text ?cs)) else Inl EFI_OUT_OF_RESOURCES)"
      using map_ciphers_exact [of 0 "unat CipherNum" ids "[]" "?m div 8" 0] ids
      by (auto simp: cs_def cipher_text_def text_of_def Let_def known_ciphers_def List.map_filter_def split: option.splits)
    have run: "TlsSetCipherList L Tls (Some ids) CipherNum p s =
      bind_res (if length (cipher_text ?cs) < 2 ^ 64 then
          if ?cs = [] then Inr (EFI_UNSUPPORTED, q, s) else
          (case SafeUintnAdd (length (cipher_text ?cs)) 1 of
             None \<Rightarrow> Inr (EFI_OUT_OF_RESOURCES, q, s)
           | Some n \<Rightarrow> set_cipher_string L ssl ?cs n q s)
        else Inr (EFI_OUT_OF_RESOURCES, q, s)) (\<lambda>(st, p, s).
      bind_res (FreePool p (Some b)) (\<lambda>p. Inr (st, p, s)))"
      using small by (simp add: TlsSetCipherList_def ssl SafeUintnMult_def alloc map)
    have bq: "pool_live q - {b} = pool_live p" using q by auto
    consider "2 ^ 64 \<le> length (cipher_text ?cs) + 1" | "?cs = []"
      | "length (cipher_text ?cs) + 1 < 2 ^ 64" "?cs \<noteq> []" by linarith
    then show ?thesis
    proof cases
      case 1
      then have "?cs \<noteq> []" by (auto simp: cipher_text_def text_of_def)
      with 1 show ?thesis unfolding run using q' bq by (simp add: SafeUintnAdd_def)
    next
      case 2
      then show ?thesis unfolding run using q' bq
        by (simp add: cipher_text_def text_of_def EFI_OUT_OF_RESOURCES_def EFI_UNSUPPORTED_def)
    next
      case 3
      from set_cipher_string_exact [OF q(1) 3(2) junk [rule_format] refl, of ssl s] obtain st r s' where
        r: "set_cipher_string L ssl ?cs (length (cipher_text ?cs) + 1) q s = Inr (st, r, s')"
          "pool_inv r" "pool_live r = pool_live q"
          "(st, s') = (if pool_ok q (pool_next q) (length (cipher_text ?cs) + 1)
             then cipher_call L ssl ?cs s else (EFI_OUT_OF_RESOURCES, s))" by blast
      from r FreePool_live [of b r] q(3) obtain r' where
        r': "FreePool r (Some b) = Inr r'" "pool_live r' = pool_live r - {b}" by auto
      have "(EFI_OUT_OF_RESOURCES, t) \<noteq> cipher_call L ssl ?cs s" for t
        by (simp add: cipher_call_def status_defs split: prod.splits)
      with 3 r r' bq q(4) show ?thesis unfolding run
        by (auto simp: SafeUintnAdd_def split: if_splits)
    qed
  qed
qed

section \<open>The list of signature algorithms\<close>

text \<open>
  The text of one pair, \<open>None\<close> when one of its numbers has no name, and a parser for the whole
  text that gives the pairs back.
\<close>

definition pair_name :: "byte \<times> byte \<Rightarrow> byte list option" where
  "pair_name hg =
    (case (algo_name TlsHashAlgoToName (fst hg), algo_name TlsSignatureAlgoToName (snd hg)) of
       (Some a, Some b) \<Rightarrow> Some (a @ 0x2B # b)
     | _ \<Rightarrow> None)"

definition algo_code :: "byte list option list \<Rightarrow> byte list \<Rightarrow> byte option" where
  "algo_code tbl w = first_some (\<lambda>i. if tbl ! i = Some w then Some (of_nat i) else None) [0..<length tbl]"

definition parse_pair :: "byte list \<Rightarrow> (byte \<times> byte) option" where
  "parse_pair w =
    (case split_at 0x2B w of
       [a, b] \<Rightarrow>
         (case (algo_code TlsHashAlgoToName a, algo_code TlsSignatureAlgoToName b) of
            (Some h, Some g) \<Rightarrow> Some (h, g)
          | _ \<Rightarrow> None)
     | _ \<Rightarrow> None)"

definition sigalg_parse :: "byte list \<Rightarrow> (byte \<times> byte) list option" where
  "sigalg_parse txt = those (map parse_pair (split_at 0x3A txt))"

definition pair_bytes :: "(byte \<times> byte) list \<Rightarrow> byte list" where
  "pair_bytes ps = concat (map (\<lambda>(h, g). [h, g]) ps)"

lemma length_pair_bytes: "length (pair_bytes ps) = 2 * length ps"
  by (induction ps) (auto simp: pair_bytes_def)

lemma algo_name_known:
  "algo_name TlsHashAlgoToName h = Some a \<Longrightarrow> h \<in> {1, 2, 3, 4, 5, 6}"
  "algo_name TlsSignatureAlgoToName g = Some b \<Longrightarrow> g \<in> {1, 2, 3}"
proof -
  {
    assume "algo_name TlsHashAlgoToName h = Some a"
    note known = this
    then have "unat h < 7" by (simp add: algo_name_def TlsHashAlgoToName_def split: if_splits)
    moreover have "unat h \<noteq> 0"
    proof
      assume "unat h = 0"
      with known show False by (simp add: algo_name_def TlsHashAlgoToName_def)
    qed
    ultimately have "unat h \<in> {1, 2, 3, 4, 5, 6}" by auto
    then show "h \<in> {1, 2, 3, 4, 5, 6}" by (auto simp: word_unat_eq_iff)
  next
    assume "algo_name TlsSignatureAlgoToName g = Some b"
    note known = this
    then have "unat g < 4" by (simp add: algo_name_def TlsSignatureAlgoToName_def split: if_splits)
    moreover have "unat g \<noteq> 0"
    proof
      assume "unat g = 0"
      with known show False by (simp add: algo_name_def TlsSignatureAlgoToName_def)
    qed
    ultimately have "unat g \<in> {1, 2, 3}" by auto
    then show "g \<in> {1, 2, 3}" by (auto simp: word_unat_eq_iff)
  }
qed

lemma algo_names:
  "ascii ''MD5'' = [0x4d, 0x44, 0x35]"
  "ascii ''SHA1'' = [0x53, 0x48, 0x41, 0x31]"
  "ascii ''SHA224'' = [0x53, 0x48, 0x41, 0x32, 0x32, 0x34]"
  "ascii ''SHA256'' = [0x53, 0x48, 0x41, 0x32, 0x35, 0x36]"
  "ascii ''SHA384'' = [0x53, 0x48, 0x41, 0x33, 0x38, 0x34]"
  "ascii ''SHA512'' = [0x53, 0x48, 0x41, 0x35, 0x31, 0x32]"
  "ascii ''RSA'' = [0x52, 0x53, 0x41]"
  "ascii ''DSA'' = [0x44, 0x53, 0x41]"
  "ascii ''ECDSA'' = [0x45, 0x43, 0x44, 0x53, 0x41]"
  by (simp_all add: ascii_def)

lemma names_decoded:
  "\<forall>h \<in> {1, 2, 3, 4, 5, 6}. case algo_name TlsHashAlgoToName h of
     None \<Rightarrow> False | Some a \<Rightarrow> algo_code TlsHashAlgoToName a = Some h \<and> 0x2B \<notin> set a \<and> 0x3A \<notin> set a"
  "\<forall>g \<in> {1, 2, 3}. case algo_name TlsSignatureAlgoToName g of
     None \<Rightarrow> False | Some b \<Rightarrow> algo_code TlsSignatureAlgoToName b = Some g \<and> 0x2B \<notin> set b \<and> 0x3A \<notin> set b"
  by (simp_all add: algo_name_def algo_code_def TlsHashAlgoToName_def TlsSignatureAlgoToName_def
      algo_names upt_rec)

lemma parse_pair_name:
  assumes "pair_name hg = Some w"
  shows "parse_pair w = Some hg" "0x3A \<notin> set w"
proof -
  obtain h g where hg: "hg = (h, g)" by (cases hg)
  with assms obtain a b where ab: "algo_name TlsHashAlgoToName h = Some a"
    "algo_name TlsSignatureAlgoToName g = Some b" "w = a @ 0x2B # b"
    by (auto simp: pair_name_def split: option.splits)
  note dec = bspec [OF names_decoded(1) algo_name_known(1) [OF ab(1)], unfolded ab(1)]
    bspec [OF names_decoded(2) algo_name_known(2) [OF ab(2)], unfolded ab(2)]
  have "split_at 0x2B w = [a, b]"
    using dec split_at_prefix [of "0x2B" a "0x2B # b"] split_at_prefix [of "0x2B" b "[]"] by (simp add: ab(3))
  with dec show "parse_pair w = Some hg" "0x3A \<notin> set w" by (simp_all add: parse_pair_def hg ab(3))
qed

lemma pair_bytes_Cons: "pair_bytes ((h, g) # ps) = h # g # pair_bytes ps"
  by (simp add: pair_bytes_def)

text \<open>One pair of the loops.\<close>

definition pair_text :: "byte \<times> byte \<Rightarrow> byte list" where
  "pair_text hg = the (pair_name hg)"

lemma sigalg_size_step:
  "index < n \<Longrightarrow> index + 1 < length lst \<Longrightarrow> sigalg_size lst n index acc =
    (case pair_name (lst ! index, lst ! (index + 1)) of
       None \<Rightarrow> Inr None
     | Some w \<Rightarrow> sigalg_size lst n (index + 2) (acc + length (w @ [0x3A])))"
  by (subst sigalg_size.simps) (simp add: pair_name_def add.assoc split: option.splits)

lemma bind_res_assoc: "bind_res (bind_res r f) g = bind_res r (\<lambda>x. bind_res (f x) g)"
  by (cases r) simp_all

lemma sigalg_fill_step:
  assumes "index < n" and "index + 1 < length lst" and w: "pair_name (lst ! index, lst ! (index + 1)) = Some w"
  shows "sigalg_fill lst n index pb = bind_res (put_bytes (w @ [0x3A]) pb) (sigalg_fill lst n (index + 2))"
proof -
  from w obtain a b where ab: "algo_name TlsHashAlgoToName (lst ! index) = Some a"
    "algo_name TlsSignatureAlgoToName (lst ! (index + 1)) = Some b" "w = a @ [0x2B] @ b"
    by (auto simp: pair_name_def split: option.splits)
  have "put_bytes (w @ [0x3A]) pb = bind_res (put_bytes a pb) (\<lambda>pb. bind_res (put_bytes [0x2B] pb)
      (\<lambda>pb. bind_res (put_bytes b pb) (put_bytes [0x3A])))"
    unfolding ab(3) by (simp add: put_bytes_append)
  with assms(1,2) ab(1,2) show ?thesis by (subst sigalg_fill.simps) (simp add: bind_res_assoc)
qed

text \<open>Both loops from the pair with the index \<open>length pre\<close> on.\<close>

lemma sigalg_size_exact:
  "sigalg_size (pre @ pair_bytes ps) (length pre + 2 * length ps) (length pre) acc =
    Inr (if \<exists>x \<in> set ps. pair_name x = None then None
         else Some (acc + length (closed_text (map pair_text ps))))"
proof (induction ps arbitrary: pre acc)
  case Nil
  then show ?case by (simp add: sigalg_size.simps closed_text_def)
next
  case (Cons hg ps)
  obtain h g where hg: "hg = (h, g)" by (cases hg)
  let ?lst = "pre @ pair_bytes (hg # ps)"
  have nth: "?lst ! length pre = h" "?lst ! (length pre + 1) = g"
    and len: "length ?lst = length pre + 2 * Suc (length ps)"
    and step: "?lst = (pre @ [h, g]) @ pair_bytes ps"
    by (simp_all add: hg pair_bytes_Cons nth_append length_pair_bytes)
  have "sigalg_size ?lst (length pre + 2 * Suc (length ps)) (length pre) acc =
    (case pair_name hg of
       None \<Rightarrow> Inr None
     | Some w \<Rightarrow> sigalg_size ?lst (length pre + 2 * Suc (length ps)) (length pre + 2) (acc + length (w @ [0x3A])))"
    using sigalg_size_step [of "length pre" "length pre + 2 * Suc (length ps)" ?lst acc] len nth hg by simp
  also have "\<dots> = (case pair_name hg of
       None \<Rightarrow> Inr None
     | Some w \<Rightarrow> Inr (if \<exists>x \<in> set ps. pair_name x = None then None
         else Some (acc + length (w @ [0x3A]) + length (closed_text (map pair_text ps)))))"
    unfolding step using Cons.IH [of "pre @ [h, g]"] by (cases "pair_name hg") auto
  also have "\<dots> = Inr (if \<exists>x \<in> set (hg # ps). pair_name x = None then None
      else Some (acc + length (closed_text (map pair_text (hg # ps)))))"
  proof (cases "pair_name hg")
    case (Some w)
    then have "pair_text hg = w" by (simp add: pair_text_def)
    with Some show ?thesis by (simp add: closed_text_def)
  qed simp
  finally show ?case by simp
qed

lemma sigalg_fill_exact:
  "\<forall>x \<in> set ps. pair_name x \<noteq> None \<Longrightarrow> fst pb \<le> length (snd pb) \<Longrightarrow>
    sigalg_fill (pre @ pair_bytes ps) (length pre + 2 * length ps) (length pre) pb =
      put_bytes (closed_text (map pair_text ps)) pb"
proof (induction ps arbitrary: pre pb)
  case Nil
  then show ?case by (simp add: sigalg_fill.simps closed_text_def put_bytes_Nil)
next
  case (Cons hg ps)
  obtain h g where hg: "hg = (h, g)" by (cases hg)
  let ?lst = "pre @ pair_bytes (hg # ps)"
  have nth: "?lst ! length pre = h" "?lst ! (length pre + 1) = g"
    and len: "length ?lst = length pre + 2 * Suc (length ps)"
    and step: "?lst = (pre @ [h, g]) @ pair_bytes ps"
    by (simp_all add: hg pair_bytes_Cons nth_append length_pair_bytes)
  from Cons.prems(1) obtain w where w: "pair_name hg = Some w" by auto
  have "sigalg_fill ?lst (length pre + 2 * Suc (length ps)) (length pre) pb
    = bind_res (put_bytes (w @ [0x3A]) pb) (sigalg_fill ?lst (length pre + 2 * Suc (length ps)) (length pre + 2))"
    using sigalg_fill_step [of "length pre" "length pre + 2 * Suc (length ps)" ?lst w pb] len nth hg w by simp
  also have "\<dots> = bind_res (put_bytes (w @ [0x3A]) pb) (put_bytes (closed_text (map pair_text ps)))"
    unfolding step using Cons.IH [of _ "pre @ [h, g]"] Cons.prems(1) by (auto intro!: bind_put_cong)
  moreover have "pair_text hg = w" by (simp add: pair_text_def w)
  ultimately show ?case unfolding put_bytes_append by (simp add: closed_text_def)
qed

lemma closed_text_last: "gs \<noteq> [] \<Longrightarrow> closed_text gs = text_of gs @ [0x3A]"
proof (cases gs rule: rev_cases)
  case (snoc hs h)
  then show ?thesis by (simp add: text_of_def closed_text_def)
qed simp

lemma sigalg_parse_text:
  assumes "ps \<noteq> []" and "\<forall>x \<in> set ps. pair_name x \<noteq> None"
  shows "sigalg_parse (text_of (map pair_text ps)) = Some ps"
proof -
  have known: "pair_name x = Some (pair_text x)" if "x \<in> set ps" for x
    using assms(2) that by (auto simp: pair_text_def)
  then have "\<forall>g \<in> set (map pair_text ps). 0x3A \<notin> set g" using parse_pair_name(2) [OF known] by auto
  then have "split_at 0x3A (text_of (map pair_text ps)) = map pair_text ps"
    using assms(1) by (intro split_text) simp_all
  moreover have "map (parse_pair \<circ> pair_text) ps = map Some ps"
    using parse_pair_name(1) [OF known] by simp
  moreover have "those (map Some xs) = Some xs" for xs :: "(byte \<times> byte) list"
    by (induction xs) simp_all
  ultimately show ?thesis unfolding sigalg_parse_def by (simp only: map_map)
qed

text \<open>The string with its last colon replaced by NUL.\<close>

lemma sigalg_string:
  assumes ps: "ps \<noteq> []" "\<forall>x \<in> set ps. pair_name x \<noteq> None"
    and buf: "length buf = length (closed_text (map pair_text ps))"
  shows "\<exists>b2. sigalg_fill (pair_bytes ps) (2 * length ps) 0 (0, buf) = Inr (length buf, b2)
    \<and> 0 < length buf \<and> put_bytes [0] (length buf - 1, b2) = Inr (length buf, text_of (map pair_text ps) @ [0])"
proof -
  let ?t = "closed_text (map pair_text ps)"
  have t: "?t = text_of (map pair_text ps) @ [0x3A]" using ps(1) by (simp add: closed_text_last)
  have "sigalg_fill (pair_bytes ps) (2 * length ps) 0 (0, buf) = Inr (length ?t, ?t)"
    using sigalg_fill_exact [OF ps(2), of "(0, buf)" "[]"] put_bytes_all [OF buf] by simp
  moreover have "put_bytes [0] (length ?t - 1, ?t) = Inr (length ?t, text_of (map pair_text ps) @ [0])"
    unfolding t by (simp add: put_bytes_def copy_at_def)
  ultimately show ?thesis unfolding buf using t by simp
qed

definition sigalg_call :: "'s ssl_config \<Rightarrow> ptr \<Rightarrow> byte list \<Rightarrow> 's \<Rightarrow> efi_status \<times> 's" where
  "sigalg_call L ssl txt s =
    (case SSL_set1_sigalgs_list L ssl (txt @ [0]) s of (Ret, s') \<Rightarrow>
       (if Ret < 1 then EFI_INVALID_PARAMETER else EFI_SUCCESS, s'))"

text \<open>C38: for a list of pairs of a hash and a signature algorithm with its length in front,
  \<^verbatim>\<open>TlsSetSignatureAlgoList\<close> gives OpenSSL a text from which exactly these pairs can be read back, in
  their order. One pair without a name makes it reject the whole list with \<^verbatim>\<open>EFI_INVALID_PARAMETER\<close>.
  Nothing is left allocated.\<close>

theorem tls_sigalg_exact:
  fixes L :: "'s ssl_config"
  assumes inv: "pool_inv p" and ssl: "ssl_of Tls = Some ssl"
    and junk: "\<forall>n. length (pool_junk L n) = n" and ps: "ps \<noteq> []" "2 * length ps < 256"
  shows "\<exists>st p' s'. TlsSetSignatureAlgoList L Tls (Some (of_nat (2 * length ps) # pair_bytes ps))
      (of_nat (2 * length ps + 1)) p s = Inr (st, p', s')
    \<and> pool_live p' = pool_live p
    \<and> (if \<exists>x \<in> set ps. pair_name x = None then st = EFI_INVALID_PARAMETER \<and> s' = s
       else (st = EFI_OUT_OF_RESOURCES \<and> s' = s \<and> (\<exists>n. \<not> pool_ok p (pool_next p) n))
         \<or> (\<exists>txt. sigalg_parse txt = Some ps \<and> (st, s') = sigalg_call L ssl txt s))"
proof -
  let ?n = "2 * length ps" and ?t = "closed_text (map pair_text ps)"
  have "unat (of_nat m :: byte) = m" if "m < 256" for m
    using that by (simp add: unat_of_nat take_bit_nat_eq_self)
  then have n: "unat (of_nat ?n :: byte) = ?n" using ps(2) .
  have size64: "unat (of_nat (?n + 1) :: UINT64) = ?n + 1" using ps(2) by (intro unat_of_nat64) simp
  have ge: "\<not> (of_nat (?n + 1) :: UINT64) < 3"
    using ps(1) unfolding word_less_nat_alt size64 by simp
  have odd: "(of_nat (?n + 1) :: UINT64) mod 2 \<noteq> 0"
    unfolding word_unat_eq_iff unat_mod size64 by simp
  have len: "ucast (of_nat ?n :: byte) = (of_nat (?n + 1) - 1 :: UINT64)"
  proof -
    have "unat (ucast (of_nat ?n :: byte) :: UINT64) = ?n"
      unfolding unsigned_ucast_eq n using ps(2) by (intro take_bit_nat_eq_self) simp
    moreover have "unat (of_nat (?n + 1) - 1 :: UINT64) = ?n"
      using unat_of_nat64 [of ?n] ps(2) by simp
    ultimately show ?thesis unfolding word_unat_eq_iff by simp
  qed
  have sz: "sigalg_size (pair_bytes ps) ?n 0 0
      = Inr (if \<exists>x \<in> set ps. pair_name x = None then None else Some (length ?t))"
    using sigalg_size_exact [of "[]" ps 0] by simp
  show ?thesis
  proof (cases "\<exists>x \<in> set ps. pair_name x = None")
    case True
    with sz show ?thesis using ge odd len n by (simp add: TlsSetSignatureAlgoList_def ssl Let_def)
  next
    case False
    then have known: "\<forall>x \<in> set ps. pair_name x \<noteq> None" by auto
    from sigalg_string [OF ps(1) known, of "pool_junk L (length ?t)"] junk obtain b2 where
      str: "sigalg_fill (pair_bytes ps) ?n 0 (0, pool_junk L (length ?t)) = Inr (length ?t, b2)"
        "0 < length ?t" "put_bytes [0] (length ?t - 1, b2) = Inr (length ?t, text_of (map pair_text ps) @ [0])"
      by auto
    have run: "TlsSetSignatureAlgoList L Tls (Some (of_nat ?n # pair_bytes ps)) (of_nat (?n + 1)) p s
      = (case AllocatePool p (length ?t) of (SignAlgoStr, q) \<Rightarrow>
           if SignAlgoStr = None then Inr (EFI_OUT_OF_RESOURCES, q, s)
           else case sigalg_call L ssl (text_of (map pair_text ps)) s of (st, s') \<Rightarrow>
             bind_res (FreePool q SignAlgoStr) (\<lambda>q. Inr (st, q, s')))"
      using ge odd len n sz False str
      by (simp add: TlsSetSignatureAlgoList_def ssl Let_def sigalg_call_def split: prod.split)
    show ?thesis
    proof (cases "pool_ok p (pool_next p) (length ?t)")
      case ok: True
      then obtain b q where alloc: "AllocatePool p (length ?t) = (Some b, q)" by (simp add: AllocatePool_def)
      note q = AllocatePool_Some [OF alloc inv]
      from q FreePool_live [of b q] obtain q' where
        q': "FreePool q (Some b) = Inr q'" "pool_live q' = pool_live q - {b}" by auto
      obtain st s' where call: "sigalg_call L ssl (text_of (map pair_text ps)) s = (st, s')" by force
      from q q' have "pool_live q' = pool_live p" by auto
      with False show ?thesis unfolding run alloc using q' call sigalg_parse_text [OF ps(1) known]
        by (auto intro: exI [of _ "text_of (map pair_text ps)"])
    next
      case fail: False
      then have "AllocatePool p (length ?t) = (None, p\<lparr>pool_next := Suc (pool_next p)\<rparr>)"
        by (simp add: AllocatePool_def)
      with False fail show ?thesis unfolding run by auto
    qed
  qed
qed

end
