(* ===== verification/TlsCerts.thy ===== *)
theory TlsCerts
  imports TlsConfig
begin

text \<open>
  The rest of \<^verbatim>\<open>OpensslPkg/Library/TlsLib/TlsConfig.c\<close>: host names, sessions, certificates and keys,
  and the functions that read a setting. The functions that return \<^verbatim>\<open>EFI_UNSUPPORTED\<close> and do
  nothing else are left out.
\<close>

section \<open>Compression, verification and host names\<close>

definition TlsSetCompressionMethod :: "'s ssl_config \<Rightarrow> byte \<Rightarrow> 's \<Rightarrow> efi_status \<times> 's" where
  "TlsSetCompressionMethod L CompMethod s =
    (if CompMethod = 0 then (EFI_SUCCESS, s)
     else if CompMethod = 1 then
       (case SSL_COMP_add_compression_method L CompMethod (COMP_zlib L) s of (Ret, s) \<Rightarrow>
          (if Ret \<noteq> 0 then EFI_UNSUPPORTED else EFI_SUCCESS, s))
     else (EFI_UNSUPPORTED, s))"

definition TlsSetVerify :: "'s ssl_config \<Rightarrow> tls_connection option \<Rightarrow> UINT32 \<Rightarrow> 's \<Rightarrow> 's" where
  "TlsSetVerify L Tls VerifyMode s = (case ssl_of Tls of
     None \<Rightarrow> s
   | Some ssl \<Rightarrow> SSL_set_verify L ssl VerifyMode s)"

text \<open>
  The address of a host name, or \<open>None\<close> where \<^verbatim>\<open>BinaryAddressSize\<close> stays 0: \<open>pton\<close> is \<open>inet_pton\<close>
  with its \<^verbatim>\<open>strchr\<close> and the contents of its buffers.
\<close>

definition host_address :: "(nat \<Rightarrow> byte list \<Rightarrow> byte list option option res) \<Rightarrow> byte list \<Rightarrow> byte list option res" where
  "host_address pton HostName =
    bind_res (pton AF_INET6 HostName) (\<lambda>r6.
    case r6 of
      Some (Some a) \<Rightarrow> Inr (Some a)
    | _ \<Rightarrow>
        bind_res (pton AF_INET HostName) (\<lambda>r4.
        case r4 of Some (Some a) \<Rightarrow> Inr (Some a) | _ \<Rightarrow> Inr None))"

definition TlsSetVerifyHost ::
    "'s ssl_config \<Rightarrow> (nat \<Rightarrow> byte list \<Rightarrow> byte list option option res) \<Rightarrow> tls_connection option
     \<Rightarrow> UINT32 \<Rightarrow> byte list option \<Rightarrow> 's \<Rightarrow> (efi_status \<times> 's) res" where
  "TlsSetVerifyHost L pton Tls Flags HostName s =
    (case (ssl_of Tls, HostName) of
       (Some ssl, Some host) \<Rightarrow>
         let s = snd (SSL_set_tlsext_host_name L ssl (Some host) s);
             s = SSL_set_hostflags L ssl Flags s;
             VerifyParam = SSL_get0_param L ssl s
         in if VerifyParam = 0 then Inl AssertFailed else
            bind_res (host_address pton host) (\<lambda>addr.
              case (case addr of
                      Some a \<Rightarrow> X509_VERIFY_PARAM_set1_ip L VerifyParam a s
                    | None \<Rightarrow> X509_VERIFY_PARAM_set1_host L VerifyParam host s) of (ParamStatus, s) \<Rightarrow>
                Inr (if ParamStatus = 1 then EFI_SUCCESS else EFI_ABORTED, s))
     | _ \<Rightarrow> Inr (EFI_INVALID_PARAMETER, s))"

text \<open>The callback: the new value of \<^verbatim>\<open>Ack\<close> from what OpenSSL says about the name and the session.\<close>

definition SslServerNameCallback :: "int \<Rightarrow> bool \<Rightarrow> byte list option \<Rightarrow> bool \<Rightarrow> bool" where
  "SslServerNameCallback name_type session_reused HostName Ack =
    (if name_type \<noteq> -1 then \<not> session_reused \<and> HostName \<noteq> None else Ack)"

definition TlsSetServerName ::
    "'s ssl_config \<Rightarrow> tls_connection option \<Rightarrow> ptr \<Rightarrow> byte list option \<Rightarrow> pool \<Rightarrow> 's \<Rightarrow> efi_status \<times> pool \<times> 's" where
  "TlsSetServerName L Tls SslCtx HostName p s = (case Tls of
     None \<Rightarrow> (EFI_INVALID_PARAMETER, p, s)
   | Some c \<Rightarrow>
       (case AllocatePool p 16 of
          (None, p) \<Rightarrow> (EFI_OUT_OF_RESOURCES, p, s)
        | (Some TlsExtCtx, p) \<Rightarrow>
            (case SSL_CTX_set_tlsext_servername_callback L SslCtx s of (RetVal, s) \<Rightarrow>
             if RetVal = 0 then (EFI_UNSUPPORTED, p, s) else
             case SSL_CTX_set_tlsext_servername_arg L SslCtx TlsExtCtx s of (RetVal, s) \<Rightarrow>
             if RetVal = 0 then (EFI_UNSUPPORTED, p, s) else
             case SSL_set_tlsext_host_name L (tls_Ssl c) HostName s of (RetVal, s) \<Rightarrow>
             (if RetVal = 0 then EFI_UNSUPPORTED else EFI_SUCCESS, p, s))))"

section \<open>Sessions\<close>

definition TlsSetSessionId ::
    "'s ssl_config \<Rightarrow> tls_connection option \<Rightarrow> byte list option \<Rightarrow> UINT16 \<Rightarrow> 's \<Rightarrow> (efi_status \<times> 's) res" where
  "TlsSetSessionId L Tls SessionId SessionIdLen s =
    (case (ssl_of Tls, SessionId) of
       (Some ssl, Some _) \<Rightarrow>
         let Session = SSL_get_session L ssl s in
         if Session = 0 then Inr (EFI_UNSUPPORTED, s)
         else bind_res (read_range SessionId (unat SessionIdLen)) (\<lambda>bs.
                Inr (EFI_SUCCESS, snd (SSL_SESSION_set1_id L Session bs s)))
     | _ \<Rightarrow> Inr (EFI_INVALID_PARAMETER, s))"

section \<open>Curves and the security level\<close>

definition TlsEcNamedCurveSecp256r1 :: UINT32 where "TlsEcNamedCurveSecp256r1 = 23"
definition TlsEcNamedCurveSecp384r1 :: UINT32 where "TlsEcNamedCurveSecp384r1 = 24"
definition TlsEcNamedCurveSecp521r1 :: UINT32 where "TlsEcNamedCurveSecp521r1 = 25"
definition TlsEcNamedCurveX25519 :: UINT32 where "TlsEcNamedCurveX25519 = 29"
definition TlsEcNamedCurveX448 :: UINT32 where "TlsEcNamedCurveX448 = 30"

definition NID_secp384r1 :: int where "NID_secp384r1 = 715"
definition NID_secp521r1 :: int where "NID_secp521r1 = 716"
definition NID_X25519 :: int where "NID_X25519 = 1034"
definition NID_X448 :: int where "NID_X448 = 1035"

text \<open>The \<^verbatim>\<open>switch\<close>.\<close>

definition curve_nid :: "UINT32 \<Rightarrow> int option" where
  "curve_nid v =
    (if v = TlsEcNamedCurveSecp256r1 then None
     else if v = TlsEcNamedCurveSecp384r1 then Some NID_secp384r1
     else if v = TlsEcNamedCurveSecp521r1 then Some NID_secp521r1
     else if v = TlsEcNamedCurveX25519 then Some NID_X25519
     else if v = TlsEcNamedCurveX448 then Some NID_X448
     else None)"

definition le_word32 :: "byte list \<Rightarrow> UINT32" where
  "le_word32 bs = ucast (bs ! 0) OR push_bit 8 (ucast (bs ! 1)) OR push_bit 16 (ucast (bs ! 2))
     OR push_bit 24 (ucast (bs ! 3))"

definition TlsSetEcCurve ::
    "'s ssl_config \<Rightarrow> tls_connection option \<Rightarrow> byte list option \<Rightarrow> UINT64 \<Rightarrow> 's \<Rightarrow> (efi_status \<times> 's) res" where
  "TlsSetEcCurve L Tls Data DataSize s =
    (case (ssl_of Tls, Data) of
       (Some ssl, Some _) \<Rightarrow>
         if DataSize \<noteq> 4 then Inr (EFI_INVALID_PARAMETER, s) else
         bind_res (read_range Data 4) (\<lambda>bs.
         case curve_nid (le_word32 bs) of
           None \<Rightarrow> Inr (EFI_UNSUPPORTED, s)
         | Some Nid \<Rightarrow>
             (case SSL_set1_curves L ssl [Nid] s of (Ret, s) \<Rightarrow>
              if Ret \<noteq> 1 then Inr (EFI_UNSUPPORTED, s) else
              case EC_KEY_new_by_curve_name L Nid s of (EcKey, s) \<Rightarrow>
              if EcKey = 0 then Inr (EFI_UNSUPPORTED, s) else
              case SSL_set_tmp_ecdh L ssl EcKey s of (Ret, s) \<Rightarrow>
              let s = EC_KEY_free L EcKey s
              in Inr (if Ret \<noteq> 1 then EFI_UNSUPPORTED else EFI_SUCCESS, s)))
     | _ \<Rightarrow> Inr (EFI_INVALID_PARAMETER, s))"

definition MIN_SECURITY_LEVEL :: byte where "MIN_SECURITY_LEVEL = 2"
definition MAX_SECURITY_LEVEL :: byte where "MAX_SECURITY_LEVEL = 5"

definition TlsSetSecurityLevel ::
    "'s ssl_config \<Rightarrow> tls_connection option \<Rightarrow> byte \<Rightarrow> 's \<Rightarrow> efi_status \<times> 's" where
  "TlsSetSecurityLevel L Tls Level s = (case ssl_of Tls of
     None \<Rightarrow> (EFI_INVALID_PARAMETER, s)
   | Some ssl \<Rightarrow>
       if Level < MIN_SECURITY_LEVEL \<or> Level > MAX_SECURITY_LEVEL then (EFI_INVALID_PARAMETER, s)
       else (EFI_SUCCESS, cfg_security_level L ssl Level s))"

section \<open>Certificates and keys\<close>

text \<open>
  The decoders get the bytes that they read. \<open>SSL_use_PrivateKey_ASN1\<close> has the type of the key as
  its first argument; \<open>PEM_read_bio_PrivateKey\<close> gets the password.
\<close>

record 's ssl_certs =
  d2i_X509 :: "byte list \<Rightarrow> 's \<Rightarrow> ptr \<times> 's"
  crt_BIO_new :: "'s \<Rightarrow> ptr \<times> 's"
  crt_BIO_write :: "ptr \<Rightarrow> byte list \<Rightarrow> 's \<Rightarrow> int \<times> 's"
  BIO_free :: "ptr \<Rightarrow> 's \<Rightarrow> 's"
  PEM_read_bio_X509 :: "ptr \<Rightarrow> 's \<Rightarrow> ptr \<times> 's"
  X509_free :: "ptr \<Rightarrow> 's \<Rightarrow> 's"
  crt_cert_store :: "ptr \<Rightarrow> 's \<Rightarrow> ptr"
  X509_STORE_add_cert :: "ptr \<Rightarrow> ptr \<Rightarrow> 's \<Rightarrow> int \<times> 's"
  ERR_peek_last_error :: "'s \<Rightarrow> UINT32"
  ERR_GET_LIB :: "UINT32 \<Rightarrow> int"
  ERR_GET_REASON :: "UINT32 \<Rightarrow> int"
  SSL_use_certificate :: "ptr \<Rightarrow> ptr \<Rightarrow> 's \<Rightarrow> int \<times> 's"
  SSL_use_PrivateKey_ASN1 :: "int \<Rightarrow> ptr \<Rightarrow> byte list \<Rightarrow> 's \<Rightarrow> int \<times> 's"
  BIO_new_mem_buf :: "byte list \<Rightarrow> 's \<Rightarrow> ptr \<times> 's"
  PEM_read_bio_PrivateKey :: "ptr \<Rightarrow> byte list option \<Rightarrow> 's \<Rightarrow> ptr \<times> 's"
  SSL_use_PrivateKey :: "ptr \<Rightarrow> ptr \<Rightarrow> 's \<Rightarrow> int \<times> 's"
  EVP_PKEY_free :: "ptr \<Rightarrow> 's \<Rightarrow> 's"
  SSL_check_private_key :: "ptr \<Rightarrow> 's \<Rightarrow> int"

definition ERR_LIB_X509 :: int where "ERR_LIB_X509 = 11"
definition X509_R_CERT_ALREADY_IN_HASH_TABLE :: int where "X509_R_CERT_ALREADY_IN_HASH_TABLE = 101"

text \<open>
  The decoding of a certificate, the same code in two functions: the certificate or the status of
  the failure, with the pointer \<^verbatim>\<open>BioCert\<close> as it is at \<^verbatim>\<open>ON_EXIT\<close>. \<open>bs\<close> is the buffer.
\<close>

definition decode_cert ::
    "'s ssl_certs \<Rightarrow> byte list \<Rightarrow> UINT64 \<Rightarrow> 's \<Rightarrow> ((efi_status + ptr) \<times> ptr \<times> 's) res" where
  "decode_cert L bs DataSize s =
    bind_res (read_range (Some bs) (unat DataSize)) (\<lambda>der.
    case d2i_X509 L der s of (Cert, s) \<Rightarrow>
    if Cert \<noteq> 0 then Inr (Inr Cert, 0, s) else
    case crt_BIO_new L s of (BioCert, s) \<Rightarrow>
    if BioCert = 0 then Inr (Inl EFI_OUT_OF_RESOURCES, 0, s) else
    bind_res (from_buffer (Some bs) (ucast DataSize)) (\<lambda>pem.
    case crt_BIO_write L BioCert pem s of (Ret, s) \<Rightarrow>
    if Ret \<le> 0 then Inr (Inl EFI_ABORTED, BioCert, s) else
    case PEM_read_bio_X509 L BioCert s of (Cert, s) \<Rightarrow>
    if Cert = 0 then Inr (Inl EFI_ABORTED, BioCert, s) else Inr (Inr Cert, BioCert, s)))"

text \<open>The code at \<^verbatim>\<open>ON_EXIT\<close>.\<close>

definition free_cert :: "'s ssl_certs \<Rightarrow> ptr \<Rightarrow> ptr \<Rightarrow> 's \<Rightarrow> 's" where
  "free_cert L BioCert Cert s =
    (let s = (if BioCert \<noteq> 0 then BIO_free L BioCert s else s)
     in if Cert \<noteq> 0 then X509_free L Cert s else s)"

definition TlsSetCaCertificate ::
    "'s ssl_certs \<Rightarrow> tls_connection option \<Rightarrow> byte list option \<Rightarrow> UINT64 \<Rightarrow> 's \<Rightarrow> (efi_status \<times> 's) res" where
  "TlsSetCaCertificate L Tls Data DataSize s =
    (case (ssl_of Tls, Data) of
       (Some ssl, Some bs) \<Rightarrow>
         if DataSize = 0 then Inr (EFI_INVALID_PARAMETER, s) else
         bind_res (decode_cert L bs DataSize s) (\<lambda>(r, BioCert, s).
         case r of
           Inl st \<Rightarrow> Inr (st, free_cert L BioCert 0 s)
         | Inr Cert \<Rightarrow>
             let X509Store = crt_cert_store L ssl s in
             if X509Store = 0 then Inr (EFI_ABORTED, free_cert L BioCert Cert s) else
             case X509_STORE_add_cert L X509Store Cert s of (Ret, s) \<Rightarrow>
             let ErrorCode = ERR_peek_last_error L s in
             if Ret \<noteq> 1 \<and> \<not> (ERR_GET_LIB L ErrorCode = ERR_LIB_X509
                  \<and> ERR_GET_REASON L ErrorCode = X509_R_CERT_ALREADY_IN_HASH_TABLE)
             then Inr (EFI_ABORTED, free_cert L BioCert Cert s)
             else Inr (EFI_SUCCESS, free_cert L BioCert Cert s))
     | _ \<Rightarrow> Inr (EFI_INVALID_PARAMETER, s))"

definition TlsSetHostPublicCert ::
    "'s ssl_certs \<Rightarrow> tls_connection option \<Rightarrow> byte list option \<Rightarrow> UINT64 \<Rightarrow> 's \<Rightarrow> (efi_status \<times> 's) res" where
  "TlsSetHostPublicCert L Tls Data DataSize s =
    (case (ssl_of Tls, Data) of
       (Some ssl, Some bs) \<Rightarrow>
         if DataSize = 0 then Inr (EFI_INVALID_PARAMETER, s) else
         bind_res (decode_cert L bs DataSize s) (\<lambda>(r, BioCert, s).
         case r of
           Inl st \<Rightarrow> Inr (st, free_cert L BioCert 0 s)
         | Inr Cert \<Rightarrow>
             (case SSL_use_certificate L ssl Cert s of (Ret, s) \<Rightarrow>
                Inr (if Ret \<noteq> 1 then EFI_ABORTED else EFI_SUCCESS, free_cert L BioCert Cert s)))
     | _ \<Rightarrow> Inr (EFI_INVALID_PARAMETER, s))"

definition EVP_PKEY_RSA :: int where "EVP_PKEY_RSA = 6"
definition EVP_PKEY_DSA :: int where "EVP_PKEY_DSA = 116"
definition EVP_PKEY_EC :: int where "EVP_PKEY_EC = 408"

text \<open>
  The attempts to read a key: the three types of DER, in order, until one succeeds, and then PEM.
  The result says whether the code goes to the label \<^verbatim>\<open>verify\<close>.
\<close>

primrec try_der :: "'s ssl_certs \<Rightarrow> int list \<Rightarrow> ptr \<Rightarrow> byte list \<Rightarrow> 's \<Rightarrow> bool \<times> 's" where
  "try_der L [] ssl bs s = (False, s)"
| "try_der L (t # ts) ssl bs s =
    (case SSL_use_PrivateKey_ASN1 L t ssl bs s of (Ret, s) \<Rightarrow>
       if Ret = 1 then (True, s) else try_der L ts ssl bs s)"

definition try_pem :: "'s ssl_certs \<Rightarrow> ptr \<Rightarrow> byte list \<Rightarrow> byte list option \<Rightarrow> 's \<Rightarrow> bool \<times> 's" where
  "try_pem L ssl bs Password s =
    (case BIO_new_mem_buf L bs s of (Bio, s) \<Rightarrow>
     if Bio = 0 then (False, s) else
     case PEM_read_bio_PrivateKey L Bio Password s of (Pkey, s) \<Rightarrow>
     case (if Pkey \<noteq> 0 then SSL_use_PrivateKey L ssl Pkey s else (0, s)) of (Ret, s) \<Rightarrow>
     let s = EVP_PKEY_free L Pkey s;
         s = BIO_free L Bio s
     in (Pkey \<noteq> 0 \<and> Ret = 1, s))"

definition TlsSetHostPrivateKeyEx ::
    "'s ssl_certs \<Rightarrow> tls_connection option \<Rightarrow> byte list option \<Rightarrow> UINT64 \<Rightarrow> byte list option \<Rightarrow> 's
     \<Rightarrow> (efi_status \<times> 's) res" where
  "TlsSetHostPrivateKeyEx L Tls Data DataSize Password s =
    (case (ssl_of Tls, Data) of
       (Some ssl, Some bs) \<Rightarrow>
         if DataSize = 0 then Inr (EFI_INVALID_PARAMETER, s) else
         bind_res (read_range Data (unat DataSize)) (\<lambda>der.
         case try_der L [EVP_PKEY_RSA, EVP_PKEY_DSA, EVP_PKEY_EC] ssl der s of (found, s) \<Rightarrow>
         bind_res (if found then Inr (True, s)
                   else bind_res (from_buffer Data (ucast DataSize)) (\<lambda>pem.
                          Inr (try_pem L ssl pem Password s))) (\<lambda>(found, s).
         if found \<and> SSL_check_private_key L ssl s = 1 then Inr (EFI_SUCCESS, s)
         else Inr (EFI_ABORTED, s)))
     | _ \<Rightarrow> Inr (EFI_INVALID_PARAMETER, s))"

definition TlsSetHostPrivateKey ::
    "'s ssl_certs \<Rightarrow> tls_connection option \<Rightarrow> byte list option \<Rightarrow> UINT64 \<Rightarrow> 's \<Rightarrow> (efi_status \<times> 's) res" where
  "TlsSetHostPrivateKey L Tls Data DataSize s = TlsSetHostPrivateKeyEx L Tls Data DataSize None s"

section \<open>Reading a connection\<close>

text \<open>Functions without effect; what they write to a buffer is part of the result.\<close>

record 's ssl_query =
  SSL_version :: "ptr \<Rightarrow> 's \<Rightarrow> int"
  SSL_is_server :: "ptr \<Rightarrow> 's \<Rightarrow> int"
  SSL_get_current_cipher :: "ptr \<Rightarrow> 's \<Rightarrow> cipher option"
  SSL_get_verify_mode :: "ptr \<Rightarrow> 's \<Rightarrow> UINT32"
  SSL_SESSION_get_id :: "ptr \<Rightarrow> 's \<Rightarrow> byte list"
  SSL_get_client_random :: "ptr \<Rightarrow> nat \<Rightarrow> 's \<Rightarrow> byte list"
  SSL_get_server_random :: "ptr \<Rightarrow> nat \<Rightarrow> 's \<Rightarrow> byte list"
  SSL_SESSION_get_master_key :: "ptr \<Rightarrow> nat \<Rightarrow> 's \<Rightarrow> byte list"
  SSL_get_certificate :: "ptr \<Rightarrow> 's \<Rightarrow> ptr"
  i2d_X509 :: "ptr \<Rightarrow> 's \<Rightarrow> int \<times> byte list"
  SSL_export_keying_material :: "ptr \<Rightarrow> UINT64 \<Rightarrow> byte list \<Rightarrow> byte list option \<Rightarrow> UINT64 \<Rightarrow> 's \<Rightarrow> int \<times> byte list"

definition TlsGetVersion :: "'s ssl_query \<Rightarrow> tls_connection option \<Rightarrow> 's \<Rightarrow> UINT16" where
  "TlsGetVersion Q Tls s = (case Tls of None \<Rightarrow> 0 | Some c \<Rightarrow> word_of_int (SSL_version Q (tls_Ssl c) s))"

definition TlsGetConnectionEnd :: "'s ssl_query \<Rightarrow> tls_connection option \<Rightarrow> 's \<Rightarrow> byte" where
  "TlsGetConnectionEnd Q Tls s =
    (case Tls of None \<Rightarrow> 0 | Some c \<Rightarrow> word_of_int (SSL_is_server Q (tls_Ssl c) s))"

definition TlsGetCurrentCipher ::
    "'s ssl_query \<Rightarrow> tls_connection option \<Rightarrow> UINT16 option \<Rightarrow> 's \<Rightarrow> efi_status \<times> UINT16 option" where
  "TlsGetCurrentCipher Q Tls CipherId s = (case (ssl_of Tls, CipherId) of
     (Some ssl, Some _) \<Rightarrow>
       (case SSL_get_current_cipher Q ssl s of
          None \<Rightarrow> (EFI_UNSUPPORTED, CipherId)
        | Some c \<Rightarrow> (EFI_SUCCESS, Some (ucast (cipher_id c AND 0xFFFF))))
   | _ \<Rightarrow> (EFI_INVALID_PARAMETER, CipherId))"

definition TlsGetVerify :: "'s ssl_query \<Rightarrow> tls_connection option \<Rightarrow> 's \<Rightarrow> UINT32" where
  "TlsGetVerify Q Tls s = (case Tls of None \<Rightarrow> 0 | Some c \<Rightarrow> SSL_get_verify_mode Q (tls_Ssl c) s)"

definition le_bytes32 :: "UINT32 \<Rightarrow> byte list" where
  "le_bytes32 w = [ucast w, ucast (drop_bit 8 w), ucast (drop_bit 16 w), ucast (drop_bit 24 w)]"

text \<open>
  \<^verbatim>\<open>SessionIdLen\<close> is the object that the pointer points to. \<^verbatim>\<open>SSL_SESSION_get_id\<close> stores the length
  in it as an \<^verbatim>\<open>unsigned int\<close>, and the code reads it back as a \<^verbatim>\<open>UINT16\<close>.
\<close>

definition TlsGetSessionId ::
    "'s ssl_config \<Rightarrow> 's ssl_query \<Rightarrow> tls_connection option \<Rightarrow> byte list option \<Rightarrow> byte list option \<Rightarrow> 's
     \<Rightarrow> (efi_status \<times> byte list option \<times> byte list option) res" where
  "TlsGetSessionId L Q Tls SessionId SessionIdLen s =
    (case (ssl_of Tls, SessionId, SessionIdLen) of
       (Some ssl, Some _, Some _) \<Rightarrow>
         let Session = SSL_get_session L ssl s in
         if Session = 0 then Inr (EFI_UNSUPPORTED, SessionId, SessionIdLen) else
         let SslSessionId = SSL_SESSION_get_id Q Session s;
             len = of_nat (length SslSessionId) :: UINT32
         in bind_res (into_buffer SessionIdLen (le_bytes32 len)) (\<lambda>SessionIdLen.
            bind_res (into_buffer SessionId (take (unat (ucast len :: UINT16)) SslSessionId)) (\<lambda>SessionId.
            Inr (EFI_SUCCESS, SessionId, SessionIdLen)))
     | _ \<Rightarrow> Inr (EFI_INVALID_PARAMETER, SessionId, SessionIdLen))"

definition SSL3_RANDOM_SIZE :: nat where "SSL3_RANDOM_SIZE = 32"
definition SSL3_MASTER_SECRET_SIZE :: nat where "SSL3_MASTER_SECRET_SIZE = 48"

definition TlsGetClientRandom ::
    "'s ssl_query \<Rightarrow> tls_connection option \<Rightarrow> byte list option \<Rightarrow> 's \<Rightarrow> byte list option res" where
  "TlsGetClientRandom Q Tls ClientRandom s = (case (ssl_of Tls, ClientRandom) of
     (Some ssl, Some _) \<Rightarrow> into_buffer ClientRandom (SSL_get_client_random Q ssl SSL3_RANDOM_SIZE s)
   | _ \<Rightarrow> Inr ClientRandom)"

definition TlsGetServerRandom ::
    "'s ssl_query \<Rightarrow> tls_connection option \<Rightarrow> byte list option \<Rightarrow> 's \<Rightarrow> byte list option res" where
  "TlsGetServerRandom Q Tls ServerRandom s = (case (ssl_of Tls, ServerRandom) of
     (Some ssl, Some _) \<Rightarrow> into_buffer ServerRandom (SSL_get_server_random Q ssl SSL3_RANDOM_SIZE s)
   | _ \<Rightarrow> Inr ServerRandom)"

definition TlsGetKeyMaterial ::
    "'s ssl_config \<Rightarrow> 's ssl_query \<Rightarrow> tls_connection option \<Rightarrow> byte list option \<Rightarrow> 's
     \<Rightarrow> (efi_status \<times> byte list option) res" where
  "TlsGetKeyMaterial L Q Tls KeyMaterial s = (case (ssl_of Tls, KeyMaterial) of
     (Some ssl, Some _) \<Rightarrow>
       let Session = SSL_get_session L ssl s in
       if Session = 0 then Inr (EFI_UNSUPPORTED, KeyMaterial)
       else bind_res (into_buffer KeyMaterial
                (SSL_SESSION_get_master_key Q Session SSL3_MASTER_SECRET_SIZE s)) (\<lambda>KeyMaterial.
              Inr (EFI_SUCCESS, KeyMaterial))
   | _ \<Rightarrow> Inr (EFI_INVALID_PARAMETER, KeyMaterial))"

definition TlsGetHostPublicCert ::
    "'s ssl_query \<Rightarrow> tls_connection option \<Rightarrow> byte list option \<Rightarrow> UINT64 option \<Rightarrow> 's
     \<Rightarrow> (efi_status \<times> byte list option \<times> UINT64 option) res" where
  "TlsGetHostPublicCert Q Tls Data DataSize s = (case (ssl_of Tls, DataSize) of
     (Some ssl, Some n) \<Rightarrow>
       if n \<noteq> 0 \<and> Data = None then Inr (EFI_INVALID_PARAMETER, Data, DataSize) else
       let Cert = SSL_get_certificate Q ssl s in
       if Cert = 0 then Inr (EFI_NOT_FOUND, Data, DataSize) else
       case i2d_X509 Q Cert s of (Ret, der) \<Rightarrow>
       if n < word_of_int Ret then Inr (EFI_BUFFER_TOO_SMALL, Data, Some (word_of_int Ret)) else
       bind_res (into_buffer Data der) (\<lambda>Data. Inr (EFI_SUCCESS, Data, Some (word_of_int Ret)))
   | _ \<Rightarrow> Inr (EFI_INVALID_PARAMETER, Data, DataSize))"

text \<open>\<open>Label\<close> is the string without its NUL.\<close>

definition TlsGetExportKey ::
    "'s ssl_query \<Rightarrow> tls_connection option \<Rightarrow> byte list \<Rightarrow> byte list option \<Rightarrow> UINT64 \<Rightarrow> byte list option
     \<Rightarrow> UINT64 \<Rightarrow> 's \<Rightarrow> (efi_status \<times> byte list option) res" where
  "TlsGetExportKey Q Tls Label Context ContextLen KeyBuffer KeyBufferLen s = (case ssl_of Tls of
     None \<Rightarrow> Inr (EFI_INVALID_PARAMETER, KeyBuffer)
   | Some ssl \<Rightarrow>
       (case SSL_export_keying_material Q ssl KeyBufferLen Label Context ContextLen s of (Ret, bs) \<Rightarrow>
          bind_res (into_buffer KeyBuffer bs) (\<lambda>KeyBuffer.
          Inr (if Ret = 1 then EFI_SUCCESS else EFI_PROTOCOL_ERROR, KeyBuffer))))"

end
