(* ===== verification/TlsProps.thy ===== *)
theory TlsProps
  imports TlsStrings TlsCerts
begin

text \<open>
  The properties of TLS connections: their creation and what is left of it on failure, the packets
  of the handshake, the name that is verified, the session identifier, and witnesses for these and
  for the strings of \<open>TlsStrings\<close>.
\<close>

section \<open>Creation and release\<close>

text \<open>
  What OpenSSL documents about ownership: \<open>owned s\<close> are the objects that the caller has got and
  neither freed nor handed over. Creating gives a new object or NULL, \<^verbatim>\<open>SSL_set_bio\<close> takes the two
  streams over, a reference that was taken with \<^verbatim>\<open>X509_STORE_new\<close> is dropped by \<^verbatim>\<open>X509_STORE_free\<close>,
  and the other functions change nothing in this respect.
\<close>

definition creates :: "('s \<Rightarrow> ptr set) \<Rightarrow> ('s \<Rightarrow> ptr \<times> 's) \<Rightarrow> bool" where
  "creates owned f \<longleftrightarrow> (\<forall>s. case f s of (p, s') \<Rightarrow>
     owned s' = (if p = 0 then owned s else insert p (owned s)) \<and> (p \<noteq> 0 \<longrightarrow> p \<notin> owned s))"

definition releases :: "('s \<Rightarrow> ptr set) \<Rightarrow> (ptr \<Rightarrow> 's \<Rightarrow> 's) \<Rightarrow> bool" where
  "releases owned f \<longleftrightarrow> (\<forall>p s. owned (f p s) = owned s - {p})"

definition owner_ok :: "'s ssl_objects \<Rightarrow> ('s \<Rightarrow> ptr set) \<Rightarrow> bool" where
  "owner_ok L owned \<longleftrightarrow>
     creates owned (OPENSSL_malloc L) \<and> creates owned (BIO_new L) \<and> creates owned (X509_STORE_new L)
   \<and> (\<forall>ctx. creates owned (SSL_new L ctx))
   \<and> releases owned (OPENSSL_free L) \<and> releases owned (SSL_free L) \<and> releases owned (X509_STORE_free L)
   \<and> (\<forall>ssl i out s. owned (SSL_set_bio L ssl i out s) = owned s - {i, out})
   \<and> (\<forall>ssl n s. owned (SSL_set_security_level L ssl n s) = owned s)
   \<and> (\<forall>ssl s. owned (SSL_set_info_callback L ssl s) = owned s)
   \<and> (\<forall>b n s. owned (BIO_set_mem_eof_return L b n s) = owned s)
   \<and> (\<forall>ctx st s. owned (SSL_CTX_set1_verify_cert_store L ctx st s) = owned s)
   \<and> (\<forall>st f s. owned (X509_STORE_set_flags L st f s) = owned s)"

lemma createsD:
  "creates owned f \<Longrightarrow> f s = (p, s') \<Longrightarrow>
    owned s' = (if p = 0 then owned s else insert p (owned s)) \<and> (p \<noteq> 0 \<longrightarrow> p \<notin> owned s)"
  unfolding creates_def by (drule spec [of _ s]) simp

lemma owner_okD:
  assumes "owner_ok L owned"
  shows "creates owned (OPENSSL_malloc L)" "creates owned (BIO_new L)" "creates owned (X509_STORE_new L)"
    "creates owned (SSL_new L ctx)"
    "owned (OPENSSL_free L p s) = owned s - {p}" "owned (SSL_free L p s) = owned s - {p}"
    "owned (X509_STORE_free L p s) = owned s - {p}"
    "owned (SSL_set_bio L ssl i out s) = owned s - {i, out}"
    "owned (SSL_set_security_level L ssl n s) = owned s"
    "owned (SSL_set_info_callback L ssl s) = owned s"
    "owned (BIO_set_mem_eof_return L b n s) = owned s"
    "owned (SSL_CTX_set1_verify_cert_store L ctx st s) = owned s"
    "owned (X509_STORE_set_flags L st fl s) = owned s"
  using assms by (simp_all add: owner_ok_def releases_def)

definition connection_wf :: "tls_connection \<Rightarrow> bool" where
  "connection_wf c \<longleftrightarrow> tls_addr c \<noteq> 0 \<and> tls_Ssl c \<noteq> 0 \<and> tls_InBio c \<noteq> 0 \<and> tls_OutBio c \<noteq> 0"

lemma TlsFree_owned:
  "owner_ok L owned \<Longrightarrow> owned (TlsFree L (Some c) s)
    = owned s - {tls_addr c} - (if tls_Ssl c = 0 then {} else {tls_Ssl c})"
  by (auto simp: TlsFree_def owner_okD Let_def)

lemma TlsNew_store_owned:
  assumes ok: "owner_ok L owned" and c: "tls_Ssl c \<noteq> 0" and run: "TlsNew_store L c s = (r, s')"
  shows "r = Some c \<and> owned s' = owned s \<or> r = None \<and> owned s' = owned s - {tls_addr c, tls_Ssl c}"
proof (cases "SSL_CTX_get_cert_store L (SSL_get_SSL_CTX L (tls_Ssl c) s) s = 0")
  case True
  obtain st s1 where new: "X509_STORE_new L s = (st, s1)" by force
  note st = createsD [OF owner_okD(3) [OF ok] new]
  show ?thesis
  proof (cases "st = 0")
    case True
    with \<open>SSL_CTX_get_cert_store _ _ _ = 0\<close> run new
    have r: "r = None" "s' = TlsFree L (Some c) s1" by (simp_all add: TlsNew_store_def Let_def)
    with st True c show ?thesis unfolding r(2) TlsFree_owned [OF ok] by auto
  next
    case False
    with \<open>SSL_CTX_get_cert_store _ _ _ = 0\<close> run new
    have "r = Some c" "owned s' = owned s1 - {st}"
      by (auto simp: TlsNew_store_def Let_def owner_okD(7,12,13) [OF ok])
    with st False show ?thesis by auto
  qed
next
  case False
  with run show ?thesis by (auto simp: TlsNew_store_def Let_def owner_okD(13) [OF ok])
qed

text \<open>C39: \<^verbatim>\<open>TlsNew\<close> never fails its assertion, and a connection that it returns has all four
  pointers. The caller then owns the structure and the SSL object, and \<^verbatim>\<open>TlsFree\<close> gives back
  everything.\<close>

theorem tls_connection_wf:
  assumes ok: "owner_ok L owned"
  shows "\<exists>r s'. TlsNew L ctx s = Inr (r, s') \<and>
    (\<forall>c. r = Some c \<longrightarrow> connection_wf c
      \<and> owned s' = insert (tls_addr c) (insert (tls_Ssl c) (owned s))
      \<and> owned (TlsFree L r s') = owned s)"
proof -
  note own = owner_okD [OF ok]
  obtain a s1 where m: "OPENSSL_malloc L s = (a, s1)" by force
  obtain ssl s2 where n: "SSL_new L ctx s1 = (ssl, s2)" by force
  let ?s3 = "SSL_set_info_callback L ssl (SSL_set_security_level L ssl 3 s2)"
  obtain i s4 where b1: "BIO_new L ?s3 = (i, s4)" by force
  let ?s5 = "BIO_set_mem_eof_return L i (-1) s4"
  obtain out s6 where b2: "BIO_new L ?s5 = (out, s6)" by force
  let ?s7 = "SSL_set_bio L ssl i out (BIO_set_mem_eof_return L out (-1) s6)"
  let ?c = "\<lparr>tls_addr = a, tls_Ssl = ssl, tls_InBio = i, tls_OutBio = out\<rparr>"
  obtain r s' where st: "TlsNew_store L ?c ?s7 = (r, s')" by force
  show ?thesis
  proof (cases "a = 0 \<or> ssl = 0 \<or> i = 0 \<or> out = 0")
    case True
    then show ?thesis by (auto simp: TlsNew_def m n b1 b2 Let_def)
  next
    case False
    note new = createsD [OF own(1) m] createsD [OF own(4) n] createsD [OF own(2) b1] createsD [OF own(2) b2]
    have seven: "owned ?s7 = insert a (insert ssl (owned s))" "a \<noteq> ssl" "a \<notin> owned s" "ssl \<notin> owned s"
      using new False by (auto simp: own)
    have "TlsNew L ctx s = Inr (r, s')" using False st by (simp add: TlsNew_def m n b1 b2 Let_def)
    moreover have "connection_wf ?c" using False by (simp add: connection_wf_def)
    moreover have "owned s' = insert a (insert ssl (owned s)) \<and> owned (TlsFree L r s') = owned s"
      if "r = Some c" for c
    proof -
      from TlsNew_store_owned [OF ok _ st] False that have r: "r = Some ?c" "owned s' = owned ?s7" by auto
      have "owned (TlsFree L r s') = owned s' - {a} - {ssl}"
        using False unfolding r(1) TlsFree_owned [OF ok] by simp
      with r(2) seven show ?thesis by auto
    qed
    moreover have "c = ?c" if "r = Some c" for c
      using TlsNew_store_owned [OF ok _ st] False that by auto
    ultimately show ?thesis by fastforce
  qed
qed

text \<open>when the stream for the output cannot be created, \<^verbatim>\<open>TlsNew\<close> returns NULL and the one for
  the input is lost: it is owned by nobody who could free it, since \<^verbatim>\<open>TlsFree\<close> frees the SSL object,
  which has no streams yet. (A failure at any of the other places leaves nothing behind.)\<close>

theorem tls_new_leaks:
  assumes ok: "owner_ok L owned" and m: "OPENSSL_malloc L s = (a, s1)" and n: "SSL_new L ctx s1 = (ssl, s2)"
    and b1: "BIO_new L (SSL_set_info_callback L ssl (SSL_set_security_level L ssl 3 s2)) = (i, s4)"
    and b2: "BIO_new L (BIO_set_mem_eof_return L i (-1) s4) = (out, s6)"
  shows "a = 0 \<or> ssl = 0 \<or> i = 0 \<or> out = 0 \<Longrightarrow> \<exists>s'. TlsNew L ctx s = Inr (None, s') \<and>
    owned s' = (if a \<noteq> 0 \<and> ssl \<noteq> 0 \<and> i \<noteq> 0 then insert i (owned s) else owned s)"
proof -
  note own = owner_okD [OF ok]
  note new = createsD [OF own(1) m] createsD [OF own(4) n] createsD [OF own(2) b1] createsD [OF own(2) b2]
  assume "a = 0 \<or> ssl = 0 \<or> i = 0 \<or> out = 0"
  then consider "a = 0" | "a \<noteq> 0" "ssl = 0" | "a \<noteq> 0" "ssl \<noteq> 0" "i = 0"
    | "a \<noteq> 0" "ssl \<noteq> 0" "i \<noteq> 0" "out = 0" by blast
  then show ?thesis
    by cases (use new in \<open>auto simp: TlsNew_def m n b1 b2 Let_def TlsFree_owned [OF ok] own\<close>)
qed

section \<open>The handshake\<close>

text \<open>
  What OpenSSL documents about memory streams: reading as many bytes as are pending gives all of
  them and leaves nothing. \<^verbatim>\<open>BIO_read\<close> has an \<^verbatim>\<open>int\<close> as its size.
\<close>

definition bio_delivers :: "'s ssl_io \<Rightarrow> ptr \<Rightarrow> 's \<Rightarrow> bool" where
  "bio_delivers L b s \<longleftrightarrow>
    (let n = BIO_ctrl_pending L b s in n < 2 ^ 31 \<and>
       (case BIO_read L b (ucast n) s of (Ret, bs, s') \<Rightarrow>
          Ret = int (unat n) \<and> length bs = unat n \<and> BIO_ctrl_pending L b s' = 0))"

lemma deliver_too_small:
  assumes "deliver L b pending buf out_size s = Inr (EFI_BUFFER_TOO_SMALL, buf', n, s')"
  shows "s' = s \<and> n = Some pending \<and> out_size < pending \<and> buf' = buf"
  using assms by (auto simp: deliver_def status_defs elim!: bind_res_InrE split: if_splits prod.splits)

lemma handshake_step_pending:
  "handshake_step L c bin n s = Inr (Ret, pending, s') \<Longrightarrow> pending = BIO_ctrl_pending L (tls_OutBio c) s'"
  by (auto simp: handshake_step_def Let_def elim!: bind_res_InrE split: if_splits prod.splits)

text \<open>C18: after \<^verbatim>\<open>EFI_BUFFER_TOO_SMALL\<close> a second call of \<^verbatim>\<open>TlsDoHandshake\<close> with a buffer of the
  reported size delivers the whole packet, and does nothing else: the input of the second call,
  whatever it is, is not looked at, so that the client that repeats its call feeds its input once.
  (It also means that other input, given while output is pending, is lost.)\<close>

theorem tls_handshake_retry:
  assumes first: "TlsDoHandshake L debug (Some c) in1 n1 out1 size1 s
      = Some (Inr (EFI_BUFFER_TOO_SMALL, out', Some n, s1))"
    and bio: "bio_delivers L (tls_OutBio c) s1"
    and in2: "in2 = None \<longleftrightarrow> n2 = 0" and buf: "length buf = unat n"
  shows "\<exists>bs s2. BIO_read L (tls_OutBio c) (ucast n) s1 = (int (unat n), bs, s2)
    \<and> TlsDoHandshake L debug (Some c) in2 n2 (Some buf) (Some n) s1
      = Some (Inr (EFI_SUCCESS, Some bs, Some n, s2))
    \<and> BIO_ctrl_pending L (tls_OutBio c) s2 = 0"
proof -
  have differ: "EFI_INVALID_PARAMETER \<noteq> EFI_BUFFER_TOO_SMALL" "EFI_ABORTED \<noteq> EFI_BUFFER_TOO_SMALL"
    by (simp_all add: status_defs)
  from first differ obtain c' out_size Ret pending t where
    1: "check_in_out (Some c) in1 n1 out1 size1 = Some (c', out_size)"
      "handshake_step L c' in1 n1 s = Inr (Ret, pending, t)"
      "deliver L (tls_OutBio c') pending out1 out_size t = Inr (EFI_BUFFER_TOO_SMALL, out', Some n, s1)"
    by (auto simp: TlsDoHandshake_def split: option.splits sum.splits if_splits)
  then have c: "c' = c" "tls_Ssl c \<noteq> 0" "tls_InBio c \<noteq> 0" "tls_OutBio c \<noteq> 0"
    by (auto simp: check_in_out_def check_out_def split: if_splits option.splits)
  from deliver_too_small [OF 1(3)] have t: "t = s1" "pending = n" "out_size < n" by auto
  from handshake_step_pending [OF 1(2)] have pend: "BIO_ctrl_pending L (tls_OutBio c) s1 = n" by (simp add: t c)
  from t(3) have "n \<noteq> 0" "0 < n" by (auto simp: word_gt_0)
  obtain Ret2 bs s2 where read: "BIO_read L (tls_OutBio c) (ucast n) s1 = (Ret2, bs, s2)" by (metis prod_cases3)
  with bio pend have bs: "Ret2 = int (unat n)" "length bs = unat n" "BIO_ctrl_pending L (tls_OutBio c) s2 = 0"
    by (simp_all add: bio_delivers_def Let_def)
  have "handshake_step L c in2 n2 s1 = Inr (1, n, s1)"
    using \<open>n \<noteq> 0\<close> by (simp add: handshake_step_def pend Let_def)
  moreover have "check_in_out (Some c) in2 n2 (Some buf) (Some n) = Some (c, n)"
    using in2 c by (auto simp: check_in_out_def check_out_def)
  ultimately show ?thesis
    using read bs buf \<open>0 < n\<close>
    by (simp add: TlsDoHandshake_def deliver_def into_buffer_def copy_at_def)
qed

text \<open>The loop over the errors ends when the queue gets shorter with each of them.\<close>

definition queue_ends :: "'s ssl_io \<Rightarrow> ('s \<Rightarrow> nat) \<Rightarrow> bool" where
  "queue_ends L q \<longleftrightarrow> (\<forall>s. case ERR_get_error_all L s of (e, s') \<Rightarrow> e = 0 \<or> q s' < q s)"

lemma drain_returns:
  assumes "queue_ends L q"
  shows "\<exists>s'. drain_errors L s = Some s'"
proof (induction "q s" arbitrary: s rule: less_induct)
  case less
  obtain e s' where e: "ERR_get_error_all L s = (e, s')" by force
  with assms [unfolded queue_ends_def, THEN spec, of s] have "e = 0 \<or> q s' < q s" by simp
  with less [of s'] show ?case by (subst drain_errors.simps) (auto simp: e)
qed

definition reads_bounded :: "'s ssl_io \<Rightarrow> bool" where
  "reads_bounded L \<longleftrightarrow> (\<forall>b n s. length (fst (snd (BIO_read L b n s))) \<le> unat n)"

lemma ucast_le: "unat (ucast (n :: UINT64) :: UINT32) \<le> unat n"
  by (simp add: unsigned_ucast_eq take_bit_nat_less_eq_self)

lemma deliver_safe:
  assumes "reads_bounded L" and buf: "\<forall>bs. buf = Some bs \<longrightarrow> unat out_size \<le> length bs"
    and null: "buf = None \<Longrightarrow> out_size = 0"
  shows "\<exists>r. deliver L b pending buf out_size s = Inr r"
proof (cases "\<not> pending > out_size \<and> pending > 0")
  case True
  obtain Ret bs s' where read: "BIO_read L b (ucast pending) s = (Ret, bs, s')" by (metis prod_cases3)
  with assms(1) [unfolded reads_bounded_def, THEN spec, THEN spec, THEN spec, of b "ucast pending" s]
  have "length bs \<le> unat (ucast pending :: UINT32)" by simp
  also have "\<dots> \<le> unat out_size"
    using ucast_le [of pending] True by (auto simp: word_less_nat_alt intro: le_trans)
  finally have len: "length bs \<le> unat out_size" .
  from True null obtain old where "buf = Some old" by (cases buf) (auto simp: word_gt_0)
  with len buf show ?thesis using True read by (auto simp: deliver_def into_buffer_def)
qed (auto simp: deliver_def)

text \<open>C40: \<^verbatim>\<open>TlsDoHandshake\<close> returns and stays inside its buffers, whatever OpenSSL does in the
  handshake, provided that OpenSSL's queue of errors is finite and that it reads no more bytes than
  it is asked for.\<close>

theorem tls_handshake_returns:
  assumes queue: "queue_ends L q" and reads: "reads_bounded L"
    and bin: "\<forall>bs. BufferIn = Some bs \<longrightarrow> length bs = unat BufferInSize"
    and bout: "\<forall>bs n. BufferOut = Some bs \<and> BufferOutSize = Some n \<longrightarrow> length bs = unat n"
  shows "\<exists>r. TlsDoHandshake L debug Tls BufferIn BufferInSize BufferOut BufferOutSize s = Some (Inr r)"
proof (cases "check_in_out Tls BufferIn BufferInSize BufferOut BufferOutSize")
  case None
  then show ?thesis by (simp add: TlsDoHandshake_def)
next
  case (Some cs)
  then obtain c out_size where cs: "cs = (c, out_size)" by (cases cs)
  from Some have arg: "BufferIn = None \<longleftrightarrow> BufferInSize = 0" "BufferOutSize = Some out_size"
    "BufferOut = None \<Longrightarrow> out_size = 0"
    by (auto simp: cs check_in_out_def check_out_def split: if_splits option.splits)
  have "\<exists>bs. from_buffer BufferIn (ucast BufferInSize) = Inr bs"
    using bin arg(1) ucast_le [of BufferInSize] by (cases BufferIn) (auto simp: from_buffer_def read_range_def)
  then obtain bs where "from_buffer BufferIn (ucast BufferInSize) = Inr bs" ..
  then have "\<exists>r. handshake_step L c BufferIn BufferInSize s = Inr r"
    by (simp add: handshake_step_def Let_def split: prod.split)
  then obtain Ret pending s' where step: "handshake_step L c BufferIn BufferInSize s = Inr (Ret, pending, s')"
    by (metis prod_cases3)
  have out: "\<forall>bs. BufferOut = Some bs \<longrightarrow> unat out_size \<le> length bs" using bout arg(2) by auto
  show ?thesis
    using deliver_safe [OF reads out arg(3), of "tls_OutBio c" pending s'] drain_returns [OF queue, of s']
    by (auto simp: TlsDoHandshake_def Some cs step)
qed

section \<open>The name of the peer\<close>

text \<open>A text without a colon: at most one group is stored, or a dotted quad, which is not enough.\<close>

lemma pton6_loop_no_colon:
  assumes lib: "base_lib sz sm" and junk: "length junk = 4"
  shows "0 \<notin> set xs \<Longrightarrow> 0x3A \<notin> set xs \<Longrightarrow> \<exists>cs. 0 \<notin> set cs \<and> cur = cs @ 0 # q \<Longrightarrow>
    \<exists>r. pton6_loop (strchr sz sm) junk cur saw val 0 None tmp (xs @ 0 # q) = Inr r
      \<and> (case r of None \<Rightarrow> True | Some (saw', val', tp', col', tmp') \<Rightarrow>
          col' = None \<and> (tp' = 0 \<or> tp' = 4 \<and> \<not> saw'))"
proof (induction xs arbitrary: saw val)
  case Nil
  then show ?case by simp
next
  case (Cons ch xs)
  then have ch: "ch \<noteq> 0" "ch \<noteq> 0x3A" by auto
  show ?case
  proof (cases "hex_digit (strchr sz sm) ch")
    case (Some d)
    with Cons.IH [OF _ _ Cons.prems(3)] Cons.prems(1,2) ch show ?thesis by (auto simp: Let_def)
  next
    case None
    from Cons.prems(3) obtain cs where cs: "0 \<notin> set cs" "cur = cs @ 0 # q" by blast
    from pton4_loop_spec [OF digit_scan_strchr [OF lib] cs(1), of "junk[0 := 0]" "[]" "[]" 0 q] junk cs(2)
    have "inet_pton4 (strchr sz sm) junk cur = Inr (quad cs)"
      by (simp add: inet_pton4_def quad_def decimal_def Let_def)
    with None ch show ?thesis by (auto simp: NS_INADDRSZ_def NS_IN6ADDRSZ_def split: option.splits)
  qed
qed

lemma pton6_no_colon:
  assumes lib: "base_lib sz sm" and junk: "length junk = 4" and xs: "0 \<notin> set xs" "0x3A \<notin> set xs"
  shows "inet_pton6 (strchr sz sm) junk (xs @ 0 # q) = Inr None"
proof -
  obtain c src where host: "xs @ 0 # q = c # src" by (cases xs) auto
  have c: "c \<noteq> 0x3A" using host xs(2) by (cases xs) auto
  from pton6_loop_no_colon [OF lib junk xs, of "xs @ 0 # q" q False 0 "replicate NS_IN6ADDRSZ 0"] xs(1) obtain r where
    "pton6_loop (strchr sz sm) junk (xs @ 0 # q) False 0 0 None (replicate NS_IN6ADDRSZ 0) (xs @ 0 # q) = Inr r"
    "case r of None \<Rightarrow> True | Some (saw', val', tp', col', tmp') \<Rightarrow> col' = None \<and> (tp' = 0 \<or> tp' = 4 \<and> \<not> saw')"
    by blast
  with c show ?thesis unfolding host
    by (auto simp: inet_pton6_def pton6_end_def NS_INT16SZ_def NS_IN6ADDRSZ_def split: option.splits)
qed

lemma host_address_exact:
  assumes lib: "base_lib sz sm" and junk: "length junk = 4" and xs: "0 \<notin> set xs" "0x3A \<notin> set xs"
  shows "host_address (inet_pton (strchr sz sm) junk) (xs @ 0 # q) = Inr (quad xs)"
proof -
  from pton4_loop_spec [OF digit_scan_strchr [OF lib] xs(1), of "junk[0 := 0]" "[]" "[]" 0 q] junk
  have "inet_pton4 (strchr sz sm) junk (xs @ 0 # q) = Inr (quad xs)"
    by (simp add: inet_pton4_def quad_def decimal_def Let_def)
  with pton6_no_colon [OF lib junk xs] show ?thesis
    by (simp add: host_address_def inet_pton_def AF_INET_def AF_INET6_def split: option.splits)
qed

text \<open>C19: for a host name without a colon, \<^verbatim>\<open>TlsSetVerifyHost\<close>, with the \<^verbatim>\<open>inet_pton\<close> of the
  repository, makes OpenSSL compare the certificate with the four bytes of an IP address exactly
  when the name is a dotted quad, and with the name itself otherwise.\<close>

theorem tls_verify_host:
  fixes L :: "'s ssl_config" and Flags :: UINT32 and q :: "byte list" and s :: 's
  assumes lib: "base_lib sz sm" and junk: "length junk = 4" and xs: "0 \<notin> set xs" "0x3A \<notin> set xs"
    and ssl: "ssl_of Tls = Some ssl"
  defines "s' \<equiv> SSL_set_hostflags L ssl Flags (snd (SSL_set_tlsext_host_name L ssl (Some (xs @ 0 # q)) s))"
  assumes param: "SSL_get0_param L ssl s' \<noteq> 0"
  shows "TlsSetVerifyHost L (inet_pton (strchr sz sm) junk) Tls Flags (Some (xs @ 0 # q)) s =
    Inr (case (case quad xs of
                 Some a \<Rightarrow> X509_VERIFY_PARAM_set1_ip L (SSL_get0_param L ssl s') a s'
               | None \<Rightarrow> X509_VERIFY_PARAM_set1_host L (SSL_get0_param L ssl s') (xs @ 0 # q) s') of
           (ParamStatus, s'') \<Rightarrow> (if ParamStatus = 1 then EFI_SUCCESS else EFI_ABORTED, s''))"
  using param host_address_exact [OF lib junk xs, of q] ssl
  by (simp add: TlsSetVerifyHost_def s'_def Let_def split: option.splits prod.splits)

section \<open>Deviations\<close>

text \<open>\<^verbatim>\<open>TlsGetSessionId\<close> stores four bytes into the caller's \<^verbatim>\<open>UINT16\<close>: with an object of two
  bytes, which is what its prototype asks for, every call with a session writes out of bounds.\<close>

theorem tls_session_id_overflow:
  assumes "ssl_of Tls = Some ssl" and "SSL_get_session L ssl s \<noteq> 0" and "length SessionIdLen = 2"
  shows "TlsGetSessionId L Q Tls (Some buf) (Some SessionIdLen) s = Inl OobWrite"
  using assms by (simp add: TlsGetSessionId_def into_buffer_def le_bytes32_def Let_def)

text \<open>\<^verbatim>\<open>TlsSetEcCurve\<close> with X25519: OpenSSL has no \<^verbatim>\<open>EC_KEY\<close> for this curve, so the call always
  reports \<^verbatim>\<open>EFI_UNSUPPORTED\<close>, but when OpenSSL supports the curve it has been set by then.\<close>

theorem tls_x25519_half_set:
  assumes ssl: "ssl_of Tls = Some ssl" and curves: "SSL_set1_curves L ssl [NID_X25519] s = (1, s1)"
    and key: "EC_KEY_new_by_curve_name L NID_X25519 s1 = (0, s2)"
  shows "TlsSetEcCurve L Tls (Some [29, 0, 0, 0]) 4 s = Inr (EFI_UNSUPPORTED, s2)"
proof -
  have "curve_nid (le_word32 [29, 0, 0, 0]) = Some NID_X25519"
    by (simp add: curve_nid_def le_word32_def TlsEcNamedCurveSecp256r1_def TlsEcNamedCurveSecp384r1_def
        TlsEcNamedCurveSecp521r1_def TlsEcNamedCurveX25519_def)
  then show ?thesis using assms by (simp add: TlsSetEcCurve_def read_range_def)
qed

text \<open>\<^verbatim>\<open>TlsSetSessionId\<close> reports success whatever OpenSSL answers, also for an identifier that is
  too long and has not been set.\<close>

theorem tls_session_id_unchecked:
  assumes "ssl_of Tls = Some ssl" and "SSL_get_session L ssl s \<noteq> 0" and "unat n \<le> length bs"
  shows "TlsSetSessionId L Tls (Some bs) n s
    = Inr (EFI_SUCCESS, snd (SSL_SESSION_set1_id L (SSL_get_session L ssl s) (take (unat n) bs) s))"
  using assms by (simp add: TlsSetSessionId_def read_range_def Let_def)

end
