(* ===== verification/TlsDemo.thy ===== *)
theory TlsDemo
  imports TlsProps
begin

text \<open>
  Small concrete stand-ins for OpenSSL, in which the hypotheses of the properties of TLS hold, and
  the properties at concrete inputs.
\<close>

section \<open>Objects\<close>

text \<open>The next address and the objects of the caller; there is memory up to the address \<open>limit\<close>.\<close>

definition demo_create :: "ptr \<Rightarrow> ptr \<times> ptr set \<Rightarrow> ptr \<times> ptr \<times> ptr set" where
  "demo_create limit s =
    (if fst s = 0 \<or> limit \<le> fst s \<or> fst s \<in> snd s then (0, s) else (fst s, fst s + 1, insert (fst s) (snd s)))"

definition demo_release :: "ptr \<Rightarrow> ptr \<times> ptr set \<Rightarrow> ptr \<times> ptr set" where
  "demo_release p s = (fst s, snd s - {p})"

definition demo_objects :: "ptr \<Rightarrow> (ptr \<times> ptr set) ssl_objects" where
  "demo_objects limit = \<lparr>
     OPENSSL_init_ssl = \<lambda>s. (1, s), OPENSSL_malloc = demo_create limit, OPENSSL_free = demo_release,
     SSL_CTX_new = demo_create limit, SSL_CTX_free = demo_release,
     SSL_CTX_set_options = \<lambda>_ _ s. s, SSL_CTX_set_min_proto_version = \<lambda>_ _ s. s,
     SSL_new = \<lambda>_. demo_create limit, SSL_free = demo_release,
     SSL_set_security_level = \<lambda>_ _ s. s, SSL_set_info_callback = \<lambda>_ s. s,
     BIO_new = demo_create limit, BIO_set_mem_eof_return = \<lambda>_ _ s. s,
     SSL_set_bio = \<lambda>_ i out s. demo_release i (demo_release out s),
     SSL_get_SSL_CTX = \<lambda>_ _. 98, SSL_CTX_get_cert_store = \<lambda>_ _. 99,
     X509_STORE_new = demo_create limit, X509_STORE_free = demo_release,
     SSL_CTX_set1_verify_cert_store = \<lambda>_ _ s. s, X509_STORE_set_flags = \<lambda>_ _ s. s\<rparr>"

lemma demo_owner_ok: "owner_ok (demo_objects limit) snd"
  by (auto simp: owner_ok_def demo_objects_def creates_def releases_def demo_create_def demo_release_def)

lemmas demo_run = TlsNew_def TlsNew_store_def TlsFree_def demo_objects_def demo_create_def demo_release_def
  Let_def

theorem tls_connection_wf_witness:
  "\<exists>c s'. TlsNew (demo_objects 10) 98 (1, {}) = Inr (Some c, s') \<and> connection_wf c
    \<and> snd s' = {1, 2} \<and> snd (TlsFree (demo_objects 10) (Some c) s') = {}"
proof -
  from tls_connection_wf [OF demo_owner_ok, of 10 98 "(1, {})"] obtain r s' where
    r: "TlsNew (demo_objects 10) 98 (1, {}) = Inr (r, s')"
      "\<forall>c. r = Some c \<longrightarrow> connection_wf c \<and> snd s' = insert (tls_addr c) (insert (tls_Ssl c) (snd (1 :: ptr, {})))
        \<and> snd (TlsFree (demo_objects 10) r s') = snd (1 :: ptr, {})" by blast
  have "TlsNew (demo_objects 10) 98 (1, {})
      = Inr (Some \<lparr>tls_addr = 1, tls_Ssl = 2, tls_InBio = 3, tls_OutBio = 4\<rparr>, 5, {1, 2})"
    by (auto simp: demo_run word_le_nat_alt)
  with r show ?thesis by auto
qed

theorem tls_new_leaks_witness:
  "\<exists>s'. TlsNew (demo_objects 4) 98 (1, {}) = Inr (None, s') \<and> snd s' = {3}"
proof -
  let ?L = "demo_objects 4"
  have "OPENSSL_malloc ?L (1, {}) = (1, 2, {1})" "SSL_new ?L 98 (2, {1}) = (2, 3, {1, 2})"
    "BIO_new ?L (SSL_set_info_callback ?L 2 (SSL_set_security_level ?L 2 3 (3, {1, 2}))) = (3, 4, {1, 2, 3})"
    "BIO_new ?L (BIO_set_mem_eof_return ?L 3 (-1) (4, {1, 2, 3})) = (0, 4, {1, 2, 3})"
    by (auto simp: demo_objects_def demo_create_def word_le_nat_alt)
  from tls_new_leaks [OF demo_owner_ok this] show ?thesis by auto
qed

section \<open>Packets\<close>

text \<open>
  The bytes that are pending and the input so far. A handshake answers with three bytes and waits
  for more.
\<close>

definition demo_io :: "(byte list \<times> byte list) ssl_io" where
  "demo_io = \<lparr>
     SSL_is_init_finished = \<lambda>_ _. False, SSL_set_connect_state = \<lambda>_ s. s,
     SSL_do_handshake = \<lambda>_ s. (-1, [22, 3, 1], snd s), SSL_get_error = \<lambda>_ _ _. 2,
     ERR_get_error_all = \<lambda>s. (0, s),
     BIO_ctrl_pending = \<lambda>_ s. of_nat (length (fst s)),
     BIO_write = \<lambda>_ bs s. (int (length bs), fst s, snd s @ bs),
     BIO_read = \<lambda>_ n s. (int (length (take (unat n) (fst s))), take (unat n) (fst s), drop (unat n) (fst s), snd s),
     SSL_read = \<lambda>_ _ s. (-1, [], s), SSL_write = \<lambda>_ bs s. (int (length bs), s),
     SSL_set_quiet_shutdown = \<lambda>_ _ s. s, SSL_shutdown = \<lambda>_ s. (1, s), SSL_clear = \<lambda>_ s. (1, [], []),
     io_malloc = \<lambda>s. (5, s), io_free = \<lambda>_ s. s\<rparr>"

definition demo_conn :: tls_connection where
  "demo_conn = \<lparr>tls_addr = 1, tls_Ssl = 2, tls_InBio = 3, tls_OutBio = 4\<rparr>"

theorem tls_handshake_retry_witness:
  "\<exists>bs s2. TlsDoHandshake demo_io False (Some demo_conn) (Some [7]) 1 (Some [0, 0, 0]) (Some 3) ([22, 3, 1], [])
      = Some (Inr (EFI_SUCCESS, Some bs, Some 3, s2))"
proof -
  have first: "TlsDoHandshake demo_io False (Some demo_conn) None 0 None (Some 0) ([], [])
      = Some (Inr (EFI_BUFFER_TOO_SMALL, None, Some 3, ([22, 3, 1], [])))"
    by (simp add: TlsDoHandshake_def check_in_out_def check_out_def demo_conn_def handshake_step_def
        demo_io_def deliver_def SSL_ERROR_SSL_def SSL_ERROR_SYSCALL_def SSL_ERROR_ZERO_RETURN_def Let_def)
  have bio: "bio_delivers demo_io (tls_OutBio demo_conn) ([22, 3, 1], [])"
    by (simp add: bio_delivers_def demo_io_def Let_def)
  have "Some [7 :: byte] = None \<longleftrightarrow> (1 :: UINT64) = 0" "length [0 :: byte, 0, 0] = unat (3 :: UINT64)" by simp_all
  from tls_handshake_retry [OF first bio this] show ?thesis by blast
qed

theorem tls_handshake_returns_witness:
  "\<exists>r. TlsDoHandshake demo_io True (Some demo_conn) (Some [7]) 1 (Some [0, 0]) (Some 2) ([], []) = Some (Inr r)"
proof (rule tls_handshake_returns)
  show "queue_ends demo_io (\<lambda>_. 0)" by (simp add: queue_ends_def demo_io_def)
  show "reads_bounded demo_io" by (simp add: reads_bounded_def demo_io_def)
qed simp_all

section \<open>Settings\<close>

text \<open>What OpenSSL has been told, newest first; it knows two ciphers.\<close>

definition demo_told :: "byte list \<Rightarrow> byte list list \<Rightarrow> int \<times> byte list list" where
  "demo_told bs s = (1, bs # s)"

definition demo_config :: "byte list list ssl_config" where
  "demo_config = \<lparr>
     SSL_set_min_proto_version = \<lambda>_ _ s. s, SSL_set_max_proto_version = \<lambda>_ _ s. s,
     SSL_get_ciphers = \<lambda>_ _. Some [\<lparr>protocol_id = 1, cipher_id = 1, cipher_name = [0x41]\<rparr>,
                                    \<lparr>protocol_id = 2, cipher_id = 2, cipher_name = [0x42, 0x43]\<rparr>],
     SSL_set_cipher_list = \<lambda>_. demo_told, COMP_zlib = 0,
     SSL_COMP_add_compression_method = \<lambda>_ _ s. (1, s), SSL_set_verify = \<lambda>_ _ s. s,
     SSL_set_tlsext_host_name = \<lambda>_ _ s. (1, s), SSL_set_hostflags = \<lambda>_ _ s. s, SSL_get0_param = \<lambda>_ _. 6,
     X509_VERIFY_PARAM_set1_ip = \<lambda>_. demo_told, X509_VERIFY_PARAM_set1_host = \<lambda>_. demo_told,
     SSL_CTX_set_tlsext_servername_callback = \<lambda>_ s. (1, s),
     SSL_CTX_set_tlsext_servername_arg = \<lambda>_ _ s. (1, s),
     SSL_get_session = \<lambda>_ _. 7, SSL_SESSION_set1_id = \<lambda>_ bs s. if length bs \<le> 32 then demo_told bs s else (0, s),
     SSL_set1_sigalgs_list = \<lambda>_. demo_told, SSL_set1_curves = \<lambda>_ _ s. (1, [1] # s),
     EC_KEY_new_by_curve_name = \<lambda>n s. (if n = NID_X25519 then 0 else 8, s), SSL_set_tmp_ecdh = \<lambda>_ _ s. (1, s),
     EC_KEY_free = \<lambda>_ s. s, cfg_security_level = \<lambda>_ _ s. s, pool_junk = \<lambda>n. replicate n 9\<rparr>"

lemma demo_ssl: "ssl_of (Some demo_conn) = Some 2"
  by (simp add: ssl_of_def demo_conn_def)

theorem tls_cipher_list_exact_witness:
  "\<exists>p'. TlsSetCipherList demo_config (Some demo_conn) (Some [2, 5, 1]) 3 (empty_pool (\<lambda>_ _. True)) []
      = Inr (EFI_SUCCESS, p', [[0x42, 0x43, 0x3A, 0x41, 0]]) \<and> pool_live p' = {}"
proof -
  let ?p = "empty_pool (\<lambda>_ _. True)"
  have cs: "known_ciphers (case SSL_get_ciphers demo_config 2 [] of None \<Rightarrow> [] | Some stack \<Rightarrow> stack)
      (take (unat (3 :: UINT64)) [2, 5, 1])
    = [\<lparr>protocol_id = 2, cipher_id = 2, cipher_name = [0x42, 0x43]\<rparr>,
       \<lparr>protocol_id = 1, cipher_id = 1, cipher_name = [0x41]\<rparr>]"
    by (simp add: known_ciphers_def List.map_filter_simps demo_config_def)
  have run: "cipher_call demo_config 2 [\<lparr>protocol_id = 2, cipher_id = 2, cipher_name = [0x42, 0x43]\<rparr>,
       \<lparr>protocol_id = 1, cipher_id = 1, cipher_name = [0x41]\<rparr>] []
    = (EFI_SUCCESS, [[0x42, 0x43, 0x3A, 0x41, 0]])"
    by (simp add: cipher_call_def cipher_text_def text_Cons demo_config_def demo_told_def)
  have "unat (3 :: UINT64) \<le> length [2 :: UINT16, 5, 1]" "\<forall>n. length (pool_junk demo_config n) = n"
    by (simp_all add: demo_config_def)
  from tls_cipher_list_exact [OF empty_pool_inv demo_ssl this, of "\<lambda>_ _. True" "[]"] obtain st p' s' where
    1: "TlsSetCipherList demo_config (Some demo_conn) (Some [2, 5, 1]) 3 ?p [] = Inr (st, p', s')"
      "pool_live p' = pool_live ?p"
      "st \<noteq> EFI_OUT_OF_RESOURCES \<longrightarrow> (st, s') = (EFI_SUCCESS, [[0x42, 0x43, 0x3A, 0x41, 0]])"
      "st \<noteq> EFI_OUT_OF_RESOURCES"
    unfolding cs run by (auto simp: empty_pool_def cipher_text_def text_Cons)
  then show ?thesis by (auto simp: empty_pool_def)
qed

theorem tls_sigalg_exact_witness:
  "\<exists>st p' s'. TlsSetSignatureAlgoList demo_config (Some demo_conn)
      (Some (of_nat (2 * length [(4 :: byte, 3 :: byte), (2, 1)]) # pair_bytes [(4, 3), (2, 1)]))
      (of_nat (2 * length [(4 :: byte, 3 :: byte), (2, 1)] + 1)) (empty_pool (\<lambda>_ _. True)) [] = Inr (st, p', s')
    \<and> pool_live p' = {}"
  using tls_sigalg_exact [OF empty_pool_inv demo_ssl, of demo_config "[(4, 3), (2, 1)]" "\<lambda>_ _. True" "[]"]
  by (auto simp: demo_config_def empty_pool_def)

theorem tls_verify_host_witness:
  "TlsSetVerifyHost demo_config (inet_pton (strchr nul_size first_index) [9, 9, 9, 9]) (Some demo_conn) 0
      (Some ([0x31, 0x2E, 0x32, 0x2E, 0x33, 0x2E, 0x34] @ 0 # [])) [] = Inr (EFI_SUCCESS, [[1, 2, 3, 4]])"
proof -
  have "quad [0x31, 0x2E, 0x32, 0x2E, 0x33, 0x2E, 0x34] = Some [1, 2, 3, 4]"
    by (simp add: quad_def octet_def decimal_def digit_def Let_def)
  then show ?thesis
    using tls_verify_host [OF nul_base_lib, of "[9, 9, 9, 9]" "[0x31, 0x2E, 0x32, 0x2E, 0x33, 0x2E, 0x34]"
      "Some demo_conn" 2 demo_config 0 "[]" "[]"]
    by (simp add: demo_ssl demo_config_def demo_told_def)
qed

theorem tls_session_id_overflow_witness:
  "\<forall>Q buf. TlsGetSessionId demo_config Q (Some demo_conn) (Some buf) (Some [0, 0]) [] = Inl OobWrite"
  using tls_session_id_overflow [OF demo_ssl, of demo_config "[]" "[0, 0]"] by (simp add: demo_config_def)

theorem tls_x25519_half_set_witness:
  "TlsSetEcCurve demo_config (Some demo_conn) (Some [29, 0, 0, 0]) 4 [] = Inr (EFI_UNSUPPORTED, [[1]])"
  by (rule tls_x25519_half_set [OF demo_ssl]) (simp_all add: demo_config_def)

theorem tls_session_id_unchecked_witness:
  "TlsSetSessionId demo_config (Some demo_conn) (Some (replicate 40 1)) 40 [] = Inr (EFI_SUCCESS, [])"
  using tls_session_id_unchecked [OF demo_ssl, of demo_config "[]" 40 "replicate 40 1"]
  by (simp add: demo_config_def)

end
