(* ===== verification/TimeStamp.thy ===== *)
theory TimeStamp
  imports Authenticode X509Time CrtDeps
begin

text \<open>
  \<^verbatim>\<open>MbedTlsPkg/Library/BaseCryptLib/Pk/CryptTs.c\<close>: \<^verbatim>\<open>ImageTimestampVerify\<close> walks through an
  Authenticode signature to the time in its RFC 3161 counter signature and converts that.

  \<^item> MbedTLS is the record \<open>mbedtls\<close> of the PKCS#7 parser; \<open>expect_tag\<close> is one call of
    \<^verbatim>\<open>mbedtls_asn1_get_tag\<close> whose failure makes the function return \<^verbatim>\<open>FALSE\<close>.
  \<^item> A pointer is an offset into the message and a read behind the message is a fault. \<open>ch\<close> is
    the value of a \<^verbatim>\<open>CHAR8\<close>. \<open>SigningTime\<close> is \<open>None\<close> for NULL.
\<close>

section \<open>The model\<close>

definition mSpcRFC3161OidValue :: "byte list" where
  "mSpcRFC3161OidValue = [0x2B, 0x06, 0x01, 0x04, 0x01, 0x82, 0x37, 0x03, 0x03, 0x01]"

definition MBEDTLS_ASN1_GENERALIZED_TIME :: byte where "MBEDTLS_ASN1_GENERALIZED_TIME = 0x18"

definition zero_efi_time :: EFI_TIME where
  "zero_efi_time = \<lparr>et_Year = 0, et_Month = 0, et_Day = 0, et_Hour = 0, et_Minute = 0, et_Second = 0,
     et_Nanosecond = 0, et_TimeZone = 0, et_Daylight = 0\<rparr>"

text \<open>\<^verbatim>\<open>Str[Index] - '0'\<close>, and two digits, which the code adds up in the field.\<close>

definition digit_at :: "(byte \<Rightarrow> int) \<Rightarrow> byte list \<Rightarrow> int \<Rightarrow> int res" where
  "digit_at ch m p = bind_res (byte_of m p) (\<lambda>c. Inr (ch c - 48))"

definition two_at :: "(byte \<Rightarrow> int) \<Rightarrow> byte list \<Rightarrow> int \<Rightarrow> int res" where
  "two_at ch m p =
    bind_res (digit_at ch m p) (\<lambda>a. bind_res (digit_at ch m (p + 1)) (\<lambda>b. Inr (a * 10 + b)))"

text \<open>From the month on; the fields that were read before a failure stay.\<close>

definition convert_from_month ::
    "(byte \<Rightarrow> int) \<Rightarrow> byte list \<Rightarrow> int \<Rightarrow> EFI_TIME \<Rightarrow> (bool \<times> EFI_TIME) res" where
  "convert_from_month ch m p T =
    bind_res (two_at ch m p) (\<lambda>v. let T = T\<lparr>et_Month := of_int v\<rparr> in
      if et_Month T < 1 \<or> et_Month T > 12 then Inr (False, T)
      else bind_res (two_at ch m (p + 2)) (\<lambda>v. let T = T\<lparr>et_Day := of_int v\<rparr> in
      if et_Day T < 1 \<or> et_Day T > 31 then Inr (False, T)
      else bind_res (two_at ch m (p + 4)) (\<lambda>v. let T = T\<lparr>et_Hour := of_int v\<rparr> in
      if et_Hour T > 23 then Inr (False, T)
      else bind_res (two_at ch m (p + 6)) (\<lambda>v. let T = T\<lparr>et_Minute := of_int v\<rparr> in
      if et_Minute T > 59 then Inr (False, T)
      else bind_res (two_at ch m (p + 8)) (\<lambda>v. let T = T\<lparr>et_Second := of_int v\<rparr> in
      if et_Second T > 59 then Inr (False, T) else Inr (True, T))))))"

text \<open>The year of four digits, and what follows it.\<close>

definition convert_long_year ::
    "(byte \<Rightarrow> int) \<Rightarrow> byte list \<Rightarrow> int \<Rightarrow> EFI_TIME \<Rightarrow> (bool \<times> EFI_TIME) res" where
  "convert_long_year ch m p T =
    bind_res (digit_at ch m p) (\<lambda>a. bind_res (digit_at ch m (p + 1)) (\<lambda>b.
    bind_res (digit_at ch m (p + 2)) (\<lambda>c. bind_res (digit_at ch m (p + 3)) (\<lambda>d.
      let T = T\<lparr>et_Year := of_int (a * 1000) + of_int (b * 100) + of_int (c * 10) + of_int d\<rparr> in
      if et_Year T < 1900 \<or> et_Year T > 9999 then Inr (False, T)
      else convert_from_month ch m (p + 4) T))))"

definition ConvertAsn1TimeToEfiTime ::
    "(byte \<Rightarrow> int) \<Rightarrow> byte list \<Rightarrow> int option \<Rightarrow> EFI_TIME option \<Rightarrow> (bool \<times> EFI_TIME option) res" where
  "ConvertAsn1TimeToEfiTime ch m Ptr EfiTime =
    (case (Ptr, EfiTime) of
       (Some p, Some T) \<Rightarrow>
         bind_res (convert_long_year ch m p zero_efi_time) (\<lambda>(Status, T). Inr (Status, Some T))
     | _ \<Rightarrow> Inr (False, EfiTime))"

text \<open>An element that may be missing: the pointer behind it, and the length.\<close>

definition skip_optional ::
    "'pk mbedtls \<Rightarrow> byte list \<Rightarrow> int \<Rightarrow> int \<Rightarrow> int \<Rightarrow> byte \<Rightarrow> int \<times> int" where
  "skip_optional L m Ptr End ObjLen t =
    (case mbedtls_asn1_get_tag L m Ptr End ObjLen t of
       (Ret, TempPtr, ObjLen) \<Rightarrow> (if Ret = 0 then TempPtr + ObjLen else Ptr, ObjLen))"

text \<open>From the start to the signer: its start, the last length, and its end.\<close>

definition ts_find_signer :: "'pk mbedtls \<Rightarrow> byte list \<Rightarrow> int \<Rightarrow> (int \<times> int \<times> int) option" where
  "ts_find_signer L m End =
    Option.bind (expect_tag L m 0 End 0 ASN1_SEQUENCE) (\<lambda>(Ptr, ObjLen).
    Option.bind (expect_tag L m Ptr End ObjLen MBEDTLS_ASN1_OID) (\<lambda>(Ptr, ObjLen).
    Option.bind (expect_tag L m (Ptr + ObjLen) End ObjLen ASN1_CONTEXT) (\<lambda>(Ptr, ObjLen).
    let End = Ptr + ObjLen in
    Option.bind (expect_tag L m Ptr End ObjLen ASN1_SEQUENCE) (\<lambda>(Ptr, ObjLen).
    Option.bind (expect_tag L m Ptr End ObjLen MBEDTLS_ASN1_INTEGER) (\<lambda>(Ptr, ObjLen).
    Option.bind (expect_tag L m (Ptr + ObjLen) End ObjLen ASN1_SET) (\<lambda>(Ptr, ObjLen).
    Option.bind (expect_tag L m (Ptr + ObjLen) End ObjLen ASN1_SEQUENCE) (\<lambda>(Ptr, ObjLen).
    Option.bind (expect_tag L m (Ptr + ObjLen) End ObjLen ASN1_CONTEXT) (\<lambda>(Ptr, ObjLen).
    case skip_optional L m (Ptr + ObjLen) End ObjLen ASN1_CONTEXT of (Ptr, ObjLen) \<Rightarrow>
    Option.bind (expect_tag L m Ptr End ObjLen ASN1_SET) (\<lambda>(Ptr, ObjLen).
    Option.bind (expect_tag L m Ptr End ObjLen ASN1_SEQUENCE) (\<lambda>(Ptr, ObjLen).
      Some (Ptr, ObjLen, Ptr + ObjLen)))))))))))"

text \<open>From there to the type of the first attribute that is not authenticated.\<close>

definition find_attribute ::
    "'pk mbedtls \<Rightarrow> byte list \<Rightarrow> int \<Rightarrow> int \<Rightarrow> int \<Rightarrow> (int \<times> int) option" where
  "find_attribute L m Ptr End ObjLen =
    Option.bind (expect_tag L m Ptr End ObjLen MBEDTLS_ASN1_INTEGER) (\<lambda>(Ptr, ObjLen).
    Option.bind (expect_tag L m (Ptr + ObjLen) End ObjLen ASN1_SEQUENCE) (\<lambda>(Ptr, ObjLen).
    Option.bind (expect_tag L m (Ptr + ObjLen) End ObjLen ASN1_SEQUENCE) (\<lambda>(Ptr, ObjLen).
    case skip_optional L m (Ptr + ObjLen) End ObjLen ASN1_CONTEXT of (Ptr, ObjLen) \<Rightarrow>
    Option.bind (expect_tag L m Ptr End ObjLen ASN1_SEQUENCE) (\<lambda>(Ptr, ObjLen).
    Option.bind (expect_tag L m (Ptr + ObjLen) End ObjLen MBEDTLS_ASN1_OCTET_STRING) (\<lambda>(Ptr, ObjLen).
    Option.bind (expect_tag L m (Ptr + ObjLen) End ObjLen 0xA1) (\<lambda>(Ptr, ObjLen).
    Option.bind (expect_tag L m Ptr End ObjLen ASN1_SEQUENCE) (\<lambda>(Ptr, ObjLen).
      expect_tag L m Ptr End ObjLen MBEDTLS_ASN1_OID)))))))"

text \<open>And from behind the type to the time, which is the last thing the function looks at.\<close>

definition find_time :: "'pk mbedtls \<Rightarrow> byte list \<Rightarrow> int \<Rightarrow> int \<Rightarrow> int \<Rightarrow> (int \<times> int) option" where
  "find_time L m Ptr End ObjLen =
    Option.bind (expect_tag L m Ptr End ObjLen ASN1_SET) (\<lambda>(Ptr, ObjLen).
    Option.bind (expect_tag L m Ptr End ObjLen ASN1_SEQUENCE) (\<lambda>(Ptr, ObjLen).
    Option.bind (expect_tag L m Ptr End ObjLen MBEDTLS_ASN1_OID) (\<lambda>(Ptr, ObjLen).
    Option.bind (expect_tag L m (Ptr + ObjLen) End ObjLen ASN1_CONTEXT) (\<lambda>(Ptr, ObjLen).
    Option.bind (expect_tag L m Ptr End ObjLen ASN1_SEQUENCE) (\<lambda>(Ptr, ObjLen).
    Option.bind (expect_tag L m Ptr End ObjLen MBEDTLS_ASN1_INTEGER) (\<lambda>(Ptr, ObjLen).
    Option.bind (expect_tag L m (Ptr + ObjLen) End ObjLen ASN1_SET) (\<lambda>(Ptr, ObjLen).
    Option.bind (expect_tag L m (Ptr + ObjLen) End ObjLen ASN1_SEQUENCE) (\<lambda>(Ptr, ObjLen).
    Option.bind (expect_tag L m Ptr End ObjLen MBEDTLS_ASN1_OID) (\<lambda>(Ptr, ObjLen).
    Option.bind (expect_tag L m (Ptr + ObjLen) End ObjLen ASN1_CONTEXT) (\<lambda>(Ptr, ObjLen).
    Option.bind (expect_tag L m Ptr End ObjLen MBEDTLS_ASN1_OCTET_STRING) (\<lambda>(Ptr, ObjLen).
    Option.bind (expect_tag L m Ptr End ObjLen ASN1_SEQUENCE) (\<lambda>(Ptr, ObjLen).
    Option.bind (expect_tag L m Ptr End ObjLen MBEDTLS_ASN1_INTEGER) (\<lambda>(Ptr, ObjLen).
    Option.bind (expect_tag L m (Ptr + ObjLen) End ObjLen MBEDTLS_ASN1_OID) (\<lambda>(Ptr, ObjLen).
    Option.bind (expect_tag L m (Ptr + ObjLen) End ObjLen ASN1_SEQUENCE) (\<lambda>(Ptr, ObjLen).
    Option.bind (expect_tag L m (Ptr + ObjLen) End ObjLen MBEDTLS_ASN1_INTEGER) (\<lambda>(Ptr, ObjLen).
      expect_tag L m (Ptr + ObjLen) End ObjLen MBEDTLS_ASN1_GENERALIZED_TIME))))))))))))))))"

text \<open>The status, and what is in \<^verbatim>\<open>SigningTime\<close>.\<close>

definition ImageTimestampVerify ::
    "'pk mbedtls \<Rightarrow> (byte \<Rightarrow> int) \<Rightarrow> byte list option \<Rightarrow> byte list option \<Rightarrow> EFI_TIME option
     \<Rightarrow> (bool \<times> EFI_TIME option) res" where
  "ImageTimestampVerify L ch AuthData TsaCert SigningTime =
    (let T = map_option (\<lambda>t. zero_efi_time) SigningTime in
     case (AuthData, TsaCert) of
       (Some m, Some Cert) \<Rightarrow>
         if length m > INT_MAX \<or> length Cert > INT_MAX then Inr (False, T)
         else (case ts_find_signer L m (int (length m)) of
           None \<Rightarrow> Inr (False, T)
         | Some (Ptr, ObjLen, End) \<Rightarrow>
             (case find_attribute L m Ptr End ObjLen of
                None \<Rightarrow> Inr (False, T)
              | Some (Ptr, ObjLen) \<Rightarrow>
                  bind_res (bytes m Ptr 10) (\<lambda>type.
                    if type \<noteq> mSpcRFC3161OidValue then Inr (False, T)
                    else (case find_time L m (Ptr + ObjLen) End ObjLen of
                            None \<Rightarrow> Inr (False, T)
                          | Some (Ptr, ObjLen) \<Rightarrow>
                              if T = None then Inr (True, T)
                              else ConvertAsn1TimeToEfiTime ch m (Some Ptr) T))))
     | _ \<Rightarrow> Inr (False, T))"

end
