(* ===== verification/TimeStampOssl.thy ===== *)
theory TimeStampOssl
  imports TimeStamp
begin

text \<open>
  \<^verbatim>\<open>OpensslPkg/Library/BaseCryptLib/Pk/CryptTs.c\<close>: the RFC 3161 counter signature is verified with
  OpenSSL. OpenSSL is not part of the repository; \<open>ts_ossl\<close> holds the functions that the code
  calls. OpenSSL's own objects are freed on every path; the two buffers come from the pool.

  \<^item> A message is its encoding, and \<open>ts_d2i_PKCS7\<close> says what the code reads in the decoded structure.
  \<^item> \<open>ts_PKCS7_verify\<close> is \<^verbatim>\<open>PKCS7_verify\<close> against a store that trusts one certificate, for partial
    chains, any purpose and any time; it yields the content.
  \<^item> \<open>ts_d2i_TS_TST_INFO\<close> decodes by the templates at the start of the file; it gets the buffer and
    the length.
\<close>

text \<open>What an attribute value is; only a string is what the code takes every value for.\<close>

datatype asn1_type = ASN1_string "byte list" | ASN1_null | ASN1_other

text \<open>Object identifier and first value of an attribute.\<close>

type_synonym x509_attribute = "byte list option \<times> asn1_type option"

record pkcs7_signer =
  enc_digest :: "byte list option"
  unauth_attr :: "x509_attribute option list option"

record ts_pkcs7 =
  ts_is_signed :: bool
  ts_signer_info :: "pkcs7_signer option list option"

text \<open>\<open>tst_HashAlgorithm\<close> is the identifier, \<open>None\<close> for NULL; \<open>tst_GenTime\<close> has the ASN.1 type and the
  bytes of the object behind \<^verbatim>\<open>data\<close>.\<close>

record TS_TST_INFO =
  tst_Version :: int
  tst_Policy :: "byte list option"
  tst_HashAlgorithm :: "byte list option"
  tst_HashedMessage :: "byte list"
  tst_GenTime :: "(int \<times> byte list) option"

record ('x, 'md) ts_ossl =
  ts_add_digests_ok :: bool
  ts_d2i_PKCS7 :: "byte list \<Rightarrow> ts_pkcs7 option"
  ts_d2i_X509 :: "byte list \<Rightarrow> 'x option"
  ts_store_ok :: "'x \<Rightarrow> bool"
  ts_bio_ok :: bool
  ts_PKCS7_verify :: "byte list \<Rightarrow> 'x \<Rightarrow> byte list option"
  ts_d2i_TS_TST_INFO :: "byte list \<Rightarrow> int \<Rightarrow> TS_TST_INFO option"
  ts_algor_dup_ok :: bool
  ts_digestbyobj :: "byte list \<Rightarrow> 'md option"
  ts_MD_size :: "'md \<Rightarrow> nat"
  ts_MD_CTX_new_ok :: bool
  ts_digest :: "'md \<Rightarrow> byte list \<Rightarrow> byte list option"

definition V_ASN1_UTCTIME :: int where "V_ASN1_UTCTIME = 23"
definition V_ASN1_GENERALIZEDTIME :: int where "V_ASN1_GENERALIZEDTIME = 24"

text \<open>The year of two digits counts from 1900.\<close>

definition convert_short_year ::
    "(byte \<Rightarrow> int) \<Rightarrow> byte list \<Rightarrow> int \<Rightarrow> EFI_TIME \<Rightarrow> (bool \<times> EFI_TIME) res" where
  "convert_short_year ch m p T =
    bind_res (digit_at ch m p) (\<lambda>a. bind_res (digit_at ch m (p + 1)) (\<lambda>b.
      let T = T\<lparr>et_Year := of_int (a * 10) + of_int b\<rparr>;
          T = (if et_Year T < 70 then T\<lparr>et_Year := et_Year T + 100\<rparr> else T) in
      convert_from_month ch m (p + 2) T))"

definition ossl_ConvertAsn1TimeToEfiTime ::
    "(byte \<Rightarrow> int) \<Rightarrow> (int \<times> byte list) option \<Rightarrow> EFI_TIME option \<Rightarrow> (bool \<times> EFI_TIME option) res" where
  "ossl_ConvertAsn1TimeToEfiTime ch Asn1Time EfiTime =
    (case (Asn1Time, EfiTime) of
       (Some (type, Str), Some T) \<Rightarrow>
         bind_res
           (if type = V_ASN1_UTCTIME then convert_short_year ch Str 0 zero_efi_time
            else if type = V_ASN1_GENERALIZEDTIME then convert_long_year ch Str 0 zero_efi_time
            else convert_from_month ch Str 0 zero_efi_time)
           (\<lambda>(Status, T). Inr (Status, Some T))
     | _ \<Rightarrow> Inr (False, EfiTime))"

text \<open>The test of the imprint, with the buffer for the digest.\<close>

definition check_imprint ::
    "('x, 'md) ts_ossl \<Rightarrow> TS_TST_INFO \<Rightarrow> byte list \<Rightarrow> 'md \<Rightarrow> bool res" where
  "check_imprint S TstInfo TimestampedData Md =
    (if \<not> ts_MD_CTX_new_ok S then Inr False
     else (case ts_digest S Md TimestampedData of
             None \<Rightarrow> Inr False
           | Some d \<Rightarrow>
               if length d > ts_MD_size S Md then Inl OobWrite
               else let HashedMsg = copy_at 0 d (replicate (ts_MD_size S Md) 0) in
                 Inr (\<not> (ts_MD_size S Md = length (tst_HashedMessage TstInfo)
                         \<and> HashedMsg \<noteq> tst_HashedMessage TstInfo))))"

definition CheckTSTInfo ::
    "('x, 'md) ts_ossl \<Rightarrow> pool \<Rightarrow> TS_TST_INFO \<Rightarrow> byte list \<Rightarrow> (bool \<times> pool) res" where
  "CheckTSTInfo S p TstInfo TimestampedData =
    (if tst_Version TstInfo \<noteq> 1 then Inr (False, p)
     else if tst_Policy TstInfo = None then Inr (False, p)
     else if \<not> ts_algor_dup_ok S then Inr (False, p)
     else (case Option.bind (tst_HashAlgorithm TstInfo) (ts_digestbyobj S) of
             None \<Rightarrow> Inr (False, p)
           | Some Md \<Rightarrow>
               (case AllocatePool p (ts_MD_size S Md) of
                  (None, p) \<Rightarrow> Inr (False, p)
                | (HashedMsg, p) \<Rightarrow>
                    bind_res (check_imprint S TstInfo TimestampedData Md) (\<lambda>Status.
                    bind_res (FreePool p HashedMsg) (\<lambda>p. Inr (Status, p))))))"

text \<open>The content of the token, of which 2048 bytes are read, is checked and its time returned.\<close>

definition read_content ::
    "('x, 'md) ts_ossl \<Rightarrow> (byte \<Rightarrow> int) \<Rightarrow> pool \<Rightarrow> byte list \<Rightarrow> byte list \<Rightarrow> EFI_TIME option
     \<Rightarrow> (bool \<times> EFI_TIME option \<times> pool) res" where
  "read_content S ch p Content TimestampedData SigningTime =
    (let TstData = take 2048 (Content @ replicate 2048 0);
         TstSize = (if Content = [] then - 1 else int (min 2048 (length Content))) in
     case ts_d2i_TS_TST_INFO S TstData TstSize of
       None \<Rightarrow> Inr (False, SigningTime, p)
     | Some TstInfo \<Rightarrow>
         bind_res (CheckTSTInfo S p TstInfo TimestampedData) (\<lambda>(Status, p).
           if Status \<and> SigningTime \<noteq> None then
             bind_res (ossl_ConvertAsn1TimeToEfiTime ch (tst_GenTime TstInfo) (Some zero_efi_time))
               (\<lambda>(Status, T). Inr (Status, T, p))
           else Inr (Status, SigningTime, p)))"

definition TimestampTokenVerify ::
    "('x, 'md) ts_ossl \<Rightarrow> (byte \<Rightarrow> int) \<Rightarrow> pool \<Rightarrow> byte list \<Rightarrow> byte list \<Rightarrow> byte list \<Rightarrow> EFI_TIME option
     \<Rightarrow> (bool \<times> EFI_TIME option \<times> pool) res" where
  "TimestampTokenVerify S ch p TSToken TsaCert TimestampedData SigningTime =
    (if length TSToken > INT_MAX \<or> length TsaCert > INT_MAX \<or> length TimestampedData > INT_MAX
     then Inr (False, SigningTime, p)
     else let T = map_option (\<lambda>t. zero_efi_time) SigningTime in
       case ts_d2i_PKCS7 S TSToken of
         None \<Rightarrow> Inr (False, T, p)
       | Some Pkcs7 \<Rightarrow>
           if \<not> ts_is_signed Pkcs7 then Inr (False, T, p)
           else (case ts_d2i_X509 S TsaCert of
             None \<Rightarrow> Inr (False, T, p)
           | Some Cert \<Rightarrow>
               if \<not> ts_store_ok S Cert \<or> \<not> ts_bio_ok S then Inr (False, T, p)
               else (case ts_PKCS7_verify S TSToken Cert of
                 None \<Rightarrow> Inr (False, T, p)
               | Some Content \<Rightarrow>
                   (case AllocatePool p 2048 of
                      (None, p) \<Rightarrow> Inr (False, T, p)
                    | (TstData, p) \<Rightarrow>
                        bind_res (read_content S ch p Content TimestampedData T) (\<lambda>(Status, T, p).
                        bind_res (FreePool p TstData) (\<lambda>p. Inr (Status, T, p)))))))"

text \<open>The loop over the attributes: every match replaces the value found before.\<close>

primrec find_timestamp :: "x509_attribute option list \<Rightarrow> asn1_type option \<Rightarrow> asn1_type option" where
  "find_timestamp [] Asn1Type = Asn1Type"
| "find_timestamp (Xa # Sk) Asn1Type =
    (case Xa of
       None \<Rightarrow> find_timestamp Sk Asn1Type
     | Some (XaObj, v) \<Rightarrow>
         if XaObj \<noteq> Some mSpcRFC3161OidValue then find_timestamp Sk Asn1Type
         else find_timestamp Sk v)"

text \<open>What the token and the data to be stamped are; \<open>Inr None\<close> when there is no token.\<close>

definition locate_token :: "ts_pkcs7 \<Rightarrow> (byte list \<times> byte list) option res" where
  "locate_token Pkcs7 =
    (case ts_signer_info Pkcs7 of
       Some [Some SignInfo] \<Rightarrow>
         (case (enc_digest SignInfo, unauth_attr SignInfo) of
            (Some EncDigest, Some Sk) \<Rightarrow>
              (case find_timestamp Sk None of
                 None \<Rightarrow> Inr None
               | Some (ASN1_string TSToken) \<Rightarrow> Inr (Some (TSToken, EncDigest))
               | Some ASN1_null \<Rightarrow> Inl NullDeref
               | Some ASN1_other \<Rightarrow> Inl OobRead)
          | _ \<Rightarrow> Inr None)
     | _ \<Rightarrow> Inr None)"

definition ossl_ImageTimestampVerify ::
    "('x, 'md) ts_ossl \<Rightarrow> (byte \<Rightarrow> int) \<Rightarrow> pool \<Rightarrow> byte list option \<Rightarrow> byte list option \<Rightarrow> EFI_TIME option
     \<Rightarrow> (bool \<times> EFI_TIME option \<times> pool) res" where
  "ossl_ImageTimestampVerify S ch p AuthData TsaCert SigningTime =
    (case (AuthData, TsaCert) of
       (Some m, Some Cert) \<Rightarrow>
         if length m > INT_MAX \<or> length Cert > INT_MAX then Inr (False, SigningTime, p)
         else if \<not> ts_add_digests_ok S then Inr (False, SigningTime, p)
         else (case ts_d2i_PKCS7 S m of
           None \<Rightarrow> Inr (False, SigningTime, p)
         | Some Pkcs7 \<Rightarrow>
             bind_res (locate_token Pkcs7) (\<lambda>t. case t of
               None \<Rightarrow> Inr (False, SigningTime, p)
             | Some (TSToken, EncDigest) \<Rightarrow>
                 TimestampTokenVerify S ch p TSToken Cert EncDigest SigningTime))
     | _ \<Rightarrow> Inr (False, SigningTime, p))"

section \<open>What is accepted\<close>

text \<open>
  What is relied on: a digest has the size that \<^verbatim>\<open>EVP_MD_size\<close> says.
\<close>

definition digest_len :: "('x, 'md) ts_ossl \<Rightarrow> bool" where
  "digest_len S \<longleftrightarrow> (\<forall>md x d. ts_digest S md x = Some d \<longrightarrow> length d = ts_MD_size S md)"

text \<open>The specification: version, policy and an imprint that is not a wrong digest of the right length.\<close>

definition tst_accepts :: "('x, 'md) ts_ossl \<Rightarrow> TS_TST_INFO \<Rightarrow> byte list \<Rightarrow> bool" where
  "tst_accepts S I data \<longleftrightarrow> tst_Version I = 1 \<and> tst_Policy I \<noteq> None \<and> ts_algor_dup_ok S \<and> ts_MD_CTX_new_ok S
     \<and> (\<exists>md d. Option.bind (tst_HashAlgorithm I) (ts_digestbyobj S) = Some md \<and> ts_digest S md data = Some d
         \<and> (length (tst_HashedMessage I) \<noteq> ts_MD_size S md \<or> tst_HashedMessage I = d))"

lemma check_imprint_spec:
  assumes "digest_len S"
  shows "check_imprint S I data md = Inr (ts_MD_CTX_new_ok S \<and> (\<exists>d. ts_digest S md data = Some d
    \<and> (length (tst_HashedMessage I) \<noteq> ts_MD_size S md \<or> tst_HashedMessage I = d)))"
proof (cases "ts_digest S md data")
  case None
  then show ?thesis by (simp add: check_imprint_def)
next
  case (Some d)
  then have d: "length d = ts_MD_size S md" using assms by (auto simp: digest_len_def)
  have "copy_at 0 d (replicate (ts_MD_size S md) 0) = d" by (simp add: copy_at_def d)
  then show ?thesis using Some d by (auto simp: check_imprint_def Let_def)
qed

lemma CheckTSTInfo_spec:
  assumes "digest_len S" and "pool_inv p"
  shows "\<exists>b p'. CheckTSTInfo S p I data = Inr (b, p') \<and> pool_inv p' \<and> pool_live p' = pool_live p
    \<and> (b \<longrightarrow> tst_accepts S I data)
    \<and> ((\<forall>k n. pool_ok p k n) \<longrightarrow> b = tst_accepts S I data) \<and> pool_ok p' = pool_ok p"
proof (cases "tst_Version I = 1 \<and> tst_Policy I \<noteq> None \<and> ts_algor_dup_ok S")
  case False
  then show ?thesis using assms by (auto simp: CheckTSTInfo_def tst_accepts_def)
next
  case True
  show ?thesis
  proof (cases "Option.bind (tst_HashAlgorithm I) (ts_digestbyobj S)")
    case None
    then show ?thesis using True assms by (auto simp: CheckTSTInfo_def tst_accepts_def)
  next
    case (Some md)
    obtain a p1 where a: "AllocatePool p (ts_MD_size S md) = (a, p1)" by fastforce
    show ?thesis
    proof (cases a)
      case None
      then have "\<not> (\<forall>k n. pool_ok p k n)" using a by (auto simp: AllocatePool_def split: if_splits)
      then show ?thesis using True Some a None AllocatePool_None [of p _ p1] assms(2)
        by (auto simp: CheckTSTInfo_def)
    next
      case (Some b)
      note p1 = AllocatePool_Some [OF a [unfolded Some] assms(2)]
      obtain p2 where p2: "FreePool p1 (Some b) = Inr p2" "pool_inv p2"
        "pool_live p2 = pool_live p1 - {b}" "pool_ok p2 = pool_ok p1"
        using FreePool_live [of b p1] p1 by auto
      show ?thesis
        using True \<open>Option.bind _ _ = Some md\<close> a Some p1 p2
        by (auto simp: CheckTSTInfo_def tst_accepts_def check_imprint_spec [OF assms(1)])
    qed
  qed
qed

end
