(* ===== verification/Der.thy ===== *)
theory Der
  imports Authenticode
begin

text \<open>
  DER as the encoders and decoders of the development share it: an element with its length in the
  shortest form, where it is in a message, and what is relied on of \<^verbatim>\<open>mbedtls_asn1_get_tag\<close>, which
  is not part of the repository. \<open>der_tag\<close> in \<open>TimeStampProps\<close> is a reader that does so.
\<close>

section \<open>Elements\<close>

text \<open>An element with its length in the shortest form, below 64 KiB.\<close>

definition der_len :: "nat \<Rightarrow> byte list" where
  "der_len n = (if n < 128 then [of_nat n] else if n < 256 then [0x81, of_nat n]
                else [0x82, of_nat (n div 256), of_nat (n mod 256)])"

definition tlv :: "byte \<Rightarrow> byte list \<Rightarrow> byte list" where
  "tlv t x = t # der_len (length x) @ x"

definition hdr :: "byte list \<Rightarrow> int" where
  "hdr x = 1 + int (length (der_len (length x)))"

text \<open>The bytes at an offset of the message.\<close>

definition here :: "byte list \<Rightarrow> int \<Rightarrow> byte list \<Rightarrow> bool" where
  "here m p x \<longleftrightarrow> bytes m p (int (length x)) = Inr x"

lemma length_tlv [simp]: "int (length (tlv t x)) = hdr x + int (length x)"
  by (simp add: tlv_def hdr_def)

lemma hdr_pos: "2 \<le> hdr x"
  by (simp add: hdr_def der_len_def)

lemma here_iff:
  "here m p x \<longleftrightarrow> 0 \<le> p \<and> p + int (length x) \<le> int (length m) \<and> seg (nat p) (length x) m = x"
  by (auto simp: here_def bytes_def)

lemma seg_appended:
  "a + length x + length y \<le> length m \<Longrightarrow>
    seg a (length x + length y) m = x @ y \<longleftrightarrow> seg a (length x) m = x \<and> seg (a + length x) (length y) m = y"
  by (auto simp: seg_def take_add add.commute [of a] append_eq_append_conv)

lemma here_append: "here m p (x @ y) \<longleftrightarrow> here m p x \<and> here m (p + int (length x)) y"
proof -
  have "seg (nat p) (length x + length y) m = x @ y
      \<longleftrightarrow> seg (nat p) (length x) m = x \<and> seg (nat (p + int (length x))) (length y) m = y"
    if "0 \<le> p" "p + int (length x) + int (length y) \<le> int (length m)"
  proof -
    have "nat (p + int (length x)) = nat p + length x" using that(1) by (simp add: nat_add_distrib)
    then show ?thesis using that by (simp add: seg_appended)
  qed
  then show ?thesis by (auto simp: here_iff add.assoc)
qed

lemma here_tlv: "here m p (tlv t x) \<Longrightarrow> here m (p + hdr x) x"
  using here_append [of m p "t # der_len (length x)" x] by (simp add: tlv_def hdr_def)

lemma here_self: "here m 0 m"
  by (simp add: here_iff seg_def)

text \<open>
  \<open>e\<close> is the end that the function gets. Nothing is asked about other input.
\<close>

definition der_reads :: "'pk mbedtls \<Rightarrow> bool" where
  "der_reads L \<longleftrightarrow> (\<forall>m p e n s t x. here m p (tlv s x) \<longrightarrow> p + int (length (tlv s x)) \<le> e
      \<longrightarrow> e \<le> int (length m) \<longrightarrow> length m < 65536 \<longrightarrow>
     (if s = t then mbedtls_asn1_get_tag L m p e n t = (0, p + hdr x, int (length x))
      else fst (mbedtls_asn1_get_tag L m p e n t) \<noteq> 0))"

lemma der_readsD:
  assumes "der_reads L" and "here m p (tlv s x)" and "p + (hdr x + int (length x)) \<le> e"
    and "e \<le> int (length m)" and "length m < 65536"
  shows "s = t \<Longrightarrow> mbedtls_asn1_get_tag L m p e n t = (0, p + hdr x, int (length x))"
    and "s \<noteq> t \<Longrightarrow> fst (mbedtls_asn1_get_tag L m p e n t) \<noteq> 0"
proof -
  from assms(1) have "here m p (tlv s x) \<longrightarrow> p + int (length (tlv s x)) \<le> e
      \<longrightarrow> e \<le> int (length m) \<longrightarrow> length m < 65536 \<longrightarrow>
     (if s = t then mbedtls_asn1_get_tag L m p e n t = (0, p + hdr x, int (length x))
      else fst (mbedtls_asn1_get_tag L m p e n t) \<noteq> 0)"
    unfolding der_reads_def by blast
  with assms(2-) show "s = t \<Longrightarrow> mbedtls_asn1_get_tag L m p e n t = (0, p + hdr x, int (length x))"
    and "s \<noteq> t \<Longrightarrow> fst (mbedtls_asn1_get_tag L m p e n t) \<noteq> 0" by simp_all
qed

lemma expect_tlv:
  assumes "der_reads L" and "here m p (tlv t x)" and "p + (hdr x + int (length x)) \<le> e"
    and "e \<le> int (length m)" and "length m < 65536"
  shows "expect_tag L m p e n t = Some (p + hdr x, int (length x))"
  using der_readsD(1) [OF assms refl] by (simp add: expect_tag_def)

text \<open>An optional element, and the pointer behind it.\<close>

definition opt_tlv :: "byte \<Rightarrow> byte list option \<Rightarrow> byte list" where
  "opt_tlv t x = (case x of None \<Rightarrow> [] | Some x \<Rightarrow> tlv t x)"

lemma here_nth: "here m p x \<Longrightarrow> i < length x \<Longrightarrow> m ! nat (p + int i) = x ! i"
proof -
  assume "here m p x" "i < length x"
  then have p: "0 \<le> p" "p + int (length x) \<le> int (length m)" "seg (nat p) (length x) m = x"
    by (simp_all add: here_iff)
  have "nat p + length x \<le> length m" using p by linarith
  then have "seg (nat p) (length x) m ! i = m ! (nat p + i)" using \<open>i < length x\<close> by (rule nth_seg)
  then show ?thesis using p by (simp add: nat_add_distrib)
qed


lemma here_byte:
  assumes "here m p x" and "i < length x"
  shows "byte_of m (p + int i) = Inr (x ! i)"
proof -
  have p: "0 \<le> p" "p + int (length x) \<le> int (length m)" "seg (nat p) (length x) m = x"
    using assms(1) by (simp_all add: here_iff)
  have "m ! (nat p + i) = x ! i" using nth_seg [of "nat p" "length x" m i] p assms(2) by simp
  then have "seg (nat (p + int i)) 1 m = [x ! i]"
    using p assms(2) by (simp add: seg_def nat_add_distrib take_Suc_conv_app_nth)
  then show ?thesis using p assms(2) by (simp add: byte_of_def bytes_def)
qed

section \<open>Windows\<close>

text \<open>\<open>win m e p x\<close>: the bytes are at the offset, in front of the end.\<close>

definition win :: "byte list \<Rightarrow> int \<Rightarrow> int \<Rightarrow> byte list \<Rightarrow> bool" where
  "win m e p x \<longleftrightarrow> here m p x \<and> p + int (length x) \<le> e"

lemma win_append: "win m e p (x @ y) \<longleftrightarrow> win m e p x \<and> win m e (p + int (length x)) y"
  by (auto simp: win_def here_append)

text \<open>
  The same for one element. The lengths of the nested parts stay folded, so that a position is a
  short sum.
\<close>

definition elem :: "byte list \<Rightarrow> int \<Rightarrow> int \<Rightarrow> byte \<Rightarrow> byte list \<Rightarrow> bool" where
  "elem m e p t x \<longleftrightarrow> win m e p (tlv t x)"

lemma win_tlv: "win m e p (tlv t x) \<longleftrightarrow> elem m e p t x \<and> win m e (p + hdr x) x"
  by (auto simp: win_def elem_def dest: here_tlv)

lemma win_tlv_append:
  "win m e p (tlv t x @ y) \<longleftrightarrow>
     elem m e p t x \<and> win m e (p + hdr x) x \<and> win m e (p + hdr x + int (length x)) y"
  by (simp add: win_append win_tlv add.assoc)

lemma win_opt_append:
  "win m e p (opt_tlv t a @ y) \<longleftrightarrow> win m e p (opt_tlv t a) \<and> win m e (p + int (length (opt_tlv t a))) y"
  by (rule win_append)

lemma win_narrow: "elem m e p t x \<Longrightarrow> win m (p + hdr x + int (length x)) (p + hdr x) x"
  by (auto simp: elem_def win_def dest: here_tlv)

lemma elem_end: "elem m e p t x \<Longrightarrow> e \<le> n \<Longrightarrow> p + hdr x + int (length x) \<le> n"
  by (simp add: win_def elem_def)

lemma expect_elem:
  assumes "der_reads L" and "e \<le> int (length m)" and "length m < 65536" and "elem m e p t x"
  shows "expect_tag L m p e n t = Some (p + hdr x, int (length x))"
  using assms expect_tlv [of L m p t x e n] by (simp add: win_def elem_def)

end
