(* ===== verification/TimeStampProps.thy ===== *)
theory TimeStampProps
  imports TimeStamp Der
begin

text \<open>
  What \<^verbatim>\<open>ImageTimestampVerify\<close> over MbedTLS accepts. \<open>ts_message\<close> is a message of the right shape
  around arbitrary contents, and \<open>der_reads\<close> is what is relied on: that
  \<^verbatim>\<open>mbedtls_asn1_get_tag\<close> reads DER.
\<close>

section \<open>Messages\<close>

text \<open>
  The contents of the elements that the walk steps over; \<open>lv_crls\<close> and \<open>lv_attributes\<close> may be
  missing. \<open>lv_time\<close> is the content of the time, and the fields that end in \<open>_rest\<close> are whatever
  follows in the same element.
\<close>

record ts_leaves =
  lv_type :: "byte list"
  lv_version :: "byte list"
  lv_digests :: "byte list"
  lv_content :: "byte list"
  lv_certs :: "byte list"
  lv_crls :: "byte list option"
  lv_signer_version :: "byte list"
  lv_sid :: "byte list"
  lv_digest_alg :: "byte list"
  lv_attributes :: "byte list option"
  lv_signature_alg :: "byte list"
  lv_signature :: "byte list"
  lv_attr_rest :: "byte list"
  lv_token_type :: "byte list"
  lv_token_version :: "byte list"
  lv_token_digests :: "byte list"
  lv_tst_type :: "byte list"
  lv_token_rest :: "byte list"
  lv_tst_version :: "byte list"
  lv_policy :: "byte list"
  lv_imprint :: "byte list"
  lv_serial :: "byte list"
  lv_time :: "byte list"
  lv_tst_rest :: "byte list"

definition tst_info :: "ts_leaves \<Rightarrow> byte list" where
  "tst_info v = tlv MBEDTLS_ASN1_INTEGER (lv_tst_version v) @ tlv MBEDTLS_ASN1_OID (lv_policy v)
     @ tlv ASN1_SEQUENCE (lv_imprint v) @ tlv MBEDTLS_ASN1_INTEGER (lv_serial v)
     @ tlv MBEDTLS_ASN1_GENERALIZED_TIME (lv_time v) @ lv_tst_rest v"

definition tst_content :: "ts_leaves \<Rightarrow> byte list" where
  "tst_content v = tlv MBEDTLS_ASN1_OID (lv_tst_type v)
     @ tlv ASN1_CONTEXT (tlv MBEDTLS_ASN1_OCTET_STRING (tlv ASN1_SEQUENCE (tst_info v)))"

definition ts_token :: "ts_leaves \<Rightarrow> byte list" where
  "ts_token v = tlv ASN1_SEQUENCE (tlv MBEDTLS_ASN1_OID (lv_token_type v)
     @ tlv ASN1_CONTEXT (tlv ASN1_SEQUENCE (tlv MBEDTLS_ASN1_INTEGER (lv_token_version v)
         @ tlv ASN1_SET (lv_token_digests v) @ tlv ASN1_SEQUENCE (tst_content v) @ lv_token_rest v)))"

definition ts_signer :: "ts_leaves \<Rightarrow> byte list" where
  "ts_signer v = tlv MBEDTLS_ASN1_INTEGER (lv_signer_version v) @ tlv ASN1_SEQUENCE (lv_sid v)
     @ tlv ASN1_SEQUENCE (lv_digest_alg v) @ opt_tlv ASN1_CONTEXT (lv_attributes v)
     @ tlv ASN1_SEQUENCE (lv_signature_alg v) @ tlv MBEDTLS_ASN1_OCTET_STRING (lv_signature v)
     @ tlv 0xA1 (tlv ASN1_SEQUENCE (tlv MBEDTLS_ASN1_OID mSpcRFC3161OidValue
         @ tlv ASN1_SET (ts_token v)) @ lv_attr_rest v)"

definition ts_signed_data :: "ts_leaves \<Rightarrow> byte list" where
  "ts_signed_data v = tlv MBEDTLS_ASN1_INTEGER (lv_version v) @ tlv ASN1_SET (lv_digests v)
     @ tlv ASN1_SEQUENCE (lv_content v) @ tlv ASN1_CONTEXT (lv_certs v)
     @ opt_tlv ASN1_CONTEXT (lv_crls v) @ tlv ASN1_SET (tlv ASN1_SEQUENCE (ts_signer v))"

definition ts_message :: "ts_leaves \<Rightarrow> byte list" where
  "ts_message v = tlv ASN1_SEQUENCE (tlv MBEDTLS_ASN1_OID (lv_type v)
     @ tlv ASN1_CONTEXT (tlv ASN1_SEQUENCE (ts_signed_data v)))"

section \<open>The walk\<close>

lemma skip_opt:
  assumes L: "der_reads L" and h: "here m p (opt_tlv t a @ tlv s y)"
    and e: "p + int (length (opt_tlv t a)) + (hdr y + int (length y)) \<le> e" "e \<le> int (length m)"
    and m: "length m < 65536" and st: "s \<noteq> t"
  shows "fst (skip_optional L m p e n t) = p + int (length (opt_tlv t a))"
proof (cases a)
  case None
  then have "fst (mbedtls_asn1_get_tag L m p e n t) \<noteq> 0"
    using der_readsD(2) [OF L _ _ e(2) m st, of p y n] h e(1) by (simp add: opt_tlv_def)
  then show ?thesis using None by (auto simp: skip_optional_def opt_tlv_def split: prod.splits)
next
  case (Some x)
  then have "mbedtls_asn1_get_tag L m p e n t = (0, p + hdr x, int (length x))"
    using der_readsD(1) [OF L _ _ e(2) m refl, of p t x n] h e(1) hdr_pos [of y]
    by (simp add: opt_tlv_def here_append)
  then show ?thesis using Some by (simp add: skip_optional_def opt_tlv_def)
qed


lemma skip_elem:
  assumes "der_reads L" and "e \<le> int (length m)" and "length m < 65536"
    and "win m e p (opt_tlv t a)" and "elem m e (p + int (length (opt_tlv t a))) s y" and "s \<noteq> t"
  shows "\<exists>n'. skip_optional L m p e n t = (p + int (length (opt_tlv t a)), n')"
  using assms skip_opt [of L m p t a s y e n]
  by (cases "skip_optional L m p e n t") (simp add: win_def elem_def here_append)

lemma win_tst_info:
  "win m e p (tst_info v) \<longleftrightarrow> win m e p (tlv MBEDTLS_ASN1_INTEGER (lv_tst_version v)
     @ tlv MBEDTLS_ASN1_OID (lv_policy v) @ tlv ASN1_SEQUENCE (lv_imprint v)
     @ tlv MBEDTLS_ASN1_INTEGER (lv_serial v)
     @ tlv MBEDTLS_ASN1_GENERALIZED_TIME (lv_time v) @ lv_tst_rest v)"
  by (simp add: tst_info_def)

lemma win_tst_content:
  "win m e p (tst_content v) \<longleftrightarrow> win m e p (tlv MBEDTLS_ASN1_OID (lv_tst_type v)
     @ tlv ASN1_CONTEXT (tlv MBEDTLS_ASN1_OCTET_STRING (tlv ASN1_SEQUENCE (tst_info v))))"
  by (simp add: tst_content_def)

lemma win_ts_token:
  "win m e p (ts_token v) \<longleftrightarrow> win m e p (tlv ASN1_SEQUENCE (tlv MBEDTLS_ASN1_OID (lv_token_type v)
     @ tlv ASN1_CONTEXT (tlv ASN1_SEQUENCE (tlv MBEDTLS_ASN1_INTEGER (lv_token_version v)
         @ tlv ASN1_SET (lv_token_digests v) @ tlv ASN1_SEQUENCE (tst_content v) @ lv_token_rest v))))"
  by (simp add: ts_token_def)

lemma find_time_walk:
  assumes L: "der_reads L" and m: "e \<le> int (length m)" "length m < 65536"
    and h: "win m e p (tlv ASN1_SET (ts_token v))"
  shows "\<exists>q. find_time L m p e n = Some (q, int (length (lv_time v)))
    \<and> win m e q (lv_time v) \<and> win m e (q + int (length (lv_time v))) (lv_tst_rest v)"
  unfolding find_time_def
  using h [unfolded win_tlv win_tlv_append win_tst_info win_tst_content win_ts_token]
  by (elim conjE) (simp add: expect_elem [OF L m])


lemma win_ts_signer:
  "win m e p (ts_signer v) \<longleftrightarrow> win m e p (tlv MBEDTLS_ASN1_INTEGER (lv_signer_version v)
     @ tlv ASN1_SEQUENCE (lv_sid v) @ tlv ASN1_SEQUENCE (lv_digest_alg v)
     @ opt_tlv ASN1_CONTEXT (lv_attributes v)
     @ tlv ASN1_SEQUENCE (lv_signature_alg v) @ tlv MBEDTLS_ASN1_OCTET_STRING (lv_signature v)
     @ tlv 0xA1 (tlv ASN1_SEQUENCE (tlv MBEDTLS_ASN1_OID mSpcRFC3161OidValue
         @ tlv ASN1_SET (ts_token v)) @ lv_attr_rest v))"
  by (simp add: ts_signer_def)

lemma find_attribute_walk:
  assumes L: "der_reads L" and m: "e \<le> int (length m)" "length m < 65536"
    and h: "win m e p (ts_signer v)"
  shows "\<exists>q. find_attribute L m p e n = Some (q, int (length mSpcRFC3161OidValue))
    \<and> win m e q mSpcRFC3161OidValue
    \<and> win m e (q + int (length mSpcRFC3161OidValue)) (tlv ASN1_SET (ts_token v))"
proof -
  note w = h [unfolded win_ts_signer win_tlv_append win_opt_append]
  let ?q = "p + hdr (lv_signer_version v) + int (length (lv_signer_version v)) + hdr (lv_sid v)
    + int (length (lv_sid v)) + hdr (lv_digest_alg v) + int (length (lv_digest_alg v))"
  have "\<exists>n'. skip_optional L m ?q e k ASN1_CONTEXT
      = (?q + int (length (opt_tlv ASN1_CONTEXT (lv_attributes v))), n')" for k
    using w by (intro skip_elem [OF L m]) (auto simp: asn1_tags)
  then obtain n' where "skip_optional L m ?q e (int (length (lv_digest_alg v))) ASN1_CONTEXT
      = (?q + int (length (opt_tlv ASN1_CONTEXT (lv_attributes v))), n')" by blast
  with w show ?thesis unfolding find_attribute_def win_tlv win_tlv_append
    by (elim conjE) (simp add: expect_elem [OF L m])
qed

lemma win_ts_signed_data:
  "win m e p (ts_signed_data v) \<longleftrightarrow> win m e p (tlv MBEDTLS_ASN1_INTEGER (lv_version v)
     @ tlv ASN1_SET (lv_digests v) @ tlv ASN1_SEQUENCE (lv_content v) @ tlv ASN1_CONTEXT (lv_certs v)
     @ opt_tlv ASN1_CONTEXT (lv_crls v) @ tlv ASN1_SET (tlv ASN1_SEQUENCE (ts_signer v)))"
  by (simp add: ts_signed_data_def)

text \<open>The part of the walk behind the header of the message, whose contents are \<open>d\<close>.\<close>

lemma ts_find_signer_walk:
  assumes L: "der_reads L" and m: "length (ts_message v) < 65536"
  shows "\<exists>q n e. ts_find_signer L (ts_message v) (int (length (ts_message v))) = Some (q, n, e)
    \<and> e \<le> int (length (ts_message v)) \<and> win (ts_message v) e q (ts_signer v)"
proof -
  define m where "m = ts_message v"
  define d where "d = tlv ASN1_SEQUENCE (ts_signed_data v)"
  define l where "l = int (length m)"
  have "win m l 0 m" by (simp add: win_def here_self l_def)
  then have "win m l 0 (tlv ASN1_SEQUENCE (tlv MBEDTLS_ASN1_OID (lv_type v) @ tlv ASN1_CONTEXT d))"
    by (simp add: m_def ts_message_def d_def)
  note w = this [unfolded win_tlv_append win_tlv]
  define x where "x = tlv MBEDTLS_ASN1_OID (lv_type v) @ tlv ASN1_CONTEXT d"
  define hx where "hx = hdr x"
  define c where "c = hx + hdr (lv_type v) + int (length (lv_type v))"
  have e: "elem m l c ASN1_CONTEXT d" using w by (simp add: c_def hx_def x_def)
  define b where "b = c + hdr d + int (length d)"
  have b: "b \<le> int (length m)" using elem_end [OF e, of l] by (simp add: b_def l_def)
  define q where "q = c + hdr d"
  have "win m b q d" using win_narrow [OF e] by (simp add: b_def q_def)
  note i = this [unfolded d_def win_tlv win_ts_signed_data win_tlv_append win_opt_append]
  let ?s = "q + hdr (ts_signed_data v) + hdr (lv_version v) + int (length (lv_version v))
    + hdr (lv_digests v) + int (length (lv_digests v)) + hdr (lv_content v) + int (length (lv_content v))
    + hdr (lv_certs v) + int (length (lv_certs v))"
  let ?t = "?s + int (length (opt_tlv ASN1_CONTEXT (lv_crls v)))"
  have mm: "length m < 65536" using m by (simp add: m_def)
  note step = expect_elem [OF L _ mm]
  have "\<exists>n'. skip_optional L m ?s b k ASN1_CONTEXT = (?t, n')" for k
    using i by (intro skip_elem [OF L b mm]) (auto simp: asn1_tags)
  then obtain n' where skip: "skip_optional L m ?s b (int (length (lv_certs v))) ASN1_CONTEXT = (?t, n')"
    by blast
  have head: "expect_tag L m 0 l 0 ASN1_SEQUENCE = Some (hx, int (length x))"
    "expect_tag L m hx l (int (length x)) MBEDTLS_ASN1_OID = Some (hx + hdr (lv_type v), int (length (lv_type v)))"
    "expect_tag L m (hx + hdr (lv_type v) + int (length (lv_type v))) l (int (length (lv_type v))) ASN1_CONTEXT
      = Some (q, int (length d))"
    using w by (auto simp: step l_def q_def c_def x_def hx_def)
  have q: "q + int (length d) = b" by (simp add: q_def b_def)
  have s: "elem m b (?t + hdr (tlv ASN1_SEQUENCE (ts_signer v))) ASN1_SEQUENCE (ts_signer v)"
    using i by simp
  have "ts_find_signer L m l = Some (?t + hdr (tlv ASN1_SEQUENCE (ts_signer v)) + hdr (ts_signer v),
      int (length (ts_signer v)),
      ?t + hdr (tlv ASN1_SEQUENCE (ts_signer v)) + hdr (ts_signer v) + int (length (ts_signer v)))"
    using i skip unfolding ts_find_signer_def head Option.bind.simps prod.case Let_def q
    by (elim conjE) (simp add: step [OF b])
  then show ?thesis using win_narrow [OF s] elem_end [OF s b] unfolding m_def l_def by blast
qed


section \<open>The time\<close>

text \<open>The times that the conversion lets pass, and what it makes of them.\<close>

definition efi_fields :: "mbedtls_x509_time \<Rightarrow> bool" where
  "efi_fields t \<longleftrightarrow> 1900 \<le> year t \<and> year t \<le> 9999 \<and> 1 \<le> mon t \<and> mon t \<le> 12 \<and> 1 \<le> day t \<and> day t \<le> 31
     \<and> 0 \<le> hour t \<and> hour t \<le> 23 \<and> 0 \<le> minute t \<and> minute t \<le> 59 \<and> 0 \<le> sec t \<and> sec t \<le> 59"

definition efi_time_of :: "mbedtls_x509_time \<Rightarrow> EFI_TIME" where
  "efi_time_of t = zero_efi_time\<lparr>et_Year := of_int (year t), et_Month := of_int (mon t),
     et_Day := of_int (day t), et_Hour := of_int (hour t), et_Minute := of_int (minute t),
     et_Second := of_int (sec t)\<rparr>"

lemma two_at_here:
  assumes "char_conv ch" and "here m p (two_digits k)" and "0 \<le> k" and "k < 100"
  shows "two_at ch m p = Inr k"
    and "digit_at ch m p = Inr (k div 10)" and "digit_at ch m (p + 1) = Inr (k mod 10)"
proof -
  have d: "ch (digit_of (k div 10)) - 48 = k div 10" "ch (digit_of (k mod 10)) - 48 = k mod 10"
    using assms(3,4) by (simp_all add: digit_of_value [OF assms(1)])
  show 1: "digit_at ch m p = Inr (k div 10)" and 2: "digit_at ch m (p + 1) = Inr (k mod 10)"
    using here_byte [OF assms(2), of 0] here_byte [OF assms(2), of 1]
    by (simp_all add: digit_at_def two_digits_def d)
  show "two_at ch m p = Inr k" by (simp add: two_at_def 1 2)
qed

lemma byte_order:
  assumes "0 \<le> k" and "k < 100" and "0 \<le> j" and "j < 100"
  shows "(of_int k :: byte) < of_int j \<longleftrightarrow> k < j"
  using assms by (simp add: word_less_def uint_word_of_int)

lemma byte_pos:
  assumes "1 \<le> k" and "k < 100"
  shows "(of_int k :: byte) \<noteq> 0"
proof -
  have "uint (of_int k :: byte) = k" using assms by (simp add: uint_word_of_int)
  then show ?thesis using assms(1) by auto
qed

lemma length_two_digits [simp]: "length (two_digits k) = 2"
  by (simp add: two_digits_def)

lemma convert_from_month_text:
  assumes ch: "char_conv ch" and t: "efi_fields t"
    and h: "here m p (two_digits (mon t) @ two_digits (day t) @ two_digits (hour t)
      @ two_digits (minute t) @ two_digits (sec t))"
  shows "convert_from_month ch m p T = Inr (True, T\<lparr>et_Month := of_int (mon t), et_Day := of_int (day t),
      et_Hour := of_int (hour t), et_Minute := of_int (minute t), et_Second := of_int (sec t)\<rparr>)"
proof -
  note w = h [unfolded here_append]
  have r: "two_at ch m p = Inr (mon t)" "two_at ch m (p + 2) = Inr (day t)"
    "two_at ch m (p + 4) = Inr (hour t)" "two_at ch m (p + 6) = Inr (minute t)"
    "two_at ch m (p + 8) = Inr (sec t)"
    using w t by (auto intro!: two_at_here(1) [OF ch] simp: efi_fields_def add.assoc)
  have b: "(of_int (mon t) :: byte) \<noteq> 0" "\<not> 12 < (of_int (mon t) :: byte)"
    "(of_int (day t) :: byte) \<noteq> 0" "\<not> 31 < (of_int (day t) :: byte)" "\<not> 23 < (of_int (hour t) :: byte)"
    "\<not> 59 < (of_int (minute t) :: byte)" "\<not> 59 < (of_int (sec t) :: byte)"
    using t byte_pos [of "mon t"] byte_order [of 12 "mon t"] byte_pos [of "day t"]
      byte_order [of 31 "day t"] byte_order [of 23 "hour t"] byte_order [of 59 "minute t"]
      byte_order [of 59 "sec t"]
    by (auto simp: efi_fields_def)
  show ?thesis by (simp add: convert_from_month_def r b Let_def)
qed

lemma convert_text:
  assumes ch: "char_conv ch" and t: "efi_fields t" and h: "here m p (time_text t)"
  shows "ConvertAsn1TimeToEfiTime ch m (Some p) (Some T) = Inr (True, Some (efi_time_of t))"
proof -
  note w = h [unfolded time_text_def here_append]
  have y: "0 \<le> year t div 100" "year t div 100 < 100" "0 \<le> year t mod 100" "year t mod 100 < 100"
    using t by (auto simp: efi_fields_def)
  have d: "digit_at ch m p = Inr (year t div 100 div 10)" "digit_at ch m (p + 1) = Inr (year t div 100 mod 10)"
    using w y by (auto intro!: two_at_here(2,3) [OF ch])
  have d': "digit_at ch m (p + 2) = Inr (year t mod 100 div 10)"
    "digit_at ch m (p + 3) = Inr (year t mod 100 mod 10)"
    using w y two_at_here(2,3) [OF ch, of m "p + 2" "year t mod 100"] by (auto simp: add.commute)
  have sum: "year t div 100 div 10 * 1000 + year t div 100 mod 10 * 100
    + year t mod 100 div 10 * 10 + year t mod 100 mod 10 = year t" by presburger
  have yr: "(of_int (year t div 100 div 10 * 1000) + of_int (year t div 100 mod 10 * 100)
    + of_int (year t mod 100 div 10 * 10) + of_int (year t mod 100 mod 10) :: UINT16) = of_int (year t)"
    unfolding of_int_add [symmetric] sum ..
  have b: "\<not> (of_int (year t) :: UINT16) < 1900" "\<not> 9999 < (of_int (year t) :: UINT16)"
    using t by (simp_all add: efi_fields_def word_less_def uint_word_of_int)
  have "here m (p + 4) (two_digits (mon t) @ two_digits (day t) @ two_digits (hour t)
      @ two_digits (minute t) @ two_digits (sec t))"
    using w unfolding here_append by (simp add: add.assoc)
  note tail = convert_from_month_text [OF ch t this]
  have "convert_long_year ch m p zero_efi_time = Inr (True, efi_time_of t)"
    unfolding convert_long_year_def d d' bind_res_simps Let_def yr by (simp add: b tail efi_time_of_def)
  then show ?thesis by (simp add: ConvertAsn1TimeToEfiTime_def)
qed


section \<open>What is accepted\<close>

text \<open>C25: The function says that a message carries a valid time stamp of any trusted authority whenever it
  has the right shape: the certificates, the digests and both signatures are never looked at.\<close>

theorem timestamp_never_verified:
  assumes "der_reads L" and "char_conv ch" and "length (ts_message v) < 65536"
    and "efi_fields t" and "lv_time v = time_text t @ zone" and "length Cert \<le> INT_MAX"
  shows "ImageTimestampVerify L ch (Some (ts_message v)) (Some Cert) (Some T)
    = Inr (True, Some (efi_time_of t))"
proof -
  let ?m = "ts_message v"
  have len: "length ?m \<le> INT_MAX" using assms(3) by (simp add: INT_MAX_def)
  obtain q n e where s: "ts_find_signer L ?m (int (length ?m)) = Some (q, n, e)"
    "e \<le> int (length ?m)" "win ?m e q (ts_signer v)"
    using ts_find_signer_walk [OF assms(1,3)] by blast
  obtain a where a: "find_attribute L ?m q e n = Some (a, int (length mSpcRFC3161OidValue))"
    "win ?m e a mSpcRFC3161OidValue"
    "win ?m e (a + int (length mSpcRFC3161OidValue)) (tlv ASN1_SET (ts_token v))"
    using find_attribute_walk [OF assms(1) s(2) assms(3) s(3)] by blast
  have ty: "bytes ?m a 10 = Inr mSpcRFC3161OidValue"
    using a(2) by (simp add: win_def here_def mSpcRFC3161OidValue_def)
  obtain b where b: "find_time L ?m (a + int (length mSpcRFC3161OidValue)) e (int (length mSpcRFC3161OidValue))
      = Some (b, int (length (lv_time v)))" "win ?m e b (lv_time v)"
    using find_time_walk [OF assms(1) s(2) assms(3) a(3)] by blast
  have "here ?m b (time_text t)" using b(2) assms(5) by (simp add: win_def here_append)
  then have "ConvertAsn1TimeToEfiTime ch ?m (Some b) (Some zero_efi_time) = Inr (True, Some (efi_time_of t))"
    by (rule convert_text [OF assms(2,4)])
  then show ?thesis
    using len assms(6) by (simp add: ImageTimestampVerify_def s(1) a(1) ty b(1))
qed

section \<open>A reader and a message\<close>

definition der_tag :: "byte list \<Rightarrow> int \<Rightarrow> int \<Rightarrow> int \<Rightarrow> byte \<Rightarrow> int \<times> int \<times> int" where
  "der_tag m p e n t =
    (if p < 0 \<or> e > int (length m) \<or> p + 2 > e \<or> m ! nat p \<noteq> t then (- 1, p, n)
     else let l = uint (m ! nat (p + 1));
              (h, l) = (if l < 128 then (2, l)
                        else if l = 0x81 then (3, uint (m ! nat (p + 2)))
                        else (4, 256 * uint (m ! nat (p + 2)) + uint (m ! nat (p + 3)))) in
       if p + h + l \<le> e then (0, p + h, l) else (- 1, p, n))"

lemma der_tag_reads: "der_reads (demo\<lparr>mbedtls_asn1_get_tag := der_tag\<rparr>)"
  unfolding der_reads_def
proof (intro allI impI)
  fix m p e n s t x
  assume h: "here m p (tlv s x)" and e: "p + int (length (tlv s x)) \<le> e" "e \<le> int (length m)"
    and m: "length m < 65536"
  have p: "0 \<le> p" using h by (simp add: here_iff)
  have tag: "m ! nat p = s" using here_nth [OF h, of 0] by (simp add: tlv_def)
  have x: "length x < 65536" using e m p hdr_pos [of x] by simp
  have l: "i < length (der_len (length x)) \<Longrightarrow> m ! nat (p + 1 + int i) = der_len (length x) ! i" for i
    using here_nth [OF h, of "Suc i"] by (simp add: tlv_def nth_append algebra_simps)
  have "der_tag m p e n s = (0, p + hdr x, int (length x))"
  proof -
    consider "length x < 128" | "128 \<le> length x" "length x < 256" | "256 \<le> length x" by linarith
    then show ?thesis
    proof cases
      case 1
      then have "uint (m ! nat (p + 1)) = int (length x)" using l [of 0]
        by (simp add: der_len_def unsigned_of_nat take_bit_eq_mod)
      then show ?thesis using p e tag 1 by (simp add: der_tag_def Let_def hdr_def der_len_def)
    next
      case 2
      then have "uint (m ! nat (p + 1)) = 0x81" "uint (m ! nat (p + 2)) = int (length x)"
        using l [of 0] l [of 1] by (simp_all add: der_len_def unsigned_of_nat take_bit_eq_mod add.commute)
      then show ?thesis using p e tag 2 by (simp add: der_tag_def Let_def hdr_def der_len_def)
    next
      case 3
      then have "uint (m ! nat (p + 1)) = 0x82" "uint (m ! nat (p + 2)) = int (length x div 256)"
        "uint (m ! nat (p + 3)) = int (length x mod 256)"
        using l [of 0] l [of 1] l [of 2] x by (simp_all add: der_len_def unsigned_of_nat take_bit_eq_mod less_mult_imp_div_less add.commute)
      moreover have "256 * int (length x div 256) + int (length x mod 256) = int (length x)"
        by (simp add: of_nat_div of_nat_mod)
      ultimately show ?thesis using p e tag 3 by (simp add: der_tag_def Let_def hdr_def der_len_def)
    qed
  qed
  moreover have "s \<noteq> t \<Longrightarrow> fst (der_tag m p e n t) \<noteq> 0" using tag by (simp add: der_tag_def)
  ultimately show "if s = t
      then mbedtls_asn1_get_tag (demo\<lparr>mbedtls_asn1_get_tag := der_tag\<rparr>) m p e n t = (0, p + hdr x, int (length x))
      else fst (mbedtls_asn1_get_tag (demo\<lparr>mbedtls_asn1_get_tag := der_tag\<rparr>) m p e n t) \<noteq> 0"
    by auto
qed

text \<open>Nothing but tags and a time.\<close>

definition forged_time :: mbedtls_x509_time where
  "forged_time = \<lparr>year = 2031, mon = 12, day = 31, hour = 23, minute = 59, sec = 58\<rparr>"

definition forged :: ts_leaves where
  "forged = \<lparr>lv_type = [], lv_version = [], lv_digests = [], lv_content = [], lv_certs = [],
     lv_crls = None, lv_signer_version = [], lv_sid = [], lv_digest_alg = [], lv_attributes = Some [],
     lv_signature_alg = [], lv_signature = [], lv_attr_rest = [], lv_token_type = [],
     lv_token_version = [], lv_token_digests = [], lv_tst_type = [], lv_token_rest = [],
     lv_tst_version = [], lv_policy = [], lv_imprint = [], lv_serial = [],
     lv_time = time_text forged_time, lv_tst_rest = []\<rparr>"

lemma length_forged: "length (ts_message forged) = 96"
  by code_simp

theorem timestamp_never_verified_witness:
  "ImageTimestampVerify (demo\<lparr>mbedtls_asn1_get_tag := der_tag\<rparr>) sint (Some (ts_message forged)) (Some [])
     (Some zero_efi_time) = Inr (True, Some (efi_time_of forged_time))
   \<and> et_Year (efi_time_of forged_time) = 2031"
proof -
  have "efi_fields forged_time" "lv_time forged = time_text forged_time @ []"
    by (simp_all add: efi_fields_def forged_time_def forged_def)
  then show ?thesis
    using timestamp_never_verified [OF der_tag_reads, of sint forged forged_time "[]" "[]" zero_efi_time]
    by (simp add: length_forged char_conv_def INT_MAX_def) (simp add: efi_time_of_def forged_time_def)
qed

text \<open>
  The time is read without a look at its length: cut off in the seconds, it is read beyond the end
  of the message.
\<close>

definition cut_message :: "byte list" where
  "cut_message = [
    48, 93, 6, 0, 160, 89, 48, 87, 2, 0, 49, 0, 48, 0, 160, 0, 49, 77, 48, 75, 2, 0, 48,
    0, 48, 0, 160, 0, 48, 0, 4, 0, 161, 61, 48, 59, 6, 10, 43, 6, 1, 4, 1, 130, 55, 3, 3,
    1, 49, 45, 48, 43, 6, 0, 160, 39, 48, 37, 2, 0, 49, 0, 48, 31, 6, 0, 160, 27, 4, 25,
    48, 23, 2, 0, 6, 0, 48, 0, 2, 0, 24, 13, 50, 48, 51, 49, 49, 50, 51, 49, 50, 51, 53,
    57, 53]"

lemma cut_message_shape:
  "cut_message = ts_message (forged\<lparr>lv_time := take 13 (time_text forged_time)\<rparr>)"
proof -
  have "map unat (ts_message (forged\<lparr>lv_time := take 13 (time_text forged_time)\<rparr>)) = map unat cut_message"
    by code_simp
  then show ?thesis by (rule map_injective [OF _ injI, symmetric]) (simp add: word_unat_eq_iff)
qed

lemma cut_walk:
  fixes L :: "'pk mbedtls"
  assumes L: "mbedtls_asn1_get_tag L = der_tag"
  shows "ts_find_signer L cut_message 95 = Some (20, 75, 95)"
    and "find_attribute L cut_message 20 95 75 = Some (38, 10)"
    and "find_time L cut_message 48 95 10 = Some (82, 13)"
  unfolding ts_find_signer_def find_attribute_def find_time_def expect_tag_def skip_optional_def L
  by (simp_all add: der_tag_def cut_message_def asn1_tags MBEDTLS_ASN1_GENERALIZED_TIME_def)

lemma timestamp_overread:
  fixes L :: "'pk mbedtls"
  assumes "mbedtls_asn1_get_tag L = der_tag"
  shows "ImageTimestampVerify L sint (Some cut_message) (Some []) (Some T) = Inl OobRead"
proof -
  have l: "length cut_message = 95" by (simp add: cut_message_def)
  have "convert_long_year sint cut_message 82 zero_efi_time = Inl OobRead"
    by (simp add: convert_long_year_def convert_from_month_def digit_at_def two_at_def byte_of_def
      bytes_def seg_def cut_message_def)
  moreover have "bytes cut_message 38 10 = Inr mSpcRFC3161OidValue"
    by (simp add: bytes_def seg_def cut_message_def mSpcRFC3161OidValue_def)
  ultimately show ?thesis
    by (simp add: ImageTimestampVerify_def INT_MAX_def l cut_walk [OF assms] ConvertAsn1TimeToEfiTime_def)
qed

end
