(* ===== verification/TimeStampOsslProps.thy ===== *)
theory TimeStampOsslProps
  imports TimeStampOssl TimeStampProps
begin

text \<open>
  What \<^verbatim>\<open>ImageTimestampVerify\<close> over OpenSSL returns, for every OpenSSL whose digests have their
  size, and what that means for a token whose imprint has the wrong length.
\<close>

text \<open>The information in a token that the authority vouches for.\<close>

definition token_info :: "('x, 'md) ts_ossl \<Rightarrow> byte list \<Rightarrow> byte list \<Rightarrow> TS_TST_INFO option" where
  "token_info S t C =
    (if length t > INT_MAX \<or> length C > INT_MAX \<or> \<not> ts_bio_ok S then None
     else Option.bind (ts_d2i_PKCS7 S t) (\<lambda>P. if \<not> ts_is_signed P then None
     else Option.bind (ts_d2i_X509 S C) (\<lambda>X. if \<not> ts_store_ok S X then None
     else Option.bind (ts_PKCS7_verify S t X) (\<lambda>content.
       ts_d2i_TS_TST_INFO S (take 2048 (content @ replicate 2048 0))
         (if content = [] then - 1 else int (min 2048 (length content)))))))"

text \<open>The status and the time for a token that is accepted or not.\<close>

definition stamp :: "(byte \<Rightarrow> int) \<Rightarrow> TS_TST_INFO \<Rightarrow> bool \<Rightarrow> EFI_TIME option \<Rightarrow> (bool \<times> EFI_TIME option) res" where
  "stamp ch I ok T =
    (if ok \<and> T \<noteq> None then ossl_ConvertAsn1TimeToEfiTime ch (tst_GenTime I) (Some zero_efi_time)
     else Inr (ok, T))"

definition token_result ::
    "('x, 'md) ts_ossl \<Rightarrow> (byte \<Rightarrow> int) \<Rightarrow> byte list \<Rightarrow> byte list \<Rightarrow> byte list \<Rightarrow> EFI_TIME option
     \<Rightarrow> (bool \<times> EFI_TIME option) res" where
  "token_result S ch t C data T =
    (if length t > INT_MAX \<or> length C > INT_MAX \<or> length data > INT_MAX then Inr (False, T)
     else let T = map_option (\<lambda>t. zero_efi_time) T in
       case token_info S t C of
         None \<Rightarrow> Inr (False, T)
       | Some I \<Rightarrow> stamp ch I (tst_accepts S I data) T)"

text \<open>A result, together with the pool as it is then, in which the same blocks are allocated.\<close>

definition keeps_pool :: "pool \<Rightarrow> (bool \<times> EFI_TIME option) res \<Rightarrow> (bool \<times> EFI_TIME option \<times> pool) res \<Rightarrow> bool" where
  "keeps_pool p r r' \<longleftrightarrow> (\<exists>p'. pool_inv p' \<and> pool_live p' = pool_live p
     \<and> r' = bind_res r (\<lambda>(s, T). Inr (s, T, p')))"

lemma keeps_pool_same: "pool_inv p \<Longrightarrow> keeps_pool p (Inr (s, T)) (Inr (s, T, p))"
  by (auto simp: keeps_pool_def)

lemma read_content_spec:
  assumes "digest_len S" and "pool_inv p" and "\<forall>k n. pool_ok p k n"
    and "ts_d2i_TS_TST_INFO S (take 2048 (content @ replicate 2048 0))
         (if content = [] then - 1 else int (min 2048 (length content))) = Some I"
  shows "keeps_pool p (stamp ch I (tst_accepts S I data) T) (read_content S ch p content data T)"
proof -
  obtain p' where "CheckTSTInfo S p I data = Inr (tst_accepts S I data, p')" "pool_inv p'"
    "pool_live p' = pool_live p"
    using CheckTSTInfo_spec [OF assms(1,2), of I data] assms(3) by auto
  then show ?thesis unfolding keeps_pool_def stamp_def read_content_def Let_def assms(4) option.case
    by (intro exI [of _ p']) (auto simp: bind_res_def split: sum.splits)
qed

lemma TimestampTokenVerify_spec:
  assumes "digest_len S" and "pool_inv p" and "\<forall>k n. pool_ok p k n"
  shows "keeps_pool p (token_result S ch t C data T) (TimestampTokenVerify S ch p t C data T)"
proof (cases "length t > INT_MAX \<or> length C > INT_MAX \<or> length data > INT_MAX")
  case True
  then show ?thesis using assms(2) by (simp add: token_result_def TimestampTokenVerify_def keeps_pool_same)
next
  case False
  let ?T = "map_option (\<lambda>t. zero_efi_time) T"
  show ?thesis
  proof (cases "\<exists>P X content. ts_d2i_PKCS7 S t = Some P \<and> ts_is_signed P \<and> ts_d2i_X509 S C = Some X
      \<and> ts_store_ok S X \<and> ts_bio_ok S \<and> ts_PKCS7_verify S t X = Some content")
    case no: False
    then have "token_info S t C = None"
      by (auto simp: token_info_def Option.bind_eq_None_conv)
    moreover have "TimestampTokenVerify S ch p t C data T = Inr (False, ?T, p)"
      using no False by (auto simp: TimestampTokenVerify_def Let_def split: option.splits)
    ultimately show ?thesis
      using False assms(2) by (simp add: token_result_def keeps_pool_same)
  next
    case True
    then obtain P X content where v: "ts_d2i_PKCS7 S t = Some P" "ts_is_signed P"
      "ts_d2i_X509 S C = Some X" "ts_store_ok S X" "ts_bio_ok S" "ts_PKCS7_verify S t X = Some content"
      by blast
    obtain b p1 where a: "AllocatePool p 2048 = (Some b, p1)"
      using assms(3) by (simp add: AllocatePool_def)
    note p1 = AllocatePool_Some [OF a assms(2)]
    have tv: "TimestampTokenVerify S ch p t C data T
        = bind_res (read_content S ch p1 content data ?T) (\<lambda>(s, T, p).
            bind_res (FreePool p (Some b)) (\<lambda>p. Inr (s, T, p)))"
      using False v a by (simp add: TimestampTokenVerify_def Let_def)
    have i: "token_info S t C = ts_d2i_TS_TST_INFO S (take 2048 (content @ replicate 2048 0))
         (if content = [] then - 1 else int (min 2048 (length content)))"
      using False v by (simp add: token_info_def)
    have tr: "token_result S ch t C data T = (case token_info S t C of None \<Rightarrow> Inr (False, ?T)
         | Some I \<Rightarrow> stamp ch I (tst_accepts S I data) ?T)"
      using False by (simp add: token_result_def Let_def)
    have "keeps_pool p1 (token_result S ch t C data T) (read_content S ch p1 content data ?T)"
    proof (cases "token_info S t C")
      case None
      then have "read_content S ch p1 content data ?T = Inr (False, ?T, p1)"
        unfolding i by (simp add: read_content_def Let_def)
      then show ?thesis using None p1(1) by (simp add: tr keeps_pool_same)
    next
      case (Some I)
      then show ?thesis unfolding i
        using read_content_spec [OF assms(1) p1(1), of content I ch data ?T] p1(4) assms(3)
        by (simp add: tr i)
    qed
    then obtain p2 where p2: "pool_inv p2" "pool_live p2 = pool_live p1"
      "read_content S ch p1 content data ?T = bind_res (token_result S ch t C data T) (\<lambda>(s, T). Inr (s, T, p2))"
      by (auto simp: keeps_pool_def)
    obtain p3 where "FreePool p2 (Some b) = Inr p3" "pool_inv p3" "pool_live p3 = pool_live p2 - {b}"
      using FreePool_live [of b p2] p1(3) p2 by auto
    then show ?thesis using p1 p2 unfolding keeps_pool_def tv
      by (intro exI [of _ p3]) (auto simp: bind_res_def split: sum.splits prod.splits)
  qed
qed

text \<open>C26: With memory available and the digests registered, exactly the counter signatures are accepted
  whose token is signed by the trusted authority and fits the signature by \<open>tst_accepts\<close>, and, when
  the caller asks for the time with \<^verbatim>\<open>SigningTime\<close>, whose time can be converted as well (\<open>stamp\<close>);
  nothing stays allocated.\<close>

theorem ossl_timestamp_exact:
  assumes "digest_len S" and "pool_inv p" and "\<forall>k n. pool_ok p k n" and "ts_add_digests_ok S"
    and "ts_d2i_PKCS7 S m = Some P" and "locate_token P = Inr (Some (t, d))"
    and "length m \<le> INT_MAX" and "length C \<le> INT_MAX"
  shows "keeps_pool p (token_result S ch t C d T) (ossl_ImageTimestampVerify S ch p (Some m) (Some C) T)"
  using TimestampTokenVerify_spec [OF assms(1-3), of ch t C d T] assms(4-8)
  by (simp add: ossl_ImageTimestampVerify_def)


lemma tst_accepts_any:
  assumes "tst_accepts S I d"
    and "\<forall>md. Option.bind (tst_HashAlgorithm I) (ts_digestbyobj S) = Some md \<longrightarrow>
      length (tst_HashedMessage I) \<noteq> ts_MD_size S md \<and> ts_digest S md d' \<noteq> None"
  shows "tst_accepts S I d'"
  using assms by (auto simp: tst_accepts_def)

lemma token_result_any:
  assumes "token_result S ch t C d T = Inr (True, T')" and "token_info S t C = Some I"
    and "\<forall>md. Option.bind (tst_HashAlgorithm I) (ts_digestbyobj S) = Some md \<longrightarrow>
      length (tst_HashedMessage I) \<noteq> ts_MD_size S md \<and> ts_digest S md d' \<noteq> None"
    and "length d' \<le> INT_MAX"
  shows "token_result S ch t C d' T = Inr (True, T')"
proof -
  have "tst_accepts S I d"
    using assms(1,2) by (auto simp: token_result_def Let_def stamp_def split: if_splits)
  then have "tst_accepts S I d'" using assms(3) by (rule tst_accepts_any)
  then show ?thesis using assms(1,2,4) \<open>tst_accepts S I d\<close>
    by (auto simp: token_result_def Let_def split: if_splits)
qed

text \<open>C27: The imprint is compared only when it has the length of the digest. A token whose imprint is of
  another length says nothing about what was stamped: once it has been accepted with one signature,
  the acceptance transfers to every other signature that carries it, with the same time.\<close>

theorem ossl_timestamp_transfers:
  assumes "digest_len S" and "pool_inv p" and "\<forall>k n. pool_ok p k n" and "ts_add_digests_ok S"
    and "ts_d2i_PKCS7 S m = Some P" and "locate_token P = Inr (Some (t, d))" and "length m \<le> INT_MAX"
    and "ts_d2i_PKCS7 S m' = Some P'" and "locate_token P' = Inr (Some (t, d'))" and "length m' \<le> INT_MAX"
    and "length C \<le> INT_MAX" and "length d' \<le> INT_MAX" and "token_info S t C = Some I"
    and "\<forall>md. Option.bind (tst_HashAlgorithm I) (ts_digestbyobj S) = Some md \<longrightarrow>
      length (tst_HashedMessage I) \<noteq> ts_MD_size S md \<and> ts_digest S md d' \<noteq> None"
    and "ossl_ImageTimestampVerify S ch p (Some m) (Some C) T = Inr (True, T', p')"
  shows "\<exists>p''. ossl_ImageTimestampVerify S ch p (Some m') (Some C) T = Inr (True, T', p'')
    \<and> pool_live p'' = pool_live p"
proof -
  have image: "ossl_ImageTimestampVerify S ch p (Some M) (Some C) T = TimestampTokenVerify S ch p t C D T"
    if "ts_d2i_PKCS7 S M = Some Q" "locate_token Q = Inr (Some (t, D))" "length M \<le> INT_MAX" for M Q D
    using that assms(4,11) by (simp add: ossl_ImageTimestampVerify_def)
  note spec = TimestampTokenVerify_spec [OF assms(1-3), unfolded keeps_pool_def, of ch t C _ T]
  have "token_result S ch t C d T = Inr (True, T')"
    using spec [of d] assms(15) unfolding image [OF assms(5-7)]
    by (cases "token_result S ch t C d T") auto
  then have "token_result S ch t C d' T = Inr (True, T')"
    by (rule token_result_any) (use assms(12-14) in auto)
  then show ?thesis using spec [of d'] unfolding image [OF assms(8-10)] by auto
qed

section \<open>An instance\<close>

text \<open>
  The digest is the sum of the bytes, the content of a token is in the token, and the imprint of
  the token \<open>[9, 9]\<close> has two bytes.
\<close>

definition demo_ts_signer :: "byte list \<Rightarrow> byte list \<Rightarrow> ts_pkcs7" where
  "demo_ts_signer d t = \<lparr>ts_is_signed = True, ts_signer_info = Some [Some \<lparr>enc_digest = Some d,
     unauth_attr = Some [None, Some (Some mSpcRFC3161OidValue, Some (ASN1_string t))]\<rparr>]\<rparr>"

definition demo_ts :: "(unit, unit) ts_ossl" where
  "demo_ts = \<lparr>ts_add_digests_ok = True,
     ts_d2i_PKCS7 = (\<lambda>x. Some (demo_ts_signer x (if length x = 1 then [9, 9] else [9, sum_list x]))),
     ts_d2i_X509 = (\<lambda>x. Some ()), ts_store_ok = (\<lambda>c. True), ts_bio_ok = True,
     ts_PKCS7_verify = (\<lambda>t c. Some t),
     ts_d2i_TS_TST_INFO = (\<lambda>b n. Some \<lparr>tst_Version = 1, tst_Policy = Some [], tst_HashAlgorithm = Some [],
        tst_HashedMessage = (if b ! 1 = 9 then [9, 9] else [b ! 1]),
        tst_GenTime = Some (24, time_text forged_time @ [0x5A])\<rparr>),
     ts_algor_dup_ok = True, ts_digestbyobj = (\<lambda>x. Some ()), ts_MD_size = (\<lambda>u. 1),
     ts_MD_CTX_new_ok = True, ts_digest = (\<lambda>u x. Some [sum_list x])\<rparr>"

lemma demo_ts_len: "digest_len demo_ts"
  by (simp add: digest_len_def demo_ts_def)

lemma demo_ts_token:
  "locate_token (demo_ts_signer d t) = Inr (Some (t, d))"
  by (simp add: locate_token_def demo_ts_signer_def)

lemma demo_ts_pool: "pool_inv demo_pool" "\<forall>k n. pool_ok demo_pool k n" "pool_live demo_pool = {}"
  by (simp_all add: demo_pool_def) (simp_all add: empty_pool_def)

lemma demo_ts_time:
  "ossl_ConvertAsn1TimeToEfiTime sint (Some (24, time_text forged_time @ [0x5A])) (Some T)
    = Inr (True, Some (efi_time_of forged_time))"
proof -
  have "here (time_text forged_time @ [0x5A]) 0 (time_text forged_time)"
    by (simp add: here_iff seg_def)
  moreover have "efi_fields forged_time" by (simp add: efi_fields_def forged_time_def)
  moreover have "char_conv sint" by (simp add: char_conv_def)
  ultimately show ?thesis
    using convert_text [of sint forged_time "time_text forged_time @ [0x5A]" 0 T]
    by (simp add: ConvertAsn1TimeToEfiTime_def ossl_ConvertAsn1TimeToEfiTime_def
        V_ASN1_UTCTIME_def V_ASN1_GENERALIZEDTIME_def)
qed

lemma demo_ts_info:
  "token_info demo_ts t [1] = Some \<lparr>tst_Version = 1, tst_Policy = Some [], tst_HashAlgorithm = Some [],
     tst_HashedMessage = (if (t @ replicate 2048 0) ! 1 = 9 then [9, 9] else [(t @ replicate 2048 0) ! 1]),
     tst_GenTime = Some (24, time_text forged_time @ [0x5A])\<rparr>" if "length t = 2"
  using that by (simp add: token_info_def demo_ts_def demo_ts_signer_def INT_MAX_def nth_append)

theorem ossl_timestamp_exact_witness:
  "keeps_pool demo_pool (Inr (True, Some (efi_time_of forged_time)))
     (ossl_ImageTimestampVerify demo_ts sint demo_pool (Some [3, 4]) (Some [1]) (Some zero_efi_time))"
proof -
  have "token_result demo_ts sint [9, 7] [1] [3, 4] (Some zero_efi_time)
      = Inr (True, Some (efi_time_of forged_time))"
    by (simp add: token_result_def demo_ts_info stamp_def demo_ts_time Let_def INT_MAX_def)
      (simp add: tst_accepts_def demo_ts_def)
  then show ?thesis
    using ossl_timestamp_exact [OF demo_ts_len demo_ts_pool(1,2), of "[3, 4]"
        "demo_ts_signer [3, 4] [9, 7]" "[9, 7]" "[3, 4]" "[1]" sint "Some zero_efi_time"]
    by (simp add: demo_ts_token INT_MAX_def) (simp add: demo_ts_def)
qed

theorem ossl_timestamp_transfers_witness:
  "\<exists>p''. ossl_ImageTimestampVerify demo_ts sint demo_pool (Some [5]) (Some [1]) None = Inr (True, None, p'')
    \<and> pool_live p'' = {}"
proof -
  have "token_result demo_ts sint [9, 9] [1] [4] None = Inr (True, None)"
    by (simp add: token_result_def demo_ts_info stamp_def Let_def INT_MAX_def)
      (simp add: tst_accepts_def demo_ts_def)
  then obtain p' where "TimestampTokenVerify demo_ts sint demo_pool [9, 9] [1] [4] None = Inr (True, None, p')"
    using TimestampTokenVerify_spec [OF demo_ts_len demo_ts_pool(1,2), of sint "[9, 9]" "[1]" "[4]" None]
    by (auto simp: keeps_pool_def)
  then have "ossl_ImageTimestampVerify demo_ts sint demo_pool (Some [4]) (Some [1]) None = Inr (True, None, p')"
    using demo_ts_token [of "[4]" "[9, 9]"] by (simp add: ossl_ImageTimestampVerify_def demo_ts_def INT_MAX_def)
  then show ?thesis
    using ossl_timestamp_transfers [OF demo_ts_len demo_ts_pool(1,2), of "[4]"
        "demo_ts_signer [4] [9, 9]" "[9, 9]" "[4]" "[5]" "demo_ts_signer [5] [9, 9]" "[5]" "[1]"
        _ sint None None p', OF _ _ demo_ts_token _ _ demo_ts_token _ _ _ demo_ts_info]
    unfolding demo_ts_pool(3)
    by (simp add: INT_MAX_def) (simp add: demo_ts_def)
qed

end
