(* ===== verification/OsslPkcs7.thy ===== *)
theory OsslPkcs7
  imports Authenticode Pkcs7Signers
begin

text \<open>
  \<^verbatim>\<open>OpensslPkg/Library/BaseCryptLib/Pk/CryptPkcs7VerifyCommon.c\<close> and \<^verbatim>\<open>CryptPkcs7VerifyBase.c\<close>.
  \<^verbatim>\<open>WrapPkcs7Data\<close> is the same code as in \<^verbatim>\<open>MbedTlsPkg\<close>, modelled in \<open>Pkcs7Verify\<close>, but for
  \<^verbatim>\<open>malloc\<close>, which is the pool here.

  \<^item> OpenSSL is not part of the repository: its functions are the fields of \<open>p7_ossl\<close>. A
    certificate is a pointer of the type \<open>'x\<close>.
  \<^item> A decoded message owns the certificates in its stack; a certificate that is freed a second
    time is a fault. A stack that is popped has its top at the head of the list.
\<close>

section \<open>OpenSSL\<close>

datatype p7_contents = P7_data "byte list option" | P7_octets "byte list option" | P7_other | P7_known

text \<open>
  What the code asks the decoded structure: its type, \<^verbatim>\<open>d.sign->cert\<close> (\<open>None\<close> for NULL),
  \<^verbatim>\<open>PKCS7_get0_signers\<close>, \<^verbatim>\<open>PKCS7_get_detached\<close> and the contents. Of these it tells apart data,
  a foreign type with an octet string, with something else, and the other types of PKCS#7.
\<close>

record 'x p7 =
  p7o_signed :: bool
  p7o_certs :: "'x list option"
  p7o_signers :: "'x list option"
  p7o_detached :: bool
  p7o_contents :: p7_contents

text \<open>
  \<open>issued_by c i\<close>: the subject of \<open>i\<close> is the issuer of \<open>c\<close>; \<^verbatim>\<open>X509_find_by_subject\<close> returns the
  first such certificate. \<open>get1_issuer\<close> is \<^verbatim>\<open>X509_STORE_CTX_get1_issuer\<close>, \<open>None\<close> unless it
  returns 1. \<open>ctx_ok\<close> says that the context can be created, for a signer.
\<close>

record 'x p7_ossl =
  p7o_digests_ok :: bool
  p7o_d2i :: "byte list \<Rightarrow> 'x p7 option"
  p7o_d2i_X509 :: "byte list \<Rightarrow> 'x option"
  p7o_store_ok :: "'x \<Rightarrow> bool"
  p7o_bio_ok :: bool
  p7o_verify :: "'x p7 \<Rightarrow> 'x \<Rightarrow> byte list \<Rightarrow> bool"
  p7o_cert_bio_ok :: "'x \<Rightarrow> bool"
  p7o_i2d_X509 :: "'x \<Rightarrow> byte list option"
  p7o_ctx_ok :: "'x \<Rightarrow> bool"
  p7o_ctx_chain :: "'x \<Rightarrow> 'x list option"
  p7o_sk_new_ok :: bool
  p7o_sk_push_ok :: "nat \<Rightarrow> bool"
  p7o_get1_issuer :: "'x \<Rightarrow> 'x option"
  p7o_same_cert :: "'x \<Rightarrow> 'x \<Rightarrow> bool"
  p7o_issued_by :: "'x \<Rightarrow> 'x \<Rightarrow> bool"

text \<open>\<^verbatim>\<open>free\<close> and \<^verbatim>\<open>OPENSSL_free\<close>.\<close>

definition free_block :: "pool \<Rightarrow> nat option \<Rightarrow> pool res" where
  "free_block p b = (case b of None \<Rightarrow> Inr p | Some b \<Rightarrow> FreePool p (Some b))"

definition free_buf :: "pool \<Rightarrow> cert_buf \<Rightarrow> pool res" where
  "free_buf p c = free_block p (map_option fst c)"

section \<open>Certificates on a stack\<close>

text \<open>The certificate (\<open>None\<close> for \<^verbatim>\<open>FALSE\<close>), the stack and the pool.\<close>

definition X509PopCertificate :: "'x p7_ossl \<Rightarrow> 'x list \<Rightarrow> pool \<Rightarrow> cert_buf \<times> 'x list \<times> pool" where
  "X509PopCertificate C X509Stack p =
    (case X509Stack of
       [] \<Rightarrow> (None, [], p)
     | X509Cert # Stack \<Rightarrow>
         if \<not> p7o_cert_bio_ok C X509Cert then (None, Stack, p)
         else (case p7o_i2d_X509 C X509Cert of
           None \<Rightarrow> (None, Stack, p)
         | Some raw \<Rightarrow>
             if raw = [] \<or> length raw > INT_MAX then (None, Stack, p)
             else (case AllocatePool p (length raw) of
                     (None, p) \<Rightarrow> (None, Stack, p)
                   | (Some b, p) \<Rightarrow> (Some (b, raw), Stack, p))))"

text \<open>
  The loop that is there three times: \<open>Inl\<close> is the jump when \<^verbatim>\<open>CertBuf\<close> cannot be allocated, with
  \<^verbatim>\<open>OldBuf\<close>, \<^verbatim>\<open>SingleCert\<close> and the stack, \<open>Inr\<close> its end with \<^verbatim>\<open>BufferSize\<close>, \<^verbatim>\<open>OldSize\<close>, \<^verbatim>\<open>CertBuf\<close>,
  \<^verbatim>\<open>Index\<close> and the stack.
\<close>

primrec pop_loop ::
    "'x p7_ossl \<Rightarrow> 'x list \<Rightarrow> nat \<Rightarrow> nat \<Rightarrow> cert_buf \<Rightarrow> byte \<Rightarrow> pool
     \<Rightarrow> (cert_buf \<times> cert_buf \<times> 'x list \<times> pool + nat \<times> nat \<times> cert_buf \<times> byte \<times> 'x list \<times> pool) res" where
  "pop_loop C [] BufferSize OldSize CertBuf Index p =
    Inr (Inr (BufferSize, OldSize, CertBuf, Index, [], p))"
| "pop_loop C (X509Cert # Stack) BufferSize OldSize CertBuf Index p =
    (case X509PopCertificate C (X509Cert # Stack) p of
       (None, Rest, p) \<Rightarrow> Inr (Inr (BufferSize, OldSize, CertBuf, Index, Rest, p))
     | (Some (s, raw), Rest, p) \<Rightarrow>
         let OldSize = BufferSize; OldBuf = CertBuf; BufferSize = OldSize + length raw + 4 in
         (case AllocatePool p BufferSize of
            (None, p) \<Rightarrow> Inr (Inl (OldBuf, Some (s, raw), Rest, p))
          | (Some b, p) \<Rightarrow>
              bind_res (stack_put OldBuf OldSize raw) (\<lambda>buf.
              bind_res (free_buf p OldBuf) (\<lambda>p.
              bind_res (FreePool p (Some s)) (\<lambda>p.
                pop_loop C Stack BufferSize OldSize (Some (b, buf)) (Index + 1) p)))))"

section \<open>Pkcs7GetSigners\<close>

text \<open>
  \<^verbatim>\<open>PKCS7_free\<close> frees the certificates of the message, \<^verbatim>\<open>sk_X509_pop_free\<close> those that are left on
  the stack of the signers.
\<close>

definition free_stacks :: "'x p7 option \<Rightarrow> 'x list \<Rightarrow> unit res" where
  "free_stacks Pkcs7 Stack =
    (let owned = (case Option.bind Pkcs7 p7o_certs of None \<Rightarrow> [] | Some xs \<Rightarrow> xs) in
     if \<exists>x \<in> set Stack. x \<in> set owned then Inl UseAfterFree else Inr ())"

definition get_signers_exit ::
    "nat option \<Rightarrow> 'x p7 option \<Rightarrow> 'x list \<Rightarrow> cert_buf \<Rightarrow> bool \<Rightarrow> cert_buf \<Rightarrow> cert_buf \<Rightarrow> signers_out
     \<Rightarrow> pool \<Rightarrow> (bool \<times> signers_out \<times> pool) res" where
  "get_signers_exit SignedData Pkcs7 Stack SingleCert Status CertBuf OldBuf out p =
    bind_res (free_block p SignedData) (\<lambda>p.
    bind_res (free_stacks Pkcs7 Stack) (\<lambda>u.
    bind_res (free_buf p SingleCert) (\<lambda>p.
    bind_res (if \<not> Status \<and> CertBuf \<noteq> None
              then bind_res (free_buf p CertBuf) (\<lambda>p. Inr (out\<lparr>CertStack := Some None\<rparr>, p))
              else Inr (out, p)) (\<lambda>(out, p).
    bind_res (free_buf p OldBuf) (\<lambda>p. Inr (Status, out, p))))))"

text \<open>From the end of the loop on.\<close>

definition get_signers_result ::
    "nat option \<Rightarrow> 'x p7 option \<Rightarrow> nat \<times> nat \<times> cert_buf \<times> byte \<times> 'x list \<times> pool
     \<Rightarrow> (bool \<times> signers_out \<times> pool) res" where
  "get_signers_result SignedData Pkcs7 r =
    (case r of (BufferSize, OldSize, CertBuf, Index, Stack, p) \<Rightarrow>
      (case CertBuf of
         None \<Rightarrow> get_signers_exit SignedData Pkcs7 Stack None False None None no_out p
       | Some (b, x) \<Rightarrow>
           let x = x[0 := Index]; Len = BufferSize - OldSize - 4 in
           (case AllocatePool p Len of
              (None, p) \<Rightarrow>
                get_signers_exit SignedData Pkcs7 Stack None False (Some (b, x)) None
                  (no_out\<lparr>CertLength := Some Len, TrustedCertOut := Some None\<rparr>) p
            | (Some t, p) \<Rightarrow>
                bind_res (bytes x (int (OldSize + 4)) (int Len)) (\<lambda>trusted.
                  get_signers_exit SignedData Pkcs7 Stack None True (Some (b, x)) None
                    \<lparr>CertStack = Some (Some (b, x)), StackLength = Some BufferSize,
                     TrustedCertOut = Some (Some (t, trusted)), CertLength = Some Len\<rparr> p))))"

text \<open>The decoded message and the stack of its signers, when the code gets that far.\<close>

definition signers_of :: "'x p7_ossl \<Rightarrow> byte list \<Rightarrow> 'x p7 option \<times> 'x list option" where
  "signers_of C SignedData =
    (if length SignedData > INT_MAX then (None, None)
     else (case p7o_d2i C SignedData of
             None \<Rightarrow> (None, None)
           | Some Pkcs7 \<Rightarrow> (Some Pkcs7, if p7o_signed Pkcs7 then p7o_signers Pkcs7 else None)))"

definition ossl_Pkcs7GetSigners ::
    "'x p7_ossl \<Rightarrow> pool \<Rightarrow> byte list option \<Rightarrow> bool \<Rightarrow> (bool \<times> signers_out \<times> pool) res" where
  "ossl_Pkcs7GetSigners C p P7Data outs =
    (case P7Data of
       None \<Rightarrow> Inr (False, no_out, p)
     | Some P7Data \<Rightarrow>
         if \<not> outs \<or> length P7Data > INT_MAX then Inr (False, no_out, p)
         else bind_res (WrapPkcs7Data p P7Data) (\<lambda>(Status, Wrapped, (SignedData, W), p).
           if \<not> Status then Inr (False, no_out, p)
           else (case signers_of C W of
             (Pkcs7, None) \<Rightarrow> get_signers_exit SignedData Pkcs7 [] None False None None no_out p
           | (Pkcs7, Some Signers) \<Rightarrow>
               bind_res (pop_loop C (rev Signers) 1 1 None 0 p) (\<lambda>r.
                 case r of
                   Inl (OldBuf, SingleCert, Stack, p) \<Rightarrow>
                     get_signers_exit SignedData Pkcs7 Stack SingleCert True None OldBuf no_out p
                 | Inr r \<Rightarrow> get_signers_result SignedData Pkcs7 r))))"

section \<open>Pkcs7GetCertificatesList\<close>

text \<open>
  The loop that follows the issuers; \<open>None\<close> is the jump when the stack cannot grow. The result is
  the chain, from the signer on, and what is left of the other certificates.
\<close>

function build_chain ::
    "'x p7_ossl \<Rightarrow> 'x \<Rightarrow> 'x list \<Rightarrow> 'x list option \<Rightarrow> ('x list \<times> 'x list option) option" where
  "build_chain C Cert CtxChain CtxUntrusted =
    (if (case p7o_get1_issuer C Cert of None \<Rightarrow> False | Some Issuer \<Rightarrow> p7o_same_cert C Issuer Cert)
     then Some (CtxChain, CtxUntrusted)
     else (case CtxUntrusted of
       None \<Rightarrow> Some (CtxChain, None)
     | Some U \<Rightarrow>
         (case find (p7o_issued_by C Cert) U of
            None \<Rightarrow> Some (CtxChain, Some U)
          | Some Issuer \<Rightarrow>
              if \<not> p7o_sk_push_ok C (length CtxChain) then None
              else build_chain C Issuer (CtxChain @ [Issuer]) (Some (remove1 Issuer U)))))"
  by pat_completeness auto
termination
proof (relation "measure (\<lambda>(C, c, k, u). length (the u))", goal_cases)
  case (2 C Cert CtxChain CtxUntrusted U Issuer)
  then have "Issuer \<in> set U" by (auto simp: find_Some_iff in_set_conv_nth)
  moreover from this have "0 < length U" by (rule length_pos_if_in_set)
  ultimately show ?case using 2 by (simp add: length_remove1)
qed simp

declare build_chain.simps [simp del]

record cert_lists =
  cl_Chain :: cert_buf
  cl_ChainLength :: nat
  cl_Unchain :: cert_buf
  cl_UnchainLength :: nat

definition no_lists :: cert_lists where
  "no_lists = \<lparr>cl_Chain = None, cl_ChainLength = 0, cl_Unchain = None, cl_UnchainLength = 0\<rparr>"

text \<open>A stack as a buffer: \<open>Inl\<close> the two buffers that the code at \<^verbatim>\<open>_Error\<close> frees.\<close>

definition stack_buffer ::
    "'x p7_ossl \<Rightarrow> 'x list \<Rightarrow> pool \<Rightarrow> (cert_buf \<times> cert_buf \<times> pool + cert_buf \<times> nat \<times> pool) res" where
  "stack_buffer C Stack p =
    bind_res (pop_loop C (rev Stack) 1 1 None 0 p) (\<lambda>r.
      case r of
        Inl (OldBuf, SingleCert, Rest, p) \<Rightarrow> Inr (Inl (OldBuf, SingleCert, p))
      | Inr (BufferSize, OldSize, CertBuf, Index, Rest, p) \<Rightarrow>
          Inr (Inr (map_option (\<lambda>(b, x). (b, x[0 := Index])) CertBuf, BufferSize, p)))"

definition lists_exit ::
    "nat option \<Rightarrow> bool \<Rightarrow> cert_buf \<Rightarrow> cert_buf \<Rightarrow> cert_lists \<Rightarrow> pool \<Rightarrow> (bool \<times> cert_lists \<times> pool) res" where
  "lists_exit NewP7Data Status SingleCert OldBuf out p =
    bind_res (free_block p NewP7Data) (\<lambda>p.
    bind_res (free_buf p SingleCert) (\<lambda>p.
    bind_res (free_buf p OldBuf) (\<lambda>p. Inr (Status, out, p))))"

text \<open>Both buffers, for the chain and the other certificates.\<close>

definition fill_lists ::
    "'x p7_ossl \<Rightarrow> nat option \<Rightarrow> 'x list \<Rightarrow> 'x list option \<Rightarrow> pool \<Rightarrow> (bool \<times> cert_lists \<times> pool) res" where
  "fill_lists C NewP7Data CtxChain CtxUntrusted p =
    bind_res (stack_buffer C CtxChain p) (\<lambda>r.
      case r of
        Inl (OldBuf, SingleCert, p) \<Rightarrow> lists_exit NewP7Data False SingleCert OldBuf no_lists p
      | Inr (CertBuf, BufferSize, p) \<Rightarrow>
          let out = (if CertBuf = None then no_lists
                     else no_lists\<lparr>cl_Chain := CertBuf, cl_ChainLength := BufferSize\<rparr>) in
          (case CtxUntrusted of
             None \<Rightarrow> lists_exit NewP7Data True None None out p
           | Some U \<Rightarrow>
               bind_res (stack_buffer C U p) (\<lambda>r.
                 case r of
                   Inl (OldBuf, SingleCert, p) \<Rightarrow> lists_exit NewP7Data False SingleCert OldBuf out p
                 | Inr (CertBuf, BufferSize, p) \<Rightarrow>
                     lists_exit NewP7Data True None None
                       (if CertBuf = None then out
                        else out\<lparr>cl_Unchain := CertBuf, cl_UnchainLength := BufferSize\<rparr>) p)))"

text \<open>The two stacks, or \<open>None\<close> for a jump to \<^verbatim>\<open>_Error\<close>, at which \<^verbatim>\<open>Status\<close> is still \<^verbatim>\<open>TRUE\<close>.\<close>

definition chain_stacks :: "'x p7_ossl \<Rightarrow> 'x p7 \<Rightarrow> 'x \<Rightarrow> ('x list \<times> 'x list option) option" where
  "chain_stacks C Pkcs7 Signer =
    (if \<not> p7o_ctx_ok C Signer then None
     else (case (case p7o_ctx_chain C Signer of
                   Some xs \<Rightarrow> Some xs
                 | None \<Rightarrow> if p7o_sk_new_ok C \<and> p7o_sk_push_ok C 0 then Some [Signer] else None) of
             None \<Rightarrow> None
           | Some CtxChain \<Rightarrow>
               build_chain C Signer CtxChain (map_option (remove1 Signer) (p7o_certs Pkcs7))))"

definition ossl_Pkcs7GetCertificatesList ::
    "'x p7_ossl \<Rightarrow> pool \<Rightarrow> byte list option \<Rightarrow> bool \<Rightarrow> (bool \<times> cert_lists option \<times> pool) res" where
  "ossl_Pkcs7GetCertificatesList C p P7Data outs =
    (case P7Data of
       None \<Rightarrow> Inr (False, None, p)
     | Some P7Data \<Rightarrow>
         if \<not> outs \<or> length P7Data > INT_MAX then Inr (False, None, p)
         else bind_res (WrapPkcs7Data p P7Data) (\<lambda>(Status, Wrapped, (NewP7Data, W), p).
           bind_res
             (if \<not> Status then lists_exit NewP7Data False None None no_lists p
              else (case signers_of C W of
                (Some Pkcs7, Some [Signer]) \<Rightarrow>
                  (case chain_stacks C Pkcs7 Signer of
                     None \<Rightarrow> lists_exit NewP7Data True None None no_lists p
                   | Some (CtxChain, CtxUntrusted) \<Rightarrow> fill_lists C NewP7Data CtxChain CtxUntrusted p)
              | _ \<Rightarrow> lists_exit NewP7Data True None None no_lists p))
             (\<lambda>(Status, out, p). Inr (Status, Some out, p))))"

section \<open>Pkcs7Verify\<close>

definition ossl_verify_signed :: "'x p7_ossl \<Rightarrow> byte list \<Rightarrow> byte list \<Rightarrow> byte list \<Rightarrow> bool" where
  "ossl_verify_signed C SignedData TrustedCert InData =
    (if length SignedData > INT_MAX then False
     else (case p7o_d2i C SignedData of
       None \<Rightarrow> False
     | Some Pkcs7 \<Rightarrow>
         if \<not> p7o_signed Pkcs7 then False
         else (case p7o_d2i_X509 C TrustedCert of
           None \<Rightarrow> False
         | Some Cert \<Rightarrow>
             if \<not> p7o_store_ok C Cert \<or> \<not> p7o_bio_ok C then False
             else p7o_verify C Pkcs7 Cert InData)))"

definition Pkcs7Verify_ossl ::
    "'x p7_ossl \<Rightarrow> pool \<Rightarrow> byte list option \<Rightarrow> byte list option \<Rightarrow> byte list option
     \<Rightarrow> (bool \<times> pool) res" where
  "Pkcs7Verify_ossl C p P7Data TrustedCert InData =
    (case (P7Data, TrustedCert, InData) of
       (Some P7Data, Some TrustedCert, Some InData) \<Rightarrow>
         if length P7Data > INT_MAX \<or> length TrustedCert > INT_MAX \<or> length InData > INT_MAX
         then Inr (False, p)
         else if \<not> p7o_digests_ok C then Inr (False, p)
         else bind_res (WrapPkcs7Data p P7Data) (\<lambda>(Status, Wrapped, (SignedData, W), p).
           if \<not> Status then Inr (False, p)
           else bind_res (free_block p SignedData) (\<lambda>p.
             Inr (ossl_verify_signed C W TrustedCert InData, p)))
     | _ \<Rightarrow> Inr (False, p))"

section \<open>Pkcs7GetAttachedContent\<close>

definition Pkcs7TypeIsOther :: "p7_contents \<Rightarrow> bool" where
  "Pkcs7TypeIsOther c = (case c of P7_data d \<Rightarrow> False | P7_known \<Rightarrow> False | _ \<Rightarrow> True)"

definition Pkcs7GetOctetString :: "p7_contents \<Rightarrow> byte list option" where
  "Pkcs7GetOctetString c =
    (case c of
       P7_data d \<Rightarrow> d
     | P7_octets d \<Rightarrow> if Pkcs7TypeIsOther c then d else None
     | _ \<Rightarrow> None)"

text \<open>
  \<open>Content\<close> and \<open>ContentSize\<close> after the call: \<open>None\<close> is one that is not written. The result of the
  first call is not looked at when the wrapped message is too long.
\<close>

definition attached ::
    "'x p7_ossl \<Rightarrow> byte list \<Rightarrow> pool \<Rightarrow> bool \<times> cert_buf \<times> nat option \<times> pool" where
  "attached C SignedData p =
    (case p7o_d2i C SignedData of
       None \<Rightarrow> (False, None, None, p)
     | Some Pkcs7 \<Rightarrow>
         if \<not> p7o_signed Pkcs7 then (False, None, None, p)
         else if p7o_detached Pkcs7 then (True, None, Some 0, p)
         else (case Pkcs7GetOctetString (p7o_contents Pkcs7) of
           None \<Rightarrow> (False, None, None, p)
         | Some OctStr \<Rightarrow>
             if OctStr = [] then (True, None, None, p)
             else (case AllocatePool p (length OctStr) of
                     (None, p) \<Rightarrow> (False, None, Some 0, p)
                   | (Some b, p) \<Rightarrow> (True, Some (b, OctStr), Some (length OctStr), p))))"

definition Pkcs7GetAttachedContent ::
    "'x p7_ossl \<Rightarrow> pool \<Rightarrow> byte list option \<Rightarrow> bool
     \<Rightarrow> (bool \<times> cert_buf option \<times> nat option \<times> pool) res" where
  "Pkcs7GetAttachedContent C p P7Data outs =
    (case P7Data of
       None \<Rightarrow> Inr (False, None, None, p)
     | Some P7Data \<Rightarrow>
         if \<not> outs \<or> length P7Data > INT_MAX then Inr (False, None, None, p)
         else bind_res (WrapPkcs7Data p P7Data) (\<lambda>(Status, Wrapped, (SignedData, W), p).
           case (if \<not> Status \<or> length W > INT_MAX then (Status, None, None, p) else attached C W p) of
             (Status, Content, ContentSize, p) \<Rightarrow>
               bind_res (free_block p SignedData) (\<lambda>p. Inr (Status, Some Content, ContentSize, p))))"

end
