(* ===== verification/OsslPkcs7Props.thy ===== *)
theory OsslPkcs7Props
  imports OsslPkcs7 Pkcs7Props "HOL-Library.Multiset"
begin

text \<open>
  The functions of OpenSSL's \<^verbatim>\<open>CryptPkcs7VerifyCommon.c\<close>: what they return when everything goes
  well, and what they do when it does not.
\<close>

section \<open>Stacks as buffers\<close>

text \<open>An entry, a stack of counted entries, and the bytes of a buffer that may not be there yet.\<close>

definition entry :: "byte list \<Rightarrow> byte list" where
  "entry raw = le32 (of_nat (length raw)) @ raw"

definition entries :: "byte list list \<Rightarrow> byte list" where
  "entries raws = concat (map entry raws)"

definition stack_bytes :: "byte list list \<Rightarrow> byte list" where
  "stack_bytes raws = of_nat (length raws) # entries raws"

definition contents :: "cert_buf \<Rightarrow> byte list" where
  "contents c = (case c of None \<Rightarrow> [0] | Some (b, x) \<Rightarrow> x)"

definition blk :: "cert_buf \<Rightarrow> nat set" where
  "blk c = (case c of None \<Rightarrow> {} | Some (b, x) \<Rightarrow> {b})"

lemma length_entry [simp]: "length (entry raw) = length raw + 4"
  by (simp add: entry_def le32_def)

lemma entries_simps [simp]: "entries [] = []" "entries (r # rs) = entry r @ entries rs"
  "entries (rs @ ss) = entries rs @ entries ss"
  by (simp_all add: entries_def)

lemma blk_simps [simp]: "blk None = {}" "blk (Some (b, x)) = {b}"
  "contents None = [0]" "contents (Some (b, x)) = x"
  by (simp_all add: blk_def contents_def)

lemma stack_put_contents:
  assumes "length (contents c) = n" and "0 < n"
  shows "stack_put c n raw = Inr (contents c @ entry raw)"
proof (cases c)
  case None
  then have "n = 1" using assms by simp
  then show ?thesis using None
    by (simp add: stack_put_def Let_def copy_at_def entry_def le32_def)
next
  case (Some bx)
  obtain b x where bx: "bx = (b, x)" by fastforce
  have x: "length x = n" using assms Some bx by simp
  have "copy_at (n + 4) raw (copy_at n (le32 l) (copy_at 0 x (replicate (n + length raw + 4) 0)))
      = x @ le32 l @ raw" for l
    using x by (simp add: copy_at_def le32_def)
  then show ?thesis using Some bx x by (simp add: stack_put_def Let_def entry_def)
qed

lemma free_buf_blk:
  assumes "pool_inv p" and "blk c \<subseteq> pool_live p"
  shows "\<exists>q. free_buf p c = Inr q \<and> pool_inv q \<and> pool_live q = pool_live p - blk c \<and> pool_ok q = pool_ok p"
proof (cases c)
  case None
  then show ?thesis using assms by (simp add: free_buf_def free_block_def)
next
  case (Some bx)
  then show ?thesis using assms FreePool_live [of "fst bx" p]
    by (cases bx) (simp add: free_buf_def free_block_def)
qed

lemma free_block_live:
  assumes "pool_inv p" and "set_option b \<subseteq> pool_live p"
  shows "\<exists>q. free_block p b = Inr q \<and> pool_inv q \<and> pool_live q = pool_live p - set_option b \<and> pool_ok q = pool_ok p"
  using assms FreePool_live [of _ p] by (cases b) (auto simp: free_block_def)

text \<open>A certificate that can be encoded, and its encoding.\<close>

definition enc :: "'x p7_ossl \<Rightarrow> 'x \<Rightarrow> byte list" where
  "enc C x = (case p7o_i2d_X509 C x of None \<Rightarrow> [] | Some raw \<Rightarrow> raw)"

definition encodable :: "'x p7_ossl \<Rightarrow> 'x \<Rightarrow> bool" where
  "encodable C x \<longleftrightarrow> p7o_cert_bio_ok C x \<and> enc C x \<noteq> [] \<and> length (enc C x) \<le> INT_MAX"

lemma pop_cases:
  assumes "pool_inv p"
  obtains (fail) q where "X509PopCertificate C (c # Stack) p = (None, Stack, q)" "pool_inv q"
      "pool_live q = pool_live p" "pool_ok q = pool_ok p" "\<not> (encodable C c \<and> (\<forall>k n. pool_ok p k n))"
  | (pop) s q where "X509PopCertificate C (c # Stack) p = (Some (s, enc C c), Stack, q)" "pool_inv q"
      "s \<notin> pool_live p" "pool_live q = insert s (pool_live p)" "pool_ok q = pool_ok p" "encodable C c"
proof (cases "encodable C c")
  case False
  then have "X509PopCertificate C (c # Stack) p = (None, Stack, p)"
    by (auto simp: X509PopCertificate_def encodable_def enc_def split: option.splits)
  then show ?thesis using fail False assms by blast
next
  case True
  then obtain raw where raw: "p7o_i2d_X509 C c = Some raw" "enc C c = raw" "raw \<noteq> []" "length raw \<le> INT_MAX"
    "p7o_cert_bio_ok C c"
    by (auto simp: encodable_def enc_def split: option.splits)
  obtain a q where a: "AllocatePool p (length raw) = (a, q)" by fastforce
  show ?thesis
  proof (cases a)
    case None
    then have "X509PopCertificate C (c # Stack) p = (None, Stack, q)"
      using raw a by (simp add: X509PopCertificate_def)
    moreover have "\<not> (\<forall>k n. pool_ok p k n)"
      using a None by (auto simp: AllocatePool_def split: if_splits)
    ultimately show ?thesis using fail AllocatePool_None [of p "length raw" q] a None assms by blast
  next
    case (Some s)
    then have "X509PopCertificate C (c # Stack) p = (Some (s, enc C c), Stack, q)"
      using raw a by (simp add: X509PopCertificate_def)
    then show ?thesis using pop AllocatePool_Some [of p "length raw" s q] a Some assms True by blast
  qed
qed


section \<open>The loop\<close>

text \<open>
  How the loop ends from the pool \<open>p\<close> with the buffer \<open>c\<close>: by a jump, when the memory for the next
  buffer is missing, or by a certificate that cannot be popped, if only because there is none.
  \<open>B\<close> are the blocks of others.
\<close>

definition jumped ::
    "pool \<Rightarrow> nat set \<Rightarrow> 'x list \<Rightarrow> cert_buf \<times> cert_buf \<times> 'x list \<times> pool \<Rightarrow> bool" where
  "jumped p B Stack r \<longleftrightarrow> (case r of (Old, Single, Rest, q) \<Rightarrow>
     \<not> (\<forall>k n. pool_ok p k n) \<and> pool_inv q \<and> pool_live q = B \<union> blk Old \<union> blk Single
     \<and> blk Old \<inter> blk Single = {} \<and> (blk Old \<union> blk Single) \<inter> B = {}
     \<and> (\<exists>x popped. Stack = x # popped @ Rest))"

definition ended ::
    "'x p7_ossl \<Rightarrow> pool \<Rightarrow> nat set \<Rightarrow> 'x list \<Rightarrow> nat \<Rightarrow> cert_buf \<Rightarrow> byte
     \<Rightarrow> nat \<times> nat \<times> cert_buf \<times> byte \<times> 'x list \<times> pool \<Rightarrow> bool" where
  "ended C p B Stack OldSize c Index r \<longleftrightarrow> (case r of (BufferSize, OldSize', c', Index', Rest, q) \<Rightarrow>
     pool_inv q \<and> pool_ok q = pool_ok p \<and> pool_live q = B \<union> blk c' \<and> blk c' \<inter> B = {}
     \<and> (\<exists>popped tail. Stack = popped @ tail \<and> Rest = tl tail
          \<and> (tail \<noteq> [] \<longrightarrow> \<not> ((\<forall>x \<in> set Stack. encodable C x) \<and> (\<forall>k n. pool_ok p k n)))
          \<and> contents c' = contents c @ entries (map (enc C) popped) \<and> BufferSize = length (contents c')
          \<and> Index' = Index + of_nat (length popped)
          \<and> (if popped = [] then c' = c \<and> OldSize' = OldSize
             else c' \<noteq> None \<and> BufferSize = OldSize' + length (enc C (last popped)) + 4)))"

lemma ended_refl:
  assumes "pool_inv q" and "pool_ok q = pool_ok p" and "pool_live q = B \<union> blk c" and "blk c \<inter> B = {}"
    and "length (contents c) = n" and "Rest = tl Stack"
    and "Stack \<noteq> [] \<longrightarrow> \<not> ((\<forall>x \<in> set Stack. encodable C x) \<and> (\<forall>k n. pool_ok p k n))"
  shows "ended C p B Stack m c Index (n, m, c, Index, Rest, q)"
  unfolding ended_def using assms by (auto intro!: exI [of _ "[]"])

lemma jumped_Cons: "jumped q B Stack r \<Longrightarrow> pool_ok q = pool_ok p \<Longrightarrow> jumped p B (x # Stack) r"
  by (cases r) (force simp: jumped_def intro: exI [of _ "_ # _"])

lemma ended_Cons:
  assumes "ended C q B Stack n c' (Index + 1) r" and "pool_ok q = pool_ok p"
    and "contents c' = contents c @ entry (enc C x)" and "length (contents c) = n" and "c' \<noteq> None"
  shows "ended C p B (x # Stack) m c Index r"
proof -
  obtain BufferSize OldSize' d Index' Rest q' where r: "r = (BufferSize, OldSize', d, Index', Rest, q')"
    by (cases r) auto
  from assms(1) obtain popped tail where t: "Stack = popped @ tail" "Rest = tl tail"
    "tail \<noteq> [] \<longrightarrow> \<not> ((\<forall>x \<in> set Stack. encodable C x) \<and> (\<forall>k n. pool_ok q k n))"
    "contents d = contents c' @ entries (map (enc C) popped)" "BufferSize = length (contents d)"
    "Index' = Index + 1 + of_nat (length popped)"
    "if popped = [] then d = c' \<and> OldSize' = n
     else d \<noteq> None \<and> BufferSize = OldSize' + length (enc C (last popped)) + 4"
    unfolding ended_def r prod.case by blast
  have last: "d \<noteq> None \<and> BufferSize = OldSize' + length (enc C (last (x # popped))) + 4"
    using t(4,5,7) assms(3-5) by (cases "popped = []") auto
  have size: "BufferSize = length (contents d)" and "x # Stack = (x # popped) @ tail" using t(1,5) by simp_all
  moreover have "tail \<noteq> [] \<longrightarrow> \<not> ((\<forall>x \<in> set (x # Stack). encodable C x) \<and> (\<forall>k n. pool_ok p k n))"
    using t(3) assms(2) by auto
  moreover have "contents d = contents c @ entries (map (enc C) (x # popped))"
    and "Index' = Index + of_nat (length (x # popped))"
    using t(4,6) assms(3) by simp_all
  ultimately have "\<exists>popped tail. x # Stack = popped @ tail \<and> Rest = tl tail
          \<and> (tail \<noteq> [] \<longrightarrow> \<not> ((\<forall>x \<in> set (x # Stack). encodable C x) \<and> (\<forall>k n. pool_ok p k n)))
          \<and> contents d = contents c @ entries (map (enc C) popped) \<and> BufferSize = length (contents d)
          \<and> Index' = Index + of_nat (length popped)
          \<and> (if popped = [] then d = c \<and> OldSize' = m
             else d \<noteq> None \<and> BufferSize = OldSize' + length (enc C (last popped)) + 4)"
    using t(2) last by (intro exI [of _ "x # popped"] exI [of _ tail]) simp
  then show ?thesis using assms(1,2) unfolding ended_def r prod.case by simp
qed

lemma pop_loop_spec:
  assumes "pool_inv p" and "length (contents c) = n" and "0 < n"
    and "pool_live p = B \<union> blk c" and "blk c \<inter> B = {}"
  shows "\<exists>r. pop_loop C Stack n m c Index p = Inr r
    \<and> (case r of Inl j \<Rightarrow> jumped p B Stack j | Inr e \<Rightarrow> ended C p B Stack m c Index e)"
  using assms
proof (induction Stack arbitrary: p c n m Index)
  case Nil
  then show ?case by (auto intro!: ended_refl)
next
  case (Cons x Stack)
  show ?case
  proof (rule pop_cases [OF Cons.prems(1), of C x Stack])
    fix q
    assume "X509PopCertificate C (x # Stack) p = (None, Stack, q)" "pool_inv q"
      "pool_live q = pool_live p" "pool_ok q = pool_ok p" "\<not> (encodable C x \<and> (\<forall>k n. pool_ok p k n))"
    then show ?thesis using Cons.prems by (auto intro!: ended_refl)
  next
    fix s q
    assume pop: "X509PopCertificate C (x # Stack) p = (Some (s, enc C x), Stack, q)"
      and q: "pool_inv q" "s \<notin> pool_live p" "pool_live q = insert s (pool_live p)" "pool_ok q = pool_ok p"
    let ?n = "n + length (enc C x) + 4"
    obtain a q1 where a: "AllocatePool q ?n = (a, q1)" by fastforce
    show ?thesis
    proof (cases a)
      case None
      note q1 = AllocatePool_None [OF a [unfolded None] q(1)]
      have "\<not> (\<forall>k n. pool_ok p k n)" using a None q(4) by (auto simp: AllocatePool_def split: if_splits)
      moreover have "s \<notin> B \<union> blk c" using q(2) Cons.prems(4) by simp
      ultimately have "jumped p B (x # Stack) (c, Some (s, enc C x), Stack, q1)"
        using q q1 Cons.prems(4,5) by (auto simp: jumped_def)
      then show ?thesis using pop a None by (simp add: Let_def)
    next
      case (Some b)
      note q1 = AllocatePool_Some [OF a [unfolded Some] q(1)]
      obtain q2 where q2: "free_buf q1 c = Inr q2" "pool_inv q2" "pool_live q2 = pool_live q1 - blk c"
        "pool_ok q2 = pool_ok q1"
        using free_buf_blk [of q1 c] q1 q(3) Cons.prems(4) by auto
      have "s \<in> pool_live q2" using q2(3) q1(3) q(2,3) Cons.prems(4) by auto
      then obtain q3 where q3: "FreePool q2 (Some s) = Inr q3" "pool_inv q3"
        "pool_live q3 = pool_live q2 - {s}" "pool_ok q3 = pool_ok q2"
        using FreePool_live q2(2) by blast
      let ?c = "Some (b, contents c @ entry (enc C x))"
      have live: "pool_live q3 = B \<union> blk ?c" "blk ?c \<inter> B = {}"
        using q3(3) q2(3) q1(2,3) q(2,3) Cons.prems(4,5) by auto
      have "\<exists>r. pop_loop C Stack ?n n ?c (Index + 1) q3 = Inr r
          \<and> (case r of Inl j \<Rightarrow> jumped q3 B Stack j | Inr e \<Rightarrow> ended C q3 B Stack n ?c (Index + 1) e)"
        by (rule Cons.IH [OF q3(2) _ _ live]) (simp_all add: Cons.prems(2))
      then obtain r where r: "pop_loop C Stack ?n n ?c (Index + 1) q3 = Inr r"
        "case r of Inl j \<Rightarrow> jumped q3 B Stack j | Inr e \<Rightarrow> ended C q3 B Stack n ?c (Index + 1) e"
        by blast
      have ok: "pool_ok q3 = pool_ok p" using q3(4) q2(4) q1(4) q(4) by simp
      have "pop_loop C (x # Stack) n m c Index p = Inr r"
        using pop a Some stack_put_contents [OF Cons.prems(2,3)] q2(1) q3(1) r(1) by (simp add: Let_def)
      moreover have "case r of Inl j \<Rightarrow> jumped p B (x # Stack) j | Inr e \<Rightarrow> ended C p B (x # Stack) m c Index e"
      proof (cases r)
        case (Inl j)
        then show ?thesis using r(2) jumped_Cons [OF _ ok] by simp
      next
        case (Inr e)
        then show ?thesis using r(2) ended_Cons [OF _ ok _ Cons.prems(2), of C B Stack ?c Index e x m] by simp
      qed
      ultimately show ?thesis by blast
    qed
  qed
qed


section \<open>Pkcs7GetSigners\<close>

lemma wrap_pool:
  assumes "WrapPkcs7Data p m = Inr (True, Wrapped, (b, W), p1)" and "pool_inv p"
  shows "pool_inv p1" "pool_live p1 = pool_live p \<union> set_option b" "set_option b \<inter> pool_live p = {}"
    "pool_ok p1 = pool_ok p"
proof -
  have "pool_inv p1 \<and> pool_live p1 = pool_live p \<union> set_option b \<and> set_option b \<inter> pool_live p = {}
    \<and> pool_ok p1 = pool_ok p"
  proof (cases Wrapped)
    case True
    then show ?thesis using WrapPkcs7Data_True(2) [OF assms(1)] assms(2) by simp
  next
    case False
    then obtain a where "b = Some a" "AllocatePool p (length m + 19) = (Some a, p1)"
      using WrapPkcs7Data_True(3) [OF assms(1)] by auto
    then show ?thesis using AllocatePool_Some [of p "length m + 19" a p1] assms(2) by auto
  qed
  then show "pool_inv p1" "pool_live p1 = pool_live p \<union> set_option b" "set_option b \<inter> pool_live p = {}"
    "pool_ok p1 = pool_ok p" by simp_all
qed

text \<open>A buffer that ends with the entry of a certificate, and the copy of that certificate.\<close>

lemma last_entry:
  assumes "x = y @ entry raw" and "length x = m + length raw + 4"
  shows "bytes x (int (m + 4)) (int (length raw)) = Inr raw"
proof -
  have "length y = m" using assms by simp
  then show ?thesis using assms by (simp add: bytes_def seg_def entry_def le32_def nat_add_distrib)
qed

lemma stack_count: "(0 # entries raws)[0 := of_nat (length raws)] = stack_bytes raws"
  by (simp add: stack_bytes_def)

lemma entries_last: "xs \<noteq> [] \<Longrightarrow> \<exists>y. entries (map f xs) = y @ entry (f (last xs))"
  by (induction xs rule: rev_induct) auto

text \<open>The loop over a stack from which everything can be popped.\<close>

lemma pop_loop_all:
  assumes "pool_inv p" and "\<forall>k n. pool_ok p k n" and "\<forall>x \<in> set S. encodable C x" and "S \<noteq> []"
  shows "\<exists>n m a q. pop_loop C S 1 1 None 0 p = Inr (Inr (n, m, Some (a, 0 # entries (map (enc C) S)),
      of_nat (length S), [], q)) \<and> pool_inv q \<and> pool_ok q = pool_ok p \<and> a \<notin> pool_live p
      \<and> pool_live q = insert a (pool_live p) \<and> n = length (stack_bytes (map (enc C) S))
      \<and> n = m + length (enc C (last S)) + 4"
proof -
  have "\<exists>r. pop_loop C S 1 1 None 0 p = Inr r
      \<and> (case r of Inl j \<Rightarrow> jumped p (pool_live p) S j | Inr e \<Rightarrow> ended C p (pool_live p) S 1 None 0 e)"
    using assms(1) by (intro pop_loop_spec) simp_all
  then obtain r where r: "pop_loop C S 1 1 None 0 p = Inr r"
    "case r of Inl j \<Rightarrow> jumped p (pool_live p) S j | Inr e \<Rightarrow> ended C p (pool_live p) S 1 None 0 e"
    by blast
  have "\<not> jumped p (pool_live p) S j" for j using assms(2) by (simp add: jumped_def split: prod.splits)
  then obtain n m c Ix Rest q where e: "r = Inr (n, m, c, Ix, Rest, q)"
    "ended C p (pool_live p) S 1 None 0 (n, m, c, Ix, Rest, q)"
    using r(2) by (cases r) auto
  then obtain popped tail where t: "S = popped @ tail" "Rest = tl tail"
    "tail \<noteq> [] \<longrightarrow> \<not> ((\<forall>x \<in> set S. encodable C x) \<and> (\<forall>k n. pool_ok p k n))"
    "contents c = contents None @ entries (map (enc C) popped)" "n = length (contents c)"
    "Ix = 0 + of_nat (length popped)"
    "if popped = [] then c = None \<and> m = 1 else c \<noteq> None \<and> n = m + length (enc C (last popped)) + 4"
    and q: "pool_inv q" "pool_ok q = pool_ok p" "pool_live q = pool_live p \<union> blk c" "blk c \<inter> pool_live p = {}"
    unfolding ended_def prod.case by blast
  have "tail = []" using t(3) assms(2,3) by blast
  then have S: "popped = S" "Rest = []" using t(1,2) by simp_all
  then obtain a x where c: "c = Some (a, x)" using t(7) assms(4) by (auto split: if_splits)
  have "x = 0 # entries (map (enc C) S)" using t(4) c S by simp
  then show ?thesis using r(1) e(1) c S t(5-7) q assms(4)
    by (intro exI [of _ n] exI [of _ m] exI [of _ a] exI [of _ q]) (simp add: stack_bytes_def)
qed

text \<open>C30: With memory available, \<^verbatim>\<open>Pkcs7GetSigners\<close> returns the encodings of the signers' certificates, the last one first, and
  takes the first signer for the trusted certificate. The count in the first byte is that modulo 256.\<close>

theorem ossl_get_signers:
  assumes wrap: "WrapPkcs7Data p m = Inr (True, Wrapped, (b, W), p1)"
    and p: "pool_inv p" "\<forall>k n. pool_ok p k n" and m: "length m \<le> INT_MAX"
    and S: "signers_of C W = (Some P, Some S)" "S \<noteq> []" "\<forall>x \<in> set S. encodable C x"
  shows "\<exists>a t q. ossl_Pkcs7GetSigners C p (Some m) True = Inr (True,
      \<lparr>CertStack = Some (Some (a, stack_bytes (map (enc C) (rev S)))),
       StackLength = Some (length (stack_bytes (map (enc C) (rev S)))),
       TrustedCertOut = Some (Some (t, enc C (hd S))), CertLength = Some (length (enc C (hd S)))\<rparr>, q)
    \<and> a \<noteq> t \<and> a \<notin> pool_live p \<and> t \<notin> pool_live p \<and> pool_live q = {a, t} \<union> pool_live p"
proof -
  note p1 = wrap_pool [OF wrap p(1)]
  have ok1: "\<forall>k n. pool_ok p1 k n" using p1(4) p(2) by simp
  let ?raws = "map (enc C) (rev S)"
  obtain n m' a q where l: "pop_loop C (rev S) 1 1 None 0 p1 = Inr (Inr (n, m', Some (a, 0 # entries ?raws),
      of_nat (length (rev S)), [], q))" "pool_inv q" "pool_ok q = pool_ok p1" "a \<notin> pool_live p1"
    "pool_live q = insert a (pool_live p1)" "n = length (stack_bytes ?raws)"
    "n = m' + length (enc C (last (rev S))) + 4"
    using pop_loop_all [OF p1(1) ok1, of "rev S" C] S(2,3) by auto
  have hd: "last (rev S) = hd S" by (simp add: last_rev)
  obtain t q1 where t: "AllocatePool q (length (enc C (hd S))) = (Some t, q1)"
    using l(3) ok1 by (simp add: AllocatePool_def)
  note q1 = AllocatePool_Some [OF t l(2)]
  obtain y where y: "entries ?raws = y @ entry (enc C (hd S))"
    using entries_last [of "rev S" "enc C"] S(2) hd by auto
  have x: "(0 # entries ?raws)[0 := of_nat (length (rev S))] = stack_bytes ?raws"
    using stack_count [of ?raws] by simp
  have tr: "bytes (stack_bytes ?raws) (int (m' + 4)) (int (length (enc C (hd S)))) = Inr (enc C (hd S))"
    by (rule last_entry [of _ "of_nat (length ?raws) # y"]) (use l(6,7) hd in \<open>simp_all add: stack_bytes_def y\<close>)
  obtain q2 where q2: "free_block q1 b = Inr q2" "pool_live q2 = pool_live q1 - set_option b"
    using free_block_live [OF q1(1), of b] q1(3) l(5) p1(2) by auto
  have len: "n - m' - 4 = length (enc C (hd S))" using l(7) hd by simp
  have nb: "set_option b \<inter> {a, t} = {}" using l(4,5) p1(2) q1(2) by auto
  have "get_signers_result b (Some P) (n, m', Some (a, 0 # entries ?raws), of_nat (length (rev S)), [], q)
      = Inr (True, \<lparr>CertStack = Some (Some (a, stack_bytes ?raws)), StackLength = Some n,
       TrustedCertOut = Some (Some (t, enc C (hd S))), CertLength = Some (length (enc C (hd S)))\<rparr>, q2)"
    unfolding get_signers_result_def prod.case option.case Let_def x len t tr bind_res_simps
    by (simp add: get_signers_exit_def q2(1) free_stacks_def free_buf_def free_block_def [of _ None] Let_def)
  then have "ossl_Pkcs7GetSigners C p (Some m) True = Inr (True,
      \<lparr>CertStack = Some (Some (a, stack_bytes ?raws)), StackLength = Some n,
       TrustedCertOut = Some (Some (t, enc C (hd S))), CertLength = Some (length (enc C (hd S)))\<rparr>, q2)"
    using m by (simp add: ossl_Pkcs7GetSigners_def wrap S(1) l(1) [simplified])
  then show ?thesis using l(4,5,6) q1(2,3) q2(2) p1(2,3) nb by (intro exI conjI) auto
qed


text \<open>When memory for the buffer runs out, the function returns \<^verbatim>\<open>TRUE\<close> and has written none of its
  results, or it frees a certificate twice: \<^verbatim>\<open>PKCS7_get0_signers\<close> lends the certificates of the
  message, and \<^verbatim>\<open>sk_X509_pop_free\<close> frees those left on the stack after \<^verbatim>\<open>PKCS7_free\<close> has done so.\<close>

theorem ossl_signers_out_of_memory:
  assumes wrap: "WrapPkcs7Data p m = Inr (True, Wrapped, (b, W), p1)"
    and p: "pool_inv p" and m: "length m \<le> INT_MAX"
    and S: "signers_of C W = (Some P, Some S)" "p7o_certs P = Some xs" "set S \<subseteq> set xs"
    and jump: "pop_loop C (rev S) 1 1 None 0 p1 = Inr (Inl (Old, Single, Rest, q))"
  shows "if Rest = []
    then \<exists>q'. ossl_Pkcs7GetSigners C p (Some m) True = Inr (True, no_out, q') \<and> pool_live q' = pool_live p
    else ossl_Pkcs7GetSigners C p (Some m) True = Inl UseAfterFree"
proof -
  note p1 = wrap_pool [OF wrap p]
  have "\<exists>r. pop_loop C (rev S) 1 1 None 0 p1 = Inr r
      \<and> (case r of Inl j \<Rightarrow> jumped p1 (pool_live p1) (rev S) j
         | Inr e \<Rightarrow> ended C p1 (pool_live p1) (rev S) 1 None 0 e)"
    using p1(1) by (intro pop_loop_spec) simp_all
  then have "jumped p1 (pool_live p1) (rev S) (Old, Single, Rest, q)" using jump by auto
  then obtain x popped where q: "pool_inv q" "pool_live q = pool_live p1 \<union> blk Old \<union> blk Single"
    "blk Old \<inter> blk Single = {}" "(blk Old \<union> blk Single) \<inter> pool_live p1 = {}" "rev S = x # popped @ Rest"
    unfolding jumped_def prod.case by blast
  have get: "ossl_Pkcs7GetSigners C p (Some m) True
      = get_signers_exit b (Some P) Rest Single True None Old no_out q"
    using m jump by (simp add: ossl_Pkcs7GetSigners_def wrap S(1))
  obtain q1 where q1: "free_block q b = Inr q1" "pool_inv q1" "pool_live q1 = pool_live q - set_option b"
    using free_block_live [OF q(1), of b] q(2) p1(2) by auto
  show ?thesis
  proof (cases "Rest = []")
    case True
    have "blk Single \<subseteq> pool_live q1" using q1(3) q(2,4) p1(2) by blast
    then obtain q2 where q2: "free_buf q1 Single = Inr q2" "pool_inv q2" "pool_live q2 = pool_live q1 - blk Single"
      using free_buf_blk [OF q1(2), of Single] by blast
    have "blk Old \<subseteq> pool_live q2" using q2(3) q1(3) q(2-4) p1(2) by blast
    then obtain q3 where q3: "free_buf q2 Old = Inr q3" "pool_live q3 = pool_live q2 - blk Old"
      using free_buf_blk [OF q2(2), of Old] by blast
    have "get_signers_exit b (Some P) Rest Single True None Old no_out q = Inr (True, no_out, q3)"
      using True by (simp add: get_signers_exit_def q1(1) q2(1) q3(1) free_stacks_def Let_def)
    moreover have "pool_live q3 = pool_live p" using q3(2) q2(3) q1(3) q(2-4) p1(2,3) by auto
    ultimately show ?thesis using True get by simp
  next
    case False
    then have "hd Rest \<in> set (rev S)" "hd Rest \<in> set Rest" using q(5) by auto
    then have "\<exists>x \<in> set Rest. x \<in> set xs" using S(3) by auto
    then have "get_signers_exit b (Some P) Rest Single True None Old no_out q = Inl UseAfterFree"
      by (simp add: get_signers_exit_def q1(1) free_stacks_def S(2) Let_def)
    then show ?thesis using False get by simp
  qed
qed

section \<open>Pkcs7GetCertificatesList\<close>

text \<open>C29: \<^verbatim>\<open>Pkcs7GetCertificatesList\<close> returns \<^verbatim>\<open>TRUE\<close>, with no certificates, for whatever is not a message
  of one signer: after the message is wrapped, \<^verbatim>\<open>Status\<close> is \<^verbatim>\<open>TRUE\<close> and stays so.\<close>

theorem ossl_certlist_garbage:
  assumes "WrapPkcs7Data p m = Inr (True, Wrapped, (b, W), p1)" and "pool_inv p" and "length m \<le> INT_MAX"
    and "\<forall>P s. signers_of C W \<noteq> (Some P, Some [s])"
  shows "\<exists>q. ossl_Pkcs7GetCertificatesList C p (Some m) True = Inr (True, Some no_lists, q)
    \<and> pool_live q = pool_live p"
proof -
  note p1 = wrap_pool [OF assms(1,2)]
  obtain q where q: "free_block p1 b = Inr q" "pool_live q = pool_live p1 - set_option b"
    using free_block_live [OF p1(1), of b] p1(2) by auto
  have "(case signers_of C W of (Some P, Some [s]) \<Rightarrow> f P s | _ \<Rightarrow> lists_exit b True None None no_lists p1)
      = lists_exit b True None None no_lists p1" for f
    using assms(4) by (auto split: prod.splits option.splits list.splits)
  moreover have "lists_exit b True None None no_lists p1 = Inr (True, no_lists, q)"
    by (simp add: lists_exit_def q(1) free_buf_def free_block_def [of _ None])
  ultimately have "ossl_Pkcs7GetCertificatesList C p (Some m) True = Inr (True, Some no_lists, q)"
    using assms(3) by (simp add: ossl_Pkcs7GetCertificatesList_def assms(1))
  then show ?thesis using q(2) p1(2,3) by auto
qed

text \<open>
  What the chain is: every certificate in it but the first is the issuer of the one before; it ends
  at a certificate that the context takes for self-issued, or whose issuer is not there.
\<close>

definition chain_ends :: "'x p7_ossl \<Rightarrow> 'x \<Rightarrow> 'x list \<Rightarrow> bool" where
  "chain_ends C x U \<longleftrightarrow> (\<exists>i. p7o_get1_issuer C x = Some i \<and> p7o_same_cert C i x)
     \<or> (\<forall>u \<in> set U. \<not> p7o_issued_by C x u)"

lemma build_chain_spec:
  assumes "\<forall>k. p7o_sk_push_ok C k"
  shows "\<exists>more V. build_chain C x K (Some U) = Some (K @ more, Some V) \<and> mset U = mset more + mset V
    \<and> (\<forall>i < length more. p7o_issued_by C ((x # more) ! i) (more ! i)) \<and> chain_ends C (last (x # more)) V"
proof (induction "length U" arbitrary: x K U rule: less_induct)
  case less
  show ?case
  proof (cases "\<exists>i. p7o_get1_issuer C x = Some i \<and> p7o_same_cert C i x")
    case True
    then have "build_chain C x K (Some U) = Some (K @ [], Some U)" by (subst build_chain.simps) auto
    then show ?thesis using True
      by - (rule exI [of _ "[]"], rule exI [of _ U], simp add: chain_ends_def)
  next
    case no_self: False
    then have go: "\<not> (case p7o_get1_issuer C x of None \<Rightarrow> False | Some Issuer \<Rightarrow> p7o_same_cert C Issuer x)"
      by (auto split: option.splits)
    show ?thesis
    proof (cases "find (p7o_issued_by C x) U")
      case None
      then have "build_chain C x K (Some U) = Some (K @ [], Some U)"
        using go by (subst build_chain.simps) simp
      moreover have "chain_ends C x U" using None by (simp add: chain_ends_def find_None_iff)
      ultimately show ?thesis by - (rule exI [of _ "[]"], rule exI [of _ U], simp)
    next
      case (Some y)
      then have y: "y \<in> set U" "p7o_issued_by C x y" by (auto simp: find_Some_iff in_set_conv_nth)
      then have less_U: "length (remove1 y U) < length U"
        using length_pos_if_in_set [OF y(1)] by (simp add: length_remove1)
      obtain more V where rec: "build_chain C y (K @ [y]) (Some (remove1 y U)) = Some ((K @ [y]) @ more, Some V)"
        "mset (remove1 y U) = mset more + mset V"
        "\<forall>i < length more. p7o_issued_by C ((y # more) ! i) (more ! i)" "chain_ends C (last (y # more)) V"
        using less(1) [OF less_U, of y "K @ [y]"] by blast
      have "build_chain C x K (Some U) = Some (K @ (y # more), Some V)"
        using go Some assms rec(1) by (subst build_chain.simps) simp
      moreover have "mset U = mset (y # more) + mset V" using rec(2) y(1) insert_DiffM [of y "mset U"] by simp
      moreover have "\<forall>i < length (y # more). p7o_issued_by C ((x # y # more) ! i) ((y # more) ! i)"
      proof (intro allI impI)
        fix i
        assume "i < length (y # more)"
        then show "p7o_issued_by C ((x # y # more) ! i) ((y # more) ! i)"
          using rec(3) y(2) by (cases i) simp_all
      qed
      ultimately show ?thesis using rec(4) by - (rule exI [of _ "y # more"], rule exI [of _ V], simp)
    qed
  qed
qed

lemma stack_buffer_all:
  assumes "pool_inv p" and "\<forall>k n. pool_ok p k n" and "\<forall>x \<in> set S. encodable C x"
  shows "\<exists>c n q. stack_buffer C S p = Inr (Inr (c, n, q)) \<and> pool_inv q \<and> pool_ok q = pool_ok p
    \<and> blk c \<inter> pool_live p = {} \<and> pool_live q = blk c \<union> pool_live p
    \<and> (if S = [] then c = None
       else \<exists>a. c = Some (a, stack_bytes (map (enc C) (rev S))) \<and> n = length (stack_bytes (map (enc C) (rev S))))"
proof (cases "S = []")
  case True
  then show ?thesis using assms(1) by (simp add: stack_buffer_def)
next
  case False
  then show ?thesis
    using pop_loop_all [OF assms(1,2), of "rev S" C] assms(3) stack_count [of "map (enc C) (rev S)"]
    by (auto simp: stack_buffer_def)
qed


text \<open>The bytes of a buffer of certificates, NULL for no certificates.\<close>

definition holds_certs :: "'x p7_ossl \<Rightarrow> 'x list \<Rightarrow> cert_buf \<Rightarrow> nat \<Rightarrow> bool" where
  "holds_certs C S c n \<longleftrightarrow> (if S = [] then c = None \<and> n = 0
     else \<exists>a. c = Some (a, stack_bytes (map (enc C) (rev S))) \<and> n = length (stack_bytes (map (enc C) (rev S))))"

lemma fill_lists_all:
  assumes p: "pool_inv p" "\<forall>k n. pool_ok p k n" and b: "set_option b \<subseteq> pool_live p"
    and S: "\<forall>x \<in> set S \<union> set U. encodable C x"
  shows "\<exists>out q. fill_lists C b S (Some U) p = Inr (True, out, q)
    \<and> holds_certs C S (cl_Chain out) (cl_ChainLength out) \<and> holds_certs C U (cl_Unchain out) (cl_UnchainLength out)
    \<and> pool_live q = (pool_live p - set_option b) \<union> blk (cl_Chain out) \<union> blk (cl_Unchain out)"
proof -
  have SS: "\<forall>x \<in> set S. encodable C x" and SU: "\<forall>x \<in> set U. encodable C x" using S by simp_all
  obtain c n p1 where 1: "stack_buffer C S p = Inr (Inr (c, n, p1))" "pool_inv p1" "pool_ok p1 = pool_ok p"
    "blk c \<inter> pool_live p = {}" "pool_live p1 = blk c \<union> pool_live p"
    "if S = [] then c = None
       else \<exists>a. c = Some (a, stack_bytes (map (enc C) (rev S))) \<and> n = length (stack_bytes (map (enc C) (rev S)))"
    using stack_buffer_all [OF p SS] by blast
  have ok1: "\<forall>k n. pool_ok p1 k n" using 1(3) p(2) by simp
  obtain d k p2 where 2: "stack_buffer C U p1 = Inr (Inr (d, k, p2))" "pool_inv p2"
    "blk d \<inter> pool_live p1 = {}" "pool_live p2 = blk d \<union> pool_live p1"
    "if U = [] then d = None
       else \<exists>a. d = Some (a, stack_bytes (map (enc C) (rev U))) \<and> k = length (stack_bytes (map (enc C) (rev U)))"
    using stack_buffer_all [OF 1(2) ok1 SU] by blast
  have b2: "set_option b \<subseteq> pool_live p2" using b 1(5) 2(4) by auto
  obtain q where q: "free_block p2 b = Inr q" "pool_live q = pool_live p2 - set_option b"
    using free_block_live [OF 2(2) b2] by auto
  define out1 where "out1 = (if c = None then no_lists else no_lists\<lparr>cl_Chain := c, cl_ChainLength := n\<rparr>)"
  define out where "out = (if d = None then out1 else out1\<lparr>cl_Unchain := d, cl_UnchainLength := k\<rparr>)"
  have "fill_lists C b S (Some U) p = Inr (True, out, q)"
    unfolding fill_lists_def 1(1) bind_res_simps sum.case prod.case Let_def option.case 2(1)
      out1_def [symmetric] out_def [symmetric] lists_exit_def q(1) free_buf_def option.map free_block_def [of _ None]
    by (rule refl)
  moreover have o: "cl_Chain out = c" "cl_Unchain out = d" "c \<noteq> None \<Longrightarrow> cl_ChainLength out = n"
    "c = None \<Longrightarrow> cl_ChainLength out = 0" "d \<noteq> None \<Longrightarrow> cl_UnchainLength out = k"
    "d = None \<Longrightarrow> cl_UnchainLength out = 0"
    by (auto simp: out_def out1_def no_lists_def)
  moreover have "holds_certs C S (cl_Chain out) (cl_ChainLength out)" "holds_certs C U (cl_Unchain out) (cl_UnchainLength out)"
    using 1(6) 2(5) o by (auto simp: holds_certs_def split: if_splits)
  moreover have "pool_live q = (pool_live p - set_option b) \<union> blk c \<union> blk d"
    using q(2) 2(3,4) 1(4,5) b by blast
  ultimately show ?thesis by auto
qed

text \<open>C28: With memory available, for a message of one signer, the certificates are split into the chain that starts with the
  signer's and the rest: nothing is lost, and each list comes out in reverse order.\<close>

theorem ossl_certlist_exact:
  assumes wrap: "WrapPkcs7Data p m = Inr (True, Wrapped, (b, W), p1)"
    and p: "pool_inv p" "\<forall>k n. pool_ok p k n" and m: "length m \<le> INT_MAX"
    and P: "signers_of C W = (Some P, Some [s])" "p7o_certs P = Some xs" "s \<in> set xs"
    and C: "p7o_ctx_ok C s" "p7o_ctx_chain C s = None" "p7o_sk_new_ok C" "\<forall>k. p7o_sk_push_ok C k"
    and enc: "\<forall>x \<in> set xs. encodable C x"
  shows "\<exists>more U out q. ossl_Pkcs7GetCertificatesList C p (Some m) True = Inr (True, Some out, q)
    \<and> mset (s # more) + mset U = mset xs
    \<and> (\<forall>i < length more. p7o_issued_by C ((s # more) ! i) (more ! i)) \<and> chain_ends C (last (s # more)) U
    \<and> holds_certs C (s # more) (cl_Chain out) (cl_ChainLength out)
    \<and> holds_certs C U (cl_Unchain out) (cl_UnchainLength out)
    \<and> pool_live q = pool_live p \<union> blk (cl_Chain out) \<union> blk (cl_Unchain out)"
proof -
  note p1 = wrap_pool [OF wrap p(1)]
  obtain more U where ch: "build_chain C s [s] (Some (remove1 s xs)) = Some ([s] @ more, Some U)"
    "mset (remove1 s xs) = mset more + mset U"
    "\<forall>i < length more. p7o_issued_by C ((s # more) ! i) (more ! i)" "chain_ends C (last (s # more)) U"
    using build_chain_spec [OF C(4), of s "[s]" "remove1 s xs"] by blast
  have all: "mset (s # more) + mset U = mset xs" using ch(2) P(3) insert_DiffM [of s "mset xs"] by simp
  have "set (s # more) \<union> set U = set xs" using arg_cong [OF all, of set_mset] by simp
  then have encs: "\<forall>x \<in> set (s # more) \<union> set U. encodable C x" using enc by simp
  have ok1: "\<forall>k n. pool_ok p1 k n" using p1(4) p(2) by simp
  have "set_option b \<subseteq> pool_live p1" using p1(2) by simp
  then obtain out q where f: "fill_lists C b (s # more) (Some U) p1 = Inr (True, out, q)"
    "holds_certs C (s # more) (cl_Chain out) (cl_ChainLength out)" "holds_certs C U (cl_Unchain out) (cl_UnchainLength out)"
    "pool_live q = (pool_live p1 - set_option b) \<union> blk (cl_Chain out) \<union> blk (cl_Unchain out)"
    using fill_lists_all [OF p1(1) ok1 _ encs, of b] by blast
  have "chain_stacks C P s = Some (s # more, Some U)"
    using C P(2) ch(1) by (simp add: chain_stacks_def)
  then have "ossl_Pkcs7GetCertificatesList C p (Some m) True = Inr (True, Some out, q)"
    using m f(1) by (simp add: ossl_Pkcs7GetCertificatesList_def wrap P(1))
  moreover have "pool_live p1 - set_option b = pool_live p" using p1(2,3) by auto
  ultimately show ?thesis using all ch(3,4) f(2-4)
    by (intro exI [of _ more] exI [of _ U] exI [of _ out] exI [of _ q]) simp
qed

section \<open>Pkcs7Verify and Pkcs7GetAttachedContent\<close>

text \<open>\<^verbatim>\<open>Pkcs7Verify\<close> accepts exactly what OpenSSL verifies against the trusted certificate, for a
  message in its \<^verbatim>\<open>ContentInfo\<close>, and leaves nothing allocated.\<close>

theorem ossl_pkcs7_verify_exact:
  assumes wrap: "WrapPkcs7Data p m = Inr (True, Wrapped, (b, W), p1)" and p: "pool_inv p"
    and len: "length m \<le> INT_MAX" "length T \<le> INT_MAX" "length D \<le> INT_MAX" and "p7o_digests_ok C"
  shows "\<exists>ok q. Pkcs7Verify_ossl C p (Some m) (Some T) (Some D) = Inr (ok, q) \<and> pool_live q = pool_live p
    \<and> (ok \<longleftrightarrow> length W \<le> INT_MAX \<and> p7o_bio_ok C \<and> (\<exists>P X. p7o_d2i C W = Some P \<and> p7o_signed P
         \<and> p7o_d2i_X509 C T = Some X \<and> p7o_store_ok C X \<and> p7o_verify C P X D))"
proof -
  note p1 = wrap_pool [OF wrap p]
  obtain q where q: "free_block p1 b = Inr q" "pool_live q = pool_live p1 - set_option b"
    using free_block_live [OF p1(1), of b] p1(2) by auto
  have "Pkcs7Verify_ossl C p (Some m) (Some T) (Some D) = Inr (ossl_verify_signed C W T D, q)"
    using len assms(6) q(1) by (simp add: Pkcs7Verify_ossl_def wrap)
  moreover have "pool_live q = pool_live p" using q(2) p1(2,3) by auto
  ultimately show ?thesis by (auto simp: ossl_verify_signed_def split: option.splits)
qed

lemma attached_spec:
  assumes "attached C W p = (ok, c, n, q)" and "pool_inv p"
  shows "pool_inv q \<and> pool_live q = pool_live p \<union> blk c \<and> blk c \<inter> pool_live p = {}"
    and "ok \<Longrightarrow> \<exists>P. p7o_d2i C W = Some P \<and> p7o_signed P \<and>
      (if p7o_detached P then c = None \<and> n = Some 0
       else \<exists>x. Pkcs7GetOctetString (p7o_contents P) = Some x \<and>
         (if x = [] then c = None \<and> n = None else map_option snd c = Some x \<and> n = Some (length x)))"
  using assms unfolding attached_def
  by (auto split: if_splits option.splits prod.splits dest: AllocatePool_Some AllocatePool_None)

text \<open>The attached content is a copy in a new block. Without one \<^verbatim>\<open>TRUE\<close> is returned for a detached
  or empty content, and for a wrapped message above \<^verbatim>\<open>INT_MAX\<close>, which is not even decoded.\<close>

theorem ossl_attached_content:
  assumes wrap: "WrapPkcs7Data p m = Inr (True, Wrapped, (b, W), p1)" and p: "pool_inv p"
    and len: "length m \<le> INT_MAX"
  shows "\<exists>ok c n q. Pkcs7GetAttachedContent C p (Some m) True = Inr (ok, Some c, n, q)
    \<and> pool_live q = pool_live p \<union> blk c \<and> blk c \<inter> pool_live p = {}
    \<and> (length W > INT_MAX \<longrightarrow> ok \<and> c = None \<and> n = None)
    \<and> (length W \<le> INT_MAX \<and> ok \<longrightarrow> (\<exists>P. p7o_d2i C W = Some P \<and> p7o_signed P \<and>
        (if p7o_detached P then c = None \<and> n = Some 0
         else \<exists>x. Pkcs7GetOctetString (p7o_contents P) = Some x \<and>
           (if x = [] then c = None \<and> n = None else map_option snd c = Some x \<and> n = Some (length x)))))"
proof -
  note p1 = wrap_pool [OF wrap p]
  obtain ok c n q1 where r: "(if length W > INT_MAX then (True, None, None, p1) else attached C W p1) = (ok, c, n, q1)"
    by (cases "if length W > INT_MAX then (True, None, None, p1) else attached C W p1") auto
  have q1: "pool_inv q1 \<and> pool_live q1 = pool_live p1 \<union> blk c \<and> blk c \<inter> pool_live p1 = {}"
    using r p1(1) attached_spec(1) [of C W p1 ok c n q1] by (auto split: if_splits)
  then obtain q where q: "free_block q1 b = Inr q" "pool_live q = pool_live q1 - set_option b"
    using free_block_live [of q1 b] p1(2) by auto
  have "Pkcs7GetAttachedContent C p (Some m) True = Inr (ok, Some c, n, q)"
    using len q(1) r by (simp add: Pkcs7GetAttachedContent_def wrap)
  moreover have "pool_live q = pool_live p \<union> blk c \<and> blk c \<inter> pool_live p = {}"
    using q(2) q1 p1(2,3) by auto
  moreover have "length W > INT_MAX \<Longrightarrow> ok \<and> c = None \<and> n = None" using r by simp
  moreover have "length W \<le> INT_MAX \<Longrightarrow> attached C W p1 = (ok, c, n, q1)" using r by simp
  ultimately show ?thesis
    using attached_spec(2) [of C W p1 ok c n q1] p1(1)
    by (intro exI [of _ ok] exI [of _ c] exI [of _ n] exI [of _ q]) blast
qed

section \<open>An instance\<close>

text \<open>
  Certificates are numbers, encoded in one byte, and each is issued by its successor; the message has
  the certificates 9, 2, 1 and 3 and an empty content.
\<close>

definition demo_p7s :: "nat list \<Rightarrow> nat p7_ossl" where
  "demo_p7s S = \<lparr>p7o_digests_ok = True,
     p7o_d2i = (\<lambda>x. if S = [] then None else Some \<lparr>p7o_signed = True, p7o_certs = Some [9, 2, 1, 3],
        p7o_signers = Some S, p7o_detached = False, p7o_contents = P7_data (Some [])\<rparr>),
     p7o_d2i_X509 = (\<lambda>x. Some 4), p7o_store_ok = (\<lambda>x. True), p7o_bio_ok = True,
     p7o_verify = (\<lambda>P x d. d = [1, 2, 3]), p7o_cert_bio_ok = (\<lambda>x. True),
     p7o_i2d_X509 = (\<lambda>x. Some [of_nat x]), p7o_ctx_ok = (\<lambda>x. True), p7o_ctx_chain = (\<lambda>x. None),
     p7o_sk_new_ok = True, p7o_sk_push_ok = (\<lambda>n. True), p7o_get1_issuer = (\<lambda>x. None),
     p7o_same_cert = (=), p7o_issued_by = (\<lambda>c i. i = Suc c)\<rparr>"

lemma demo_W_len: "length demo_W \<le> INT_MAX"
proof -
  have "length demo_W = 116" by code_simp
  then show ?thesis by (simp add: INT_MAX_def)
qed

lemma demo_p7s_signers:
  "S \<noteq> [] \<Longrightarrow> signers_of (demo_p7s S) demo_W = (Some \<lparr>p7o_signed = True, p7o_certs = Some [9, 2, 1, 3],
     p7o_signers = Some S, p7o_detached = False, p7o_contents = P7_data (Some [])\<rparr>, Some S)"
  "signers_of (demo_p7s []) demo_W = (None, None)"
  using demo_W_len by (simp_all add: signers_of_def demo_p7s_def)

lemma demo_p7s_enc: "encodable (demo_p7s S) x" "enc (demo_p7s S) x = [of_nat x]"
  by (simp_all add: encodable_def enc_def demo_p7s_def INT_MAX_def)

lemma demo_pool_ok: "pool_inv demo_pool" "\<forall>k n. pool_ok demo_pool k n"
  by (simp_all add: demo_pool_def) (simp add: empty_pool_def)

lemma demo_W_wrap: "WrapPkcs7Data p demo_W = Inr (True, True, (None, demo_W), p)"
proof -
  have "is_wrapped demo_W = Inr True" by code_simp
  then show ?thesis by (simp add: WrapPkcs7Data_def)
qed

theorem ossl_get_signers_witness:
  "\<exists>a t q. ossl_Pkcs7GetSigners (demo_p7s [1, 3]) demo_pool (Some demo_msg) True = Inr (True,
      \<lparr>CertStack = Some (Some (a, [2, 1, 0, 0, 0, 3, 1, 0, 0, 0, 1])), StackLength = Some 11,
       TrustedCertOut = Some (Some (t, [1])), CertLength = Some 1\<rparr>, q)"
proof -
  have "stack_bytes [[3], [1]] = [2, 1, 0, 0, 0, 3, 1, 0, 0, 0, 1]"
    by (simp add: stack_bytes_def entry_def le32_def)
  then show ?thesis
    using ossl_get_signers [OF demo_wrap demo_pool_ok demo_len(1) demo_p7s_signers(1) [of "[1, 3]"]]
    by (auto simp: demo_p7s_enc)
qed

text \<open>The first signer is popped, and there is no memory for a buffer of six bytes.\<close>

definition small_pool :: pool where "small_pool = empty_pool (\<lambda>k n. n \<noteq> 6)"

lemma small_pool_pop:
  "pop_loop (demo_p7s S) (x # Stack) 1 1 None 0 small_pool
    = Inr (Inl (None, Some (0, [of_nat x]), Stack, \<lparr>pool_ok = \<lambda>k n. n \<noteq> 6, pool_next = 2, pool_live = {0}\<rparr>))"
  by (simp add: X509PopCertificate_def demo_p7s_def INT_MAX_def AllocatePool_def small_pool_def empty_pool_def)

theorem ossl_signers_out_of_memory_witness:
  "(\<exists>q. ossl_Pkcs7GetSigners (demo_p7s [1]) small_pool (Some demo_W) True = Inr (True, no_out, q))
   \<and> ossl_Pkcs7GetSigners (demo_p7s [1, 3]) small_pool (Some demo_W) True = Inl UseAfterFree"
proof -
  have inv: "pool_inv small_pool" by (simp add: small_pool_def)
  note main = ossl_signers_out_of_memory [OF demo_W_wrap inv demo_W_len demo_p7s_signers(1)]
  have pops: "pop_loop (demo_p7s [1]) (rev [1]) 1 1 None 0 small_pool
      = Inr (Inl (None, Some (0, [1]), [], \<lparr>pool_ok = \<lambda>k n. n \<noteq> 6, pool_next = 2, pool_live = {0}\<rparr>))"
    "pop_loop (demo_p7s [1, 3]) (rev [1, 3]) 1 1 None 0 small_pool
      = Inr (Inl (None, Some (0, [3]), [1], \<lparr>pool_ok = \<lambda>k n. n \<noteq> 6, pool_next = 2, pool_live = {0}\<rparr>))"
    using small_pool_pop [of "[1]" 1 "[]"] small_pool_pop [of "[1, 3]" 3 "[1]"] by simp_all
  show ?thesis
    using main [OF _ _ _ pops(1), of "[9, 2, 1, 3]"] main [OF _ _ _ pops(2), of "[9, 2, 1, 3]"] by auto
qed

theorem ossl_certlist_garbage_witness:
  "\<exists>q. ossl_Pkcs7GetCertificatesList (demo_p7s []) demo_pool (Some demo_W) True = Inr (True, Some no_lists, q)"
  using ossl_certlist_garbage [OF demo_W_wrap demo_pool_ok(1) demo_W_len, of "demo_p7s []"]
  by (auto simp: demo_p7s_signers(2))

theorem ossl_certlist_exact_witness:
  "\<exists>more U out q. ossl_Pkcs7GetCertificatesList (demo_p7s [1]) demo_pool (Some demo_msg) True = Inr (True, Some out, q)
    \<and> mset (1 # more) + mset U = mset [9, 2, 1, 3] \<and> holds_certs (demo_p7s [1]) (1 # more) (cl_Chain out) (cl_ChainLength out)"
proof -
  have c: "p7o_ctx_ok (demo_p7s [1]) 1" "p7o_ctx_chain (demo_p7s [1]) 1 = None"
    "p7o_sk_new_ok (demo_p7s [1])" "\<forall>k. p7o_sk_push_ok (demo_p7s [1]) k"
    by (simp_all add: demo_p7s_def)
  have s: "signers_of (demo_p7s [1]) demo_W = (Some \<lparr>p7o_signed = True, p7o_certs = Some [9, 2, 1, 3],
     p7o_signers = Some [1], p7o_detached = False, p7o_contents = P7_data (Some [])\<rparr>, Some [1])"
    by (rule demo_p7s_signers) simp
  show ?thesis
    using ossl_certlist_exact [OF demo_wrap demo_pool_ok demo_len(1) s _ _ c, of "[9, 2, 1, 3]"]
    by (simp add: demo_p7s_enc) blast
qed

theorem ossl_pkcs7_verify_exact_witness:
  "\<exists>q. Pkcs7Verify_ossl (demo_p7s [1]) demo_pool (Some demo_msg) (Some demo_root) (Some [1, 2, 3]) = Inr (True, q)"
proof -
  have "length [1, 2, 3 :: byte] \<le> INT_MAX" "p7o_digests_ok (demo_p7s [1])"
    by (simp_all add: INT_MAX_def demo_p7s_def)
  then show ?thesis
    using ossl_pkcs7_verify_exact [OF demo_wrap demo_pool_ok(1) demo_len, of "[1, 2, 3]" "demo_p7s [1]"] demo_W_len
    by (auto simp: demo_p7s_def)
qed

theorem ossl_attached_content_witness:
  "\<exists>ok c n q. Pkcs7GetAttachedContent (demo_p7s [1]) demo_pool (Some demo_msg) True = Inr (ok, Some c, n, q)
    \<and> pool_live q = pool_live demo_pool \<union> blk c"
  using ossl_attached_content [OF demo_wrap demo_pool_ok(1) demo_len(1), of "demo_p7s [1]"] by blast

end
