(* ===== verification/OsslEku.thy ===== *)
theory OsslEku
  imports OsslPkcs7Props
begin

text \<open>
  \<^verbatim>\<open>OpensslPkg/Library/BaseCryptLib/Pk/CryptPkcs7VerifyEku.c\<close>: whether the required extended key
  usages are in the certificate of the signer. OpenSSL's functions are the fields of \<open>eku_ossl\<close>; its
  objects are freed on every path.
\<close>

datatype p7_nid = NID_pkcs7_signed | NID_pkcs7_signedAndEnveloped | NID_pkcs7_elsewise

text \<open>
  The structure behind the type (\<^verbatim>\<open>d.sign\<close> or \<^verbatim>\<open>d.signed_and_enveloped\<close>, \<open>None\<close> for NULL) and in it
  the stack of certificates, and the signers with their pointers, which may be NULL.
\<close>

record 'x eku_p7 =
  ep_type :: p7_nid
  ep_sign :: "'x list option option"
  ep_enveloped :: "'x list option option"
  ep_signers :: "'x option list option"

text \<open>
  \<open>ek_usages\<close> is the extended key usage of a certificate: \<open>None\<close> when the extension cannot be found
  or decoded, else its identifiers. \<open>ek_d2i\<close> gets the length as the code casts it.
\<close>

record 'x eku_ossl =
  ek_d2i :: "byte list \<Rightarrow> int \<Rightarrow> 'x eku_p7 option"
  ek_txt2obj :: "byte list \<Rightarrow> byte list option"
  ek_dup_ok :: "'x \<Rightarrow> bool"
  ek_usages :: "'x \<Rightarrow> byte list option list option"

definition GetSignerCertificate :: "'x eku_p7 option \<Rightarrow> efi_status \<times> 'x option" where
  "GetSignerCertificate CertChain =
    (case CertChain of
       None \<Rightarrow> (EFI_INVALID_PARAMETER, None)
     | Some P \<Rightarrow>
         (case ep_signers P of
            None \<Rightarrow> (EFI_INVALID_PARAMETER, None)
          | Some Signers \<Rightarrow>
              if length Signers \<noteq> 1 then (EFI_NOT_FOUND, None) else (EFI_SUCCESS, hd Signers)))"

text \<open>The loop over the identifiers in the certificate; a NULL ends it.\<close>

primrec usage_search :: "byte list \<Rightarrow> byte list option list \<Rightarrow> efi_status" where
  "usage_search Asn1ToFind [] = EFI_NOT_FOUND"
| "usage_search Asn1ToFind (Asn1InCert # Eku) =
    (case Asn1InCert of
       None \<Rightarrow> EFI_NOT_FOUND
     | Some oid \<Rightarrow>
         if length oid = length Asn1ToFind \<and> oid = Asn1ToFind then EFI_SUCCESS
         else usage_search Asn1ToFind Eku)"

definition ossl_IsEkuInCertificate :: "'x eku_ossl \<Rightarrow> 'x option \<Rightarrow> byte list option \<Rightarrow> efi_status" where
  "ossl_IsEkuInCertificate K Cert Asn1ToFind =
    (case (Cert, Asn1ToFind) of
       (Some Cert, Some oid) \<Rightarrow>
         if \<not> ek_dup_ok K Cert then EFI_INVALID_PARAMETER
         else (case ek_usages K Cert of
                 None \<Rightarrow> EFI_NOT_FOUND
               | Some Eku \<Rightarrow> usage_search oid Eku)
     | _ \<Rightarrow> EFI_INVALID_PARAMETER)"

text \<open>The loop over the required usages: \<^verbatim>\<open>Status\<close> and \<^verbatim>\<open>NumEkusFound\<close>.\<close>

primrec ossl_eku_loop ::
    "'x eku_ossl \<Rightarrow> 'x \<Rightarrow> bool \<Rightarrow> byte list list \<Rightarrow> efi_status \<Rightarrow> nat \<Rightarrow> efi_status \<times> nat" where
  "ossl_eku_loop K Cert RequireAllPresent [] Status NumEkusFound = (Status, NumEkusFound)"
| "ossl_eku_loop K Cert RequireAllPresent (txt # txts) Status NumEkusFound =
    (case ek_txt2obj K txt of
       None \<Rightarrow> (EFI_INVALID_PARAMETER, NumEkusFound)
     | Some oid \<Rightarrow>
         let Status = ossl_IsEkuInCertificate K (Some Cert) (Some oid) in
         if Status = EFI_SUCCESS then
           if \<not> RequireAllPresent then (Status, NumEkusFound + 1)
           else ossl_eku_loop K Cert RequireAllPresent txts Status (NumEkusFound + 1)
         else (Status, NumEkusFound))"

definition ossl_CheckEKUs ::
    "'x eku_ossl \<Rightarrow> 'x option \<Rightarrow> byte list list option \<Rightarrow> bool \<Rightarrow> efi_status" where
  "ossl_CheckEKUs K SignerCert RequiredEKUs RequireAllPresent =
    (let (Status, NumEkusFound) =
       (case (SignerCert, RequiredEKUs) of
          (Some Cert, Some txts) \<Rightarrow>
            if txts = [] then (EFI_INVALID_PARAMETER, 0)
            else ossl_eku_loop K Cert RequireAllPresent txts EFI_SUCCESS 0
        | _ \<Rightarrow> (EFI_INVALID_PARAMETER, 0))
     in if RequireAllPresent \<and> NumEkusFound = (case RequiredEKUs of None \<Rightarrow> 0 | Some txts \<Rightarrow> length txts)
        then EFI_SUCCESS else Status)"

text \<open>\<^verbatim>\<open>CertChain\<close> for the type of the message.\<close>

definition eku_cert_chain :: "'x eku_p7 \<Rightarrow> 'x list option" where
  "eku_cert_chain P =
    (case ep_type P of
       NID_pkcs7_signed \<Rightarrow> Option.bind (ep_sign P) (\<lambda>c. c)
     | NID_pkcs7_signedAndEnveloped \<Rightarrow> Option.bind (ep_enveloped P) (\<lambda>c. c)
     | NID_pkcs7_elsewise \<Rightarrow> None)"

text \<open>From the decoded message on.\<close>

definition check_signature ::
    "'x eku_ossl \<Rightarrow> 'x eku_p7 \<Rightarrow> byte list list \<Rightarrow> bool \<Rightarrow> efi_status" where
  "check_signature K P RequiredEKUs RequireAllPresent =
    (case eku_cert_chain P of
       None \<Rightarrow> EFI_INVALID_PARAMETER
     | Some CertChain \<Rightarrow>
         if CertChain = [] then EFI_INVALID_PARAMETER
         else (case GetSignerCertificate (Some P) of
                 (Status, SignerCert) \<Rightarrow>
                   if Status \<noteq> EFI_SUCCESS \<or> SignerCert = None then EFI_INVALID_PARAMETER
                   else ossl_CheckEKUs K SignerCert (Some RequiredEKUs) RequireAllPresent))"

definition ossl_VerifyEKUsInPkcs7Signature ::
    "'x eku_ossl \<Rightarrow> pool \<Rightarrow> byte list option \<Rightarrow> byte list list option \<Rightarrow> bool \<Rightarrow> (efi_status \<times> pool) res" where
  "ossl_VerifyEKUsInPkcs7Signature K p Pkcs7Signature RequiredEKUs RequireAllPresent =
    (case (Pkcs7Signature, RequiredEKUs) of
       (Some m, Some txts) \<Rightarrow>
         if m = [] \<or> txts = [] then Inr (EFI_INVALID_PARAMETER, p)
         else let RequireAllPresent = (length txts = 1 \<or> RequireAllPresent) in
           bind_res (WrapPkcs7Data p m) (\<lambda>(Ok, IsWrapped, (SignedData, W), p).
             if \<not> Ok then Inr (EFI_INVALID_PARAMETER, p)
             else let Status = (case ek_d2i K W (int32 (length W)) of
                                  None \<Rightarrow> EFI_INVALID_PARAMETER
                                | Some P \<Rightarrow> check_signature K P txts RequireAllPresent) in
               bind_res (free_block p SignedData) (\<lambda>p. Inr (Status, p)))
     | _ \<Rightarrow> Inr (EFI_INVALID_PARAMETER, p))"

section \<open>Which usages are enough\<close>

text \<open>The identifiers in front of the first NULL, which is where the search ends.\<close>

definition usages :: "'x eku_ossl \<Rightarrow> 'x \<Rightarrow> byte list set" where
  "usages K Cert = (if ek_dup_ok K Cert
     then (case ek_usages K Cert of None \<Rightarrow> {} | Some Eku \<Rightarrow> the ` set (takeWhile (\<lambda>x. x \<noteq> None) Eku))
     else {})"

lemma eku_status [simp]: "EFI_NOT_FOUND \<noteq> EFI_SUCCESS" "EFI_INVALID_PARAMETER \<noteq> EFI_SUCCESS"
  by (simp_all add: status_defs)

lemma usage_search_iff:
  "usage_search oid Eku = EFI_SUCCESS \<longleftrightarrow> oid \<in> the ` set (takeWhile (\<lambda>x. x \<noteq> None) Eku)"
proof (induction Eku)
  case (Cons x Eku)
  then show ?case by (cases x) auto
qed simp

lemma IsEku_iff: "ossl_IsEkuInCertificate K (Some Cert) (Some oid) = EFI_SUCCESS \<longleftrightarrow> oid \<in> usages K Cert"
proof (cases "ek_usages K Cert")
  case (Some Eku)
  then show ?thesis by (simp add: ossl_IsEkuInCertificate_def usages_def usage_search_iff)
qed (simp add: ossl_IsEkuInCertificate_def usages_def)

definition usage_there :: "'x eku_ossl \<Rightarrow> 'x \<Rightarrow> byte list \<Rightarrow> bool" where
  "usage_there K Cert txt \<longleftrightarrow> (\<exists>oid. ek_txt2obj K txt = Some oid \<and> oid \<in> usages K Cert)"

lemma eku_loop_one:
  assumes "ossl_eku_loop K Cert False (txt # txts) s n = (st, k)"
  shows "st = EFI_SUCCESS \<longleftrightarrow> usage_there K Cert txt"
proof (cases "ek_txt2obj K txt")
  case None
  then show ?thesis using assms by (auto simp: usage_there_def)
next
  case (Some oid)
  then show ?thesis using assms IsEku_iff [of K Cert oid]
    by (auto simp: usage_there_def Let_def split: if_splits)
qed

lemma eku_loop_count:
  "ossl_eku_loop K Cert True txts EFI_SUCCESS n = (st, k) \<Longrightarrow>
    k \<le> n + length txts \<and> (k = n + length txts \<longleftrightarrow> (\<forall>txt \<in> set txts. usage_there K Cert txt))
    \<and> (st = EFI_SUCCESS \<longleftrightarrow> k = n + length txts)"
proof (induction txts arbitrary: n)
  case Nil
  then show ?case by simp
next
  case (Cons t ts)
  show ?case
  proof (cases "usage_there K Cert t")
    case True
    then obtain oid where oid: "ek_txt2obj K t = Some oid" "oid \<in> usages K Cert"
      by (auto simp: usage_there_def)
    then have "ossl_eku_loop K Cert True ts EFI_SUCCESS (n + 1) = (st, k)"
      using Cons.prems IsEku_iff [of K Cert oid] by simp
    from Cons.IH [OF this] show ?thesis using True by auto
  next
    case False
    have "k = n \<and> st \<noteq> EFI_SUCCESS"
    proof (cases "ek_txt2obj K t")
      case None
      then show ?thesis using Cons.prems by auto
    next
      case (Some oid)
      then have "ossl_IsEkuInCertificate K (Some Cert) (Some oid) \<noteq> EFI_SUCCESS"
        using False IsEku_iff [of K Cert oid] by (auto simp: usage_there_def)
      then show ?thesis using Cons.prems Some by (auto simp: Let_def)
    qed
    then show ?thesis using False by auto
  qed
qed

text \<open>C31: The usages are checked against the certificate of the only signer. When all are required, all
  must be there; when one is enough, it is the first that must be there, and the others are not
  looked at unless it is there, in which case the search ends.\<close>

theorem ossl_eku_exact:
  assumes wrap: "WrapPkcs7Data p m = Inr (True, Wrapped, (b, W), p1)" and "pool_inv p"
    and "m \<noteq> []" and "txts \<noteq> []"
    and P: "ek_d2i K W (int32 (length W)) = Some P" "eku_cert_chain P = Some xs" "xs \<noteq> []"
      "ep_signers P = Some [Some Cert]"
  shows "\<exists>st q. ossl_VerifyEKUsInPkcs7Signature K p (Some m) (Some txts) req = Inr (st, q)
    \<and> pool_live q = pool_live p
    \<and> (st = EFI_SUCCESS \<longleftrightarrow> (if req then \<forall>txt \<in> set txts. usage_there K Cert txt
                             else usage_there K Cert (hd txts)))"
proof -
  note p1 = wrap_pool [OF wrap assms(2)]
  obtain q where q: "free_block p1 b = Inr q" "pool_live q = pool_live p1 - set_option b"
    using free_block_live [OF p1(1), of b] p1(2) by auto
  let ?all = "length txts = 1 \<or> req"
  have "ossl_VerifyEKUsInPkcs7Signature K p (Some m) (Some txts) req
      = Inr (ossl_CheckEKUs K (Some Cert) (Some txts) ?all, q)"
    using assms(3,4) P q(1)
    by (simp add: ossl_VerifyEKUsInPkcs7Signature_def wrap Let_def check_signature_def GetSignerCertificate_def)
  moreover have "pool_live q = pool_live p" using q(2) p1(2,3) by auto
  moreover have "ossl_CheckEKUs K (Some Cert) (Some txts) ?all = EFI_SUCCESS \<longleftrightarrow>
      (if req then \<forall>txt \<in> set txts. usage_there K Cert txt else usage_there K Cert (hd txts))"
  proof (cases ?all)
    case True
    obtain st k where l: "ossl_eku_loop K Cert True txts EFI_SUCCESS 0 = (st, k)" by fastforce
    have A: "?all = True" using True by simp
    have 1: "ossl_CheckEKUs K (Some Cert) (Some txts) True = EFI_SUCCESS \<longleftrightarrow> (\<forall>txt \<in> set txts. usage_there K Cert txt)"
      using eku_loop_count [OF l] assms(4) by (auto simp: ossl_CheckEKUs_def l)
    have "set txts = {hd txts}" if "\<not> req" using True that by (cases txts) auto
    then show ?thesis unfolding A 1 by (cases req) simp_all
  next
    case False
    obtain u rest where t: "txts = u # rest" using assms(4) by (cases txts) auto
    obtain st k where l: "ossl_eku_loop K Cert False (u # rest) EFI_SUCCESS 0 = (st, k)" by fastforce
    have "ossl_CheckEKUs K (Some Cert) (Some txts) False = st"
      unfolding ossl_CheckEKUs_def t option.case prod.case l by simp
    then show ?thesis using False eku_loop_one [OF l] t by simp
  qed
  ultimately show ?thesis by blast
qed

text \<open>A certificate with the second of two usages, of which one is enough.\<close>

definition demo_eku :: "unit eku_ossl" where
  "demo_eku = \<lparr>ek_d2i = (\<lambda>x n. Some \<lparr>ep_type = NID_pkcs7_signed, ep_sign = Some (Some [()]),
     ep_enveloped = None, ep_signers = Some [Some ()]\<rparr>), ek_txt2obj = Some, ek_dup_ok = (\<lambda>c. True),
     ek_usages = (\<lambda>c. Some [Some [2]])\<rparr>"

theorem ossl_eku_exact_witness:
  "\<exists>st q. ossl_VerifyEKUsInPkcs7Signature demo_eku demo_pool (Some demo_msg) (Some [[1], [2]]) False = Inr (st, q)
    \<and> st \<noteq> EFI_SUCCESS"
proof -
  define P :: "unit eku_p7" where "P = \<lparr>ep_type = NID_pkcs7_signed, ep_sign = Some (Some [()]),
     ep_enveloped = None, ep_signers = Some [Some ()]\<rparr>"
  have m: "demo_msg \<noteq> []" by (simp add: demo_msg_def demo_p7_def der_def)
  have P: "ek_d2i demo_eku x n = Some P" "eku_cert_chain P = Some [()]" "ep_signers P = Some [Some ()]" for x n
    by (simp_all add: demo_eku_def P_def eku_cert_chain_def)
  have no: "\<not> usage_there demo_eku () [1]"
    by (simp add: usage_there_def usages_def demo_eku_def)
  obtain st q where "ossl_VerifyEKUsInPkcs7Signature demo_eku demo_pool (Some demo_msg) (Some [[1], [2]]) False
      = Inr (st, q)" "st \<noteq> EFI_SUCCESS"
    using ossl_eku_exact [OF demo_wrap demo_pool_ok(1) m _ P(1,2) _ P(3), of "[[1], [2]]" False] no by auto
  then show ?thesis by blast
qed

end
