(* ===== verification/Pkcs7Sign.thy ===== *)
theory Pkcs7Sign
  imports Pkcs7Signers
begin

text \<open>
  \<^verbatim>\<open>MbedTlsPkg/Library/BaseCryptLib/Pk/CryptPkcs7Sign.c\<close>: \<^verbatim>\<open>Pkcs7Sign\<close> signs data and writes a PKCS#7
  message, from its end to its start.

  \<^item> A buffer that is written backwards is its size \<open>N\<close> and the bytes between \<^verbatim>\<open>*Ptr\<close> and its end.
    The functions of MbedTLS that write are the fields of \<open>asn1_writer\<close>; each gets both and returns
    \<^verbatim>\<open>Ret\<close> and the bytes after the call. \<open>Len\<close> is an \<open>int\<close>: what is counted is in the buffer.
  \<^item> Keys and signatures are the fields of \<open>sign_ops\<close>; certificates are decoded by \<open>mbedtls\<close>.
  \<^item> \<open>OtherCerts\<close> is a chain of certificates that the caller has decoded, the empty list for NULL.
\<close>

definition MBEDTLS_ERR_ASN1_BUF_TOO_SMALL :: int where "MBEDTLS_ERR_ASN1_BUF_TOO_SMALL = - 0x6C"
definition MAX_SIGNATURE_SIZE :: nat where "MAX_SIGNATURE_SIZE = 1024"

definition MBEDTLS_OID_PKCS1_RSA :: "byte list" where
  "MBEDTLS_OID_PKCS1_RSA = [0x2A, 0x86, 0x48, 0x86, 0xF7, 0x0D, 0x01, 0x01, 0x01]"

record asn1_writer =
  mbedtls_asn1_write_len :: "nat \<Rightarrow> byte list \<Rightarrow> int \<Rightarrow> int \<times> byte list"
  mbedtls_asn1_write_tag :: "nat \<Rightarrow> byte list \<Rightarrow> byte \<Rightarrow> int \<times> byte list"
  mbedtls_asn1_write_null :: "nat \<Rightarrow> byte list \<Rightarrow> int \<times> byte list"
  mbedtls_asn1_write_oid :: "nat \<Rightarrow> byte list \<Rightarrow> byte list \<Rightarrow> int \<times> byte list"
  mbedtls_asn1_write_octet_string :: "nat \<Rightarrow> byte list \<Rightarrow> byte list \<Rightarrow> int \<times> byte list"
  mbedtls_asn1_write_raw_buffer :: "nat \<Rightarrow> byte list \<Rightarrow> byte list \<Rightarrow> int \<times> byte list"
  mbedtls_asn1_write_int :: "nat \<Rightarrow> byte list \<Rightarrow> int \<Rightarrow> int \<times> byte list"
  mbedtls_asn1_write_algorithm_identifier :: "nat \<Rightarrow> byte list \<Rightarrow> byte list \<Rightarrow> nat \<Rightarrow> int \<times> byte list"
  mbedtls_oid_get_oid_by_md :: "md_type \<Rightarrow> byte list option"

text \<open>
  \<^verbatim>\<open>EDKII_ASN1_CHK_ADD (g, f)\<close>: an error is returned at once, anything else is added; \<open>k\<close> is the rest
  of the function.
\<close>

definition chk_add ::
    "int \<Rightarrow> (int \<times> byte list) res \<Rightarrow> (int \<Rightarrow> byte list \<Rightarrow> (int \<times> byte list) res) \<Rightarrow> (int \<times> byte list) res" where
  "chk_add g f k =
    bind_res f (\<lambda>(Ret, w). if Ret < 0 then Inr (Ret, w) else k (g + Ret) w)"

section \<open>The parts of a message\<close>

definition MbedTlsPkcs7WriteDigestAlgorithm ::
    "asn1_writer \<Rightarrow> nat \<Rightarrow> byte list \<Rightarrow> md_type \<Rightarrow> int \<times> byte list" where
  "MbedTlsPkcs7WriteDigestAlgorithm W N w DigestType =
    (case mbedtls_oid_get_oid_by_md W DigestType of
       Some Oid \<Rightarrow> mbedtls_asn1_write_oid W N w Oid
     | None \<Rightarrow> (0, w))"

primrec write_digests ::
    "asn1_writer \<Rightarrow> nat \<Rightarrow> md_type list \<Rightarrow> int \<Rightarrow> byte list
     \<Rightarrow> (int \<Rightarrow> byte list \<Rightarrow> (int \<times> byte list) res) \<Rightarrow> (int \<times> byte list) res" where
  "write_digests W N [] Len w k = k Len w"
| "write_digests W N (t # ts) Len w k =
    chk_add Len (Inr (MbedTlsPkcs7WriteDigestAlgorithm W N w t)) (\<lambda>Len w. write_digests W N ts Len w k)"

text \<open>The length of what was written, and a tag.\<close>

definition write_header ::
    "asn1_writer \<Rightarrow> nat \<Rightarrow> byte \<Rightarrow> int \<Rightarrow> byte list \<Rightarrow> (int \<Rightarrow> byte list \<Rightarrow> (int \<times> byte list) res)
     \<Rightarrow> (int \<times> byte list) res" where
  "write_header W N t Len w k =
    chk_add Len (Inr (mbedtls_asn1_write_len W N w Len)) (\<lambda>Len w.
    chk_add Len (Inr (mbedtls_asn1_write_tag W N w t)) k)"

text \<open>The end of a function: \<^verbatim>\<open>return Len\<close>.\<close>

definition return_len :: "int \<Rightarrow> byte list \<Rightarrow> (int \<times> byte list) res" where
  "return_len Len w = Inr (Len, w)"

definition MbedTlsPkcs7WriteDigestAlgorithmSet ::
    "asn1_writer \<Rightarrow> nat \<Rightarrow> byte list \<Rightarrow> md_type list \<Rightarrow> (int \<times> byte list) res" where
  "MbedTlsPkcs7WriteDigestAlgorithmSet W N w DigestTypes =
    chk_add 0 (Inr (mbedtls_asn1_write_null W N w)) (\<lambda>Len w.
    write_digests W N DigestTypes Len w (\<lambda>Len w.
    write_header W N ASN1_SEQUENCE Len w (\<lambda>Len w.
    write_header W N ASN1_SET Len w return_len)))"

definition MbedTlsPkcs7WriteContentInfo ::
    "asn1_writer \<Rightarrow> nat \<Rightarrow> byte list \<Rightarrow> byte list option \<Rightarrow> (int \<times> byte list) res" where
  "MbedTlsPkcs7WriteContentInfo W N w Content =
    (let rest = (\<lambda>Len w.
       chk_add Len (Inr (mbedtls_asn1_write_oid W N w MBEDTLS_OID_PKCS7_DATA)) (\<lambda>Len w.
       write_header W N ASN1_SEQUENCE Len w return_len)) in
     case Content of
       None \<Rightarrow> rest 0 w
     | Some x \<Rightarrow> chk_add 0 (Inr (mbedtls_asn1_write_octet_string W N w x)) rest)"

text \<open>The encodings of the other certificates, in the order of their chain.\<close>

primrec write_others ::
    "asn1_writer \<Rightarrow> nat \<Rightarrow> byte list list \<Rightarrow> int \<Rightarrow> byte list
     \<Rightarrow> (int \<Rightarrow> byte list \<Rightarrow> (int \<times> byte list) res) \<Rightarrow> (int \<times> byte list) res" where
  "write_others W N [] Len w k = k Len w"
| "write_others W N (raw # raws) Len w k =
    chk_add Len (Inr (mbedtls_asn1_write_raw_buffer W N w raw)) (\<lambda>Len w. write_others W N raws Len w k)"

definition MbedTlsPkcs7WriteCertificates ::
    "asn1_writer \<Rightarrow> nat \<Rightarrow> byte list \<Rightarrow> byte list \<Rightarrow> byte list list \<Rightarrow> (int \<times> byte list) res" where
  "MbedTlsPkcs7WriteCertificates W N w Cert OtherCerts =
    write_others W N OtherCerts 0 w (\<lambda>Len w.
    chk_add Len (Inr (mbedtls_asn1_write_raw_buffer W N w Cert)) (\<lambda>Len w.
    write_header W N ASN1_CONTEXT Len w return_len))"

text \<open>The bytes are copied without a look at the start of the buffer.\<close>

definition MbedTlsPkcs7WriteInt ::
    "asn1_writer \<Rightarrow> nat \<Rightarrow> byte list \<Rightarrow> byte list \<Rightarrow> (int \<times> byte list) res" where
  "MbedTlsPkcs7WriteInt W N w SerialRaw =
    (if length w + length SerialRaw > N then Inl OobWrite
     else write_header W N MBEDTLS_ASN1_INTEGER (int (length SerialRaw)) (SerialRaw @ w) return_len)"

definition MbedTlsPkcs7WriteIssuerAndSerialNumber ::
    "asn1_writer \<Rightarrow> nat \<Rightarrow> byte list \<Rightarrow> byte list \<Rightarrow> byte list \<Rightarrow> (int \<times> byte list) res" where
  "MbedTlsPkcs7WriteIssuerAndSerialNumber W N w Serial IssuerRaw =
    chk_add 0 (MbedTlsPkcs7WriteInt W N w Serial) (\<lambda>Len w.
    chk_add Len (Inr (mbedtls_asn1_write_raw_buffer W N w IssuerRaw)) (\<lambda>Len w.
    write_header W N ASN1_SEQUENCE Len w return_len))"

record signer_data =
  sg_Version :: int
  sg_Serial :: "byte list"
  sg_IssuerRaw :: "byte list"
  sg_AlgIdentifier :: "byte list"
  sg_SigAlgIdentifier :: "byte list"
  sg_Sig :: "byte list"

definition MbedTlsPkcs7WriteSignerInfo ::
    "asn1_writer \<Rightarrow> nat \<Rightarrow> byte list \<Rightarrow> signer_data \<Rightarrow> (int \<times> byte list) res" where
  "MbedTlsPkcs7WriteSignerInfo W N w SignerInfo =
    chk_add 0 (Inr (mbedtls_asn1_write_octet_string W N w (sg_Sig SignerInfo))) (\<lambda>Len w.
    chk_add Len (Inr (mbedtls_asn1_write_algorithm_identifier W N w (sg_SigAlgIdentifier SignerInfo) 0)) (\<lambda>Len w.
    chk_add Len (Inr (mbedtls_asn1_write_algorithm_identifier W N w (sg_AlgIdentifier SignerInfo) 0)) (\<lambda>Len w.
    chk_add Len (MbedTlsPkcs7WriteIssuerAndSerialNumber W N w (sg_Serial SignerInfo) (sg_IssuerRaw SignerInfo))
      (\<lambda>Len w.
    chk_add Len (Inr (mbedtls_asn1_write_int W N w (sg_Version SignerInfo))) (\<lambda>Len w.
    write_header W N ASN1_SEQUENCE Len w return_len)))))"

primrec write_signers ::
    "asn1_writer \<Rightarrow> nat \<Rightarrow> signer_data list \<Rightarrow> int \<Rightarrow> byte list
     \<Rightarrow> (int \<Rightarrow> byte list \<Rightarrow> (int \<times> byte list) res) \<Rightarrow> (int \<times> byte list) res" where
  "write_signers W N [] Len w k = k Len w"
| "write_signers W N (si # sis) Len w k =
    chk_add Len (MbedTlsPkcs7WriteSignerInfo W N w si) (\<lambda>Len w. write_signers W N sis Len w k)"

definition MbedTlsPkcs7WriteSignersInfoSet ::
    "asn1_writer \<Rightarrow> nat \<Rightarrow> byte list \<Rightarrow> signer_data list \<Rightarrow> (int \<times> byte list) res" where
  "MbedTlsPkcs7WriteSignersInfoSet W N w SignersSet =
    write_signers W N SignersSet 0 w (\<lambda>Len w. write_header W N ASN1_SET Len w return_len)"

text \<open>What is written of \<^verbatim>\<open>MbedtlsPkcs7\<close>; the certificates are their encodings.\<close>

record signed_message =
  sm_Version :: int
  sm_Certificate :: "byte list"
  sm_OtherCerts :: "byte list list"
  sm_SignerInfos :: "signer_data list"

definition MbedTlsPkcs7WriteDer ::
    "asn1_writer \<Rightarrow> nat \<Rightarrow> byte list \<Rightarrow> signed_message \<Rightarrow> (int \<times> byte list) res" where
  "MbedTlsPkcs7WriteDer W N w Pkcs7 =
    chk_add 0 (MbedTlsPkcs7WriteSignersInfoSet W N w (sm_SignerInfos Pkcs7)) (\<lambda>Len w.
    chk_add Len (MbedTlsPkcs7WriteCertificates W N w (sm_Certificate Pkcs7) (sm_OtherCerts Pkcs7)) (\<lambda>Len w.
    chk_add Len (MbedTlsPkcs7WriteContentInfo W N w None) (\<lambda>Len w.
    chk_add Len (MbedTlsPkcs7WriteDigestAlgorithmSet W N w [MBEDTLS_MD_SHA256]) (\<lambda>Len w.
    chk_add Len (Inr (mbedtls_asn1_write_int W N w (sm_Version Pkcs7))) (\<lambda>Len w.
    write_header W N ASN1_SEQUENCE Len w return_len)))))"

section \<open>Pkcs7Sign\<close>

text \<open>
  \<open>so_parse_key\<close> gets the key with its NUL, and the password; \<open>so_pk_sign\<close> is \<^verbatim>\<open>mbedtls_pk_sign\<close> with
  SHA-256 and the generator of the repository; \<open>so_sha256\<close> is \<^verbatim>\<open>mbedtls_sha256\<close>. \<open>None\<close> is an error.
\<close>

record 'sk sign_ops =
  so_parse_key :: "byte list \<Rightarrow> byte list \<Rightarrow> 'sk option"
  so_sha256 :: "byte list \<Rightarrow> byte list option"
  so_pk_sign :: "'sk \<Rightarrow> byte list \<Rightarrow> byte list option"
  so_is_rsa :: "'sk \<Rightarrow> bool"
  so_ecdsa_oid :: "byte list option"

text \<open>\<^verbatim>\<open>CryptSha256.c\<close>; data that is NULL has no size.\<close>

definition Sha256HashAll :: "'sk sign_ops \<Rightarrow> byte list \<Rightarrow> byte list option" where
  "Sha256HashAll S Data = so_sha256 S Data"

text \<open>The copy of the key, with a NUL at its end; an empty one is read in front of its start.\<close>

definition key_copy :: "byte list \<Rightarrow> byte list res" where
  "key_copy PrivateKey =
    (if PrivateKey = [] then Inl OobRead
     else Inr (if last PrivateKey \<noteq> 0 then PrivateKey @ [0] else PrivateKey))"

definition sign_value ::
    "'sk sign_ops \<Rightarrow> byte list \<Rightarrow> byte list \<Rightarrow> byte list \<Rightarrow> ('sk \<times> byte list) option" where
  "sign_value S NewPrivateKey KeyPassword InData =
    Option.bind (so_parse_key S NewPrivateKey KeyPassword) (\<lambda>Pkey.
    Option.bind (Sha256HashAll S InData) (\<lambda>HashValue.
    Option.bind (so_pk_sign S Pkey HashValue) (\<lambda>Signature. Some (Pkey, Signature))))"

definition sig_algorithm :: "'sk sign_ops \<Rightarrow> 'sk \<Rightarrow> byte list option" where
  "sig_algorithm S Pkey = (if so_is_rsa S Pkey then Some MBEDTLS_OID_PKCS1_RSA else so_ecdsa_oid S)"

definition raw_or_empty :: "byte list option \<Rightarrow> byte list" where
  "raw_or_empty x = (case x of None \<Rightarrow> [] | Some x \<Rightarrow> x)"

definition message_of ::
    "'pk x509_crt \<Rightarrow> 'pk x509_crt list \<Rightarrow> byte list \<Rightarrow> byte list \<Rightarrow> signed_message" where
  "message_of Crt OtherCerts SigAlg Sig =
    \<lparr>sm_Version = 1, sm_Certificate = crt_raw Crt, sm_OtherCerts = map crt_raw OtherCerts,
     sm_SignerInfos = [\<lparr>sg_Version = 1, sg_Serial = raw_or_empty (crt_serial Crt),
       sg_IssuerRaw = raw_or_empty (crt_issuer_raw Crt),
       sg_AlgIdentifier = MBEDTLS_OID_DIGEST_ALG_SHA256, sg_SigAlgIdentifier = SigAlg, sg_Sig = Sig\<rparr>]\<rparr>"

text \<open>
  The first attempt and the loop that enlarges the buffer, which holds the block \<open>b\<close>. \<open>None\<close> in the
  result: there is no memory, \<^verbatim>\<open>Buffer\<close> is NULL.
\<close>

partial_function (option) write_enlarge ::
    "asn1_writer \<Rightarrow> signed_message \<Rightarrow> nat \<Rightarrow> nat \<Rightarrow> pool
     \<Rightarrow> ((int \<times> byte list \<times> nat) option \<times> pool) res option" where
  "write_enlarge W Pkcs7 BufferSize b p =
    (case MbedTlsPkcs7WriteDer W BufferSize [] Pkcs7 of
       Inl f \<Rightarrow> Some (Inl f)
     | Inr (Len, w) \<Rightarrow>
         if Len \<noteq> MBEDTLS_ERR_ASN1_BUF_TOO_SMALL then Some (Inr (Some (Len, w, b), p))
         else (case FreePool p (Some b) of
           Inl f \<Rightarrow> Some (Inl f)
         | Inr p \<Rightarrow>
             (case AllocatePool p (BufferSize * 2) of
                (None, p) \<Rightarrow> Some (Inr (None, p))
              | (Some b, p) \<Rightarrow> write_enlarge W Pkcs7 (BufferSize * 2) b p)))"

declare write_enlarge.simps [code]

text \<open>
  The results: the status; \<^verbatim>\<open>SignedData\<close>, \<open>None\<close> when it is not written, with its block and bytes when
  it is not NULL; whether the certificates of \<open>OtherCerts\<close> were freed; the pool.
\<close>

type_synonym sign_result = "bool \<times> cert_buf option \<times> bool \<times> pool"

text \<open>\<^verbatim>\<open>Cleanup\<close>, once \<^verbatim>\<open>NewPrivateKey\<close> is there.\<close>

definition sign_exit ::
    "nat \<Rightarrow> nat option \<Rightarrow> bool \<Rightarrow> cert_buf option \<Rightarrow> bool \<Rightarrow> pool \<Rightarrow> sign_result res" where
  "sign_exit NewPrivateKey Buffer Status SignedData freed p =
    bind_res (FreePool p (Some NewPrivateKey)) (\<lambda>p.
    bind_res (case Buffer of None \<Rightarrow> Inr p | Some b \<Rightarrow> FreePool p (Some b)) (\<lambda>p.
      Inr (Status, SignedData, freed, p)))"

definition copy_result ::
    "nat \<Rightarrow> bool \<Rightarrow> (int \<times> byte list \<times> nat) option \<times> pool \<Rightarrow> sign_result res" where
  "copy_result NewPrivateKey freed r =
    (case r of
       (None, p) \<Rightarrow> sign_exit NewPrivateKey None False None freed p
     | (Some (Len, w, b), p) \<Rightarrow>
         if Len \<le> 0 then sign_exit NewPrivateKey (Some b) False None freed p
         else (case AllocatePool p (nat Len) of
                 (None, p) \<Rightarrow> sign_exit NewPrivateKey (Some b) False (Some None) freed p
               | (Some d, p) \<Rightarrow>
                   bind_res (bytes w 0 Len) (\<lambda>x.
                     sign_exit NewPrivateKey (Some b) True (Some (Some (d, x))) freed p)))"

definition sign_with ::
    "asn1_writer \<Rightarrow> 'sk sign_ops \<Rightarrow> pool \<Rightarrow> nat \<Rightarrow> byte list \<Rightarrow> byte list \<Rightarrow> byte list \<Rightarrow> 'pk x509_crt
     \<Rightarrow> 'pk x509_crt list \<Rightarrow> sign_result res option" where
  "sign_with W S p k Key KeyPassword InData Crt OtherCerts =
    (case sign_value S Key KeyPassword InData of
       None \<Rightarrow> Some (sign_exit k None False None False p)
     | Some (Pkey, Signature) \<Rightarrow>
         let freed = (OtherCerts \<noteq> []) in
         (case sig_algorithm S Pkey of
            None \<Rightarrow> Some (sign_exit k None False None freed p)
          | Some SigAlg \<Rightarrow>
              (case AllocatePool p 4096 of
                 (None, p) \<Rightarrow> Some (sign_exit k None False None freed p)
               | (Some b, p) \<Rightarrow>
                   map_option (\<lambda>r. bind_res r (copy_result k freed))
                     (write_enlarge W (message_of Crt OtherCerts SigAlg Signature) 4096 b p))))"

definition Pkcs7Sign ::
    "'pk mbedtls \<Rightarrow> asn1_writer \<Rightarrow> 'sk sign_ops \<Rightarrow> pool \<Rightarrow> byte list option \<Rightarrow> byte list option
     \<Rightarrow> byte list option \<Rightarrow> byte list option \<Rightarrow> 'pk x509_crt list \<Rightarrow> bool \<Rightarrow> sign_result res option" where
  "Pkcs7Sign L W S p PrivateKey KeyPassword InData SignCert OtherCerts outs =
    (case (PrivateKey, KeyPassword, InData, SignCert) of
       (Some PrivateKey, Some KeyPassword, Some InData, Some SignCert) \<Rightarrow>
         if \<not> outs \<or> length InData > INT_MAX then Some (Inr (False, None, False, p))
         else if SignCert = [] then Some (Inr (False, None, False, p))
         else (case mbedtls_x509_crt_parse_der L SignCert of
           (Ret, Crt) \<Rightarrow>
             if Ret \<noteq> 0 then Some (Inr (False, None, False, p))
             else (case key_copy PrivateKey of
               Inl f \<Rightarrow> Some (Inl f)
             | Inr Key \<Rightarrow>
                 (case AllocatePool p (length Key) of
                    (None, p) \<Rightarrow> Some (Inl Uninitialised)
                  | (Some k, p) \<Rightarrow> sign_with W S p k Key KeyPassword InData Crt OtherCerts)))
     | _ \<Rightarrow> Some (Inr (False, None, False, p)))"

end
