(* ===== verification/Pkcs7SignEncode.thy ===== *)
theory Pkcs7SignEncode
  imports Pkcs7Sign Der
begin

text \<open>
  What \<^verbatim>\<open>MbedTlsPkcs7WriteDer\<close> writes when the functions of MbedTLS do what is documented: put an
  encoding in front of what is there, or fail with \<^verbatim>\<open>MBEDTLS_ERR_ASN1_BUF_TOO_SMALL\<close> when it does
  not fit.
\<close>

section \<open>Writing\<close>

text \<open>The result of writing \<open>x\<close> in front of \<open>w\<close>, when \<open>n\<close> bytes are counted already.\<close>

definition emits :: "nat \<Rightarrow> nat \<Rightarrow> byte list \<Rightarrow> byte list \<Rightarrow> (int \<times> byte list) res \<Rightarrow> bool" where
  "emits N n w x r \<longleftrightarrow> (if length w + length x \<le> N then r = Inr (int (n + length x), x @ w)
     else \<exists>w'. r = Inr (MBEDTLS_ERR_ASN1_BUF_TOO_SMALL, w'))"

definition alg_id :: "byte list \<Rightarrow> byte list" where
  "alg_id oid = tlv ASN1_SEQUENCE (tlv MBEDTLS_ASN1_OID oid @ [5, 0])"

definition asn1_writes :: "asn1_writer \<Rightarrow> bool" where
  "asn1_writes W \<longleftrightarrow> (\<forall>N w. length w \<le> N \<longrightarrow>
     (\<forall>n < 65536. emits N 0 w (der_len n) (Inr (mbedtls_asn1_write_len W N w (int n))))
   \<and> (\<forall>t. emits N 0 w [t] (Inr (mbedtls_asn1_write_tag W N w t)))
   \<and> emits N 0 w [5, 0] (Inr (mbedtls_asn1_write_null W N w))
   \<and> (\<forall>x. length x < 65536 \<longrightarrow>
        emits N 0 w (tlv MBEDTLS_ASN1_OID x) (Inr (mbedtls_asn1_write_oid W N w x))
      \<and> emits N 0 w (tlv MBEDTLS_ASN1_OCTET_STRING x) (Inr (mbedtls_asn1_write_octet_string W N w x))
      \<and> emits N 0 w x (Inr (mbedtls_asn1_write_raw_buffer W N w x)))
   \<and> (\<forall>x. length x < 65000 \<longrightarrow>
        emits N 0 w (alg_id x) (Inr (mbedtls_asn1_write_algorithm_identifier W N w x 0)))
   \<and> emits N 0 w (tlv MBEDTLS_ASN1_INTEGER [1]) (Inr (mbedtls_asn1_write_int W N w 1)))
   \<and> mbedtls_oid_get_oid_by_md W MBEDTLS_MD_SHA256 = Some MBEDTLS_OID_DIGEST_ALG_SHA256"

lemma asn1_writesD:
  assumes "asn1_writes W" and "length w \<le> N"
  shows "n < 65536 \<Longrightarrow> emits N 0 w (der_len n) (Inr (mbedtls_asn1_write_len W N w (int n)))"
    and "emits N 0 w [t] (Inr (mbedtls_asn1_write_tag W N w t))"
    and "emits N 0 w [5, 0] (Inr (mbedtls_asn1_write_null W N w))"
    and "length x < 65536 \<Longrightarrow> emits N 0 w (tlv MBEDTLS_ASN1_OID x) (Inr (mbedtls_asn1_write_oid W N w x))"
    and "length x < 65536 \<Longrightarrow>
      emits N 0 w (tlv MBEDTLS_ASN1_OCTET_STRING x) (Inr (mbedtls_asn1_write_octet_string W N w x))"
    and "length x < 65536 \<Longrightarrow> emits N 0 w x (Inr (mbedtls_asn1_write_raw_buffer W N w x))"
    and "length x < 65000 \<Longrightarrow> emits N 0 w (alg_id x) (Inr (mbedtls_asn1_write_algorithm_identifier W N w x 0))"
    and "emits N 0 w (tlv MBEDTLS_ASN1_INTEGER [1]) (Inr (mbedtls_asn1_write_int W N w 1))"
  using assms unfolding asn1_writes_def by blast+

lemma emits_chk:
  assumes "emits N 0 w x f"
    and "length w + length x \<le> N \<Longrightarrow> emits N (n + length x) (x @ w) y (k (int (n + length x)) (x @ w))"
  shows "emits N n w (y @ x) (chk_add (int n) f k)"
proof (cases "length w + length x \<le> N")
  case True
  then have f: "f = Inr (int (length x), x @ w)" using assms(1) by (simp add: emits_def)
  have "chk_add (int n) f k = k (int (n + length x)) (x @ w)"
    by (simp add: chk_add_def f)
  then show ?thesis using assms(2) [OF True] by (auto simp: emits_def)
next
  case False
  then obtain w' where "f = Inr (MBEDTLS_ERR_ASN1_BUF_TOO_SMALL, w')"
    using assms(1) by (auto simp: emits_def)
  then show ?thesis using False
    by (auto simp: chk_add_def emits_def MBEDTLS_ERR_ASN1_BUF_TOO_SMALL_def)
qed

lemma emits_chk0:
  assumes "emits N 0 w x f"
    and "length w + length x \<le> N \<Longrightarrow> emits N (length x) (x @ w) y (k (int (length x)) (x @ w))"
  shows "emits N 0 w (y @ x) (chk_add 0 f k)"
  using emits_chk [of N w x f 0 y k] assms by simp

lemma emits_return: "length w \<le> N \<Longrightarrow> emits N n w [] (return_len (int n) w)"
  by (simp add: emits_def return_len_def)

text \<open>The contents are what was counted: \<open>n\<close> bytes.\<close>

lemma emits_header:
  assumes "asn1_writes W" and "length w \<le> N" and "n < 65536"
    and "length w + length (t # der_len n) \<le> N \<Longrightarrow>
      emits N (n + length (t # der_len n)) (t # der_len n @ w) y (k (int (n + length (t # der_len n))) (t # der_len n @ w))"
  shows "emits N n w (y @ t # der_len n) (write_header W N t (int n) w k)"
proof -
  have "emits N n w ((y @ [t]) @ der_len n) (write_header W N t (int n) w k)"
    unfolding write_header_def
  proof (rule emits_chk)
    show "emits N 0 w (der_len n) (Inr (mbedtls_asn1_write_len W N w (int n)))"
      by (rule asn1_writesD(1) [OF assms(1-3)])
    assume fit: "length w + length (der_len n) \<le> N"
    show "emits N (n + length (der_len n)) (der_len n @ w) (y @ [t])
        (chk_add (int (n + length (der_len n))) (Inr (mbedtls_asn1_write_tag W N (der_len n @ w) t)) k)"
    proof (rule emits_chk)
      show "emits N 0 (der_len n @ w) [t] (Inr (mbedtls_asn1_write_tag W N (der_len n @ w) t))"
        using fit by (intro asn1_writesD(2) [OF assms(1)]) simp
      assume "length (der_len n @ w) + length [t] \<le> N"
      then show "emits N (n + length (der_len n) + length [t]) ([t] @ der_len n @ w) y
          (k (int (n + length (der_len n) + length [t])) ([t] @ der_len n @ w))"
        using assms(4) by simp
    qed
  qed
  then show ?thesis by simp
qed

lemma emits_final:
  assumes "asn1_writes W" and "length w \<le> N" and "n < 65536"
  shows "emits N n w (t # der_len n) (write_header W N t (int n) w return_len)"
proof -
  have "emits N n w ([] @ t # der_len n) (write_header W N t (int n) w return_len)"
    by (rule emits_header [OF assms]) (rule emits_return, simp)
  then show ?thesis by simp
qed

lemma emits_eq: "emits N n w x r \<Longrightarrow> x = y \<Longrightarrow> emits N n w y r"
  by simp

section \<open>The parts\<close>

definition digests_der :: "byte list" where
  "digests_der = tlv ASN1_SET (alg_id MBEDTLS_OID_DIGEST_ALG_SHA256)"

definition content_der :: "byte list" where
  "content_der = tlv ASN1_SEQUENCE (tlv MBEDTLS_ASN1_OID MBEDTLS_OID_PKCS7_DATA)"

definition certs_der :: "byte list \<Rightarrow> byte list list \<Rightarrow> byte list" where
  "certs_der c cs = tlv ASN1_CONTEXT (c @ concat (rev cs))"

definition id_der :: "signer_data \<Rightarrow> byte list" where
  "id_der si = tlv ASN1_SEQUENCE (sg_IssuerRaw si @ tlv MBEDTLS_ASN1_INTEGER (sg_Serial si))"

definition signer_der :: "signer_data \<Rightarrow> byte list" where
  "signer_der si = tlv ASN1_SEQUENCE (tlv MBEDTLS_ASN1_INTEGER [1] @ id_der si
     @ alg_id (sg_AlgIdentifier si) @ alg_id (sg_SigAlgIdentifier si)
     @ tlv MBEDTLS_ASN1_OCTET_STRING (sg_Sig si))"

definition message_der :: "signed_message \<Rightarrow> byte list" where
  "message_der M = tlv ASN1_SEQUENCE (tlv MBEDTLS_ASN1_INTEGER [1] @ digests_der @ content_der
     @ certs_der (sm_Certificate M) (sm_OtherCerts M)
     @ tlv ASN1_SET (concat (rev (map signer_der (sm_SignerInfos M)))))"

lemma tlv_longer: "length x < length (tlv t x)" by (simp add: tlv_def)

lemma oid_lengths [simp]:
  "length MBEDTLS_OID_DIGEST_ALG_SHA256 = 9" "length MBEDTLS_OID_PKCS7_DATA = 9"
  by (simp_all add: MBEDTLS_OID_DIGEST_ALG_SHA256_def pkcs7_oids)

lemma emits_digests:
  assumes "asn1_writes W" and "length w \<le> N"
  shows "emits N 0 w digests_der (MbedTlsPkcs7WriteDigestAlgorithmSet W N w [MBEDTLS_MD_SHA256])"
proof -
  have oid: "MbedTlsPkcs7WriteDigestAlgorithm W N v MBEDTLS_MD_SHA256
      = mbedtls_asn1_write_oid W N v MBEDTLS_OID_DIGEST_ALG_SHA256" for v
    using assms(1) by (simp add: MbedTlsPkcs7WriteDigestAlgorithm_def asn1_writes_def)
  note d = asn1_writesD [OF assms(1)]
  show ?thesis
    unfolding MbedTlsPkcs7WriteDigestAlgorithmSet_def write_digests.simps oid
    by (rule emits_eq, rule emits_chk0, rule d(3) [OF assms(2)], rule emits_chk, rule d(4), simp, simp,
        rule emits_header [OF assms(1)], simp, simp add: tlv_def der_len_def, rule emits_final [OF assms(1)], simp,
        simp add: tlv_def der_len_def)
      (simp add: digests_der_def alg_id_def tlv_def der_len_def)
qed

lemma emits_content:
  assumes "asn1_writes W" and "length w \<le> N"
  shows "emits N 0 w content_der (MbedTlsPkcs7WriteContentInfo W N w None)"
proof -
  note d = asn1_writesD [OF assms(1)]
  show ?thesis
    unfolding MbedTlsPkcs7WriteContentInfo_def Let_def option.case
    by (rule emits_eq, rule emits_chk0, rule d(4) [OF assms(2)], simp, rule emits_final [OF assms(1)], simp,
        simp add: tlv_def der_len_def)
      (simp add: content_der_def tlv_def)
qed

lemma emits_others:
  assumes "asn1_writes W" and "\<And>w n. length w \<le> N \<Longrightarrow> n = n0 + length (concat raws) \<Longrightarrow>
      w = concat (rev raws) @ w0 \<Longrightarrow> emits N n w y (k (int n) w)"
    and "length w0 \<le> N" and "\<forall>r \<in> set raws. length r < 65536"
  shows "emits N n0 w0 (y @ concat (rev raws)) (write_others W N raws (int n0) w0 k)"
  using assms(2-4)
proof (induction raws arbitrary: n0 w0)
  case Nil
  then show ?case by simp
next
  case (Cons r rs)
  have "emits N n0 w0 ((y @ concat (rev rs)) @ r)
      (chk_add (int n0) (Inr (mbedtls_asn1_write_raw_buffer W N w0 r)) (\<lambda>Len w. write_others W N rs Len w k))"
  proof (rule emits_chk)
    show "emits N 0 w0 r (Inr (mbedtls_asn1_write_raw_buffer W N w0 r))"
      using Cons.prems by (intro asn1_writesD(6) [OF assms(1)]) simp_all
    assume "length w0 + length r \<le> N"
    then show "emits N (n0 + length r) (r @ w0) (y @ concat (rev rs))
        (write_others W N rs (int (n0 + length r)) (r @ w0) k)"
      using Cons.prems by (intro Cons.IH) (simp_all add: add.assoc)
  qed
  then show ?case by simp
qed

lemma length_concat_rev: "length (concat (rev xs)) = length (concat xs)"
  by (induction xs) simp_all

lemma length_concat_member: "r \<in> set xs \<Longrightarrow> length r \<le> length (concat xs)"
  by (induction xs) auto

lemma emits_certs:
  assumes "asn1_writes W" and "length w \<le> N" and "length (certs_der c cs) < 65536"
  shows "emits N 0 w (certs_der c cs) (MbedTlsPkcs7WriteCertificates W N w c cs)"
proof -
  let ?x = "c @ concat (rev cs)"
  have n: "length ?x < 65536"
    using tlv_longer [of ?x ASN1_CONTEXT] assms(3) by (simp add: certs_der_def)
  then have r: "\<forall>r \<in> set cs. length r < 65536"
    using length_concat_member [of _ cs] by (fastforce simp: length_concat_rev)
  have "emits N 0 w (((ASN1_CONTEXT # der_len (length (concat cs) + length c)) @ c) @ concat (rev cs))
      (write_others W N cs (int 0) w (\<lambda>Len w.
        chk_add Len (Inr (mbedtls_asn1_write_raw_buffer W N w c)) (\<lambda>Len w.
        write_header W N ASN1_CONTEXT Len w return_len)))"
  proof (rule emits_others [OF assms(1)])
    fix v and k :: nat
    assume v: "length v \<le> N" and k: "k = 0 + length (concat cs)" "v = concat (rev cs) @ w"
    show "emits N k v ((ASN1_CONTEXT # der_len (length (concat cs) + length c)) @ c)
      (chk_add (int k) (Inr (mbedtls_asn1_write_raw_buffer W N v c)) (\<lambda>Len w. write_header W N ASN1_CONTEXT Len w return_len))"
    proof (rule emits_chk)
      show "emits N 0 v c (Inr (mbedtls_asn1_write_raw_buffer W N v c))"
        using n v by (intro asn1_writesD(6) [OF assms(1)]) simp_all
      assume "length v + length c \<le> N"
      then show "emits N (k + length c) (c @ v) (ASN1_CONTEXT # der_len (length (concat cs) + length c))
          (write_header W N ASN1_CONTEXT (int (k + length c)) (c @ v) return_len)"
        using emits_final [OF assms(1), of "c @ v" N "k + length c" ASN1_CONTEXT] n k
        by (simp add: length_concat_rev add.commute)
    qed
  qed (use assms(2) r in simp_all)
  then show ?thesis
    by (simp add: MbedTlsPkcs7WriteCertificates_def certs_der_def tlv_def length_concat_rev add.commute)
qed

text \<open>
  The bytes in front of which the serial number is written; it fits into the first buffer when this
  and the number are at most 4096 bytes.
\<close>

definition behind_serial :: "signer_data \<Rightarrow> byte list" where
  "behind_serial si = alg_id (sg_AlgIdentifier si) @ alg_id (sg_SigAlgIdentifier si)
     @ tlv MBEDTLS_ASN1_OCTET_STRING (sg_Sig si)"

lemma emits_int:
  assumes "asn1_writes W" and "length w + length s \<le> N" and "length s < 65536"
  shows "emits N 0 w (tlv MBEDTLS_ASN1_INTEGER s) (MbedTlsPkcs7WriteInt W N w s)"
proof -
  have "emits N (length s) (s @ w) (MBEDTLS_ASN1_INTEGER # der_len (length s)) (MbedTlsPkcs7WriteInt W N w s)"
    using emits_final [OF assms(1), of "s @ w" N "length s" MBEDTLS_ASN1_INTEGER] assms
    by (simp add: MbedTlsPkcs7WriteInt_def)
  then show ?thesis using assms(2) by (auto simp: emits_def tlv_def split: if_splits)
qed

lemma emits_id:
  assumes "asn1_writes W" and "length w + length (sg_Serial si) \<le> N" and "length (id_der si) < 65536"
  shows "emits N 0 w (id_der si)
    (MbedTlsPkcs7WriteIssuerAndSerialNumber W N w (sg_Serial si) (sg_IssuerRaw si))"
proof -
  let ?x = "sg_IssuerRaw si @ tlv MBEDTLS_ASN1_INTEGER (sg_Serial si)"
  have n: "length ?x < 65536" using tlv_longer [of ?x ASN1_SEQUENCE] assms(3) by (simp add: id_der_def)
  then have s: "length (sg_Serial si) < 65536"
    using tlv_longer [of "sg_Serial si" MBEDTLS_ASN1_INTEGER] by simp
  note d = asn1_writesD [OF assms(1)]
  show ?thesis
    unfolding MbedTlsPkcs7WriteIssuerAndSerialNumber_def
    by (rule emits_eq, rule emits_chk0, rule emits_int [OF assms(1,2) s], rule emits_chk, rule d(6), simp,
        use n in simp, rule emits_final [OF assms(1)], simp, use n in simp)
      (simp add: id_der_def tlv_def add.commute)
qed

lemma emits_signer:
  assumes "asn1_writes W" and "length w + length (behind_serial si) + length (sg_Serial si) \<le> N"
    and "length (signer_der si) < 65536" and "sg_Version si = 1"
    and "length (sg_AlgIdentifier si) < 65000" "length (sg_SigAlgIdentifier si) < 65000"
  shows "emits N 0 w (signer_der si) (MbedTlsPkcs7WriteSignerInfo W N w si)"
proof -
  note d = asn1_writesD [OF assms(1)]
  let ?x = "tlv MBEDTLS_ASN1_INTEGER [1] @ id_der si @ behind_serial si"
  have x: "signer_der si = tlv ASN1_SEQUENCE ?x" by (simp add: signer_der_def behind_serial_def)
  have n: "length ?x < 65536" using tlv_longer [of ?x ASN1_SEQUENCE] assms(3) x by simp
  then have g: "length (id_der si) < 65536" "length (sg_Sig si) < 65536"
    using tlv_longer [of "sg_Sig si" MBEDTLS_ASN1_OCTET_STRING] by (simp_all add: behind_serial_def)
  show ?thesis
    unfolding MbedTlsPkcs7WriteSignerInfo_def assms(4) x
    by (rule emits_eq, rule emits_chk0, rule d(5), use assms(2) in simp, rule g(2), rule emits_chk, rule d(7), simp,
        rule assms(6), rule emits_chk, rule d(7), simp, rule assms(5), rule emits_chk,
        rule emits_id [OF assms(1) _ g(1)], use assms(2) in \<open>simp add: behind_serial_def\<close>,
        rule emits_chk, rule d(8), simp, rule emits_final [OF assms(1)], simp,
        use n in \<open>simp add: behind_serial_def\<close>)
      (simp add: behind_serial_def tlv_def ac_simps)
qed

lemma emits_signer_set:
  assumes "asn1_writes W" and "length w + length (behind_serial si) + length (sg_Serial si) \<le> N"
    and "length (tlv ASN1_SET (signer_der si)) < 65536" and "sg_Version si = 1"
    and "length (sg_AlgIdentifier si) < 65000" "length (sg_SigAlgIdentifier si) < 65000"
  shows "emits N 0 w (tlv ASN1_SET (signer_der si)) (MbedTlsPkcs7WriteSignersInfoSet W N w [si])"
proof -
  have n: "length (signer_der si) < 65536" using tlv_longer [of "signer_der si" ASN1_SET] assms(3) by simp
  show ?thesis
    unfolding MbedTlsPkcs7WriteSignersInfoSet_def write_signers.simps
    by (rule emits_eq, rule emits_chk0, rule emits_signer [OF assms(1,2) n assms(4-6)],
        rule emits_final [OF assms(1)], simp, rule n)
      (simp add: tlv_def)
qed

text \<open>A message of one signer with the constants that \<^verbatim>\<open>Pkcs7Sign\<close> uses.\<close>

definition writable :: "signed_message \<Rightarrow> bool" where
  "writable M \<longleftrightarrow> sm_Version M = 1 \<and> length (message_der M) < 65536 \<and> (\<exists>si. sm_SignerInfos M = [si]
     \<and> sg_Version si = 1 \<and> length (behind_serial si) + length (sg_Serial si) \<le> 4096
     \<and> length (sg_AlgIdentifier si) < 65000 \<and> length (sg_SigAlgIdentifier si) < 65000)"

lemma emits_message:
  assumes "asn1_writes W" and "writable M" and "4096 \<le> N"
  shows "emits N 0 [] (message_der M) (MbedTlsPkcs7WriteDer W N [] M)"
proof -
  obtain si where si: "sm_SignerInfos M = [si]" "sg_Version si = 1"
    "length (behind_serial si) + length (sg_Serial si) \<le> 4096"
    "length (sg_AlgIdentifier si) < 65000" "length (sg_SigAlgIdentifier si) < 65000"
    and v: "sm_Version M = 1" "length (message_der M) < 65536"
    using assms(2) by (auto simp: writable_def)
  let ?c = "certs_der (sm_Certificate M) (sm_OtherCerts M)" and ?s = "tlv ASN1_SET (signer_der si)"
  let ?x = "tlv MBEDTLS_ASN1_INTEGER [1] @ digests_der @ content_der @ ?c @ ?s"
  have x: "message_der M = tlv ASN1_SEQUENCE ?x" by (simp add: message_der_def si(1))
  have n: "length ?x < 65536" using tlv_longer [of ?x ASN1_SEQUENCE] v(2) x by simp
  then have g: "length ?c < 65536" "length ?s < 65536" by simp_all
  have f: "length ([] :: byte list) + length (behind_serial si) + length (sg_Serial si) \<le> N"
    using si(3) assms(3) by simp
  show ?thesis
    unfolding MbedTlsPkcs7WriteDer_def si(1) v(1) x
    by (rule emits_eq, rule emits_chk0, rule emits_signer_set [OF assms(1) f g(2) si(2,4,5)],
        rule emits_chk, rule emits_certs [OF assms(1) _ g(1)], simp,
        rule emits_chk, rule emits_content [OF assms(1)], simp,
        rule emits_chk, rule emits_digests [OF assms(1)], simp,
        rule emits_chk, rule asn1_writesD(8) [OF assms(1)], simp,
        rule emits_final [OF assms(1)], simp, use n in simp)
      (simp add: tlv_def ac_simps)
qed

end
