(* ===== verification/Pkcs7SignProps.thy ===== *)
theory Pkcs7SignProps
  imports Pkcs7SignEncode Pkcs7Props
begin

text \<open>
  \<^verbatim>\<open>Pkcs7Sign\<close> returns the encoding of the message in a new block, enlarging its buffer as often as
  needed, and keeps nothing else; a serial number that does not fit is written in front of the
  buffer.
\<close>

section \<open>The loop\<close>

lemma write_enlarge_ends:
  assumes "asn1_writes W" and "writable M" and "4096 \<le> N" and "pool_inv p" and "b \<in> pool_live p"
  shows "\<exists>r p'. write_enlarge W M N b p = Some (Inr (r, p')) \<and> pool_inv p' \<and> pool_ok p' = pool_ok p
    \<and> (case r of None \<Rightarrow> pool_live p' = pool_live p - {b}
       | Some (Len, w, b') \<Rightarrow> Len = int (length (message_der M)) \<and> w = message_der M
           \<and> b' \<notin> pool_live p - {b} \<and> pool_live p' = insert b' (pool_live p - {b}))
    \<and> ((\<forall>k n. pool_ok p k n) \<longrightarrow> r \<noteq> None)"
  using assms(3-5)
proof (induction "length (message_der M) - N" arbitrary: N b p rule: less_induct)
  case less
  note e = emits_message [OF assms(1,2) less.prems(1)]
  show ?case
  proof (cases "length (message_der M) \<le> N")
    case True
    then have "MbedTlsPkcs7WriteDer W N [] M = Inr (int (length (message_der M)), message_der M)"
      using e by (simp add: emits_def)
    then have "write_enlarge W M N b p = Some (Inr (Some (int (length (message_der M)), message_der M, b), p))"
      by (simp add: write_enlarge.simps MBEDTLS_ERR_ASN1_BUF_TOO_SMALL_def)
    then show ?thesis using less.prems by (auto simp: insert_absorb)
  next
    case False
    then obtain w' where d: "MbedTlsPkcs7WriteDer W N [] M = Inr (MBEDTLS_ERR_ASN1_BUF_TOO_SMALL, w')"
      using e by (auto simp: emits_def)
    obtain p1 where p1: "FreePool p (Some b) = Inr p1" "pool_inv p1" "pool_live p1 = pool_live p - {b}"
      "pool_ok p1 = pool_ok p" using FreePool_live [OF less.prems(3,2)] by blast
    obtain a p2 where a: "AllocatePool p1 (N * 2) = (a, p2)" by fastforce
    have step: "write_enlarge W M N b p = (case a of None \<Rightarrow> Some (Inr (None, p2))
        | Some b \<Rightarrow> write_enlarge W M (N * 2) b p2)"
      by (subst write_enlarge.simps) (simp add: d p1(1) a split: option.splits)
    show ?thesis
    proof (cases a)
      case None
      then have "\<not> (\<forall>k n. pool_ok p k n)" using a p1(4) by (auto simp: AllocatePool_def split: if_splits)
      then show ?thesis using None step AllocatePool_None [of p1 "N * 2" p2] a p1 by auto
    next
      case (Some b2)
      note p2 = AllocatePool_Some [OF a [unfolded Some] p1(2)]
      have "\<exists>r p'. write_enlarge W M (N * 2) b2 p2 = Some (Inr (r, p')) \<and> pool_inv p' \<and> pool_ok p' = pool_ok p2
        \<and> (case r of None \<Rightarrow> pool_live p' = pool_live p2 - {b2}
           | Some (Len, w, b') \<Rightarrow> Len = int (length (message_der M)) \<and> w = message_der M
               \<and> b' \<notin> pool_live p2 - {b2} \<and> pool_live p' = insert b' (pool_live p2 - {b2}))
        \<and> ((\<forall>k n. pool_ok p2 k n) \<longrightarrow> r \<noteq> None)"
        using False less.prems(1) p2 by (intro less.hyps) auto
      moreover have l: "pool_live p2 - {b2} = pool_live p - {b}" using p2 p1(3) by auto
      moreover have o2: "pool_ok p2 = pool_ok p" using p2(4) p1(4) by simp
      ultimately show ?thesis unfolding step Some option.case l o2 by blast
    qed
  qed
qed

section \<open>The result\<close>

lemma message_der_pos: "0 < length (message_der M)"
  by (simp add: message_der_def tlv_def)

text \<open>What a call leaves: the message in a new block, or nothing; the caller's blocks stay.\<close>

definition sign_outcome :: "signed_message \<Rightarrow> bool \<Rightarrow> nat set \<Rightarrow> bool \<Rightarrow> sign_result \<Rightarrow> bool" where
  "sign_outcome M freed live plenty r \<longleftrightarrow>
    (case r of (Status, SignedData, fr, p') \<Rightarrow> fr = freed \<and> (plenty \<longrightarrow> Status) \<and>
      (if Status then \<exists>d. SignedData = Some (Some (d, message_der M)) \<and> d \<notin> live \<and> pool_live p' = insert d live
       else SignedData \<in> {None, Some None} \<and> pool_live p' = live))"

lemma sign_exit_keeps:
  assumes "pool_inv p" and "pool_live p = insert k (set_option b \<union> live)" and "k \<notin> live" and "k \<notin> set_option b"
    and "set_option b \<inter> live = {}"
  shows "\<exists>p'. sign_exit k b st out fr p = Inr (st, out, fr, p') \<and> pool_live p' = live"
proof -
  obtain p1 where p1: "FreePool p (Some k) = Inr p1" "pool_inv p1" "pool_live p1 = set_option b \<union> live"
    using FreePool_live [of k p] assms by auto
  show ?thesis
  proof (cases b)
    case None
    then show ?thesis using p1 by (simp add: sign_exit_def)
  next
    case (Some c)
    then obtain p2 where "FreePool p1 (Some c) = Inr p2" "pool_live p2 = live"
      using FreePool_live [of c p1] p1 assms(5) by auto
    then show ?thesis using Some p1(1) by (simp add: sign_exit_def)
  qed
qed

lemma copy_result_outcome:
  assumes "pool_inv p" and "k \<notin> live" and "r \<noteq> None \<longrightarrow> fst (the r) = int (length (message_der M))
      \<and> fst (snd (the r)) = message_der M"
    and "pool_live p = insert k (set_option (map_option (snd \<circ> snd) r) \<union> live)"
    and "k \<notin> set_option (map_option (snd \<circ> snd) r)" "set_option (map_option (snd \<circ> snd) r) \<inter> live = {}"
    and "plenty \<longrightarrow> r \<noteq> None \<and> (\<forall>k n. pool_ok p k n)"
  shows "\<exists>x. copy_result k fr (r, p) = Inr x \<and> sign_outcome M fr live plenty x"
proof (cases r)
  case None
  then show ?thesis using sign_exit_keeps [of p k None live False None fr] assms
    by (auto simp: copy_result_def sign_outcome_def)
next
  case (Some y)
  then obtain b where y: "r = Some (int (length (message_der M)), message_der M, b)"
    using assms(3) by (cases y) auto
  let ?n = "length (message_der M)"
  obtain a p1 where a: "AllocatePool p ?n = (a, p1)" by fastforce
  have cr: "copy_result k fr (r, p) = (case a of
      None \<Rightarrow> sign_exit k (Some b) False (Some None) fr p1
    | Some d \<Rightarrow> sign_exit k (Some b) True (Some (Some (d, message_der M))) fr p1)"
    using message_der_pos [of M] by (simp add: copy_result_def y a bytes_def seg_def split: option.splits)
  show ?thesis
  proof (cases a)
    case None
    then have "\<not> plenty" using a assms(7) by (auto simp: AllocatePool_def split: if_splits)
    then show ?thesis
      using None cr AllocatePool_None [OF a [unfolded None] assms(1)] assms(2,4-6)
        sign_exit_keeps [of p1 k "Some b" live False "Some None" fr]
      by (auto simp: sign_outcome_def y)
  next
    case (Some d)
    note p1 = AllocatePool_Some [OF a [unfolded Some] assms(1)]
    have "\<exists>p'. sign_exit k (Some b) True (Some (Some (d, message_der M))) fr p1
        = Inr (True, Some (Some (d, message_der M)), fr, p') \<and> pool_live p' = insert d live"
      using p1 assms(2,4-6) by (intro sign_exit_keeps) (auto simp: y)
    then show ?thesis using Some cr p1 assms(2,4) by (auto simp: sign_outcome_def)
  qed
qed

lemma sign_with_outcome:
  assumes "asn1_writes W" and "pool_inv p" and "k \<in> pool_live p"
    and sign: "sign_value S Key Pw D = Some (Pkey, Sig)" "sig_algorithm S Pkey = Some Alg"
    and w: "writable (message_of Crt Others Alg Sig)"
    and plenty: "plenty \<longrightarrow> (\<forall>k n. pool_ok p k n)"
  shows "\<exists>x. sign_with W S p k Key Pw D Crt Others = Some (Inr x)
    \<and> sign_outcome (message_of Crt Others Alg Sig) (Others \<noteq> []) (pool_live p - {k}) plenty x"
proof -
  let ?M = "message_of Crt Others Alg Sig" and ?fr = "Others \<noteq> []"
  obtain a p1 where a: "AllocatePool p 4096 = (a, p1)" by fastforce
  show ?thesis
  proof (cases a)
    case None
    then have n: "\<not> plenty" using a plenty by (auto simp: AllocatePool_def split: if_splits)
    have "\<exists>p'. sign_exit k None False None ?fr p1 = Inr (False, None, ?fr, p') \<and> pool_live p' = pool_live p - {k}"
      using AllocatePool_None [OF a [unfolded None] assms(2)] assms(3) by (intro sign_exit_keeps) auto
    then show ?thesis using n None by (auto simp: sign_with_def sign a sign_outcome_def)
  next
    case (Some b)
    note p1 = AllocatePool_Some [OF a [unfolded Some] assms(2)]
    have bl: "b \<in> pool_live p1" using p1(3) by simp
    from write_enlarge_ends [OF assms(1) w order_refl p1(1) bl]
    obtain r p' where r: "write_enlarge W ?M 4096 b p1 = Some (Inr (r, p'))" "pool_inv p'" "pool_ok p' = pool_ok p1"
      "case r of None \<Rightarrow> pool_live p' = pool_live p1 - {b}
         | Some (Len, w, b') \<Rightarrow> Len = int (length (message_der ?M)) \<and> w = message_der ?M
             \<and> b' \<notin> pool_live p1 - {b} \<and> pool_live p' = insert b' (pool_live p1 - {b})"
      "(\<forall>k n. pool_ok p1 k n) \<longrightarrow> r \<noteq> None" by blast
    have live: "pool_live p1 - {b} = insert k (pool_live p - {k})" using p1(2,3) assms(3) by auto
    have "\<exists>x. copy_result k ?fr (r, p') = Inr x \<and> sign_outcome ?M ?fr (pool_live p - {k}) plenty x"
      using r(2-5) p1(4) plenty by (intro copy_result_outcome) (auto simp: live split: option.splits prod.splits)
    then show ?thesis by (simp add: sign_with_def sign a Some r(1))
  qed
qed

text \<open>For a key that can be read and a certificate that can be decoded, and with memory available,
  \<^verbatim>\<open>Pkcs7Sign\<close> returns TRUE with exactly the encoded message of the signature in a new block. The copy
  of the key and the buffer are freed, and so are the certificates of \<^verbatim>\<open>OtherCerts\<close>.\<close>

theorem pkcs7_sign_exact:
  assumes "asn1_writes W" and "pool_inv p" and "\<forall>k n. pool_ok p k n"
    and "mbedtls_x509_crt_parse_der L Cert = (0, Crt)" and "Cert \<noteq> []" and "length D \<le> INT_MAX"
    and "key_copy PrivateKey = Inr Key"
    and "sign_value S Key Pw D = Some (Pkey, Sig)" and "sig_algorithm S Pkey = Some Alg"
    and "writable (message_of Crt Others Alg Sig)"
  shows "\<exists>d p'. Pkcs7Sign L W S p (Some PrivateKey) (Some Pw) (Some D) (Some Cert) Others True
      = Some (Inr (True, Some (Some (d, message_der (message_of Crt Others Alg Sig))), Others \<noteq> [], p'))
    \<and> d \<notin> pool_live p \<and> pool_live p' = insert d (pool_live p)"
proof -
  obtain k p1 where a: "AllocatePool p (length Key) = (Some k, p1)"
    using assms(3) by (auto simp: AllocatePool_def)
  note p1 = AllocatePool_Some [OF a assms(2)]
  have live: "pool_live p1 - {k} = pool_live p" "k \<in> pool_live p1" using p1(2,3) by auto
  have ok: "True \<longrightarrow> (\<forall>k n. pool_ok p1 k n)" using p1(4) assms(3) by simp
  from sign_with_outcome [OF assms(1) p1(1) live(2) assms(8-10) ok] obtain x where
    "sign_with W S p1 k Key Pw D Crt Others = Some (Inr x)"
    "sign_outcome (message_of Crt Others Alg Sig) (Others \<noteq> []) (pool_live p) True x"
    unfolding live by blast
  then show ?thesis using assms(4-7) a
    by (cases x) (auto simp: Pkcs7Sign_def sign_outcome_def)
qed

section \<open>The serial number\<close>

text \<open>The bytes of the serial number are copied without a check, so \<^verbatim>\<open>MbedTlsPkcs7WriteDer\<close> writes in
  front of the buffer when what comes behind the number fits and the number does not.\<close>

lemma emits_fits: "emits N 0 w x (Inr r) \<Longrightarrow> length w + length x \<le> N \<Longrightarrow> r = (int (length x), x @ w)"
  by (simp add: emits_def)

theorem pkcs7_sign_serial_overrun:
  assumes "asn1_writes W" and "sm_SignerInfos M = [si]"
    and "length (sg_AlgIdentifier si) < 65000" "length (sg_SigAlgIdentifier si) < 65000"
    and "length (sg_Sig si) < 65536"
    and "length (behind_serial si) \<le> N" and "N < length (behind_serial si) + length (sg_Serial si)"
  shows "MbedTlsPkcs7WriteDer W N [] M = Inl OobWrite"
proof -
  note d = asn1_writesD [OF assms(1)]
  let ?o = "tlv MBEDTLS_ASN1_OCTET_STRING (sg_Sig si)" and ?s = "alg_id (sg_SigAlgIdentifier si)"
    and ?a = "alg_id (sg_AlgIdentifier si)"
  have "length ?a + (length ?s + length ?o) \<le> N" using assms(6) by (simp add: behind_serial_def)
  then have w: "mbedtls_asn1_write_octet_string W N [] (sg_Sig si) = (int (length ?o), ?o)"
      "mbedtls_asn1_write_algorithm_identifier W N ?o (sg_SigAlgIdentifier si) 0 = (int (length ?s), ?s @ ?o)"
      "mbedtls_asn1_write_algorithm_identifier W N (?s @ ?o) (sg_AlgIdentifier si) 0
        = (int (length ?a), ?a @ ?s @ ?o)"
    using emits_fits [OF d(5) [of "[]" N "sg_Sig si"]] assms(3-5)
      emits_fits [OF d(7) [of ?o N "sg_SigAlgIdentifier si"]]
      emits_fits [OF d(7) [of "?s @ ?o" N "sg_AlgIdentifier si"]] by simp_all
  have "MbedTlsPkcs7WriteInt W N (?a @ ?s @ ?o) (sg_Serial si) = Inl OobWrite"
    using assms(7) by (simp add: MbedTlsPkcs7WriteInt_def behind_serial_def)
  then show ?thesis
    by (simp add: MbedTlsPkcs7WriteDer_def MbedTlsPkcs7WriteSignersInfoSet_def assms(2)
        MbedTlsPkcs7WriteSignerInfo_def MbedTlsPkcs7WriteIssuerAndSerialNumber_def chk_add_def w hdr_def)
qed

section \<open>A writer\<close>

text \<open>The documented behaviour is that of a writer which knows the encodings.\<close>

definition put :: "nat \<Rightarrow> byte list \<Rightarrow> byte list \<Rightarrow> int \<times> byte list" where
  "put N w x = (if length w + length x \<le> N then (int (length x), x @ w)
                else (MBEDTLS_ERR_ASN1_BUF_TOO_SMALL, w))"

lemma emits_put: "emits N 0 w x (Inr (put N w x))"
  by (simp add: emits_def put_def)

definition demo_writer :: asn1_writer where
  "demo_writer = \<lparr>mbedtls_asn1_write_len = (\<lambda>N w n. put N w (der_len (nat n))),
     mbedtls_asn1_write_tag = (\<lambda>N w t. put N w [t]), mbedtls_asn1_write_null = (\<lambda>N w. put N w [5, 0]),
     mbedtls_asn1_write_oid = (\<lambda>N w x. put N w (tlv MBEDTLS_ASN1_OID x)),
     mbedtls_asn1_write_octet_string = (\<lambda>N w x. put N w (tlv MBEDTLS_ASN1_OCTET_STRING x)),
     mbedtls_asn1_write_raw_buffer = put,
     mbedtls_asn1_write_int = (\<lambda>N w i. put N w (tlv MBEDTLS_ASN1_INTEGER [of_int i])),
     mbedtls_asn1_write_algorithm_identifier = (\<lambda>N w x n. put N w (alg_id x)),
     mbedtls_oid_get_oid_by_md =
       (\<lambda>t. if t = MBEDTLS_MD_SHA256 then Some MBEDTLS_OID_DIGEST_ALG_SHA256 else None)\<rparr>"

lemma demo_writer_writes: "asn1_writes demo_writer"
  by (simp add: asn1_writes_def demo_writer_def emits_put)

end
