(* ===== verification/Spec2Isabelle.thy ===== *)
theory Spec2Isabelle
  imports RtProps ImageProps MmTransferProps PeCoffProps CryptoBin LoaderProps HashProps
    CrtTimeProps CrtSort InetProps Authenticode EkuSafe OsslX509Props TlsDemo TimeStampOsslProps OsslEku
    Pkcs7SignProps
begin

text \<open>
  Verification of the C code of the \<^verbatim>\<open>mu_crypto_release\<close> repository.

  \<^bold>\<open>The program.\<close> The repository builds one binary, \<^verbatim>\<open>OneCryptoBin\<close>, that holds the whole
  cryptographic library of a UEFI firmware, and the drivers that load it. The binary has no
  services of its own: everything it needs from its host (allocation, random numbers, time,
  debug output) is called through a table of functions, \<^verbatim>\<open>ONE_CRYPTO_DEPENDENCIES\<close>, which the
  loader gives to the binary's constructor, and the constructor fills the
  \<^verbatim>\<open>ONE_CRYPTO_PROTOCOL\<close> that the loader installs. There are four loaders: for MM, for DXE
  through a protocol, for DXE from a section of a firmware volume, and for DXE from a copy of
  the binary that a StandaloneMM driver, the image provider, hands over in pieces through the MM
  communication buffer. Inside the binary are the code of \<^verbatim>\<open>OpensslPkg\<close> or \<^verbatim>\<open>MbedTlsPkg\<close>: the
  C run time that the third-party libraries are compiled against, the algorithms that the
  repository implements itself, and thin wrappers over OpenSSL or MbedTLS.

  \<^bold>\<open>Conventions.\<close> \<open>Prelude\<close> holds the machine types, the status codes of UEFI and the type
  \<open>'a res\<close>: \<open>Inl\<close> a fault (an access out of bounds, a NULL pointer, a failed \<^verbatim>\<open>ASSERT\<close>), \<open>Inr\<close>
  a result. Integers that can wrap are words of the width of the code, \<^verbatim>\<open>UINTN\<close> has 64 bits.
  Memory is a list of bytes per buffer, or the blocks of a pool (\<open>Pool\<close>) whose allocation
  function is an argument, so that running out of memory is a case of every theorem. Code that
  is not in the repository is an argument of the definitions that call it. \<open>Prelude\<close> also has
  the interfaces: \<open>invariant_machine\<close> and \<open>total_machine\<close> (operations that keep an invariant,
  and that never fault), interpreted by the page-table allocator and by the image provider, and
  \<open>scratch_allocator\<close> (a block that is allocated is fresh, and freeing it gives the previous
  allocator back), interpreted by the pool, by the page-table allocator and by the C heap;
  \<open>LoaderSafe\<close> has \<open>crypto_constructor\<close>, what a loader relies on when it calls the binary,
  interpreted on the two constructors of the binary.

  \<^bold>\<open>Runtime memory\<close> (\<^verbatim>\<open>BaseCryptLib/SysCall/RuntimeMemAllocation.c\<close>). \<open>RtPageTable\<close> has the
  page table (\<open>rt_page_table\<close>) inside its scratch buffer, the search of a free run with its
  rotating cursor (\<open>LookupFreeMemRegion\<close>), allocation, release, \<open>rt_malloc\<close>, \<open>rt_realloc\<close>,
  \<open>rt_free\<close>, the constructor and the address-change event. \<open>RtPageTableInv\<close> and \<open>RtMalloc\<close>
  prove a well-formedness invariant and that the table refines a map \<open>owner\<close> from pages to
  blocks; \<open>RtProps\<close> states it, and three sequences of calls on which the manager misbehaves.

  \<^bold>\<open>Transfer of the binary.\<close> \<open>ProviderMsg\<close>: the message and the GUIDs. \<open>ImageProvider\<close>
  (\<^verbatim>\<open>OneCryptoImageProviderMm.c\<close>): the search of HOBs and firmware volumes, the communication
  handler, ReadyToLock and the entry point. \<open>ImageLocate\<close> and \<open>ImageServe\<close> prove the search
  and the handler against their specifications, \<open>ImageProps\<close> states them and the life cycle of
  the registration, \<open>ImageDemo\<close> is a concrete firmware. \<open>FetchFromMm\<close>
  (\<^verbatim>\<open>OneCryptoLoaderDxeFromMm.c\<close>): the client over an arbitrary transport; \<open>FetchSafe\<close> proves
  that it neither faults nor leaks whatever the peer answers, \<open>MmTransfer\<close> composes the two
  ends, \<open>MmTransferProps\<close> states both; \<open>FetchOver\<close> carries it over to the larger state of a loader.

  \<^bold>\<open>Loaders and binary.\<close> \<open>CrtDeps\<close>: the dependency table and the libraries that call through
  it (\<^verbatim>\<open>OneCryptoPkg/Library\<close>). \<open>CryptoBin\<close> (\<^verbatim>\<open>OneCryptoBin\<close>): \<open>CryptoInit\<close>, the constructor
  with its size negotiation and the driver entry points. \<open>PeCoff\<close>, \<open>PeCoffProps\<close>
  (\<^verbatim>\<open>PeCoffExtendedLib.c\<close>): the search of the export table of a loaded image. \<open>LoaderDeps\<close>,
  \<open>Loaders\<close>, \<open>LoaderFromMm\<close>: the lazy random number functions, the entry points of the four
  loaders and the extraction of the image from a compressed volume. \<open>LoaderSafe\<close>,
  \<open>ExtractSafe\<close>, \<open>LoaderOutcome\<close>, \<open>FromMmOutcome\<close> compute what each loader leaves behind
  on every path; \<open>LoaderProps\<close> states it. The loaders do not check the export table of an image
  that the firmware has loaded, so a fault of that search is one of their outcomes
  (\<open>lookup_fault\<close>).

  \<^bold>\<open>Hash functions of the repository.\<close> \<open>Keccak\<close>: the sponge of \<^verbatim>\<open>CryptSha3.c\<close>, the encodings of
  \<^verbatim>\<open>CryptXkcp.c\<close> and \<^verbatim>\<open>CryptCShake256.c\<close>. \<open>KeccakEncode\<close>, \<open>KeccakSponge\<close> and \<open>CShake\<close> relate
  them to NIST SP 800-185 (\<open>left_encode\<close>, \<open>right_encode\<close>, \<open>bytepad\<close>, and a sponge over the
  whole message). \<open>ParallelHash\<close>: the processors as an inductive step relation between
  accesses to the spin locks; \<open>ParallelHashSafe\<close> proves mutual exclusion and progress, and
  \<open>HashProps\<close> states the properties of all of them.

  \<^bold>\<open>C run time.\<close> \<open>CrtTime\<close>, \<open>CrtTimeProps\<close> (\<^verbatim>\<open>TimerWrapper.c\<close> of both libraries): the
  conversions between seconds and calendar time, against a Gregorian calendar on natural
  numbers. \<open>CrtHeap\<close> (\<^verbatim>\<open>BaseMemAllocation.c\<close>): \<^verbatim>\<open>malloc\<close>, \<^verbatim>\<open>realloc\<close>, \<^verbatim>\<open>free\<close> with block
  headers. \<open>CrtSort\<close>: \<^verbatim>\<open>qsort\<close> on bytes, refined by a partition of the list of elements.
  \<open>CrtString\<close>: the string functions with loops of their own. \<open>Inet\<close>, \<open>InetProps\<close>
  (\<^verbatim>\<open>inet_pton.c\<close>): the address parsers with every buffer access, against grammars.

  \<^bold>\<open>Signatures.\<close> \<open>Pkcs7Parse\<close>, \<open>Pkcs7Verify\<close>, \<open>Pkcs7Signers\<close>
  (\<^verbatim>\<open>MbedTlsPkg/.../CryptPkcs7VerifyCommon.c\<close>): the parser of PKCS#7 messages, \<^verbatim>\<open>Pkcs7Verify\<close>
  and the extraction of certificates. \<open>Pkcs7Safe\<close> proves that the parser stays inside the
  message, \<open>Pkcs7Accept\<close> computes which signers are accepted, \<open>Pkcs7Props\<close> states the
  properties; \<open>Pkcs7Demo\<close> is a concrete library with messages. \<open>Authenticode\<close>
  (\<^verbatim>\<open>CryptAuthenticode.c\<close> of both libraries) rests on them. \<open>Eku\<close> (\<^verbatim>\<open>CryptPkcs7VerifyEku.c\<close> of
  MbedTLS): the extended key usages of a signature; \<open>EkuOid\<close> compares the identifiers with DER,
  \<open>EkuProps\<close> says which certificate is judged and how, \<open>EkuSafe\<close> that the function ends;
  \<open>EkuDemo\<close> has the messages of the witnesses. \<open>OsslPkcs7\<close>, \<open>OsslPkcs7Props\<close>, \<open>OsslEku\<close>: the same
  functions over OpenSSL. \<open>TimeStamp\<close> and \<open>TimeStampOssl\<close> (\<^verbatim>\<open>CryptTs.c\<close> of both libraries): the
  time stamps of Authenticode signatures; \<open>TimeStampProps\<close> and \<open>TimeStampOsslProps\<close> say which are
  accepted. \<open>Pkcs7Sign\<close> (\<^verbatim>\<open>CryptPkcs7Sign.c\<close> of MbedTLS): signing, and the writer of messages, which
  \<open>Pkcs7SignEncode\<close> compares with the encoding; \<open>Pkcs7SignProps\<close> has what \<^verbatim>\<open>Pkcs7Sign\<close> returns.
  \<open>Der\<close> has the elements that the messages of these proofs are made of.

  \<^bold>\<open>Certificates.\<close> \<open>X509\<close> (\<^verbatim>\<open>MbedTlsPkg/.../CryptX509.c\<close>): objects and stacks of certificates,
  the functions that copy a field into a buffer, keys, extensions. \<open>X509Chain\<close>: the functions
  that walk a chain of DER certificates. \<open>X509Time\<close>: dates, their comparison and validity.
  \<open>X509Props\<close> states their properties. \<open>OsslX509\<close> and \<open>OsslX509Props\<close>: the same functions of
  \<^verbatim>\<open>OpensslPkg/.../CryptX509.c\<close>, compared with those of MbedTLS.

  \<^bold>\<open>TLS.\<close> \<open>Tls\<close> (\<^verbatim>\<open>TlsInit.c\<close>, \<^verbatim>\<open>TlsProcess.c\<close>): connections and the packets that go in and out.
  \<open>TlsConfig\<close>, \<open>TlsCerts\<close> (\<^verbatim>\<open>TlsConfig.c\<close>): the settings. \<open>TlsStrings\<close> says what is in the strings of
  ciphers and of signature algorithms, \<open>TlsProps\<close> states the other properties, \<open>TlsDemo\<close> has the
  stand-ins for OpenSSL of the witnesses.

  \<^bold>\<open>Termination.\<close> All definitions are total functions without fuel, except the scans whose
  end depends on code outside of the repository: \<open>scan_files\<close>, \<open>scan_hobs\<close>, \<open>nested_scan\<close>,
  \<open>cert_loop\<close>, \<open>InternalX509FindExtensionData\<close>, \<open>signer_loop\<close>, \<open>verify_loop\<close>, \<open>cert_at_loop\<close>,
  \<open>ossl_verify_loop\<close>, \<open>ossl_cert_at_loop\<close>, \<open>write_enlarge\<close> and \<open>drain_errors\<close> are
  \<open>partial_function (option)\<close>, with \<open>None\<close> for a loop that does not end.
  \<open>locate_first_match\<close> and \<open>extract_exact\<close> prove that the first three return when the libraries
  enumerate a finite list of files, \<open>pkcs7_verify_ends\<close>,
  \<open>eku_verify_ends\<close>, \<open>x509_chain_verified\<close> and \<open>x509_cert_at\<close> that those over MbedTLS
  return when the decoder of ASN.1 stays inside its bounds, \<open>write_enlarge_ends\<close> that the
  enlarging of a buffer ends, and \<open>tls_handshake_returns\<close> that
  \<open>drain_errors\<close> does when OpenSSL's queue of errors is finite. \<open>CalculateTimeT\<close> of a year below 1970 is not followed through its
  loop over all 64-bit years. Progress of the interleaved \<open>ParallelHash\<close> is
  \<open>parallel_hash_progress\<close>: the end can be reached from every reachable state.

  \<^bold>\<open>Parameters.\<close> Boot and MM services, the PE/COFF, firmware volume, HOB, PCD and guided-section
  libraries, buffer validation, CRC-32, pool allocation, \<^verbatim>\<open>SHA3_absorb\<close> and \<^verbatim>\<open>SHA3_squeeze\<close>,
  \<^verbatim>\<open>DivS64x64Remainder\<close>, \<^verbatim>\<open>ScanMem8\<close>, \<^verbatim>\<open>AsciiStrSize\<close>, the comparison function of \<^verbatim>\<open>qsort\<close>, the functions of MbedTLS that decode ASN.1,
  certificates and keys, hash and verify (the records \<open>mbedtls\<close>, \<open>x509_lib\<close>
  and \<open>x509_ossl\<close>, with \<open>asn1_ok\<close>, \<open>md_ok\<close>,
  \<open>tag_checked\<close> and others for what MbedTLS documents), those that write ASN.1 and sign (\<open>asn1_writer\<close>,
  \<open>sign_ops\<close>), OpenSSL's functions on messages, certificates and time stamps (the records
  \<open>p7_ossl\<close>, \<open>eku_ossl\<close>, \<open>ts_ossl\<close>) and its
  functions on connections (the records \<open>ssl_objects\<close>, \<open>ssl_io\<close>, \<open>ssl_config\<close>, \<open>ssl_certs\<close>,
  \<open>ssl_query\<close>). What
  is assumed of them stands in the hypotheses of each theorem.

  \<^bold>\<open>Not modelled.\<close>
  \<^item> \<^verbatim>\<open>OpensslLib/OpensslGen\<close> and \<^verbatim>\<open>mbedtls_config.h\<close>: generated sources, assembly and
    configuration of the third-party libraries.
  \<^item> The wrappers of \<^verbatim>\<open>BaseCryptLib\<close> that check their arguments for NULL and for the range of a
    length and then make one or a few calls to OpenSSL or MbedTLS (hashes, HMAC, HKDF, AES, big
    numbers, RSA, EC, DH, PEM): the behaviour is that of the called library. Also the date functions
    and the copies of public keys of OpenSSL's \<^verbatim>\<open>CryptX509.c\<close>.
  \<^item> The \<^verbatim>\<open>*Null.c\<close> files and \<^verbatim>\<open>DummyOpensslSupport.c\<close>: an \<^verbatim>\<open>ASSERT\<close> and a constant result.
  \<^item> Four functions of \<^verbatim>\<open>TlsConfig.c\<close> that return \<^verbatim>\<open>EFI_UNSUPPORTED\<close> and do nothing else.
  \<^item> \<^verbatim>\<open>OpensslStub\<close>: providers and stores of OpenSSL without a platform.
  \<^item> \<^verbatim>\<open>DebugLibOnOneCrypto\<close>: output only. The entry point libraries of StandaloneMM: the calls of
    constructors that the build generates.
  \<^item> \<^verbatim>\<open>MbedTlsPkg\<close>'s \<^verbatim>\<open>RuntimeMemAllocation.c\<close>, the same file as OpenSSL's except for a constant.
  \<^item> The Python scripts, the build and CI files.

  \<^bold>\<open>Plan.\<close> Next: the parser of \<open>Pkcs7Parse\<close> on what \<open>Pkcs7Sign\<close> writes, and the key derivation
  functions.
\<close>

end
